(* ===== verification/Yaffs_Prelude.thy ===== *)
theory Yaffs_Prelude
  imports Main "HOL-Library.Word" "HOL-Library.Monad_Syntax"
begin

text \<open>
  Shared vocabulary of the development: the C integer types of yportenv.h as
  machine words, the collections of simplification rules the component proofs
  draw on, and generic facts on words, lists and options.

  Conventions.  A C pointer to a buffer is the list of the bytes of the buffer.
  An access outside a buffer, an array index out of range or a BUG() that the
  code does not survive makes the operation return None; every other outcome is
  a value under Some.
\<close>

unbundle bit_operations_syntax

type_synonym u8 = "8 word"
type_synonym u16 = "16 word"
type_synonym u32 = "32 word"
type_synonym u64 = "64 word"

named_theorems bitwise \<open>word equations proved bit by bit\<close>
named_theorems geom \<open>geometry and size facts\<close>

section \<open>Status codes\<close>

abbreviation (input) YAFFS_OK :: int where "YAFFS_OK \<equiv> 1"
abbreviation (input) YAFFS_FAIL :: int where "YAFFS_FAIL \<equiv> 0"

section \<open>Words\<close>

lemma xor_cancel_middle [bitwise]: "(a XOR b) XOR (a XOR c) = b XOR (c :: 'a::len word)"
  by (simp add: xor.assoc xor.left_commute)

lemma xor_swap [bitwise]: "(a XOR b) XOR (c XOR d) = (a XOR c) XOR (b XOR (d :: 'a::len word))"
  by (simp add: xor.assoc xor.left_commute)

lemma not_xor_not [bitwise]: "NOT a XOR NOT b = a XOR (b :: 'a::len word)"
  by (rule bit_word_eqI) (auto simp: bit_simps)

lemma less_8_cases: "(n::nat) < 8 \<Longrightarrow> n = 0 \<or> n = 1 \<or> n = 2 \<or> n = 3 \<or> n = 4 \<or> n = 5 \<or> n = 6 \<or> n = 7"
  by arith

lemma u8_eqI:
  assumes "bit (x::u8) 0 = bit y 0" and "bit x 1 = bit y 1" and "bit x 2 = bit y 2" and "bit x 3 = bit y 3"
    and "bit x 4 = bit y 4" and "bit x 5 = bit y 5" and "bit x 6 = bit y 6" and "bit x 7 = bit y 7"
  shows "x = y"
proof (rule bit_word_eqI)
  fix n assume "n < LENGTH(8)"
  then have "n < 8" by simp
  then have "n = 0 \<or> n = 1 \<or> n = 2 \<or> n = 3 \<or> n = 4 \<or> n = 5 \<or> n = 6 \<or> n = 7"
    by (rule less_8_cases)
  then show "bit x n = bit y n" using assms by auto
qed

lemma unat_u8_less [simp]: "unat (x::u8) < 256"
  using unsigned_less [of x, where 'a = nat] by simp

section \<open>Lists\<close>

lemma nth_list_update_if: "i < length xs \<Longrightarrow> xs[i := v] ! j = (if i = j then v else xs ! j)"
  by (simp add: nth_list_update)

end
