(* ===== verification/Yaffs_Types.thy ===== *)
theory Yaffs_Types
  imports Yaffs_Prelude
begin

text \<open>
  The data of core/yaffs_guts.h that several components share: the constants,
  the extended tags of a chunk (\<^verbatim>\<open>struct yaffs_ext_tags\<close>), the object header as it
  is stored in a chunk (\<^verbatim>\<open>struct yaffs_obj_hdr\<close>) and the per-block information
  (\<^verbatim>\<open>struct yaffs_block_info\<close>).

  Every \<^verbatim>\<open>unsigned\<close> and \<^verbatim>\<open>u32\<close> is a 32-bit word; a \<^verbatim>\<open>loff_t\<close> is a 64-bit word
  read as two's complement; a \<^verbatim>\<open>YCHAR\<close> array is a list of bytes (the build without
  CONFIG_YAFFS_UNICODE, so that names are at most 255 and aliases at most 159
  characters long).
\<close>

section \<open>Constants\<close>

definition YAFFS_NTNODES_LEVEL0 :: nat where "YAFFS_NTNODES_LEVEL0 = 16"
definition YAFFS_TNODES_LEVEL0_BITS :: nat where "YAFFS_TNODES_LEVEL0_BITS = 4"
definition YAFFS_TNODES_LEVEL0_MASK :: nat where "YAFFS_TNODES_LEVEL0_MASK = 15"
definition YAFFS_NTNODES_INTERNAL :: nat where
  "YAFFS_NTNODES_INTERNAL = YAFFS_NTNODES_LEVEL0 div 2"
definition YAFFS_TNODES_INTERNAL_BITS :: nat where
  "YAFFS_TNODES_INTERNAL_BITS = YAFFS_TNODES_LEVEL0_BITS - 1"
definition YAFFS_TNODES_INTERNAL_MASK :: nat where "YAFFS_TNODES_INTERNAL_MASK = 7"
definition YAFFS_TNODES_MAX_LEVEL :: nat where "YAFFS_TNODES_MAX_LEVEL = 8"
definition YAFFS_TNODES_MAX_BITS :: nat where
  "YAFFS_TNODES_MAX_BITS =
     YAFFS_TNODES_LEVEL0_BITS + YAFFS_TNODES_INTERNAL_BITS * YAFFS_TNODES_MAX_LEVEL"
definition YAFFS_MAX_CHUNK_ID :: nat where
  "YAFFS_MAX_CHUNK_ID = 2 ^ YAFFS_TNODES_MAX_BITS - 1"

lemmas tnode_consts = YAFFS_NTNODES_LEVEL0_def YAFFS_TNODES_LEVEL0_BITS_def
  YAFFS_TNODES_LEVEL0_MASK_def YAFFS_NTNODES_INTERNAL_def YAFFS_TNODES_INTERNAL_BITS_def
  YAFFS_TNODES_INTERNAL_MASK_def YAFFS_TNODES_MAX_LEVEL_def YAFFS_TNODES_MAX_BITS_def
  YAFFS_MAX_CHUNK_ID_def

definition YAFFS_MAX_NAME_LENGTH :: nat where "YAFFS_MAX_NAME_LENGTH = 255"
definition YAFFS_MAX_ALIAS_LENGTH :: nat where "YAFFS_MAX_ALIAS_LENGTH = 159"
definition YAFFS_SHORT_NAME_LENGTH :: nat where "YAFFS_SHORT_NAME_LENGTH = 15"
definition YAFFS_NOBJECT_BUCKETS :: nat where "YAFFS_NOBJECT_BUCKETS = 256"

lemmas name_consts = YAFFS_MAX_NAME_LENGTH_def YAFFS_MAX_ALIAS_LENGTH_def
  YAFFS_SHORT_NAME_LENGTH_def

abbreviation (input) YAFFS_OBJECTID_ROOT :: u32 where "YAFFS_OBJECTID_ROOT \<equiv> 1"
abbreviation (input) YAFFS_OBJECTID_LOSTNFOUND :: u32 where "YAFFS_OBJECTID_LOSTNFOUND \<equiv> 2"
abbreviation (input) YAFFS_OBJECTID_UNLINKED :: u32 where "YAFFS_OBJECTID_UNLINKED \<equiv> 3"
abbreviation (input) YAFFS_OBJECTID_DELETED :: u32 where "YAFFS_OBJECTID_DELETED \<equiv> 4"
abbreviation (input) YAFFS_OBJECTID_SUMMARY :: u32 where "YAFFS_OBJECTID_SUMMARY \<equiv> 0x10"
abbreviation (input) YAFFS_SEQUENCE_BAD_BLOCK :: u32 where "YAFFS_SEQUENCE_BAD_BLOCK \<equiv> 0xffff0000"

text \<open>
  The object types, as the 32-bit numbers that headers and tags carry
  (\<^verbatim>\<open>enum yaffs_obj_type\<close>).
\<close>

abbreviation (input) YAFFS_OBJECT_TYPE_UNKNOWN :: u32 where "YAFFS_OBJECT_TYPE_UNKNOWN \<equiv> 0"
abbreviation (input) YAFFS_OBJECT_TYPE_FILE :: u32 where "YAFFS_OBJECT_TYPE_FILE \<equiv> 1"
abbreviation (input) YAFFS_OBJECT_TYPE_SYMLINK :: u32 where "YAFFS_OBJECT_TYPE_SYMLINK \<equiv> 2"
abbreviation (input) YAFFS_OBJECT_TYPE_DIRECTORY :: u32 where "YAFFS_OBJECT_TYPE_DIRECTORY \<equiv> 3"
abbreviation (input) YAFFS_OBJECT_TYPE_HARDLINK :: u32 where "YAFFS_OBJECT_TYPE_HARDLINK \<equiv> 4"
abbreviation (input) YAFFS_OBJECT_TYPE_SPECIAL :: u32 where "YAFFS_OBJECT_TYPE_SPECIAL \<equiv> 5"

section \<open>ECC results, ordered as the enum\<close>

datatype yaffs_ecc_result =
    YAFFS_ECC_RESULT_UNKNOWN
  | YAFFS_ECC_RESULT_NO_ERROR
  | YAFFS_ECC_RESULT_FIXED
  | YAFFS_ECC_RESULT_UNFIXED

fun ecc_result_code :: "yaffs_ecc_result \<Rightarrow> nat" where
  "ecc_result_code YAFFS_ECC_RESULT_UNKNOWN = 0"
| "ecc_result_code YAFFS_ECC_RESULT_NO_ERROR = 1"
| "ecc_result_code YAFFS_ECC_RESULT_FIXED = 2"
| "ecc_result_code YAFFS_ECC_RESULT_UNFIXED = 3"

instantiation yaffs_ecc_result :: linorder
begin
definition less_eq_yaffs_ecc_result :: "yaffs_ecc_result \<Rightarrow> yaffs_ecc_result \<Rightarrow> bool" where
  "less_eq_yaffs_ecc_result a b \<longleftrightarrow> ecc_result_code a \<le> ecc_result_code b"
definition less_yaffs_ecc_result :: "yaffs_ecc_result \<Rightarrow> yaffs_ecc_result \<Rightarrow> bool" where
  "less_yaffs_ecc_result a b \<longleftrightarrow> ecc_result_code a < ecc_result_code b"
instance
proof
  fix x y z :: yaffs_ecc_result
  show "x < y \<longleftrightarrow> x \<le> y \<and> \<not> y \<le> x"
    by (auto simp: less_eq_yaffs_ecc_result_def less_yaffs_ecc_result_def)
  show "x \<le> x" by (simp add: less_eq_yaffs_ecc_result_def)
  show "x \<le> y \<Longrightarrow> y \<le> z \<Longrightarrow> x \<le> z" by (simp add: less_eq_yaffs_ecc_result_def)
  show "x \<le> y \<Longrightarrow> y \<le> x \<Longrightarrow> x = y"
    by (cases x; cases y) (simp_all add: less_eq_yaffs_ecc_result_def)
  show "x \<le> y \<or> y \<le> x" by (auto simp: less_eq_yaffs_ecc_result_def)
qed
end

lemmas ecc_result_order = less_eq_yaffs_ecc_result_def less_yaffs_ecc_result_def

section \<open>Tags\<close>

record yaffs_ext_tags =
  chunk_used :: u32
  obj_id :: u32
  chunk_id :: u32
  n_bytes :: u32
  ecc_result :: yaffs_ecc_result
  block_bad :: u32
  is_deleted :: u32
  serial_number :: u32
  seq_number :: u32
  extra_available :: u32
  extra_parent_id :: u32
  extra_is_shrink :: u32
  extra_shadows :: u32
  extra_obj_type :: u32
  extra_file_size :: u64
  extra_equiv_id :: u32

text \<open>\<^verbatim>\<open>memset(t, 0, sizeof(struct yaffs_ext_tags))\<close>\<close>

definition zero_tags :: yaffs_ext_tags where
  "zero_tags = \<lparr>chunk_used = 0, obj_id = 0, chunk_id = 0, n_bytes = 0,
     ecc_result = YAFFS_ECC_RESULT_UNKNOWN, block_bad = 0, is_deleted = 0, serial_number = 0,
     seq_number = 0, extra_available = 0, extra_parent_id = 0, extra_is_shrink = 0,
     extra_shadows = 0, extra_obj_type = 0, extra_file_size = 0, extra_equiv_id = 0\<rparr>"

section \<open>Object headers\<close>

record yaffs_obj_hdr =
  oh_type :: u32
  oh_parent_obj_id :: u32
  oh_sum_no_longer_used :: u16
  oh_name :: "u8 list"
  oh_yst_mode :: u32
  oh_yst_uid :: u32
  oh_yst_gid :: u32
  oh_yst_atime :: u32
  oh_yst_mtime :: u32
  oh_yst_ctime :: u32
  oh_file_size_low :: u32
  oh_equiv_id :: u32
  oh_alias :: "u8 list"
  oh_yst_rdev :: u32
  oh_win_ctime :: "u32 \<times> u32"
  oh_win_atime :: "u32 \<times> u32"
  oh_win_mtime :: "u32 \<times> u32"
  oh_inband_shadowed_obj_id :: u32
  oh_inband_is_shrink :: u32
  oh_file_size_high :: u32
  oh_reserved :: u32
  oh_shadows_obj :: u32
  oh_is_shrink :: u32

section \<open>Block information\<close>

datatype yaffs_block_state =
    YAFFS_BLOCK_STATE_UNKNOWN
  | YAFFS_BLOCK_STATE_SCANNING
  | YAFFS_BLOCK_STATE_NEEDS_SCAN
  | YAFFS_BLOCK_STATE_EMPTY
  | YAFFS_BLOCK_STATE_ALLOCATING
  | YAFFS_BLOCK_STATE_FULL
  | YAFFS_BLOCK_STATE_DIRTY
  | YAFFS_BLOCK_STATE_CHECKPOINT
  | YAFFS_BLOCK_STATE_COLLECTING
  | YAFFS_BLOCK_STATE_DEAD

text \<open>
  What a store into one of the two signed ten-bit page counts leaves in it: the number itself
  between -512 and 511, else what remains of it modulo 1024.
\<close>

definition s10 :: "int \<Rightarrow> int" where
  "s10 x = signed_take_bit 9 x"

lemma s10_eq: "-512 \<le> x \<Longrightarrow> x \<le> 511 \<Longrightarrow> s10 x = x"
  by (simp add: s10_def signed_take_bit_int_eq_self)

lemma s10_wraps: "s10 512 = -512"
  by (simp add: s10_def signed_take_bit_def mask_eq_exp_minus_1 not_eq_complement)

record yaffs_block_info =
  soft_del_pages :: int
  pages_in_use :: int
  block_state :: yaffs_block_state
  needs_retiring :: bool
  skip_erased_check :: bool
  gc_prioritise :: bool
  chunk_error_strikes :: "3 word"
  has_summary :: bool
  has_shrink_hdr :: bool
  bi_seq_number :: u32

text \<open>The block information after \<^verbatim>\<open>memset(dev->block_info, 0, ...)\<close>.\<close>

definition zero_block_info :: yaffs_block_info where
  "zero_block_info = \<lparr>soft_del_pages = 0, pages_in_use = 0,
     block_state = YAFFS_BLOCK_STATE_UNKNOWN, needs_retiring = False, skip_erased_check = False,
     gc_prioritise = False, chunk_error_strikes = 0, has_summary = False, has_shrink_hdr = False,
     bi_seq_number = 0\<rparr>"

end
