(* ===== verification/Yaffs_Endian.thy ===== *)
theory Yaffs_Endian
  imports Yaffs_Types
begin

text \<open>
  core/yaffs_endian.h and core/yaffs_endian.c: byte swapping of the values that
  are stored in flash.  A function that the code calls with the device reads only
  \<^verbatim>\<open>dev->swap_endian\<close>, which is passed here as a boolean.  The last part lays a
  32-bit word out as four bytes of memory (a little-endian CPU), which is how the
  ECC code and the name/value records see it.
\<close>

section \<open>Swapping\<close>

definition swap_u32 :: "u32 \<Rightarrow> u32" where
  "swap_u32 val =
     (drop_bit 24 val AND 0x000000ff) OR
     (drop_bit 8 val AND 0x0000ff00) OR
     (push_bit 8 val AND 0x00ff0000) OR
     (push_bit 24 val AND 0xff000000)"

definition swap_u64 :: "u64 \<Rightarrow> u64" where
  "swap_u64 val =
     (drop_bit 56 val AND 0x00000000000000ff) OR
     (drop_bit 40 val AND 0x000000000000ff00) OR
     (drop_bit 24 val AND 0x0000000000ff0000) OR
     (drop_bit 8 val AND 0x00000000ff000000) OR
     (push_bit 8 val AND 0x000000ff00000000) OR
     (push_bit 24 val AND 0x0000ff0000000000) OR
     (push_bit 40 val AND 0x00ff000000000000) OR
     (push_bit 56 val AND 0xff00000000000000)"

definition FSIZE_LOW :: "u64 \<Rightarrow> u32" where "FSIZE_LOW fsize = ucast (fsize AND 0xffffffff)"
definition FSIZE_HIGH :: "u64 \<Rightarrow> u32" where
  "FSIZE_HIGH fsize = ucast (signed_drop_bit 32 fsize AND 0xffffffff)"
definition FSIZE_COMBINE :: "u32 \<Rightarrow> u32 \<Rightarrow> u64" where
  "FSIZE_COMBINE high low = push_bit 32 (ucast high) OR (ucast low AND 0xFFFFFFFF)"

definition swap_loff_t :: "u64 \<Rightarrow> u64" where
  "swap_loff_t lval =
     (let vall = swap_u32 (FSIZE_LOW lval); valh = swap_u32 (FSIZE_HIGH lval)
      in FSIZE_COMBINE vall valh)"

definition yaffs_do_endian_u32 :: "bool \<Rightarrow> u32 \<Rightarrow> u32" where
  "yaffs_do_endian_u32 swap_endian val = (if \<not> swap_endian then val else swap_u32 val)"

text \<open>The signed variant casts to unsigned and back: the same bits.\<close>

definition yaffs_do_endian_s32 :: "bool \<Rightarrow> u32 \<Rightarrow> u32" where
  "yaffs_do_endian_s32 swap_endian val = (if \<not> swap_endian then val else swap_u32 val)"

definition swap_pair :: "u32 \<times> u32 \<Rightarrow> u32 \<times> u32" where
  "swap_pair p = (swap_u32 (fst p), swap_u32 (snd p))"

definition yaffs_do_endian_oh :: "bool \<Rightarrow> yaffs_obj_hdr \<Rightarrow> yaffs_obj_hdr" where
  "yaffs_do_endian_oh swap_endian oh =
     (if \<not> swap_endian then oh
      else oh\<lparr>oh_type := swap_u32 (oh_type oh),
              oh_parent_obj_id := swap_u32 (oh_parent_obj_id oh),
              oh_yst_mode := swap_u32 (oh_yst_mode oh),
              oh_yst_uid := swap_u32 (oh_yst_uid oh),
              oh_yst_gid := swap_u32 (oh_yst_gid oh),
              oh_yst_atime := swap_u32 (oh_yst_atime oh),
              oh_yst_mtime := swap_u32 (oh_yst_mtime oh),
              oh_yst_ctime := swap_u32 (oh_yst_ctime oh),
              oh_file_size_low := swap_u32 (oh_file_size_low oh),
              oh_equiv_id := swap_u32 (oh_equiv_id oh),
              oh_yst_rdev := swap_u32 (oh_yst_rdev oh),
              oh_win_ctime := swap_pair (oh_win_ctime oh),
              oh_win_atime := swap_pair (oh_win_atime oh),
              oh_win_mtime := swap_pair (oh_win_mtime oh),
              oh_inband_shadowed_obj_id := swap_u32 (oh_inband_shadowed_obj_id oh),
              oh_inband_is_shrink := swap_u32 (oh_inband_is_shrink oh),
              oh_file_size_high := swap_u32 (oh_file_size_high oh),
              oh_reserved := swap_u32 (oh_reserved oh),
              oh_shadows_obj := swap_u32 (oh_shadows_obj oh),
              oh_is_shrink := swap_u32 (oh_is_shrink oh)\<rparr>)"

text \<open>\<^verbatim>\<open>yaffs_endian_config\<close> decides whether to swap; \<open>little_cpu\<close> is its test of the CPU.\<close>

definition yaffs_endian_config :: "bool \<Rightarrow> int \<Rightarrow> bool" where
  "yaffs_endian_config little_cpu stored_endian =
     (if little_cpu then stored_endian = 2 else stored_endian = 1)"

section \<open>Swapping is an involution\<close>

lemma less_32_byte: "(n::nat) < 32 \<Longrightarrow> n < 8 \<or> (8 \<le> n \<and> n < 16) \<or> (16 \<le> n \<and> n < 24) \<or> 24 \<le> n"
  by arith

lemma mask_shift_ff:
  "(0xff00 :: u32) = push_bit 8 (mask 8)" "(0xff0000 :: u32) = push_bit 16 (mask 8)"
  "(0xff000000 :: u32) = push_bit 24 (mask 8)" "(0xff :: u32) = mask 8"
  by (simp_all add: mask_numeral)

lemma bit_swap_u32:
  "bit (swap_u32 v) n \<longleftrightarrow>
     (n < 8 \<and> bit v (n + 24)) \<or> (8 \<le> n \<and> n < 16 \<and> bit v (n + 8)) \<or>
     (16 \<le> n \<and> n < 24 \<and> bit v (n - 8)) \<or> (24 \<le> n \<and> n < 32 \<and> bit v (n - 24))"
proof -
  have le: "bit v k \<Longrightarrow> k < 32" for k
    using bit_imp_le_length [of v k] by simp
  show ?thesis
    unfolding swap_u32_def mask_shift_ff
    by (cases "n < 8"; cases "n < 16"; cases "n < 24"; cases "n < 32")
      (simp_all add: bit_simps add.commute [of n], auto dest: le)
qed

lemma swap_u32_swap_u32 [simp]: "swap_u32 (swap_u32 v) = v"
proof (rule bit_word_eqI)
  fix n assume "n < LENGTH(32)"
  then have n: "n < 32" by simp
  from less_32_byte [OF n] n show "bit (swap_u32 (swap_u32 v)) n = bit v n"
    by (elim disjE conjE) (simp_all add: bit_swap_u32, auto)
qed

lemma yaffs_do_endian_u32_invol [simp]:
  "yaffs_do_endian_u32 s (yaffs_do_endian_u32 s v) = v"
  by (simp add: yaffs_do_endian_u32_def)

lemma yaffs_do_endian_s32_invol [simp]:
  "yaffs_do_endian_s32 s (yaffs_do_endian_s32 s v) = v"
  by (simp add: yaffs_do_endian_s32_def)

lemma swap_pair_swap_pair [simp]: "swap_pair (swap_pair p) = p"
  by (simp add: swap_pair_def)

section \<open>64-bit sizes\<close>

lemma ffffffff_mask: "(0xffffffff :: u64) = mask 32"
  by (simp add: mask_numeral)

lemma bit_FSIZE_LOW: "bit (FSIZE_LOW f) n \<longleftrightarrow> n < 32 \<and> bit f n"
  unfolding FSIZE_LOW_def ffffffff_mask by (auto simp: bit_simps)

lemma bit_FSIZE_HIGH: "bit (FSIZE_HIGH f) n \<longleftrightarrow> n < 32 \<and> bit f (n + 32)"
  unfolding FSIZE_HIGH_def ffffffff_mask by (auto simp: bit_simps ac_simps)

lemma bit_FSIZE_COMBINE:
  "bit (FSIZE_COMBINE h l) n \<longleftrightarrow> (if n < 32 then bit l n else n < 64 \<and> bit h (n - 32))"
  unfolding FSIZE_COMBINE_def ffffffff_mask by (auto simp: bit_simps)

lemma FSIZE_COMBINE_parts [simp]: "FSIZE_COMBINE (FSIZE_HIGH f) (FSIZE_LOW f) = f"
  by (rule bit_word_eqI) (auto simp: bit_FSIZE_COMBINE bit_FSIZE_HIGH bit_FSIZE_LOW)

lemma FSIZE_parts_COMBINE [simp]:
  "FSIZE_HIGH (FSIZE_COMBINE h l) = h" "FSIZE_LOW (FSIZE_COMBINE h l) = l"
  by (rule bit_word_eqI; auto simp: bit_FSIZE_COMBINE bit_FSIZE_HIGH bit_FSIZE_LOW)+

lemma swap_loff_t_swap_loff_t [simp]: "swap_loff_t (swap_loff_t f) = f"
  by (simp add: swap_loff_t_def)

section \<open>Words in memory\<close>

definition u32_bytes :: "u32 \<Rightarrow> u8 list" where
  "u32_bytes v = [ucast v, ucast (drop_bit 8 v), ucast (drop_bit 16 v), ucast (drop_bit 24 v)]"

definition bytes_u32 :: "u8 \<Rightarrow> u8 \<Rightarrow> u8 \<Rightarrow> u8 \<Rightarrow> u32" where
  "bytes_u32 b0 b1 b2 b3 =
     ucast b0 OR push_bit 8 (ucast b1) OR push_bit 16 (ucast b2) OR push_bit 24 (ucast b3)"

lemma length_u32_bytes [simp]: "length (u32_bytes v) = 4"
  by (simp add: u32_bytes_def)

lemma bit_bytes_u32:
  "bit (bytes_u32 b0 b1 b2 b3) n \<longleftrightarrow>
     (if n < 8 then bit b0 n else if n < 16 then bit b1 (n - 8)
      else if n < 24 then bit b2 (n - 16) else n < 32 \<and> bit b3 (n - 24))"
  by (auto simp: bytes_u32_def bit_simps dest: bit_imp_le_length)

lemma bytes_u32_u32_bytes [simp]:
  "bytes_u32 (ucast v) (ucast (drop_bit 8 v)) (ucast (drop_bit 16 v)) (ucast (drop_bit 24 v)) = v"
  by (rule bit_word_eqI) (auto simp: bit_bytes_u32 bit_simps)

end
