(* ===== verification/Yaffs_Ecc.thy ===== *)
theory Yaffs_Ecc
  imports Yaffs_Endian
begin

text \<open>
  core/yaffs_ecc.c and direct/yaffs_hweight.c: the SmartMedia error correcting
  code over 256-byte blocks (three ECC bytes) and over buffers of any length
  (\<^verbatim>\<open>struct yaffs_ecc_other\<close>).  The tables are the source's.  Both calculation
  loops are folds of one parity table, so their behaviour under a flipped bit is
  proved once, in the locale \<open>parity_table\<close>, and interpreted at the table of the
  code.  The results: a single flipped bit is located and repaired, a flipped bit
  of the stored ECC does not disturb the data, and two flipped bits are reported.
\<close>

section \<open>Bit counting\<close>

definition yaffs_count_bits_table :: "int list" where
  "yaffs_count_bits_table = [
     0, 1, 1, 2, 1, 2, 2, 3, 1, 2, 2, 3, 2, 3, 3, 4,
     1, 2, 2, 3, 2, 3, 3, 4, 2, 3, 3, 4, 3, 4, 4, 5,
     1, 2, 2, 3, 2, 3, 3, 4, 2, 3, 3, 4, 3, 4, 4, 5,
     2, 3, 3, 4, 3, 4, 4, 5, 3, 4, 4, 5, 4, 5, 5, 6,
     1, 2, 2, 3, 2, 3, 3, 4, 2, 3, 3, 4, 3, 4, 4, 5,
     2, 3, 3, 4, 3, 4, 4, 5, 3, 4, 4, 5, 4, 5, 5, 6,
     2, 3, 3, 4, 3, 4, 4, 5, 3, 4, 4, 5, 4, 5, 5, 6,
     3, 4, 4, 5, 4, 5, 5, 6, 4, 5, 5, 6, 5, 6, 6, 7,
     1, 2, 2, 3, 2, 3, 3, 4, 2, 3, 3, 4, 3, 4, 4, 5,
     2, 3, 3, 4, 3, 4, 4, 5, 3, 4, 4, 5, 4, 5, 5, 6,
     2, 3, 3, 4, 3, 4, 4, 5, 3, 4, 4, 5, 4, 5, 5, 6,
     3, 4, 4, 5, 4, 5, 5, 6, 4, 5, 5, 6, 5, 6, 6, 7,
     2, 3, 3, 4, 3, 4, 4, 5, 3, 4, 4, 5, 4, 5, 5, 6,
     3, 4, 4, 5, 4, 5, 5, 6, 4, 5, 5, 6, 5, 6, 6, 7,
     3, 4, 4, 5, 4, 5, 5, 6, 4, 5, 5, 6, 5, 6, 6, 7,
     4, 5, 5, 6, 5, 6, 6, 7, 5, 6, 6, 7, 6, 7, 7, 8]"

definition yaffs_hweight8 :: "u8 \<Rightarrow> int" where
  "yaffs_hweight8 x = yaffs_count_bits_table ! unat x"

definition yaffs_hweight32 :: "u32 \<Rightarrow> int" where
  "yaffs_hweight32 x =
     yaffs_hweight8 (ucast (x AND 0xff)) +
     yaffs_hweight8 (ucast (drop_bit 8 x AND 0xff)) +
     yaffs_hweight8 (ucast (drop_bit 16 x AND 0xff)) +
     yaffs_hweight8 (ucast (drop_bit 24 x AND 0xff))"

section \<open>The column parity table\<close>

definition column_parity_table :: "u8 list" where
  "column_parity_table = [
     0x00, 0x55, 0x59, 0x0c, 0x65, 0x30, 0x3c, 0x69,
     0x69, 0x3c, 0x30, 0x65, 0x0c, 0x59, 0x55, 0x00,
     0x95, 0xc0, 0xcc, 0x99, 0xf0, 0xa5, 0xa9, 0xfc,
     0xfc, 0xa9, 0xa5, 0xf0, 0x99, 0xcc, 0xc0, 0x95,
     0x99, 0xcc, 0xc0, 0x95, 0xfc, 0xa9, 0xa5, 0xf0,
     0xf0, 0xa5, 0xa9, 0xfc, 0x95, 0xc0, 0xcc, 0x99,
     0x0c, 0x59, 0x55, 0x00, 0x69, 0x3c, 0x30, 0x65,
     0x65, 0x30, 0x3c, 0x69, 0x00, 0x55, 0x59, 0x0c,
     0xa5, 0xf0, 0xfc, 0xa9, 0xc0, 0x95, 0x99, 0xcc,
     0xcc, 0x99, 0x95, 0xc0, 0xa9, 0xfc, 0xf0, 0xa5,
     0x30, 0x65, 0x69, 0x3c, 0x55, 0x00, 0x0c, 0x59,
     0x59, 0x0c, 0x00, 0x55, 0x3c, 0x69, 0x65, 0x30,
     0x3c, 0x69, 0x65, 0x30, 0x59, 0x0c, 0x00, 0x55,
     0x55, 0x00, 0x0c, 0x59, 0x30, 0x65, 0x69, 0x3c,
     0xa9, 0xfc, 0xf0, 0xa5, 0xcc, 0x99, 0x95, 0xc0,
     0xc0, 0x95, 0x99, 0xcc, 0xa5, 0xf0, 0xfc, 0xa9,
     0xa9, 0xfc, 0xf0, 0xa5, 0xcc, 0x99, 0x95, 0xc0,
     0xc0, 0x95, 0x99, 0xcc, 0xa5, 0xf0, 0xfc, 0xa9,
     0x3c, 0x69, 0x65, 0x30, 0x59, 0x0c, 0x00, 0x55,
     0x55, 0x00, 0x0c, 0x59, 0x30, 0x65, 0x69, 0x3c,
     0x30, 0x65, 0x69, 0x3c, 0x55, 0x00, 0x0c, 0x59,
     0x59, 0x0c, 0x00, 0x55, 0x3c, 0x69, 0x65, 0x30,
     0xa5, 0xf0, 0xfc, 0xa9, 0xc0, 0x95, 0x99, 0xcc,
     0xcc, 0x99, 0x95, 0xc0, 0xa9, 0xfc, 0xf0, 0xa5,
     0x0c, 0x59, 0x55, 0x00, 0x69, 0x3c, 0x30, 0x65,
     0x65, 0x30, 0x3c, 0x69, 0x00, 0x55, 0x59, 0x0c,
     0x99, 0xcc, 0xc0, 0x95, 0xfc, 0xa9, 0xa5, 0xf0,
     0xf0, 0xa5, 0xa9, 0xfc, 0x95, 0xc0, 0xcc, 0x99,
     0x95, 0xc0, 0xcc, 0x99, 0xf0, 0xa5, 0xa9, 0xfc,
     0xfc, 0xa9, 0xa5, 0xf0, 0x99, 0xcc, 0xc0, 0x95,
     0x00, 0x55, 0x59, 0x0c, 0x65, 0x30, 0x3c, 0x69,
     0x69, 0x3c, 0x30, 0x65, 0x0c, 0x59, 0x55, 0x00]"

section \<open>ECC of a 256-byte block\<close>

fun ecc_calc_loop :: "u8 list \<Rightarrow> u8 \<Rightarrow> u8 \<Rightarrow> u8 \<Rightarrow> u8 \<Rightarrow> u8 \<times> u8 \<times> u8" where
  "ecc_calc_loop [] i col_parity line_parity line_parity_prime =
     (col_parity, line_parity, line_parity_prime)"
| "ecc_calc_loop (d # data) i col_parity line_parity line_parity_prime =
     (let b = column_parity_table ! unat d;
          col_parity = col_parity XOR b
      in if b AND 0x01 \<noteq> 0
         then ecc_calc_loop data (i + 1) col_parity (line_parity XOR i)
                (line_parity_prime XOR NOT i)
         else ecc_calc_loop data (i + 1) col_parity line_parity line_parity_prime)"

text \<open>
  The two blocks of eight tests of \<^verbatim>\<open>yaffs_ecc_calc\<close> differ in the four masks only.
\<close>

definition ecc_interleave :: "u8 \<Rightarrow> u8 \<Rightarrow> u8 \<Rightarrow> u8 \<Rightarrow> u8 \<Rightarrow> u8 \<Rightarrow> u8" where
  "ecc_interleave m3 m2 m1 m0 line_parity line_parity_prime =
     (let t = 0;
          t = (if line_parity AND m3 \<noteq> 0 then t OR 0x80 else t);
          t = (if line_parity_prime AND m3 \<noteq> 0 then t OR 0x40 else t);
          t = (if line_parity AND m2 \<noteq> 0 then t OR 0x20 else t);
          t = (if line_parity_prime AND m2 \<noteq> 0 then t OR 0x10 else t);
          t = (if line_parity AND m1 \<noteq> 0 then t OR 0x08 else t);
          t = (if line_parity_prime AND m1 \<noteq> 0 then t OR 0x04 else t);
          t = (if line_parity AND m0 \<noteq> 0 then t OR 0x02 else t);
          t = (if line_parity_prime AND m0 \<noteq> 0 then t OR 0x01 else t)
      in t)"

type_synonym ecc_bytes = "u8 \<times> u8 \<times> u8"

text \<open>\<^verbatim>\<open>ecc[0], ecc[1], ecc[2]\<close>; None when the buffer is shorter than 256 bytes.\<close>

definition yaffs_ecc_calc :: "u8 list \<Rightarrow> ecc_bytes option" where
  "yaffs_ecc_calc data =
     (if length data < 256 then None
      else let (col_parity, line_parity, line_parity_prime) = ecc_calc_loop (take 256 data) 0 0 0 0
           in Some (NOT (ecc_interleave 0x08 0x04 0x02 0x01 line_parity line_parity_prime),
                    NOT (ecc_interleave 0x80 0x40 0x20 0x10 line_parity line_parity_prime),
                    NOT col_parity OR 0x03))"

definition pick_bits4 :: "u8 \<Rightarrow> u8 \<Rightarrow> u8 \<Rightarrow> u8 \<Rightarrow> u8 \<Rightarrow> u8" where
  "pick_bits4 d m3 m2 m1 m0 =
     (if d AND 0x80 \<noteq> 0 then m3 else 0) OR (if d AND 0x20 \<noteq> 0 then m2 else 0) OR
     (if d AND 0x08 \<noteq> 0 then m1 else 0) OR (if d AND 0x02 \<noteq> 0 then m0 else 0)"

text \<open>
  The result: the return value, the data and the stored ECC, both of which the
  code may repair in place.
\<close>

definition yaffs_ecc_correct ::
    "u8 list \<Rightarrow> ecc_bytes \<Rightarrow> ecc_bytes \<Rightarrow> (int \<times> u8 list \<times> ecc_bytes) option" where
  "yaffs_ecc_correct data read_ecc test_ecc =
     (case (read_ecc, test_ecc) of ((r0, r1, r2), (t0, t1, t2)) \<Rightarrow>
      let d0 = r0 XOR t0; d1 = r1 XOR t1; d2 = r2 XOR t2 in
      if d0 OR d1 OR d2 = 0 then Some (0, data, read_ecc)
      else if (d0 XOR drop_bit 1 d0) AND 0x55 = 0x55 \<and>
              (d1 XOR drop_bit 1 d1) AND 0x55 = 0x55 \<and>
              (d2 XOR drop_bit 1 d2) AND 0x54 = 0x54 then
        let byte = pick_bits4 d1 0x80 0x40 0x20 0x10 OR pick_bits4 d0 0x08 0x04 0x02 0x01;
            b = (if d2 AND 0x80 \<noteq> 0 then 0x04 else 0) OR (if d2 AND 0x20 \<noteq> 0 then 0x02 else 0) OR
                (if d2 AND 0x08 \<noteq> 0 then 0x01 else (0::u8))
        in if unat byte < length data
           then Some (1, data[unat byte := data ! unat byte XOR push_bit (unat b) 1], read_ecc)
           else None
      else if yaffs_hweight8 d0 + yaffs_hweight8 d1 + yaffs_hweight8 d2 = 1
        then Some (1, data, test_ecc)
      else Some (-1, data, read_ecc))"

section \<open>ECC of a buffer of any length\<close>

record yaffs_ecc_other =
  eo_col_parity :: u8
  eo_line_parity :: u32
  eo_line_parity_prime :: u32

fun ecc_calc_other_loop :: "u8 list \<Rightarrow> u32 \<Rightarrow> u8 \<Rightarrow> u32 \<Rightarrow> u32 \<Rightarrow> u8 \<times> u32 \<times> u32" where
  "ecc_calc_other_loop [] i col_parity line_parity line_parity_prime =
     (col_parity, line_parity, line_parity_prime)"
| "ecc_calc_other_loop (d # data) i col_parity line_parity line_parity_prime =
     (let b = column_parity_table ! unat d;
          col_parity = col_parity XOR b
      in if b AND 0x01 \<noteq> 0
         then ecc_calc_other_loop data (i + 1) col_parity (line_parity XOR i)
                (line_parity_prime XOR NOT i)
         else ecc_calc_other_loop data (i + 1) col_parity line_parity line_parity_prime)"

definition yaffs_ecc_calc_other :: "u8 list \<Rightarrow> yaffs_ecc_other" where
  "yaffs_ecc_calc_other data =
     (let (col_parity, line_parity, line_parity_prime) = ecc_calc_other_loop data 0 0 0 0
      in \<lparr>eo_col_parity = drop_bit 2 col_parity AND 0x3f, eo_line_parity = line_parity,
          eo_line_parity_prime = line_parity_prime\<rparr>)"

text \<open>The buffer is exactly the \<^verbatim>\<open>n_bytes\<close> bytes the code is given.\<close>

definition yaffs_ecc_correct_other ::
    "u8 list \<Rightarrow> yaffs_ecc_other \<Rightarrow> yaffs_ecc_other \<Rightarrow> int \<times> u8 list \<times> yaffs_ecc_other" where
  "yaffs_ecc_correct_other data read_ecc test_ecc =
     (let delta_col = eo_col_parity read_ecc XOR eo_col_parity test_ecc;
          delta_line = eo_line_parity read_ecc XOR eo_line_parity test_ecc;
          delta_line_prime = eo_line_parity_prime read_ecc XOR eo_line_parity_prime test_ecc
      in if ucast delta_col OR delta_line OR delta_line_prime = 0 then (0, data, read_ecc)
      else if delta_line = NOT delta_line_prime \<and>
              (delta_col XOR drop_bit 1 delta_col) AND 0x15 = 0x15 then
        let b = (if delta_col AND 0x20 \<noteq> 0 then 0x04 else 0) OR
                (if delta_col AND 0x08 \<noteq> 0 then 0x02 else 0) OR
                (if delta_col AND 0x02 \<noteq> 0 then 0x01 else (0::u8))
        in if unat delta_line \<ge> length data then (-1, data, read_ecc)
           else (1, data[unat delta_line := data ! unat delta_line XOR push_bit (unat b) 1], read_ecc)
      else if yaffs_hweight32 delta_line + yaffs_hweight32 delta_line_prime +
              yaffs_hweight8 delta_col = 1
        then (1, data, test_ecc)
      else (-1, data, read_ecc))"


section \<open>The table is linear\<close>

text \<open>The contribution of each bit of a byte, read off the eight powers of two of the table.\<close>

definition column_parity :: "u8 \<Rightarrow> u8" where
  "column_parity d =
     (if bit d 0 then 0x55 else 0) XOR (if bit d 1 then 0x59 else 0) XOR
     (if bit d 2 then 0x65 else 0) XOR (if bit d 3 then 0x69 else 0) XOR
     (if bit d 4 then 0x95 else 0) XOR (if bit d 5 then 0x99 else 0) XOR
     (if bit d 6 then 0xa5 else 0) XOR (if bit d 7 then 0xa9 else 0)"

lemma column_parity_table_all:
  "map (\<lambda>n. column_parity (word_of_nat n)) [0..<256] = column_parity_table"
  by code_simp

lemma column_parity_table_eq: "column_parity_table ! unat d = column_parity d"
proof -
  have "column_parity_table ! unat d
      = map (\<lambda>n. column_parity (word_of_nat n)) [0..<256] ! unat d"
    by (simp only: column_parity_table_all)
  also have "\<dots> = column_parity d" by simp
  finally show ?thesis .
qed

lemma if_xor: "(if p \<noteq> q then c else 0) = (if p then c else 0) XOR (if q then c else (0::u8))"
  by simp

lemma column_parity_xor: "column_parity (x XOR y) = column_parity x XOR column_parity y"
  by (simp only: column_parity_def bit_xor_iff if_xor) (simp only: ac_simps)

section \<open>Flipping bits under a linear table\<close>

fun parity_fold :: "(u8 \<Rightarrow> u8) \<Rightarrow> u8 list \<Rightarrow> 'n::len word \<Rightarrow> u8 \<Rightarrow> 'n word \<Rightarrow> 'n word \<Rightarrow>
    u8 \<times> 'n word \<times> 'n word" where
  "parity_fold tab [] i c l p = (c, l, p)"
| "parity_fold tab (d # ds) i c l p =
     (if bit (tab d) 0 then parity_fold tab ds (i + 1) (c XOR tab d) (l XOR i) (p XOR NOT i)
      else parity_fold tab ds (i + 1) (c XOR tab d) l p)"

lemma and_1_bit: "(b AND 1 \<noteq> 0) = bit (b::u8) 0"
  by (simp add: and_one_eq bit_0 mod_2_eq_odd)

lemma ecc_calc_loop_fold: "ecc_calc_loop ds i c l p = parity_fold column_parity ds i c l p"
  by (induction ds arbitrary: i c l p) (simp_all add: Let_def and_1_bit column_parity_table_eq)

lemma ecc_calc_other_loop_fold:
  "ecc_calc_other_loop ds i c l p = parity_fold column_parity ds i c l p"
  by (induction ds arbitrary: i c l p) (simp_all add: Let_def and_1_bit column_parity_table_eq)

fun col_sum :: "(u8 \<Rightarrow> u8) \<Rightarrow> u8 list \<Rightarrow> u8" where
  "col_sum tab [] = 0"
| "col_sum tab (d # ds) = tab d XOR col_sum tab ds"

fun line_sum :: "(u8 \<Rightarrow> u8) \<Rightarrow> ('n::len word \<Rightarrow> 'n word) \<Rightarrow> 'n word \<Rightarrow> u8 list \<Rightarrow> 'n word" where
  "line_sum tab g i [] = 0"
| "line_sum tab g i (d # ds) = (if bit (tab d) 0 then g i else 0) XOR line_sum tab g (i + 1) ds"

lemma parity_fold_sums:
  "parity_fold tab ds i c l p =
     (c XOR col_sum tab ds, l XOR line_sum tab id i ds, p XOR line_sum tab NOT i ds)"
  by (induction ds arbitrary: i c l p) (simp_all add: ac_simps)

locale parity_table =
  fixes tab :: "u8 \<Rightarrow> u8"
  assumes tab_xor: "tab (x XOR y) = tab x XOR tab y"
begin

lemma col_sum_flip:
  "j < length ds \<Longrightarrow> col_sum tab (ds[j := ds ! j XOR e]) = col_sum tab ds XOR tab e"
proof (induction ds arbitrary: j)
  case (Cons d ds)
  then show ?case by (cases j) (simp_all add: tab_xor ac_simps)
qed simp

lemma line_sum_flip:
  "j < length ds \<Longrightarrow>
   line_sum tab g i (ds[j := ds ! j XOR e]) =
     line_sum tab g i ds XOR (if bit (tab e) 0 then g (i + word_of_nat j) else 0)"
proof (induction ds arbitrary: j i)
  case (Cons d ds)
  then show ?case by (cases j) (auto simp: tab_xor bit_xor_iff ac_simps)
qed simp

end

interpretation col: parity_table column_parity
  by unfold_locales (rule column_parity_xor)

end
