(* ===== verification/Yaffs_Ecc_Correct.thy ===== *)
theory Yaffs_Ecc_Correct
  imports Yaffs_Ecc
begin

text \<open>
  What the error correcting codes of core/yaffs_ecc.c promise.  A flipped data bit
  changes the code in a way that names its byte and its bit (\<open>ecc_calc_flip\<close>, by
  the interpretation \<open>col\<close> of the parity table), and \<^verbatim>\<open>yaffs_ecc_correct\<close> reads them
  back (\<open>correct_single\<close>); two flipped bits leave every pair of bits of the
  difference equal (\<open>correct_paired\<close>), which no branch but the last accepts.
\<close>

section \<open>The bits of the interleaved line parities\<close>

lemma mask_bits:
  "(x AND 0x80 \<noteq> 0) = bit (x::u8) 7" "(x AND 0x40 \<noteq> 0) = bit x 6" "(x AND 0x20 \<noteq> 0) = bit x 5"
  "(x AND 0x10 \<noteq> 0) = bit x 4" "(x AND 0x08 \<noteq> 0) = bit x 3" "(x AND 0x04 \<noteq> 0) = bit x 2"
  "(x AND 0x02 \<noteq> 0) = bit x 1" "(x AND 0x01 \<noteq> 0) = bit x 0"
  using and_exp_eq_0_iff_not_bit [of x 7] and_exp_eq_0_iff_not_bit [of x 6]
    and_exp_eq_0_iff_not_bit [of x 5] and_exp_eq_0_iff_not_bit [of x 4]
    and_exp_eq_0_iff_not_bit [of x 3] and_exp_eq_0_iff_not_bit [of x 2]
    and_exp_eq_0_iff_not_bit [of x 1] and_exp_eq_0_iff_not_bit [of x 0]
  by simp_all

lemma or_if: "(if c then t OR k else t) = t OR (if c then k else (0::u8))"
  by simp

lemma bit_if: "bit (if c then k else (0::u8)) n = (c \<and> bit k n)"
  by simp

lemma bits_interleave_hi:
  "bit (ecc_interleave 0x80 0x40 0x20 0x10 l p) 7 = bit l 7"
  "bit (ecc_interleave 0x80 0x40 0x20 0x10 l p) 6 = bit p 7"
  "bit (ecc_interleave 0x80 0x40 0x20 0x10 l p) 5 = bit l 6"
  "bit (ecc_interleave 0x80 0x40 0x20 0x10 l p) 4 = bit p 6"
  "bit (ecc_interleave 0x80 0x40 0x20 0x10 l p) 3 = bit l 5"
  "bit (ecc_interleave 0x80 0x40 0x20 0x10 l p) 2 = bit p 5"
  "bit (ecc_interleave 0x80 0x40 0x20 0x10 l p) 1 = bit l 4"
  "bit (ecc_interleave 0x80 0x40 0x20 0x10 l p) 0 = bit p 4"
  by (simp_all only: ecc_interleave_def Let_def mask_bits or_if bit_or_iff bit_if) simp_all

lemma bits_interleave_lo:
  "bit (ecc_interleave 0x08 0x04 0x02 0x01 l p) 7 = bit l 3"
  "bit (ecc_interleave 0x08 0x04 0x02 0x01 l p) 6 = bit p 3"
  "bit (ecc_interleave 0x08 0x04 0x02 0x01 l p) 5 = bit l 2"
  "bit (ecc_interleave 0x08 0x04 0x02 0x01 l p) 4 = bit p 2"
  "bit (ecc_interleave 0x08 0x04 0x02 0x01 l p) 3 = bit l 1"
  "bit (ecc_interleave 0x08 0x04 0x02 0x01 l p) 2 = bit p 1"
  "bit (ecc_interleave 0x08 0x04 0x02 0x01 l p) 1 = bit l 0"
  "bit (ecc_interleave 0x08 0x04 0x02 0x01 l p) 0 = bit p 0"
  by (simp_all only: ecc_interleave_def Let_def mask_bits or_if bit_or_iff bit_if) simp_all

lemmas bits_interleave = bits_interleave_hi bits_interleave_lo

lemma interleave_xor:
  "ecc_interleave 0x80 0x40 0x20 0x10 l p XOR ecc_interleave 0x80 0x40 0x20 0x10 l' p' =
   ecc_interleave 0x80 0x40 0x20 0x10 (l XOR l') (p XOR p')"
  "ecc_interleave 0x08 0x04 0x02 0x01 l p XOR ecc_interleave 0x08 0x04 0x02 0x01 l' p' =
   ecc_interleave 0x08 0x04 0x02 0x01 (l XOR l') (p XOR p')"
  by (rule u8_eqI; simp only: bit_xor_iff bits_interleave)+

text \<open>the pair test on a delta byte\<close>
lemma pair_test_iff:
  "((d XOR drop_bit 1 d) AND 0x55 = (0x55::u8)) \<longleftrightarrow>
     bit d 0 \<noteq> bit d 1 \<and> bit d 2 \<noteq> bit d 3 \<and> bit d 4 \<noteq> bit d 5 \<and> bit d 6 \<noteq> bit d 7"
  (is "?L = ?R")
proof
  assume L: ?L
  have "bit ((d XOR drop_bit 1 d) AND 0x55) n = bit (0x55::u8) n" for n by (simp only: L)
  from this [of 0] this [of 2] this [of 4] this [of 6] show ?R
    by (simp add: bit_simps numeral_eq_Suc)
next
  assume ?R
  then show ?L
    by (intro u8_eqI) (auto simp: bit_and_iff bit_xor_iff bit_drop_bit_eq numeral_eq_Suc)
qed

lemma pair_test2_iff:
  "((d XOR drop_bit 1 d) AND 0x54 = (0x54::u8)) \<longleftrightarrow>
     bit d 2 \<noteq> bit d 3 \<and> bit d 4 \<noteq> bit d 5 \<and> bit d 6 \<noteq> bit d 7"
  (is "?L = ?R")
proof
  assume L: ?L
  have "bit ((d XOR drop_bit 1 d) AND 0x54) n = bit (0x54::u8) n" for n by (simp only: L)
  from this [of 2] this [of 4] this [of 6] show ?R
    by (simp add: bit_simps numeral_eq_Suc)
next
  assume ?R
  then show ?L
    by (intro u8_eqI) (auto simp: bit_and_iff bit_xor_iff bit_drop_bit_eq numeral_eq_Suc)
qed

lemma bit_NOT_u8: "n < 8 \<Longrightarrow> bit (NOT (x::u8)) n = (\<not> bit x n)"
  by (simp add: bit_not_iff)

lemma pick_interleave:
  "pick_bits4 (ecc_interleave 0x80 0x40 0x20 0x10 l p) 0x80 0x40 0x20 0x10 OR
   pick_bits4 (ecc_interleave 0x08 0x04 0x02 0x01 l p) 0x08 0x04 0x02 0x01 = l"
  by (rule u8_eqI)
    (simp_all only: pick_bits4_def mask_bits bits_interleave bit_or_iff bit_if, simp_all)

lemma flip_odd: "k < 8 \<Longrightarrow> bit (column_parity (push_bit k 1)) 0"
  by (drule less_8_cases) (elim disjE; simp add: column_parity_def)

lemma col_byte_xor: "(NOT a OR 0x03) XOR (NOT b OR 0x03) = (a XOR b) AND NOT (3::u8)"
  by (rule bit_word_eqI) (auto simp: bit_simps)

lemma yaffs_ecc_calc_sums:
  "256 \<le> length data \<Longrightarrow> yaffs_ecc_calc data =
     (let ds = take 256 data; l = line_sum column_parity id 0 ds; p = line_sum column_parity NOT 0 ds
      in Some (NOT (ecc_interleave 0x08 0x04 0x02 0x01 l p),
               NOT (ecc_interleave 0x80 0x40 0x20 0x10 l p),
               NOT (col_sum column_parity ds) OR 0x03))"
  by (simp add: yaffs_ecc_calc_def Let_def ecc_calc_loop_fold parity_fold_sums)

definition ecc_delta :: "ecc_bytes \<Rightarrow> ecc_bytes \<Rightarrow> ecc_bytes" where
  "ecc_delta e f = (case (e, f) of ((r0, r1, r2), (t0, t1, t2)) \<Rightarrow>
     (r0 XOR t0, r1 XOR t1, r2 XOR t2))"

text \<open>what one flipped bit does to the ECC\<close>
lemma ecc_calc_flip:
  assumes "256 \<le> length data" and "j < 256" 
  shows "\<exists>e e'. yaffs_ecc_calc data = Some e \<and>
     yaffs_ecc_calc (data[j := data ! j XOR x]) = Some e' \<and>
     ecc_delta e e' =
       (if bit (column_parity x) 0
        then (ecc_interleave 0x08 0x04 0x02 0x01 (word_of_nat j) (NOT (word_of_nat j)),
              ecc_interleave 0x80 0x40 0x20 0x10 (word_of_nat j) (NOT (word_of_nat j)),
              column_parity x AND NOT 3)
        else (0, 0, column_parity x AND NOT 3))"
proof -
  have z: "ecc_interleave 0x08 0x04 0x02 0x01 0 0 = 0" "ecc_interleave 0x80 0x40 0x20 0x10 0 0 = 0"
    by (simp_all add: ecc_interleave_def)
  let ?ds = "take 256 data"
  have nth: "?ds ! j = data ! j" and len: "j < length ?ds" using assms by simp_all
  have tk: "take 256 (data[j := data ! j XOR x]) = ?ds[j := data ! j XOR x]"
    by (simp add: take_update_swap)
  note cs = col.col_sum_flip [OF len, of x, unfolded nth]
  have ls: "line_sum column_parity g 0 (?ds[j := data ! j XOR x]) =
      line_sum column_parity g 0 ?ds XOR (if bit (column_parity x) 0 then g (0 + word_of_nat j) else 0)"
    for g :: "u8 \<Rightarrow> u8"
    using col.line_sum_flip [OF len, of g 0 x] by (simp only: nth)
  have g: "256 \<le> length (data[j := data ! j XOR x])" using assms by simp
  show ?thesis
    unfolding yaffs_ecc_calc_sums [OF assms(1)] yaffs_ecc_calc_sums [OF g] Let_def tk cs ls
    by (simp add: ecc_delta_def not_xor_not interleave_xor col_byte_xor z flip: xor.assoc)
qed

text \<open>Correction, read off the difference of the two codes.\<close>
lemma correct_single:
  assumes e: "ecc_delta e t =
      (ecc_interleave 0x08 0x04 0x02 0x01 l (NOT l),
       ecc_interleave 0x80 0x40 0x20 0x10 l (NOT l),
       column_parity (push_bit k 1) AND NOT 3)"
    and k: "k < 8" and l: "unat l < length data"
  shows "yaffs_ecc_correct data e t =
    Some (1, data[unat l := data ! unat l XOR push_bit k 1], e)"
proof -
  obtain r0 r1 r2 t0 t1 t2 where et: "e = (r0, r1, r2)" "t = (t0, t1, t2)"
    by (cases e; cases t) auto
  let ?d0 = "ecc_interleave 0x08 0x04 0x02 0x01 l (NOT l)"
  let ?d1 = "ecc_interleave 0x80 0x40 0x20 0x10 l (NOT l)"
  let ?d2 = "column_parity (push_bit k 1) AND NOT (3::u8)"
  have d: "r0 XOR t0 = ?d0" "r1 XOR t1 = ?d1" "r2 XOR t2 = ?d2"
    using e by (simp_all add: et ecc_delta_def)
  have p: "(?d0 XOR drop_bit 1 ?d0) AND 0x55 = 0x55" "(?d1 XOR drop_bit 1 ?d1) AND 0x55 = 0x55"
    by (simp_all only: pair_test_iff bits_interleave bit_NOT_u8) simp_all
  have p2: "(?d2 XOR drop_bit 1 ?d2) AND 0x54 = 0x54"
    using less_8_cases [OF k] by (elim disjE; simp add: column_parity_def)
  have nz: "?d0 OR ?d1 OR ?d2 \<noteq> 0"
  proof
    assume "?d0 OR ?d1 OR ?d2 = 0"
    then have z: "?d2 = 0" by (metis or_eq_0_iff)
    from p2 show False unfolding z by simp
  qed
  have b: "unat ((if ?d2 AND 0x80 \<noteq> 0 then 0x04 else 0) OR (if ?d2 AND 0x20 \<noteq> 0 then 0x02 else 0) OR
       (if ?d2 AND 0x08 \<noteq> 0 then 0x01 else (0::u8))) = k"
    using less_8_cases [OF k] by (elim disjE; simp add: column_parity_def)
  show ?thesis
    unfolding yaffs_ecc_correct_def et prod.case Let_def d pick_interleave
    using nz p p2 b l by simp
qed

section \<open>Bit counting is the population count\<close>

definition bit_total :: "u8 \<Rightarrow> int" where
  "bit_total x = of_bool (bit x 0) + of_bool (bit x 1) + of_bool (bit x 2) + of_bool (bit x 3) +
     of_bool (bit x 4) + of_bool (bit x 5) + of_bool (bit x 6) + of_bool (bit x 7)"

lemma count_bits_table_all:
  "map (\<lambda>n. bit_total (word_of_nat n)) [0..<256] = yaffs_count_bits_table"
  by code_simp

lemma yaffs_hweight8_bits: "yaffs_hweight8 x = bit_total x"
proof -
  have "yaffs_hweight8 x = map (\<lambda>n. bit_total (word_of_nat n)) [0..<256] ! unat x"
    by (simp only: yaffs_hweight8_def count_bits_table_all)
  also have "\<dots> = bit_total x" by simp
  finally show ?thesis .
qed

lemma even_hweight8_pairs:
  "bit d 0 = bit d 1 \<Longrightarrow> bit d 2 = bit d 3 \<Longrightarrow> bit d 4 = bit d 5 \<Longrightarrow> bit d 6 = bit d 7 \<Longrightarrow>
   even (yaffs_hweight8 d)"
  by (simp add: yaffs_hweight8_bits bit_total_def)

lemma ecc_delta_trans:
  "ecc_delta e g = (case (ecc_delta e f, ecc_delta f g) of ((a0, a1, a2), (b0, b1, b2)) \<Rightarrow>
     (a0 XOR b0, a1 XOR b1, a2 XOR b2))"
  by (simp add: ecc_delta_def xor.assoc split: prod.splits)

text \<open>Two errors: every pair of delta bits agrees, so nothing looks like one error.\<close>
lemma correct_paired:
  assumes e: "ecc_delta e t = (d0, d1, d2)" and nz: "(d0, d1, d2) \<noteq> (0, 0, 0)"
    and p0: "bit d0 0 = bit d0 1" "bit d0 2 = bit d0 3" "bit d0 4 = bit d0 5" "bit d0 6 = bit d0 7"
    and p1: "bit d1 0 = bit d1 1" "bit d1 2 = bit d1 3" "bit d1 4 = bit d1 5" "bit d1 6 = bit d1 7"
    and p2: "bit d2 0 = bit d2 1" "bit d2 2 = bit d2 3" "bit d2 4 = bit d2 5" "bit d2 6 = bit d2 7"
  shows "yaffs_ecc_correct data e t = Some (-1, data, e)"
proof -
  obtain r0 r1 r2 t0 t1 t2 where et: "e = (r0, r1, r2)" "t = (t0, t1, t2)"
    by (cases e; cases t) auto
  have d: "r0 XOR t0 = d0" "r1 XOR t1 = d1" "r2 XOR t2 = d2"
    using e by (simp_all add: et ecc_delta_def)
  have n: "d0 OR d1 OR d2 \<noteq> 0" using nz by (metis or_eq_0_iff)
  have "even (yaffs_hweight8 d0 + yaffs_hweight8 d1 + yaffs_hweight8 d2)"
    using even_hweight8_pairs [OF p0] even_hweight8_pairs [OF p1] even_hweight8_pairs [OF p2]
    by simp
  then have h: "yaffs_hweight8 d0 + yaffs_hweight8 d1 + yaffs_hweight8 d2 \<noteq> 1" by (metis odd_one)
  show ?thesis
    unfolding yaffs_ecc_correct_def et prod.case Let_def d pair_test_iff
    using n h p0 by simp
qed

lemma column_parity_pairs:
  assumes "k < 8" "m < 8" 
  shows "let d = (column_parity (push_bit k 1) XOR column_parity (push_bit m 1)) AND NOT 3 in
     bit d 0 = bit d 1 \<and> bit d 2 = bit d 3 \<and> bit d 4 = bit d 5 \<and> bit d 6 = bit d 7 \<and>
     (k \<noteq> m \<longrightarrow> d \<noteq> 0)"
proof -
  have "\<forall>k \<in> set [0..<8]. \<forall>m \<in> set [0..<8].
     let d = (column_parity (push_bit k 1) XOR column_parity (push_bit m 1)) AND NOT 3 in
     bit d 0 = bit d 1 \<and> bit d 2 = bit d 3 \<and> bit d 4 = bit d 5 \<and> bit d 6 = bit d 7 \<and>
     (k \<noteq> m \<longrightarrow> d \<noteq> 0)"
    by code_simp
  then show ?thesis using assms by simp
qed

lemma interleave_pairs:
  "bit (ecc_interleave 0x80 0x40 0x20 0x10 l l) 0 = bit (ecc_interleave 0x80 0x40 0x20 0x10 l l) 1"
  "bit (ecc_interleave 0x80 0x40 0x20 0x10 l l) 2 = bit (ecc_interleave 0x80 0x40 0x20 0x10 l l) 3"
  "bit (ecc_interleave 0x80 0x40 0x20 0x10 l l) 4 = bit (ecc_interleave 0x80 0x40 0x20 0x10 l l) 5"
  "bit (ecc_interleave 0x80 0x40 0x20 0x10 l l) 6 = bit (ecc_interleave 0x80 0x40 0x20 0x10 l l) 7"
  "bit (ecc_interleave 0x08 0x04 0x02 0x01 l l) 0 = bit (ecc_interleave 0x08 0x04 0x02 0x01 l l) 1"
  "bit (ecc_interleave 0x08 0x04 0x02 0x01 l l) 2 = bit (ecc_interleave 0x08 0x04 0x02 0x01 l l) 3"
  "bit (ecc_interleave 0x08 0x04 0x02 0x01 l l) 4 = bit (ecc_interleave 0x08 0x04 0x02 0x01 l l) 5"
  "bit (ecc_interleave 0x08 0x04 0x02 0x01 l l) 6 = bit (ecc_interleave 0x08 0x04 0x02 0x01 l l) 7"
  by (simp_all only: bits_interleave)

lemma interleave_zero_iff:
  assumes "ecc_interleave 0x80 0x40 0x20 0x10 l l = 0" and "ecc_interleave 0x08 0x04 0x02 0x01 l l = 0"
  shows "l = 0"
  by (rule u8_eqI; insert bits_interleave [of l l, unfolded assms]; simp)


lemma word_of_nat_inj_u8:
  assumes "j < 256" and "i < 256" and "word_of_nat j = (word_of_nat i :: u8)"
  shows "j = i"
proof -
  have "unat (word_of_nat j :: u8) = j" using assms(1) by (simp add: unat_of_nat)
  moreover have "unat (word_of_nat i :: u8) = i" using assms(2) by (simp add: unat_of_nat)
  ultimately show ?thesis using assms(3) by metis
qed

lemma xor_eq_0D: "a XOR b = 0 \<Longrightarrow> a = (b :: 'a::len word)"
  by (metis xor.left_neutral xor.right_neutral xor.assoc xor_self_eq)

lemma hweight8_push: "k < 8 \<Longrightarrow> yaffs_hweight8 (push_bit k 1) = 1"
  by (drule less_8_cases) (elim disjE; simp add: yaffs_hweight8_bits bit_total_def)

section \<open>The properties of the 256-byte code\<close>

text \<open>
  C13: one flipped data bit.  For every buffer of at least 256 bytes, every byte
  \<open>j < 256\<close> and every bit \<open>k < 8\<close>, the stored ECC of the buffer and the ECC computed
  from the corrupted buffer let \<^verbatim>\<open>yaffs_ecc_correct\<close> return 1 and restore the buffer.
\<close>

theorem ecc_corrects_single_bit:
  assumes "256 \<le> length data" and "j < 256" and "k < 8"
  shows "\<exists>e e'. yaffs_ecc_calc data = Some e \<and>
     yaffs_ecc_calc (data[j := data ! j XOR push_bit k 1]) = Some e' \<and>
     yaffs_ecc_correct (data[j := data ! j XOR push_bit k 1]) e e' = Some (1, data, e)"
proof -
  obtain e e' where e: "yaffs_ecc_calc data = Some e"
    "yaffs_ecc_calc (data[j := data ! j XOR push_bit k 1]) = Some e'"
    "ecc_delta e e' = (ecc_interleave 0x08 0x04 0x02 0x01 (word_of_nat j) (NOT (word_of_nat j)),
       ecc_interleave 0x80 0x40 0x20 0x10 (word_of_nat j) (NOT (word_of_nat j)),
       column_parity (push_bit k 1) AND NOT 3)"
    using ecc_calc_flip [OF assms(1,2), of "push_bit k 1"] flip_odd [OF assms(3)] by auto
  have j: "unat (word_of_nat j :: u8) = j" using assms(2) by (simp add: unat_of_nat)
  have "yaffs_ecc_correct (data[j := data ! j XOR push_bit k 1]) e e' = Some (1, data, e)"
    using correct_single [OF e(3) assms(3), of "data[j := data ! j XOR push_bit k 1]"] assms(1,2)
    by (simp add: j xor.assoc)
  with e show ?thesis by blast
qed

theorem ecc_corrects_single_bit_witness:
  "\<exists>e e'. yaffs_ecc_calc (replicate 256 0xa5) = Some e \<and>
     yaffs_ecc_calc ((replicate 256 0xa5)[200 := replicate 256 0xa5 ! 200 XOR push_bit 6 1]) = Some e' \<and>
     yaffs_ecc_correct ((replicate 256 0xa5)[200 := replicate 256 0xa5 ! 200 XOR push_bit 6 1]) e e'
       = Some (1, replicate 256 0xa5, e)"
  by (rule ecc_corrects_single_bit) simp_all

text \<open>
  C31: two flipped data bits are reported as unrecoverable, and nothing is changed:
  no double error is taken for a single one.
\<close>

theorem ecc_detects_double_bit:
  assumes len: "256 \<le> length data" and "j < 256" and "k < 8" and "i < 256" and "m < 8"
    and diff: "(j, k) \<noteq> (i, m)"
  defines "bad \<equiv> data[j := data ! j XOR push_bit k 1]"
  defines "bad2 \<equiv> bad[i := bad ! i XOR push_bit m 1]"
  shows "\<exists>e e'. yaffs_ecc_calc data = Some e \<and> yaffs_ecc_calc bad2 = Some e' \<and>
     yaffs_ecc_correct bad2 e e' = Some (-1, bad2, e)"
proof -
  let ?lo = "ecc_interleave 0x08 0x04 0x02 0x01" and ?hi = "ecc_interleave 0x80 0x40 0x20 0x10"
  let ?j = "word_of_nat j :: u8" and ?i = "word_of_nat i :: u8"
  obtain e f where e: "yaffs_ecc_calc data = Some e" "yaffs_ecc_calc bad = Some f"
    "ecc_delta e f = (?lo ?j (NOT ?j), ?hi ?j (NOT ?j), column_parity (push_bit k 1) AND NOT 3)"
    using ecc_calc_flip [OF len assms(2), of "push_bit k 1"] flip_odd [OF assms(3)]
    by (auto simp: bad_def)
  have len': "256 \<le> length bad" using len by (simp add: bad_def)
  obtain e' where e': "yaffs_ecc_calc bad2 = Some e'"
    "ecc_delta f e' = (?lo ?i (NOT ?i), ?hi ?i (NOT ?i), column_parity (push_bit m 1) AND NOT 3)"
    using ecc_calc_flip [OF len' assms(4), of "push_bit m 1"] flip_odd [OF assms(5)] e(2)
    by (auto simp: bad2_def)
  let ?l = "?j XOR ?i"
  let ?d = "(column_parity (push_bit k 1) XOR column_parity (push_bit m 1)) AND NOT 3"
  have delta: "ecc_delta e e' = (?lo ?l ?l, ?hi ?l ?l, ?d)"
    unfolding ecc_delta_trans [of e e' f] e(3) e'(2) prod.case interleave_xor not_xor_not
    by (simp add: and.commute bit.conj_xor_distrib)
  have p: "bit ?d 0 = bit ?d 1" "bit ?d 2 = bit ?d 3" "bit ?d 4 = bit ?d 5" "bit ?d 6 = bit ?d 7"
    "k \<noteq> m \<Longrightarrow> ?d \<noteq> 0"
    using column_parity_pairs [OF assms(3,5)] by (simp_all add: Let_def)
  have inj: "?l = 0 \<Longrightarrow> j = i"
    using assms(2,4) by (metis xor_eq_0D word_of_nat_inj_u8)
  have "(?lo ?l ?l, ?hi ?l ?l, ?d) \<noteq> (0, 0, 0)"
    using interleave_zero_iff [of ?l] inj p(5) diff by auto
  then have "yaffs_ecc_correct bad2 e e' = Some (-1, bad2, e)"
    by (rule correct_paired [OF delta]) (rule interleave_pairs p)+
  with e(1) e'(1) show ?thesis by blast
qed

theorem ecc_detects_double_bit_witness:
  "\<exists>e e'. yaffs_ecc_calc (replicate 256 0) = Some e \<and>
     yaffs_ecc_calc ((replicate 256 0)[3 := 1, 7 := 2]) = Some e' \<and>
     yaffs_ecc_correct ((replicate 256 0)[3 := 1, 7 := 2]) e e'
       = Some (-1, (replicate 256 0)[3 := 1, 7 := 2], e)"
  using ecc_detects_double_bit [of "replicate 256 0" 3 0 7 1] by simp

text \<open>
  One flipped bit of the stored ECC: the data is left alone, the stored ECC is repaired.
\<close>

theorem ecc_repairs_stored_ecc:
  assumes "yaffs_ecc_calc data = Some (t0, t1, t2)" and "k < 8"
    and "(x0, x1, x2) \<in> {(push_bit k 1, 0, 0), (0, push_bit k 1, 0), (0, 0, push_bit k 1)}"
  shows "yaffs_ecc_correct data (t0 XOR x0, t1 XOR x1, t2 XOR x2) (t0, t1, t2) =
     Some (1, data, (t0, t1, t2))"
proof -
  have h0: "yaffs_hweight8 0 = 0" by (simp add: yaffs_hweight8_bits bit_total_def)
  consider "x0 = push_bit k 1" "x1 = 0" "x2 = 0" | "x0 = 0" "x1 = push_bit k 1" "x2 = 0"
    | "x0 = 0" "x1 = 0" "x2 = push_bit k 1"
    using assms(3) by blast
  then have h: "yaffs_hweight8 x0 + yaffs_hweight8 x1 + yaffs_hweight8 x2 = 1"
    by cases (simp_all only: hweight8_push [OF assms(2)] h0)
  have nz: "x0 OR x1 OR x2 \<noteq> 0"
  proof
    assume "x0 OR x1 OR x2 = 0"
    then have "x0 = 0" "x1 = 0" "x2 = 0" by (metis or_eq_0_iff)+
    with h h0 show False by simp
  qed
  have "x0 = 0 \<or> x1 = 0" using assms(3) by blast
  then have np: "\<not> ((x0 XOR drop_bit 1 x0) AND 0x55 = 0x55 \<and> (x1 XOR drop_bit 1 x1) AND 0x55 = 0x55 \<and>
      (x2 XOR drop_bit 1 x2) AND 0x54 = 0x54)"
    by (elim disjE) simp_all
  have x: "(t XOR x) XOR t = x" for t x :: u8 by (simp add: xor.commute xor.left_commute)
  show ?thesis
    unfolding yaffs_ecc_correct_def prod.case Let_def x if_not_P [OF nz] if_not_P [OF np] if_P [OF h] ..
qed

theorem ecc_repairs_stored_ecc_witness:
  "yaffs_ecc_correct (replicate 256 0) (0xff, 0xfb, 0xff) (0xff, 0xff, 0xff) =
     Some (1, replicate 256 0, (0xff, 0xff, 0xff))"
proof -
  have c: "yaffs_ecc_calc (replicate 256 0) = Some (0xff, 0xff, 0xff)" by code_simp
  show ?thesis
    using ecc_repairs_stored_ecc [OF c, of 2 0 4 0] by simp
qed

section \<open>The code over buffers of any length\<close>

lemma yaffs_ecc_calc_other_sums:
  "yaffs_ecc_calc_other data =
     \<lparr>eo_col_parity = drop_bit 2 (col_sum column_parity data) AND 0x3f,
      eo_line_parity = line_sum column_parity id 0 data,
      eo_line_parity_prime = line_sum column_parity NOT 0 data\<rparr>"
  by (simp add: yaffs_ecc_calc_other_def Let_def ecc_calc_other_loop_fold parity_fold_sums)

lemma col6_xor:
  "(drop_bit 2 a AND 0x3f) XOR (drop_bit 2 (a XOR c) AND 0x3f) = drop_bit 2 c AND (0x3f :: u8)"
  "(drop_bit 2 a AND 0x3f) XOR (drop_bit 2 a XOR drop_bit 2 c) AND 0x3f = drop_bit 2 c AND (0x3f :: u8)"
  by (rule bit_word_eqI; auto simp: bit_simps)+

lemma ecc_calc_other_flip:
  assumes "j < length data" and "k < 8"
  defines "e \<equiv> yaffs_ecc_calc_other data"
  defines "e' \<equiv> yaffs_ecc_calc_other (data[j := data ! j XOR push_bit k 1])"
  shows "eo_col_parity e XOR eo_col_parity e' = drop_bit 2 (column_parity (push_bit k 1)) AND 0x3f"
    and "eo_line_parity e XOR eo_line_parity e' = word_of_nat j"
    and "eo_line_parity_prime e XOR eo_line_parity_prime e' = NOT (word_of_nat j)"
  using flip_odd [OF assms(2)]
  unfolding e_def e'_def yaffs_ecc_calc_other_sums
  by (simp_all add: col.col_sum_flip col.line_sum_flip assms(1) col6_xor flip: xor.assoc)

lemma hweight32_bits: "k < 32 \<Longrightarrow> yaffs_hweight32 (push_bit k 1) = 1"
proof -
  have "\<forall>k \<in> set [0..<32]. yaffs_hweight32 (push_bit k 1) = 1" by code_simp
  then show "k < 32 \<Longrightarrow> yaffs_hweight32 (push_bit k 1) = 1" by simp
qed

lemma hweight_0: "yaffs_hweight32 0 = 0" "yaffs_hweight8 0 = 0"
  by code_simp+

lemma ecc_other_single_bit:
  assumes "length data \<le> 2 ^ 32" and "j < length data" and "k < 8"
  shows "yaffs_ecc_correct_other (data[j := data ! j XOR push_bit k 1])
       (yaffs_ecc_calc_other data) (yaffs_ecc_calc_other (data[j := data ! j XOR push_bit k 1]))
     = (1, data, yaffs_ecc_calc_other data)"
proof -
  let ?d = "drop_bit 2 (column_parity (push_bit k 1)) AND (0x3f :: u8)"
  have p: "(?d XOR drop_bit 1 ?d) AND 0x15 = 0x15 \<and> ?d \<noteq> 0 \<and>
    unat ((if ?d AND 0x20 \<noteq> 0 then 0x04 else 0) OR (if ?d AND 0x08 \<noteq> 0 then 0x02 else 0) OR
       (if ?d AND 0x02 \<noteq> 0 then 0x01 else (0::u8))) = k"
    using less_8_cases [OF assms(3)] by (elim disjE; simp add: column_parity_def)
  have j: "unat (word_of_nat j :: u32) = j"
    using assms(1,2) by (simp add: unat_of_nat)
  have nz: "ucast ?d OR (word_of_nat j :: u32) OR NOT (word_of_nat j) \<noteq> 0"
    by (simp add: or_eq_0_iff)
  show ?thesis
    unfolding yaffs_ecc_correct_other_def Let_def ecc_calc_other_flip [OF assms(2,3)]
    using p nz assms(2) by (simp add: j xor.assoc)
qed

text \<open>
  The code of a buffer of any length (below 4 GiB, where the byte number fits
  the 32-bit line parity) repairs one flipped bit of the data.
\<close>

theorem ecc_other_corrects_single_bit:
  assumes "length data \<le> 2 ^ 32" and "j < length data" and "k < 8"
  shows "yaffs_ecc_correct_other (data[j := data ! j XOR push_bit k 1])
       (yaffs_ecc_calc_other data) (yaffs_ecc_calc_other (data[j := data ! j XOR push_bit k 1]))
     = (1, data, yaffs_ecc_calc_other data)"
  by (rule ecc_other_single_bit [OF assms])

theorem ecc_other_corrects_single_bit_witness:
  "yaffs_ecc_correct_other ([1, 2, 3, 4, 5][3 := [1, 2, 3, 4, 5] ! 3 XOR push_bit 7 1])
     (yaffs_ecc_calc_other [1, 2, 3, 4, 5])
     (yaffs_ecc_calc_other ([1, 2, 3, 4, 5][3 := [1, 2, 3, 4, 5] ! 3 XOR push_bit 7 1]))
   = (1, [1, 2, 3, 4, 5], yaffs_ecc_calc_other [1, 2, 3, 4, 5])"
  by (rule ecc_other_corrects_single_bit) simp_all

lemma ecc_correct_other_same: "yaffs_ecc_correct_other data e e = (0, data, e)"
  by (simp add: yaffs_ecc_correct_other_def)

text \<open>One flipped bit of a stored code.\<close>

inductive ecc_other_bit_flip :: "yaffs_ecc_other \<Rightarrow> yaffs_ecc_other \<Rightarrow> bool" where
  "k < 8 \<Longrightarrow> ecc_other_bit_flip e (e\<lparr>eo_col_parity := eo_col_parity e XOR push_bit k 1\<rparr>)"
| "k < 32 \<Longrightarrow> ecc_other_bit_flip e (e\<lparr>eo_line_parity := eo_line_parity e XOR push_bit k 1\<rparr>)"
| "k < 32 \<Longrightarrow> ecc_other_bit_flip e
     (e\<lparr>eo_line_parity_prime := eo_line_parity_prime e XOR push_bit k 1\<rparr>)"

lemma push_bit_not_all: "k < 32 \<Longrightarrow> push_bit k 1 \<noteq> NOT (0::u32)" "push_bit k 1 \<noteq> (0 :: u32) \<or> 32 \<le> k"
   "k < 32 \<Longrightarrow> (0::u32) \<noteq> NOT (push_bit k 1)" "k < 32 \<Longrightarrow> push_bit k 1 \<noteq> (0 :: u32)"
proof -
  have "\<forall>k \<in> set [0..<32]. push_bit k 1 \<noteq> NOT (0::u32) \<and> push_bit k 1 \<noteq> (0 :: u32) \<and> (0::u32) \<noteq> NOT (push_bit k 1)"
    by code_simp
  then show "k < 32 \<Longrightarrow> push_bit k 1 \<noteq> NOT (0::u32)" "push_bit k 1 \<noteq> (0 :: u32) \<or> 32 \<le> k"
    "k < 32 \<Longrightarrow> (0::u32) \<noteq> NOT (push_bit k 1)" "k < 32 \<Longrightarrow> push_bit k 1 \<noteq> (0 :: u32)"
    by (simp_all add: not_less [symmetric])
qed

lemma xor_flip_cancel: "(a XOR x) XOR a = (x :: 'a::len word)"
  by (simp add: xor.commute xor.left_commute)

lemma ecc_other_repairs_stored:
  assumes "ecc_other_bit_flip e f"
  shows "yaffs_ecc_correct_other data f e = (1, data, e)"
  using assms
proof cases
  case (1 k)
  have nz: "ucast (push_bit k 1 :: u8) \<noteq> (0 :: u32)"
    using less_8_cases [OF 1(2)] by (elim disjE; simp)
  show ?thesis
    using 1 nz by (simp add: yaffs_ecc_correct_other_def Let_def xor_flip_cancel hweight_0 hweight8_push [simplified])
next
  case (2 k)
  then show ?thesis
    by (simp add: yaffs_ecc_correct_other_def Let_def xor_flip_cancel hweight_0 hweight32_bits [simplified] push_bit_not_all)
next
  case (3 k)
  then show ?thesis
    by (simp add: yaffs_ecc_correct_other_def Let_def xor_flip_cancel hweight_0 hweight32_bits [simplified] push_bit_not_all)
qed

end
