(* ===== verification/Yaffs_PackedTags.thy ===== *)
theory Yaffs_PackedTags
  imports Yaffs_Ecc_Correct
begin

text \<open>
  core/yaffs_packedtags2.c, core/yaffs_packedtags1.c and yaffs_do_endian_packed_tags2
  of core/yaffs_endian.c: how the extended tags of a chunk are packed into the
  16 bytes (yaffs2) or the 12 bytes (yaffs1) that go to flash.  \<open>tags2_fits\<close> says
  which tags the packed form can hold, \<open>tags2_stored\<close> what a reader gets back from
  them; the properties are the round trip, and the round trip with one bit of the
  stored form flipped.
\<close>

section \<open>yaffs2 packed tags\<close>

record yaffs_packed_tags2_tags_only =
  pt_seq_number :: u32
  pt_obj_id :: u32
  pt_chunk_id :: u32
  pt_n_bytes :: u32

record yaffs_packed_tags2 =
  pt_t :: yaffs_packed_tags2_tags_only
  pt_ecc :: yaffs_ecc_other

definition EXTRA_HEADER_INFO_FLAG :: u32 where "EXTRA_HEADER_INFO_FLAG = 0x80000000"
definition EXTRA_SHRINK_FLAG :: u32 where "EXTRA_SHRINK_FLAG = 0x40000000"
definition EXTRA_SHADOWS_FLAG :: u32 where "EXTRA_SHADOWS_FLAG = 0x20000000"
definition ALL_EXTRA_FLAGS :: u32 where "ALL_EXTRA_FLAGS = 0xf0000000"
definition EXTRA_OBJECT_TYPE_MASK :: u32 where "EXTRA_OBJECT_TYPE_MASK = push_bit 28 0x0f"

lemmas extra_flags = EXTRA_HEADER_INFO_FLAG_def EXTRA_SHRINK_FLAG_def EXTRA_SHADOWS_FLAG_def
  ALL_EXTRA_FLAGS_def EXTRA_OBJECT_TYPE_MASK_def

definition yaffs_do_endian_packed_tags2 ::
    "bool \<Rightarrow> yaffs_packed_tags2_tags_only \<Rightarrow> yaffs_packed_tags2_tags_only" where
  "yaffs_do_endian_packed_tags2 swap_endian ptt =
     (if \<not> swap_endian then ptt
      else ptt\<lparr>pt_seq_number := swap_u32 (pt_seq_number ptt),
               pt_obj_id := swap_u32 (pt_obj_id ptt),
               pt_chunk_id := swap_u32 (pt_chunk_id ptt),
               pt_n_bytes := swap_u32 (pt_n_bytes ptt)\<rparr>)"

text \<open>The shift of the signed 64-bit file size is arithmetic.\<close>

definition yaffs_check_tags_extra_packable :: "yaffs_ext_tags \<Rightarrow> bool" where
  "yaffs_check_tags_extra_packable t =
     (if chunk_id t \<noteq> 0 \<or> extra_available t = 0 then False
      else if extra_obj_type t = YAFFS_OBJECT_TYPE_FILE \<and>
              signed_drop_bit 31 (extra_file_size t) \<noteq> 0 then False
      else True)"

definition yaffs_pack_tags2_tags_only :: "bool \<Rightarrow> yaffs_ext_tags \<Rightarrow> yaffs_packed_tags2_tags_only" where
  "yaffs_pack_tags2_tags_only swap_endian t =
     (let ptt = \<lparr>pt_seq_number = seq_number t, pt_obj_id = obj_id t, pt_chunk_id = chunk_id t,
                 pt_n_bytes = n_bytes t\<rparr>;
          ptt = (if yaffs_check_tags_extra_packable t then
             let c = EXTRA_HEADER_INFO_FLAG OR extra_parent_id t;
                 c = (if extra_is_shrink t \<noteq> 0 then c OR EXTRA_SHRINK_FLAG else c);
                 c = (if extra_shadows t \<noteq> 0 then c OR EXTRA_SHADOWS_FLAG else c);
                 ob = pt_obj_id ptt AND NOT EXTRA_OBJECT_TYPE_MASK;
                 ob = ob OR push_bit 28 (extra_obj_type t);
                 n = (if extra_obj_type t = YAFFS_OBJECT_TYPE_HARDLINK then extra_equiv_id t
                      else if extra_obj_type t = YAFFS_OBJECT_TYPE_FILE
                      then ucast (extra_file_size t) else 0)
             in ptt\<lparr>pt_chunk_id := c, pt_obj_id := ob, pt_n_bytes := n\<rparr>
           else ptt)
      in yaffs_do_endian_packed_tags2 swap_endian ptt)"

definition yaffs_unpack_tags2_tags_only :: "bool \<Rightarrow> yaffs_packed_tags2_tags_only \<Rightarrow> yaffs_ext_tags" where
  "yaffs_unpack_tags2_tags_only swap_endian ptt_ptr =
     (let t = zero_tags in
      if pt_seq_number ptt_ptr = 0xffffffff then t
      else
        let p = yaffs_do_endian_packed_tags2 swap_endian ptt_ptr;
            t = t\<lparr>block_bad := 0, chunk_used := 1, obj_id := pt_obj_id p,
                  chunk_id := pt_chunk_id p, n_bytes := pt_n_bytes p, is_deleted := 0,
                  serial_number := 0, seq_number := pt_seq_number p\<rparr>
        in if pt_chunk_id p AND EXTRA_HEADER_INFO_FLAG \<noteq> 0 then
             let t = t\<lparr>chunk_id := 0, n_bytes := 0, extra_available := 1,
                       extra_parent_id := pt_chunk_id p AND NOT ALL_EXTRA_FLAGS,
                       extra_is_shrink := (if pt_chunk_id p AND EXTRA_SHRINK_FLAG \<noteq> 0 then 1 else 0),
                       extra_shadows := (if pt_chunk_id p AND EXTRA_SHADOWS_FLAG \<noteq> 0 then 1 else 0),
                       extra_obj_type := drop_bit 28 (pt_obj_id p),
                       obj_id := obj_id t AND NOT EXTRA_OBJECT_TYPE_MASK\<rparr>
             in if extra_obj_type t = YAFFS_OBJECT_TYPE_HARDLINK
                then t\<lparr>extra_equiv_id := pt_n_bytes p\<rparr>
                else t\<lparr>extra_file_size := ucast (pt_n_bytes p)\<rparr>
           else t)"

subsection \<open>The packed tags as bytes\<close>

definition ptt_bytes :: "yaffs_packed_tags2_tags_only \<Rightarrow> u8 list" where
  "ptt_bytes p = u32_bytes (pt_seq_number p) @ u32_bytes (pt_obj_id p) @
     u32_bytes (pt_chunk_id p) @ u32_bytes (pt_n_bytes p)"

definition u32_at :: "u8 list \<Rightarrow> nat \<Rightarrow> u32" where
  "u32_at bs i = bytes_u32 (bs ! i) (bs ! (i + 1)) (bs ! (i + 2)) (bs ! (i + 3))"

definition bytes_ptt :: "u8 list \<Rightarrow> yaffs_packed_tags2_tags_only" where
  "bytes_ptt bs = \<lparr>pt_seq_number = u32_at bs 0, pt_obj_id = u32_at bs 4,
     pt_chunk_id = u32_at bs 8, pt_n_bytes = u32_at bs 12\<rparr>"

text \<open>
  \<^verbatim>\<open>yaffs_pack_tags2\<close>: \<open>old\<close> is the content of \<^verbatim>\<open>pt->ecc\<close> before the call, kept when
  there is no tags ECC.
\<close>

definition yaffs_pack_tags2 ::
    "bool \<Rightarrow> yaffs_ecc_other \<Rightarrow> yaffs_ext_tags \<Rightarrow> bool \<Rightarrow> yaffs_packed_tags2" where
  "yaffs_pack_tags2 swap_endian old t tags_ecc =
     (let ptt = yaffs_pack_tags2_tags_only swap_endian t
      in \<lparr>pt_t = ptt, pt_ecc = (if tags_ecc then yaffs_ecc_calc_other (ptt_bytes ptt) else old)\<rparr>)"

text \<open>The unpacked tags, and the packed tags with the repairs of the ECC.\<close>

definition yaffs_unpack_tags2 ::
    "bool \<Rightarrow> yaffs_packed_tags2 \<Rightarrow> bool \<Rightarrow> yaffs_ext_tags \<times> yaffs_packed_tags2" where
  "yaffs_unpack_tags2 swap_endian pt tags_ecc =
     (let (res, pt) =
        (if pt_seq_number (pt_t pt) \<noteq> 0xffffffff \<and> tags_ecc then
           let ecc = yaffs_ecc_calc_other (ptt_bytes (pt_t pt));
               (result, bs, stored) = yaffs_ecc_correct_other (ptt_bytes (pt_t pt)) (pt_ecc pt) ecc
           in ((if result = 0 then YAFFS_ECC_RESULT_NO_ERROR
                else if result = 1 then YAFFS_ECC_RESULT_FIXED
                else if result = - 1 then YAFFS_ECC_RESULT_UNFIXED
                else YAFFS_ECC_RESULT_UNKNOWN),
               pt\<lparr>pt_t := bytes_ptt bs, pt_ecc := stored\<rparr>)
         else (YAFFS_ECC_RESULT_NO_ERROR, pt));
        t = yaffs_unpack_tags2_tags_only swap_endian (pt_t pt)
      in (t\<lparr>ecc_result := res\<rparr>, pt))"

section \<open>yaffs1 packed tags\<close>

record yaffs_packed_tags1 =
  pt1_chunk_id :: "20 word"
  pt1_serial_number :: "2 word"
  pt1_n_bytes :: "10 word"
  pt1_obj_id :: "18 word"
  pt1_ecc :: "12 word"
  pt1_deleted :: "1 word"
  pt1_unused_stuff :: "1 word"
  pt1_should_be_ff :: u32

definition yaffs_pack_tags1 :: "yaffs_ext_tags \<Rightarrow> yaffs_packed_tags1" where
  "yaffs_pack_tags1 t =
     \<lparr>pt1_chunk_id = ucast (chunk_id t), pt1_serial_number = ucast (serial_number t),
      pt1_n_bytes = ucast (n_bytes t), pt1_obj_id = ucast (obj_id t), pt1_ecc = 0,
      pt1_deleted = (if is_deleted t \<noteq> 0 then 0 else 1), pt1_unused_stuff = 0,
      pt1_should_be_ff = 0xffffffff\<rparr>"

text \<open>\<^verbatim>\<open>memcmp(all_ff, pt, sizeof(struct yaffs_packed_tags1))\<close> is zero: every bit is set.\<close>

definition pt1_all_ff :: "yaffs_packed_tags1 \<Rightarrow> bool" where
  "pt1_all_ff pt \<longleftrightarrow> pt1_chunk_id pt = - 1 \<and> pt1_serial_number pt = - 1 \<and> pt1_n_bytes pt = - 1 \<and>
     pt1_obj_id pt = - 1 \<and> pt1_ecc pt = - 1 \<and> pt1_deleted pt = - 1 \<and>
     pt1_unused_stuff pt = - 1 \<and> pt1_should_be_ff pt = - 1"

text \<open>\<open>t\<close> is the structure the caller passes: the fields that are not set keep their values.\<close>

definition yaffs_unpack_tags1 :: "yaffs_ext_tags \<Rightarrow> yaffs_packed_tags1 \<Rightarrow> yaffs_ext_tags" where
  "yaffs_unpack_tags1 t pt =
     (if \<not> pt1_all_ff pt then
        t\<lparr>block_bad := (if pt1_should_be_ff pt \<noteq> 0xffffffff then 1 else 0),
          chunk_used := 1, obj_id := ucast (pt1_obj_id pt), chunk_id := ucast (pt1_chunk_id pt),
          n_bytes := ucast (pt1_n_bytes pt), ecc_result := YAFFS_ECC_RESULT_NO_ERROR,
          is_deleted := (if pt1_deleted pt \<noteq> 0 then 0 else 1),
          serial_number := ucast (pt1_serial_number pt)\<rparr>
      else zero_tags)"

section \<open>What survives packing\<close>

text \<open>
  The tags that fit: not an erased chunk's sequence number; a data chunk number
  below the flag bit, or a header whose parent and object ids leave the four
  flag bits free and whose type is one of the enum's.
\<close>

definition tags2_fits :: "yaffs_ext_tags \<Rightarrow> bool" where
  "tags2_fits t \<longleftrightarrow> seq_number t \<noteq> 0xffffffff \<and>
     (if yaffs_check_tags_extra_packable t
      then extra_parent_id t < 0x10000000 \<and> obj_id t < 0x10000000 \<and> extra_obj_type t \<le> 5
      else chunk_id t < 0x80000000)"

definition tags2_stored :: "yaffs_ext_tags \<Rightarrow> yaffs_ext_tags" where
  "tags2_stored t =
     (let base = zero_tags\<lparr>chunk_used := 1, obj_id := obj_id t, seq_number := seq_number t\<rparr> in
      if yaffs_check_tags_extra_packable t then
        base\<lparr>extra_available := 1, extra_parent_id := extra_parent_id t,
             extra_is_shrink := of_bool (extra_is_shrink t \<noteq> 0),
             extra_shadows := of_bool (extra_shadows t \<noteq> 0),
             extra_obj_type := extra_obj_type t,
             extra_file_size := (if extra_obj_type t = YAFFS_OBJECT_TYPE_FILE then extra_file_size t else 0),
             extra_equiv_id := (if extra_obj_type t = YAFFS_OBJECT_TYPE_HARDLINK then extra_equiv_id t else 0)\<rparr>
      else base\<lparr>chunk_id := chunk_id t, n_bytes := n_bytes t\<rparr>)"

lemma bytes_u32_inj:
  "u32_bytes (bytes_u32 a b c d) = [a, b, c, d]"
proof -
  have "ucast (bytes_u32 a b c d) = a" "ucast (drop_bit 8 (bytes_u32 a b c d)) = b"
    "ucast (drop_bit 16 (bytes_u32 a b c d)) = c" "ucast (drop_bit 24 (bytes_u32 a b c d)) = d"
    by (rule bit_word_eqI; auto simp: bit_bytes_u32 bit_simps)+
  then show ?thesis by (simp add: u32_bytes_def)
qed

lemma bytes_ptt_ptt_bytes [simp]: "bytes_ptt (ptt_bytes p) = p"
  by (simp add: bytes_ptt_def ptt_bytes_def u32_at_def u32_bytes_def nth_append)

lemma length_ptt_bytes [simp]: "length (ptt_bytes p) = 16"
  by (simp add: ptt_bytes_def)

lemma ptt_bytes_bytes_ptt:
  assumes "length bs = 16"
  shows "ptt_bytes (bytes_ptt bs) = bs"
proof -
  obtain a0 a1 a2 a3 a4 a5 a6 a7 a8 a9 b0 b1 b2 b3 b4 b5
    where "bs = [a0, a1, a2, a3, a4, a5, a6, a7, a8, a9, b0, b1, b2, b3, b4, b5]"
    using assms by (auto simp: length_Suc_conv numeral_eq_Suc)
  then show ?thesis by (simp add: bytes_ptt_def ptt_bytes_def u32_at_def bytes_u32_inj)
qed

lemma do_endian_ptt_invol [simp]:
  "yaffs_do_endian_packed_tags2 s (yaffs_do_endian_packed_tags2 s p) = p"
  by (simp add: yaffs_do_endian_packed_tags2_def)

lemma swap_u32_all_ones: "swap_u32 v = 0xffffffff \<longleftrightarrow> v = 0xffffffff"
proof -
  have "swap_u32 0xffffffff = 0xffffffff" by (simp add: swap_u32_def)
  then show ?thesis by (metis swap_u32_swap_u32)
qed

lemma do_endian_seq:
  "pt_seq_number (yaffs_do_endian_packed_tags2 s p) = 0xffffffff \<longleftrightarrow> pt_seq_number p = 0xffffffff"
  by (simp add: yaffs_do_endian_packed_tags2_def swap_u32_all_ones)


lemma flag_masks:
  "EXTRA_HEADER_INFO_FLAG = push_bit 31 1" "EXTRA_SHRINK_FLAG = push_bit 30 1"
  "EXTRA_SHADOWS_FLAG = push_bit 29 1" "ALL_EXTRA_FLAGS = push_bit 28 (mask 4)"
  "EXTRA_OBJECT_TYPE_MASK = push_bit 28 (mask 4)"
  by (simp_all add: extra_flags mask_numeral)

lemma flag_bits:
  "bit EXTRA_HEADER_INFO_FLAG n = (n = 31)" "bit EXTRA_SHRINK_FLAG n = (n = 30)"
  "bit EXTRA_SHADOWS_FLAG n = (n = 29)" "bit ALL_EXTRA_FLAGS n = (28 \<le> n \<and> n < 32)"
  "bit EXTRA_OBJECT_TYPE_MASK n = (28 \<le> n \<and> n < 32)"
  unfolding flag_masks bit_push_bit_iff bit_1_iff bit_mask_iff by auto

lemma u32_less_exp_bit:
  assumes "(x :: u32) < 2 ^ m" and "m < 32" and "bit x n"
  shows "n < m"
proof -
  have "x AND mask m = x"
    using assms(1,2) by (simp add: mask_eq_iff word_2p_lem [symmetric] word_size)
  then have "bit (x AND mask m) n" using assms(3) by simp
  then show ?thesis by (simp add: bit_and_iff bit_mask_iff)
qed

lemmas u32_fits_bits = u32_less_exp_bit [where m = 28, simplified]
lemmas u32_small_bits = u32_less_exp_bit [where m = 31, simplified]

lemma obj_type_bits:
  assumes "(ty :: u32) \<le> 5" and "bit ty n"
  shows "n < 4"
proof (rule u32_less_exp_bit)
  show "ty < 2 ^ 4" using assms(1) by (rule order_le_less_trans) simp
qed (simp_all add: assms(2))

text \<open>The object id word of a packed header.\<close>

definition packed_obj :: "u32 \<Rightarrow> u32 \<Rightarrow> u32" where
  "packed_obj ob ty = (ob AND NOT EXTRA_OBJECT_TYPE_MASK) OR push_bit 28 ty"

lemma packed_obj_fields:
  assumes "ob < 0x10000000" and "ty \<le> 5"
  shows "drop_bit 28 (packed_obj ob ty) = ty"
    and "packed_obj ob ty AND NOT EXTRA_OBJECT_TYPE_MASK = ob"
  unfolding packed_obj_def
  by (rule bit_word_eqI; auto simp: flag_bits bit_simps
      dest: u32_fits_bits [OF assms(1)] obj_type_bits [OF assms(2)])+

text \<open>The chunk id word of a packed header, with its flags.\<close>

definition packed_parent :: "u32 \<Rightarrow> bool \<Rightarrow> bool \<Rightarrow> u32" where
  "packed_parent par shrink shadows =
     (let c = EXTRA_HEADER_INFO_FLAG OR par;
          c = (if shrink then c OR EXTRA_SHRINK_FLAG else c)
      in if shadows then c OR EXTRA_SHADOWS_FLAG else c)"

lemma bit_packed_parent:
  "bit (packed_parent par shrink shadows) n \<longleftrightarrow>
     n = 31 \<or> bit par n \<or> (shrink \<and> n = 30) \<or> (shadows \<and> n = 29)"
  by (auto simp: packed_parent_def Let_def bit_or_iff flag_bits)

lemma flag_test: "n < 32 \<Longrightarrow> c AND push_bit n 1 \<noteq> (0 :: u32) \<longleftrightarrow> bit c n"
  by (simp add: and_exp_eq_0_iff_not_bit)

lemma packed_parent_fields:
  assumes "par < 0x10000000"
  shows "packed_parent par shrink shadows AND NOT ALL_EXTRA_FLAGS = par"
    "packed_parent par shrink shadows AND EXTRA_HEADER_INFO_FLAG \<noteq> 0"
    "packed_parent par shrink shadows AND EXTRA_SHRINK_FLAG \<noteq> 0 \<longleftrightarrow> shrink"
    "packed_parent par shrink shadows AND EXTRA_SHADOWS_FLAG \<noteq> 0 \<longleftrightarrow> shadows"
proof -
  have b: "\<not> bit par 30" "\<not> bit par 29" using u32_fits_bits [OF assms] by fastforce+
  show "packed_parent par shrink shadows AND NOT ALL_EXTRA_FLAGS = par"
    by (rule bit_word_eqI)
      (auto simp: bit_and_iff bit_not_iff bit_packed_parent flag_bits dest: u32_fits_bits [OF assms])
  show "packed_parent par shrink shadows AND EXTRA_HEADER_INFO_FLAG \<noteq> 0"
    "packed_parent par shrink shadows AND EXTRA_SHRINK_FLAG \<noteq> 0 \<longleftrightarrow> shrink"
    "packed_parent par shrink shadows AND EXTRA_SHADOWS_FLAG \<noteq> 0 \<longleftrightarrow> shadows"
    unfolding flag_masks by (subst flag_test; simp add: bit_packed_parent b)+
qed

lemma small_chunk_no_flag: "c < 0x80000000 \<Longrightarrow> c AND EXTRA_HEADER_INFO_FLAG = 0"
  using u32_small_bits [of c 31] flag_test [of 31 c] unfolding flag_masks by auto

lemma short_file_size:
  assumes "signed_drop_bit 31 (f :: u64) = 0"
  shows "ucast (ucast f :: u32) = f"
proof (rule bit_word_eqI)
  fix n assume n: "n < LENGTH(64)"
  have "\<not> bit f m" if "31 \<le> m" "m < 64" for m
  proof -
    have "bit (signed_drop_bit 31 f) (m - 31) = False" by (simp add: assms)
    then show ?thesis using that by (auto simp: bit_signed_drop_bit_iff split: if_splits)
  qed
  then show "bit (ucast (ucast f :: u32) :: u64) n = bit f n"
    using n by (cases "n < 32") (simp_all add: bit_unsigned_iff)
qed


lemma pack_tags_only_seq: "pt_seq_number (yaffs_pack_tags2_tags_only s t) = 0xffffffff \<longleftrightarrow>
    seq_number t = 0xffffffff"
  by (simp add: yaffs_pack_tags2_tags_only_def Let_def do_endian_seq)

lemma pack_extra_fields:
  assumes "yaffs_check_tags_extra_packable t"
  shows "yaffs_pack_tags2_tags_only s t = yaffs_do_endian_packed_tags2 s
    \<lparr>pt_seq_number = seq_number t,
     pt_obj_id = packed_obj (obj_id t) (extra_obj_type t),
     pt_chunk_id = packed_parent (extra_parent_id t) (extra_is_shrink t \<noteq> 0) (extra_shadows t \<noteq> 0),
     pt_n_bytes = (if extra_obj_type t = 4 then extra_equiv_id t
                   else if extra_obj_type t = 1 then ucast (extra_file_size t) else 0)\<rparr>"
  using assms by (simp add: yaffs_pack_tags2_tags_only_def Let_def packed_parent_def packed_obj_def)

lemma unpack_pack_tags_only:
  assumes "tags2_fits t"
  shows "yaffs_unpack_tags2_tags_only s (yaffs_pack_tags2_tags_only s t) = tags2_stored t"
proof (cases "yaffs_check_tags_extra_packable t")
  case True
  have fits: "seq_number t \<noteq> 0xffffffff" "extra_parent_id t < 0x10000000" "obj_id t < 0x10000000"
      "extra_obj_type t \<le> 5"
    using assms True by (simp_all add: tags2_fits_def)
  have size: "extra_obj_type t = 1 \<Longrightarrow> ucast (ucast (extra_file_size t) :: u32) = extra_file_size t"
    using True by (auto simp: yaffs_check_tags_extra_packable_def split: if_splits intro: short_file_size)
  show ?thesis
    unfolding pack_extra_fields [OF True]
    using True fits size
    by (simp add: yaffs_unpack_tags2_tags_only_def Let_def do_endian_seq packed_parent_fields
        packed_obj_fields tags2_stored_def zero_tags_def)
next
  case False
  have fits: "seq_number t \<noteq> 0xffffffff" "chunk_id t < 0x80000000"
    using assms False by (simp_all add: tags2_fits_def)
  then show ?thesis
    using False small_chunk_no_flag [OF fits(2)]
    by (simp add: yaffs_unpack_tags2_tags_only_def yaffs_pack_tags2_tags_only_def Let_def do_endian_seq
        tags2_stored_def zero_tags_def)
qed

lemma packed_tags2_unpack_pack:
  assumes "tags2_fits t"
  shows "fst (yaffs_unpack_tags2 swap (yaffs_pack_tags2 swap old t tags_ecc) tags_ecc) =
     (tags2_stored t)\<lparr>ecc_result := YAFFS_ECC_RESULT_NO_ERROR\<rparr>"
  using unpack_pack_tags_only [OF assms]
  by (simp add: yaffs_unpack_tags2_def yaffs_pack_tags2_def Let_def ecc_correct_other_same)

text \<open>
  C32: packing and unpacking yaffs2 tags, with either byte order, with or without
  tags ECC, gives back every field the packed form holds.
\<close>

theorem packed_tags2_roundtrip:
  assumes "tags2_fits t"
  shows "fst (yaffs_unpack_tags2 swap (yaffs_pack_tags2 swap old t tags_ecc) tags_ecc) =
     (tags2_stored t)\<lparr>ecc_result := YAFFS_ECC_RESULT_NO_ERROR\<rparr>"
  by (rule packed_tags2_unpack_pack [OF assms])

definition sample_tags :: yaffs_ext_tags where
  "sample_tags = zero_tags\<lparr>obj_id := 0x123, seq_number := 0x1001, extra_available := 1,
     extra_parent_id := 1, extra_shadows := 1, extra_obj_type := 1, extra_file_size := 70000\<rparr>"

lemma sample_tags_fit: "tags2_fits sample_tags"
  by (simp add: tags2_fits_def sample_tags_def zero_tags_def yaffs_check_tags_extra_packable_def)

theorem packed_tags2_roundtrip_witness:
  "fst (yaffs_unpack_tags2 True (yaffs_pack_tags2 True (yaffs_ecc_calc_other []) sample_tags True) True) =
     (tags2_stored sample_tags)\<lparr>ecc_result := YAFFS_ECC_RESULT_NO_ERROR\<rparr>"
  by (rule packed_tags2_roundtrip) (rule sample_tags_fit)

section \<open>Packed tags with one flipped bit\<close>

definition flip_ptt :: "nat \<Rightarrow> nat \<Rightarrow> yaffs_packed_tags2_tags_only \<Rightarrow> yaffs_packed_tags2_tags_only" where
  "flip_ptt j k p = bytes_ptt ((ptt_bytes p)[j := ptt_bytes p ! j XOR push_bit k 1])"

text \<open>
  C25: one bit of the sixteen stored bytes flipped: the tags read back are those
  written, and the ECC result says that they were fixed.  The exception the code
  makes is a corruption that turns the sequence number into that of an erased chunk.
\<close>

theorem packed_tags2_fixes_flipped_bit:
  assumes "tags2_fits t" and "j < 16" and "k < 8"
    and "pt = yaffs_pack_tags2 swap old t True"
    and "pt_seq_number (flip_ptt j k (pt_t pt)) \<noteq> 0xffffffff"
  shows "yaffs_unpack_tags2 swap (pt\<lparr>pt_t := flip_ptt j k (pt_t pt)\<rparr>) True =
     ((tags2_stored t)\<lparr>ecc_result := YAFFS_ECC_RESULT_FIXED\<rparr>, pt)"
proof -
  let ?bs = "ptt_bytes (pt_t pt)"
  have e: "pt_ecc pt = yaffs_ecc_calc_other ?bs" and t: "pt_t pt = yaffs_pack_tags2_tags_only swap t"
    by (simp_all add: assms(4) yaffs_pack_tags2_def Let_def)
  have b: "ptt_bytes (flip_ptt j k (pt_t pt)) = ?bs[j := ?bs ! j XOR push_bit k 1]"
    by (simp add: flip_ptt_def ptt_bytes_bytes_ptt)
  have c: "yaffs_ecc_correct_other (?bs[j := ?bs ! j XOR push_bit k 1]) (pt_ecc pt)
      (yaffs_ecc_calc_other (?bs[j := ?bs ! j XOR push_bit k 1])) = (1, ?bs, pt_ecc pt)"
    unfolding e by (rule ecc_other_single_bit) (simp_all add: assms)
  show ?thesis
    using assms(5) unpack_pack_tags_only [OF assms(1), of swap]
    by (simp add: yaffs_unpack_tags2_def Let_def b c flip: t del: push_bit_of_1)
qed

lemma sample_flip_seq: "pt_seq_number (flip_ptt 5 2
    (pt_t (yaffs_pack_tags2 False (yaffs_ecc_calc_other []) sample_tags True))) \<noteq> 0xffffffff"
  by code_simp

theorem packed_tags2_fixes_flipped_bit_witness:
  "let pt = yaffs_pack_tags2 False (yaffs_ecc_calc_other []) sample_tags True in
   yaffs_unpack_tags2 False (pt\<lparr>pt_t := flip_ptt 5 2 (pt_t pt)\<rparr>) True =
     ((tags2_stored sample_tags)\<lparr>ecc_result := YAFFS_ECC_RESULT_FIXED\<rparr>, pt)"
  unfolding Let_def
  by (rule packed_tags2_fixes_flipped_bit [OF sample_tags_fit _ _ refl sample_flip_seq]) simp_all

text \<open>
  One bit of the stored ECC flipped: the tags are read back unharmed and the stored
  ECC is repaired.
\<close>

theorem packed_tags2_survives_ecc_flip:
  assumes "tags2_fits t" and "pt = yaffs_pack_tags2 swap old t True"
    and "ecc_other_bit_flip (pt_ecc pt) e"
  shows "yaffs_unpack_tags2 swap (pt\<lparr>pt_ecc := e\<rparr>) True =
     ((tags2_stored t)\<lparr>ecc_result := YAFFS_ECC_RESULT_FIXED\<rparr>, pt)"
proof -
  have e: "pt_ecc pt = yaffs_ecc_calc_other (ptt_bytes (pt_t pt))"
    and t: "pt_t pt = yaffs_pack_tags2_tags_only swap t"
    by (simp_all add: assms(2) yaffs_pack_tags2_def Let_def)
  have s: "pt_seq_number (pt_t pt) \<noteq> 0xffffffff"
    using assms(1) by (simp add: t pack_tags_only_seq tags2_fits_def)
  show ?thesis
    using s unpack_pack_tags_only [OF assms(1), of swap] ecc_other_repairs_stored [OF assms(3)]
    by (simp add: yaffs_unpack_tags2_def Let_def flip: e) (simp flip: e t)
qed

theorem packed_tags2_survives_ecc_flip_witness:
  "let pt = yaffs_pack_tags2 False (yaffs_ecc_calc_other []) sample_tags True;
       e = (pt_ecc pt)\<lparr>eo_line_parity := eo_line_parity (pt_ecc pt) XOR push_bit 9 1\<rparr> in
   yaffs_unpack_tags2 False (pt\<lparr>pt_ecc := e\<rparr>) True =
     ((tags2_stored sample_tags)\<lparr>ecc_result := YAFFS_ECC_RESULT_FIXED\<rparr>, pt)"
  unfolding Let_def
  by (rule packed_tags2_survives_ecc_flip [OF sample_tags_fit refl]) (rule ecc_other_bit_flip.intros, simp)

section \<open>yaffs1 tags\<close>

definition tags1_fits :: "yaffs_ext_tags \<Rightarrow> bool" where
  "tags1_fits t \<longleftrightarrow> chunk_id t < 2 ^ 20 \<and> serial_number t < 2 ^ 2 \<and> n_bytes t < 2 ^ 10 \<and>
     obj_id t < 2 ^ 18"

lemma ucast_ucast_small:
  fixes x :: u32
  assumes "x < 2 ^ LENGTH('a)" and "LENGTH('a::len) < 32"
  shows "ucast (ucast x :: 'a word) = x"
proof (rule bit_word_eqI)
  fix n assume "n < LENGTH(32)"
  then show "bit (ucast (ucast x :: 'a word) :: u32) n = bit x n"
    using u32_less_exp_bit [OF assms, of n] by (auto simp: bit_unsigned_iff)
qed

text \<open>
  Yaffs1 tags whose fields fit the 20, 2, 10 and 18 bits of the packed form
  survive packing, whatever the structure they are read into held before.
\<close>

theorem packed_tags1_roundtrip:
  assumes "tags1_fits t"
  shows "yaffs_unpack_tags1 r (yaffs_pack_tags1 t) =
     r\<lparr>block_bad := 0, chunk_used := 1, obj_id := obj_id t, chunk_id := chunk_id t,
       n_bytes := n_bytes t, ecc_result := YAFFS_ECC_RESULT_NO_ERROR,
       is_deleted := of_bool (is_deleted t \<noteq> 0), serial_number := serial_number t\<rparr>"
  using assms
  by (simp add: tags1_fits_def yaffs_unpack_tags1_def yaffs_pack_tags1_def pt1_all_ff_def
      ucast_ucast_small)

theorem packed_tags1_roundtrip_witness:
  "yaffs_unpack_tags1 zero_tags (yaffs_pack_tags1
      (zero_tags\<lparr>obj_id := 300, chunk_id := 5, n_bytes := 512, serial_number := 3, is_deleted := 1\<rparr>)) =
    zero_tags\<lparr>block_bad := 0, chunk_used := 1, obj_id := 300, chunk_id := 5,
       n_bytes := 512, ecc_result := YAFFS_ECC_RESULT_NO_ERROR,
       is_deleted := 1, serial_number := 3\<rparr>"
  using packed_tags1_roundtrip [of "zero_tags\<lparr>obj_id := 300, chunk_id := 5, n_bytes := 512,
      serial_number := 3, is_deleted := 1\<rparr>" zero_tags]
  by (simp add: tags1_fits_def zero_tags_def)

end
