(* ===== verification/Yaffs_Flash.thy ===== *)
theory Yaffs_Flash
  imports Yaffs_PackedTags
begin

text \<open>
  The interfaces below the file system (\<^verbatim>\<open>struct yaffs_driver\<close> and
  \<^verbatim>\<open>struct yaffs_tags_handler\<close> of core/yaffs_guts.h): records of functions over
  the state of whatever stands behind them.  The locale \<open>page_store\<close> states what
  the layers above rely on: a page that was written reads back.

  A buffer pointer is \<open>Some\<close> of the content of the buffer, NULL is None; a function
  that fills a buffer returns its new content.  Where a structure of the caller is
  filled in, its old content is an argument.
\<close>

section \<open>Drivers and tag handlers\<close>

record 's yaffs_driver =
  drv_write_chunk_fn :: "'s \<Rightarrow> int \<Rightarrow> u8 list option \<Rightarrow> nat \<Rightarrow> u8 list option \<Rightarrow> int \<times> 's"
  drv_read_chunk_fn :: "'s \<Rightarrow> int \<Rightarrow> u8 list option \<Rightarrow> nat \<Rightarrow> u8 list option \<Rightarrow> nat \<Rightarrow>
      int \<times> u8 list option \<times> u8 list option \<times> yaffs_ecc_result \<times> 's"
  drv_erase_fn :: "'s \<Rightarrow> int \<Rightarrow> int \<times> 's"
  drv_mark_bad_fn :: "'s \<Rightarrow> int \<Rightarrow> int \<times> 's"
  drv_check_bad_fn :: "'s \<Rightarrow> int \<Rightarrow> int \<times> 's"
  drv_initialise_fn :: "('s \<Rightarrow> int \<times> 's) option"
  drv_deinitialise_fn :: "('s \<Rightarrow> int \<times> 's) option"

record 's yaffs_tags_handler =
  write_chunk_tags_fn :: "'s \<Rightarrow> int \<Rightarrow> u8 list option \<Rightarrow> yaffs_ext_tags option \<Rightarrow>
      (int \<times> u8 list option \<times> 's) option"
  read_chunk_tags_fn :: "'s \<Rightarrow> int \<Rightarrow> u8 list option \<Rightarrow> yaffs_ext_tags option \<Rightarrow>
      (int \<times> u8 list option \<times> yaffs_ext_tags option \<times> 's) option"
  query_block_fn :: "'s \<Rightarrow> int \<Rightarrow> (int \<times> yaffs_block_state \<times> u32 \<times> 's) option"
  mark_bad_fn :: "'s \<Rightarrow> int \<Rightarrow> int \<times> 's"

section \<open>Buffers\<close>

text \<open>\<^verbatim>\<open>memcpy(dst + off, src, strlen)\<close> within a buffer; None when it would run over the end.\<close>

definition buf_write :: "u8 list \<Rightarrow> nat \<Rightarrow> u8 list \<Rightarrow> u8 list option" where
  "buf_write buf off src =
     (if off + length src \<le> length buf
      then Some (take off buf @ src @ drop (off + length src) buf) else None)"

definition buf_read :: "u8 list \<Rightarrow> nat \<Rightarrow> nat \<Rightarrow> u8 list option" where
  "buf_read buf off n = (if off + n \<le> length buf then Some (take n (drop off buf)) else None)"

lemma length_buf_write: "buf_write buf off src = Some b \<Longrightarrow> length b = length buf"
  by (auto simp: buf_write_def split: if_splits)

lemma buf_read_write:
  "buf_write buf off src = Some b \<Longrightarrow> buf_read b off (length src) = Some src"
  by (auto simp: buf_write_def buf_read_def split: if_splits)

lemma buf_read_write_before:
  "buf_write buf off src = Some b \<Longrightarrow> n \<le> off \<Longrightarrow> take n b = take n buf"
  by (auto simp: buf_write_def split: if_splits)

lemma buf_write_whole: "length buf = length src \<Longrightarrow> buf_write buf 0 src = Some src"
  by (simp add: buf_write_def)

lemma buf_read_whole: "length buf = n \<Longrightarrow> buf_read buf 0 n = Some buf"
  by (simp add: buf_read_def)

section \<open>What a driver promises\<close>

text \<open>
  \<open>pg s c\<close> is the content of chunk \<open>c\<close>, data area and spare area; \<open>good s c\<close> says that
  the chunk can be used.
\<close>

locale page_store =
  fixes drv :: "'s yaffs_driver"
    and pg :: "'s \<Rightarrow> int \<Rightarrow> u8 list \<times> u8 list"
    and good :: "'s \<Rightarrow> int \<Rightarrow> bool"
    and data_size spare_size :: nat
  assumes pg_lengths: "good s c \<Longrightarrow> length (fst (pg s c)) = data_size \<and> length (snd (pg s c)) = spare_size"
    and write_page: "good s c \<Longrightarrow> length data = data_size \<Longrightarrow> length oob \<le> spare_size \<Longrightarrow>
      \<exists>s'. drv_write_chunk_fn drv s c (Some data) data_size (Some oob) = (YAFFS_OK, s') \<and> good s' = good s \<and>
        pg s' c = (data, oob @ drop (length oob) (snd (pg s c))) \<and>
        (\<forall>c'. c' \<noteq> c \<longrightarrow> good s c' \<longrightarrow> pg s' c' = pg s c')"
    and write_data: "good s c \<Longrightarrow> length data = data_size \<Longrightarrow>
      \<exists>s'. drv_write_chunk_fn drv s c (Some data) data_size None = (YAFFS_OK, s') \<and> good s' = good s \<and>
        fst (pg s' c) = data \<and> (\<forall>c'. c' \<noteq> c \<longrightarrow> good s c' \<longrightarrow> pg s' c' = pg s c')"
    and write_spare: "good s c \<Longrightarrow> length oob \<le> spare_size \<Longrightarrow> n \<le> data_size \<Longrightarrow>
      \<exists>s'. drv_write_chunk_fn drv s c None n (Some oob) = (YAFFS_OK, s') \<and> good s' = good s \<and>
        pg s' c = (fst (pg s c), oob @ drop (length oob) (snd (pg s c))) \<and>
        (\<forall>c'. c' \<noteq> c \<longrightarrow> good s c' \<longrightarrow> pg s' c' = pg s c')"
    and read_page: "good s c \<Longrightarrow> (\<forall>d. buf = Some d \<longrightarrow> length d = data_size) \<Longrightarrow>
      (\<forall>b. sp = Some b \<longrightarrow> n \<le> length b) \<Longrightarrow> n \<le> spare_size \<Longrightarrow>
      drv_read_chunk_fn drv s c buf data_size sp n =
        (YAFFS_OK, map_option (\<lambda>_. fst (pg s c)) buf,
         map_option (\<lambda>b. take n (snd (pg s c)) @ drop n b) sp, YAFFS_ECC_RESULT_NO_ERROR, s)"
begin

lemma read_after_write:
  assumes "good s c" and "length data = data_size" and "length oob \<le> spare_size"
    and "drv_write_chunk_fn drv s c (Some data) data_size (Some oob) = (r, s')"
  shows "r = YAFFS_OK \<and> good s' c \<and> fst (pg s' c) = data \<and> take (length oob) (snd (pg s' c)) = oob"
  using write_page [OF assms(1-3)] assms by auto

end

text \<open>With blocks of \<open>cpb\<close> chunks, of which one with a good first chunk is not bad.\<close>

locale block_store = page_store +
  fixes cpb :: int
  assumes check_good: "good s (b * cpb) \<Longrightarrow> drv_check_bad_fn drv s b = (YAFFS_OK, s)"

section \<open>What a tag handler promises\<close>

text \<open>
  \<open>content n c\<close> is what a read of chunk \<open>c\<close> delivers: the chunk buffer and the tags.
  A chunk buffer has \<open>chunk_bytes\<close> bytes, of which the first \<open>data_bytes\<close> are data.
\<close>

locale tag_store =
  fixes tg :: "'n yaffs_tags_handler"
    and content :: "'n \<Rightarrow> int \<Rightarrow> u8 list \<times> yaffs_ext_tags"
    and usable :: "'n \<Rightarrow> int \<Rightarrow> bool"
    and data_bytes chunk_bytes :: nat
  assumes content_length: "usable n c \<Longrightarrow> length (fst (content n c)) = chunk_bytes"
    and write_chunk: "usable n c \<Longrightarrow> length data = chunk_bytes \<Longrightarrow> tags2_fits t \<Longrightarrow>
      \<exists>d n' r. write_chunk_tags_fn tg n c (Some data) (Some t) = Some (YAFFS_OK, Some d, n') \<and>
        length d = chunk_bytes \<and> take data_bytes (fst (content n' c)) = take data_bytes data \<and>
        snd (content n' c) = (tags2_stored t)\<lparr>ecc_result := r\<rparr> \<and> r \<le> YAFFS_ECC_RESULT_NO_ERROR \<and>
        (\<forall>c'. c' \<noteq> c \<longrightarrow> usable n c' \<longrightarrow> content n' c' = content n c') \<and>
        usable n' = usable n"
    and read_chunk: "usable n c \<Longrightarrow> length buf = chunk_bytes \<Longrightarrow>
      \<exists>n'. read_chunk_tags_fn tg n c (Some buf) (Some t0) =
             Some (YAFFS_OK, Some (fst (content n c)), Some (snd (content n c)), n') \<and>
        content n' = content n \<and> usable n' = usable n"
    and read_tags: "usable n c \<Longrightarrow>
      \<exists>n'. read_chunk_tags_fn tg n c None (Some t0) =
             Some (YAFFS_OK, None, Some (snd (content n c)), n') \<and>
        content n' = content n \<and> usable n' = usable n"
begin

lemma read_back:
  assumes "usable n c" and "length data = chunk_bytes" and "tags2_fits t"
    and "length buf = chunk_bytes"
  shows "\<exists>d n' e n'' r. write_chunk_tags_fn tg n c (Some data) (Some t) = Some (YAFFS_OK, Some d, n') \<and>
    read_chunk_tags_fn tg n' c (Some buf) (Some t0) =
      Some (YAFFS_OK, Some e, Some ((tags2_stored t)\<lparr>ecc_result := r\<rparr>), n'') \<and>
    take data_bytes e = take data_bytes data \<and> r \<le> YAFFS_ECC_RESULT_NO_ERROR"
  using write_chunk [OF assms(1-3)] read_chunk [OF _ assms(4)] assms(1) by metis

end

text \<open>The same for a handler that is asked about blocks, too.\<close>

locale stream_store = tag_store +
  fixes cpb :: int
  assumes query_usable: "usable n (b * cpb) \<Longrightarrow>
      \<exists>r st sq n'. query_block_fn tg n b = Some (r, st, sq, n') \<and> st \<noteq> YAFFS_BLOCK_STATE_DEAD \<and>
        content n' = content n \<and> usable n' = usable n"

end
