(* ===== verification/Yaffs_RamSim.thy ===== *)
theory Yaffs_RamSim
  imports Yaffs_Flash
begin

text \<open>
  direct/test-framework/yramsim.c: the RAM simulation of a NAND device, a concrete
  driver.  It is proved to be a \<open>page_store\<close>, so what is proved of the layers above
  under that contract holds for the program as it runs on this driver.

  \<^verbatim>\<open>yramsim_alloc_sim_data\<close> returns only when every block is allocated, so the block
  list has no NULL entries.  The two block queries index the list with a signed
  number: a negative one is outside the model.
\<close>

definition DATA_SIZE :: nat where "DATA_SIZE = 2048"
definition SPARE_SIZE :: nat where "SPARE_SIZE = 64"
definition PAGE_SIZE :: nat where "PAGE_SIZE = DATA_SIZE + SPARE_SIZE"
definition PAGES_PER_BLOCK :: nat where "PAGES_PER_BLOCK = 64"

lemmas ram_consts = DATA_SIZE_def SPARE_SIZE_def PAGE_SIZE_def PAGES_PER_BLOCK_def

record ram_block =
  rb_page :: "u8 list list"
  rb_blockOk :: bool

type_synonym sim_data = "ram_block list"

definition erased_ram_block :: ram_block where
  "erased_ram_block = \<lparr>rb_page = replicate PAGES_PER_BLOCK (replicate PAGE_SIZE 0xff), rb_blockOk = True\<rparr>"

section \<open>The driver functions\<close>

definition yramsim_erase_internal :: "sim_data \<Rightarrow> int \<Rightarrow> bool \<Rightarrow> int \<times> sim_data" where
  "yramsim_erase_internal sim blockId force =
     (if blockId < 0 \<or> int (length sim) \<le> blockId then (0, sim)
      else if \<not> force \<and> \<not> rb_blockOk (sim ! nat blockId) then (0, sim)
      else (1, sim[nat blockId := erased_ram_block]))"

definition yramsim_erase :: "sim_data \<Rightarrow> int \<Rightarrow> int \<times> sim_data" where
  "yramsim_erase sim blockId = yramsim_erase_internal sim blockId False"

text \<open>The test shared by the read and the write.\<close>

definition ram_chunk_ok :: "sim_data \<Rightarrow> int \<Rightarrow> nat \<Rightarrow> nat \<Rightarrow> bool" where
  "ram_chunk_ok sim pageId dataLength spareLength \<longleftrightarrow>
     0 \<le> pageId \<and> nat pageId div PAGES_PER_BLOCK < length sim \<and>
     dataLength \<le> DATA_SIZE \<and> spareLength \<le> SPARE_SIZE \<and>
     rb_blockOk (sim ! (nat pageId div PAGES_PER_BLOCK))"

definition ram_page :: "sim_data \<Rightarrow> int \<Rightarrow> u8 list" where
  "ram_page sim pageId =
     rb_page (sim ! (nat pageId div PAGES_PER_BLOCK)) ! (nat pageId mod PAGES_PER_BLOCK)"

definition yramsim_rd_chunk :: "sim_data \<Rightarrow> int \<Rightarrow> u8 list option \<Rightarrow> nat \<Rightarrow> u8 list option \<Rightarrow> nat \<Rightarrow>
    int \<times> u8 list option \<times> u8 list option \<times> yaffs_ecc_result \<times> sim_data" where
  "yramsim_rd_chunk sim pageId data dataLength spare spareLength =
     (if \<not> ram_chunk_ok sim pageId dataLength spareLength
      then (YAFFS_FAIL, data, spare, YAFFS_ECC_RESULT_UNKNOWN, sim)
      else
        let d = ram_page sim pageId;
            s = drop DATA_SIZE d
        in (YAFFS_OK, map_option (\<lambda>b. take dataLength d @ drop dataLength b) data,
            map_option (\<lambda>b. take spareLength s @ drop spareLength b) spare,
            YAFFS_ECC_RESULT_NO_ERROR, sim))"

definition ram_put_page :: "sim_data \<Rightarrow> int \<Rightarrow> u8 list \<Rightarrow> sim_data" where
  "ram_put_page sim pageId d =
     (let b = nat pageId div PAGES_PER_BLOCK
      in sim[b := (sim ! b)\<lparr>rb_page := (rb_page (sim ! b))[nat pageId mod PAGES_PER_BLOCK := d]\<rparr>])"

definition yramsim_wr_chunk :: "sim_data \<Rightarrow> int \<Rightarrow> u8 list option \<Rightarrow> nat \<Rightarrow> u8 list option \<Rightarrow> int \<times> sim_data" where
  "yramsim_wr_chunk sim pageId data dataLength spare =
     (if \<not> ram_chunk_ok sim pageId dataLength (case spare of None \<Rightarrow> 0 | Some s \<Rightarrow> length s)
      then (YAFFS_FAIL, sim)
      else
        let d = ram_page sim pageId;
            d = (case data of None \<Rightarrow> d | Some b \<Rightarrow> take dataLength b @ drop dataLength d);
            d = (case spare of None \<Rightarrow> d
                 | Some s \<Rightarrow> take DATA_SIZE d @ s @ drop (DATA_SIZE + length s) d)
        in (YAFFS_OK, ram_put_page sim pageId d))"

definition yramsim_check_block_bad :: "sim_data \<Rightarrow> int \<Rightarrow> int \<times> sim_data" where
  "yramsim_check_block_bad sim blockId =
     (if int (length sim) \<le> blockId then (YAFFS_FAIL, sim)
      else (if rb_blockOk (sim ! nat blockId) then YAFFS_OK else YAFFS_FAIL, sim))"

definition yramsim_mark_block_bad :: "sim_data \<Rightarrow> int \<Rightarrow> int \<times> sim_data" where
  "yramsim_mark_block_bad sim blockId =
     (if int (length sim) \<le> blockId then (YAFFS_FAIL, sim)
      else (YAFFS_OK, sim[nat blockId := (sim ! nat blockId)\<lparr>rb_blockOk := False\<rparr>]))"

definition yramsim_alloc_sim_data :: "nat \<Rightarrow> sim_data" where
  "yramsim_alloc_sim_data nBlocks = replicate nBlocks erased_ram_block"

definition yramsim_driver :: "sim_data yaffs_driver" where
  "yramsim_driver =
     \<lparr>drv_write_chunk_fn = yramsim_wr_chunk, drv_read_chunk_fn = yramsim_rd_chunk,
      drv_erase_fn = yramsim_erase, drv_mark_bad_fn = yramsim_mark_block_bad,
      drv_check_bad_fn = yramsim_check_block_bad, drv_initialise_fn = Some (\<lambda>sim. (1, sim)),
      drv_deinitialise_fn = Some (\<lambda>sim. (1, sim))\<rparr>"

section \<open>The contract\<close>

text \<open>A chunk that can be used: its block exists, is good, and has the shape of the C array.\<close>

definition ram_good :: "sim_data \<Rightarrow> int \<Rightarrow> bool" where
  "ram_good sim c \<longleftrightarrow> ram_chunk_ok sim c 0 0 \<and>
     length (rb_page (sim ! (nat c div PAGES_PER_BLOCK))) = PAGES_PER_BLOCK \<and>
     (\<forall>d \<in> set (rb_page (sim ! (nat c div PAGES_PER_BLOCK))). length d = PAGE_SIZE)"

definition ram_content :: "sim_data \<Rightarrow> int \<Rightarrow> u8 list \<times> u8 list" where
  "ram_content sim c = (take DATA_SIZE (ram_page sim c), drop DATA_SIZE (ram_page sim c))"

lemma PAGES_PER_BLOCK_pos [simp]: "0 < PAGES_PER_BLOCK"
  by (simp add: PAGES_PER_BLOCK_def)

lemma ram_good_page: "ram_good sim c \<Longrightarrow> length (ram_page sim c) = PAGE_SIZE"
  by (simp add: ram_good_def ram_page_def)

lemma same_page:
  assumes "0 \<le> c" "0 \<le> c'" "nat c div PAGES_PER_BLOCK = nat c' div PAGES_PER_BLOCK"
    "nat c mod PAGES_PER_BLOCK = nat c' mod PAGES_PER_BLOCK"
  shows "c = c'"
proof -
  have "nat c = nat c'" using assms(3,4) by (metis div_mult_mod_eq)
  then show ?thesis using assms(1,2) by simp
qed

lemma ram_page_put:
  assumes "ram_good sim c" and "0 \<le> c'"
  shows "ram_page (ram_put_page sim c d) c' = (if c' = c then d else ram_page sim c')"
proof -
  have c: "0 \<le> c" "nat c div PAGES_PER_BLOCK < length sim"
    "nat c mod PAGES_PER_BLOCK < length (rb_page (sim ! (nat c div PAGES_PER_BLOCK)))"
    using assms by (auto simp: ram_good_def ram_chunk_ok_def)
  show ?thesis
    using c same_page [OF c(1) assms(2)]
    by (auto simp: ram_page_def ram_put_page_def Let_def nth_list_update)
qed

lemma ram_good_put:
  assumes "ram_good sim c" and "length d = PAGE_SIZE"
  shows "ram_good (ram_put_page sim c d) = ram_good sim"
proof
  fix c'
  have c: "nat c div PAGES_PER_BLOCK < length sim" using assms by (auto simp: ram_good_def ram_chunk_ok_def)
  show "ram_good (ram_put_page sim c d) c' = ram_good sim c'"
  proof (cases "nat c' div PAGES_PER_BLOCK = nat c div PAGES_PER_BLOCK")
    case True
    have "(\<forall>x \<in> set ((rb_page (sim ! (nat c div PAGES_PER_BLOCK)))[nat c mod PAGES_PER_BLOCK := d]).
        length x = PAGE_SIZE)"
      using assms by (auto simp: ram_good_def dest!: set_update_subset_insert [THEN subsetD])
    then show ?thesis using True c assms
      by (auto simp: ram_good_def ram_put_page_def Let_def ram_chunk_ok_def)
  next
    case False
    then show ?thesis by (auto simp: ram_good_def ram_put_page_def Let_def ram_chunk_ok_def)
  qed
qed

lemma ram_chunk_ok_good:
  "ram_good sim c \<Longrightarrow> n \<le> DATA_SIZE \<Longrightarrow> k \<le> SPARE_SIZE \<Longrightarrow> ram_chunk_ok sim c n k"
  by (simp add: ram_good_def ram_chunk_ok_def)

lemma ram_good_nonneg: "ram_good sim c \<Longrightarrow> 0 \<le> c"
  by (simp add: ram_good_def ram_chunk_ok_def)

lemma ram_write_page:
  assumes g: "ram_good s c" and d: "length data = DATA_SIZE" and o: "length oob \<le> SPARE_SIZE"
  shows "\<exists>s'. yramsim_wr_chunk s c (Some data) DATA_SIZE (Some oob) = (YAFFS_OK, s') \<and> ram_good s' = ram_good s \<and>
    ram_content s' c = (data, oob @ drop (length oob) (snd (ram_content s c))) \<and>
    (\<forall>c'. c' \<noteq> c \<longrightarrow> ram_good s c' \<longrightarrow> ram_content s' c' = ram_content s c')"
proof -
  let ?d = "data @ oob @ drop (DATA_SIZE + length oob) (ram_page s c)"
  have l: "length (ram_page s c) = DATA_SIZE + SPARE_SIZE"
    using ram_good_page [OF g] by (simp add: PAGE_SIZE_def)
  have w: "yramsim_wr_chunk s c (Some data) DATA_SIZE (Some oob) = (YAFFS_OK, ram_put_page s c ?d)"
    using ram_chunk_ok_good [OF g] d o by (simp add: yramsim_wr_chunk_def Let_def add.commute)
  have "length ?d = PAGE_SIZE" using d o l by (simp add: PAGE_SIZE_def)
  note gd = ram_good_put [OF g this]
  show ?thesis
    using w gd d o l ram_good_nonneg
    by (auto simp: ram_content_def ram_page_put [OF g] ram_good_nonneg [OF g] add.commute)
qed

lemma ram_write_data:
  assumes g: "ram_good s c" and d: "length data = DATA_SIZE"
  shows "\<exists>s'. yramsim_wr_chunk s c (Some data) DATA_SIZE None = (YAFFS_OK, s') \<and> ram_good s' = ram_good s \<and>
    fst (ram_content s' c) = data \<and>
    (\<forall>c'. c' \<noteq> c \<longrightarrow> ram_good s c' \<longrightarrow> ram_content s' c' = ram_content s c')"
proof -
  let ?d = "data @ drop DATA_SIZE (ram_page s c)"
  have l: "length (ram_page s c) = DATA_SIZE + SPARE_SIZE"
    using ram_good_page [OF g] by (simp add: PAGE_SIZE_def)
  have w: "yramsim_wr_chunk s c (Some data) DATA_SIZE None = (YAFFS_OK, ram_put_page s c ?d)"
    using ram_chunk_ok_good [OF g] d by (simp add: yramsim_wr_chunk_def Let_def)
  have "length ?d = PAGE_SIZE" using d l by (simp add: PAGE_SIZE_def)
  note gd = ram_good_put [OF g this]
  show ?thesis
    using w gd d l ram_good_nonneg
    by (auto simp: ram_content_def ram_page_put [OF g] ram_good_nonneg [OF g])
qed

lemma ram_write_spare:
  assumes g: "ram_good s c" and o: "length oob \<le> SPARE_SIZE" and n: "n \<le> DATA_SIZE"
  shows "\<exists>s'. yramsim_wr_chunk s c None n (Some oob) = (YAFFS_OK, s') \<and> ram_good s' = ram_good s \<and>
    ram_content s' c = (fst (ram_content s c), oob @ drop (length oob) (snd (ram_content s c))) \<and>
    (\<forall>c'. c' \<noteq> c \<longrightarrow> ram_good s c' \<longrightarrow> ram_content s' c' = ram_content s c')"
proof -
  let ?d = "take DATA_SIZE (ram_page s c) @ oob @ drop (DATA_SIZE + length oob) (ram_page s c)"
  have l: "length (ram_page s c) = DATA_SIZE + SPARE_SIZE"
    using ram_good_page [OF g] by (simp add: PAGE_SIZE_def)
  have w: "yramsim_wr_chunk s c None n (Some oob) = (YAFFS_OK, ram_put_page s c ?d)"
    using ram_chunk_ok_good [OF g] n o by (simp add: yramsim_wr_chunk_def Let_def)
  have "length ?d = PAGE_SIZE" using o l by (simp add: PAGE_SIZE_def)
  note gd = ram_good_put [OF g this]
  show ?thesis
    using w gd o l ram_good_nonneg
    by (auto simp: ram_content_def ram_page_put [OF g] ram_good_nonneg [OF g] add.commute)
qed

interpretation ram: page_store yramsim_driver ram_content ram_good DATA_SIZE SPARE_SIZE
proof
  fix s c assume g: "ram_good s c"
  show "length (fst (ram_content s c)) = DATA_SIZE \<and> length (snd (ram_content s c)) = SPARE_SIZE"
    using ram_good_page [OF g] by (simp add: ram_content_def PAGE_SIZE_def)
next
  fix s c and data oob :: "u8 list"
  assume "ram_good s c" "length data = DATA_SIZE" "length oob \<le> SPARE_SIZE"
  then show "\<exists>s'. drv_write_chunk_fn yramsim_driver s c (Some data) DATA_SIZE (Some oob) = (YAFFS_OK, s') \<and>
      ram_good s' = ram_good s \<and>
      ram_content s' c = (data, oob @ drop (length oob) (snd (ram_content s c))) \<and>
      (\<forall>c'. c' \<noteq> c \<longrightarrow> ram_good s c' \<longrightarrow> ram_content s' c' = ram_content s c')"
    unfolding yramsim_driver_def yaffs_driver.simps by (rule ram_write_page)
next
  fix s c and data :: "u8 list"
  assume "ram_good s c" "length data = DATA_SIZE"
  then show "\<exists>s'. drv_write_chunk_fn yramsim_driver s c (Some data) DATA_SIZE None = (YAFFS_OK, s') \<and>
      ram_good s' = ram_good s \<and> fst (ram_content s' c) = data \<and>
      (\<forall>c'. c' \<noteq> c \<longrightarrow> ram_good s c' \<longrightarrow> ram_content s' c' = ram_content s c')"
    unfolding yramsim_driver_def yaffs_driver.simps by (rule ram_write_data)
next
  fix s c n and oob :: "u8 list"
  assume "ram_good s c" "length oob \<le> SPARE_SIZE" "n \<le> DATA_SIZE"
  then show "\<exists>s'. drv_write_chunk_fn yramsim_driver s c None n (Some oob) = (YAFFS_OK, s') \<and>
      ram_good s' = ram_good s \<and>
      ram_content s' c = (fst (ram_content s c), oob @ drop (length oob) (snd (ram_content s c))) \<and>
      (\<forall>c'. c' \<noteq> c \<longrightarrow> ram_good s c' \<longrightarrow> ram_content s' c' = ram_content s c')"
    unfolding yramsim_driver_def yaffs_driver.simps by (rule ram_write_spare)
next
  fix s c n and buf sp :: "u8 list option"
  assume g: "ram_good s c" and "\<forall>d. buf = Some d \<longrightarrow> length d = DATA_SIZE"
    "\<forall>b. sp = Some b \<longrightarrow> n \<le> length b" "n \<le> SPARE_SIZE"
  then show "drv_read_chunk_fn yramsim_driver s c buf DATA_SIZE sp n =
      (YAFFS_OK, map_option (\<lambda>_. fst (ram_content s c)) buf,
       map_option (\<lambda>b. take n (snd (ram_content s c)) @ drop n b) sp, YAFFS_ECC_RESULT_NO_ERROR, s)"
    using ram_chunk_ok_good [OF g, of DATA_SIZE n]
    by (cases buf) (auto simp: yramsim_driver_def yramsim_rd_chunk_def Let_def ram_content_def)
qed

lemma ram_check_good: "ram_good s (b * int PAGES_PER_BLOCK) \<Longrightarrow> yramsim_check_block_bad s b = (YAFFS_OK, s)"
  using PAGES_PER_BLOCK_pos by (auto simp del: PAGES_PER_BLOCK_pos simp add: ram_good_def ram_chunk_ok_def yramsim_check_block_bad_def nat_mult_distrib zero_le_mult_iff
      split: if_splits)

interpretation ram_blocks: block_store yramsim_driver ram_content ram_good DATA_SIZE SPARE_SIZE "int PAGES_PER_BLOCK"
  by unfold_locales (simp add: yramsim_driver_def ram_check_good)

end
