(* ===== verification/Yaffs_TagsCompat.thy ===== *)
theory Yaffs_TagsCompat
  imports Yaffs_RamSim
begin

text \<open>
  core/yaffs_tagscompat.c: the tag handler of yaffs1, which keeps eight bytes of tags with
  an ECC of their own in the spare area of a page, beside the ECC of the two halves of its
  512 bytes of data.

  \<^verbatim>\<open>union yaffs_tags_union\<close> is seen as its two words; the fields of \<^verbatim>\<open>struct yaffs_tags\<close> are
  ranges of their bits.  The driver is a parameter.  A block that has to be retired is
  noted in the state of the handler (\<open>c_needs_retiring\<close>), which stands for the flag in the
  block table that the code sets through the device.
\<close>

section \<open>Tags and spare areas\<close>

type_synonym yaffs_tags = "u32 \<times> u32"

definition get_field :: "nat \<Rightarrow> nat \<Rightarrow> u32 \<Rightarrow> u32" where
  "get_field off width w = take_bit width (drop_bit off w)"

definition put_field :: "nat \<Rightarrow> nat \<Rightarrow> u32 \<Rightarrow> u32 \<Rightarrow> u32" where
  "put_field off width v w = (w AND NOT (push_bit off (mask width))) OR push_bit off (take_bit width v)"

definition t1_chunk_id :: "yaffs_tags \<Rightarrow> u32" where "t1_chunk_id t = get_field 0 20 (fst t)"
definition t1_serial_number :: "yaffs_tags \<Rightarrow> u32" where "t1_serial_number t = get_field 20 2 (fst t)"
definition t1_n_bytes_lsb :: "yaffs_tags \<Rightarrow> u32" where "t1_n_bytes_lsb t = get_field 22 10 (fst t)"
definition t1_obj_id :: "yaffs_tags \<Rightarrow> u32" where "t1_obj_id t = get_field 0 18 (snd t)"
definition t1_ecc :: "yaffs_tags \<Rightarrow> u32" where "t1_ecc t = get_field 18 12 (snd t)"
definition t1_n_bytes_msb :: "yaffs_tags \<Rightarrow> u32" where "t1_n_bytes_msb t = get_field 30 2 (snd t)"

definition put_ecc :: "u32 \<Rightarrow> yaffs_tags \<Rightarrow> yaffs_tags" where
  "put_ecc e t = (fst t, put_field 18 12 e (snd t))"

record yaffs_spare =
  tb0 :: u8
  tb1 :: u8
  tb2 :: u8
  tb3 :: u8
  page_status :: u8
  block_status :: u8
  tb4 :: u8
  tb5 :: u8
  ecc1 :: ecc_bytes
  tb6 :: u8
  tb7 :: u8
  ecc2 :: ecc_bytes

definition SPARE_BYTES :: nat where "SPARE_BYTES = 16"

definition spare_bytes :: "yaffs_spare \<Rightarrow> u8 list" where
  "spare_bytes s = [tb0 s, tb1 s, tb2 s, tb3 s, page_status s, block_status s, tb4 s, tb5 s,
     fst (ecc1 s), fst (snd (ecc1 s)), snd (snd (ecc1 s)), tb6 s, tb7 s,
     fst (ecc2 s), fst (snd (ecc2 s)), snd (snd (ecc2 s))]"

definition bytes_spare :: "u8 list \<Rightarrow> yaffs_spare" where
  "bytes_spare b = \<lparr>tb0 = b ! 0, tb1 = b ! 1, tb2 = b ! 2, tb3 = b ! 3, page_status = b ! 4,
     block_status = b ! 5, tb4 = b ! 6, tb5 = b ! 7, ecc1 = (b ! 8, b ! 9, b ! 10), tb6 = b ! 11,
     tb7 = b ! 12, ecc2 = (b ! 13, b ! 14, b ! 15)\<rparr>"

definition yaffs_spare_init :: yaffs_spare where
  "yaffs_spare_init = bytes_spare (replicate SPARE_BYTES 0xff)"

section \<open>The ECC of the tags\<close>

text \<open>Bit \<open>k\<close> of the eight bytes, and a flip of it (\<^verbatim>\<open>b[k / 8] ^= 1 << (k & 7)\<close>), in the words.\<close>

definition tags_bit :: "yaffs_tags \<Rightarrow> nat \<Rightarrow> bool" where
  "tags_bit t k = (if k < 32 then bit (fst t) k else bit (snd t) (k - 32))"

definition flip_tags_bit :: "nat \<Rightarrow> yaffs_tags \<Rightarrow> yaffs_tags" where
  "flip_tags_bit k t =
     (if k < 32 then (fst t XOR push_bit k 1, snd t) else (fst t, snd t XOR push_bit (k - 32) 1))"

text \<open>The two loops over bytes and bits are one over the 64 bits, which count from 1.\<close>

definition yaffs_calc_tags_ecc :: "yaffs_tags \<Rightarrow> yaffs_tags" where
  "yaffs_calc_tags_ecc t =
     (let t = put_ecc 0 t;
          ecc = foldl (\<lambda>ecc k. if tags_bit t k then ecc XOR word_of_nat (k + 1) else ecc) 0 [0..<64]
      in put_ecc ecc t)"

definition yaffs_check_tags_ecc :: "yaffs_tags \<Rightarrow> int \<times> yaffs_tags" where
  "yaffs_check_tags_ecc t =
     (let ecc = t1_ecc t;
          t = yaffs_calc_tags_ecc t;
          ecc = ecc XOR t1_ecc t
      in if ecc \<noteq> 0 \<and> ecc \<le> 64 then (1, yaffs_calc_tags_ecc (flip_tags_bit (unat (ecc - 1)) t))
         else if ecc \<noteq> 0 then (-1, t)
         else (0, t))"

section \<open>The handler\<close>

record compat_param =
  cp_use_nand_ecc :: bool
  cp_swap_endian :: bool
  cp_data_bytes_per_chunk :: nat
  cp_chunks_per_block :: int
  cp_block_offset :: int

text \<open>The driver, the counters of the device, and the spare areas on the stack as they are found.\<close>

record 's compat =
  c_drv :: 's
  c_n_ecc_fixed :: u32
  c_n_ecc_unfixed :: u32
  c_n_tags_ecc_fixed :: u32
  c_n_tags_ecc_unfixed :: u32
  c_needs_retiring :: "int list"
  c_stack_spare :: "u8 list"

definition yaffs_load_tags_to_spare :: "bool \<Rightarrow> yaffs_spare \<Rightarrow> yaffs_tags \<Rightarrow> yaffs_spare" where
  "yaffs_load_tags_to_spare swap sp t =
     (let t = yaffs_calc_tags_ecc t;
          b = u32_bytes (yaffs_do_endian_u32 swap (fst t)) @ u32_bytes (yaffs_do_endian_u32 swap (snd t))
      in sp\<lparr>tb0 := b ! 0, tb1 := b ! 1, tb2 := b ! 2, tb3 := b ! 3,
            tb4 := b ! 4, tb5 := b ! 5, tb6 := b ! 6, tb7 := b ! 7\<rparr>)"

definition yaffs_get_tags_from_spare ::
    "bool \<Rightarrow> yaffs_spare \<Rightarrow> 's compat \<Rightarrow> yaffs_tags \<times> 's compat" where
  "yaffs_get_tags_from_spare swap sp m =
     (let w0 = bytes_u32 (tb0 sp) (tb1 sp) (tb2 sp) (tb3 sp);
          w1 = bytes_u32 (tb4 sp) (tb5 sp) (tb6 sp) (tb7 sp);
          (result, t) = yaffs_check_tags_ecc (yaffs_do_endian_u32 swap w0, yaffs_do_endian_u32 swap w1)
      in (t, if result > 0 then m\<lparr>c_n_tags_ecc_fixed := c_n_tags_ecc_fixed m + 1\<rparr>
             else if result < 0 then m\<lparr>c_n_tags_ecc_unfixed := c_n_tags_ecc_unfixed m + 1\<rparr>
             else m))"

definition yaffs_wr_nand ::
    "'s yaffs_driver \<Rightarrow> compat_param \<Rightarrow> 's compat \<Rightarrow> int \<Rightarrow> u8 list option \<Rightarrow> yaffs_spare \<Rightarrow> int \<times> 's compat" where
  "yaffs_wr_nand drv p m nand_chunk data sp =
     (let (r, s) = drv_write_chunk_fn drv (c_drv m) nand_chunk data (cp_data_bytes_per_chunk p) (Some (spare_bytes sp))
      in (r, m\<lparr>c_drv := s\<rparr>))"

definition yaffs_handle_rd_data_error :: "compat_param \<Rightarrow> 's compat \<Rightarrow> int \<Rightarrow> 's compat" where
  "yaffs_handle_rd_data_error p m nand_chunk =
     (let flash_block = nand_chunk div cp_chunks_per_block p
      in m\<lparr>c_needs_retiring := (flash_block + cp_block_offset p) # c_needs_retiring m\<rparr>)"

definition note_ecc :: "int \<Rightarrow> 's compat \<Rightarrow> 's compat" where
  "note_ecc result m =
     (if result > 0 then m\<lparr>c_n_ecc_fixed := c_n_ecc_fixed m + 1\<rparr>
      else if result < 0 then m\<lparr>c_n_ecc_unfixed := c_n_ecc_unfixed m + 1\<rparr> else m)"

text \<open>
  The spare area is always a local one of the caller.  The verdict on the data stays the
  one passed in where the code does not set it.
\<close>

definition yaffs_rd_chunk_nand ::
    "'s yaffs_driver \<Rightarrow> compat_param \<Rightarrow> 's compat \<Rightarrow> int \<Rightarrow> u8 list option \<Rightarrow> yaffs_ecc_result \<Rightarrow> bool \<Rightarrow>
     (int \<times> u8 list option \<times> yaffs_spare \<times> yaffs_ecc_result \<times> 's compat) option" where
  "yaffs_rd_chunk_nand drv p m nand_chunk data ecc correct_errors =
     (let (ret_val, data, sp, r, s) =
            drv_read_chunk_fn drv (c_drv m) nand_chunk data (cp_data_bytes_per_chunk p)
              (Some (c_stack_spare m)) SPARE_BYTES;
          m = m\<lparr>c_drv := s\<rparr>
      in do {
        b \<leftarrow> sp;
        b \<leftarrow> buf_read b 0 SPARE_BYTES;
        let sp = bytes_spare b;
        if cp_use_nand_ecc p then Some (ret_val, data, sp, r, m)
        else
          case data of
            None \<Rightarrow> Some (ret_val, data, sp, ecc, m)
          | Some d \<Rightarrow>
              if \<not> correct_errors then Some (ret_val, data, sp, ecc, m)
              else
                do { calc_ecc \<leftarrow> yaffs_ecc_calc d;
                     (ecc_result1, d, e1) \<leftarrow> yaffs_ecc_correct d (ecc1 sp) calc_ecc;
                     let sp = sp\<lparr>ecc1 := e1\<rparr>;
                     calc_ecc \<leftarrow> yaffs_ecc_calc (drop 256 d);
                     (ecc_result2, d2, e2) \<leftarrow> yaffs_ecc_correct (drop 256 d) (ecc2 sp) calc_ecc;
                     let sp = sp\<lparr>ecc2 := e2\<rparr>;
                     let d = take 256 d @ d2;
                     let m = note_ecc ecc_result2 (note_ecc ecc_result1 m);
                     let m = (if ecc_result1 \<noteq> 0 \<or> ecc_result2 \<noteq> 0
                              then yaffs_handle_rd_data_error p m nand_chunk else m);
                     let ecc = (if ecc_result1 < 0 \<or> ecc_result2 < 0 then YAFFS_ECC_RESULT_UNFIXED
                                else if ecc_result1 > 0 \<or> ecc_result2 > 0 then YAFFS_ECC_RESULT_FIXED
                                else YAFFS_ECC_RESULT_NO_ERROR);
                     Some (ret_val, Some d, sp, ecc, m) } })"

text \<open>Every bit of the tags on the stack is set, but for the ECC, which is calculated later.\<close>

definition compat_tags :: "compat_param \<Rightarrow> yaffs_ext_tags \<Rightarrow> yaffs_tags" where
  "compat_tags p e =
     (put_field 0 20 (chunk_id e) (put_field 20 2 (serial_number e) (put_field 22 10 (n_bytes e AND (1024 - 1)) 0)),
      put_field 0 18 (obj_id e)
        (put_field 30 2 (if cp_data_bytes_per_chunk p \<ge> 1024 then drop_bit 10 (n_bytes e) AND 3 else 3) 0))"

definition yaffs_tags_compat_wr ::
    "'s yaffs_driver \<Rightarrow> compat_param \<Rightarrow> 's compat \<Rightarrow> int \<Rightarrow> u8 list option \<Rightarrow> yaffs_ext_tags option \<Rightarrow>
     (int \<times> u8 list option \<times> 's compat) option" where
  "yaffs_tags_compat_wr drv p m nand_chunk data ext_tags =
     do { e \<leftarrow> ext_tags;
          sp \<leftarrow> (if is_deleted e \<noteq> 0 then Some (yaffs_spare_init\<lparr>page_status := 0\<rparr>)
                 else
                   do { sp \<leftarrow> (case data of
                                 Some d \<Rightarrow>
                                   if \<not> cp_use_nand_ecc p then
                                     do { e1 \<leftarrow> yaffs_ecc_calc d;
                                          e2 \<leftarrow> yaffs_ecc_calc (drop 256 d);
                                          Some (yaffs_spare_init\<lparr>ecc1 := e1, ecc2 := e2\<rparr>) }
                                   else Some yaffs_spare_init
                               | None \<Rightarrow> Some yaffs_spare_init);
                        Some (yaffs_load_tags_to_spare (cp_swap_endian p) sp (compat_tags p e)) });
          let (r, m) = yaffs_wr_nand drv p m nand_chunk data sp;
          Some (r, data, m) }"

definition yaffs_tags_compat_rd ::
    "'s yaffs_driver \<Rightarrow> compat_param \<Rightarrow> 's compat \<Rightarrow> int \<Rightarrow> u8 list option \<Rightarrow> yaffs_ext_tags option \<Rightarrow>
     (int \<times> u8 list option \<times> yaffs_ext_tags option \<times> 's compat) option" where
  "yaffs_tags_compat_rd drv p m nand_chunk data ext_tags =
     do { (ret, data, sp, ecc, m) \<leftarrow> yaffs_rd_chunk_nand drv p m nand_chunk data YAFFS_ECC_RESULT_UNKNOWN True;
          if ret = 0 then Some (YAFFS_FAIL, data, ext_tags, m)
          else
            case ext_tags of
              None \<Rightarrow> Some (YAFFS_OK, data, None, m)
            | Some e \<Rightarrow>
                let deleted = (if yaffs_hweight8 (page_status sp) < 7 then 1 else 0);
                    e = e\<lparr>is_deleted := deleted, ecc_result := ecc, block_bad := 0,
                          chunk_used := (if sp \<noteq> yaffs_spare_init then 1 else 0)\<rparr>
                in if chunk_used e \<noteq> 0 then
                     let (t, m) = yaffs_get_tags_from_spare (cp_swap_endian p) sp m;
                         e = e\<lparr>obj_id := t1_obj_id t, chunk_id := t1_chunk_id t, n_bytes := t1_n_bytes_lsb t\<rparr>;
                         e = (if cp_data_bytes_per_chunk p \<ge> 1024
                              then e\<lparr>n_bytes := n_bytes e OR push_bit 10 (t1_n_bytes_msb t)\<rparr> else e);
                         e = e\<lparr>serial_number := t1_serial_number t\<rparr>
                     in Some (YAFFS_OK, data, Some e, m)
                   else Some (YAFFS_OK, data, Some e, m) }"

definition yaffs_tags_compat_mark_bad ::
    "'s yaffs_driver \<Rightarrow> compat_param \<Rightarrow> 's compat \<Rightarrow> int \<Rightarrow> int \<times> 's compat" where
  "yaffs_tags_compat_mark_bad drv p m flash_block =
     (let sp = yaffs_spare_init\<lparr>block_status := 89\<rparr>;
          (r, m) = yaffs_wr_nand drv p m (flash_block * cp_chunks_per_block p) None sp;
          (r, m) = yaffs_wr_nand drv p m (flash_block * cp_chunks_per_block p + 1) None sp
      in (YAFFS_OK, m))"

definition yaffs_tags_compat_query_block ::
    "'s yaffs_driver \<Rightarrow> compat_param \<Rightarrow> 's compat \<Rightarrow> int \<Rightarrow> (int \<times> yaffs_block_state \<times> u32 \<times> 's compat) option" where
  "yaffs_tags_compat_query_block drv p m block_no =
     do { (r, d, spare0, e, m) \<leftarrow>
            yaffs_rd_chunk_nand drv p m (block_no * cp_chunks_per_block p) None YAFFS_ECC_RESULT_UNKNOWN False;
          (r, d, spare1, e, m) \<leftarrow>
            yaffs_rd_chunk_nand drv p m (block_no * cp_chunks_per_block p + 1) None YAFFS_ECC_RESULT_UNKNOWN False;
          Some (YAFFS_OK,
                if yaffs_hweight8 (block_status spare0 AND block_status spare1) < 7 then YAFFS_BLOCK_STATE_DEAD
                else if spare0 = yaffs_spare_init then YAFFS_BLOCK_STATE_EMPTY
                else YAFFS_BLOCK_STATE_NEEDS_SCAN, 0, m) }"

text \<open>The handler as a device of yaffs1 that brings none of its own gets it.\<close>

definition yaffs_tags_compat_install :: "'s yaffs_driver \<Rightarrow> compat_param \<Rightarrow> 's compat yaffs_tags_handler" where
  "yaffs_tags_compat_install drv p =
     \<lparr>write_chunk_tags_fn = yaffs_tags_compat_wr drv p, read_chunk_tags_fn = yaffs_tags_compat_rd drv p,
      query_block_fn = yaffs_tags_compat_query_block drv p, mark_bad_fn = yaffs_tags_compat_mark_bad drv p\<rparr>"

section \<open>What the ECC of the tags detects\<close>

abbreviation (input) "tags_sum ks acc t \<equiv>
  foldl (\<lambda>ecc k. if tags_bit t k then ecc XOR word_of_nat (k + 1) else ecc) (acc :: u32) ks"

lemma tags_bit_flip:
  "k < 64 \<Longrightarrow> n < 64 \<Longrightarrow> tags_bit (flip_tags_bit n t) k = (tags_bit t k \<noteq> (k = n))"
  by (auto simp: tags_bit_def flip_tags_bit_def bit_simps)

lemma flip_flip [simp]: "flip_tags_bit n (flip_tags_bit n t) = t"
  by (simp add: flip_tags_bit_def xor.assoc)

lemma tags_sum_acc: "tags_sum ks (acc XOR a) t = tags_sum ks acc t XOR a"
proof (induction ks arbitrary: acc)
  case (Cons k ks)
  have e: "(acc XOR a) XOR word_of_nat (k + 1) = (acc XOR word_of_nat (k + 1)) XOR a"
    by (simp add: ac_simps)
  show ?case by (cases "tags_bit t k") (simp_all only: foldl_Cons e Cons.IH if_True if_False)
qed simp

lemma tags_sum_flip:
  assumes "distinct ks" and "set ks \<subseteq> {..<64}" and "n < 64"
  shows "tags_sum ks acc (flip_tags_bit n t) =
    (if n \<in> set ks then tags_sum ks acc t XOR word_of_nat (n + 1) else tags_sum ks acc t)"
  using assms(1,2)
proof (induction ks arbitrary: acc)
  case (Cons k ks)
  have k: "k < 64" "distinct ks" "set ks \<subseteq> {..<64}" "k \<notin> set ks" using Cons.prems by auto
  show ?case
  proof (cases "k = n")
    case True
    then have "n \<notin> set ks" using k by simp
    then show ?thesis
      using True k assms(3) Cons.IH [of "acc XOR word_of_nat (n + 1)"] Cons.IH [of acc]
      by (auto simp: tags_bit_flip tags_sum_acc xor.assoc simp del: of_nat_Suc of_nat_add)
  next
    case False
    then show ?thesis
      using k assms(3) Cons.IH by (auto simp: tags_bit_flip simp del: of_nat_Suc of_nat_add)
  qed
qed simp

definition tags_ecc :: "yaffs_tags \<Rightarrow> u32" where
  "tags_ecc t = tags_sum [0..<64] 0 (put_ecc 0 t)"

lemma calc_tags_ecc: "yaffs_calc_tags_ecc t = put_ecc (tags_ecc t) t"
  by (simp add: yaffs_calc_tags_ecc_def tags_ecc_def Let_def put_ecc_def put_field_def bit_eq_iff bit_simps)

lemma put_ecc_flip:
  "n < 50 \<or> 62 \<le> n \<Longrightarrow> n < 64 \<Longrightarrow> put_ecc e (flip_tags_bit n t) = flip_tags_bit n (put_ecc e t)"
  "50 \<le> n \<Longrightarrow> n < 62 \<Longrightarrow> put_ecc e (flip_tags_bit n t) = put_ecc e t"
  unfolding put_ecc_def put_field_def flip_tags_bit_def
  by (auto simp: bit_simps intro!: bit_word_eqI)

lemma put_ecc_put_ecc [simp]: "put_ecc e (put_ecc e' t) = put_ecc e t"
  unfolding put_ecc_def put_field_def by (auto simp: bit_simps intro!: bit_word_eqI)

lemma t1_ecc_put: "t1_ecc (put_ecc e t) = take_bit 12 e"
  unfolding put_ecc_def put_field_def t1_ecc_def get_field_def
  by (auto simp: bit_simps intro!: bit_word_eqI)

lemma t1_ecc_flip:
  "n < 50 \<or> 62 \<le> n \<Longrightarrow> n < 64 \<Longrightarrow> t1_ecc (flip_tags_bit n t) = t1_ecc t"
  "50 \<le> n \<Longrightarrow> n < 62 \<Longrightarrow> t1_ecc (flip_tags_bit n t) = t1_ecc t XOR push_bit (n - 50) 1"
  unfolding t1_ecc_def get_field_def flip_tags_bit_def
  by (auto simp: bit_simps bit_1_iff intro!: bit_word_eqI)

lemma tags_ecc_flip_bit:
  "n < 50 \<or> 62 \<le> n \<Longrightarrow> n < 64 \<Longrightarrow> tags_ecc (flip_tags_bit n t) = tags_ecc t XOR word_of_nat (n + 1)"
  "50 \<le> n \<Longrightarrow> n < 62 \<Longrightarrow> tags_ecc (flip_tags_bit n t) = tags_ecc t"
  using tags_sum_flip [where ks = "[0..<64]" and n = n and acc = 0 and t = "put_ecc 0 t"]
  by (auto simp: tags_ecc_def put_ecc_flip atLeast0LessThan simp del: of_nat_add of_nat_Suc)

lemma tags_ecc_put [simp]: "tags_ecc (put_ecc e t) = tags_ecc t"
  by (simp add: tags_ecc_def)

lemma take_bit_small_nat:
  assumes "k < 64"
  shows "take_bit 7 (word_of_nat (Suc k) :: u32) = word_of_nat (Suc k)"
  using assms by (simp add: take_bit_of_nat take_bit_nat_eq_self del: of_nat_Suc)

lemma take_bit_tags_sum:
  "(\<forall>k \<in> set ks. k < 64) \<Longrightarrow> take_bit 7 acc = acc \<Longrightarrow> take_bit 7 (tags_sum ks acc t) = tags_sum ks acc t"
proof (induction ks arbitrary: acc)
  case (Cons k ks)
  then show ?case by (simp add: take_bit_xor take_bit_small_nat del: of_nat_add of_nat_Suc)
qed simp

lemma tags_ecc_small: "take_bit 7 (tags_ecc t) = tags_ecc t"
  unfolding tags_ecc_def by (rule take_bit_tags_sum) simp_all

lemma tags_ecc_12 [simp]: "take_bit 12 (tags_ecc t) = tags_ecc t"
proof -
  have "take_bit 12 (take_bit 7 (tags_ecc t)) = take_bit 7 (tags_ecc t)" by (simp add: take_bit_take_bit)
  then show ?thesis by (simp add: tags_ecc_small)
qed

lemma check_tags_ecc:
  "yaffs_check_tags_ecc t =
     (let e = t1_ecc t XOR tags_ecc t; t = put_ecc (tags_ecc t) t
      in if e \<noteq> 0 \<and> e \<le> 64 then (1, yaffs_calc_tags_ecc (flip_tags_bit (unat (e - 1)) t))
         else if e \<noteq> 0 then (-1, t) else (0, t))"
  by (simp add: yaffs_check_tags_ecc_def calc_tags_ecc t1_ecc_put Let_def)

lemma small_bit_number:
  assumes "n < 64"
  shows "(word_of_nat (n + 1) :: u32) \<noteq> 0 \<and> (word_of_nat (n + 1) :: u32) \<le> 64 \<and>
     unat ((word_of_nat (n + 1) :: u32) - 1) = n"
proof -
  have u: "unat (word_of_nat (n + 1) :: u32) = n + 1"
    using assms by (simp add: unat_of_nat del: of_nat_add of_nat_Suc)
  then have z: "(word_of_nat (n + 1) :: u32) \<noteq> 0" by (metis add_is_0 one_neq_zero unat_0)
  moreover have "(word_of_nat (n + 1) :: u32) \<le> 64"
    unfolding word_le_nat_alt u using assms by simp
  moreover have "unat ((word_of_nat (n + 1) :: u32) - 1) = n"
    using assms by (simp add: unat_of_nat)
  ultimately show ?thesis by blast
qed

lemma tags_ecc_flip_data:
  assumes "n < 64" and "n < 50 \<or> 62 \<le> n"
  shows "yaffs_check_tags_ecc (flip_tags_bit n (yaffs_calc_tags_ecc t)) = (1, yaffs_calc_tags_ecc t)"
proof -
  have e: "t1_ecc (flip_tags_bit n (yaffs_calc_tags_ecc t)) XOR tags_ecc (flip_tags_bit n (yaffs_calc_tags_ecc t))
      = word_of_nat (n + 1)"
    using assms by (simp add: calc_tags_ecc t1_ecc_flip t1_ecc_put tags_ecc_flip_bit
        xor.assoc [symmetric] del: of_nat_add of_nat_Suc)
  have f: "yaffs_calc_tags_ecc (flip_tags_bit n (put_ecc x (flip_tags_bit n (yaffs_calc_tags_ecc t)))) =
      yaffs_calc_tags_ecc t" for x
    using assms by (simp add: calc_tags_ecc put_ecc_flip)
  show ?thesis
    unfolding check_tags_ecc e Let_def
    using small_bit_number [OF assms(1)] f by (simp del: of_nat_add of_nat_Suc)
qed

lemma tags_ecc_flip_ecc:
  assumes "50 \<le> n" and "n < 62"
  shows "yaffs_check_tags_ecc (flip_tags_bit n (yaffs_calc_tags_ecc t)) =
    (if n < 57 then (1, yaffs_calc_tags_ecc (flip_tags_bit (2 ^ (n - 50) - 1) (yaffs_calc_tags_ecc t)))
     else (-1, yaffs_calc_tags_ecc t))"
proof -
  have e: "t1_ecc (flip_tags_bit n (yaffs_calc_tags_ecc t)) XOR tags_ecc (flip_tags_bit n (yaffs_calc_tags_ecc t))
      = push_bit (n - 50) 1"
    using assms by (simp add: calc_tags_ecc t1_ecc_flip t1_ecc_put tags_ecc_flip_bit xor.assoc [symmetric])
      (simp add: ac_simps)
  have p: "put_ecc (tags_ecc (flip_tags_bit n (yaffs_calc_tags_ecc t))) (flip_tags_bit n (yaffs_calc_tags_ecc t)) =
      yaffs_calc_tags_ecc t"
    using assms by (simp add: calc_tags_ecc put_ecc_flip tags_ecc_flip_bit)
  define j where "j = n - 50"
  have n: "n = 50 + j" and j: "j < 12" using assms by (auto simp: j_def)
  have "j \<in> {0, 1, 2, 3, 4, 5, 6, 7, 8, 9, 10, 11}" using j by (simp; presburger)
  then show ?thesis
    unfolding check_tags_ecc e Let_def p unfolding n by auto
qed

text \<open>
  C39: one flipped bit of stored tags.  A flip of a bit of the fields is undone.  A flip
  of one of the seven lower bits of the ECC field is reported as a corrected error too, but
  "corrects" a bit of the fields that was right, the one that the syndrome \<open>2 ^ j\<close>
  stands for; a flip of one of its five upper bits is reported as not correctable and
  leaves the fields right.
\<close>

theorem tags_ecc_flip:
  assumes "n < 64"
  shows "yaffs_check_tags_ecc (yaffs_calc_tags_ecc t) = (0, yaffs_calc_tags_ecc t) \<and>
    yaffs_check_tags_ecc (flip_tags_bit n (yaffs_calc_tags_ecc t)) =
      (if n < 50 \<or> 62 \<le> n then (1, yaffs_calc_tags_ecc t)
       else if n < 57 then (1, yaffs_calc_tags_ecc (flip_tags_bit (2 ^ (n - 50) - 1) (yaffs_calc_tags_ecc t)))
       else (-1, yaffs_calc_tags_ecc t))"
proof -
  have "yaffs_check_tags_ecc (yaffs_calc_tags_ecc t) = (0, yaffs_calc_tags_ecc t)"
    by (simp add: check_tags_ecc calc_tags_ecc t1_ecc_put)
  then show ?thesis using tags_ecc_flip_data tags_ecc_flip_ecc assms by auto
qed

theorem tags_ecc_flip_witness:
  "yaffs_check_tags_ecc (flip_tags_bit 53 (yaffs_calc_tags_ecc (0x12345, 0x101))) =
     (1, yaffs_calc_tags_ecc (flip_tags_bit 7 (yaffs_calc_tags_ecc (0x12345, 0x101)))) \<and>
   t1_chunk_id (yaffs_calc_tags_ecc (flip_tags_bit 7 (yaffs_calc_tags_ecc (0x12345, 0x101)))) = 0x123c5"
  using tags_ecc_flip [of 53 "(0x12345, 0x101)"]
  by (simp add: calc_tags_ecc put_ecc_flip put_ecc_def flip_tags_bit_def t1_chunk_id_def get_field_def)

section \<open>The handler keeps pages with their tags\<close>

lemma compat_tags_fields:
  "t1_chunk_id (yaffs_calc_tags_ecc (compat_tags p e)) = take_bit 20 (chunk_id e)"
  "t1_serial_number (yaffs_calc_tags_ecc (compat_tags p e)) = take_bit 2 (serial_number e)"
  "t1_n_bytes_lsb (yaffs_calc_tags_ecc (compat_tags p e)) = take_bit 10 (n_bytes e)"
  "t1_obj_id (yaffs_calc_tags_ecc (compat_tags p e)) = take_bit 18 (obj_id e)"
  "cp_data_bytes_per_chunk p \<ge> 1024 \<Longrightarrow>
     t1_n_bytes_msb (yaffs_calc_tags_ecc (compat_tags p e)) = take_bit 2 (drop_bit 10 (n_bytes e))"
proof -
  have m: "1024 - 1 = (mask 10 :: u32)" "3 = (mask 2 :: u32)" by (simp_all add: mask_eq_exp_minus_1)
  note d = calc_tags_ecc put_ecc_def compat_tags_def put_field_def get_field_def m fst_conv snd_conv
  show "t1_chunk_id (yaffs_calc_tags_ecc (compat_tags p e)) = take_bit 20 (chunk_id e)"
    unfolding t1_chunk_id_def d by (auto simp: bit_simps intro!: bit_word_eqI)
  show "t1_serial_number (yaffs_calc_tags_ecc (compat_tags p e)) = take_bit 2 (serial_number e)"
    unfolding t1_serial_number_def d by (auto simp: bit_simps intro!: bit_word_eqI)
  show "t1_n_bytes_lsb (yaffs_calc_tags_ecc (compat_tags p e)) = take_bit 10 (n_bytes e)"
    unfolding t1_n_bytes_lsb_def d by (auto simp: bit_simps intro!: bit_word_eqI)
  show "t1_obj_id (yaffs_calc_tags_ecc (compat_tags p e)) = take_bit 18 (obj_id e)"
    unfolding t1_obj_id_def d by (auto simp: bit_simps intro!: bit_word_eqI)
  show "t1_n_bytes_msb (yaffs_calc_tags_ecc (compat_tags p e)) = take_bit 2 (drop_bit 10 (n_bytes e))"
    if "cp_data_bytes_per_chunk p \<ge> 1024"
    using that unfolding t1_n_bytes_msb_def d by (auto simp: bit_simps simp del: tags_ecc_12 intro!: bit_word_eqI)
qed

lemma bytes_spare_bytes [simp]: "bytes_spare (spare_bytes sp @ rest) = sp"
  by (simp add: bytes_spare_def spare_bytes_def)

lemma length_spare_bytes [simp]: "length (spare_bytes sp) = SPARE_BYTES"
  by (simp add: spare_bytes_def SPARE_BYTES_def)

lemma u32_bytes_nth: "u32_bytes v = [u32_bytes v ! 0, u32_bytes v ! 1, u32_bytes v ! 2, u32_bytes v ! 3]"
  by (simp add: u32_bytes_def)

lemma bytes_u32_nth: "bytes_u32 (u32_bytes v ! 0) (u32_bytes v ! 1) (u32_bytes v ! 2) (u32_bytes v ! 3) = v"
  using bytes_u32_u32_bytes [of v] by (simp add: u32_bytes_def)

lemma get_tags_loaded:
  "yaffs_get_tags_from_spare swap (yaffs_load_tags_to_spare swap sp t) m = (yaffs_calc_tags_ecc t, m)"
proof -
  have c: "yaffs_check_tags_ecc (yaffs_calc_tags_ecc t) = (0, yaffs_calc_tags_ecc t)"
    by (simp add: check_tags_ecc calc_tags_ecc t1_ecc_put)
  show ?thesis
    by (simp add: yaffs_get_tags_from_spare_def yaffs_load_tags_to_spare_def Let_def nth_append
        bytes_u32_nth [simplified] c)
qed

text \<open>The upper bits of the ECC are 0, so stored tags are never all ones.\<close>

lemma loaded_not_erased: "yaffs_load_tags_to_spare swap sp t \<noteq> yaffs_spare_init"
proof
  assume "yaffs_load_tags_to_spare swap sp t = yaffs_spare_init"
  then have "tb4 (yaffs_load_tags_to_spare swap sp t) = 0xff \<and> tb5 (yaffs_load_tags_to_spare swap sp t) = 0xff \<and>
      tb6 (yaffs_load_tags_to_spare swap sp t) = 0xff \<and> tb7 (yaffs_load_tags_to_spare swap sp t) = 0xff"
    by (simp add: yaffs_spare_init_def bytes_spare_def SPARE_BYTES_def)
  then have "bytes_u32 0xff 0xff 0xff 0xff = yaffs_do_endian_u32 swap (snd (yaffs_calc_tags_ecc t))"
    using bytes_u32_nth [of "yaffs_do_endian_u32 swap (snd (yaffs_calc_tags_ecc t))"]
    by (simp add: yaffs_load_tags_to_spare_def Let_def nth_append)
  then have "yaffs_do_endian_u32 swap (bytes_u32 0xff 0xff 0xff 0xff) = snd (yaffs_calc_tags_ecc t)"
    by simp
  moreover have "bit (yaffs_do_endian_u32 swap (bytes_u32 0xff 0xff 0xff 0xff)) 25"
  proof -
    have "bit (yaffs_do_endian_u32 True (bytes_u32 0xff 0xff 0xff 0xff)) 25"
      "bit (yaffs_do_endian_u32 False (bytes_u32 0xff 0xff 0xff 0xff)) 25" by code_simp+
    then show ?thesis by (cases swap) simp_all
  qed
  ultimately have "bit (tags_ecc t) 7"
    by (simp add: calc_tags_ecc put_ecc_def put_field_def bit_simps)
  then have "bit (take_bit 7 (tags_ecc t)) 7" by (simp only: tags_ecc_small)
  then show False by (simp add: bit_simps)
qed

lemma yaffs_ecc_calc_some: "256 \<le> length d \<Longrightarrow> \<exists>e. yaffs_ecc_calc d = Some e"
  by (simp add: yaffs_ecc_calc_def split: prod.split)

definition compat_usable :: "('s \<Rightarrow> int \<Rightarrow> bool) \<Rightarrow> 's compat \<Rightarrow> int \<Rightarrow> bool" where
  "compat_usable good m c \<longleftrightarrow> good (c_drv m) c \<and> length (c_stack_spare m) = SPARE_BYTES"

text \<open>Tags of a chunk in use that fit the fields of \<^verbatim>\<open>struct yaffs_tags\<close>.\<close>

definition tags1_fit :: "compat_param \<Rightarrow> yaffs_ext_tags \<Rightarrow> bool" where
  "tags1_fit p e \<longleftrightarrow> is_deleted e = 0 \<and> take_bit 20 (chunk_id e) = chunk_id e \<and>
     take_bit 18 (obj_id e) = obj_id e \<and> take_bit 2 (serial_number e) = serial_number e \<and>
     take_bit (if cp_data_bytes_per_chunk p \<ge> 1024 then 12 else 10) (n_bytes e) = n_bytes e"

definition tags1_read :: "yaffs_ext_tags \<Rightarrow> yaffs_ext_tags \<Rightarrow> yaffs_ecc_result \<Rightarrow> yaffs_ext_tags" where
  "tags1_read t0 e r = t0\<lparr>is_deleted := 0, ecc_result := r, block_bad := 0, chunk_used := 1,
     obj_id := obj_id e, chunk_id := chunk_id e, n_bytes := n_bytes e, serial_number := serial_number e\<rparr>"

locale compat_store = page_store +
  fixes p :: compat_param
  assumes bytes: "cp_data_bytes_per_chunk p = data_size" "512 \<le> data_size"
    and spare: "SPARE_BYTES \<le> spare_size"
begin

lemma compat_write:
  assumes u: "compat_usable good m c" and d: "length data = data_size" and e: "is_deleted e = 0"
  shows "\<exists>m' sp. yaffs_tags_compat_wr drv p m c (Some data) (Some e) = Some (YAFFS_OK, Some data, m') \<and>
    fst (pg (c_drv m') c) = data \<and>
    take SPARE_BYTES (snd (pg (c_drv m') c)) =
      spare_bytes (yaffs_load_tags_to_spare (cp_swap_endian p) sp (compat_tags p e)) \<and>
    (\<not> cp_use_nand_ecc p \<longrightarrow> yaffs_ecc_calc data = Some (ecc1 sp) \<and> yaffs_ecc_calc (drop 256 data) = Some (ecc2 sp)) \<and>
    page_status sp = 0xff \<and> compat_usable good m' c"
proof -
  have "256 \<le> length data" "256 \<le> length (drop 256 data)" using d bytes by auto
  then obtain e1 e2 where c: "yaffs_ecc_calc data = Some e1" "yaffs_ecc_calc (drop 256 data) = Some e2"
    using yaffs_ecc_calc_some by blast
  let ?plain = "if cp_use_nand_ecc p then yaffs_spare_init else yaffs_spare_init\<lparr>ecc1 := e1, ecc2 := e2\<rparr>"
  let ?sp = "yaffs_load_tags_to_spare (cp_swap_endian p) ?plain (compat_tags p e)"
  have l: "length (spare_bytes ?sp) \<le> spare_size" using spare by simp
  have g: "good (c_drv m) c" using u by (simp add: compat_usable_def)
  obtain s' where s': "drv_write_chunk_fn drv (c_drv m) c (Some data) data_size (Some (spare_bytes ?sp)) = (YAFFS_OK, s')"
    "good s' = good (c_drv m)"
    "pg s' c = (data, spare_bytes ?sp @ drop (length (spare_bytes ?sp)) (snd (pg (c_drv m) c)))"
    using write_page [OF g d l] by blast
  have "yaffs_tags_compat_wr drv p m c (Some data) (Some e) = Some (YAFFS_OK, Some data, m\<lparr>c_drv := s'\<rparr>)"
    using s'(1) c e by (cases "cp_use_nand_ecc p") (simp_all add: yaffs_tags_compat_wr_def yaffs_wr_nand_def bytes)
  then show ?thesis
    using s'(2,3) c u
    by (intro exI [of _ "m\<lparr>c_drv := s'\<rparr>"] exI [of _ ?plain])
      (simp add: compat_usable_def, simp add: yaffs_spare_init_def bytes_spare_def SPARE_BYTES_def)
qed

lemma compat_read:
  assumes u: "compat_usable good m c" and b: "length buf = data_size" and e: "tags1_fit p e"
    and sp: "take SPARE_BYTES (snd (pg (c_drv m) c)) =
      spare_bytes (yaffs_load_tags_to_spare (cp_swap_endian p) sp (compat_tags p e))" "page_status sp = 0xff"
    and ecc: "\<not> cp_use_nand_ecc p \<longrightarrow> yaffs_ecc_calc (fst (pg (c_drv m) c)) = Some (ecc1 sp) \<and>
      yaffs_ecc_calc (drop 256 (fst (pg (c_drv m) c))) = Some (ecc2 sp)"
  shows "yaffs_tags_compat_rd drv p m c (Some buf) (Some t0) =
    Some (YAFFS_OK, Some (fst (pg (c_drv m) c)), Some (tags1_read t0 e YAFFS_ECC_RESULT_NO_ERROR), m)"
proof -
  let ?d = "fst (pg (c_drv m) c)"
  let ?sp = "yaffs_load_tags_to_spare (cp_swap_endian p) sp (compat_tags p e)"
  have g: "good (c_drv m) c" and l: "length (c_stack_spare m) = SPARE_BYTES"
    using u by (auto simp: compat_usable_def)
  have rd: "drv_read_chunk_fn drv (c_drv m) c (Some buf) data_size (Some (c_stack_spare m)) SPARE_BYTES =
      (YAFFS_OK, Some ?d, Some (spare_bytes ?sp), YAFFS_ECC_RESULT_NO_ERROR, c_drv m)"
    using read_page [OF g, of "Some buf" "Some (c_stack_spare m)" SPARE_BYTES] b l spare sp(1) by simp
  have f: "ecc1 ?sp = ecc1 sp" "ecc2 ?sp = ecc2 sp" "page_status ?sp = 0xff"
    using sp(2) by (simp_all add: yaffs_load_tags_to_spare_def Let_def)
  have z: "yaffs_ecc_correct x y y = Some (0, x, y)" for x y
    by (cases y) (simp add: yaffs_ecc_correct_def)
  have br: "buf_read (spare_bytes ?sp) 0 SPARE_BYTES = Some (spare_bytes ?sp)"
    by (simp add: buf_read_def)
  have bs: "bytes_spare (spare_bytes ?sp) = ?sp" using bytes_spare_bytes [of ?sp "[]"] by simp
  have rn: "yaffs_rd_chunk_nand drv p m c (Some buf) YAFFS_ECC_RESULT_UNKNOWN True =
      Some (YAFFS_OK, Some ?d, ?sp, YAFFS_ECC_RESULT_NO_ERROR, m)"
  proof (cases "cp_use_nand_ecc p")
    case True
    then show ?thesis by (simp add: yaffs_rd_chunk_nand_def bytes rd br bs)
  next
    case False
    have upd: "?sp\<lparr>ecc1 := ecc1 sp\<rparr> = ?sp" "?sp\<lparr>ecc2 := ecc2 sp\<rparr> = ?sp" "m\<lparr>c_drv := c_drv m\<rparr> = m"
      using f by simp_all
    show ?thesis
      using False ecc f z
      by (simp add: yaffs_rd_chunk_nand_def bytes rd br bs note_ecc_def Let_def upd)
  qed
  have h: "\<not> yaffs_hweight8 0xff < 7" by code_simp
  have n: "(if cp_data_bytes_per_chunk p \<ge> 1024
      then take_bit 10 (n_bytes e) OR push_bit 10 (take_bit 2 (drop_bit 10 (n_bytes e))) else take_bit 10 (n_bytes e))
      = n_bytes e"
  proof (cases "cp_data_bytes_per_chunk p \<ge> 1024")
    case True
    have "take_bit 10 w OR push_bit 10 (take_bit 2 (drop_bit 10 w)) = take_bit 12 (w :: u32)" for w
      by (auto simp: bit_simps intro!: bit_word_eqI)
    then show ?thesis using True e by (simp add: tags1_fit_def)
  qed (use e in \<open>simp add: tags1_fit_def\<close>)
  show ?thesis
    using e n
    by (simp add: yaffs_tags_compat_rd_def rn f h loaded_not_erased get_tags_loaded compat_tags_fields
        tags1_fit_def tags1_read_def Let_def split: if_splits)
qed

end

text \<open>A yaffs1 device on the RAM simulator.\<close>

definition yramsim_compat :: "bool \<Rightarrow> bool \<Rightarrow> compat_param" where
  "yramsim_compat use_nand_ecc swap = \<lparr>cp_use_nand_ecc = use_nand_ecc, cp_swap_endian = swap,
     cp_data_bytes_per_chunk = DATA_SIZE, cp_chunks_per_block = int PAGES_PER_BLOCK, cp_block_offset = 0\<rparr>"

interpretation ram_compat: compat_store yramsim_driver ram_content ram_good DATA_SIZE SPARE_SIZE
    "yramsim_compat use_nand_ecc swap" for use_nand_ecc swap
  by unfold_locales (simp_all add: yramsim_compat_def ram_consts SPARE_BYTES_def)

text \<open>
  C40: on the RAM simulator, with the ECC of the data made here or by the driver, and in
  either byte order: a chunk written through the yaffs1 tag handler with tags that fit its
  fields reads back with its data and these tags, no error is reported or counted,
  and no block is marked for retirement.
\<close>

theorem compat_write_read:
  assumes "ram_good (c_drv m) c" and "length (c_stack_spare m) = SPARE_BYTES"
    and "length data = DATA_SIZE" and "length buf = DATA_SIZE" and "tags1_fit (yramsim_compat nand sw) t"
  shows "\<exists>m'. yaffs_tags_compat_wr yramsim_driver (yramsim_compat nand sw) m c (Some data) (Some t)
       = Some (YAFFS_OK, Some data, m') \<and>
     yaffs_tags_compat_rd yramsim_driver (yramsim_compat nand sw) m' c (Some buf) (Some t0)
       = Some (YAFFS_OK, Some data, Some (tags1_read t0 t YAFFS_ECC_RESULT_NO_ERROR), m')"
proof -
  let ?p = "yramsim_compat nand sw"
  have u: "compat_usable ram_good m c" using assms(1,2) by (simp add: compat_usable_def)
  have e: "is_deleted t = 0" using assms(5) by (simp add: tags1_fit_def)
  obtain m' sp where w: "yaffs_tags_compat_wr yramsim_driver ?p m c (Some data) (Some t) = Some (YAFFS_OK, Some data, m')"
    and c: "fst (ram_content (c_drv m') c) = data"
      "take SPARE_BYTES (snd (ram_content (c_drv m') c)) =
        spare_bytes (yaffs_load_tags_to_spare (cp_swap_endian ?p) sp (compat_tags ?p t))"
      "\<not> cp_use_nand_ecc ?p \<longrightarrow> yaffs_ecc_calc data = Some (ecc1 sp) \<and> yaffs_ecc_calc (drop 256 data) = Some (ecc2 sp)"
      "page_status sp = 0xff" "compat_usable ram_good m' c"
    using ram_compat.compat_write [OF u assms(3) e] by blast
  show ?thesis
    using w c(1) ram_compat.compat_read [OF c(5) assms(4,5) c(2,4), of t0] c(3) by auto
qed

definition sample_compat :: "sim_data compat" where
  "sample_compat = \<lparr>c_drv = yramsim_alloc_sim_data 2, c_n_ecc_fixed = 0, c_n_ecc_unfixed = 0,
     c_n_tags_ecc_fixed = 0, c_n_tags_ecc_unfixed = 0, c_needs_retiring = [],
     c_stack_spare = replicate SPARE_BYTES 0x5a\<rparr>"

theorem compat_write_read_witness:
  "\<exists>m'. yaffs_tags_compat_wr yramsim_driver (yramsim_compat False True) sample_compat 70
       (Some (replicate DATA_SIZE 7)) (Some (zero_tags\<lparr>obj_id := 0x20003, chunk_id := 9, n_bytes := 2048, serial_number := 2\<rparr>))
       = Some (YAFFS_OK, Some (replicate DATA_SIZE 7), m') \<and>
     yaffs_tags_compat_rd yramsim_driver (yramsim_compat False True) m' 70
       (Some (replicate DATA_SIZE 0)) (Some zero_tags)
       = Some (YAFFS_OK, Some (replicate DATA_SIZE 7), Some (tags1_read zero_tags
           (zero_tags\<lparr>obj_id := 0x20003, chunk_id := 9, n_bytes := 2048, serial_number := 2\<rparr>)
           YAFFS_ECC_RESULT_NO_ERROR), m')"
proof (rule compat_write_read)
  show "ram_good (c_drv sample_compat) 70"
    by (auto simp: sample_compat_def yramsim_alloc_sim_data_def ram_good_def ram_chunk_ok_def
        erased_ram_block_def PAGES_PER_BLOCK_def)
  show "tags1_fit (yramsim_compat False True)
      (zero_tags\<lparr>obj_id := 0x20003, chunk_id := 9, n_bytes := 2048, serial_number := 2\<rparr>)"
    by (simp add: tags1_fit_def yramsim_compat_def DATA_SIZE_def zero_tags_def)
qed (simp_all add: sample_compat_def)

end
