(* ===== verification/Yaffs_Dev.thy ===== *)
theory Yaffs_Dev
  imports Yaffs_Flash
begin

text \<open>
  The device (\<^verbatim>\<open>struct yaffs_param\<close> and \<^verbatim>\<open>struct yaffs_dev\<close> of core/yaffs_guts.h), without
  the object table, the caches and the temporary buffers, which are states of their
  own theories.  \<open>flash\<close> is the state behind the driver and the tag handler; the
  functions themselves are the arguments \<open>drv\<close> and \<open>tg\<close> of the operations.

  Block and chunk numbers and the counters of blocks and chunks are integers: the C
  code mixes \<^verbatim>\<open>int\<close> and \<^verbatim>\<open>u32\<close> for them, and they are bounded by the size of the device.
  Sequence numbers, checksums and statistics are 32-bit words, as they may wrap.
  An operation that returns None has indexed a table outside its bounds (after the
  trace-only \<^verbatim>\<open>BUG()\<close> of the direct build) or was called with a NULL it must not get.
\<close>

record yaffs_param =
  inband_tags :: bool
  total_bytes_per_chunk :: nat
  chunks_per_block :: int
  start_block :: int
  end_block :: int
  n_reserved_blocks :: int
  is_yaffs2 :: bool
  no_tags_ecc :: bool
  refresh_period :: int
  skip_checkpt_rd :: bool
  skip_checkpt_wr :: bool
  always_check_erased :: bool
  disable_summary :: bool
  disable_bad_block_marking :: bool

record yaffs_summary_tags =
  st_obj_id :: u32
  st_chunk_id :: u32
  st_n_bytes :: u32

text \<open>
  \<^verbatim>\<open>struct yaffs_allocator\<close>, by the lengths of its free lists; \<open>kmallocs\<close> are the outcomes
  of the allocations to come (no more outcomes: the allocation fails).
\<close>

record yaffs_allocator =
  n_tnodes_created :: int
  n_free_tnodes :: nat
  n_obj_created :: int
  n_free_objects :: nat
  kmallocs :: "bool list"

text \<open>
  \<open>verify_erasure\<close> and \<open>yaffs_wr_attempts\<close> are global variables of the code: whether the
  trace mask asks for the verification of erasures, and the limit of write attempts
  (0 is no limit).  The last two fields stand for memory that is read without being
  initialised: the content of the temporary buffers and of the tags on the stack.
\<close>

record 'n yaffs_dev =
  param :: yaffs_param
  flash :: 'n
  data_bytes_per_chunk :: nat
  chunk_grp_bits :: nat
  chunk_grp_size :: nat
  tnode_width :: nat
  tnode_mask :: u32
  tnode_size :: int
  chunk_shift :: nat
  chunk_div :: u32
  chunk_mask :: u32
  read_only :: bool
  swap_endian :: bool
  internal_start_block :: int
  internal_end_block :: int
  block_offset :: int
  chunk_offset :: int
  checkpt_page_seq :: int
  checkpt_byte_count :: int
  checkpt_byte_offs :: int
  checkpt_buffer :: "u8 list option"
  checkpt_open_write :: bool
  blocks_in_checkpt :: int
  checkpt_cur_chunk :: int
  checkpt_cur_block :: int
  checkpt_next_block :: int
  checkpt_block_list :: "int list option"
  checkpt_max_blocks :: int
  checkpt_sum :: u32
  checkpt_xor :: u32
  checkpoint_blocks_required :: int
  is_checkpointed :: bool
  block_info :: "yaffs_block_info list"
  chunk_bits :: "u8 list"
  chunk_bit_stride :: nat
  n_erased_blocks :: int
  alloc_block :: int
  alloc_page :: int
  alloc_block_finder :: int
  allocator :: yaffs_allocator
  n_obj :: int
  n_tnodes :: int
  n_free_chunks :: int
  has_pending_prioritised_gc :: bool
  gc_disable :: bool
  gc_block_finder :: int
  gc_dirtiest :: int
  gc_pages_in_use :: int
  gc_not_done :: int
  gc_block :: int
  gc_chunk :: int
  gc_skip :: int
  dev_seq_number :: u32
  oldest_dirty_seq :: u32
  oldest_dirty_block :: int
  refresh_skip :: int
  chunks_per_summary :: int
  sum_tags :: "yaffs_summary_tags list option"
  n_deleted_files :: int
  n_unlinked_files :: int
  n_bg_deletions :: int
  n_page_writes :: u32
  n_page_reads :: u32
  n_erasures :: u32
  n_bad_markings :: u32
  n_erase_failures :: u32
  n_gc_copies :: u32
  all_gcs :: u32
  passive_gc_count :: u32
  oldest_dirty_gc_count :: u32
  n_gc_blocks :: u32
  bg_gcs :: u32
  n_retried_writes :: u32
  n_retired_blocks :: u32
  n_deletions :: u32
  n_unmarked_deletions :: u32
  refresh_count :: u32
  verify_erasure :: bool
  yaffs_wr_attempts :: nat
  temp_content :: "u8 list"
  stack_tags :: yaffs_ext_tags

text \<open>\<^verbatim>\<open>memset\<close> of the structures to zero, around the parameters and the flash.\<close>

definition zero_param :: yaffs_param where
  "zero_param = \<lparr>inband_tags = False, total_bytes_per_chunk = 0, chunks_per_block = 0, start_block = 0,
     end_block = 0, n_reserved_blocks = 0, is_yaffs2 = False, no_tags_ecc = False,
     refresh_period = 0, skip_checkpt_rd = False, skip_checkpt_wr = False,
     always_check_erased = False, disable_summary = False,
     disable_bad_block_marking = False\<rparr>"

definition zero_dev :: "yaffs_param \<Rightarrow> 'n \<Rightarrow> 'n yaffs_dev" where
  "zero_dev p n = \<lparr>param = p, flash = n, data_bytes_per_chunk = 0, chunk_grp_bits = 0,
     chunk_grp_size = 0, tnode_width = 0, tnode_mask = 0, tnode_size = 0, chunk_shift = 0, chunk_div = 0,
     chunk_mask = 0, read_only = False,
     swap_endian = False, internal_start_block = 0, internal_end_block = 0,
     block_offset = 0, chunk_offset = 0, checkpt_page_seq = 0, checkpt_byte_count = 0,
     checkpt_byte_offs = 0, checkpt_buffer = None, checkpt_open_write = False,
     blocks_in_checkpt = 0, checkpt_cur_chunk = 0, checkpt_cur_block = 0,
     checkpt_next_block = 0, checkpt_block_list = None, checkpt_max_blocks = 0,
     checkpt_sum = 0, checkpt_xor = 0, checkpoint_blocks_required = 0,
     is_checkpointed = False, block_info = [], chunk_bits = [], chunk_bit_stride = 0,
     n_erased_blocks = 0, alloc_block = 0, alloc_page = 0, alloc_block_finder = 0,
     allocator = \<lparr>n_tnodes_created = 0, n_free_tnodes = 0, n_obj_created = 0, n_free_objects = 0, kmallocs = []\<rparr>,
     n_obj = 0, n_tnodes = 0, n_free_chunks = 0, has_pending_prioritised_gc = False,
     gc_disable = False, gc_block_finder = 0, gc_dirtiest = 0, gc_pages_in_use = 0,
     gc_not_done = 0, gc_block = 0, gc_chunk = 0, gc_skip = 0, dev_seq_number = 0,
     oldest_dirty_seq = 0, oldest_dirty_block = 0, refresh_skip = 0, chunks_per_summary = 0,
     sum_tags = None, n_deleted_files = 0, n_unlinked_files = 0, n_bg_deletions = 0,
     n_page_writes = 0, n_page_reads = 0, n_erasures = 0, n_bad_markings = 0,
     n_erase_failures = 0, n_gc_copies = 0, all_gcs = 0, passive_gc_count = 0,
     oldest_dirty_gc_count = 0, n_gc_blocks = 0, bg_gcs = 0, n_retried_writes = 0,
     n_retired_blocks = 0, n_deletions = 0, n_unmarked_deletions = 0, refresh_count = 0,
     verify_erasure = False, yaffs_wr_attempts = 0,
     temp_content = [], stack_tags = zero_tags\<rparr>"

end
