(* ===== verification/Yaffs_Bitmap.thy ===== *)
theory Yaffs_Bitmap
  imports Yaffs_Dev
begin

text \<open>
  core/yaffs_bitmap.c: the bitmap of the chunks in use, a row of
  \<^verbatim>\<open>chunk_bit_stride\<close> bytes per block.  The contract is the locale \<open>chunk_bitmap\<close>
  (setting, clearing and checking one bit), interpreted at the code's functions;
  \<open>yaffs_count_chunk_bits\<close> is the number of chunks in use of the block.
\<close>

section \<open>The operations\<close>

text \<open>The offset of the row of a block in \<^verbatim>\<open>dev->chunk_bits\<close>.\<close>

definition yaffs_block_bits :: "'n yaffs_dev \<Rightarrow> int \<Rightarrow> nat option" where
  "yaffs_block_bits dev blk =
     (if blk < internal_start_block dev \<or> blk > internal_end_block dev then None
      else Some (chunk_bit_stride dev * nat (blk - internal_start_block dev)))"

definition yaffs_verify_chunk_bit_id :: "'n yaffs_dev \<Rightarrow> int \<Rightarrow> int \<Rightarrow> unit option" where
  "yaffs_verify_chunk_bit_id dev blk chunk =
     (if blk < internal_start_block dev \<or> blk > internal_end_block dev \<or>
         chunk < 0 \<or> chunk \<ge> chunks_per_block (param dev) then None else Some ())"

definition yaffs_clear_chunk_bits :: "'n yaffs_dev \<Rightarrow> int \<Rightarrow> 'n yaffs_dev option" where
  "yaffs_clear_chunk_bits dev blk =
     do { blk_bits \<leftarrow> yaffs_block_bits dev blk;
          bits \<leftarrow> buf_write (chunk_bits dev) blk_bits (replicate (chunk_bit_stride dev) 0);
          Some (dev\<lparr>chunk_bits := bits\<rparr>) }"

text \<open>\<^verbatim>\<open>blk_bits[chunk / 8]\<close>, read and written.\<close>

definition bits_at :: "'n yaffs_dev \<Rightarrow> nat \<Rightarrow> int \<Rightarrow> u8 option" where
  "bits_at dev blk_bits chunk =
     (let i = blk_bits + nat chunk div 8
      in if i < length (chunk_bits dev) then Some (chunk_bits dev ! i) else None)"

definition bits_put :: "'n yaffs_dev \<Rightarrow> nat \<Rightarrow> int \<Rightarrow> u8 \<Rightarrow> 'n yaffs_dev" where
  "bits_put dev blk_bits chunk v = dev\<lparr>chunk_bits := (chunk_bits dev)[blk_bits + nat chunk div 8 := v]\<rparr>"

definition yaffs_clear_chunk_bit :: "'n yaffs_dev \<Rightarrow> int \<Rightarrow> int \<Rightarrow> 'n yaffs_dev option" where
  "yaffs_clear_chunk_bit dev blk chunk =
     do { blk_bits \<leftarrow> yaffs_block_bits dev blk;
          yaffs_verify_chunk_bit_id dev blk chunk;
          v \<leftarrow> bits_at dev blk_bits chunk;
          Some (bits_put dev blk_bits chunk (v AND NOT (push_bit (nat chunk mod 8) 1))) }"

definition yaffs_set_chunk_bit :: "'n yaffs_dev \<Rightarrow> int \<Rightarrow> int \<Rightarrow> 'n yaffs_dev option" where
  "yaffs_set_chunk_bit dev blk chunk =
     do { blk_bits \<leftarrow> yaffs_block_bits dev blk;
          yaffs_verify_chunk_bit_id dev blk chunk;
          v \<leftarrow> bits_at dev blk_bits chunk;
          Some (bits_put dev blk_bits chunk (v OR push_bit (nat chunk mod 8) 1)) }"

definition yaffs_check_chunk_bit :: "'n yaffs_dev \<Rightarrow> int \<Rightarrow> int \<Rightarrow> bool option" where
  "yaffs_check_chunk_bit dev blk chunk =
     do { blk_bits \<leftarrow> yaffs_block_bits dev blk;
          yaffs_verify_chunk_bit_id dev blk chunk;
          v \<leftarrow> bits_at dev blk_bits chunk;
          Some (v AND push_bit (nat chunk mod 8) 1 \<noteq> 0) }"

text \<open>The loops over the row of a block.\<close>

definition row :: "'n yaffs_dev \<Rightarrow> nat \<Rightarrow> u8 list option" where
  "row dev blk_bits = buf_read (chunk_bits dev) blk_bits (chunk_bit_stride dev)"

definition yaffs_still_some_chunks :: "'n yaffs_dev \<Rightarrow> int \<Rightarrow> bool option" where
  "yaffs_still_some_chunks dev blk =
     do { blk_bits \<leftarrow> yaffs_block_bits dev blk;
          bs \<leftarrow> row dev blk_bits;
          Some (list_ex (\<lambda>b. b \<noteq> 0) bs) }"

definition yaffs_count_chunk_bits :: "'n yaffs_dev \<Rightarrow> int \<Rightarrow> int option" where
  "yaffs_count_chunk_bits dev blk =
     do { blk_bits \<leftarrow> yaffs_block_bits dev blk;
          bs \<leftarrow> row dev blk_bits;
          Some (fold (\<lambda>b n. n + yaffs_hweight8 b) bs 0) }"

section \<open>Chunks in use\<close>

definition blk_valid :: "'n yaffs_dev \<Rightarrow> int \<Rightarrow> bool" where
  "blk_valid dev blk \<longleftrightarrow> internal_start_block dev \<le> blk \<and> blk \<le> internal_end_block dev"

definition page_valid :: "'n yaffs_dev \<Rightarrow> int \<Rightarrow> int \<Rightarrow> bool" where
  "page_valid dev blk chunk \<longleftrightarrow> blk_valid dev blk \<and> 0 \<le> chunk \<and> chunk < chunks_per_block (param dev)"

definition row_bit :: "'n yaffs_dev \<Rightarrow> int \<Rightarrow> nat \<Rightarrow> bool" where
  "row_bit dev blk n =
     bit (chunk_bits dev ! (chunk_bit_stride dev * nat (blk - internal_start_block dev) + n div 8)) (n mod 8)"

definition chunk_in_use :: "'n yaffs_dev \<Rightarrow> int \<Rightarrow> int \<Rightarrow> bool" where
  "chunk_in_use dev blk chunk = row_bit dev blk (nat chunk)"

definition used_pages :: "'n yaffs_dev \<Rightarrow> int \<Rightarrow> int set" where
  "used_pages dev blk = {p. 0 \<le> p \<and> p < chunks_per_block (param dev) \<and> chunk_in_use dev blk p}"

text \<open>
  The bitmap has a row for every block, and no bit beyond the last chunk of a block; a block has no
  more chunks than the ten-bit counts of its block information can tell.
\<close>

definition bits_wf :: "'n yaffs_dev \<Rightarrow> bool" where
  "bits_wf dev \<longleftrightarrow> 0 < chunks_per_block (param dev) \<and> chunks_per_block (param dev) \<le> 511 \<and>
     chunks_per_block (param dev) \<le> 8 * int (chunk_bit_stride dev) \<and>
     0 \<le> internal_start_block dev \<and> internal_start_block dev \<le> internal_end_block dev \<and>
     length (chunk_bits dev) =
       chunk_bit_stride dev * nat (internal_end_block dev - internal_start_block dev + 1) \<and>
     (\<forall>blk n. blk_valid dev blk \<longrightarrow> nat (chunks_per_block (param dev)) \<le> n \<longrightarrow>
        n < 8 * chunk_bit_stride dev \<longrightarrow> \<not> row_bit dev blk n)"

lemma row_inside:
  assumes "bits_wf dev" and "blk_valid dev blk" and "n < 8 * chunk_bit_stride dev"
  shows "chunk_bit_stride dev * nat (blk - internal_start_block dev) + n div 8 < length (chunk_bits dev)"
    and "chunk_bit_stride dev * nat (blk - internal_start_block dev) + chunk_bit_stride dev
      \<le> length (chunk_bits dev)"
proof -
  let ?b = "nat (blk - internal_start_block dev)" and ?s = "chunk_bit_stride dev"
  have b: "?b + 1 \<le> nat (internal_end_block dev - internal_start_block dev + 1)"
    using assms(2) unfolding blk_valid_def by arith
  have "?s * ?b + ?s = ?s * (?b + 1)" by simp
  also have "\<dots> \<le> ?s * nat (internal_end_block dev - internal_start_block dev + 1)"
    using b by (rule mult_le_mono2)
  also have "\<dots> = length (chunk_bits dev)" using assms(1) by (simp add: bits_wf_def)
  finally show l: "?s * ?b + ?s \<le> length (chunk_bits dev)" .
  have "n div 8 < ?s" using assms(3) by (simp add: less_mult_imp_div_less mult.commute)
  with l show "?s * ?b + n div 8 < length (chunk_bits dev)" by simp
qed

lemma rows_disjoint:
  assumes "s * b + i = s * b' + (j::nat)" and "i < s" and "j < s"
  shows "b = b' \<and> i = j"
proof -
  have "(s * b + i) div s = (s * b' + j) div s" using assms(1) by simp
  then have "b = b'" using assms(2,3) by simp
  then show ?thesis using assms(1) by simp
qed

lemma bits_put_fields [simp]:
  "param (bits_put dev k c v) = param dev" "internal_start_block (bits_put dev k c v) = internal_start_block dev"
  "internal_end_block (bits_put dev k c v) = internal_end_block dev"
  "chunk_bit_stride (bits_put dev k c v) = chunk_bit_stride dev"
  "blk_valid (bits_put dev k c v) = blk_valid dev" "page_valid (bits_put dev k c v) = page_valid dev"
  "length (chunk_bits (bits_put dev k c v)) = length (chunk_bits dev)"
  by (simp_all add: bits_put_def blk_valid_def page_valid_def fun_eq_iff)

lemma row_bit_put:
  assumes wf: "bits_wf dev" and b: "blk_valid dev blk" "blk_valid dev blk'"
    and n: "nat chunk < 8 * chunk_bit_stride dev" "n < 8 * chunk_bit_stride dev"
  shows "row_bit (bits_put dev (chunk_bit_stride dev * nat (blk - internal_start_block dev)) chunk v) blk' n =
    (if blk' = blk \<and> n div 8 = nat chunk div 8 then bit v (n mod 8) else row_bit dev blk' n)"
proof -
  let ?s = "chunk_bit_stride dev"
  let ?i = "?s * nat (blk - internal_start_block dev) + nat chunk div 8"
  let ?j = "?s * nat (blk' - internal_start_block dev) + n div 8"
  have i: "?i < length (chunk_bits dev)" by (rule row_inside [OF wf b(1) n(1)])
  have "nat chunk div 8 < ?s" "n div 8 < ?s"
    using n by (simp_all add: less_mult_imp_div_less mult.commute)
  then have "?i = ?j \<longleftrightarrow> nat (blk - internal_start_block dev) = nat (blk' - internal_start_block dev) \<and>
      nat chunk div 8 = n div 8"
    using rows_disjoint by metis
  also have "\<dots> \<longleftrightarrow> blk' = blk \<and> n div 8 = nat chunk div 8"
    using b unfolding blk_valid_def by auto
  finally show ?thesis
    using i by (auto simp: row_bit_def bits_put_def nth_list_update)
qed

lemma page_bit_inside:
  assumes "bits_wf dev" and "page_valid dev blk chunk"
  shows "nat chunk < 8 * chunk_bit_stride dev"
  using assms unfolding bits_wf_def page_valid_def by arith

lemma bit_update_byte:
  fixes v :: u8
  assumes "m < 8"
  shows "bit (v OR push_bit k 1) m \<longleftrightarrow> bit v m \<or> m = k" "bit (v AND NOT (push_bit k 1)) m \<longleftrightarrow> bit v m \<and> m \<noteq> k"
  using assms by (auto simp: bit_or_iff bit_and_iff bit_not_iff bit_push_bit_iff bit_1_iff
      simp del: push_bit_of_1)

lemma same_bit: "n div 8 = c div 8 \<and> n mod 8 = c mod 8 \<longleftrightarrow> n = (c :: nat)"
  by (metis div_mult_mod_eq)

lemma chunk_bit_ops:
  assumes wf: "bits_wf dev" and v: "page_valid dev blk chunk"
  defines "off \<equiv> chunk_bit_stride dev * nat (blk - internal_start_block dev)"
  defines "w \<equiv> chunk_bits dev ! (off + nat chunk div 8)"
  shows "yaffs_set_chunk_bit dev blk chunk = Some (bits_put dev off chunk (w OR push_bit (nat chunk mod 8) 1))"
    and "yaffs_clear_chunk_bit dev blk chunk =
           Some (bits_put dev off chunk (w AND NOT (push_bit (nat chunk mod 8) 1)))"
    and "yaffs_check_chunk_bit dev blk chunk = Some (chunk_in_use dev blk chunk)"
  using v row_inside [OF wf _ page_bit_inside [OF wf v], of blk]
  by (auto simp: yaffs_set_chunk_bit_def yaffs_clear_chunk_bit_def yaffs_check_chunk_bit_def
      yaffs_block_bits_def yaffs_verify_chunk_bit_id_def page_valid_def blk_valid_def bits_at_def off_def w_def
      chunk_in_use_def row_bit_def Let_def and_exp_eq_0_iff_not_bit)

lemma row_bit_set_clear:
  assumes wf: "bits_wf dev" and v: "page_valid dev blk chunk" and b: "blk_valid dev blk'"
    and n: "n < 8 * chunk_bit_stride dev"
  defines "off \<equiv> chunk_bit_stride dev * nat (blk - internal_start_block dev)"
  defines "w \<equiv> chunk_bits dev ! (off + nat chunk div 8)"
  shows "row_bit (bits_put dev off chunk (w OR push_bit (nat chunk mod 8) 1)) blk' n \<longleftrightarrow>
      row_bit dev blk' n \<or> (blk' = blk \<and> n = nat chunk)"
    and "row_bit (bits_put dev off chunk (w AND NOT (push_bit (nat chunk mod 8) 1))) blk' n \<longleftrightarrow>
      row_bit dev blk' n \<and> \<not> (blk' = blk \<and> n = nat chunk)"
proof -
  have bv: "blk_valid dev blk" using v by (simp add: page_valid_def)
  note put = row_bit_put [OF wf bv b page_bit_inside [OF wf v] n, folded off_def]
  show "row_bit (bits_put dev off chunk (w OR push_bit (nat chunk mod 8) 1)) blk' n \<longleftrightarrow>
      row_bit dev blk' n \<or> (blk' = blk \<and> n = nat chunk)"
    unfolding put using same_bit [of n "nat chunk"]
    by (auto simp: bit_update_byte row_bit_def w_def off_def simp del: push_bit_of_1)
  show "row_bit (bits_put dev off chunk (w AND NOT (push_bit (nat chunk mod 8) 1))) blk' n \<longleftrightarrow>
      row_bit dev blk' n \<and> \<not> (blk' = blk \<and> n = nat chunk)"
    unfolding put using same_bit [of n "nat chunk"]
    by (auto simp: bit_update_byte row_bit_def w_def off_def simp del: push_bit_of_1)
qed

section \<open>The contract of the bitmap\<close>

locale chunk_bitmap =
  fixes wf :: "'s \<Rightarrow> bool"
    and valid :: "'s \<Rightarrow> int \<Rightarrow> int \<Rightarrow> bool"
    and set_bit clear_bit :: "'s \<Rightarrow> int \<Rightarrow> int \<Rightarrow> 's option"
    and check_bit :: "'s \<Rightarrow> int \<Rightarrow> int \<Rightarrow> bool option"
    and used :: "'s \<Rightarrow> int \<Rightarrow> int \<Rightarrow> bool"
  assumes set_law: "wf s \<Longrightarrow> valid s b c \<Longrightarrow> \<exists>s'. set_bit s b c = Some s' \<and> wf s' \<and> valid s' = valid s \<and>
      (\<forall>b' c'. valid s b' c' \<longrightarrow> used s' b' c' = (used s b' c' \<or> (b' = b \<and> c' = c)))"
    and clear_law: "wf s \<Longrightarrow> valid s b c \<Longrightarrow> \<exists>s'. clear_bit s b c = Some s' \<and> wf s' \<and> valid s' = valid s \<and>
      (\<forall>b' c'. valid s b' c' \<longrightarrow> used s' b' c' = (used s b' c' \<and> \<not> (b' = b \<and> c' = c)))"
    and check_law: "wf s \<Longrightarrow> valid s b c \<Longrightarrow> check_bit s b c = Some (used s b c)"
    and invalid_law: "wf s \<Longrightarrow> \<not> valid s b c \<Longrightarrow>
      set_bit s b c = None \<and> clear_bit s b c = None \<and> check_bit s b c = None"
begin

lemma check_after_set:
  assumes "wf s" and "set_bit s b c = Some s'" and "valid s b' c'"
  shows "check_bit s' b' c' = Some (if b' = b \<and> c' = c then True else used s b' c')"
proof -
  have v: "valid s b c" using invalid_law [OF assms(1)] assms(2) by fastforce
  show ?thesis using set_law [OF assms(1) v] assms by (auto simp: check_law)
qed

lemma check_after_clear:
  assumes "wf s" and "clear_bit s b c = Some s'" and "valid s b' c'"
  shows "check_bit s' b' c' = Some (if b' = b \<and> c' = c then False else used s b' c')"
proof -
  have v: "valid s b c" using invalid_law [OF assms(1)] assms(2) by fastforce
  show ?thesis using clear_law [OF assms(1) v] assms by (auto simp: check_law)
qed

end

lemma bits_wf_put:
  assumes wf: "bits_wf dev" and v: "page_valid dev blk chunk"
  defines "off \<equiv> chunk_bit_stride dev * nat (blk - internal_start_block dev)"
  defines "w \<equiv> chunk_bits dev ! (off + nat chunk div 8)"
  shows "bits_wf (bits_put dev off chunk (w OR push_bit (nat chunk mod 8) 1))"
    and "bits_wf (bits_put dev off chunk (w AND NOT (push_bit (nat chunk mod 8) 1)))"
proof -
  note rb = row_bit_set_clear [OF wf v, folded off_def, folded w_def]
  have c: "nat chunk < nat (chunks_per_block (param dev))" using v unfolding page_valid_def by arith
  have old: "\<And>b n. blk_valid dev b \<Longrightarrow> nat (chunks_per_block (param dev)) \<le> n \<Longrightarrow>
      n < 8 * chunk_bit_stride dev \<Longrightarrow> \<not> row_bit dev b n"
    using wf by (simp add: bits_wf_def)
  show "bits_wf (bits_put dev off chunk (w OR push_bit (nat chunk mod 8) 1))"
    using wf unfolding bits_wf_def bits_put_fields by (auto simp only: rb dest: old) (use c in auto)
  show "bits_wf (bits_put dev off chunk (w AND NOT (push_bit (nat chunk mod 8) 1)))"
    using wf unfolding bits_wf_def bits_put_fields by (auto simp only: rb dest: old)
qed

interpretation bitmap: chunk_bitmap bits_wf page_valid yaffs_set_chunk_bit yaffs_clear_chunk_bit
    yaffs_check_chunk_bit chunk_in_use
proof
  fix s :: "'a yaffs_dev" and b c
  assume wf: "bits_wf s" and v: "page_valid s b c"
  have in_use: "\<And>b' c'. page_valid s b' c' \<Longrightarrow> blk_valid s b' \<and> nat c' < 8 * chunk_bit_stride s \<and> 0 \<le> c'"
    using page_bit_inside [OF wf] by (auto simp: page_valid_def)
  have c0: "0 \<le> c" using in_use [OF v] by simp
  show "yaffs_check_chunk_bit s b c = Some (chunk_in_use s b c)" by (rule chunk_bit_ops [OF wf v])
  show "\<exists>s'. yaffs_set_chunk_bit s b c = Some s' \<and> bits_wf s' \<and> page_valid s' = page_valid s \<and>
      (\<forall>b' c'. page_valid s b' c' \<longrightarrow> chunk_in_use s' b' c' = (chunk_in_use s b' c' \<or> b' = b \<and> c' = c))"
    unfolding chunk_bit_ops [OF wf v] using bits_wf_put [OF wf v] row_bit_set_clear [OF wf v] in_use c0
    by (auto simp: chunk_in_use_def eq_nat_nat_iff)
  show "\<exists>s'. yaffs_clear_chunk_bit s b c = Some s' \<and> bits_wf s' \<and> page_valid s' = page_valid s \<and>
      (\<forall>b' c'. page_valid s b' c' \<longrightarrow> chunk_in_use s' b' c' = (chunk_in_use s b' c' \<and> \<not> (b' = b \<and> c' = c)))"
    unfolding chunk_bit_ops [OF wf v] using bits_wf_put [OF wf v] row_bit_set_clear [OF wf v] in_use c0
    by (auto simp: chunk_in_use_def eq_nat_nat_iff)
next
  fix s :: "'a yaffs_dev" and b c
  assume "\<not> page_valid s b c"
  then show "yaffs_set_chunk_bit s b c = None \<and> yaffs_clear_chunk_bit s b c = None \<and>
      yaffs_check_chunk_bit s b c = None"
    by (auto simp: yaffs_set_chunk_bit_def yaffs_clear_chunk_bit_def yaffs_check_chunk_bit_def
        yaffs_verify_chunk_bit_id_def yaffs_block_bits_def page_valid_def blk_valid_def)
qed

section \<open>Counting\<close>

lemma hweight8_card: "yaffs_hweight8 x = int (card {n. n < 8 \<and> bit x n})"
proof -
  have "{n::nat. n < 8 \<and> bit x n} = set (List.filter (bit x) [0..<8])" by auto
  then have "card {n::nat. n < 8 \<and> bit x n} = length (List.filter (bit x) [0..<8])"
    by (metis distinct_card distinct_filter distinct_upt)
  then show ?thesis
    by (simp add: yaffs_hweight8_bits bit_total_def upt_rec numeral_eq_Suc)
qed

lemma card_bits_rows:
  "int (card {n. n < 8 * length bs \<and> bit (bs ! (n div 8)) (n mod 8)}) = sum_list (map yaffs_hweight8 bs)"
proof (induction bs rule: rev_induct)
  case (snoc b bs)
  let ?A = "{n. n < 8 * length bs \<and> bit (bs ! (n div 8)) (n mod 8)}"
  let ?B = "(\<lambda>m. 8 * length bs + m) ` {m. m < 8 \<and> bit b m}"
  have "{n. n < 8 * length (bs @ [b]) \<and> bit ((bs @ [b]) ! (n div 8)) (n mod 8)} = ?A \<union> ?B"
    (is "?L = _")
  proof (rule set_eqI)
    fix n
    show "n \<in> ?L \<longleftrightarrow> n \<in> ?A \<union> ?B"
    proof (cases "n < 8 * length bs")
      case True
      then have "n div 8 < length bs" by (simp add: less_mult_imp_div_less mult.commute)
      then show ?thesis using True by (auto simp: nth_append)
    next
      case False
      then obtain m where m: "n = 8 * length bs + m" using le_Suc_ex not_less by metis
      then show ?thesis by (cases "m < 8") (auto simp: nth_append)
    qed
  qed
  moreover have "?A \<inter> ?B = {}" by auto
  moreover have "card ?B = card {m. m < 8 \<and> bit b m}" by (rule card_image) (simp add: inj_on_def)
  ultimately show ?case using snoc by (simp add: card_Un_disjoint hweight8_card)
qed simp

lemma fold_sum_list: "fold (\<lambda>b n. n + f b) bs (k :: int) = k + sum_list (map f bs)"
  by (induction bs arbitrary: k) simp_all

lemma row_eq:
  assumes wf: "bits_wf dev" and b: "blk_valid dev blk"
  defines "off \<equiv> chunk_bit_stride dev * nat (blk - internal_start_block dev)"
  shows "row dev off = Some (take (chunk_bit_stride dev) (drop off (chunk_bits dev)))"
proof -
  have "0 < 8 * chunk_bit_stride dev" using wf unfolding bits_wf_def by arith
  from row_inside(2) [OF wf b this] show ?thesis by (simp add: row_def buf_read_def off_def)
qed

lemma finite_used_pages [simp]: "finite (used_pages dev blk)"
  by (rule finite_subset [of _ "{0..<chunks_per_block (param dev)}"]) (auto simp: used_pages_def)

lemma card_nat_used_pages: "card (nat ` used_pages dev blk) = card (used_pages dev blk)"
  by (rule card_image) (auto simp: inj_on_def used_pages_def)

lemma count_chunk_bits_card:
  assumes wf: "bits_wf dev" and b: "blk_valid dev blk"
  shows "yaffs_count_chunk_bits dev blk = Some (int (card (used_pages dev blk)))"
proof -
  let ?off = "chunk_bit_stride dev * nat (blk - internal_start_block dev)"
  let ?bs = "take (chunk_bit_stride dev) (drop ?off (chunk_bits dev))"
  let ?s = "chunk_bit_stride dev" and ?cpb = "chunks_per_block (param dev)"
  have pos: "0 < 8 * ?s" using wf unfolding bits_wf_def by arith
  have len: "length ?bs = ?s" using row_inside(2) [OF wf b pos] by simp
  have nth: "?bs ! (n div 8) = chunk_bits dev ! (?off + n div 8)" if "n < 8 * ?s" for n
    using that row_inside(2) [OF wf b pos] by (simp add: less_mult_imp_div_less mult.commute)
  have "{n. n < 8 * length ?bs \<and> bit (?bs ! (n div 8)) (n mod 8)} = {n. n < 8 * ?s \<and> row_bit dev blk n}"
    unfolding len using nth by (auto simp: row_bit_def)
  also have "\<dots> = nat ` used_pages dev blk"
  proof (rule set_eqI, rule iffI)
    fix n assume "n \<in> {n. n < 8 * ?s \<and> row_bit dev blk n}"
    then have n: "n < 8 * ?s" "row_bit dev blk n" by auto
    have "n < nat ?cpb" using wf b n unfolding bits_wf_def by (meson not_less)
    then have "int n \<in> used_pages dev blk" using n by (simp add: used_pages_def chunk_in_use_def)
    then show "n \<in> nat ` used_pages dev blk" by force
  next
    fix n assume "n \<in> nat ` used_pages dev blk"
    then obtain p where p: "p \<in> used_pages dev blk" "n = nat p" by auto
    then have "nat p < 8 * ?s" using page_bit_inside [OF wf, of blk p] b
      by (simp add: used_pages_def page_valid_def)
    then show "n \<in> {n. n < 8 * ?s \<and> row_bit dev blk n}" using p by (simp add: used_pages_def chunk_in_use_def)
  qed
  finally have "card {n. n < 8 * length ?bs \<and> bit (?bs ! (n div 8)) (n mod 8)} = card (used_pages dev blk)"
    by (simp only: card_nat_used_pages)
  then show ?thesis
    using b row_eq [OF wf b] card_bits_rows [of ?bs]
    by (simp add: yaffs_count_chunk_bits_def yaffs_block_bits_def blk_valid_def fold_sum_list)
qed

lemma still_some_chunks_iff:
  assumes wf: "bits_wf dev" and b: "blk_valid dev blk"
  shows "yaffs_still_some_chunks dev blk = Some (used_pages dev blk \<noteq> {})"
proof -
  let ?off = "chunk_bit_stride dev * nat (blk - internal_start_block dev)"
  let ?bs = "take (chunk_bit_stride dev) (drop ?off (chunk_bits dev))"
  have z: "yaffs_hweight8 x = 0 \<longleftrightarrow> x = 0" for x :: u8
    by (auto simp: hweight8_card intro!: bit_word_eqI)
  have "0 \<le> yaffs_hweight8 x" for x :: u8 by (simp add: hweight8_card)
  then have "sum_list (map yaffs_hweight8 ?bs) = 0 \<longleftrightarrow> (\<forall>x \<in> set ?bs. yaffs_hweight8 x = 0)"
    by (subst sum_list_nonneg_eq_0_iff) auto
  moreover have "yaffs_count_chunk_bits dev blk = Some (sum_list (map yaffs_hweight8 ?bs))"
    using b row_eq [OF wf b]
    by (simp add: yaffs_count_chunk_bits_def yaffs_block_bits_def blk_valid_def fold_sum_list)
  ultimately have "(\<forall>x \<in> set ?bs. x = 0) \<longleftrightarrow> used_pages dev blk = {}"
    using count_chunk_bits_card [OF wf b] card_0_eq [OF finite_used_pages [of dev blk]] z
    by (metis of_nat_eq_0_iff option.inject)
  then show ?thesis
    using b row_eq [OF wf b]
    by (auto simp: yaffs_still_some_chunks_def yaffs_block_bits_def blk_valid_def list_ex_iff)
qed

lemma clear_chunk_bits_row:
  assumes wf: "bits_wf dev" and b: "blk_valid dev blk"
  shows "\<exists>bits. yaffs_clear_chunk_bits dev blk = Some (dev\<lparr>chunk_bits := bits\<rparr>) \<and>
    length bits = length (chunk_bits dev) \<and>
    (\<forall>b' n. blk_valid dev b' \<longrightarrow> n < 8 * chunk_bit_stride dev \<longrightarrow>
       row_bit (dev\<lparr>chunk_bits := bits\<rparr>) b' n = (row_bit dev b' n \<and> b' \<noteq> blk))"
proof -
  let ?s = "chunk_bit_stride dev" and ?st = "internal_start_block dev"
  let ?off = "?s * nat (blk - ?st)"
  let ?bits = "take ?off (chunk_bits dev) @ replicate ?s 0 @ drop (?off + ?s) (chunk_bits dev)"
  have "0 < 8 * ?s" using wf unfolding bits_wf_def by arith
  note inside = row_inside(2) [OF wf b this]
  have c: "yaffs_clear_chunk_bits dev blk = Some (dev\<lparr>chunk_bits := ?bits\<rparr>)"
    using b inside by (simp add: yaffs_clear_chunk_bits_def yaffs_block_bits_def blk_valid_def buf_write_def)
  have "row_bit (dev\<lparr>chunk_bits := ?bits\<rparr>) b' n = (row_bit dev b' n \<and> b' \<noteq> blk)"
    if b': "blk_valid dev b'" and n: "n < 8 * ?s" for b' n
  proof -
    let ?j = "?s * nat (b' - ?st) + n div 8"
    have j: "?j < length (chunk_bits dev)" by (rule row_inside(1) [OF wf b' n])
    have nd: "n div 8 < ?s" using n by (simp add: less_mult_imp_div_less mult.commute)
    show ?thesis
    proof (cases "b' = blk")
      case True
      then show ?thesis using nd inside by (simp add: row_bit_def nth_append)
    next
      case False
      have "nat (b' - ?st) \<noteq> nat (blk - ?st)" using False b b' unfolding blk_valid_def by auto
      then have "?j < ?off \<or> ?off + ?s \<le> ?j"
      proof (cases "nat (b' - ?st) < nat (blk - ?st)")
        case True
        then have "nat (b' - ?st) + 1 \<le> nat (blk - ?st)" by (simp only: Suc_eq_plus1 [symmetric] Suc_le_eq)
        then have "?s * (nat (b' - ?st) + 1) \<le> ?off" by (rule mult_le_mono2)
        then show ?thesis using nd by simp
      next
        case False
        then have "nat (blk - ?st) + 1 \<le> nat (b' - ?st)"
          using \<open>nat (b' - ?st) \<noteq> nat (blk - ?st)\<close> by arith
        then have "?s * (nat (blk - ?st) + 1) \<le> ?s * nat (b' - ?st)" by (intro mult_le_mono2)
        then show ?thesis by simp
      qed
      then have "?bits ! ?j = chunk_bits dev ! ?j" using inside j by (auto simp: nth_append)
      then show ?thesis using False by (simp add: row_bit_def)
    qed
  qed
  moreover have "length ?bits = length (chunk_bits dev)" using inside by simp
  ultimately show ?thesis using c by blast
qed

lemma clear_chunk_bits_law:
  assumes wf: "bits_wf dev" and b: "blk_valid dev blk"
  shows "\<exists>bits. yaffs_clear_chunk_bits dev blk = Some (dev\<lparr>chunk_bits := bits\<rparr>) \<and>
    bits_wf (dev\<lparr>chunk_bits := bits\<rparr>) \<and>
    (\<forall>b' c'. page_valid dev b' c' \<longrightarrow>
       chunk_in_use (dev\<lparr>chunk_bits := bits\<rparr>) b' c' = (chunk_in_use dev b' c' \<and> b' \<noteq> blk))"
proof -
  obtain bits where b: "yaffs_clear_chunk_bits dev blk = Some (dev\<lparr>chunk_bits := bits\<rparr>)"
    "length bits = length (chunk_bits dev)"
    "\<And>b' n. blk_valid dev b' \<Longrightarrow> n < 8 * chunk_bit_stride dev \<Longrightarrow>
       row_bit (dev\<lparr>chunk_bits := bits\<rparr>) b' n = (row_bit dev b' n \<and> b' \<noteq> blk)"
    using clear_chunk_bits_row [OF wf b] by blast
  have "blk_valid (dev\<lparr>chunk_bits := bits\<rparr>) = blk_valid dev" by (simp add: blk_valid_def fun_eq_iff)
  then have "bits_wf (dev\<lparr>chunk_bits := bits\<rparr>)"
    using wf b(2,3) by (simp add: bits_wf_def)
  moreover have "\<forall>b' c'. page_valid dev b' c' \<longrightarrow>
       chunk_in_use (dev\<lparr>chunk_bits := bits\<rparr>) b' c' = (chunk_in_use dev b' c' \<and> b' \<noteq> blk)"
    using page_bit_inside [OF wf] b(3) by (auto simp: chunk_in_use_def page_valid_def)
  ultimately show ?thesis using b(1) by blast
qed

section \<open>Properties\<close>

text \<open>
  setting the bit of one chunk and then checking any chunk of the device: the
  set one is in use, and every other one is as before.
\<close>

theorem set_chunk_bit_then_check:
  assumes "bits_wf dev" and "yaffs_set_chunk_bit dev blk chunk = Some dev'"
    and "page_valid dev blk' chunk'"
  shows "yaffs_check_chunk_bit dev' blk' chunk' =
     (if blk' = blk \<and> chunk' = chunk then Some True else yaffs_check_chunk_bit dev blk' chunk')"
  using bitmap.check_after_set [OF assms] bitmap.check_law [OF assms(1,3)] by simp

text \<open>A device with two blocks of twelve chunks.\<close>

definition sample_dev :: "unit yaffs_dev" where
  "sample_dev = (zero_dev (zero_param\<lparr>chunks_per_block := 12, end_block := 2, start_block := 1\<rparr>) ())\<lparr>
     internal_start_block := 1, internal_end_block := 2, chunk_bit_stride := 2,
     chunk_bits := [0, 0, 5, 8], data_bytes_per_chunk := 512\<rparr>"

lemma sample_dev_wf: "bits_wf sample_dev"
proof -
  have "\<not> row_bit sample_dev blk n" if "blk_valid sample_dev blk" "12 \<le> n" "n < 16" for blk n
  proof -
    have "blk = 1 \<or> blk = 2" using that(1) by (auto simp: blk_valid_def sample_dev_def zero_dev_def)
    moreover have "n = 12 \<or> n = 13 \<or> n = 14 \<or> n = 15" using that(2,3) by arith
    ultimately show ?thesis
      by (elim disjE; simp add: row_bit_def sample_dev_def zero_dev_def)
  qed
  then show ?thesis by (simp add: bits_wf_def sample_dev_def zero_dev_def zero_param_def)
qed

theorem set_chunk_bit_then_check_witness:
  "yaffs_check_chunk_bit (the (yaffs_set_chunk_bit sample_dev 2 9)) 2 11 =
     (if (2::int) = 2 \<and> (11::int) = 9 then Some True else yaffs_check_chunk_bit sample_dev 2 11)"
proof (rule set_chunk_bit_then_check [OF sample_dev_wf])
  have v: "page_valid sample_dev 2 9" "page_valid sample_dev 2 11"
    by (simp_all add: page_valid_def blk_valid_def sample_dev_def zero_dev_def zero_param_def)
  show "yaffs_set_chunk_bit sample_dev 2 9 = Some (the (yaffs_set_chunk_bit sample_dev 2 9))"
    by (simp add: chunk_bit_ops [OF sample_dev_wf v(1)])
  show "page_valid sample_dev 2 11" by (rule v)
qed

text \<open>
  \<^verbatim>\<open>yaffs_count_chunk_bits\<close> counts the chunks in use of the block, and
  \<^verbatim>\<open>yaffs_still_some_chunks\<close> says whether there are any.
\<close>

theorem chunk_bits_counted:
  assumes "bits_wf dev" and "blk_valid dev blk"
  shows "yaffs_count_chunk_bits dev blk = Some (int (card (used_pages dev blk))) \<and>
     yaffs_still_some_chunks dev blk = Some (used_pages dev blk \<noteq> {})"
  using count_chunk_bits_card [OF assms] still_some_chunks_iff [OF assms] by simp

theorem chunk_bits_counted_witness:
  "yaffs_count_chunk_bits sample_dev 2 = Some (int (card (used_pages sample_dev 2))) \<and>
     yaffs_still_some_chunks sample_dev 2 = Some (used_pages sample_dev 2 \<noteq> {})"
  by (rule chunk_bits_counted [OF sample_dev_wf])
    (simp add: blk_valid_def sample_dev_def zero_dev_def)

end
