(* ===== verification/Yaffs_Blocks.thy ===== *)
theory Yaffs_Blocks
  imports Yaffs_Bitmap
begin

text \<open>
  The block table and the allocator of chunks (core/yaffs_guts.c), the oldest dirty
  block and the space kept for a checkpoint (core/yaffs_yaffs2.c), and the erasure
  of checkpoint blocks (core/yaffs_checkptrw.c).

  A pointer to an entry of \<^verbatim>\<open>dev->block_info\<close> is the number of its block.  The table
  has one entry per block, so the loops of the code over the blocks of the device
  are recursions over the table.
\<close>

section \<open>The block table\<close>

definition bi_index :: "'n yaffs_dev \<Rightarrow> int \<Rightarrow> nat" where
  "bi_index dev blk = nat (blk - internal_start_block dev)"

definition yaffs_get_block_info :: "'n yaffs_dev \<Rightarrow> int \<Rightarrow> yaffs_block_info option" where
  "yaffs_get_block_info dev blk =
     (if blk < internal_start_block dev \<or> blk > internal_end_block dev then None
      else if bi_index dev blk < length (block_info dev) then Some (block_info dev ! bi_index dev blk)
      else None)"

text \<open>An assignment through a pointer that \<^verbatim>\<open>yaffs_get_block_info\<close> returned.\<close>

definition upd_block_info ::
    "'n yaffs_dev \<Rightarrow> int \<Rightarrow> (yaffs_block_info \<Rightarrow> yaffs_block_info) \<Rightarrow> 'n yaffs_dev option" where
  "upd_block_info dev blk f =
     do { bi \<leftarrow> yaffs_get_block_info dev blk;
          Some (dev\<lparr>block_info := (block_info dev)[bi_index dev blk := f bi]\<rparr>) }"

definition n_blocks :: "'n yaffs_dev \<Rightarrow> nat" where
  "n_blocks dev = nat (internal_end_block dev - internal_start_block dev + 1)"

text \<open>
  \<^verbatim>\<open>yaffs_init_blocks\<close>; the booleans say whether the two allocations succeed (with
  either allocator).
\<close>

definition yaffs_deinit_blocks :: "'n yaffs_dev \<Rightarrow> 'n yaffs_dev" where
  "yaffs_deinit_blocks dev = dev\<lparr>block_info := [], chunk_bits := []\<rparr>"

definition yaffs_init_blocks :: "bool \<Rightarrow> bool \<Rightarrow> 'n yaffs_dev \<Rightarrow> int \<times> 'n yaffs_dev" where
  "yaffs_init_blocks info_ok bits_ok dev =
     (let dev = dev\<lparr>block_info := [], chunk_bits := [], alloc_block := -1\<rparr> in
      if \<not> info_ok then (YAFFS_FAIL, yaffs_deinit_blocks dev)
      else
        let dev = dev\<lparr>chunk_bit_stride := nat ((chunks_per_block (param dev) + 7) div 8)\<rparr> in
        if \<not> bits_ok then (YAFFS_FAIL, yaffs_deinit_blocks dev)
        else (YAFFS_OK, dev\<lparr>block_info := replicate (n_blocks dev) zero_block_info,
                            chunk_bits := replicate (chunk_bit_stride dev * n_blocks dev) 0\<rparr>))"

section \<open>Counting free chunks\<close>

definition counted_state :: "yaffs_block_state \<Rightarrow> bool" where
  "counted_state s \<longleftrightarrow> s = YAFFS_BLOCK_STATE_EMPTY \<or> s = YAFFS_BLOCK_STATE_ALLOCATING \<or>
     s = YAFFS_BLOCK_STATE_COLLECTING \<or> s = YAFFS_BLOCK_STATE_FULL"

fun count_free_loop :: "int \<Rightarrow> yaffs_block_info list \<Rightarrow> int \<Rightarrow> int" where
  "count_free_loop cpb [] n_free = n_free"
| "count_free_loop cpb (blk # bs) n_free =
     count_free_loop cpb bs
       (if counted_state (block_state blk) then n_free + (cpb - pages_in_use blk + soft_del_pages blk)
        else n_free)"

definition yaffs_count_free_chunks :: "'n yaffs_dev \<Rightarrow> int" where
  "yaffs_count_free_chunks dev = count_free_loop (chunks_per_block (param dev)) (block_info dev) 0"

section \<open>The oldest dirty block\<close>

text \<open>The cast to u32 makes a negative number of live pages a huge one.\<close>

definition live_pages_below :: "yaffs_block_info \<Rightarrow> int \<Rightarrow> bool" where
  "live_pages_below b n \<longleftrightarrow> 0 \<le> pages_in_use b - soft_del_pages b \<and> pages_in_use b - soft_del_pages b < n"

fun oldest_dirty_loop :: "int \<Rightarrow> yaffs_block_info list \<Rightarrow> int \<Rightarrow> u32 \<Rightarrow> int \<Rightarrow> u32 \<times> int" where
  "oldest_dirty_loop cpb [] i seq block_no = (seq, block_no)"
| "oldest_dirty_loop cpb (b # bs) i seq block_no =
     (if block_state b = YAFFS_BLOCK_STATE_FULL \<and> live_pages_below b cpb \<and> bi_seq_number b < seq
      then oldest_dirty_loop cpb bs (i + 1) (bi_seq_number b) i
      else oldest_dirty_loop cpb bs (i + 1) seq block_no)"

definition yaffs_calc_oldest_dirty_seq :: "'n yaffs_dev \<Rightarrow> 'n yaffs_dev" where
  "yaffs_calc_oldest_dirty_seq dev =
     (if \<not> is_yaffs2 (param dev) then dev
      else let (seq, block_no) = oldest_dirty_loop (chunks_per_block (param dev)) (block_info dev)
                 (internal_start_block dev) (dev_seq_number dev + 1) 0
           in if block_no \<noteq> 0 then dev\<lparr>oldest_dirty_seq := seq, oldest_dirty_block := block_no\<rparr> else dev)"

definition yaffs2_find_oldest_dirty_seq :: "'n yaffs_dev \<Rightarrow> 'n yaffs_dev" where
  "yaffs2_find_oldest_dirty_seq dev =
     (if \<not> is_yaffs2 (param dev) then dev
      else if oldest_dirty_seq dev = 0 then yaffs_calc_oldest_dirty_seq dev else dev)"

text \<open>The pointer to the block information is NULL or an entry.\<close>

definition yaffs2_clear_oldest_dirty_seq ::
    "'n yaffs_dev \<Rightarrow> yaffs_block_info option \<Rightarrow> 'n yaffs_dev" where
  "yaffs2_clear_oldest_dirty_seq dev bi =
     (if \<not> is_yaffs2 (param dev) then dev
      else if (case bi of None \<Rightarrow> True | Some b \<Rightarrow> bi_seq_number b = oldest_dirty_seq dev)
      then dev\<lparr>oldest_dirty_seq := 0, oldest_dirty_block := 0\<rparr> else dev)"

definition yaffs2_update_oldest_dirty_seq ::
    "'n yaffs_dev \<Rightarrow> int \<Rightarrow> yaffs_block_info \<Rightarrow> 'n yaffs_dev" where
  "yaffs2_update_oldest_dirty_seq dev block_no bi =
     (if \<not> is_yaffs2 (param dev) then dev
      else if oldest_dirty_seq dev \<noteq> 0 \<and> oldest_dirty_seq dev > bi_seq_number bi
      then dev\<lparr>oldest_dirty_seq := bi_seq_number bi, oldest_dirty_block := block_no\<rparr> else dev)"

definition yaffs_block_ok_for_gc :: "'n yaffs_dev \<Rightarrow> yaffs_block_info \<Rightarrow> bool \<times> 'n yaffs_dev" where
  "yaffs_block_ok_for_gc dev bi =
     (if \<not> is_yaffs2 (param dev) then (True, dev)
      else if \<not> has_shrink_hdr bi then (True, dev)
      else let dev = yaffs2_find_oldest_dirty_seq dev
           in (bi_seq_number bi \<le> oldest_dirty_seq dev, dev))"

fun refresh_loop :: "yaffs_block_info list \<Rightarrow> int \<Rightarrow> int \<Rightarrow> u32 \<Rightarrow> int" where
  "refresh_loop [] b oldest oldest_seq = oldest"
| "refresh_loop (bi # bs) b oldest oldest_seq =
     (if block_state bi = YAFFS_BLOCK_STATE_FULL \<and> (oldest < 1 \<or> bi_seq_number bi < oldest_seq)
      then refresh_loop bs (b + 1) b (bi_seq_number bi)
      else refresh_loop bs (b + 1) oldest oldest_seq)"

definition yaffs2_find_refresh_block :: "'n yaffs_dev \<Rightarrow> int \<times> 'n yaffs_dev" where
  "yaffs2_find_refresh_block dev =
     (let period = refresh_period (param dev) in
      if \<not> is_yaffs2 (param dev) then (0, dev)
      else if period < 10 then (0, dev)
      else
        let dev = (if refresh_skip dev > period then dev\<lparr>refresh_skip := period\<rparr> else dev) in
        if refresh_skip dev > 0 then (0, dev)
        else
          let dev = dev\<lparr>refresh_skip := period, refresh_count := refresh_count dev + 1\<rparr>
          in (refresh_loop (block_info dev) (internal_start_block dev) 0 0, dev))"

section \<open>Checkpoint blocks\<close>

definition YAFFS_CHECKPOINT_MIN_BLOCKS :: int where "YAFFS_CHECKPOINT_MIN_BLOCKS = 60"

definition yaffs2_checkpt_required :: "'n yaffs_dev \<Rightarrow> bool" where
  "yaffs2_checkpt_required dev =
     (if \<not> is_yaffs2 (param dev) then False
      else \<not> skip_checkpt_wr (param dev) \<and> \<not> read_only dev \<and>
        internal_end_block dev - internal_start_block dev + 1 \<ge> YAFFS_CHECKPOINT_MIN_BLOCKS)"

text \<open>
  The sizes of the structures: 16 bytes for the validity marker, 36 for the device,
  8 for a block, 32 for an object, 4 for a u32.
\<close>

definition yaffs_calc_checkpt_blocks_required :: "'n yaffs_dev \<Rightarrow> int \<times> 'n yaffs_dev" where
  "yaffs_calc_checkpt_blocks_required dev =
     (if \<not> is_yaffs2 (param dev) then (0, dev)
      else
        let dev = (if checkpoint_blocks_required dev = 0 \<and> yaffs2_checkpt_required dev then
              let dev_blocks = end_block (param dev) - start_block (param dev) + 1;
                  n_bytes = 16 + 36 + dev_blocks * 8 + dev_blocks * int (chunk_bit_stride dev) +
                    (32 + 4) * n_obj dev + (tnode_size dev + 4) * n_tnodes dev + 16 + 4
              in dev\<lparr>checkpoint_blocks_required :=
                    n_bytes div (int (data_bytes_per_chunk dev) * chunks_per_block (param dev)) + 3\<rparr>
            else dev);
            retval = checkpoint_blocks_required dev - blocks_in_checkpt dev
        in (if retval < 0 then 0 else retval, dev))"

definition apply_chunk_offset :: "'n yaffs_dev \<Rightarrow> int \<Rightarrow> int" where
  "apply_chunk_offset dev chunk = chunk - chunk_offset dev"

definition apply_block_offset :: "'n yaffs_dev \<Rightarrow> int \<Rightarrow> int" where
  "apply_block_offset dev block = block - block_offset dev"

text \<open>The body of the loop of \<^verbatim>\<open>yaffs_checkpt_erase\<close>, and the loop over the blocks from \<open>i\<close>.\<close>

definition checkpt_erase_block :: "'n yaffs_driver \<Rightarrow> 'n yaffs_dev \<Rightarrow> int \<Rightarrow> 'n yaffs_dev option" where
  "checkpt_erase_block drv dev i =
     do { bi \<leftarrow> yaffs_get_block_info dev i;
          let offset_i = apply_block_offset dev i;
          if block_state bi = YAFFS_BLOCK_STATE_CHECKPOINT then
            let dev = dev\<lparr>n_erasures := n_erasures dev + 1\<rparr>;
                (result, fl) = drv_erase_fn drv (flash dev) offset_i;
                dev = dev\<lparr>flash := fl\<rparr>
            in if result \<noteq> 0 then
                 do { dev \<leftarrow> upd_block_info dev i (\<lambda>bi. bi\<lparr>block_state := YAFFS_BLOCK_STATE_EMPTY\<rparr>);
                      Some (dev\<lparr>n_erased_blocks := n_erased_blocks dev + 1,
                               n_free_chunks := n_free_chunks dev + chunks_per_block (param dev)\<rparr>) }
               else
                 let (r, fl) = drv_mark_bad_fn drv (flash dev) offset_i
                 in upd_block_info (dev\<lparr>flash := fl\<rparr>) i
                      (\<lambda>bi. bi\<lparr>block_state := YAFFS_BLOCK_STATE_DEAD\<rparr>)
          else Some dev }"

fun checkpt_erase_loop :: "'n yaffs_driver \<Rightarrow> nat \<Rightarrow> int \<Rightarrow> 'n yaffs_dev \<Rightarrow> 'n yaffs_dev option" where
  "checkpt_erase_loop drv 0 i dev = Some dev"
| "checkpt_erase_loop drv (Suc n) i dev =
     do { dev \<leftarrow> checkpt_erase_block drv dev i; checkpt_erase_loop drv n (i + 1) dev }"

definition yaffs_checkpt_erase :: "'n yaffs_driver \<Rightarrow> 'n yaffs_dev \<Rightarrow> 'n yaffs_dev option" where
  "yaffs_checkpt_erase drv dev =
     do { dev \<leftarrow> checkpt_erase_loop drv (n_blocks dev) (internal_start_block dev) dev;
          Some (dev\<lparr>blocks_in_checkpt := 0\<rparr>) }"

text \<open>The call of \<^verbatim>\<open>sb_dirty_fn\<close>, which tells the operating system, has no effect here.\<close>

definition yaffs2_checkpt_invalidate :: "'n yaffs_driver \<Rightarrow> 'n yaffs_dev \<Rightarrow> 'n yaffs_dev option" where
  "yaffs2_checkpt_invalidate drv dev =
     (if is_checkpointed dev \<or> blocks_in_checkpt dev > 0
      then yaffs_checkpt_erase drv (dev\<lparr>is_checkpointed := False\<rparr>) else Some dev)"

section \<open>The allocator\<close>

definition yaffs_check_alloc_available :: "'n yaffs_dev \<Rightarrow> int \<Rightarrow> bool \<times> 'n yaffs_dev" where
  "yaffs_check_alloc_available dev n_chunks =
     (let reserved_blocks = n_reserved_blocks (param dev);
          (checkpt_blocks, dev) = yaffs_calc_checkpt_blocks_required dev;
          reserved_chunks = (reserved_blocks + checkpt_blocks) * chunks_per_block (param dev)
      in (n_free_chunks dev > reserved_chunks + n_chunks, dev))"

definition next_block :: "'n yaffs_dev \<Rightarrow> int \<Rightarrow> int" where
  "next_block dev f =
     (if f + 1 < internal_start_block dev \<or> f + 1 > internal_end_block dev
      then internal_start_block dev else f + 1)"

fun find_alloc_loop :: "nat \<Rightarrow> 'n yaffs_dev \<Rightarrow> (int \<times> 'n yaffs_dev) option" where
  "find_alloc_loop 0 dev = Some (-1, dev)"
| "find_alloc_loop (Suc n) dev =
     (let f = next_block dev (alloc_block_finder dev);
          dev = dev\<lparr>alloc_block_finder := f\<rparr>
      in do { bi \<leftarrow> yaffs_get_block_info dev f;
              if block_state bi = YAFFS_BLOCK_STATE_EMPTY then
                do { let dev = dev\<lparr>dev_seq_number := dev_seq_number dev + 1\<rparr>;
                     dev \<leftarrow> upd_block_info dev f (\<lambda>bi. bi\<lparr>block_state := YAFFS_BLOCK_STATE_ALLOCATING,
                                                        bi_seq_number := dev_seq_number dev\<rparr>);
                     Some (f, dev\<lparr>n_erased_blocks := n_erased_blocks dev - 1\<rparr>) }
              else find_alloc_loop n dev })"

definition yaffs_find_alloc_block :: "'n yaffs_dev \<Rightarrow> (int \<times> 'n yaffs_dev) option" where
  "yaffs_find_alloc_block dev =
     (if n_erased_blocks dev < 1 then Some (-1, dev) else find_alloc_loop (n_blocks dev) dev)"

text \<open>The chunk, or -1; the block of the chunk stands for \<^verbatim>\<open>*block_ptr\<close>.\<close>

definition yaffs_alloc_chunk :: "'n yaffs_dev \<Rightarrow> bool \<Rightarrow> (int \<times> int \<times> 'n yaffs_dev) option" where
  "yaffs_alloc_chunk dev use_reserver =
     do { dev \<leftarrow> (if alloc_block dev < 0 then
                   do { (b, dev) \<leftarrow> yaffs_find_alloc_block dev;
                        Some (dev\<lparr>alloc_block := b, alloc_page := 0\<rparr>) }
                 else Some dev);
          let (avail, dev) = (if use_reserver then (True, dev) else yaffs_check_alloc_available dev 1);
          if \<not> avail then Some (-1, -1, dev)
          else if alloc_block dev \<ge> 0 then
            do { let blk = alloc_block dev;
                 let ret_val = blk * chunks_per_block (param dev) + alloc_page dev;
                 dev \<leftarrow> upd_block_info dev blk (\<lambda>bi. bi\<lparr>pages_in_use := s10 (pages_in_use bi + 1)\<rparr>);
                 dev \<leftarrow> yaffs_set_chunk_bit dev blk (alloc_page dev);
                 let dev = dev\<lparr>alloc_page := alloc_page dev + 1, n_free_chunks := n_free_chunks dev - 1\<rparr>;
                 if alloc_page dev \<ge> chunks_per_block (param dev) then
                   do { dev \<leftarrow> upd_block_info dev blk (\<lambda>bi. bi\<lparr>block_state := YAFFS_BLOCK_STATE_FULL\<rparr>);
                        Some (ret_val, blk, dev\<lparr>alloc_block := -1\<rparr>) }
                 else Some (ret_val, blk, dev) }
          else Some (-1, -1, dev) }"

definition yaffs_get_erased_chunks :: "'n yaffs_dev \<Rightarrow> int" where
  "yaffs_get_erased_chunks dev =
     (let n = n_erased_blocks dev * chunks_per_block (param dev)
      in if alloc_block dev > 0 then n + (chunks_per_block (param dev) - alloc_page dev) else n)"

definition yaffs_skip_rest_of_block :: "'n yaffs_dev \<Rightarrow> 'n yaffs_dev option" where
  "yaffs_skip_rest_of_block dev =
     (if alloc_block dev > 0 then
        do { bi \<leftarrow> yaffs_get_block_info dev (alloc_block dev);
             if block_state bi = YAFFS_BLOCK_STATE_ALLOCATING then
               do { dev \<leftarrow> upd_block_info dev (alloc_block dev)
                             (\<lambda>bi. bi\<lparr>block_state := YAFFS_BLOCK_STATE_FULL\<rparr>);
                    Some (dev\<lparr>alloc_block := -1\<rparr>) }
             else Some dev }
      else Some dev)"

text \<open>\<^verbatim>\<open>yaffs_soft_del_chunk\<close>.\<close>

definition yaffs_soft_del_chunk :: "'n yaffs_dev \<Rightarrow> int \<Rightarrow> 'n yaffs_dev option" where
  "yaffs_soft_del_chunk dev chunk =
     do { let block_no = chunk div chunks_per_block (param dev);
          dev \<leftarrow> upd_block_info dev block_no (\<lambda>bi. bi\<lparr>soft_del_pages := s10 (soft_del_pages bi + 1)\<rparr>);
          let dev = dev\<lparr>n_free_chunks := n_free_chunks dev + 1\<rparr>;
          bi \<leftarrow> yaffs_get_block_info dev block_no;
          Some (yaffs2_update_oldest_dirty_seq dev block_no bi) }"

text \<open>\<^verbatim>\<open>yaffs_get_n_free_chunks\<close>; the number of dirty caches is the cache manager's.\<close>

definition yaffs_get_n_free_chunks :: "'n yaffs_dev \<Rightarrow> int \<Rightarrow> int \<times> 'n yaffs_dev" where
  "yaffs_get_n_free_chunks dev n_dirty_caches =
     (let cpb = chunks_per_block (param dev);
          n_free = n_free_chunks dev + n_deleted_files dev - n_dirty_caches -
            (n_reserved_blocks (param dev) + 1) * cpb;
          (blocks_for_checkpt, dev) = yaffs_calc_checkpt_blocks_required dev;
          n_free = n_free - blocks_for_checkpt * cpb
      in (if n_free < 0 then 0 else n_free, dev))"

text \<open>\<^verbatim>\<open>yaffs_count_blocks_by_state\<close>: ten counters, by the number of the state.\<close>

fun block_state_code :: "yaffs_block_state \<Rightarrow> nat" where
  "block_state_code YAFFS_BLOCK_STATE_UNKNOWN = 0"
| "block_state_code YAFFS_BLOCK_STATE_SCANNING = 1"
| "block_state_code YAFFS_BLOCK_STATE_NEEDS_SCAN = 2"
| "block_state_code YAFFS_BLOCK_STATE_EMPTY = 3"
| "block_state_code YAFFS_BLOCK_STATE_ALLOCATING = 4"
| "block_state_code YAFFS_BLOCK_STATE_FULL = 5"
| "block_state_code YAFFS_BLOCK_STATE_DIRTY = 6"
| "block_state_code YAFFS_BLOCK_STATE_CHECKPOINT = 7"
| "block_state_code YAFFS_BLOCK_STATE_COLLECTING = 8"
| "block_state_code YAFFS_BLOCK_STATE_DEAD = 9"

definition yaffs_count_blocks_by_state :: "'n yaffs_dev \<Rightarrow> int list" where
  "yaffs_count_blocks_by_state dev =
     fold (\<lambda>bi bs. let s = block_state_code (block_state bi) in bs[s := bs ! s + 1])
       (block_info dev) (replicate 10 0)"

end
