(* ===== verification/Yaffs_Block_Inv.thy ===== *)
theory Yaffs_Block_Inv
  imports Yaffs_Blocks
begin

text \<open>
  The invariant of the block table, the chunk bitmap and the free space counters:
  \<open>dev_inv\<close> says that every block's page count is the number of its bits, that
  \<^verbatim>\<open>n_free_chunks\<close> is what \<^verbatim>\<open>yaffs_count_free_chunks\<close> would count, that
  \<^verbatim>\<open>n_erased_blocks\<close> is the number of empty blocks, and that the allocation block is the
  one block being allocated, with nothing in use from the allocation page on.
  \<open>dev_inv_change\<close> re-establishes it after the change of one block.
\<close>


section \<open>Entries and totals of the block table\<close>

definition bi_of :: "'n yaffs_dev \<Rightarrow> int \<Rightarrow> yaffs_block_info" where
  "bi_of dev blk = block_info dev ! bi_index dev blk"

definition put_bi :: "'n yaffs_dev \<Rightarrow> int \<Rightarrow> yaffs_block_info \<Rightarrow> 'n yaffs_dev" where
  "put_bi dev blk bi = dev\<lparr>block_info := (block_info dev)[bi_index dev blk := bi]\<rparr>"

definition total :: "(yaffs_block_info \<Rightarrow> int) \<Rightarrow> 'n yaffs_dev \<Rightarrow> int" where
  "total f dev = sum_list (map f (block_info dev))"

definition free_of :: "int \<Rightarrow> yaffs_block_info \<Rightarrow> int" where
  "free_of cpb bi = (if counted_state (block_state bi) then cpb - pages_in_use bi + soft_del_pages bi else 0)"

definition empty_of :: "yaffs_block_info \<Rightarrow> int" where
  "empty_of bi = of_bool (block_state bi = YAFFS_BLOCK_STATE_EMPTY)"

definition table_wf :: "'n yaffs_dev \<Rightarrow> bool" where
  "table_wf dev \<longleftrightarrow> length (block_info dev) = n_blocks dev"

lemma bi_index_less:
  "table_wf dev \<Longrightarrow> blk_valid dev blk \<Longrightarrow> bi_index dev blk < length (block_info dev)"
  unfolding table_wf_def blk_valid_def bi_index_def n_blocks_def by arith

lemma get_block_info_valid:
  "table_wf dev \<Longrightarrow> blk_valid dev blk \<Longrightarrow> yaffs_get_block_info dev blk = Some (bi_of dev blk)"
  using bi_index_less [of dev blk] by (simp add: yaffs_get_block_info_def bi_of_def blk_valid_def)

lemma get_block_info_invalid: "\<not> blk_valid dev blk \<Longrightarrow> yaffs_get_block_info dev blk = None"
  by (auto simp: yaffs_get_block_info_def blk_valid_def)

lemma upd_block_info_valid:
  "table_wf dev \<Longrightarrow> blk_valid dev blk \<Longrightarrow> upd_block_info dev blk f = Some (put_bi dev blk (f (bi_of dev blk)))"
  by (simp add: upd_block_info_def get_block_info_valid put_bi_def)

lemma put_bi_fields [simp]:
  "param (put_bi dev b x) = param dev" "internal_start_block (put_bi dev b x) = internal_start_block dev"
  "internal_end_block (put_bi dev b x) = internal_end_block dev" "chunk_bits (put_bi dev b x) = chunk_bits dev"
  "chunk_bit_stride (put_bi dev b x) = chunk_bit_stride dev" "alloc_block (put_bi dev b x) = alloc_block dev"
  "alloc_page (put_bi dev b x) = alloc_page dev" "n_free_chunks (put_bi dev b x) = n_free_chunks dev"
  "n_erased_blocks (put_bi dev b x) = n_erased_blocks dev" "flash (put_bi dev b x) = flash dev"
  "dev_seq_number (put_bi dev b x) = dev_seq_number dev"
  "alloc_block_finder (put_bi dev b x) = alloc_block_finder dev"
  by (simp_all add: put_bi_def)

lemma put_bi_valid [simp]:
  "blk_valid (put_bi dev b x) = blk_valid dev" "page_valid (put_bi dev b x) = page_valid dev"
  "table_wf (put_bi dev b x) = table_wf dev" "bits_wf (put_bi dev b x) = bits_wf dev"
  "chunk_in_use (put_bi dev b x) = chunk_in_use dev" "used_pages (put_bi dev b x) = used_pages dev"
  "row_bit (put_bi dev b x) = row_bit dev" "n_blocks (put_bi dev b x) = n_blocks dev"
proof -
  show r: "row_bit (put_bi dev b x) = row_bit dev" by (simp add: row_bit_def fun_eq_iff)
  show v: "blk_valid (put_bi dev b x) = blk_valid dev" by (simp add: blk_valid_def fun_eq_iff)
  then show "page_valid (put_bi dev b x) = page_valid dev" by (simp add: page_valid_def fun_eq_iff)
  show "bits_wf (put_bi dev b x) = bits_wf dev" by (simp add: bits_wf_def r v)
  show "chunk_in_use (put_bi dev b x) = chunk_in_use dev" by (simp add: chunk_in_use_def r fun_eq_iff)
  then show "used_pages (put_bi dev b x) = used_pages dev" by (simp add: used_pages_def fun_eq_iff)
  show "table_wf (put_bi dev b x) = table_wf dev" by (simp add: table_wf_def n_blocks_def put_bi_def)
  show "n_blocks (put_bi dev b x) = n_blocks dev" by (simp add: n_blocks_def)
qed

lemma bi_index_inj:
  "blk_valid dev b \<Longrightarrow> blk_valid dev c \<Longrightarrow> bi_index dev b = bi_index dev c \<longleftrightarrow> b = c"
  unfolding blk_valid_def bi_index_def by auto

lemma bi_of_put [simp]:
  assumes "table_wf dev" and "blk_valid dev b" and "blk_valid dev c"
  shows "bi_of (put_bi dev b x) c = (if c = b then x else bi_of dev c)"
  using assms bi_index_less [OF assms(1,2)] bi_index_inj [OF assms(2,3)]
  by (auto simp: bi_of_def put_bi_def nth_list_update bi_index_def)

lemma sum_list_update_int:
  "k < length xs \<Longrightarrow> sum_list (map f (xs[k := x])) = sum_list (map f xs) - f (xs ! k) + (f x :: int)"
proof (induction xs arbitrary: k)
  case (Cons a xs)
  then show ?case by (cases k) simp_all
qed simp

lemma total_put:
  assumes "table_wf dev" and "blk_valid dev b"
  shows "total f (put_bi dev b x) = total f dev - f (bi_of dev b) + f x"
  using bi_index_less [OF assms] by (simp add: total_def put_bi_def bi_of_def sum_list_update_int)

lemma count_free_loop_sum: "count_free_loop cpb bs n = n + sum_list (map (free_of cpb) bs)"
  by (induction bs arbitrary: n) (simp_all add: free_of_def)

lemma count_free_chunks_total:
  "yaffs_count_free_chunks dev = total (free_of (chunks_per_block (param dev))) dev"
  by (simp add: yaffs_count_free_chunks_def count_free_loop_sum total_def)

section \<open>The invariant\<close>

text \<open>
  What one block keeps: its page count is the number of its bits that are set, and the
  soft deleted pages are among them.
\<close>

definition blk_inv :: "'n yaffs_dev \<Rightarrow> int \<Rightarrow> bool" where
  "blk_inv dev blk \<longleftrightarrow>
     pages_in_use (bi_of dev blk) = int (card (used_pages dev blk)) \<and>
     0 \<le> soft_del_pages (bi_of dev blk) \<and>
     soft_del_pages (bi_of dev blk) \<le> pages_in_use (bi_of dev blk) \<and>
     (block_state (bi_of dev blk) = YAFFS_BLOCK_STATE_EMPTY \<or>
      block_state (bi_of dev blk) = YAFFS_BLOCK_STATE_CHECKPOINT \<longrightarrow>
        used_pages dev blk = {} \<and> soft_del_pages (bi_of dev blk) = 0) \<and>
     (block_state (bi_of dev blk) = YAFFS_BLOCK_STATE_ALLOCATING \<longrightarrow> blk = alloc_block dev)"

definition alloc_inv :: "'n yaffs_dev \<Rightarrow> bool" where
  "alloc_inv dev \<longleftrightarrow> (alloc_block dev \<ge> 0 \<longrightarrow>
     blk_valid dev (alloc_block dev) \<and>
     block_state (bi_of dev (alloc_block dev)) = YAFFS_BLOCK_STATE_ALLOCATING \<and>
     0 \<le> alloc_page dev \<and> alloc_page dev < chunks_per_block (param dev) \<and>
     (\<forall>p \<in> used_pages dev (alloc_block dev). p < alloc_page dev))"

text \<open>Block 0 is never used (\<^verbatim>\<open>yaffs_guts_ll_init\<close> offsets a device that starts there).\<close>

definition dev_inv :: "'n yaffs_dev \<Rightarrow> bool" where
  "dev_inv dev \<longleftrightarrow> bits_wf dev \<and> table_wf dev \<and> 0 < internal_start_block dev \<and>
     (\<forall>blk. blk_valid dev blk \<longrightarrow> blk_inv dev blk) \<and> alloc_inv dev \<and>
     n_free_chunks dev = yaffs_count_free_chunks dev \<and>
     n_erased_blocks dev = total empty_of dev"

lemma dev_invD:
  assumes "dev_inv dev"
  shows "bits_wf dev" "table_wf dev" "0 < internal_start_block dev"
    "\<And>blk. blk_valid dev blk \<Longrightarrow> blk_inv dev blk" "alloc_inv dev"
    "n_free_chunks dev = yaffs_count_free_chunks dev" "n_erased_blocks dev = total empty_of dev"
  using assms by (simp_all add: dev_inv_def)

text \<open>The same without the claim on the pages of the allocation block, which a summary writes.\<close>

definition weak_inv :: "'n yaffs_dev \<Rightarrow> bool" where
  "weak_inv dev \<longleftrightarrow> bits_wf dev \<and> table_wf dev \<and> 0 < internal_start_block dev \<and>
     (\<forall>blk. blk_valid dev blk \<longrightarrow> blk_inv dev blk) \<and>
     (alloc_block dev \<ge> 0 \<longrightarrow> blk_valid dev (alloc_block dev) \<and>
        block_state (bi_of dev (alloc_block dev)) = YAFFS_BLOCK_STATE_ALLOCATING) \<and>
     n_free_chunks dev = yaffs_count_free_chunks dev \<and>
     n_erased_blocks dev = total empty_of dev"

lemma dev_inv_weak: "dev_inv dev \<longleftrightarrow> weak_inv dev \<and> alloc_inv dev"
  by (auto simp: dev_inv_def weak_inv_def alloc_inv_def)

lemma weak_invD:
  assumes "weak_inv dev"
  shows "bits_wf dev" "table_wf dev" "0 < internal_start_block dev"
    "\<And>blk. blk_valid dev blk \<Longrightarrow> blk_inv dev blk"
    "alloc_block dev \<ge> 0 \<Longrightarrow> blk_valid dev (alloc_block dev)"
    "alloc_block dev \<ge> 0 \<Longrightarrow> block_state (bi_of dev (alloc_block dev)) = YAFFS_BLOCK_STATE_ALLOCATING"
    "n_free_chunks dev = yaffs_count_free_chunks dev" "n_erased_blocks dev = total empty_of dev"
  using assms by (simp_all add: weak_inv_def)

lemma used_pages_subset: "used_pages dev blk \<subseteq> {0..<chunks_per_block (param dev)}"
  by (auto simp: used_pages_def)

lemma used_pages_le: "0 < chunks_per_block (param dev) \<Longrightarrow>
    int (card (used_pages dev blk)) \<le> chunks_per_block (param dev)"
  using card_mono [OF _ used_pages_subset [of dev blk]] by simp

text \<open>Under the invariant the counts of a block stay in their bit fields.\<close>

lemma pages_fit:
  assumes "bits_wf dev" and "blk_inv dev blk"
  shows "0 \<le> pages_in_use (bi_of dev blk)" "pages_in_use (bi_of dev blk) \<le> 511"
    "s10 (pages_in_use (bi_of dev blk) - 1) = pages_in_use (bi_of dev blk) - 1"
    "soft_del_pages (bi_of dev blk) < pages_in_use (bi_of dev blk) \<Longrightarrow>
       s10 (soft_del_pages (bi_of dev blk) + 1) = soft_del_pages (bi_of dev blk) + 1"
  using assms used_pages_le [of dev blk] by (auto simp: bits_wf_def blk_inv_def intro!: s10_eq)

lemma pages_fit_more:
  assumes "bits_wf dev" and "blk_inv dev blk" and "page_valid dev blk p" and "p \<notin> used_pages dev blk"
  shows "s10 (pages_in_use (bi_of dev blk) + 1) = pages_in_use (bi_of dev blk) + 1"
proof (rule s10_eq)
  have "card (insert p (used_pages dev blk)) \<le> card {0..<chunks_per_block (param dev)}"
    using assms(3) used_pages_subset [of dev blk] by (intro card_mono) (auto simp: page_valid_def)
  then show "pages_in_use (bi_of dev blk) + 1 \<le> 511"
    using assms(1,2,4) by (simp add: bits_wf_def blk_inv_def) linarith
  show "-512 \<le> pages_in_use (bi_of dev blk) + 1" using pages_fit(1) [OF assms(1,2)] by linarith
qed

section \<open>Finding an erased block\<close>

lemma next_block_valid:
  "internal_start_block dev \<le> internal_end_block dev \<Longrightarrow> blk_valid dev (next_block dev f)"
  by (auto simp: next_block_def blk_valid_def)

text \<open>The blocks after \<open>f\<close> in the order of the search.\<close>

lemma next_block_reaches:
  assumes v: "blk_valid dev b" and f: "blk_valid dev f"
  shows "\<exists>k < n_blocks dev. (next_block dev ^^ k) f = b"
proof -
  let ?st = "internal_start_block dev" and ?en = "internal_end_block dev"
  have up: "(next_block dev ^^ k) c = c + int k" if "blk_valid dev c" "c + int k \<le> ?en" for k c
    using that
  proof (induction k)
    case (Suc k)
    then have "(next_block dev ^^ Suc k) c = next_block dev (c + int k)" by simp
    also have "\<dots> = c + int (Suc k)" using Suc.prems by (auto simp: next_block_def blk_valid_def)
    finally show ?case .
  qed simp
  show ?thesis
  proof (cases "f \<le> b")
    case True
    have "(next_block dev ^^ nat (b - f)) f = b" using up [OF f, of "nat (b - f)"] True v
      by (simp add: blk_valid_def)
    moreover have "nat (b - f) < n_blocks dev" using v f unfolding blk_valid_def n_blocks_def by arith
    ultimately show ?thesis by blast
  next
    case False
    let ?m = "nat (?en - f)"
    have "(next_block dev ^^ ?m) f = ?en" using up [OF f, of ?m] f by (simp add: blk_valid_def)
    then have m: "(next_block dev ^^ Suc ?m) f = ?st" by (simp add: next_block_def)
    have "blk_valid dev ?st" using f by (auto simp: blk_valid_def)
    then have "(next_block dev ^^ nat (b - ?st)) ?st = b"
      using up [of ?st "nat (b - ?st)"] v by (simp add: blk_valid_def)
    then have "(next_block dev ^^ (nat (b - ?st) + Suc ?m)) f = b"
      by (simp only: funpow_add o_apply m)
    moreover have "nat (b - ?st) + Suc ?m < n_blocks dev"
      using v f False unfolding blk_valid_def n_blocks_def by arith
    ultimately show ?thesis by blast
  qed
qed

definition found_block :: "'n yaffs_dev \<Rightarrow> int \<Rightarrow> 'n yaffs_dev" where
  "found_block dev r =
     (let dev = dev\<lparr>alloc_block_finder := r, dev_seq_number := dev_seq_number dev + 1\<rparr>
      in (put_bi dev r ((bi_of dev r)\<lparr>block_state := YAFFS_BLOCK_STATE_ALLOCATING,
                                      bi_seq_number := dev_seq_number dev\<rparr>))
           \<lparr>n_erased_blocks := n_erased_blocks dev - 1\<rparr>)"

lemma find_alloc_step:
  assumes "table_wf dev" and "internal_start_block dev \<le> internal_end_block dev"
  defines "f \<equiv> next_block dev (alloc_block_finder dev)"
  shows "find_alloc_loop (Suc n) dev =
     (if block_state (bi_of dev f) = YAFFS_BLOCK_STATE_EMPTY then Some (f, found_block dev f)
      else find_alloc_loop n (dev\<lparr>alloc_block_finder := f\<rparr>))"
proof -
  have v: "blk_valid dev f" unfolding f_def by (rule next_block_valid [OF assms(2)])
  let ?dev = "dev\<lparr>alloc_block_finder := f\<rparr>"
  let ?dev2 = "?dev\<lparr>dev_seq_number := dev_seq_number ?dev + 1\<rparr>"
  have t: "table_wf ?dev" "blk_valid ?dev f" and b: "bi_of ?dev f = bi_of dev f"
    using assms(1) v by (simp_all add: table_wf_def n_blocks_def blk_valid_def bi_of_def bi_index_def)
  have t2: "table_wf ?dev2" "blk_valid ?dev2 f"
    using assms(1) v by (simp_all add: table_wf_def n_blocks_def blk_valid_def)
  show ?thesis
    unfolding find_alloc_loop.simps Let_def f_def [symmetric]
      get_block_info_valid [OF t] upd_block_info_valid [OF t2] bind.bind_lunit b
    by (simp add: found_block_def Let_def)
qed

lemma table_wf_cong:
  "block_info d = block_info d' \<Longrightarrow> internal_start_block d = internal_start_block d' \<Longrightarrow>
   internal_end_block d = internal_end_block d' \<Longrightarrow> table_wf d = table_wf d'"
  by (simp add: table_wf_def n_blocks_def)

lemma finder_cong:
  "next_block (dev\<lparr>alloc_block_finder := f\<rparr>) = next_block dev" "bi_of (dev\<lparr>alloc_block_finder := f\<rparr>) = bi_of dev"
  "blk_valid (dev\<lparr>alloc_block_finder := f\<rparr>) = blk_valid dev" "table_wf (dev\<lparr>alloc_block_finder := f\<rparr>) = table_wf dev"
  by (simp_all add: next_block_def bi_of_def bi_index_def blk_valid_def table_wf_def n_blocks_def fun_eq_iff)

lemma found_block_finder: "found_block (dev\<lparr>alloc_block_finder := f\<rparr>) r = found_block dev r"
  by (simp add: found_block_def finder_cong)

lemma finder_self: "dev = dev\<lparr>alloc_block_finder := alloc_block_finder dev\<rparr>"
  by simp

lemma find_alloc_loop_cases:
  assumes "table_wf dev" and "internal_start_block dev \<le> internal_end_block dev"
  shows "(\<exists>f. find_alloc_loop n dev = Some (-1, dev\<lparr>alloc_block_finder := f\<rparr>) \<and>
      (\<forall>k < n. block_state (bi_of dev ((next_block dev ^^ Suc k) (alloc_block_finder dev)))
          \<noteq> YAFFS_BLOCK_STATE_EMPTY)) \<or>
    (\<exists>r. find_alloc_loop n dev = Some (r, found_block dev r) \<and> blk_valid dev r \<and>
      block_state (bi_of dev r) = YAFFS_BLOCK_STATE_EMPTY)"
  using assms
proof (induction n arbitrary: dev)
  case 0
  show ?case using finder_self by (metis find_alloc_loop.simps(1) not_less_zero)
next
  case (Suc n)
  let ?f = "next_block dev (alloc_block_finder dev)"
  let ?dev = "dev\<lparr>alloc_block_finder := ?f\<rparr>"
  note step = find_alloc_step [OF Suc.prems, of n]
  have v: "blk_valid dev ?f" by (rule next_block_valid [OF Suc.prems(2)])
  show ?case
  proof (cases "block_state (bi_of dev ?f) = YAFFS_BLOCK_STATE_EMPTY")
    case True
    then show ?thesis using step v by auto
  next
    case False
    have IH: "(\<exists>f. find_alloc_loop n ?dev = Some (-1, dev\<lparr>alloc_block_finder := f\<rparr>) \<and>
        (\<forall>k < n. block_state (bi_of dev ((next_block dev ^^ Suc k) ?f)) \<noteq> YAFFS_BLOCK_STATE_EMPTY)) \<or>
      (\<exists>r. find_alloc_loop n ?dev = Some (r, found_block dev r) \<and> blk_valid dev r \<and>
        block_state (bi_of dev r) = YAFFS_BLOCK_STATE_EMPTY)"
      using Suc.IH [of ?dev] Suc.prems by (simp add: finder_cong found_block_finder)
    have all: "block_state (bi_of dev ((next_block dev ^^ Suc k) (alloc_block_finder dev)))
          \<noteq> YAFFS_BLOCK_STATE_EMPTY"
      if "\<forall>k < n. block_state (bi_of dev ((next_block dev ^^ Suc k) ?f)) \<noteq> YAFFS_BLOCK_STATE_EMPTY"
        and "k < Suc n" for k
      using that False by (cases k) (simp_all add: funpow_swap1)
    from IH show ?thesis
    proof (elim disjE exE conjE)
      fix f assume "find_alloc_loop n ?dev = Some (-1, dev\<lparr>alloc_block_finder := f\<rparr>)"
        "\<forall>k < n. block_state (bi_of dev ((next_block dev ^^ Suc k) ?f)) \<noteq> YAFFS_BLOCK_STATE_EMPTY"
      then show ?thesis using all step False by (intro disjI1 exI [of _ f]) auto
    next
      fix r assume "find_alloc_loop n ?dev = Some (r, found_block dev r)" "blk_valid dev r"
        "block_state (bi_of dev r) = YAFFS_BLOCK_STATE_EMPTY"
      then show ?thesis using step False by (intro disjI2 exI [of _ r]) simp
    qed
  qed
qed

text \<open>With an empty block in the table the search finds one.\<close>

lemma find_alloc_loop_finds:
  assumes "table_wf dev" and "blk_valid dev b" and "block_state (bi_of dev b) = YAFFS_BLOCK_STATE_EMPTY"
  shows "\<exists>r. find_alloc_loop (n_blocks dev) dev = Some (r, found_block dev r) \<and> blk_valid dev r \<and>
      block_state (bi_of dev r) = YAFFS_BLOCK_STATE_EMPTY"
proof -
  have se: "internal_start_block dev \<le> internal_end_block dev" using assms(2) by (simp add: blk_valid_def)
  obtain k where k: "k < n_blocks dev" "(next_block dev ^^ k) (next_block dev (alloc_block_finder dev)) = b"
    using next_block_reaches [OF assms(2) next_block_valid [OF se]] by blast
  then have "(next_block dev ^^ Suc k) (alloc_block_finder dev) = b" by (simp add: funpow_swap1)
  then show ?thesis using find_alloc_loop_cases [OF assms(1) se, of "n_blocks dev"] k(1) assms(3) by metis
qed

lemma total_pos_obtain:
  assumes "table_wf dev" and "0 < total empty_of dev"
  obtains b where "blk_valid dev b" "block_state (bi_of dev b) = YAFFS_BLOCK_STATE_EMPTY"
proof -
  have "\<exists>bi \<in> set (block_info dev). block_state bi = YAFFS_BLOCK_STATE_EMPTY"
  proof (rule ccontr)
    assume "\<not> ?thesis"
    then have "\<forall>bi \<in> set (block_info dev). empty_of bi = 0" by (simp add: empty_of_def)
    then have "total empty_of dev = 0" by (simp add: total_def sum_list_0 cong: map_cong)
    with assms(2) show False by simp
  qed
  then obtain k where k: "k < length (block_info dev)"
      "block_state (block_info dev ! k) = YAFFS_BLOCK_STATE_EMPTY"
    by (metis in_set_conv_nth)
  let ?b = "internal_start_block dev + int k"
  have "blk_valid dev ?b" using k(1) assms(1) unfolding table_wf_def n_blocks_def blk_valid_def by arith
  moreover have "bi_of dev ?b = block_info dev ! k" by (simp add: bi_of_def bi_index_def)
  ultimately show ?thesis using that k(2) by simp
qed

section \<open>The allocator keeps the invariant\<close>

text \<open>The fields the invariant speaks about.\<close>

definition core :: "'n yaffs_dev \<Rightarrow> _" where
  "core dev = (block_info dev, chunk_bits dev, chunk_bit_stride dev, param dev, internal_start_block dev,
     internal_end_block dev, alloc_block dev, alloc_page dev, n_free_chunks dev, n_erased_blocks dev)"

lemma core_funs:
  assumes "core d = core d'"
  shows "bi_of d = bi_of d'" "blk_valid d = blk_valid d'" "row_bit d = row_bit d'"
    "chunk_in_use d = chunk_in_use d'" "used_pages d = used_pages d'" "page_valid d = page_valid d'"
    "bits_wf d = bits_wf d'" "table_wf d = table_wf d'" "total f d = total f d'"
proof -
  show 1: "bi_of d = bi_of d'" "blk_valid d = blk_valid d'" and 2: "row_bit d = row_bit d'"
    using assms by (simp_all add: core_def bi_of_def bi_index_def blk_valid_def row_bit_def fun_eq_iff)
  then show 3: "chunk_in_use d = chunk_in_use d'" by (simp add: chunk_in_use_def fun_eq_iff)
  then show "used_pages d = used_pages d'" "page_valid d = page_valid d'" "bits_wf d = bits_wf d'"
    "table_wf d = table_wf d'" "total f d = total f d'"
    using assms 1 2 by (simp_all add: core_def used_pages_def page_valid_def bits_wf_def table_wf_def
        n_blocks_def total_def fun_eq_iff)
qed

lemma core_inv: "core d = core d' \<Longrightarrow> dev_inv d = dev_inv d'"
  using core_funs [of d d']
  by (simp add: dev_inv_def alloc_inv_def blk_inv_def count_free_chunks_total) (simp add: core_def)

lemma free_total_put:
  assumes "table_wf dev" and "blk_valid dev b"
  shows "yaffs_count_free_chunks (put_bi dev b x) = yaffs_count_free_chunks dev
    - free_of (chunks_per_block (param dev)) (bi_of dev b) + free_of (chunks_per_block (param dev)) x"
  by (simp add: count_free_chunks_total total_put [OF assms])

lemma core_weak_inv: "core d = core d' \<Longrightarrow> weak_inv d = weak_inv d'"
  using core_funs [of d d']
  by (simp add: weak_inv_def blk_inv_def count_free_chunks_total) (simp add: core_def)

text \<open>What no operation on the table changes.\<close>

definition same_shape :: "'n yaffs_dev \<Rightarrow> 'n yaffs_dev \<Rightarrow> bool" where
  "same_shape dev dev' \<longleftrightarrow> param dev' = param dev \<and>
     internal_start_block dev' = internal_start_block dev \<and> internal_end_block dev' = internal_end_block dev \<and>
     data_bytes_per_chunk dev' = data_bytes_per_chunk dev \<and> temp_content dev' = temp_content dev \<and>
     chunks_per_summary dev' = chunks_per_summary dev \<and>
     map_option length (sum_tags dev') = map_option length (sum_tags dev) \<and>
     yaffs_wr_attempts dev' = yaffs_wr_attempts dev"

lemma same_shape_refl [simp]: "same_shape dev dev"
  by (simp add: same_shape_def)

lemma same_shape_trans: "same_shape d e \<Longrightarrow> same_shape e f \<Longrightarrow> same_shape d f"
  by (simp add: same_shape_def)

lemma same_shapeD:
  assumes "same_shape d e"
  shows "param e = param d" "blk_valid e = blk_valid d" "page_valid e = page_valid d" "n_blocks e = n_blocks d"
    "internal_start_block e = internal_start_block d" "internal_end_block e = internal_end_block d"
  using assms by (simp_all add: same_shape_def blk_valid_def page_valid_def n_blocks_def fun_eq_iff)

lemma put_bi_shape [simp]: "same_shape dev (put_bi dev b x)"
  by (simp add: same_shape_def put_bi_def)

lemma upd_block_info_frame:
  "upd_block_info dev b f = Some d \<Longrightarrow> same_shape dev d \<and> flash d = flash dev"
  by (auto simp: upd_block_info_def same_shape_def split: bind_splits)

lemma not_allocating:
  assumes "dev_inv dev" and "alloc_block dev < 0" and "blk_valid dev b"
  shows "block_state (bi_of dev b) \<noteq> YAFFS_BLOCK_STATE_ALLOCATING"
  using dev_invD(3) [OF assms(1)] dev_invD(4) [OF assms(1,3)] assms(2,3)
  by (auto simp: blk_inv_def blk_valid_def)

text \<open>
  To re-establish the invariant after a change of one entry and of the bitmap of its block.
\<close>

lemma weak_inv_change:
  assumes inv: "weak_inv dev" and b: "blk_valid dev b"
    and core: "core dev' = (block_info (put_bi dev b x), bits, chunk_bit_stride dev, param dev,
       internal_start_block dev, internal_end_block dev, ab, ap,
       n_free_chunks dev - free_of (chunks_per_block (param dev)) (bi_of dev b)
         + free_of (chunks_per_block (param dev)) x,
       n_erased_blocks dev - empty_of (bi_of dev b) + empty_of x)"
    and bits: "bits_wf dev'" "\<And>c. blk_valid dev c \<Longrightarrow> c \<noteq> b \<Longrightarrow> used_pages dev' c = used_pages dev c"
    and this_blk: "blk_inv dev' b"
    and others: "\<And>c. blk_valid dev c \<Longrightarrow> c \<noteq> b \<Longrightarrow>
       block_state (bi_of dev c) = YAFFS_BLOCK_STATE_ALLOCATING \<Longrightarrow> c = ab"
    and alloc: "ab \<ge> 0 \<longrightarrow> blk_valid dev' ab \<and> block_state (bi_of dev' ab) = YAFFS_BLOCK_STATE_ALLOCATING"
  shows "weak_inv dev'"
proof -
  note I = weak_invD [OF inv]
  have f: "block_info dev' = block_info (put_bi dev b x)" "param dev' = param dev"
    "internal_start_block dev' = internal_start_block dev" "internal_end_block dev' = internal_end_block dev"
    "alloc_block dev' = ab" "n_free_chunks dev' = n_free_chunks dev
       - free_of (chunks_per_block (param dev)) (bi_of dev b) + free_of (chunks_per_block (param dev)) x"
    "n_erased_blocks dev' = n_erased_blocks dev - empty_of (bi_of dev b) + empty_of x"
    using core by (simp_all add: core_def)
  have t: "table_wf dev'" using I(2) put_bi_valid(3) [of dev b x] f(1,3,4)
    by (simp add: table_wf_def n_blocks_def)
  have v: "blk_valid dev' = blk_valid dev" using f(3,4) by (simp add: blk_valid_def fun_eq_iff)
  have bo: "bi_of dev' c = (if c = b then x else bi_of dev c)" if "blk_valid dev c" for c
    using bi_of_put [OF I(2) b that, of x] f(1,3) by (simp add: bi_of_def bi_index_def)
  have tot: "total g dev' = total g dev - g (bi_of dev b) + g x" for g
    using total_put [OF I(2) b, of g x] f(1) by (simp add: total_def)
  have blk: "blk_inv dev' c" if "blk_valid dev c" for c
  proof (cases "c = b")
    case False
    then show ?thesis using I(4) [OF that] bo [OF that] bits(2) [OF that] others [OF that] f(5)
      by (auto simp: blk_inv_def)
  qed (simp add: this_blk)
  show ?thesis
    unfolding weak_inv_def
    using bits(1) t I(3,7,8) f blk alloc tot v by (simp add: count_free_chunks_total)
qed

lemma dev_inv_change:
  assumes inv: "dev_inv dev" and b: "blk_valid dev b"
    and core: "core dev' = (block_info (put_bi dev b x), bits, chunk_bit_stride dev, param dev,
       internal_start_block dev, internal_end_block dev, ab, ap,
       n_free_chunks dev - free_of (chunks_per_block (param dev)) (bi_of dev b)
         + free_of (chunks_per_block (param dev)) x,
       n_erased_blocks dev - empty_of (bi_of dev b) + empty_of x)"
    and bits: "bits_wf dev'" "\<And>c. blk_valid dev c \<Longrightarrow> c \<noteq> b \<Longrightarrow> used_pages dev' c = used_pages dev c"
    and this_blk: "blk_inv dev' b"
    and others: "\<And>c. blk_valid dev c \<Longrightarrow> c \<noteq> b \<Longrightarrow>
       block_state (bi_of dev c) = YAFFS_BLOCK_STATE_ALLOCATING \<Longrightarrow> c = ab"
    and alloc: "alloc_inv dev'"
  shows "dev_inv dev'"
proof -
  have ab: "alloc_block dev' = ab" using core by (simp add: core_def)
  have "weak_inv dev'"
    by (rule weak_inv_change [OF _ b core bits this_blk others])
      (use inv alloc ab in \<open>auto simp: dev_inv_weak alloc_inv_def\<close>)
  then show ?thesis using alloc by (simp add: dev_inv_weak)
qed

lemma found_block_inv:
  assumes inv: "dev_inv dev" and ab: "alloc_block dev < 0" and r: "blk_valid dev r"
    and e: "block_state (bi_of dev r) = YAFFS_BLOCK_STATE_EMPTY"
  shows "dev_inv ((found_block dev r)\<lparr>alloc_block := r, alloc_page := 0\<rparr>)"
proof -
  note I = dev_invD [OF inv]
  let ?x = "(bi_of dev r)\<lparr>block_state := YAFFS_BLOCK_STATE_ALLOCATING, bi_seq_number := dev_seq_number dev + 1\<rparr>"
  let ?d = "(found_block dev r)\<lparr>alloc_block := r, alloc_page := 0\<rparr>"
  have B: "blk_inv dev r" by (rule I(4) [OF r])
  have ru: "used_pages dev r = {}" "soft_del_pages (bi_of dev r) = 0" "pages_in_use (bi_of dev r) = 0"
    using B e by (simp_all add: blk_inv_def)
  have fr: "free_of cpb ?x = free_of cpb (bi_of dev r)" for cpb
    using e by (simp add: free_of_def counted_state_def)
  have em: "empty_of (bi_of dev r) = 1" "empty_of ?x = 0" using e by (simp_all add: empty_of_def)
  have bi: "block_info (found_block dev r) = block_info (put_bi dev r ?x)"
    by (simp add: found_block_def put_bi_def bi_of_def bi_index_def)
  have core: "core ?d = (block_info (put_bi dev r ?x), chunk_bits dev, chunk_bit_stride dev, param dev,
       internal_start_block dev, internal_end_block dev, r, 0, n_free_chunks dev
         - free_of (chunks_per_block (param dev)) (bi_of dev r) + free_of (chunks_per_block (param dev)) ?x,
       n_erased_blocks dev - empty_of (bi_of dev r) + empty_of ?x)"
    by (simp add: core_def bi fr em) (simp add: found_block_def Let_def)
  have same: "row_bit ?d = row_bit dev" "blk_valid ?d = blk_valid dev" "param ?d = param dev"
    "chunk_bit_stride ?d = chunk_bit_stride dev" "chunk_bits ?d = chunk_bits dev"
    "internal_start_block ?d = internal_start_block dev" "internal_end_block ?d = internal_end_block dev"
    by (simp_all add: found_block_def Let_def row_bit_def blk_valid_def fun_eq_iff)
  have up: "used_pages ?d = used_pages dev" by (simp add: used_pages_def chunk_in_use_def same fun_eq_iff)
  have bo: "bi_of ?d r = ?x"
    using bi_of_put [OF I(2) r r, of ?x] bi same(6) by (simp add: bi_of_def bi_index_def)
  show ?thesis
  proof (rule dev_inv_change [OF inv r core])
    show "bits_wf ?d" using I(1) by (simp add: bits_wf_def same)
    show "blk_inv ?d r" using B ru bo e by (simp add: blk_inv_def up)
    show "alloc_inv ?d" using r I(1) ru bo by (simp add: alloc_inv_def up same bits_wf_def)
    show "\<And>c. blk_valid dev c \<Longrightarrow> c \<noteq> r \<Longrightarrow>
        block_state (bi_of dev c) = YAFFS_BLOCK_STATE_ALLOCATING \<Longrightarrow> c = r"
      using not_allocating [OF inv ab] by blast
  qed (simp add: up)
qed

subsection \<open>One chunk of the allocation block\<close>

lemma find_alloc_block_cases:
  assumes inv: "dev_inv dev" and ab: "alloc_block dev < 0"
  shows "(yaffs_find_alloc_block dev = Some (-1, dev) \<and> n_erased_blocks dev = 0) \<or>
    (\<exists>r. yaffs_find_alloc_block dev = Some (r, found_block dev r) \<and> blk_valid dev r \<and>
       block_state (bi_of dev r) = YAFFS_BLOCK_STATE_EMPTY)"
proof -
  note I = dev_invD [OF inv]
  have nn: "0 \<le> total empty_of dev"
    unfolding total_def by (rule sum_list_nonneg) (auto simp: empty_of_def)
  show ?thesis
  proof (cases "n_erased_blocks dev < 1")
    case True
    then show ?thesis using nn I(7) by (simp add: yaffs_find_alloc_block_def)
  next
    case False
    then have "0 < total empty_of dev" using I(7) by simp
    then obtain b where "blk_valid dev b" "block_state (bi_of dev b) = YAFFS_BLOCK_STATE_EMPTY"
      by (rule total_pos_obtain [OF I(2)])
    from find_alloc_loop_finds [OF I(2) this] show ?thesis
      using False by (simp add: yaffs_find_alloc_block_def)
  qed
qed

text \<open>The device after the next page of the allocation block was taken.\<close>

definition take_page :: "'n yaffs_dev \<Rightarrow> (int \<times> int \<times> 'n yaffs_dev) option" where
  "take_page dev =
     do { let blk = alloc_block dev;
          let ret_val = blk * chunks_per_block (param dev) + alloc_page dev;
          dev \<leftarrow> upd_block_info dev blk (\<lambda>bi. bi\<lparr>pages_in_use := s10 (pages_in_use bi + 1)\<rparr>);
          dev \<leftarrow> yaffs_set_chunk_bit dev blk (alloc_page dev);
          let dev = dev\<lparr>alloc_page := alloc_page dev + 1, n_free_chunks := n_free_chunks dev - 1\<rparr>;
          if alloc_page dev \<ge> chunks_per_block (param dev) then
            do { dev \<leftarrow> upd_block_info dev blk (\<lambda>bi. bi\<lparr>block_state := YAFFS_BLOCK_STATE_FULL\<rparr>);
                 Some (ret_val, blk, dev\<lparr>alloc_block := -1\<rparr>) }
          else Some (ret_val, blk, dev) }"

lemma alloc_chunk_take_page:
  "yaffs_alloc_chunk dev use_reserver =
     do { dev \<leftarrow> (if alloc_block dev < 0 then
                   do { (b, dev) \<leftarrow> yaffs_find_alloc_block dev;
                        Some (dev\<lparr>alloc_block := b, alloc_page := 0\<rparr>) }
                 else Some dev);
          let (avail, dev) = (if use_reserver then (True, dev) else yaffs_check_alloc_available dev 1);
          if \<not> avail then Some (-1, -1, dev)
          else if alloc_block dev \<ge> 0 then take_page dev
          else Some (-1, -1, dev) }"
  unfolding yaffs_alloc_chunk_def take_page_def Let_def ..

lemma bits_put_more [simp]:
  "block_info (bits_put dev k c v) = block_info dev" "alloc_block (bits_put dev k c v) = alloc_block dev"
  "alloc_page (bits_put dev k c v) = alloc_page dev" "n_free_chunks (bits_put dev k c v) = n_free_chunks dev"
  "n_erased_blocks (bits_put dev k c v) = n_erased_blocks dev"
  "table_wf (bits_put dev k c v) = table_wf dev" "bi_of (bits_put dev k c v) = bi_of dev"
  "n_blocks (bits_put dev k c v) = n_blocks dev" "bi_index (bits_put dev k c v) = bi_index dev"
  by (simp_all add: bits_put_def table_wf_def n_blocks_def bi_of_def bi_index_def fun_eq_iff)

lemma used_pages_set:
  assumes wf: "bits_wf dev" and v: "page_valid dev blk p" and s: "yaffs_set_chunk_bit dev blk p = Some dev'"
    and b: "blk_valid dev b"
  shows "used_pages dev' b = (if b = blk then insert p (used_pages dev b) else used_pages dev b)"
proof -
  have d: "param dev' = param dev" using s by (auto simp: chunk_bit_ops [OF wf v])
  have u: "page_valid dev b c \<Longrightarrow> chunk_in_use dev' b c = (chunk_in_use dev b c \<or> (b = blk \<and> c = p))" for c
    using bitmap.set_law [OF wf v] s by auto
  show ?thesis using u v b d by (auto simp: used_pages_def page_valid_def)
qed

lemma used_pages_clear:
  assumes wf: "bits_wf dev" and v: "page_valid dev blk p" and s: "yaffs_clear_chunk_bit dev blk p = Some dev'"
    and b: "blk_valid dev b"
  shows "used_pages dev' b = (if b = blk then used_pages dev b - {p} else used_pages dev b)"
proof -
  have d: "param dev' = param dev" using s by (auto simp: chunk_bit_ops [OF wf v])
  have u: "page_valid dev b c \<Longrightarrow> chunk_in_use dev' b c = (chunk_in_use dev b c \<and> \<not> (b = blk \<and> c = p))" for c
    using bitmap.clear_law [OF wf v] s by auto
  show ?thesis using u v b d by (auto simp: used_pages_def page_valid_def)
qed

lemma take_page_eq:
  fixes dev :: "'n yaffs_dev"
  assumes inv: "dev_inv dev" and ab: "0 \<le> alloc_block dev"
  defines "b \<equiv> alloc_block dev" and "p \<equiv> alloc_page dev" and "cpb \<equiv> chunks_per_block (param dev)"
  defines "x \<equiv> (bi_of dev b)\<lparr>pages_in_use := pages_in_use (bi_of dev b) + 1,
      block_state := (if p + 1 \<ge> cpb then YAFFS_BLOCK_STATE_FULL else YAFFS_BLOCK_STATE_ALLOCATING)\<rparr>"
  obtains dev' bits where "take_page dev = Some (b * cpb + p, b, dev')"
    "yaffs_set_chunk_bit dev b p = Some (dev\<lparr>chunk_bits := bits\<rparr>)"
    "dev' = dev\<lparr>chunk_bits := bits, block_info := (block_info dev)[bi_index dev b := x],
       alloc_page := p + 1, n_free_chunks := n_free_chunks dev - 1,
       alloc_block := (if p + 1 \<ge> cpb then -1 else b)\<rparr>"
proof -
  note I = dev_invD [OF inv]
  have A: "blk_valid dev b" "block_state (bi_of dev b) = YAFFS_BLOCK_STATE_ALLOCATING" "page_valid dev b p"
      "p \<notin> used_pages dev b"
    using I(5) ab by (auto simp: alloc_inv_def b_def p_def page_valid_def)
  let ?y = "(bi_of dev b)\<lparr>pages_in_use := pages_in_use (bi_of dev b) + 1\<rparr>"
  let ?d1 = "put_bi dev b ?y"
  obtain off v where set1: "yaffs_set_chunk_bit ?d1 b p = Some (bits_put ?d1 off p v)"
      and set0: "yaffs_set_chunk_bit dev b p = Some (bits_put dev off p v)"
    using chunk_bit_ops(1) [OF I(1) A(3)] chunk_bit_ops(1) [of ?d1 b p] I(1) A(3) by simp
  let ?bits = "chunk_bits (bits_put dev off p v)"
  have u1: "upd_block_info dev b (\<lambda>bi. bi\<lparr>pages_in_use := s10 (pages_in_use bi + 1)\<rparr>) = Some ?d1"
    using upd_block_info_valid [OF I(2) A(1)] pages_fit_more [OF I(1) I(4) [OF A(1)] A(3,4)] by simp
  let ?d2 = "(bits_put ?d1 off p v)\<lparr>alloc_page := p + 1, n_free_chunks := n_free_chunks dev - 1\<rparr>"
  have t2: "table_wf ?d2" "blk_valid ?d2 b"
    using I(2) A(1) put_bi_valid(3) [of dev b ?y]
    by (simp_all add: table_wf_def n_blocks_def blk_valid_def)
  have bo2: "bi_of ?d2 b = ?y"
    using bi_of_put [OF I(2) A(1) A(1), of ?y] by (simp add: bi_of_def bi_index_def)
  have u2: "upd_block_info ?d2 b (\<lambda>bi. bi\<lparr>block_state := YAFFS_BLOCK_STATE_FULL\<rparr>) =
      Some (put_bi ?d2 b (?y\<lparr>block_state := YAFFS_BLOCK_STATE_FULL\<rparr>))"
    using upd_block_info_valid [OF t2] by (simp only: bo2)
  have tp: "take_page dev = (if p + 1 \<ge> cpb
      then Some (b * cpb + p, b, (put_bi ?d2 b (?y\<lparr>block_state := YAFFS_BLOCK_STATE_FULL\<rparr>))\<lparr>alloc_block := -1\<rparr>)
      else Some (b * cpb + p, b, ?d2))"
    using u1 set1 u2
    by (simp add: take_page_def Let_def b_def p_def cpb_def)
  show ?thesis
  proof (cases "p + 1 \<ge> cpb")
    case True
    show ?thesis
      by (rule that [OF _ _ refl, of ?bits])
        (use True tp set0 in \<open>simp_all add: bits_put_def put_bi_def x_def bi_index_def\<close>)
  next
    case False
    have xy: "x = ?y" using False A(2) by (simp add: x_def)
    show ?thesis
      by (rule that [OF _ _ refl, of ?bits])
        (use False tp set0 xy in \<open>simp_all add: bits_put_def put_bi_def bi_index_def b_def\<close>)
  qed
qed

lemma take_page_spec:
  assumes inv: "dev_inv dev" and ab: "0 \<le> alloc_block dev"
  defines "b \<equiv> alloc_block dev" and "p \<equiv> alloc_page dev" and "cpb \<equiv> chunks_per_block (param dev)"
  obtains dev' where "take_page dev = Some (b * cpb + p, b, dev')" "dev_inv dev'"
    "page_valid dev b p" "p \<notin> used_pages dev b"
    "\<And>c. blk_valid dev c \<Longrightarrow> used_pages dev' c = (if c = b then insert p (used_pages dev c) else used_pages dev c)"
    "n_free_chunks dev' = n_free_chunks dev - 1" "param dev' = param dev" "blk_valid dev' = blk_valid dev"
    "alloc_block dev' = (if p + 1 \<ge> cpb then -1 else b)" "alloc_page dev' = p + 1"
    "block_state (bi_of dev' b) = (if p + 1 \<ge> cpb then YAFFS_BLOCK_STATE_FULL else YAFFS_BLOCK_STATE_ALLOCATING)"
    "soft_del_pages (bi_of dev' b) < pages_in_use (bi_of dev' b)"
proof -
  note I = dev_invD [OF inv]
  have A: "blk_valid dev b" "block_state (bi_of dev b) = YAFFS_BLOCK_STATE_ALLOCATING" "0 \<le> p" "p < cpb"
      "\<And>q. q \<in> used_pages dev b \<Longrightarrow> q < p"
    using I(5) ab by (auto simp: alloc_inv_def b_def p_def cpb_def)
  have pv: "page_valid dev b p" using A by (simp add: page_valid_def cpb_def)
  let ?x = "(bi_of dev b)\<lparr>pages_in_use := pages_in_use (bi_of dev b) + 1,
      block_state := (if p + 1 \<ge> cpb then YAFFS_BLOCK_STATE_FULL else YAFFS_BLOCK_STATE_ALLOCATING)\<rparr>"
  obtain dev' bits where t: "take_page dev = Some (b * cpb + p, b, dev')"
    "yaffs_set_chunk_bit dev b p = Some (dev\<lparr>chunk_bits := bits\<rparr>)"
    "dev' = dev\<lparr>chunk_bits := bits, block_info := (block_info dev)[bi_index dev b := ?x],
       alloc_page := p + 1, n_free_chunks := n_free_chunks dev - 1,
       alloc_block := (if p + 1 \<ge> cpb then -1 else b)\<rparr>"
    using take_page_eq [OF inv ab] unfolding b_def p_def cpb_def by blast
  let ?s = "dev\<lparr>chunk_bits := bits\<rparr>"
  have same: "row_bit dev' = row_bit ?s" "param dev' = param dev" "blk_valid dev' = blk_valid dev"
    "chunk_bit_stride dev' = chunk_bit_stride dev" "chunk_bits dev' = bits"
    "internal_start_block dev' = internal_start_block dev" "internal_end_block dev' = internal_end_block dev"
    by (simp_all add: t(3) row_bit_def blk_valid_def fun_eq_iff)
  have up: "used_pages dev' c = (if c = b then insert p (used_pages dev c) else used_pages dev c)"
    if "blk_valid dev c" for c
    using used_pages_set [OF I(1) pv t(2) that] same by (simp add: used_pages_def chunk_in_use_def)
  have wf: "bits_wf dev'"
    using bitmap.set_law [OF I(1) pv] t(2) same by (auto simp: bits_wf_def blk_valid_def)
  have pn: "p \<notin> used_pages dev b" using A(5) by blast
  have B: "blk_inv dev b" by (rule I(4) [OF A(1)])
  have bo: "bi_of dev' b = ?x"
    using bi_index_less [OF I(2) A(1)] by (simp add: t(3) bi_of_def bi_index_def)
  have core: "core dev' = (block_info (put_bi dev b ?x), bits, chunk_bit_stride dev, param dev,
       internal_start_block dev, internal_end_block dev, (if p + 1 \<ge> cpb then -1 else b), p + 1,
       n_free_chunks dev - free_of (chunks_per_block (param dev)) (bi_of dev b)
         + free_of (chunks_per_block (param dev)) ?x,
       n_erased_blocks dev - empty_of (bi_of dev b) + empty_of ?x)"
    using A(2) by (simp add: core_def t(3) put_bi_def free_of_def counted_state_def empty_of_def)
  have al: "alloc_block dev' = (if p + 1 \<ge> cpb then -1 else b)" "alloc_page dev' = p + 1"
    and nf: "n_free_chunks dev' = n_free_chunks dev - 1"
    by (simp_all add: t(3))
  have inv': "dev_inv dev'"
  proof (rule dev_inv_change [OF inv A(1) core wf])
    show "\<And>c. blk_valid dev c \<Longrightarrow> c \<noteq> b \<Longrightarrow> used_pages dev' c = used_pages dev c" by (simp add: up)
    show "blk_inv dev' b" using B bo pn up [OF A(1)] al(1) by (auto simp: blk_inv_def)
    show "\<And>c. blk_valid dev c \<Longrightarrow> c \<noteq> b \<Longrightarrow>
        block_state (bi_of dev c) = YAFFS_BLOCK_STATE_ALLOCATING \<Longrightarrow> c = (if p + 1 \<ge> cpb then -1 else b)"
      using I(4) by (auto simp: blk_inv_def b_def)
    show "alloc_inv dev'" using A(1,3) bo up [OF A(1)] al same(2,3) A(5)
      by (fastforce simp: alloc_inv_def cpb_def)
  qed
  show ?thesis
    by (rule that [OF t(1) inv' pv pn up])
      (use B in \<open>simp_all add: nf same(2,3) al bo blk_inv_def\<close>)
qed

lemma calc_checkpt_core: "core (snd (yaffs_calc_checkpt_blocks_required dev)) = core dev"
  by (simp add: yaffs_calc_checkpt_blocks_required_def Let_def core_def)

lemma check_alloc_core: "core (snd (yaffs_check_alloc_available dev n)) = core dev"
  using calc_checkpt_core [of dev]
  by (cases "yaffs_calc_checkpt_blocks_required dev") (simp add: yaffs_check_alloc_available_def Let_def)

lemma chunk_div_mod:
  assumes "0 \<le> p" and "p < (cpb :: int)"
  shows "(b * cpb + p) div cpb = b" "(b * cpb + p) mod cpb = p"
  using assms by simp_all

text \<open>An allocation leaves the flash and the shape of the device as they are.\<close>

lemma find_alloc_loop_frame:
  "find_alloc_loop n dev = Some (r, d) \<Longrightarrow> same_shape dev d \<and> flash d = flash dev"
proof (induction n arbitrary: dev)
  case (Suc n)
  let ?f = "dev\<lparr>alloc_block_finder := next_block dev (alloc_block_finder dev)\<rparr>"
  have f: "same_shape dev ?f" "flash ?f = flash dev" by (simp_all add: same_shape_def)
  from Suc.prems have
    "find_alloc_loop n ?f = Some (r, d) \<or>
     (\<exists>e. upd_block_info (?f\<lparr>dev_seq_number := dev_seq_number dev + 1\<rparr>) (next_block dev (alloc_block_finder dev))
        (\<lambda>bi. bi\<lparr>block_state := YAFFS_BLOCK_STATE_ALLOCATING, bi_seq_number := dev_seq_number dev + 1\<rparr>) = Some e \<and>
        d = e\<lparr>n_erased_blocks := n_erased_blocks e - 1\<rparr>)"
    by (auto simp: Let_def split: bind_splits if_splits)
  then show ?case
  proof (elim disjE conjE exE)
    assume "find_alloc_loop n ?f = Some (r, d)"
    from Suc.IH [OF this] show ?thesis using f same_shape_trans [of dev ?f d] by simp
  next
    fix e assume "upd_block_info (?f\<lparr>dev_seq_number := dev_seq_number dev + 1\<rparr>)
        (next_block dev (alloc_block_finder dev))
        (\<lambda>bi. bi\<lparr>block_state := YAFFS_BLOCK_STATE_ALLOCATING, bi_seq_number := dev_seq_number dev + 1\<rparr>) = Some e"
      "d = e\<lparr>n_erased_blocks := n_erased_blocks e - 1\<rparr>"
    from upd_block_info_frame [OF this(1)] this(2) show ?thesis by (simp add: same_shape_def)
  qed
qed simp

lemma set_chunk_bit_frame:
  "yaffs_set_chunk_bit dev b p = Some d \<Longrightarrow> same_shape dev d \<and> flash d = flash dev"
  by (auto simp: yaffs_set_chunk_bit_def bits_put_def same_shape_def Let_def split: bind_splits if_splits)

lemma take_page_frame:
  assumes "take_page dev = Some (c, b, d)"
  shows "same_shape dev d \<and> flash d = flash dev"
proof -
  from assms obtain e f g where e: "upd_block_info dev (alloc_block dev)
      (\<lambda>bi. bi\<lparr>pages_in_use := s10 (pages_in_use bi + 1)\<rparr>) = Some e"
    and f: "yaffs_set_chunk_bit e (alloc_block dev) (alloc_page e) = Some f"
    and g: "g = f\<lparr>alloc_page := alloc_page f + 1, n_free_chunks := n_free_chunks f - 1\<rparr>"
    and d: "d = g \<or> (\<exists>h. upd_block_info g (alloc_block dev)
       (\<lambda>bi. bi\<lparr>block_state := YAFFS_BLOCK_STATE_FULL\<rparr>) = Some h \<and> d = h\<lparr>alloc_block := -1\<rparr>)"
    by (auto simp: take_page_def Let_def split: bind_splits if_splits)
  have ef: "same_shape dev f" "flash f = flash dev"
    using upd_block_info_frame [OF e] set_chunk_bit_frame [OF f] same_shape_trans by auto
  then have g': "same_shape dev g" "flash g = flash dev" unfolding g by (simp_all add: same_shape_def)
  from d show ?thesis
  proof (elim disjE exE conjE)
    fix h assume "upd_block_info g (alloc_block dev)
       (\<lambda>bi. bi\<lparr>block_state := YAFFS_BLOCK_STATE_FULL\<rparr>) = Some h" "d = h\<lparr>alloc_block := -1\<rparr>"
    with upd_block_info_frame [OF this(1)] g' show ?thesis by (simp add: same_shape_def)
  qed (simp add: g')
qed

lemma check_alloc_frame:
  "yaffs_check_alloc_available dev n = (a, d) \<Longrightarrow> same_shape dev d \<and> flash d = flash dev"
  by (auto simp: yaffs_check_alloc_available_def yaffs_calc_checkpt_blocks_required_def same_shape_def Let_def
      split: prod.splits if_splits)

lemma alloc_chunk_frame:
  assumes "yaffs_alloc_chunk dev use_reserver = Some (c, b, d)"
  shows "same_shape dev d \<and> flash d = flash dev"
proof -
  from assms obtain e where e: "(if alloc_block dev < 0 then
        do { (b, dev) \<leftarrow> yaffs_find_alloc_block dev; Some (dev\<lparr>alloc_block := b, alloc_page := 0\<rparr>) }
      else Some dev) = Some e"
    and f: "\<exists>f a. (if use_reserver then (True, e) else yaffs_check_alloc_available e 1) = (a, f) \<and>
       (d = f \<or> take_page f = Some (c, b, d))"
    unfolding alloc_chunk_take_page by (auto split: bind_splits if_splits prod.splits)
  have "same_shape dev e \<and> flash e = flash dev"
  proof (cases "alloc_block dev < 0")
    case True
    from e True obtain r g where "yaffs_find_alloc_block dev = Some (r, g)"
      "e = g\<lparr>alloc_block := r, alloc_page := 0\<rparr>" by (auto split: bind_splits)
    moreover from this(1) have "g = dev \<or> find_alloc_loop (n_blocks dev) dev = Some (r, g)"
      by (auto simp: yaffs_find_alloc_block_def split: if_splits)
    ultimately show ?thesis using find_alloc_loop_frame [of "n_blocks dev" dev r g]
      by (auto simp: same_shape_def)
  qed (use e in simp)
  moreover from f obtain f a where "same_shape e f" "flash f = flash e" "d = f \<or> take_page f = Some (c, b, d)"
    using check_alloc_frame by (metis (no_types, lifting) prod.inject same_shape_refl)
  ultimately show ?thesis using take_page_frame [of f c b d] same_shape_trans by fastforce
qed

text \<open>What an allocation did: nothing, or one more chunk in use.\<close>

definition no_chunk :: "'n yaffs_dev \<Rightarrow> 'n yaffs_dev \<Rightarrow> bool" where
  "no_chunk dev dev' \<longleftrightarrow> n_free_chunks dev' = n_free_chunks dev \<and>
     (\<forall>b. blk_valid dev b \<longrightarrow> used_pages dev' b = used_pages dev b)"

definition new_chunk :: "'n yaffs_dev \<Rightarrow> int \<Rightarrow> 'n yaffs_dev \<Rightarrow> bool" where
  "new_chunk dev c dev' \<longleftrightarrow>
     (let blk = c div chunks_per_block (param dev); p = c mod chunks_per_block (param dev)
      in 0 < c \<and> page_valid dev blk p \<and> p \<notin> used_pages dev blk \<and>
         n_free_chunks dev' = n_free_chunks dev - 1 \<and>
         (\<forall>b. blk_valid dev b \<longrightarrow>
            used_pages dev' b = (if b = blk then insert p (used_pages dev b) else used_pages dev b)) \<and>
         alloc_block dev' = (if p + 1 \<ge> chunks_per_block (param dev) then -1 else blk) \<and>
         alloc_page dev' = p + 1 \<and>
         block_state (bi_of dev' blk) \<in> {YAFFS_BLOCK_STATE_FULL, YAFFS_BLOCK_STATE_ALLOCATING} \<and>
         soft_del_pages (bi_of dev' blk) < pages_in_use (bi_of dev' blk))"

lemma found_block_same:
  "param (found_block dev r) = param dev" "blk_valid (found_block dev r) = blk_valid dev"
  "used_pages (found_block dev r) = used_pages dev" "n_free_chunks (found_block dev r) = n_free_chunks dev"
  "page_valid (found_block dev r) = page_valid dev"
  by (simp_all add: found_block_def Let_def blk_valid_def page_valid_def used_pages_def chunk_in_use_def
      row_bit_def fun_eq_iff)

text \<open>The first step of an allocation: an allocation block, if there can be one.\<close>

lemma alloc_block_step:
  assumes inv: "dev_inv dev"
  obtains d where
    "(if alloc_block dev < 0 then
        do { (b, dev) \<leftarrow> yaffs_find_alloc_block dev; Some (dev\<lparr>alloc_block := b, alloc_page := 0\<rparr>) }
      else Some dev) = Some d"
    "dev_inv d" "param d = param dev" "blk_valid d = blk_valid dev" "used_pages d = used_pages dev"
    "n_free_chunks d = n_free_chunks dev"
    "alloc_block d < 0 \<longleftrightarrow> alloc_block dev < 0 \<and> n_erased_blocks dev = 0"
proof (cases "alloc_block dev < 0")
  case False
  show ?thesis by (rule that [of dev]) (simp_all add: False inv)
next
  case True
  from find_alloc_block_cases [OF inv True] show ?thesis
  proof (elim disjE exE conjE)
    assume f: "yaffs_find_alloc_block dev = Some (-1, dev)" and e: "n_erased_blocks dev = 0"
    let ?d = "dev\<lparr>alloc_block := -1, alloc_page := 0\<rparr>"
    have same: "used_pages ?d = used_pages dev" "blk_valid ?d = blk_valid dev" "bi_of ?d = bi_of dev"
      "bits_wf ?d = bits_wf dev" "table_wf ?d = table_wf dev" "total g ?d = total g dev" for g
      by (simp_all add: used_pages_def chunk_in_use_def row_bit_def blk_valid_def bi_of_def bi_index_def
          bits_wf_def table_wf_def n_blocks_def total_def fun_eq_iff)
    have "dev_inv ?d"
      using inv not_allocating [OF inv True]
      by (auto simp: dev_inv_def alloc_inv_def blk_inv_def same count_free_chunks_total)
    then show ?thesis by (rule that [of ?d, rotated]) (simp_all add: True f e same)
  next
    fix r assume f: "yaffs_find_alloc_block dev = Some (r, found_block dev r)" and r: "blk_valid dev r"
      "block_state (bi_of dev r) = YAFFS_BLOCK_STATE_EMPTY"
    let ?d = "(found_block dev r)\<lparr>alloc_block := r, alloc_page := 0\<rparr>"
    have same: "used_pages ?d = used_pages dev" "blk_valid ?d = blk_valid dev" 
      using found_block_same(2,3) [of dev r]
      by (simp_all add: used_pages_def chunk_in_use_def row_bit_def blk_valid_def fun_eq_iff)
    have "0 < total empty_of dev"
    proof -
      have "empty_of (bi_of dev r) = 1" using r(2) by (simp add: empty_of_def)
      moreover have "empty_of (bi_of dev r) \<le> total empty_of dev"
        unfolding total_def bi_of_def
        by (rule member_le_sum_list)
          (use bi_index_less [OF dev_invD(2) [OF inv] r(1)] in \<open>auto simp: empty_of_def\<close>)
      ultimately show ?thesis by simp
    qed
    then have e: "n_erased_blocks dev \<noteq> 0" using dev_invD(7) [OF inv] by simp
    have r0: "\<not> r < 0" using r(1) dev_invD(3) [OF inv] by (simp add: blk_valid_def)
    show ?thesis
      by (rule that [of ?d]) (use found_block_inv [OF inv True r] e r0 in
          \<open>simp_all add: True f same found_block_same\<close>)
  qed
qed

lemma alloc_chunk_spec:
  assumes inv: "dev_inv dev"
  shows "\<exists>c blk dev'. yaffs_alloc_chunk dev use_reserver = Some (c, blk, dev') \<and> dev_inv dev' \<and>
     param dev' = param dev \<and> blk_valid dev' = blk_valid dev \<and>
     (c = -1 \<and> no_chunk dev dev' \<or> blk = c div chunks_per_block (param dev) \<and> new_chunk dev c dev') \<and>
     (use_reserver \<longrightarrow> (c = -1 \<longleftrightarrow> alloc_block dev < 0 \<and> n_erased_blocks dev = 0))"
proof -
  obtain d where d: "(if alloc_block dev < 0 then
        do { (b, dev) \<leftarrow> yaffs_find_alloc_block dev; Some (dev\<lparr>alloc_block := b, alloc_page := 0\<rparr>) }
      else Some dev) = Some d"
    "dev_inv d" "param d = param dev" "blk_valid d = blk_valid dev" "used_pages d = used_pages dev"
    "n_free_chunks d = n_free_chunks dev"
    "alloc_block d < 0 \<longleftrightarrow> alloc_block dev < 0 \<and> n_erased_blocks dev = 0"
    by (rule alloc_block_step [OF inv])
  obtain avail e where ae: "(if use_reserver then (True, d) else yaffs_check_alloc_available d 1) = (avail, e)"
    by (cases "if use_reserver then (True, d) else yaffs_check_alloc_available d 1")
  have ce: "core e = core d" "use_reserver \<Longrightarrow> avail"
    using ae check_alloc_core [of d 1] by (auto split: if_splits)
  have e: "dev_inv e" "param e = param dev" "blk_valid e = blk_valid dev" "used_pages e = used_pages dev"
      "n_free_chunks e = n_free_chunks dev" "alloc_block e = alloc_block d"
    using ce(1) core_inv [OF ce(1)] core_funs [OF ce(1)] d by (simp_all add: core_def)
  have ac: "yaffs_alloc_chunk dev use_reserver =
      (if \<not> avail then Some (-1, -1, e) else if alloc_block e \<ge> 0 then take_page e else Some (-1, -1, e))"
    unfolding alloc_chunk_take_page d(1) bind.bind_lunit Let_def ae prod.case ..
  show ?thesis
  proof (cases "avail \<and> alloc_block e \<ge> 0")
    case False
    then have "yaffs_alloc_chunk dev use_reserver = Some (-1, -1, e)" using ac by auto
    moreover have "use_reserver \<Longrightarrow> alloc_block e < 0" using False ce(2) by auto
    ultimately show ?thesis using e d(7) by (auto simp: no_chunk_def)
  next
    case True
    let ?b = "alloc_block e" and ?p = "alloc_page e" and ?cpb = "chunks_per_block (param dev)"
    obtain dev' where t: "take_page e = Some (?b * ?cpb + ?p, ?b, dev')" "dev_inv dev'"
      "page_valid e ?b ?p" "?p \<notin> used_pages e ?b"
      "\<And>c. blk_valid e c \<Longrightarrow> used_pages dev' c = (if c = ?b then insert ?p (used_pages e c) else used_pages e c)"
      "n_free_chunks dev' = n_free_chunks e - 1" "param dev' = param e" "blk_valid dev' = blk_valid e"
      "alloc_block dev' = (if ?p + 1 \<ge> ?cpb then -1 else ?b)" "alloc_page dev' = ?p + 1"
      "block_state (bi_of dev' ?b) = (if ?p + 1 \<ge> ?cpb then YAFFS_BLOCK_STATE_FULL else YAFFS_BLOCK_STATE_ALLOCATING)"
      "soft_del_pages (bi_of dev' ?b) < pages_in_use (bi_of dev' ?b)"
      using take_page_spec [OF e(1)] True unfolding e(2) by blast
    have p: "0 \<le> ?p" "?p < ?cpb" and pv: "page_valid dev ?b ?p"
      using t(3) e(2,3) by (simp_all add: page_valid_def)
    have b0: "0 < ?b" using dev_invD(3) [OF e(1)] t(3) by (simp add: page_valid_def blk_valid_def)
    then have c0: "0 < ?b * ?cpb + ?p" using p by (simp add: add_pos_nonneg)
    have "new_chunk dev (?b * ?cpb + ?p) dev'"
      unfolding new_chunk_def Let_def chunk_div_mod [OF p] using t(4-6) t(9-12) e pv c0 by simp
    moreover have "yaffs_alloc_chunk dev use_reserver = Some (?b * ?cpb + ?p, ?b, dev')"
      using ac True t(1) by simp
    ultimately show ?thesis
      using t(2,7,8) e(2,3,6) True d(7) c0 chunk_div_mod(1) [OF p, of ?b] by auto
  qed
qed

section \<open>A fresh block table\<close>

lemma used_pages_zero_bits:
  assumes "chunk_bits dev = replicate n 0" and "bits_wf dev" and "blk_valid dev b"
  shows "used_pages dev b = {}"
proof -
  have "\<not> chunk_in_use dev b p" if "0 \<le> p" "p < chunks_per_block (param dev)" for p
  proof -
    have "nat p < 8 * chunk_bit_stride dev"
      using page_bit_inside [OF assms(2), of b p] assms(3) that by (simp add: page_valid_def)
    from row_inside(1) [OF assms(2,3) this] show ?thesis
      by (simp add: chunk_in_use_def row_bit_def assms(1))
  qed
  then show ?thesis by (auto simp: used_pages_def)
qed

lemma init_blocks_inv:
  assumes "yaffs_init_blocks True True dev = (r, dev')"
    and "0 < chunks_per_block (param dev)" and "0 < internal_start_block dev"
    and "internal_start_block dev \<le> internal_end_block dev" and "chunks_per_block (param dev) \<le> 511"
    and "n_free_chunks dev = 0" and "n_erased_blocks dev = 0"
  shows "r = YAFFS_OK \<and> dev_inv dev'"
proof -
  let ?st = "nat ((chunks_per_block (param dev) + 7) div 8)"
  let ?d = "dev\<lparr>alloc_block := -1, chunk_bit_stride := ?st,
      block_info := replicate (n_blocks dev) zero_block_info, chunk_bits := replicate (?st * n_blocks dev) 0\<rparr>"
  have d: "r = YAFFS_OK" "dev' = ?d"
    using assms(1) by (auto simp: yaffs_init_blocks_def Let_def n_blocks_def)
  have cpb: "chunks_per_block (param dev) \<le> 8 * int ?st" using assms(2) by arith
  have nr: "\<not> row_bit dev' blk n" if "blk_valid dev' blk" "n < 8 * ?st" for blk n
  proof -
    have "n div 8 < ?st" using that(2) by (simp add: less_mult_imp_div_less mult.commute)
    moreover have "nat (blk - internal_start_block dev) < n_blocks dev"
      using that(1) unfolding d(2) blk_valid_def n_blocks_def by simp
    ultimately have "?st * nat (blk - internal_start_block dev) + n div 8 < ?st * n_blocks dev"
      by (metis add_less_cancel_left less_le_trans mult_le_mono2 mult_Suc_right Suc_leI add.commute)
    then show ?thesis by (simp add: d(2) row_bit_def)
  qed
  have wf: "bits_wf dev'"
    using assms(2-5) cpb nr by (simp add: d(2) bits_wf_def n_blocks_def)
  have up: "used_pages dev' b = {}" if "blk_valid dev' b" for b
    by (rule used_pages_zero_bits [OF _ wf that, of "?st * n_blocks dev"]) (simp add: d(2))
  have bo: "bi_of dev' b = zero_block_info" if "blk_valid dev' b" for b
    using that unfolding d(2) blk_valid_def by (simp add: bi_of_def bi_index_def n_blocks_def)
  have tot: "f zero_block_info = 0 \<Longrightarrow> total f dev' = 0" for f
    by (simp add: d(2) total_def map_replicate sum_list_replicate)
  have tw: "table_wf dev'" by (simp add: d(2) table_wf_def n_blocks_def)
  have "dev_inv dev'"
    unfolding dev_inv_def
  proof (intro conjI allI impI)
    show "blk_inv dev' b" if "blk_valid dev' b" for b
      by (simp add: blk_inv_def up [OF that] bo [OF that] zero_block_info_def)
    show "n_free_chunks dev' = yaffs_count_free_chunks dev'"
      unfolding count_free_chunks_total
      by (subst tot) (simp_all add: free_of_def counted_state_def zero_block_info_def assms(6) d(2))
    show "n_erased_blocks dev' = total empty_of dev'"
      by (subst tot) (simp_all add: empty_of_def zero_block_info_def assms(7) d(2))
  qed (use wf tw assms(3) in \<open>simp_all add: alloc_inv_def d(2)\<close>)
  then show ?thesis using d(1) by simp
qed

end
