(* ===== verification/Yaffs_Alloc.thy ===== *)
theory Yaffs_Alloc
  imports Yaffs_Block_Inv
begin

text \<open>
  What the allocator, the skipping of a block, the soft deletion of a chunk and the
  erasure of checkpoint blocks keep and do, as properties over the invariant of
  \<^verbatim>\<open>Yaffs_Block_Inv\<close>.
\<close>


section \<open>Other operations on the block table\<close>

text \<open>
  Letting go of the allocation block re-establishes the invariant, whatever is in use
  beyond the allocation page.
\<close>

definition let_go :: "'n yaffs_dev \<Rightarrow> 'n yaffs_dev \<Rightarrow> bool" where
  "let_go dev dev' \<longleftrightarrow> same_shape dev dev' \<and> flash dev' = flash dev \<and> used_pages dev' = used_pages dev \<and>
     n_free_chunks dev' = n_free_chunks dev \<and> alloc_block dev' < 0 \<and>
     (\<forall>b. blk_valid dev b \<longrightarrow> bi_of dev' b = bi_of dev b \<or>
        block_state (bi_of dev b) = YAFFS_BLOCK_STATE_ALLOCATING \<and>
        bi_of dev' b = (bi_of dev b)\<lparr>block_state := YAFFS_BLOCK_STATE_FULL\<rparr>)"

lemma skip_rest_of_block_inv:
  assumes inv: "weak_inv dev"
  shows "\<exists>dev'. yaffs_skip_rest_of_block dev = Some dev' \<and> dev_inv dev' \<and> let_go dev dev'"
proof (cases "alloc_block dev > 0")
  case True
  let ?b = "alloc_block dev"
  note I = weak_invD [OF inv]
  have A: "blk_valid dev ?b" "block_state (bi_of dev ?b) = YAFFS_BLOCK_STATE_ALLOCATING"
    using I(5,6) True by simp_all
  let ?x = "(bi_of dev ?b)\<lparr>block_state := YAFFS_BLOCK_STATE_FULL\<rparr>"
  let ?d = "(put_bi dev ?b ?x)\<lparr>alloc_block := -1\<rparr>"
  have s: "yaffs_skip_rest_of_block dev = Some ?d"
    using True A get_block_info_valid [OF I(2) A(1)] upd_block_info_valid [OF I(2) A(1)]
    by (simp add: yaffs_skip_rest_of_block_def)
  have same: "used_pages ?d = used_pages dev" "blk_valid ?d = blk_valid dev" "row_bit ?d = row_bit dev"
    by (simp_all add: used_pages_def chunk_in_use_def row_bit_def blk_valid_def fun_eq_iff)
  have bo: "bi_of ?d c = (if c = ?b then ?x else bi_of dev c)" if "blk_valid dev c" for c
    using bi_of_put [OF I(2) A(1) that, of ?x] by (simp add: bi_of_def bi_index_def)
  have "weak_inv ?d"
  proof (rule weak_inv_change [OF inv A(1), where dev' = ?d])
    show "core ?d = (block_info (put_bi dev ?b ?x), chunk_bits dev, chunk_bit_stride dev, param dev,
       internal_start_block dev, internal_end_block dev, -1, alloc_page dev,
       n_free_chunks dev - free_of (chunks_per_block (param dev)) (bi_of dev ?b)
         + free_of (chunks_per_block (param dev)) ?x,
       n_erased_blocks dev - empty_of (bi_of dev ?b) + empty_of ?x)"
      using A(2) by (simp add: core_def free_of_def counted_state_def empty_of_def)
    show "bits_wf ?d" using I(1) by (simp add: bits_wf_def same)
    show "blk_inv ?d ?b" using I(4) [OF A(1)] bo [OF A(1)] by (simp add: blk_inv_def same)
    show "\<And>c. blk_valid dev c \<Longrightarrow> c \<noteq> ?b \<Longrightarrow>
       block_state (bi_of dev c) = YAFFS_BLOCK_STATE_ALLOCATING \<Longrightarrow> c = -1"
      using I(4) by (auto simp: blk_inv_def)
  qed (simp_all add: same)
  then have i: "dev_inv ?d" by (simp add: dev_inv_weak alloc_inv_def)
  have "same_shape dev ?d" by (simp add: same_shape_def put_bi_def)
  then have "let_go dev ?d" using same(1) bo A(2) by (auto simp: let_go_def)
  with s i show ?thesis by blast
next
  case False
  note I = weak_invD [OF inv]
  have "alloc_block dev < 0"
    by (cases "alloc_block dev = 0") (use I(3) I(5) False in \<open>auto simp: blk_valid_def\<close>)
  then show ?thesis using inv False
    by (simp add: yaffs_skip_rest_of_block_def dev_inv_weak alloc_inv_def let_go_def)
qed

text \<open>The oldest-dirty bookkeeping does not touch what the invariant speaks about.\<close>

lemma oldest_dirty_core [simp]:
  "core (yaffs2_update_oldest_dirty_seq dev b bi) = core dev"
  "core (yaffs2_clear_oldest_dirty_seq dev obi) = core dev"
  "core (yaffs_calc_oldest_dirty_seq dev) = core dev"
  "core (yaffs2_find_oldest_dirty_seq dev) = core dev"
  by (simp_all add: yaffs2_update_oldest_dirty_seq_def yaffs2_clear_oldest_dirty_seq_def
      yaffs_calc_oldest_dirty_seq_def yaffs2_find_oldest_dirty_seq_def core_def Let_def split: prod.splits)

lemma soft_del_chunk_inv:
  assumes inv: "dev_inv dev" and b: "blk_valid dev (chunk div chunks_per_block (param dev))"
    and st: "block_state (bi_of dev (chunk div chunks_per_block (param dev)))
       \<in> {YAFFS_BLOCK_STATE_FULL, YAFFS_BLOCK_STATE_ALLOCATING, YAFFS_BLOCK_STATE_COLLECTING}"
    and sd: "soft_del_pages (bi_of dev (chunk div chunks_per_block (param dev)))
       < pages_in_use (bi_of dev (chunk div chunks_per_block (param dev)))"
  shows "\<exists>dev'. yaffs_soft_del_chunk dev chunk = Some dev' \<and> dev_inv dev' \<and>
     n_free_chunks dev' = n_free_chunks dev + 1 \<and> used_pages dev' = used_pages dev"
proof -
  note I = dev_invD [OF inv]
  let ?b = "chunk div chunks_per_block (param dev)"
  let ?x = "(bi_of dev ?b)\<lparr>soft_del_pages := soft_del_pages (bi_of dev ?b) + 1\<rparr>"
  let ?e = "(put_bi dev ?b ?x)\<lparr>n_free_chunks := n_free_chunks dev + 1\<rparr>"
  let ?d = "yaffs2_update_oldest_dirty_seq ?e ?b ?x"
  have same: "used_pages ?e = used_pages dev" "blk_valid ?e = blk_valid dev" "row_bit ?e = row_bit dev"
    by (simp_all add: used_pages_def chunk_in_use_def row_bit_def blk_valid_def fun_eq_iff)
  have bo: "bi_of ?e c = (if c = ?b then ?x else bi_of dev c)" if "blk_valid dev c" for c
    using bi_of_put [OF I(2) b that, of ?x] by (simp add: bi_of_def bi_index_def)
  have "table_wf ?e" using I(2) put_bi_valid(3) [of dev ?b ?x] by (simp add: table_wf_def n_blocks_def)
  then have g: "yaffs_get_block_info ?e ?b = Some ?x"
    using get_block_info_valid [of ?e ?b] b by (simp add: same bo)
  have s: "yaffs_soft_del_chunk dev chunk = Some ?d"
    using upd_block_info_valid [OF I(2) b] g pages_fit(4) [OF I(1) I(4) [OF b] sd] by (simp add: yaffs_soft_del_chunk_def Let_def)
  have core: "core ?e = (block_info (put_bi dev ?b ?x), chunk_bits dev, chunk_bit_stride dev, param dev,
       internal_start_block dev, internal_end_block dev, alloc_block dev, alloc_page dev,
       n_free_chunks dev - free_of (chunks_per_block (param dev)) (bi_of dev ?b)
         + free_of (chunks_per_block (param dev)) ?x,
       n_erased_blocks dev - empty_of (bi_of dev ?b) + empty_of ?x)"
    using st by (auto simp: core_def empty_of_def free_of_def counted_state_def)
  have e: "dev_inv ?e"
  proof (rule dev_inv_change [OF inv b core])
    show "bits_wf ?e" using I(1) by (simp add: bits_wf_def same)
    show "blk_inv ?e ?b" using I(4) [OF b] bo [OF b] st sd by (auto simp: blk_inv_def same)
    show "\<And>c. blk_valid dev c \<Longrightarrow> c \<noteq> ?b \<Longrightarrow>
       block_state (bi_of dev c) = YAFFS_BLOCK_STATE_ALLOCATING \<Longrightarrow> c = alloc_block dev"
      using I(4) by (auto simp: blk_inv_def)
    show "alloc_inv ?e" using I(5) bo by (auto simp: alloc_inv_def same)
  qed (simp add: same)
  have c: "core ?d = core ?e" by simp
  have "dev_inv ?d" using e core_inv [OF c] by simp
  moreover have "n_free_chunks ?d = n_free_chunks dev + 1" using c by (simp add: core_def)
  moreover have "used_pages ?d = used_pages dev" using core_funs(5) [OF c] same(1) by simp
  ultimately show ?thesis using s by blast
qed

section \<open>Erasing checkpoint blocks\<close>

lemma change_state_inv_keep:
  assumes inv: "dev_inv dev" and b: "blk_valid dev b"
    and c: "block_state (bi_of dev b) = YAFFS_BLOCK_STATE_CHECKPOINT"
  shows "dev_inv ((put_bi dev b ((bi_of dev b)\<lparr>block_state := YAFFS_BLOCK_STATE_DEAD\<rparr>)))" (is "dev_inv ?d")
    and "dev_inv ((put_bi dev b ((bi_of dev b)\<lparr>block_state := YAFFS_BLOCK_STATE_EMPTY\<rparr>))
      \<lparr>n_erased_blocks := n_erased_blocks dev + 1, n_free_chunks := n_free_chunks dev + chunks_per_block (param dev)\<rparr>)"
      (is "dev_inv ?e")
proof -
  note I = dev_invD [OF inv]
  have B: "used_pages dev b = {}" "soft_del_pages (bi_of dev b) = 0" "pages_in_use (bi_of dev b) = 0"
    using I(4) [OF b] c by (simp_all add: blk_inv_def)
  have na: "b \<noteq> alloc_block dev" if "alloc_block dev \<ge> 0" using I(5) that c by (auto simp: alloc_inv_def)
  have others: "\<And>c. blk_valid dev c \<Longrightarrow> c \<noteq> b \<Longrightarrow>
       block_state (bi_of dev c) = YAFFS_BLOCK_STATE_ALLOCATING \<Longrightarrow> c = alloc_block dev"
    using I(4) by (auto simp: blk_inv_def)
  show "dev_inv ?d"
  proof (rule dev_inv_change [OF inv b, where dev' = ?d])
    show "core ?d = (block_info ?d, chunk_bits dev, chunk_bit_stride dev, param dev,
       internal_start_block dev, internal_end_block dev, alloc_block dev, alloc_page dev,
       n_free_chunks dev - free_of (chunks_per_block (param dev)) (bi_of dev b)
         + free_of (chunks_per_block (param dev)) ((bi_of dev b)\<lparr>block_state := YAFFS_BLOCK_STATE_DEAD\<rparr>),
       n_erased_blocks dev - empty_of (bi_of dev b)
         + empty_of ((bi_of dev b)\<lparr>block_state := YAFFS_BLOCK_STATE_DEAD\<rparr>))"
      using c by (simp add: core_def free_of_def counted_state_def empty_of_def)
    show "blk_inv ?d b" using I(2) b B by (simp add: blk_inv_def)
    show "alloc_inv ?d" using I(2,5) b na by (auto simp: alloc_inv_def)
  qed (use I(1) others in auto)
  have same: "used_pages ?e = used_pages dev" "blk_valid ?e = blk_valid dev" "row_bit ?e = row_bit dev"
    by (simp_all add: used_pages_def chunk_in_use_def row_bit_def blk_valid_def fun_eq_iff)
  have bo: "bi_of ?e a = (if a = b then (bi_of dev b)\<lparr>block_state := YAFFS_BLOCK_STATE_EMPTY\<rparr> else bi_of dev a)"
    if "blk_valid dev a" for a
    using bi_of_put [OF I(2) b that, of "(bi_of dev b)\<lparr>block_state := YAFFS_BLOCK_STATE_EMPTY\<rparr>"]
    by (simp add: bi_of_def bi_index_def)
  show "dev_inv ?e"
  proof (rule dev_inv_change [OF inv b, where dev' = ?e])
    show "core ?e = (block_info (put_bi dev b ((bi_of dev b)\<lparr>block_state := YAFFS_BLOCK_STATE_EMPTY\<rparr>)),
       chunk_bits dev, chunk_bit_stride dev, param dev,
       internal_start_block dev, internal_end_block dev, alloc_block dev, alloc_page dev,
       n_free_chunks dev - free_of (chunks_per_block (param dev)) (bi_of dev b)
         + free_of (chunks_per_block (param dev)) ((bi_of dev b)\<lparr>block_state := YAFFS_BLOCK_STATE_EMPTY\<rparr>),
       n_erased_blocks dev - empty_of (bi_of dev b)
         + empty_of ((bi_of dev b)\<lparr>block_state := YAFFS_BLOCK_STATE_EMPTY\<rparr>))"
      using c B by (simp add: core_def free_of_def counted_state_def empty_of_def)
    show "bits_wf ?e" using I(1) by (simp add: bits_wf_def same)
    show "blk_inv ?e b" using bo [OF b] B by (simp add: blk_inv_def same)
    show "alloc_inv ?e" using I(5) bo na by (auto simp: alloc_inv_def same)
  qed (use others in \<open>auto simp: same\<close>)
qed

lemma core_flash: "core (dev\<lparr>flash := f, n_erasures := n\<rparr>) = core dev" "core (dev\<lparr>flash := f\<rparr>) = core dev"
  "core (dev\<lparr>n_erasures := n\<rparr>) = core dev" "core (dev\<lparr>blocks_in_checkpt := k\<rparr>) = core dev"
  "core (dev\<lparr>is_checkpointed := c\<rparr>) = core dev"
  by (simp_all add: core_def)

text \<open>What the erasure of checkpoint blocks leaves as it was.\<close>

definition ckpt_gone :: "'n yaffs_dev \<Rightarrow> 'n yaffs_dev \<Rightarrow> bool" where
  "ckpt_gone dev dev' \<longleftrightarrow> same_shape dev dev' \<and> used_pages dev' = used_pages dev \<and>
     row_bit dev' = row_bit dev \<and>
     alloc_block dev' = alloc_block dev \<and> alloc_page dev' = alloc_page dev \<and>
     (\<forall>b. blk_valid dev b \<longrightarrow> block_state (bi_of dev b) \<noteq> YAFFS_BLOCK_STATE_CHECKPOINT \<longrightarrow>
        bi_of dev' b = bi_of dev b) \<and>
     (\<forall>b. blk_valid dev b \<longrightarrow> block_state (bi_of dev' b) = YAFFS_BLOCK_STATE_CHECKPOINT \<longrightarrow>
        block_state (bi_of dev b) = YAFFS_BLOCK_STATE_CHECKPOINT)"

lemma ckpt_gone_refl [simp]: "ckpt_gone dev dev"
  by (simp add: ckpt_gone_def)

lemma ckpt_gone_trans:
  assumes "ckpt_gone d e" and "ckpt_gone e f"
  shows "ckpt_gone d f"
proof -
  have s: "same_shape d e" "same_shape e f" using assms by (simp_all add: ckpt_gone_def)
  then have "blk_valid e = blk_valid d" "same_shape d f" using same_shapeD(2) same_shape_trans by blast+
  then show ?thesis using assms unfolding ckpt_gone_def by metis
qed

lemma ckpt_gone_core:
  assumes "core e = core d" and "same_shape d e"
  shows "ckpt_gone d e"
proof -
  have "alloc_block e = alloc_block d" "alloc_page e = alloc_page d" using assms(1) by (simp_all add: core_def)
  then show ?thesis using core_funs(1,3,5) [OF assms(1)] assms(2) by (simp add: ckpt_gone_def)
qed

lemma ckpt_gone_state:
  "ckpt_gone d e \<Longrightarrow> blk_valid d b \<Longrightarrow> block_state (bi_of d b) \<noteq> YAFFS_BLOCK_STATE_CHECKPOINT \<Longrightarrow>
   block_state (bi_of e b) \<noteq> YAFFS_BLOCK_STATE_CHECKPOINT"
  unfolding ckpt_gone_def by blast

lemma checkpt_erase_block_inv:
  fixes dev :: "'n yaffs_dev"
  assumes inv: "dev_inv dev" and b: "blk_valid dev i" and ok: "ok (flash dev)"
    and okE: "\<And>n k. ok n \<Longrightarrow> ok (snd (drv_erase_fn drv n k))"
    and okM: "\<And>n k. ok n \<Longrightarrow> ok (snd (drv_mark_bad_fn drv n k))"
  shows "\<exists>dev'. checkpt_erase_block drv dev i = Some dev' \<and> dev_inv dev' \<and> ckpt_gone dev dev' \<and>
     ok (flash dev') \<and> block_state (bi_of dev' i) \<noteq> YAFFS_BLOCK_STATE_CHECKPOINT"
proof (cases "block_state (bi_of dev i) = YAFFS_BLOCK_STATE_CHECKPOINT")
  case False
  then show ?thesis using get_block_info_valid [OF dev_invD(2) [OF inv] b] inv ok
    by (simp add: checkpt_erase_block_def)
next
  case True
  note I = dev_invD [OF inv]
  obtain result fl where er: "drv_erase_fn drv (flash dev) (apply_block_offset dev i) = (result, fl)"
    by (cases "drv_erase_fn drv (flash dev) (apply_block_offset dev i)")
  obtain r fl2 where mb: "drv_mark_bad_fn drv fl (apply_block_offset dev i) = (r, fl2)"
    by (cases "drv_mark_bad_fn drv fl (apply_block_offset dev i)")
  have okf: "ok fl" "ok fl2"
    using okE [OF ok, of "apply_block_offset dev i"] okM [of fl "apply_block_offset dev i"] er mb by simp_all
  let ?f = "if result \<noteq> 0 then fl else fl2"
  let ?d = "dev\<lparr>n_erasures := n_erasures dev + 1, flash := ?f\<rparr>"
  have cd: "core ?d = core dev" by (simp add: core_def)
  have D: "dev_inv ?d" "blk_valid ?d = blk_valid dev" "bi_of ?d = bi_of dev" "table_wf ?d"
      "used_pages ?d = used_pages dev" "row_bit ?d = row_bit dev"
    using inv core_inv [OF cd] core_funs [OF cd] I(2) by simp_all
  have bd: "blk_valid ?d i" using b D(2) by simp
  have cp: "block_state (bi_of ?d i) = YAFFS_BLOCK_STATE_CHECKPOINT" using True D(3) by simp
  note E = change_state_inv_keep [OF D(1) bd cp]
  have gone: "ckpt_gone dev e" if "block_info e = block_info (put_bi ?d i x)" "param e = param dev"
    "internal_start_block e = internal_start_block dev" "internal_end_block e = internal_end_block dev"
    "chunk_bits e = chunk_bits dev" "chunk_bit_stride e = chunk_bit_stride dev" "same_shape dev e"
    "alloc_block e = alloc_block dev" "alloc_page e = alloc_page dev"
    "block_state x \<noteq> YAFFS_BLOCK_STATE_CHECKPOINT" for e x
  proof -
    have r: "row_bit e = row_bit dev" using that by (simp add: row_bit_def fun_eq_iff)
    moreover from r have "used_pages e = used_pages dev" using that
      by (simp add: used_pages_def chunk_in_use_def fun_eq_iff)
    moreover have "bi_of e c = (if c = i then x else bi_of dev c)" if "blk_valid dev c" for c
      using bi_of_put [OF D(4) bd, of c x] that \<open>block_info e = _\<close> \<open>internal_start_block e = _\<close> D(2,3)
      by (simp add: bi_of_def bi_index_def)
    ultimately show ?thesis using that True by (auto simp: ckpt_gone_def)
  qed
  show ?thesis
  proof (cases "result \<noteq> 0")
    case t: True
    let ?p = "put_bi ?d i ((bi_of ?d i)\<lparr>block_state := YAFFS_BLOCK_STATE_EMPTY\<rparr>)"
    let ?e = "?p\<lparr>n_erased_blocks := n_erased_blocks ?d + 1,
        n_free_chunks := n_free_chunks ?d + chunks_per_block (param ?d)\<rparr>"
    have s: "checkpt_erase_block drv dev i = Some ?e"
      using get_block_info_valid [OF I(2) b] True er t upd_block_info_valid [OF D(4) bd]
      by (simp add: checkpt_erase_block_def Let_def)
    have "bi_of ?e = bi_of ?p" by (simp add: bi_of_def bi_index_def fun_eq_iff)
    moreover have "ckpt_gone dev ?e"
      by (rule gone [where x = "(bi_of ?d i)\<lparr>block_state := YAFFS_BLOCK_STATE_EMPTY\<rparr>"])
        (simp_all add: same_shape_def put_bi_def)
    ultimately show ?thesis using s E(2) D(4) bd t okf by (intro exI [of _ ?e]) simp
  next
    case f: False
    let ?p = "put_bi ?d i ((bi_of ?d i)\<lparr>block_state := YAFFS_BLOCK_STATE_DEAD\<rparr>)"
    have s: "checkpt_erase_block drv dev i = Some ?p"
      using get_block_info_valid [OF I(2) b] True er f mb upd_block_info_valid [OF D(4) bd]
      by (simp add: checkpt_erase_block_def Let_def)
    moreover have "ckpt_gone dev ?p"
      by (rule gone [where x = "(bi_of ?d i)\<lparr>block_state := YAFFS_BLOCK_STATE_DEAD\<rparr>"])
        (simp_all add: same_shape_def put_bi_def)
    ultimately show ?thesis using E(1) D(4) bd f okf by (intro exI [of _ ?p]) simp
  qed
qed

lemma checkpt_erase_loop_inv:
  fixes dev :: "'n yaffs_dev"
  assumes "dev_inv dev" and "internal_start_block dev \<le> i" and "i + int n = internal_end_block dev + 1"
    and "\<forall>c. blk_valid dev c \<longrightarrow> c < i \<longrightarrow> block_state (bi_of dev c) \<noteq> YAFFS_BLOCK_STATE_CHECKPOINT"
    and "ok (flash dev)"
    and okE: "\<And>n k. ok n \<Longrightarrow> ok (snd (drv_erase_fn drv n k))"
    and okM: "\<And>n k. ok n \<Longrightarrow> ok (snd (drv_mark_bad_fn drv n k))"
  shows "\<exists>dev'. checkpt_erase_loop drv n i dev = Some dev' \<and> dev_inv dev' \<and> ckpt_gone dev dev' \<and>
     ok (flash dev') \<and>
     (\<forall>c. blk_valid dev c \<longrightarrow> block_state (bi_of dev' c) \<noteq> YAFFS_BLOCK_STATE_CHECKPOINT)"
  using assms(1-5)
proof (induction n arbitrary: i dev)
  case 0
  then show ?case by (auto simp: blk_valid_def)
next
  case (Suc n)
  have b: "blk_valid dev i" using Suc.prems(2,3) by (simp add: blk_valid_def)
  have "\<exists>d. checkpt_erase_block drv dev i = Some d \<and> dev_inv d \<and> ckpt_gone dev d \<and> ok (flash d) \<and>
      block_state (bi_of d i) \<noteq> YAFFS_BLOCK_STATE_CHECKPOINT"
    by (rule checkpt_erase_block_inv [where ok = ok]) (fact Suc.prems(1) Suc.prems(5) b | erule okE | erule okM)+
  then obtain d where d: "checkpt_erase_block drv dev i = Some d" "dev_inv d" "ckpt_gone dev d" "ok (flash d)"
    "block_state (bi_of d i) \<noteq> YAFFS_BLOCK_STATE_CHECKPOINT" by blast
  have sh: "blk_valid d = blk_valid dev" "internal_start_block d = internal_start_block dev"
      "internal_end_block d = internal_end_block dev"
    using d(3) same_shapeD [of dev d] by (simp_all add: ckpt_gone_def)
  have "\<forall>c. blk_valid d c \<longrightarrow> c < i + 1 \<longrightarrow> block_state (bi_of d c) \<noteq> YAFFS_BLOCK_STATE_CHECKPOINT"
  proof (intro allI impI)
    fix c assume c: "blk_valid d c" "c < i + 1"
    show "block_state (bi_of d c) \<noteq> YAFFS_BLOCK_STATE_CHECKPOINT"
    proof (cases "c = i")
      case False
      then have "c < i" "blk_valid dev c" using c sh(1) by simp_all
      then show ?thesis using ckpt_gone_state [OF d(3)] Suc.prems(4) by blast
    qed (simp add: d(5))
  qed
  then have "\<exists>dev'. checkpt_erase_loop drv n (i + 1) d = Some dev' \<and> dev_inv dev' \<and> ckpt_gone d dev' \<and>
      ok (flash dev') \<and>
      (\<forall>c. blk_valid d c \<longrightarrow> block_state (bi_of dev' c) \<noteq> YAFFS_BLOCK_STATE_CHECKPOINT)"
    using Suc.prems(2,3) d(2,4) sh by (intro Suc.IH) auto
  then obtain e where e: "checkpt_erase_loop drv n (i + 1) d = Some e" "dev_inv e" "ckpt_gone d e" "ok (flash e)"
    "\<forall>c. blk_valid dev c \<longrightarrow> block_state (bi_of e c) \<noteq> YAFFS_BLOCK_STATE_CHECKPOINT" unfolding sh(1) by blast
  have "checkpt_erase_loop drv (Suc n) i dev = Some e" using d(1) e(1) by simp
  then show ?case using e(2,4,5) ckpt_gone_trans [OF d(3) e(3)] by blast
qed

lemma checkpt_erase_inv:
  fixes dev :: "'n yaffs_dev"
  assumes inv: "dev_inv dev" and ok: "ok (flash dev)"
    and okE: "\<And>n k. ok n \<Longrightarrow> ok (snd (drv_erase_fn drv n k))"
    and okM: "\<And>n k. ok n \<Longrightarrow> ok (snd (drv_mark_bad_fn drv n k))"
  shows "\<exists>dev'. yaffs_checkpt_erase drv dev = Some dev' \<and> dev_inv dev' \<and> ckpt_gone dev dev' \<and>
     ok (flash dev') \<and> blocks_in_checkpt dev' = 0 \<and>
     (\<forall>c. blk_valid dev c \<longrightarrow> block_state (bi_of dev' c) \<noteq> YAFFS_BLOCK_STATE_CHECKPOINT)"
proof -
  note I = dev_invD [OF inv]
  have "internal_start_block dev \<le> internal_end_block dev" using I(1) by (simp add: bits_wf_def)
  then have e: "internal_start_block dev + int (n_blocks dev) = internal_end_block dev + 1"
    by (simp add: n_blocks_def)
  have "\<exists>d. checkpt_erase_loop drv (n_blocks dev) (internal_start_block dev) dev = Some d \<and>
    dev_inv d \<and> ckpt_gone dev d \<and> ok (flash d) \<and>
    (\<forall>c. blk_valid dev c \<longrightarrow> block_state (bi_of d c) \<noteq> YAFFS_BLOCK_STATE_CHECKPOINT)"
    by (rule checkpt_erase_loop_inv [where ok = ok]) (fact inv e ok order_refl | erule okE | erule okM | simp add: blk_valid_def)+
  then obtain d where d: "checkpt_erase_loop drv (n_blocks dev) (internal_start_block dev) dev = Some d"
    "dev_inv d" "ckpt_gone dev d" "ok (flash d)"
    "\<And>c. blk_valid dev c \<Longrightarrow> block_state (bi_of d c) \<noteq> YAFFS_BLOCK_STATE_CHECKPOINT" by blast
  let ?d = "d\<lparr>blocks_in_checkpt := 0\<rparr>"
  have c: "core ?d = core d" by (rule core_flash)
  have "ckpt_gone dev ?d"
    by (rule ckpt_gone_trans [OF d(3) ckpt_gone_core [OF c]]) (simp add: same_shape_def)
  then show ?thesis
    using d(1,2,4,5) core_inv [OF c] core_funs(1) [OF c] by (simp add: yaffs_checkpt_erase_def)
qed

lemma checkpt_invalidate_inv:
  fixes dev :: "'n yaffs_dev"
  assumes inv: "dev_inv dev" and ok: "ok (flash dev)"
    and okE: "\<And>n k. ok n \<Longrightarrow> ok (snd (drv_erase_fn drv n k))"
    and okM: "\<And>n k. ok n \<Longrightarrow> ok (snd (drv_mark_bad_fn drv n k))"
  shows "\<exists>dev'. yaffs2_checkpt_invalidate drv dev = Some dev' \<and> dev_inv dev' \<and> ckpt_gone dev dev' \<and>
     ok (flash dev')"
proof -
  let ?d = "dev\<lparr>is_checkpointed := False\<rparr>"
  have c: "core ?d = core dev" by (rule core_flash)
  have g: "ckpt_gone dev ?d" by (rule ckpt_gone_core [OF c]) (simp add: same_shape_def)
  have i: "dev_inv ?d" "ok (flash ?d)" using inv ok core_inv [OF c] by simp_all
  have "\<exists>d. yaffs_checkpt_erase drv ?d = Some d \<and> dev_inv d \<and> ckpt_gone ?d d \<and> ok (flash d) \<and>
     blocks_in_checkpt d = 0 \<and>
     (\<forall>c. blk_valid ?d c \<longrightarrow> block_state (bi_of d c) \<noteq> YAFFS_BLOCK_STATE_CHECKPOINT)"
    by (rule checkpt_erase_inv [where ok = ok]) (fact i | erule okE | erule okM)+
  then obtain d where "yaffs_checkpt_erase drv ?d = Some d" "dev_inv d" "ckpt_gone ?d d" "ok (flash d)" by blast
  with ckpt_gone_trans [OF g, of d] show ?thesis
    by (cases "is_checkpointed dev \<or> blocks_in_checkpt dev > 0")
      (use inv ok in \<open>auto simp: yaffs2_checkpt_invalidate_def\<close>)
qed

section \<open>Properties\<close>

text \<open>
  C3: allocation.  With the invariant, which asks for blocks of at most 511 chunks so that the
  ten bits of the page counts hold them, \<^verbatim>\<open>yaffs_alloc_chunk\<close> never leaves the tables, keeps
  the invariant, and either returns -1 with nothing in use that was not before, or a chunk
  that was free, which is then the only new one in use, one free chunk less.  With the
  reserve allowed it fails only when there is neither an allocation block nor an erased one.
\<close>

theorem alloc_chunk_fresh:
  assumes "dev_inv dev"
  shows "\<exists>c blk dev'. yaffs_alloc_chunk dev use_reserver = Some (c, blk, dev') \<and> dev_inv dev' \<and>
     (c = -1 \<and> no_chunk dev dev' \<or> blk = c div chunks_per_block (param dev) \<and> new_chunk dev c dev') \<and>
     (use_reserver \<longrightarrow> (c = -1 \<longleftrightarrow> alloc_block dev < 0 \<and> n_erased_blocks dev = 0))"
  using alloc_chunk_spec [OF assms, of use_reserver] by blast

text \<open>The sample device with an empty block and a full one with three chunks in use.\<close>

definition sample_table :: "unit yaffs_dev" where
  "sample_table = sample_dev\<lparr>block_info := [zero_block_info\<lparr>block_state := YAFFS_BLOCK_STATE_EMPTY\<rparr>,
       zero_block_info\<lparr>block_state := YAFFS_BLOCK_STATE_FULL, pages_in_use := 3\<rparr>],
     n_free_chunks := 21, n_erased_blocks := 1, alloc_block := -1\<rparr>"

lemma sample_table_card:
  "blk_valid sample_table b \<Longrightarrow> int (card (used_pages sample_table b)) = (if b = 1 then 0 else 3)"
proof -
  have wf: "bits_wf sample_table" using sample_dev_wf
    by (simp add: sample_table_def bits_wf_def blk_valid_def row_bit_def)
  assume b: "blk_valid sample_table b"
  then have "b = 1 \<or> b = 2" by (auto simp: blk_valid_def sample_table_def sample_dev_def zero_dev_def)
  moreover have "yaffs_count_chunk_bits sample_table 1 = Some 0" "yaffs_count_chunk_bits sample_table 2 = Some 3"
    by code_simp+
  ultimately show ?thesis using count_chunk_bits_card [OF wf b] by auto
qed

lemma sample_table_inv: "dev_inv sample_table"
proof -
  have wf: "bits_wf sample_table" using sample_dev_wf
    by (simp add: sample_table_def bits_wf_def blk_valid_def row_bit_def)
  have b: "blk_inv sample_table b" if "blk_valid sample_table b" for b
  proof -
    have "b = 1 \<or> b = 2" using that by (auto simp: blk_valid_def sample_table_def sample_dev_def zero_dev_def)
    then show ?thesis using sample_table_card [OF that]
      by (auto simp: blk_inv_def bi_of_def bi_index_def card_eq_0_iff)
        (simp_all add: sample_table_def sample_dev_def zero_dev_def zero_block_info_def)
  qed
  have "n_free_chunks sample_table = yaffs_count_free_chunks sample_table \<and>
      n_erased_blocks sample_table = total empty_of sample_table \<and> table_wf sample_table \<and>
      0 < internal_start_block sample_table \<and> alloc_inv sample_table"
    by (simp add: sample_table_def sample_dev_def zero_dev_def zero_param_def zero_block_info_def table_wf_def
        n_blocks_def alloc_inv_def total_def empty_of_def yaffs_count_free_chunks_def counted_state_def)
  with wf b show ?thesis by (simp add: dev_inv_def)
qed

theorem alloc_chunk_fresh_witness:
  "\<exists>c blk dev'. yaffs_alloc_chunk sample_table True = Some (c, blk, dev') \<and> dev_inv dev' \<and>
     (c = -1 \<and> no_chunk sample_table dev' \<or>
      blk = c div chunks_per_block (param sample_table) \<and> new_chunk sample_table c dev') \<and>
     (True \<longrightarrow> (c = -1 \<longleftrightarrow> alloc_block sample_table < 0 \<and> n_erased_blocks sample_table = 0))"
  by (rule alloc_chunk_fresh [OF sample_table_inv])

text \<open>
  C30: \<^verbatim>\<open>yaffs_checkpt_erase\<close>, with any driver, whatever the driver's erasures and bad block
  markings do: no checkpoint block is left, the chunks in use are those before, and
  the counts of free chunks and erased blocks still match the tables.
\<close>

theorem checkpt_erase_keeps_counts:
  fixes dev :: "'n yaffs_dev"
  assumes "dev_inv dev"
  shows "\<exists>dev'. yaffs_checkpt_erase drv dev = Some dev' \<and> dev_inv dev' \<and> blocks_in_checkpt dev' = 0 \<and>
     used_pages dev' = used_pages dev \<and>
     (\<forall>c. blk_valid dev c \<longrightarrow> block_state (bi_of dev' c) \<noteq> YAFFS_BLOCK_STATE_CHECKPOINT)"
  using checkpt_erase_inv [OF assms, of "\<lambda>_. True" drv] by (auto simp: ckpt_gone_def)

definition null_driver :: "unit yaffs_driver" where
  "null_driver = \<lparr>drv_write_chunk_fn = (\<lambda>s c d n b. (1, s)),
     drv_read_chunk_fn = (\<lambda>s c d n b k. (1, d, b, YAFFS_ECC_RESULT_NO_ERROR, s)),
     drv_erase_fn = (\<lambda>s b. (1, s)), drv_mark_bad_fn = (\<lambda>s b. (1, s)), drv_check_bad_fn = (\<lambda>s b. (1, s)),
     drv_initialise_fn = None, drv_deinitialise_fn = None\<rparr>"

theorem checkpt_erase_keeps_counts_witness:
  "\<exists>dev'. yaffs_checkpt_erase null_driver sample_table = Some dev' \<and> dev_inv dev' \<and>
     blocks_in_checkpt dev' = 0 \<and> used_pages dev' = used_pages sample_table \<and>
     (\<forall>c. blk_valid sample_table c \<longrightarrow> block_state (bi_of dev' c) \<noteq> YAFFS_BLOCK_STATE_CHECKPOINT)"
  by (rule checkpt_erase_keeps_counts [OF sample_table_inv])

text \<open>
  A soft deletion of a chunk in a full, allocating or collected block, not all of
  whose pages are soft deleted, gives one free chunk to the count and changes no bit of
  the bitmap.
\<close>

theorem soft_del_chunk_counts:
  assumes "dev_inv dev" and "blk_valid dev (chunk div chunks_per_block (param dev))"
    and "block_state (bi_of dev (chunk div chunks_per_block (param dev)))
       \<in> {YAFFS_BLOCK_STATE_FULL, YAFFS_BLOCK_STATE_ALLOCATING, YAFFS_BLOCK_STATE_COLLECTING}"
    and "soft_del_pages (bi_of dev (chunk div chunks_per_block (param dev)))
       < pages_in_use (bi_of dev (chunk div chunks_per_block (param dev)))"
  shows "\<exists>dev'. yaffs_soft_del_chunk dev chunk = Some dev' \<and> dev_inv dev' \<and>
     n_free_chunks dev' = n_free_chunks dev + 1 \<and> used_pages dev' = used_pages dev"
  by (rule soft_del_chunk_inv [OF assms])

theorem soft_del_chunk_counts_witness:
  "\<exists>dev'. yaffs_soft_del_chunk sample_table 26 = Some dev' \<and> dev_inv dev' \<and>
     n_free_chunks dev' = n_free_chunks sample_table + 1 \<and> used_pages dev' = used_pages sample_table"
  by (rule soft_del_chunk_counts [OF sample_table_inv])
    (simp_all add: blk_valid_def bi_of_def bi_index_def sample_table_def sample_dev_def zero_dev_def
      zero_param_def zero_block_info_def)

end
