(* ===== verification/Yaffs_Nand.thy ===== *)
theory Yaffs_Nand
  imports Yaffs_Alloc
begin

text \<open>
  core/yaffs_nand.c and core/yaffs_summary.c: reading and writing chunks with their
  tags, and the summary of a block's tags that is written to its last chunks.

  The two files call each other: writing a chunk adds its tags to the summary, and the
  write of a complete summary writes chunks.  The chunks of a summary lie beyond the
  summarised ones, where adding does nothing, so the recursion is two levels deep:
  the inner level is \<open>wr_summary_chunk\<close>, whose \<open>summary_add_leaf\<close> returns None where a
  deeper level would be needed.
\<close>

section \<open>Errors\<close>

text \<open>The strikes are a three-bit field.\<close>

definition yaffs_handle_chunk_error :: "'n yaffs_dev \<Rightarrow> int \<Rightarrow> 'n yaffs_dev option" where
  "yaffs_handle_chunk_error dev blk =
     do { bi \<leftarrow> yaffs_get_block_info dev blk;
          if \<not> gc_prioritise bi then
            do { let strikes = chunk_error_strikes bi + 1;
                 dev \<leftarrow> upd_block_info dev blk (\<lambda>bi. bi\<lparr>gc_prioritise := True, chunk_error_strikes := strikes,
                           needs_retiring := (if strikes > 3 then True else needs_retiring bi)\<rparr>);
                 Some (dev\<lparr>has_pending_prioritised_gc := True\<rparr>) }
          else Some dev }"

section \<open>Reading\<close>

definition yaffs_rd_chunk_tags_nand ::
    "'n yaffs_tags_handler \<Rightarrow> 'n yaffs_dev \<Rightarrow> int \<Rightarrow> u8 list option \<Rightarrow> yaffs_ext_tags option \<Rightarrow>
     (int \<times> u8 list option \<times> yaffs_ext_tags option \<times> 'n yaffs_dev) option" where
  "yaffs_rd_chunk_tags_nand tg dev nand_chunk buffer tags =
     do { let flash_chunk = apply_chunk_offset dev nand_chunk;
          let dev = dev\<lparr>n_page_reads := n_page_reads dev + 1\<rparr>;
          let t = (case tags of None \<Rightarrow> stack_tags dev | Some t \<Rightarrow> t);
          (result, buffer, t, fl) \<leftarrow> read_chunk_tags_fn tg (flash dev) flash_chunk buffer (Some t);
          t \<leftarrow> t;
          let dev = dev\<lparr>flash := fl\<rparr>;
          dev \<leftarrow> (if ecc_result t > YAFFS_ECC_RESULT_NO_ERROR
                  then yaffs_handle_chunk_error dev (nand_chunk div chunks_per_block (param dev))
                  else Some dev);
          Some (result, buffer, map_option (\<lambda>_. t) tags, dev) }"

section \<open>Writing, given what adds to the summary\<close>

type_synonym 'n summary_adder = "'n yaffs_dev \<Rightarrow> yaffs_ext_tags \<Rightarrow> int \<Rightarrow> 'n yaffs_dev option"

definition wr_chunk_tags_nand_with ::
    "'n summary_adder \<Rightarrow> 'n yaffs_tags_handler \<Rightarrow> 'n yaffs_dev \<Rightarrow> int \<Rightarrow> u8 list option \<Rightarrow>
     yaffs_ext_tags option \<Rightarrow> (int \<times> yaffs_ext_tags option \<times> 'n yaffs_dev) option" where
  "wr_chunk_tags_nand_with summary_add tg dev nand_chunk buffer tags =
     (let flash_chunk = apply_chunk_offset dev nand_chunk;
          dev = dev\<lparr>n_page_writes := n_page_writes dev + 1\<rparr>
      in case tags of
           None \<Rightarrow> Some (YAFFS_FAIL, None, dev)
         | Some tags \<Rightarrow>
             do { let tags = tags\<lparr>seq_number := dev_seq_number dev, chunk_used := 1\<rparr>;
                  (result, d, fl) \<leftarrow> write_chunk_tags_fn tg (flash dev) flash_chunk buffer (Some tags);
                  dev \<leftarrow> summary_add (dev\<lparr>flash := fl\<rparr>) tags nand_chunk;
                  Some (result, Some tags, dev) })"

section \<open>Summaries\<close>

definition YAFFS_SUMMARY_VERSION :: u32 where "YAFFS_SUMMARY_VERSION = 1"

record yaffs_summary_header =
  sh_version :: u32
  sh_block :: u32
  sh_seq :: u32
  sh_sum :: u32

definition st_bytes :: "yaffs_summary_tags \<Rightarrow> u8 list" where
  "st_bytes st = u32_bytes (st_obj_id st) @ u32_bytes (st_chunk_id st) @ u32_bytes (st_n_bytes st)"

definition sum_bytes :: "yaffs_summary_tags list \<Rightarrow> u8 list" where
  "sum_bytes sts = concat (map st_bytes sts)"

definition sh_bytes :: "yaffs_summary_header \<Rightarrow> u8 list" where
  "sh_bytes h = u32_bytes (sh_version h) @ u32_bytes (sh_block h) @ u32_bytes (sh_seq h) @ u32_bytes (sh_sum h)"

definition zero_st :: yaffs_summary_tags where
  "zero_st = \<lparr>st_obj_id = 0, st_chunk_id = 0, st_n_bytes = 0\<rparr>"

definition yaffs_summary_clear :: "'n yaffs_dev \<Rightarrow> 'n yaffs_dev" where
  "yaffs_summary_clear dev =
     (case sum_tags dev of None \<Rightarrow> dev
      | Some st \<Rightarrow> dev\<lparr>sum_tags := Some (replicate (nat (chunks_per_summary dev)) zero_st)\<rparr>)"

definition yaffs_summary_deinit :: "'n yaffs_dev \<Rightarrow> 'n yaffs_dev" where
  "yaffs_summary_deinit dev = dev\<lparr>sum_tags := None, chunks_per_summary := 0\<rparr>"

text \<open>
  \<open>alloc_ok\<close>: both allocations succeed.  The division is that of unsigned numbers, which
  are positive here.
\<close>

definition yaffs_summary_init :: "bool \<Rightarrow> 'n yaffs_dev \<Rightarrow> int \<times> 'n yaffs_dev" where
  "yaffs_summary_init alloc_ok dev =
     (let sum_bytes = chunks_per_block (param dev) * 12;
          d = int (data_bytes_per_chunk dev);
          chunks_used = (sum_bytes + d - 1) div (d - 16);
          dev = dev\<lparr>chunks_per_summary := chunks_per_block (param dev) - chunks_used\<rparr>
      in if \<not> alloc_ok then (YAFFS_FAIL, yaffs_summary_deinit dev)
         else (YAFFS_OK, yaffs_summary_clear (dev\<lparr>sum_tags := Some []\<rparr>)))"

definition byte_sum :: "u8 list \<Rightarrow> u32" where
  "byte_sum bs = fold (\<lambda>b s. s + ucast b) bs 0"

definition yaffs_summary_sum :: "'n yaffs_dev \<Rightarrow> u32 option" where
  "yaffs_summary_sum dev =
     do { st \<leftarrow> sum_tags dev;
          bs \<leftarrow> buf_read (sum_bytes st) 0 (12 * nat (chunks_per_summary dev));
          Some (byte_sum bs) }"

definition chunk_in_block :: "'n yaffs_dev \<Rightarrow> int \<Rightarrow> int" where
  "chunk_in_block dev chunk = chunk mod chunks_per_block (param dev)"

definition summary_add_leaf :: "'n summary_adder" where
  "summary_add_leaf dev tags chunk =
     (case sum_tags dev of None \<Rightarrow> Some dev
      | Some st \<Rightarrow> if 0 \<le> chunk_in_block dev chunk \<and> chunk_in_block dev chunk < chunks_per_summary dev
                   then None else Some dev)"

definition wr_summary_chunk ::
    "'n yaffs_tags_handler \<Rightarrow> 'n yaffs_dev \<Rightarrow> int \<Rightarrow> u8 list option \<Rightarrow>
     yaffs_ext_tags option \<Rightarrow> (int \<times> yaffs_ext_tags option \<times> 'n yaffs_dev) option" where
  "wr_summary_chunk tg = wr_chunk_tags_nand_with summary_add_leaf tg"

text \<open>
  The do-while loop of \<^verbatim>\<open>yaffs_summary_write\<close>: \<open>rest\<close> are the bytes not yet written.
  Every round but a last empty one takes at least one byte, so the length of the
  bytes is fuel enough (\<open>sum_bytes_per_chunk\<close> is positive).
\<close>

fun summary_write_loop ::
    "nat \<Rightarrow> 'n yaffs_tags_handler \<Rightarrow> yaffs_summary_header \<Rightarrow> 'n yaffs_dev \<Rightarrow> int \<Rightarrow> u8 list \<Rightarrow>
     yaffs_ext_tags \<Rightarrow> int \<Rightarrow> int \<Rightarrow> u8 list \<Rightarrow> (int \<times> 'n yaffs_dev) option" where
  "summary_write_loop 0 tg hdr dev blk buffer tags chunk_in_nand chunk_in_blk rest = None"
| "summary_write_loop (Suc fuel) tg hdr dev blk buffer tags chunk_in_nand chunk_in_blk rest =
     do { let this_tx = min (length rest) (data_bytes_per_chunk dev - 16);
          buffer \<leftarrow> buf_write buffer 0 (sh_bytes hdr);
          buffer \<leftarrow> buf_write buffer 16 (take this_tx rest);
          let tags = tags\<lparr>n_bytes := word_of_nat (this_tx + 16)\<rparr>;
          (result, t, dev) \<leftarrow> wr_summary_chunk tg dev chunk_in_nand (Some buffer) (Some tags);
          tags \<leftarrow> t;
          if result \<noteq> YAFFS_OK then Some (result, dev)
          else
            do { dev \<leftarrow> yaffs_set_chunk_bit dev blk chunk_in_blk;
                 dev \<leftarrow> upd_block_info dev blk (\<lambda>bi. bi\<lparr>pages_in_use := s10 (pages_in_use bi + 1)\<rparr>);
                 let dev = dev\<lparr>n_free_chunks := n_free_chunks dev - 1\<rparr>;
                 let rest = drop this_tx rest;
                 if rest \<noteq> [] then
                   summary_write_loop fuel tg hdr dev blk buffer (tags\<lparr>chunk_id := chunk_id tags + 1\<rparr>)
                     (chunk_in_nand + 1) (chunk_in_blk + 1) rest
                 else Some (result, dev) } }"

definition yaffs_summary_write ::
    "'n yaffs_tags_handler \<Rightarrow> 'n yaffs_dev \<Rightarrow> int \<Rightarrow> (int \<times> 'n yaffs_dev) option" where
  "yaffs_summary_write tg dev blk =
     do { bi \<leftarrow> yaffs_get_block_info dev blk;
          st \<leftarrow> sum_tags dev;
          s \<leftarrow> yaffs_summary_sum dev;
          let tags = zero_tags\<lparr>obj_id := YAFFS_OBJECTID_SUMMARY, chunk_id := 1\<rparr>;
          let chunk_in_nand = alloc_block dev * chunks_per_block (param dev) + chunks_per_summary dev;
          let hdr = \<lparr>sh_version = YAFFS_SUMMARY_VERSION, sh_block = word_of_int blk,
                     sh_seq = bi_seq_number bi, sh_sum = s\<rparr>;
          bytes \<leftarrow> buf_read (sum_bytes st) 0 (12 * nat (chunks_per_summary dev));
          (result, dev) \<leftarrow> summary_write_loop (length bytes + 1) tg hdr dev blk (temp_content dev) tags
                             chunk_in_nand (chunks_per_summary dev) bytes;
          if result = YAFFS_OK
          then do { dev \<leftarrow> upd_block_info dev blk (\<lambda>bi. bi\<lparr>has_summary := True\<rparr>); Some (result, dev) }
          else Some (result, dev) }"

definition yaffs_summary_add :: "'n yaffs_tags_handler \<Rightarrow> 'n summary_adder" where
  "yaffs_summary_add tg dev tags chunk_in_nand =
     (let block_in_nand = chunk_in_nand div chunks_per_block (param dev);
          c = chunk_in_block dev chunk_in_nand
      in case sum_tags dev of None \<Rightarrow> Some dev
         | Some sts \<Rightarrow>
            if 0 \<le> c \<and> c < chunks_per_summary dev then
              let tags_only = yaffs_pack_tags2_tags_only (swap_endian dev) tags;
                  st = \<lparr>st_obj_id = pt_obj_id tags_only, st_chunk_id = pt_chunk_id tags_only,
                        st_n_bytes = pt_n_bytes tags_only\<rparr>
              in if nat c < length sts then
                   let dev = dev\<lparr>sum_tags := Some (sts[nat c := st])\<rparr>
                   in if c = chunks_per_summary dev - 1 then
                        do { (r, dev) \<leftarrow> yaffs_summary_write tg dev block_in_nand;
                             yaffs_skip_rest_of_block (yaffs_summary_clear dev) }
                      else Some dev
                 else None
            else Some dev)"

definition yaffs_wr_chunk_tags_nand ::
    "'n yaffs_tags_handler \<Rightarrow> 'n yaffs_dev \<Rightarrow> int \<Rightarrow> u8 list option \<Rightarrow>
     yaffs_ext_tags option \<Rightarrow> (int \<times> yaffs_ext_tags option \<times> 'n yaffs_dev) option" where
  "yaffs_wr_chunk_tags_nand tg = wr_chunk_tags_nand_with (yaffs_summary_add tg) tg"

text \<open>
  \<^verbatim>\<open>yaffs_summary_fetch\<close> does not set the sequence number of the packed tags it unpacks:
  it is what the stack holds.
\<close>

definition yaffs_summary_fetch ::
    "'n yaffs_dev \<Rightarrow> yaffs_ext_tags \<Rightarrow> int \<Rightarrow> (int \<times> yaffs_ext_tags) option" where
  "yaffs_summary_fetch dev tags c =
     (if 0 \<le> c \<and> c < chunks_per_summary dev then
        do { sts \<leftarrow> sum_tags dev;
             if nat c < length sts then
               let st = sts ! nat c;
                   tags_only = \<lparr>pt_seq_number = seq_number (stack_tags dev), pt_obj_id = st_obj_id st,
                                pt_chunk_id = st_chunk_id st, pt_n_bytes = st_n_bytes st\<rparr>
               in Some (YAFFS_OK, yaffs_unpack_tags2_tags_only (swap_endian dev) tags_only)
             else None }
      else Some (YAFFS_FAIL, tags))"

fun summary_gc_loop :: "nat \<Rightarrow> int \<Rightarrow> int \<Rightarrow> 'n yaffs_dev \<Rightarrow> 'n yaffs_dev option" where
  "summary_gc_loop 0 blk i dev = Some dev"
| "summary_gc_loop (Suc n) blk i dev =
     do { used \<leftarrow> yaffs_check_chunk_bit dev blk i;
          dev \<leftarrow> (if used then
                    do { dev \<leftarrow> yaffs_clear_chunk_bit dev blk i;
                         dev \<leftarrow> upd_block_info dev blk (\<lambda>bi. bi\<lparr>pages_in_use := s10 (pages_in_use bi - 1)\<rparr>);
                         Some (dev\<lparr>n_free_chunks := n_free_chunks dev + 1\<rparr>) }
                  else Some dev);
          summary_gc_loop n blk (i + 1) dev }"

definition yaffs_summary_gc :: "'n yaffs_dev \<Rightarrow> int \<Rightarrow> 'n yaffs_dev option" where
  "yaffs_summary_gc dev blk =
     do { bi \<leftarrow> yaffs_get_block_info dev blk;
          if \<not> has_summary bi then Some dev
          else summary_gc_loop (nat (chunks_per_block (param dev) - chunks_per_summary dev)) blk
                 (chunks_per_summary dev) dev }"

text \<open>
  The loop of \<^verbatim>\<open>yaffs_summary_read\<close>: \<open>n\<close> bytes are still to come, \<open>got\<close> are those read
  before; \<open>scanning\<close> says that the summary is read into \<^verbatim>\<open>dev->sum_tags\<close>.
\<close>

fun summary_read_loop ::
    "nat \<Rightarrow> 'n yaffs_tags_handler \<Rightarrow> bool \<Rightarrow> 'n yaffs_dev \<Rightarrow> int \<Rightarrow> u8 list \<Rightarrow> yaffs_summary_header \<Rightarrow>
     u32 \<Rightarrow> int \<Rightarrow> int \<Rightarrow> nat \<Rightarrow> u8 list \<Rightarrow>
     (int \<times> yaffs_summary_header \<times> u8 list \<times> 'n yaffs_dev) option" where
  "summary_read_loop 0 tg scanning dev blk buffer hdr cid chunk_in_nand chunk_in_blk n got = None"
| "summary_read_loop (Suc fuel) tg scanning dev blk buffer hdr cid chunk_in_nand chunk_in_blk n got =
     do { let this_tx = min n (data_bytes_per_chunk dev - 16);
          (result, b, t, dev) \<leftarrow> yaffs_rd_chunk_tags_nand tg dev chunk_in_nand (Some buffer)
                                    (Some (stack_tags dev));
          tags \<leftarrow> t;
          buffer \<leftarrow> b;
          let result = (if chunk_id tags \<noteq> cid \<or> obj_id tags \<noteq> YAFFS_OBJECTID_SUMMARY \<or> chunk_used tags = 0 \<or>
                           ecc_result tags > YAFFS_ECC_RESULT_FIXED \<or> n_bytes tags \<noteq> word_of_nat (this_tx + 16)
                        then YAFFS_FAIL else result);
          if result \<noteq> YAFFS_OK then Some (result, hdr, got, dev)
          else
            do { dev \<leftarrow> (if scanning then
                           do { dev \<leftarrow> yaffs_set_chunk_bit dev blk chunk_in_blk;
                                upd_block_info dev blk (\<lambda>bi. bi\<lparr>pages_in_use := s10 (pages_in_use bi + 1)\<rparr>) }
                         else Some dev);
                 h \<leftarrow> buf_read buffer 0 16;
                 let hdr = \<lparr>sh_version = u32_at h 0, sh_block = u32_at h 4, sh_seq = u32_at h 8,
                            sh_sum = u32_at h 12\<rparr>;
                 bs \<leftarrow> buf_read buffer 16 this_tx;
                 if n - this_tx > 0 then
                   summary_read_loop fuel tg scanning dev blk buffer hdr (cid + 1) (chunk_in_nand + 1)
                     (chunk_in_blk + 1) (n - this_tx) (got @ bs)
                 else Some (result, hdr, got @ bs, dev) } }"

definition st_of_bytes :: "u8 list \<Rightarrow> yaffs_summary_tags" where
  "st_of_bytes bs = \<lparr>st_obj_id = u32_at bs 0, st_chunk_id = u32_at bs 4, st_n_bytes = u32_at bs 8\<rparr>"

text \<open>The structures that the bytes read make of the old content \<open>st\<close>.\<close>

definition sts_of_bytes :: "u8 list \<Rightarrow> yaffs_summary_tags list \<Rightarrow> yaffs_summary_tags list" where
  "sts_of_bytes bs st =
     (let all = bs @ drop (length bs) (sum_bytes st)
      in map (\<lambda>i. st_of_bytes (take 12 (drop (12 * i) all))) [0..<length st])"

definition yaffs_summary_read ::
    "'n yaffs_tags_handler \<Rightarrow> bool \<Rightarrow> 'n yaffs_dev \<Rightarrow> yaffs_summary_tags list \<Rightarrow> int \<Rightarrow>
     (int \<times> yaffs_summary_tags list \<times> 'n yaffs_dev) option" where
  "yaffs_summary_read tg scanning dev st blk =
     do { bi \<leftarrow> yaffs_get_block_info dev blk;
          let n = 12 * nat (chunks_per_summary dev);
          let chunk_in_nand = blk * chunks_per_block (param dev) + chunks_per_summary dev;
          (result, hdr, bs, dev) \<leftarrow> summary_read_loop (n + 1) tg scanning dev blk (temp_content dev)
              \<lparr>sh_version = 0, sh_block = 0, sh_seq = 0, sh_sum = 0\<rparr> 1 chunk_in_nand
              (chunks_per_summary dev) n [];
          let st = sts_of_bytes bs st;
          let dev = (if scanning then dev\<lparr>sum_tags := Some st\<rparr> else dev);
          bi \<leftarrow> yaffs_get_block_info dev blk;
          result \<leftarrow> (if result = YAFFS_OK then
                       do { s \<leftarrow> yaffs_summary_sum dev;
                            Some (if sh_version hdr \<noteq> YAFFS_SUMMARY_VERSION \<or> sh_seq hdr \<noteq> bi_seq_number bi \<or>
                                     sh_sum hdr \<noteq> s then YAFFS_FAIL else result) }
                     else Some result);
          dev \<leftarrow> (if scanning \<and> result = YAFFS_OK
                  then upd_block_info dev blk (\<lambda>bi. bi\<lparr>has_summary := True\<rparr>) else Some dev);
          Some (result, st, dev) }"

section \<open>Other operations of yaffs_nand.c\<close>

definition yaffs_mark_bad :: "'n yaffs_tags_handler \<Rightarrow> 'n yaffs_dev \<Rightarrow> int \<Rightarrow> int \<times> 'n yaffs_dev" where
  "yaffs_mark_bad tg dev block_no =
     (let b = block_no - block_offset dev;
          dev = dev\<lparr>n_bad_markings := n_bad_markings dev + 1\<rparr>
      in if disable_bad_block_marking (param dev) then (YAFFS_OK, dev)
         else let (r, fl) = mark_bad_fn tg (flash dev) b in (r, dev\<lparr>flash := fl\<rparr>))"

definition yaffs_query_init_block_state ::
    "'n yaffs_tags_handler \<Rightarrow> 'n yaffs_dev \<Rightarrow> int \<Rightarrow> (int \<times> yaffs_block_state \<times> u32 \<times> 'n yaffs_dev) option" where
  "yaffs_query_init_block_state tg dev block_no =
     do { (r, state, seq, fl) \<leftarrow> query_block_fn tg (flash dev) (block_no - block_offset dev);
          Some (r, state, seq, dev\<lparr>flash := fl\<rparr>) }"

definition yaffs_erase_block :: "'n yaffs_driver \<Rightarrow> 'n yaffs_dev \<Rightarrow> int \<Rightarrow> int \<times> 'n yaffs_dev" where
  "yaffs_erase_block drv dev block_no =
     (let b = block_no - block_offset dev;
          dev = dev\<lparr>n_erasures := n_erasures dev + 1\<rparr>;
          (result, fl) = drv_erase_fn drv (flash dev) b
      in (result, dev\<lparr>flash := fl\<rparr>))"

definition yaffs_init_nand :: "'n yaffs_driver \<Rightarrow> 'n yaffs_dev \<Rightarrow> int \<times> 'n yaffs_dev" where
  "yaffs_init_nand drv dev =
     (case drv_initialise_fn drv of None \<Rightarrow> (YAFFS_OK, dev)
      | Some f \<Rightarrow> let (r, fl) = f (flash dev) in (r, dev\<lparr>flash := fl\<rparr>))"

definition yaffs_deinit_nand :: "'n yaffs_driver \<Rightarrow> 'n yaffs_dev \<Rightarrow> int \<times> 'n yaffs_dev" where
  "yaffs_deinit_nand drv dev =
     (case drv_deinitialise_fn drv of None \<Rightarrow> (YAFFS_OK, dev)
      | Some f \<Rightarrow> let (r, fl) = f (flash dev) in (r, dev\<lparr>flash := fl\<rparr>))"

end
