(* ===== verification/Yaffs_Write.thy ===== *)
theory Yaffs_Write
  imports Yaffs_Nand
begin

text \<open>
  Writing and deleting chunks (core/yaffs_guts.c): the check that a chunk is erased,
  the verification of a written one, the retirement of a bad block, what happens
  when the last chunk of a block is deleted, the deletion of a chunk, and the write
  of a new chunk with its retries.
\<close>

section \<open>Checking chunks\<close>

text \<open>\<^verbatim>\<open>yaffs_check_ff\<close> looks at the first \<open>n\<close> bytes of the buffer.\<close>

fun yaffs_check_ff :: "u8 list \<Rightarrow> nat \<Rightarrow> bool option" where
  "yaffs_check_ff buffer 0 = Some True"
| "yaffs_check_ff [] (Suc n) = None"
| "yaffs_check_ff (b # buffer) (Suc n) = (if b \<noteq> 0xff then Some False else yaffs_check_ff buffer n)"

definition yaffs_check_chunk_erased ::
    "'n yaffs_tags_handler \<Rightarrow> 'n yaffs_dev \<Rightarrow> int \<Rightarrow> (int \<times> 'n yaffs_dev) option" where
  "yaffs_check_chunk_erased tg dev nand_chunk =
     do { (result, data, tags, dev) \<leftarrow> yaffs_rd_chunk_tags_nand tg dev nand_chunk
            (Some (temp_content dev)) (Some (stack_tags dev));
          data \<leftarrow> data;
          tags \<leftarrow> tags;
          let retval = (if result = YAFFS_FAIL \<or> ecc_result tags > YAFFS_ECC_RESULT_NO_ERROR
                        then YAFFS_FAIL else YAFFS_OK);
          ff \<leftarrow> yaffs_check_ff data (data_bytes_per_chunk dev);
          Some (if \<not> ff \<or> chunk_used tags \<noteq> 0 then YAFFS_FAIL else retval, dev) }"

definition yaffs_verify_chunk_written ::
    "'n yaffs_tags_handler \<Rightarrow> 'n yaffs_dev \<Rightarrow> int \<Rightarrow> u8 list \<Rightarrow> yaffs_ext_tags \<Rightarrow>
     (int \<times> 'n yaffs_dev) option" where
  "yaffs_verify_chunk_written tg dev nand_chunk data tags =
     do { (result, buffer, temp_tags, dev) \<leftarrow> yaffs_rd_chunk_tags_nand tg dev nand_chunk
            (Some (temp_content dev)) (Some (stack_tags dev));
          buffer \<leftarrow> buffer;
          temp_tags \<leftarrow> temp_tags;
          a \<leftarrow> buf_read buffer 0 (data_bytes_per_chunk dev);
          b \<leftarrow> buf_read data 0 (data_bytes_per_chunk dev);
          Some (if result = YAFFS_FAIL \<or> a \<noteq> b \<or> obj_id temp_tags \<noteq> obj_id tags \<or>
                   chunk_id temp_tags \<noteq> chunk_id tags \<or> n_bytes temp_tags \<noteq> n_bytes tags
                then YAFFS_FAIL else YAFFS_OK, dev) }"

section \<open>Retiring a block\<close>

text \<open>The marker of a bad block, written where the driver could not mark it.\<close>

definition write_bad_marker :: "'n yaffs_tags_handler \<Rightarrow> 'n yaffs_dev \<Rightarrow> int \<Rightarrow> 'n yaffs_dev option" where
  "write_bad_marker tg dev flash_block =
     do { let cid = flash_block * chunks_per_block (param dev);
          buffer \<leftarrow> buf_write (temp_content dev) 0 (replicate (data_bytes_per_chunk dev) 0xff);
          let tags = zero_tags\<lparr>seq_number := YAFFS_SEQUENCE_BAD_BLOCK\<rparr>;
          (r, b, fl) \<leftarrow> write_chunk_tags_fn tg (flash dev) (cid - chunk_offset dev) (Some buffer) (Some tags);
          Some (dev\<lparr>flash := fl\<rparr>) }"

definition yaffs_retire_block ::
    "'n yaffs_driver \<Rightarrow> 'n yaffs_tags_handler \<Rightarrow> 'n yaffs_dev \<Rightarrow> int \<Rightarrow> 'n yaffs_dev option" where
  "yaffs_retire_block drv tg dev flash_block =
     do { yaffs_get_block_info dev flash_block;
          dev \<leftarrow> yaffs2_checkpt_invalidate drv dev;
          bi \<leftarrow> yaffs_get_block_info dev flash_block;
          let dev = yaffs2_clear_oldest_dirty_seq dev (Some bi);
          let (r, dev) = yaffs_mark_bad tg dev flash_block;
          dev \<leftarrow> (if r \<noteq> YAFFS_OK then
                    let (r, dev) = yaffs_erase_block drv dev flash_block
                    in if r \<noteq> YAFFS_OK then Some dev else write_bad_marker tg dev flash_block
                  else Some dev);
          dev \<leftarrow> upd_block_info dev flash_block (\<lambda>bi. bi\<lparr>block_state := YAFFS_BLOCK_STATE_DEAD,
                    gc_prioritise := False, needs_retiring := False\<rparr>);
          Some (dev\<lparr>n_retired_blocks := n_retired_blocks dev + 1\<rparr>) }"

section \<open>A block with no chunk in use\<close>

fun verify_erased_loop :: "'n yaffs_tags_handler \<Rightarrow> nat \<Rightarrow> int \<Rightarrow> 'n yaffs_dev \<Rightarrow> 'n yaffs_dev option" where
  "verify_erased_loop tg 0 chunk dev = Some dev"
| "verify_erased_loop tg (Suc n) chunk dev =
     do { (r, dev) \<leftarrow> yaffs_check_chunk_erased tg dev chunk; verify_erased_loop tg n (chunk + 1) dev }"

text \<open>The erased block, cleaned up.\<close>

definition clean_block :: "'n yaffs_dev \<Rightarrow> int \<Rightarrow> 'n yaffs_dev option" where
  "clean_block dev block_no =
     do { dev \<leftarrow> upd_block_info dev block_no (\<lambda>bi. bi\<lparr>block_state := YAFFS_BLOCK_STATE_EMPTY,
                    bi_seq_number := 0, pages_in_use := 0, soft_del_pages := 0, has_shrink_hdr := False,
                    skip_erased_check := True, gc_prioritise := False, has_summary := False\<rparr>);
          let dev = dev\<lparr>n_erased_blocks := n_erased_blocks dev + 1\<rparr>;
          yaffs_clear_chunk_bits dev block_no }"

definition yaffs_block_became_dirty ::
    "'n yaffs_driver \<Rightarrow> 'n yaffs_tags_handler \<Rightarrow> 'n yaffs_dev \<Rightarrow> int \<Rightarrow> 'n yaffs_dev option" where
  "yaffs_block_became_dirty drv tg dev block_no =
     do { bi \<leftarrow> yaffs_get_block_info dev block_no;
          let dev = yaffs2_clear_oldest_dirty_seq dev (Some bi);
          dev \<leftarrow> upd_block_info dev block_no (\<lambda>bi. bi\<lparr>block_state := YAFFS_BLOCK_STATE_DIRTY\<rparr>);
          let dev = (if block_no = gc_block dev then dev\<lparr>gc_block := 0\<rparr> else dev);
          let dev = (if block_no = gc_dirtiest dev then dev\<lparr>gc_dirtiest := 0, gc_pages_in_use := 0\<rparr> else dev);
          (erased_ok, dev) \<leftarrow>
            (if \<not> needs_retiring bi then
               do { dev \<leftarrow> yaffs2_checkpt_invalidate drv dev;
                    let (r, dev) = yaffs_erase_block drv dev block_no;
                    Some (r \<noteq> 0, if r = 0 then dev\<lparr>n_erase_failures := n_erase_failures dev + 1\<rparr> else dev) }
             else Some (False, dev));
          dev \<leftarrow> (if erased_ok \<and> verify_erasure dev
                  then verify_erased_loop tg (nat (chunks_per_block (param dev)))
                         (block_no * chunks_per_block (param dev)) dev
                  else Some dev);
          if \<not> erased_ok then
            yaffs_retire_block drv tg (dev\<lparr>n_free_chunks := n_free_chunks dev - chunks_per_block (param dev)\<rparr>)
              block_no
          else clean_block dev block_no }"

section \<open>Deleting a chunk\<close>

definition yaffs_chunk_del ::
    "'n yaffs_driver \<Rightarrow> 'n yaffs_tags_handler \<Rightarrow> 'n yaffs_dev \<Rightarrow> int \<Rightarrow> bool \<Rightarrow> 'n yaffs_dev option" where
  "yaffs_chunk_del drv tg dev cid mark_flash =
     (if cid \<le> 0 then Some dev
      else
        do { let dev = dev\<lparr>n_deletions := n_deletions dev + 1\<rparr>;
             let block = cid div chunks_per_block (param dev);
             let page = cid mod chunks_per_block (param dev);
             yaffs_check_chunk_bit dev block page;
             bi \<leftarrow> yaffs_get_block_info dev block;
             let dev = yaffs2_update_oldest_dirty_seq dev block bi;
             dev \<leftarrow> (if \<not> is_yaffs2 (param dev) \<and> mark_flash \<and> block_state bi \<noteq> YAFFS_BLOCK_STATE_COLLECTING
                     then do { (r, t, dev) \<leftarrow> yaffs_wr_chunk_tags_nand tg dev cid None
                                                (Some (zero_tags\<lparr>is_deleted := 1\<rparr>));
                               Some dev }
                     else Some (dev\<lparr>n_unmarked_deletions := n_unmarked_deletions dev + 1\<rparr>));
             bi \<leftarrow> yaffs_get_block_info dev block;
             if block_state bi = YAFFS_BLOCK_STATE_ALLOCATING \<or> block_state bi = YAFFS_BLOCK_STATE_FULL \<or>
                block_state bi = YAFFS_BLOCK_STATE_NEEDS_SCAN \<or> block_state bi = YAFFS_BLOCK_STATE_COLLECTING
             then
               do { let dev = dev\<lparr>n_free_chunks := n_free_chunks dev + 1\<rparr>;
                    dev \<leftarrow> yaffs_clear_chunk_bit dev block page;
                    dev \<leftarrow> upd_block_info dev block (\<lambda>bi. bi\<lparr>pages_in_use := s10 (pages_in_use bi - 1)\<rparr>);
                    bi \<leftarrow> yaffs_get_block_info dev block;
                    if pages_in_use bi = 0 \<and> \<not> has_shrink_hdr bi \<and>
                       block_state bi \<noteq> YAFFS_BLOCK_STATE_ALLOCATING \<and>
                       block_state bi \<noteq> YAFFS_BLOCK_STATE_NEEDS_SCAN
                    then yaffs_block_became_dirty drv tg dev block
                    else Some dev }
             else Some dev })"

definition yaffs_handle_chunk_wr_error ::
    "'n yaffs_driver \<Rightarrow> 'n yaffs_tags_handler \<Rightarrow> 'n yaffs_dev \<Rightarrow> int \<Rightarrow> bool \<Rightarrow> 'n yaffs_dev option" where
  "yaffs_handle_chunk_wr_error drv tg dev nand_chunk erased_ok =
     do { let flash_block = nand_chunk div chunks_per_block (param dev);
          dev \<leftarrow> yaffs_handle_chunk_error dev flash_block;
          dev \<leftarrow> (if erased_ok then upd_block_info dev flash_block (\<lambda>bi. bi\<lparr>needs_retiring := True\<rparr>)
                  else Some dev);
          dev \<leftarrow> yaffs_chunk_del drv tg dev nand_chunk True;
          yaffs_skip_rest_of_block dev }"

section \<open>Writing a new chunk\<close>

text \<open>
  One attempt on the chunk that was allocated: whether the write succeeded, the tags
  (which the write completes) and the device.  A chunk that is not erased leaves
  \<^verbatim>\<open>write_ok\<close> as the attempt before set it.
\<close>

definition write_attempt ::
    "'n yaffs_driver \<Rightarrow> 'n yaffs_tags_handler \<Rightarrow> u8 list \<Rightarrow> int \<Rightarrow> int \<Rightarrow> int \<Rightarrow> yaffs_ext_tags \<Rightarrow>
     'n yaffs_dev \<Rightarrow> (int \<times> yaffs_ext_tags \<times> 'n yaffs_dev) option" where
  "write_attempt drv tg data chunk blk write_ok tags dev =
     do { dev \<leftarrow> (if always_check_erased (param dev)
                  then upd_block_info dev blk (\<lambda>bi. bi\<lparr>skip_erased_check := False\<rparr>) else Some dev);
          bi \<leftarrow> yaffs_get_block_info dev blk;
          (erased_ok, dev) \<leftarrow> (if \<not> skip_erased_check bi then yaffs_check_chunk_erased tg dev chunk
                               else Some (0, dev));
          if \<not> skip_erased_check bi \<and> erased_ok \<noteq> YAFFS_OK then
            do { dev \<leftarrow> yaffs_chunk_del drv tg dev chunk True;
                 dev \<leftarrow> yaffs_skip_rest_of_block dev;
                 Some (write_ok, tags, dev) }
          else
            do { (write_ok, t, dev) \<leftarrow> yaffs_wr_chunk_tags_nand tg dev chunk (Some data) (Some tags);
                 tags \<leftarrow> t;
                 bi \<leftarrow> yaffs_get_block_info dev blk;
                 (write_ok, dev) \<leftarrow> (if \<not> skip_erased_check bi
                     then yaffs_verify_chunk_written tg dev chunk data tags else Some (write_ok, dev));
                 if write_ok \<noteq> YAFFS_OK then
                   do { dev \<leftarrow> yaffs_handle_chunk_wr_error drv tg dev chunk (erased_ok \<noteq> 0);
                        Some (write_ok, tags, dev) }
                 else
                   do { dev \<leftarrow> upd_block_info dev blk (\<lambda>bi. bi\<lparr>skip_erased_check := True\<rparr>);
                        Some (write_ok, tags, dev) } } }"

text \<open>
  The loop of \<^verbatim>\<open>yaffs_write_new_chunk\<close>.  Without a limit of attempts it may run for as
  long as the flash refuses every chunk: a loop that does not end is None.
\<close>

partial_function (option) write_new_loop ::
    "'n yaffs_driver \<Rightarrow> 'n yaffs_tags_handler \<Rightarrow> u8 list \<Rightarrow> bool \<Rightarrow> nat \<Rightarrow> int \<Rightarrow> yaffs_ext_tags \<Rightarrow>
     'n yaffs_dev \<Rightarrow> (int \<times> int \<times> nat \<times> yaffs_ext_tags \<times> 'n yaffs_dev) option" where
  "write_new_loop drv tg data use_reserver attempts write_ok tags dev =
     do { (chunk, blk, dev) \<leftarrow> yaffs_alloc_chunk dev use_reserver;
          if chunk < 0 then Some (chunk, write_ok, attempts, tags, dev)
          else
            do { let attempts = attempts + 1;
                 (write_ok, tags, dev) \<leftarrow> write_attempt drv tg data chunk blk write_ok tags dev;
                 if write_ok \<noteq> YAFFS_OK \<and> (yaffs_wr_attempts dev = 0 \<or> attempts \<le> yaffs_wr_attempts dev)
                 then write_new_loop drv tg data use_reserver attempts write_ok tags dev
                 else Some (chunk, write_ok, attempts, tags, dev) } }"

definition yaffs_write_new_chunk ::
    "'n yaffs_driver \<Rightarrow> 'n yaffs_tags_handler \<Rightarrow> 'n yaffs_dev \<Rightarrow> u8 list \<Rightarrow> yaffs_ext_tags \<Rightarrow> bool \<Rightarrow>
     (int \<times> yaffs_ext_tags \<times> 'n yaffs_dev) option" where
  "yaffs_write_new_chunk drv tg dev data tags use_reserver =
     do { dev \<leftarrow> yaffs2_checkpt_invalidate drv dev;
          (chunk, write_ok, attempts, tags, dev) \<leftarrow> write_new_loop drv tg data use_reserver 0 0 tags dev;
          let chunk = (if write_ok = 0 then -1 else chunk);
          let dev = (if attempts > 1
                     then dev\<lparr>n_retried_writes := n_retried_writes dev + word_of_nat (attempts - 1)\<rparr> else dev);
          Some (chunk, tags, dev) }"

end
