(* ===== verification/Yaffs_TagsMarshall.thy ===== *)
theory Yaffs_TagsMarshall
  imports Yaffs_RamSim
begin

text \<open>
  core/yaffs_tagsmarshall.c: the tag handler of yaffs2, which packs the tags of a
  chunk into the spare area of its page (with or without ECC) or, with inband tags,
  into the end of its data.  The driver is a parameter.  Memory the code reads
  without initialising it (the temporary buffer, the spare buffer and the tags on
  the stack, the padding of \<^verbatim>\<open>struct yaffs_packed_tags2\<close>) is part of the state, so
  that what holds, holds for every content.
\<close>

record marshall_param =
  mp_no_tags_ecc :: bool
  mp_inband_tags :: bool
  mp_swap_endian :: bool
  mp_total_bytes_per_chunk :: nat
  mp_data_bytes_per_chunk :: nat
  mp_chunks_per_block :: int

record 's marshall =
  m_drv :: 's
  m_n_ecc_fixed :: u32
  m_n_ecc_unfixed :: u32
  m_temp_buffer :: "u8 list"
  m_spare_buffer :: "u8 list"
  m_pad :: "u8 \<times> u8 \<times> u8"
  m_stack_ecc :: yaffs_ecc_other
  m_stack_tags :: yaffs_ext_tags

section \<open>The packed tags in the spare area\<close>

definition pt2_bytes :: "u8 \<times> u8 \<times> u8 \<Rightarrow> yaffs_packed_tags2 \<Rightarrow> u8 list" where
  "pt2_bytes pad pt = ptt_bytes (pt_t pt) @ [eo_col_parity (pt_ecc pt), fst pad, fst (snd pad), snd (snd pad)] @
     u32_bytes (eo_line_parity (pt_ecc pt)) @ u32_bytes (eo_line_parity_prime (pt_ecc pt))"

definition bytes_pt2 :: "u8 list \<Rightarrow> yaffs_packed_tags2" where
  "bytes_pt2 bs = \<lparr>pt_t = bytes_ptt (take 16 bs),
     pt_ecc = \<lparr>eo_col_parity = bs ! 16, eo_line_parity = u32_at bs 20,
               eo_line_parity_prime = u32_at bs 24\<rparr>\<rparr>"

definition packed_tags_size :: "marshall_param \<Rightarrow> nat" where
  "packed_tags_size p = (if mp_no_tags_ecc p then 16 else 28)"

section \<open>The operations\<close>

definition yaffs_tags_marshall_write ::
    "'s yaffs_driver \<Rightarrow> marshall_param \<Rightarrow> 's marshall \<Rightarrow> int \<Rightarrow> u8 list option \<Rightarrow>
     yaffs_ext_tags option \<Rightarrow> (int \<times> u8 list option \<times> 's marshall) option" where
  "yaffs_tags_marshall_write drv p m nand_chunk data tags =
     (case (data, tags) of
        (Some data, Some tags) \<Rightarrow>
          if mp_inband_tags p then
            do { data \<leftarrow> buf_write data (mp_data_bytes_per_chunk p)
                   (ptt_bytes (yaffs_pack_tags2_tags_only (mp_swap_endian p) tags));
                 b \<leftarrow> buf_read data 0 (mp_total_bytes_per_chunk p);
                 let (retval, s) = drv_write_chunk_fn drv (m_drv m) nand_chunk (Some b) (mp_total_bytes_per_chunk p) None;
                 Some (retval, Some data, m\<lparr>m_drv := s\<rparr>) }
          else
            do { let pt = yaffs_pack_tags2 (mp_swap_endian p) (m_stack_ecc m) tags (\<not> mp_no_tags_ecc p);
                 let oob = take (packed_tags_size p) (pt2_bytes (m_pad m) pt);
                 b \<leftarrow> buf_read data 0 (mp_total_bytes_per_chunk p);
                 let (retval, s) = drv_write_chunk_fn drv (m_drv m) nand_chunk (Some b) (mp_total_bytes_per_chunk p) (Some oob);
                 Some (retval, Some data, m\<lparr>m_drv := s\<rparr>) }
      | _ \<Rightarrow> None)"

text \<open>
  The tags, ECC counters and return value after a successful read: \<open>ecc\<close> is the
  driver's verdict on the page.
\<close>

definition marshall_ecc_note ::
    "yaffs_ecc_result \<Rightarrow> yaffs_ext_tags option \<Rightarrow> 's marshall \<Rightarrow> yaffs_ext_tags option \<times> 's marshall" where
  "marshall_ecc_note ecc tags m =
     (case tags of None \<Rightarrow> (None, m)
      | Some t \<Rightarrow>
         let (t, m) = (if ecc = YAFFS_ECC_RESULT_UNFIXED
               then (t\<lparr>ecc_result := YAFFS_ECC_RESULT_UNFIXED\<rparr>, m\<lparr>m_n_ecc_unfixed := m_n_ecc_unfixed m + 1\<rparr>)
               else (t, m))
         in if ecc = YAFFS_ECC_RESULT_FIXED
            then (Some (if ecc_result t \<le> YAFFS_ECC_RESULT_NO_ERROR
                        then t\<lparr>ecc_result := YAFFS_ECC_RESULT_FIXED\<rparr> else t),
                  m\<lparr>m_n_ecc_fixed := m_n_ecc_fixed m + 1\<rparr>)
            else (Some t, m))"

definition yaffs_tags_marshall_read ::
    "'s yaffs_driver \<Rightarrow> marshall_param \<Rightarrow> 's marshall \<Rightarrow> int \<Rightarrow> u8 list option \<Rightarrow>
     yaffs_ext_tags option \<Rightarrow> (int \<times> u8 list option \<times> yaffs_ext_tags option \<times> 's marshall) option" where
  "yaffs_tags_marshall_read drv p m nand_chunk data tags =
     (let local_data = mp_inband_tags p \<and> data = None;
          buf = (if local_data then Some (m_temp_buffer m) else data);
          read = (if mp_inband_tags p \<or> (buf \<noteq> None \<and> tags = None) then
                    Some (drv_read_chunk_fn drv (m_drv m) nand_chunk buf (mp_total_bytes_per_chunk p) None 0)
                  else if tags \<noteq> None then
                    Some (drv_read_chunk_fn drv (m_drv m) nand_chunk buf (mp_total_bytes_per_chunk p)
                            (Some (m_spare_buffer m)) (packed_tags_size p))
                  else None)
      in do {
        (retval, buf, oob, ecc, s) \<leftarrow> read;
        let m = m\<lparr>m_drv := s\<rparr>;
        let m = (if local_data then m\<lparr>m_temp_buffer := the buf\<rparr> else m);
        let data = (if local_data then None else buf);
        if retval = YAFFS_FAIL then Some (YAFFS_FAIL, data, tags, m)
        else do {
          tags \<leftarrow> (case tags of None \<Rightarrow> Some None
            | Some t \<Rightarrow>
               if mp_inband_tags p then
                 do { b \<leftarrow> buf; bs \<leftarrow> buf_read b (mp_data_bytes_per_chunk p) 16;
                      Some (Some (yaffs_unpack_tags2_tags_only (mp_swap_endian p) (bytes_ptt bs))) }
               else
                 do { b \<leftarrow> oob; bs \<leftarrow> buf_read b 0 (packed_tags_size p);
                      let pt = (if mp_no_tags_ecc p
                                then \<lparr>pt_t = bytes_ptt bs, pt_ecc = m_stack_ecc m\<rparr> else bytes_pt2 bs);
                      Some (Some (fst (yaffs_unpack_tags2 (mp_swap_endian p) pt (\<not> mp_no_tags_ecc p)))) });
          let (tags, m) = marshall_ecc_note ecc tags m;
          Some (if ecc < YAFFS_ECC_RESULT_UNFIXED then YAFFS_OK else YAFFS_FAIL, data, tags, m)
        }
      })"

text \<open>
  The result of the read is ignored, as in the code: after a failed read the tags
  are the uninitialised ones of the stack.
\<close>

definition yaffs_tags_marshall_query_block ::
    "'s yaffs_driver \<Rightarrow> marshall_param \<Rightarrow> 's marshall \<Rightarrow> int \<Rightarrow>
     (int \<times> yaffs_block_state \<times> u32 \<times> 's marshall) option" where
  "yaffs_tags_marshall_query_block drv p m block_no =
     (let (retval, s) = drv_check_bad_fn drv (m_drv m) block_no;
          m = m\<lparr>m_drv := s\<rparr>
      in if retval = YAFFS_FAIL then Some (retval, YAFFS_BLOCK_STATE_DEAD, 0, m)
         else do {
           (r, d, tags, m) \<leftarrow> yaffs_tags_marshall_read drv p m (block_no * mp_chunks_per_block p)
                                  None (Some (m_stack_tags m));
           t \<leftarrow> tags;
           if chunk_used t \<noteq> 0 then Some (retval, YAFFS_BLOCK_STATE_NEEDS_SCAN, seq_number t, m)
           else Some (retval, YAFFS_BLOCK_STATE_EMPTY, 0, m) })"

definition yaffs_tags_marshall_mark_bad ::
    "'s yaffs_driver \<Rightarrow> 's marshall \<Rightarrow> int \<Rightarrow> int \<times> 's marshall" where
  "yaffs_tags_marshall_mark_bad drv m block_no =
     (let (r, s) = drv_mark_bad_fn drv (m_drv m) block_no in (r, m\<lparr>m_drv := s\<rparr>))"

text \<open>\<^verbatim>\<open>yaffs_tags_marshall_install\<close> on a device with no handler of its own.\<close>

definition yaffs_tags_marshall_install ::
    "'s yaffs_driver \<Rightarrow> marshall_param \<Rightarrow> 's marshall yaffs_tags_handler" where
  "yaffs_tags_marshall_install drv p =
     \<lparr>write_chunk_tags_fn = yaffs_tags_marshall_write drv p,
      read_chunk_tags_fn = yaffs_tags_marshall_read drv p,
      query_block_fn = yaffs_tags_marshall_query_block drv p,
      mark_bad_fn = yaffs_tags_marshall_mark_bad drv\<rparr>"


section \<open>The handler keeps pages with their tags\<close>

lemma length_pt2_bytes [simp]: "length (pt2_bytes pad pt) = 28"
  by (simp add: pt2_bytes_def)

lemma bytes_pt2_pt2_bytes [simp]: "bytes_pt2 (pt2_bytes pad pt) = pt"
  by (simp add: bytes_pt2_def pt2_bytes_def u32_at_def u32_bytes_def nth_append)

lemma take_16_pt2_bytes [simp]: "take 16 (pt2_bytes pad pt) = ptt_bytes (pt_t pt)"
  by (simp add: pt2_bytes_def)

text \<open>What a read of the spare bytes makes of them.\<close>

definition oob_tags :: "marshall_param \<Rightarrow> yaffs_ecc_other \<Rightarrow> u8 list \<Rightarrow> yaffs_ext_tags" where
  "oob_tags p old bs =
     fst (yaffs_unpack_tags2 (mp_swap_endian p)
       (if mp_no_tags_ecc p then \<lparr>pt_t = bytes_ptt (take 16 bs), pt_ecc = old\<rparr> else bytes_pt2 (take 28 bs))
       (\<not> mp_no_tags_ecc p))"

text \<open>Without tags ECC the old ECC structure is not looked at.\<close>

lemma oob_tags_old: "oob_tags p old bs = oob_tags p zero bs"
  by (simp add: oob_tags_def yaffs_unpack_tags2_def)

definition marshall_content ::
    "marshall_param \<Rightarrow> ('s \<Rightarrow> int \<Rightarrow> u8 list \<times> u8 list) \<Rightarrow> 's marshall \<Rightarrow> int \<Rightarrow> u8 list \<times> yaffs_ext_tags" where
  "marshall_content p pg m c =
     (let (d, oob) = pg (m_drv m) c
      in (d, if mp_inband_tags p
             then yaffs_unpack_tags2_tags_only (mp_swap_endian p)
                    (bytes_ptt (take 16 (drop (mp_data_bytes_per_chunk p) d)))
             else oob_tags p (yaffs_ecc_calc_other []) oob))"

definition marshall_usable ::
    "marshall_param \<Rightarrow> ('s \<Rightarrow> int \<Rightarrow> bool) \<Rightarrow> 's marshall \<Rightarrow> int \<Rightarrow> bool" where
  "marshall_usable p good m c \<longleftrightarrow> good (m_drv m) c \<and> 28 \<le> length (m_spare_buffer m) \<and>
     length (m_temp_buffer m) = mp_total_bytes_per_chunk p"

locale marshall_store = page_store +
  fixes p :: marshall_param
  assumes total: "mp_total_bytes_per_chunk p = data_size"
    and inband: "mp_inband_tags p \<Longrightarrow> mp_data_bytes_per_chunk p + 16 \<le> data_size"
    and outband: "\<not> mp_inband_tags p \<Longrightarrow> 28 \<le> spare_size \<and> mp_data_bytes_per_chunk p \<le> data_size"
begin

abbreviation "mcontent \<equiv> marshall_content p pg"
abbreviation "musable \<equiv> marshall_usable p good"

lemma oob_tags_written:
  assumes "tags2_fits t"
  shows "oob_tags p old (take (packed_tags_size p) (pt2_bytes pad
       (yaffs_pack_tags2 (mp_swap_endian p) e t (\<not> mp_no_tags_ecc p))) @ rest) =
     (tags2_stored t)\<lparr>ecc_result := YAFFS_ECC_RESULT_NO_ERROR\<rparr>"
proof -
  have "fst (yaffs_unpack_tags2 (mp_swap_endian p)
       (yaffs_pack_tags2 (mp_swap_endian p) e t (\<not> mp_no_tags_ecc p)) (\<not> mp_no_tags_ecc p)) =
     (tags2_stored t)\<lparr>ecc_result := YAFFS_ECC_RESULT_NO_ERROR\<rparr>" for e
    by (rule packed_tags2_unpack_pack [OF assms])
  then show ?thesis
    by (cases "mp_no_tags_ecc p")
      (simp_all add: oob_tags_def packed_tags_size_def yaffs_pack_tags2_def yaffs_unpack_tags2_def Let_def)
qed

end

context marshall_store
begin

lemma marshall_write:
  assumes u: "musable m c" and d: "length data = data_size" and t: "tags2_fits t"
  shows "\<exists>d m' r. yaffs_tags_marshall_write drv p m c (Some data) (Some t) = Some (YAFFS_OK, Some d, m') \<and>
     length d = data_size \<and> take (mp_data_bytes_per_chunk p) (fst (mcontent m' c)) = take (mp_data_bytes_per_chunk p) data \<and>
     snd (mcontent m' c) = (tags2_stored t)\<lparr>ecc_result := r\<rparr> \<and> r \<le> YAFFS_ECC_RESULT_NO_ERROR \<and>
     (\<forall>c'. c' \<noteq> c \<longrightarrow> musable m c' \<longrightarrow> mcontent m' c' = mcontent m c') \<and> musable m' = musable m"
proof (cases "mp_inband_tags p")
  case True
  let ?db = "mp_data_bytes_per_chunk p"
  let ?bs = "ptt_bytes (yaffs_pack_tags2_tags_only (mp_swap_endian p) t)"
  let ?d = "take ?db data @ ?bs @ drop (?db + 16) data"
  have w: "buf_write data ?db ?bs = Some ?d" and l: "length ?d = data_size"
    using inband [OF True] d by (auto simp: buf_write_def)
  obtain s' where s': "drv_write_chunk_fn drv (m_drv m) c (Some ?d) data_size None = (YAFFS_OK, s')" "good s' = good (m_drv m)"
      "fst (pg s' c) = ?d" "\<And>c'. c' \<noteq> c \<Longrightarrow> good (m_drv m) c' \<Longrightarrow> pg s' c' = pg (m_drv m) c'"
    using write_data [OF _ l, of "m_drv m" c] u by (auto simp: marshall_usable_def)
  have r: "buf_read ?d 0 (mp_total_bytes_per_chunk p) = Some ?d"
    by (rule buf_read_whole) (simp only: l total)
  have wr: "yaffs_tags_marshall_write drv p m c (Some data) (Some t) =
      Some (YAFFS_OK, Some ?d, m\<lparr>m_drv := s'\<rparr>)"
    using True w r s'(1) by (simp add: yaffs_tags_marshall_write_def total)
  have db: "?db \<le> length data" "take 16 (drop ?db ?d) = ?bs" using inband [OF True] d by auto
  have f: "tags2_stored t = (tags2_stored t)\<lparr>ecc_result := YAFFS_ECC_RESULT_UNKNOWN\<rparr>"
    by (simp add: tags2_stored_def zero_tags_def Let_def)
  show ?thesis
    apply (intro exI [of _ ?d] exI [of _ "m\<lparr>m_drv := s'\<rparr>"] exI [of _ YAFFS_ECC_RESULT_UNKNOWN] conjI)
         apply (rule wr)
    using db l s'(2-4) True unpack_pack_tags_only [OF t] f
    by (auto simp: marshall_content_def marshall_usable_def fun_eq_iff ecc_result_order split: prod.split)
next
  case False
  let ?oob = "take (packed_tags_size p) (pt2_bytes (m_pad m)
    (yaffs_pack_tags2 (mp_swap_endian p) (m_stack_ecc m) t (\<not> mp_no_tags_ecc p)))"
  have o: "length ?oob \<le> spare_size" using outband [OF False] by (simp add: packed_tags_size_def)
  obtain s' where s': "drv_write_chunk_fn drv (m_drv m) c (Some data) data_size (Some ?oob) = (YAFFS_OK, s')"
      "good s' = good (m_drv m)"
      "pg s' c = (data, ?oob @ drop (length ?oob) (snd (pg (m_drv m) c)))"
      "\<And>c'. c' \<noteq> c \<Longrightarrow> good (m_drv m) c' \<Longrightarrow> pg s' c' = pg (m_drv m) c'"
    using write_page [OF _ d o, of "m_drv m" c] u by (auto simp: marshall_usable_def)
  have r: "buf_read data 0 (mp_total_bytes_per_chunk p) = Some data"
    using d total by (simp add: buf_read_def)
  have wr: "yaffs_tags_marshall_write drv p m c (Some data) (Some t) =
      Some (YAFFS_OK, Some data, m\<lparr>m_drv := s'\<rparr>)"
    using False r s'(1) by (simp add: yaffs_tags_marshall_write_def total)
  show ?thesis
    apply (intro exI [of _ data] exI [of _ "m\<lparr>m_drv := s'\<rparr>"] exI [of _ YAFFS_ECC_RESULT_NO_ERROR] conjI)
         apply (rule wr)
    using d s'(2-4) False oob_tags_written [OF t]
    by (auto simp: marshall_content_def marshall_usable_def fun_eq_iff split: prod.split)
qed

lemma marshall_read:
  assumes u: "musable m c" and b: "\<And>b. buf = Some b \<Longrightarrow> length b = data_size"
  shows "\<exists>m'. yaffs_tags_marshall_read drv p m c buf (Some t0) =
      Some (YAFFS_OK, map_option (\<lambda>_. fst (mcontent m c)) buf, Some (snd (mcontent m c)), m') \<and>
    mcontent m' = mcontent m \<and> musable m' = musable m"
proof -
  have g: "good (m_drv m) c" and sp: "28 \<le> length (m_spare_buffer m)"
    and tb: "length (m_temp_buffer m) = mp_total_bytes_per_chunk p"
    using u by (auto simp: marshall_usable_def)
  obtain d oob where pg: "pg (m_drv m) c = (d, oob)" and l: "length d = data_size" "length oob = spare_size"
    using pg_lengths [OF g] by (cases "pg (m_drv m) c") auto
  let ?sz = "packed_tags_size p"
  have sz: "?sz = 16 \<or> ?sz = 28" "?sz \<le> 28" by (auto simp: packed_tags_size_def)
  show ?thesis
  proof (cases "mp_inband_tags p")
    case True
    have br: "buf_read d (mp_data_bytes_per_chunk p) 16 = Some (take 16 (drop (mp_data_bytes_per_chunk p) d))"
      using inband [OF True] l by (simp add: buf_read_def)
    note rd = read_page [OF g, of _ None 0, simplified]
    show ?thesis
    proof (cases buf)
      case None
      then show ?thesis
        using True rd [of "Some (m_temp_buffer m)"] br total tb
        by (auto simp: yaffs_tags_marshall_read_def marshall_ecc_note_def marshall_content_def
            marshall_usable_def pg ecc_result_order fun_eq_iff Let_def split: prod.splits)
          (use l in auto)
    next
      case (Some x)
      then show ?thesis
        using True rd [of "Some x"] br total b
        by (auto simp: yaffs_tags_marshall_read_def marshall_ecc_note_def marshall_content_def
            marshall_usable_def pg ecc_result_order fun_eq_iff Let_def)
    qed
  next
    case False
    have br: "buf_read (take ?sz oob @ drop ?sz (m_spare_buffer m)) 0 ?sz = Some (take ?sz oob)"
      using outband [OF False] l sz(2) by (simp add: buf_read_def)
    have sz2: "?sz \<le> length (m_spare_buffer m)" "?sz \<le> spare_size" using sz sp outband [OF False] by auto
    have rd: "drv_read_chunk_fn drv (m_drv m) c buf data_size (Some (m_spare_buffer m)) ?sz =
        (YAFFS_OK, map_option (\<lambda>_. d) buf, Some (take ?sz oob @ drop ?sz (m_spare_buffer m)),
         YAFFS_ECC_RESULT_NO_ERROR, m_drv m)"
      using read_page [OF g, of buf "Some (m_spare_buffer m)" ?sz] b sz2 by (simp add: pg)
    have ot: "fst (yaffs_unpack_tags2 (mp_swap_endian p)
         (if mp_no_tags_ecc p then \<lparr>pt_t = bytes_ptt (take ?sz oob), pt_ecc = e\<rparr> else bytes_pt2 (take ?sz oob))
         (\<not> mp_no_tags_ecc p)) = oob_tags p (yaffs_ecc_calc_other []) oob" for e
      by (subst oob_tags_old [of p e, symmetric]) (simp add: oob_tags_def packed_tags_size_def)
    have "yaffs_tags_marshall_read drv p m c buf (Some t0) =
      Some (YAFFS_OK, map_option (\<lambda>_. fst (mcontent m c)) buf, Some (snd (mcontent m c)), m)"
      using False br ot
      by (simp add: yaffs_tags_marshall_read_def total rd marshall_ecc_note_def marshall_content_def pg
          ecc_result_order Let_def)
    then show ?thesis by auto
  qed
qed

end

sublocale marshall_store \<subseteq> tags: tag_store "yaffs_tags_marshall_install drv p"
    "marshall_content p pg" "marshall_usable p good" "mp_data_bytes_per_chunk p" data_size
proof
  fix n c
  assume "musable n c"
  then show "length (fst (mcontent n c)) = data_size"
    using pg_lengths [of "m_drv n" c] by (auto simp: marshall_usable_def marshall_content_def split: prod.split)
next
  fix n c t and data :: "u8 list"
  assume "musable n c" "length data = data_size" "tags2_fits t"
  then show "\<exists>d n' r. write_chunk_tags_fn (yaffs_tags_marshall_install drv p) n c (Some data) (Some t) =
        Some (YAFFS_OK, Some d, n') \<and> length d = data_size \<and>
      take (mp_data_bytes_per_chunk p) (fst (mcontent n' c)) = take (mp_data_bytes_per_chunk p) data \<and>
      snd (mcontent n' c) = (tags2_stored t)\<lparr>ecc_result := r\<rparr> \<and> r \<le> YAFFS_ECC_RESULT_NO_ERROR \<and>
      (\<forall>c'. c' \<noteq> c \<longrightarrow> musable n c' \<longrightarrow> mcontent n' c' = mcontent n c') \<and> musable n' = musable n"
    unfolding yaffs_tags_marshall_install_def yaffs_tags_handler.simps by (rule marshall_write)
next
  fix n c t0 and buf :: "u8 list"
  assume u: "musable n c" and "length buf = data_size"
  then show "\<exists>n'. read_chunk_tags_fn (yaffs_tags_marshall_install drv p) n c (Some buf) (Some t0) =
        Some (YAFFS_OK, Some (fst (mcontent n c)), Some (snd (mcontent n c)), n') \<and>
      mcontent n' = mcontent n \<and> musable n' = musable n"
    using marshall_read [OF u, of "Some buf" t0]
    unfolding yaffs_tags_marshall_install_def yaffs_tags_handler.simps by simp
next
  fix n c t0
  assume u: "musable n c"
  then show "\<exists>n'. read_chunk_tags_fn (yaffs_tags_marshall_install drv p) n c None (Some t0) =
        Some (YAFFS_OK, None, Some (snd (mcontent n c)), n') \<and>
      mcontent n' = mcontent n \<and> musable n' = musable n"
    using marshall_read [OF u, of None t0]
    unfolding yaffs_tags_marshall_install_def yaffs_tags_handler.simps by simp
qed

locale marshall_blocks = marshall_store + block_store +
  assumes chunks: "mp_chunks_per_block p = cpb"
begin

lemma marshall_query:
  assumes u: "musable m (b * cpb)"
  shows "\<exists>r st sq m'. yaffs_tags_marshall_query_block drv p m b = Some (r, st, sq, m') \<and>
    st \<noteq> YAFFS_BLOCK_STATE_DEAD \<and> mcontent m' = mcontent m \<and> musable m' = musable m"
proof -
  have g: "drv_check_bad_fn drv (m_drv m) b = (YAFFS_OK, m_drv m)"
    using u by (intro check_good) (simp add: marshall_usable_def)
  show ?thesis
    using marshall_read [OF u, of None "m_stack_tags m"] g
    by (auto simp: yaffs_tags_marshall_query_block_def chunks)
qed

end

sublocale marshall_blocks \<subseteq> stream: stream_store "yaffs_tags_marshall_install drv p"
    "marshall_content p pg" "marshall_usable p good" "mp_data_bytes_per_chunk p" data_size cpb
proof
  fix n b
  assume "musable n (b * cpb)"
  then show "\<exists>r st sq n'. query_block_fn (yaffs_tags_marshall_install drv p) n b = Some (r, st, sq, n') \<and>
      st \<noteq> YAFFS_BLOCK_STATE_DEAD \<and> mcontent n' = mcontent n \<and> musable n' = musable n"
    unfolding yaffs_tags_marshall_install_def yaffs_tags_handler.simps by (rule marshall_query)
qed

text \<open>The parameters with which \<^verbatim>\<open>yramsim_CreateRamSim\<close> sets a device up.\<close>

definition yramsim_param :: "bool \<Rightarrow> bool \<Rightarrow> marshall_param" where
  "yramsim_param no_tags_ecc swap_endian = \<lparr>mp_no_tags_ecc = no_tags_ecc, mp_inband_tags = False,
     mp_swap_endian = swap_endian, mp_total_bytes_per_chunk = DATA_SIZE,
     mp_data_bytes_per_chunk = DATA_SIZE, mp_chunks_per_block = int PAGES_PER_BLOCK\<rparr>"

interpretation ram_marshall: marshall_store yramsim_driver ram_content ram_good DATA_SIZE SPARE_SIZE
    "yramsim_param no_tags_ecc swap_endian" for no_tags_ecc swap_endian
  by unfold_locales (simp_all add: yramsim_param_def ram_consts)

interpretation ram_stream: marshall_blocks yramsim_driver ram_content ram_good DATA_SIZE SPARE_SIZE
    "yramsim_param no_tags_ecc swap_endian" "int PAGES_PER_BLOCK" for no_tags_ecc swap_endian
  by unfold_locales (simp_all add: yramsim_param_def)

text \<open>
  C23: on the RAM simulator, with or without tags ECC and in either byte order: a
  chunk written through the yaffs2 tag handler reads back with its data and its tags.
\<close>

theorem marshall_write_read:
  assumes "ram_good (m_drv m) c" and "28 \<le> length (m_spare_buffer m)"
    and "length (m_temp_buffer m) = DATA_SIZE" and "length data = DATA_SIZE" and "tags2_fits t"
    and "length buf = DATA_SIZE"
  shows "\<exists>d m' m'' r. yaffs_tags_marshall_write yramsim_driver (yramsim_param nte sw) m c (Some data) (Some t)
       = Some (YAFFS_OK, Some d, m') \<and>
     yaffs_tags_marshall_read yramsim_driver (yramsim_param nte sw) m' c (Some buf) (Some t0)
       = Some (YAFFS_OK, Some data, Some ((tags2_stored t)\<lparr>ecc_result := r\<rparr>), m'') \<and>
     r \<le> YAFFS_ECC_RESULT_NO_ERROR"
proof -
  have u: "marshall_usable (yramsim_param nte sw) ram_good m c"
    using assms(1-3) by (simp add: marshall_usable_def yramsim_param_def)
  obtain d m' r where w: "yaffs_tags_marshall_write yramsim_driver (yramsim_param nte sw) m c (Some data) (Some t)
       = Some (YAFFS_OK, Some d, m')"
    and c: "take DATA_SIZE (fst (marshall_content (yramsim_param nte sw) ram_content m' c)) = data"
      "snd (marshall_content (yramsim_param nte sw) ram_content m' c) = (tags2_stored t)\<lparr>ecc_result := r\<rparr>"
      "r \<le> YAFFS_ECC_RESULT_NO_ERROR"
      "marshall_usable (yramsim_param nte sw) ram_good m' = marshall_usable (yramsim_param nte sw) ram_good m"
    using ram_marshall.marshall_write [OF u assms(4,5)] assms(4) by (auto simp: yramsim_param_def)
  have u': "marshall_usable (yramsim_param nte sw) ram_good m' c" using u c(4) by simp
  then have g: "ram_good (m_drv m') c" by (simp add: marshall_usable_def)
  have f: "fst (marshall_content (yramsim_param nte sw) ram_content m' c) = data"
    using c(1) ram.pg_lengths [OF g] by (simp add: marshall_content_def split: prod.splits)
  show ?thesis
    using ram_marshall.marshall_read [OF u', of "Some buf" t0] assms(6) w c(2,3) f by auto
qed

definition sample_marshall :: "sim_data marshall" where
  "sample_marshall = \<lparr>m_drv = yramsim_alloc_sim_data 2, m_n_ecc_fixed = 0, m_n_ecc_unfixed = 0,
     m_temp_buffer = replicate DATA_SIZE 0, m_spare_buffer = replicate 100 0, m_pad = (0, 0, 0),
     m_stack_ecc = yaffs_ecc_calc_other [], m_stack_tags = zero_tags\<rparr>"

lemma sample_marshall_good: "ram_good (m_drv sample_marshall) 70"
  by (auto simp: sample_marshall_def yramsim_alloc_sim_data_def ram_good_def ram_chunk_ok_def
      erased_ram_block_def PAGES_PER_BLOCK_def)

theorem marshall_write_read_witness:
  "\<exists>d m' m'' r. yaffs_tags_marshall_write yramsim_driver (yramsim_param False True) sample_marshall 70
       (Some (replicate DATA_SIZE 7)) (Some sample_tags) = Some (YAFFS_OK, Some d, m') \<and>
     yaffs_tags_marshall_read yramsim_driver (yramsim_param False True) m' 70
       (Some (replicate DATA_SIZE 0)) (Some zero_tags)
       = Some (YAFFS_OK, Some (replicate DATA_SIZE 7), Some ((tags2_stored sample_tags)\<lparr>ecc_result := r\<rparr>), m'') \<and>
     r \<le> YAFFS_ECC_RESULT_NO_ERROR"
  by (rule marshall_write_read [OF sample_marshall_good])
    (simp_all add: sample_marshall_def sample_tags_fit)

end
