(* ===== verification/Yaffs_Page_Step.thy ===== *)
theory Yaffs_Page_Step
  imports Yaffs_Keeps
begin

text \<open>
  The step all the operations share: one page of a block more, or less, in use.
\<close>

definition page_step :: "'n yaffs_dev \<Rightarrow> int \<Rightarrow> (int set \<Rightarrow> int set) \<Rightarrow> 'n yaffs_dev \<Rightarrow> bool" where
  "page_step dev b f e \<longleftrightarrow> weak_inv e \<and> same_shape dev e \<and> flash e = flash dev \<and>
     alloc_block e = alloc_block dev \<and> alloc_page e = alloc_page dev \<and>
     (\<forall>c. blk_valid dev c \<longrightarrow>
        used_pages e c = (if c = b then f (used_pages dev c) else used_pages dev c) \<and>
        bi_of e c = (if c = b then (bi_of dev c)\<lparr>pages_in_use := int (card (f (used_pages dev c)))\<rparr>
                     else bi_of dev c))"

lemma page_step_intro:
  fixes dev :: "'n yaffs_dev"
  assumes inv: "weak_inv dev" and b: "blk_valid dev b"
    and wf: "bits_wf (dev\<lparr>chunk_bits := bits\<rparr>)"
    and up: "\<And>c. blk_valid dev c \<Longrightarrow> used_pages (dev\<lparr>chunk_bits := bits\<rparr>) c
        = (if c = b then f (used_pages dev c) else used_pages dev c)"
    and st: "counted_state (block_state (bi_of dev b))" "block_state (bi_of dev b) \<noteq> YAFFS_BLOCK_STATE_EMPTY"
    and x: "x = (bi_of dev b)\<lparr>pages_in_use := int (card (f (used_pages dev b)))\<rparr>"
    and sd: "soft_del_pages (bi_of dev b) \<le> pages_in_use x"
    and e: "e = (put_bi (dev\<lparr>chunk_bits := bits\<rparr>) b x)
        \<lparr>n_free_chunks := n_free_chunks dev + pages_in_use (bi_of dev b) - pages_in_use x\<rparr>"
  shows "page_step dev b f e"
proof -
  note I = weak_invD [OF inv]
  let ?d = "dev\<lparr>chunk_bits := bits\<rparr>"
  have td: "table_wf ?d" "blk_valid ?d = blk_valid dev" "bi_of ?d = bi_of dev" "block_info ?d = block_info dev"
    using I(2) by (simp_all add: table_wf_def n_blocks_def blk_valid_def bi_of_def bi_index_def fun_eq_iff)
  have ncp: "block_state (bi_of dev b) \<noteq> YAFFS_BLOCK_STATE_CHECKPOINT" using st(1) by (auto simp: counted_state_def)
  have bi: "block_info e = block_info (put_bi dev b x)" by (simp add: e put_bi_def bi_index_def)
  have e2: "used_pages e c = used_pages ?d c" "blk_valid e = blk_valid dev" "param e = param dev" for c
    by (simp_all add: e used_pages_def chunk_in_use_def row_bit_def blk_valid_def fun_eq_iff)
  have eb: "bi_of e c = (if c = b then x else bi_of dev c)" if "blk_valid dev c" for c
    using bi_of_put [OF I(2) b that, of x] bi by (simp add: bi_of_def bi_index_def e)
  have B: "blk_inv dev b" by (rule I(4) [OF b])
  have "weak_inv e"
  proof (rule weak_inv_change [OF inv b, where dev' = e])
    show "core e = (block_info (put_bi dev b x), bits, chunk_bit_stride dev, param dev,
       internal_start_block dev, internal_end_block dev, alloc_block dev, alloc_page dev,
       n_free_chunks dev - free_of (chunks_per_block (param dev)) (bi_of dev b)
         + free_of (chunks_per_block (param dev)) x,
       n_erased_blocks dev - empty_of (bi_of dev b) + empty_of x)"
      using st bi by (simp add: core_def free_of_def empty_of_def x e)
    show "bits_wf e" using wf by (simp add: e bits_wf_def blk_valid_def row_bit_def)
    show "blk_inv e b" using B st(2) ncp sd up [OF b] e2(1) [of b] eb [OF b]
      by (simp add: blk_inv_def x e)
    show "\<And>c. blk_valid dev c \<Longrightarrow> c \<noteq> b \<Longrightarrow> used_pages e c = used_pages dev c"
      using up e2(1) by simp
    show "\<And>c. blk_valid dev c \<Longrightarrow> c \<noteq> b \<Longrightarrow>
       block_state (bi_of dev c) = YAFFS_BLOCK_STATE_ALLOCATING \<Longrightarrow> c = alloc_block dev"
      using I(4) by (auto simp: blk_inv_def)
    show "alloc_block dev \<ge> 0 \<longrightarrow> blk_valid e (alloc_block dev) \<and>
        block_state (bi_of e (alloc_block dev)) = YAFFS_BLOCK_STATE_ALLOCATING"
      using I(5,6) e2(2) eb by (auto simp: x)
  qed
  moreover have "same_shape dev e" by (simp add: e same_shape_def put_bi_def)
  ultimately show ?thesis using up e2 eb x by (simp add: page_step_def e put_bi_def)
qed

lemma bits_put_chunk_bits:
  "yaffs_set_chunk_bit dev b p = Some d \<Longrightarrow> \<exists>bits. d = dev\<lparr>chunk_bits := bits\<rparr>"
  "yaffs_clear_chunk_bit dev b p = Some d \<Longrightarrow> \<exists>bits. d = dev\<lparr>chunk_bits := bits\<rparr>"
  by (auto simp: yaffs_set_chunk_bit_def yaffs_clear_chunk_bit_def bits_put_def Let_def split: bind_splits)

text \<open>A page that was free is marked as in use, as \<^verbatim>\<open>yaffs_summary_write\<close> does.\<close>

lemma mark_page:
  fixes dev :: "'n yaffs_dev"
  assumes inv: "weak_inv dev" and v: "page_valid dev b p" and p: "p \<notin> used_pages dev b"
    and st: "counted_state (block_state (bi_of dev b))" "block_state (bi_of dev b) \<noteq> YAFFS_BLOCK_STATE_EMPTY"
  shows "\<exists>d e. yaffs_set_chunk_bit dev b p = Some d \<and>
     upd_block_info d b (\<lambda>bi. bi\<lparr>pages_in_use := s10 (pages_in_use bi + 1)\<rparr>) = Some e \<and>
     page_step dev b (insert p) (e\<lparr>n_free_chunks := n_free_chunks e - 1\<rparr>)"
proof -
  note I = weak_invD [OF inv]
  have b: "blk_valid dev b" using v by (simp add: page_valid_def)
  obtain d where d: "yaffs_set_chunk_bit dev b p = Some d" "bits_wf d"
    using bitmap.set_law [OF I(1) v] by blast
  obtain bits where bits: "d = dev\<lparr>chunk_bits := bits\<rparr>" using bits_put_chunk_bits(1) [OF d(1)] by blast
  have td: "table_wf d" "blk_valid d b" "bi_of d b = bi_of dev b"
    using I(2) b by (simp_all add: bits table_wf_def n_blocks_def blk_valid_def bi_of_def bi_index_def)
  let ?x = "(bi_of dev b)\<lparr>pages_in_use := int (card (insert p (used_pages dev b)))\<rparr>"
  have B: "blk_inv dev b" by (rule I(4) [OF b])
  have fin: "finite (used_pages dev b)" using used_pages_subset finite_subset by blast
  have x: "?x = (bi_of dev b)\<lparr>pages_in_use := pages_in_use (bi_of dev b) + 1\<rparr>"
    using B p fin by (simp add: blk_inv_def)
  have u: "upd_block_info d b (\<lambda>bi. bi\<lparr>pages_in_use := s10 (pages_in_use bi + 1)\<rparr>) = Some (put_bi d b ?x)"
    using upd_block_info_valid [OF td(1,2)] td(3) pages_fit_more [OF I(1) B v p] by (simp only: x)
  have "page_step dev b (insert p) ((put_bi d b ?x)\<lparr>n_free_chunks := n_free_chunks dev - 1\<rparr>)"
  proof (rule page_step_intro [OF inv b _ _ st refl])
    show "bits_wf (dev\<lparr>chunk_bits := bits\<rparr>)" using d(2) bits by simp
    show "used_pages (dev\<lparr>chunk_bits := bits\<rparr>) c
        = (if c = b then insert p (used_pages dev c) else used_pages dev c)" if "blk_valid dev c" for c
      using used_pages_set [OF I(1) v d(1) that] bits by simp
    show "soft_del_pages (bi_of dev b) \<le> pages_in_use ?x" using B by (simp only: x) (simp add: blk_inv_def)
    show "(put_bi d b ?x)\<lparr>n_free_chunks := n_free_chunks dev - 1\<rparr> =
        (put_bi (dev\<lparr>chunk_bits := bits\<rparr>) b ?x)
          \<lparr>n_free_chunks := n_free_chunks dev + pages_in_use (bi_of dev b) - pages_in_use ?x\<rparr>"
      by (simp only: x bits) simp
  qed
  moreover have "n_free_chunks (put_bi d b ?x) = n_free_chunks dev" by (simp add: bits)
  ultimately show ?thesis using d(1) u by auto
qed

text \<open>A page in use that is let go, as \<^verbatim>\<open>yaffs_chunk_del\<close> does.\<close>

lemma drop_page:
  fixes dev :: "'n yaffs_dev"
  assumes inv: "weak_inv dev" and v: "page_valid dev b p" and p: "p \<in> used_pages dev b"
    and st: "counted_state (block_state (bi_of dev b))" "block_state (bi_of dev b) \<noteq> YAFFS_BLOCK_STATE_EMPTY"
    and sd: "soft_del_pages (bi_of dev b) < pages_in_use (bi_of dev b)"
  shows "\<exists>d e. yaffs_clear_chunk_bit (dev\<lparr>n_free_chunks := n_free_chunks dev + 1\<rparr>) b p = Some d \<and>
     upd_block_info d b (\<lambda>bi. bi\<lparr>pages_in_use := s10 (pages_in_use bi - 1)\<rparr>) = Some e \<and>
     page_step dev b (\<lambda>u. u - {p}) e"
proof -
  note I = weak_invD [OF inv]
  let ?n = "dev\<lparr>n_free_chunks := n_free_chunks dev + 1\<rparr>"
  have b: "blk_valid dev b" using v by (simp add: page_valid_def)
  have n: "bits_wf ?n" "page_valid ?n b p" "blk_valid ?n = blk_valid dev" "used_pages ?n = used_pages dev"
    using I(1) v by (simp_all add: bits_wf_def blk_valid_def row_bit_def page_valid_def used_pages_def
        chunk_in_use_def fun_eq_iff)
  obtain d where d: "yaffs_clear_chunk_bit ?n b p = Some d" "bits_wf d"
    using bitmap.clear_law [OF n(1,2)] by blast
  obtain bits where bits: "d = ?n\<lparr>chunk_bits := bits\<rparr>" using bits_put_chunk_bits(2) [OF d(1)] by blast
  have td: "table_wf d" "blk_valid d b" "bi_of d b = bi_of dev b"
    using I(2) b by (simp_all add: bits table_wf_def n_blocks_def blk_valid_def bi_of_def bi_index_def)
  let ?x = "(bi_of dev b)\<lparr>pages_in_use := int (card (used_pages dev b - {p}))\<rparr>"
  have B: "blk_inv dev b" by (rule I(4) [OF b])
  have fin: "finite (used_pages dev b)" using used_pages_subset finite_subset by blast
  have c: "int (card (used_pages dev b)) = int (card (used_pages dev b - {p})) + 1"
    using card_Suc_Diff1 [OF fin p] by simp
  have x: "?x = (bi_of dev b)\<lparr>pages_in_use := pages_in_use (bi_of dev b) - 1\<rparr>"
    using B c by (simp add: blk_inv_def)
  have u: "upd_block_info d b (\<lambda>bi. bi\<lparr>pages_in_use := s10 (pages_in_use bi - 1)\<rparr>) = Some (put_bi d b ?x)"
    using upd_block_info_valid [OF td(1,2)] td(3) pages_fit(3) [OF I(1) B] by (simp only: x)
  have "page_step dev b (\<lambda>u. u - {p}) (put_bi d b ?x)"
  proof (rule page_step_intro [OF inv b _ _ st refl])
    show "bits_wf (dev\<lparr>chunk_bits := bits\<rparr>)" using d(2) bits by (simp add: bits_wf_def blk_valid_def row_bit_def)
    show "used_pages (dev\<lparr>chunk_bits := bits\<rparr>) c
        = (if c = b then used_pages dev c - {p} else used_pages dev c)" if "blk_valid dev c" for c
      using used_pages_clear [OF n(1,2) d(1), of c] bits n(3,4) that
      by (simp add: used_pages_def chunk_in_use_def row_bit_def)
    show "soft_del_pages (bi_of dev b) \<le> pages_in_use ?x" using sd by (simp only: x) simp
    show "put_bi d b ?x = (put_bi (dev\<lparr>chunk_bits := bits\<rparr>) b ?x)
          \<lparr>n_free_chunks := n_free_chunks dev + pages_in_use (bi_of dev b) - pages_in_use ?x\<rparr>"
      by (simp only: x bits) (simp add: put_bi_def bi_index_def)
  qed
  then show ?thesis using d(1) u by blast
qed

end
