(* ===== verification/Yaffs_Summary_Inv.thy ===== *)
theory Yaffs_Summary_Inv
  imports Yaffs_Page_Step Yaffs_Write
begin

text \<open>
  Writing keeps the invariant: the summary of a block, the write of an allocated chunk.
\<close>

section \<open>Summaries\<close>

text \<open>
  The summary fits: its chunks can hold the tags of the others
  (\<^verbatim>\<open>yaffs_summary_init\<close> chooses \<^verbatim>\<open>chunks_per_summary\<close> so).
\<close>

definition sum_ok :: "'n yaffs_dev \<Rightarrow> bool" where
  "sum_ok dev \<longleftrightarrow> (case sum_tags dev of None \<Rightarrow> True
     | Some st \<Rightarrow> 0 < chunks_per_summary dev \<and> chunks_per_summary dev < chunks_per_block (param dev) \<and>
         int (length st) = chunks_per_summary dev \<and> 16 < data_bytes_per_chunk dev \<and>
         12 * chunks_per_summary dev \<le>
           (chunks_per_block (param dev) - chunks_per_summary dev) * (int (data_bytes_per_chunk dev) - 16))"

lemma sum_ok_shape: "same_shape d e \<Longrightarrow> sum_ok d \<Longrightarrow> sum_ok e"
  by (auto simp: sum_ok_def same_shape_def split: option.splits)

text \<open>Pages from \<open>c\<close> on may have been added to one block.\<close>

definition block_grown :: "int \<Rightarrow> int \<Rightarrow> 'n yaffs_dev \<Rightarrow> 'n yaffs_dev \<Rightarrow> bool" where
  "block_grown blk c dev e \<longleftrightarrow> same_shape dev e \<and> weak_inv e \<and>
     alloc_block e = alloc_block dev \<and> alloc_page e = alloc_page dev \<and>
     (\<forall>b. blk_valid dev b \<longrightarrow> b \<noteq> blk \<longrightarrow> used_pages e b = used_pages dev b) \<and>
     used_pages dev blk \<subseteq> used_pages e blk \<and>
     (\<forall>p \<in> used_pages e blk. p \<in> used_pages dev blk \<or> c \<le> p) \<and>
     (\<forall>b. blk_valid dev b \<longrightarrow> block_state (bi_of e b) = block_state (bi_of dev b) \<and>
        soft_del_pages (bi_of e b) = soft_del_pages (bi_of dev b) \<and>
        pages_in_use (bi_of dev b) \<le> pages_in_use (bi_of e b))"

lemma block_grownD:
  assumes "block_grown blk c d e"
  shows "same_shape d e" "weak_inv e" "alloc_block e = alloc_block d" "alloc_page e = alloc_page d"
    "\<And>b. blk_valid d b \<Longrightarrow> b \<noteq> blk \<Longrightarrow> used_pages e b = used_pages d b"
    "\<And>p. p \<in> used_pages d blk \<Longrightarrow> p \<in> used_pages e blk"
    "\<And>p. p \<in> used_pages e blk \<Longrightarrow> p \<in> used_pages d blk \<or> c \<le> p"
    "\<And>b. blk_valid d b \<Longrightarrow> block_state (bi_of e b) = block_state (bi_of d b)"
    "\<And>b. blk_valid d b \<Longrightarrow> soft_del_pages (bi_of e b) = soft_del_pages (bi_of d b)"
    "\<And>b. blk_valid d b \<Longrightarrow> pages_in_use (bi_of d b) \<le> pages_in_use (bi_of e b)"
    "blk_valid e = blk_valid d" "param e = param d"
proof -
  show s: "same_shape d e" using assms by (simp add: block_grown_def)
  show "blk_valid e = blk_valid d" "param e = param d" using same_shapeD [OF s] by blast+
qed (use assms in \<open>auto simp: block_grown_def\<close>)

lemma block_grown_trans:
  assumes "block_grown blk c d e" and "block_grown blk c' e f" and "c \<le> c'"
  shows "block_grown blk c d f"
  unfolding block_grown_def
proof (intro conjI allI impI ballI subsetI)
  note D = block_grownD [OF assms(1)] and E = block_grownD [OF assms(2), unfolded D(11)]
  show "same_shape d f" by (rule same_shape_trans [OF D(1) E(1)])
  show "weak_inv f" by (rule E(2))
  show "alloc_block f = alloc_block d" "alloc_page f = alloc_page d" by (simp_all only: D(3,4) E(3,4))
  show "used_pages f b = used_pages d b" if "blk_valid d b" "b \<noteq> blk" for b
    by (simp only: D(5) [OF that] E(5) [OF that])
  show "p \<in> used_pages f blk" if "p \<in> used_pages d blk" for p by (rule E(6) [OF D(6) [OF that]])
  show "p \<in> used_pages d blk \<or> c \<le> p" if "p \<in> used_pages f blk" for p
    using D(7) [of p] E(7) [OF that] assms(3) by linarith
  fix b assume b: "blk_valid d b"
  show "block_state (bi_of f b) = block_state (bi_of d b)" "soft_del_pages (bi_of f b) = soft_del_pages (bi_of d b)"
    by (simp_all only: D(8,9) [OF b] E(8,9) [OF b])
  show "pages_in_use (bi_of d b) \<le> pages_in_use (bi_of f b)" using D(10) [OF b] E(10) [OF b] by linarith
qed

lemma keeps_block_grown:
  assumes "keeps d e" and "weak_inv d"
  shows "block_grown blk c d e"
  using keepsD(1-4) [OF assms(1)] keepsD(6) [OF assms(1)] keepsD(11) [OF assms(1) assms(2)]
  by (auto simp: block_grown_def same_counts_def)

lemma page_step_block_grown:
  assumes "page_step d b (insert p) e" and "weak_inv d" and "blk_valid d b" and "c \<le> p"
  shows "block_grown b c d e"
proof -
  have fin: "finite (used_pages d b)" using used_pages_subset finite_subset by blast
  have "blk_inv d b" using assms(2,3) by (simp add: weak_inv_def)
  then have "pages_in_use (bi_of d b) \<le> int (card (insert p (used_pages d b)))"
    using card_insert_le [of "used_pages d b" p] by (simp add: blk_inv_def)
  then show ?thesis using assms by (auto simp: block_grown_def page_step_def)
qed

lemma sh_bytes_length [simp]: "length (sh_bytes h) = 16"
  by (simp add: sh_bytes_def)

lemma sum_bytes_length [simp]: "length (sum_bytes sts) = 12 * length sts"
  by (induction sts) (simp_all add: sum_bytes_def st_bytes_def)

lemma buf_write_ok:
  "off + length src \<le> length buf \<Longrightarrow> \<exists>b. buf_write buf off src = Some b \<and> length b = length buf"
  by (simp add: buf_write_def)

context flash_total
begin

lemma wr_summary_chunk_keeps:
  assumes s: "sound dev" and l: "length buf = chunk_bytes"
    and c: "sum_tags dev = None \<or> chunks_per_summary dev \<le> chunk mod chunks_per_block (param dev)"
  shows "\<exists>r t e. wr_summary_chunk tg dev chunk (Some buf) (Some tags) = Some (r, Some t, e) \<and>
     keeps dev e \<and> sound e \<and> sum_tags e = sum_tags dev"
proof -
  let ?t = "tags\<lparr>seq_number := dev_seq_number dev, chunk_used := 1\<rparr>"
  obtain r b n where w: "write_chunk_tags_fn tg (flash dev) (apply_chunk_offset dev chunk) (Some buf) (Some ?t)
      = Some (r, b, n)" "ok n"
    using write_total [of "flash dev" buf] s l unfolding sound_def by blast
  let ?e = "dev\<lparr>n_page_writes := n_page_writes dev + 1, flash := n\<rparr>"
  have k: "keeps dev ?e"
    by (rule keeps_core) (simp_all add: core_def same_shape_def)
  have "summary_add_leaf ?e ?t chunk = Some ?e"
    using c by (auto simp: summary_add_leaf_def chunk_in_block_def split: option.splits)
  then have "wr_summary_chunk tg dev chunk (Some buf) (Some tags) = Some (r, Some ?t, ?e)"
    using w(1) by (simp add: wr_summary_chunk_def wr_chunk_tags_nand_with_def Let_def)
  moreover have "sound ?e" using s w(2) by (simp add: sound_def)
  ultimately show ?thesis using k by auto
qed

lemma summary_write_loop_inv:
  assumes "sound dev" and "weak_inv dev" and "blk_valid dev blk"
    and "block_state (bi_of dev blk) = YAFFS_BLOCK_STATE_ALLOCATING"
    and "length buffer = chunk_bytes" and "chunks_per_summary dev \<le> c" and "0 \<le> c"
    and "c < chunks_per_block (param dev)" and "\<forall>p \<in> used_pages dev blk. p < c"
    and "16 < data_bytes_per_chunk dev"
    and "int (length rest) \<le> (chunks_per_block (param dev) - c) * (int (data_bytes_per_chunk dev) - 16)"
    and "length rest < fuel" and "chunk_in_nand = blk * chunks_per_block (param dev) + c"
  shows "\<exists>r e. summary_write_loop fuel tg hdr dev blk buffer tags chunk_in_nand c rest = Some (r, e) \<and>
     sound e \<and> block_grown blk c dev e"
  using assms
proof (induction fuel arbitrary: dev buffer tags chunk_in_nand c rest)
  case (Suc fuel)
  let ?cpb = "chunks_per_block (param dev)" and ?n = "data_bytes_per_chunk dev - 16"
  let ?tx = "min (length rest) ?n"
  have n: "?n + 16 \<le> chunk_bytes" using Suc.prems(1,10) by (simp add: sound_def)
  obtain b1 where b1: "buf_write buffer 0 (sh_bytes hdr) = Some b1" "length b1 = chunk_bytes"
    using buf_write_ok [of 0 "sh_bytes hdr" buffer] Suc.prems(5) n by auto
  obtain b2 where b2: "buf_write b1 16 (take ?tx rest) = Some b2" "length b2 = chunk_bytes"
  proof -
    have "16 + length (take ?tx rest) \<le> length b1" using b1(2) n by simp
    from buf_write_ok [OF this] show ?thesis using that b1(2) by auto
  qed
  let ?t = "tags\<lparr>n_bytes := word_of_nat (?tx + 16)\<rparr>"
  have cm: "chunk_in_nand mod ?cpb = c" using Suc.prems(7,8,13) by simp
  obtain r t e where w: "wr_summary_chunk tg dev chunk_in_nand (Some b2) (Some ?t) = Some (r, Some t, e)"
    "keeps dev e" "sound e"
    using wr_summary_chunk_keeps [OF Suc.prems(1) b2(2), of chunk_in_nand ?t] Suc.prems(6) cm by auto
  note K = keepsD [OF w(2)]
  have g: "block_grown blk c dev e" by (rule keeps_block_grown [OF w(2) Suc.prems(2)])
  show ?case
  proof (cases "r = YAFFS_OK")
    case False
    then show ?thesis using b1(1) b2(1) w(1,3) g by (simp add: Let_def)
  next
    case True
    have we: "weak_inv e" by (rule K(11) [OF Suc.prems(2)])
    have be: "blk_valid e blk" "page_valid e blk c" "c \<notin> used_pages e blk"
        "block_state (bi_of e blk) = YAFFS_BLOCK_STATE_ALLOCATING"
      using Suc.prems(3,4,7,8,9) K(2,12,13) K(6) [OF Suc.prems(3)] by (auto simp: page_valid_def same_counts_def)
    obtain d f where st: "yaffs_set_chunk_bit e blk c = Some d"
        "upd_block_info d blk (\<lambda>bi. bi\<lparr>pages_in_use := s10 (pages_in_use bi + 1)\<rparr>) = Some f"
        "page_step e blk (insert c) (f\<lparr>n_free_chunks := n_free_chunks f - 1\<rparr>)"
      using mark_page [OF we be(2,3)] be(4) by (auto simp: counted_state_def)
    let ?f = "f\<lparr>n_free_chunks := n_free_chunks f - 1\<rparr>"
    have g2: "block_grown blk c dev ?f"
      by (rule block_grown_trans [OF g page_step_block_grown [OF st(3) we be(1) order_refl] order_refl])
    have sf: "sound ?f"
      using w(3) st(3) by (intro sound_cong [of ?f e]) (simp_all add: page_step_def sound_def)
    let ?rest = "drop ?tx rest"
    have loop: "summary_write_loop (Suc fuel) tg hdr dev blk buffer tags chunk_in_nand c rest =
      (if ?rest \<noteq> [] then summary_write_loop fuel tg hdr ?f blk b2 (t\<lparr>chunk_id := chunk_id t + 1\<rparr>)
          (chunk_in_nand + 1) (c + 1) ?rest else Some (r, ?f))"
      using True b1(1) b2(1) w(1) st(1,2) by (simp add: Let_def)
    show ?thesis
    proof (cases "?rest = []")
      case True
      then show ?thesis using loop sf g2 by simp
    next
      case False
      then have tx: "?tx = ?n" "?n < length rest" by auto
      have sh: "param ?f = param dev" "blk_valid ?f = blk_valid dev" "chunks_per_summary ?f = chunks_per_summary dev"
          "data_bytes_per_chunk ?f = data_bytes_per_chunk dev"
        using block_grownD(1,11,12) [OF g2] by (simp_all only:) (simp_all add: same_shape_def)
      have in_n: "int ?n = int (data_bytes_per_chunk dev) - 16" using Suc.prems(10) by simp
      have lr: "int (length ?rest) \<le> (?cpb - (c + 1)) * (int (data_bytes_per_chunk dev) - 16)"
        using Suc.prems(11) tx in_n by (simp add: algebra_simps)
      have "0 < int (length ?rest)" using False by simp
      then have "0 < (?cpb - (c + 1)) * (int (data_bytes_per_chunk dev) - 16)" using lr by linarith
      then have cl: "c + 1 < ?cpb" using Suc.prems(10) by (simp add: zero_less_mult_iff)
      have up: "\<forall>p \<in> used_pages ?f blk. p < c + 1"
        using st(3) be(1) K(2) Suc.prems(9) by (auto simp: page_step_def)
      have "\<exists>r' e'. summary_write_loop fuel tg hdr ?f blk b2 (t\<lparr>chunk_id := chunk_id t + 1\<rparr>)
          (chunk_in_nand + 1) (c + 1) ?rest = Some (r', e') \<and> sound e' \<and> block_grown blk (c + 1) ?f e'"
      proof (rule Suc.IH [OF sf])
        show "weak_inv ?f" by (rule block_grownD(2) [OF g2])
        show "block_state (bi_of ?f blk) = YAFFS_BLOCK_STATE_ALLOCATING"
          using block_grownD(8) [OF g2 Suc.prems(3)] Suc.prems(4) by simp
        show "length ?rest < fuel" using Suc.prems(10,12) tx by auto
        show "chunk_in_nand + 1 = blk * chunks_per_block (param ?f) + (c + 1)" using Suc.prems(13) sh(1) by simp
      qed (use sh Suc.prems(3,6,7,10) b2(2) cl up lr in simp_all)
      then obtain r' e' where e': "summary_write_loop fuel tg hdr ?f blk b2 (t\<lparr>chunk_id := chunk_id t + 1\<rparr>)
          (chunk_in_nand + 1) (c + 1) ?rest = Some (r', e')" "sound e'" "block_grown blk (c + 1) ?f e'" by blast
      have "block_grown blk c dev e'" by (rule block_grown_trans [OF g2 e'(3)]) simp
      then show ?thesis using loop False e'(1,2) by simp
    qed
  qed
qed simp

lemma summary_write_inv:
  assumes s: "sound dev" and w: "weak_inv dev" and blk: "alloc_block dev = blk" "blk_valid dev blk"
    and st: "block_state (bi_of dev blk) = YAFFS_BLOCK_STATE_ALLOCATING"
    and so: "sum_ok dev" "sum_tags dev = Some sts"
    and up: "\<forall>p \<in> used_pages dev blk. p < chunks_per_summary dev"
  shows "\<exists>r e. yaffs_summary_write tg dev blk = Some (r, e) \<and> sound e \<and>
     block_grown blk (chunks_per_summary dev) dev e"
proof -
  let ?c = "chunks_per_summary dev"
  have S: "0 < ?c" "?c < chunks_per_block (param dev)" "int (length sts) = ?c" "16 < data_bytes_per_chunk dev"
    "12 * ?c \<le> (chunks_per_block (param dev) - ?c) * (int (data_bytes_per_chunk dev) - 16)"
    using so by (simp_all add: sum_ok_def)
  have ls: "length (sum_bytes sts) = 12 * nat ?c" using S(3) by simp
  then have br: "buf_read (sum_bytes sts) 0 (12 * nat ?c) = Some (sum_bytes sts)" by (rule buf_read_whole)
  have gi: "yaffs_get_block_info dev blk = Some (bi_of dev blk)"
    by (rule get_block_info_valid [OF weak_invD(2) [OF w] blk(2)])
  let ?hdr = "\<lparr>sh_version = YAFFS_SUMMARY_VERSION, sh_block = word_of_int blk,
      sh_seq = bi_seq_number (bi_of dev blk), sh_sum = byte_sum (sum_bytes sts)\<rparr>"
  let ?t = "zero_tags\<lparr>obj_id := YAFFS_OBJECTID_SUMMARY, chunk_id := 1\<rparr>"
  have "\<exists>r e. summary_write_loop (length (sum_bytes sts) + 1) tg ?hdr dev blk (temp_content dev) ?t
      (alloc_block dev * chunks_per_block (param dev) + ?c) ?c (sum_bytes sts) = Some (r, e) \<and>
      sound e \<and> block_grown blk ?c dev e"
  proof (rule summary_write_loop_inv [OF s w blk(2) st])
    show "length (temp_content dev) = chunk_bytes" using s by (simp add: sound_def)
    show "int (length (sum_bytes sts)) \<le>
        (chunks_per_block (param dev) - ?c) * (int (data_bytes_per_chunk dev) - 16)"
      using S(1,3,5) by simp
  qed (use S up blk in auto)
  then obtain r e where e: "summary_write_loop (length (sum_bytes sts) + 1) tg ?hdr dev blk (temp_content dev) ?t
      (alloc_block dev * chunks_per_block (param dev) + ?c) ?c (sum_bytes sts) = Some (r, e)"
      "sound e" "block_grown blk ?c dev e" by blast
  note G = block_grownD [OF e(3)]
  let ?e = "put_bi e blk ((bi_of e blk)\<lparr>has_summary := True\<rparr>)"
  have te: "table_wf e" "blk_valid e blk" using weak_invD(2) [OF G(2)] blk(2) G(11) by simp_all
  have k: "keeps e ?e" by (rule keeps_put [OF te]) (simp add: same_counts_def)
  have g: "block_grown blk ?c dev ?e"
    by (rule block_grown_trans [OF e(3) keeps_block_grown [OF k G(2)] order_refl])
  have se: "sound ?e" by (rule sound_cong [OF _ keepsD(1) [OF k] e(2)]) (use e(2) in \<open>simp add: sound_def\<close>)
  have sum: "yaffs_summary_sum dev = Some (byte_sum (sum_bytes sts))"
    using so(2) br by (simp add: yaffs_summary_sum_def)
  have "yaffs_summary_write tg dev blk = (if r = YAFFS_OK then Some (r, ?e) else Some (r, e))"
    unfolding yaffs_summary_write_def gi so(2) sum br e(1) Let_def bind.bind_lunit prod.case
    using upd_block_info_valid [OF te] by simp
  then show ?thesis using e(2,3) g se by auto
qed

end

text \<open>What the write of the page that was just allocated leaves.\<close>

definition just_allocated :: "'n yaffs_dev \<Rightarrow> int \<Rightarrow> int \<Rightarrow> bool" where
  "just_allocated dev blk p \<longleftrightarrow> page_valid dev blk p \<and>
     alloc_block dev = (if p + 1 \<ge> chunks_per_block (param dev) then -1 else blk) \<and> alloc_page dev = p + 1 \<and>
     block_state (bi_of dev blk) \<in> {YAFFS_BLOCK_STATE_FULL, YAFFS_BLOCK_STATE_ALLOCATING}"

definition wrote :: "int \<Rightarrow> 'n yaffs_dev \<Rightarrow> 'n yaffs_dev \<Rightarrow> bool" where
  "wrote blk dev e \<longleftrightarrow> same_shape dev e \<and> dev_inv e \<and>
     (\<forall>b. blk_valid dev b \<longrightarrow> b \<noteq> blk \<longrightarrow> used_pages e b = used_pages dev b) \<and>
     used_pages dev blk \<subseteq> used_pages e blk \<and>
     block_state (bi_of e blk) \<in> {YAFFS_BLOCK_STATE_FULL, YAFFS_BLOCK_STATE_ALLOCATING} \<and>
     soft_del_pages (bi_of e blk) = soft_del_pages (bi_of dev blk) \<and>
     pages_in_use (bi_of dev blk) \<le> pages_in_use (bi_of e blk)"

lemma keeps_just_allocated: "keeps d e \<Longrightarrow> just_allocated d blk p \<Longrightarrow> just_allocated e blk p"
  using keepsD(3,4) [of d e] keepsD(6) [of d e blk] same_shapeD [OF keepsD(1), of d e]
  by (auto simp: just_allocated_def same_counts_def page_valid_def)

lemma keeps_wrote:
  assumes "keeps d e" and "dev_inv d" and "just_allocated d blk p"
  shows "wrote blk d e"
proof -
  have "blk_valid d blk" using assms(3) by (simp add: just_allocated_def page_valid_def)
  then show ?thesis
    using keepsD(1,2) [OF assms(1)] keepsD(6) [OF assms(1)] keepsD(10) [OF assms(1,2)] assms(3)
    by (auto simp: wrote_def just_allocated_def same_counts_def)
qed

lemma keeps_then_wrote:
  assumes "keeps d e" and "wrote blk e f" and "blk_valid d blk"
  shows "wrote blk d f"
proof -
  have "same_shape d f" using same_shape_trans [OF keepsD(1) [OF assms(1)], of f] assms(2) by (simp add: wrote_def)
  then show ?thesis
    using keepsD(2,13) [OF assms(1)] keepsD(6) [OF assms(1,3)] assms(2)
    by (auto simp: wrote_def same_counts_def)
qed

lemma summary_clear_core: "core (yaffs_summary_clear dev) = core dev"
  by (simp add: yaffs_summary_clear_def core_def split: option.splits)

lemma summary_clear_keeps:
  assumes "sum_ok dev"
  shows "keeps dev (yaffs_summary_clear dev)"
  by (rule keeps_core [OF summary_clear_core])
    (use assms in \<open>auto simp: yaffs_summary_clear_def same_shape_def sum_ok_def split: option.splits\<close>)

context flash_total
begin

lemma summary_add_inv:
  assumes s: "sound dev" and inv: "dev_inv dev" and so: "sum_ok dev"
    and ja: "just_allocated dev blk p" and c: "chunk = blk * chunks_per_block (param dev) + p"
  shows "\<exists>e. yaffs_summary_add tg dev tags chunk = Some e \<and> sound e \<and> wrote blk dev e \<and>
     (sum_tags dev = None \<or> p + 1 \<noteq> chunks_per_summary dev \<longrightarrow> keeps dev e)"
proof -
  let ?cpb = "chunks_per_block (param dev)" and ?cps = "chunks_per_summary dev"
  have p: "0 \<le> p" "p < ?cpb" "blk_valid dev blk" using ja by (simp_all add: just_allocated_def page_valid_def)
  have cm: "chunk_in_block dev chunk = p" "chunk div ?cpb = blk"
    using p(1,2) by (simp_all add: chunk_in_block_def c)
  have same: "wrote blk dev dev" by (rule keeps_wrote [OF keeps_refl inv ja])
  show ?thesis
  proof (cases "sum_tags dev = None \<or> \<not> p < ?cps")
    case True
    then have "yaffs_summary_add tg dev tags chunk = Some dev"
      using cm by (auto simp: yaffs_summary_add_def Let_def split: option.splits)
    then show ?thesis using s same keeps_refl by blast
  next
    case False
    then obtain sts where sts: "sum_tags dev = Some sts" and pc: "p < ?cps" by auto
    have S: "int (length sts) = ?cps" "?cps < ?cpb" using so sts by (simp_all add: sum_ok_def)
    define st where "st = (let tags_only = yaffs_pack_tags2_tags_only (swap_endian dev) tags
      in \<lparr>st_obj_id = pt_obj_id tags_only, st_chunk_id = pt_chunk_id tags_only, st_n_bytes = pt_n_bytes tags_only\<rparr>)"
    let ?d = "dev\<lparr>sum_tags := Some (sts[nat p := st])\<rparr>"
    have k: "keeps dev ?d" by (rule keeps_core) (simp_all add: core_def same_shape_def sts)
    note K = keepsD [OF k]
    have add: "yaffs_summary_add tg dev tags chunk = (if p = ?cps - 1 then
        do { (r, e) \<leftarrow> yaffs_summary_write tg ?d blk; yaffs_skip_rest_of_block (yaffs_summary_clear e) } else Some ?d)"
    proof -
      have "nat p < length sts" using pc p(1) S(1) by linarith
      then show ?thesis using cm sts pc p(1)
        by (cases "p = ?cps - 1") (simp_all add: yaffs_summary_add_def st_def Let_def)
    qed
    have sd: "sound ?d" using s by (simp add: sound_def)
    show ?thesis
    proof (cases "p = ?cps - 1")
      case False
      then show ?thesis using add sd keeps_wrote [OF k inv ja] k by auto
    next
      case True
      have ab: "alloc_block dev = blk" "alloc_page dev = ?cps" using ja S(2) True by (simp_all add: just_allocated_def)
      have b0: "0 < blk" using dev_invD(3) [OF inv] p(3) by (simp add: blk_valid_def)
      have A: "block_state (bi_of dev blk) = YAFFS_BLOCK_STATE_ALLOCATING" "\<forall>q \<in> used_pages dev blk. q < ?cps"
        using dev_invD(5) [OF inv] ab b0 by (simp_all add: alloc_inv_def)
      have wd: "weak_inv ?d" using K(11) inv by (simp add: dev_inv_weak)
      have "\<exists>r e. yaffs_summary_write tg ?d blk = Some (r, e) \<and> sound e \<and>
          block_grown blk (chunks_per_summary ?d) ?d e"
      proof (rule summary_write_inv [OF sd wd])
        show "block_state (bi_of ?d blk) = YAFFS_BLOCK_STATE_ALLOCATING"
          using K(6) [OF p(3)] A(1) by (simp add: same_counts_def)
        show "sum_ok ?d" by (rule sum_ok_shape [OF K(1) so])
        show "sum_tags ?d = Some (sts[nat p := st])" by simp
        show "alloc_block ?d = blk" "blk_valid ?d blk" using ab K(13) p(3) by simp_all
        show "\<forall>q \<in> used_pages ?d blk. q < chunks_per_summary ?d" using A(2) unfolding K(2) by simp
      qed
      then obtain r e where e: "yaffs_summary_write tg ?d blk = Some (r, e)" "sound e"
          "block_grown blk ?cps ?d e" by auto
      note G = block_grownD [OF e(3)]
      let ?e = "yaffs_summary_clear e"
      have soe: "sum_ok e" by (rule sum_ok_shape [OF G(1) sum_ok_shape [OF K(1) so]])
      have ke: "keeps e ?e" by (rule summary_clear_keeps [OF soe])
      have se: "sound ?e"
        using sound_cong [OF _ keepsD(1) [OF ke] e(2)] e(2)
        by (simp add: sound_def yaffs_summary_clear_def split: option.splits)
      obtain f where f: "yaffs_skip_rest_of_block ?e = Some f" "dev_inv f" "let_go ?e f"
        using skip_rest_of_block_inv [OF keepsD(11) [OF ke G(2)]] by blast
      have sf: "sound f" using sound_cong [of f ?e] f(3) se by (simp add: let_go_def sound_def)
      have shf: "same_shape dev f"
        using same_shape_trans [OF same_shape_trans [OF K(1) G(1)] same_shape_trans [OF keepsD(1) [OF ke], of f]] f(3)
        by (simp add: let_go_def)
      have v: "blk_valid ?e = blk_valid dev" using keepsD(13) [OF ke] G(11) K(13) by simp
      have up: "used_pages f = used_pages e" using f(3) keepsD(2) [OF ke] by (simp add: let_go_def)
      have bf: "bi_of f blk = bi_of ?e blk \<or> bi_of f blk = (bi_of ?e blk)\<lparr>block_state := YAFFS_BLOCK_STATE_FULL\<rparr>"
        using f(3) p(3) v by (auto simp: let_go_def)
      have be: "same_counts (bi_of ?e blk) (bi_of e blk)" using keepsD(6) [OF ke] G(11) K(13) p(3) by simp
      have dv: "blk_valid ?d blk" using p(3) K(13) by simp
      have "wrote blk dev f"
        unfolding wrote_def
      proof (intro conjI allI impI)
        show "used_pages f b = used_pages dev b" if "blk_valid dev b" "b \<noteq> blk" for b
          using G(5) [of b] that K(2,13) up by simp
        show "used_pages dev blk \<subseteq> used_pages f blk" using G(6) K(2) up by auto
        show "block_state (bi_of f blk) \<in> {YAFFS_BLOCK_STATE_FULL, YAFFS_BLOCK_STATE_ALLOCATING}"
          "soft_del_pages (bi_of f blk) = soft_del_pages (bi_of dev blk)"
          "pages_in_use (bi_of dev blk) \<le> pages_in_use (bi_of f blk)"
          using bf be G(8-10) [OF dv] K(6) [OF p(3)] A(1) by (auto simp: same_counts_def)
      qed (rule shf f(2))+
      then show ?thesis using add True e(1) f(1) sf sts by simp
    qed
  qed
qed

lemma wr_chunk_inv:
  assumes s: "sound dev" and inv: "dev_inv dev" and so: "sum_ok dev"
    and ja: "just_allocated dev blk p" and c: "chunk = blk * chunks_per_block (param dev) + p"
    and l: "length buf = chunk_bytes"
  shows "\<exists>r t e. yaffs_wr_chunk_tags_nand tg dev chunk (Some buf) (Some tags) = Some (r, Some t, e) \<and>
     (r = YAFFS_OK \<or> r = YAFFS_FAIL) \<and> sound e \<and> wrote blk dev e \<and>
     (sum_tags dev = None \<or> p + 1 \<noteq> chunks_per_summary dev \<longrightarrow> keeps dev e)"
proof -
  let ?t = "tags\<lparr>seq_number := dev_seq_number dev, chunk_used := 1\<rparr>"
  obtain r b n where w: "write_chunk_tags_fn tg (flash dev) (apply_chunk_offset dev chunk) (Some buf) (Some ?t)
      = Some (r, b, n)" "ok n" "r = YAFFS_OK \<or> r = YAFFS_FAIL"
    using write_total [of "flash dev" buf] s l unfolding sound_def by blast
  let ?d = "dev\<lparr>n_page_writes := n_page_writes dev + 1, flash := n\<rparr>"
  have k: "keeps dev ?d" by (rule keeps_core) (simp_all add: core_def same_shape_def)
  note K = keepsD [OF k]
  have sd: "sound ?d" using s w(2) by (simp add: sound_def)
  have "chunk = blk * chunks_per_block (param ?d) + p" using c by simp
  from summary_add_inv [OF sd K(10) [OF inv] sum_ok_shape [OF K(1) so] keeps_just_allocated [OF k ja] this, of ?t]
  obtain e where e: "yaffs_summary_add tg ?d ?t chunk = Some e" "sound e" "wrote blk ?d e"
      "sum_tags dev = None \<or> p + 1 \<noteq> chunks_per_summary dev \<longrightarrow> keeps ?d e" by auto
  have "yaffs_wr_chunk_tags_nand tg dev chunk (Some buf) (Some tags) = Some (r, Some ?t, e)"
    using w(1) e(1) by (simp add: yaffs_wr_chunk_tags_nand_def wr_chunk_tags_nand_with_def Let_def)
  moreover have "wrote blk dev e"
    by (rule keeps_then_wrote [OF k e(3)]) (use ja in \<open>simp add: just_allocated_def page_valid_def\<close>)
  ultimately show ?thesis using e(2,4) w(3) keeps_trans [OF k] by blast
qed

end

end
