(* ===== verification/Yaffs_Dirty_Inv.thy ===== *)
theory Yaffs_Dirty_Inv
  imports Yaffs_Summary_Inv
begin

text \<open>
  Deleting a chunk, and what follows when a block has no chunk in use any more: it is
  erased, or retired when the erasure fails.
\<close>

section \<open>With a count still to be taken off\<close>

lemma free_shift_get [simp]: "yaffs_get_block_info (free_shift k dev) b = yaffs_get_block_info dev b"
  by (simp add: yaffs_get_block_info_def free_shift_def bi_index_def)

lemma free_shift_upd:
  "upd_block_info (free_shift k dev) b f = map_option (free_shift k) (upd_block_info dev b f)"
  by (simp add: upd_block_info_def bi_index_def)
    (simp add: free_shift_def map_option_case split: option.split bind_split)

lemma checkpt_erase_block_shift:
  "checkpt_erase_block drv (free_shift k dev) i = map_option (free_shift k) (checkpt_erase_block drv dev i)"
proof -
  have c: "(free_shift k dev)\<lparr>n_erasures := n, flash := fl\<rparr> = free_shift k (dev\<lparr>n_erasures := n, flash := fl\<rparr>)"
    "(free_shift k dev)\<lparr>n_erasures := n\<rparr> = free_shift k (dev\<lparr>n_erasures := n\<rparr>)"
    "(free_shift k dev)\<lparr>flash := fl\<rparr> = free_shift k (dev\<lparr>flash := fl\<rparr>)"
    "n_erasures (free_shift k dev) = n_erasures dev"
    "apply_block_offset (free_shift k dev) i = apply_block_offset dev i" for n fl dev
    by (simp_all add: free_shift_def apply_block_offset_def)
  have e: "(free_shift k d)\<lparr>n_erased_blocks := n_erased_blocks (free_shift k d) + 1,
        n_free_chunks := n_free_chunks (free_shift k d) + chunks_per_block (param d)\<rparr> =
      free_shift k (d\<lparr>n_erased_blocks := n_erased_blocks d + 1,
        n_free_chunks := n_free_chunks d + chunks_per_block (param d)\<rparr>)" for d
    by (simp add: free_shift_def)
  show ?thesis
    unfolding checkpt_erase_block_def Let_def free_shift_get c free_shift_upd free_shift_funs(6)
    by (auto simp: c free_shift_upd e map_option_case split: option.split bind_split prod.split)
qed

lemma checkpt_erase_loop_shift:
  "checkpt_erase_loop drv n i (free_shift k dev) = map_option (free_shift k) (checkpt_erase_loop drv n i dev)"
proof (induction n arbitrary: i dev)
  case (Suc n)
  show ?case
    by (cases "checkpt_erase_block drv dev i") (simp_all add: checkpt_erase_block_shift Suc.IH)
qed simp

lemma checkpt_invalidate_shift:
  "yaffs2_checkpt_invalidate drv (free_shift k dev) = map_option (free_shift k) (yaffs2_checkpt_invalidate drv dev)"
proof -
  have c: "n_blocks (free_shift k d) = n_blocks d" "internal_start_block (free_shift k d) = internal_start_block d"
    "(free_shift k d)\<lparr>blocks_in_checkpt := 0\<rparr> = free_shift k (d\<lparr>blocks_in_checkpt := 0\<rparr>)"
    "(free_shift k d)\<lparr>is_checkpointed := False\<rparr> = free_shift k (d\<lparr>is_checkpointed := False\<rparr>)"
    "is_checkpointed (free_shift k d) = is_checkpointed d" "blocks_in_checkpt (free_shift k d) = blocks_in_checkpt d"
    for d :: "'a yaffs_dev"
    by (simp_all add: free_shift_def n_blocks_def)
  have e: "yaffs_checkpt_erase drv (free_shift k d) = map_option (free_shift k) (yaffs_checkpt_erase drv d)" for d
    by (cases "checkpt_erase_loop drv (n_blocks d) (internal_start_block d) d")
      (simp_all add: yaffs_checkpt_erase_def c checkpt_erase_loop_shift)
  show ?thesis by (simp add: yaffs2_checkpt_invalidate_def c e)
qed

lemma same_shape_shift: "same_shape (free_shift k d) (free_shift k e) = same_shape d e"
  by (simp add: same_shape_def free_shift_def)

lemma ckpt_gone_shift: "ckpt_gone (free_shift k d) (free_shift k e) = ckpt_gone d e"
  by (simp add: ckpt_gone_def same_shape_shift)

lemma oldest_dirty_shape:
  "same_shape dev (yaffs2_update_oldest_dirty_seq dev b bi)" "same_shape dev (yaffs2_clear_oldest_dirty_seq dev obi)"
  "flash (yaffs2_update_oldest_dirty_seq dev b bi) = flash dev" "flash (yaffs2_clear_oldest_dirty_seq dev obi) = flash dev"
  by (simp_all add: yaffs2_update_oldest_dirty_seq_def yaffs2_clear_oldest_dirty_seq_def
      yaffs_calc_oldest_dirty_seq_def yaffs2_find_oldest_dirty_seq_def same_shape_def Let_def
      split: prod.splits option.splits)

lemma oldest_dirty_keeps:
  "keeps dev (yaffs2_update_oldest_dirty_seq dev b bi)" "keeps dev (yaffs2_clear_oldest_dirty_seq dev obi)"
  by (rule keeps_core; simp add: oldest_dirty_shape)+

section \<open>A dirty block\<close>

text \<open>The state of one block that counts for nothing changes to another such.\<close>

lemma state_change_inv:
  assumes inv: "dev_inv dev" and b: "blk_valid dev b"
    and st: "block_state (bi_of dev b) \<noteq> YAFFS_BLOCK_STATE_ALLOCATING" "block_state (bi_of dev b) \<noteq> YAFFS_BLOCK_STATE_EMPTY"
    and x: "pages_in_use x = pages_in_use (bi_of dev b)" "soft_del_pages x = soft_del_pages (bi_of dev b)"
      "\<not> counted_state (block_state x)" "block_state x \<noteq> YAFFS_BLOCK_STATE_CHECKPOINT"
  shows "dev_inv (free_shift (free_of (chunks_per_block (param dev)) (bi_of dev b)) (put_bi dev b x))"
    (is "dev_inv ?d")
proof -
  note I = dev_invD [OF inv]
  have bo: "bi_of ?d c = (if c = b then x else bi_of dev c)" if "blk_valid dev c" for c
    using bi_of_put [OF I(2) b that, of x] by simp
  have xs: "block_state x \<noteq> YAFFS_BLOCK_STATE_ALLOCATING" "block_state x \<noteq> YAFFS_BLOCK_STATE_EMPTY"
    using x(3) by (auto simp: counted_state_def)
  show ?thesis
  proof (rule dev_inv_change [OF inv b, where dev' = ?d])
    show "core ?d = (block_info (put_bi dev b x), chunk_bits dev, chunk_bit_stride dev, param dev,
       internal_start_block dev, internal_end_block dev, alloc_block dev, alloc_page dev,
       n_free_chunks dev - free_of (chunks_per_block (param dev)) (bi_of dev b)
         + free_of (chunks_per_block (param dev)) x,
       n_erased_blocks dev - empty_of (bi_of dev b) + empty_of x)"
      using st x xs by (simp add: core_def free_shift_def free_of_def empty_of_def)
    show "bits_wf ?d" using I(1) by (simp add: bits_wf_def free_shift_def blk_valid_def row_bit_def)
    show "blk_inv ?d b" using I(4) [OF b] bo [OF b] x xs by (simp add: blk_inv_def)
    show "\<And>c. blk_valid dev c \<Longrightarrow> c \<noteq> b \<Longrightarrow>
       block_state (bi_of dev c) = YAFFS_BLOCK_STATE_ALLOCATING \<Longrightarrow> c = alloc_block dev"
      using I(4) by (auto simp: blk_inv_def)
    show "alloc_inv ?d" using I(5) bo st(1) by (auto simp: alloc_inv_def)
  qed simp
qed

text \<open>What became of the device when one block was cleaned or retired.\<close>

definition block_done :: "'n yaffs_dev \<Rightarrow> 'n yaffs_dev \<Rightarrow> bool" where
  "block_done dev e \<longleftrightarrow> same_shape dev e \<and> dev_inv e \<and> (\<forall>c. blk_valid dev c \<longrightarrow> used_pages e c = used_pages dev c)"

context flash_total
begin

lemma invalidate_inv:
  assumes "sound dev" and "dev_inv dev"
  shows "\<exists>e. yaffs2_checkpt_invalidate drv dev = Some e \<and> dev_inv e \<and> ckpt_gone dev e \<and> sound e"
proof -
  have "\<exists>e. yaffs2_checkpt_invalidate drv dev = Some e \<and> dev_inv e \<and> ckpt_gone dev e \<and> ok (flash e)"
    by (rule checkpt_invalidate_inv [where ok = ok])
      (use assms in \<open>simp_all add: sound_def erase_ok drv_mark_ok\<close>)
  then obtain e where "yaffs2_checkpt_invalidate drv dev = Some e" "dev_inv e" "ckpt_gone dev e" "ok (flash e)"
    by blast
  moreover from this have "sound e" using sound_cong [of e dev] assms(1) by (simp add: ckpt_gone_def)
  ultimately show ?thesis by blast
qed

lemma flash_step_keeps:
  assumes "sound dev" and "core e = core dev" and "same_shape dev e" and "ok (flash e)"
  shows "keeps dev e" "sound e"
  using keeps_core [OF assms(2,3)] sound_cong [OF assms(4,3,1)] by simp_all

lemma oldest_dirty_sound:
  assumes "sound dev"
  shows "sound (yaffs2_update_oldest_dirty_seq dev b bi)" "sound (yaffs2_clear_oldest_dirty_seq dev obi)"
  by (rule sound_cong [OF _ oldest_dirty_shape(1) assms], use assms in \<open>simp add: oldest_dirty_shape sound_def\<close>)
    (rule sound_cong [OF _ oldest_dirty_shape(2) assms], use assms in \<open>simp add: oldest_dirty_shape sound_def\<close>)

lemma mark_bad_keeps:
  assumes "sound dev"
  shows "keeps dev (snd (yaffs_mark_bad tg dev b))" "sound (snd (yaffs_mark_bad tg dev b))"
proof -
  have "core (snd (yaffs_mark_bad tg dev b)) = core dev" "same_shape dev (snd (yaffs_mark_bad tg dev b))"
    "ok (flash (snd (yaffs_mark_bad tg dev b)))"
    using assms mark_ok [of "flash dev"]
    by (simp_all add: yaffs_mark_bad_def Let_def core_def same_shape_def sound_def split: prod.split)
      (metis snd_conv)+
  then show "keeps dev (snd (yaffs_mark_bad tg dev b))" "sound (snd (yaffs_mark_bad tg dev b))"
    using flash_step_keeps [OF assms] by blast+
qed

lemma erase_block_keeps:
  assumes "sound dev"
  shows "keeps dev (snd (yaffs_erase_block drv dev b))" "sound (snd (yaffs_erase_block drv dev b))"
proof -
  have "core (snd (yaffs_erase_block drv dev b)) = core dev" "same_shape dev (snd (yaffs_erase_block drv dev b))"
    "ok (flash (snd (yaffs_erase_block drv dev b)))"
    using assms erase_ok [of "flash dev"]
    by (simp_all add: yaffs_erase_block_def Let_def core_def same_shape_def sound_def split: prod.split)
      (metis snd_conv)+
  then show "keeps dev (snd (yaffs_erase_block drv dev b))" "sound (snd (yaffs_erase_block drv dev b))"
    using flash_step_keeps [OF assms] by blast+
qed

lemma write_bad_marker_keeps:
  assumes s: "sound dev"
  shows "\<exists>e. write_bad_marker tg dev b = Some e \<and> keeps dev e \<and> sound e"
proof -
  let ?t = "zero_tags\<lparr>seq_number := YAFFS_SEQUENCE_BAD_BLOCK\<rparr>"
  have "0 + length (replicate (data_bytes_per_chunk dev) (0xff :: u8)) \<le> length (temp_content dev)"
    using s by (simp add: sound_def)
  from buf_write_ok [OF this] obtain buf where
    buf: "buf_write (temp_content dev) 0 (replicate (data_bytes_per_chunk dev) 0xff) = Some buf"
      "length buf = chunk_bytes" using s by (auto simp: sound_def)
  obtain r b' n where w: "write_chunk_tags_fn tg (flash dev) (b * chunks_per_block (param dev) - chunk_offset dev)
      (Some buf) (Some ?t) = Some (r, b', n)" "ok n"
    using write_total [of "flash dev" buf] s buf(2) unfolding sound_def by blast
  have "write_bad_marker tg dev b = Some (dev\<lparr>flash := n\<rparr>)"
    using buf(1) w(1) by (simp add: write_bad_marker_def Let_def)
  moreover have "keeps dev (dev\<lparr>flash := n\<rparr>)" "sound (dev\<lparr>flash := n\<rparr>)"
    by (rule flash_step_keeps [OF s]; use w(2) in \<open>simp add: core_def same_shape_def\<close>)+
  ultimately show ?thesis by blast
qed

lemma retire_block_inv:
  assumes s: "sound dev" and inv: "dev_inv dev" and b: "blk_valid dev b"
    and st: "block_state (bi_of dev b) = YAFFS_BLOCK_STATE_DIRTY"
  shows "\<exists>e. yaffs_retire_block drv tg dev b = Some e \<and> sound e \<and> block_done dev e"
proof -
  obtain d where d: "yaffs2_checkpt_invalidate drv dev = Some d" "dev_inv d" "ckpt_gone dev d" "sound d"
    using invalidate_inv [OF s inv] by blast
  have sd: "same_shape dev d" "used_pages d = used_pages dev" "bi_of d b = bi_of dev b"
    using d(3) b st by (simp_all add: ckpt_gone_def)
  have bd: "blk_valid d b" using b same_shapeD(2) [OF sd(1)] by simp
  let ?e = "yaffs2_clear_oldest_dirty_seq d (Some (bi_of dev b))"
  have ke: "keeps d ?e" by (rule oldest_dirty_keeps)
  have se: "sound ?e" by (rule oldest_dirty_sound(2) [OF d(4)])
  obtain r f where f: "yaffs_mark_bad tg ?e b = (r, f)" by (cases "yaffs_mark_bad tg ?e b")
  have kf: "keeps ?e f" "sound f" using mark_bad_keeps [OF se, of b] f by simp_all
  have "\<exists>g. (if r \<noteq> YAFFS_OK then
                    let (r, dev) = yaffs_erase_block drv f b
                    in if r \<noteq> YAFFS_OK then Some dev else write_bad_marker tg dev b
                  else Some f) = Some g \<and> keeps f g \<and> sound g"
  proof (cases "r = YAFFS_OK")
    case False
    obtain r' g where g: "yaffs_erase_block drv f b = (r', g)" by (cases "yaffs_erase_block drv f b")
    then have kg: "keeps f g" "sound g" using erase_block_keeps [OF kf(2), of b] by simp_all
    show ?thesis using False g kg write_bad_marker_keeps [OF kg(2), of b] keeps_trans [OF kg(1)]
      by (cases "r' = YAFFS_OK") auto
  qed (use kf(2) in simp)
  then obtain g where g: "(if r \<noteq> YAFFS_OK then
                    let (r, dev) = yaffs_erase_block drv f b
                    in if r \<noteq> YAFFS_OK then Some dev else write_bad_marker tg dev b
                  else Some f) = Some g" "keeps f g" "sound g" by blast
  have k: "keeps d g" by (rule keeps_trans [OF ke keeps_trans [OF kf(1) g(2)]])
  note K = keepsD [OF k]
  have ig: "dev_inv g" by (rule K(10) [OF d(2)])
  have bg: "blk_valid g b" using bd K(13) by simp
  have stg: "block_state (bi_of g b) = YAFFS_BLOCK_STATE_DIRTY"
    using K(6) [OF bd] sd(3) st by (simp add: same_counts_def)
  let ?x = "(bi_of g b)\<lparr>block_state := YAFFS_BLOCK_STATE_DEAD, gc_prioritise := False, needs_retiring := False\<rparr>"
  have "free_of (chunks_per_block (param g)) (bi_of g b) = 0" using stg by (simp add: free_of_def counted_state_def)
  then have ih: "dev_inv (put_bi g b ?x)"
    using state_change_inv [OF ig bg, of ?x] stg by (simp add: counted_state_def)
  let ?h = "(put_bi g b ?x)\<lparr>n_retired_blocks := n_retired_blocks g + 1\<rparr>"
  have ch: "core ?h = core (put_bi g b ?x)" by (simp add: core_def)
  have h: "dev_inv ?h" using ih core_inv [OF ch] by simp
  have shh: "same_shape g ?h" by (simp add: same_shape_def put_bi_def)
  have uph: "used_pages ?h = used_pages g" using core_funs(5) [OF ch] by simp
  have "yaffs_retire_block drv tg dev b = Some ?h"
    unfolding yaffs_retire_block_def get_block_info_valid [OF dev_invD(2) [OF inv] b] d(1) bind.bind_lunit
      get_block_info_valid [OF dev_invD(2) [OF d(2)] bd] Let_def sd(3) f prod.case g(1) [unfolded Let_def]
    using upd_block_info_valid [OF dev_invD(2) [OF ig] bg] by (simp add: put_bi_def)
  moreover have "sound ?h" using sound_cong [OF _ shh g(3)] g(3) by (simp add: sound_def)
  moreover have "same_shape dev ?h"
    using same_shape_trans [OF same_shape_trans [OF sd(1) K(1)] shh] .
  then have "block_done dev ?h" using h uph K(2) sd(2) by (simp add: block_done_def)
  ultimately show ?thesis by blast
qed

lemma verify_erased_loop_keeps:
  assumes "sound dev" and "table_wf dev" and "blk_valid dev b"
    and "chunk = b * chunks_per_block (param dev) + k" and "0 \<le> k" and "k + int n \<le> chunks_per_block (param dev)"
  shows "\<exists>e. verify_erased_loop tg n chunk dev = Some e \<and> keeps dev e \<and> sound e"
  using assms
proof (induction n arbitrary: chunk k dev)
  case (Suc n)
  have "chunk div chunks_per_block (param dev) = b" using Suc.prems(4-6) by simp
  then obtain r d where d: "yaffs_check_chunk_erased tg dev chunk = Some (r, d)" "keeps dev d" "sound d"
    using check_chunk_erased_keeps [OF Suc.prems(1,2), of chunk] Suc.prems(3) by auto
  note K = keepsD [OF d(2)]
  have "\<exists>e. verify_erased_loop tg n (chunk + 1) d = Some e \<and> keeps d e \<and> sound e"
    by (rule Suc.IH [where k = "k + 1"]) (use d(3) K(7,12,13) Suc.prems in auto)
  then show ?case using d(1) keeps_trans [OF d(2)] by auto
qed simp

end

lemma clean_block_inv:
  fixes dev :: "'n yaffs_dev"
  assumes inv: "dev_inv (free_shift (chunks_per_block (param dev)) dev)" and b: "blk_valid dev b"
    and st: "block_state (bi_of dev b) = YAFFS_BLOCK_STATE_DIRTY" and up: "used_pages dev b = {}"
  shows "\<exists>e. clean_block dev b = Some e \<and> flash e = flash dev \<and> block_done dev e"
proof -
  let ?s = "free_shift (chunks_per_block (param dev)) dev"
  let ?x = "(bi_of dev b)\<lparr>block_state := YAFFS_BLOCK_STATE_EMPTY, bi_seq_number := 0, pages_in_use := 0,
     soft_del_pages := 0, has_shrink_hdr := False, skip_erased_check := True, gc_prioritise := False,
     has_summary := False\<rparr>"
  have bs: "blk_valid ?s b" using b by simp
  note I = dev_invD [OF inv]
  have t: "table_wf dev" using I(2) by simp
  let ?p = "(put_bi dev b ?x)\<lparr>n_erased_blocks := n_erased_blocks dev + 1\<rparr>"
  have p: "bits_wf ?p" "blk_valid ?p b" "bits_wf dev"
    using I(1) b by (simp_all add: bits_wf_def blk_valid_def row_bit_def free_shift_def)
  obtain bits where c: "yaffs_clear_chunk_bits ?p b = Some (?p\<lparr>chunk_bits := bits\<rparr>)"
    "bits_wf (?p\<lparr>chunk_bits := bits\<rparr>)"
    "\<And>b' c'. page_valid ?p b' c' \<Longrightarrow> chunk_in_use (?p\<lparr>chunk_bits := bits\<rparr>) b' c' = (chunk_in_use ?p b' c' \<and> b' \<noteq> b)"
    using clear_chunk_bits_law [OF p(1,2)] by blast
  let ?e = "?p\<lparr>chunk_bits := bits\<rparr>"
  have "used_pages ?p = used_pages dev" by (simp add: used_pages_def chunk_in_use_def row_bit_def fun_eq_iff)
  moreover have "used_pages ?e c = (if c = b then {} else used_pages ?p c)" if "blk_valid dev c" for c
  proof -
    have "chunk_in_use ?e c q = (chunk_in_use ?p c q \<and> c \<noteq> b)" if "0 \<le> q" "q < chunks_per_block (param dev)" for q
      by (rule c(3)) (use that \<open>blk_valid dev c\<close> in \<open>simp add: page_valid_def blk_valid_def\<close>)
    then show ?thesis by (auto simp: used_pages_def)
  qed
  ultimately have ue: "used_pages ?e c = used_pages dev c" if "blk_valid dev c" for c using up that by simp
  have be: "bi_of ?e c = (if c = b then ?x else bi_of dev c)" if "blk_valid dev c" for c
    using bi_of_put [OF t b that, of ?x] by (simp add: bi_of_def bi_index_def)
  have "dev_inv ?e"
  proof (rule dev_inv_change [OF inv bs, where dev' = ?e])
    show "core ?e = (block_info (put_bi ?s b ?x), bits, chunk_bit_stride ?s, param ?s,
       internal_start_block ?s, internal_end_block ?s, alloc_block ?s, alloc_page ?s,
       n_free_chunks ?s - free_of (chunks_per_block (param ?s)) (bi_of ?s b)
         + free_of (chunks_per_block (param ?s)) ?x,
       n_erased_blocks ?s - empty_of (bi_of ?s b) + empty_of ?x)"
      using st by (simp add: core_def free_shift_def free_of_def counted_state_def empty_of_def bi_of_def
          bi_index_def put_bi_def)
    show "bits_wf ?e" by (rule c(2))
    show "\<And>c. blk_valid ?s c \<Longrightarrow> c \<noteq> b \<Longrightarrow> used_pages ?e c = used_pages ?s c" using ue by simp
    show "blk_inv ?e b" using be [OF b] ue [OF b] up by (simp add: blk_inv_def)
    show "\<And>c. blk_valid ?s c \<Longrightarrow> c \<noteq> b \<Longrightarrow>
       block_state (bi_of ?s c) = YAFFS_BLOCK_STATE_ALLOCATING \<Longrightarrow> c = alloc_block ?s"
      using I(4) by (auto simp: blk_inv_def)
    have "blk_valid ?e = blk_valid dev" by (simp add: blk_valid_def fun_eq_iff)
    then show "alloc_inv ?e" using I(5) be ue st by (auto simp: alloc_inv_def)
  qed
  moreover have "clean_block dev b = Some ?e"
    using upd_block_info_valid [OF t b] c(1) by (simp add: clean_block_def Let_def)
  moreover have "same_shape dev ?e" by (simp add: same_shape_def put_bi_def)
  ultimately show ?thesis using ue by (simp add: block_done_def)
qed

context flash_total
begin

lemma dirty_erase_inv:
  assumes s: "sound r" and inv: "dev_inv (free_shift k r)" and b: "blk_valid r b"
    and st: "block_state (bi_of r b) = YAFFS_BLOCK_STATE_DIRTY"
  shows "\<exists>t g. (if \<not> retiring then
               do { dev \<leftarrow> yaffs2_checkpt_invalidate drv r;
                    let (r, dev) = yaffs_erase_block drv dev b;
                    Some (r \<noteq> 0, if r = 0 then dev\<lparr>n_erase_failures := n_erase_failures dev + 1\<rparr> else dev) }
             else Some (False, r)) = Some (t, g) \<and> sound g \<and> same_shape r g \<and>
       dev_inv (free_shift k g) \<and> used_pages g = used_pages r \<and>
       block_state (bi_of g b) = YAFFS_BLOCK_STATE_DIRTY"
proof (cases retiring)
  case True
  then show ?thesis using s inv st by (intro exI [of _ False] exI [of _ r]) simp
next
  case False
  have ss: "sound (free_shift k r)" using sound_cong [OF _ _ s, of "free_shift k r"] s
    by (simp add: sound_def)
  obtain h where h: "yaffs2_checkpt_invalidate drv (free_shift k r) = Some h" "dev_inv h"
      "ckpt_gone (free_shift k r) h" "sound h"
    using invalidate_inv [OF ss inv] by blast
  obtain g where g: "yaffs2_checkpt_invalidate drv r = Some g" "h = free_shift k g"
    using h(1) unfolding checkpt_invalidate_shift by blast
  have ug: "used_pages g = used_pages r" "block_state (bi_of g b) = YAFFS_BLOCK_STATE_DIRTY" "sound g"
      "same_shape r g"
  proof -
    have "ckpt_gone r g" using h(3) unfolding g(2) ckpt_gone_shift .
    then show "used_pages g = used_pages r" "block_state (bi_of g b) = YAFFS_BLOCK_STATE_DIRTY" "same_shape r g"
      using b st by (simp_all add: ckpt_gone_def)
    show "sound g" using h(4) unfolding g(2) by (simp add: sound_def free_shift_def)
  qed
  obtain res g' where g': "yaffs_erase_block drv g b = (res, g')" by (cases "yaffs_erase_block drv g b")
  then have kg: "keeps g g'" "sound g'" using erase_block_keeps [OF ug(3), of b] by simp_all
  let ?f = "if res = 0 then g'\<lparr>n_erase_failures := n_erase_failures g' + 1\<rparr> else g'"
  have kf: "keeps g' ?f" "sound ?f"
    by (rule flash_step_keeps [OF kg(2)]; use kg(2) in \<open>simp add: core_def same_shape_def sound_def\<close>)+
  note K = keepsD [OF keeps_trans [OF kg(1) kf(1)]]
  have "blk_valid g b" using b same_shapeD(2) [OF ug(4)] by simp
  from K(6) [OF this] have "block_state (bi_of ?f b) = YAFFS_BLOCK_STATE_DIRTY"
    using ug(2) by (simp add: same_counts_def)
  moreover have "dev_inv (free_shift k ?f)" by (rule K(8)) (use h(2) g(2) in simp)
  moreover have "same_shape r ?f" using same_shape_trans [OF ug(4) K(1)] .
  ultimately show ?thesis using False g(1) g' kf(2) K(2) ug(1) by simp
qed

lemma block_became_dirty_inv:
  assumes s: "sound dev" and inv: "dev_inv dev" and b: "blk_valid dev b" and up: "used_pages dev b = {}"
    and st: "block_state (bi_of dev b) \<in> {YAFFS_BLOCK_STATE_FULL, YAFFS_BLOCK_STATE_COLLECTING}"
  shows "\<exists>e. yaffs_block_became_dirty drv tg dev b = Some e \<and> sound e \<and> block_done dev e"
proof -
  let ?cpb = "chunks_per_block (param dev)"
  let ?a = "yaffs2_clear_oldest_dirty_seq dev (Some (bi_of dev b))"
  have ka: "keeps dev ?a" by (rule oldest_dirty_keeps)
  note KA = keepsD [OF ka]
  have ca: "core ?a = core dev" by simp
  have a: "dev_inv ?a" "blk_valid ?a b" "bi_of ?a b = bi_of dev b" "used_pages ?a b = {}" "table_wf ?a"
      "sound ?a" "param ?a = param dev"
    using KA(2,7,10,12,13) inv b up core_funs(1) [OF ca] dev_invD(2) [OF inv]
      oldest_dirty_sound(2) [OF s] by simp_all
  let ?x = "(bi_of dev b)\<lparr>block_state := YAFFS_BLOCK_STATE_DIRTY\<rparr>"
  let ?p = "put_bi ?a b ?x"
  have B: "pages_in_use (bi_of dev b) = 0" "soft_del_pages (bi_of dev b) = 0"
    using dev_invD(4) [OF inv b] up by (auto simp: blk_inv_def)
  have "free_of ?cpb (bi_of dev b) = ?cpb" using st B by (auto simp: free_of_def counted_state_def)
  then have ip: "dev_inv (free_shift ?cpb ?p)"
    using state_change_inv [OF a(1,2), of ?x] a(3,7) st by (auto simp: counted_state_def)
  have sp: "sound ?p" using sound_cong [OF _ put_bi_shape a(6)] a(6) by (simp add: sound_def)
  define q where "q = (if b = gc_block ?p then ?p\<lparr>gc_block := 0\<rparr> else ?p)"
  define r where "r = (if b = gc_dirtiest q then q\<lparr>gc_dirtiest := 0, gc_pages_in_use := 0\<rparr> else q)"
  have kr: "keeps ?p r" "sound r"
    by (rule flash_step_keeps [OF sp]; use sp in \<open>simp add: r_def q_def core_def same_shape_def sound_def\<close>)+
  note KR = keepsD [OF kr(1)]
  have cr: "core r = core ?p" by (simp add: r_def q_def core_def)
  have R: "dev_inv (free_shift ?cpb r)" "blk_valid r b" "param r = param dev" "same_shape dev r"
      "bi_of r b = ?x" "used_pages r = used_pages dev"
    using KR(8) [OF ip] KR(2,12,13) a(2,7) core_funs(1) [OF cr] bi_of_put [OF a(5,2,2), of ?x] KA(2)
      same_shape_trans [OF same_shape_trans [OF KA(1) put_bi_shape [of ?a b ?x]] KR(1)] by simp_all
  have upd: "upd_block_info ?a b (\<lambda>bi. bi\<lparr>block_state := YAFFS_BLOCK_STATE_DIRTY\<rparr>) = Some ?p"
    using upd_block_info_valid [OF a(5,2)] a(3) by simp
  have "block_state (bi_of r b) = YAFFS_BLOCK_STATE_DIRTY" using R(5) by simp
  from dirty_erase_inv [OF kr(2) R(1,2) this, of "needs_retiring (bi_of dev b)"]
obtain t g where g: "(if \<not> needs_retiring (bi_of dev b) then
               do { dev \<leftarrow> yaffs2_checkpt_invalidate drv r;
                    let (r, dev) = yaffs_erase_block drv dev b;
                    Some (r \<noteq> 0, if r = 0 then dev\<lparr>n_erase_failures := n_erase_failures dev + 1\<rparr> else dev) }
             else Some (False, r)) = Some (t, g)" "sound g" "same_shape r g"
       "dev_inv (free_shift ?cpb g)" "used_pages g = used_pages r"
       "block_state (bi_of g b) = YAFFS_BLOCK_STATE_DIRTY" by blast
  have vg: "blk_valid g b" "param g = param dev" using same_shapeD(1,2) [OF g(3)] R(2,3) by simp_all
  have tg': "table_wf g" using dev_invD(2) [OF g(4)] by simp
  have "\<exists>h. (if t \<and> verify_erasure g then verify_erased_loop tg (nat (chunks_per_block (param g)))
                         (b * chunks_per_block (param g)) g else Some g) = Some h \<and> keeps g h \<and> sound h"
  proof -
    have "0 \<le> ?cpb" using dev_invD(1) [OF g(4)] vg(2) by (simp add: bits_wf_def)
    then have "\<exists>h. verify_erased_loop tg (nat (chunks_per_block (param g)))
                         (b * chunks_per_block (param g)) g = Some h \<and> keeps g h \<and> sound h"
      by (intro verify_erased_loop_keeps [OF g(2) tg' vg(1), of _ 0]) (simp_all add: vg(2))
    then show ?thesis using g(2) by auto
  qed
  then obtain h where h: "(if t \<and> verify_erasure g then verify_erased_loop tg (nat (chunks_per_block (param g)))
                         (b * chunks_per_block (param g)) g else Some g) = Some h" "keeps g h" "sound h" by blast
  note K = keepsD [OF h(2)]
  have sh: "same_shape dev h" by (rule same_shape_trans [OF same_shape_trans [OF R(4) g(3)] K(1)])
  have H: "dev_inv (free_shift ?cpb h)" "blk_valid h b" "param h = param dev" "used_pages h = used_pages dev"
      "block_state (bi_of h b) = YAFFS_BLOCK_STATE_DIRTY"
    using K(8) [OF g(4)] K(2,12,13) K(6) [OF vg(1)] vg g(5,6) R(6) by (simp_all add: same_counts_def)
  have eq: "yaffs_block_became_dirty drv tg dev b =
      (if \<not> t then yaffs_retire_block drv tg (free_shift ?cpb h) b else clean_block h b)"
    unfolding yaffs_block_became_dirty_def get_block_info_valid [OF dev_invD(2) [OF inv] b] bind.bind_lunit
      upd Let_def q_def [symmetric] r_def [symmetric]
    by (subst g(1) [unfolded Let_def]) (simp only: bind.bind_lunit prod.case h(1) H(3) free_shift_def)
  have done_trans: "block_done dev e" if "block_done h' e" "same_shape dev h'" "used_pages h' = used_pages dev" for h' e
    using that same_shape_trans [OF that(2), of e] same_shapeD(2) [OF that(2)] by (simp add: block_done_def)
  show ?thesis
  proof (cases t)
    case False
    have "sound (free_shift ?cpb h)" using sound_cong [OF _ _ h(3), of "free_shift ?cpb h"] h(3)
      by (simp add: sound_def)
    from retire_block_inv [OF this H(1), of b] H(2,5)
    obtain e where e: "yaffs_retire_block drv tg (free_shift ?cpb h) b = Some e" "sound e"
      "block_done (free_shift ?cpb h) e" by auto
    have "same_shape dev (free_shift ?cpb h)" by (rule same_shape_trans [OF sh]) simp
    from done_trans [OF e(3) this] show ?thesis using eq False e(1,2) H(4) by simp
  next
    case True
    obtain e where e: "clean_block h b = Some e" "flash e = flash h" "block_done h e"
      using clean_block_inv [of h b] H up by auto
    have "sound e" using sound_cong [of e h] e(2,3) h(3) by (simp add: block_done_def sound_def)
    then show ?thesis using eq True e(1) done_trans [OF e(3) sh H(4)] by simp
  qed
qed

end

end
