(* ===== verification/Yaffs_Write_Inv.thy ===== *)
theory Yaffs_Write_Inv
  imports Yaffs_Dirty_Inv
begin

text \<open>
  The deletion of a chunk and the write of a new one, over any flash that returns: the
  invariant holds afterwards, and no chunk in use is lost.
\<close>

section \<open>Blocks that become empty\<close>

definition no_new_empty :: "'n yaffs_dev \<Rightarrow> 'n yaffs_dev \<Rightarrow> bool" where
  "no_new_empty d e \<longleftrightarrow> (\<forall>b. blk_valid d b \<longrightarrow> empty_of (bi_of e b) \<le> empty_of (bi_of d b))"

lemma no_new_empty_states:
  "(\<And>b. blk_valid d b \<Longrightarrow> block_state (bi_of e b) = block_state (bi_of d b)) \<Longrightarrow> no_new_empty d e"
  by (simp add: no_new_empty_def empty_of_def)

lemma keeps_no_new_empty: "keeps d e \<Longrightarrow> no_new_empty d e"
  using keepsD(6) [of d e] by (intro no_new_empty_states) (simp add: same_counts_def)

lemma let_go_no_new_empty: "let_go d e \<Longrightarrow> no_new_empty d e"
  by (auto simp: let_go_def no_new_empty_def empty_of_def)

lemma no_new_empty_trans:
  "no_new_empty d e \<Longrightarrow> no_new_empty e f \<Longrightarrow> same_shape d e \<Longrightarrow> no_new_empty d f"
  using same_shapeD(2) [of d e] unfolding no_new_empty_def by (metis order_trans)

text \<open>Then the count of erased blocks does not grow.\<close>

lemma no_new_empty_count:
  assumes "no_new_empty d e" and "dev_inv d" and "dev_inv e" and "same_shape d e"
  shows "n_erased_blocks e \<le> n_erased_blocks d"
proof -
  let ?n = "n_blocks d" and ?s = "internal_start_block d"
  have sh: "internal_start_block e = ?s" "n_blocks e = ?n"
    using assms(4) by (simp_all add: same_shape_def n_blocks_def)
  have l: "length (block_info d) = ?n" "length (block_info e) = ?n"
    using dev_invD(2) [OF assms(2)] dev_invD(2) [OF assms(3)] sh by (simp_all add: table_wf_def)
  have t: "total empty_of x = (\<Sum>i < ?n. empty_of (block_info x ! i))" if "length (block_info x) = ?n" for x :: "'a yaffs_dev"
    using that by (simp add: total_def sum_list_sum_nth atLeast0LessThan)
  have "empty_of (block_info e ! i) \<le> empty_of (block_info d ! i)" if "i < ?n" for i
  proof -
    have "blk_valid d (?s + int i)" using that by (auto simp: blk_valid_def n_blocks_def)
    then have "empty_of (bi_of e (?s + int i)) \<le> empty_of (bi_of d (?s + int i))"
      using assms(1) by (simp add: no_new_empty_def)
    then show ?thesis using sh by (simp add: bi_of_def bi_index_def)
  qed
  then have "total empty_of e \<le> total empty_of d" unfolding t [OF l(1)] t [OF l(2)] by (intro sum_mono) auto
  then show ?thesis using dev_invD(7) [OF assms(2)] dev_invD(7) [OF assms(3)] by simp
qed

section \<open>Deleting a chunk\<close>

text \<open>What a deletion leaves: the page is gone, all the others are as they were.\<close>

definition page_gone :: "int \<Rightarrow> int \<Rightarrow> 'n yaffs_dev \<Rightarrow> 'n yaffs_dev \<Rightarrow> bool" where
  "page_gone blk p dev e \<longleftrightarrow> same_shape dev e \<and> dev_inv e \<and>
     (\<forall>c. blk_valid dev c \<longrightarrow>
        used_pages e c = (if c = blk then used_pages dev c - {p} else used_pages dev c))"

lemma page_step_drop_inv:
  assumes "page_step dev b (\<lambda>u. u - {p}) e" and "dev_inv dev" and "blk_valid dev b"
  shows "dev_inv e"
proof -
  have "alloc_inv dev" using assms(2) by (simp add: dev_inv_def)
  moreover have "param e = param dev" "blk_valid e = blk_valid dev"
    using same_shapeD [of dev e] assms(1) by (simp_all add: page_step_def)
  ultimately have "alloc_inv e" using assms(1) by (auto simp: alloc_inv_def page_step_def)
  then show ?thesis using assms(1) by (simp add: dev_inv_weak page_step_def)
qed

context flash_total
begin

lemma chunk_del_inv:
  assumes s: "sound dev" and inv: "dev_inv dev" and y: "is_yaffs2 (param dev)"
    and v: "page_valid dev blk p" and p: "p \<in> used_pages dev blk"
    and st: "block_state (bi_of dev blk)
      \<in> {YAFFS_BLOCK_STATE_FULL, YAFFS_BLOCK_STATE_ALLOCATING, YAFFS_BLOCK_STATE_COLLECTING}"
    and sd: "soft_del_pages (bi_of dev blk) < pages_in_use (bi_of dev blk)"
    and c: "cid = blk * chunks_per_block (param dev) + p"
  shows "\<exists>e. yaffs_chunk_del drv tg dev cid mark = Some e \<and> sound e \<and> page_gone blk p dev e \<and>
     (block_state (bi_of dev blk) = YAFFS_BLOCK_STATE_ALLOCATING \<longrightarrow> no_new_empty dev e)"
proof -
  let ?cpb = "chunks_per_block (param dev)"
  have b: "blk_valid dev blk" "0 \<le> p" "p < ?cpb" using v by (simp_all add: page_valid_def)
  have "0 < blk" using dev_invD(3) [OF inv] b(1) by (simp add: blk_valid_def)
  then have c0: "\<not> cid \<le> 0" using b(2,3) c by (simp add: add_pos_nonneg not_le)
  have dm: "cid div ?cpb = blk" "cid mod ?cpb = p" using chunk_div_mod [OF b(2,3)] c by simp_all
  let ?d = "dev\<lparr>n_deletions := n_deletions dev + 1\<rparr>"
  let ?f = "yaffs2_update_oldest_dirty_seq ?d blk (bi_of dev blk)"
  let ?g = "?f\<lparr>n_unmarked_deletions := n_unmarked_deletions ?f + 1\<rparr>"
  have d: "keeps dev ?d" "sound ?d"
    by (rule flash_step_keeps [OF s]; use s in \<open>simp add: core_def same_shape_def sound_def\<close>)+
  have g: "keeps ?f ?g" "sound ?g"
    by (rule flash_step_keeps [OF oldest_dirty_sound(1) [OF d(2)]];
        use oldest_dirty_sound(1) [OF d(2)] in \<open>simp add: core_def same_shape_def sound_def\<close>)+
  have k: "keeps dev ?g" by (rule keeps_trans [OF d(1) keeps_trans [OF oldest_dirty_keeps(1) g(1)]])
  note K = keepsD [OF k]
  have cd: "core ?d = core dev" by (simp add: core_def)
  have cg: "core ?g = core dev"
  proof -
    have "core ?g = core ?f" by (simp add: core_def)
    then show ?thesis by (simp add: cd)
  qed
  note bg = core_funs(1) [OF cg]
  have ig: "dev_inv ?g" "blk_valid ?g blk" "page_valid ?g blk p" "p \<in> used_pages ?g blk"
    using K(10) [OF inv] K(2,12,13) b v p by (simp_all add: page_valid_def)
  have y2: "is_yaffs2 (param ?f)" "param ?d = param dev"
    using y same_shapeD(1) [OF oldest_dirty_shape(1), of ?d blk] by simp_all
  have cs: "counted_state (block_state (bi_of ?g blk))" "block_state (bi_of ?g blk) \<noteq> YAFFS_BLOCK_STATE_EMPTY"
      "soft_del_pages (bi_of ?g blk) < pages_in_use (bi_of ?g blk)"
    using st sd unfolding bg by (auto simp: counted_state_def)
  have wg: "weak_inv ?g" using ig(1) by (simp add: dev_inv_weak)
  obtain d' e where e: "yaffs_clear_chunk_bit (?g\<lparr>n_free_chunks := n_free_chunks ?g + 1\<rparr>) blk p = Some d'"
     "upd_block_info d' blk (\<lambda>bi. bi\<lparr>pages_in_use := s10 (pages_in_use bi - 1)\<rparr>) = Some e"
     "page_step ?g blk (\<lambda>u. u - {p}) e"
    using drop_page [OF wg ig(3,4) cs] by blast
  have ie: "dev_inv e" by (rule page_step_drop_inv [OF e(3) ig(1,2)])
  have she: "same_shape ?g e" "flash e = flash ?g" using e(3) by (simp_all add: page_step_def)
  have se: "sound e" using sound_cong [OF _ she(1) g(2)] she(2) g(2) by (simp add: sound_def)
  have be: "blk_valid e blk" using ig(2) same_shapeD(2) [OF she(1)] by simp
  have bie: "bi_of e blk = (bi_of dev blk)\<lparr>pages_in_use := int (card (used_pages e blk))\<rparr>"
    using e(3) ig(2) bg by (simp add: page_step_def)
  have gone: "page_gone blk p dev e"
    using e(3) ie K(2,13) same_shape_trans [OF K(1) she(1)] by (simp add: page_gone_def page_step_def)
  have del: "yaffs_chunk_del drv tg dev cid mark =
     (if pages_in_use (bi_of e blk) = 0 \<and> \<not> has_shrink_hdr (bi_of e blk) \<and>
         block_state (bi_of e blk) \<noteq> YAFFS_BLOCK_STATE_ALLOCATING \<and>
         block_state (bi_of e blk) \<noteq> YAFFS_BLOCK_STATE_NEEDS_SCAN
      then yaffs_block_became_dirty drv tg e blk else Some e)"
  proof -
    have chk: "\<exists>u. yaffs_check_chunk_bit ?d blk p = Some u"
      using bitmap.check_law [of ?d blk p] v dev_invD(1) [OF keepsD(10) [OF d(1) inv]]
      by (simp add: page_valid_def blk_valid_def)
    have gi: "yaffs_get_block_info ?d blk = Some (bi_of dev blk)" "yaffs_get_block_info ?g blk = Some (bi_of dev blk)"
        "yaffs_get_block_info e blk = Some (bi_of e blk)"
      using get_block_info_valid [of ?d blk] get_block_info_valid [of ?g blk] get_block_info_valid [of e blk]
        dev_invD(2) [OF keepsD(10) [OF d(1) inv]] dev_invD(2) [OF ig(1)] dev_invD(2) [OF ie] ig(2) be b(1)
        keepsD(13) [OF d(1)] core_funs(1) [OF cd] bg by simp_all
    have stg: "block_state (bi_of dev blk) = YAFFS_BLOCK_STATE_ALLOCATING \<or>
        block_state (bi_of dev blk) = YAFFS_BLOCK_STATE_FULL \<or>
        block_state (bi_of dev blk) = YAFFS_BLOCK_STATE_NEEDS_SCAN \<or>
        block_state (bi_of dev blk) = YAFFS_BLOCK_STATE_COLLECTING" using st by auto
    obtain u where u: "yaffs_check_chunk_bit ?d blk p = Some u" using chk by blast
    show ?thesis
      using c0 y2 stg
      unfolding yaffs_chunk_del_def Let_def y2(2) dm u gi(1) bind.bind_lunit
      by (simp only: if_False if_True simp_thms gi(2) bind.bind_lunit e(1,2) gi(3))
  qed
  show ?thesis
  proof (cases "pages_in_use (bi_of e blk) = 0 \<and> \<not> has_shrink_hdr (bi_of e blk) \<and>
         block_state (bi_of e blk) \<noteq> YAFFS_BLOCK_STATE_ALLOCATING \<and>
         block_state (bi_of e blk) \<noteq> YAFFS_BLOCK_STATE_NEEDS_SCAN")
    case False
    have "no_new_empty ?g e"
      by (rule no_new_empty_states) (use e(3) in \<open>auto simp: page_step_def\<close>)
    then have "no_new_empty dev e" using bg K(13) by (simp add: no_new_empty_def)
    then show ?thesis using False del se gone by auto
  next
    case True
    have "finite (used_pages e blk)" using used_pages_subset finite_subset by blast
    then have ue: "used_pages e blk = {}" using True bie by simp
    have "block_state (bi_of e blk) \<in> {YAFFS_BLOCK_STATE_FULL, YAFFS_BLOCK_STATE_COLLECTING}"
      using True st bie by auto
    from block_became_dirty_inv [OF se ie be ue this]
    obtain h where h: "yaffs_block_became_dirty drv tg e blk = Some h" "sound h" "block_done e h" by blast
    have "blk_valid e = blk_valid dev" using gone same_shapeD(2) [of dev e] by (simp add: page_gone_def)
    then have "page_gone blk p dev h"
      using gone h(3) same_shape_trans [of dev e h] by (simp add: page_gone_def block_done_def)
    then show ?thesis using del True h(1,2) bie by simp
  qed
qed

lemma handle_chunk_wr_error_inv:
  assumes s: "sound dev" and inv: "dev_inv dev" and y: "is_yaffs2 (param dev)"
    and v: "page_valid dev blk p" and p: "p \<in> used_pages dev blk"
    and st: "block_state (bi_of dev blk) \<in> {YAFFS_BLOCK_STATE_FULL, YAFFS_BLOCK_STATE_ALLOCATING}"
    and sd: "soft_del_pages (bi_of dev blk) < pages_in_use (bi_of dev blk)"
    and c: "cid = blk * chunks_per_block (param dev) + p"
  shows "\<exists>e. yaffs_handle_chunk_wr_error drv tg dev cid erased = Some e \<and> sound e \<and> page_gone blk p dev e \<and>
     alloc_block e < 0 \<and> (block_state (bi_of dev blk) = YAFFS_BLOCK_STATE_ALLOCATING \<longrightarrow> no_new_empty dev e)"
proof -
  let ?cpb = "chunks_per_block (param dev)"
  have b: "blk_valid dev blk" "0 \<le> p" "p < ?cpb" using v by (simp_all add: page_valid_def)
  have dm: "cid div ?cpb = blk" using chunk_div_mod [OF b(2,3)] c by simp
  obtain d where d: "yaffs_handle_chunk_error dev blk = Some d" "keeps dev d" "flash d = flash dev"
    using handle_chunk_error_keeps [OF dev_invD(2) [OF inv] b(1)] by blast
  have sd1: "sound d" by (rule sound_cong [OF _ keepsD(1) [OF d(2)] s]) (use s d(3) in \<open>simp add: sound_def\<close>)
  note D = keepsD [OF d(2)]
  have td: "table_wf d" "blk_valid d blk" using D(7,13) dev_invD(2) [OF inv] b(1) by simp_all
  let ?x = "(bi_of d blk)\<lparr>needs_retiring := True\<rparr>"
  have "\<exists>f. (if erased then upd_block_info d blk (\<lambda>bi. bi\<lparr>needs_retiring := True\<rparr>) else Some d) = Some f \<and>
      keeps d f \<and> sound f"
    using keeps_put [OF td, of ?x] upd_block_info_valid [OF td] sd1 sound_cong [OF _ put_bi_shape sd1]
    by (simp add: same_counts_def sound_def)
  then obtain f where f: "(if erased then upd_block_info d blk (\<lambda>bi. bi\<lparr>needs_retiring := True\<rparr>) else Some d) = Some f"
      "keeps d f" "sound f" by blast
  have k: "keeps dev f" by (rule keeps_trans [OF d(2) f(2)])
  note K = keepsD [OF k]
  have sc: "same_counts (bi_of f blk) (bi_of dev blk)" by (rule K(6) [OF b(1)])
  have "\<exists>g. yaffs_chunk_del drv tg f cid True = Some g \<and> sound g \<and> page_gone blk p f g \<and>
     (block_state (bi_of f blk) = YAFFS_BLOCK_STATE_ALLOCATING \<longrightarrow> no_new_empty f g)"
    by (rule chunk_del_inv [OF f(3) K(10) [OF inv]])
      (use y v p st sd sc c K(2,12,13) in \<open>auto simp: page_valid_def same_counts_def\<close>)
  then obtain g where g: "yaffs_chunk_del drv tg f cid True = Some g" "sound g" "page_gone blk p f g"
      "block_state (bi_of f blk) = YAFFS_BLOCK_STATE_ALLOCATING \<longrightarrow> no_new_empty f g" by blast
  have "weak_inv g" using g(3) by (simp add: page_gone_def dev_inv_weak)
  from skip_rest_of_block_inv [OF this]
  obtain h where h: "yaffs_skip_rest_of_block g = Some h" "dev_inv h" "let_go g h" by blast
  have "sound h" using sound_cong [of h g] h(3) g(2) by (simp add: let_go_def sound_def)
  moreover have "page_gone blk p dev h"
    using g(3) h(2,3) K(2,13) same_shape_trans [OF same_shape_trans [OF K(1)], of g h]
    by (simp add: page_gone_def let_go_def)
  moreover have "yaffs_handle_chunk_wr_error drv tg dev cid erased = Some h"
    unfolding yaffs_handle_chunk_wr_error_def Let_def dm d(1) bind.bind_lunit f(1) g(1) h(1) ..
  moreover have "no_new_empty dev h" if "block_state (bi_of dev blk) = YAFFS_BLOCK_STATE_ALLOCATING"
  proof -
    have "no_new_empty f g" using g(4) sc that by (simp add: same_counts_def)
    moreover have "same_shape f g" using g(3) by (simp add: page_gone_def)
    ultimately have "no_new_empty f h" using no_new_empty_trans [OF _ let_go_no_new_empty [OF h(3)]] by blast
    then show ?thesis by (rule no_new_empty_trans [OF keeps_no_new_empty [OF k] _ K(1)])
  qed
  moreover have "alloc_block h < 0" using h(3) by (simp add: let_go_def)
  ultimately show ?thesis by blast
qed

end

section \<open>Writing a new chunk\<close>

text \<open>Nothing in use is lost, except one page.\<close>

definition uses_kept :: "int \<Rightarrow> int \<Rightarrow> 'n yaffs_dev \<Rightarrow> 'n yaffs_dev \<Rightarrow> bool" where
  "uses_kept blk p dev e \<longleftrightarrow> same_shape dev e \<and> dev_inv e \<and>
     (\<forall>b q. blk_valid dev b \<longrightarrow> q \<in> used_pages dev b \<longrightarrow> (b, q) \<noteq> (blk, p) \<longrightarrow> q \<in> used_pages e b)"

lemma page_gone_kept: "page_gone blk p dev e \<Longrightarrow> uses_kept blk p dev e"
  by (auto simp: page_gone_def uses_kept_def)

lemma wrote_kept: "wrote blk dev e \<Longrightarrow> uses_kept blk p dev e"
  by (cases "blk_valid dev blk") (auto simp: wrote_def uses_kept_def)

lemma keeps_kept: "keeps dev e \<Longrightarrow> dev_inv dev \<Longrightarrow> uses_kept blk p dev e"
  using keepsD(1,2,10) [of dev e] by (simp add: uses_kept_def)

lemma let_go_kept: "let_go dev e \<Longrightarrow> dev_inv e \<Longrightarrow> uses_kept blk p dev e"
  by (simp add: let_go_def uses_kept_def)

lemma kept_trans:
  assumes "uses_kept blk p d e" and "uses_kept blk p e f"
  shows "uses_kept blk p d f"
proof -
  have "same_shape d e" using assms(1) by (simp add: uses_kept_def)
  then have "blk_valid e = blk_valid d" "same_shape d f"
    using same_shapeD(2) same_shape_trans assms(2) by (auto simp: uses_kept_def)
  then show ?thesis using assms by (simp add: uses_kept_def)
qed

text \<open>
  The first page of a block is neither its last one nor the last one before its summary, so that a
  block of which only the first page was tried is not erased.
\<close>

definition room_to_retry :: "'n yaffs_dev \<Rightarrow> bool" where
  "room_to_retry dev \<longleftrightarrow> 1 < chunks_per_block (param dev) \<and> (sum_tags dev = None \<or> 1 < chunks_per_summary dev)"

lemma room_shape: "same_shape d e \<Longrightarrow> room_to_retry e = room_to_retry d"
  by (auto simp: room_to_retry_def same_shape_def)

context flash_total
begin

text \<open>The page was just allocated and is in use.\<close>

definition fresh :: "'n yaffs_dev \<Rightarrow> int \<Rightarrow> int \<Rightarrow> bool" where
  "fresh dev blk p \<longleftrightarrow> dev_inv dev \<and> sound dev \<and> sum_ok dev \<and> is_yaffs2 (param dev) \<and>
     just_allocated dev blk p \<and> p \<in> used_pages dev blk \<and>
     soft_del_pages (bi_of dev blk) < pages_in_use (bi_of dev blk)"

lemma fresh_keeps:
  assumes "fresh d blk p" and k: "keeps d e" and "sound e"
  shows "fresh e blk p"
proof -
  have "blk_valid d blk" using assms(1) by (simp add: fresh_def just_allocated_def page_valid_def)
  then show ?thesis
    using assms keepsD(1,2,10,12) [OF k] keepsD(6) [OF k] keeps_just_allocated [OF k] sum_ok_shape [of d e]
    by (simp add: fresh_def same_counts_def)
qed

lemma fresh_allocating:
  assumes "fresh dev blk 0" and "room_to_retry dev"
  shows "block_state (bi_of dev blk) = YAFFS_BLOCK_STATE_ALLOCATING" "sum_tags dev = None \<or> 0 + 1 \<noteq> chunks_per_summary dev"
proof -
  have "alloc_block dev = blk" "dev_inv dev" "blk_valid dev blk"
    using assms by (simp_all add: fresh_def just_allocated_def room_to_retry_def page_valid_def)
  then show "block_state (bi_of dev blk) = YAFFS_BLOCK_STATE_ALLOCATING"
    using dev_invD(3,5) [of dev] by (auto simp: alloc_inv_def blk_valid_def)
  show "sum_tags dev = None \<or> 0 + 1 \<noteq> chunks_per_summary dev" using assms(2) by (auto simp: room_to_retry_def)
qed

lemma write_attempt_inv:
  assumes f: "fresh dev blk p" and c: "chunk = blk * chunks_per_block (param dev) + p"
    and l: "length data = chunk_bytes"
  shows "\<exists>r t e. write_attempt drv tg data chunk blk YAFFS_FAIL tags dev = Some (r, t, e) \<and>
     (r = YAFFS_OK \<or> r = YAFFS_FAIL) \<and> sound e \<and> uses_kept blk p dev e \<and>
     (r = YAFFS_OK \<longrightarrow> p \<in> used_pages e blk) \<and>
     (r \<noteq> YAFFS_OK \<longrightarrow> alloc_block e < 0 \<and> (p = 0 \<and> room_to_retry dev \<longrightarrow> no_new_empty dev e))"
proof -
  let ?cpb = "chunks_per_block (param dev)"
  have v: "page_valid dev blk p" and b: "blk_valid dev blk" "0 \<le> p" "p < ?cpb"
    using f by (simp_all add: fresh_def just_allocated_def page_valid_def)
  have dm: "chunk div ?cpb = blk" using chunk_div_mod [OF b(2,3)] c by simp
  have t: "table_wf dev" by (rule dev_invD(2)) (use f in \<open>simp add: fresh_def\<close>)
  have sound: "sound dev" using f by (simp add: fresh_def)
  have "\<exists>d. (if always_check_erased (param dev)
             then upd_block_info dev blk (\<lambda>bi. bi\<lparr>skip_erased_check := False\<rparr>) else Some dev) = Some d \<and>
       keeps dev d \<and> sound d"
    using keeps_put [OF t b(1), of "(bi_of dev blk)\<lparr>skip_erased_check := False\<rparr>"]
      upd_block_info_valid [OF t b(1)] sound sound_cong [OF _ put_bi_shape sound]
    by (simp add: same_counts_def sound_def)
  then obtain d where d: "(if always_check_erased (param dev)
             then upd_block_info dev blk (\<lambda>bi. bi\<lparr>skip_erased_check := False\<rparr>) else Some dev) = Some d"
       "keeps dev d" "sound d" by blast
  note D = keepsD [OF d(2)]
  have td: "table_wf d" "blk_valid d blk" "param d = param dev" using D(7,12,13) t b(1) by simp_all
  have gd: "yaffs_get_block_info d blk = Some (bi_of d blk)" by (rule get_block_info_valid [OF td(1,2)])
  let ?skip = "skip_erased_check (bi_of d blk)"
  have bd: "blk_valid d (chunk div chunks_per_block (param d))" using td(2) dm by (simp only: td(3))
  have "\<exists>er e. (if \<not> ?skip then yaffs_check_chunk_erased tg d chunk else Some (0, d)) = Some (er, e) \<and>
      keeps d e \<and> sound e"
    using check_chunk_erased_keeps [OF d(3) td(1) bd] d(3) by (cases ?skip) auto
  then obtain er e where e: "(if \<not> ?skip then yaffs_check_chunk_erased tg d chunk else Some (0, d)) = Some (er, e)"
      "keeps d e" "sound e" by blast
  have k: "keeps dev e" by (rule keeps_trans [OF d(2) e(2)])
  note K = keepsD [OF k]
  have fe: "fresh e blk p" by (rule fresh_keeps [OF f k e(3)])
  then have ie: "dev_inv e" "just_allocated e blk p" "p \<in> used_pages e blk" "sum_ok e"
      "soft_del_pages (bi_of e blk) < pages_in_use (bi_of e blk)" "is_yaffs2 (param e)"
    by (simp_all add: fresh_def)
  have ce: "chunk = blk * chunks_per_block (param e) + p" using c K(12) by simp
  have ve: "page_valid e blk p" and ste: "block_state (bi_of e blk)
      \<in> {YAFFS_BLOCK_STATE_FULL, YAFFS_BLOCK_STATE_ALLOCATING}"
    using ie(2) by (simp_all add: just_allocated_def)
  have k0: "uses_kept blk p dev e" using keeps_kept [OF k] f by (simp add: fresh_def)
  show ?thesis
  proof (cases "\<not> ?skip \<and> er \<noteq> YAFFS_OK")
    case True
    have "\<exists>g. yaffs_chunk_del drv tg e chunk True = Some g \<and> sound g \<and> page_gone blk p e g \<and>
        (block_state (bi_of e blk) = YAFFS_BLOCK_STATE_ALLOCATING \<longrightarrow> no_new_empty e g)"
      by (rule chunk_del_inv [OF e(3) ie(1,6) ve ie(3) _ ie(5) ce]) (use ste in auto)
    then obtain g where g: "yaffs_chunk_del drv tg e chunk True = Some g" "sound g" "page_gone blk p e g"
      "block_state (bi_of e blk) = YAFFS_BLOCK_STATE_ALLOCATING \<longrightarrow> no_new_empty e g" by blast
    have "weak_inv g" using g(3) by (simp add: page_gone_def dev_inv_weak)
    from skip_rest_of_block_inv [OF this]
    obtain h where h: "yaffs_skip_rest_of_block g = Some h" "dev_inv h" "let_go g h" by blast
    have "sound h" using sound_cong [of h g] h(3) g(2) by (simp add: let_go_def sound_def)
    moreover have "uses_kept blk p dev h"
      by (rule kept_trans [OF k0 kept_trans [OF page_gone_kept [OF g(3)] let_go_kept [OF h(3,2)]]])
    moreover have "write_attempt drv tg data chunk blk YAFFS_FAIL tags dev = Some (YAFFS_FAIL, tags, h)"
      unfolding write_attempt_def d(1) bind.bind_lunit gd e(1) prod.case
      by (simp only: True if_True simp_thms g(1) h(1) bind.bind_lunit not_False_eq_True)
    moreover have "no_new_empty dev h" if "p = 0 \<and> room_to_retry dev"
    proof -
      have "block_state (bi_of e blk) = YAFFS_BLOCK_STATE_ALLOCATING"
        using fresh_allocating(1) [of e blk] fe that room_shape [OF K(1)] by simp
      then have "no_new_empty e h"
        using no_new_empty_trans [OF _ let_go_no_new_empty [OF h(3)]] g(3,4) by (simp add: page_gone_def)
      then show ?thesis by (rule no_new_empty_trans [OF keeps_no_new_empty [OF k] _ K(1)])
    qed
    moreover have "alloc_block h < 0" using h(3) by (simp add: let_go_def)
    ultimately show ?thesis by (intro exI [of _ YAFFS_FAIL] exI [of _ tags] exI [of _ h]) simp
  next
    case False
    obtain r0 tt g where g: "yaffs_wr_chunk_tags_nand tg e chunk (Some data) (Some tags) = Some (r0, Some tt, g)"
        "r0 = YAFFS_OK \<or> r0 = YAFFS_FAIL" "sound g" "wrote blk e g"
        "sum_tags e = None \<or> p + 1 \<noteq> chunks_per_summary e \<longrightarrow> keeps e g"
      using wr_chunk_inv [OF e(3) ie(1,4,2) ce l, of tags] by blast
    have G: "dev_inv g" "same_shape e g" "p \<in> used_pages g blk"
        "block_state (bi_of g blk) \<in> {YAFFS_BLOCK_STATE_FULL, YAFFS_BLOCK_STATE_ALLOCATING}"
        "soft_del_pages (bi_of g blk) < pages_in_use (bi_of g blk)"
      using g(4) ie(3,5) by (auto simp: wrote_def)
    have vg: "page_valid g blk p" "blk_valid g blk" "param g = param dev"
      using same_shapeD [OF G(2)] ve K(12) by (simp_all add: page_valid_def)
    have tg: "table_wf g" by (rule dev_invD(2) [OF G(1)])
    have gg: "yaffs_get_block_info g blk = Some (bi_of g blk)" by (rule get_block_info_valid [OF tg vg(2)])
    have bg: "blk_valid g (chunk div chunks_per_block (param g))" using vg(2) dm by (simp only: vg(3))
    let ?sk = "skip_erased_check (bi_of g blk)"
    have "\<exists>r h. (if \<not> ?sk then yaffs_verify_chunk_written tg g chunk data tt else Some (r0, g)) = Some (r, h) \<and>
        (r = YAFFS_OK \<or> r = YAFFS_FAIL) \<and> keeps g h \<and> sound h"
      using verify_chunk_written_keeps [OF g(3) tg bg l, of tt] g(2,3) by (cases ?sk) auto
    then obtain r h where h: "(if \<not> ?sk then yaffs_verify_chunk_written tg g chunk data tt else Some (r0, g)) = Some (r, h)"
        "r = YAFFS_OK \<or> r = YAFFS_FAIL" "keeps g h" "sound h" by blast
    note H = keepsD [OF h(3)]
    have kh: "uses_kept blk p dev h"
      by (rule kept_trans [OF k0 kept_trans [OF wrote_kept [OF g(4)] keeps_kept [OF h(3) G(1)]]])
    have th: "table_wf h" "blk_valid h blk" using H(7,13) tg vg(2) by simp_all
    have att: "write_attempt drv tg data chunk blk YAFFS_FAIL tags dev =
        (if r \<noteq> YAFFS_OK then do { dev \<leftarrow> yaffs_handle_chunk_wr_error drv tg h chunk (er \<noteq> 0); Some (r, tt, dev) }
         else do { dev \<leftarrow> upd_block_info h blk (\<lambda>bi. bi\<lparr>skip_erased_check := True\<rparr>); Some (r, tt, dev) })"
      unfolding write_attempt_def d(1) bind.bind_lunit gd e(1) prod.case
      by (simp only: False if_False g(1) bind.bind_lunit prod.case gg h(1))
    show ?thesis
    proof (cases "r = YAFFS_OK")
      case False
      have "\<exists>i. yaffs_handle_chunk_wr_error drv tg h chunk (er \<noteq> 0) = Some i \<and> sound i \<and> page_gone blk p h i \<and>
          alloc_block i < 0 \<and> (block_state (bi_of h blk) = YAFFS_BLOCK_STATE_ALLOCATING \<longrightarrow> no_new_empty h i)"
        by (rule handle_chunk_wr_error_inv [OF h(4) H(10) [OF G(1)]])
          (use H(2,12,13) H(6) [OF vg(2)] G(3-5) vg ie(6) ce K(12) in
            \<open>auto simp: page_valid_def same_counts_def\<close>)
      then obtain i where i: "yaffs_handle_chunk_wr_error drv tg h chunk (er \<noteq> 0) = Some i" "sound i"
          "page_gone blk p h i" "alloc_block i < 0"
          "block_state (bi_of h blk) = YAFFS_BLOCK_STATE_ALLOCATING \<longrightarrow> no_new_empty h i" by blast
      have "no_new_empty dev i" if q: "p = 0 \<and> room_to_retry dev"
      proof -
        have re: "room_to_retry e" using q room_shape [OF K(1)] by simp
        have "keeps e g" using g(5) fresh_allocating(2) [of e blk] fe q re by auto
        then have kh': "keeps dev h" by (rule keeps_trans [OF keeps_trans [OF k] h(3)])
        have "block_state (bi_of h blk) = YAFFS_BLOCK_STATE_ALLOCATING"
          using keepsD(6) [OF kh' b(1)] fresh_allocating(1) [of dev blk] f q by (simp add: same_counts_def)
        then show ?thesis
          using no_new_empty_trans [OF keeps_no_new_empty [OF kh'] _ keepsD(1) [OF kh']] i(5) by blast
      qed
      moreover have "uses_kept blk p dev i" by (rule kept_trans [OF kh page_gone_kept [OF i(3)]])
      ultimately show ?thesis using att False i(1,2,4) h(2) by simp
    next
      case True
      let ?x = "(bi_of h blk)\<lparr>skip_erased_check := True\<rparr>"
      have kx: "keeps h (put_bi h blk ?x)" by (rule keeps_put [OF th]) (simp add: same_counts_def)
      have "sound (put_bi h blk ?x)" using sound_cong [OF _ put_bi_shape h(4)] h(4) by (simp add: sound_def)
      moreover have "uses_kept blk p dev (put_bi h blk ?x)"
        by (rule kept_trans [OF kh keeps_kept [OF kx H(10) [OF G(1)]]])
      moreover have "p \<in> used_pages (put_bi h blk ?x) blk" using keepsD(2) [OF kx] H(2) G(3) by simp
      ultimately show ?thesis using att True upd_block_info_valid [OF th] h(2) by simp
    qed
  qed
qed

text \<open>What the loop and \<^verbatim>\<open>yaffs_write_new_chunk\<close> promise.\<close>

definition new_written :: "'n yaffs_dev \<Rightarrow> int \<Rightarrow> int \<Rightarrow> 'n yaffs_dev \<Rightarrow> bool" where
  "new_written dev c r e \<longleftrightarrow> same_shape dev e \<and> dev_inv e \<and> sound e \<and>
     (\<forall>b. blk_valid dev b \<longrightarrow> used_pages dev b \<subseteq> used_pages e b) \<and>
     (r = YAFFS_OK \<or> r = YAFFS_FAIL) \<and>
     (r = YAFFS_OK \<longrightarrow>
        (let blk = c div chunks_per_block (param dev); p = c mod chunks_per_block (param dev)
         in 0 < c \<and> page_valid dev blk p \<and> p \<notin> used_pages dev blk \<and> p \<in> used_pages e blk))"

text \<open>A new allocation block is taken from the erased ones, and its first page comes first.\<close>

lemma alloc_chunk_erased:
  assumes inv: "dev_inv dev" and ab: "alloc_block dev < 0"
    and a: "yaffs_alloc_chunk dev use_reserver = Some (c, blk, d)" and c: "0 \<le> c"
  shows "c mod chunks_per_block (param dev) = 0" "n_erased_blocks d < n_erased_blocks dev"
proof -
  have *: "c mod chunks_per_block (param dev) = 0 \<and> n_erased_blocks d < n_erased_blocks dev"
    using find_alloc_block_cases [OF inv ab]
  proof (elim disjE exE conjE)
    assume "yaffs_find_alloc_block dev = Some (-1, dev)"
    then show ?thesis
      using a ab c check_alloc_core [of "dev\<lparr>alloc_block := -1, alloc_page := 0\<rparr>" 1]
      by (auto simp: alloc_chunk_take_page core_def Let_def split: prod.splits if_splits)
  next
    fix r assume r: "yaffs_find_alloc_block dev = Some (r, found_block dev r)" "blk_valid dev r"
      "block_state (bi_of dev r) = YAFFS_BLOCK_STATE_EMPTY"
    let ?d = "(found_block dev r)\<lparr>alloc_block := r, alloc_page := 0\<rparr>"
    obtain av e where e: "(if use_reserver then (True, ?d) else yaffs_check_alloc_available ?d 1) = (av, e)"
      by (metis surj_pair)
    have ce: "core e = core ?d" using e check_alloc_core [of ?d 1] by (auto split: if_splits)
    have ie: "dev_inv e" using core_inv [OF ce] found_block_inv [OF inv ab r(2,3)] by simp
    have E: "alloc_block e = r" "alloc_page e = 0" "param e = param dev" "n_erased_blocks e = n_erased_blocks dev - 1"
      using ce by (simp_all add: core_def found_block_def Let_def)
    have r0: "0 \<le> alloc_block e" using dev_invD(3) [OF inv] r(2) E(1) by (simp add: blk_valid_def)
    obtain e' where t: "take_page e = Some (r * chunks_per_block (param dev), r, e')" "n_erased_blocks e' = n_erased_blocks e"
      by (rule take_page_eq [OF ie r0]) (simp add: E)
    have "yaffs_alloc_chunk dev use_reserver = (if \<not> av then Some (-1, -1, e) else take_page e)"
      unfolding alloc_chunk_take_page using ab r(1) e r0 by (simp add: Let_def)
    then have "c = r * chunks_per_block (param dev)" "d = e'" using a c t(1) by (auto split: if_splits)
    then show ?thesis using E(4) t(2) by simp
  qed
  from * show "c mod chunks_per_block (param dev) = 0" "n_erased_blocks d < n_erased_blocks dev" by simp_all
qed

text \<open>
  What the loop uses up: with a limit the attempts that are left, without one the erased blocks (the
  first attempt may still be in a block that was being filled).
\<close>

definition write_left :: "'n yaffs_dev \<Rightarrow> nat \<Rightarrow> nat" where
  "write_left dev attempts =
     (if yaffs_wr_attempts dev = 0
      then if alloc_block dev < 0 then nat (n_erased_blocks dev) else Suc (n_blocks dev)
      else yaffs_wr_attempts dev - attempts)"

lemma erased_bounds:
  assumes "dev_inv dev"
  shows "0 \<le> n_erased_blocks dev" "n_erased_blocks dev \<le> int (n_blocks dev)"
proof -
  have l: "length (block_info dev) = n_blocks dev" using dev_invD(2) [OF assms] by (simp add: table_wf_def)
  have "0 \<le> sum_list (map empty_of bs) \<and> sum_list (map empty_of bs) \<le> int (length bs)" for bs
    by (induction bs) (auto simp: empty_of_def)
  then show "0 \<le> n_erased_blocks dev" "n_erased_blocks dev \<le> int (n_blocks dev)"
    using dev_invD(7) [OF assms] l by (metis total_def)+
qed

lemma write_new_loop_inv:
  assumes "dev_inv dev" and "sound dev" and "sum_ok dev" and "is_yaffs2 (param dev)"
    and "length data = chunk_bytes" and "yaffs_wr_attempts dev = 0 \<Longrightarrow> room_to_retry dev"
    and "yaffs_wr_attempts dev \<noteq> 0 \<Longrightarrow> attempts \<le> yaffs_wr_attempts dev"
  shows "\<exists>c r n t e. write_new_loop drv tg data use_reserver attempts YAFFS_FAIL tags dev = Some (c, r, n, t, e) \<and>
     (yaffs_wr_attempts dev \<noteq> 0 \<longrightarrow> n \<le> Suc (yaffs_wr_attempts dev)) \<and> new_written dev c r e"
  using assms
proof (induction "write_left dev attempts" arbitrary: dev attempts tags rule: less_induct)
  case less
  let ?cpb = "chunks_per_block (param dev)"
  obtain c blk d where a: "yaffs_alloc_chunk dev use_reserver = Some (c, blk, d)" "dev_inv d"
      "c = -1 \<and> no_chunk dev d \<or> blk = c div ?cpb \<and> new_chunk dev c d"
    using alloc_chunk_spec [OF less.prems(1), of use_reserver] by blast
  have fr: "same_shape dev d" "flash d = flash dev" using alloc_chunk_frame [OF a(1)] by simp_all
  note S = same_shapeD [OF fr(1)]
  have sd: "sound d" using sound_cong [OF _ fr(1) less.prems(2)] fr(2) less.prems(2) by (simp add: sound_def)
  show ?case
  proof (cases "c = -1")
    case True
    then have "no_chunk dev d" using a(3) by (auto simp: new_chunk_def Let_def)
    then have "new_written dev c YAFFS_FAIL d"
      using fr(1) a(2) sd by (simp add: new_written_def no_chunk_def)
    moreover have "write_new_loop drv tg data use_reserver attempts YAFFS_FAIL tags dev =
        Some (c, YAFFS_FAIL, attempts, tags, d)"
      using a(1) True by (subst write_new_loop.simps) simp
    ultimately show ?thesis using less.prems(7) le_SucI by blast
  next
    case False
    let ?p = "c mod ?cpb"
    have nc: "blk = c div ?cpb" "new_chunk dev c d" using a(3) False by auto
    then have N: "0 < c" "page_valid dev blk ?p" "?p \<notin> used_pages dev blk" "?p \<in> used_pages d blk"
        "\<And>b. blk_valid dev b \<Longrightarrow> used_pages d b = (if b = blk then insert ?p (used_pages dev b) else used_pages dev b)"
      by (auto simp: new_chunk_def Let_def page_valid_def)
    have f: "fresh d blk ?p"
      using nc(2) less.prems(4) a(2) sd N(2,4) S sum_ok_shape [OF fr(1) less.prems(3)] nc(1)
      by (simp add: fresh_def just_allocated_def new_chunk_def Let_def)
    have "c = blk * chunks_per_block (param d) + ?p" using nc(1) S(1) by simp
    from write_attempt_inv [OF f this less.prems(5), of tags]
    obtain r t e where e: "write_attempt drv tg data c blk YAFFS_FAIL tags d = Some (r, t, e)"
       "r = YAFFS_OK \<or> r = YAFFS_FAIL" "sound e" "uses_kept blk ?p d e" "r = YAFFS_OK \<longrightarrow> ?p \<in> used_pages e blk"
       "r \<noteq> YAFFS_OK \<longrightarrow> alloc_block e < 0 \<and> (?p = 0 \<and> room_to_retry d \<longrightarrow> no_new_empty d e)"
      by blast
    have she: "same_shape dev e" using e(4) same_shape_trans [OF fr(1), of e] by (simp add: uses_kept_def)
    have ie: "dev_inv e" using e(4) by (simp add: uses_kept_def)
    have up: "used_pages dev b \<subseteq> used_pages e b" if "blk_valid dev b" for b
      using e(4) N(3) N(5) [OF that] that S(2) by (auto simp: uses_kept_def split: if_splits)
    have nw: "new_written dev c r e"
      using she ie e(2,3,5) up N(1-3) nc(1) by (simp add: new_written_def)
    have we: "yaffs_wr_attempts e = yaffs_wr_attempts dev" using she by (simp add: same_shape_def)
    have step: "write_new_loop drv tg data use_reserver attempts YAFFS_FAIL tags dev =
        (if r \<noteq> YAFFS_OK \<and> (yaffs_wr_attempts dev = 0 \<or> attempts + 1 \<le> yaffs_wr_attempts dev)
         then write_new_loop drv tg data use_reserver (attempts + 1) r t e
         else Some (c, r, attempts + 1, t, e))"
      using a(1) N(1) e(1) we by (subst write_new_loop.simps) (simp add: Let_def)
    show ?thesis
    proof (cases "r \<noteq> YAFFS_OK \<and> (yaffs_wr_attempts dev = 0 \<or> attempts + 1 \<le> yaffs_wr_attempts dev)")
      case False
      then show ?thesis using step nw less.prems(7) by auto
    next
      case True
      then have r: "r = YAFFS_FAIL" "r \<noteq> YAFFS_OK" using e(2) by blast+
      have dec: "write_left e (attempts + 1) < write_left dev attempts"
      proof (cases "yaffs_wr_attempts dev = 0")
        case True
        have ab: "alloc_block e < 0" using e(6) r(2) by blast
        have nb: "n_blocks e = n_blocks dev" using she by (simp add: same_shape_def n_blocks_def)
        show ?thesis
        proof (cases "alloc_block dev < 0")
          case True
          note er = alloc_chunk_erased [OF less.prems(1) True a(1)]
          have c0: "0 \<le> c" using N(1) by simp
          have "no_new_empty d e"
            using e(6) r(2) er(1) [OF c0] less.prems(6) \<open>yaffs_wr_attempts dev = 0\<close> room_shape [OF fr(1)] by blast
          moreover have "same_shape d e" using e(4) by (simp add: uses_kept_def)
          ultimately have "n_erased_blocks e \<le> n_erased_blocks d" using no_new_empty_count a(2) ie by blast
          then have "n_erased_blocks e < n_erased_blocks dev" using er(2) [OF c0] by simp
          then show ?thesis
            using True ab \<open>yaffs_wr_attempts dev = 0\<close> we erased_bounds(1) [OF ie] by (simp add: write_left_def)
        next
          case False
          then show ?thesis
            using ab \<open>yaffs_wr_attempts dev = 0\<close> we nb erased_bounds [OF ie] by (simp add: write_left_def)
        qed
      next
        case False
        then show ?thesis using True we by (auto simp: write_left_def)
      qed
      have "\<exists>c' r' n t' e'. write_new_loop drv tg data use_reserver (attempts + 1) YAFFS_FAIL t e =
          Some (c', r', n, t', e') \<and> (yaffs_wr_attempts e \<noteq> 0 \<longrightarrow> n \<le> Suc (yaffs_wr_attempts e)) \<and> new_written e c' r' e'"
        by (rule less.hyps [OF dec])
          (use True we ie e(3) sum_ok_shape [OF she less.prems(3)] less.prems(4-6) same_shapeD(1) [OF she]
            room_shape [OF she] in auto)
      then obtain c' r' n t' e' where l: "write_new_loop drv tg data use_reserver (attempts + 1) YAFFS_FAIL t e =
          Some (c', r', n, t', e')" "yaffs_wr_attempts e \<noteq> 0 \<longrightarrow> n \<le> Suc (yaffs_wr_attempts e)" "new_written e c' r' e'" by blast
      have "new_written dev c' r' e'"
        using l(3) up same_shapeD(1-3) [OF she] same_shape_trans [OF she, of e']
        by (fastforce simp: new_written_def Let_def page_valid_def)
      then show ?thesis using step True r(1) l(1,2) we by auto
    qed
  qed
qed

lemma write_new_chunk_inv:
  assumes "dev_inv dev" and "sound dev" and "sum_ok dev" and "is_yaffs2 (param dev)"
    and "length data = chunk_bytes" and "yaffs_wr_attempts dev = 0 \<Longrightarrow> room_to_retry dev"
  shows "\<exists>c t e. yaffs_write_new_chunk drv tg dev data tags use_reserver = Some (c, t, e) \<and> dev_inv e \<and> sound e \<and>
     same_shape dev e \<and> (\<forall>b. blk_valid dev b \<longrightarrow> used_pages dev b \<subseteq> used_pages e b) \<and>
     (c = -1 \<or> (let blk = c div chunks_per_block (param dev); p = c mod chunks_per_block (param dev)
         in 0 < c \<and> page_valid dev blk p \<and> p \<notin> used_pages dev blk \<and> p \<in> used_pages e blk))"
proof -
  obtain d where d: "yaffs2_checkpt_invalidate drv dev = Some d" "dev_inv d" "ckpt_gone dev d" "sound d"
    using invalidate_inv [OF assms(2,1)] by blast
  have sh: "same_shape dev d" "used_pages d = used_pages dev" using d(3) by (simp_all add: ckpt_gone_def)
  note S = same_shapeD [OF sh(1)]
  have "yaffs_wr_attempts d = yaffs_wr_attempts dev" using sh(1) by (simp add: same_shape_def)
  then obtain c r n t e where e: "write_new_loop drv tg data use_reserver 0 YAFFS_FAIL tags d = Some (c, r, n, t, e)"
      "new_written d c r e"
    using write_new_loop_inv [OF d(2,4) sum_ok_shape [OF sh(1) assms(3)] _ assms(5), of 0 use_reserver tags]
      assms(4,6) S(1) room_shape [OF sh(1)] by auto
  let ?f = "if n > 1 then e\<lparr>n_retried_writes := n_retried_writes e + word_of_nat (n - 1)\<rparr> else e"
  have E: "sound e" "dev_inv e" "same_shape d e" using e(2) by (simp_all add: new_written_def)
  have k: "keeps e ?f" "sound ?f"
    by (rule flash_step_keeps [OF E(1)]; use E(1) in \<open>simp add: core_def same_shape_def sound_def\<close>)+
  note K = keepsD [OF k(1)]
  have "yaffs_write_new_chunk drv tg dev data tags use_reserver = Some (if r = 0 then -1 else c, t, ?f)"
    using d(1) e(1) by (simp add: yaffs_write_new_chunk_def Let_def)
  moreover have "same_shape dev ?f" by (rule same_shape_trans [OF sh(1) same_shape_trans [OF E(3) K(1)]])
  ultimately show ?thesis
    using e(2) k(2) K(2) K(10) [OF E(2)] S(1-3) sh(2)
    by (auto simp: new_written_def Let_def)
qed

end

end
