(* ===== verification/Yaffs_Ram_Total.thy ===== *)
theory Yaffs_Ram_Total
  imports Yaffs_Keeps Yaffs_TagsMarshall
begin

text \<open>
  The tag handler of yaffs2 over a driver that returns is a flash that returns: the
  locale \<open>flash_total\<close> of \<^verbatim>\<open>Yaffs_Keeps\<close> holds of \<^verbatim>\<open>yaffs_tagsmarshall.c\<close> over
  any driver of the locale \<open>driver_total\<close>, and the RAM simulator is one.
\<close>

section \<open>A driver that returns\<close>

locale driver_total =
  fixes drv :: "'s yaffs_driver" and good :: "'s \<Rightarrow> bool" and data_size :: nat
  assumes dread: "good s \<Longrightarrow> length buf = data_size \<Longrightarrow> (\<And>x. sp = Some x \<Longrightarrow> n \<le> length x) \<Longrightarrow>
      drv_read_chunk_fn drv s c (Some buf) data_size sp n = (r, b, oob, e, s') \<Longrightarrow>
      good s' \<and> (\<exists>x. b = Some x \<and> length x = data_size) \<and>
      (\<forall>x. sp = Some x \<longrightarrow> (\<exists>y. oob = Some y \<and> length y = length x))"
    and dwrite: "good s \<Longrightarrow> length d = data_size \<Longrightarrow> drv_write_chunk_fn drv s c (Some d) data_size oob = (r, s') \<Longrightarrow>
      good s' \<and> (r = YAFFS_OK \<or> r = YAFFS_FAIL)"
    and derase: "good s \<Longrightarrow> good (snd (drv_erase_fn drv s blk))"
    and dmark: "good s \<Longrightarrow> good (snd (drv_mark_bad_fn drv s blk))"

text \<open>The driver seen from the device, whose flash includes the handler's memory.\<close>

definition marshall_driver :: "'s yaffs_driver \<Rightarrow> 's marshall yaffs_driver" where
  "marshall_driver drv =
     \<lparr>drv_write_chunk_fn = (\<lambda>m c d n oob. let (r, s) = drv_write_chunk_fn drv (m_drv m) c d n oob
                                      in (r, m\<lparr>m_drv := s\<rparr>)),
      drv_read_chunk_fn = (\<lambda>m c d n b k. let (r, d, b, e, s) = drv_read_chunk_fn drv (m_drv m) c d n b k
                                      in (r, d, b, e, m\<lparr>m_drv := s\<rparr>)),
      drv_erase_fn = (\<lambda>m b. let (r, s) = drv_erase_fn drv (m_drv m) b in (r, m\<lparr>m_drv := s\<rparr>)),
      drv_mark_bad_fn = (\<lambda>m b. let (r, s) = drv_mark_bad_fn drv (m_drv m) b in (r, m\<lparr>m_drv := s\<rparr>)),
      drv_check_bad_fn = (\<lambda>m b. let (r, s) = drv_check_bad_fn drv (m_drv m) b in (r, m\<lparr>m_drv := s\<rparr>)),
      drv_initialise_fn = map_option (\<lambda>f m. let (r, s) = f (m_drv m) in (r, m\<lparr>m_drv := s\<rparr>))
                            (drv_initialise_fn drv),
      drv_deinitialise_fn = map_option (\<lambda>f m. let (r, s) = f (m_drv m) in (r, m\<lparr>m_drv := s\<rparr>))
                            (drv_deinitialise_fn drv)\<rparr>"

definition marshall_ok :: "('s \<Rightarrow> bool) \<Rightarrow> 's marshall \<Rightarrow> bool" where
  "marshall_ok good m \<longleftrightarrow> good (m_drv m) \<and> 28 \<le> length (m_spare_buffer m)"

locale marshall_total = driver_total +
  fixes p :: marshall_param
  assumes total: "mp_total_bytes_per_chunk p = data_size"
    and inband: "mp_inband_tags p \<Longrightarrow> mp_data_bytes_per_chunk p + 16 \<le> data_size"
begin

lemma marshall_write_total:
  assumes "marshall_ok good m" and "length buf = data_size"
  shows "\<exists>r b m'. yaffs_tags_marshall_write drv p m c (Some buf) (Some t) = Some (r, b, m') \<and>
     marshall_ok good m' \<and> (r = YAFFS_OK \<or> r = YAFFS_FAIL)"
proof (cases "mp_inband_tags p")
  case True
  obtain d where d: "buf_write buf (mp_data_bytes_per_chunk p)
      (ptt_bytes (yaffs_pack_tags2_tags_only (mp_swap_endian p) t)) = Some d" "length d = data_size"
    using assms(2) inband [OF True] by (simp add: buf_write_def)
  have br: "buf_read d 0 (mp_total_bytes_per_chunk p) = Some d" using d(2) total by (simp add: buf_read_def)
  obtain r s where w: "drv_write_chunk_fn drv (m_drv m) c (Some d) data_size None = (r, s)"
    by (cases "drv_write_chunk_fn drv (m_drv m) c (Some d) data_size None")
  show ?thesis using True d br w dwrite [OF _ d(2) w] assms(1)
    by (simp add: yaffs_tags_marshall_write_def marshall_ok_def total)
next
  case False
  have br: "buf_read buf 0 (mp_total_bytes_per_chunk p) = Some buf" using assms(2) total by (simp add: buf_read_def)
  let ?oob = "take (packed_tags_size p) (pt2_bytes (m_pad m)
    (yaffs_pack_tags2 (mp_swap_endian p) (m_stack_ecc m) t (\<not> mp_no_tags_ecc p)))"
  obtain r s where w: "drv_write_chunk_fn drv (m_drv m) c (Some buf) data_size (Some ?oob) = (r, s)"
    by (cases "drv_write_chunk_fn drv (m_drv m) c (Some buf) data_size (Some ?oob)")
  show ?thesis using False br w dwrite [OF _ assms(2) w] assms(1)
    by (simp add: yaffs_tags_marshall_write_def marshall_ok_def total)
qed

lemma ecc_note_ok:
  "\<exists>t' m'. marshall_ecc_note e (Some t) m = (Some t', m') \<and> m_drv m' = m_drv m \<and>
     m_spare_buffer m' = m_spare_buffer m"
  by (simp add: marshall_ecc_note_def Let_def)

lemma marshall_read_total:
  assumes "marshall_ok good m" and "length buf = data_size"
  shows "\<exists>r b t' m'. yaffs_tags_marshall_read drv p m c (Some buf) (Some t) = Some (r, Some b, Some t', m') \<and>
     length b = data_size \<and> marshall_ok good m'"
proof -
  let ?sp = "if mp_inband_tags p then None else Some (m_spare_buffer m)"
    and ?n = "if mp_inband_tags p then 0 else packed_tags_size p"
  obtain r b oob e s where rd: "drv_read_chunk_fn drv (m_drv m) c (Some buf) data_size ?sp ?n = (r, b, oob, e, s)"
    by (cases "drv_read_chunk_fn drv (m_drv m) c (Some buf) data_size ?sp ?n")
  have sz: "packed_tags_size p \<le> 28" by (simp add: packed_tags_size_def)
  have D: "good s \<and> (\<exists>x. b = Some x \<and> length x = data_size) \<and>
      (\<forall>x. ?sp = Some x \<longrightarrow> (\<exists>y. oob = Some y \<and> length y = length x))"
    by (rule dread [OF _ assms(2) _ rd]) (use assms(1) sz in \<open>auto simp: marshall_ok_def split: if_splits\<close>)
  then obtain x where x: "b = Some x" "length x = data_size" by blast
  let ?m = "m\<lparr>m_drv := s\<rparr>"
  have okm: "marshall_ok good ?m" using D assms(1) by (simp add: marshall_ok_def)
  have pick: "(if mp_inband_tags p \<or> (Some buf \<noteq> None \<and> Some t = None) then
        Some (drv_read_chunk_fn drv (m_drv m) c (Some buf) (mp_total_bytes_per_chunk p) None 0)
      else if Some t \<noteq> None then
        Some (drv_read_chunk_fn drv (m_drv m) c (Some buf) (mp_total_bytes_per_chunk p)
           (Some (m_spare_buffer m)) (packed_tags_size p)) else None) = Some (r, b, oob, e, s)"
    using rd total by (cases "mp_inband_tags p") simp_all
  have "\<exists>u. (if mp_inband_tags p then
             do { b \<leftarrow> b; bs \<leftarrow> buf_read b (mp_data_bytes_per_chunk p) 16;
                  Some (Some (yaffs_unpack_tags2_tags_only (mp_swap_endian p) (bytes_ptt bs))) }
           else
             do { b \<leftarrow> oob; bs \<leftarrow> buf_read b 0 (packed_tags_size p);
                  let pt = (if mp_no_tags_ecc p
                            then \<lparr>pt_t = bytes_ptt bs, pt_ecc = m_stack_ecc ?m\<rparr> else bytes_pt2 bs);
                  Some (Some (fst (yaffs_unpack_tags2 (mp_swap_endian p) pt (\<not> mp_no_tags_ecc p)))) })
        = Some (Some u)"
  proof (cases "mp_inband_tags p")
    case True
    then show ?thesis using inband [OF True] x by (simp add: buf_read_def)
  next
    case False
    then obtain y where "oob = Some y" "28 \<le> length y" using D assms(1) by (auto simp: marshall_ok_def)
    then show ?thesis using False sz by (simp add: buf_read_def Let_def)
  qed
  then obtain u where u: "(if mp_inband_tags p then
             do { b \<leftarrow> b; bs \<leftarrow> buf_read b (mp_data_bytes_per_chunk p) 16;
                  Some (Some (yaffs_unpack_tags2_tags_only (mp_swap_endian p) (bytes_ptt bs))) }
           else
             do { b \<leftarrow> oob; bs \<leftarrow> buf_read b 0 (packed_tags_size p);
                  let pt = (if mp_no_tags_ecc p
                            then \<lparr>pt_t = bytes_ptt bs, pt_ecc = m_stack_ecc ?m\<rparr> else bytes_pt2 bs);
                  Some (Some (fst (yaffs_unpack_tags2 (mp_swap_endian p) pt (\<not> mp_no_tags_ecc p)))) })
        = Some (Some u)" by blast
  obtain t' m' where n: "marshall_ecc_note e (Some u) ?m = (Some t', m')" "m_drv m' = m_drv ?m"
      "m_spare_buffer m' = m_spare_buffer ?m"
    using ecc_note_ok by blast
  have okm': "marshall_ok good m'" using okm n(2,3) by (simp add: marshall_ok_def)
  have eq: "yaffs_tags_marshall_read drv p m c (Some buf) (Some t) =
     (if r = YAFFS_FAIL then Some (YAFFS_FAIL, Some x, Some t, ?m)
      else Some (if e < YAFFS_ECC_RESULT_UNFIXED then YAFFS_OK else YAFFS_FAIL, Some x, Some t', m'))"
  proof (cases "mp_inband_tags p")
    case True
    then show ?thesis using rd total u n(1) x by (auto simp: yaffs_tags_marshall_read_def Let_def)
  next
    case False
    then obtain y where y: "oob = Some y" "28 \<le> length y" using D assms(1) by (auto simp: marshall_ok_def)
    then have "buf_read y 0 (packed_tags_size p) = Some (take (packed_tags_size p) y)"
      using sz by (simp add: buf_read_def)
    then show ?thesis using False rd total u n(1) x y(1) by (auto simp: yaffs_tags_marshall_read_def Let_def)
  qed
  show ?thesis using eq x(2) okm okm' by auto
qed

end

sublocale marshall_total \<subseteq> fl: flash_total "marshall_driver drv" "yaffs_tags_marshall_install drv p"
    "marshall_ok good" data_size
proof
  fix n c t and buf :: "u8 list"
  assume a: "marshall_ok good n" "length buf = data_size"
  show "\<exists>r b t' n'. read_chunk_tags_fn (yaffs_tags_marshall_install drv p) n c (Some buf) (Some t) =
      Some (r, Some b, Some t', n') \<and> length b = data_size \<and> marshall_ok good n'"
    using marshall_read_total [OF a, of c t] unfolding yaffs_tags_marshall_install_def yaffs_tags_handler.simps .
  show "\<exists>r b n'. write_chunk_tags_fn (yaffs_tags_marshall_install drv p) n c (Some buf) (Some t) =
      Some (r, b, n') \<and> marshall_ok good n' \<and> (r = YAFFS_OK \<or> r = YAFFS_FAIL)"
    using marshall_write_total [OF a, of c t] unfolding yaffs_tags_marshall_install_def yaffs_tags_handler.simps .
next
  fix n blk
  assume a: "marshall_ok good n"
  have "good (m_drv n)" "28 \<le> length (m_spare_buffer n)" using a by (simp_all add: marshall_ok_def)
  then show "marshall_ok good (snd (drv_erase_fn (marshall_driver drv) n blk))"
    "marshall_ok good (snd (drv_mark_bad_fn (marshall_driver drv) n blk))"
    "marshall_ok good (snd (mark_bad_fn (yaffs_tags_marshall_install drv p) n blk))"
    using derase [of "m_drv n" blk] dmark [of "m_drv n" blk]
    by (simp_all add: marshall_driver_def yaffs_tags_marshall_install_def yaffs_tags_marshall_mark_bad_def
        marshall_ok_def split: prod.splits) (metis snd_conv)+
qed

section \<open>The RAM simulator\<close>

definition ram_wf :: "sim_data \<Rightarrow> bool" where
  "ram_wf sim \<longleftrightarrow> (\<forall>b \<in> set sim. length (rb_page b) = PAGES_PER_BLOCK \<and>
     (\<forall>d \<in> set (rb_page b). length d = PAGE_SIZE))"

lemma ram_wf_update:
  assumes "ram_wf sim" and "length (rb_page b) = PAGES_PER_BLOCK" and "\<forall>d \<in> set (rb_page b). length d = PAGE_SIZE"
  shows "ram_wf (sim[k := b])"
  using assms set_update_subset_insert [of sim k b] by (auto simp: ram_wf_def)

lemma ram_wf_page:
  assumes "ram_wf sim" and "ram_chunk_ok sim c n k"
  shows "length (ram_page sim c) = PAGE_SIZE"
proof -
  let ?b = "sim ! (nat c div PAGES_PER_BLOCK)"
  have "?b \<in> set sim" using assms(2) by (simp add: ram_chunk_ok_def)
  then have "length (rb_page ?b) = PAGES_PER_BLOCK" "\<forall>d \<in> set (rb_page ?b). length d = PAGE_SIZE"
    using assms(1) by (simp_all add: ram_wf_def)
  then show ?thesis by (simp add: ram_page_def)
qed

lemma ram_wf_put:
  assumes "ram_wf sim" and "ram_chunk_ok sim c n k" and "length d = PAGE_SIZE"
  shows "ram_wf (ram_put_page sim c d)"
proof -
  let ?b = "sim ! (nat c div PAGES_PER_BLOCK)"
  have "?b \<in> set sim" using assms(2) by (simp add: ram_chunk_ok_def)
  then have "length (rb_page ?b) = PAGES_PER_BLOCK" "\<forall>d \<in> set (rb_page ?b). length d = PAGE_SIZE"
    using assms(1) by (simp_all add: ram_wf_def)
  then show ?thesis unfolding ram_put_page_def Let_def
    by (intro ram_wf_update [OF assms(1)])
      (use assms(3) set_update_subset_insert [of "rb_page ?b" "nat c mod PAGES_PER_BLOCK" d] in auto)
qed

lemma ram_write_total:
  assumes w: "ram_wf s" and l: "length d = DATA_SIZE" and r: "yramsim_wr_chunk s c (Some d) DATA_SIZE oob = (r, s')"
  shows "ram_wf s' \<and> (r = YAFFS_OK \<or> r = YAFFS_FAIL)"
proof (cases "ram_chunk_ok s c DATA_SIZE (case oob of None \<Rightarrow> 0 | Some s \<Rightarrow> length s)")
  case True
  have p: "length (ram_page s c) = DATA_SIZE + SPARE_SIZE" using ram_wf_page [OF w True] by (simp add: PAGE_SIZE_def)
  let ?d = "d @ drop DATA_SIZE (ram_page s c)"
  let ?e = "case oob of None \<Rightarrow> ?d | Some s \<Rightarrow> take DATA_SIZE ?d @ s @ drop (DATA_SIZE + length s) ?d"
  have "length ?e = PAGE_SIZE" using p l True by (auto simp: PAGE_SIZE_def ram_chunk_ok_def split: option.splits)
  then have "ram_wf (ram_put_page s c ?e)" by (rule ram_wf_put [OF w True])
  then show ?thesis using True r l by (auto simp: yramsim_wr_chunk_def Let_def)
qed (use w r in \<open>auto simp: yramsim_wr_chunk_def\<close>)

interpretation ram: driver_total yramsim_driver ram_wf DATA_SIZE
proof
  fix s c n and buf :: "u8 list" and sp :: "u8 list option" and r b oob e s'
  assume a: "ram_wf s" "length buf = DATA_SIZE" "\<And>x. sp = Some x \<Longrightarrow> n \<le> length x"
    "drv_read_chunk_fn yramsim_driver s c (Some buf) DATA_SIZE sp n = (r, b, oob, e, s')"
  show "ram_wf s' \<and> (\<exists>x. b = Some x \<and> length x = DATA_SIZE) \<and>
      (\<forall>x. sp = Some x \<longrightarrow> (\<exists>y. oob = Some y \<and> length y = length x))"
  proof (cases "ram_chunk_ok s c DATA_SIZE n")
    case True
    have p: "length (ram_page s c) = DATA_SIZE + SPARE_SIZE" using ram_wf_page [OF a(1) True] by (simp add: PAGE_SIZE_def)
    have "n \<le> SPARE_SIZE" using True by (simp add: ram_chunk_ok_def)
    then show ?thesis using True p a by (auto simp: yramsim_driver_def yramsim_rd_chunk_def Let_def)
  qed (use a in \<open>auto simp: yramsim_driver_def yramsim_rd_chunk_def\<close>)
next
  fix s c d oob r s'
  assume "ram_wf s" "length d = DATA_SIZE" "drv_write_chunk_fn yramsim_driver s c (Some d) DATA_SIZE oob = (r, s')"
  then show "ram_wf s' \<and> (r = YAFFS_OK \<or> r = YAFFS_FAIL)"
    unfolding yramsim_driver_def yaffs_driver.simps by (rule ram_write_total)
next
  fix s blk assume w: "ram_wf s"
  show "ram_wf (snd (drv_erase_fn yramsim_driver s blk))"
    using w ram_wf_update [OF w, of erased_ram_block]
    by (simp add: yramsim_driver_def yramsim_erase_def yramsim_erase_internal_def erased_ram_block_def)
  show "ram_wf (snd (drv_mark_bad_fn yramsim_driver s blk))"
  proof (cases "int (length s) \<le> blk \<or> s = []")
    case False
    then have "nat blk < length s" by (cases "0 \<le> blk") (simp_all add: nat_less_iff)
    then have "s ! nat blk \<in> set s" by simp
    then show ?thesis using w ram_wf_update [OF w, of "(s ! nat blk)\<lparr>rb_blockOk := False\<rparr>"]
      by (simp add: yramsim_driver_def yramsim_mark_block_bad_def ram_wf_def)
  qed (use w in \<open>auto simp: yramsim_driver_def yramsim_mark_block_bad_def\<close>)
qed

interpretation ram_flash: marshall_total yramsim_driver ram_wf DATA_SIZE "yramsim_param no_tags_ecc swap_endian"
    for no_tags_ecc swap_endian
  by unfold_locales (simp_all add: yramsim_param_def ram_consts)

lemma ram_flash_total:
  "flash_total (marshall_driver yramsim_driver) (yaffs_tags_marshall_install yramsim_driver (yramsim_param nte sw))
     (marshall_ok ram_wf) DATA_SIZE"
  by (rule ram_flash.fl.flash_total_axioms)

end
