(* ===== verification/Yaffs_Write_Props.thy ===== *)
theory Yaffs_Write_Props
  imports Yaffs_Write_Inv Yaffs_Ram_Total
begin

text \<open>
  The properties of writing, deleting and summarising chunks, over any flash that
  returns (\<open>flash_total\<close>), each with a witness on the tag handler of yaffs2 over the
  RAM simulator.
\<close>

section \<open>A sample device on the RAM simulator\<close>

text \<open>Two blocks of 64 chunks, the first erased, the second full with no chunk in use but one.\<close>

definition ram_dev :: "sim_data marshall yaffs_dev" where
  "ram_dev = (zero_dev (zero_param\<lparr>is_yaffs2 := True, chunks_per_block := 64\<rparr>) sample_marshall)
     \<lparr>data_bytes_per_chunk := 2048, temp_content := replicate 2048 0, internal_start_block := 1,
      internal_end_block := 2, chunk_bit_stride := 8,
      block_info := [zero_block_info\<lparr>block_state := YAFFS_BLOCK_STATE_EMPTY\<rparr>,
        zero_block_info\<lparr>block_state := YAFFS_BLOCK_STATE_FULL, pages_in_use := 1\<rparr>],
      chunk_bits := replicate 8 0 @ 8 # replicate 7 0, n_free_chunks := 127, n_erased_blocks := 1,
      alloc_block := -1, yaffs_wr_attempts := 0\<rparr>"

lemma ram_dev_blk: "blk_valid ram_dev b \<longleftrightarrow> b = 1 \<or> b = 2"
  by (auto simp: blk_valid_def ram_dev_def zero_dev_def)

lemma ram_dev_wf: "bits_wf ram_dev"
proof -
  have "nat (chunks_per_block (param ram_dev)) = 64" "chunk_bit_stride ram_dev = 8"
    by (simp_all add: ram_dev_def zero_dev_def zero_param_def)
  then show ?thesis
    by (simp add: bits_wf_def) (simp add: ram_dev_def zero_dev_def zero_param_def n_blocks_def)
qed

lemma bit_8_word: "bit (8 :: u8) n \<longleftrightarrow> n = 3"
  using bit_exp_iff [where 'a = "8 word", of 3 n] by auto

lemma ram_dev_used: "used_pages ram_dev 1 = {}" "used_pages ram_dev 2 = {3}"
proof -
  have d: "chunks_per_block (param ram_dev) = 64" "chunk_bit_stride ram_dev = 8" "internal_start_block ram_dev = 1"
    "chunk_bits ram_dev = replicate 8 0 @ 8 # replicate 7 0"
    by (simp_all add: ram_dev_def zero_dev_def zero_param_def)
  have n: "k div 8 < 8" if "k < 64" for k :: nat using that by arith
  have z: "(8 # replicate 7 (0 :: u8)) ! j = (if j = 0 then 8 else 0)" if "j < 8" for j
    using that by (cases j) simp_all
  have r1: "\<not> row_bit ram_dev 1 k" and r2: "row_bit ram_dev 2 k \<longleftrightarrow> k = 3" if "k < 64" for k
  proof -
    show "\<not> row_bit ram_dev 1 k" using n [OF that] by (simp add: row_bit_def d nth_append)
    have "(replicate 8 0 @ 8 # replicate 7 (0 :: u8)) ! (8 + k div 8) = (if k div 8 = 0 then 8 else 0)"
      using z [OF n [OF that]] by (simp add: nth_append)
    moreover have "k div 8 = 0 \<and> k mod 8 = 3 \<longleftrightarrow> k = 3" by arith
    moreover have "row_bit ram_dev 2 k = bit ((replicate 8 0 @ 8 # replicate 7 (0 :: u8)) ! (8 + k div 8)) (k mod 8)"
      by (simp add: row_bit_def d)
    ultimately show "row_bit ram_dev 2 k \<longleftrightarrow> k = 3" using bit_8_word [of "k mod 8"]
      by (auto split: if_splits)
  qed
  show "used_pages ram_dev 1 = {}" using r1 by (auto simp: used_pages_def chunk_in_use_def d)
  have "nat p = 3 \<longleftrightarrow> p = 3" if "0 \<le> p" for p :: int using that by arith
  then show "used_pages ram_dev 2 = {3}" using r2 by (auto simp: used_pages_def chunk_in_use_def d)
qed

lemma ram_dev_inv: "dev_inv ram_dev"
proof -
  have b: "blk_inv ram_dev b" if "blk_valid ram_dev b" for b
    using that
    by (auto simp: ram_dev_blk blk_inv_def bi_of_def bi_index_def ram_dev_used)
      (simp_all add: ram_dev_def zero_dev_def zero_block_info_def)
  have "n_free_chunks ram_dev = yaffs_count_free_chunks ram_dev \<and>
      n_erased_blocks ram_dev = total empty_of ram_dev \<and> table_wf ram_dev \<and>
      0 < internal_start_block ram_dev \<and> alloc_inv ram_dev"
    by (simp add: ram_dev_def zero_dev_def zero_param_def zero_block_info_def table_wf_def
        n_blocks_def alloc_inv_def total_def empty_of_def yaffs_count_free_chunks_def counted_state_def)
  with ram_dev_wf b show ?thesis by (simp add: dev_inv_def)
qed

lemma ram_dev_flash: "marshall_ok ram_wf (flash ram_dev)"
  by (auto simp: ram_dev_def zero_dev_def sample_marshall_def marshall_ok_def yramsim_alloc_sim_data_def
      ram_wf_def erased_ram_block_def)

section \<open>Writing and deleting\<close>

text \<open>
  C1: \<^verbatim>\<open>yaffs_write_new_chunk\<close> on a device of yaffs2 with blocks of at most 511 chunks whose tables
  agree (\<open>dev_inv\<close>) and whose summaries, if there are any, fit (\<open>sum_ok\<close>, which
  \<^verbatim>\<open>yaffs_summary_init\<close> establishes), over any flash whose calls return, with \<^verbatim>\<open>YAFFS_OK\<close> or
  \<^verbatim>\<open>YAFFS_FAIL\<close> for a write (\<open>flash_total\<close>): the function returns, also without a limit of
  attempts (\<^verbatim>\<open>yaffs_wr_attempts\<close> 0, the default of the direct build) if a block has two chunks and a
  summary covers two (\<open>room_to_retry\<close>); the counts, states and bits of the block table agree
  afterwards; no chunk that was in use has been given up; and the chunk returned, if any, was
  free before and is in use now.
\<close>

theorem write_new_chunk_safe:
  fixes dev :: "'n yaffs_dev"
  assumes "flash_total drv tg ok cb" and "dev_inv dev" and "ok (flash dev)"
    and "length (temp_content dev) = cb" and "data_bytes_per_chunk dev \<le> cb"
    and "sum_ok dev" and "is_yaffs2 (param dev)" and "length data = cb"
    and "yaffs_wr_attempts dev = 0 \<Longrightarrow> room_to_retry dev"
  shows "\<exists>c t e. yaffs_write_new_chunk drv tg dev data tags use_reserver = Some (c, t, e) \<and> dev_inv e \<and>
     (\<forall>b. blk_valid dev b \<longrightarrow> used_pages dev b \<subseteq> used_pages e b) \<and>
     (c = -1 \<or> (let blk = c div chunks_per_block (param dev); p = c mod chunks_per_block (param dev)
         in 0 < c \<and> page_valid dev blk p \<and> p \<notin> used_pages dev blk \<and> p \<in> used_pages e blk))"
  using flash_total.write_new_chunk_inv [OF assms(1), of dev data tags use_reserver] assms(2-9)
  by (auto simp: flash_total.sound_def [OF assms(1)])

theorem write_new_chunk_safe_witness:
  "\<exists>c t e. yaffs_write_new_chunk (marshall_driver yramsim_driver)
       (yaffs_tags_marshall_install yramsim_driver (yramsim_param False False)) ram_dev
       (replicate DATA_SIZE 7) sample_tags True = Some (c, t, e) \<and> dev_inv e \<and>
     (\<forall>b. blk_valid ram_dev b \<longrightarrow> used_pages ram_dev b \<subseteq> used_pages e b) \<and>
     (c = -1 \<or> (let blk = c div chunks_per_block (param ram_dev); p = c mod chunks_per_block (param ram_dev)
         in 0 < c \<and> page_valid ram_dev blk p \<and> p \<notin> used_pages ram_dev blk \<and> p \<in> used_pages e blk))"
  by (rule write_new_chunk_safe [OF ram_flash_total ram_dev_inv ram_dev_flash])
    (simp_all add: ram_dev_def zero_dev_def zero_param_def DATA_SIZE_def sum_ok_def room_to_retry_def)

text \<open>
  C10: \<^verbatim>\<open>yaffs_chunk_del\<close> of a chunk in use, over any flash that returns: exactly its bit
  is cleared, and the tables agree afterwards, also where the block had no other chunk
  in use and was erased, or could not be erased and was retired.
\<close>

theorem chunk_del_safe:
  fixes dev :: "'n yaffs_dev"
  assumes "flash_total drv tg ok cb" and "dev_inv dev" and "ok (flash dev)"
    and "length (temp_content dev) = cb" and "data_bytes_per_chunk dev \<le> cb" and "is_yaffs2 (param dev)"
    and "page_valid dev blk p" and "p \<in> used_pages dev blk"
    and "block_state (bi_of dev blk)
      \<in> {YAFFS_BLOCK_STATE_FULL, YAFFS_BLOCK_STATE_ALLOCATING, YAFFS_BLOCK_STATE_COLLECTING}"
    and "soft_del_pages (bi_of dev blk) < pages_in_use (bi_of dev blk)"
  shows "\<exists>e. yaffs_chunk_del drv tg dev (blk * chunks_per_block (param dev) + p) mark_flash = Some e \<and>
     dev_inv e \<and> (\<forall>b. blk_valid dev b \<longrightarrow>
       used_pages e b = (if b = blk then used_pages dev b - {p} else used_pages dev b))"
  using flash_total.chunk_del_inv [OF assms(1) _ assms(2,6-10) refl, of mark_flash] assms(3-5)
  by (auto simp: flash_total.sound_def [OF assms(1)] page_gone_def)

theorem chunk_del_safe_witness:
  "\<exists>e. yaffs_chunk_del (marshall_driver yramsim_driver)
       (yaffs_tags_marshall_install yramsim_driver (yramsim_param False False)) ram_dev
       (2 * chunks_per_block (param ram_dev) + 3) True = Some e \<and>
     dev_inv e \<and> (\<forall>b. blk_valid ram_dev b \<longrightarrow>
       used_pages e b = (if b = 2 then used_pages ram_dev b - {3} else used_pages ram_dev b))"
  by (rule chunk_del_safe [OF ram_flash_total ram_dev_inv ram_dev_flash])
    (simp_all add: page_valid_def ram_dev_blk ram_dev_used,
     simp_all add: ram_dev_def zero_dev_def zero_param_def zero_block_info_def bi_of_def bi_index_def DATA_SIZE_def)

section \<open>Summaries\<close>

text \<open>
  The geometry of the summaries.  On blocks of at least two chunks of at least 56
  bytes, \<^verbatim>\<open>yaffs_summary_init\<close> leaves at least one chunk to summarise and at least one
  for the summary, and the chunks it sets aside hold the twelve bytes of every
  summarised chunk with a header of 16 bytes in each.
\<close>

theorem summary_init_fits:
  assumes "2 \<le> chunks_per_block (param dev)" and "56 \<le> data_bytes_per_chunk dev"
  shows "fst (yaffs_summary_init True dev) = YAFFS_OK \<and> sum_ok (snd (yaffs_summary_init True dev)) \<and>
     sum_tags (snd (yaffs_summary_init True dev)) \<noteq> None"
proof -
  let ?n = "chunks_per_block (param dev)" and ?d = "int (data_bytes_per_chunk dev)"
  define k where "k = (?n * 12 + ?d - 1) div (?d - 16)"
  have d: "56 \<le> ?d" using assms(2) by simp
  have "0 < (?n * 12 + ?d - 1) div (?d - 16)" using assms(1) d by (simp add: pos_imp_zdiv_pos_iff)
  then have k0: "0 < k" by (simp add: k_def)
  have m: "?n * 12 + ?d - 1 = k * (?d - 16) + (?n * 12 + ?d - 1) mod (?d - 16)"
    "(?n * 12 + ?d - 1) mod (?d - 16) < ?d - 16"
    unfolding k_def using d by (simp_all only: div_mult_mod_eq) simp
  then have up: "?n * 12 + 16 \<le> k * (?d - 16)" by linarith
  have "0 \<le> (?n - 2) * (?d - 28)" using assms(1) d by (intro mult_nonneg_nonneg) simp_all
  then have "?n * 12 + ?d - 1 < ?n * (?d - 16)" using d by (simp add: algebra_simps)
  moreover have "0 \<le> (?n * 12 + ?d - 1) mod (?d - 16)" using d by simp
  ultimately have "k * (?d - 16) < ?n * (?d - 16)" using m(1) by linarith
  then have kn: "k < ?n" using d by (simp add: mult_less_cancel_right)
  have "12 * (?n - k) = ?n * 12 - 12 * k" by simp
  then have "12 * (?n - k) \<le> k * (?d - 16)" using up k0 by linarith
  then show ?thesis
    using k0 kn d assms(2)
    by (simp add: yaffs_summary_init_def Let_def yaffs_summary_clear_def sum_ok_def flip: k_def)
qed

text \<open>The sequence number is the only field of the packed tags that does not move the others.\<close>

lemma unpack_seq:
  assumes "pt_seq_number q \<noteq> 0xffffffff" and "s \<noteq> 0xffffffff"
  shows "yaffs_unpack_tags2_tags_only sw (q\<lparr>pt_seq_number := s\<rparr>) =
    (yaffs_unpack_tags2_tags_only sw q)\<lparr>seq_number := yaffs_do_endian_u32 sw s\<rparr>"
proof -
  let ?q = "yaffs_do_endian_packed_tags2 sw q" and ?r = "yaffs_do_endian_packed_tags2 sw (q\<lparr>pt_seq_number := s\<rparr>)"
  have e: "pt_obj_id ?r = pt_obj_id ?q" "pt_chunk_id ?r = pt_chunk_id ?q" "pt_n_bytes ?r = pt_n_bytes ?q"
    "pt_seq_number ?r = yaffs_do_endian_u32 sw s"
    by (simp_all add: yaffs_do_endian_packed_tags2_def yaffs_do_endian_u32_def)
  have r: "pt_seq_number (q\<lparr>pt_seq_number := s\<rparr>) \<noteq> 0xffffffff" using assms(2) by simp
  show ?thesis
    unfolding yaffs_unpack_tags2_tags_only_def Let_def if_not_P [OF r] if_not_P [OF assms(1)] e by simp
qed

text \<open>
  C37: what the summary keeps of the tags.  After \<^verbatim>\<open>yaffs_summary_add\<close> of the tags of a chunk, other
  than the last one a summary covers (with which it is written to flash and cleared),
  \<^verbatim>\<open>yaffs_summary_fetch\<close> of that chunk gives back every field the packed tags hold, but with the
  sequence number that the uninitialised word on its stack is; if that word is the erased value,
  it gives the tags of an unused chunk, whatever was added.
\<close>

theorem summary_fetch_after_add:
  assumes "sum_tags dev = Some sts" and "int (length sts) = chunks_per_summary dev"
    and "0 \<le> chunk mod chunks_per_block (param dev)"
    and "chunk mod chunks_per_block (param dev) < chunks_per_summary dev - 1" and "tags2_fits t"
  shows "\<exists>dev'. yaffs_summary_add tg dev t chunk = Some dev' \<and>
     yaffs_summary_fetch dev' old (chunk mod chunks_per_block (param dev)) =
       Some (YAFFS_OK,
         let w = seq_number (stack_tags dev)
         in if w = 0xffffffff then zero_tags
            else (tags2_stored t)\<lparr>seq_number := yaffs_do_endian_u32 (swap_endian dev) w\<rparr>)"
proof -
  let ?c = "chunk mod chunks_per_block (param dev)" and ?w = "seq_number (stack_tags dev)"
  let ?q = "yaffs_pack_tags2_tags_only (swap_endian dev) t"
  let ?st = "\<lparr>st_obj_id = pt_obj_id ?q, st_chunk_id = pt_chunk_id ?q, st_n_bytes = pt_n_bytes ?q\<rparr>"
  let ?e = "dev\<lparr>sum_tags := Some (sts[nat ?c := ?st])\<rparr>"
  have c: "nat ?c < length sts" using assms(2-4) by linarith
  have add: "yaffs_summary_add tg dev t chunk = Some ?e"
    using assms(1,3,4) c by (simp add: yaffs_summary_add_def Let_def chunk_in_block_def)
  have fetch: "yaffs_summary_fetch ?e old ?c =
      Some (YAFFS_OK, yaffs_unpack_tags2_tags_only (swap_endian dev) (?q\<lparr>pt_seq_number := ?w\<rparr>))"
    using c assms(3,4) by (simp add: yaffs_summary_fetch_def Let_def) (rule arg_cong, simp)
  have "yaffs_unpack_tags2_tags_only (swap_endian dev) (?q\<lparr>pt_seq_number := ?w\<rparr>) =
      (tags2_stored t)\<lparr>seq_number := yaffs_do_endian_u32 (swap_endian dev) ?w\<rparr>" if "?w \<noteq> 0xffffffff"
  proof -
    have ff: "swap_u32 0xffffffff = 0xffffffff" by code_simp
    have "pt_seq_number ?q = yaffs_do_endian_u32 (swap_endian dev) (seq_number t)"
      by (simp add: yaffs_pack_tags2_tags_only_def Let_def yaffs_do_endian_packed_tags2_def yaffs_do_endian_u32_def)
    moreover have "seq_number t \<noteq> 0xffffffff" using assms(5) by (simp add: tags2_fits_def)
    ultimately have "pt_seq_number ?q \<noteq> 0xffffffff" using ff by (metis yaffs_do_endian_u32_def swap_u32_swap_u32)
    from unpack_seq [OF this that] show ?thesis using unpack_pack_tags_only [OF assms(5)] by metis
  qed
  then show ?thesis using add fetch by (simp add: Let_def yaffs_unpack_tags2_tags_only_def)
qed

definition sum_dev :: "sim_data marshall yaffs_dev" where
  "sum_dev = (zero_dev (zero_param\<lparr>chunks_per_block := 64\<rparr>) sample_marshall)
     \<lparr>chunks_per_summary := 63, sum_tags := Some (replicate 63 zero_st)\<rparr>"

theorem summary_fetch_after_add_witness:
  "\<exists>dev'. yaffs_summary_add (yaffs_tags_marshall_install yramsim_driver (yramsim_param False False)) sum_dev
       sample_tags 69 = Some dev' \<and>
     yaffs_summary_fetch dev' zero_tags (69 mod chunks_per_block (param sum_dev)) =
       Some (YAFFS_OK, let w = seq_number (stack_tags sum_dev)
         in if w = 0xffffffff then zero_tags
            else (tags2_stored sample_tags)\<lparr>seq_number := yaffs_do_endian_u32 (swap_endian sum_dev) w\<rparr>)"
  by (rule summary_fetch_after_add [where sts = "replicate 63 zero_st", OF _ _ _ _ sample_tags_fit])
    (simp_all add: sum_dev_def zero_dev_def zero_param_def)

theorem summary_init_fits_witness:
  "fst (yaffs_summary_init True ram_dev) = YAFFS_OK \<and> sum_ok (snd (yaffs_summary_init True ram_dev)) \<and>
     sum_tags (snd (yaffs_summary_init True ram_dev)) \<noteq> None"
  by (rule summary_init_fits) (simp_all add: ram_dev_def zero_dev_def zero_param_def)

end
