(* ===== verification/Yaffs_Tnode.thy ===== *)
theory Yaffs_Tnode
  imports Yaffs_Dev
begin

text \<open>
  core/yaffs_allocator.c (the tnode part) and the tnodes of core/yaffs_guts.c: the tree
  that maps the chunks of a file to chunks of the flash.

  A tnode of level 0 is an array of 32-bit words that packs sixteen numbers of
  \<^verbatim>\<open>tnode_width\<close> bits, one above level 0 is an array of eight pointers.  The code
  tells them apart by the level alone; here they are the two constructors of a
  datatype, a tree is a value (no tnode has two parents), and None is the use of a
  tnode at the wrong level or of a word outside its array.  Chunk numbers of files
  are natural numbers, the shifts and masks of the code divisions and remainders.
\<close>

section \<open>The allocator\<close>

definition YAFFS_ALLOCATION_NTNODES :: nat where "YAFFS_ALLOCATION_NTNODES = 100"

text \<open>The next outcome of \<^verbatim>\<open>kmalloc\<close>.\<close>

definition kmalloc :: "'n yaffs_dev \<Rightarrow> bool \<times> 'n yaffs_dev" where
  "kmalloc dev =
     (case kmallocs (allocator dev) of [] \<Rightarrow> (False, dev)
      | b # bs \<Rightarrow> (b, dev\<lparr>allocator := (allocator dev)\<lparr>kmallocs := bs\<rparr>\<rparr>))"

text \<open>
  The tnodes are on the free list before the list entry for their later release is
  allocated; when that fails the function fails, but the tnodes are there.
\<close>

definition yaffs_create_tnodes :: "'n yaffs_dev \<Rightarrow> nat \<Rightarrow> int \<times> 'n yaffs_dev" where
  "yaffs_create_tnodes dev n =
     (if n < 1 then (YAFFS_OK, dev)
      else
        let (ok, dev) = kmalloc dev
        in if \<not> ok then (YAFFS_FAIL, dev)
           else
             let a = allocator dev;
                 dev = dev\<lparr>allocator := a\<lparr>n_free_tnodes := n_free_tnodes a + n,
                                          n_tnodes_created := n_tnodes_created a + int n\<rparr>\<rparr>;
                 (ok, dev) = kmalloc dev
             in (if \<not> ok then YAFFS_FAIL else YAFFS_OK, dev))"

definition yaffs_alloc_raw_tnode :: "'n yaffs_dev \<Rightarrow> bool \<times> 'n yaffs_dev" where
  "yaffs_alloc_raw_tnode dev =
     (let dev = (if n_free_tnodes (allocator dev) = 0
                 then snd (yaffs_create_tnodes dev YAFFS_ALLOCATION_NTNODES) else dev);
          a = allocator dev
      in if n_free_tnodes a \<noteq> 0
         then (True, dev\<lparr>allocator := a\<lparr>n_free_tnodes := n_free_tnodes a - 1\<rparr>\<rparr>)
         else (False, dev))"

text \<open>On a tnode that is not NULL.\<close>

definition yaffs_free_raw_tnode :: "'n yaffs_dev \<Rightarrow> 'n yaffs_dev" where
  "yaffs_free_raw_tnode dev =
     (let a = allocator dev
      in dev\<lparr>allocator := a\<lparr>n_free_tnodes := n_free_tnodes a + 1\<rparr>, checkpoint_blocks_required := 0\<rparr>)"

section \<open>Tnodes\<close>

datatype yaffs_tnode = Tnode0 "u32 list" | Tnode "yaffs_tnode option list"

record yaffs_file_var =
  file_size :: int
  stored_size :: int
  shrink_size :: int
  top_level :: nat
  top :: "yaffs_tnode option"

text \<open>A new tnode is zero; \<open>level\<close> is where it is going to be used.\<close>

definition new_tnode :: "'n yaffs_dev \<Rightarrow> nat \<Rightarrow> yaffs_tnode" where
  "new_tnode dev level =
     (if level = 0 then Tnode0 (replicate (nat (tnode_size dev) div 4) 0)
      else Tnode (replicate YAFFS_NTNODES_INTERNAL None))"

definition yaffs_get_tnode :: "'n yaffs_dev \<Rightarrow> nat \<Rightarrow> yaffs_tnode option \<times> 'n yaffs_dev" where
  "yaffs_get_tnode dev level =
     (let (ok, dev) = yaffs_alloc_raw_tnode dev;
          dev = (if ok then dev\<lparr>n_tnodes := n_tnodes dev + 1\<rparr> else dev)
      in (if ok then Some (new_tnode dev level) else None, dev\<lparr>checkpoint_blocks_required := 0\<rparr>))"

definition yaffs_free_tnode :: "'n yaffs_dev \<Rightarrow> 'n yaffs_dev" where
  "yaffs_free_tnode dev =
     (let dev = yaffs_free_raw_tnode dev
      in dev\<lparr>n_tnodes := n_tnodes dev - 1, checkpoint_blocks_required := 0\<rparr>)"

definition yaffs_load_tnode_0 :: "'n yaffs_dev \<Rightarrow> u32 list \<Rightarrow> nat \<Rightarrow> u32 \<Rightarrow> u32 list option" where
  "yaffs_load_tnode_0 dev mp pos val =
     (let pos = pos mod YAFFS_NTNODES_LEVEL0;
          val = drop_bit (chunk_grp_bits dev) val;
          bit_in_map = pos * tnode_width dev;
          word_in_map = bit_in_map div 32;
          bit_in_word = bit_in_map mod 32;
          mask = push_bit bit_in_word (tnode_mask dev)
      in if word_in_map \<ge> length mp then None
         else
           let mp = mp[word_in_map := (mp ! word_in_map AND NOT mask) OR (mask AND push_bit bit_in_word val)]
           in if tnode_width dev > 32 - bit_in_word then
                let bit_in_word = 32 - bit_in_word;
                    word_in_map = word_in_map + 1;
                    mask = drop_bit bit_in_word (tnode_mask dev)
                in if word_in_map \<ge> length mp then None
                   else Some (mp[word_in_map :=
                          (mp ! word_in_map AND NOT mask) OR (mask AND drop_bit bit_in_word val)])
              else Some mp)"

definition yaffs_get_group_base :: "'n yaffs_dev \<Rightarrow> u32 list \<Rightarrow> nat \<Rightarrow> u32 option" where
  "yaffs_get_group_base dev mp pos =
     (let pos = pos mod YAFFS_NTNODES_LEVEL0;
          bit_in_map = pos * tnode_width dev;
          word_in_map = bit_in_map div 32;
          bit_in_word = bit_in_map mod 32
      in if word_in_map \<ge> length mp then None
         else do {
           let val = drop_bit bit_in_word (mp ! word_in_map);
           val \<leftarrow> (if tnode_width dev > 32 - bit_in_word then
                      if word_in_map + 1 \<ge> length mp then None
                      else Some (val OR push_bit (32 - bit_in_word) (mp ! (word_in_map + 1)))
                    else Some val);
           Some (push_bit (chunk_grp_bits dev) (val AND tnode_mask dev)) })"

section \<open>The tree\<close>

text \<open>The levels above 0 that a chunk needs: \<open>i\<close> is the chunk without its bits in level 0.\<close>

function required_depth :: "nat \<Rightarrow> nat" where
  "required_depth i = (if i = 0 then 0 else Suc (required_depth (i div 2 ^ YAFFS_TNODES_INTERNAL_BITS)))"
  by auto
termination by (relation "measure id") (simp_all add: tnode_consts)

declare required_depth.simps [simp del]

text \<open>The slot for a chunk in a tnode of a level above 0.\<close>

definition tnode_slot :: "nat \<Rightarrow> nat \<Rightarrow> nat" where
  "tnode_slot level cid =
     cid div 2 ^ (YAFFS_TNODES_LEVEL0_BITS + (level - 1) * YAFFS_TNODES_INTERNAL_BITS)
       mod YAFFS_NTNODES_INTERNAL"

fun find_down :: "nat \<Rightarrow> yaffs_tnode option \<Rightarrow> nat \<Rightarrow> yaffs_tnode option option" where
  "find_down level None cid = Some None"
| "find_down 0 (Some tn) cid = Some (Some tn)"
| "find_down (Suc l) (Some (Tnode xs)) cid =
     (let x = tnode_slot (Suc l) cid
      in if x < length xs then find_down l (xs ! x) cid else None)"
| "find_down (Suc l) (Some (Tnode0 mp)) cid = None"

text \<open>The outer None is a tree that is not one; the inner None is the NULL of the code.\<close>

definition yaffs_find_tnode_0 :: "yaffs_file_var \<Rightarrow> nat \<Rightarrow> yaffs_tnode option option" where
  "yaffs_find_tnode_0 fs cid =
     (if top_level fs > YAFFS_TNODES_MAX_LEVEL then Some None
      else if cid > YAFFS_MAX_CHUNK_ID then Some None
      else if required_depth (cid div 2 ^ YAFFS_TNODES_LEVEL0_BITS) > top_level fs then Some None
      else find_down (top_level fs) (top fs) cid)"

text \<open>The first step of \<^verbatim>\<open>yaffs_add_find_tnode_0\<close>: \<open>n\<close> more levels.\<close>

fun tree_taller :: "nat \<Rightarrow> 'n yaffs_dev \<Rightarrow> yaffs_file_var \<Rightarrow> bool \<times> 'n yaffs_dev \<times> yaffs_file_var" where
  "tree_taller 0 dev fs = (True, dev, fs)"
| "tree_taller (Suc n) dev fs =
     (case yaffs_get_tnode dev (top_level fs + 1) of
        (Some (Tnode xs), dev) \<Rightarrow>
          tree_taller n dev (fs\<lparr>top := Some (Tnode (xs[0 := top fs])), top_level := top_level fs + 1\<rparr>)
      | (_, dev) \<Rightarrow> (False, dev, fs))"

text \<open>
  The second step, from a tnode of a level down to level 0: the level 0 tnode, if any,
  the tnode with what was added below it, and the device.
\<close>

fun add_down :: "'n yaffs_dev \<Rightarrow> nat \<Rightarrow> yaffs_tnode \<Rightarrow> nat \<Rightarrow> yaffs_tnode option \<Rightarrow>
    (yaffs_tnode option \<times> yaffs_tnode \<times> 'n yaffs_dev) option" where
  "add_down dev 0 tn cid passed = Some (Some tn, tn, dev)"
| "add_down dev (Suc l) (Tnode0 mp) cid passed = None"
| "add_down dev (Suc l) (Tnode xs) cid passed =
     (let x = tnode_slot (Suc l) cid
      in if x \<ge> length xs then None
         else
           let (child, dev) =
             (if l > 0 \<and> xs ! x = None then yaffs_get_tnode dev l
              else if l = 0 then
                case passed of
                  Some p \<Rightarrow> (Some p, if xs ! x \<noteq> None then yaffs_free_tnode dev else dev)
                | None \<Rightarrow> if xs ! x = None then yaffs_get_tnode dev 0 else (xs ! x, dev)
              else (xs ! x, dev))
           in case child of
                None \<Rightarrow> Some (None, Tnode xs, dev)
              | Some c \<Rightarrow>
                  do { (r, c, dev) \<leftarrow> add_down dev l c cid passed;
                       Some (r, Tnode (xs[x := Some c]), dev) })"

text \<open>
  A tree whose top is of level 0 and is missing gives NULL, as the loop never runs; a
  tnode passed in is copied into the top, as far as its sixteen entries reach.
\<close>

definition copy_tnode_0 :: "'n yaffs_dev \<Rightarrow> yaffs_tnode \<Rightarrow> yaffs_tnode option \<Rightarrow> yaffs_tnode option" where
  "copy_tnode_0 dev p tn =
     (case (p, tn) of
        (Tnode0 pm, Some (Tnode0 tm)) \<Rightarrow>
          let n = tnode_width dev * YAFFS_NTNODES_LEVEL0 div 8 div 4
          in if n \<le> length pm \<and> n \<le> length tm then Some (Tnode0 (take n pm @ drop n tm)) else None
      | _ \<Rightarrow> None)"

definition yaffs_add_find_tnode_0 ::
    "'n yaffs_dev \<Rightarrow> yaffs_file_var \<Rightarrow> nat \<Rightarrow> yaffs_tnode option \<Rightarrow>
     (yaffs_tnode option \<times> yaffs_file_var \<times> 'n yaffs_dev) option" where
  "yaffs_add_find_tnode_0 dev fs cid passed =
     (if top_level fs > YAFFS_TNODES_MAX_LEVEL then Some (None, fs, dev)
      else if cid > YAFFS_MAX_CHUNK_ID then Some (None, fs, dev)
      else
        let depth = required_depth (cid div 2 ^ YAFFS_TNODES_LEVEL0_BITS);
            (ok, dev, fs) = tree_taller (depth - top_level fs) dev fs
        in if \<not> ok then Some (None, fs, dev)
           else if top_level fs > 0 then
             case top fs of None \<Rightarrow> Some (None, fs, dev)
             | Some tn \<Rightarrow>
                 do { (r, tn, dev) \<leftarrow> add_down dev (top_level fs) tn cid passed;
                      Some (r, fs\<lparr>top := Some tn\<rparr>, dev) }
           else
             case passed of None \<Rightarrow> Some (top fs, fs, dev)
             | Some p \<Rightarrow>
                 do { tn \<leftarrow> copy_tnode_0 dev p (top fs);
                      Some (Some tn, fs\<lparr>top := Some tn\<rparr>, yaffs_free_tnode dev) })"

text \<open>The change of the level 0 tnode of a chunk, in place.\<close>

fun put_down :: "nat \<Rightarrow> yaffs_tnode \<Rightarrow> nat \<Rightarrow> yaffs_tnode \<Rightarrow> yaffs_tnode" where
  "put_down 0 tn cid tn0 = tn0"
| "put_down (Suc l) (Tnode0 mp) cid tn0 = Tnode0 mp"
| "put_down (Suc l) (Tnode xs) cid tn0 =
     (let x = tnode_slot (Suc l) cid
      in case xs ! x of None \<Rightarrow> Tnode xs
         | Some c \<Rightarrow> Tnode (xs[x := Some (put_down l c cid tn0)]))"

definition put_tnode_0 :: "yaffs_file_var \<Rightarrow> nat \<Rightarrow> yaffs_tnode \<Rightarrow> yaffs_file_var" where
  "put_tnode_0 fs cid tn0 = fs\<lparr>top := map_option (\<lambda>tn. put_down (top_level fs) tn cid tn0) (top fs)\<rparr>"

section \<open>Pruning\<close>

text \<open>
  The worker on the slots \<open>xs\<close> of a tnode, and on a tnode: \<open>del0\<close> allows the removal of
  the tnode itself.
\<close>

fun yaffs_prune_worker :: "nat \<Rightarrow> 'n yaffs_dev \<Rightarrow> yaffs_tnode \<Rightarrow> bool \<Rightarrow>
      (yaffs_tnode option \<times> 'n yaffs_dev) option"
  and prune_slots :: "nat \<Rightarrow> 'n yaffs_dev \<Rightarrow> yaffs_tnode option list \<Rightarrow> bool \<Rightarrow>
      (yaffs_tnode option list \<times> 'n yaffs_dev) option" where
  "yaffs_prune_worker (Suc l) dev (Tnode xs) del0 =
     do { (xs, dev) \<leftarrow> prune_slots l dev xs del0;
          if list_all (\<lambda>x. x = None) xs \<and> del0 then Some (None, yaffs_free_tnode dev)
          else Some (Some (Tnode xs), dev) }"
| "yaffs_prune_worker 0 dev (Tnode0 mp) del0 =
     (if list_all (\<lambda>w. w = 0) mp \<and> del0 then Some (None, yaffs_free_tnode dev)
      else Some (Some (Tnode0 mp), dev))"
| "yaffs_prune_worker (Suc l) dev (Tnode0 mp) del0 = None"
| "yaffs_prune_worker 0 dev (Tnode xs) del0 = None"
| "prune_slots l dev [] del0 = Some ([], dev)"
| "prune_slots l dev (x # xs) del0 =
     do { (x, dev) \<leftarrow> (case x of None \<Rightarrow> Some (None, dev) | Some tn \<Rightarrow> yaffs_prune_worker l dev tn del0);
          (xs, dev) \<leftarrow> prune_slots l dev xs True;
          Some (x # xs, dev) }"

text \<open>The loop that makes the tree shorter, by recursion on the level.\<close>

fun prune_shorter :: "nat \<Rightarrow> 'n yaffs_dev \<Rightarrow> yaffs_tnode option \<Rightarrow>
    (nat \<times> 'n yaffs_dev \<times> yaffs_tnode option) option" where
  "prune_shorter 0 dev tn = Some (0, dev, tn)"
| "prune_shorter (Suc l) dev (Some (Tnode xs)) =
     (if xs \<noteq> [] \<and> list_all (\<lambda>x. x = None) (tl xs)
      then prune_shorter l (yaffs_free_tnode dev) (hd xs)
      else Some (Suc l, dev, Some (Tnode xs)))"
| "prune_shorter (Suc l) dev tn = None"

definition yaffs_prune_tree :: "'n yaffs_dev \<Rightarrow> yaffs_file_var \<Rightarrow> (yaffs_file_var \<times> 'n yaffs_dev) option" where
  "yaffs_prune_tree dev fs =
     (if top_level fs < 1 then Some (fs, dev)
      else
        do { (tn, dev) \<leftarrow> (case top fs of None \<Rightarrow> Some (None, dev)
                             | Some tn \<Rightarrow> yaffs_prune_worker (top_level fs) dev tn False);
             (l, dev, tn) \<leftarrow> prune_shorter (top_level fs) dev tn;
             Some (fs\<lparr>top := tn, top_level := l\<rparr>, dev) })"

end
