(* ===== verification/Yaffs_Obj.thy ===== *)
theory Yaffs_Obj
  imports Yaffs_Tnode Yaffs_Write
begin

text \<open>
  The objects of the file system (\<^verbatim>\<open>struct yaffs_obj\<close>), the state of a mounted device
  with its object table, directories and caches, and the functions of
  core/yaffs_guts.c on names, times and sizes of objects and on their headers.

  An object pointer is an address in the table \<open>objs\<close>; the address of a freed object
  has no entry, so that its use is None.  An intrusive list is the list of the addresses
  of its members from the head on: the children of a directory, the links to an object,
  a hash bucket (whose \<^verbatim>\<open>count\<close> is the length of the list, as the two change together).
  A member of a list of siblings is in the list of its parent, a hard link in the list of
  the object it stands for.  NULL is None.

  A C string is the list of its bytes without the NUL at the end; an array of characters
  is the list of all its bytes, and \<open>cstr\<close> is the string in it.
\<close>

section \<open>C strings\<close>

definition cstr :: "u8 list \<Rightarrow> u8 list" where
  "cstr buf = takeWhile (\<lambda>c. c \<noteq> 0) buf"

text \<open>\<^verbatim>\<open>strnlen\<close>, \<^verbatim>\<open>strncpy\<close> into an array and \<^verbatim>\<open>strncmp(a, b, n) == 0\<close>.\<close>

definition strnlen :: "u8 list \<Rightarrow> nat \<Rightarrow> nat" where
  "strnlen s n = length (takeWhile (\<lambda>c. c \<noteq> 0) (take n s))"

definition strncpy :: "u8 list \<Rightarrow> u8 list \<Rightarrow> nat \<Rightarrow> u8 list option" where
  "strncpy dst src n = buf_write dst 0 (take n (cstr src @ replicate n 0))"

definition strcpy :: "u8 list \<Rightarrow> u8 list \<Rightarrow> u8 list option" where
  "strcpy dst src = buf_write dst 0 (cstr src @ [0])"

definition str_same :: "u8 list \<Rightarrow> u8 list \<Rightarrow> nat \<Rightarrow> bool" where
  "str_same a b n \<longleftrightarrow> take n (cstr a) = take n (cstr b)"

text \<open>The strings of ydirectenv.h: \<^verbatim>\<open>lost+found\<close>, \<^verbatim>\<open>obj\<close>, and those of the code.\<close>

definition YAFFS_LOSTNFOUND_NAME :: "u8 list" where
  "YAFFS_LOSTNFOUND_NAME = [108, 111, 115, 116, 43, 102, 111, 117, 110, 100]"
definition YAFFS_LOSTNFOUND_PREFIX :: "u8 list" where "YAFFS_LOSTNFOUND_PREFIX = [111, 98, 106]"
definition name_deleted :: "u8 list" where "name_deleted = [100, 101, 108, 101, 116, 101, 100]"
definition name_unlinked :: "u8 list" where
  "name_unlinked = [117, 110, 108, 105, 110, 107, 101, 100]"
definition silly_old_name :: "u8 list" where
  "silly_old_name = [115, 105, 108, 108, 121, 32, 111, 108, 100, 32, 110, 97, 109, 101]"
definition no_alias :: "u8 list" where "no_alias = [110, 111, 32, 97, 108, 105, 97, 115]"

section \<open>Objects\<close>

text \<open>The variant and its type in one: the code changes them together.\<close>

datatype yaffs_obj_var =
    UnknownVar
  | FileVar (file_var: yaffs_file_var)
  | SymlinkVar (alias_of: "u8 list option")
  | DirVar (children_of: "nat list") (on_dirty_list: bool)
  | HardlinkVar (equiv_obj_of: "nat option") (equiv_id_of: u32)
  | SpecialVar

record yaffs_obj =
  o_deleted :: bool
  o_soft_del :: bool
  o_unlinked :: bool
  o_fake :: bool
  o_rename_allowed :: bool
  o_unlink_allowed :: bool
  o_dirty :: bool
  o_valid :: bool
  o_lazy_loaded :: bool
  o_defered_free :: bool
  o_being_created :: bool
  o_is_shadowed :: bool
  o_xattr_known :: bool
  o_has_xattr :: bool
  o_serial :: u8
  o_sum :: u16
  o_hashed :: bool
  o_hard_links :: "nat list"
  o_parent :: "nat option"
  o_hdr_chunk :: int
  o_n_data_chunks :: int
  o_obj_id :: u32
  o_yst_mode :: u32
  o_short_name :: "u8 list"
  o_yst_uid :: u64
  o_yst_gid :: u64
  o_yst_atime :: u64
  o_yst_mtime :: u64
  o_yst_ctime :: u64
  o_yst_rdev :: u32
  o_my_inode :: bool
  o_variant :: yaffs_obj_var

fun var_type :: "yaffs_obj_var \<Rightarrow> u32" where
  "var_type UnknownVar = YAFFS_OBJECT_TYPE_UNKNOWN"
| "var_type (FileVar f) = YAFFS_OBJECT_TYPE_FILE"
| "var_type (SymlinkVar a) = YAFFS_OBJECT_TYPE_SYMLINK"
| "var_type (DirVar c d) = YAFFS_OBJECT_TYPE_DIRECTORY"
| "var_type (HardlinkVar e i) = YAFFS_OBJECT_TYPE_HARDLINK"
| "var_type SpecialVar = YAFFS_OBJECT_TYPE_SPECIAL"

definition variant_type :: "yaffs_obj \<Rightarrow> u32" where
  "variant_type obj = var_type (o_variant obj)"

definition is_file :: "yaffs_obj \<Rightarrow> bool" where
  "is_file obj = (case o_variant obj of FileVar f \<Rightarrow> True | _ \<Rightarrow> False)"
definition is_dir :: "yaffs_obj \<Rightarrow> bool" where
  "is_dir obj = (case o_variant obj of DirVar c d \<Rightarrow> True | _ \<Rightarrow> False)"

text \<open>The file variant of an object; another variant there is None.\<close>

definition file_variant :: "yaffs_obj \<Rightarrow> yaffs_file_var option" where
  "file_variant obj = (case o_variant obj of FileVar f \<Rightarrow> Some f | _ \<Rightarrow> None)"

definition zero_obj :: yaffs_obj where
  "zero_obj = \<lparr>o_deleted = False, o_soft_del = False, o_unlinked = False, o_fake = False,
     o_rename_allowed = False, o_unlink_allowed = False, o_dirty = False, o_valid = False,
     o_lazy_loaded = False, o_defered_free = False, o_being_created = False, o_is_shadowed = False,
     o_xattr_known = False, o_has_xattr = False, o_serial = 0, o_sum = 0, o_hashed = False,
     o_hard_links = [], o_parent = None, o_hdr_chunk = 0, o_n_data_chunks = 0, o_obj_id = 0,
     o_yst_mode = 0, o_short_name = replicate (YAFFS_SHORT_NAME_LENGTH + 1) 0, o_yst_uid = 0,
     o_yst_gid = 0, o_yst_atime = 0, o_yst_mtime = 0, o_yst_ctime = 0, o_yst_rdev = 0,
     o_my_inode = False, o_variant = UnknownVar\<rparr>"

section \<open>The state of a device in use\<close>

text \<open>The parameters that the object layer reads.\<close>

record yaffs_sys_param =
  n_caches_param :: nat
  cache_bypass_aligned :: bool
  empty_lost_n_found :: bool
  hide_lost_n_found :: bool
  stored_endian :: int
  disable_lazy_load :: bool
  wide_tnodes_disabled :: bool
  disable_soft_del :: bool
  defered_dir_update :: bool
  use_header_file_size :: bool

record yaffs_cache =
  c_object :: "nat option"
  c_chunk_id :: nat
  c_last_use :: int
  c_dirty :: bool
  c_n_bytes :: int
  c_locked :: bool
  c_data :: "u8 list"

text \<open>
  An open search of a directory of the device, as far as \<^verbatim>\<open>yaffsfs_RemoveObjectCallback\<close> of
  direct/yaffsfs.c, its \<^verbatim>\<open>remove_obj_fn\<close>, has to see it: the search context it belongs to,
  the directory, and the object that the search returns next.
\<close>

record dir_search =
  ds_slot :: nat
  ds_dir :: nat
  ds_next :: "nat option"

text \<open>
  \<open>sdev\<close> holds the fields of the device that the layers below use, \<open>sdrv\<close> and \<open>stg\<close>
  its driver and tag handler.  \<open>caches\<close> are the entries of the cache manager (there are
  \<^verbatim>\<open>n_caches\<close> of them).  \<open>clock\<close> is the time that each question after it will get
  (\<^verbatim>\<open>Y_CURRENT_TIME\<close>), \<open>gc_control\<close> the answers of \<^verbatim>\<open>gc_control_fn\<close>, if there is one.
  \<open>searches\<close> are the open searches of directories of the device.
\<close>

record 'n yaffs_sys =
  sdev :: "'n yaffs_dev"
  sdrv :: "'n yaffs_driver"
  stg :: "'n yaffs_tags_handler"
  sparam :: yaffs_sys_param
  objs :: "nat \<Rightarrow> yaffs_obj option"
  next_obj :: nat
  obj_bucket :: "nat list list"
  bucket_finder :: nat
  gc_cleanup_list :: "u32 list"
  root_dir :: "nat option"
  lost_n_found :: "nat option"
  unlinked_dir :: "nat option"
  del_dir :: "nat option"
  dirty_dirs :: "nat list"
  caches :: "yaffs_cache list"
  cache_last_use :: int
  cache_hits :: u32
  is_mounted :: bool
  ll_init :: bool
  clock :: "u64 list"
  gc_control :: "u32 list option"
  searches :: "dir_search list"

text \<open>Lifting of the operations of the layers below.\<close>

definition run_dev :: "('n yaffs_dev \<Rightarrow> 'n yaffs_dev option) \<Rightarrow> 'n yaffs_sys \<Rightarrow> 'n yaffs_sys option" where
  "run_dev f s = do { d \<leftarrow> f (sdev s); Some (s\<lparr>sdev := d\<rparr>) }"

definition set_dev :: "('n yaffs_dev \<Rightarrow> 'n yaffs_dev) \<Rightarrow> 'n yaffs_sys \<Rightarrow> 'n yaffs_sys" where
  "set_dev f s = s\<lparr>sdev := f (sdev s)\<rparr>"

definition chunk_del :: "'n yaffs_sys \<Rightarrow> int \<Rightarrow> bool \<Rightarrow> 'n yaffs_sys option" where
  "chunk_del s cid mark_flash = run_dev (\<lambda>d. yaffs_chunk_del (sdrv s) (stg s) d cid mark_flash) s"

definition rd_chunk :: "'n yaffs_sys \<Rightarrow> int \<Rightarrow> u8 list option \<Rightarrow> yaffs_ext_tags option \<Rightarrow>
    (int \<times> u8 list option \<times> yaffs_ext_tags option \<times> 'n yaffs_sys) option" where
  "rd_chunk s cid buf tags =
     do { (r, buf, tags, d) \<leftarrow> yaffs_rd_chunk_tags_nand (stg s) (sdev s) cid buf tags;
          Some (r, buf, tags, s\<lparr>sdev := d\<rparr>) }"

definition wr_new_chunk :: "'n yaffs_sys \<Rightarrow> u8 list \<Rightarrow> yaffs_ext_tags \<Rightarrow> bool \<Rightarrow> (int \<times> 'n yaffs_sys) option" where
  "wr_new_chunk s data tags use_reserver =
     do { (c, t, d) \<leftarrow> yaffs_write_new_chunk (sdrv s) (stg s) (sdev s) data tags use_reserver;
          Some (c, s\<lparr>sdev := d\<rparr>) }"

text \<open>Reading and changing an object.\<close>

definition upd_obj :: "'n yaffs_sys \<Rightarrow> nat \<Rightarrow> (yaffs_obj \<Rightarrow> yaffs_obj) \<Rightarrow> 'n yaffs_sys option" where
  "upd_obj s a f = (case objs s a of None \<Rightarrow> None | Some x \<Rightarrow> Some (s\<lparr>objs := (objs s)(a := Some (f x))\<rparr>))"

definition set_file :: "'n yaffs_sys \<Rightarrow> nat \<Rightarrow> yaffs_file_var \<Rightarrow> 'n yaffs_sys option" where
  "set_file s a f =
     do { x \<leftarrow> objs s a;
          f0 \<leftarrow> file_variant x;
          upd_obj s a (\<lambda>x. x\<lparr>o_variant := FileVar f\<rparr>) }"

definition get_file :: "'n yaffs_sys \<Rightarrow> nat \<Rightarrow> yaffs_file_var option" where
  "get_file s a = do { x \<leftarrow> objs s a; file_variant x }"

end
