(* ===== verification/Yaffs_Names.thy ===== *)
theory Yaffs_Names
  imports Yaffs_Obj
begin

text \<open>
  Names, times and sizes (core/yaffs_guts.c, direct/yaffs_attribs.c) and the object
  header as the bytes at the start of a chunk.  The build is the one without automatic
  Unicode names, with 64-bit times and little-endian integers.
\<close>

section \<open>Names\<close>

text \<open>\<^verbatim>\<open>name\<close> and \<^verbatim>\<open>oh_name\<close> are arrays; the array filled is returned.\<close>

definition yaffs_load_name_from_oh :: "u8 list \<Rightarrow> u8 list \<Rightarrow> nat \<Rightarrow> u8 list option" where
  "yaffs_load_name_from_oh name nm buff_size = strncpy name nm (buff_size - 1)"

definition yaffs_load_oh_from_name :: "u8 list \<Rightarrow> u8 list \<Rightarrow> u8 list option" where
  "yaffs_load_oh_from_name nm name = strncpy nm name (YAFFS_MAX_NAME_LENGTH - 1)"

fun name_sum_loop :: "u8 list \<Rightarrow> u16 \<Rightarrow> u16 \<Rightarrow> u16" where
  "name_sum_loop [] i acc = acc"
| "name_sum_loop (c # name) i acc =
     (if c = 0 \<or> \<not> i < word_of_nat (YAFFS_MAX_NAME_LENGTH div 2) then acc
      else name_sum_loop name (i + 1) (acc + (ucast c AND 0x1f) * i))"

definition yaffs_calc_name_sum :: "u8 list option \<Rightarrow> u16" where
  "yaffs_calc_name_sum name = (case name of None \<Rightarrow> 0 | Some n \<Rightarrow> name_sum_loop n 1 0)"

text \<open>The decimal digits of an object id, none for 0.\<close>

function digits :: "nat \<Rightarrow> u8 list \<Rightarrow> u8 list" where
  "digits v x = (if v > 0 then digits (v div 10) (word_of_nat (48 + v mod 10) # x) else x)"
  by auto
termination by (relation "measure fst") simp_all

declare digits.simps [simp del]

definition yaffs_fix_null_name :: "yaffs_obj \<Rightarrow> u8 list \<Rightarrow> nat \<Rightarrow> u8 list option" where
  "yaffs_fix_null_name obj name buffer_size =
     (if strnlen name buffer_size = 0
      then strncpy name (YAFFS_LOSTNFOUND_PREFIX @ digits (unat (o_obj_id obj)) []) (buffer_size - 1)
      else Some name)"

definition yaffs_set_obj_name :: "yaffs_obj \<Rightarrow> u8 list option \<Rightarrow> yaffs_obj option" where
  "yaffs_set_obj_name obj name =
     (let zeros = replicate (YAFFS_SHORT_NAME_LENGTH + 1) 0
      in case name of
           None \<Rightarrow> Some (obj\<lparr>o_short_name := zeros, o_sum := yaffs_calc_name_sum None\<rparr>)
         | Some n \<Rightarrow>
             if cstr n = [] then
               do { short \<leftarrow> yaffs_fix_null_name obj zeros YAFFS_SHORT_NAME_LENGTH;
                    Some (obj\<lparr>o_short_name := short, o_sum := yaffs_calc_name_sum (Some short)\<rparr>) }
             else
               do { short \<leftarrow> (if strnlen n (YAFFS_SHORT_NAME_LENGTH + 1) \<le> YAFFS_SHORT_NAME_LENGTH
                              then strcpy zeros n else Some zeros);
                    Some (obj\<lparr>o_short_name := short, o_sum := yaffs_calc_name_sum (Some n)\<rparr>) })"

definition yaffs_set_obj_name_from_oh :: "yaffs_obj \<Rightarrow> yaffs_obj_hdr \<Rightarrow> yaffs_obj option" where
  "yaffs_set_obj_name_from_oh obj oh = yaffs_set_obj_name obj (Some (oh_name oh))"

section \<open>Times and sizes\<close>

definition yaffs_oh_time_load :: "u64 \<Rightarrow> u32 \<times> (u32 \<times> u32)" where
  "yaffs_oh_time_load timeval =
     (let lower = ucast (timeval AND 0xffffffff);
          upper = ucast (drop_bit 32 timeval AND 0xffffffff)
      in (lower, (lower, upper)))"

definition yaffs_oh_time_fetch :: "u32 \<Rightarrow> u32 \<times> u32 \<Rightarrow> u64" where
  "yaffs_oh_time_fetch yst_time win_time =
     (let (upper, lower) = (if snd win_time = 0xffffffff then (0, yst_time) else (snd win_time, fst win_time))
      in push_bit 32 (ucast upper) OR ucast lower)"

definition yaffs_oh_ctime_fetch :: "yaffs_obj_hdr \<Rightarrow> u64" where
  "yaffs_oh_ctime_fetch oh = yaffs_oh_time_fetch (oh_yst_ctime oh) (oh_win_ctime oh)"
definition yaffs_oh_mtime_fetch :: "yaffs_obj_hdr \<Rightarrow> u64" where
  "yaffs_oh_mtime_fetch oh = yaffs_oh_time_fetch (oh_yst_mtime oh) (oh_win_mtime oh)"
definition yaffs_oh_atime_fetch :: "yaffs_obj_hdr \<Rightarrow> u64" where
  "yaffs_oh_atime_fetch oh = yaffs_oh_time_fetch (oh_yst_atime oh) (oh_win_atime oh)"

definition yaffs_oh_ctime_load :: "yaffs_obj \<Rightarrow> yaffs_obj_hdr \<Rightarrow> yaffs_obj_hdr" where
  "yaffs_oh_ctime_load obj oh =
     (let (y, w) = yaffs_oh_time_load (o_yst_ctime obj) in oh\<lparr>oh_yst_ctime := y, oh_win_ctime := w\<rparr>)"
definition yaffs_oh_mtime_load :: "yaffs_obj \<Rightarrow> yaffs_obj_hdr \<Rightarrow> yaffs_obj_hdr" where
  "yaffs_oh_mtime_load obj oh =
     (let (y, w) = yaffs_oh_time_load (o_yst_mtime obj) in oh\<lparr>oh_yst_mtime := y, oh_win_mtime := w\<rparr>)"
definition yaffs_oh_atime_load :: "yaffs_obj \<Rightarrow> yaffs_obj_hdr \<Rightarrow> yaffs_obj_hdr" where
  "yaffs_oh_atime_load obj oh =
     (let (y, w) = yaffs_oh_time_load (o_yst_atime obj) in oh\<lparr>oh_yst_atime := y, oh_win_atime := w\<rparr>)"

definition yaffs_oh_size_load :: "bool \<Rightarrow> yaffs_obj_hdr \<Rightarrow> u64 \<Rightarrow> bool \<Rightarrow> yaffs_obj_hdr" where
  "yaffs_oh_size_load swap oh fsize do_endian =
     (let low = FSIZE_LOW fsize; high = FSIZE_HIGH fsize
      in oh\<lparr>oh_file_size_low := (if do_endian then yaffs_do_endian_u32 swap low else low),
            oh_file_size_high := (if do_endian then yaffs_do_endian_u32 swap high else high)\<rparr>)"

definition yaffs_oh_to_size :: "bool \<Rightarrow> yaffs_obj_hdr \<Rightarrow> bool \<Rightarrow> u64" where
  "yaffs_oh_to_size swap oh do_endian =
     (let low = (if do_endian then yaffs_do_endian_u32 swap (oh_file_size_low oh) else oh_file_size_low oh)
      in if NOT (oh_file_size_high oh) \<noteq> 0 then
           let high = (if do_endian then yaffs_do_endian_u32 swap (oh_file_size_high oh) else oh_file_size_high oh)
           in FSIZE_COMBINE high low
         else ucast low)"

section \<open>Attributes\<close>

definition yaffs_load_attribs :: "yaffs_obj \<Rightarrow> yaffs_obj_hdr \<Rightarrow> yaffs_obj" where
  "yaffs_load_attribs obj oh =
     obj\<lparr>o_yst_uid := ucast (oh_yst_uid oh), o_yst_gid := ucast (oh_yst_gid oh),
         o_yst_ctime := yaffs_oh_ctime_fetch oh, o_yst_mtime := yaffs_oh_mtime_fetch oh,
         o_yst_atime := yaffs_oh_atime_fetch oh, o_yst_rdev := oh_yst_rdev oh\<rparr>"

definition yaffs_load_attribs_oh :: "yaffs_obj_hdr \<Rightarrow> yaffs_obj \<Rightarrow> yaffs_obj_hdr" where
  "yaffs_load_attribs_oh oh obj =
     (let oh = oh\<lparr>oh_yst_uid := ucast (o_yst_uid obj), oh_yst_gid := ucast (o_yst_gid obj)\<rparr>;
          oh = yaffs_oh_ctime_load obj oh;
          oh = yaffs_oh_mtime_load obj oh;
          oh = yaffs_oh_atime_load obj oh
      in oh\<lparr>oh_yst_rdev := o_yst_rdev obj\<rparr>)"

text \<open>A clock without further answers gives 0.\<close>

definition current_time :: "'n yaffs_sys \<Rightarrow> u64 \<times> 'n yaffs_sys" where
  "current_time s = (case clock s of [] \<Rightarrow> (0, s) | t # ts \<Rightarrow> (t, s\<lparr>clock := ts\<rparr>))"

definition yaffs_load_current_time :: "'n yaffs_sys \<Rightarrow> nat \<Rightarrow> bool \<Rightarrow> bool \<Rightarrow> 'n yaffs_sys option" where
  "yaffs_load_current_time s a do_a do_c =
     (let (t, s) = current_time s
      in upd_obj s a (\<lambda>obj. obj\<lparr>o_yst_mtime := t,
           o_yst_atime := (if do_a then t else o_yst_atime obj),
           o_yst_ctime := (if do_c then t else o_yst_ctime obj)\<rparr>))"

definition yaffs_attribs_init :: "'n yaffs_sys \<Rightarrow> nat \<Rightarrow> u32 \<Rightarrow> u32 \<Rightarrow> u32 \<Rightarrow> 'n yaffs_sys option" where
  "yaffs_attribs_init s a gid uid rdev =
     do { s \<leftarrow> yaffs_load_current_time s a True True;
          upd_obj s a (\<lambda>obj. obj\<lparr>o_yst_rdev := rdev, o_yst_uid := ucast uid, o_yst_gid := ucast gid\<rparr>) }"

section \<open>The bytes of a header\<close>

text \<open>
  \<^verbatim>\<open>struct yaffs_obj_hdr\<close> in memory: 512 bytes, two of them padding before \<^verbatim>\<open>yst_mode\<close>.  The code has
  no function that turns bytes into a header or a header into bytes: it casts the buffer of a
  page, \<^verbatim>\<open>oh = (struct yaffs_obj_hdr *)buffer\<close>, and reads and writes the fields in place.  What such
  a read or write does to the bytes is the language's: the fields in the order of the
  declaration, each at the next offset that its alignment allows, the words little endian.  The
  two functions below are that reading of the cast and stand for no code of their own.
\<close>

definition OH_SIZE :: nat where "OH_SIZE = 512"

definition u16_bytes :: "u16 \<Rightarrow> u8 list" where
  "u16_bytes x = [ucast x, ucast (drop_bit 8 x)]"

definition get_u32 :: "u8 list \<Rightarrow> nat \<Rightarrow> u32" where
  "get_u32 b off = bytes_u32 (b ! off) (b ! (off + 1)) (b ! (off + 2)) (b ! (off + 3))"

definition get_u16 :: "u8 list \<Rightarrow> nat \<Rightarrow> u16" where
  "get_u16 b off = ucast (b ! off) OR push_bit 8 (ucast (b ! (off + 1)))"

definition oh_of_bytes :: "u8 list \<Rightarrow> yaffs_obj_hdr" where
  "oh_of_bytes b =
     \<lparr>oh_type = get_u32 b 0, oh_parent_obj_id = get_u32 b 4, oh_sum_no_longer_used = get_u16 b 8,
      oh_name = take 256 (drop 10 b), oh_yst_mode = get_u32 b 268, oh_yst_uid = get_u32 b 272,
      oh_yst_gid = get_u32 b 276, oh_yst_atime = get_u32 b 280, oh_yst_mtime = get_u32 b 284,
      oh_yst_ctime = get_u32 b 288, oh_file_size_low = get_u32 b 292, oh_equiv_id = get_u32 b 296,
      oh_alias = take 160 (drop 300 b), oh_yst_rdev = get_u32 b 460,
      oh_win_ctime = (get_u32 b 464, get_u32 b 468), oh_win_atime = (get_u32 b 472, get_u32 b 476),
      oh_win_mtime = (get_u32 b 480, get_u32 b 484), oh_inband_shadowed_obj_id = get_u32 b 488,
      oh_inband_is_shrink = get_u32 b 492, oh_file_size_high = get_u32 b 496,
      oh_reserved = get_u32 b 500, oh_shadows_obj = get_u32 b 504, oh_is_shrink = get_u32 b 508\<rparr>"

text \<open>The bytes after writes to the fields: the padding keeps what is there.\<close>

definition oh_to_bytes :: "u8 list \<Rightarrow> yaffs_obj_hdr \<Rightarrow> u8 list" where
  "oh_to_bytes b oh =
     u32_bytes (oh_type oh) @ u32_bytes (oh_parent_obj_id oh) @ u16_bytes (oh_sum_no_longer_used oh) @
     oh_name oh @ take 2 (drop 266 b) @ u32_bytes (oh_yst_mode oh) @ u32_bytes (oh_yst_uid oh) @
     u32_bytes (oh_yst_gid oh) @ u32_bytes (oh_yst_atime oh) @ u32_bytes (oh_yst_mtime oh) @
     u32_bytes (oh_yst_ctime oh) @ u32_bytes (oh_file_size_low oh) @ u32_bytes (oh_equiv_id oh) @
     oh_alias oh @ u32_bytes (oh_yst_rdev oh) @
     u32_bytes (fst (oh_win_ctime oh)) @ u32_bytes (snd (oh_win_ctime oh)) @
     u32_bytes (fst (oh_win_atime oh)) @ u32_bytes (snd (oh_win_atime oh)) @
     u32_bytes (fst (oh_win_mtime oh)) @ u32_bytes (snd (oh_win_mtime oh)) @
     u32_bytes (oh_inband_shadowed_obj_id oh) @ u32_bytes (oh_inband_is_shrink oh) @
     u32_bytes (oh_file_size_high oh) @ u32_bytes (oh_reserved oh) @ u32_bytes (oh_shadows_obj oh) @
     u32_bytes (oh_is_shrink oh) @ drop OH_SIZE b"

definition oh_wf :: "yaffs_obj_hdr \<Rightarrow> bool" where
  "oh_wf oh \<longleftrightarrow> length (oh_name oh) = YAFFS_MAX_NAME_LENGTH + 1 \<and> length (oh_alias oh) = YAFFS_MAX_ALIAS_LENGTH + 1"


section \<open>Round trips\<close>

lemma time_roundtrip:
  assumes "drop_bit 32 t \<noteq> (0xffffffff :: u64)"
  shows "(let (y, w) = yaffs_oh_time_load t in yaffs_oh_time_fetch y w) = t"
proof -
  let ?hi = "ucast (drop_bit 32 t AND 0xffffffff) :: u32"
  have m: "drop_bit 32 t AND 0xffffffff = drop_bit 32 t"
    unfolding ffffffff_mask by (rule bit_word_eqI) (auto simp: bit_simps dest: bit_imp_le_length)
  have "?hi \<noteq> 0xffffffff"
  proof
    assume "?hi = 0xffffffff"
    then have "ucast ?hi = (0xffffffff :: u64)" by simp
    moreover have "ucast ?hi = drop_bit 32 t"
      unfolding m by (rule bit_word_eqI) (auto simp: bit_simps dest: bit_imp_le_length)
    ultimately show False using assms by simp
  qed
  then have "(let (y, w) = yaffs_oh_time_load t in yaffs_oh_time_fetch y w) =
      push_bit 32 (ucast ?hi) OR ucast (ucast (t AND 0xffffffff) :: u32)"
    by (simp add: yaffs_oh_time_load_def yaffs_oh_time_fetch_def Let_def)
  also have "\<dots> = t"
    unfolding m ffffffff_mask by (rule bit_word_eqI) (auto simp: bit_simps dest: bit_imp_le_length)
  finally show ?thesis .
qed

lemma swap_u32_ones: "swap_u32 v = 0xffffffff \<longleftrightarrow> v = 0xffffffff"
proof -
  have "swap_u32 0xffffffff = 0xffffffff" by (simp add: swap_u32_def)
  then show ?thesis by (metis swap_u32_swap_u32)
qed

lemma size_roundtrip:
  assumes "FSIZE_HIGH f \<noteq> 0xffffffff"
  shows "yaffs_oh_to_size swap (yaffs_oh_size_load swap oh f e) e = f"
proof -
  have "NOT (v :: u32) \<noteq> 0 \<longleftrightarrow> v \<noteq> 0xffffffff" for v
  proof -
    have "NOT v = 0 \<longleftrightarrow> v = NOT 0" by (metis bit.double_compl)
    moreover have "NOT 0 = (0xffffffff :: u32)" by simp
    ultimately show ?thesis by metis
  qed
  then show ?thesis using assms
    by (auto simp: yaffs_oh_to_size_def yaffs_oh_size_load_def Let_def yaffs_do_endian_u32_def swap_u32_ones)
qed

lemma get_u32_skip: "length xs \<le> off \<Longrightarrow> get_u32 (xs @ ys) off = get_u32 ys (off - length xs)"
  by (simp add: get_u32_def nth_append Suc_diff_le)

lemma get_u32_hit: "get_u32 (u32_bytes v @ ys) 0 = v"
proof -
  have "get_u32 (u32_bytes v @ ys) 0 =
      bytes_u32 (ucast v) (ucast (drop_bit 8 v)) (ucast (drop_bit 16 v)) (ucast (drop_bit 24 v))"
    by (simp add: get_u32_def u32_bytes_def)
  then show ?thesis by simp
qed

lemma get_u16_hit: "length xs = off \<Longrightarrow> get_u16 (xs @ u16_bytes v @ ys) off = v"
  by (auto simp: get_u16_def u16_bytes_def nth_append bit_simps intro!: bit_word_eqI dest: bit_imp_le_length)

lemma length_u16_bytes [simp]: "length (u16_bytes v) = 2"
  by (simp add: u16_bytes_def)

lemma length_oh_to_bytes:
  "oh_wf oh \<Longrightarrow> OH_SIZE \<le> length b \<Longrightarrow> length (oh_to_bytes b oh) = length b"
  by (simp add: oh_to_bytes_def oh_wf_def name_consts OH_SIZE_def)

lemma oh_bytes_roundtrip:
  assumes "oh_wf oh" and "OH_SIZE \<le> length b"
  shows "oh_of_bytes (oh_to_bytes b oh) = oh" "drop OH_SIZE (oh_to_bytes b oh) = drop OH_SIZE b"
proof -
  define pad where "pad = take 2 (drop 266 b)"
  define rest where "rest = drop OH_SIZE b"
  have l: "length (oh_name oh) = 256" "length (oh_alias oh) = 160" "length pad = 2"
    using assms by (simp_all add: oh_wf_def name_consts OH_SIZE_def pad_def)
  note bytes = oh_to_bytes_def [of b oh, folded pad_def rest_def]
  have s16: "get_u16 (oh_to_bytes b oh) 8 = oh_sum_no_longer_used oh"
    using get_u16_hit [of "u32_bytes (oh_type oh) @ u32_bytes (oh_parent_obj_id oh)" 8] by (simp add: bytes)
  have nm: "take 256 (drop 10 (oh_to_bytes b oh)) = oh_name oh"
    unfolding bytes by (simp add: l)
  have al: "take 160 (drop 300 (oh_to_bytes b oh)) = oh_alias oh"
    unfolding bytes by (simp add: l)
  have w1: "get_u32 (oh_to_bytes b oh) 0 = oh_type oh" "get_u32 (oh_to_bytes b oh) 4 = oh_parent_obj_id oh"
    "get_u32 (oh_to_bytes b oh) 268 = oh_yst_mode oh" "get_u32 (oh_to_bytes b oh) 272 = oh_yst_uid oh"
    "get_u32 (oh_to_bytes b oh) 276 = oh_yst_gid oh" "get_u32 (oh_to_bytes b oh) 280 = oh_yst_atime oh"
    "get_u32 (oh_to_bytes b oh) 284 = oh_yst_mtime oh" "get_u32 (oh_to_bytes b oh) 288 = oh_yst_ctime oh"
    "get_u32 (oh_to_bytes b oh) 292 = oh_file_size_low oh" "get_u32 (oh_to_bytes b oh) 296 = oh_equiv_id oh"
    unfolding bytes by (simp_all add: get_u32_skip get_u32_hit l)
  have w2: "get_u32 (oh_to_bytes b oh) 460 = oh_yst_rdev oh"
    "(get_u32 (oh_to_bytes b oh) 464, get_u32 (oh_to_bytes b oh) 468) = oh_win_ctime oh"
    "(get_u32 (oh_to_bytes b oh) 472, get_u32 (oh_to_bytes b oh) 476) = oh_win_atime oh"
    "(get_u32 (oh_to_bytes b oh) 480, get_u32 (oh_to_bytes b oh) 484) = oh_win_mtime oh"
    "get_u32 (oh_to_bytes b oh) 488 = oh_inband_shadowed_obj_id oh" "get_u32 (oh_to_bytes b oh) 492 = oh_inband_is_shrink oh"
    "get_u32 (oh_to_bytes b oh) 496 = oh_file_size_high oh" "get_u32 (oh_to_bytes b oh) 500 = oh_reserved oh"
    "get_u32 (oh_to_bytes b oh) 504 = oh_shadows_obj oh" "get_u32 (oh_to_bytes b oh) 508 = oh_is_shrink oh"
    unfolding bytes by (simp_all add: get_u32_skip get_u32_hit l)
  show "oh_of_bytes (oh_to_bytes b oh) = oh"
    unfolding oh_of_bytes_def s16 nm al w1 w2 by simp
  show "drop OH_SIZE (oh_to_bytes b oh) = drop OH_SIZE b"
    unfolding bytes by (simp add: l rest_def OH_SIZE_def)
qed

end
