(* ===== verification/Yaffs_NameVal.thy ===== *)
theory Yaffs_NameVal
  imports Yaffs_Names
begin

text \<open>
  core/yaffs_nameval.c: the extended attributes of an object as records in the part of
  the header chunk behind the header.  \<open>xb\<close> is the memory from the start of that part
  on, \<open>xb_size\<close> the size the functions are told; a write or a comparison that leaves the
  memory is None, and so is the \<^verbatim>\<open>memcpy\<close> of \<^verbatim>\<open>nval_del\<close> where its two regions overlap.
\<close>

abbreviation (input) ENODATA :: int where "ENODATA \<equiv> 61"
abbreviation (input) ENOSPC :: int where "ENOSPC \<equiv> 28"
abbreviation (input) EEXIST :: int where "EEXIST \<equiv> 17"
abbreviation (input) ERANGE :: int where "ERANGE \<equiv> 34"

text \<open>\<^verbatim>\<open>strncmp(a, b, n) == 0\<close> for a string \<open>a\<close> in memory.\<close>

fun strn_eq :: "nat \<Rightarrow> u8 list \<Rightarrow> u8 list \<Rightarrow> bool option" where
  "strn_eq 0 a b = Some True"
| "strn_eq (Suc n) [] b = None"
| "strn_eq (Suc n) (x # a) b =
     (let y = (case b of [] \<Rightarrow> 0 | y # b \<Rightarrow> y)
      in if x \<noteq> y then Some False else if x = 0 then Some True else strn_eq n a (tl b))"

text \<open>The record size at a position.\<close>

definition rd_size :: "bool \<Rightarrow> u8 list \<Rightarrow> int \<Rightarrow> int option" where
  "rd_size swap xb pos =
     (if 0 \<le> pos \<and> nat pos + 4 \<le> length xb
      then Some (sint (yaffs_do_endian_s32 swap (get_u32 xb (nat pos)))) else None)"

function nval_find_loop :: "bool \<Rightarrow> u8 list \<Rightarrow> int \<Rightarrow> u8 list \<Rightarrow> int \<Rightarrow> int \<Rightarrow> (int \<times> int) option" where
  "nval_find_loop swap xb xb_size name pos sz =
     (if sz > 0 \<and> sz < xb_size \<and> pos + sz < xb_size then
        do { eq \<leftarrow> strn_eq (nat sz) (drop (nat pos + 4) xb) name;
             if eq then Some (pos, sz)
             else if pos + sz < xb_size - 4
                  then do { sz' \<leftarrow> rd_size swap xb (pos + sz);
                            nval_find_loop swap xb xb_size name (pos + sz) sz' }
                  else Some (- ENODATA, 0) }
      else Some (- ENODATA, 0))"
  by auto
termination by (relation "measure (\<lambda>(sw, xb, n, name, pos, sz). nat (n - pos))") auto

declare nval_find_loop.simps [simp del]

definition nval_find :: "bool \<Rightarrow> u8 list \<Rightarrow> int \<Rightarrow> u8 list \<Rightarrow> (int \<times> int) option" where
  "nval_find swap xb xb_size name =
     do { sz \<leftarrow> rd_size swap xb 0; nval_find_loop swap xb xb_size name 0 sz }"

function nval_used_loop :: "bool \<Rightarrow> u8 list \<Rightarrow> int \<Rightarrow> int \<Rightarrow> int \<Rightarrow> int option" where
  "nval_used_loop swap xb xb_size pos sz =
     (if sz > 0 \<and> sz < xb_size \<and> pos + sz < xb_size then
        if pos + sz < xb_size - 4
        then do { sz' \<leftarrow> rd_size swap xb (pos + sz);
                  nval_used_loop swap xb xb_size (pos + sz) sz' }
        else Some (pos + sz)
      else Some pos)"
  by auto
termination by (relation "measure (\<lambda>(sw, xb, n, pos, sz). nat (n - pos))") auto

declare nval_used_loop.simps [simp del]

definition nval_used :: "bool \<Rightarrow> u8 list \<Rightarrow> int \<Rightarrow> int option" where
  "nval_used swap xb xb_size = do { sz \<leftarrow> rd_size swap xb 0; nval_used_loop swap xb xb_size 0 sz }"

text \<open>
  The regions of the \<^verbatim>\<open>memcpy\<close> start a record apart: it is defined only if what is behind the
  record is no longer than the record.
\<close>

definition nval_del :: "bool \<Rightarrow> u8 list \<Rightarrow> int \<Rightarrow> u8 list \<Rightarrow> (int \<times> u8 list) option" where
  "nval_del swap xb xb_size name =
     do { (pos, ex) \<leftarrow> nval_find swap xb xb_size name;
          if pos < 0 \<or> pos \<ge> xb_size then Some (- ENODATA, xb)
          else
            do { sz \<leftarrow> rd_size swap xb pos;
                 let n = xb_size - (pos + sz);
                 if sz < n then None
                 else
                   do { tail \<leftarrow> buf_read xb (nat (pos + sz)) (nat n);
                        xb \<leftarrow> buf_write xb (nat pos) tail;
                        xb \<leftarrow> buf_write xb (nat (xb_size - sz)) (replicate (nat sz) 0);
                        Some (0, xb) } } }"

definition nval_set ::
    "bool \<Rightarrow> u8 list \<Rightarrow> int \<Rightarrow> u8 list \<Rightarrow> u8 list \<Rightarrow> bool \<Rightarrow> bool \<Rightarrow> (int \<times> u8 list) option" where
  "nval_set swap xb xb_size name buf xattr_create xattr_replace =
     do { let namelen = int (strnlen name (nat xb_size));
          (pos, size_exist) \<leftarrow> nval_find swap xb xb_size name;
          if xattr_create \<and> pos \<ge> 0 then Some (- EEXIST, xb)
          else if xattr_replace \<and> pos < 0 then Some (- ENODATA, xb)
          else
            do { start \<leftarrow> nval_used swap xb xb_size;
                 let reclen = 4 + namelen + 1 + int (length buf);
                 if reclen > xb_size - start + size_exist then Some (- ENOSPC, xb)
                 else
                   do { (start, xb) \<leftarrow>
                          (if pos \<ge> 0 then
                             do { (r, xb) \<leftarrow> nval_del swap xb xb_size name;
                                  start \<leftarrow> nval_used swap xb xb_size;
                                  Some (start, xb) }
                           else Some (start, xb));
                        xb \<leftarrow> buf_write xb (nat start) (u32_bytes (yaffs_do_endian_s32 swap (word_of_int reclen)));
                        xb \<leftarrow> buf_write xb (nat start + 4) (take (nat reclen) (cstr name @ replicate (nat reclen) 0));
                        xb \<leftarrow> buf_write xb (nat (start + 4 + namelen + 1)) buf;
                        Some (0, xb) } } }"

text \<open>Over the name in a record: \<open>pos\<close> and \<open>sz\<close> behind it.\<close>

fun skip_name :: "nat \<Rightarrow> u8 list \<Rightarrow> int \<Rightarrow> int \<Rightarrow> int \<Rightarrow> (int \<times> int) option" where
  "skip_name 0 xb xb_size pos sz = None"
| "skip_name (Suc n) xb xb_size pos sz =
     (if nat pos \<ge> length xb then None
      else if xb ! nat pos \<noteq> 0 \<and> sz > 0 \<and> pos < xb_size then skip_name n xb xb_size (pos + 1) (sz - 1)
      else Some (pos, sz))"

text \<open>The result and, where one is copied, the value; \<open>bsize\<close> of 0 asks for the size.\<close>

definition nval_get :: "bool \<Rightarrow> u8 list \<Rightarrow> int \<Rightarrow> u8 list \<Rightarrow> int \<Rightarrow> (int \<times> u8 list option) option" where
  "nval_get swap xb xb_size name bsize =
     do { (pos, ex) \<leftarrow> nval_find swap xb xb_size name;
          if pos \<ge> 0 \<and> pos < xb_size then
            do { sz \<leftarrow> rd_size swap xb pos;
                 (pos, sz) \<leftarrow> skip_name (Suc (length xb)) xb xb_size (pos + 4) (sz - 4);
                 let pos = pos + 1; let sz = sz - 1;
                 if bsize = 0 then Some (sz, None)
                 else if sz \<le> bsize
                      then do { v \<leftarrow> buf_read xb (nat pos) (nat sz); Some (sz, Some v) }
                      else Some (- ERANGE, None) }
          else if pos \<ge> 0 then Some (- ERANGE, None) else Some (- ENODATA, None) }"

function nval_list_loop ::
    "bool \<Rightarrow> u8 list \<Rightarrow> int \<Rightarrow> int \<Rightarrow> int \<Rightarrow> int \<Rightarrow> u8 list \<Rightarrow> u8 list option" where
  "nval_list_loop swap xb xb_size bsize pos sz out =
     (if sz > 4 \<and> sz \<le> xb_size \<and> pos + sz < xb_size then
        let name_len = strnlen (drop (nat pos + 4) xb) (nat (sz - 4))
        in if int (length out) + int name_len + 1 < bsize then
             let out = out @ take name_len (drop (nat pos + 4) xb) @ [0]
             in if pos + sz < xb_size - 4
                then do { sz' \<leftarrow> rd_size swap xb (pos + sz);
                          nval_list_loop swap xb xb_size bsize (pos + sz) sz' out }
                else Some out
           else Some out
      else Some out)"
  by auto
termination by (relation "measure (\<lambda>(sw, xb, n, b, pos, sz, out). nat (n - pos))") auto

declare nval_list_loop.simps [simp del]

text \<open>What is put into the buffer of the caller; its length is the result.\<close>

definition nval_list :: "bool \<Rightarrow> u8 list \<Rightarrow> int \<Rightarrow> int \<Rightarrow> (int \<times> u8 list) option" where
  "nval_list swap xb xb_size bsize =
     do { sz \<leftarrow> rd_size swap xb 0;
          out \<leftarrow> nval_list_loop swap xb xb_size bsize 0 sz [];
          Some (int (length out), out) }"

definition nval_hasvalues :: "bool \<Rightarrow> u8 list \<Rightarrow> int \<Rightarrow> bool option" where
  "nval_hasvalues swap xb xb_size = do { n \<leftarrow> nval_used swap xb xb_size; Some (n > 0) }"

end
