(* ===== verification/Yaffs_NameVal_Spec.thy ===== *)
theory Yaffs_NameVal_Spec
  imports Yaffs_NameVal
begin

text \<open>
  The extended attributes of core/yaffs_nameval.c against their specification: the area
  holds a list of records, which the functions treat as a finite map from names to
  values.  The records lie side by side from the start of the area on and zeros follow
  them; \<open>area\<close> is the memory that a list of records stands for.
\<close>

section \<open>Records\<close>

type_synonym attr = "u8 list \<times> u8 list"

definition rec_len :: "attr \<Rightarrow> nat" where
  "rec_len r = 4 + length (fst r) + 1 + length (snd r)"

definition enc_rec :: "bool \<Rightarrow> attr \<Rightarrow> u8 list" where
  "enc_rec swap r = u32_bytes (yaffs_do_endian_s32 swap (word_of_nat (rec_len r))) @ fst r @ [0] @ snd r"

definition enc :: "bool \<Rightarrow> attr list \<Rightarrow> u8 list" where
  "enc swap rs = concat (map (enc_rec swap) rs)"

definition recs_len :: "attr list \<Rightarrow> nat" where
  "recs_len rs = sum_list (map rec_len rs)"

definition area :: "bool \<Rightarrow> nat \<Rightarrow> attr list \<Rightarrow> u8 list" where
  "area swap n rs = enc swap rs @ replicate (n - recs_len rs) 0"

text \<open>A name has no NUL in it, no name occurs twice, and at least one byte is left over.\<close>

definition recs_ok :: "nat \<Rightarrow> attr list \<Rightarrow> bool" where
  "recs_ok n rs \<longleftrightarrow> list_all (\<lambda>r. 0 \<notin> set (fst r)) rs \<and> distinct (map fst rs) \<and>
     recs_len rs < n \<and> 4 \<le> n \<and> n < 2 ^ 31"

lemma rec_len_ge [simp]: "5 \<le> rec_len r" "0 < rec_len r"
  by (simp_all add: rec_len_def)

lemma recs_len_simps [simp]:
  "recs_len [] = 0" "recs_len (r # rs) = rec_len r + recs_len rs" "recs_len (rs @ qs) = recs_len rs + recs_len qs"
  by (simp_all add: recs_len_def)

lemma enc_simps [simp]:
  "enc swap [] = []" "enc swap (r # rs) = enc_rec swap r @ enc swap rs" "enc swap (rs @ qs) = enc swap rs @ enc swap qs"
  by (simp_all add: enc_def)

lemma length_enc_rec [simp]: "length (enc_rec swap r) = rec_len r"
  by (simp add: enc_rec_def rec_len_def)

lemma length_enc [simp]: "length (enc swap rs) = recs_len rs"
  by (induction rs) simp_all

section \<open>Reading records\<close>

lemma rd_size_rec:
  assumes "rec_len r < 2 ^ 31"
  shows "rd_size swap (pre @ enc_rec swap r @ post) (int (length pre)) = Some (int (rec_len r))"
proof -
  have s: "sint (word_of_nat (rec_len r) :: u32) = int (rec_len r)"
    using assms by (simp add: signed_of_nat signed_take_bit_int_eq_self)
  have g: "get_u32 (pre @ enc_rec swap r @ post) (length pre) =
      yaffs_do_endian_s32 swap (word_of_nat (rec_len r))"
    using get_u32_skip [of pre "length pre"] get_u32_hit by (simp add: enc_rec_def)
  show ?thesis using s by (simp add: rd_size_def g rec_len_def)
qed

lemma rd_size_zeros:
  assumes "4 \<le> k"
  shows "rd_size swap (pre @ replicate k 0 @ post) (int (length pre)) = Some 0"
proof -
  have "get_u32 (pre @ replicate k 0 @ post) (length pre) = 0"
    using assms get_u32_skip [of pre "length pre" "replicate k 0 @ post"]
    by (simp add: get_u32_def nth_append bytes_u32_def)
  then show ?thesis using assms by (cases swap) (simp_all add: rd_size_def yaffs_do_endian_s32_def swap_u32_def)
qed

lemma strn_eq_name:
  assumes "0 \<notin> set a" and "0 \<notin> set b" and "length a < n"
  shows "strn_eq n (a @ 0 # post) b = Some (a = b)"
  using assms
proof (induction a arbitrary: n b)
  case Nil
  then obtain n' where "n = Suc n'" by (cases n) auto
  then show ?case using Nil by (cases b) auto
next
  case (Cons x a)
  then obtain n' where "n = Suc n'" "length a < n'" by (cases n) auto
  then show ?case using Cons by (cases b) auto
qed

text \<open>The size that is read at the start of some records, with \<open>k\<close> zeros after them.\<close>

definition head_len :: "attr list \<Rightarrow> int" where
  "head_len rs = (case rs of [] \<Rightarrow> 0 | r # rs \<Rightarrow> int (rec_len r))"

lemma rd_size_head:
  assumes "recs_len rs < 2 ^ 31" and "4 \<le> recs_len rs + k" and "rs = [] \<longrightarrow> 4 \<le> k"
  shows "rd_size swap (pre @ enc swap rs @ replicate k 0 @ post) (int (length pre)) = Some (head_len rs)"
proof (cases rs)
  case Nil
  then show ?thesis using rd_size_zeros [of k swap pre post] assms by (simp add: head_len_def)
next
  case (Cons r qs)
  then have "rec_len r < 2 ^ 31" using assms by simp
  then show ?thesis using rd_size_rec [of r swap pre "enc swap qs @ replicate k 0 @ post"] Cons
    by (simp add: head_len_def)
qed

section \<open>The search\<close>

definition before :: "u8 list \<Rightarrow> attr list \<Rightarrow> attr list" where
  "before name rs = takeWhile (\<lambda>r. fst r \<noteq> name) rs"

definition found :: "u8 list \<Rightarrow> attr list \<Rightarrow> (int \<times> int) option" where
  "found name rs =
     map_option (\<lambda>v. (int (recs_len (before name rs)), int (rec_len (name, v)))) (map_of rs name)"

lemma head_len_pos [simp]: "head_len (r # rs) = int (rec_len r)"
  by (simp add: head_len_def)

lemma nval_find_loop_recs:
  assumes "list_all (\<lambda>r. 0 \<notin> set (fst r)) rs" and "0 \<notin> set name" and "1 \<le> k"
    and "length pre + recs_len rs + k = n" and "n < 2 ^ 31"
  shows "nval_find_loop swap (pre @ enc swap rs @ replicate k 0 @ post) (int n) name (int (length pre)) (head_len rs) =
     Some (case found name rs of None \<Rightarrow> (- ENODATA, 0) | Some (pos, sz) \<Rightarrow> (int (length pre) + pos, sz))"
  using assms
proof (induction rs arbitrary: pre)
  case Nil
  then show ?case by (subst nval_find_loop.simps) (simp add: head_len_def found_def)
next
  case (Cons r rs)
  obtain nm v where r: "r = (nm, v)" by (cases r)
  let ?mem = "pre @ enc swap (r # rs) @ replicate k 0 @ post"
  have go: "head_len (r # rs) > 0 \<and> head_len (r # rs) < int n \<and> int (length pre) + head_len (r # rs) < int n"
    using Cons.prems by simp
  have tl: "drop (nat (int (length pre)) + 4) ?mem = nm @ 0 # (v @ enc swap rs @ replicate k 0 @ post)"
    by (simp add: enc_rec_def r)
  have eq: "strn_eq (nat (head_len (r # rs))) (drop (nat (int (length pre)) + 4) ?mem) name = Some (nm = name)"
    unfolding tl using Cons.prems by (intro strn_eq_name) (simp_all add: r rec_len_def)
  show ?case
  proof (cases "nm = name")
    case True
    then show ?thesis using go eq
      by (subst nval_find_loop.simps) (simp add: r found_def before_def)
  next
    case False
    let ?pre = "pre @ enc_rec swap r"
    have mem: "?mem = ?pre @ enc swap rs @ replicate k 0 @ post" by simp
    have f: "found name (r # rs) = map_option (\<lambda>(pos, sz). (int (rec_len r) + pos, sz)) (found name rs)"
      using False by (cases "map_of rs name") (simp_all add: found_def before_def r)
    have ih: "nval_find_loop swap ?mem (int n) name (int (length ?pre)) (head_len rs) =
        Some (case found name rs of None \<Rightarrow> (- ENODATA, 0) | Some (pos, sz) \<Rightarrow> (int (length ?pre) + pos, sz))"
      unfolding mem using Cons.prems by (intro Cons.IH) simp_all
    have nxt: "(if int (length pre) + head_len (r # rs) < int n - 4
        then do { sz' \<leftarrow> rd_size swap ?mem (int (length pre) + head_len (r # rs));
                  nval_find_loop swap ?mem (int n) name (int (length pre) + head_len (r # rs)) sz' }
        else Some (- ENODATA, 0)) = nval_find_loop swap ?mem (int n) name (int (length ?pre)) (head_len rs)"
    proof (cases "int (length pre) + head_len (r # rs) < int n - 4")
      case True
      then have "rd_size swap ?mem (int (length ?pre)) = Some (head_len rs)"
        unfolding mem using Cons.prems by (intro rd_size_head) auto
      then show ?thesis using True by simp
    next
      case F: False
      have "rs = []"
      proof (rule ccontr)
        assume "rs \<noteq> []"
        then obtain q qs where q: "rs = q # qs" by (cases rs) auto
        show False using F Cons.prems rec_len_ge(1) [of q] by (simp add: q)
      qed
      then show ?thesis using F ih by (simp add: found_def)
    qed
    show ?thesis using go eq nxt ih False f
      by (subst nval_find_loop.simps) (auto simp: split: option.splits)
  qed
qed

lemma nval_used_loop_recs:
  assumes "1 \<le> k" and "length pre + recs_len rs + k = n" and "n < 2 ^ 31"
  shows "nval_used_loop swap (pre @ enc swap rs @ replicate k 0 @ post) (int n) (int (length pre)) (head_len rs) =
     Some (int (length pre + recs_len rs))"
  using assms
proof (induction rs arbitrary: pre)
  case Nil
  then show ?case by (subst nval_used_loop.simps) (simp add: head_len_def)
next
  case (Cons r rs)
  let ?mem = "pre @ enc swap (r # rs) @ replicate k 0 @ post" and ?pre = "pre @ enc_rec swap r"
  have mem: "?mem = ?pre @ enc swap rs @ replicate k 0 @ post" by simp
  have go: "head_len (r # rs) > 0 \<and> head_len (r # rs) < int n \<and> int (length pre) + head_len (r # rs) < int n"
    using Cons.prems by simp
  have ih: "nval_used_loop swap ?mem (int n) (int (length ?pre)) (head_len rs) = Some (int (length ?pre + recs_len rs))"
    unfolding mem using Cons.prems by (intro Cons.IH) simp_all
  show ?case
  proof (cases "int (length pre) + head_len (r # rs) < int n - 4")
    case True
    then have "rd_size swap ?mem (int (length ?pre)) = Some (head_len rs)"
      unfolding mem using Cons.prems by (intro rd_size_head) auto
    then show ?thesis using True go ih by (subst nval_used_loop.simps) simp
  next
    case F: False
    have "rs = []"
    proof (rule ccontr)
      assume "rs \<noteq> []"
      then obtain q qs where q: "rs = q # qs" by (cases rs) auto
      show False using F Cons.prems rec_len_ge(1) [of q] by (simp add: q)
    qed
    then show ?thesis using F go by (subst nval_used_loop.simps) simp
  qed
qed

section \<open>The functions on an area\<close>

lemma length_area [simp]: "recs_ok n rs \<Longrightarrow> length (area swap n rs) = n"
  by (simp add: area_def recs_ok_def)

lemma area_head:
  assumes "recs_ok n rs"
  shows "rd_size swap (area swap n rs @ post) 0 = Some (head_len rs)"
  using assms rd_size_head [of rs "n - recs_len rs" swap "[]" post] by (auto simp: area_def recs_ok_def)

lemma nval_find_area:
  assumes "recs_ok n rs" and "0 \<notin> set name"
  shows "nval_find swap (area swap n rs @ post) (int n) name =
     Some (case found name rs of None \<Rightarrow> (- ENODATA, 0) | Some ps \<Rightarrow> ps)"
  using nval_find_loop_recs [of rs name "n - recs_len rs" "[]" n swap post] assms area_head [OF assms(1)]
  by (auto simp: nval_find_def area_def recs_ok_def split: option.splits)

lemma nval_used_area:
  assumes "recs_ok n rs"
  shows "nval_used swap (area swap n rs @ post) (int n) = Some (int (recs_len rs))"
  using nval_used_loop_recs [of "n - recs_len rs" "[]" rs n swap post] assms area_head [OF assms]
  by (auto simp: nval_used_def area_def recs_ok_def)

text \<open>The records split at the one of a name.\<close>

definition after :: "u8 list \<Rightarrow> attr list \<Rightarrow> attr list" where
  "after name rs = tl (dropWhile (\<lambda>r. fst r \<noteq> name) rs)"

definition without :: "u8 list \<Rightarrow> attr list \<Rightarrow> attr list" where
  "without name rs = filter (\<lambda>r. fst r \<noteq> name) rs"

lemma split_at:
  assumes "map_of rs name = Some v"
  shows "rs = before name rs @ (name, v) # after name rs"
  using assms by (induction rs) (auto simp: before_def after_def split: if_splits)

lemma without_split:
  assumes "distinct (map fst rs)" and "map_of rs name = Some v"
  shows "without name rs = before name rs @ after name rs"
  using assms
proof (induction rs)
  case (Cons r rs)
  then show ?case
    by (cases r) (auto simp: before_def after_def without_def filter_id_conv split: if_splits intro: rev_image_eqI)
qed simp

lemma without_absent: "map_of rs name = None \<Longrightarrow> without name rs = rs"
  by (auto simp: without_def map_of_eq_None_iff filter_id_conv)

lemma map_of_without: "map_of (without name rs) = (map_of rs)(name := None)"
  by (induction rs) (auto simp: without_def fun_eq_iff)

lemma found_None [simp]: "found name rs = None \<longleftrightarrow> map_of rs name = None"
  by (simp add: found_def)

lemma recs_ok_without:
  assumes "recs_ok n rs"
  shows "recs_ok n (without name rs)"
proof -
  have "recs_len (without name rs) \<le> recs_len rs" by (induction rs) (simp_all add: without_def)
  then show ?thesis using assms by (auto simp: recs_ok_def without_def list_all_iff distinct_map_filter)
qed

lemma recs_len_without:
  assumes "distinct (map fst rs)" and "map_of rs name = Some v"
  shows "recs_len (without name rs) + rec_len (name, v) = recs_len rs"
  using without_split [OF assms] split_at [OF assms(2)]
  by (metis add.assoc add.commute recs_len_simps(2,3))

lemma buf_write_mid:
  "off = length a \<Longrightarrow> length src = length b \<Longrightarrow> buf_write (a @ b @ c) off src = Some (a @ src @ c)"
  by (simp add: buf_write_def)

text \<open>What lies behind the record of a name is no longer than the record.\<close>

definition tail_fits :: "nat \<Rightarrow> attr list \<Rightarrow> u8 list \<Rightarrow> bool" where
  "tail_fits n rs name \<longleftrightarrow>
     (case map_of rs name of None \<Rightarrow> True | Some v \<Rightarrow> n \<le> recs_len (before name rs) + 2 * rec_len (name, v))"


lemma nval_del_area:
  assumes ok: "recs_ok n rs" and nm: "0 \<notin> set name" and fits: "tail_fits n rs name"
  shows "nval_del swap (area swap n rs @ post) (int n) name =
     Some (if map_of rs name = None then (- ENODATA, area swap n rs @ post)
           else (0, area swap n (without name rs) @ post))"
proof (cases "map_of rs name")
  case None
  then show ?thesis using nval_find_area [OF ok nm, of swap post] by (simp add: nval_del_def found_def)
next
  case (Some v)
  let ?A = "before name rs" and ?B = "after name rs" and ?r = "(name, v)"
  define Z where "Z = replicate (n - recs_len rs) (0 :: u8)"
  note split = split_at [OF Some]
  have d: "distinct (map fst rs)" and small: "recs_len rs < n" "n < 2 ^ 31" using ok by (simp_all add: recs_ok_def)
  have lens: "recs_len rs = recs_len ?A + rec_len ?r + recs_len ?B" by (subst split) simp
  have mem: "area swap n rs @ post = enc swap ?A @ enc_rec swap ?r @ (enc swap ?B @ Z) @ post"
    unfolding area_def Z_def by (subst split) simp
  have f: "nval_find swap (area swap n rs @ post) (int n) name = Some (int (recs_len ?A), int (rec_len ?r))"
    using nval_find_area [OF ok nm, of swap post] by (simp add: found_def Some)
  have sz: "rd_size swap (area swap n rs @ post) (int (recs_len ?A)) = Some (int (rec_len ?r))"
    unfolding mem using rd_size_rec [of ?r swap "enc swap ?A"] lens small by simp
  have lz: "length (enc swap ?B @ Z) = n - (recs_len ?A + rec_len ?r)" using lens small by (simp add: Z_def)
  have tl: "buf_read (area swap n rs @ post) (recs_len ?A + rec_len ?r) (n - (recs_len ?A + rec_len ?r)) =
      Some (enc swap ?B @ Z)"
    unfolding mem buf_read_def using lz lens small by simp
  define mid where "mid = drop (length (enc swap ?B @ Z)) (enc_rec swap ?r @ enc swap ?B @ Z)"
  have lm: "length mid = rec_len ?r" by (simp add: mid_def)
  have w1: "buf_write (area swap n rs @ post) (recs_len ?A) (enc swap ?B @ Z) =
      Some (enc swap ?A @ (enc swap ?B @ Z) @ mid @ post)"
    unfolding mem buf_write_def by (simp add: mid_def)
  have w2: "buf_write (enc swap ?A @ (enc swap ?B @ Z) @ mid @ post) (n - rec_len ?r) (replicate (rec_len ?r) 0) =
      Some (enc swap ?A @ (enc swap ?B @ Z) @ replicate (rec_len ?r) 0 @ post)"
    using buf_write_mid [of "n - rec_len ?r" "enc swap ?A @ (enc swap ?B @ Z)" "replicate (rec_len ?r) 0" mid post]
      lens small lm by (simp add: Z_def)
  have "n - recs_len (without name rs) = (n - recs_len rs) + rec_len ?r"
    using recs_len_without [OF d Some] small by linarith
  then have res: "enc swap ?A @ (enc swap ?B @ Z) @ replicate (rec_len ?r) 0 @ post = area swap n (without name rs) @ post"
    by (simp add: area_def without_split [OF d Some] Z_def replicate_add)
  have i: "nat (int (recs_len ?A) + int (rec_len ?r)) = recs_len ?A + rec_len ?r"
    "nat (int n - (int (recs_len ?A) + int (rec_len ?r))) = n - (recs_len ?A + rec_len ?r)"
    "nat (int n - int (rec_len ?r)) = n - rec_len ?r" using lens small by linarith+
  have "recs_len ?A < n" using lens small by simp
  moreover have "\<not> int (rec_len ?r) < int n - (int (recs_len ?A) + int (rec_len ?r))"
    using fits by (simp add: tail_fits_def Some)
  ultimately show ?thesis unfolding nval_del_def f
    using w2 res by (simp add: sz i tl w1 Some Let_def)
qed

text \<open>The record that is written behind the last one.\<close>

lemma nval_write_rec:
  assumes "recs_len rs + rec_len (name, v) + 4 \<le> n" and "0 \<notin> set name" and "n < 2 ^ 31"
  shows "do { xb \<leftarrow> buf_write (area swap n rs @ post) (recs_len rs)
                (u32_bytes (yaffs_do_endian_s32 swap (word_of_nat (rec_len (name, v)))));
             xb \<leftarrow> buf_write xb (recs_len rs + 4) (take (rec_len (name, v)) (cstr name @ replicate (rec_len (name, v)) 0));
             xb \<leftarrow> buf_write xb (recs_len rs + 4 + length name + 1) v;
             Some (0 :: int, xb) } = Some (0, area swap n (rs @ [(name, v)]) @ post)"
proof -
  let ?l = "rec_len (name, v)" and ?h = "u32_bytes (yaffs_do_endian_s32 swap (word_of_nat (rec_len (name, v))))"
  define k where "k = n - recs_len rs - (4 + ?l)"
  have l: "?l = 4 + length name + 1 + length v" by (simp add: rec_len_def)
  have z: "replicate (n - recs_len rs) 0 = replicate 4 0 @ replicate ?l 0 @ replicate k (0 :: u8)"
    using assms(1) by (simp add: k_def flip: replicate_add)
  have c: "cstr name = name" using assms(2) by (simp add: cstr_def takeWhile_eq_all_conv, metis)
  have t: "take ?l (cstr name @ replicate ?l 0) = name @ 0 # replicate (length v) 0 @ replicate 4 0"
    by (simp add: c l take_replicate flip: replicate_add replicate_Suc)
  have w1: "buf_write (area swap n rs @ post) (recs_len rs) ?h =
      Some (enc swap rs @ ?h @ replicate ?l 0 @ replicate k 0 @ post)"
    unfolding area_def z using buf_write_mid [of "recs_len rs" "enc swap rs" ?h "replicate 4 0"] by simp
  have w2: "buf_write (enc swap rs @ ?h @ replicate ?l 0 @ replicate k 0 @ post) (recs_len rs + 4)
        (name @ 0 # replicate (length v) 0 @ replicate 4 0) =
      Some ((enc swap rs @ ?h) @ (name @ 0 # replicate (length v) 0 @ replicate 4 0) @ replicate k 0 @ post)"
    using buf_write_mid [of "recs_len rs + 4" "enc swap rs @ ?h" _ "replicate ?l 0" "replicate k 0 @ post"]
    by (simp add: l)
  have w3: "buf_write ((enc swap rs @ ?h) @ (name @ 0 # replicate (length v) 0 @ replicate 4 0) @ replicate k 0 @ post)
        (recs_len rs + 4 + length name + 1) v =
      Some ((enc swap rs @ ?h @ name @ [0]) @ v @ replicate 4 0 @ replicate k 0 @ post)"
    using buf_write_mid [of "recs_len rs + 4 + length name + 1" "enc swap rs @ ?h @ name @ [0]" v
        "replicate (length v) 0" "replicate 4 0 @ replicate k 0 @ post"] by simp
  have "n - recs_len (rs @ [(name, v)]) = 4 + k" using assms(1) by (simp add: k_def)
  then have "area swap n (rs @ [(name, v)]) @ post = (enc swap rs @ ?h @ name @ [0]) @ v @ replicate 4 0 @ replicate k 0 @ post"
    by (simp add: area_def enc_rec_def replicate_add)
  then show ?thesis using w2 w3 unfolding w1 t by simp
qed

lemma strnlen_name: "0 \<notin> set name \<Longrightarrow> strnlen name n = min (length name) n"
proof -
  assume "0 \<notin> set name"
  then have "takeWhile (\<lambda>c. c \<noteq> 0) (take n name) = take n name"
    by (metis (mono_tags) in_set_takeD takeWhile_eq_all_conv)
  then show ?thesis unfolding strnlen_def by (metis length_take)
qed

definition set_room :: "attr list \<Rightarrow> u8 list \<Rightarrow> u8 list \<Rightarrow> nat" where
  "set_room rs name v = recs_len (without name rs) + rec_len (name, v)"

lemma recs_ok_add:
  assumes "recs_ok n rs" and "0 \<notin> set name" and "set_room rs name v < n"
  shows "recs_ok n (without name rs @ [(name, v)])"
  using recs_ok_without [OF assms(1), of name] assms(2,3) by (auto simp: recs_ok_def set_room_def without_def)


lemma nval_set_area:
  assumes ok: "recs_ok n rs" and nm: "0 \<notin> set name"
    and no: "\<not> (xc \<and> map_of rs name \<noteq> None)" "\<not> (xr \<and> map_of rs name = None)"
    and room: "set_room rs name v + 4 \<le> n" and fits: "tail_fits n rs name"
  shows "nval_set swap (area swap n rs @ post) (int n) name v xc xr =
     Some (0, area swap n (without name rs @ [(name, v)]) @ post)"
proof -
  note f = nval_find_area [OF ok nm, of swap post] and u = nval_used_area [OF ok, of swap post]
    and dl = nval_del_area [OF ok nm fits, of swap post]
  let ?rs = "without name rs"
  have ok': "recs_ok n ?rs" by (rule recs_ok_without [OF ok])
  have d: "distinct (map fst rs)" "recs_len rs < n" "n < 2 ^ 31" using ok by (simp_all add: recs_ok_def)
  have "length name < n" using room by (simp add: set_room_def rec_len_def)
  then have len: "strnlen name n = length name" using nm by (simp add: strnlen_name)
  have rl: "4 + int (length name) + 1 + int (length v) = int (rec_len (name, v))" by (simp add: rec_len_def)
  have w: "do { xb \<leftarrow> buf_write (area swap n ?rs @ post) (recs_len ?rs)
                (u32_bytes (yaffs_do_endian_s32 swap (word_of_nat (rec_len (name, v)))));
             xb \<leftarrow> buf_write xb (recs_len ?rs + 4) (take (rec_len (name, v)) (cstr name @ replicate (rec_len (name, v)) 0));
             xb \<leftarrow> buf_write xb (recs_len ?rs + 4 + length name + 1) v;
             Some (0 :: int, xb) } = Some (0, area swap n (?rs @ [(name, v)]) @ post)"
    using room nm d(3) by (intro nval_write_rec) (simp_all add: set_room_def)
  have i: "nat (int (recs_len ?rs) + 4 + int (length name) + 1) = recs_len ?rs + 4 + length name + 1" by simp
  show ?thesis
  proof (cases "map_of rs name")
    case None
    then have rs: "?rs = rs" by (rule without_absent)
    show ?thesis using f u w no None room i
      unfolding nval_set_def Let_def nat_int len rl by (simp add: found_def rs set_room_def)
  next
    case (Some old)
    have "int n - int (recs_len rs) + int (rec_len (name, old)) = int n - int (recs_len ?rs)"
      using recs_len_without [OF d(1) Some] d(2) by linarith
    then show ?thesis using f u w no Some room i dl nval_used_area [OF ok', of swap post]
      unfolding nval_set_def Let_def nat_int len rl by (simp add: found_def set_room_def)
  qed
qed


lemma skip_name_over:
  assumes "0 \<notin> set name" and "length name \<le> k" and "int (length name) < sz"
    and "length pre + length name < n"
  shows "skip_name (Suc k) (pre @ name @ 0 # post) (int n) (int (length pre)) sz =
     Some (int (length pre + length name), sz - int (length name))"
  using assms
proof (induction name arbitrary: pre k sz)
  case (Cons x name)
  then obtain k' where k: "k = Suc k'" by (cases k) auto
  show ?case using Cons.prems Cons.IH [of k' "sz - 1" "pre @ [x]"]
    by (auto simp: k nth_append algebra_simps)
qed (simp add: nth_append)

lemma nval_get_area:
  assumes ok: "recs_ok n rs" and nm: "0 \<notin> set name"
  shows "nval_get swap (area swap n rs @ post) (int n) name bsize =
     Some (case map_of rs name of None \<Rightarrow> (- ENODATA, None)
           | Some v \<Rightarrow> if bsize = 0 then (int (length v), None)
                       else if int (length v) \<le> bsize then (int (length v), Some v) else (- ERANGE, None))"
proof (cases "map_of rs name")
  case None
  then show ?thesis using nval_find_area [OF ok nm, of swap post] by (simp add: nval_get_def found_def)
next
  case (Some v)
  let ?A = "before name rs" and ?B = "after name rs" and ?r = "(name, v)"
  define rest where "rest = enc swap ?B @ replicate (n - recs_len rs) 0 @ post"
  note split = split_at [OF Some]
  have small: "recs_len rs < n" "n < 2 ^ 31" using ok by (simp_all add: recs_ok_def)
  have lens: "recs_len rs = recs_len ?A + rec_len ?r + recs_len ?B" by (subst split) simp
  have mem: "area swap n rs @ post = enc swap ?A @ enc_rec swap ?r @ rest"
    unfolding area_def rest_def by (subst split) simp
  have f: "nval_find swap (area swap n rs @ post) (int n) name = Some (int (recs_len ?A), int (rec_len ?r))"
    using nval_find_area [OF ok nm, of swap post] by (simp add: found_def Some)
  have sz: "rd_size swap (area swap n rs @ post) (int (recs_len ?A)) = Some (int (rec_len ?r))"
    unfolding mem using rd_size_rec [of ?r swap "enc swap ?A"] lens small by simp
  let ?h = "u32_bytes (yaffs_do_endian_s32 swap (word_of_nat (rec_len ?r)))"
  have mem': "area swap n rs @ post = (enc swap ?A @ ?h) @ name @ 0 # v @ rest"
    unfolding mem by (simp add: enc_rec_def)
  have a: "length name \<le> length (area swap n rs @ post)" unfolding mem' by simp
  have b: "int (length name) < int (rec_len ?r) - 4" "length (enc swap ?A @ ?h) + length name < n"
    using lens small by (simp_all add: rec_len_def)
  have p: "int (length (enc swap ?A @ ?h)) = int (recs_len ?A) + 4" by simp
  have sk: "skip_name (Suc (length (area swap n rs @ post))) (area swap n rs @ post) (int n)
      (int (recs_len ?A) + 4) (int (rec_len ?r) - 4) =
      Some (int (recs_len ?A + 4 + length name), int (rec_len ?r) - 4 - int (length name))"
    using skip_name_over [OF nm a b, of "v @ rest"] unfolding mem' [symmetric] p
    by (simp add: add.assoc del: skip_name.simps)
  have rd: "buf_read (area swap n rs @ post) (recs_len ?A + 5 + length name) (length v) = Some v"
    unfolding mem' buf_read_def by simp
  have "recs_len ?A < n" using lens small by simp
  moreover have "nat (int (recs_len ?A + 4 + length name) + 1) = recs_len ?A + 5 + length name"
    "int (rec_len ?r) - 4 - int (length name) - 1 = int (length v)" by (simp_all add: rec_len_def)
  ultimately show ?thesis using sk rd unfolding nval_get_def f
    by (simp add: sz Some Let_def del: skip_name.simps of_nat_add)
qed

section \<open>The area as a map\<close>

text \<open>What the callers rely on: names and values behave as in a finite map.\<close>

locale attr_map =
  fixes ok :: "'m \<Rightarrow> bool" and view :: "'m \<Rightarrow> 'k \<Rightarrow> 'v option" and name_ok :: "'k \<Rightarrow> bool"
    and room :: "'m \<Rightarrow> 'k \<Rightarrow> 'v \<Rightarrow> bool" and put :: "'m \<Rightarrow> 'k \<Rightarrow> 'v \<Rightarrow> (int \<times> 'm) option"
    and del :: "'m \<Rightarrow> 'k \<Rightarrow> (int \<times> 'm) option" and movable :: "'m \<Rightarrow> 'k \<Rightarrow> bool"
  assumes put_ok: "ok m \<Longrightarrow> name_ok k \<Longrightarrow> room m k v \<Longrightarrow>
      \<exists>m'. put m k v = Some (0, m') \<and> ok m' \<and> (\<forall>k'. name_ok k' \<longrightarrow> view m' k' = ((view m)(k \<mapsto> v)) k')"
    and del_ok: "ok m \<Longrightarrow> name_ok k \<Longrightarrow> view m k \<noteq> None \<Longrightarrow> movable m k \<Longrightarrow>
      \<exists>m'. del m k = Some (0, m') \<and> ok m' \<and> (\<forall>k'. name_ok k' \<longrightarrow> view m' k' = ((view m)(k := None)) k')"
    and del_absent: "ok m \<Longrightarrow> name_ok k \<Longrightarrow> view m k = None \<Longrightarrow> \<exists>r. r < 0 \<and> del m k = Some (r, m)"
begin

lemma put_then_put:
  assumes "ok m" and "name_ok a" and "name_ok b" and "room m a v" and "put m a v = Some (0, m1)" and "room m1 b w"
  shows "\<exists>m2. put m1 b w = Some (0, m2) \<and> ok m2 \<and> view m2 b = Some w \<and> (a \<noteq> b \<longrightarrow> view m2 a = Some v)"
proof -
  have "ok m1" "\<forall>k. name_ok k \<longrightarrow> view m1 k = ((view m)(a \<mapsto> v)) k"
    using put_ok [OF assms(1,2,4)] assms(5) by auto
  then show ?thesis using put_ok [of m1 b w] assms(2,3,6) by fastforce
qed

lemma put_then_del:
  assumes "ok m" and "name_ok k" and "room m k v" and "view m k = None" and "put m k v = Some (0, m1)" and "movable m1 k"
  shows "\<exists>m2. del m1 k = Some (0, m2) \<and> ok m2 \<and> (\<forall>k'. name_ok k' \<longrightarrow> view m2 k' = view m k')"
proof -
  have m1: "ok m1" "\<forall>k'. name_ok k' \<longrightarrow> view m1 k' = ((view m)(k \<mapsto> v)) k'"
    using put_ok [OF assms(1-3)] assms(5) by auto
  then show ?thesis using del_ok [of m1 k] assms(2,4,6) by (fastforce simp: fun_upd_def)
qed

end

definition attr_view :: "bool \<Rightarrow> nat \<Rightarrow> u8 list \<Rightarrow> u8 list \<Rightarrow> u8 list option" where
  "attr_view swap n xb name =
     (case nval_get swap xb (int n) name (int n) of Some (r, v) \<Rightarrow> v | None \<Rightarrow> None)"

definition attr_room :: "bool \<Rightarrow> nat \<Rightarrow> u8 list \<Rightarrow> u8 list \<Rightarrow> u8 list \<Rightarrow> bool" where
  "attr_room swap n xb name v \<longleftrightarrow>
     (\<exists>rs. recs_ok n rs \<and> xb = area swap n rs \<and> set_room rs name v + 4 \<le> n \<and> tail_fits n rs name)"

definition attr_movable :: "bool \<Rightarrow> nat \<Rightarrow> u8 list \<Rightarrow> u8 list \<Rightarrow> bool" where
  "attr_movable swap n xb name \<longleftrightarrow> (\<exists>rs. recs_ok n rs \<and> xb = area swap n rs \<and> tail_fits n rs name)"

lemma nval_get_recs:
  assumes ok: "recs_ok n rs" and nm: "0 \<notin> set name"
  shows "nval_get swap (area swap n rs) (int n) name (int n) =
     Some (case map_of rs name of None \<Rightarrow> (- ENODATA, None) | Some v \<Rightarrow> (int (length v), Some v))"
proof -
  have "length v \<le> n" if v: "map_of rs name = Some v" for v
  proof -
    have "rec_len (name, v) \<le> recs_len rs" using split_at [OF v] by (metis le_add2 le_trans le_add1 recs_len_simps(2,3))
    then show ?thesis using ok by (simp add: recs_ok_def rec_len_def)
  qed
  moreover have "n \<noteq> 0" using ok by (simp add: recs_ok_def)
  ultimately show ?thesis
    using nval_get_area [OF ok nm, of swap "[]" "int n"] by (auto split: option.splits)
qed

lemma attr_view_area:
  assumes "recs_ok n rs" and "0 \<notin> set name"
  shows "attr_view swap n (area swap n rs) name = map_of rs name"
  using nval_get_recs [OF assms, of swap] by (simp add: attr_view_def split: option.splits)

lemma map_of_set: "map_of (without name rs @ [(name, v)]) = (map_of rs)(name \<mapsto> v)"
  by (auto simp: map_of_without fun_eq_iff map_add_def split: option.splits)

interpretation attrs: attr_map "\<lambda>xb. \<exists>rs. recs_ok n rs \<and> xb = area swap n rs" "attr_view swap n"
    "\<lambda>name. 0 \<notin> set name" "attr_room swap n"
    "\<lambda>xb name v. nval_set swap xb (int n) name v False False" "\<lambda>xb name. nval_del swap xb (int n) name"
    "attr_movable swap n" for swap n
proof
  fix xb name v assume nm: "0 \<notin> set name" and "attr_room swap n xb name v"
  then obtain rs where rs: "recs_ok n rs" "xb = area swap n rs" "set_room rs name v + 4 \<le> n" "tail_fits n rs name"
    by (auto simp: attr_room_def)
  have ok': "recs_ok n (without name rs @ [(name, v)])" using recs_ok_add [OF rs(1) nm, of v] rs(3) by simp
  show "\<exists>xb'. nval_set swap xb (int n) name v False False = Some (0, xb') \<and>
      (\<exists>rs. recs_ok n rs \<and> xb' = area swap n rs) \<and>
      (\<forall>k. 0 \<notin> set k \<longrightarrow> attr_view swap n xb' k = ((attr_view swap n xb)(name \<mapsto> v)) k)"
    using nval_set_area [OF rs(1) nm _ _ rs(3,4), of False False swap "[]"] ok'
      attr_view_area [OF ok', of _ swap, unfolded map_of_set] attr_view_area [OF rs(1), of _ swap] nm
    by (auto simp: rs(2))
next
  fix xb and name :: "u8 list"
  assume ok: "\<exists>rs. recs_ok n rs \<and> xb = area swap n rs" and nm: "0 \<notin> set name"
    and there: "attr_view swap n xb name \<noteq> None" and mv: "attr_movable swap n xb name"
  obtain rs where rs: "recs_ok n rs" "xb = area swap n rs" "tail_fits n rs name" using mv by (auto simp: attr_movable_def)
  have ok': "recs_ok n (without name rs)" by (rule recs_ok_without [OF rs(1)])
  show "\<exists>xb'. nval_del swap xb (int n) name = Some (0, xb') \<and>
      (\<exists>rs. recs_ok n rs \<and> xb' = area swap n rs) \<and>
      (\<forall>k. 0 \<notin> set k \<longrightarrow> attr_view swap n xb' k = ((attr_view swap n xb)(name := None)) k)"
    using nval_del_area [OF rs(1) nm rs(3), of swap "[]"] there nm ok'
      attr_view_area [OF rs(1), of _ swap] attr_view_area [OF ok', of _ swap]
    by (auto simp: rs(2) map_of_without)
next
  fix xb and name :: "u8 list"
  assume ok: "\<exists>rs. recs_ok n rs \<and> xb = area swap n rs" and nm: "0 \<notin> set name"
    and no: "attr_view swap n xb name = None"
  obtain rs where rs: "recs_ok n rs" "xb = area swap n rs" using ok by auto
  have none: "map_of rs name = None" using attr_view_area [OF rs(1) nm, of swap] no by (simp add: rs(2))
  then have "tail_fits n rs name" by (simp add: tail_fits_def)
  then show "\<exists>r. r < 0 \<and> nval_del swap xb (int n) name = Some (r, xb)"
    using nval_del_area [OF rs(1) nm, of swap "[]"] none by (auto simp: rs(2))
qed

section \<open>Properties\<close>



section \<open>A record that ends with the area\<close>

text \<open>The search goes over records of other names, whatever follows them.\<close>

lemma nval_find_loop_skip:
  assumes "list_all (\<lambda>r. 0 \<notin> set (fst r)) rs" and "0 \<notin> set name" and "map_of rs name = None"
    and "length pre + recs_len rs + 4 < n" and "n < 2 ^ 31"
  shows "do { sz \<leftarrow> rd_size swap (pre @ enc swap rs @ rest) (int (length pre));
              nval_find_loop swap (pre @ enc swap rs @ rest) (int n) name (int (length pre)) sz } =
     do { sz \<leftarrow> rd_size swap (pre @ enc swap rs @ rest) (int (length pre + recs_len rs));
          nval_find_loop swap (pre @ enc swap rs @ rest) (int n) name (int (length pre + recs_len rs)) sz }"
  using assms
proof (induction rs arbitrary: pre)
  case (Cons r rs)
  obtain nm w where r: "r = (nm, w)" by (cases r)
  let ?mem = "pre @ enc swap (r # rs) @ rest" and ?pre = "pre @ enc_rec swap r"
  have mem: "?mem = ?pre @ enc swap rs @ rest" by simp
  have sz: "rd_size swap ?mem (int (length pre)) = Some (int (rec_len r))"
    using rd_size_rec [of r swap pre "enc swap rs @ rest"] Cons.prems by simp
  have tl: "drop (nat (int (length pre)) + 4) ?mem = nm @ 0 # (w @ enc swap rs @ rest)" by (simp add: enc_rec_def r)
  have "strn_eq (nat (int (rec_len r))) (drop (nat (int (length pre)) + 4) ?mem) name = Some (nm = name)"
    unfolding tl using Cons.prems by (intro strn_eq_name) (simp_all add: r rec_len_def)
  moreover have "nm \<noteq> name" using Cons.prems(3) by (auto simp: r)
  ultimately have "nval_find_loop swap ?mem (int n) name (int (length pre)) (int (rec_len r)) =
      do { sz \<leftarrow> rd_size swap ?mem (int (length ?pre)); nval_find_loop swap ?mem (int n) name (int (length ?pre)) sz }"
    using Cons.prems(4) by (subst nval_find_loop.simps) simp
  also have "\<dots> = do { sz \<leftarrow> rd_size swap ?mem (int (length ?pre + recs_len rs));
      nval_find_loop swap ?mem (int n) name (int (length ?pre + recs_len rs)) sz }"
    unfolding mem using Cons.prems by (intro Cons.IH) (auto simp: r split: if_splits)
  finally show ?case using sz by (simp add: add.assoc)
qed simp

text \<open>
  C38: an attribute whose record ends exactly where the area ends.  It is set with success, but it
  is not found afterwards; and the name is padded with zeros to four bytes behind the area.  If the
  memory has less than four bytes there, that is a write out of it.
\<close>

theorem nval_set_exact_fit:
  assumes "recs_ok n rs" and "0 \<notin> set name" and "map_of rs name = None" and "recs_len rs + rec_len (name, v) = n"
  shows "if length post < 4 then nval_set swap (area swap n rs @ post) (int n) name v xc False = None
     else nval_set swap (area swap n rs @ post) (int n) name v xc False =
        Some (0, enc swap (rs @ [(name, v)]) @ replicate 4 0 @ drop 4 post) \<and>
      nval_get swap (enc swap (rs @ [(name, v)]) @ replicate 4 0 @ drop 4 post) (int n) name bsize = Some (- ENODATA, None)"
proof -
  note f = nval_find_area [OF assms(1,2), of swap post] and u = nval_used_area [OF assms(1), of swap post]
  let ?l = "rec_len (name, v)" and ?h = "u32_bytes (yaffs_do_endian_s32 swap (word_of_nat (rec_len (name, v))))"
  have l: "?l = 4 + length name + 1 + length v" by (simp add: rec_len_def)
  have small: "n < 2 ^ 31" "length name < n" using assms(1,4) l by (simp_all add: recs_ok_def)
  have len: "strnlen name n = length name" using small assms(2) by (simp add: strnlen_name)
  have rl: "4 + int (length name) + 1 + int (length v) = int ?l" by (simp add: rec_len_def)
  have i: "nat (int (recs_len rs) + 4 + int (length name) + 1) = recs_len rs + 4 + length name + 1" by simp
  have c: "cstr name = name" using assms(2) by (simp add: cstr_def takeWhile_eq_all_conv, metis)
  have t: "take ?l (cstr name @ replicate ?l 0) = name @ 0 # replicate (length v) 0 @ replicate 4 0"
    by (simp add: c l take_replicate flip: replicate_add replicate_Suc)
  have z: "replicate (n - recs_len rs) 0 = replicate 4 0 @ replicate (length name + 1 + length v) (0 :: u8)"
  proof -
    have "n - recs_len rs = 4 + (length name + 1 + length v)" using assms(4) by (simp add: l)
    then show ?thesis by (simp only: replicate_add)
  qed
  have w1: "buf_write (area swap n rs @ post) (recs_len rs) ?h =
      Some (enc swap rs @ ?h @ replicate (length name + 1 + length v) 0 @ post)"
    unfolding area_def z using buf_write_mid [of "recs_len rs" "enc swap rs" ?h "replicate 4 0"] by simp
  let ?M = "enc swap rs @ ?h @ replicate (length name + 1 + length v) 0 @ post"
  have set_is: "nval_set swap (area swap n rs @ post) (int n) name v xc False =
      do { xb \<leftarrow> buf_write ?M (recs_len rs + 4) (name @ 0 # replicate (length v) 0 @ replicate 4 0);
           xb \<leftarrow> buf_write xb (recs_len rs + 4 + length name + 1) v;
           Some (0, xb) }"
    using f u assms(3,4) w1 i t unfolding nval_set_def Let_def nat_int len rl by (simp add: found_def)
  show ?thesis
  proof (cases "length post < 4")
    case True
    then have "buf_write ?M (recs_len rs + 4) (name @ 0 # replicate (length v) 0 @ replicate 4 0) = None"
      by (simp add: buf_write_def)
    then show ?thesis using True by (simp add: set_is)
  next
    case False
    let ?N = "enc swap (rs @ [(name, v)]) @ replicate 4 0 @ drop 4 post"
    have p: "post = take 4 post @ drop 4 post" by simp
    have w2: "buf_write ?M (recs_len rs + 4) (name @ 0 # replicate (length v) 0 @ replicate 4 0) =
        Some ((enc swap rs @ ?h) @ (name @ 0 # replicate (length v) 0 @ replicate 4 0) @ drop 4 post)"
      using False buf_write_mid [of "recs_len rs + 4" "enc swap rs @ ?h" _ "replicate (length name + 1 + length v) 0 @ take 4 post" "drop 4 post"]
      by (simp add: min_def)
    have w3: "buf_write ((enc swap rs @ ?h) @ (name @ 0 # replicate (length v) 0 @ replicate 4 0) @ drop 4 post)
        (recs_len rs + 4 + length name + 1) v = Some ((enc swap rs @ ?h @ name @ [0]) @ v @ replicate 4 0 @ drop 4 post)"
      using buf_write_mid [of "recs_len rs + 4 + length name + 1" "enc swap rs @ ?h @ name @ [0]" v
          "replicate (length v) 0" "replicate 4 0 @ drop 4 post"] by simp
    have set_ok: "nval_set swap (area swap n rs @ post) (int n) name v xc False = Some (0, ?N)"
      unfolding set_is w2 using w3 by (simp add: enc_rec_def)
    have "rd_size swap ?N (int (recs_len rs)) = Some (int ?l)"
      using rd_size_rec [of "(name, v)" swap "enc swap rs" "replicate 4 0 @ drop 4 post"] small assms(4) by simp
    moreover have "nval_find_loop swap ?N (int n) name (int (recs_len rs)) (int ?l) = Some (- ENODATA, 0)"
      using assms(4) by (subst nval_find_loop.simps) simp
    moreover have "do { sz \<leftarrow> rd_size swap ?N 0; nval_find_loop swap ?N (int n) name 0 sz } =
        do { sz \<leftarrow> rd_size swap ?N (int (recs_len rs)); nval_find_loop swap ?N (int n) name (int (recs_len rs)) sz }"
      using nval_find_loop_skip [of rs name "[]" n swap "enc_rec swap (name, v) @ replicate 4 0 @ drop 4 post"] assms l small(1)
      by (simp add: recs_ok_def)
    ultimately have "nval_find swap ?N (int n) name = Some (- ENODATA, 0)" by (simp add: nval_find_def)
    then have "nval_get swap ?N (int n) name bsize = Some (- ENODATA, None)" by (simp add: nval_get_def)
    then show ?thesis using False set_ok by simp
  qed
qed

theorem nval_set_exact_fit_witness:
  "nval_set False (area False 30 [([98, 99], [3])] @ [1, 2, 3]) (int 30) [97] (replicate 16 7) False False = None \<and>
   nval_set False (area False 30 [([98, 99], [3])] @ [1, 2, 3, 4, 5]) (int 30) [97] (replicate 16 7) False False =
     Some (0, enc False ([([98, 99], [3])] @ [([97], replicate 16 7)]) @ replicate 4 0 @ drop 4 [1, 2, 3, 4, 5])"
proof -
  have p: "recs_ok 30 [([98, 99], [3])]" "recs_len [([98, 99], [3])] + rec_len ([97], replicate 16 7) = 30"
    by (simp_all add: recs_ok_def recs_len_def rec_len_def)
  show ?thesis
    using nval_set_exact_fit [OF p(1) _ _ p(2), where swap = False and xc = False and post = "[1, 2, 3]"]
      nval_set_exact_fit [OF p(1) _ _ p(2), where swap = False and xc = False and post = "[1, 2, 3, 4, 5]"]
    by simp
qed

end
