(* ===== verification/Yaffs_Obj_Table.thy ===== *)
theory Yaffs_Obj_Table
  imports Yaffs_Names
begin

text \<open>
  The object table of core/yaffs_guts.c and core/yaffs_allocator.c: the allocation and
  release of objects, the hash table of object ids, and the membership in directories.
\<close>

section \<open>The allocator of objects\<close>

definition YAFFS_ALLOCATION_NOBJECTS :: nat where "YAFFS_ALLOCATION_NOBJECTS = 100"

text \<open>Both allocations are tried before the code looks at the outcomes.\<close>

definition yaffs_create_free_objs :: "'n yaffs_dev \<Rightarrow> nat \<Rightarrow> int \<times> 'n yaffs_dev" where
  "yaffs_create_free_objs dev n =
     (if n < 1 then (YAFFS_OK, dev)
      else
        let (ok_objs, dev) = kmalloc dev;
            (ok_list, dev) = kmalloc dev;
            a = allocator dev
        in if \<not> ok_objs \<or> \<not> ok_list then (YAFFS_FAIL, dev)
           else (YAFFS_OK, dev\<lparr>allocator := a\<lparr>n_free_objects := n_free_objects a + n,
                                               n_obj_created := n_obj_created a + int n\<rparr>\<rparr>))"

text \<open>A fresh address, if there is an object to give.\<close>

definition yaffs_alloc_raw_obj :: "'n yaffs_sys \<Rightarrow> nat option \<times> 'n yaffs_sys" where
  "yaffs_alloc_raw_obj s =
     (let dev = sdev s;
          dev = (if n_free_objects (allocator dev) = 0
                 then snd (yaffs_create_free_objs dev YAFFS_ALLOCATION_NOBJECTS) else dev);
          a = allocator dev
      in if n_free_objects a \<noteq> 0
         then (Some (next_obj s),
               s\<lparr>sdev := dev\<lparr>allocator := a\<lparr>n_free_objects := n_free_objects a - 1\<rparr>\<rparr>,
                 next_obj := next_obj s + 1\<rparr>)
         else (None, s\<lparr>sdev := dev\<rparr>))"

definition yaffs_free_raw_obj :: "'n yaffs_sys \<Rightarrow> nat \<Rightarrow> 'n yaffs_sys" where
  "yaffs_free_raw_obj s a =
     (let al = allocator (sdev s)
      in s\<lparr>sdev := (sdev s)\<lparr>allocator := al\<lparr>n_free_objects := n_free_objects al + 1\<rparr>\<rparr>,
           objs := (objs s)(a := None)\<rparr>)"

section \<open>Buckets\<close>

text \<open>The argument is an \<^verbatim>\<open>int\<close>: an id with the top bit set is negated first.\<close>

definition yaffs_hash_fn :: "u32 \<Rightarrow> nat" where
  "yaffs_hash_fn n = unat ((if sint n < 0 then - n else n) AND 255)"

definition yaffs_unhash_obj :: "'n yaffs_sys \<Rightarrow> nat \<Rightarrow> 'n yaffs_sys option" where
  "yaffs_unhash_obj s a =
     do { x \<leftarrow> objs s a;
          if \<not> o_hashed x then Some s
          else
            let b = yaffs_hash_fn (o_obj_id x)
            in if b \<ge> length (obj_bucket s) then None
               else upd_obj (s\<lparr>obj_bucket := (obj_bucket s)[b := remove1 a (obj_bucket s ! b)]\<rparr>) a
                      (\<lambda>x. x\<lparr>o_hashed := False\<rparr>) }"

definition yaffs_hash_obj :: "'n yaffs_sys \<Rightarrow> nat \<Rightarrow> 'n yaffs_sys option" where
  "yaffs_hash_obj s a =
     do { x \<leftarrow> objs s a;
          let b = yaffs_hash_fn (o_obj_id x);
          if b \<ge> length (obj_bucket s) then None
          else upd_obj (s\<lparr>obj_bucket := (obj_bucket s)[b := a # obj_bucket s ! b]\<rparr>) a
                 (\<lambda>x. x\<lparr>o_hashed := True\<rparr>) }"

fun find_in_bucket :: "(nat \<Rightarrow> yaffs_obj option) \<Rightarrow> nat list \<Rightarrow> u32 \<Rightarrow> nat option option" where
  "find_in_bucket h [] number = Some None"
| "find_in_bucket h (a # as) number =
     (case h a of None \<Rightarrow> None
      | Some x \<Rightarrow> if o_obj_id x = number then Some (if o_defered_free x then None else Some a)
                  else find_in_bucket h as number)"

definition yaffs_find_by_number :: "'n yaffs_sys \<Rightarrow> u32 \<Rightarrow> nat option option" where
  "yaffs_find_by_number s number =
     (let b = yaffs_hash_fn number
      in if b \<ge> length (obj_bucket s) then None else find_in_bucket (objs s) (obj_bucket s ! b) number)"

text \<open>The shortest of at most ten buckets, or the first with at most four members.\<close>

fun nice_bucket_loop :: "nat \<Rightarrow> nat list list \<Rightarrow> nat \<Rightarrow> nat \<Rightarrow> nat \<Rightarrow> (nat \<times> nat) option" where
  "nice_bucket_loop 0 bs finder lowest l = Some (l, finder)"
| "nice_bucket_loop (Suc n) bs finder lowest l =
     (if \<not> lowest > 4 then Some (l, finder)
      else
        let finder = (finder + 1) mod YAFFS_NOBJECT_BUCKETS
        in if finder \<ge> length bs then None
           else if length (bs ! finder) < lowest
                then nice_bucket_loop n bs finder (length (bs ! finder)) finder
                else nice_bucket_loop n bs finder lowest l)"

definition yaffs_find_nice_bucket :: "'n yaffs_sys \<Rightarrow> (nat \<times> 'n yaffs_sys) option" where
  "yaffs_find_nice_bucket s =
     do { (l, finder) \<leftarrow> nice_bucket_loop 10 (obj_bucket s) (bucket_finder s) 999999 999;
          Some (l, s\<lparr>bucket_finder := finder\<rparr>) }"

definition id_taken :: "(nat \<Rightarrow> yaffs_obj option) \<Rightarrow> nat list \<Rightarrow> u32 \<Rightarrow> bool option" where
  "id_taken h as n =
     (if list_all (\<lambda>a. h a \<noteq> None) as
      then Some (list_ex (\<lambda>a. case h a of None \<Rightarrow> False | Some x \<Rightarrow> o_obj_id x = n) as) else None)"

partial_function (option) new_id_loop :: "(nat \<Rightarrow> yaffs_obj option) \<Rightarrow> nat list \<Rightarrow> u32 \<Rightarrow> u32 option" where
  "new_id_loop h as n =
     do { let n = n + word_of_nat YAFFS_NOBJECT_BUCKETS;
          taken \<leftarrow> id_taken h as n;
          if taken then new_id_loop h as n else Some n }"

definition yaffs_new_obj_id :: "'n yaffs_sys \<Rightarrow> (u32 \<times> 'n yaffs_sys) option" where
  "yaffs_new_obj_id s =
     do { (bucket, s) \<leftarrow> yaffs_find_nice_bucket s;
          if bucket \<ge> length (obj_bucket s) then None
          else do { n \<leftarrow> new_id_loop (objs s) (obj_bucket s ! bucket) (word_of_nat bucket); Some (n, s) } }"

section \<open>Directories\<close>

text \<open>\<^verbatim>\<open>list_del_init(&obj->siblings)\<close>\<close>

definition del_sibling :: "'n yaffs_sys \<Rightarrow> nat \<Rightarrow> 'n yaffs_sys option" where
  "del_sibling s a =
     do { x \<leftarrow> objs s a;
          case o_parent x of None \<Rightarrow> Some s
          | Some p \<Rightarrow>
              do { d \<leftarrow> objs s p;
                   case o_variant d of
                     DirVar cs dl \<Rightarrow> upd_obj s p (\<lambda>d. d\<lparr>o_variant := DirVar (remove1 a cs) dl\<rparr>)
                   | _ \<Rightarrow> None } }"

text \<open>
  The searches of directories go on to the next entry before an object leaves its directory.
  (An object that a search is to return next is an entry of the directory searched.)
\<close>

fun next_sibling :: "nat list \<Rightarrow> nat \<Rightarrow> nat option" where
  "next_sibling [] a = None"
| "next_sibling (b # bs) a = (if b = a then (case bs of [] \<Rightarrow> None | c # cs \<Rightarrow> Some c) else next_sibling bs a)"

definition yaffsfs_DirAdvance :: "(nat \<Rightarrow> yaffs_obj option) \<Rightarrow> dir_search \<Rightarrow> dir_search" where
  "yaffsfs_DirAdvance h d =
     (case h (ds_dir d) of
        Some x \<Rightarrow>
          (case o_variant x of
             DirVar cs dl \<Rightarrow> d\<lparr>ds_next := (case ds_next d of None \<Rightarrow> None | Some a \<Rightarrow> next_sibling cs a)\<rparr>
           | _ \<Rightarrow> d)
      | None \<Rightarrow> d)"

definition yaffsfs_RemoveObjectCallback ::
    "(nat \<Rightarrow> yaffs_obj option) \<Rightarrow> nat \<Rightarrow> dir_search list \<Rightarrow> dir_search list" where
  "yaffsfs_RemoveObjectCallback h a ds =
     map (\<lambda>d. if ds_next d = Some a then yaffsfs_DirAdvance h d else d) ds"

definition yaffs_remove_obj_from_dir :: "'n yaffs_sys \<Rightarrow> nat \<Rightarrow> 'n yaffs_sys option" where
  "yaffs_remove_obj_from_dir s a =
     do { let s = s\<lparr>searches := yaffsfs_RemoveObjectCallback (objs s) a (searches s)\<rparr>;
          s \<leftarrow> del_sibling s a;
          upd_obj s a (\<lambda>x. x\<lparr>o_parent := None\<rparr>) }"

definition link_child :: "'n yaffs_sys \<Rightarrow> nat \<Rightarrow> nat \<Rightarrow> 'n yaffs_sys option" where
  "link_child s p a =
     do { d \<leftarrow> objs s p;
          s \<leftarrow> (case o_variant d of
                 DirVar cs dl \<Rightarrow> upd_obj s p (\<lambda>d. d\<lparr>o_variant := DirVar (a # cs) dl\<rparr>)
               | _ \<Rightarrow> None);
          upd_obj s a (\<lambda>x. x\<lparr>o_parent := Some p\<rparr>) }"

definition yaffs_add_obj_to_dir :: "'n yaffs_sys \<Rightarrow> nat \<Rightarrow> nat \<Rightarrow> 'n yaffs_sys option" where
  "yaffs_add_obj_to_dir s directory a =
     do { s \<leftarrow> yaffs_remove_obj_from_dir s a;
          s \<leftarrow> link_child s directory a;
          if Some directory = unlinked_dir s \<or> Some directory = del_dir s then
            do { s \<leftarrow> upd_obj s a (\<lambda>x. x\<lparr>o_unlinked := True, o_rename_allowed := False\<rparr>);
                 Some (set_dev (\<lambda>d. d\<lparr>n_unlinked_files := n_unlinked_files d + 1\<rparr>) s) }
          else Some s }"

section \<open>New and freed objects\<close>

definition yaffs_alloc_empty_obj :: "'n yaffs_sys \<Rightarrow> (nat option \<times> 'n yaffs_sys) option" where
  "yaffs_alloc_empty_obj s =
     (case yaffs_alloc_raw_obj s of
        (None, s) \<Rightarrow> Some (None, s)
      | (Some a, s) \<Rightarrow>
          do { let s = set_dev (\<lambda>d. d\<lparr>n_obj := n_obj d + 1\<rparr>) s;
               let s = s\<lparr>objs := (objs s)(a := Some (zero_obj\<lparr>o_being_created := True\<rparr>))\<rparr>;
               s \<leftarrow> (case root_dir s of None \<Rightarrow> Some s | Some r \<Rightarrow> link_child s r a);
               s \<leftarrow> (case lost_n_found s of None \<Rightarrow> Some s | Some l \<Rightarrow> yaffs_add_obj_to_dir s l a);
               s \<leftarrow> upd_obj s a (\<lambda>x. x\<lparr>o_being_created := False\<rparr>);
               Some (Some a, set_dev (\<lambda>d. d\<lparr>checkpoint_blocks_required := 0\<rparr>) s) })"

definition yaffs_max_file_size :: "'n yaffs_dev \<Rightarrow> int" where
  "yaffs_max_file_size dev = int YAFFS_MAX_CHUNK_ID * int (data_bytes_per_chunk dev)"

text \<open>The variant of a new object; \<open>tn\<close> is the tnode of a file.\<close>

definition new_variant :: "'n yaffs_dev \<Rightarrow> u32 \<Rightarrow> yaffs_tnode option \<Rightarrow> yaffs_obj_var" where
  "new_variant dev ty tn =
     (if ty = YAFFS_OBJECT_TYPE_FILE then
        FileVar \<lparr>file_size = 0, stored_size = 0, shrink_size = yaffs_max_file_size dev, top_level = 0, top = tn\<rparr>
      else if ty = YAFFS_OBJECT_TYPE_DIRECTORY then DirVar [] False
      else if ty = YAFFS_OBJECT_TYPE_SYMLINK then SymlinkVar None
      else if ty = YAFFS_OBJECT_TYPE_HARDLINK then HardlinkVar None 0
      else if ty = YAFFS_OBJECT_TYPE_SPECIAL then SpecialVar
      else UnknownVar)"

text \<open>A number of None is the negative number that asks for a new id.\<close>

definition yaffs_new_obj ::
    "'n yaffs_sys \<Rightarrow> u32 option \<Rightarrow> u32 \<Rightarrow> (nat option \<times> 'n yaffs_sys) option" where
  "yaffs_new_obj s number ty =
     do { (number, s) \<leftarrow> (case number of None \<Rightarrow> yaffs_new_obj_id s | Some n \<Rightarrow> Some (n, s));
          let (tn, s) = (if ty = YAFFS_OBJECT_TYPE_FILE
                         then let (tn, d) = yaffs_get_tnode (sdev s) 0 in (tn, s\<lparr>sdev := d\<rparr>) else (None, s));
          if ty = YAFFS_OBJECT_TYPE_FILE \<and> tn = None then Some (None, s)
          else
            do { (o', s) \<leftarrow> yaffs_alloc_empty_obj s;
                 case o' of
                   None \<Rightarrow> Some (None, if tn = None then s else set_dev yaffs_free_tnode s)
                 | Some a \<Rightarrow>
                     do { s \<leftarrow> upd_obj s a (\<lambda>x. x\<lparr>o_fake := False, o_rename_allowed := True,
                                 o_unlink_allowed := True, o_obj_id := number\<rparr>);
                          s \<leftarrow> yaffs_hash_obj s a;
                          s \<leftarrow> yaffs_load_current_time s a True True;
                          s \<leftarrow> upd_obj s a (\<lambda>x. x\<lparr>o_variant := new_variant (sdev s) ty tn\<rparr>);
                          Some (Some a, s) } } }"

definition yaffs_create_fake_dir :: "'n yaffs_sys \<Rightarrow> u32 \<Rightarrow> u32 \<Rightarrow> (nat option \<times> 'n yaffs_sys) option" where
  "yaffs_create_fake_dir s number mode =
     do { (o', s) \<leftarrow> yaffs_new_obj s (Some number) YAFFS_OBJECT_TYPE_DIRECTORY;
          case o' of None \<Rightarrow> Some (None, s)
          | Some a \<Rightarrow>
              do { s \<leftarrow> upd_obj s a (\<lambda>x. x\<lparr>o_fake := True, o_rename_allowed := False,
                     o_unlink_allowed := False, o_deleted := False, o_unlinked := False,
                     o_yst_mode := mode, o_hdr_chunk := 0\<rparr>);
                   Some (Some a, s) } }"

text \<open>A number that is not positive as an \<^verbatim>\<open>int\<close> is not looked up; a negative one asks for a new id.\<close>

definition yaffs_find_or_create_by_number ::
    "'n yaffs_sys \<Rightarrow> u32 \<Rightarrow> u32 \<Rightarrow> (nat option \<times> 'n yaffs_sys) option" where
  "yaffs_find_or_create_by_number s number ty =
     do { o' \<leftarrow> (if sint number > 0 then yaffs_find_by_number s number else Some None);
          case o' of Some a \<Rightarrow> Some (Some a, s)
          | None \<Rightarrow> yaffs_new_obj s (if sint number < 0 then None else Some number) ty }"

definition yaffs_free_obj :: "'n yaffs_sys \<Rightarrow> nat \<Rightarrow> 'n yaffs_sys option" where
  "yaffs_free_obj s a =
     do { x \<leftarrow> objs s a;
          if o_my_inode x then upd_obj s a (\<lambda>x. x\<lparr>o_defered_free := True\<rparr>)
          else
            do { s \<leftarrow> yaffs_unhash_obj s a;
                 let s = yaffs_free_raw_obj s a;
                 Some (set_dev (\<lambda>d. d\<lparr>n_obj := n_obj d - 1, checkpoint_blocks_required := 0\<rparr>) s) } }"

definition yaffs_handle_defered_free :: "'n yaffs_sys \<Rightarrow> nat \<Rightarrow> 'n yaffs_sys option" where
  "yaffs_handle_defered_free s a =
     do { x \<leftarrow> objs s a; if o_defered_free x then yaffs_free_obj s a else Some s }"

text \<open>The raw tables at the start and at the end of a mount.\<close>

definition yaffs_init_raw_tnodes_and_objs :: "'n yaffs_dev \<Rightarrow> 'n yaffs_dev" where
  "yaffs_init_raw_tnodes_and_objs dev =
     (let a = allocator dev
      in dev\<lparr>allocator := a\<lparr>n_free_tnodes := 0, n_tnodes_created := 0, n_free_objects := 0\<rparr>\<rparr>)"

definition yaffs_deinit_raw_tnodes_and_objs :: "'n yaffs_dev \<Rightarrow> 'n yaffs_dev" where
  "yaffs_deinit_raw_tnodes_and_objs dev =
     (let a = allocator dev
      in dev\<lparr>allocator := a\<lparr>n_free_tnodes := 0, n_tnodes_created := 0, n_free_objects := 0,
                            n_obj_created := 0\<rparr>\<rparr>)"

definition yaffs_init_tnodes_and_objs :: "'n yaffs_sys \<Rightarrow> 'n yaffs_sys" where
  "yaffs_init_tnodes_and_objs s =
     (set_dev (\<lambda>d. yaffs_init_raw_tnodes_and_objs (d\<lparr>n_obj := 0, n_tnodes := 0\<rparr>)) s)
       \<lparr>obj_bucket := replicate YAFFS_NOBJECT_BUCKETS []\<rparr>"

definition yaffs_deinit_tnodes_and_objs :: "'n yaffs_sys \<Rightarrow> 'n yaffs_sys" where
  "yaffs_deinit_tnodes_and_objs s =
     (set_dev (\<lambda>d. (yaffs_deinit_raw_tnodes_and_objs d)\<lparr>n_obj := 0, n_tnodes := 0\<rparr>) s)\<lparr>objs := \<lambda>a. None\<rparr>"

definition YAFFS_ROOT_MODE :: u32 where "YAFFS_ROOT_MODE = 0x1ed"
definition YAFFS_LOSTNFOUND_MODE :: u32 where "YAFFS_LOSTNFOUND_MODE = 0x1c0"
definition S_IFDIR :: u32 where "S_IFDIR = 0x4000"

definition yaffs_create_initial_dir :: "'n yaffs_sys \<Rightarrow> (int \<times> 'n yaffs_sys) option" where
  "yaffs_create_initial_dir s =
     do { let s = s\<lparr>lost_n_found := None, root_dir := None, unlinked_dir := None, del_dir := None\<rparr>;
          (u, s) \<leftarrow> yaffs_create_fake_dir s YAFFS_OBJECTID_UNLINKED S_IFDIR;
          let s = s\<lparr>unlinked_dir := u\<rparr>;
          (d, s) \<leftarrow> yaffs_create_fake_dir s YAFFS_OBJECTID_DELETED S_IFDIR;
          let s = s\<lparr>del_dir := d\<rparr>;
          (r, s) \<leftarrow> yaffs_create_fake_dir s YAFFS_OBJECTID_ROOT (YAFFS_ROOT_MODE OR S_IFDIR);
          let s = s\<lparr>root_dir := r\<rparr>;
          (l, s) \<leftarrow> yaffs_create_fake_dir s YAFFS_OBJECTID_LOSTNFOUND (YAFFS_LOSTNFOUND_MODE OR S_IFDIR);
          let s = s\<lparr>lost_n_found := l\<rparr>;
          case (l, r) of
            (Some l, Some r) \<Rightarrow>
              if u \<noteq> None \<and> d \<noteq> None then
                do { s \<leftarrow> (if hide_lost_n_found (sparam s) then del_sibling s l else yaffs_add_obj_to_dir s r l);
                     Some (YAFFS_OK, s) }
              else Some (YAFFS_FAIL, s)
          | _ \<Rightarrow> Some (YAFFS_FAIL, s) }"

section \<open>Questions about objects\<close>

definition yaffs_is_non_empty_dir :: "'n yaffs_sys \<Rightarrow> nat option \<Rightarrow> bool option" where
  "yaffs_is_non_empty_dir s o' =
     (case o' of None \<Rightarrow> Some False
      | Some a \<Rightarrow> do { x \<leftarrow> objs s a; Some (case o_variant x of DirVar cs d \<Rightarrow> cs \<noteq> [] | _ \<Rightarrow> False) })"

definition yaffs_get_obj_link_count :: "'n yaffs_sys \<Rightarrow> nat \<Rightarrow> int option" where
  "yaffs_get_obj_link_count s a =
     do { x \<leftarrow> objs s a; Some ((if o_unlinked x then 0 else 1) + int (length (o_hard_links x))) }"

end
