(* ===== verification/Yaffs_File_Chunks.thy ===== *)
theory Yaffs_File_Chunks
  imports Yaffs_Obj_Table
begin

text \<open>
  The chunks of files (core/yaffs_guts.c): the search for a chunk through the tree and
  the group of flash chunks that an entry of the tree stands for, the entry of a new
  chunk, in scans too, and the soft deletion of all chunks of a file.
\<close>

section \<open>Finding a chunk\<close>

definition yaffs_tags_match :: "yaffs_ext_tags \<Rightarrow> u32 \<Rightarrow> u32 \<Rightarrow> bool" where
  "yaffs_tags_match tags oid chunk_obj \<longleftrightarrow>
     chunk_id tags = chunk_obj \<and> obj_id tags = oid \<and> is_deleted tags = 0"

text \<open>\<open>n\<close> members of the group are left to look at; the tags are those read last.\<close>

fun find_chunk_in_group_loop ::
    "nat \<Rightarrow> 'n yaffs_sys \<Rightarrow> int \<Rightarrow> yaffs_ext_tags \<Rightarrow> u32 \<Rightarrow> u32 \<Rightarrow>
     (int \<times> yaffs_ext_tags \<times> 'n yaffs_sys) option" where
  "find_chunk_in_group_loop 0 s the_chunk tags oid inode_chunk = Some (-1, tags, s)"
| "find_chunk_in_group_loop (Suc n) s the_chunk tags oid inode_chunk =
     (if the_chunk = 0 then Some (-1, tags, s)
      else
        do { let cpb = chunks_per_block (param (sdev s));
             used \<leftarrow> yaffs_check_chunk_bit (sdev s) (the_chunk div cpb) (the_chunk mod cpb);
             if used then
               if chunk_grp_size (sdev s) = 1 then Some (the_chunk, tags, s)
               else
                 do { (r, b, t, s) \<leftarrow> rd_chunk s the_chunk None (Some tags);
                      tags \<leftarrow> t;
                      if yaffs_tags_match tags oid inode_chunk then Some (the_chunk, tags, s)
                      else find_chunk_in_group_loop n s (the_chunk + 1) tags oid inode_chunk }
             else find_chunk_in_group_loop n s (the_chunk + 1) tags oid inode_chunk })"

definition yaffs_find_chunk_in_group ::
    "'n yaffs_sys \<Rightarrow> int \<Rightarrow> yaffs_ext_tags \<Rightarrow> u32 \<Rightarrow> u32 \<Rightarrow> (int \<times> yaffs_ext_tags \<times> 'n yaffs_sys) option" where
  "yaffs_find_chunk_in_group s the_chunk tags oid inode_chunk =
     find_chunk_in_group_loop (chunk_grp_size (sdev s)) s the_chunk tags oid inode_chunk"

text \<open>Tags of None are the local ones of the function, which are not initialised.\<close>

definition yaffs_find_chunk_in_file ::
    "'n yaffs_sys \<Rightarrow> nat \<Rightarrow> nat \<Rightarrow> yaffs_ext_tags option \<Rightarrow> (int \<times> yaffs_ext_tags \<times> 'n yaffs_sys) option" where
  "yaffs_find_chunk_in_file s a inode_chunk tags =
     do { let tags = (case tags of None \<Rightarrow> stack_tags (sdev s) | Some t \<Rightarrow> t);
          x \<leftarrow> objs s a;
          f \<leftarrow> file_variant x;
          tn \<leftarrow> yaffs_find_tnode_0 f inode_chunk;
          case tn of
            None \<Rightarrow> Some (-1, tags, s)
          | Some (Tnode mp) \<Rightarrow> None
          | Some (Tnode0 mp) \<Rightarrow>
              do { base \<leftarrow> yaffs_get_group_base (sdev s) mp inode_chunk;
                   yaffs_find_chunk_in_group s (uint base) tags (o_obj_id x) (word_of_nat inode_chunk) } }"

definition yaffs_find_del_file_chunk ::
    "'n yaffs_sys \<Rightarrow> nat \<Rightarrow> nat \<Rightarrow> yaffs_ext_tags option \<Rightarrow> (int \<times> yaffs_ext_tags \<times> 'n yaffs_sys) option" where
  "yaffs_find_del_file_chunk s a inode_chunk tags =
     do { let tags = (case tags of None \<Rightarrow> stack_tags (sdev s) | Some t \<Rightarrow> t);
          x \<leftarrow> objs s a;
          f \<leftarrow> file_variant x;
          tn \<leftarrow> yaffs_find_tnode_0 f inode_chunk;
          case tn of
            None \<Rightarrow> Some (-1, tags, s)
          | Some (Tnode mp) \<Rightarrow> None
          | Some (Tnode0 mp) \<Rightarrow>
              do { base \<leftarrow> yaffs_get_group_base (sdev s) mp inode_chunk;
                   (ret, tags, s) \<leftarrow>
                     yaffs_find_chunk_in_group s (uint base) tags (o_obj_id x) (word_of_nat inode_chunk);
                   s \<leftarrow> (if ret \<noteq> -1 then
                           do { mp \<leftarrow> yaffs_load_tnode_0 (sdev s) mp inode_chunk 0;
                                set_file s a (put_tnode_0 f inode_chunk (Tnode0 mp)) }
                         else Some s);
                   Some (ret, tags, s) } }"

section \<open>Entering a chunk\<close>

text \<open>
  The decision between a chunk that is already in the tree and the one that a scan has
  found: whether to go on and enter the new one, and the chunk that was there.
\<close>

definition settle_duplicate ::
    "'n yaffs_sys \<Rightarrow> nat \<Rightarrow> nat \<Rightarrow> int \<Rightarrow> int \<Rightarrow> int \<Rightarrow> (bool \<times> int \<times> 'n yaffs_sys) option" where
  "settle_duplicate s a inode_chunk nand_chunk in_scan existing_chunk =
     (if in_scan > 0 then
        do { (r, b, new_tags, s) \<leftarrow> rd_chunk s nand_chunk None (Some (stack_tags (sdev s)));
             new_tags \<leftarrow> new_tags;
             (existing_chunk, existing_tags, s) \<leftarrow>
               yaffs_find_chunk_in_file s a inode_chunk (Some (stack_tags (sdev s)));
             if existing_chunk \<le> 0 \<or> (serial_number existing_tags + 1) AND 3 = serial_number new_tags
             then do { s \<leftarrow> chunk_del s existing_chunk True; Some (True, existing_chunk, s) }
             else do { s \<leftarrow> chunk_del s nand_chunk True; Some (False, existing_chunk, s) } }
      else do { s \<leftarrow> chunk_del s nand_chunk True; Some (False, existing_chunk, s) })"

definition yaffs_put_chunk_in_file ::
    "'n yaffs_sys \<Rightarrow> nat \<Rightarrow> nat \<Rightarrow> int \<Rightarrow> int \<Rightarrow> (int \<times> 'n yaffs_sys) option" where
  "yaffs_put_chunk_in_file s a inode_chunk nand_chunk in_scan =
     do { x \<leftarrow> objs s a;
          case file_variant x of
            None \<Rightarrow> do { s \<leftarrow> chunk_del s nand_chunk True; Some (YAFFS_OK, s) }
          | Some f \<Rightarrow>
              do { (tn, f, d) \<leftarrow> yaffs_add_find_tnode_0 (sdev s) f inode_chunk None;
                   s \<leftarrow> set_file (s\<lparr>sdev := d\<rparr>) a f;
                   case tn of
                     None \<Rightarrow> Some (YAFFS_FAIL, s)
                   | Some tn \<Rightarrow>
                       if nand_chunk = 0 then Some (YAFFS_OK, s)
                       else
                         case tn of Tnode xs \<Rightarrow> None
                         | Tnode0 mp \<Rightarrow>
                             do { base \<leftarrow> yaffs_get_group_base (sdev s) mp inode_chunk;
                                  (go_on, existing_chunk, s) \<leftarrow>
                                    (if in_scan \<noteq> 0 \<and> uint base > 0
                                     then settle_duplicate s a inode_chunk nand_chunk in_scan (uint base)
                                     else Some (True, uint base, s));
                                  if \<not> go_on then Some (YAFFS_OK, s)
                                  else
                                    do { s \<leftarrow> (if existing_chunk = 0
                                               then upd_obj s a (\<lambda>x. x\<lparr>o_n_data_chunks := o_n_data_chunks x + 1\<rparr>)
                                               else Some s);
                                         mp \<leftarrow> yaffs_load_tnode_0 (sdev s) mp inode_chunk (word_of_int nand_chunk);
                                         s \<leftarrow> set_file s a (put_tnode_0 f inode_chunk (Tnode0 mp));
                                         Some (YAFFS_OK, s) } } } }"

section \<open>Soft deletion\<close>

text \<open>The entries of a level 0 tnode below \<open>i\<close>, from the last to the first.\<close>

fun soft_del_entries :: "nat \<Rightarrow> 'n yaffs_dev \<Rightarrow> u32 list \<Rightarrow> (u32 list \<times> 'n yaffs_dev) option" where
  "soft_del_entries 0 dev mp = Some (mp, dev)"
| "soft_del_entries (Suc i) dev mp =
     do { the_chunk \<leftarrow> yaffs_get_group_base dev mp i;
          if the_chunk \<noteq> 0 then
            do { dev \<leftarrow> yaffs_soft_del_chunk dev (uint the_chunk);
                 mp \<leftarrow> yaffs_load_tnode_0 dev mp i 0;
                 soft_del_entries i dev mp }
          else soft_del_entries i dev mp }"

text \<open>
  The worker on a tnode of a level, and on the slots below \<open>i\<close> of a tnode one level
  higher; the result tells whether all is done.
\<close>

function (sequential) yaffs_soft_del_worker ::
      "nat \<Rightarrow> 'n yaffs_dev \<Rightarrow> yaffs_tnode \<Rightarrow> (bool \<times> yaffs_tnode \<times> 'n yaffs_dev) option"
  and soft_del_slots ::
      "nat \<Rightarrow> nat \<Rightarrow> 'n yaffs_dev \<Rightarrow> yaffs_tnode option list \<Rightarrow> (bool \<times> yaffs_tnode option list \<times> 'n yaffs_dev) option" where
  "yaffs_soft_del_worker 0 dev (Tnode0 mp) =
     do { (mp, dev) \<leftarrow> soft_del_entries YAFFS_NTNODES_LEVEL0 dev mp; Some (True, Tnode0 mp, dev) }"
| "yaffs_soft_del_worker (Suc l) dev (Tnode xs) =
     do { (all_done, xs, dev) \<leftarrow> soft_del_slots l YAFFS_NTNODES_INTERNAL dev xs;
          Some (all_done, Tnode xs, dev) }"
| "yaffs_soft_del_worker l dev tn = None"
| "soft_del_slots l 0 dev xs = Some (True, xs, dev)"
| "soft_del_slots l (Suc i) dev xs =
     (if i \<ge> length xs then None
      else case xs ! i of
        None \<Rightarrow> soft_del_slots l i dev xs
      | Some tn \<Rightarrow>
          do { (all_done, tn, dev) \<leftarrow> yaffs_soft_del_worker l dev tn;
               if all_done then soft_del_slots l i (yaffs_free_tnode dev) (xs[i := None])
               else Some (False, xs[i := Some tn], dev) })"
  by pat_completeness auto
termination
  by (relation "measures [\<lambda>x. case x of Inl (l, d, t) \<Rightarrow> 2 * l | Inr (l, i, d, xs) \<Rightarrow> 2 * l + 1,
        \<lambda>x. case x of Inl y \<Rightarrow> 0 | Inr (l, i, d, xs) \<Rightarrow> i]") simp_all

end
