(* ===== verification/Yaffs_Tnode_Bits.thy ===== *)
theory Yaffs_Tnode_Bits
  imports Yaffs_Tnode
begin

text \<open>
  The packing of a level 0 tnode as sixteen numbers side by side in one string of bits:
  what is loaded into an entry is read back from it, and no other entry changes.
\<close>

section \<open>The bits of a level 0 tnode\<close>

definition map_bit :: "u32 list \<Rightarrow> nat \<Rightarrow> bool" where
  "map_bit mp k = bit (mp ! (k div 32)) (k mod 32)"

text \<open>
  The geometry that \<^verbatim>\<open>yaffs_guts_initialise\<close> sets up: entries of one to 32 bits, and a
  tnode that holds sixteen of them.
\<close>

definition tnode_geom :: "'n yaffs_dev \<Rightarrow> bool" where
  "tnode_geom dev \<longleftrightarrow> 0 < tnode_width dev \<and> tnode_width dev \<le> 32 \<and>
     (\<forall>j < 32. bit (tnode_mask dev) j \<longleftrightarrow> j < tnode_width dev) \<and>
     0 \<le> tnode_size dev \<and> YAFFS_NTNODES_LEVEL0 * tnode_width dev \<le> 32 * (nat (tnode_size dev) div 4)"

definition map_wf :: "'n yaffs_dev \<Rightarrow> u32 list \<Rightarrow> bool" where
  "map_wf dev mp \<longleftrightarrow> length mp = nat (tnode_size dev) div 4"

lemma tnode_mask_bits:
  assumes "tnode_geom dev"
  shows "bit (tnode_mask dev) j \<longleftrightarrow> j < tnode_width dev"
proof (cases "j < 32")
  case False
  moreover have "tnode_width dev \<le> 32" using assms by (simp add: tnode_geom_def)
  ultimately show ?thesis by (auto dest: bit_imp_le_length)
qed (use assms in \<open>simp add: tnode_geom_def\<close>)

lemma entry_inside:
  fixes pos :: nat
  assumes "tnode_geom dev" and "map_wf dev mp"
  defines "k \<equiv> pos mod YAFFS_NTNODES_LEVEL0 * tnode_width dev"
  shows "k + tnode_width dev \<le> 32 * length mp" "k div 32 < length mp"
    "tnode_width dev > 32 - k mod 32 \<Longrightarrow> k div 32 + 1 < length mp"
proof -
  let ?w = "tnode_width dev" and ?p = "pos mod YAFFS_NTNODES_LEVEL0"
  have "?p + 1 \<le> YAFFS_NTNODES_LEVEL0" by (simp add: tnode_consts Suc_le_eq)
  then have "(?p + 1) * ?w \<le> YAFFS_NTNODES_LEVEL0 * ?w" by (rule mult_le_mono1)
  then show 1: "k + ?w \<le> 32 * length mp" using assms(1,2) by (simp add: k_def tnode_geom_def map_wf_def)
  have "0 < ?w" using assms(1) by (simp add: tnode_geom_def)
  then show "k div 32 < length mp" using 1 by linarith
  have "k = 32 * (k div 32) + k mod 32" "k mod 32 < 32" by simp_all
  then show "?w > 32 - k mod 32 \<Longrightarrow> k div 32 + 1 < length mp" using 1 by linarith
qed

lemma map_bit_update:
  assumes "q < length mp" and "k < 32 * length mp"
  shows "map_bit (mp[q := v]) k = (if k div 32 = q then bit v (k mod 32) else map_bit mp k)"
  using assms by (simp add: map_bit_def nth_list_update)

text \<open>A bit \<open>r\<close> of the word \<open>kq\<close> lies in the entry of \<open>w\<close> bits that starts at bit \<open>b\<close> of the word \<open>q\<close>.\<close>

lemma in_entry:
  fixes q b kq r w :: nat
  assumes "b < 32" and "r < 32" and "w \<le> 32"
  shows "(kq = q \<and> b \<le> r \<and> r - b < w) \<or> (kq = q + 1 \<and> r + (32 - b) < w) \<longleftrightarrow>
    32 * q + b \<le> 32 * kq + r \<and> 32 * kq + r < 32 * q + b + w"
proof -
  consider "kq < q" | "kq = q" | "kq = q + 1" | "q + 2 \<le> kq" by linarith
  then show ?thesis using assms by cases auto
qed

lemma load_tnode_0_bits:
  fixes pos :: nat
  assumes g: "tnode_geom dev" and m: "map_wf dev mp"
  defines "w \<equiv> tnode_width dev" and "s \<equiv> pos mod YAFFS_NTNODES_LEVEL0 * tnode_width dev"
  shows "\<exists>mp'. yaffs_load_tnode_0 dev mp pos val = Some mp' \<and> map_wf dev mp' \<and>
     (\<forall>k < 32 * length mp. map_bit mp' k =
        (if s \<le> k \<and> k < s + w then bit val (chunk_grp_bits dev + (k - s)) else map_bit mp k))"
proof -
  let ?q = "s div 32" and ?b = "s mod 32" and ?v = "drop_bit (chunk_grp_bits dev) val"
  note I = entry_inside [OF g m, of pos, folded s_def w_def]
  have w: "0 < w" "w \<le> 32" and mb: "\<And>j. bit (tnode_mask dev) j \<longleftrightarrow> j < w"
    using g tnode_mask_bits [OF g] by (simp_all add: tnode_geom_def w_def)
  have b: "?b < 32" by simp
  have sq: "s = 32 * ?q + ?b" by simp
  let ?m1 = "push_bit ?b (tnode_mask dev)"
  let ?mp1 = "mp[?q := (mp ! ?q AND NOT ?m1) OR (?m1 AND push_bit ?b ?v)]"
  have b1: "map_bit ?mp1 k = (if k div 32 = ?q \<and> ?b \<le> k mod 32 \<and> k mod 32 - ?b < w
      then bit val (chunk_grp_bits dev + (k mod 32 - ?b)) else map_bit mp k)" if "k < 32 * length mp" for k
    unfolding map_bit_update [OF I(2) that]
    by (auto simp: bit_simps mb map_bit_def add.commute)
  have fin: "P" if "\<And>kq r. k = 32 * kq + r \<Longrightarrow> r < 32 \<Longrightarrow> k div 32 = kq \<Longrightarrow> k mod 32 = r \<Longrightarrow> P" for k :: nat and P
    by (rule that [of "k div 32" "k mod 32"]) simp_all
  show ?thesis
  proof (cases "w > 32 - ?b")
    case False
    then have eq: "yaffs_load_tnode_0 dev mp pos val = Some ?mp1"
      using I(2) by (simp add: yaffs_load_tnode_0_def Let_def s_def w_def)
    have "map_bit ?mp1 k = (if s \<le> k \<and> k < s + w then bit val (chunk_grp_bits dev + (k - s)) else map_bit mp k)"
      if k: "k < 32 * length mp" for k
    proof (rule fin [of k])
      fix kq r assume r: "k = 32 * kq + r" "r < 32" "k div 32 = kq" "k mod 32 = r"
      have "(kq = ?q \<and> ?b \<le> r \<and> r - ?b < w) = (s \<le> k \<and> k < s + w)"
        using in_entry [OF b r(2) w(2), of kq ?q] False unfolding r(1) sq [symmetric] by auto
      moreover have "r - ?b = k - s" if "kq = ?q" using r(1) sq that by linarith
      ultimately show ?thesis unfolding b1 [OF k] r(3,4) by auto
    qed
    then show ?thesis using eq m by (auto simp: map_wf_def)
  next
    case True
    let ?m2 = "drop_bit (32 - ?b) (tnode_mask dev)"
    let ?mp2 = "?mp1[?q + 1 := (?mp1 ! (?q + 1) AND NOT ?m2) OR (?m2 AND drop_bit (32 - ?b) ?v)]"
    have q1: "?q + 1 < length ?mp1" using I(3) True by simp
    have eq: "yaffs_load_tnode_0 dev mp pos val = Some ?mp2"
      using I(2) q1 True by (simp add: yaffs_load_tnode_0_def Let_def s_def w_def)
    have b2: "map_bit ?mp2 k = (if k div 32 = ?q + 1 \<and> k mod 32 + (32 - ?b) < w
        then bit val (chunk_grp_bits dev + (k mod 32 + (32 - ?b))) else map_bit ?mp1 k)"
      if "k < 32 * length mp" for k
    proof -
      have "k < 32 * length ?mp1" using that by simp
      from map_bit_update [OF q1 this] show ?thesis
        by (auto simp: bit_simps mb map_bit_def add_ac)
    qed
    have "map_bit ?mp2 k = (if s \<le> k \<and> k < s + w then bit val (chunk_grp_bits dev + (k - s)) else map_bit mp k)"
      if k: "k < 32 * length mp" for k
    proof (rule fin [of k])
      fix kq r assume r: "k = 32 * kq + r" "r < 32" "k div 32 = kq" "k mod 32 = r"
      have "(kq = ?q \<and> ?b \<le> r \<and> r - ?b < w) \<or> (kq = ?q + 1 \<and> r + (32 - ?b) < w) \<longleftrightarrow> s \<le> k \<and> k < s + w"
        using in_entry [OF b r(2) w(2), of kq ?q] unfolding r(1) sq [symmetric] .
      moreover have "r - ?b = k - s" if "kq = ?q" using r(1) sq that by linarith
      moreover have "r + (32 - ?b) = k - s" if "kq = ?q + 1" using r(1) sq that b by linarith
      ultimately show ?thesis unfolding b2 [OF k] b1 [OF k] r(3,4) by auto
    qed
    then show ?thesis using eq m by (auto simp: map_wf_def)
  qed
qed

lemma word_pos:
  fixes q x :: nat
  assumes "x < 32"
  shows "(32 * q + x) div 32 = q" "(32 * q + x) mod 32 = x"
  using assms by simp_all

lemma next_word:
  fixes q b i s :: nat
  assumes "s = 32 * q + b" and "\<not> b + i < 32" and "b < 32"
  shows "s + i = 32 * (q + 1) + (i - (32 - b))"
proof -
  obtain c where c: "b + c = 32" using assms(3) by (metis less_imp_add_positive)
  then obtain d where d: "i = c + d" using assms(2) by (metis add.commute le_Suc_ex nat_add_left_cancel_le not_less add_le_cancel_left)
  have "32 - b = c" using c by linarith
  then show ?thesis using assms(1) c by (simp add: d)
qed

lemma get_group_base_bits:
  fixes pos :: nat
  assumes g: "tnode_geom dev" and m: "map_wf dev mp"
  defines "w \<equiv> tnode_width dev" and "s \<equiv> pos mod YAFFS_NTNODES_LEVEL0 * tnode_width dev"
  shows "\<exists>v. yaffs_get_group_base dev mp pos = Some v \<and>
     (\<forall>j < 32. bit v j \<longleftrightarrow> chunk_grp_bits dev \<le> j \<and> j - chunk_grp_bits dev < w \<and>
        map_bit mp (s + (j - chunk_grp_bits dev)))"
proof -
  let ?q = "s div 32" and ?b = "s mod 32"
  note I = entry_inside [OF g m, of pos, folded s_def w_def]
  have w: "0 < w" "w \<le> 32" and mb: "\<And>j. bit (tnode_mask dev) j \<longleftrightarrow> j < w"
    using g tnode_mask_bits [OF g] by (simp_all add: tnode_geom_def w_def)
  have b: "?b < 32" by simp
  have sq: "s = 32 * ?q + ?b" by simp
  define u where "u = (if w > 32 - ?b then drop_bit ?b (mp ! ?q) OR push_bit (32 - ?b) (mp ! (?q + 1)) else drop_bit ?b (mp ! ?q))"
  have eq: "yaffs_get_group_base dev mp pos = Some (push_bit (chunk_grp_bits dev) (u AND tnode_mask dev))"
    using I(2,3) by (cases "w > 32 - ?b") (simp_all add: yaffs_get_group_base_def Let_def u_def s_def w_def)
  have U: "bit u i \<longleftrightarrow> map_bit mp (s + i)" if "i < w" for i
  proof (cases "?b + i < 32")
    case True
    have e: "s + i = 32 * ?q + (?b + i)" using sq by linarith
    have d: "(s + i) div 32 = ?q" "(s + i) mod 32 = ?b + i" unfolding e by (rule word_pos [OF True])+
    have n: "\<not> 32 - ?b \<le> i" using True by linarith
    show ?thesis using n by (simp add: u_def bit_simps map_bit_def d)
  next
    case False
    have e: "s + i = 32 * (?q + 1) + (i - (32 - ?b))" by (rule next_word [OF sq False b])
    have "i - (32 - ?b) < 32" using that w(2) b by linarith
    then have d: "(s + i) div 32 = ?q + 1" "(s + i) mod 32 = i - (32 - ?b)" unfolding e by (rule word_pos)+
    have l: "w > 32 - ?b" "32 - ?b \<le> i" "i < 32" using False that w b by linarith+
    have "\<not> bit (mp ! ?q) (?b + i)" using False by (auto dest: bit_imp_le_length)
    then show ?thesis using l by (simp add: u_def bit_simps map_bit_def d)
  qed
  show ?thesis
    using eq U w by (intro exI [of _ "push_bit (chunk_grp_bits dev) (u AND tnode_mask dev)"])
      (auto simp: bit_simps mb)
qed

section \<open>Entries\<close>

text \<open>
  An entry of a well-formed tnode, and the value a chunk number is rounded to by an
  entry: the base of its group.
\<close>

definition entry :: "'n yaffs_dev \<Rightarrow> u32 list \<Rightarrow> nat \<Rightarrow> u32" where
  "entry dev mp pos = the (yaffs_get_group_base dev mp pos)"

definition group_of :: "'n yaffs_dev \<Rightarrow> u32 \<Rightarrow> u32" where
  "group_of dev val = push_bit (chunk_grp_bits dev) (drop_bit (chunk_grp_bits dev) val AND tnode_mask dev)"

lemma get_entry:
  assumes "tnode_geom dev" and "map_wf dev mp"
  shows "yaffs_get_group_base dev mp pos = Some (entry dev mp pos)"
  using get_group_base_bits [OF assms, of pos] by (auto simp: entry_def)

lemma bit_entry:
  assumes "tnode_geom dev" and "map_wf dev mp" and "j < 32"
  shows "bit (entry dev mp pos) j \<longleftrightarrow> chunk_grp_bits dev \<le> j \<and> j - chunk_grp_bits dev < tnode_width dev \<and>
     map_bit mp (pos mod YAFFS_NTNODES_LEVEL0 * tnode_width dev + (j - chunk_grp_bits dev))"
  using get_group_base_bits [OF assms(1,2), of pos] assms(3) by (auto simp: entry_def)

lemma slots_apart:
  fixes a b w k :: nat
  assumes "a \<noteq> b" and "a * w \<le> k" and "k < a * w + w" and "b * w \<le> k" and "k < b * w + w"
  shows False
proof -
  have "a * w + w \<le> b * w \<or> b * w + w \<le> a * w"
  proof (cases "a < b")
    case True
    then have "(a + 1) * w \<le> b * w" by (intro mult_le_mono1) simp
    then show ?thesis by simp
  next
    case False
    then have "(b + 1) * w \<le> a * w" using assms(1) by (intro mult_le_mono1) simp
    then show ?thesis by simp
  qed
  then show False using assms by linarith
qed

lemma load_entry:
  assumes g: "tnode_geom dev" and m: "map_wf dev mp"
  shows "\<exists>mp'. yaffs_load_tnode_0 dev mp pos val = Some mp' \<and> map_wf dev mp' \<and>
     (\<forall>pos'. entry dev mp' pos' = (if pos' mod YAFFS_NTNODES_LEVEL0 = pos mod YAFFS_NTNODES_LEVEL0
        then group_of dev val else entry dev mp pos'))"
proof -
  let ?w = "tnode_width dev" and ?g = "chunk_grp_bits dev" and ?p = "pos mod YAFFS_NTNODES_LEVEL0"
  obtain mp' where mp': "yaffs_load_tnode_0 dev mp pos val = Some mp'" "map_wf dev mp'"
    "\<And>k. k < 32 * length mp \<Longrightarrow> map_bit mp' k =
        (if ?p * ?w \<le> k \<and> k < ?p * ?w + ?w then bit val (?g + (k - ?p * ?w)) else map_bit mp k)"
    using load_tnode_0_bits [OF g m, of pos val] by blast
  have mb: "bit (tnode_mask dev) j \<longleftrightarrow> j < ?w" for j
    by (rule tnode_mask_bits [OF g])
  have "entry dev mp' pos' = (if pos' mod YAFFS_NTNODES_LEVEL0 = ?p then group_of dev val else entry dev mp pos')" for pos'
  proof (rule bit_eqI)
    fix j assume "possible_bit TYPE(32 word) j"
    then have j: "j < 32" by simp
    let ?p' = "pos' mod YAFFS_NTNODES_LEVEL0"
    have e: "map_bit mp' (?p' * ?w + i) = (if ?p' = ?p then bit val (?g + i) else map_bit mp (?p' * ?w + i))"
      if i: "i < ?w" for i
    proof -
      let ?k = "?p' * ?w + i"
      have k: "?k < 32 * length mp" using entry_inside(1) [OF g m, of pos'] i by linarith
      have "\<not> (?p * ?w \<le> ?k \<and> ?k < ?p * ?w + ?w)" if "?p' \<noteq> ?p"
        using slots_apart [OF that, of ?w ?k] i by auto
      then show ?thesis using mp'(3) [OF k] i by auto
    qed
    show "bit (entry dev mp' pos') j =
      bit (if ?p' = ?p then group_of dev val else entry dev mp pos') j"
    proof (cases "?g \<le> j \<and> j - ?g < ?w")
      case True
      then show ?thesis using e [of "j - ?g"] j
        by (auto simp: bit_entry [OF g mp'(2) j] bit_entry [OF g m j] group_of_def bit_simps mb)
    next
      case False
      then show ?thesis
        by (auto simp: bit_entry [OF g mp'(2) j] bit_entry [OF g m j] group_of_def bit_simps mb)
    qed
  qed
  then show ?thesis using mp'(1,2) by blast
qed

end
