(* ===== verification/Yaffs_Tnode_Tree.thy ===== *)
theory Yaffs_Tnode_Tree
  imports Yaffs_Tnode_Bits
begin

text \<open>
  The tree of a file as a map: \<^verbatim>\<open>chunk_base\<close> is what the tree says of a chunk of the
  file, 0 for no chunk.  Growing the tree and pruning it leave this map alone, and a
  number loaded into the tnode that \<^verbatim>\<open>yaffs_add_find_tnode_0\<close> gives changes it for that
  chunk only.
\<close>

section \<open>Trees\<close>

definition tnode_words :: "'n yaffs_dev \<Rightarrow> nat" where
  "tnode_words dev = nat (tnode_size dev) div 4"

lemma map_wf_words: "map_wf dev mp \<longleftrightarrow> length mp = tnode_words dev"
  by (simp add: map_wf_def tnode_words_def)

text \<open>A tree of a level whose level 0 tnodes have \<open>n\<close> words and whose first slots lead down to level 0.\<close>

fun tree_ok :: "nat \<Rightarrow> nat \<Rightarrow> yaffs_tnode \<Rightarrow> bool" where
  "tree_ok n 0 (Tnode0 mp) \<longleftrightarrow> length mp = n"
| "tree_ok n (Suc l) (Tnode xs) \<longleftrightarrow> length xs = YAFFS_NTNODES_INTERNAL \<and> (\<forall>t. Some t \<in> set xs \<longrightarrow> tree_ok n l t)"
| "tree_ok n l tn \<longleftrightarrow> False"

fun spine :: "nat \<Rightarrow> yaffs_tnode \<Rightarrow> bool" where
  "spine 0 tn \<longleftrightarrow> True"
| "spine (Suc l) (Tnode xs) \<longleftrightarrow> (case xs of Some t # ys \<Rightarrow> spine l t | _ \<Rightarrow> False)"
| "spine (Suc l) (Tnode0 mp) \<longleftrightarrow> False"

fun tnode_count :: "yaffs_tnode \<Rightarrow> nat" where
  "tnode_count (Tnode0 mp) = 1"
| "tnode_count (Tnode xs) = Suc (sum_list (map (\<lambda>x. case x of None \<Rightarrow> 0 | Some t \<Rightarrow> tnode_count t) xs))"

lemma tree_ok_0: "tree_ok n 0 tn \<longleftrightarrow> (\<exists>mp. tn = Tnode0 mp \<and> length mp = n)"
  by (cases tn) simp_all

lemma tree_ok_Suc: "tree_ok n (Suc l) tn \<longleftrightarrow>
    (\<exists>xs. tn = Tnode xs \<and> length xs = YAFFS_NTNODES_INTERNAL \<and> (\<forall>t. Some t \<in> set xs \<longrightarrow> tree_ok n l t))"
  by (cases tn) simp_all

definition file_tree_ok :: "'n yaffs_dev \<Rightarrow> yaffs_file_var \<Rightarrow> bool" where
  "file_tree_ok dev fs \<longleftrightarrow> top_level fs \<le> YAFFS_TNODES_MAX_LEVEL \<and>
     (\<exists>tn. top fs = Some tn \<and> tree_ok (tnode_words dev) (top_level fs) tn \<and> spine (top_level fs) tn)"

definition file_tnodes :: "yaffs_file_var \<Rightarrow> nat" where
  "file_tnodes fs = (case top fs of None \<Rightarrow> 0 | Some tn \<Rightarrow> tnode_count tn)"

definition tnode_base :: "'n yaffs_dev \<Rightarrow> nat \<Rightarrow> yaffs_tnode option \<Rightarrow> u32" where
  "tnode_base dev cid r = (case r of Some (Tnode0 mp) \<Rightarrow> entry dev mp cid | _ \<Rightarrow> 0)"

definition chunk_base :: "'n yaffs_dev \<Rightarrow> yaffs_file_var \<Rightarrow> nat \<Rightarrow> u32" where
  "chunk_base dev fs cid = (case yaffs_find_tnode_0 fs cid of Some r \<Rightarrow> tnode_base dev cid r | None \<Rightarrow> 0)"

section \<open>Depths and slots\<close>

lemma required_depth_le: "required_depth i \<le> l \<longleftrightarrow> i < 8 ^ l"
proof (induction l arbitrary: i)
  case 0 show ?case by (subst required_depth.simps) simp
next
  case (Suc l)
  have "required_depth i \<le> Suc l \<longleftrightarrow> i = 0 \<or> required_depth (i div 8) \<le> l"
    by (subst required_depth.simps) (simp add: tnode_consts)
  also have "\<dots> \<longleftrightarrow> i < 8 ^ Suc l" unfolding Suc.IH by (auto simp: div_less_iff_less_mult mult.commute)
  finally show ?case .
qed

lemma tnode_slot_eq: "tnode_slot (Suc l) cid = cid div 16 div 8 ^ l mod 8"
proof -
  have "(2::nat) ^ (4 + 3 * l) = 16 * 8 ^ l" by (simp add: power_add power_mult)
  then show ?thesis by (simp add: tnode_slot_def tnode_consts mult.commute [of l] div_mult2_eq)
qed

lemma tnode_slot_less: "tnode_slot l cid < YAFFS_NTNODES_INTERNAL"
  by (simp add: tnode_slot_def tnode_consts)

lemma slot_0_iff:
  assumes "required_depth (cid div 16) \<le> Suc l"
  shows "tnode_slot (Suc l) cid = 0 \<longleftrightarrow> required_depth (cid div 16) \<le> l"
proof -
  have "cid div 16 < 8 ^ l * 8" using assms by (simp add: required_depth_le mult.commute)
  then have "cid div 16 div 8 ^ l < 8" by (simp add: less_mult_imp_div_less mult.commute)
  then show ?thesis by (simp add: tnode_slot_eq required_depth_le div_eq_0_iff)
qed

lemma max_chunk_depth: "cid \<le> YAFFS_MAX_CHUNK_ID \<Longrightarrow> required_depth (cid div 16) \<le> YAFFS_TNODES_MAX_LEVEL"
  by (simp add: required_depth_le tnode_consts)

section \<open>Tnodes from the allocator\<close>

text \<open>
  Between two devices: the geometry of the tnodes is the same, and the accounts have moved
  by \<open>k\<close> tnodes.
\<close>

definition tnodes_moved :: "int \<Rightarrow> 'n yaffs_dev \<Rightarrow> 'n yaffs_dev \<Rightarrow> bool" where
  "tnodes_moved k dev dev' \<longleftrightarrow>
     tnode_size dev' = tnode_size dev \<and> tnode_width dev' = tnode_width dev \<and> tnode_mask dev' = tnode_mask dev \<and>
     chunk_grp_bits dev' = chunk_grp_bits dev \<and> n_tnodes dev' = n_tnodes dev + k \<and>
     n_tnodes_created (allocator dev') - int (n_free_tnodes (allocator dev')) =
       n_tnodes_created (allocator dev) - int (n_free_tnodes (allocator dev)) + k"

lemma tnodes_moved_refl [simp]: "tnodes_moved 0 dev dev"
  by (simp add: tnodes_moved_def)

lemma tnodes_moved_trans:
  "tnodes_moved k dev dev' \<Longrightarrow> tnodes_moved k' dev' dev'' \<Longrightarrow> tnodes_moved (k + k') dev dev''"
  by (simp add: tnodes_moved_def)

lemma kmalloc_tnodes: "tnodes_moved 0 dev (snd (kmalloc dev))"
  by (simp add: kmalloc_def tnodes_moved_def split: list.split)

lemma create_tnodes_moved: "tnodes_moved 0 dev (snd (yaffs_create_tnodes dev n))"
  by (simp add: yaffs_create_tnodes_def kmalloc_def Let_def tnodes_moved_def split: list.split)

lemma get_tnode_moved:
  assumes "yaffs_get_tnode dev level = (r, dev')"
  shows "tnodes_moved (if r = None then 0 else 1) dev dev'"
    "r = None \<or> r = Some (new_tnode dev level)"
  using assms create_tnodes_moved [of dev YAFFS_ALLOCATION_NTNODES]
  by (auto simp: yaffs_get_tnode_def yaffs_alloc_raw_tnode_def Let_def tnodes_moved_def new_tnode_def split: if_splits)

lemma free_tnode_moved: "tnodes_moved (- 1) dev (yaffs_free_tnode dev)"
  by (simp add: yaffs_free_tnode_def yaffs_free_raw_tnode_def Let_def tnodes_moved_def)

lemma new_tnode_geom: "tnodes_moved k dev dev' \<Longrightarrow> new_tnode dev' l = new_tnode dev l"
  by (simp add: tnodes_moved_def new_tnode_def)

lemma words_geom: "tnodes_moved k dev dev' \<Longrightarrow> tnode_words dev' = tnode_words dev"
  by (simp add: tnodes_moved_def tnode_words_def)

lemma entry_geom: "tnodes_moved k dev dev' \<Longrightarrow> entry dev' mp pos = entry dev mp pos"
  by (simp add: tnodes_moved_def entry_def yaffs_get_group_base_def Let_def)

lemma tnode_geom_geom: "tnodes_moved k dev dev' \<Longrightarrow> tnode_geom dev' = tnode_geom dev"
  by (simp add: tnodes_moved_def tnode_geom_def)

lemma tnode_base_geom: "tnodes_moved k dev dev' \<Longrightarrow> tnode_base dev' cid r = tnode_base dev cid r"
  by (simp add: tnode_base_def entry_geom split: option.split yaffs_tnode.split)

lemma chunk_base_geom: "tnodes_moved k dev dev' \<Longrightarrow> chunk_base dev' fs cid = chunk_base dev fs cid"
  by (simp add: chunk_base_def tnode_base_geom split: option.split)

lemma file_tree_ok_geom: "tnodes_moved k dev dev' \<Longrightarrow> file_tree_ok dev' fs = file_tree_ok dev fs"
  by (simp add: file_tree_ok_def words_geom)

section \<open>New tnodes\<close>

lemma new_tnode_ok: "tree_ok (tnode_words dev) l (new_tnode dev l)"
  by (cases l) (simp_all add: new_tnode_def tnode_words_def)

lemma new_tnode_count: "tnode_count (new_tnode dev l) = 1"
  by (simp add: new_tnode_def sum_list_replicate)

lemma entry_zero:
  assumes "tnode_geom dev"
  shows "entry dev (replicate (tnode_words dev) 0) pos = 0"
proof -
  have w: "map_wf dev (replicate (tnode_words dev) 0)" by (simp add: map_wf_words)
  have "\<not> bit (entry dev (replicate (tnode_words dev) 0) pos) j" if j: "j < 32" for j
  proof -
    have "\<not> map_bit (replicate (tnode_words dev) 0) k" if "k < 32 * tnode_words dev" for k
      using that by (simp add: map_bit_def)
    then show ?thesis using entry_inside(1) [OF assms w, of pos] by (auto simp: bit_entry [OF assms w j])
  qed
  then show ?thesis by (intro bit_word_eqI) simp
qed

lemma new_tnode_0_base: "tnode_geom dev \<Longrightarrow> tnode_base dev cid (Some (new_tnode dev 0)) = 0"
  using entry_zero [of dev cid] by (simp add: tnode_base_def new_tnode_def tnode_words_def)

lemma find_down_new:
  "tnode_geom dev \<Longrightarrow> \<exists>r. find_down l (Some (new_tnode dev l)) cid = Some r \<and> tnode_base dev cid r = 0"
proof (cases l)
  case (Suc k)
  have "tnode_slot (Suc k) cid < YAFFS_NTNODES_INTERNAL" by (rule tnode_slot_less)
  then show ?thesis using Suc by (simp add: new_tnode_def tnode_base_def)
qed (simp add: new_tnode_0_base)

lemma find_down_ok:
  "tree_ok n l tn \<Longrightarrow> \<exists>r. find_down l (Some tn) cid = Some r \<and> (\<forall>t. r = Some t \<longrightarrow> tree_ok n 0 t)"
proof (induction l arbitrary: tn)
  case (Suc l)
  then obtain xs where xs: "tn = Tnode xs" "length xs = YAFFS_NTNODES_INTERNAL"
    "\<And>t. Some t \<in> set xs \<Longrightarrow> tree_ok n l t" by (auto simp: tree_ok_Suc)
  let ?x = "tnode_slot (Suc l) cid"
  have x: "?x < length xs" unfolding xs(2) by (rule tnode_slot_less)
  show ?case
  proof (cases "xs ! ?x")
    case None then show ?thesis using x xs(1) by (cases l) simp_all
  next
    case (Some t)
    then have "Some t \<in> set xs" using x by (metis nth_mem)
    then show ?thesis using Suc.IH [OF xs(3)] x xs(1) Some by simp
  qed
qed simp


section \<open>Growing the tree\<close>

lemma tnode_slot_nth:
  "length xs = YAFFS_NTNODES_INTERNAL \<Longrightarrow> tnode_slot l cid < length xs"
  by (simp add: tnode_slot_less)

text \<open>One level more, with the old top in the first slot.\<close>

lemma taller_base:
  assumes "top fs = Some tn"
  defines "fs' \<equiv> fs\<lparr>top := Some (Tnode ((replicate YAFFS_NTNODES_INTERNAL None)[0 := Some tn])), top_level := top_level fs + 1\<rparr>"
  assumes "top_level fs' \<le> YAFFS_TNODES_MAX_LEVEL"
  shows "chunk_base dev fs' cid = chunk_base dev fs cid"
proof (cases "required_depth (cid div 16) \<le> top_level fs + 1 \<and> cid \<le> YAFFS_MAX_CHUNK_ID")
  case False
  then show ?thesis using assms
    by (auto simp: chunk_base_def yaffs_find_tnode_0_def tnode_base_def tnode_consts)
next
  case True
  let ?x = "tnode_slot (Suc (top_level fs)) cid"
  have x: "?x < YAFFS_NTNODES_INTERNAL" by (rule tnode_slot_less)
  have s0: "?x = 0 \<longleftrightarrow> required_depth (cid div 16) \<le> top_level fs" using True by (intro slot_0_iff) simp
  have t: "top_level fs \<le> YAFFS_TNODES_MAX_LEVEL" "Suc (top_level fs) \<le> YAFFS_TNODES_MAX_LEVEL"
    using assms(3) by (simp_all add: fs'_def)
  show ?thesis
  proof (cases "?x = 0")
    case True': True
    then show ?thesis using True s0 t assms(1) x
      by (simp add: chunk_base_def yaffs_find_tnode_0_def fs'_def tnode_consts)
  next
    case False': False
    then have "find_down (Suc (top_level fs)) (top fs') cid = Some None"
      using x by (cases "top_level fs") (simp_all add: fs'_def nth_list_update)
    then show ?thesis using True s0 t False'
      by (simp add: chunk_base_def yaffs_find_tnode_0_def fs'_def tnode_base_def tnode_consts)
  qed
qed

lemma fresh_slots:
  "(replicate YAFFS_NTNODES_INTERNAL None)[0 := x] = [x, None, None, None, None, None, None, None]"
proof -
  have n8: "YAFFS_NTNODES_INTERNAL = Suc (Suc (Suc (Suc (Suc (Suc (Suc (Suc 0)))))))" by (simp add: tnode_consts)
  show ?thesis unfolding n8 by simp
qed

lemma taller_ok:
  assumes "file_tree_ok dev fs" and "top_level fs < YAFFS_TNODES_MAX_LEVEL"
  shows "file_tree_ok dev (fs\<lparr>top := Some (Tnode ((replicate YAFFS_NTNODES_INTERNAL None)[0 := top fs])), top_level := top_level fs + 1\<rparr>)"
  using assms unfolding fresh_slots by (auto simp: file_tree_ok_def tnode_consts)

lemma taller_count:
  "file_tnodes (fs\<lparr>top := Some (Tnode ((replicate YAFFS_NTNODES_INTERNAL None)[0 := top fs])), top_level := l\<rparr>) =
     file_tnodes fs + 1"
  unfolding fresh_slots by (simp add: file_tnodes_def)

lemma tree_taller_ok:
  assumes "tree_taller n dev fs = (ok, dev', fs')" and "file_tree_ok dev fs"
    and "top_level fs + n \<le> YAFFS_TNODES_MAX_LEVEL"
  shows "file_tree_ok dev' fs' \<and> tnodes_moved (int (file_tnodes fs') - int (file_tnodes fs)) dev dev' \<and>
     (\<forall>cid. chunk_base dev fs' cid = chunk_base dev fs cid) \<and> (ok \<longrightarrow> top_level fs' = top_level fs + n)"
  using assms
proof (induction n arbitrary: dev fs)
  case (Suc n)
  obtain r dev1 where g: "yaffs_get_tnode dev (top_level fs + 1) = (r, dev1)" by fastforce
  note m = get_tnode_moved [OF g]
  show ?case
  proof (cases r)
    case None
    then have "\<not> ok" "dev' = dev1" "fs' = fs" using Suc.prems(1) g by simp_all
    then show ?thesis using m None Suc.prems(2) by (simp add: file_tree_ok_geom)
  next
    case (Some t)
    let ?xs = "(replicate YAFFS_NTNODES_INTERNAL None)[0 := top fs]"
    let ?fs = "fs\<lparr>top := Some (Tnode ?xs), top_level := top_level fs + 1\<rparr>"
    have t: "t = Tnode (replicate YAFFS_NTNODES_INTERNAL None)" using m Some by (simp add: new_tnode_def)
    have e: "tree_taller n dev1 ?fs = (ok, dev', fs')" using Suc.prems(1) g Some t by simp
    have m1: "tnodes_moved 1 dev dev1" using m Some by simp
    have ok1: "file_tree_ok dev1 ?fs" using taller_ok [of dev fs] Suc.prems(2,3) by (simp add: file_tree_ok_geom [OF m1])
    have ih: "file_tree_ok dev' fs'" "tnodes_moved (int (file_tnodes fs') - int (file_tnodes ?fs)) dev1 dev'"
      "\<And>cid. chunk_base dev1 fs' cid = chunk_base dev1 ?fs cid" "ok \<longrightarrow> top_level fs' = top_level ?fs + n"
      using Suc.IH [OF e ok1] Suc.prems(3) by simp_all
    obtain tn where tn: "top fs = Some tn" using Suc.prems(2) by (auto simp: file_tree_ok_def)
    have b: "chunk_base dev ?fs cid = chunk_base dev fs cid" for cid
      using taller_base [OF tn, of dev cid] Suc.prems(3) tn by simp
    have "tnodes_moved (1 + (int (file_tnodes fs') - int (file_tnodes ?fs))) dev dev'"
      by (rule tnodes_moved_trans [OF m1 ih(2)])
    then show ?thesis using ih b unfolding chunk_base_geom [OF m1] taller_count by simp
  qed
qed simp


text \<open>
  Adding below a tnode: the paths of all other chunks are as before, up to new tnodes that
  hold only zeros.
\<close>

definition down_base :: "'n yaffs_dev \<Rightarrow> nat \<Rightarrow> yaffs_tnode option \<Rightarrow> nat \<Rightarrow> u32" where
  "down_base dev l t cid = (case find_down l t cid of Some r \<Rightarrow> tnode_base dev cid r | None \<Rightarrow> 0)"

lemma down_base_new: "tnode_geom dev \<Longrightarrow> down_base dev l (Some (new_tnode dev l)) cid = 0"
  using find_down_new [of dev l cid] by (auto simp: down_base_def)

lemma down_base_None [simp]: "down_base dev l None cid = 0"
  by (cases l) (simp_all add: down_base_def tnode_base_def)

lemma down_base_Suc:
  "length xs = YAFFS_NTNODES_INTERNAL \<Longrightarrow>
    down_base dev (Suc l) (Some (Tnode xs)) cid = down_base dev l (xs ! tnode_slot (Suc l) cid) cid"
  by (simp add: down_base_def tnode_slot_less)

lemma down_base_geom: "tnodes_moved k dev dev' \<Longrightarrow> down_base dev' l t cid = down_base dev l t cid"
  by (simp add: down_base_def tnode_base_geom split: option.split)

lemma count_update:
  assumes "x < length xs"
  shows "int (tnode_count (Tnode (xs[x := y]))) = int (tnode_count (Tnode xs)) +
    int (case y of None \<Rightarrow> 0 | Some t \<Rightarrow> tnode_count t) - int (case xs ! x of None \<Rightarrow> 0 | Some t \<Rightarrow> tnode_count t)"
proof -
  define f where "f = (\<lambda>x. case x of None \<Rightarrow> 0 | Some t \<Rightarrow> tnode_count t)"
  have "f (xs ! x) \<le> sum_list (map f xs)" using assms by (intro member_le_sum_list) simp_all
  then have "sum_list (map f (xs[x := y])) + f (xs ! x) = sum_list (map f xs) + f y"
    using assms by (simp add: map_update sum_list_update)
  then show ?thesis by (simp add: f_def)
qed

lemma tree_ok_update:
  assumes "tree_ok n (Suc l) (Tnode xs)" and "tree_ok n l c"
  shows "tree_ok n (Suc l) (Tnode (xs[x := Some c]))"
  using assms set_update_subset_insert [of xs x "Some c"] by auto

lemma spine_update:
  assumes "spine (Suc l) (Tnode xs)" and "x = 0 \<Longrightarrow> spine l c"
  shows "spine (Suc l) (Tnode (xs[x := Some c]))"
  using assms by (cases xs; cases x) (auto split: option.splits)


lemma add_down_ok:
  assumes "tree_ok (tnode_words dev) l tn" and "tnode_geom dev"
  shows "\<exists>r tn' dev'. add_down dev l tn cid None = Some (r, tn', dev') \<and>
     tree_ok (tnode_words dev) l tn' \<and> (spine l tn \<longrightarrow> spine l tn') \<and>
     tnodes_moved (int (tnode_count tn') - int (tnode_count tn)) dev dev' \<and>
     (\<forall>c. down_base dev l (Some tn') c = down_base dev l (Some tn) c) \<and>
     (r \<noteq> None \<longrightarrow> find_down l (Some tn') cid = Some r)"
  using assms
proof (induction l arbitrary: dev tn)
  case 0
  then show ?case by simp
next
  case (Suc l)
  then obtain xs where xs: "tn = Tnode xs" "length xs = YAFFS_NTNODES_INTERNAL"
    "\<And>t. Some t \<in> set xs \<Longrightarrow> tree_ok (tnode_words dev) l t" by (auto simp: tree_ok_Suc)
  define x where "x = tnode_slot (Suc l) cid"
  have x: "x < length xs" unfolding x_def by (rule tnode_slot_nth [OF xs(2)])
  define p where "p = (if xs ! x = None then yaffs_get_tnode dev l else (xs ! x, dev))"
  obtain child dev1 where c: "p = (child, dev1)" by fastforce
  have e: "add_down dev (Suc l) tn cid None =
      (case child of None \<Rightarrow> Some (None, Tnode xs, dev1)
       | Some c \<Rightarrow> do { (r, c, dev) \<leftarrow> add_down dev1 l c cid None; Some (r, Tnode (xs[x := Some c]), dev) })"
    using x c by (cases "xs ! x"; cases "l = 0") (auto simp: xs(1) x_def p_def Let_def split: option.splits)
  show ?case
  proof (cases child)
    case None
    then have "xs ! x = None" "yaffs_get_tnode dev l = (None, dev1)" using c by (auto simp: p_def split: if_splits)
    then have "tnodes_moved 0 dev dev1" using get_tnode_moved(1) by fastforce
    then show ?thesis using e None Suc.prems xs(1) by simp
  next
    case (Some t)
    have "tree_ok (tnode_words dev) l t \<and> (\<forall>c. down_base dev l (Some t) c = down_base dev l (xs ! x) c) \<and>
          tnodes_moved (1 - int (case xs ! x of None \<Rightarrow> 0 | Some t \<Rightarrow> 1)) dev dev1 \<and>
          int (tnode_count t) - int (case xs ! x of None \<Rightarrow> 0 | Some t \<Rightarrow> tnode_count t) =
            1 - int (case xs ! x of None \<Rightarrow> 0 | Some t \<Rightarrow> 1) \<and> (xs ! x = None \<or> xs ! x = Some t)" (is ?P)
    proof (cases "xs ! x")
      case None
      then have g: "yaffs_get_tnode dev l = (Some t, dev1)" using c Some by (simp add: p_def)
      have "t = new_tnode dev l" using get_tnode_moved(2) [OF g] by simp
      then show ?P
        using None get_tnode_moved(1) [OF g] Suc.prems(2)
        by (simp add: new_tnode_ok new_tnode_count down_base_new)
    next
      case (Some t')
      then have "t' = t" "dev1 = dev" using c \<open>child = Some t\<close> by (simp_all add: p_def)
      moreover have "Some t' \<in> set xs" using Some x by (metis nth_mem)
      ultimately show ?P
        using Some xs(3) by simp
    qed
    then have t: "tree_ok (tnode_words dev) l t" "\<And>c. down_base dev l (Some t) c = down_base dev l (xs ! x) c"
      "tnodes_moved (1 - int (case xs ! x of None \<Rightarrow> 0 | Some t \<Rightarrow> 1)) dev dev1"
      "int (tnode_count t) - int (case xs ! x of None \<Rightarrow> 0 | Some t \<Rightarrow> tnode_count t) =
        1 - int (case xs ! x of None \<Rightarrow> 0 | Some t \<Rightarrow> 1)"
      "xs ! x = None \<or> xs ! x = Some t" by blast+
    have g1: "tnode_geom dev1" "tree_ok (tnode_words dev1) l t"
      using Suc.prems(2) t(1) by (simp_all add: tnode_geom_geom [OF t(3)] words_geom [OF t(3)])
    then obtain r t' dev2 where d: "add_down dev1 l t cid None = Some (r, t', dev2)"
      "tree_ok (tnode_words dev1) l t'" "spine l t \<longrightarrow> spine l t'"
      "tnodes_moved (int (tnode_count t') - int (tnode_count t)) dev1 dev2"
      "\<And>c. down_base dev1 l (Some t') c = down_base dev1 l (Some t) c"
      "r \<noteq> None \<longrightarrow> find_down l (Some t') cid = Some r"
      using Suc.IH [OF g1(2,1)] by (elim exE conjE) blast
    let ?tn = "Tnode (xs[x := Some t'])"
    have "tree_ok (tnode_words dev) (Suc l) ?tn"
      by (rule tree_ok_update [OF Suc.prems(1) [unfolded xs(1)] d(2) [unfolded words_geom [OF t(3)]]])
    moreover have "spine (Suc l) tn \<longrightarrow> spine (Suc l) ?tn"
    proof
      assume s: "spine (Suc l) tn"
      have "spine l t" if "x = 0" using s that t(5) by (cases xs) (auto simp: xs(1) split: option.splits)
      then show "spine (Suc l) ?tn" by (intro spine_update [OF s [unfolded xs(1)]]) (simp add: d(3))
    qed
    moreover have "tnodes_moved (int (tnode_count ?tn) - int (tnode_count tn)) dev dev2"
    proof -
      have eq: "int (tnode_count ?tn) - int (tnode_count tn) =
        1 - int (case xs ! x of None \<Rightarrow> 0 | Some t \<Rightarrow> 1) + (int (tnode_count t') - int (tnode_count t))"
        using count_update [OF x, of "Some t'"] t(4) unfolding xs(1) by simp
      show ?thesis unfolding eq by (rule tnodes_moved_trans [OF t(3) d(4)])
    qed
    moreover have "down_base dev (Suc l) (Some ?tn) c = down_base dev (Suc l) (Some tn) c" for c
    proof (cases "tnode_slot (Suc l) c = x")
      case True
      then show ?thesis using x d(5) [of c] t(2) [of c] xs(2) unfolding down_base_geom [OF t(3)]
        by (simp add: down_base_Suc xs(1))
    next
      case False
      then show ?thesis using x xs(2) by (simp add: down_base_Suc xs(1) nth_list_update)
    qed
    moreover have "r \<noteq> None \<longrightarrow> find_down (Suc l) (Some ?tn) cid = Some r"
      using d(6) x by (simp add: x_def Let_def)
    ultimately show ?thesis using e Some d(1) by simp
  qed
qed


lemma find_tnode_0_down:
  assumes "cid \<le> YAFFS_MAX_CHUNK_ID" and "required_depth (cid div 16) \<le> top_level fs"
    and "top_level fs \<le> YAFFS_TNODES_MAX_LEVEL"
  shows "yaffs_find_tnode_0 fs cid = find_down (top_level fs) (top fs) cid"
  using assms by (simp add: yaffs_find_tnode_0_def tnode_consts)

lemma chunk_base_down:
  assumes "top_level fs \<le> YAFFS_TNODES_MAX_LEVEL"
  shows "chunk_base dev fs cid =
    (if cid \<le> YAFFS_MAX_CHUNK_ID \<and> required_depth (cid div 16) \<le> top_level fs
     then down_base dev (top_level fs) (top fs) cid else 0)"
  using assms by (simp add: chunk_base_def yaffs_find_tnode_0_def down_base_def tnode_base_def tnode_consts)

lemma add_find_tnode_0_ok:
  assumes ok: "file_tree_ok dev fs" and g: "tnode_geom dev"
  shows "\<exists>r fs' dev'. yaffs_add_find_tnode_0 dev fs cid None = Some (r, fs', dev') \<and> file_tree_ok dev' fs' \<and>
     tnodes_moved (int (file_tnodes fs') - int (file_tnodes fs)) dev dev' \<and>
     (\<forall>c. chunk_base dev' fs' c = chunk_base dev fs c) \<and>
     (r \<noteq> None \<longrightarrow> yaffs_find_tnode_0 fs' cid = Some r \<and> cid \<le> YAFFS_MAX_CHUNK_ID)"
proof (cases "cid > YAFFS_MAX_CHUNK_ID")
  case True
  then show ?thesis using ok by (auto simp: yaffs_add_find_tnode_0_def file_tree_ok_def)
next
  case False
  let ?d = "required_depth (cid div 16)"
  have lev: "top_level fs \<le> YAFFS_TNODES_MAX_LEVEL" using ok by (simp add: file_tree_ok_def)
  have d: "?d \<le> YAFFS_TNODES_MAX_LEVEL" using False by (intro max_chunk_depth) simp
  obtain t dev1 fs1 where t: "tree_taller (?d - top_level fs) dev fs = (t, dev1, fs1)" by (metis prod_cases3)
  have "top_level fs + (?d - top_level fs) \<le> YAFFS_TNODES_MAX_LEVEL" using d lev by simp
  from tree_taller_ok [OF t ok this]
  have t1: "file_tree_ok dev1 fs1" "tnodes_moved (int (file_tnodes fs1) - int (file_tnodes fs)) dev dev1"
    "\<And>c. chunk_base dev fs1 c = chunk_base dev fs c" "t \<longrightarrow> top_level fs1 = top_level fs + (?d - top_level fs)"
    by blast+
  have eq: "yaffs_add_find_tnode_0 dev fs cid None =
      (if \<not> t then Some (None, fs1, dev1)
       else if top_level fs1 > 0 then
         case top fs1 of None \<Rightarrow> Some (None, fs1, dev1)
         | Some tn \<Rightarrow> do { (r, tn, dev) \<leftarrow> add_down dev1 (top_level fs1) tn cid None; Some (r, fs1\<lparr>top := Some tn\<rparr>, dev) }
       else Some (top fs1, fs1, dev1))"
    using t False lev by (simp add: yaffs_add_find_tnode_0_def tnode_consts)
  obtain tn where tn: "top fs1 = Some tn" "tree_ok (tnode_words dev1) (top_level fs1) tn" "spine (top_level fs1) tn"
    and lev1: "top_level fs1 \<le> YAFFS_TNODES_MAX_LEVEL"
    using t1(1) by (auto simp: file_tree_ok_def)
  note b1 = chunk_base_geom [OF t1(2)] t1(3)
  consider "\<not> t" | "t" "top_level fs1 = 0" | "t" "top_level fs1 > 0" by blast
  then show ?thesis
  proof cases
    case 1
    then show ?thesis using eq t1 b1 by simp
  next
    case 2
    then have "?d \<le> top_level fs1" using t1(4) by simp
    then show ?thesis using eq t1 b1 2 False lev1 find_tnode_0_down [of cid fs1] tn(1) by (auto simp: not_less)
  next
    case 3
    have g1: "tnode_geom dev1" using g by (simp add: tnode_geom_geom [OF t1(2)])
    obtain r tn' dev2 where a: "add_down dev1 (top_level fs1) tn cid None = Some (r, tn', dev2)"
      "tree_ok (tnode_words dev1) (top_level fs1) tn'" "spine (top_level fs1) tn \<longrightarrow> spine (top_level fs1) tn'"
      "tnodes_moved (int (tnode_count tn') - int (tnode_count tn)) dev1 dev2"
      "\<And>c. down_base dev1 (top_level fs1) (Some tn') c = down_base dev1 (top_level fs1) (Some tn) c"
      "r \<noteq> None \<longrightarrow> find_down (top_level fs1) (Some tn') cid = Some r"
      using add_down_ok [OF tn(2) g1, of cid] by (elim exE conjE) blast
    let ?fs = "fs1\<lparr>top := Some tn'\<rparr>"
    have "yaffs_add_find_tnode_0 dev fs cid None = Some (r, ?fs, dev2)"
      using eq 3 tn(1) a(1) by simp
    moreover have "file_tree_ok dev2 ?fs"
      using a(2,3) tn lev1 by (simp add: file_tree_ok_def words_geom [OF a(4)])
    moreover have "tnodes_moved (int (file_tnodes ?fs) - int (file_tnodes fs)) dev dev2"
    proof -
      have e: "int (file_tnodes ?fs) - int (file_tnodes fs) =
          int (file_tnodes fs1) - int (file_tnodes fs) + (int (tnode_count tn') - int (tnode_count tn))"
        by (simp add: file_tnodes_def tn(1))
      show ?thesis unfolding e by (rule tnodes_moved_trans [OF t1(2) a(4)])
    qed
    moreover have "chunk_base dev2 ?fs c = chunk_base dev fs c" for c
    proof -
      have "chunk_base dev2 ?fs c = chunk_base dev1 fs1 c"
        using a(5) [of c] lev1 unfolding chunk_base_geom [OF a(4)] by (simp add: chunk_base_down tn(1))
      then show ?thesis using b1 by simp
    qed
    moreover have "r \<noteq> None \<longrightarrow> yaffs_find_tnode_0 ?fs cid = Some r \<and> cid \<le> YAFFS_MAX_CHUNK_ID"
      using a(6) find_tnode_0_down [of cid ?fs] False lev1 3 t1(4) by simp
    ultimately show ?thesis by blast
  qed
qed

section \<open>Changing an entry\<close>

lemma slot_path:
  "cid div 16 mod 8 ^ Suc l = c div 16 mod 8 ^ Suc l \<longleftrightarrow>
     tnode_slot (Suc l) cid = tnode_slot (Suc l) c \<and> cid div 16 mod 8 ^ l = c div 16 mod 8 ^ l"
proof -
  define a b where "a = cid div 16" and "b = c div 16"
  have m: "k mod 8 ^ Suc l = 8 ^ l * (k div 8 ^ l mod 8) + k mod 8 ^ l" for k :: nat
    by (metis mod_mult2_eq mult.commute power_Suc)
  have "a mod 8 ^ Suc l = b mod 8 ^ Suc l \<longleftrightarrow> a div 8 ^ l mod 8 = b div 8 ^ l mod 8 \<and> a mod 8 ^ l = b mod 8 ^ l"
  proof
    assume e: "a mod 8 ^ Suc l = b mod 8 ^ Suc l"
    have d: "(8::nat) ^ l dvd 8 ^ Suc l" by simp
    have lo: "a mod 8 ^ l = b mod 8 ^ l" using e mod_mod_cancel [OF d] by metis
    then have "8 ^ l * (a div 8 ^ l mod 8) = 8 ^ l * (b div 8 ^ l mod 8)" using e unfolding m by linarith
    then show "a div 8 ^ l mod 8 = b div 8 ^ l mod 8 \<and> a mod 8 ^ l = b mod 8 ^ l" using lo by simp
  qed (simp only: m)
  then show ?thesis by (simp add: tnode_slot_eq a_def b_def)
qed

lemma put_down_ok:
  assumes "tree_ok n l tn" and "find_down l (Some tn) cid = Some (Some t)" and "tree_ok n 0 t0"
  shows "tree_ok n l (put_down l tn cid t0) \<and> (spine l tn \<longrightarrow> spine l (put_down l tn cid t0)) \<and>
     tnode_count (put_down l tn cid t0) = tnode_count tn \<and>
     (\<forall>c. find_down l (Some (put_down l tn cid t0)) c =
        (if cid div 16 mod 8 ^ l = c div 16 mod 8 ^ l then Some (Some t0) else find_down l (Some tn) c))"
  using assms
proof (induction l arbitrary: tn)
  case 0
  then show ?case by (auto simp: tree_ok_0)
next
  case (Suc l)
  then obtain xs where xs: "tn = Tnode xs" "length xs = YAFFS_NTNODES_INTERNAL"
    "\<And>t. Some t \<in> set xs \<Longrightarrow> tree_ok n l t" by (auto simp: tree_ok_Suc)
  define x where "x = tnode_slot (Suc l) cid"
  have x: "x < length xs" unfolding x_def by (rule tnode_slot_nth [OF xs(2)])
  have "find_down l (xs ! x) cid = Some (Some t)" using Suc.prems(2) x by (simp add: xs(1) x_def)
  then obtain u where u: "xs ! x = Some u" "find_down l (Some u) cid = Some (Some t)" by (cases "xs ! x"; cases l) auto
  have "Some u \<in> set xs" using u(1) x by (metis nth_mem)
  define u' where "u' = put_down l u cid t0"
  have ih: "tree_ok n l u'" "spine l u \<longrightarrow> spine l u'" "tnode_count u' = tnode_count u"
    "\<And>c. find_down l (Some u') c =
        (if cid div 16 mod 8 ^ l = c div 16 mod 8 ^ l then Some (Some t0) else find_down l (Some u) c)"
    unfolding u'_def using Suc.IH [OF xs(3) [OF \<open>Some u \<in> set xs\<close>] u(2) Suc.prems(3)] by blast+
  have p: "put_down (Suc l) tn cid t0 = Tnode (xs[x := Some u'])"
    using u(1) by (simp add: xs(1) x_def u'_def Let_def)
  have "tree_ok n (Suc l) (Tnode (xs[x := Some u']))"
    by (rule tree_ok_update [OF Suc.prems(1) [unfolded xs(1)] ih(1)])
  moreover have "spine (Suc l) tn \<longrightarrow> spine (Suc l) (Tnode (xs[x := Some u']))"
  proof
    assume s: "spine (Suc l) tn"
    have "spine l u" if "x = 0" using s that u(1) by (cases xs) (auto simp: xs(1) split: option.splits)
    then show "spine (Suc l) (Tnode (xs[x := Some u']))" using ih(2) by (intro spine_update [OF s [unfolded xs(1)]]) simp
  qed
  moreover have "tnode_count (Tnode (xs[x := Some u'])) = tnode_count tn"
    using count_update [OF x, of "Some u'"] u(1) ih(3) unfolding xs(1) by simp
  moreover have "find_down (Suc l) (Some (Tnode (xs[x := Some u']))) c =
      (if cid div 16 mod 8 ^ Suc l = c div 16 mod 8 ^ Suc l then Some (Some t0) else find_down (Suc l) (Some tn) c)" for c
    using ih(4) [of c] tnode_slot_nth [OF xs(2), of "Suc l" c] x u(1) unfolding slot_path x_def [symmetric]
    by (cases "tnode_slot (Suc l) c = x") (auto simp: xs(1) Let_def)
  ultimately show ?case unfolding p by blast
qed

end
