(* ===== verification/Yaffs_Tnode_Map.thy ===== *)
theory Yaffs_Tnode_Map
  imports Yaffs_Tnode_Tree
begin

text \<open>
  The change of one entry of the tree of a file, and the pruning of its empty tnodes,
  seen through the map of the file.
\<close>

section \<open>One entry\<close>

lemma put_tnode_0_ok:
  assumes ok: "file_tree_ok dev fs" and f: "yaffs_find_tnode_0 fs cid = Some (Some t)"
    and t0: "tree_ok (tnode_words dev) 0 t0"
  shows "file_tree_ok dev (put_tnode_0 fs cid t0)" "file_tnodes (put_tnode_0 fs cid t0) = file_tnodes fs"
    "chunk_base dev (put_tnode_0 fs cid t0) c =
      (if c div 16 = cid div 16 then tnode_base dev c (Some t0) else chunk_base dev fs c)"
proof -
  obtain tn where tn: "top fs = Some tn" "tree_ok (tnode_words dev) (top_level fs) tn" "spine (top_level fs) tn"
    and lev: "top_level fs \<le> YAFFS_TNODES_MAX_LEVEL" using ok by (auto simp: file_tree_ok_def)
  have cid: "cid \<le> YAFFS_MAX_CHUNK_ID" "required_depth (cid div 16) \<le> top_level fs"
    using f by (auto simp: yaffs_find_tnode_0_def tnode_consts split: if_splits)
  have "find_down (top_level fs) (Some tn) cid = Some (Some t)"
    using f find_tnode_0_down [OF cid lev] by (simp add: tn(1))
  from put_down_ok [OF tn(2) this t0]
  have p: "tree_ok (tnode_words dev) (top_level fs) (put_down (top_level fs) tn cid t0)"
    "spine (top_level fs) tn \<longrightarrow> spine (top_level fs) (put_down (top_level fs) tn cid t0)"
    "tnode_count (put_down (top_level fs) tn cid t0) = tnode_count tn"
    "find_down (top_level fs) (Some (put_down (top_level fs) tn cid t0)) c =
        (if cid div 16 mod 8 ^ top_level fs = c div 16 mod 8 ^ top_level fs then Some (Some t0)
         else find_down (top_level fs) (Some tn) c)" by blast+
  show "file_tree_ok dev (put_tnode_0 fs cid t0)" "file_tnodes (put_tnode_0 fs cid t0) = file_tnodes fs"
    using p tn lev by (simp_all add: file_tree_ok_def put_tnode_0_def file_tnodes_def)
  let ?in = "\<lambda>c. c \<le> YAFFS_MAX_CHUNK_ID \<and> required_depth (c div 16) \<le> top_level fs"
  have same: "?in c" if "c div 16 = cid div 16"
  proof -
    have "cid div 16 \<le> YAFFS_MAX_CHUNK_ID div 16" using cid(1) by (rule div_le_mono)
    then show ?thesis using that cid(2) by (simp add: tnode_consts)
  qed
  have "cid div 16 mod 8 ^ top_level fs = c div 16 mod 8 ^ top_level fs \<longleftrightarrow> c div 16 = cid div 16" if "?in c"
    using that cid(2) by (auto simp: required_depth_le)
  then show "chunk_base dev (put_tnode_0 fs cid t0) c =
      (if c div 16 = cid div 16 then tnode_base dev c (Some t0) else chunk_base dev fs c)"
    using lev same p(4) by (auto simp: chunk_base_down put_tnode_0_def tn(1) down_base_def)
qed

lemma find_down_group: "c div 16 = d div 16 \<Longrightarrow> find_down l t c = find_down l t d"
  by (induction l t c rule: find_down.induct) (simp_all add: tnode_slot_eq Let_def)

lemma find_tnode_0_group:
  assumes "c div 16 = cid div 16"
  shows "yaffs_find_tnode_0 fs c = yaffs_find_tnode_0 fs cid"
proof -
  have "c > YAFFS_MAX_CHUNK_ID \<longleftrightarrow> c div 16 > YAFFS_MAX_CHUNK_ID div 16" for c :: nat
    by (simp add: tnode_consts) linarith
  then show ?thesis using find_down_group [OF assms, of "top_level fs" "top fs"] assms
    by (simp add: yaffs_find_tnode_0_def tnode_consts)
qed

lemma find_tnode_0_ok:
  assumes "file_tree_ok dev fs"
  shows "\<exists>r. yaffs_find_tnode_0 fs cid = Some r \<and> (\<forall>t. r = Some t \<longrightarrow> (\<exists>mp. t = Tnode0 mp \<and> map_wf dev mp))"
proof -
  obtain tn where tn: "top fs = Some tn" "tree_ok (tnode_words dev) (top_level fs) tn"
    using assms by (auto simp: file_tree_ok_def)
  then show ?thesis using find_down_ok [OF tn(2), of cid]
    by (auto simp: yaffs_find_tnode_0_def tree_ok_0 map_wf_words)
qed

text \<open>Loading a number into the entry of a chunk whose tnode is there.\<close>

lemma load_chunk_base:
  assumes ok: "file_tree_ok dev fs" and g: "tnode_geom dev"
    and f: "yaffs_find_tnode_0 fs cid = Some (Some (Tnode0 mp))"
  shows "\<exists>mp'. yaffs_load_tnode_0 dev mp cid val = Some mp' \<and>
     file_tree_ok dev (put_tnode_0 fs cid (Tnode0 mp')) \<and>
     file_tnodes (put_tnode_0 fs cid (Tnode0 mp')) = file_tnodes fs \<and>
     (\<forall>c. chunk_base dev (put_tnode_0 fs cid (Tnode0 mp')) c = (if c = cid then group_of dev val else chunk_base dev fs c))"
proof -
  have wf: "map_wf dev mp" using find_tnode_0_ok [OF ok, of cid] f by auto
  obtain mp' where mp': "yaffs_load_tnode_0 dev mp cid val = Some mp'" "map_wf dev mp'"
    "\<And>pos. entry dev mp' pos = (if pos mod 16 = cid mod 16 then group_of dev val else entry dev mp pos)"
    using load_entry [OF g wf, of cid val] by (auto simp: tnode_consts)
  have t0: "tree_ok (tnode_words dev) 0 (Tnode0 mp')" using mp'(2) by (simp add: map_wf_words)
  note p = put_tnode_0_ok [OF ok f t0]
  have "chunk_base dev (put_tnode_0 fs cid (Tnode0 mp')) c =
      (if c = cid then group_of dev val else chunk_base dev fs c)" for c
  proof (cases "c div 16 = cid div 16")
    case False
    then show ?thesis using p(3) [of c] by auto
  next
    case True
    have k: "c mod 16 = cid mod 16 \<longleftrightarrow> c = cid" using True by (metis div_mult_mod_eq)
    have "tnode_base dev c (Some (Tnode0 mp)) = chunk_base dev fs c"
      using find_tnode_0_group [OF True, of fs] f by (simp add: chunk_base_def)
    then show ?thesis using p(3) [of c] True k by (simp add: tnode_base_def mp'(3))
  qed
  then show ?thesis using mp'(1) p(1,2) by blast
qed


section \<open>Pruning\<close>

lemma entry_all_zero:
  assumes "tnode_geom dev" and "map_wf dev mp" and "list_all (\<lambda>w. w = 0) mp"
  shows "entry dev mp pos = 0"
proof -
  have "mp = replicate (tnode_words dev) 0"
    using assms(2,3) by (auto simp: map_wf_words list_all_iff intro!: nth_equalityI)
  then show ?thesis using entry_zero [OF assms(1)] by simp
qed

text \<open>What the worker does to a slot, seen from the slot: \<open>x\<close> becomes \<open>y\<close> between two devices.\<close>

definition slot_pruned :: "nat \<Rightarrow> 'n yaffs_dev \<Rightarrow> yaffs_tnode option \<Rightarrow> yaffs_tnode option \<Rightarrow> bool" where
  "slot_pruned l dev x y \<longleftrightarrow> (\<forall>t. y = Some t \<longrightarrow> tree_ok (tnode_words dev) l t) \<and>
     (\<forall>c. down_base dev l y c = down_base dev l x c) \<and> (x = None \<longrightarrow> y = None)"

definition slot_count :: "yaffs_tnode option \<Rightarrow> nat" where
  "slot_count x = (case x of None \<Rightarrow> 0 | Some t \<Rightarrow> tnode_count t)"

definition slots_count :: "yaffs_tnode option list \<Rightarrow> nat" where
  "slots_count xs = sum_list (map slot_count xs)"

lemma slots_count_simps [simp]: "slots_count [] = 0" "slots_count (x # xs) = slot_count x + slots_count xs"
  by (simp_all add: slots_count_def)

lemma tnode_count_slots: "tnode_count (Tnode xs) = Suc (slots_count xs)"
  by (simp add: slots_count_def slot_count_def [abs_def])

declare tnode_count.simps(2) [simp del]

lemma slot_count_simps [simp]: "slot_count None = 0" "slot_count (Some t) = tnode_count t"
  by (simp_all add: slot_count_def)

lemma tnodes_moved_sum: "tnodes_moved a dev dev1 \<Longrightarrow> tnodes_moved b dev1 dev2 \<Longrightarrow> a + b = c \<Longrightarrow> tnodes_moved c dev dev2"
  using tnodes_moved_trans by blast

lemma slot_pruned_geom: "tnodes_moved k dev dev' \<Longrightarrow> slot_pruned l dev' x y = slot_pruned l dev x y"
  by (simp add: slot_pruned_def words_geom down_base_geom)

lemma down_base_all_None:
  assumes "length xs = YAFFS_NTNODES_INTERNAL" and "list_all (\<lambda>x. x = None) xs"
  shows "down_base dev (Suc l) (Some (Tnode xs)) c = 0"
proof -
  have "xs ! tnode_slot (Suc l) c = None"
    using assms tnode_slot_nth [OF assms(1)] by (auto simp: list_all_iff)
  then show ?thesis by (simp add: down_base_Suc [OF assms(1)])
qed

lemma slots_pruned:
  assumes "tree_ok (tnode_words dev) (Suc l) (Tnode xs)" and "list_all2 (slot_pruned l dev) xs ys"
  shows "tree_ok (tnode_words dev) (Suc l) (Tnode ys)"
    "down_base dev (Suc l) (Some (Tnode ys)) c = down_base dev (Suc l) (Some (Tnode xs)) c"
proof -
  have len: "length xs = YAFFS_NTNODES_INTERNAL" "length ys = YAFFS_NTNODES_INTERNAL"
    using assms by (auto dest: list_all2_lengthD)
  have nth: "slot_pruned l dev (xs ! i) (ys ! i)" if "i < length ys" for i
    using assms(2) that by (auto simp: list_all2_conv_all_nth)
  show "tree_ok (tnode_words dev) (Suc l) (Tnode ys)"
    using nth len by (auto simp: in_set_conv_nth slot_pruned_def)
  have "tnode_slot (Suc l) c < length ys" by (rule tnode_slot_nth [OF len(2)])
  then show "down_base dev (Suc l) (Some (Tnode ys)) c = down_base dev (Suc l) (Some (Tnode xs)) c"
    using nth by (simp add: down_base_Suc len slot_pruned_def)
qed

lemma prune_ok:
  "tree_ok (tnode_words dev) l tn \<Longrightarrow> tnode_geom dev \<Longrightarrow>
     \<exists>r dev'. yaffs_prune_worker l dev tn del0 = Some (r, dev') \<and>
       tnodes_moved (int (slot_count r) - int (tnode_count tn)) dev dev' \<and> slot_pruned l dev (Some tn) r \<and>
       (\<not> del0 \<and> spine l tn \<longrightarrow> (\<exists>t. r = Some t \<and> spine l t))"
  "(\<And>t. Some t \<in> set xs \<Longrightarrow> tree_ok (tnode_words dev) l t) \<Longrightarrow> tnode_geom dev \<Longrightarrow>
     \<exists>ys dev'. prune_slots l dev xs del0 = Some (ys, dev') \<and>
       tnodes_moved (int (slots_count ys) - int (slots_count xs)) dev dev' \<and> list_all2 (slot_pruned l dev) xs ys \<and>
       (\<not> del0 \<and> xs \<noteq> [] \<and> (\<exists>t. hd xs = Some t \<and> spine l t) \<longrightarrow> (\<exists>t. hd ys = Some t \<and> spine l t))"
proof (induction l dev tn del0 and l dev xs del0 rule: yaffs_prune_worker_prune_slots.induct)
  case (1 l dev xs del0)
  then obtain ys dev1 where y: "prune_slots l dev xs del0 = Some (ys, dev1)"
    "tnodes_moved (int (slots_count ys) - int (slots_count xs)) dev dev1" "list_all2 (slot_pruned l dev) xs ys"
    "\<not> del0 \<and> xs \<noteq> [] \<and> (\<exists>t. hd xs = Some t \<and> spine l t) \<longrightarrow> (\<exists>t. hd ys = Some t \<and> spine l t)"
    by auto
  note p = slots_pruned [OF 1(2) y(3)]
  show ?case
  proof (cases "list_all (\<lambda>x. x = None) ys \<and> del0")
    case True
    have "slots_count ys = 0" using True by (auto simp: slots_count_def list_all_iff)
    moreover have "down_base dev (Suc l) (Some (Tnode xs)) c = 0" for c
      using p(2) [of c] down_base_all_None [of ys dev l c] p(1) True by simp
    moreover have "tnodes_moved (- 1 - int (slots_count xs)) dev (yaffs_free_tnode dev1)"
      by (rule tnodes_moved_sum [OF y(2) free_tnode_moved]) (simp add: \<open>slots_count ys = 0\<close>)
    ultimately show ?thesis using True y(1) by (simp add: tnode_count_slots slot_pruned_def algebra_simps)
  next
    case False
    have "spine (Suc l) (Tnode ys)" if "\<not> del0" "spine (Suc l) (Tnode xs)"
      using that y(3,4) by (cases xs; cases ys) (auto split: option.splits)
    then show ?thesis using False y p by (auto simp: tnode_count_slots slot_pruned_def)
  qed
next
  case (2 dev mp del0)
  show ?case
  proof (cases "list_all (\<lambda>w. w = 0) mp \<and> del0")
    case True
    have "entry dev mp c = 0" for c
      using True 2 by (intro entry_all_zero) (simp_all add: map_wf_words)
    then show ?thesis using True free_tnode_moved [of dev]
      by (simp add: slot_pruned_def down_base_def tnode_base_def)
  next
    case False
    then show ?thesis using 2 by (auto simp: slot_pruned_def)
  qed
next
  case (6 l dev x xs del0)
  have "\<exists>r dev1. (case x of None \<Rightarrow> Some (None, dev) | Some tn \<Rightarrow> yaffs_prune_worker l dev tn del0) = Some (r, dev1) \<and>
       tnodes_moved (int (slot_count r) - int (slot_count x)) dev dev1 \<and> slot_pruned l dev x r \<and>
       (\<not> del0 \<and> (\<exists>t. x = Some t \<and> spine l t) \<longrightarrow> (\<exists>t. r = Some t \<and> spine l t))"
    using 6 by (cases x) (auto simp: slot_pruned_def)
  then obtain r dev1 where r: "(case x of None \<Rightarrow> Some (None, dev) | Some tn \<Rightarrow> yaffs_prune_worker l dev tn del0) = Some (r, dev1)"
     "tnodes_moved (int (slot_count r) - int (slot_count x)) dev dev1" "slot_pruned l dev x r"
     "\<not> del0 \<and> (\<exists>t. x = Some t \<and> spine l t) \<longrightarrow> (\<exists>t. r = Some t \<and> spine l t)" by blast
  have "\<exists>ys dev2. prune_slots l dev1 xs True = Some (ys, dev2) \<and>
       tnodes_moved (int (slots_count ys) - int (slots_count xs)) dev1 dev2 \<and> list_all2 (slot_pruned l dev1) xs ys"
    using 6(2) [OF r(1) refl] 6(3,4) by (auto simp: words_geom [OF r(2)] tnode_geom_geom [OF r(2)])
  then obtain ys dev2 where ys: "prune_slots l dev1 xs True = Some (ys, dev2)"
    "tnodes_moved (int (slots_count ys) - int (slots_count xs)) dev1 dev2" "list_all2 (slot_pruned l dev1) xs ys" by blast
  have "list_all2 (slot_pruned l dev) xs ys" using ys(3) unfolding slot_pruned_geom [OF r(2), abs_def] .
  moreover have "tnodes_moved (int (slots_count (r # ys)) - int (slots_count (x # xs))) dev dev2"
    by (rule tnodes_moved_sum [OF r(2) ys(2)]) simp
  ultimately show ?case using r ys(1) by simp
qed simp_all


lemma hd_only_base:
  assumes "length xs = YAFFS_NTNODES_INTERNAL" and "list_all (\<lambda>x. x = None) (tl xs)"
  shows "down_base dev (Suc l) (Some (Tnode xs)) c = (if tnode_slot (Suc l) c = 0 then down_base dev l (hd xs) c else 0)"
proof -
  let ?x = "tnode_slot (Suc l) c"
  have x: "?x < length xs" by (rule tnode_slot_nth [OF assms(1)])
  have "xs ! ?x = None" if "?x \<noteq> 0"
    using that x assms(2) by (cases xs) (auto simp: nth_Cons list_all_iff split: nat.splits)
  then show ?thesis using x by (auto simp: down_base_Suc [OF assms(1)] hd_conv_nth)
qed

lemma prune_shorter_ok:
  assumes "tree_ok (tnode_words dev) l tn" and "spine l tn" and "l \<le> YAFFS_TNODES_MAX_LEVEL"
  shows "\<exists>l' tn' dev'. prune_shorter l dev (Some tn) = Some (l', dev', Some tn') \<and> l' \<le> l \<and>
     tree_ok (tnode_words dev) l' tn' \<and> spine l' tn' \<and>
     tnodes_moved (int (tnode_count tn') - int (tnode_count tn)) dev dev' \<and>
     (\<forall>c. (if required_depth (c div 16) \<le> l' then down_base dev l' (Some tn') c else 0) =
          (if required_depth (c div 16) \<le> l then down_base dev l (Some tn) c else 0)) \<and>
     (l' = 0 \<or> (\<exists>xs. tn' = Tnode xs \<and> (\<exists>x \<in> set (tl xs). x \<noteq> None)))"
  using assms
proof (induction l arbitrary: dev tn)
  case 0
  then show ?case by simp
next
  case (Suc l)
  then obtain xs where xs: "tn = Tnode xs" "length xs = YAFFS_NTNODES_INTERNAL"
    "\<And>t. Some t \<in> set xs \<Longrightarrow> tree_ok (tnode_words dev) l t" by (auto simp: tree_ok_Suc)
  obtain t ts where t: "xs = Some t # ts" "spine l t"
    using Suc.prems(2) by (cases xs) (auto simp: xs(1) split: option.splits)
  show ?case
  proof (cases "list_all (\<lambda>x. x = None) ts")
    case False
    then show ?thesis using Suc.prems t by (auto simp: xs(1) list_all_iff)
  next
    case True
    let ?dev = "yaffs_free_tnode dev"
    note m = free_tnode_moved [of dev]
    have tr: "tree_ok (tnode_words ?dev) l t" using xs(3) t(1) by (simp add: words_geom [OF m])
    have lev: "l \<le> YAFFS_TNODES_MAX_LEVEL" using Suc.prems(3) by simp
    from Suc.IH [OF tr t(2) lev, unfolded words_geom [OF m] down_base_geom [OF m]]
    obtain l' tn' dev' where ih: "prune_shorter l ?dev (Some t) = Some (l', dev', Some tn')" "l' \<le> l"
      "tree_ok (tnode_words dev) l' tn'" "spine l' tn'"
      "tnodes_moved (int (tnode_count tn') - int (tnode_count t)) ?dev dev'"
      "\<And>c. (if required_depth (c div 16) \<le> l' then down_base dev l' (Some tn') c else 0) =
          (if required_depth (c div 16) \<le> l then down_base dev l (Some t) c else 0)"
      "l' = 0 \<or> (\<exists>xs. tn' = Tnode xs \<and> (\<exists>x \<in> set (tl xs). x \<noteq> None))"
      by (elim exE conjE) blast
    have "tnode_count tn = Suc (tnode_count t)"
      using True by (auto simp: xs(1) t(1) tnode_count_slots slots_count_def list_all_iff)
    then have "tnodes_moved (int (tnode_count tn') - int (tnode_count tn)) dev dev'"
      by (intro tnodes_moved_sum [OF m ih(5)]) simp
    moreover have "(if required_depth (c div 16) \<le> l then down_base dev l (Some t) c else 0) =
        (if required_depth (c div 16) \<le> Suc l then down_base dev (Suc l) (Some tn) c else 0)" for c
    proof (cases "required_depth (c div 16) \<le> Suc l")
      case d: True
      show ?thesis using slot_0_iff [OF d] hd_only_base [OF xs(2), of dev l c] True d by (simp add: xs(1) t(1))
    qed simp
    moreover have "prune_shorter (Suc l) dev (Some tn) = Some (l', dev', Some tn')"
      using ih(1) True by (simp add: xs(1) t(1))
    ultimately show ?thesis using ih(2,3,4,6,7) by auto
  qed
qed

lemma prune_tree_ok:
  assumes ok: "file_tree_ok dev fs" and g: "tnode_geom dev"
  shows "\<exists>fs' dev'. yaffs_prune_tree dev fs = Some (fs', dev') \<and> file_tree_ok dev' fs' \<and>
     tnodes_moved (int (file_tnodes fs') - int (file_tnodes fs)) dev dev' \<and>
     (\<forall>c. chunk_base dev' fs' c = chunk_base dev fs c) \<and>
     (top_level fs' = 0 \<or> (\<exists>xs. top fs' = Some (Tnode xs) \<and> (\<exists>x \<in> set (tl xs). x \<noteq> None)))"
proof (cases "top_level fs < 1")
  case True
  then show ?thesis using ok by (simp add: yaffs_prune_tree_def)
next
  case False
  obtain tn where tn: "top fs = Some tn" "tree_ok (tnode_words dev) (top_level fs) tn" "spine (top_level fs) tn"
    and lev: "top_level fs \<le> YAFFS_TNODES_MAX_LEVEL" using ok by (auto simp: file_tree_ok_def)
  obtain tn1 dev1 where w: "yaffs_prune_worker (top_level fs) dev tn False = Some (Some tn1, dev1)"
    "tnodes_moved (int (tnode_count tn1) - int (tnode_count tn)) dev dev1" "slot_pruned (top_level fs) dev (Some tn) (Some tn1)"
    "spine (top_level fs) tn1"
    using prune_ok(1) [OF tn(2) g, of False] tn(3) by auto
  have t1: "tree_ok (tnode_words dev1) (top_level fs) tn1" 
    "\<And>c. down_base dev (top_level fs) (Some tn1) c = down_base dev (top_level fs) (Some tn) c"
    using w(3) by (simp_all add: slot_pruned_def words_geom [OF w(2)])
  from prune_shorter_ok [OF t1(1) w(4) lev]
  obtain l' tn' dev' where s: "prune_shorter (top_level fs) dev1 (Some tn1) = Some (l', dev', Some tn')"
    "l' \<le> top_level fs" "tree_ok (tnode_words dev1) l' tn'" "spine l' tn'"
    "tnodes_moved (int (tnode_count tn') - int (tnode_count tn1)) dev1 dev'"
    "\<And>c. (if required_depth (c div 16) \<le> l' then down_base dev1 l' (Some tn') c else 0) =
          (if required_depth (c div 16) \<le> top_level fs then down_base dev1 (top_level fs) (Some tn1) c else 0)"
    "l' = 0 \<or> (\<exists>xs. tn' = Tnode xs \<and> (\<exists>x \<in> set (tl xs). x \<noteq> None))" by blast
  let ?fs = "fs\<lparr>top := Some tn', top_level := l'\<rparr>"
  have m: "tnodes_moved (int (file_tnodes ?fs) - int (file_tnodes fs)) dev dev'"
    by (rule tnodes_moved_sum [OF w(2) s(5)]) (simp add: file_tnodes_def tn(1))
  have "yaffs_prune_tree dev fs = Some (?fs, dev')"
    using False w(1) s(1) by (simp add: yaffs_prune_tree_def tn(1))
  moreover have "file_tree_ok dev' ?fs"
    using s(2,3,4) lev unfolding file_tree_ok_geom [OF m] by (simp add: file_tree_ok_def words_geom [OF w(2)])
  moreover have "chunk_base dev' ?fs c = chunk_base dev fs c" for c
  proof -
    have l: "l' \<le> YAFFS_TNODES_MAX_LEVEL" using s(2) lev by simp
    show ?thesis
      using s(6) [of c] t1(2) [of c] lev l unfolding chunk_base_geom [OF m] down_base_geom [OF w(2)]
      by (auto simp: chunk_base_down tn(1) split: if_splits)
  qed
  ultimately show ?thesis using m s(7) by auto
qed

end
