(* ===== verification/Yaffs_File_Map.thy ===== *)
theory Yaffs_File_Map
  imports Yaffs_File_Chunks Yaffs_Tnode_Map
begin

text \<open>
  The tree of a file as a map from its chunks to chunks of the flash: entering a chunk
  changes the map at that chunk alone, also where the tree has to grow for it, and
  pruning changes nothing that can be looked up.
\<close>

section \<open>The interface\<close>

text \<open>
  A map with entries that can run out of memory for a new one (the result is False then,
  and the entries stay), and a clean-up that the entries survive.
\<close>

locale chunk_map =
  fixes ok :: "'s \<Rightarrow> bool" and view :: "'s \<Rightarrow> nat \<Rightarrow> 'v" and shown :: "'s \<Rightarrow> 'w \<Rightarrow> 'v"
    and put :: "'s \<Rightarrow> nat \<Rightarrow> 'w \<Rightarrow> (bool \<times> 's) option" and trim :: "'s \<Rightarrow> 's option"
  assumes put_ok: "ok s \<Longrightarrow> \<exists>b s'. put s c w = Some (b, s') \<and> ok s' \<and>
      view s' = (if b then (view s)(c := shown s w) else view s) \<and> shown s' = shown s"
    and trim_ok: "ok s \<Longrightarrow> \<exists>s'. trim s = Some s' \<and> ok s' \<and> view s' = view s \<and> shown s' = shown s"
begin

primrec puts :: "'s \<Rightarrow> (nat \<times> 'w) list \<Rightarrow> (bool \<times> 's) option" where
  "puts s [] = Some (True, s)"
| "puts s (x # xs) =
     (case put s (fst x) (snd x) of None \<Rightarrow> None
      | Some (b, s) \<Rightarrow> if b then puts s xs else Some (False, s))"

text \<open>Entering one chunk after the other gives the map with all of them, the last one winning.\<close>

lemma puts_ok:
  assumes "ok s"
  shows "\<exists>b s'. puts s xs = Some (b, s') \<and> ok s' \<and>
     (b \<longrightarrow> view s' = foldl (\<lambda>m (c, w). m(c := shown s w)) (view s) xs)"
  using assms
proof (induction xs arbitrary: s)
  case (Cons x xs)
  obtain b s1 where s1: "put s (fst x) (snd x) = Some (b, s1)" "ok s1"
    "view s1 = (if b then (view s)(fst x := shown s (snd x)) else view s)" "shown s1 = shown s"
    using put_ok [OF Cons.prems, of "fst x" "snd x"] by blast
  show ?case
  proof (cases b)
    case True
    then show ?thesis using s1 Cons.IH [OF s1(2)] by (cases x) auto
  next
    case False
    then show ?thesis using s1 by (intro exI [of _ False] exI [of _ s1]) (cases x, simp)
  qed
next
  case Nil
  then show ?case by (intro exI [of _ True] exI [of _ s]) simp
qed

lemma put_trim:
  assumes "ok s" and "put s c w = Some (True, s1)" and "trim s1 = Some s2"
  shows "view s2 = (view s)(c := shown s w)" "ok s2"
  using put_ok [OF assms(1), of c w] trim_ok [of s1] assms(2,3) by auto

end

section \<open>The tree of a file\<close>

definition file_put ::
    "yaffs_file_var \<times> 'n yaffs_dev \<Rightarrow> nat \<Rightarrow> u32 \<Rightarrow> (bool \<times> yaffs_file_var \<times> 'n yaffs_dev) option" where
  "file_put s cid val =
     (case s of (fs, dev) \<Rightarrow>
        do { (r, fs, dev) \<leftarrow> yaffs_add_find_tnode_0 dev fs cid None;
             case r of None \<Rightarrow> Some (False, fs, dev)
             | Some (Tnode xs) \<Rightarrow> None
             | Some (Tnode0 mp) \<Rightarrow>
                 do { mp \<leftarrow> yaffs_load_tnode_0 dev mp cid val;
                      Some (True, put_tnode_0 fs cid (Tnode0 mp), dev) } })"

definition map_ok :: "yaffs_file_var \<times> 'n yaffs_dev \<Rightarrow> bool" where
  "map_ok s \<longleftrightarrow> file_tree_ok (snd s) (fst s) \<and> tnode_geom (snd s)"

definition map_view :: "yaffs_file_var \<times> 'n yaffs_dev \<Rightarrow> nat \<Rightarrow> u32" where
  "map_view s = chunk_base (snd s) (fst s)"

lemma tnode_geom_moved: "tnodes_moved k dev dev' \<Longrightarrow> tnode_geom dev' = tnode_geom dev"
  by (simp add: tnodes_moved_def tnode_geom_def)

lemma group_of_moved: "tnodes_moved k dev dev' \<Longrightarrow> group_of dev' = group_of dev"
  by (simp add: tnodes_moved_def group_of_def fun_eq_iff)

lemma file_put_ok:
  assumes ok: "file_tree_ok dev fs" and g: "tnode_geom dev"
  shows "\<exists>b fs' dev'. file_put (fs, dev) cid val = Some (b, fs', dev') \<and> file_tree_ok dev' fs' \<and>
     tnodes_moved (int (file_tnodes fs') - int (file_tnodes fs)) dev dev' \<and>
     chunk_base dev' fs' = (if b then (chunk_base dev fs)(cid := group_of dev val) else chunk_base dev fs)"
proof -
  obtain r fs1 dev1 where a: "yaffs_add_find_tnode_0 dev fs cid None = Some (r, fs1, dev1)" "file_tree_ok dev1 fs1"
    "tnodes_moved (int (file_tnodes fs1) - int (file_tnodes fs)) dev dev1"
    "\<And>c. chunk_base dev1 fs1 c = chunk_base dev fs c" "r \<noteq> None \<longrightarrow> yaffs_find_tnode_0 fs1 cid = Some r"
    using add_find_tnode_0_ok [OF ok g, of cid] by blast
  have base: "chunk_base dev1 fs1 = chunk_base dev fs" using a(4) by (intro ext)
  show ?thesis
  proof (cases r)
    case None
    then show ?thesis using a base by (intro exI [of _ False] exI [of _ fs1] exI [of _ dev1]) (simp add: file_put_def)
  next
    case (Some t)
    then have f: "yaffs_find_tnode_0 fs1 cid = Some (Some t)" using a(5) by simp
    then obtain mp where mp: "t = Tnode0 mp" using find_tnode_0_ok [OF a(2), of cid] by auto
    have g1: "tnode_geom dev1" using g tnode_geom_moved [OF a(3)] by simp
    obtain mp' where l: "yaffs_load_tnode_0 dev1 mp cid val = Some mp'"
      "file_tree_ok dev1 (put_tnode_0 fs1 cid (Tnode0 mp'))"
      "file_tnodes (put_tnode_0 fs1 cid (Tnode0 mp')) = file_tnodes fs1"
      "\<forall>c. chunk_base dev1 (put_tnode_0 fs1 cid (Tnode0 mp')) c = (if c = cid then group_of dev1 val else chunk_base dev1 fs1 c)"
      using load_chunk_base [OF a(2) g1 f [unfolded mp], of val] by blast
    have "chunk_base dev1 (put_tnode_0 fs1 cid (Tnode0 mp')) = (chunk_base dev fs)(cid := group_of dev val)"
      using l(4) base group_of_moved [OF a(3)] by (auto simp: fun_eq_iff)
    then show ?thesis using a(1,3) l(1-3) Some mp
      by (intro exI [of _ True] exI [of _ "put_tnode_0 fs1 cid (Tnode0 mp')"] exI [of _ dev1]) (simp add: file_put_def)
  qed
qed

interpretation file_map: chunk_map map_ok map_view "\<lambda>s. group_of (snd s)" file_put
    "\<lambda>s. yaffs_prune_tree (snd s) (fst s)"
proof
  fix s :: "yaffs_file_var \<times> 'n yaffs_dev" and c :: nat and w :: u32
  assume "map_ok s"
  then show "\<exists>b s'. file_put s c w = Some (b, s') \<and> map_ok s' \<and>
      map_view s' = (if b then (map_view s)(c := group_of (snd s) w) else map_view s) \<and>
      group_of (snd s') = group_of (snd s)"
    using file_put_ok [of "snd s" "fst s" c w] tnode_geom_moved group_of_moved
    by (cases s) (fastforce simp: map_ok_def map_view_def)
next
  fix s :: "yaffs_file_var \<times> 'n yaffs_dev"
  assume "map_ok s"
  then have ok: "file_tree_ok (snd s) (fst s)" "tnode_geom (snd s)" by (simp_all add: map_ok_def)
  obtain fs' dev' where t: "yaffs_prune_tree (snd s) (fst s) = Some (fs', dev')" "file_tree_ok dev' fs'"
    and moved: "tnodes_moved (int (file_tnodes fs') - int (file_tnodes (fst s))) (snd s) dev'"
    and base: "\<And>c. chunk_base dev' fs' c = chunk_base (snd s) (fst s) c"
    using prune_tree_ok [OF ok] by blast
  show "\<exists>s'. yaffs_prune_tree (snd s) (fst s) = Some s' \<and> map_ok s' \<and> map_view s' = map_view s \<and>
      group_of (snd s') = group_of (snd s)"
    using t ok(2) base tnode_geom_moved [OF moved] group_of_moved [OF moved]
    by (intro exI [of _ "(fs', dev')"]) (simp add: map_ok_def map_view_def fun_eq_iff)
qed

end
