(* ===== verification/Yaffs_Obj_Inv.thy ===== *)
theory Yaffs_Obj_Inv
  imports Yaffs_Obj_Table
begin

text \<open>
  The invariants of the object table: the hash table lists exactly the hashed objects, each
  in the bucket of its id and no id twice, and the children of the directories are the
  inverse of the parents.  The operations of Yaffs_Obj_Table keep both.
\<close>

section \<open>The hash table\<close>

definition hashed :: "'n yaffs_sys \<Rightarrow> u32 \<Rightarrow> nat \<Rightarrow> bool" where
  "hashed s n a \<longleftrightarrow> (\<exists>x. objs s a = Some x \<and> o_hashed x \<and> o_obj_id x = n)"

definition table_ok :: "'n yaffs_sys \<Rightarrow> bool" where
  "table_ok s \<longleftrightarrow> length (obj_bucket s) = YAFFS_NOBJECT_BUCKETS \<and>
     (\<forall>b < YAFFS_NOBJECT_BUCKETS. distinct (obj_bucket s ! b) \<and>
        set (obj_bucket s ! b) = {a. \<exists>n. hashed s n a \<and> yaffs_hash_fn n = b}) \<and>
     (\<forall>n a a'. hashed s n a \<and> hashed s n a' \<longrightarrow> a = a') \<and>
     (\<forall>a \<ge> next_obj s. objs s a = None)"

text \<open>The search for a short bucket does not look at lists of 999999 objects.\<close>

definition buckets_small :: "'n yaffs_sys \<Rightarrow> bool" where
  "buckets_small s \<longleftrightarrow> list_all (\<lambda>b. length b < 999999) (obj_bucket s)"

lemma unat_and_255: "unat ((v :: u32) AND 255) = unat v mod 256"
proof -
  have "v AND 255 = take_bit 8 v" by (simp add: take_bit_eq_mask mask_eq_exp_minus_1)
  moreover have "unat (take_bit 8 v) = take_bit 8 (unat v)" by (rule unsigned_take_bit_eq)
  moreover have "take_bit 8 (unat v) = unat v mod 2 ^ 8" by (rule take_bit_eq_mod)
  ultimately show ?thesis by (simp only:) simp
qed

lemma hash_fn_less [simp]: "yaffs_hash_fn n < YAFFS_NOBJECT_BUCKETS"
  unfolding yaffs_hash_fn_def unat_and_255 by (simp add: YAFFS_NOBJECT_BUCKETS_def)

lemma unat_of_small: "m < 2 ^ 32 \<Longrightarrow> unat (word_of_nat m :: u32) = m"
  by (simp only: unsigned_of_nat) (simp add: take_bit_nat_eq_self)

lemma sint_of_small: "m < 2 ^ 31 \<Longrightarrow> sint (word_of_nat m :: u32) = int m"
  by (simp only: signed_of_nat) (simp add: signed_take_bit_int_eq_self)

lemma hash_fn_nat:
  assumes "m < 2 ^ 31"
  shows "yaffs_hash_fn (word_of_nat m) = m mod 256"
proof -
  have "\<not> sint (word_of_nat m :: u32) < 0" using sint_of_small [OF assms] by simp
  then show ?thesis using unat_of_small [of m] assms unfolding yaffs_hash_fn_def unat_and_255 by simp
qed

lemma bucket_members:
  "table_ok s \<Longrightarrow> b < YAFFS_NOBJECT_BUCKETS \<Longrightarrow>
    a \<in> set (obj_bucket s ! b) \<longleftrightarrow> (\<exists>n. hashed s n a \<and> yaffs_hash_fn n = b)"
  by (auto simp: table_ok_def)

lemma find_in_bucket_find:
  "\<forall>a \<in> set as. h a \<noteq> None \<Longrightarrow> find_in_bucket h as n =
     Some (case find (\<lambda>a. o_obj_id (the (h a)) = n) as of None \<Rightarrow> None
           | Some a \<Rightarrow> if o_defered_free (the (h a)) then None else Some a)"
  by (induction as) auto

lemma find_hit: "find P xs = Some x \<Longrightarrow> x \<in> set xs \<and> P x"
  by (induction xs) (auto split: if_splits)

lemma find_by_number_ok:
  assumes ok: "table_ok s"
  shows "\<exists>r. yaffs_find_by_number s n = Some r \<and>
     (\<forall>a. r = Some a \<longleftrightarrow> hashed s n a \<and> (\<forall>x. objs s a = Some x \<longrightarrow> \<not> o_defered_free x))"
proof -
  let ?b = "yaffs_hash_fn n" and ?as = "obj_bucket s ! yaffs_hash_fn n"
  let ?f = "find (\<lambda>a. o_obj_id (the (objs s a)) = n) ?as"
  have len: "?b < length (obj_bucket s)" using ok by (simp add: table_ok_def)
  have mem: "a \<in> set ?as \<longleftrightarrow> (\<exists>n'. hashed s n' a \<and> yaffs_hash_fn n' = ?b)" for a
    using bucket_members [OF ok hash_fn_less] .
  have uniq: "hashed s n a \<Longrightarrow> hashed s n a' \<Longrightarrow> a = a'" for a a' using ok by (auto simp: table_ok_def)
  have hit: "hashed s n a" if "?f = Some a" for a
  proof -
    have "a \<in> set ?as" "o_obj_id (the (objs s a)) = n" using find_hit [OF that] by blast+
    moreover obtain n' where "hashed s n' a" using mem [of a] calculation(1) by blast
    ultimately show ?thesis by (auto simp: hashed_def)
  qed
  have f: "?f = Some a \<longleftrightarrow> hashed s n a" for a
  proof
    assume a: "hashed s n a"
    then have "a \<in> set ?as" using mem [of a] by blast
    moreover have "o_obj_id (the (objs s a)) = n" using a by (auto simp: hashed_def)
    ultimately have "?f \<noteq> None" unfolding find_None_iff by blast
    then obtain a' where a': "?f = Some a'" by blast
    show "?f = Some a" using uniq [OF a hit [OF a']] a' by simp
  qed (rule hit)
  have "\<forall>a \<in> set ?as. objs s a \<noteq> None"
  proof
    fix a assume "a \<in> set ?as"
    then obtain n' where "hashed s n' a" using mem [of a] by blast
    then show "objs s a \<noteq> None" by (auto simp: hashed_def)
  qed
  note res = find_in_bucket_find [OF this, of n]
  define r where "r = (case ?f of None \<Rightarrow> None | Some a \<Rightarrow> if o_defered_free (the (objs s a)) then None else Some a)"
  have "yaffs_find_by_number s n = Some r" using len res by (simp add: yaffs_find_by_number_def r_def)
  moreover have "r = Some a \<longleftrightarrow> hashed s n a \<and> \<not> o_defered_free (the (objs s a))" for a
    unfolding f [of a, symmetric] by (cases ?f) (auto simp: r_def)
  moreover have "hashed s n a \<Longrightarrow> objs s a = Some (the (objs s a))" for a by (auto simp: hashed_def)
  ultimately show ?thesis by (metis option.sel)
qed

section \<open>New ids\<close>

lemma nice_bucket_ok:
  assumes "length bs = YAFFS_NOBJECT_BUCKETS" and "list_all (\<lambda>b. length b < 999999) bs"
    and "l < YAFFS_NOBJECT_BUCKETS \<or> (0 < n \<and> lowest = 999999)"
  shows "\<exists>l' f'. nice_bucket_loop n bs f lowest l = Some (l', f') \<and> l' < YAFFS_NOBJECT_BUCKETS"
  using assms
proof (induction n arbitrary: f lowest l)
  case (Suc n)
  let ?f = "(f + 1) mod YAFFS_NOBJECT_BUCKETS"
  have f: "?f < YAFFS_NOBJECT_BUCKETS" by (simp add: YAFFS_NOBJECT_BUCKETS_def)
  then have "length (bs ! ?f) < 999999" using Suc.prems(1,2) by (simp add: list_all_length)
  then show ?case using Suc f by (auto simp: Let_def)
qed simp

definition id_cand :: "nat \<Rightarrow> nat \<Rightarrow> u32" where
  "id_cand b k = word_of_nat (b + YAFFS_NOBJECT_BUCKETS * k)"

lemma id_cand_Suc: "id_cand b k + word_of_nat YAFFS_NOBJECT_BUCKETS = id_cand b (Suc k)"
  by (simp add: id_cand_def algebra_simps)

lemma new_id_loop_from:
  assumes "list_all (\<lambda>a. h a \<noteq> None) as" and "k < K"
    and "\<And>j. k < j \<Longrightarrow> j < K \<Longrightarrow> \<exists>a \<in> set as. \<exists>x. h a = Some x \<and> o_obj_id x = id_cand b j"
    and "\<not> (\<exists>a \<in> set as. \<exists>x. h a = Some x \<and> o_obj_id x = id_cand b K)"
  shows "new_id_loop h as (id_cand b k) = Some (id_cand b K)"
  using assms(2,3)
proof (induction "K - k" arbitrary: k)
  case (Suc m)
  have t: "id_taken h as n = Some (\<exists>a \<in> set as. \<exists>x. h a = Some x \<and> o_obj_id x = n)" for n
    using assms(1) by (auto simp: id_taken_def list_ex_iff split: option.splits)
  show ?case
  proof (cases "Suc k = K")
    case True
    then show ?thesis using assms(4) by (subst new_id_loop.simps) (auto simp: id_cand_Suc t Let_def)
  next
    case False
    then have "\<exists>a \<in> set as. \<exists>x. h a = Some x \<and> o_obj_id x = id_cand b (Suc k)" using Suc.prems by simp
    moreover have "new_id_loop h as (id_cand b (Suc k)) = Some (id_cand b K)"
      using Suc False by (intro Suc.hyps(1)) auto
    ultimately show ?thesis by (subst new_id_loop.simps) (simp add: id_cand_Suc t Let_def)
  qed
qed simp

lemma id_cand_small:
  assumes "b < YAFFS_NOBJECT_BUCKETS" and "k < 2 ^ 22"
  shows "b + YAFFS_NOBJECT_BUCKETS * k < 2 ^ 31"
  using assms by (simp add: YAFFS_NOBJECT_BUCKETS_def)

lemma id_cand_inj:
  assumes "b < YAFFS_NOBJECT_BUCKETS" and "j < 2 ^ 22" and "k < 2 ^ 22" and "id_cand b j = id_cand b k"
  shows "j = k"
proof -
  have "unat (id_cand b i) = b + YAFFS_NOBJECT_BUCKETS * i" if "i < 2 ^ 22" for i
    unfolding id_cand_def using id_cand_small [OF assms(1) that] by (intro unat_of_small) simp
  then have "b + YAFFS_NOBJECT_BUCKETS * j = b + YAFFS_NOBJECT_BUCKETS * k" using assms by metis
  then show ?thesis by (simp add: YAFFS_NOBJECT_BUCKETS_def)
qed

lemma free_cand:
  assumes "b < YAFFS_NOBJECT_BUCKETS" and "finite T" and "card T < 2 ^ 21"
  shows "\<exists>K. 0 < K \<and> K < 2 ^ 22 \<and> id_cand b K \<notin> T \<and> (\<forall>j. 0 < j \<and> j < K \<longrightarrow> id_cand b j \<in> T)"
proof -
  let ?I = "{1..Suc (card T)}"
  have sub: "?I \<subseteq> {..< 2 ^ 22}" using assms(3) by auto
  have "inj_on (id_cand b) ?I"
  proof (rule inj_onI)
    fix x y assume "x \<in> ?I" "y \<in> ?I" "id_cand b x = id_cand b y"
    then show "x = y" using sub by (intro id_cand_inj [OF assms(1)]) auto
  qed
  then have c: "card (id_cand b ` ?I) = Suc (card T)" by (simp add: card_image)
  have "\<not> id_cand b ` ?I \<subseteq> T" using card_mono [OF assms(2), of "id_cand b ` ?I"] c by auto
  then obtain k where k: "k \<in> ?I" "id_cand b k \<notin> T" by (meson image_subsetI)
  let ?P = "\<lambda>k. 0 < k \<and> id_cand b k \<notin> T"
  have "?P (LEAST k. ?P k)" using k by (intro LeastI [of ?P k]) auto
  moreover have "(LEAST k. ?P k) \<le> k" using k by (intro Least_le) auto
  moreover have "id_cand b j \<in> T" if "0 < j" "j < (LEAST k. ?P k)" for j using not_less_Least [OF that(2)] that(1) by auto
  moreover have "k < 2 ^ 22" using k(1) assms(3) by simp
  ultimately show ?thesis by (intro exI [of _ "LEAST k. ?P k"]) auto
qed

lemma new_obj_id_ok:
  assumes ok: "table_ok s" and small: "buckets_small s"
  shows "\<exists>n f. yaffs_new_obj_id s = Some (n, s\<lparr>bucket_finder := f\<rparr>) \<and> sint n > 0 \<and> (\<forall>a. \<not> hashed s n a)"
proof -
  have len: "length (obj_bucket s) = YAFFS_NOBJECT_BUCKETS" using ok by (simp add: table_ok_def)
  obtain b f where b: "nice_bucket_loop 10 (obj_bucket s) (bucket_finder s) 999999 999 = Some (b, f)"
    "b < YAFFS_NOBJECT_BUCKETS"
    using nice_bucket_ok [OF len small [unfolded buckets_small_def], of 999 10 999999 "bucket_finder s"] by auto
  let ?as = "obj_bucket s ! b"
  let ?T = "{o_obj_id x |a x. a \<in> set ?as \<and> objs s a = Some x}"
  have T: "?T \<subseteq> (\<lambda>a. o_obj_id (the (objs s a))) ` set ?as" by (auto intro!: rev_image_eqI)
  have fin: "finite ?T" by (rule finite_subset [OF T]) simp
  have "card ?T \<le> card ((\<lambda>a. o_obj_id (the (objs s a))) ` set ?as)" by (rule card_mono [OF _ T]) simp
  also have "\<dots> \<le> card (set ?as)" by (rule card_image_le) simp
  also have "\<dots> \<le> length ?as" by (rule card_length)
  also have "length ?as < 999999"
    using small b(2) len by (simp add: buckets_small_def list_all_length)
  finally have c: "card ?T < 2 ^ 21" by simp
  obtain K where K: "0 < K" "K < 2 ^ 22" "id_cand b K \<notin> ?T" "\<And>j. 0 < j \<Longrightarrow> j < K \<Longrightarrow> id_cand b j \<in> ?T"
    using free_cand [OF b(2) fin c] by blast
  have valid: "list_all (\<lambda>a. objs s a \<noteq> None) ?as"
    using bucket_members [OF ok b(2)] by (auto simp: list_all_iff hashed_def)
  have loop: "new_id_loop (objs s) ?as (id_cand b 0) = Some (id_cand b K)"
  proof (rule new_id_loop_from [OF valid K(1)])
    fix j assume "0 < j" "j < K"
    then obtain a x where "a \<in> set ?as" "objs s a = Some x" "o_obj_id x = id_cand b j" using K(4) [of j] by auto
    then show "\<exists>a \<in> set ?as. \<exists>x. objs s a = Some x \<and> o_obj_id x = id_cand b j" by blast
  qed (use K(3) in auto)
  have m: "b + YAFFS_NOBJECT_BUCKETS * K < 2 ^ 31" by (rule id_cand_small [OF b(2) K(2)])
  have h: "yaffs_hash_fn (id_cand b K) = b"
    using hash_fn_nat [OF m] b(2) by (simp add: id_cand_def YAFFS_NOBJECT_BUCKETS_def)
  have "sint (id_cand b K) > 0"
    unfolding id_cand_def sint_of_small [OF m] using K(1) by (simp add: YAFFS_NOBJECT_BUCKETS_def)
  moreover have "\<not> hashed s (id_cand b K) a" for a
    using K(3) bucket_members [OF ok b(2), of a] h by (auto simp: hashed_def)
  moreover have "id_cand b 0 = word_of_nat b" by (simp add: id_cand_def)
  ultimately show ?thesis using b loop len
    by (auto simp: yaffs_new_obj_id_def yaffs_find_nice_bucket_def)
qed

end
