(* ===== verification/Yaffs_Dirs_Inv.thy ===== *)
theory Yaffs_Dirs_Inv
  imports Yaffs_Obj_Inv
begin

text \<open>
  The directory tree as a relation: the parent of an object and the children of a
  directory say the same.  Moving an object into a directory keeps that, and the hash
  table with it.
\<close>

section \<open>Parents and children\<close>

type_synonym obj_heap = "nat \<Rightarrow> yaffs_obj option"

definition kids1 :: "yaffs_obj \<Rightarrow> nat list option" where
  "kids1 x = (case o_variant x of DirVar cs d \<Rightarrow> Some cs | _ \<Rightarrow> None)"

definition kids :: "obj_heap \<Rightarrow> nat \<Rightarrow> nat list option" where
  "kids h p = (case h p of None \<Rightarrow> None | Some x \<Rightarrow> kids1 x)"

definition par :: "obj_heap \<Rightarrow> nat \<Rightarrow> nat option" where
  "par h a = (case h a of None \<Rightarrow> None | Some x \<Rightarrow> o_parent x)"

definition dirs_ok :: "obj_heap \<Rightarrow> bool" where
  "dirs_ok h \<longleftrightarrow> (\<forall>a p. par h a = Some p \<longrightarrow> (\<exists>cs. kids h p = Some cs \<and> a \<in> set cs)) \<and>
     (\<forall>p cs. kids h p = Some cs \<longrightarrow> distinct cs \<and> (\<forall>a \<in> set cs. par h a = Some p))"

lemma dirs_okD:
  assumes "dirs_ok h"
  shows "par h a = Some p \<Longrightarrow> \<exists>cs. kids h p = Some cs \<and> a \<in> set cs"
    "kids h p = Some cs \<Longrightarrow> distinct cs" "kids h p = Some cs \<Longrightarrow> a \<in> set cs \<Longrightarrow> par h a = Some p"
  using assms by (simp_all add: dirs_ok_def)

lemma dirs_okI:
  assumes "\<And>a p. par h a = Some p \<Longrightarrow> \<exists>cs. kids h p = Some cs \<and> a \<in> set cs"
    and "\<And>p cs. kids h p = Some cs \<Longrightarrow> distinct cs"
    and "\<And>p cs a. kids h p = Some cs \<Longrightarrow> a \<in> set cs \<Longrightarrow> par h a = Some p"
  shows "dirs_ok h"
  using assms by (auto simp: dirs_ok_def)

lemma kids_upd [simp]: "kids (h(a \<mapsto> y)) p = (if p = a then kids1 y else kids h p)"
  by (simp add: kids_def)

lemma par_upd [simp]: "par (h(a \<mapsto> y)) b = (if b = a then o_parent y else par h b)"
  by (simp add: par_def)

lemma kids_heap: "h p = Some x \<Longrightarrow> kids h p = kids1 x"
  by (simp add: kids_def)

lemma par_heap: "h p = Some x \<Longrightarrow> par h p = o_parent x"
  by (simp add: par_def)

lemma kids1_dir: "kids1 x = Some cs \<longleftrightarrow> (\<exists>d. o_variant x = DirVar cs d)"
  by (simp add: kids1_def split: yaffs_obj_var.splits)

lemma kids1_simps [simp]:
  "kids1 (x\<lparr>o_parent := p\<rparr>) = kids1 x" "kids1 (x\<lparr>o_variant := DirVar cs d\<rparr>) = Some cs"
  "kids1 (x\<lparr>o_unlinked := u, o_rename_allowed := r\<rparr>) = kids1 x"
  by (simp_all add: kids1_def)

lemma upd_obj_eq: "objs s a = Some x \<Longrightarrow> upd_obj s a f = Some (s\<lparr>objs := (objs s)(a \<mapsto> f x)\<rparr>)"
  by (simp add: upd_obj_def)

text \<open>Only links change, so that the hash table stays as it is.\<close>

definition same_ids :: "obj_heap \<Rightarrow> obj_heap \<Rightarrow> bool" where
  "same_ids h h' \<longleftrightarrow> (\<forall>b. map_option (\<lambda>x. (o_hashed x, o_obj_id x)) (h' b) = map_option (\<lambda>x. (o_hashed x, o_obj_id x)) (h b))"

lemma same_ids_refl [simp]: "same_ids h h"
  by (simp add: same_ids_def)

lemma same_ids_trans: "same_ids h h1 \<Longrightarrow> same_ids h1 h2 \<Longrightarrow> same_ids h h2"
  by (simp add: same_ids_def)

lemma same_ids_upd: "h a = Some x \<Longrightarrow> o_hashed y = o_hashed x \<Longrightarrow> o_obj_id y = o_obj_id x \<Longrightarrow> same_ids h (h(a \<mapsto> y))"
  by (simp add: same_ids_def)

lemma same_ids_dom: "same_ids h h' \<Longrightarrow> h' a = None \<longleftrightarrow> h a = None"
  unfolding same_ids_def by (drule spec [of _ a]) (cases "h a"; cases "h' a"; simp)

lemma hashed_same:
  assumes "same_ids (objs s) (objs s')"
  shows "hashed s' n a = hashed s n a"
proof -
  have "map_option (\<lambda>x. (o_hashed x, o_obj_id x)) (objs s' a) = map_option (\<lambda>x. (o_hashed x, o_obj_id x)) (objs s a)"
    using assms by (simp add: same_ids_def)
  then show ?thesis by (cases "objs s a"; cases "objs s' a") (auto simp: hashed_def)
qed

lemma table_ok_same:
  assumes "table_ok s" and "same_ids (objs s) (objs s')" and "obj_bucket s' = obj_bucket s" and "next_obj s' = next_obj s"
  shows "table_ok s'"
proof -
  have h: "hashed s' = hashed s" using hashed_same [OF assms(2)] by (intro ext)
  note ok = assms(1) [unfolded table_ok_def]
  have "\<forall>a \<ge> next_obj s. objs s' a = None"
    using conjunct2 [OF conjunct2 [OF conjunct2 [OF ok]]] same_ids_dom [OF assms(2)] by blast
  then show ?thesis unfolding table_ok_def h assms(3,4)
    using conjunct1 [OF ok] conjunct1 [OF conjunct2 [OF ok]] conjunct1 [OF conjunct2 [OF conjunct2 [OF ok]]]
    by (intro conjI)
qed

section \<open>Moving an object\<close>

lemma remove_from_dir_ok:
  assumes ok: "dirs_ok (objs s)" and x: "objs s a = Some x"
  shows "\<exists>h. yaffs_remove_obj_from_dir s a = Some (s\<lparr>searches := yaffsfs_RemoveObjectCallback (objs s) a (searches s), objs := h\<rparr>) \<and>
     dirs_ok h \<and> same_ids (objs s) h \<and>
     par h = (par (objs s))(a := None) \<and> (\<forall>p. kids h p = map_option (remove1 a) (kids (objs s) p)) \<and>
     (\<forall>b. b \<noteq> a \<and> Some b \<noteq> par (objs s) a \<longrightarrow> h b = objs s b)"
proof (cases "o_parent x")
  case None
  let ?h = "(objs s)(a \<mapsto> x\<lparr>o_parent := None\<rparr>)"
  have r: "yaffs_remove_obj_from_dir s a = Some (s\<lparr>searches := yaffsfs_RemoveObjectCallback (objs s) a (searches s), objs := ?h\<rparr>)"
    using x None by (simp add: yaffs_remove_obj_from_dir_def del_sibling_def upd_obj_def)
  have p0: "par (objs s) a = None" using x None by (simp add: par_heap)
  have no: "a \<notin> set cs" if "kids (objs s) p = Some cs" for p cs
    using dirs_okD(3) [OF ok that, of a] p0 by auto
  have k: "kids ?h p = kids (objs s) p" for p using x by (simp add: kids_heap)
  have "kids ?h p = map_option (remove1 a) (kids (objs s) p)" for p
    unfolding k using no by (cases "kids (objs s) p") (auto simp: remove1_idem)
  moreover have pp: "par ?h = (par (objs s))(a := None)" by (auto simp: fun_eq_iff)
  moreover have "dirs_ok ?h"
    by (rule dirs_okI) (unfold pp k, use dirs_okD [OF ok] no p0 in \<open>auto split: if_splits\<close>)
  ultimately show ?thesis using r x by (intro exI [of _ ?h]) (auto intro: same_ids_upd)
next
  case (Some p)
  have p1: "par (objs s) a = Some p" using x Some by (simp add: par_heap)
  obtain cs where cs: "kids (objs s) p = Some cs" "a \<in> set cs" using dirs_okD(1) [OF ok p1] by blast
  then obtain y d where y: "objs s p = Some y" "o_variant y = DirVar cs d"
    by (auto simp: kids_def kids1_dir split: option.splits)
  define h1 where "h1 = (objs s)(p \<mapsto> y\<lparr>o_variant := DirVar (remove1 a cs) d\<rparr>)"
  obtain x1 where x1: "h1 a = Some x1" "o_hashed x1 = o_hashed x" "o_obj_id x1 = o_obj_id x"
    using x y by (cases "a = p") (simp_all add: h1_def)
  let ?h = "h1(a \<mapsto> x1\<lparr>o_parent := None\<rparr>)"
  have r: "yaffs_remove_obj_from_dir s a = Some (s\<lparr>searches := yaffsfs_RemoveObjectCallback (objs s) a (searches s), objs := ?h\<rparr>)"
    using x Some y x1 by (simp add: yaffs_remove_obj_from_dir_def del_sibling_def upd_obj_def h1_def)
  have k1: "kids h1 q = (if q = p then Some (remove1 a cs) else kids (objs s) q)" for q by (simp add: h1_def)
  have k: "kids ?h q = kids h1 q" for q using x1 by (simp add: kids_heap)
  have no: "a \<notin> set cs'" if "kids (objs s) q = Some cs'" "q \<noteq> p" for q cs'
    using dirs_okD(3) [OF ok that(1), of a] p1 that(2) by auto
  have kk: "kids ?h q = map_option (remove1 a) (kids (objs s) q)" for q
    unfolding k k1 using cs(1) no by (cases "kids (objs s) q") (auto simp: remove1_idem)
  have "par h1 = par (objs s)" using y by (auto simp: h1_def fun_eq_iff par_heap)
  then have pp: "par ?h = (par (objs s))(a := None)" by (auto simp: fun_eq_iff)
  have rm: "kids (objs s) q = Some cs' \<Longrightarrow> b \<in> set (remove1 a cs') \<longleftrightarrow> b \<in> set cs' \<and> b \<noteq> a" for q cs' b
    using dirs_okD(2) [OF ok, of q cs'] by simp
  have "dirs_ok ?h"
  proof (rule dirs_okI)
    fix b q assume "par ?h b = Some q"
    then have "b \<noteq> a" "par (objs s) b = Some q" unfolding pp by (auto split: if_splits)
    then obtain cs' where "kids (objs s) q = Some cs'" "b \<in> set cs'" using dirs_okD(1) [OF ok] by blast
    then show "\<exists>cs. kids ?h q = Some cs \<and> b \<in> set cs" unfolding kk using rm \<open>b \<noteq> a\<close> by simp
  next
    fix q cs' assume "kids ?h q = Some cs'"
    then show "distinct cs'" unfolding kk using dirs_okD(2) [OF ok] by auto
  next
    fix q cs' b assume "kids ?h q = Some cs'" and b: "b \<in> set cs'"
    then obtain ds where "kids (objs s) q = Some ds" "cs' = remove1 a ds" unfolding kk by auto
    then show "par ?h b = Some q" unfolding pp using rm b dirs_okD(3) [OF ok] by auto
  qed
  moreover have "same_ids (objs s) ?h"
    by (rule same_ids_trans [of _ h1]) (use x1 y in \<open>auto simp: h1_def intro!: same_ids_upd\<close>)
  moreover have "b \<noteq> a \<Longrightarrow> Some b \<noteq> par (objs s) a \<Longrightarrow> ?h b = objs s b" for b
    using Some x by (auto simp: h1_def par_heap)
  ultimately show ?thesis using r kk pp by (intro exI [of _ ?h]) auto
qed

lemma link_child_ok:
  assumes ok: "dirs_ok (objs s)" and x: "objs s a = Some x" "o_parent x = None" and d: "kids (objs s) p = Some cs"
  shows "\<exists>h. link_child s p a = Some (s\<lparr>objs := h\<rparr>) \<and> dirs_ok h \<and> same_ids (objs s) h \<and>
     par h = (par (objs s))(a \<mapsto> p) \<and> kids h = (kids (objs s))(p \<mapsto> a # cs) \<and>
     (\<forall>b. b \<noteq> a \<and> b \<noteq> p \<longrightarrow> h b = objs s b)"
proof -
  obtain y dl where y: "objs s p = Some y" "o_variant y = DirVar cs dl"
    using d by (auto simp: kids_def kids1_dir split: option.splits)
  define h1 where "h1 = (objs s)(p \<mapsto> y\<lparr>o_variant := DirVar (a # cs) dl\<rparr>)"
  obtain x1 where x1: "h1 a = Some x1" "o_hashed x1 = o_hashed x" "o_obj_id x1 = o_obj_id x"
    using x y by (cases "a = p") (simp_all add: h1_def)
  let ?h = "h1(a \<mapsto> x1\<lparr>o_parent := Some p\<rparr>)"
  have r: "link_child s p a = Some (s\<lparr>objs := ?h\<rparr>)"
    using y x1 by (simp add: link_child_def upd_obj_def h1_def)
  have k1: "kids h1 = (kids (objs s))(p \<mapsto> a # cs)" by (auto simp: h1_def fun_eq_iff)
  have k: "kids ?h = (kids (objs s))(p \<mapsto> a # cs)" unfolding k1 [symmetric] using x1 by (auto simp: kids_heap fun_eq_iff)
  have "par h1 = par (objs s)" using y by (auto simp: h1_def fun_eq_iff par_heap)
  then have pp: "par ?h = (par (objs s))(a \<mapsto> p)" by (auto simp: fun_eq_iff)
  have no: "a \<notin> set cs'" if "kids (objs s) q = Some cs'" for q cs'
    using dirs_okD(3) [OF ok that, of a] x by (auto simp: par_heap)
  have "dirs_ok ?h"
  proof (rule dirs_okI)
    fix b q assume "par ?h b = Some q"
    then show "\<exists>cs. kids ?h q = Some cs \<and> b \<in> set cs" unfolding pp k
      using dirs_okD(1) [OF ok, of b q] d by (auto split: if_splits)
  next
    fix q ds assume "kids ?h q = Some ds"
    then show "distinct ds" unfolding k using dirs_okD(2) [OF ok] d no by (auto split: if_splits)
  next
    fix q ds b assume "kids ?h q = Some ds" "b \<in> set ds"
    then show "par ?h b = Some q" unfolding pp k
      using dirs_okD(3) [OF ok] d no by (auto split: if_splits)
  qed
  moreover have "same_ids (objs s) ?h"
    by (rule same_ids_trans [of _ h1]) (use x1 y in \<open>auto simp: h1_def intro!: same_ids_upd\<close>)
  moreover have "b \<noteq> a \<Longrightarrow> b \<noteq> p \<Longrightarrow> ?h b = objs s b" for b by (auto simp: h1_def)
  ultimately show ?thesis using r k pp by (intro exI [of _ ?h]) auto
qed

lemma add_to_dir_ok:
  assumes ok: "dirs_ok (objs s)" and x: "objs s a = Some x" and d: "kids (objs s) p = Some cs"
  shows "\<exists>s'. yaffs_add_obj_to_dir s p a = Some s' \<and> dirs_ok (objs s') \<and> same_ids (objs s) (objs s') \<and>
     par (objs s') = (par (objs s))(a \<mapsto> p) \<and> kids (objs s') p = Some (a # remove1 a cs) \<and>
     (\<forall>q. q \<noteq> p \<longrightarrow> kids (objs s') q = map_option (remove1 a) (kids (objs s) q)) \<and>
     (\<forall>b. b \<noteq> a \<and> b \<noteq> p \<and> Some b \<noteq> par (objs s) a \<longrightarrow> objs s' b = objs s b) \<and>
     s' = s\<lparr>searches := yaffsfs_RemoveObjectCallback (objs s) a (searches s), objs := objs s',
       sdev := (sdev s)\<lparr>n_unlinked_files := n_unlinked_files (sdev s) +
       (if Some p = unlinked_dir s \<or> Some p = del_dir s then 1 else 0)\<rparr>\<rparr>"
proof -
  define t where "t = s\<lparr>searches := yaffsfs_RemoveObjectCallback (objs s) a (searches s)\<rparr>"
  have t: "objs t = objs s" "unlinked_dir t = unlinked_dir s" "del_dir t = del_dir s" "sdev t = sdev s"
    by (simp_all add: t_def)
  obtain h where h: "yaffs_remove_obj_from_dir s a = Some (t\<lparr>objs := h\<rparr>)" "dirs_ok h" "same_ids (objs s) h"
    "par h = (par (objs s))(a := None)" "\<And>p. kids h p = map_option (remove1 a) (kids (objs s) p)"
    "\<And>b. b \<noteq> a \<Longrightarrow> Some b \<noteq> par (objs s) a \<Longrightarrow> h b = objs s b"
    using remove_from_dir_ok [OF ok x] unfolding t_def by blast
  obtain y where y: "h a = Some y" using same_ids_dom [OF h(3), of a] x by (cases "h a") auto
  have yp: "o_parent y = None" using h(4) par_heap [of h a y] y by simp
  have hd: "kids (objs (t\<lparr>objs := h\<rparr>)) p = Some (remove1 a cs)" using h(5) [of p] d by simp
  obtain k where k: "link_child (t\<lparr>objs := h\<rparr>) p a = Some (t\<lparr>objs := k\<rparr>)" "dirs_ok k" "same_ids h k"
    "par k = (par h)(a \<mapsto> p)" "kids k = (kids h)(p \<mapsto> a # remove1 a cs)"
    "\<And>b. b \<noteq> a \<Longrightarrow> b \<noteq> p \<Longrightarrow> k b = h b"
    using link_child_ok [of "t\<lparr>objs := h\<rparr>" a y p "remove1 a cs"] h(2) y yp hd by auto
  obtain z where z: "k a = Some z" using same_ids_dom [OF k(3), of a] y by (cases "k a") auto
  let ?k = "k(a \<mapsto> z\<lparr>o_unlinked := True, o_rename_allowed := False\<rparr>)"
  have kk: "kids ?k = kids k" "par ?k = par k" using z by (auto simp: fun_eq_iff kids_heap par_heap)
  have sk: "same_ids k ?k" using z by (auto intro: same_ids_upd)
  have sid: "same_ids (objs s) k" by (rule same_ids_trans [OF h(3) k(3)])
  have pp: "par k = (par (objs s))(a \<mapsto> p)" using k(4) h(4) by simp
  have kp: "kids k p = Some (a # remove1 a cs)" "q \<noteq> p \<Longrightarrow> kids k q = map_option (remove1 a) (kids (objs s) q)" for q
    using k(5) h(5) by simp_all
  have fr: "b \<noteq> a \<Longrightarrow> b \<noteq> p \<Longrightarrow> Some b \<noteq> par (objs s) a \<Longrightarrow> k b = objs s b" for b using k(6) h(6) by simp
  show ?thesis
  proof (cases "Some p = unlinked_dir s \<or> Some p = del_dir s")
    case True
    have "yaffs_add_obj_to_dir s p a = Some (t\<lparr>objs := ?k, sdev := (sdev s)\<lparr>n_unlinked_files := n_unlinked_files (sdev s) + 1\<rparr>\<rparr>)"
      using h(1) k(1) True z by (simp add: yaffs_add_obj_to_dir_def upd_obj_def set_dev_def t)
    moreover have "dirs_ok ?k" using k(2) unfolding dirs_ok_def kk .
    ultimately show ?thesis using True same_ids_trans [OF sid sk] pp kp fr
      by (intro exI [of _ "t\<lparr>objs := ?k, sdev := (sdev s)\<lparr>n_unlinked_files := n_unlinked_files (sdev s) + 1\<rparr>\<rparr>"])
        (simp add: kk t_def)
  next
    case False
    have "yaffs_add_obj_to_dir s p a = Some (t\<lparr>objs := k\<rparr>)"
      using h(1) k(1) False by (simp add: yaffs_add_obj_to_dir_def t)
    then show ?thesis using False sid k(2) pp kp fr by (intro exI [of _ "t\<lparr>objs := k\<rparr>"]) (simp add: t_def)
  qed
qed

end
