(* ===== verification/Yaffs_New_Obj.thy ===== *)
theory Yaffs_New_Obj
  imports Yaffs_Dirs_Inv
begin

text \<open>
  New and freed objects keep the hash table and the directory tree, and the first
  directories of a mount establish them.
\<close>

section \<open>New objects\<close>

text \<open>The special directories are directories.\<close>

definition special_dirs_ok :: "'n yaffs_sys \<Rightarrow> bool" where
  "special_dirs_ok s \<longleftrightarrow> (\<forall>p. Some p \<in> {root_dir s, lost_n_found s, unlinked_dir s, del_dir s} \<longrightarrow> kids (objs s) p \<noteq> None)"

definition tree_state_ok :: "'n yaffs_sys \<Rightarrow> bool" where
  "tree_state_ok s \<longleftrightarrow> table_ok s \<and> dirs_ok (objs s) \<and> special_dirs_ok s"

lemma fresh_addr:
  assumes "dirs_ok h" and "h a = None"
  shows "kids h a = None" "par h a = None" "kids h p = Some cs \<Longrightarrow> a \<notin> set cs" "par h b \<noteq> Some a"
proof -
  show "kids h a = None" "par h a = None" using assms(2) by (simp_all add: kids_def par_def)
  then show "kids h p = Some cs \<Longrightarrow> a \<notin> set cs" using dirs_okD(3) [OF assms(1), of p cs a] by auto
  show "par h b \<noteq> Some a" using dirs_okD(1) [OF assms(1), of b a] \<open>kids h a = None\<close> by auto
qed

lemma dirs_ok_fresh:
  assumes "dirs_ok h" and "h a = None" and "o_parent x = None" and "kids1 x = None \<or> kids1 x = Some []"
  shows "dirs_ok (h(a \<mapsto> x))"
proof (rule dirs_okI)
  note f = fresh_addr [OF assms(1,2)]
  fix b q assume "par (h(a \<mapsto> x)) b = Some q"
  then have "par h b = Some q" "q \<noteq> a" using assms(3) f(4) by (auto split: if_splits)
  then show "\<exists>cs. kids (h(a \<mapsto> x)) q = Some cs \<and> b \<in> set cs" using dirs_okD(1) [OF assms(1)] by simp
next
  fix q cs assume "kids (h(a \<mapsto> x)) q = Some cs"
  then show "distinct cs" using assms(4) dirs_okD(2) [OF assms(1)] by (auto split: if_splits)
next
  fix q cs b assume q: "kids (h(a \<mapsto> x)) q = Some cs" "b \<in> set cs"
  then have "kids h q = Some cs" using assms(4) by (auto split: if_splits)
  then show "par (h(a \<mapsto> x)) b = Some q" using q(2) dirs_okD(3) [OF assms(1)] fresh_addr(3) [OF assms(1,2)] by auto
qed

text \<open>A change of an object that leaves its links alone.\<close>

lemma dirs_ok_upd:
  assumes "dirs_ok h" and "h a = Some x" and "o_parent y = o_parent x" and "kids1 y = kids1 x"
  shows "dirs_ok (h(a \<mapsto> y))" "kids (h(a \<mapsto> y)) = kids h" "par (h(a \<mapsto> y)) = par h"
proof -
  show k: "kids (h(a \<mapsto> y)) = kids h" "par (h(a \<mapsto> y)) = par h"
    using assms by (auto simp: fun_eq_iff kids_heap par_heap)
  show "dirs_ok (h(a \<mapsto> y))" using assms(1) unfolding dirs_ok_def k .
qed

lemma hash_obj_ok:
  assumes ok: "table_ok s" and x: "objs s a = Some x" "\<not> o_hashed x" and new: "\<And>b. \<not> hashed s (o_obj_id x) b"
  shows "\<exists>bs. yaffs_hash_obj s a = Some (s\<lparr>obj_bucket := bs, objs := (objs s)(a \<mapsto> x\<lparr>o_hashed := True\<rparr>)\<rparr>) \<and>
     table_ok (s\<lparr>obj_bucket := bs, objs := (objs s)(a \<mapsto> x\<lparr>o_hashed := True\<rparr>)\<rparr>)"
proof -
  let ?b = "yaffs_hash_fn (o_obj_id x)"
  let ?bs = "(obj_bucket s)[?b := a # obj_bucket s ! ?b]"
  let ?s = "s\<lparr>obj_bucket := ?bs, objs := (objs s)(a \<mapsto> x\<lparr>o_hashed := True\<rparr>)\<rparr>"
  note okd = ok [unfolded table_ok_def]
  have len: "length (obj_bucket s) = YAFFS_NOBJECT_BUCKETS" using okd by blast
  have h: "hashed ?s n c \<longleftrightarrow> (c = a \<and> n = o_obj_id x) \<or> hashed s n c" for n c
    using x by (auto simp: hashed_def)
  have na: "\<not> hashed s n a" for n using x by (simp add: hashed_def)
  have "yaffs_hash_obj s a = Some ?s"
    using x len hash_fn_less [of "o_obj_id x"] by (simp add: yaffs_hash_obj_def upd_obj_def Let_def not_le)
  moreover have "table_ok ?s"
    unfolding table_ok_def
  proof (intro conjI allI impI)
    show "length (obj_bucket ?s) = YAFFS_NOBJECT_BUCKETS" using len by simp
  next
    fix b assume b: "b < YAFFS_NOBJECT_BUCKETS"
    have old: "distinct (obj_bucket s ! b)" "set (obj_bucket s ! b) = {c. \<exists>n. hashed s n c \<and> yaffs_hash_fn n = b}"
      using okd b by blast+
    show "distinct (obj_bucket ?s ! b)" using old na len b by (auto simp: nth_list_update)
    show "set (obj_bucket ?s ! b) = {c. \<exists>n. hashed ?s n c \<and> yaffs_hash_fn n = b}"
      unfolding h using old(2) len b by (auto simp: nth_list_update)
  next
    fix n c d assume "hashed ?s n c \<and> hashed ?s n d"
    moreover have "hashed s n c \<and> hashed s n d \<Longrightarrow> c = d" using okd by blast
    ultimately show "c = d" unfolding h using new by auto
  next
    fix c assume "next_obj ?s \<le> c"
    then have "objs s c = None" using okd by simp
    then show "objs ?s c = None" using x by (cases "c = a") simp_all
  qed
  ultimately show ?thesis by blast
qed

lemma table_ok_fresh:
  assumes ok: "table_ok s" and "\<not> o_hashed x"
  shows "table_ok (s\<lparr>objs := (objs s)(next_obj s \<mapsto> x), next_obj := next_obj s + 1\<rparr>)" (is "table_ok ?s")
proof -
  note okd = ok [unfolded table_ok_def]
  have none: "objs s (next_obj s) = None" using okd by blast
  have h: "hashed ?s = hashed s" using none assms(2) by (auto simp: hashed_def fun_eq_iff)
  have "\<forall>a \<ge> next_obj ?s. objs ?s a = None" using okd by auto
  then show ?thesis unfolding table_ok_def h using okd by simp
qed

lemma alloc_raw_obj_cases:
  "(\<exists>d. yaffs_alloc_raw_obj s = (None, s\<lparr>sdev := d\<rparr>)) \<or>
   (\<exists>d. yaffs_alloc_raw_obj s = (Some (next_obj s), s\<lparr>sdev := d, next_obj := next_obj s + 1\<rparr>))"
  by (auto simp: yaffs_alloc_raw_obj_def Let_def)

text \<open>What an operation leaves alone besides the objects, their links and the device.\<close>

definition obj_frame :: "'n yaffs_sys \<Rightarrow> 'n yaffs_sys \<Rightarrow> bool" where
  "obj_frame s s' \<longleftrightarrow> s' = s\<lparr>objs := objs s', sdev := sdev s', next_obj := next_obj s',
     obj_bucket := obj_bucket s', bucket_finder := bucket_finder s', clock := clock s', searches := searches s'\<rparr>"

lemma special_dirs_mono:
  assumes "special_dirs_ok s" and "\<And>p. kids (objs s) p \<noteq> None \<Longrightarrow> kids (objs s') p \<noteq> None"
    and "root_dir s' = root_dir s" "lost_n_found s' = lost_n_found s" "unlinked_dir s' = unlinked_dir s" "del_dir s' = del_dir s"
  shows "special_dirs_ok s'"
  using assms unfolding special_dirs_ok_def by metis

lemma obj_frame_special:
  assumes "obj_frame s s'" and "special_dirs_ok s" and "\<And>p. kids (objs s) p \<noteq> None \<Longrightarrow> kids (objs s') p \<noteq> None"
  shows "special_dirs_ok s'"
proof (rule special_dirs_mono [OF assms(2,3)])
  have e: "s' = s\<lparr>objs := objs s', sdev := sdev s', next_obj := next_obj s',
     obj_bucket := obj_bucket s', bucket_finder := bucket_finder s', clock := clock s', searches := searches s'\<rparr>"
    using assms(1) by (simp add: obj_frame_def)
  show "root_dir s' = root_dir s" "lost_n_found s' = lost_n_found s" "unlinked_dir s' = unlinked_dir s"
    "del_dir s' = del_dir s" by (subst e, simp)+
qed

lemma obj_frame_trans: "obj_frame s s1 \<Longrightarrow> obj_frame s1 s2 \<Longrightarrow> obj_frame s s2"
  unfolding obj_frame_def by (cases s; cases s1; cases s2) simp

lemma obj_frameI: "s' = s\<lparr>searches := ds, objs := h, sdev := d\<rparr> \<Longrightarrow> obj_frame s s'"
  by (simp add: obj_frame_def)

text \<open>A new object is put into the root directory first, if there is one, and from there into lost+found.\<close>

lemma link_root_ok:
  assumes ok: "dirs_ok (objs s)" and x: "objs s a = Some x" "o_parent x = None" "kids1 x = None"
    and sp: "\<And>r. root_dir s = Some r \<Longrightarrow> kids (objs s) r \<noteq> None"
  shows "\<exists>h. (case root_dir s of None \<Rightarrow> Some s | Some r \<Rightarrow> link_child s r a) = Some (s\<lparr>objs := h\<rparr>) \<and>
     dirs_ok h \<and> same_ids (objs s) h \<and> par h = (par (objs s))(a := root_dir s) \<and> kids h a = None \<and>
     (\<forall>p. kids (objs s) p \<noteq> None \<longrightarrow> kids h p \<noteq> None)"
proof (cases "root_dir s")
  case None
  have "par (objs s) = (par (objs s))(a := None)" using x by (auto simp: fun_eq_iff par_heap)
  then show ?thesis using None ok x by (intro exI [of _ "objs s"]) (simp add: kids_heap)
next
  case (Some r)
  obtain rc where rc: "kids (objs s) r = Some rc" using sp [OF Some] by blast
  have "r \<noteq> a" using rc x by (auto simp: kids_heap)
  then show ?thesis using link_child_ok [OF ok x(1,2) rc] Some x by (auto simp: kids_heap)
qed

lemma link_lost_ok:
  assumes ok: "dirs_ok (objs s)" and x: "objs s a = Some x" and ka: "kids (objs s) a = None"
    and pr: "lost_n_found s = None \<longrightarrow> par (objs s) a = root_dir s"
    and sp: "\<And>l. lost_n_found s = Some l \<Longrightarrow> kids (objs s) l \<noteq> None"
  shows "\<exists>s'. (case lost_n_found s of None \<Rightarrow> Some s | Some l \<Rightarrow> yaffs_add_obj_to_dir s l a) = Some s' \<and>
     dirs_ok (objs s') \<and> same_ids (objs s) (objs s') \<and> (\<exists>ds d. s' = s\<lparr>searches := ds, objs := objs s', sdev := d\<rparr>) \<and>
     par (objs s') = (par (objs s))(a := (case lost_n_found s of None \<Rightarrow> root_dir s | Some l \<Rightarrow> Some l)) \<and>
     kids (objs s') a = None \<and> (\<forall>p. kids (objs s) p \<noteq> None \<longrightarrow> kids (objs s') p \<noteq> None)"
proof (cases "lost_n_found s")
  case None
  then have "par (objs s) = (par (objs s))(a := root_dir s)" using pr by (auto simp: fun_eq_iff)
  moreover have "\<exists>ds d. s = s\<lparr>searches := ds, objs := objs s, sdev := d\<rparr>"
    by (rule exI [of _ "searches s"], rule exI [of _ "sdev s"]) simp
  ultimately show ?thesis using None ok ka by (intro exI [of _ s]) simp
next
  case (Some l)
  obtain lc where lc: "kids (objs s) l = Some lc" using sp [OF Some] by blast
  then have "l \<noteq> a" using ka by auto
  obtain s' where s': "yaffs_add_obj_to_dir s l a = Some s'" "dirs_ok (objs s')" "same_ids (objs s) (objs s')"
    "par (objs s') = (par (objs s))(a \<mapsto> l)" "kids (objs s') l = Some (a # remove1 a lc)"
    "\<And>q. q \<noteq> l \<Longrightarrow> kids (objs s') q = map_option (remove1 a) (kids (objs s) q)"
    "\<exists>ds d. s' = s\<lparr>searches := ds, objs := objs s', sdev := d\<rparr>"
    using add_to_dir_ok [OF ok x lc] by blast
  have "kids (objs s') p \<noteq> None" if "kids (objs s) p \<noteq> None" for p
    using that s'(5,6) by (cases "p = l") auto
  then show ?thesis using s' Some ka \<open>l \<noteq> a\<close> by (intro exI [of _ s']) simp
qed

definition new_parent :: "'n yaffs_sys \<Rightarrow> nat option" where
  "new_parent s = (case lost_n_found s of None \<Rightarrow> root_dir s | Some l \<Rightarrow> Some l)"

lemma alloc_empty_obj_ok:
  assumes ok: "tree_state_ok s"
  shows "\<exists>r s'. yaffs_alloc_empty_obj s = Some (r, s') \<and> tree_state_ok s' \<and> obj_frame s s' \<and>
     hashed s' = hashed s \<and> (r = None \<longrightarrow> objs s' = objs s) \<and> (\<forall>p. kids (objs s) p \<noteq> None \<longrightarrow> kids (objs s') p \<noteq> None) \<and>
     (\<forall>a. r = Some a \<longrightarrow> objs s a = None \<and> par (objs s') = (par (objs s))(a := new_parent s) \<and>
        (\<exists>x. objs s' a = Some x \<and> \<not> o_hashed x \<and> kids1 x = None))"
proof -
  have tok: "table_ok s" "dirs_ok (objs s)" "special_dirs_ok s" using ok by (simp_all add: tree_state_ok_def)
  consider d where "yaffs_alloc_raw_obj s = (None, s\<lparr>sdev := d\<rparr>)"
    | d where "yaffs_alloc_raw_obj s = (Some (next_obj s), s\<lparr>sdev := d, next_obj := next_obj s + 1\<rparr>)"
    using alloc_raw_obj_cases [of s] by blast
  then show ?thesis
  proof cases
    case 1
    have "table_ok (s\<lparr>sdev := d\<rparr>)" by (rule table_ok_same [OF tok(1)]) simp_all
    moreover have "obj_frame s (s\<lparr>sdev := d\<rparr>)" by (simp add: obj_frame_def)
    moreover have "hashed (s\<lparr>sdev := d\<rparr>) = hashed s" by (simp add: hashed_def fun_eq_iff)
    ultimately show ?thesis using 1 tok(2,3)
      by (simp add: yaffs_alloc_empty_obj_def tree_state_ok_def special_dirs_ok_def)
  next
    case 2
    let ?a = "next_obj s" and ?x = "zero_obj\<lparr>o_being_created := True\<rparr>"
    have none: "objs s ?a = None" using tok(1) unfolding table_ok_def by blast
    define d1 where "d1 = d\<lparr>n_obj := n_obj d + 1\<rparr>"
    define s1 where "s1 = s\<lparr>next_obj := ?a + 1, sdev := d1, objs := (objs s)(?a \<mapsto> ?x)\<rparr>"
    have dirs: "root_dir s1 = root_dir s" "lost_n_found s1 = lost_n_found s" by (simp_all add: s1_def)
    have x0: "o_parent ?x = None" "kids1 ?x = None" "\<not> o_hashed ?x" by (simp_all add: zero_obj_def kids1_def)
    have s1: "dirs_ok (objs s1)" "objs s1 ?a = Some ?x" "par (objs s1) = par (objs s)" "kids (objs s1) = kids (objs s)"
      using dirs_ok_fresh [OF tok(2) none x0(1)] x0 fresh_addr [OF tok(2) none]
      by (auto simp: s1_def fun_eq_iff)
    have t1: "table_ok s1"
      by (rule table_ok_same [OF table_ok_fresh [OF tok(1) x0(3)]]) (simp_all add: s1_def)
    have h1: "hashed s1 = hashed s" using none x0(3) by (auto simp: s1_def hashed_def fun_eq_iff)
    have sp: "root_dir s1 = Some r \<Longrightarrow> kids (objs s1) r \<noteq> None" "lost_n_found s1 = Some r \<Longrightarrow> kids (objs s1) r \<noteq> None" for r
      using tok(3) unfolding special_dirs_ok_def s1(4) dirs by auto
    obtain h where h: "(case root_dir s1 of None \<Rightarrow> Some s1 | Some r \<Rightarrow> link_child s1 r ?a) = Some (s1\<lparr>objs := h\<rparr>)"
      "dirs_ok h" "same_ids (objs s1) h" "par h = (par (objs s1))(?a := root_dir s1)" "kids h ?a = None"
      "\<And>p. kids (objs s1) p \<noteq> None \<Longrightarrow> kids h p \<noteq> None"
      using link_root_ok [OF s1(1,2) x0(1,2) sp(1)] by blast
    have dirs': "root_dir (s1\<lparr>objs := h\<rparr>) = root_dir s" by (simp add: dirs)
    obtain y where y: "objs (s1\<lparr>objs := h\<rparr>) ?a = Some y"
      using same_ids_dom [OF h(3), of ?a] s1(2) by (cases "h ?a") auto
    have hyp: "dirs_ok (objs (s1\<lparr>objs := h\<rparr>))" "kids (objs (s1\<lparr>objs := h\<rparr>)) ?a = None"
      "lost_n_found (s1\<lparr>objs := h\<rparr>) = None \<longrightarrow> par (objs (s1\<lparr>objs := h\<rparr>)) ?a = root_dir (s1\<lparr>objs := h\<rparr>)"
      "\<And>l. lost_n_found (s1\<lparr>objs := h\<rparr>) = Some l \<Longrightarrow> kids (objs (s1\<lparr>objs := h\<rparr>)) l \<noteq> None"
      using h(2,4,5,6) sp(2) by simp_all
    obtain s2 ds2 d2 where s2: "(case lost_n_found s1 of None \<Rightarrow> Some (s1\<lparr>objs := h\<rparr>)
        | Some l \<Rightarrow> yaffs_add_obj_to_dir (s1\<lparr>objs := h\<rparr>) l ?a) = Some s2" "dirs_ok (objs s2)"
      "same_ids h (objs s2)" "par (objs s2) = (par h)(?a := new_parent s)" "kids (objs s2) ?a = None"
      "\<And>p. kids h p \<noteq> None \<Longrightarrow> kids (objs s2) p \<noteq> None" "s2 = s1\<lparr>searches := ds2, objs := objs s2, sdev := d2\<rparr>"
      using link_lost_ok [OF hyp(1) y hyp(2-4)] unfolding new_parent_def dirs' by (auto simp: dirs)
    obtain z where z: "objs s2 ?a = Some z" using same_ids_dom [OF s2(3), of ?a] y by (cases "objs s2 ?a") auto
    let ?h = "(objs s2)(?a \<mapsto> z\<lparr>o_being_created := False\<rparr>)"
    define s3 where "s3 = s2\<lparr>objs := ?h, sdev := (sdev s2)\<lparr>checkpoint_blocks_required := 0\<rparr>\<rparr>"
    have kz: "kids1 (z\<lparr>o_being_created := False\<rparr>) = kids1 z" by (simp add: kids1_def)
    note up = dirs_ok_upd [OF s2(2) z, of "z\<lparr>o_being_created := False\<rparr>", simplified kz, simplified]
    have st: "yaffs_alloc_empty_obj s =
        do { s \<leftarrow> (case root_dir s1 of None \<Rightarrow> Some s1 | Some r \<Rightarrow> link_child s1 r ?a);
             s \<leftarrow> (case lost_n_found s of None \<Rightarrow> Some s | Some l \<Rightarrow> yaffs_add_obj_to_dir s l ?a);
             s \<leftarrow> upd_obj s ?a (\<lambda>x. x\<lparr>o_being_created := False\<rparr>);
             Some (Some ?a, set_dev (\<lambda>d. d\<lparr>checkpoint_blocks_required := 0\<rparr>) s) }"
      using 2 by (cases "root_dir s") (simp_all add: yaffs_alloc_empty_obj_def set_dev_def s1_def d1_def Let_def)
    have run: "yaffs_alloc_empty_obj s = Some (Some ?a, s3)"
      by (simp add: st h(1) s2(1) upd_obj_def z s3_def set_dev_def)
    have sid: "same_ids (objs s1) (objs s3)"
    proof -
      have "same_ids (objs s2) ?h" using same_ids_upd [of "objs s2" ?a z "z\<lparr>o_being_created := False\<rparr>"] z by simp
      then show ?thesis using same_ids_trans [OF same_ids_trans [OF h(3) s2(3)]] by (simp add: s3_def)
    qed
    have e2: "obj_bucket s2 = obj_bucket s1" "next_obj s2 = next_obj s1" by (subst s2(7), simp)+
    have t3: "table_ok s3" by (rule table_ok_same [OF t1 sid]) (simp_all add: s3_def e2)
    have h3: "hashed s3 = hashed s" using hashed_same [OF sid] h1 by (auto simp: fun_eq_iff)
    have "obj_frame s s1" by (simp add: obj_frame_def s1_def)
    moreover have "obj_frame s1 s2" using s2(7) by (rule obj_frameI)
    moreover have "obj_frame s2 s3" by (simp add: obj_frame_def s3_def)
    ultimately have f3: "obj_frame s s3" by (blast intro: obj_frame_trans)
    have d3: "dirs_ok (objs s3)" "par (objs s3) = (par (objs s))(?a := new_parent s)" "kids (objs s3) = kids (objs s2)"
      using up s2(4) h(4) s1(3) by (simp_all add: s3_def)
    have k3: "kids (objs s3) p \<noteq> None" if "kids (objs s) p \<noteq> None" for p
      using that s2(6) h(6) s1(4) d3(3) by simp
    then have sp3: "special_dirs_ok s3" by (rule obj_frame_special [OF f3 tok(3)])
    have x3: "objs s3 ?a = Some (z\<lparr>o_being_created := False\<rparr>)" "kids1 (z\<lparr>o_being_created := False\<rparr>) = None"
      using s2(5) z kz by (simp_all add: s3_def kids_heap)
    have "\<not> hashed s3 (o_obj_id z) ?a" unfolding h3 using none by (simp add: hashed_def)
    then have "\<not> o_hashed (z\<lparr>o_being_created := False\<rparr>)" using x3(1) by (simp add: hashed_def)
    then show ?thesis using run t3 d3 sp3 f3 h3 none x3 k3 by (auto simp: tree_state_ok_def)
  qed
qed

text \<open>The variant of a new object has no children, and it is of the type asked for.\<close>

lemma new_variant_kids: "kids1 (x\<lparr>o_variant := new_variant d ty tn\<rparr>) \<in> {None, Some []}"
  by (auto simp: new_variant_def kids1_def)

lemma load_current_time_eq:
  assumes "objs s a = Some x"
  shows "\<exists>t cl. yaffs_load_current_time s a True True =
     Some (s\<lparr>clock := cl, objs := (objs s)(a \<mapsto> x\<lparr>o_yst_mtime := t, o_yst_atime := t, o_yst_ctime := t\<rparr>)\<rparr>)"
  using assms
  by (intro exI [of _ "fst (current_time s)"] exI [of _ "clock (snd (current_time s))"], cases "clock s")
    (auto simp: yaffs_load_current_time_def current_time_def upd_obj_def)

lemma table_ok_dev:
  assumes "table_ok s" shows "table_ok (s\<lparr>sdev := d\<rparr>)" "table_ok (s\<lparr>bucket_finder := f\<rparr>)" "table_ok (s\<lparr>clock := c\<rparr>)"
  by (rule table_ok_same [OF assms]; simp)+

lemma tree_state_ok_dev:
  assumes "tree_state_ok s"
  shows "tree_state_ok (s\<lparr>sdev := d\<rparr>)" "tree_state_ok (s\<lparr>bucket_finder := f\<rparr>)"
proof -
  have "table_ok s" "dirs_ok (objs s)" "special_dirs_ok s" using assms by (simp_all add: tree_state_ok_def)
  then show "tree_state_ok (s\<lparr>sdev := d\<rparr>)" "tree_state_ok (s\<lparr>bucket_finder := f\<rparr>)"
    using table_ok_dev [of s] by (simp_all add: tree_state_ok_def special_dirs_ok_def)
qed

text \<open>The part of \<^verbatim>\<open>yaffs_new_obj\<close> that fills in the object it has got.\<close>

lemma fill_new_obj:
  assumes ok: "tree_state_ok s" and x: "objs s a = Some x" "\<not> o_hashed x" "kids1 x = None"
    and new: "\<And>b. \<not> hashed s n b"
  shows "\<exists>s'. do { s \<leftarrow> upd_obj s a (\<lambda>x. x\<lparr>o_fake := False, o_rename_allowed := True,
                                 o_unlink_allowed := True, o_obj_id := n\<rparr>);
               s \<leftarrow> yaffs_hash_obj s a;
               s \<leftarrow> yaffs_load_current_time s a True True;
               s \<leftarrow> upd_obj s a (\<lambda>x. x\<lparr>o_variant := new_variant (sdev s) ty tn\<rparr>);
               Some (Some a, s) } = Some (Some a, s') \<and>
     tree_state_ok s' \<and> obj_frame s s' \<and> par (objs s') = par (objs s) \<and> (\<forall>p. kids (objs s) p \<noteq> None \<longrightarrow> kids (objs s') p \<noteq> None) \<and>
     (\<forall>m b. hashed s' m b \<longleftrightarrow> hashed s m b \<or> (m = n \<and> b = a)) \<and>
     (\<exists>y. objs s' a = Some y \<and> o_variant y = new_variant (sdev s) ty tn)"
proof -
  have tok: "table_ok s" "dirs_ok (objs s)" "special_dirs_ok s" using ok by (simp_all add: tree_state_ok_def)
  define x1 where "x1 = x\<lparr>o_fake := False, o_rename_allowed := True, o_unlink_allowed := True, o_obj_id := n\<rparr>"
  let ?s1 = "s\<lparr>objs := (objs s)(a \<mapsto> x1)\<rparr>"
  have x1: "\<not> o_hashed x1" "o_obj_id x1 = n" "o_parent x1 = o_parent x" "kids1 x1 = None"
    using x by (simp_all add: x1_def kids1_def)
  have h1: "hashed ?s1 = hashed s" using x x1 by (auto simp: hashed_def fun_eq_iff)
  have t1: "table_ok ?s1"
  proof -
    note okd = tok(1) [unfolded table_ok_def]
    have "objs ?s1 c = None" if "c \<ge> next_obj s" for c
    proof -
      have "objs s c = None" using okd that by blast
      then show ?thesis using x(1) by (cases "c = a") simp_all
    qed
    then have "\<forall>c \<ge> next_obj ?s1. objs ?s1 c = None" by simp
    then show ?thesis unfolding table_ok_def h1
      using conjunct1 [OF okd] conjunct1 [OF conjunct2 [OF okd]] conjunct1 [OF conjunct2 [OF conjunct2 [OF okd]]]
      by simp
  qed
  obtain bs where hash: "yaffs_hash_obj ?s1 a = Some (?s1\<lparr>obj_bucket := bs, objs := (objs ?s1)(a \<mapsto> x1\<lparr>o_hashed := True\<rparr>)\<rparr>)"
    "table_ok (?s1\<lparr>obj_bucket := bs, objs := (objs ?s1)(a \<mapsto> x1\<lparr>o_hashed := True\<rparr>)\<rparr>)"
    using hash_obj_ok [OF t1, of a x1] x1 new h1 by auto
  let ?x2 = "x1\<lparr>o_hashed := True\<rparr>"
  let ?s2 = "s\<lparr>obj_bucket := bs, objs := (objs s)(a \<mapsto> ?x2)\<rparr>"
  have s2: "yaffs_hash_obj ?s1 a = Some ?s2" "table_ok ?s2" using hash by simp_all
  obtain t cl where lt: "yaffs_load_current_time ?s2 a True True =
      Some (?s2\<lparr>clock := cl, objs := (objs ?s2)(a \<mapsto> ?x2\<lparr>o_yst_mtime := t, o_yst_atime := t, o_yst_ctime := t\<rparr>)\<rparr>)"
    using load_current_time_eq [of ?s2 a ?x2] by auto
  define y where "y = ?x2\<lparr>o_yst_mtime := t, o_yst_atime := t, o_yst_ctime := t,
      o_variant := new_variant (sdev s) ty tn\<rparr>"
  let ?s' = "s\<lparr>obj_bucket := bs, clock := cl, objs := (objs s)(a \<mapsto> y)\<rparr>"
  have y: "o_hashed y" "o_obj_id y = n" "o_parent y = o_parent x" "kids1 y \<in> {None, Some []}"
    using x1 new_variant_kids by (auto simp: y_def)
  have run: "do { s \<leftarrow> upd_obj s a (\<lambda>x. x\<lparr>o_fake := False, o_rename_allowed := True,
                                 o_unlink_allowed := True, o_obj_id := n\<rparr>);
               s \<leftarrow> yaffs_hash_obj s a;
               s \<leftarrow> yaffs_load_current_time s a True True;
               s \<leftarrow> upd_obj s a (\<lambda>x. x\<lparr>o_variant := new_variant (sdev s) ty tn\<rparr>);
               Some (Some a, s) } = Some (Some a, ?s')"
    using x(1) s2(1) lt by (simp add: upd_obj_def x1_def [symmetric] y_def)
  have "same_ids (objs ?s2) (objs ?s')" using y x1 by (auto simp: same_ids_def)
  then have t': "table_ok ?s'" by (rule table_ok_same [OF s2(2)]) simp_all
  have h': "hashed ?s' m b \<longleftrightarrow> hashed s m b \<or> (m = n \<and> b = a)" for m b
    using x(1,2) y by (auto simp: hashed_def)
  have pp: "par (objs ?s') = par (objs s)" using x y by (auto simp: fun_eq_iff par_heap)
  have ka: "kids (objs s) a = None" using x by (simp add: kids_heap)
  have "dirs_ok (objs ?s')"
  proof (rule dirs_okI)
    fix b q assume "par (objs ?s') b = Some q"
    then show "\<exists>cs. kids (objs ?s') q = Some cs \<and> b \<in> set cs"
      unfolding pp using dirs_okD(1) [OF tok(2), of b q] ka by auto
  next
    fix q cs assume "kids (objs ?s') q = Some cs"
    then show "distinct cs" using dirs_okD(2) [OF tok(2)] y(4) by (auto split: if_splits)
  next
    fix q cs b assume q: "kids (objs ?s') q = Some cs" "b \<in> set cs"
    then have "kids (objs s) q = Some cs" using y(4) by (auto split: if_splits)
    then show "par (objs ?s') b = Some q" unfolding pp using dirs_okD(3) [OF tok(2)] q(2) by blast
  qed
  moreover have fr: "obj_frame s ?s'" by (simp add: obj_frame_def)
  moreover have kk: "\<forall>p. kids (objs s) p \<noteq> None \<longrightarrow> kids (objs ?s') p \<noteq> None" using ka by auto
  moreover have "special_dirs_ok ?s'" using kk by (intro obj_frame_special [OF fr tok(3)]) blast
  ultimately show ?thesis using run t' h' pp
    by (intro exI [of _ ?s']) (auto simp: tree_state_ok_def y_def)
qed

lemma new_obj_ok:
  assumes ok: "tree_state_ok s"
    and number: "(case num of None \<Rightarrow> buckets_small s | Some n \<Rightarrow> \<forall>b. \<not> hashed s n b)"
  shows "\<exists>r s'. yaffs_new_obj s num ty = Some (r, s') \<and> tree_state_ok s' \<and> obj_frame s s' \<and> (\<forall>p. kids (objs s) p \<noteq> None \<longrightarrow> kids (objs s') p \<noteq> None) \<and>
     (r = None \<longrightarrow> objs s' = objs s) \<and>
     (\<forall>a. r = Some a \<longrightarrow> objs s a = None \<and> par (objs s') = (par (objs s))(a := new_parent s) \<and>
        (\<exists>x. objs s' a = Some x \<and> var_type (o_variant x) = var_type (new_variant (sdev s) ty None)) \<and>
        kids (objs s') a = (if ty = YAFFS_OBJECT_TYPE_DIRECTORY then Some [] else None) \<and>
        (\<exists>n. (num = None \<longrightarrow> sint n > 0) \<and> (num \<noteq> None \<longrightarrow> num = Some n) \<and> (\<forall>b. \<not> hashed s n b) \<and>
           (\<forall>m b. hashed s' m b \<longleftrightarrow> hashed s m b \<or> (m = n \<and> b = a))))"
proof -
  have tok: "table_ok s" using ok by (simp add: tree_state_ok_def)
  obtain n f where n: "(case num of None \<Rightarrow> yaffs_new_obj_id s | Some n \<Rightarrow> Some (n, s)) = Some (n, s\<lparr>bucket_finder := f\<rparr>)"
    "num = None \<longrightarrow> sint n > 0" "num \<noteq> None \<longrightarrow> num = Some n" "\<And>a. \<not> hashed s n a"
  proof (cases num)
    case None
    then show ?thesis using new_obj_id_ok [OF tok] number that by auto
  next
    case (Some n)
    have "(case num of None \<Rightarrow> yaffs_new_obj_id s | Some n \<Rightarrow> Some (n, s)) = Some (n, s\<lparr>bucket_finder := bucket_finder s\<rparr>)"
      by (simp add: Some)
    moreover have "\<not> hashed s n b" for b using number Some by simp
    ultimately show ?thesis using Some by (intro that [of n "bucket_finder s"]) simp_all
  qed
  define tn d where "tn = (if ty = YAFFS_OBJECT_TYPE_FILE then fst (yaffs_get_tnode (sdev s) 0) else None)"
    and "d = (if ty = YAFFS_OBJECT_TYPE_FILE then snd (yaffs_get_tnode (sdev s) 0) else sdev s)"
  define s1 where "s1 = s\<lparr>bucket_finder := f, sdev := d\<rparr>"
  have isf: "ty = YAFFS_OBJECT_TYPE_FILE \<Longrightarrow> yaffs_get_tnode (sdev s) 0 = (tn, d)"
    and other: "ty \<noteq> YAFFS_OBJECT_TYPE_FILE \<Longrightarrow> tn = None \<and> s\<lparr>bucket_finder := f\<rparr> = s1"
    by (simp_all add: tn_def d_def s1_def)
  have s1: "tree_state_ok s1" "obj_frame s s1" "hashed s1 = hashed s" "objs s1 = objs s"
    "root_dir s1 = root_dir s" "lost_n_found s1 = lost_n_found s"
    using tree_state_ok_dev(1) [OF tree_state_ok_dev(2) [OF ok]] by (simp_all add: s1_def obj_frame_def hashed_def fun_eq_iff)
  show ?thesis
  proof (cases "ty = YAFFS_OBJECT_TYPE_FILE \<and> tn = None")
    case True
    then have "yaffs_new_obj s num ty = Some (None, s1)"
      unfolding yaffs_new_obj_def using isf by (simp add: n(1) s1_def)
    then show ?thesis using s1 by auto
  next
    case False
    have step: "yaffs_new_obj s num ty = (do { (o', s) \<leftarrow> yaffs_alloc_empty_obj s1;
                 case o' of
                   None \<Rightarrow> Some (None, if tn = None then s else set_dev yaffs_free_tnode s)
                 | Some a \<Rightarrow>
                     do { s \<leftarrow> upd_obj s a (\<lambda>x. x\<lparr>o_fake := False, o_rename_allowed := True,
                                 o_unlink_allowed := True, o_obj_id := n\<rparr>);
                          s \<leftarrow> yaffs_hash_obj s a;
                          s \<leftarrow> yaffs_load_current_time s a True True;
                          s \<leftarrow> upd_obj s a (\<lambda>x. x\<lparr>o_variant := new_variant (sdev s) ty tn\<rparr>);
                          Some (Some a, s) } })"
      unfolding yaffs_new_obj_def using False isf other
      by (cases "ty = YAFFS_OBJECT_TYPE_FILE") (auto simp: n(1) s1_def [symmetric])
    have np: "new_parent s1 = new_parent s" unfolding new_parent_def s1(5,6) by (rule refl)
    obtain r s2 where a: "yaffs_alloc_empty_obj s1 = Some (r, s2)" "tree_state_ok s2" "obj_frame s1 s2"
      "hashed s2 = hashed s1" "r = None \<Longrightarrow> objs s2 = objs s1"
      "\<And>p. kids (objs s1) p \<noteq> None \<Longrightarrow> kids (objs s2) p \<noteq> None"
      "\<And>a. r = Some a \<Longrightarrow> objs s1 a = None \<and> par (objs s2) = (par (objs s1))(a := new_parent s) \<and>
        (\<exists>x. objs s2 a = Some x \<and> \<not> o_hashed x \<and> kids1 x = None)"
      using alloc_empty_obj_ok [OF s1(1)] unfolding np by blast
    have fr: "obj_frame s s2" by (rule obj_frame_trans [OF s1(2) a(3)])
    show ?thesis
    proof (cases r)
      case None
      let ?s' = "if tn = None then s2 else set_dev yaffs_free_tnode s2"
      have "yaffs_new_obj s num ty = Some (None, ?s')" unfolding step a(1) by (simp add: None)
      moreover have "tree_state_ok ?s'" using tree_state_ok_dev(1) [OF a(2)] a(2) by (simp add: set_dev_def)
      moreover have "obj_frame s (set_dev yaffs_free_tnode s2)"
        by (rule obj_frame_trans [OF fr]) (simp add: obj_frame_def set_dev_def)
      ultimately show ?thesis using a(5) None s1(4) fr by (simp add: set_dev_def)
    next
      case (Some b)
      note b = a(7) [OF Some]
      obtain x where x: "objs s2 b = Some x" "\<not> o_hashed x" "kids1 x = None" using b by blast
      have nh: "\<not> hashed s2 n c" for c using n(4) a(4) s1(3) by simp
      obtain s' where s': "do { s \<leftarrow> upd_obj s2 b (\<lambda>x. x\<lparr>o_fake := False, o_rename_allowed := True,
                                 o_unlink_allowed := True, o_obj_id := n\<rparr>);
               s \<leftarrow> yaffs_hash_obj s b;
               s \<leftarrow> yaffs_load_current_time s b True True;
               s \<leftarrow> upd_obj s b (\<lambda>x. x\<lparr>o_variant := new_variant (sdev s) ty tn\<rparr>);
               Some (Some b, s) } = Some (Some b, s')"
        "tree_state_ok s'" "obj_frame s2 s'" "par (objs s') = par (objs s2)"
        "\<And>m c. hashed s' m c \<longleftrightarrow> hashed s2 m c \<or> (m = n \<and> c = b)"
        "\<exists>y. objs s' b = Some y \<and> o_variant y = new_variant (sdev s2) ty tn"
        "\<And>p. kids (objs s2) p \<noteq> None \<Longrightarrow> kids (objs s') p \<noteq> None"
        using fill_new_obj [OF a(2) x nh, of ty tn] by auto
      have "yaffs_new_obj s num ty = Some (Some b, s')" unfolding step a(1) using s'(1) by (simp add: Some)
      moreover have "\<exists>x. objs s' b = Some x \<and> var_type (o_variant x) = var_type (new_variant (sdev s) ty None)"
        using s'(6) by (auto simp: new_variant_def)
      moreover have "kids (objs s') b = (if ty = YAFFS_OBJECT_TYPE_DIRECTORY then Some [] else None)"
        using s'(6) by (auto simp: kids_def kids1_def new_variant_def)
      moreover have "par (objs s') = (par (objs s))(b := new_parent s)" using s'(4) b s1(4) by simp
      moreover have "\<forall>m c. hashed s' m c \<longleftrightarrow> hashed s m c \<or> (m = n \<and> c = b)" using s'(5) a(4) s1(3) by simp
      ultimately show ?thesis using s'(2) b n(2-4) obj_frame_trans [OF fr s'(3)] s1(4) Some
        a(6) s'(7) by auto
    qed
  qed
qed

section \<open>Freed objects\<close>

lemma free_obj_ok:
  assumes ok: "table_ok s" "dirs_ok (objs s)" and x: "objs s a = Some x" "o_parent x = None" "\<not> o_my_inode x"
    and empty: "kids1 x = None \<or> kids1 x = Some []"
  shows "\<exists>s'. yaffs_free_obj s a = Some s' \<and> table_ok s' \<and> dirs_ok (objs s') \<and>
     objs s' = (objs s)(a := None) \<and> n_obj (sdev s') = n_obj (sdev s) - 1"
proof -
  note okd = ok(1) [unfolded table_ok_def]
  have len: "length (obj_bucket s) = YAFFS_NOBJECT_BUCKETS" using okd by blast
  let ?b = "yaffs_hash_fn (o_obj_id x)"
  let ?h = "(objs s)(a := None)"
  have pp: "par ?h = (par (objs s))(a := None)" by (auto simp: par_def fun_eq_iff)
  have kk: "kids ?h = (kids (objs s))(a := None)" by (auto simp: kids_def fun_eq_iff)
  have pa: "par (objs s) a = None" using x by (simp add: par_heap)
  have ka: "kids (objs s) a = None \<or> kids (objs s) a = Some []" using x empty by (simp add: kids_heap)
  have dok: "dirs_ok ?h"
  proof (rule dirs_okI)
    fix b q assume "par ?h b = Some q"
    then have "par (objs s) b = Some q" "b \<noteq> a" unfolding pp by (auto split: if_splits)
    moreover have "q \<noteq> a" using dirs_okD(1) [OF ok(2) calculation(1)] ka by auto
    ultimately show "\<exists>cs. kids ?h q = Some cs \<and> b \<in> set cs" unfolding kk using dirs_okD(1) [OF ok(2)] by simp
  next
    fix q cs assume "kids ?h q = Some cs"
    then show "distinct cs" unfolding kk using dirs_okD(2) [OF ok(2)] by (auto split: if_splits)
  next
    fix q cs b assume q: "kids ?h q = Some cs" "b \<in> set cs"
    then have "par (objs s) b = Some q" unfolding kk using dirs_okD(3) [OF ok(2)] by (auto split: if_splits)
    then show "par ?h b = Some q" unfolding pp using pa by auto
  qed
  define bs where "bs = (if o_hashed x then (obj_bucket s)[?b := remove1 a (obj_bucket s ! ?b)] else obj_bucket s)"
  obtain s1 where s1: "yaffs_unhash_obj s a = Some s1" "s1\<lparr>objs := ?h\<rparr> = s\<lparr>obj_bucket := bs, objs := ?h\<rparr>"
    using x(1) len hash_fn_less [of "o_obj_id x"]
    by (cases "o_hashed x") (simp_all add: yaffs_unhash_obj_def Let_def upd_obj_def bs_def not_le)
  define s2 where "s2 = set_dev (\<lambda>d. d\<lparr>n_obj := n_obj d - 1, checkpoint_blocks_required := 0\<rparr>) (yaffs_free_raw_obj s1 a)"
  have run: "yaffs_free_obj s a = Some s2" using x s1(1) by (simp add: yaffs_free_obj_def s2_def Let_def)
  have o1: "(objs s1)(a := None) = ?h"
    using s1(1) x(1) len hash_fn_less [of "o_obj_id x"]
    by (auto simp: yaffs_unhash_obj_def Let_def upd_obj_def not_le fun_eq_iff split: if_splits)
  have f: "objs s2 = ?h" "obj_bucket s2 = bs" "next_obj s2 = next_obj s" "n_obj (sdev s2) = n_obj (sdev s) - 1"
    using arg_cong [OF s1(2), of obj_bucket] arg_cong [OF s1(2), of next_obj] arg_cong [OF s1(2), of sdev] o1
    by (simp_all add: s2_def set_dev_def yaffs_free_raw_obj_def Let_def)
  have h: "hashed s2 n c \<longleftrightarrow> hashed s n c \<and> c \<noteq> a" for n c using f(1) by (auto simp: hashed_def)
  have ha: "hashed s n a \<longleftrightarrow> o_hashed x \<and> n = o_obj_id x" for n using x(1) by (auto simp: hashed_def)
  have "table_ok s2"
    unfolding table_ok_def f
  proof (intro conjI allI impI)
    show "length bs = YAFFS_NOBJECT_BUCKETS" using len by (simp add: bs_def)
  next
    fix b assume b: "b < YAFFS_NOBJECT_BUCKETS"
    have old: "distinct (obj_bucket s ! b)" "set (obj_bucket s ! b) = {c. \<exists>n. hashed s n c \<and> yaffs_hash_fn n = b}"
      using okd b by blast+
    show "distinct (bs ! b)" using old(1) len b by (auto simp: bs_def nth_list_update)
    show "set (bs ! b) = {c. \<exists>n. hashed s2 n c \<and> yaffs_hash_fn n = b}"
      unfolding h using old len b ha by (auto simp: bs_def nth_list_update)
  next
    fix n c d assume "hashed s2 n c \<and> hashed s2 n d"
    then have "hashed s n c \<and> hashed s n d" unfolding h by blast
    then show "c = d" using okd by blast
  next
    fix c assume "next_obj s \<le> c"
    then have "objs s c = None" using okd by blast
    then show "?h c = None" by simp
  qed
  then show ?thesis using run dok f by auto
qed

section \<open>The first directories\<close>

lemma kids1_flags [simp]:
  "kids1 (x\<lparr>o_fake := f, o_rename_allowed := r, o_unlink_allowed := u, o_deleted := d, o_unlinked := l,
     o_yst_mode := m, o_hdr_chunk := c\<rparr>) = kids1 x"
  by (simp add: kids1_def)

lemma create_fake_dir_ok:
  assumes ok: "tree_state_ok s" and new: "\<forall>b. \<not> hashed s n b"
  shows "\<exists>r s'. yaffs_create_fake_dir s n mode = Some (r, s') \<and> tree_state_ok s' \<and> obj_frame s s' \<and>
     (\<forall>m b. hashed s' m b \<longleftrightarrow> hashed s m b \<or> (m = n \<and> r = Some b)) \<and>
     (\<forall>p. kids (objs s) p \<noteq> None \<longrightarrow> kids (objs s') p \<noteq> None) \<and>
     (\<forall>a. r = Some a \<longrightarrow> objs s a = None \<and> kids (objs s') a = Some [] \<and> par (objs s') = (par (objs s))(a := new_parent s))"
proof -
  obtain r s1 where n: "yaffs_new_obj s (Some n) YAFFS_OBJECT_TYPE_DIRECTORY = Some (r, s1)" "tree_state_ok s1"
    "obj_frame s s1" "r = None \<longrightarrow> objs s1 = objs s"
    "\<And>a. r = Some a \<Longrightarrow> objs s a = None \<and> par (objs s1) = (par (objs s))(a := new_parent s) \<and>
       kids (objs s1) a = Some [] \<and> (\<forall>m b. hashed s1 m b \<longleftrightarrow> hashed s m b \<or> (m = n \<and> b = a))"
    "\<And>p. kids (objs s) p \<noteq> None \<Longrightarrow> kids (objs s1) p \<noteq> None"
    using new_obj_ok [OF ok, of "Some n" YAFFS_OBJECT_TYPE_DIRECTORY] new by (auto 0 3)
  show ?thesis
  proof (cases r)
    case None
    then have "yaffs_create_fake_dir s n mode = Some (None, s1)" using n(1) by (simp add: yaffs_create_fake_dir_def)
    moreover have "hashed s1 = hashed s" using n(4) None by (simp add: hashed_def fun_eq_iff)
    ultimately show ?thesis using n(2-4) None by simp
  next
    case (Some a)
    note a = n(5) [OF Some]
    obtain x where x: "objs s1 a = Some x" using a by (auto simp: kids_def split: option.splits)
    let ?y = "x\<lparr>o_fake := True, o_rename_allowed := False, o_unlink_allowed := False, o_deleted := False,
      o_unlinked := False, o_yst_mode := mode, o_hdr_chunk := 0\<rparr>"
    let ?s = "s1\<lparr>objs := (objs s1)(a \<mapsto> ?y)\<rparr>"
    have run: "yaffs_create_fake_dir s n mode = Some (Some a, ?s)"
      using n(1) Some x by (simp add: yaffs_create_fake_dir_def upd_obj_def)
    have tok: "table_ok s1" "dirs_ok (objs s1)" "special_dirs_ok s1" using n(2) by (simp_all add: tree_state_ok_def)
    have up: "dirs_ok (objs ?s)" "kids (objs ?s) = kids (objs s1)" "par (objs ?s) = par (objs s1)"
      using dirs_ok_upd [OF tok(2), of a x ?y] x by simp_all
    have sid: "same_ids (objs s1) (objs ?s)" using same_ids_upd [of "objs s1" a x ?y] x by simp
    have t: "table_ok ?s" by (rule table_ok_same [OF tok(1) sid]) simp_all
    have h: "hashed ?s m b = hashed s1 m b" for m b by (rule hashed_same [OF sid])
    have fr: "obj_frame s ?s" by (rule obj_frame_trans [OF n(3)]) (simp add: obj_frame_def)
    have "special_dirs_ok ?s" using tok(3) unfolding special_dirs_ok_def up by simp
    moreover have "hashed ?s = hashed s1" using h by (intro ext) simp
    ultimately have "\<exists>t. yaffs_create_fake_dir s n mode = Some (Some a, t) \<and> tree_state_ok t \<and> obj_frame s t \<and>
        hashed t = hashed s1 \<and> kids (objs t) = kids (objs s1) \<and> par (objs t) = par (objs s1)"
      using run t up fr unfolding tree_state_ok_def by blast
    then obtain t where "yaffs_create_fake_dir s n mode = Some (Some a, t)" "tree_state_ok t" "obj_frame s t"
      "hashed t = hashed s1" "kids (objs t) = kids (objs s1)" "par (objs t) = par (objs s1)" by blast
    then show ?thesis using a Some n(6) by (intro exI [of _ "Some a"] exI [of _ t]) auto
  qed
qed

lemma set_special_dir:
  assumes ok: "tree_state_ok s" and x: "\<And>p. x = Some p \<Longrightarrow> kids (objs s) p \<noteq> None"
  shows "tree_state_ok (s\<lparr>unlinked_dir := x\<rparr>)" "tree_state_ok (s\<lparr>del_dir := x\<rparr>)"
    "tree_state_ok (s\<lparr>root_dir := x\<rparr>)" "tree_state_ok (s\<lparr>lost_n_found := x\<rparr>)"
proof -
  have tok: "table_ok s" "dirs_ok (objs s)" "special_dirs_ok s" using ok by (simp_all add: tree_state_ok_def)
  have t: "table_ok (s\<lparr>unlinked_dir := x\<rparr>)" "table_ok (s\<lparr>del_dir := x\<rparr>)"
    "table_ok (s\<lparr>root_dir := x\<rparr>)" "table_ok (s\<lparr>lost_n_found := x\<rparr>)"
    by (rule table_ok_same [OF tok(1)]; simp)+
  show "tree_state_ok (s\<lparr>unlinked_dir := x\<rparr>)" "tree_state_ok (s\<lparr>del_dir := x\<rparr>)"
    "tree_state_ok (s\<lparr>root_dir := x\<rparr>)" "tree_state_ok (s\<lparr>lost_n_found := x\<rparr>)"
    using t tok(2,3) x by (auto simp: tree_state_ok_def special_dirs_ok_def)
qed

lemma hashed_special [simp]:
  "hashed (s\<lparr>unlinked_dir := x\<rparr>) = hashed s" "hashed (s\<lparr>del_dir := x\<rparr>) = hashed s"
  "hashed (s\<lparr>root_dir := x\<rparr>) = hashed s" "hashed (s\<lparr>lost_n_found := x\<rparr>) = hashed s"
  by (simp_all add: hashed_def fun_eq_iff)

lemma obj_frame_fields:
  assumes "obj_frame s s'"
  shows "root_dir s' = root_dir s" "lost_n_found s' = lost_n_found s" "unlinked_dir s' = unlinked_dir s"
    "del_dir s' = del_dir s" "sparam s' = sparam s"
proof -
  have e: "s' = s\<lparr>objs := objs s', sdev := sdev s', next_obj := next_obj s',
     obj_bucket := obj_bucket s', bucket_finder := bucket_finder s', clock := clock s', searches := searches s'\<rparr>"
    using assms by (simp add: obj_frame_def)
  show "root_dir s' = root_dir s" "lost_n_found s' = lost_n_found s" "unlinked_dir s' = unlinked_dir s"
    "del_dir s' = del_dir s" "sparam s' = sparam s" by (subst e, simp)+
qed

text \<open>An empty table, as at the start of a mount.\<close>

lemma empty_table_ok:
  assumes "objs s = (\<lambda>a. None)" and "obj_bucket s = replicate YAFFS_NOBJECT_BUCKETS []"
    and "root_dir s = None" "lost_n_found s = None" "unlinked_dir s = None" "del_dir s = None"
  shows "tree_state_ok s" "\<not> hashed s n a"
proof -
  show h: "\<not> hashed s n a" for n a using assms(1) by (simp add: hashed_def)
  have "table_ok s" using assms(1,2) h by (simp add: table_ok_def)
  then show "tree_state_ok s"
    using assms by (simp add: tree_state_ok_def dirs_ok_def special_dirs_ok_def kids_def par_def)
qed

text \<open>A free object is all that a directory needs, as long as there is no lost+found.\<close>

abbreviation free_objs :: "'n yaffs_sys \<Rightarrow> nat" where
  "free_objs s \<equiv> n_free_objects (allocator (sdev s))"

lemma upd_obj_dev: "upd_obj s a f = Some s' \<Longrightarrow> sdev s' = sdev s"
  by (auto simp: upd_obj_def split: option.splits)

lemma link_child_dev: "link_child s p a = Some s' \<Longrightarrow> sdev s' = sdev s \<and> lost_n_found s' = lost_n_found s"
  by (auto simp: link_child_def upd_obj_def split: Option.bind_splits yaffs_obj_var.splits option.splits)

lemma hash_obj_dev: "yaffs_hash_obj s a = Some s' \<Longrightarrow> sdev s' = sdev s"
  by (auto simp: yaffs_hash_obj_def Let_def dest!: upd_obj_dev split: Option.bind_splits if_splits)

lemma load_time_dev: "yaffs_load_current_time s a x y = Some s' \<Longrightarrow> sdev s' = sdev s"
  by (auto simp: yaffs_load_current_time_def current_time_def Let_def dest!: upd_obj_dev split: Option.bind_splits list.splits)

lemma alloc_empty_free:
  assumes "yaffs_alloc_empty_obj s = Some (r, s')" and "lost_n_found s = None" and "0 < free_objs s"
  shows "r \<noteq> None \<and> free_objs s' = free_objs s - 1"
  using assms
  by (auto simp: yaffs_alloc_empty_obj_def yaffs_alloc_raw_obj_def set_dev_def Let_def dest!: upd_obj_dev link_child_dev
      split: Option.bind_splits option.splits)

lemma fake_dir_free:
  assumes "yaffs_create_fake_dir s n m = Some (r, s')" and "lost_n_found s = None" and "0 < free_objs s"
  shows "r \<noteq> None \<and> free_objs s' = free_objs s - 1"
proof -
  obtain r1 s1 where 1: "yaffs_new_obj s (Some n) YAFFS_OBJECT_TYPE_DIRECTORY = Some (r1, s1)"
    using assms(1) by (auto simp: yaffs_create_fake_dir_def split: Option.bind_splits)
  obtain r2 s2 where 2: "yaffs_alloc_empty_obj s = Some (r2, s2)"
    using 1 by (auto simp: yaffs_new_obj_def split: Option.bind_splits)
  note free = alloc_empty_free [OF 2 assms(2,3)]
  have "r1 \<noteq> None \<and> sdev s1 = sdev s2"
    using 1 2 free by (auto simp: yaffs_new_obj_def dest!: upd_obj_dev hash_obj_dev load_time_dev split: Option.bind_splits)
  moreover have "(r1 \<noteq> None \<longrightarrow> r \<noteq> None) \<and> sdev s' = sdev s1"
    using assms(1) 1 by (auto simp: yaffs_create_fake_dir_def dest!: upd_obj_dev split: Option.bind_splits option.splits)
  ultimately show ?thesis using free by simp
qed

lemma create_initial_dir_ok:
  assumes empty: "objs s = (\<lambda>a. None)" "obj_bucket s = replicate YAFFS_NOBJECT_BUCKETS []"
    and shown: "\<not> hide_lost_n_found (sparam s)"
  shows "\<exists>r s'. yaffs_create_initial_dir s = Some (r, s') \<and> tree_state_ok s' \<and>
     (r = YAFFS_OK \<or> r = YAFFS_FAIL) \<and> (4 \<le> free_objs s \<longrightarrow> r = YAFFS_OK) \<and>
     (\<forall>m b. hashed s' m b \<longrightarrow> m \<in> {YAFFS_OBJECTID_ROOT, YAFFS_OBJECTID_LOSTNFOUND, YAFFS_OBJECTID_UNLINKED, YAFFS_OBJECTID_DELETED}) \<and>
     (r = YAFFS_OK \<longrightarrow> (\<exists>root lost u d. root_dir s' = Some root \<and> lost_n_found s' = Some lost \<and>
        unlinked_dir s' = Some u \<and> del_dir s' = Some d \<and> par (objs s') root = None \<and> par (objs s') lost = Some root \<and>
        hashed s' YAFFS_OBJECTID_ROOT root \<and> hashed s' YAFFS_OBJECTID_LOSTNFOUND lost \<and>
        hashed s' YAFFS_OBJECTID_UNLINKED u \<and> hashed s' YAFFS_OBJECTID_DELETED d))"
proof -
  define s0 where "s0 = s\<lparr>lost_n_found := None, root_dir := None, unlinked_dir := None, del_dir := None\<rparr>"
  have s0: "tree_state_ok s0" "\<And>n a. \<not> hashed s0 n a" "sparam s0 = sparam s" "root_dir s0 = None" "lost_n_found s0 = None"
    using empty_table_ok [of s0] empty by (simp_all add: s0_def)
  obtain u s1 where u: "yaffs_create_fake_dir s0 YAFFS_OBJECTID_UNLINKED S_IFDIR = Some (u, s1)" "tree_state_ok s1" "obj_frame s0 s1"
    "\<And>m b. hashed s1 m b \<longleftrightarrow> m = YAFFS_OBJECTID_UNLINKED \<and> u = Some b"
    "\<And>a. u = Some a \<Longrightarrow> kids (objs s1) a \<noteq> None"
    using create_fake_dir_ok [OF s0(1), of YAFFS_OBJECTID_UNLINKED S_IFDIR] s0(2) by auto
  define t1 where "t1 = s1\<lparr>unlinked_dir := u\<rparr>"
  have t1: "tree_state_ok t1" "hashed t1 = hashed s1" unfolding t1_def using set_special_dir(1) [OF u(2,5)] by simp_all
  obtain d s2 where d: "yaffs_create_fake_dir t1 YAFFS_OBJECTID_DELETED S_IFDIR = Some (d, s2)" "tree_state_ok s2" "obj_frame t1 s2"
    "\<And>m b. hashed s2 m b \<longleftrightarrow> hashed s1 m b \<or> (m = YAFFS_OBJECTID_DELETED \<and> d = Some b)"
    "\<And>a. d = Some a \<Longrightarrow> kids (objs s2) a \<noteq> None"
    using create_fake_dir_ok [OF t1(1), of YAFFS_OBJECTID_DELETED S_IFDIR] u(4) t1(2) by auto
  define t2 where "t2 = s2\<lparr>del_dir := d\<rparr>"
  have t2: "tree_state_ok t2" "hashed t2 = hashed s2" unfolding t2_def using set_special_dir(2) [OF d(2,5)] by simp_all
  have np2: "new_parent t2 = None"
    using obj_frame_fields [OF d(3)] obj_frame_fields [OF u(3)] s0 by (simp add: new_parent_def t2_def t1_def)
  obtain r s3 where r: "yaffs_create_fake_dir t2 YAFFS_OBJECTID_ROOT (YAFFS_ROOT_MODE OR S_IFDIR) = Some (r, s3)"
    "tree_state_ok s3" "obj_frame t2 s3"
    "\<And>m b. hashed s3 m b \<longleftrightarrow> hashed s2 m b \<or> (m = YAFFS_OBJECTID_ROOT \<and> r = Some b)"
    "\<And>a. r = Some a \<Longrightarrow> kids (objs s3) a \<noteq> None" "\<And>a. r = Some a \<Longrightarrow> par (objs s3) a = None"
    using create_fake_dir_ok [OF t2(1), of YAFFS_OBJECTID_ROOT "YAFFS_ROOT_MODE OR S_IFDIR"] u(4) d(4) t2(2) np2 by auto
  define t3 where "t3 = s3\<lparr>root_dir := r\<rparr>"
  have t3: "tree_state_ok t3" "hashed t3 = hashed s3" "objs t3 = objs s3" "root_dir t3 = r"
    unfolding t3_def using set_special_dir(3) [OF r(2,5)] by simp_all
  obtain l s4 where l: "yaffs_create_fake_dir t3 YAFFS_OBJECTID_LOSTNFOUND (YAFFS_LOSTNFOUND_MODE OR S_IFDIR) = Some (l, s4)"
    "tree_state_ok s4" "obj_frame t3 s4"
    "\<And>m b. hashed s4 m b \<longleftrightarrow> hashed s3 m b \<or> (m = YAFFS_OBJECTID_LOSTNFOUND \<and> l = Some b)"
    "\<And>a. l = Some a \<Longrightarrow> kids (objs s4) a \<noteq> None"
    "\<And>p. kids (objs s3) p \<noteq> None \<Longrightarrow> kids (objs s4) p \<noteq> None"
    "\<And>a. l = Some a \<Longrightarrow> objs s3 a = None \<and> par (objs s4) = (par (objs s3))(a := new_parent t3)"
    using create_fake_dir_ok [OF t3(1), of YAFFS_OBJECTID_LOSTNFOUND "YAFFS_LOSTNFOUND_MODE OR S_IFDIR"] u(4) d(4) r(4) t3(2,3)
    by auto
  define t4 where "t4 = s4\<lparr>lost_n_found := l\<rparr>"
  have t4: "tree_state_ok t4" "hashed t4 = hashed s4" "objs t4 = objs s4"
    unfolding t4_def using set_special_dir(4) [OF l(2,5)] by simp_all
  note f = obj_frame_fields [OF u(3)] obj_frame_fields [OF d(3)] obj_frame_fields [OF r(3)] obj_frame_fields [OF l(3)]
  have dirs: "unlinked_dir t4 = u" "del_dir t4 = d" "root_dir t4 = r" "lost_n_found t4 = l" "\<not> hide_lost_n_found (sparam t4)"
    using f s0(3) shown by (simp_all add: t4_def t3_def t2_def t1_def)
  have enough: "l \<noteq> None \<and> r \<noteq> None \<and> u \<noteq> None \<and> d \<noteq> None" if "4 \<le> free_objs s"
  proof -
    have no: "lost_n_found t1 = None" "lost_n_found t2 = None" "lost_n_found t3 = None"
      using f s0(5) by (simp_all add: t3_def t2_def t1_def)
    have fu: "u \<noteq> None \<and> free_objs t1 = free_objs s - 1"
      using fake_dir_free [OF u(1) s0(5)] that by (simp add: s0_def t1_def)
    have fd: "d \<noteq> None \<and> free_objs t2 = free_objs s - 2"
      using fake_dir_free [OF d(1) no(1)] that fu by (simp add: t2_def)
    have fr: "r \<noteq> None \<and> free_objs t3 = free_objs s - 3"
      using fake_dir_free [OF r(1) no(2)] that fd by (simp add: t3_def)
    then show ?thesis using fake_dir_free [OF l(1) no(3)] that fu fd by simp
  qed
  show ?thesis
  proof (cases "l = None \<or> r = None \<or> u = None \<or> d = None")
    case True
    then have "yaffs_create_initial_dir s = Some (YAFFS_FAIL, t4)"
      using u(1) d(1) r(1) l(1)
      by (cases l; cases r; cases u; cases d)
        (simp_all add: yaffs_create_initial_dir_def s0_def t1_def t2_def t3_def t4_def Let_def)
    then show ?thesis using t4(1,2) True enough u(4) d(4) r(4) l(4) by (intro exI [of _ YAFFS_FAIL] exI [of _ t4]) auto
  next
    case False
    then obtain lost root where lr: "l = Some lost" "r = Some root" "u \<noteq> None" "d \<noteq> None" by auto
    obtain cs where cs: "kids (objs t4) root = Some cs" using l(6) r(5) lr(2) t4(3) by fastforce
    obtain x where x: "objs t4 lost = Some x" using l(5) lr(1) t4(3) by (auto simp: kids_def split: option.splits)
    have tok: "table_ok t4" "dirs_ok (objs t4)" "special_dirs_ok t4" using t4(1) by (simp_all add: tree_state_ok_def)
    obtain s' where s': "yaffs_add_obj_to_dir t4 root lost = Some s'" "dirs_ok (objs s')" "same_ids (objs t4) (objs s')"
      "par (objs s') = (par (objs t4))(lost \<mapsto> root)" "kids (objs s') root = Some (lost # remove1 lost cs)"
      "\<And>q. q \<noteq> root \<Longrightarrow> kids (objs s') q = map_option (remove1 lost) (kids (objs t4) q)"
      "\<exists>ds d. s' = t4\<lparr>searches := ds, objs := objs s', sdev := d\<rparr>"
      using add_to_dir_ok [OF tok(2) x cs] by blast
    have t3': "s3\<lparr>root_dir := Some root\<rparr> = t3" and t4': "s4\<lparr>lost_n_found := Some lost\<rparr> = t4"
      by (simp_all add: t3_def t4_def lr)
    have hl: "hide_lost_n_found (sparam s4) = False" using dirs(5) by (simp add: t4_def)
    have run: "yaffs_create_initial_dir s = Some (YAFFS_OK, s')"
      using u(1) d(1) r(1) l(1) lr s'(1) dirs(5)
      by (simp add: yaffs_create_initial_dir_def s0_def [symmetric] t1_def [symmetric] t2_def [symmetric]
          t3' t4' hl Let_def)
    have fr: "obj_frame t4 s'" using s'(7) obj_frameI by blast
    obtain ds dd where dd: "s' = t4\<lparr>searches := ds, objs := objs s', sdev := dd\<rparr>" using s'(7) by blast
    have e: "obj_bucket s' = obj_bucket t4" "next_obj s' = next_obj t4" by (subst dd, simp)+
    have t: "table_ok s'" by (rule table_ok_same [OF tok(1) s'(3) e])
    have h: "hashed s' m b = hashed t4 m b" for m b by (rule hashed_same [OF s'(3)])
    have "kids (objs s') p \<noteq> None" if "kids (objs t4) p \<noteq> None" for p using that s'(5,6) by (cases "p = root") auto
    then have sp: "special_dirs_ok s'" by (rule obj_frame_special [OF fr tok(3)])
    have "lost \<noteq> root" using l(7) [OF lr(1)] r(5) lr(2) by (auto simp: kids_def)
    then have "par (objs s') root = None" using s'(4) l(7) [OF lr(1)] r(6) [OF lr(2)] t4(3) by simp
    moreover have "par (objs s') lost = Some root" using s'(4) by simp
    ultimately show ?thesis using run t sp s'(2) obj_frame_fields [OF fr] dirs lr h t4(2) l(4) r(4) d(4) u(4)
      by (auto simp: tree_state_ok_def)
  qed
qed

end
