(* ===== verification/Yaffs_Obj_Props.thy ===== *)
theory Yaffs_Obj_Props
  imports Yaffs_New_Obj Yaffs_Alloc
begin

text \<open>
  The object table as a partial map from object ids, its directories as a tree of
  parents and children, and the round trips of times and sizes.
\<close>

section \<open>A small state\<close>

text \<open>No object yet, room for objects and tnodes, entries of sixteen bits in the tnodes.\<close>

definition tnode_table :: "unit yaffs_dev" where
  "tnode_table = sample_table\<lparr>tnode_width := 16, tnode_mask := 0xffff, tnode_size := 64, chunk_grp_size := 1,
     allocator := \<lparr>n_tnodes_created = 40, n_free_tnodes = 40, n_obj_created = 9, n_free_objects = 9, kmallocs = []\<rparr>\<rparr>"

definition plain_sys_param :: yaffs_sys_param where
  "plain_sys_param = \<lparr>n_caches_param = 0, cache_bypass_aligned = False, empty_lost_n_found = False,
     hide_lost_n_found = False, stored_endian = 0, disable_lazy_load = False, wide_tnodes_disabled = False,
     disable_soft_del = False, defered_dir_update = False, use_header_file_size = False\<rparr>"

definition no_tags_handler :: "unit yaffs_tags_handler" where
  "no_tags_handler = \<lparr>write_chunk_tags_fn = \<lambda>d c data tags. Some (YAFFS_FAIL, data, d),
     read_chunk_tags_fn = \<lambda>d c buf tags. Some (YAFFS_FAIL, buf, tags, d),
     query_block_fn = \<lambda>d b. Some (YAFFS_FAIL, YAFFS_BLOCK_STATE_DEAD, 0, d),
     mark_bad_fn = \<lambda>d b. (YAFFS_FAIL, d)\<rparr>"

definition empty_sys :: "unit yaffs_sys" where
  "empty_sys = \<lparr>sdev = tnode_table, sdrv = null_driver, stg = no_tags_handler, sparam = plain_sys_param,
     objs = \<lambda>a. None, next_obj = 0, obj_bucket = replicate YAFFS_NOBJECT_BUCKETS [], bucket_finder = 0,
     gc_cleanup_list = [], root_dir = None, lost_n_found = None, unlinked_dir = None, del_dir = None,
     dirty_dirs = [], caches = [], cache_last_use = 0, cache_hits = 0, is_mounted = True, ll_init = True,
     clock = [], gc_control = None, searches = []\<rparr>"

lemma empty_sys_ok: "tree_state_ok empty_sys" "\<not> hashed empty_sys n a"
  by (simp_all add: empty_table_ok empty_sys_def)

definition base_sys :: "unit yaffs_sys" where
  "base_sys = snd (the (yaffs_create_initial_dir empty_sys))"

lemma base_sys_ok: "tree_state_ok base_sys"
  using create_initial_dir_ok [of empty_sys] by (auto simp: base_sys_def empty_sys_def plain_sys_param_def)

lemma empty_sys_small: "buckets_small empty_sys"
  by (simp add: buckets_small_def empty_sys_def list_all_iff)

text \<open>A directory with one file, and a directory without an entry.\<close>

definition small_heap :: obj_heap where
  "small_heap = [0 \<mapsto> zero_obj\<lparr>o_variant := DirVar [1] False\<rparr>,
     1 \<mapsto> zero_obj\<lparr>o_obj_id := 300, o_parent := Some 0,
            o_variant := FileVar \<lparr>file_size = 0, stored_size = 0, shrink_size = 0, top_level = 0, top = Some (new_tnode tnode_table 0)\<rparr>\<rparr>,
     2 \<mapsto> zero_obj\<lparr>o_variant := DirVar [] False\<rparr>,
     3 \<mapsto> zero_obj]"

definition small_sys :: "unit yaffs_sys" where
  "small_sys = empty_sys\<lparr>objs := small_heap, next_obj := 4, root_dir := Some 0\<rparr>"

lemma small_heap_links:
  "kids small_heap p = (if p = 0 then Some [1] else if p = 2 then Some [] else None)"
  "par small_heap a = (if a = 1 then Some 0 else None)"
  by (auto simp: small_heap_def kids_def kids1_def par_def zero_obj_def)

lemma small_objs: "objs small_sys = small_heap"
  by (simp add: small_sys_def)

lemma small_sys_unhashed: "\<not> hashed small_sys n a"
  by (auto simp: hashed_def small_sys_def small_heap_def zero_obj_def split: if_splits)

lemma small_sys_ok: "tree_state_ok small_sys"
proof -
  have "table_ok small_sys"
    unfolding table_ok_def using small_sys_unhashed
    by (auto simp: small_sys_def empty_sys_def small_heap_def)
  moreover have "dirs_ok small_heap" by (auto simp: dirs_ok_def small_heap_links split: if_splits)
  moreover have "special_dirs_ok small_sys"
    by (simp add: special_dirs_ok_def) (simp add: small_sys_def empty_sys_def small_heap_links)
  ultimately show ?thesis by (simp add: tree_state_ok_def small_sys_def)
qed

section \<open>Object ids\<close>

text \<open>
  C18: the hash table is a partial map from ids to objects: \<^verbatim>\<open>yaffs_find_by_number\<close> returns
  for every id, and its answer is the one object in the table that has the id, unless
  that object only waits for its inode to be released (deferred free): then it is NULL.
\<close>

theorem find_by_number_refines:
  assumes "table_ok s"
  shows "\<exists>r. yaffs_find_by_number s n = Some r \<and>
     (\<forall>a. r = Some a \<longleftrightarrow> hashed s n a \<and> (\<forall>x. objs s a = Some x \<longrightarrow> \<not> o_defered_free x)) \<and>
     (\<forall>a b. hashed s n a \<and> hashed s n b \<longrightarrow> a = b)"
  using find_by_number_ok [OF assms, of n] assms by (auto simp: table_ok_def)

theorem find_by_number_refines_witness:
  "\<exists>r. yaffs_find_by_number base_sys YAFFS_OBJECTID_ROOT = Some r \<and>
     (\<forall>a. r = Some a \<longleftrightarrow> hashed base_sys YAFFS_OBJECTID_ROOT a \<and> (\<forall>x. objs base_sys a = Some x \<longrightarrow> \<not> o_defered_free x)) \<and>
     (\<forall>a b. hashed base_sys YAFFS_OBJECTID_ROOT a \<and> hashed base_sys YAFFS_OBJECTID_ROOT b \<longrightarrow> a = b)"
  using base_sys_ok by (intro find_by_number_refines) (simp add: tree_state_ok_def)

text \<open>
  C17: \<^verbatim>\<open>yaffs_new_obj_id\<close> returns: the search of its loop, which is not bounded, ends in every
  table whose buckets are not absurdly long, with an id that is positive as an \<^verbatim>\<open>int\<close> and
  that no object of the table has; only the bucket finder moves.
\<close>

theorem new_obj_id_fresh:
  assumes "table_ok s" and "buckets_small s"
  shows "\<exists>n f. yaffs_new_obj_id s = Some (n, s\<lparr>bucket_finder := f\<rparr>) \<and> sint n > 0 \<and> (\<forall>a. \<not> hashed s n a)"
  by (rule new_obj_id_ok [OF assms])

theorem new_obj_id_fresh_witness:
  "\<exists>n f. yaffs_new_obj_id empty_sys = Some (n, empty_sys\<lparr>bucket_finder := f\<rparr>) \<and> sint n > 0 \<and>
     (\<forall>a. \<not> hashed empty_sys n a)"
  using empty_sys_ok(1) empty_sys_small by (intro new_obj_id_fresh) (simp_all add: tree_state_ok_def)

section \<open>Directories\<close>

text \<open>
  C27: \<^verbatim>\<open>yaffs_add_obj_to_dir\<close> moves an object: it is the first child of the directory then,
  in no other list of children, its parent pointer is the directory, and no other parent
  pointer changes; children and parents keep agreeing in the whole table.
\<close>

theorem add_obj_to_dir_moves:
  assumes "dirs_ok (objs s)" and "objs s a = Some x" and "kids (objs s) p = Some cs"
  shows "\<exists>s'. yaffs_add_obj_to_dir s p a = Some s' \<and> dirs_ok (objs s') \<and>
     par (objs s') = (par (objs s))(a \<mapsto> p) \<and> kids (objs s') p = Some (a # remove1 a cs) \<and>
     (\<forall>q cs'. q \<noteq> p \<and> kids (objs s') q = Some cs' \<longrightarrow> a \<notin> set cs') \<and>
     (\<forall>b. b \<noteq> a \<and> b \<noteq> p \<and> Some b \<noteq> par (objs s) a \<longrightarrow> objs s' b = objs s b)"
proof -
  obtain s' where s': "yaffs_add_obj_to_dir s p a = Some s'" "dirs_ok (objs s')" "par (objs s') = (par (objs s))(a \<mapsto> p)"
    "kids (objs s') p = Some (a # remove1 a cs)"
    "\<forall>b. b \<noteq> a \<and> b \<noteq> p \<and> Some b \<noteq> par (objs s) a \<longrightarrow> objs s' b = objs s b"
    using add_to_dir_ok [OF assms] by blast
  have "a \<notin> set cs'" if "q \<noteq> p" "kids (objs s') q = Some cs'" for q cs'
  proof
    assume "a \<in> set cs'"
    then have "par (objs s') a = Some q" by (rule dirs_okD(3) [OF s'(2) that(2)])
    then show False using s'(3) that(1) by simp
  qed
  then show ?thesis using s' by blast
qed

theorem add_obj_to_dir_moves_witness:
  "\<exists>s'. yaffs_add_obj_to_dir small_sys 2 1 = Some s' \<and> dirs_ok (objs s') \<and>
     par (objs s') = (par (objs small_sys))(1 \<mapsto> 2) \<and> kids (objs s') 2 = Some (1 # remove1 1 []) \<and>
     (\<forall>q cs'. q \<noteq> 2 \<and> kids (objs s') q = Some cs' \<longrightarrow> 1 \<notin> set cs') \<and>
     (\<forall>b. b \<noteq> 1 \<and> b \<noteq> 2 \<and> Some b \<noteq> par (objs small_sys) 1 \<longrightarrow> objs s' b = objs small_sys b)"
proof (rule add_obj_to_dir_moves)
  show "dirs_ok (objs small_sys)" using small_sys_ok by (simp only: tree_state_ok_def)
  show "objs small_sys 1 = Some (the (small_heap 1))" by (simp add: small_objs) (simp add: small_heap_def)
  show "kids (objs small_sys) 2 = Some []" by (simp add: small_objs small_heap_links)
qed

text \<open>
  C28: \<^verbatim>\<open>yaffs_new_obj\<close>, for an id that is not in use or asked to find one, keeps the hash
  table and the directories well formed.  It fails with nothing but the allocator
  changed; else the object is new, hashed under its id, a child of lost+found (of the
  root where there is no lost+found yet), and of the type asked for.
\<close>

theorem new_obj_keeps_tree:
  assumes "tree_state_ok s" and "case num of None \<Rightarrow> buckets_small s | Some n \<Rightarrow> \<forall>b. \<not> hashed s n b"
  shows "\<exists>r s'. yaffs_new_obj s num ty = Some (r, s') \<and> tree_state_ok s' \<and> obj_frame s s' \<and>
     (case r of None \<Rightarrow> objs s' = objs s
      | Some a \<Rightarrow> objs s a = None \<and> par (objs s') = (par (objs s))(a := new_parent s) \<and>
          (\<exists>x. objs s' a = Some x \<and> var_type (o_variant x) = var_type (new_variant (sdev s) ty None)) \<and>
          (\<exists>n. (num = None \<longrightarrow> sint n > 0) \<and> (num \<noteq> None \<longrightarrow> num = Some n) \<and> (\<forall>b. \<not> hashed s n b) \<and>
             (\<forall>m b. hashed s' m b \<longleftrightarrow> hashed s m b \<or> (m = n \<and> b = a))))"
proof -
  let ?new = "\<lambda>s' a. objs s a = None \<and> par (objs s') = (par (objs s))(a := new_parent s) \<and>
          (\<exists>x. objs s' a = Some x \<and> var_type (o_variant x) = var_type (new_variant (sdev s) ty None)) \<and>
          (\<exists>n. (num = None \<longrightarrow> sint n > 0) \<and> (num \<noteq> None \<longrightarrow> num = Some n) \<and> (\<forall>b. \<not> hashed s n b) \<and>
             (\<forall>m b. hashed s' m b \<longleftrightarrow> hashed s m b \<or> (m = n \<and> b = a)))"
  obtain r s' where t: "yaffs_new_obj s num ty = Some (r, s')" "tree_state_ok s'" "obj_frame s s'"
    "r = None \<Longrightarrow> objs s' = objs s" and new: "\<And>a. r = Some a \<Longrightarrow> ?new s' a"
  proof -
    from new_obj_ok [OF assms, of ty] obtain r s' where w: "yaffs_new_obj s num ty = Some (r, s')" "tree_state_ok s'"
      "obj_frame s s'" "r = None \<longrightarrow> objs s' = objs s"
      "\<forall>a. r = Some a \<longrightarrow> objs s a = None \<and> par (objs s') = (par (objs s))(a := new_parent s) \<and>
        (\<exists>x. objs s' a = Some x \<and> var_type (o_variant x) = var_type (new_variant (sdev s) ty None)) \<and>
        kids (objs s') a = (if ty = YAFFS_OBJECT_TYPE_DIRECTORY then Some [] else None) \<and>
        (\<exists>n. (num = None \<longrightarrow> sint n > 0) \<and> (num \<noteq> None \<longrightarrow> num = Some n) \<and> (\<forall>b. \<not> hashed s n b) \<and>
           (\<forall>m b. hashed s' m b \<longleftrightarrow> hashed s m b \<or> (m = n \<and> b = a)))" by (elim exE conjE)
    show thesis
    proof (rule that [OF w(1-3)])
      show "r = None \<Longrightarrow> objs s' = objs s" using w(4) by simp
      show "?new s' a" if "r = Some a" for a
        using w(5) [rule_format, OF that] by (elim conjE) (intro conjI)
    qed
  qed
  have "case r of None \<Rightarrow> objs s' = objs s | Some a \<Rightarrow> ?new s' a"
    using t(4) new by (cases r) (simp_all only: option.case)
  with t(1-3) show ?thesis by (intro exI conjI)
qed

theorem new_obj_keeps_tree_witness:
  "\<exists>r s'. yaffs_new_obj small_sys (Some 300) YAFFS_OBJECT_TYPE_FILE = Some (r, s') \<and> tree_state_ok s' \<and> obj_frame small_sys s' \<and>
     (case r of None \<Rightarrow> objs s' = objs small_sys
      | Some a \<Rightarrow> objs small_sys a = None \<and> par (objs s') = (par (objs small_sys))(a := new_parent small_sys) \<and>
          (\<exists>x. objs s' a = Some x \<and> var_type (o_variant x) = var_type (new_variant (sdev small_sys) YAFFS_OBJECT_TYPE_FILE None)) \<and>
          (\<exists>n. (Some (300 :: u32) = None \<longrightarrow> sint n > 0) \<and> (Some (300 :: u32) \<noteq> None \<longrightarrow> Some (300 :: u32) = Some n) \<and>
             (\<forall>b. \<not> hashed small_sys n b) \<and>
             (\<forall>m b. hashed s' m b \<longleftrightarrow> hashed small_sys m b \<or> (m = n \<and> b = a))))"
  by (rule new_obj_keeps_tree [OF small_sys_ok]) (simp add: small_sys_unhashed)

text \<open>
  C35: the directories that a mount starts with, on a device that does not hide lost+found:
  \<^verbatim>\<open>yaffs_create_initial_dir\<close> on an empty table returns with \<^verbatim>\<open>YAFFS_OK\<close> or \<^verbatim>\<open>YAFFS_FAIL\<close>, and with
  \<^verbatim>\<open>YAFFS_OK\<close> if the allocator has four objects; it leaves a well-formed hash table and
  tree with no other numbers in it than those of the four directories; on success all four are
  there, lost+found is a child of the root, and the root has no parent.  (Where lost+found is hidden it leaves the
  children of the root but keeps the root as its parent.)
\<close>

theorem create_initial_dir_tree:
  assumes "objs s = (\<lambda>a. None)" and "obj_bucket s = replicate YAFFS_NOBJECT_BUCKETS []"
    and "\<not> hide_lost_n_found (sparam s)"
  shows "\<exists>r s'. yaffs_create_initial_dir s = Some (r, s') \<and> tree_state_ok s' \<and>
     (r = YAFFS_OK \<or> r = YAFFS_FAIL) \<and> (4 \<le> free_objs s \<longrightarrow> r = YAFFS_OK) \<and>
     (\<forall>m b. hashed s' m b \<longrightarrow> m \<in> {YAFFS_OBJECTID_ROOT, YAFFS_OBJECTID_LOSTNFOUND, YAFFS_OBJECTID_UNLINKED, YAFFS_OBJECTID_DELETED}) \<and>
     (r = YAFFS_OK \<longrightarrow> (\<exists>root lost u d. root_dir s' = Some root \<and> lost_n_found s' = Some lost \<and>
        unlinked_dir s' = Some u \<and> del_dir s' = Some d \<and> par (objs s') root = None \<and> par (objs s') lost = Some root \<and>
        hashed s' YAFFS_OBJECTID_ROOT root \<and> hashed s' YAFFS_OBJECTID_LOSTNFOUND lost \<and>
        hashed s' YAFFS_OBJECTID_UNLINKED u \<and> hashed s' YAFFS_OBJECTID_DELETED d))"
  by (rule create_initial_dir_ok [OF assms])

theorem create_initial_dir_tree_witness:
  "\<exists>s'. yaffs_create_initial_dir empty_sys = Some (YAFFS_OK, s') \<and> tree_state_ok s' \<and>
     (\<exists>root lost u d. root_dir s' = Some root \<and> lost_n_found s' = Some lost \<and>
        unlinked_dir s' = Some u \<and> del_dir s' = Some d \<and> par (objs s') root = None \<and> par (objs s') lost = Some root \<and>
        hashed s' YAFFS_OBJECTID_ROOT root \<and> hashed s' YAFFS_OBJECTID_LOSTNFOUND lost \<and>
        hashed s' YAFFS_OBJECTID_UNLINKED u \<and> hashed s' YAFFS_OBJECTID_DELETED d)"
proof -
  have four: "4 \<le> free_objs empty_sys" by (simp add: empty_sys_def tnode_table_def)
  have "objs empty_sys = (\<lambda>a. None)" "obj_bucket empty_sys = replicate YAFFS_NOBJECT_BUCKETS []"
    "\<not> hide_lost_n_found (sparam empty_sys)" by (simp_all add: empty_sys_def plain_sys_param_def)
  from create_initial_dir_tree [OF this] obtain r s' where s': "yaffs_create_initial_dir empty_sys = Some (r, s')"
    "tree_state_ok s'" "r = YAFFS_OK"
    "r = YAFFS_OK \<longrightarrow> (\<exists>root lost u d. root_dir s' = Some root \<and> lost_n_found s' = Some lost \<and>
        unlinked_dir s' = Some u \<and> del_dir s' = Some d \<and> par (objs s') root = None \<and> par (objs s') lost = Some root \<and>
        hashed s' YAFFS_OBJECTID_ROOT root \<and> hashed s' YAFFS_OBJECTID_LOSTNFOUND lost \<and>
        hashed s' YAFFS_OBJECTID_UNLINKED u \<and> hashed s' YAFFS_OBJECTID_DELETED d)"
    by (elim exE conjE) (drule mp [OF _ four], rule that)
  then show ?thesis using mp [OF s'(4,3)] by (intro exI [of _ s']) simp
qed

text \<open>
  \<^verbatim>\<open>yaffs_free_obj\<close> on an object outside of the directories, without children and
  without an inode: it returns, takes the object out of the hash table and the heap,
  counts it off, and leaves every other object, the hash table and the tree as they are.
\<close>

theorem free_obj_removes:
  assumes "tree_state_ok s" and "objs s a = Some x" and "o_parent x = None" and "\<not> o_my_inode x"
    and "kids1 x = None \<or> kids1 x = Some []"
  shows "\<exists>s'. yaffs_free_obj s a = Some s' \<and> table_ok s' \<and> dirs_ok (objs s') \<and>
     objs s' = (objs s)(a := None) \<and> n_obj (sdev s') = n_obj (sdev s) - 1 \<and> (\<forall>n. \<not> hashed s' n a)"
proof -
  have "table_ok s" "dirs_ok (objs s)" using assms(1) by (simp_all add: tree_state_ok_def)
  from free_obj_ok [OF this assms(2-5)] obtain s' where "yaffs_free_obj s a = Some s'" "table_ok s'" "dirs_ok (objs s')"
    "objs s' = (objs s)(a := None)" "n_obj (sdev s') = n_obj (sdev s) - 1" by (elim exE conjE)
  then show ?thesis by (intro exI [of _ s']) (simp add: hashed_def)
qed

theorem free_obj_removes_witness:
  "\<exists>s'. yaffs_free_obj small_sys 3 = Some s' \<and> table_ok s' \<and> dirs_ok (objs s') \<and>
     objs s' = (objs small_sys)(3 := None) \<and> n_obj (sdev s') = n_obj (sdev small_sys) - 1 \<and> (\<forall>n. \<not> hashed s' n 3)"
proof (rule free_obj_removes [OF small_sys_ok])
  show "objs small_sys 3 = Some zero_obj" by (simp add: small_objs) (simp add: small_heap_def)
qed (simp_all add: zero_obj_def kids1_def)

text \<open>
  The states that the operations on the table and the tree lead to from the first
  directories.  A new object has an id that is not in the table (or asks for one), an
  object is put into a directory only, and only an object that is in no directory, has no
  children and is none of the special directories is freed.
\<close>

inductive tree_reach :: "'n yaffs_sys \<Rightarrow> 'n yaffs_sys \<Rightarrow> bool" for s0 :: "'n yaffs_sys" where
  start: "yaffs_create_initial_dir s0 = Some (r, s) \<Longrightarrow> tree_reach s0 s"
| create: "tree_reach s0 s \<Longrightarrow> (case num of None \<Rightarrow> buckets_small s | Some n \<Rightarrow> \<forall>b. \<not> hashed s n b) \<Longrightarrow>
    yaffs_new_obj s num ty = Some (r, s') \<Longrightarrow> tree_reach s0 s'"
| move: "tree_reach s0 s \<Longrightarrow> kids (objs s) p = Some cs \<Longrightarrow> objs s a = Some x \<Longrightarrow>
    yaffs_add_obj_to_dir s p a = Some s' \<Longrightarrow> tree_reach s0 s'"
| detach: "tree_reach s0 s \<Longrightarrow> objs s a = Some x \<Longrightarrow> yaffs_remove_obj_from_dir s a = Some s' \<Longrightarrow> tree_reach s0 s'"
| free: "tree_reach s0 s \<Longrightarrow> objs s a = Some x \<Longrightarrow> o_parent x = None \<Longrightarrow> \<not> o_my_inode x \<Longrightarrow>
    kids1 x = None \<or> kids1 x = Some [] \<Longrightarrow>
    Some a \<notin> {root_dir s, lost_n_found s, unlinked_dir s, del_dir s} \<Longrightarrow>
    yaffs_free_obj s a = Some s' \<Longrightarrow> tree_reach s0 s'"

lemma move_keeps_tree:
  assumes ok: "tree_state_ok s" and a: "objs s a = Some x" and p: "kids (objs s) p = Some cs"
    and r: "yaffs_add_obj_to_dir s p a = Some s'"
  shows "tree_state_ok s'"
proof -
  have t: "table_ok s" "dirs_ok (objs s)" "special_dirs_ok s" using ok by (simp_all add: tree_state_ok_def)
  obtain s1 ds d where s1: "yaffs_add_obj_to_dir s p a = Some s1" "dirs_ok (objs s1)" "same_ids (objs s) (objs s1)"
    "kids (objs s1) p = Some (a # remove1 a cs)"
    "\<forall>q. q \<noteq> p \<longrightarrow> kids (objs s1) q = map_option (remove1 a) (kids (objs s) q)" "s1 = s\<lparr>searches := ds, objs := objs s1, sdev := d\<rparr>"
    using add_to_dir_ok [OF t(2) a p] by blast
  have "s1 = s'" using s1(1) r by simp
  note s' = s1(2-6) [unfolded this]
  have e: "obj_bucket s' = obj_bucket s" "next_obj s' = next_obj s" by (subst s'(5), simp)+
  have "kids (objs s') q \<noteq> None" if "kids (objs s) q \<noteq> None" for q using that s'(3,4) by (cases "q = p") auto
  then show ?thesis
    using table_ok_same [OF t(1) s'(2) e] s'(1) obj_frame_special [OF obj_frameI [OF s'(5)] t(3)]
    by (simp add: tree_state_ok_def)
qed

lemma detach_keeps_tree:
  assumes ok: "tree_state_ok s" and a: "objs s a = Some x" and r: "yaffs_remove_obj_from_dir s a = Some s'"
  shows "tree_state_ok s'"
proof -
  have t: "table_ok s" "dirs_ok (objs s)" "special_dirs_ok s" using ok by (simp_all add: tree_state_ok_def)
  obtain h ds where "yaffs_remove_obj_from_dir s a = Some (s\<lparr>searches := ds, objs := h\<rparr>)" and h': "dirs_ok h" "same_ids (objs s) h"
    "\<forall>p. kids h p = map_option (remove1 a) (kids (objs s) p)"
    using remove_from_dir_ok [OF t(2) a] by blast
  then have "s' = s\<lparr>searches := ds, objs := h\<rparr>" using r by simp
  note h = this h'
  have "table_ok s'" by (rule table_ok_same [OF t(1)]) (simp_all add: h)
  moreover have "special_dirs_ok s'" by (rule special_dirs_mono [OF t(3)]) (simp_all add: h)
  ultimately show ?thesis using h by (simp add: tree_state_ok_def)
qed

lemma free_frame:
  assumes "yaffs_free_obj s a = Some s'" and "objs s a = Some x" and "\<not> o_my_inode x"
  shows "root_dir s' = root_dir s" "lost_n_found s' = lost_n_found s" "unlinked_dir s' = unlinked_dir s" "del_dir s' = del_dir s"
  using assms
  by (auto simp: yaffs_free_obj_def yaffs_unhash_obj_def upd_obj_def yaffs_free_raw_obj_def set_dev_def Let_def split: if_splits)

lemma free_keeps_tree:
  assumes ok: "tree_state_ok s" and x: "objs s a = Some x" "o_parent x = None" "\<not> o_my_inode x"
    "kids1 x = None \<or> kids1 x = Some []" and sp: "Some a \<notin> {root_dir s, lost_n_found s, unlinked_dir s, del_dir s}"
    and r: "yaffs_free_obj s a = Some s'"
  shows "tree_state_ok s'"
proof -
  have t: "table_ok s" "dirs_ok (objs s)" "special_dirs_ok s" using ok by (simp_all add: tree_state_ok_def)
  have s': "table_ok s'" "dirs_ok (objs s')" "objs s' = (objs s)(a := None)"
    using free_obj_ok [OF t(1,2) x] r by auto
  have "kids (objs s') p = (if p = a then None else kids (objs s) p)" for p using s'(3) by (simp add: kids_def)
  then have "special_dirs_ok s'"
    using t(3) sp free_frame [OF r x(1,3)] by (auto simp: special_dirs_ok_def)
  then show ?thesis using s' by (simp add: tree_state_ok_def)
qed

text \<open>
  C4: on a device that does not hide lost+found, in every state that creating, moving, detaching
  and freeing objects lead to from the first directories, the hash table holds exactly the hashed
  objects, each id once, in the bucket of its id; parents and children agree; and the special
  directories are directories.  (With lost+found hidden the first state already fails: it has
  the root as its parent without being a child of it.)
\<close>

theorem tree_reach_keeps_tree:
  assumes "tree_reach s0 s" and "objs s0 = (\<lambda>a. None)" and "obj_bucket s0 = replicate YAFFS_NOBJECT_BUCKETS []"
    and "\<not> hide_lost_n_found (sparam s0)"
  shows "tree_state_ok s"
  using assms(1)
proof induction
  case (start r s)
  then show ?case using create_initial_dir_ok [OF assms(2-4)] by auto
next
  case (create s num ty r s')
  then show ?case using new_obj_ok [OF create.IH create.hyps(2), of ty] by auto
next
  case (move s p cs a x s')
  show ?case by (rule move_keeps_tree [OF move.IH move.hyps(3,2,4)])
next
  case (detach s a x s')
  show ?case by (rule detach_keeps_tree [OF detach.IH detach.hyps(2,3)])
next
  case (free s a x s')
  show ?case by (rule free_keeps_tree [OF free.IH free.hyps(2-7)])
qed

text \<open>
  From the first directories: lost+found is moved below the directory of unlinked objects, taken
  out of it again, and a file is created.
\<close>

theorem tree_reach_keeps_tree_witness:
  "\<exists>root lost u s0 s1 s2 s3 r.
     yaffs_create_initial_dir empty_sys = Some (YAFFS_OK, s0) \<and> par (objs s0) lost = Some root \<and>
     yaffs_add_obj_to_dir s0 u lost = Some s1 \<and> par (objs s1) lost = Some u \<and>
     yaffs_remove_obj_from_dir s1 lost = Some s2 \<and>
     yaffs_new_obj s2 (Some 300) YAFFS_OBJECT_TYPE_FILE = Some (r, s3) \<and> tree_state_ok s3"
proof -
  have e: "objs empty_sys = (\<lambda>a. None)" "obj_bucket empty_sys = replicate YAFFS_NOBJECT_BUCKETS []"
    "\<not> hide_lost_n_found (sparam empty_sys)" "4 \<le> free_objs empty_sys"
    by (simp_all add: empty_sys_def plain_sys_param_def tnode_table_def)
  obtain s0 root lost u where s0: "yaffs_create_initial_dir empty_sys = Some (YAFFS_OK, s0)" "tree_state_ok s0"
    "par (objs s0) lost = Some root" "unlinked_dir s0 = Some u" "\<And>b. \<not> hashed s0 300 b"
    using create_initial_dir_ok [OF e(1-3)] e(4) by fastforce
  have t0: "dirs_ok (objs s0)" "special_dirs_ok s0" using s0(2) by (simp_all add: tree_state_ok_def)
  obtain cs where u: "kids (objs s0) u = Some cs" using t0(2) s0(4) by (auto simp: special_dirs_ok_def)
  obtain x where x: "objs s0 lost = Some x" using s0(3) by (auto simp: par_def split: option.splits)
  obtain s1 where s1: "yaffs_add_obj_to_dir s0 u lost = Some s1" "dirs_ok (objs s1)" "same_ids (objs s0) (objs s1)"
    "par (objs s1) = (par (objs s0))(lost \<mapsto> u)" using add_to_dir_ok [OF t0(1) x u] by blast
  obtain x1 where x1: "objs s1 lost = Some x1" using s1(4) by (cases "objs s1 lost") (auto simp: par_def dest: fun_cong [of _ _ lost])
  obtain ds h where s2: "yaffs_remove_obj_from_dir s1 lost = Some (s1\<lparr>searches := ds, objs := h\<rparr>)" "same_ids (objs s1) h"
    using remove_from_dir_ok [OF s1(2) x1] by blast
  let ?s2 = "s1\<lparr>searches := ds, objs := h\<rparr>"
  have "hashed ?s2 m b = hashed s1 m b" "hashed s1 m b = hashed s0 m b" for m b
    using hashed_same [of s1 ?s2] hashed_same [OF s1(3)] s2(2) by simp_all
  then have free: "case Some (300 :: u32) of None \<Rightarrow> buckets_small ?s2 | Some n \<Rightarrow> \<forall>b. \<not> hashed ?s2 n b"
    using s0(5) by simp
  have r1: "tree_reach empty_sys s1" by (rule tree_reach.move [OF tree_reach.start [OF s0(1)] u x s1(1)])
  have r2: "tree_reach empty_sys ?s2" by (rule tree_reach.detach [OF r1 x1 s2(1)])
  have "tree_state_ok ?s2" by (rule detach_keeps_tree [OF move_keeps_tree [OF s0(2) x u s1(1)] x1 s2(1)])
  then obtain r s3 where s3: "yaffs_new_obj ?s2 (Some 300) YAFFS_OBJECT_TYPE_FILE = Some (r, s3)"
    using new_obj_ok [OF _ free, of YAFFS_OBJECT_TYPE_FILE] by blast
  have r3: "tree_reach empty_sys s3" by (rule tree_reach.create [OF r2 free s3])
  from tree_reach_keeps_tree [OF r3 e(1-3)] show ?thesis using s0(1,3) s1(1,4) s2(1) s3 by (metis fun_upd_same)
qed

section \<open>Times and sizes\<close>

text \<open>
  A time and a file size survive the two words of the header they are kept in, but
  for those whose upper word is all ones, which both readers take for a field that is
  not there.
\<close>

theorem time_size_roundtrip:
  assumes "drop_bit 32 t \<noteq> (0xffffffff :: u64)" and "FSIZE_HIGH f \<noteq> 0xffffffff"
  shows "(let (y, w) = yaffs_oh_time_load t in yaffs_oh_time_fetch y w) = t \<and>
     yaffs_oh_to_size swap (yaffs_oh_size_load swap oh f e) e = f"
  using time_roundtrip [OF assms(1)] size_roundtrip [OF assms(2)] by simp

theorem time_size_roundtrip_witness:
  "(let (y, w) = yaffs_oh_time_load 0x123456789abc in yaffs_oh_time_fetch y w) = 0x123456789abc \<and>
     yaffs_oh_to_size True (yaffs_oh_size_load True (oh_of_bytes (replicate 512 3)) 0x500000007 True) True = 0x500000007"
  by (rule time_size_roundtrip) (simp_all add: FSIZE_HIGH_def)

end
