(* ===== verification/Yaffs_File_Props.thy ===== *)
theory Yaffs_File_Props
  imports Yaffs_File_Map Yaffs_Obj_Props
begin

text \<open>
  The entry of a chunk into a file and the pruning of its tree, as operations on the map
  of the file, and the state of the device after the soft deletion of all chunks.
\<close>

section \<open>The map of a file\<close>

lemma sample_geom: "tnode_geom tnode_table"
proof -
  have "bit (0xffff :: u32) j \<longleftrightarrow> j < 16" if "j < 32" for j
    using that bit_mask_iff [where 'a = "32 word", of 16 j] by (simp add: mask_eq_exp_minus_1)
  then show ?thesis by (simp add: tnode_geom_def) (simp add: tnode_table_def tnode_consts)
qed

definition sample_file :: yaffs_file_var where
  "sample_file = \<lparr>file_size = 0, stored_size = 0, shrink_size = 0, top_level = 0, top = Some (new_tnode tnode_table 0)\<rparr>"

lemma sample_file_ok: "file_tree_ok tnode_table sample_file"
  using new_tnode_ok [of tnode_table 0] by (simp add: file_tree_ok_def sample_file_def new_tnode_def)

text \<open>
  C2: entering a chunk into a file outside of a scan: \<^verbatim>\<open>yaffs_put_chunk_in_file\<close> returns, and
  either fails, with the map of the file as it was, or changes the map at that chunk
  alone, to the group of the new chunk; the file gains a data chunk exactly when the entry
  was empty.  The tree stays well formed, every tnode it took is accounted for, and no
  other object and nothing else of the state changes.
\<close>

theorem put_chunk_in_file_updates_map:
  assumes x: "objs s a = Some x" "o_variant x = FileVar f"
    and ok: "file_tree_ok (sdev s) f" "tnode_geom (sdev s)" and nand: "nand_chunk \<noteq> 0"
  shows "\<exists>r f' n dev'. yaffs_put_chunk_in_file s a c nand_chunk 0 =
       Some (r, s\<lparr>sdev := dev', objs := (objs s)(a \<mapsto> x\<lparr>o_n_data_chunks := n, o_variant := FileVar f'\<rparr>)\<rparr>) \<and>
     file_tree_ok dev' f' \<and> tnodes_moved (int (file_tnodes f') - int (file_tnodes f)) (sdev s) dev' \<and>
     (if r = YAFFS_OK
      then chunk_base dev' f' = (chunk_base (sdev s) f)(c := group_of (sdev s) (word_of_int nand_chunk)) \<and>
           n = o_n_data_chunks x + (if chunk_base (sdev s) f c = 0 then 1 else 0)
      else r = YAFFS_FAIL \<and> chunk_base dev' f' = chunk_base (sdev s) f \<and> n = o_n_data_chunks x)"
proof -
  obtain r f1 dev1 where a: "yaffs_add_find_tnode_0 (sdev s) f c None = Some (r, f1, dev1)" "file_tree_ok dev1 f1"
    "tnodes_moved (int (file_tnodes f1) - int (file_tnodes f)) (sdev s) dev1"
    "\<And>d. chunk_base dev1 f1 d = chunk_base (sdev s) f d" "r \<noteq> None \<longrightarrow> yaffs_find_tnode_0 f1 c = Some r"
    using add_find_tnode_0_ok [OF ok, of c] by blast
  have base: "chunk_base dev1 f1 = chunk_base (sdev s) f" using a(4) by (intro ext)
  have set1: "set_file (s\<lparr>sdev := dev1\<rparr>) a f1 = Some (s\<lparr>sdev := dev1, objs := (objs s)(a \<mapsto> x\<lparr>o_variant := FileVar f1\<rparr>)\<rparr>)"
    using x by (simp add: set_file_def upd_obj_def file_variant_def)
  have ff: "file_variant x = Some f" using x(2) by (simp add: file_variant_def)
  show ?thesis
  proof (cases r)
    case None
    have "yaffs_put_chunk_in_file s a c nand_chunk 0 =
        Some (YAFFS_FAIL, s\<lparr>sdev := dev1, objs := (objs s)(a \<mapsto> x\<lparr>o_variant := FileVar f1\<rparr>)\<rparr>)"
      using x(1) ff a(1) set1 None by (simp add: yaffs_put_chunk_in_file_def)
    then show ?thesis using a(2,3) base
      by (intro exI [of _ YAFFS_FAIL] exI [of _ f1] exI [of _ "o_n_data_chunks x"] exI [of _ dev1]) simp
  next
    case (Some t)
    then have f: "yaffs_find_tnode_0 f1 c = Some (Some t)" using a(5) by simp
    then obtain mp where mp: "t = Tnode0 mp" "map_wf dev1 mp" using find_tnode_0_ok [OF a(2), of c] by auto
    have g1: "tnode_geom dev1" using ok(2) tnode_geom_moved [OF a(3)] by simp
    obtain mp' where l: "yaffs_load_tnode_0 dev1 mp c (word_of_int nand_chunk) = Some mp'"
      "file_tree_ok dev1 (put_tnode_0 f1 c (Tnode0 mp'))"
      "file_tnodes (put_tnode_0 f1 c (Tnode0 mp')) = file_tnodes f1"
      "\<forall>d. chunk_base dev1 (put_tnode_0 f1 c (Tnode0 mp')) d =
         (if d = c then group_of dev1 (word_of_int nand_chunk) else chunk_base dev1 f1 d)"
      using load_chunk_base [OF a(2) g1 f [unfolded mp(1)], of "word_of_int nand_chunk"] by blast
    have new: "chunk_base dev1 (put_tnode_0 f1 c (Tnode0 mp')) =
        (chunk_base (sdev s) f)(c := group_of (sdev s) (word_of_int nand_chunk))"
      using l(4) base group_of_moved [OF a(3)] by (auto simp: fun_eq_iff)
    have b: "yaffs_get_group_base dev1 mp c = Some (chunk_base (sdev s) f c)"
      unfolding a(4) [of c, symmetric] using get_entry [OF g1 mp(2), of c] f mp(1)
      by (simp add: chunk_base_def tnode_base_def)
    let ?f = "put_tnode_0 f1 c (Tnode0 mp')"
    let ?n = "o_n_data_chunks x + (if chunk_base (sdev s) f c = 0 then 1 else 0)"
    have z: "uint v = 0 \<longleftrightarrow> v = 0" for v :: u32 by (rule uint_0_iff)
    have "yaffs_put_chunk_in_file s a c nand_chunk 0 =
        Some (YAFFS_OK, s\<lparr>sdev := dev1, objs := (objs s)(a \<mapsto> x\<lparr>o_n_data_chunks := ?n, o_variant := FileVar ?f\<rparr>)\<rparr>)"
      using x(1) ff a(1) set1 Some nand b l(1) mp(1)
      by (simp add: yaffs_put_chunk_in_file_def z) (simp add: set_file_def upd_obj_def file_variant_def)
    then show ?thesis using a(3) l(2,3) new
      by (intro exI [of _ YAFFS_OK] exI [of _ ?f] exI [of _ ?n] exI [of _ dev1]) simp
  qed
qed

theorem put_chunk_in_file_updates_map_witness:
  "\<exists>r f' n dev'. yaffs_put_chunk_in_file small_sys 1 3 26 0 =
       Some (r, small_sys\<lparr>sdev := dev', objs := (objs small_sys)(1 \<mapsto> (the (small_heap 1))\<lparr>o_n_data_chunks := n, o_variant := FileVar f'\<rparr>)\<rparr>) \<and>
     file_tree_ok dev' f' \<and> tnodes_moved (int (file_tnodes f') - int (file_tnodes sample_file)) (sdev small_sys) dev' \<and>
     (if r = YAFFS_OK
      then chunk_base dev' f' = (chunk_base (sdev small_sys) sample_file)(3 := group_of (sdev small_sys) (word_of_int 26)) \<and>
           n = o_n_data_chunks (the (small_heap 1)) + (if chunk_base (sdev small_sys) sample_file 3 = 0 then 1 else 0)
      else r = YAFFS_FAIL \<and> chunk_base dev' f' = chunk_base (sdev small_sys) sample_file \<and>
           n = o_n_data_chunks (the (small_heap 1)))"
proof (rule put_chunk_in_file_updates_map)
  show "objs small_sys 1 = Some (the (small_heap 1))" by (simp add: small_objs) (simp add: small_heap_def)
  show "o_variant (the (small_heap 1)) = FileVar sample_file" by (simp add: small_heap_def sample_file_def)
  have "sdev small_sys = tnode_table" by (simp add: small_sys_def empty_sys_def)
  then show "file_tree_ok (sdev small_sys) sample_file" "tnode_geom (sdev small_sys)"
    using sample_file_ok sample_geom by simp_all
qed simp

text \<open>
  C16: \<^verbatim>\<open>yaffs_prune_tree\<close> returns and leaves the map of the file as it is; the tree it
  leaves is well formed and not taller than it needs to be (the top has an entry besides
  its first, or is of level 0), and the tnodes it gave back are the ones that the counts
  have lost.
\<close>

theorem prune_tree_keeps_map:
  assumes "file_tree_ok dev f" and "tnode_geom dev"
  shows "\<exists>f' dev'. yaffs_prune_tree dev f = Some (f', dev') \<and> file_tree_ok dev' f' \<and>
     chunk_base dev' f' = chunk_base dev f \<and>
     tnodes_moved (int (file_tnodes f') - int (file_tnodes f)) dev dev' \<and>
     (top_level f' = 0 \<or> (\<exists>xs. top f' = Some (Tnode xs) \<and> (\<exists>x \<in> set (tl xs). x \<noteq> None)))"
proof -
  obtain f' dev' where "yaffs_prune_tree dev f = Some (f', dev')" "file_tree_ok dev' f'"
    "tnodes_moved (int (file_tnodes f') - int (file_tnodes f)) dev dev'"
    "\<forall>c. chunk_base dev' f' c = chunk_base dev f c"
    "top_level f' = 0 \<or> (\<exists>xs. top f' = Some (Tnode xs) \<and> (\<exists>x \<in> set (tl xs). x \<noteq> None))"
    using prune_tree_ok [OF assms] by (elim exE conjE)
  then show ?thesis by (intro exI [of _ f'] exI [of _ dev']) (simp add: fun_eq_iff)
qed

theorem prune_tree_keeps_map_witness:
  "\<exists>f' dev'. yaffs_prune_tree tnode_table sample_file = Some (f', dev') \<and> file_tree_ok dev' f' \<and>
     chunk_base dev' f' = chunk_base tnode_table sample_file \<and>
     tnodes_moved (int (file_tnodes f') - int (file_tnodes sample_file)) tnode_table dev' \<and>
     (top_level f' = 0 \<or> (\<exists>xs. top f' = Some (Tnode xs) \<and> (\<exists>x \<in> set (tl xs). x \<noteq> None)))"
  by (rule prune_tree_keeps_map [OF sample_file_ok sample_geom])

end
