(* ===== verification/Yaffs_Soft_Del.thy ===== *)
theory Yaffs_Soft_Del
  imports Yaffs_File_Props
begin

text \<open>
  The soft deletion of all chunks of a file: the worker empties the tree, gives back its
  tnodes, and counts every chunk that the tree held once, in the bits that the count has.
\<close>

section \<open>Accounts\<close>

text \<open>A field of ten bits after \<open>n\<close> increments: exact as long as the sum fits.\<close>

definition bump :: "nat \<Rightarrow> int \<Rightarrow> int" where
  "bump n x = (if n = 0 then x else s10 (x + int n))"

lemma bump_fits: "- 512 \<le> x \<Longrightarrow> x + int n \<le> 511 \<Longrightarrow> bump n x = x + int n"
  by (simp add: bump_def s10_eq)

lemma s10_s10_add: "s10 (s10 a + b) = s10 (a + b)"
  unfolding s10_def by (metis signed_take_bit_add signed_take_bit_signed_take_bit min.idem)

lemma bump_bump: "bump m (bump n x) = bump (n + m) x"
  using s10_s10_add [of "x + int n" "int m"] by (simp add: bump_def add.assoc)

definition of_block :: "'n yaffs_dev \<Rightarrow> u32 list \<Rightarrow> int \<Rightarrow> nat" where
  "of_block dev cs b = length (filter (\<lambda>c. uint c div chunks_per_block (param dev) = b) cs)"

text \<open>
  \<open>k\<close> tnodes came and the chunks \<open>cs\<close> were soft deleted between two devices: each counts
  once as a free chunk and once in its block, and of a block nothing else changed.
\<close>

definition soft_moved :: "int \<Rightarrow> u32 list \<Rightarrow> 'n yaffs_dev \<Rightarrow> 'n yaffs_dev \<Rightarrow> bool" where
  "soft_moved k cs dev dev' \<longleftrightarrow> tnodes_moved k dev dev' \<and> param dev' = param dev \<and>
     internal_start_block dev' = internal_start_block dev \<and> internal_end_block dev' = internal_end_block dev \<and>
     length (block_info dev') = length (block_info dev) \<and> chunk_bits dev' = chunk_bits dev \<and>
     n_free_chunks dev' = n_free_chunks dev + int (length cs) \<and>
     (\<forall>b. blk_valid dev b \<longrightarrow> bi_of dev' b =
        (bi_of dev b)\<lparr>soft_del_pages := bump (of_block dev cs b) (soft_del_pages (bi_of dev b))\<rparr>)"

lemma soft_moved_refl [simp]: "soft_moved 0 [] dev dev"
  by (simp add: soft_moved_def of_block_def bump_def)

lemma soft_moved_sum:
  assumes "soft_moved k cs dev d1" and "soft_moved k' cs' d1 d2" and "k + k' = k2" and "cs @ cs' = cs2"
  shows "soft_moved k2 cs2 dev d2"
  using assms tnodes_moved_sum [of k dev d1 k' d2 k2]
  by (auto simp: soft_moved_def of_block_def blk_valid_def bump_bump)

lemma soft_moved_tnodes: "soft_moved k cs dev dev' \<Longrightarrow> tnodes_moved k dev dev'"
  by (simp add: soft_moved_def)

lemma free_tnode_soft: "soft_moved (- 1) [] dev (yaffs_free_tnode dev)"
  using free_tnode_moved [of dev]
  by (simp add: soft_moved_def of_block_def bump_def bi_of_def bi_index_def)
    (simp add: yaffs_free_tnode_def yaffs_free_raw_tnode_def Let_def)

definition chunk_in_table :: "'n yaffs_dev \<Rightarrow> u32 \<Rightarrow> bool" where
  "chunk_in_table dev c \<longleftrightarrow> table_wf dev \<and> blk_valid dev (uint c div chunks_per_block (param dev))"

lemma chunk_in_table_soft: "soft_moved k cs dev dev' \<Longrightarrow> chunk_in_table dev' c = chunk_in_table dev c"
  by (simp add: soft_moved_def chunk_in_table_def table_wf_def n_blocks_def blk_valid_def)

lemma soft_del_chunk_moves:
  assumes "chunk_in_table dev c"
  shows "\<exists>dev'. yaffs_soft_del_chunk dev (uint c) = Some dev' \<and> soft_moved 0 [c] dev dev'"
proof -
  let ?b = "uint c div chunks_per_block (param dev)"
  have wf: "table_wf dev" and v: "blk_valid dev ?b" using assms by (simp_all add: chunk_in_table_def)
  let ?x = "(bi_of dev ?b)\<lparr>soft_del_pages := s10 (soft_del_pages (bi_of dev ?b) + 1)\<rparr>"
  let ?e = "(put_bi dev ?b ?x)\<lparr>n_free_chunks := n_free_chunks dev + 1\<rparr>"
  have i: "bi_index dev ?b < length (block_info dev)" by (rule bi_index_less [OF wf v])
  have g: "yaffs_get_block_info ?e ?b = Some ?x"
    using v i by (auto simp: yaffs_get_block_info_def blk_valid_def put_bi_def bi_index_def)
  have u: "upd_block_info dev ?b (\<lambda>bi. bi\<lparr>soft_del_pages := s10 (soft_del_pages bi + 1)\<rparr>) = Some (put_bi dev ?b ?x)"
    using v i by (auto simp: upd_block_info_def yaffs_get_block_info_def blk_valid_def put_bi_def bi_of_def)
  have s: "yaffs_soft_del_chunk dev (uint c) = Some (yaffs2_update_oldest_dirty_seq ?e ?b ?x)"
    using u g by (simp add: yaffs_soft_del_chunk_def Let_def put_bi_def)
  have "bi_of ?e b = (bi_of dev b)\<lparr>soft_del_pages := bump (of_block dev [c] b) (soft_del_pages (bi_of dev b))\<rparr>"
    if "blk_valid dev b" for b
    using that v i by (auto simp: of_block_def bump_def put_bi_def bi_of_def bi_index_def blk_valid_def nth_list_update)
  then have "soft_moved 0 [c] dev ?e"
    by (simp add: soft_moved_def tnodes_moved_def put_bi_def)
  moreover have "soft_moved 0 [] ?e (yaffs2_update_oldest_dirty_seq ?e ?b ?x)"
    by (simp add: yaffs2_update_oldest_dirty_seq_def soft_moved_def tnodes_moved_def of_block_def bump_def bi_of_def bi_index_def)
  ultimately have "soft_moved 0 [c] dev (yaffs2_update_oldest_dirty_seq ?e ?b ?x)"
    by (rule soft_moved_sum) simp_all
  then show ?thesis using s by blast
qed

section \<open>A tnode of level 0\<close>

text \<open>The chunks that the entries below \<open>n\<close> point to, from the last entry to the first.\<close>

definition live_below :: "'n yaffs_dev \<Rightarrow> u32 list \<Rightarrow> nat \<Rightarrow> u32 list" where
  "live_below dev mp n = filter (\<lambda>c. c \<noteq> 0) (rev (map (entry dev mp) [0..<n]))"

lemma live_below_Suc: "live_below dev mp (Suc n) = (if entry dev mp n \<noteq> 0 then [entry dev mp n] else []) @ live_below dev mp n"
  by (simp add: live_below_def)

lemma live_below_cong: "(\<And>i. i < n \<Longrightarrow> entry dev mp i = entry dev' mp' i) \<Longrightarrow> live_below dev mp n = live_below dev' mp' n"
  unfolding live_below_def by (rule arg_cong [where f = "\<lambda>xs. filter (\<lambda>c. c \<noteq> 0) (rev xs)"], rule map_cong) simp_all

lemma soft_del_entries_ok:
  assumes "tnode_geom dev" and "map_wf dev mp" and "n \<le> YAFFS_NTNODES_LEVEL0"
    and "\<And>i. i < n \<Longrightarrow> entry dev mp i \<noteq> 0 \<Longrightarrow> chunk_in_table dev (entry dev mp i)"
  shows "\<exists>mp' dev'. soft_del_entries n dev mp = Some (mp', dev') \<and> map_wf dev mp' \<and>
     (\<forall>i < YAFFS_NTNODES_LEVEL0. entry dev mp' i = (if i < n then 0 else entry dev mp i)) \<and>
     soft_moved 0 (live_below dev mp n) dev dev'"
  using assms
proof (induction n arbitrary: dev mp)
  case 0
  then show ?case by (simp add: live_below_def)
next
  case (Suc n)
  have g: "yaffs_get_group_base dev mp n = Some (entry dev mp n)" by (rule get_entry [OF Suc.prems(1,2)])
  show ?case
  proof (cases "entry dev mp n = 0")
    case True
    obtain mp' dev' where "soft_del_entries n dev mp = Some (mp', dev')" "map_wf dev mp'"
      "\<forall>i < YAFFS_NTNODES_LEVEL0. entry dev mp' i = (if i < n then 0 else entry dev mp i)"
      "soft_moved 0 (live_below dev mp n) dev dev'"
      using Suc.IH [OF Suc.prems(1,2)] Suc.prems(3,4) by fastforce
    then show ?thesis using True g
      by (intro exI [of _ mp'] exI [of _ dev']) (auto simp: live_below_Suc less_Suc_eq)
  next
    case False
    obtain d1 where d1: "yaffs_soft_del_chunk dev (uint (entry dev mp n)) = Some d1" "soft_moved 0 [entry dev mp n] dev d1"
      using soft_del_chunk_moves [OF Suc.prems(4) [OF _ False]] by auto
    note t1 = soft_moved_tnodes [OF d1(2)]
    have e1: "entry d1 = entry dev" by (intro ext) (rule entry_geom [OF t1])
    have m1: "map_wf d1 = map_wf dev" using words_geom [OF t1] by (simp add: fun_eq_iff map_wf_words)
    have g1: "tnode_geom d1" using Suc.prems(1) tnode_geom_geom [OF t1] by simp
    have z: "group_of d1 0 = 0" by (simp add: group_of_def)
    obtain mp1 where mp1: "yaffs_load_tnode_0 d1 mp n 0 = Some mp1" "map_wf dev mp1"
      "\<And>i. entry dev mp1 i = (if i mod YAFFS_NTNODES_LEVEL0 = n mod YAFFS_NTNODES_LEVEL0 then 0 else entry dev mp i)"
      using load_entry [OF g1, of mp n 0] Suc.prems(2) unfolding m1 e1 z by blast
    have same: "entry dev mp1 i = entry dev mp i" if "i < n" for i
      using mp1(3) [of i] that Suc.prems(3) by simp
    obtain mp' dev' where r: "soft_del_entries n d1 mp1 = Some (mp', dev')" "map_wf dev mp'"
      "\<And>i. i < YAFFS_NTNODES_LEVEL0 \<Longrightarrow> entry dev mp' i = (if i < n then 0 else entry dev mp1 i)"
      "soft_moved 0 (live_below d1 mp1 n) d1 dev'"
      using Suc.IH [OF g1, of mp1] mp1(2) Suc.prems(3,4) same unfolding m1 e1 chunk_in_table_soft [OF d1(2)]
      by fastforce
    have l: "live_below d1 mp1 n = live_below dev mp n" by (rule live_below_cong) (simp add: same e1)
    have "soft_moved 0 (live_below dev mp (Suc n)) dev dev'"
      by (rule soft_moved_sum [OF d1(2) r(4)]) (simp_all add: l live_below_Suc False)
    moreover have "entry dev mp' i = (if i < Suc n then 0 else entry dev mp i)" if "i < YAFFS_NTNODES_LEVEL0" for i
      using r(3) [OF that] mp1(3) [of i] that Suc.prems(3) by auto
    ultimately show ?thesis using False g d1(1) mp1(1) r(1,2)
      by (intro exI [of _ mp'] exI [of _ dev']) simp
  qed
qed

section \<open>The worker\<close>

text \<open>The chunks that a tree points to, from the end of the file to its start.\<close>

fun live_chunks :: "'n yaffs_dev \<Rightarrow> yaffs_tnode \<Rightarrow> u32 list" where
  "live_chunks dev (Tnode0 mp) = live_below dev mp YAFFS_NTNODES_LEVEL0"
| "live_chunks dev (Tnode xs) = concat (rev (map (\<lambda>x. case x of None \<Rightarrow> [] | Some t \<Rightarrow> live_chunks dev t) xs))"

definition slot_live :: "'n yaffs_dev \<Rightarrow> yaffs_tnode option \<Rightarrow> u32 list" where
  "slot_live dev x = (case x of None \<Rightarrow> [] | Some t \<Rightarrow> live_chunks dev t)"

fun all_in_table :: "'n yaffs_dev \<Rightarrow> yaffs_tnode \<Rightarrow> bool" where
  "all_in_table dev (Tnode0 mp) \<longleftrightarrow> (\<forall>i < YAFFS_NTNODES_LEVEL0. entry dev mp i \<noteq> 0 \<longrightarrow> chunk_in_table dev (entry dev mp i))"
| "all_in_table dev (Tnode xs) \<longleftrightarrow> (\<forall>t. Some t \<in> set xs \<longrightarrow> all_in_table dev t)"

fun emptied :: "'n yaffs_dev \<Rightarrow> yaffs_tnode \<Rightarrow> bool" where
  "emptied dev (Tnode0 mp) \<longleftrightarrow> (\<forall>i < YAFFS_NTNODES_LEVEL0. entry dev mp i = 0)"
| "emptied dev (Tnode xs) \<longleftrightarrow> list_all (\<lambda>x. x = None) xs"

lemma live_chunks_soft: "soft_moved k cs dev dev' \<Longrightarrow> live_chunks dev' t = live_chunks dev t"
proof (induction t)
  case (Tnode0 mp)
  have "entry dev' = entry dev" using entry_geom [OF soft_moved_tnodes [OF Tnode0]] by (intro ext)
  then show ?case by (simp add: live_below_def)
next
  case (Tnode xs)
  have "(case x of None \<Rightarrow> [] | Some t \<Rightarrow> live_chunks dev' t) = (case x of None \<Rightarrow> [] | Some t \<Rightarrow> live_chunks dev t)"
    if "x \<in> set xs" for x
    using Tnode.IH [OF that _ Tnode.prems] by (cases x) simp_all
  then show ?case by (simp cong: map_cong)
qed

lemma all_in_table_soft: "soft_moved k cs dev dev' \<Longrightarrow> all_in_table dev' t = all_in_table dev t"
proof (induction t)
  case (Tnode0 mp)
  have "entry dev' = entry dev" using entry_geom [OF soft_moved_tnodes [OF Tnode0]] by (intro ext)
  then show ?case by (simp add: chunk_in_table_soft [OF Tnode0])
next
  case (Tnode xs)
  have "all_in_table dev' t = all_in_table dev t" if "Some t \<in> set xs" for t
    using Tnode.IH [OF that, of t] Tnode.prems by simp
  then show ?case by auto
qed

lemma emptied_soft: "soft_moved k cs dev dev' \<Longrightarrow> emptied dev' t = emptied dev t"
  using entry_geom [of k dev dev'] soft_moved_tnodes [of k cs dev dev'] by (cases t) simp_all

text \<open>The chunks of the slots of a list.\<close>

definition live_slots :: "'n yaffs_dev \<Rightarrow> yaffs_tnode option list \<Rightarrow> u32 list" where
  "live_slots dev xs = concat (rev (map (slot_live dev) xs))"

lemma live_chunks_slots: "live_chunks dev (Tnode xs) = live_slots dev xs"
  by (simp add: live_slots_def slot_live_def [abs_def])

lemma take_Suc_sum: "i < length xs \<Longrightarrow> sum_list (map f (take (Suc i) xs)) = sum_list (map f (take i xs)) + (f (xs ! i) :: nat)"
  by (simp add: take_Suc_conv_app_nth)

lemma soft_del_ok:
  "tree_ok (tnode_words dev) l tn \<Longrightarrow> tnode_geom dev \<Longrightarrow> all_in_table dev tn \<Longrightarrow>
     \<exists>tn' dev'. yaffs_soft_del_worker l dev tn = Some (True, tn', dev') \<and> tree_ok (tnode_words dev) l tn' \<and>
       emptied dev tn' \<and> soft_moved (1 - int (tnode_count tn)) (live_chunks dev tn) dev dev'"
  "i \<le> length xs \<Longrightarrow> (\<And>t. Some t \<in> set xs \<Longrightarrow> tree_ok (tnode_words dev) l t) \<Longrightarrow> tnode_geom dev \<Longrightarrow>
   (\<And>t. Some t \<in> set xs \<Longrightarrow> all_in_table dev t) \<Longrightarrow>
     \<exists>dev'. soft_del_slots l i dev xs = Some (True, replicate i None @ drop i xs, dev') \<and>
       soft_moved (- int (slots_count (take i xs))) (live_slots dev (take i xs)) dev dev'"
proof (induction l dev tn and l i dev xs rule: yaffs_soft_del_worker_soft_del_slots.induct)
  case (1 dev mp)
  have m: "map_wf dev mp" using 1(1) by (simp add: map_wf_words)
  obtain mp' dev' where "soft_del_entries YAFFS_NTNODES_LEVEL0 dev mp = Some (mp', dev')" "map_wf dev mp'"
    "\<forall>i < YAFFS_NTNODES_LEVEL0. entry dev mp' i = 0" "soft_moved 0 (live_below dev mp YAFFS_NTNODES_LEVEL0) dev dev'"
    using soft_del_entries_ok [OF 1(2) m order_refl] 1(3) by auto
  then show ?case by (simp add: map_wf_words)
next
  case (2 l dev xs)
  then obtain dev' where r: "soft_del_slots l YAFFS_NTNODES_INTERNAL dev xs =
      Some (True, replicate YAFFS_NTNODES_INTERNAL None @ drop YAFFS_NTNODES_INTERNAL xs, dev')"
    "soft_moved (- int (slots_count (take YAFFS_NTNODES_INTERNAL xs))) (live_slots dev (take YAFFS_NTNODES_INTERNAL xs)) dev dev'"
    by auto
  have "length xs = YAFFS_NTNODES_INTERNAL" using 2 by simp
  then show ?case using r by (simp add: tnode_count_slots live_chunks_slots list_all_iff del: live_chunks.simps)
next
  case (4 l dev xs)
  then show ?case by (simp add: live_slots_def slots_count_def)
next
  case (5 l i dev xs)
  have i: "i < length xs" using 5(4) by simp
  have keep: "replicate (Suc i) None @ drop (Suc i) xs = replicate i None @ drop i (xs[i := None])"
    using i by (simp add: replicate_append_same [symmetric] drop_update_swap Cons_nth_drop_Suc [symmetric])
  show ?case
  proof (cases "xs ! i")
    case None
    have "xs[i := None] = xs" using None by (metis list_update_id)
    moreover obtain dev' where "soft_del_slots l i dev xs = Some (True, replicate i None @ drop i xs, dev')"
       "soft_moved (- int (slots_count (take i xs))) (live_slots dev (take i xs)) dev dev'"
      using 5(1) [OF _ None] 5(4-7) i by auto
    ultimately show ?thesis using i None keep
      by (simp add: slots_count_def live_slots_def take_Suc_sum take_Suc_conv_app_nth slot_count_def slot_live_def)
  next
    case (Some tn)
    have mem: "Some tn \<in> set xs" using Some i by (metis nth_mem)
    obtain tn' d1 where w: "yaffs_soft_del_worker l dev tn = Some (True, tn', d1)"
      "soft_moved (1 - int (tnode_count tn)) (live_chunks dev tn) dev d1"
      using 5(2) [OF _ Some] 5(5,6,7) mem i by fastforce
    let ?d = "yaffs_free_tnode d1" and ?xs = "xs[i := None]"
    have s: "soft_moved (- int (tnode_count tn)) (live_chunks dev tn) dev ?d"
      by (rule soft_moved_sum [OF w(2) free_tnode_soft]) simp_all
    have sub: "Some t \<in> set ?xs \<Longrightarrow> Some t \<in> set xs" for t
      using set_update_subset_insert [of xs i None] by auto
    have pre: "\<And>t. Some t \<in> set ?xs \<Longrightarrow> tree_ok (tnode_words ?d) l t" "tnode_geom ?d"
      "\<And>t. Some t \<in> set ?xs \<Longrightarrow> all_in_table ?d t"
      unfolding words_geom [OF soft_moved_tnodes [OF s]] tnode_geom_geom [OF soft_moved_tnodes [OF s]] all_in_table_soft [OF s]
      using 5(5-7) sub by blast+
    obtain dev' where r: "soft_del_slots l i ?d ?xs = Some (True, replicate i None @ drop i ?xs, dev')"
       "soft_moved (- int (slots_count (take i ?xs))) (live_slots ?d (take i ?xs)) ?d dev'"
      using 5(3) [OF _ Some w(1) refl refl _ _ pre] i by auto
    have lv: "live_slots ?d (take i xs) = live_slots dev (take i xs)"
    proof -
      have "live_chunks ?d = live_chunks dev" using live_chunks_soft [OF s] by (intro ext)
      then show ?thesis by (simp add: live_slots_def slot_live_def [abs_def])
    qed
    have "live_slots dev (take (Suc i) xs) = live_chunks dev tn @ live_slots dev (take i xs)"
      "slots_count (take (Suc i) xs) = tnode_count tn + slots_count (take i xs)"
      using i Some by (simp_all add: live_slots_def slots_count_def take_Suc_sum take_Suc_conv_app_nth slot_live_def slot_count_def)
    then have "soft_moved (- int (slots_count (take (Suc i) xs))) (live_slots dev (take (Suc i) xs)) dev dev'"
      using i by (intro soft_moved_sum [OF s r(2)]) (simp_all add: lv)
    then show ?thesis using i Some w(1) r(1) keep by simp
  qed
qed simp_all

lemma emptied_base:
  assumes "tree_ok (tnode_words dev) l tn" and "emptied dev tn"
  shows "down_base dev l (Some tn) c = 0"
proof (cases l)
  case 0
  then obtain mp where mp: "tn = Tnode0 mp" using assms(1) by (auto simp: tree_ok_0)
  have "entry dev mp c = entry dev mp (c mod YAFFS_NTNODES_LEVEL0)"
    by (simp add: entry_def yaffs_get_group_base_def Let_def)
  then show ?thesis using assms(2) 0 mp by (simp add: down_base_def tnode_base_def tnode_consts)
next
  case (Suc k)
  then show ?thesis using assms by (auto simp: tree_ok_Suc intro!: down_base_all_None)
qed

text \<open>
  C15: the soft deletion of a file whose chunks are all in blocks of the table:
  \<^verbatim>\<open>yaffs_soft_del_worker\<close> returns and reports that all is done; no chunk of the file can be looked
  up any more, all tnodes but the top one are given back, every chunk of the file is
  counted once as a free chunk and once in the soft deleted pages of its block, and neither
  the chunk bitmap nor any other field of a block changes. The count of a block has the ten
  bits of \<^verbatim>\<open>soft_del_pages\<close>: it is exact if it stays below 512 and else wraps, as \<open>bump\<close> says.
\<close>

theorem soft_del_worker_empties:
  assumes "file_tree_ok dev f" and "top f = Some tn" and "tnode_geom dev" and "all_in_table dev tn"
  shows "\<exists>tn' dev'. yaffs_soft_del_worker (top_level f) dev tn = Some (True, tn', dev') \<and>
     (\<forall>c. chunk_base dev' (f\<lparr>top := Some tn'\<rparr>) c = 0) \<and>
     soft_moved (1 - int (file_tnodes f)) (live_chunks dev tn) dev dev'"
proof -
  have t: "tree_ok (tnode_words dev) (top_level f) tn" "top_level f \<le> YAFFS_TNODES_MAX_LEVEL"
    using assms(1,2) by (auto simp: file_tree_ok_def)
  obtain tn' dev' where w: "yaffs_soft_del_worker (top_level f) dev tn = Some (True, tn', dev')"
    "tree_ok (tnode_words dev) (top_level f) tn'" "emptied dev tn'"
    "soft_moved (1 - int (tnode_count tn)) (live_chunks dev tn) dev dev'"
    using soft_del_ok(1) [OF t(1) assms(3,4)] by blast
  have "chunk_base dev' (f\<lparr>top := Some tn'\<rparr>) c = 0" for c
  proof -
    have "chunk_base dev' (f\<lparr>top := Some tn'\<rparr>) c = chunk_base dev (f\<lparr>top := Some tn'\<rparr>) c"
      by (rule chunk_base_geom [OF soft_moved_tnodes [OF w(4)]])
    also have "\<dots> = 0"
      using chunk_base_down [of "f\<lparr>top := Some tn'\<rparr>" dev c] t(2) emptied_base [OF w(2,3), of c] by (auto split: if_splits)
    finally show ?thesis .
  qed
  then show ?thesis using w assms(2) by (simp add: file_tnodes_def)
qed

text \<open>A file with one chunk, in the second block.\<close>

definition one_chunk_map :: "u32 list" where
  "one_chunk_map = the (yaffs_load_tnode_0 tnode_table (replicate 16 0) 0 26)"

definition one_chunk_tnode :: yaffs_tnode where
  "one_chunk_tnode = Tnode0 one_chunk_map"

lemma one_chunk_entry:
  "map_wf tnode_table one_chunk_map" "i < 16 \<Longrightarrow> entry tnode_table one_chunk_map i = (if i = 0 then 26 else 0)"
proof -
  have w: "tnode_words tnode_table = 16" by (simp add: tnode_words_def tnode_table_def)
  have m: "map_wf tnode_table (replicate 16 0)" by (simp add: map_wf_words w)
  have z: "entry tnode_table (replicate 16 0) j = 0" for j using entry_zero [OF sample_geom, of j] w by simp
  have g: "group_of tnode_table 26 = 26"
    by (simp add: group_of_def tnode_table_def sample_table_def sample_dev_def zero_dev_def)
  show "map_wf tnode_table one_chunk_map" "i < 16 \<Longrightarrow> entry tnode_table one_chunk_map i = (if i = 0 then 26 else 0)"
    using load_entry [OF sample_geom m, of 0 26] z g by (auto simp: one_chunk_map_def tnode_consts)
qed

definition one_chunk_file :: yaffs_file_var where
  "one_chunk_file = \<lparr>file_size = 512, stored_size = 512, shrink_size = 0, top_level = 0, top = Some one_chunk_tnode\<rparr>"

theorem soft_del_worker_empties_witness:
  "\<exists>tn' dev'. yaffs_soft_del_worker (top_level one_chunk_file) tnode_table one_chunk_tnode = Some (True, tn', dev') \<and>
     (\<forall>c. chunk_base dev' (one_chunk_file\<lparr>top := Some tn'\<rparr>) c = 0) \<and>
     soft_moved (1 - int (file_tnodes one_chunk_file)) (live_chunks tnode_table one_chunk_tnode) tnode_table dev'"
proof (rule soft_del_worker_empties [OF _ _ sample_geom])
  show "file_tree_ok tnode_table one_chunk_file"
    using one_chunk_entry(1) by (simp add: file_tree_ok_def one_chunk_file_def one_chunk_tnode_def map_wf_words)
  show "top one_chunk_file = Some one_chunk_tnode" by (simp add: one_chunk_file_def)
  have "chunk_in_table tnode_table 26"
    by (simp add: chunk_in_table_def table_wf_def n_blocks_def blk_valid_def tnode_table_def sample_table_def sample_dev_def
        zero_dev_def zero_param_def)
  then show "all_in_table tnode_table one_chunk_tnode"
    using one_chunk_entry(2) by (simp add: one_chunk_tnode_def tnode_consts)
qed

end
