(* ===== verification/Yaffs_Gc_Select.thy ===== *)
theory Yaffs_Gc_Select
  imports Yaffs_Alloc
begin

text \<open>
  The choice of a block for garbage collection (\<^verbatim>\<open>yaffs_find_gc_block\<close> of
  core/yaffs_guts.c).  The counts of pages are unsigned: pages in use less those soft
  deleted wrap around if there were more of the latter.
\<close>

definition YAFFS_GC_GOOD_ENOUGH :: int where "YAFFS_GC_GOOD_ENOUGH = 2"
definition YAFFS_GC_PASSIVE_THRESHOLD :: int where "YAFFS_GC_PASSIVE_THRESHOLD = 4"

text \<open>The prioritised blocks from \<open>i\<close> on: the first to collect (0 for none), and whether there is any.\<close>

fun prioritised_loop ::
    "yaffs_block_info list \<Rightarrow> int \<Rightarrow> bool \<Rightarrow> 'n yaffs_dev \<Rightarrow> int \<times> bool \<times> 'n yaffs_dev" where
  "prioritised_loop [] i ex dev = (0, ex, dev)"
| "prioritised_loop (bi # bis) i ex dev =
     (if gc_prioritise bi then
        if block_state bi = YAFFS_BLOCK_STATE_FULL then
          let (ok, dev) = yaffs_block_ok_for_gc dev bi
          in if ok then (i, True, dev) else prioritised_loop bis (i + 1) True dev
        else prioritised_loop bis (i + 1) True dev
      else prioritised_loop bis (i + 1) ex dev)"

definition pages_used :: "yaffs_block_info \<Rightarrow> int" where
  "pages_used bi = (pages_in_use bi - soft_del_pages bi) mod 2 ^ 32"

text \<open>The search for the dirtiest of the next blocks, at most \<open>n\<close> of them.\<close>

fun dirtiest_loop :: "nat \<Rightarrow> 'n yaffs_dev \<Rightarrow> 'n yaffs_dev option" where
  "dirtiest_loop 0 dev = Some dev"
| "dirtiest_loop (Suc n) dev =
     (if \<not> (gc_dirtiest dev < 1 \<or> gc_pages_in_use dev > YAFFS_GC_GOOD_ENOUGH) then Some dev
      else
        do { let finder = gc_block_finder dev + 1;
             let finder = (if finder < internal_start_block dev \<or> finder > internal_end_block dev
                           then internal_start_block dev else finder);
             let dev = dev\<lparr>gc_block_finder := finder\<rparr>;
             bi \<leftarrow> yaffs_get_block_info dev finder;
             if block_state bi = YAFFS_BLOCK_STATE_FULL \<and> pages_used bi < chunks_per_block (param dev) \<and>
                (gc_dirtiest dev < 1 \<or> pages_used bi < gc_pages_in_use dev)
             then
               let (ok, dev) = yaffs_block_ok_for_gc dev bi
               in dirtiest_loop n (if ok then dev\<lparr>gc_dirtiest := finder, gc_pages_in_use := pages_used bi\<rparr> else dev)
             else dirtiest_loop n dev })"

definition gc_threshold :: "'n yaffs_dev \<Rightarrow> bool \<Rightarrow> bool \<Rightarrow> int" where
  "gc_threshold dev aggressive background =
     (let cpb = chunks_per_block (param dev)
      in if aggressive then cpb
         else
           let max_threshold = max YAFFS_GC_PASSIVE_THRESHOLD (if background then cpb div 2 else cpb div 8);
               threshold = max YAFFS_GC_PASSIVE_THRESHOLD (if background then (gc_not_done dev + 2) * 2 else 0)
           in min threshold max_threshold)"

definition gc_iterations :: "'n yaffs_dev \<Rightarrow> bool \<Rightarrow> nat" where
  "gc_iterations dev aggressive =
     (let n_blocks = internal_end_block dev - internal_start_block dev + 1
      in if aggressive then nat n_blocks else min 100 (nat (n_blocks div 16 + 1)))"

definition select_prioritised :: "'n yaffs_dev \<Rightarrow> bool \<Rightarrow> int \<times> 'n yaffs_dev" where
  "select_prioritised dev aggressive =
     (if has_pending_prioritised_gc dev \<and> \<not> aggressive then
        let (selected, ex, dev) =
              prioritised_loop (block_info dev) (internal_start_block dev) False (dev\<lparr>gc_dirtiest := 0\<rparr>);
            selected = (if ex \<and> selected = 0 \<and> oldest_dirty_block dev > 0 then oldest_dirty_block dev else selected)
        in (selected, if \<not> ex then dev\<lparr>has_pending_prioritised_gc := False\<rparr> else dev)
      else (0, dev))"

definition select_dirtiest :: "'n yaffs_dev \<Rightarrow> bool \<Rightarrow> bool \<Rightarrow> (int \<times> 'n yaffs_dev) option" where
  "select_dirtiest dev aggressive background =
     do { let threshold = gc_threshold dev aggressive background;
          dev \<leftarrow> dirtiest_loop (gc_iterations dev aggressive) dev;
          Some (if gc_dirtiest dev > 0 \<and> gc_pages_in_use dev \<le> threshold then gc_dirtiest dev else 0, dev) }"

definition select_oldest :: "'n yaffs_dev \<Rightarrow> (int \<times> 'n yaffs_dev) option" where
  "select_oldest dev =
     do { let dev = yaffs2_find_oldest_dirty_seq dev;
          if oldest_dirty_block dev > 0 then
            do { let selected = oldest_dirty_block dev;
                 bi \<leftarrow> yaffs_get_block_info dev selected;
                 Some (selected, dev\<lparr>gc_dirtiest := selected, oldest_dirty_gc_count := oldest_dirty_gc_count dev + 1,
                                     gc_pages_in_use := pages_used bi\<rparr>) }
          else Some (0, dev\<lparr>gc_not_done := 0\<rparr>) }"

definition yaffs_find_gc_block :: "'n yaffs_dev \<Rightarrow> bool \<Rightarrow> bool \<Rightarrow> (int \<times> 'n yaffs_dev) option" where
  "yaffs_find_gc_block dev aggressive background =
     do { let (selected, dev) = select_prioritised dev aggressive;
          (selected, dev) \<leftarrow> (if selected = 0 then select_dirtiest dev aggressive background
                              else Some (selected, dev));
          (selected, dev) \<leftarrow> (if selected = 0 \<and> is_yaffs2 (param dev) \<and>
                                 gc_not_done dev \<ge> (if background then 10 else 20)
                              then select_oldest dev else Some (selected, dev));
          if selected \<noteq> 0 then
            do { let dev = dev\<lparr>n_gc_blocks := n_gc_blocks dev + 1\<rparr>;
                 let dev = (if background then dev\<lparr>bg_gcs := bg_gcs dev + 1\<rparr> else dev);
                 let dev = dev\<lparr>gc_dirtiest := 0, gc_pages_in_use := 0, gc_not_done := 0\<rparr>;
                 Some (selected, if refresh_skip dev > 0 then dev\<lparr>refresh_skip := refresh_skip dev - 1\<rparr> else dev) }
          else Some (0, dev\<lparr>gc_not_done := gc_not_done dev + 1\<rparr>) }"

end
