(* ===== verification/Yaffs_Gc_Choice.thy ===== *)
theory Yaffs_Gc_Choice
  imports Yaffs_Gc_Select
begin

text \<open>
  The choice of a block to collect: an aggressive search finds a block whenever there is one to
  find; what any search can return; and the candidate of an earlier search, which is taken
  without another look.
\<close>

section \<open>Blocks that can be collected\<close>

text \<open>A full block with a page to gain, and none of those that a shrink header holds back.\<close>

definition gc_cand :: "'n yaffs_dev \<Rightarrow> int \<Rightarrow> bool" where
  "gc_cand dev b \<longleftrightarrow> blk_valid dev b \<and> block_state (bi_of dev b) = YAFFS_BLOCK_STATE_FULL \<and>
     pages_used (bi_of dev b) < chunks_per_block (param dev) \<and> fst (yaffs_block_ok_for_gc dev (bi_of dev b))"

definition oldest_seq :: "'n yaffs_dev \<Rightarrow> u32" where
  "oldest_seq dev = oldest_dirty_seq (yaffs2_find_oldest_dirty_seq dev)"

lemma oldest_dirty_loop_ok:
  assumes "oldest_dirty_loop cpb bis i seq blk = (seq', blk')"
  shows "(seq', blk') = (seq, blk) \<or>
    (i \<le> blk' \<and> blk' < i + int (length bis) \<and> block_state (bis ! nat (blk' - i)) = YAFFS_BLOCK_STATE_FULL)"
  using assms
proof (induction bis arbitrary: i seq blk)
  case (Cons b bis)
  let ?hit = "block_state b = YAFFS_BLOCK_STATE_FULL \<and> live_pages_below b cpb \<and> bi_seq_number b < seq"
  have nth: "(b # bis) ! nat (c - i) = bis ! nat (c - (i + 1))" if "i + 1 \<le> c" for c
  proof -
    have "nat (c - i) = Suc (nat (c - (i + 1)))" using that by simp
    then show ?thesis by simp
  qed
  show ?case
  proof (cases ?hit)
    case True
    then have "oldest_dirty_loop cpb bis (i + 1) (bi_seq_number b) i = (seq', blk')" using Cons.prems by simp
    from Cons.IH [OF this] show ?thesis using nth [of blk'] True by auto
  next
    case False
    then have "oldest_dirty_loop cpb bis (i + 1) seq blk = (seq', blk')" using Cons.prems by (auto split: if_splits)
    from Cons.IH [OF this] show ?thesis using nth [of blk'] by auto
  qed
qed simp

definition full_block :: "'n yaffs_dev \<Rightarrow> int \<Rightarrow> bool" where
  "full_block dev b \<longleftrightarrow> blk_valid dev b \<and> block_state (bi_of dev b) = YAFFS_BLOCK_STATE_FULL"

text \<open>The block that is recorded as the oldest dirty one is in the table.\<close>

definition oldest_in_table :: "'n yaffs_dev \<Rightarrow> bool" where
  "oldest_in_table dev \<longleftrightarrow> (0 < oldest_dirty_block dev \<longrightarrow> blk_valid dev (oldest_dirty_block dev))"

lemma update_oldest_in_table:
  "oldest_in_table dev \<Longrightarrow> blk_valid dev b \<Longrightarrow> oldest_in_table (yaffs2_update_oldest_dirty_seq dev b bi)"
  "oldest_in_table dev \<Longrightarrow> oldest_in_table (yaffs2_clear_oldest_dirty_seq dev bi')"
  by (auto simp: oldest_in_table_def yaffs2_update_oldest_dirty_seq_def yaffs2_clear_oldest_dirty_seq_def blk_valid_def)

lemma block_in_table:
  assumes "table_wf dev" and "internal_start_block dev \<le> b" and "b < internal_start_block dev + int (length (block_info dev))"
  shows "blk_valid dev b"
  using assms by (auto simp: table_wf_def n_blocks_def blk_valid_def split: if_splits)

lemma find_oldest_full:
  assumes "table_wf dev"
  shows "oldest_dirty_block (yaffs2_find_oldest_dirty_seq dev) = oldest_dirty_block dev \<or>
    full_block dev (oldest_dirty_block (yaffs2_find_oldest_dirty_seq dev))"
proof -
  obtain sq blk where l: "oldest_dirty_loop (chunks_per_block (param dev)) (block_info dev) (internal_start_block dev)
      (dev_seq_number dev + 1) 0 = (sq, blk)" by (metis surj_pair)
  have "blk \<noteq> 0 \<Longrightarrow> full_block dev blk"
    using oldest_dirty_loop_ok [OF l] block_in_table [of dev blk] assms
    by (auto simp: bi_of_def bi_index_def full_block_def)
  then show ?thesis using l
    by (auto simp: yaffs2_find_oldest_dirty_seq_def yaffs_calc_oldest_dirty_seq_def Let_def)
qed

text \<open>
  What the search leaves alone: all but its own counters and the oldest dirty block; one
  that it finds is full.
\<close>

definition gc_same :: "'n yaffs_dev \<Rightarrow> 'n yaffs_dev \<Rightarrow> bool" where
  "gc_same dev dev' \<longleftrightarrow> block_info dev' = block_info dev \<and> param dev' = param dev \<and>
     internal_start_block dev' = internal_start_block dev \<and> internal_end_block dev' = internal_end_block dev \<and>
     dev_seq_number dev' = dev_seq_number dev \<and> oldest_seq dev' = oldest_seq dev \<and>
     (table_wf dev \<longrightarrow> oldest_dirty_block dev' = oldest_dirty_block dev \<or> full_block dev (oldest_dirty_block dev'))"

lemma gc_same_refl [simp]: "gc_same dev dev"
  by (simp add: gc_same_def)

lemma gc_same_table: "gc_same dev dev' \<Longrightarrow> table_wf dev' = table_wf dev \<and> full_block dev' b = full_block dev b"
  by (simp add: gc_same_def table_wf_def n_blocks_def full_block_def bi_of_def bi_index_def blk_valid_def)

lemma gc_same_trans:
  assumes 1: "gc_same dev d1" and 2: "gc_same d1 d2"
  shows "gc_same dev d2"
proof -
  have "oldest_dirty_block d2 = oldest_dirty_block dev \<or> full_block dev (oldest_dirty_block d2)" if "table_wf dev"
    using 1 2 that gc_same_table [OF 1] unfolding gc_same_def by metis
  then show ?thesis using 1 2 unfolding gc_same_def by simp
qed

lemma ok_for_gc_oldest:
  "fst (yaffs_block_ok_for_gc dev bi) \<longleftrightarrow> \<not> is_yaffs2 (param dev) \<or> \<not> has_shrink_hdr bi \<or> bi_seq_number bi \<le> oldest_seq dev"
  by (simp add: yaffs_block_ok_for_gc_def oldest_seq_def Let_def)

lemma gc_same_bi: "gc_same dev dev' \<Longrightarrow> bi_of dev' b = bi_of dev b \<and> blk_valid dev' b = blk_valid dev b"
  by (simp add: gc_same_def bi_of_def bi_index_def blk_valid_def)

lemma gc_cand_same: "gc_same dev dev' \<Longrightarrow> gc_cand dev' b = gc_cand dev b"
  by (simp add: gc_cand_def gc_same_bi ok_for_gc_oldest) (simp add: gc_same_def)

lemma find_oldest_same: "gc_same dev (yaffs2_find_oldest_dirty_seq dev)"
  using find_oldest_full [of dev]
  by (auto simp: gc_same_def oldest_seq_def yaffs2_find_oldest_dirty_seq_def yaffs_calc_oldest_dirty_seq_def Let_def
      split: prod.split)

lemma ok_for_gc_same:
  assumes "yaffs_block_ok_for_gc dev bi = (ok, dev')"
  shows "gc_same dev dev'" "gc_block_finder dev' = gc_block_finder dev" "gc_dirtiest dev' = gc_dirtiest dev"
    "gc_pages_in_use dev' = gc_pages_in_use dev"
proof -
  have "dev' = dev \<or> dev' = yaffs2_find_oldest_dirty_seq dev"
    using assms by (auto simp: yaffs_block_ok_for_gc_def Let_def split: if_splits)
  moreover have "gc_block_finder (yaffs2_find_oldest_dirty_seq dev) = gc_block_finder dev"
    "gc_dirtiest (yaffs2_find_oldest_dirty_seq dev) = gc_dirtiest dev"
    "gc_pages_in_use (yaffs2_find_oldest_dirty_seq dev) = gc_pages_in_use dev"
    by (auto simp: yaffs2_find_oldest_dirty_seq_def yaffs_calc_oldest_dirty_seq_def Let_def split: prod.split)
  ultimately show "gc_same dev dev'" "gc_block_finder dev' = gc_block_finder dev" "gc_dirtiest dev' = gc_dirtiest dev"
    "gc_pages_in_use dev' = gc_pages_in_use dev" using find_oldest_same by auto
qed

lemma gc_same_fields [simp]:
  "gc_same dev (dev\<lparr>gc_block_finder := f\<rparr>)" "gc_same dev (dev\<lparr>gc_dirtiest := d, gc_pages_in_use := p\<rparr>)"
  "gc_same dev (dev\<lparr>gc_dirtiest := d\<rparr>)" "gc_same dev (dev\<lparr>has_pending_prioritised_gc := h\<rparr>)"
  by (simp_all add: gc_same_def table_wf_def n_blocks_def bi_of_def bi_index_def blk_valid_def oldest_seq_def yaffs2_find_oldest_dirty_seq_def yaffs_calc_oldest_dirty_seq_def Let_def
      split: prod.split)

section \<open>The finder\<close>

definition next_finder :: "int \<Rightarrow> int \<Rightarrow> int \<Rightarrow> int" where
  "next_finder lo hi f = (if f + 1 < lo \<or> f + 1 > hi then lo else f + 1)"

lemma finder_from:
  assumes "lo \<le> f" and "f + int k \<le> hi"
  shows "(next_finder lo hi ^^ k) f = f + int k"
  using assms by (induction k) (simp_all add: next_finder_def)

text \<open>The finder comes to every block within as many steps as there are blocks.\<close>

lemma finder_reaches:
  assumes b: "lo \<le> b" "b \<le> hi"
  shows "\<exists>k < nat (hi - lo + 1). (next_finder lo hi ^^ Suc k) f = b"
proof -
  let ?n = "next_finder lo hi"
  define g where "g = ?n f"
  have g: "lo \<le> g" "g \<le> hi" using b by (auto simp: g_def next_finder_def)
  have step: "(?n ^^ Suc k) f = (?n ^^ k) g" for k by (simp add: funpow_swap1 g_def)
  show ?thesis
  proof (cases "g \<le> b")
    case True
    have "(?n ^^ nat (b - g)) g = b" using finder_from [of lo g "nat (b - g)" hi] g b True by simp
    then show ?thesis using step g b True by (intro exI [of _ "nat (b - g)"]) simp
  next
    case False
    have e: "(?n ^^ nat (hi - g)) g = hi" using finder_from [of lo g "nat (hi - g)" hi] g by simp
    have "(?n ^^ (nat (b - lo) + (Suc 0 + nat (hi - g)))) g = b"
      unfolding funpow_add comp_apply e using finder_from [of lo lo "nat (b - lo)" hi] b by (simp add: next_finder_def)
    moreover have "nat (b - lo) + (Suc 0 + nat (hi - g)) < nat (hi - lo + 1)" using False g b by linarith
    ultimately show ?thesis unfolding step by (intro exI conjI)
  qed
qed

section \<open>The search\<close>

text \<open>
  The candidate is none, the block \<open>k\<close> with \<open>p\<close> pages that an earlier search left, or a
  block that can be collected now.  Nothing looks at \<open>k\<close> again: its pages and whether a shrink
  header holds it back may have changed since.
\<close>

definition cand_or_kept :: "int \<Rightarrow> int \<Rightarrow> 'n yaffs_dev \<Rightarrow> bool" where
  "cand_or_kept k p dev \<longleftrightarrow> gc_dirtiest dev < 1 \<or> (gc_dirtiest dev = k \<and> gc_pages_in_use dev = p) \<or>
     (gc_cand dev (gc_dirtiest dev) \<and> gc_pages_in_use dev = pages_used (bi_of dev (gc_dirtiest dev)))"

lemma cand_or_kept_start: "cand_or_kept (gc_dirtiest dev) (gc_pages_in_use dev) dev"
  by (simp add: cand_or_kept_def)

lemma dirtiest_loop_ok:
  assumes wf: "table_wf dev" and lo: "0 < internal_start_block dev" "internal_start_block dev \<le> internal_end_block dev"
    and ok: "cand_or_kept k0 p0 dev"
  shows "\<exists>dev'. dirtiest_loop n dev = Some dev' \<and> gc_same dev dev' \<and> cand_or_kept k0 p0 dev' \<and>
     (gc_dirtiest dev \<ge> 1 \<longrightarrow> gc_dirtiest dev' \<ge> 1 \<and> gc_pages_in_use dev' \<le> gc_pages_in_use dev) \<and>
     (\<forall>k < n. gc_cand dev ((next_finder (internal_start_block dev) (internal_end_block dev) ^^ Suc k) (gc_block_finder dev)) \<longrightarrow>
        gc_dirtiest dev' \<ge> 1 \<and> gc_pages_in_use dev' \<le> max YAFFS_GC_GOOD_ENOUGH (pages_used (bi_of dev
          ((next_finder (internal_start_block dev) (internal_end_block dev) ^^ Suc k) (gc_block_finder dev)))))"
  using assms
proof (induction n arbitrary: dev)
  case 0
  then show ?case by simp
next
  case (Suc n)
  show ?case
  proof (cases "gc_dirtiest dev < 1 \<or> gc_pages_in_use dev > YAFFS_GC_GOOD_ENOUGH")
    case False
    then show ?thesis using Suc.prems(4) by (intro exI [of _ dev]) auto
  next
    case True
    let ?nx = "next_finder (internal_start_block dev) (internal_end_block dev)"
    let ?f = "?nx (gc_block_finder dev)"
    define d1 where "d1 = dev\<lparr>gc_block_finder := ?f\<rparr>"
    have s1: "gc_same dev d1" by (simp add: d1_def)
    have vf: "blk_valid dev ?f" using Suc.prems(3) by (auto simp: blk_valid_def next_finder_def)
    define bi where "bi = bi_of dev ?f"
    have get: "yaffs_get_block_info d1 ?f = Some bi"
      using vf bi_index_less [OF Suc.prems(1) vf]
      by (simp add: yaffs_get_block_info_def d1_def bi_def bi_of_def bi_index_def blk_valid_def)
    define hit where "hit \<longleftrightarrow> block_state bi = YAFFS_BLOCK_STATE_FULL \<and> pages_used bi < chunks_per_block (param d1) \<and>
                (gc_dirtiest d1 < 1 \<or> pages_used bi < gc_pages_in_use d1)"
    obtain okg d2 where g: "yaffs_block_ok_for_gc d1 bi = (okg, d2)" by (metis surj_pair)
    define d3 where "d3 = (if hit then if okg then d2\<lparr>gc_dirtiest := ?f, gc_pages_in_use := pages_used bi\<rparr> else d2 else d1)"
    have run: "dirtiest_loop (Suc n) dev = dirtiest_loop n d3"
    proof -
      have fin: "(if gc_block_finder dev + 1 < internal_start_block dev \<or> internal_end_block dev < gc_block_finder dev + 1
          then internal_start_block dev else gc_block_finder dev + 1) = ?f"
        by (simp add: next_finder_def)
      have stop: "\<not> (gc_dirtiest dev < 1 \<or> gc_pages_in_use dev > YAFFS_GC_GOOD_ENOUGH) \<longleftrightarrow> False" using True by simp
      show ?thesis
        unfolding dirtiest_loop.simps(2) stop if_False Let_def fin d1_def [symmetric] get Option.bind.bind_lunit g d3_def hit_def
        by (auto simp: d1_def)
    qed
    have s3: "gc_same dev d3"
      using s1 gc_same_trans [OF s1 ok_for_gc_same(1) [OF g]]
        gc_same_trans [OF gc_same_trans [OF s1 ok_for_gc_same(1) [OF g]] gc_same_fields(2)]
      by (simp add: d3_def)
    have f3: "gc_block_finder d3 = ?f" using ok_for_gc_same(2) [OF g] by (simp add: d3_def d1_def)
    have okg: "okg \<longleftrightarrow> fst (yaffs_block_ok_for_gc dev bi)"
      using g s1 ok_for_gc_oldest [of d1 bi] ok_for_gc_oldest [of dev bi] by (simp add: gc_same_def)
    have old: "gc_dirtiest d1 = gc_dirtiest dev" "gc_pages_in_use d1 = gc_pages_in_use dev" "param d1 = param dev"
      by (simp_all add: d1_def)
    have ff: "gc_dirtiest d3 = (if hit \<and> okg then ?f else gc_dirtiest dev)"
      "gc_pages_in_use d3 = (if hit \<and> okg then pages_used bi else gc_pages_in_use dev)"
      using ok_for_gc_same(3,4) [OF g] by (simp_all add: d3_def old)
    have c: "hit \<and> okg \<longrightarrow> gc_cand dev ?f" using vf okg by (simp add: gc_cand_def hit_def bi_def old)
    have ok3: "cand_or_kept k0 p0 d3"
      using Suc.prems(4) c ff gc_same_bi [OF s3] by (auto simp: cand_or_kept_def gc_cand_same [OF s3] bi_def)
    have f1: "?f \<ge> 1" using vf Suc.prems(2) by (simp add: blk_valid_def)
    have mono: "gc_dirtiest dev \<ge> 1 \<longrightarrow> gc_dirtiest d3 \<ge> 1 \<and> gc_pages_in_use d3 \<le> gc_pages_in_use dev"
      using ff f1 by (auto simp: hit_def old)
    have now: "gc_cand dev ?f \<longrightarrow> gc_dirtiest d3 \<ge> 1 \<and> gc_pages_in_use d3 \<le> pages_used bi"
      using okg ff f1 by (auto simp: hit_def old gc_cand_def bi_def)
    have same: "internal_start_block d3 = internal_start_block dev" "internal_end_block d3 = internal_end_block dev"
      "block_info d3 = block_info dev" using s3 by (simp_all add: gc_same_def)
    have prem: "table_wf d3" "0 < internal_start_block d3" "internal_start_block d3 \<le> internal_end_block d3"
      using Suc.prems(1-3) by (simp_all add: table_wf_def n_blocks_def same)
    obtain dev' where d: "dirtiest_loop n d3 = Some dev'" "gc_same d3 dev'" "cand_or_kept k0 p0 dev'"
      "gc_dirtiest d3 \<ge> 1 \<longrightarrow> gc_dirtiest dev' \<ge> 1 \<and> gc_pages_in_use dev' \<le> gc_pages_in_use d3"
      "\<forall>k < n. gc_cand d3 ((?nx ^^ Suc k) ?f) \<longrightarrow> gc_dirtiest dev' \<ge> 1 \<and>
         gc_pages_in_use dev' \<le> max YAFFS_GC_GOOD_ENOUGH (pages_used (bi_of d3 ((?nx ^^ Suc k) ?f)))"
      using Suc.IH [OF prem ok3] unfolding same f3 by blast
    have all: "gc_dirtiest dev' \<ge> 1 \<and> gc_pages_in_use dev' \<le> max YAFFS_GC_GOOD_ENOUGH (pages_used (bi_of dev ((?nx ^^ Suc k) (gc_block_finder dev))))"
      if k: "k < Suc n" and cand: "gc_cand dev ((?nx ^^ Suc k) (gc_block_finder dev))" for k
    proof (cases k)
      case 0
      then show ?thesis using now cand d(4) by (auto simp: bi_def)
    next
      case (Suc j)
      have e: "(?nx ^^ Suc k) (gc_block_finder dev) = (?nx ^^ Suc j) ?f" by (simp add: Suc funpow_swap1)
      have "gc_cand d3 ((?nx ^^ Suc j) ?f)" using cand gc_cand_same [OF s3] by (simp only: e)
      then show ?thesis using d(5) k Suc gc_same_bi [OF s3] unfolding e by auto
    qed
    show ?thesis using d(1-4) mono all gc_same_trans [OF s3 d(2)] run by (intro exI [of _ dev']) auto
  qed
qed

text \<open>
  C14: an aggressive search for a block to collect finds one whenever there is one, from any
  position of the finder and whatever candidate an earlier search left: \<^verbatim>\<open>yaffs_find_gc_block\<close>
  returns a block of the table that is full, has a page to gain and is not held back by a shrink
  header, or the candidate that was left; and the pages that it has, or had when
  the candidate was recorded, are no more than those of any block that can be collected, or at
  most \<^verbatim>\<open>YAFFS_GC_GOOD_ENOUGH\<close>.  (Blocks have two chunks at least, as \<^verbatim>\<open>yaffs_guts_ll_init\<close> asks.)
\<close>

theorem aggressive_gc_finds_block:
  assumes "table_wf dev" and "0 < internal_start_block dev" and "2 \<le> chunks_per_block (param dev)" and "gc_cand dev b"
  shows "\<exists>sel n dev'. yaffs_find_gc_block dev True background = Some (sel, dev') \<and> 0 < sel \<and>
     block_info dev' = block_info dev \<and> gc_dirtiest dev' = 0 \<and>
     ((gc_cand dev sel \<and> n = pages_used (bi_of dev sel)) \<or> (sel = gc_dirtiest dev \<and> n = gc_pages_in_use dev)) \<and>
     (\<forall>c. gc_cand dev c \<longrightarrow> n \<le> max YAFFS_GC_GOOD_ENOUGH (pages_used (bi_of dev c)))"
proof -
  let ?n = "nat (internal_end_block dev - internal_start_block dev + 1)"
  let ?nx = "next_finder (internal_start_block dev) (internal_end_block dev)"
  have lo: "internal_start_block dev \<le> internal_end_block dev" using assms(4) by (auto simp: gc_cand_def blk_valid_def)
  obtain d where d: "dirtiest_loop ?n dev = Some d" "gc_same dev d" "cand_or_kept (gc_dirtiest dev) (gc_pages_in_use dev) d"
    "\<forall>k < ?n. gc_cand dev ((?nx ^^ Suc k) (gc_block_finder dev)) \<longrightarrow> gc_dirtiest d \<ge> 1 \<and>
       gc_pages_in_use d \<le> max YAFFS_GC_GOOD_ENOUGH (pages_used (bi_of dev ((?nx ^^ Suc k) (gc_block_finder dev))))"
    using dirtiest_loop_ok [OF assms(1,2) lo cand_or_kept_start, of ?n] by blast
  have best: "gc_dirtiest d \<ge> 1 \<and> gc_pages_in_use d \<le> max YAFFS_GC_GOOD_ENOUGH (pages_used (bi_of dev c))"
    if c: "gc_cand dev c" for c
  proof -
    have "internal_start_block dev \<le> c" "c \<le> internal_end_block dev" using c by (auto simp: gc_cand_def blk_valid_def)
    then obtain k where "k < ?n" "(?nx ^^ Suc k) (gc_block_finder dev) = c" using finder_reaches by blast
    then show ?thesis using d(4) c by blast
  qed
  let ?sel = "gc_dirtiest d"
  have sel: "(gc_cand dev ?sel \<and> gc_pages_in_use d = pages_used (bi_of dev ?sel)) \<or>
      (?sel = gc_dirtiest dev \<and> gc_pages_in_use d = gc_pages_in_use dev)" "0 < ?sel"
    using d(3) best [OF assms(4)] gc_cand_same [OF d(2)] gc_same_bi [OF d(2)] by (auto simp: cand_or_kept_def)
  have "gc_pages_in_use d \<le> gc_threshold dev True background"
    using best [OF assms(4)] assms(3,4)
    by (simp add: gc_threshold_def gc_cand_def YAFFS_GC_GOOD_ENOUGH_def max_def split: if_splits)
  then have "select_dirtiest dev True background = Some (?sel, d)"
    using d(1) sel(2) by (simp add: select_dirtiest_def gc_iterations_def)
  then obtain dev' where "yaffs_find_gc_block dev True background = Some (?sel, dev')" "block_info dev' = block_info d"
    "gc_dirtiest dev' = 0"
    using sel(2) by (simp add: yaffs_find_gc_block_def select_prioritised_def Let_def)
  then show ?thesis using sel best d(2)
    by (intro exI [of _ ?sel] exI [of _ "gc_pages_in_use d"] exI [of _ dev']) (auto simp: gc_same_def)
qed

text \<open>
  Two blocks, the second of them full with three pages in use; a search has left it as the
  candidate, with the five pages that it had then, and as the oldest dirty block.
\<close>

definition dirty_table :: "unit yaffs_dev" where
  "dirty_table = sample_table\<lparr>gc_block_finder := 7, gc_dirtiest := 2, gc_pages_in_use := 5, oldest_dirty_block := 2\<rparr>"

theorem aggressive_gc_finds_block_witness:
  "\<exists>sel n dev'. yaffs_find_gc_block dirty_table True False = Some (sel, dev') \<and> 0 < sel \<and>
     block_info dev' = block_info dirty_table \<and> gc_dirtiest dev' = 0 \<and>
     ((gc_cand dirty_table sel \<and> n = pages_used (bi_of dirty_table sel)) \<or>
      (sel = gc_dirtiest dirty_table \<and> n = gc_pages_in_use dirty_table)) \<and>
     (\<forall>c. gc_cand dirty_table c \<longrightarrow> n \<le> max YAFFS_GC_GOOD_ENOUGH (pages_used (bi_of dirty_table c)))"
proof (rule aggressive_gc_finds_block)
  show "table_wf dirty_table" "0 < internal_start_block dirty_table" "2 \<le> chunks_per_block (param dirty_table)"
    by (simp_all add: table_wf_def n_blocks_def dirty_table_def sample_table_def sample_dev_def zero_dev_def zero_param_def)
  show "gc_cand dirty_table 2"
    by (simp add: gc_cand_def blk_valid_def bi_of_def bi_index_def pages_used_def yaffs_block_ok_for_gc_def
        dirty_table_def sample_table_def sample_dev_def zero_dev_def zero_param_def zero_block_info_def)
qed

section \<open>What can be selected\<close>

lemma prioritised_loop_same:
  assumes "prioritised_loop bis i ex dev = (sel, ex', dev')"
  shows "gc_same dev dev' \<and> gc_dirtiest dev' = gc_dirtiest dev"
  using assms
proof (induction bis arbitrary: i ex dev)
  case (Cons b bis)
  obtain okg d where g: "yaffs_block_ok_for_gc dev b = (okg, d)" by (metis surj_pair)
  note same = ok_for_gc_same [OF g]
  have "gc_same dev dev' \<and> gc_dirtiest dev' = gc_dirtiest dev"
    if "prioritised_loop bis (i + 1) e dd = (sel, ex', dev')" "dd = dev \<or> dd = d" for e dd
    using Cons.IH [OF that(1)] that(2) same gc_same_trans by auto
  then show ?case using Cons.prems g same by (auto split: if_splits)
qed simp

lemma prioritised_loop_full:
  assumes "prioritised_loop bis i ex dev = (sel, ex', dev')"
  shows "sel = 0 \<or> (i \<le> sel \<and> sel < i + int (length bis) \<and> block_state (bis ! nat (sel - i)) = YAFFS_BLOCK_STATE_FULL)"
  using assms
proof (induction bis arbitrary: i ex dev)
  case (Cons b bis)
  have nth: "(b # bis) ! nat (c - i) = bis ! nat (c - (i + 1))" if "i + 1 \<le> c" for c
  proof -
    have "nat (c - i) = Suc (nat (c - (i + 1)))" using that by simp
    then show ?thesis by simp
  qed
  obtain okg d where g: "yaffs_block_ok_for_gc dev b = (okg, d)" by (metis surj_pair)
  have rest: ?case if "prioritised_loop bis (i + 1) e d = (sel, ex', dev')" for e d
    using Cons.IH [OF that] nth [of sel] by auto
  show ?case using Cons.prems g rest by (auto split: if_splits)
qed simp

lemma select_prioritised_ok:
  assumes "select_prioritised dev aggressive = (sel, dev')" and wf: "table_wf dev"
  shows "gc_same dev dev'" "cand_or_kept (gc_dirtiest dev) (gc_pages_in_use dev) dev'"
    "sel = 0 \<or> sel = oldest_dirty_block dev \<or> full_block dev sel"
proof -
  have "gc_same dev dev' \<and> cand_or_kept (gc_dirtiest dev) (gc_pages_in_use dev) dev' \<and>
    (sel = 0 \<or> sel = oldest_dirty_block dev \<or> full_block dev sel)"
  proof (cases "has_pending_prioritised_gc dev \<and> \<not> aggressive")
    case False
    then show ?thesis using assms cand_or_kept_start by (auto simp: select_prioritised_def)
  next
    case True
    obtain sl ex d where l: "prioritised_loop (block_info dev) (internal_start_block dev) False (dev\<lparr>gc_dirtiest := 0\<rparr>) = (sl, ex, d)"
      by (metis prod_cases3)
    note p = prioritised_loop_same [OF l] prioritised_loop_full [OF l]
    have same: "gc_same dev d" "gc_dirtiest d = 0" using p(1) gc_same_trans [OF gc_same_fields(3)] by auto
    have v: "sl = 0 \<or> full_block dev sl"
      using p(2) block_in_table [OF wf, of sl] by (auto simp: bi_of_def bi_index_def full_block_def)
    have e: "dev' = (if ex then d else d\<lparr>has_pending_prioritised_gc := False\<rparr>)"
      "sel = (if ex \<and> sl = 0 \<and> oldest_dirty_block d > 0 then oldest_dirty_block d else sl)"
      using assms(1) True l by (auto simp: select_prioritised_def Let_def)
    have "gc_same dev dev'" using same(1) gc_same_trans [OF same(1) gc_same_fields(4)] by (simp add: e(1))
    moreover have "cand_or_kept (gc_dirtiest dev) (gc_pages_in_use dev) dev'" using same(2) by (simp add: cand_or_kept_def e(1))
    moreover have "sel = 0 \<or> sel = oldest_dirty_block dev \<or> full_block dev sel"
      using v same(1) wf by (auto simp: e(2) gc_same_def)
    ultimately show ?thesis by blast
  qed
  then show "gc_same dev dev'" "cand_or_kept (gc_dirtiest dev) (gc_pages_in_use dev) dev'"
    "sel = 0 \<or> sel = oldest_dirty_block dev \<or> full_block dev sel" by blast+
qed

lemma select_oldest_ok:
  assumes same: "gc_same dev d" and wf: "table_wf dev" and old: "oldest_in_table dev"
  shows "\<exists>sel d'. select_oldest d = Some (sel, d') \<and> block_info d' = block_info dev \<and>
     (sel = 0 \<or> sel = oldest_dirty_block dev \<or> full_block dev sel) \<and> (sel = 0 \<longrightarrow> gc_dirtiest d' = gc_dirtiest d) \<and>
     (oldest_dirty_block d' = oldest_dirty_block dev \<or> full_block dev (oldest_dirty_block d'))"
proof -
  let ?e = "yaffs2_find_oldest_dirty_seq d"
  have same': "gc_same dev ?e" by (rule gc_same_trans [OF same find_oldest_same])
  define b where "b = oldest_dirty_block ?e"
  have src: "b = oldest_dirty_block dev \<or> full_block dev b" using same' wf by (simp add: b_def gc_same_def)
  have gd: "gc_dirtiest ?e = gc_dirtiest d"
    by (auto simp: yaffs2_find_oldest_dirty_seq_def yaffs_calc_oldest_dirty_seq_def Let_def split: prod.split)
  show ?thesis
  proof (cases "0 < b")
    case True
    then have v: "blk_valid dev b" using src old by (auto simp: oldest_in_table_def full_block_def)
    obtain bi where "yaffs_get_block_info ?e b = Some bi"
      using v bi_index_less [OF wf v] same'
      by (auto simp: yaffs_get_block_info_def gc_same_def blk_valid_def bi_index_def)
    then show ?thesis using True src same' by (simp add: select_oldest_def b_def [symmetric] gc_same_def Let_def)
  next
    case False
    then show ?thesis using src same' gd by (simp add: select_oldest_def b_def [symmetric] gc_same_def Let_def)
  qed
qed

text \<open>
  C29: whatever the urgency, \<^verbatim>\<open>yaffs_find_gc_block\<close> returns, changes nothing in the table of blocks,
  and gives 0, a full block of the table, or one of the two blocks that were on record before: the
  candidate of an earlier search and the oldest dirty block.  What it leaves on record
  for the next search was there before or is a full block; a new candidate can be collected.
\<close>

theorem gc_selects_full_block:
  assumes wf: "table_wf dev" and lo: "0 < internal_start_block dev" "internal_start_block dev \<le> internal_end_block dev"
    and old: "oldest_in_table dev"
  shows "\<exists>sel dev'. yaffs_find_gc_block dev aggressive background = Some (sel, dev') \<and>
     block_info dev' = block_info dev \<and>
     (sel = 0 \<or> full_block dev sel \<or> sel = gc_dirtiest dev \<or> sel = oldest_dirty_block dev) \<and>
     (gc_dirtiest dev' < 1 \<or> gc_dirtiest dev' = gc_dirtiest dev \<or> gc_cand dev (gc_dirtiest dev')) \<and>
     (oldest_dirty_block dev' = oldest_dirty_block dev \<or> full_block dev (oldest_dirty_block dev'))"
proof -
  let ?full = "\<lambda>sel. sel = 0 \<or> full_block dev sel \<or> sel = gc_dirtiest dev \<or> sel = oldest_dirty_block dev"
  let ?rec = "\<lambda>d. oldest_dirty_block d = oldest_dirty_block dev \<or> full_block dev (oldest_dirty_block d)"
  let ?kept = "\<lambda>d. gc_dirtiest d < 1 \<or> gc_dirtiest d = gc_dirtiest dev \<or> gc_cand dev (gc_dirtiest d)"
  obtain s1 d1 where p: "select_prioritised dev aggressive = (s1, d1)" by (metis surj_pair)
  note p1 = select_prioritised_ok [OF p wf]
  have wf1: "table_wf d1" "0 < internal_start_block d1" "internal_start_block d1 \<le> internal_end_block d1"
    using wf lo p1(1) gc_same_table [OF p1(1)] by (simp_all add: gc_same_def)
  obtain d2 where l: "dirtiest_loop (gc_iterations d1 aggressive) d1 = Some d2" "gc_same d1 d2"
    "cand_or_kept (gc_dirtiest dev) (gc_pages_in_use dev) d2"
    using dirtiest_loop_ok [OF wf1 p1(2), of "gc_iterations d1 aggressive"] by blast
  define s2 where "s2 = (if s1 = 0 then if gc_dirtiest d2 > 0 \<and> gc_pages_in_use d2 \<le> gc_threshold d1 aggressive background
      then gc_dirtiest d2 else 0 else s1)"
  define d3 where "d3 = (if s1 = 0 then d2 else d1)"
  have dirt: "(if s1 = 0 then select_dirtiest d1 aggressive background else Some (s1, d1)) = Some (s2, d3)"
    using l(1) by (simp add: select_dirtiest_def s2_def d3_def Let_def)
  have same2: "gc_same dev d2" by (rule gc_same_trans [OF p1(1) l(2)])
  have same3: "gc_same dev d3" using p1(1) same2 by (simp add: d3_def)
  have kept2: "?kept d2" "?kept d1"
    using l(3) p1(2) gc_cand_same [OF same2] gc_cand_same [OF p1(1)] by (auto simp: cand_or_kept_def)
  then have f2: "?full s2" using p1(3) by (auto simp: s2_def gc_cand_def full_block_def)
  have kept3: "?kept d3" using kept2 by (simp add: d3_def)
  obtain s4 d4 where s4: "(if s2 = 0 \<and> is_yaffs2 (param d3) \<and> gc_not_done d3 \<ge> (if background then 10 else 20)
      then select_oldest d3 else Some (s2, d3)) = Some (s4, d4)" "block_info d4 = block_info dev" "?full s4"
    "s4 = 0 \<longrightarrow> ?kept d4" "?rec d4"
  proof (cases "s2 = 0 \<and> is_yaffs2 (param d3) \<and> gc_not_done d3 \<ge> (if background then 10 else 20)")
    case True
    obtain sel d' where o': "select_oldest d3 = Some (sel, d')" "block_info d' = block_info dev" "?rec d'"
      "sel = 0 \<or> sel = oldest_dirty_block dev \<or> full_block dev sel" "sel = 0 \<longrightarrow> gc_dirtiest d' = gc_dirtiest d3"
      using select_oldest_ok [OF same3 wf old] by blast
    show ?thesis by (rule that [of sel d']) (use True o' kept3 in auto)
  next
    case False
    have "block_info d3 = block_info dev" "?rec d3" using same3 wf by (simp_all add: gc_same_def)
    then show ?thesis using False f2 kept3 that [of s2 d3] by (simp only: if_False) simp
  qed
  show ?thesis
    unfolding yaffs_find_gc_block_def Let_def p prod.case dirt Option.bind.bind_lunit s4(1)
    using s4(2-5) by auto
qed

theorem gc_selects_full_block_witness:
  "\<exists>sel dev'. yaffs_find_gc_block dirty_table False True = Some (sel, dev') \<and>
     block_info dev' = block_info dirty_table \<and>
     (sel = 0 \<or> full_block dirty_table sel \<or> sel = gc_dirtiest dirty_table \<or> sel = oldest_dirty_block dirty_table) \<and>
     (gc_dirtiest dev' < 1 \<or> gc_dirtiest dev' = gc_dirtiest dirty_table \<or> gc_cand dirty_table (gc_dirtiest dev')) \<and>
     (oldest_dirty_block dev' = oldest_dirty_block dirty_table \<or> full_block dirty_table (oldest_dirty_block dev'))"
  by (rule gc_selects_full_block)
    (simp_all add: oldest_in_table_def table_wf_def n_blocks_def blk_valid_def dirty_table_def sample_table_def sample_dev_def
      zero_dev_def)

section \<open>A candidate that is out of date\<close>




end
