(* ===== verification/Yaffs_Temp.thy ===== *)
theory Yaffs_Temp
  imports Main
begin

text \<open>
  core/yaffs_guts.c: the pool of temporary buffers.  A buffer is the address that the allocator
  gave for it (None is \<^verbatim>\<open>NULL\<close>), and the answers of the allocator are given as a list.  The other
  theories take buffers as values; this one shows that the pool hands no buffer out twice and that
  the six buffers are enough for the calls of the code.
\<close>

definition YAFFS_N_TEMP_BUFFERS :: nat where "YAFFS_N_TEMP_BUFFERS = 6"

record yaffs_buffer =
  tb_buffer :: "nat option"
  tb_in_use :: bool

record temp_pool =
  temp_buffer :: "yaffs_buffer list"
  temp_in_use :: int
  max_temp :: int
  unmanaged_buffer_allocs :: int
  unmanaged_buffer_deallocs :: int

section \<open>Operations\<close>

text \<open>The loop stops at the first allocation that fails; the entries after it stay zero.\<close>

fun init_tmp_loop :: "nat \<Rightarrow> nat option list \<Rightarrow> yaffs_buffer list" where
  "init_tmp_loop 0 oks = []"
| "init_tmp_loop (Suc n) oks =
     (case oks of
        Some b # bs \<Rightarrow> \<lparr>tb_buffer = Some b, tb_in_use = False\<rparr> # init_tmp_loop n bs
      | _ \<Rightarrow> replicate (Suc n) \<lparr>tb_buffer = None, tb_in_use = False\<rparr>)"

definition yaffs_init_tmp_buffers :: "nat option list \<Rightarrow> temp_pool \<Rightarrow> bool \<times> temp_pool" where
  "yaffs_init_tmp_buffers oks p =
     (let bs = init_tmp_loop YAFFS_N_TEMP_BUFFERS oks
      in (list_all (\<lambda>b. tb_buffer b \<noteq> None) bs, p\<lparr>temp_buffer := bs\<rparr>))"

text \<open>Mark the first free buffer of the pool.\<close>

fun take_free :: "yaffs_buffer list \<Rightarrow> (nat option \<times> yaffs_buffer list) option" where
  "take_free [] = None"
| "take_free (b # bs) =
     (if \<not> tb_in_use b then Some (tb_buffer b, b\<lparr>tb_in_use := True\<rparr> # bs)
      else map_option (\<lambda>(r, bs). (r, b # bs)) (take_free bs))"

definition yaffs_get_temp_buffer :: "nat option \<Rightarrow> temp_pool \<Rightarrow> nat option \<times> temp_pool" where
  "yaffs_get_temp_buffer unmanaged p =
     (let p = p\<lparr>temp_in_use := temp_in_use p + 1\<rparr>;
          p = (if temp_in_use p > max_temp p then p\<lparr>max_temp := temp_in_use p\<rparr> else p)
      in case take_free (temp_buffer p) of
           Some (r, bs) \<Rightarrow> (r, p\<lparr>temp_buffer := bs\<rparr>)
         | None \<Rightarrow> (unmanaged, p\<lparr>unmanaged_buffer_allocs := unmanaged_buffer_allocs p + 1\<rparr>))"

fun give_back :: "nat option \<Rightarrow> yaffs_buffer list \<Rightarrow> yaffs_buffer list option" where
  "give_back buf [] = None"
| "give_back buf (b # bs) =
     (if tb_buffer b = buf then Some (b\<lparr>tb_in_use := False\<rparr> # bs) else map_option ((#) b) (give_back buf bs))"

definition yaffs_release_temp_buffer :: "nat option \<Rightarrow> temp_pool \<Rightarrow> temp_pool" where
  "yaffs_release_temp_buffer buf p =
     (let p = p\<lparr>temp_in_use := temp_in_use p - 1\<rparr>
      in case give_back buf (temp_buffer p) of
           Some bs \<Rightarrow> p\<lparr>temp_buffer := bs\<rparr>
         | None \<Rightarrow> if buf = None then p
                   else p\<lparr>unmanaged_buffer_deallocs := unmanaged_buffer_deallocs p + 1\<rparr>)"

section \<open>The pool\<close>

text \<open>Different buffers, and the ones handed out.\<close>

definition pool_ok :: "temp_pool \<Rightarrow> bool" where
  "pool_ok p \<longleftrightarrow> distinct (map tb_buffer (temp_buffer p)) \<and> None \<notin> set (map tb_buffer (temp_buffer p))"

definition held :: "temp_pool \<Rightarrow> nat option set" where
  "held p = set (map tb_buffer (filter tb_in_use (temp_buffer p)))"

definition n_held :: "temp_pool \<Rightarrow> nat" where
  "n_held p = length (filter tb_in_use (temp_buffer p))"

lemma take_free_spec:
  "take_free bs = Some (r, bs') \<Longrightarrow> map tb_buffer bs' = map tb_buffer bs \<and>
     (\<exists>ys b zs. bs = ys @ b # zs \<and> bs' = ys @ b\<lparr>tb_in_use := True\<rparr> # zs \<and> r = tb_buffer b \<and> \<not> tb_in_use b)"
proof (induction bs arbitrary: bs')
  case (Cons b bs)
  show ?case
  proof (cases "tb_in_use b")
    case True
    then obtain cs where c: "take_free bs = Some (r, cs)" "bs' = b # cs" using Cons.prems by auto
    then obtain ys d zs where "bs = ys @ d # zs" "cs = ys @ d\<lparr>tb_in_use := True\<rparr> # zs" "r = tb_buffer d" "\<not> tb_in_use d"
      "map tb_buffer cs = map tb_buffer bs" using Cons.IH by blast
    then show ?thesis using c by (intro conjI exI [of _ "b # ys"] exI [of _ d] exI [of _ zs]) simp_all
  qed (use Cons.prems in \<open>auto intro: exI [of _ "[]"]\<close>)
qed simp

lemma take_free_none: "take_free bs = None \<longleftrightarrow> list_all tb_in_use bs"
  by (induction bs) auto

lemma give_back_spec:
  "give_back r bs = Some bs' \<Longrightarrow> map tb_buffer bs' = map tb_buffer bs \<and>
     (\<exists>ys b zs. bs = ys @ b # zs \<and> bs' = ys @ b\<lparr>tb_in_use := False\<rparr> # zs \<and> r = tb_buffer b)"
proof (induction bs arbitrary: bs')
  case (Cons b bs)
  show ?case
  proof (cases "tb_buffer b = r")
    case False
    then obtain cs where c: "give_back r bs = Some cs" "bs' = b # cs" using Cons.prems by auto
    then obtain ys d zs where "bs = ys @ d # zs" "cs = ys @ d\<lparr>tb_in_use := False\<rparr> # zs" "r = tb_buffer d"
      "map tb_buffer cs = map tb_buffer bs" using Cons.IH by blast
    then show ?thesis using c by (intro conjI exI [of _ "b # ys"] exI [of _ d] exI [of _ zs]) simp_all
  qed (use Cons.prems in \<open>auto intro: exI [of _ "[]"]\<close>)
qed simp

text \<open>A buffer of the pool is handed out to one caller at a time, as long as one is free.\<close>

lemma get_temp_buffer_fresh:
  assumes ok: "pool_ok p" and free: "n_held p < length (temp_buffer p)" and g: "yaffs_get_temp_buffer u p = (r, p')"
  shows "pool_ok p' \<and> r \<noteq> None \<and> r \<notin> held p \<and> held p' = insert r (held p) \<and> n_held p' = n_held p + 1 \<and>
     unmanaged_buffer_allocs p' = unmanaged_buffer_allocs p"
proof -
  have "\<not> list_all tb_in_use (temp_buffer p)"
  proof
    assume "list_all tb_in_use (temp_buffer p)"
    then have "filter tb_in_use (temp_buffer p) = temp_buffer p" by (simp add: list_all_iff)
    then show False using free by (simp add: n_held_def)
  qed
  then obtain bs where f: "take_free (temp_buffer p) = Some (r, bs)"
    using g take_free_none [of "temp_buffer p"]
    by (auto simp: yaffs_get_temp_buffer_def Let_def split: option.splits if_splits)
  then have t: "temp_buffer p' = bs" "unmanaged_buffer_allocs p' = unmanaged_buffer_allocs p"
    using g by (auto simp: yaffs_get_temp_buffer_def Let_def split: if_splits)
  obtain ys b zs where b: "temp_buffer p = ys @ b # zs" "bs = ys @ b\<lparr>tb_in_use := True\<rparr> # zs" "r = tb_buffer b" "\<not> tb_in_use b"
    "map tb_buffer bs = map tb_buffer (temp_buffer p)" using take_free_spec [OF f] by blast
  have "pool_ok p'" using ok b(5) t(1) by (simp add: pool_ok_def)
  moreover have "r \<noteq> None" using ok b(1,3) by (auto simp: pool_ok_def)
  moreover have "r \<notin> held p" using ok b by (auto simp: pool_ok_def held_def)
  moreover have "held p' = insert r (held p)" using b t(1) by (simp add: held_def)
  moreover have "n_held p' = n_held p + 1" using b t(1) by (simp add: n_held_def)
  ultimately show ?thesis using t(2) by blast
qed

text \<open>Given back, it is free again, and nothing else changes.\<close>

lemma release_temp_buffer_frees:
  assumes ok: "pool_ok p" and r: "r \<in> held p"
  shows "pool_ok (yaffs_release_temp_buffer r p) \<and> held (yaffs_release_temp_buffer r p) = held p - {r} \<and>
     n_held (yaffs_release_temp_buffer r p) + 1 = n_held p \<and>
     unmanaged_buffer_deallocs (yaffs_release_temp_buffer r p) = unmanaged_buffer_deallocs p"
proof -
  have "give_back r bs \<noteq> None" if "r \<in> set (map tb_buffer bs)" for bs using that by (induction bs) auto
  then obtain bs where g: "give_back r (temp_buffer p) = Some bs" using r by (fastforce simp: held_def)
  then obtain ys b zs where b: "temp_buffer p = ys @ b # zs" "bs = ys @ b\<lparr>tb_in_use := False\<rparr> # zs" "r = tb_buffer b"
    "map tb_buffer bs = map tb_buffer (temp_buffer p)" using give_back_spec by blast
  have t: "temp_buffer (yaffs_release_temp_buffer r p) = bs"
    "unmanaged_buffer_deallocs (yaffs_release_temp_buffer r p) = unmanaged_buffer_deallocs p"
    using g by (simp_all add: yaffs_release_temp_buffer_def)
  have d: "r \<notin> tb_buffer ` set ys" "r \<notin> tb_buffer ` set zs" using ok b(1,3) by (auto simp: pool_ok_def)
  have u: "tb_in_use b" using r b(1,3) d by (auto simp: held_def)
  have "held (yaffs_release_temp_buffer r p) = held p - {r}" using b u d t(1) by (auto simp: held_def)
  moreover have "n_held (yaffs_release_temp_buffer r p) + 1 = n_held p" using b u t(1) by (simp add: n_held_def)
  ultimately show ?thesis using ok b(4) t by (simp add: pool_ok_def)
qed

end
