(* ===== verification/Yaffs_Cache.thy ===== *)
theory Yaffs_Cache
  imports Yaffs_Obj
begin

text \<open>
  core/yaffs_cache.c, without the functions that write (they are with the writing of
  files): the entries of the short operation cache, which hold chunks of files by object
  and chunk number.  An entry is named by its index.
\<close>

definition YAFFS_MAX_SHORT_OP_CACHES :: nat where "YAFFS_MAX_SHORT_OP_CACHES = 20"

definition upd_cache :: "'n yaffs_sys \<Rightarrow> nat \<Rightarrow> (yaffs_cache \<Rightarrow> yaffs_cache) \<Rightarrow> 'n yaffs_sys option" where
  "upd_cache s i f = (if i < length (caches s) then Some (s\<lparr>caches := (caches s)[i := f (caches s ! i)]\<rparr>) else None)"

definition get_cache :: "'n yaffs_sys \<Rightarrow> nat \<Rightarrow> yaffs_cache option" where
  "get_cache s i = (if i < length (caches s) then Some (caches s ! i) else None)"

definition yaffs_obj_cache_dirty :: "'n yaffs_sys \<Rightarrow> nat \<Rightarrow> bool" where
  "yaffs_obj_cache_dirty s a = list_ex (\<lambda>c. c_object c = Some a \<and> c_dirty c) (caches s)"

text \<open>The index of the first entry with a property.\<close>

fun first_cache :: "(yaffs_cache \<Rightarrow> bool) \<Rightarrow> yaffs_cache list \<Rightarrow> nat \<Rightarrow> nat option" where
  "first_cache P [] i = None"
| "first_cache P (c # cs) i = (if P c then Some i else first_cache P cs (i + 1))"

definition yaffs_grab_chunk_worker :: "'n yaffs_sys \<Rightarrow> nat option" where
  "yaffs_grab_chunk_worker s = first_cache (\<lambda>c. c_object c = None) (caches s) 0"

text \<open>The entry that is not locked and was used least recently, if all are in use.\<close>

fun lru_loop :: "yaffs_cache list \<Rightarrow> nat \<Rightarrow> int \<Rightarrow> nat option \<Rightarrow> nat option" where
  "lru_loop [] i usage best = best"
| "lru_loop (c # cs) i usage best =
     (if c_object c \<noteq> None \<and> \<not> c_locked c \<and> (c_last_use c < usage \<or> best = None)
      then lru_loop cs (i + 1) (c_last_use c) (Some i)
      else lru_loop cs (i + 1) usage best)"

definition yaffs_find_chunk_cache :: "'n yaffs_sys \<Rightarrow> nat \<Rightarrow> nat \<Rightarrow> nat option \<times> 'n yaffs_sys" where
  "yaffs_find_chunk_cache s a cid =
     (case first_cache (\<lambda>c. c_object c = Some a \<and> c_chunk_id c = cid) (caches s) 0 of
        None \<Rightarrow> (None, s)
      | Some i \<Rightarrow> (Some i, s\<lparr>cache_hits := cache_hits s + 1\<rparr>))"

text \<open>The reset of the usage counts leaves out the first entry.\<close>

definition reset_uses :: "yaffs_cache list \<Rightarrow> yaffs_cache list" where
  "reset_uses cs = (case cs of [] \<Rightarrow> [] | c # cs \<Rightarrow> c # map (\<lambda>c. c\<lparr>c_last_use := 0\<rparr>) cs)"

definition yaffs_use_cache :: "'n yaffs_sys \<Rightarrow> nat \<Rightarrow> bool \<Rightarrow> 'n yaffs_sys option" where
  "yaffs_use_cache s i is_write =
     (if caches s = [] then Some s
      else
        let s = (if cache_last_use s < 0 \<or> cache_last_use s > 100000000
                 then s\<lparr>caches := reset_uses (caches s), cache_last_use := 0\<rparr> else s);
            s = s\<lparr>cache_last_use := cache_last_use s + 1\<rparr>
        in upd_cache s i (\<lambda>c. c\<lparr>c_last_use := cache_last_use s, c_dirty := (is_write \<or> c_dirty c)\<rparr>))"

definition yaffs_invalidate_chunk_cache :: "'n yaffs_sys \<Rightarrow> nat \<Rightarrow> nat \<Rightarrow> 'n yaffs_sys option" where
  "yaffs_invalidate_chunk_cache s a cid =
     (case yaffs_find_chunk_cache s a cid of
        (None, s) \<Rightarrow> Some s
      | (Some i, s) \<Rightarrow> upd_cache s i (\<lambda>c. c\<lparr>c_object := None\<rparr>))"

definition yaffs_invalidate_file_cache :: "'n yaffs_sys \<Rightarrow> nat \<Rightarrow> 'n yaffs_sys" where
  "yaffs_invalidate_file_cache s a =
     s\<lparr>caches := map (\<lambda>c. if c_object c = Some a then c\<lparr>c_object := None\<rparr> else c) (caches s)\<rparr>"

definition yaffs_count_dirty_caches :: "'n yaffs_sys \<Rightarrow> int" where
  "yaffs_count_dirty_caches s = int (length (filter c_dirty (caches s)))"

text \<open>
  The set-up: \<open>oks\<close> are the outcomes of the allocations, of the table first and then of
  the buffers, whose content \<open>junk\<close> is not initialised.  After a failed allocation the
  entries that remain have no buffer.
\<close>

definition zero_cache :: yaffs_cache where
  "zero_cache = \<lparr>c_object = None, c_chunk_id = 0, c_last_use = 0, c_dirty = False, c_n_bytes = 0,
     c_locked = False, c_data = []\<rparr>"

fun cache_init_loop :: "nat \<Rightarrow> bool list \<Rightarrow> u8 list \<Rightarrow> yaffs_cache list \<times> bool" where
  "cache_init_loop 0 oks junk = ([], True)"
| "cache_init_loop (Suc n) [] junk = (replicate (Suc n) zero_cache, False)"
| "cache_init_loop (Suc n) (ok # oks) junk =
     (if ok then let (cs, all_ok) = cache_init_loop n oks junk in (zero_cache\<lparr>c_data := junk\<rparr> # cs, all_ok)
      else (replicate (Suc n) zero_cache, False))"

definition yaffs_cache_init :: "'n yaffs_sys \<Rightarrow> bool list \<Rightarrow> int \<times> 'n yaffs_sys" where
  "yaffs_cache_init s oks =
     (let n = min (n_caches_param (sparam s)) YAFFS_MAX_SHORT_OP_CACHES;
          s = s\<lparr>sparam := (sparam s)\<lparr>n_caches_param := n\<rparr>\<rparr>
      in if n > 0 then
           case oks of
             True # oks \<Rightarrow>
               (let (cs, ok) = cache_init_loop n oks (temp_content (sdev s))
                in (if ok then 0 else -1, s\<lparr>caches := cs, cache_last_use := 0\<rparr>))
           | _ \<Rightarrow> (-1, s\<lparr>caches := [], cache_last_use := 0\<rparr>)
         else (0, s\<lparr>caches := []\<rparr>))"

definition yaffs_cache_deinit :: "'n yaffs_sys \<Rightarrow> 'n yaffs_sys" where
  "yaffs_cache_deinit s = s\<lparr>caches := []\<rparr>"

end
