(* ===== verification/Yaffs_Obj_Info.thy ===== *)
theory Yaffs_Obj_Info
  imports Yaffs_NameVal Yaffs_File_Chunks Yaffs_Cache
begin

text \<open>
  Object headers on flash (core/yaffs_guts.c): loading the details of an object from its
  header, its name, the search for a name in a directory, the extended attributes, and
  the write of a new header.

  Writing a header starts with a look for garbage, and collecting garbage can write
  headers.  While a block is collected \<^verbatim>\<open>gc_disable\<close> is set and the look for garbage
  returns at once, so that the recursion is one level deep: the functions take the look
  for garbage as an argument.
\<close>

type_synonym 'n gc_fn = "'n yaffs_sys \<Rightarrow> 'n yaffs_sys option"

section \<open>Details and names\<close>

definition yaffs_clone_str :: "'n yaffs_sys \<Rightarrow> u8 list option \<Rightarrow> u8 list option \<times> 'n yaffs_sys" where
  "yaffs_clone_str s str =
     (let str = (case str of None \<Rightarrow> [] | Some x \<Rightarrow> x);
          len = strnlen str YAFFS_MAX_ALIAS_LENGTH;
          (ok, d) = kmalloc (sdev s)
      in (if ok then Some (take len str) else None, s\<lparr>sdev := d\<rparr>))"

definition yaffs_check_obj_details_loaded :: "'n yaffs_sys \<Rightarrow> nat option \<Rightarrow> 'n yaffs_sys option" where
  "yaffs_check_obj_details_loaded s o' =
     (case o' of None \<Rightarrow> Some s
      | Some a \<Rightarrow>
          do { x \<leftarrow> objs s a;
               if \<not> o_lazy_loaded x \<or> o_hdr_chunk x < 1 then Some s
               else
                 do { (r, buf, t, s) \<leftarrow> rd_chunk s (o_hdr_chunk x) (Some (temp_content (sdev s)))
                        (Some (stack_tags (sdev s)));
                      buf \<leftarrow> buf;
                      if r = YAFFS_FAIL then Some s
                      else if length buf < OH_SIZE then None
                      else
                        do { let oh = yaffs_do_endian_oh (swap_endian (sdev s)) (oh_of_bytes buf);
                             x \<leftarrow> objs s a;
                             let x = (yaffs_load_attribs (x\<lparr>o_lazy_loaded := False, o_yst_mode := oh_yst_mode oh\<rparr>) oh);
                             x \<leftarrow> yaffs_set_obj_name_from_oh x oh;
                             s \<leftarrow> upd_obj s a (\<lambda>y. x);
                             case o_variant x of
                               SymlinkVar al \<Rightarrow>
                                 let (al, s) = yaffs_clone_str s (Some (cstr (oh_alias oh)))
                                 in upd_obj s a (\<lambda>x. x\<lparr>o_variant := SymlinkVar al\<rparr>)
                             | _ \<Rightarrow> Some s } } })"

text \<open>The name as the array of \<open>buffer_size\<close> characters, and its length.\<close>

definition yaffs_get_obj_name ::
    "'n yaffs_sys \<Rightarrow> nat \<Rightarrow> nat \<Rightarrow> (nat \<times> u8 list \<times> 'n yaffs_sys) option" where
  "yaffs_get_obj_name s a buffer_size =
     do { let name = replicate buffer_size 0;
          s \<leftarrow> yaffs_check_obj_details_loaded s (Some a);
          x \<leftarrow> objs s a;
          (name, s) \<leftarrow>
            (if o_obj_id x = YAFFS_OBJECTID_LOSTNFOUND then
               do { name \<leftarrow> strncpy name YAFFS_LOSTNFOUND_NAME (buffer_size - 1); Some (name, s) }
             else if cstr (o_short_name x) \<noteq> [] then
               do { name \<leftarrow> strcpy name (o_short_name x); Some (name, s) }
             else if o_hdr_chunk x > 0 then
               do { buffer \<leftarrow> buf_write (temp_content (sdev s)) 0 (replicate (data_bytes_per_chunk (sdev s)) 0);
                    (r, buf, t, s) \<leftarrow> rd_chunk s (o_hdr_chunk x) (Some buffer) None;
                    buf \<leftarrow> buf;
                    if r = YAFFS_OK then
                      if length buf < OH_SIZE then None
                      else do { name \<leftarrow> yaffs_load_name_from_oh name (oh_name (oh_of_bytes buf)) buffer_size;
                                Some (name, s) }
                    else Some (name, s) }
             else Some (name, s));
          name \<leftarrow> yaffs_fix_null_name x name buffer_size;
          Some (strnlen name YAFFS_MAX_NAME_LENGTH, name, s) }"

fun find_by_name_loop ::
    "nat list \<Rightarrow> 'n yaffs_sys \<Rightarrow> u8 list \<Rightarrow> u16 \<Rightarrow> (nat option \<times> 'n yaffs_sys) option" where
  "find_by_name_loop [] s name nsum = Some (None, s)"
| "find_by_name_loop (l # ls) s name nsum =
     do { s \<leftarrow> yaffs_check_obj_details_loaded s (Some l);
          x \<leftarrow> objs s l;
          if o_obj_id x = YAFFS_OBJECTID_LOSTNFOUND then
            if cstr name = YAFFS_LOSTNFOUND_NAME then Some (Some l, s) else find_by_name_loop ls s name nsum
          else if o_sum x = nsum \<or> o_hdr_chunk x \<le> 0 then
            do { (n, buffer, s) \<leftarrow> yaffs_get_obj_name s l (YAFFS_MAX_NAME_LENGTH + 1);
                 if str_same name buffer YAFFS_MAX_NAME_LENGTH then Some (Some l, s)
                 else find_by_name_loop ls s name nsum }
          else find_by_name_loop ls s name nsum }"

text \<open>In a directory, which the object must be.\<close>

definition yaffs_find_by_name ::
    "'n yaffs_sys \<Rightarrow> nat \<Rightarrow> u8 list option \<Rightarrow> (nat option \<times> 'n yaffs_sys) option" where
  "yaffs_find_by_name s directory name =
     (case name of None \<Rightarrow> Some (None, s)
      | Some n \<Rightarrow>
          do { d \<leftarrow> objs s directory;
               case o_variant d of
                 DirVar cs dl \<Rightarrow> find_by_name_loop cs s n (yaffs_calc_name_sum (Some n))
               | _ \<Rightarrow> None })"

definition yaffs_get_equivalent_obj :: "'n yaffs_sys \<Rightarrow> nat option \<Rightarrow> (nat option \<times> 'n yaffs_sys) option" where
  "yaffs_get_equivalent_obj s o' =
     (case o' of None \<Rightarrow> Some (None, s)
      | Some a \<Rightarrow>
          do { x \<leftarrow> objs s a;
               case o_variant x of
                 HardlinkVar e i \<Rightarrow> do { s \<leftarrow> yaffs_check_obj_details_loaded s e; Some (e, s) }
               | _ \<Rightarrow> Some (Some a, s) })"

definition yaffs_get_obj_length :: "'n yaffs_sys \<Rightarrow> nat \<Rightarrow> (int \<times> 'n yaffs_sys) option" where
  "yaffs_get_obj_length s a =
     do { (e, s) \<leftarrow> yaffs_get_equivalent_obj s (Some a);
          a \<leftarrow> e;
          x \<leftarrow> objs s a;
          Some (case o_variant x of
                  FileVar f \<Rightarrow> file_size f
                | SymlinkVar al \<Rightarrow> (case al of None \<Rightarrow> 0 | Some al \<Rightarrow> int (strnlen al YAFFS_MAX_ALIAS_LENGTH))
                | _ \<Rightarrow> int (data_bytes_per_chunk (sdev s)), s) }"

definition yaffs_get_obj_inode :: "'n yaffs_sys \<Rightarrow> nat \<Rightarrow> (u32 \<times> 'n yaffs_sys) option" where
  "yaffs_get_obj_inode s a =
     do { (e, s) \<leftarrow> yaffs_get_equivalent_obj s (Some a);
          a \<leftarrow> e; x \<leftarrow> objs s a; Some (o_obj_id x, s) }"

text \<open>The numbers of directory entry types and the file type bits of a mode.\<close>

definition yaffs_get_obj_type :: "'n yaffs_sys \<Rightarrow> nat \<Rightarrow> (nat \<times> 'n yaffs_sys) option" where
  "yaffs_get_obj_type s a =
     do { (e, s) \<leftarrow> yaffs_get_equivalent_obj s (Some a);
          a \<leftarrow> e; x \<leftarrow> objs s a;
          let fmt = o_yst_mode x AND 0xf000;
          Some (case o_variant x of
                  FileVar f \<Rightarrow> 8
                | DirVar c d \<Rightarrow> 4
                | SymlinkVar al \<Rightarrow> 10
                | SpecialVar \<Rightarrow> (if fmt = 0x1000 then 1 else if fmt = 0x2000 then 2
                                else if fmt = 0x6000 then 6 else if fmt = 0xc000 then 12 else 8)
                | _ \<Rightarrow> 8, s) }"

definition yaffs_get_symlink_alias :: "'n yaffs_sys \<Rightarrow> nat \<Rightarrow> (u8 list option \<times> 'n yaffs_sys) option" where
  "yaffs_get_symlink_alias s a =
     do { (e, s) \<leftarrow> yaffs_get_equivalent_obj s (Some a);
          a \<leftarrow> e; x \<leftarrow> objs s a;
          Some (case o_variant x of SymlinkVar al \<Rightarrow> yaffs_clone_str s al | _ \<Rightarrow> yaffs_clone_str s (Some [])) }"

end
