(* ===== verification/Yaffs_Update_Oh.thy ===== *)
theory Yaffs_Update_Oh
  imports Yaffs_Obj_Info
begin

text \<open>
  Writing object headers (core/yaffs_guts.c): \<^verbatim>\<open>yaffs_update_oh\<close> with the change of an
  extended attribute on the way, the change of the name and directory of an object, and
  the end of an object that is not a file with data.
\<close>

section \<open>Extended attributes\<close>

record yaffs_xattr_mod =
  xm_set :: bool
  xm_name :: "u8 list"
  xm_data :: "u8 list"
  xm_create :: bool
  xm_replace :: bool

text \<open>On the whole chunk buffer; the result of the operation goes to the caller.\<close>

definition yaffs_apply_xattrib_mod ::
    "'n yaffs_sys \<Rightarrow> nat \<Rightarrow> u8 list \<Rightarrow> yaffs_xattr_mod \<Rightarrow> (int \<times> u8 list \<times> 'n yaffs_sys) option" where
  "yaffs_apply_xattrib_mod s a buffer xmod =
     do { let swap = swap_endian (sdev s);
          let x_size = int (data_bytes_per_chunk (sdev s)) - int OH_SIZE;
          let xb = drop OH_SIZE buffer;
          (retval, xb) \<leftarrow> (if xm_set xmod
             then nval_set swap xb x_size (xm_name xmod) (xm_data xmod) (xm_create xmod) (xm_replace xmod)
             else nval_del swap xb x_size (xm_name xmod));
          has \<leftarrow> nval_hasvalues swap xb x_size;
          s \<leftarrow> upd_obj s a (\<lambda>x. x\<lparr>o_has_xattr := has, o_xattr_known := True\<rparr>);
          Some (retval, take OH_SIZE buffer @ xb, s) }"

section \<open>The header of an object\<close>

text \<open>The header that the fields of an object give, over the one in the buffer.\<close>

definition oh_of_obj :: "yaffs_obj \<Rightarrow> u32 \<Rightarrow> u8 list \<Rightarrow> u32 \<Rightarrow> bool \<Rightarrow> yaffs_obj_hdr \<Rightarrow> yaffs_obj_hdr" where
  "oh_of_obj x parent_id name shadows is_shrink oh =
     (let oh = oh\<lparr>oh_type := variant_type x, oh_yst_mode := o_yst_mode x, oh_shadows_obj := shadows,
                  oh_inband_shadowed_obj_id := shadows\<rparr>
      in (yaffs_load_attribs_oh oh x)\<lparr>oh_parent_obj_id := parent_id, oh_name := name,
                  oh_is_shrink := (if is_shrink then 1 else 0)\<rparr>)"

text \<open>The part of the header that depends on the type: the size for the tags with it.\<close>

definition oh_variant :: "yaffs_obj \<Rightarrow> yaffs_obj_hdr \<Rightarrow> (int \<times> yaffs_obj_hdr) option" where
  "oh_variant x oh =
     (case o_variant x of
        FileVar f \<Rightarrow>
          let fsz = (if oh_parent_obj_id oh \<noteq> YAFFS_OBJECTID_DELETED \<and>
                              oh_parent_obj_id oh \<noteq> YAFFS_OBJECTID_UNLINKED then stored_size f else 0)
          in Some (fsz, yaffs_oh_size_load False oh (word_of_int fsz) False)
      | HardlinkVar e i \<Rightarrow> Some (0, oh\<lparr>oh_equiv_id := i\<rparr>)
      | SymlinkVar al \<Rightarrow>
          do { al \<leftarrow> strncpy (oh_alias oh) (case al of None \<Rightarrow> no_alias | Some al \<Rightarrow> al) YAFFS_MAX_ALIAS_LENGTH;
               Some (0, oh\<lparr>oh_alias := al[YAFFS_MAX_ALIAS_LENGTH := 0]\<rparr>) }
      | _ \<Rightarrow> Some (0, oh))"

text \<open>
  The old header: its chunk buffer with the header wiped, and the old name.  When it
  cannot be read the buffer is left as the read left it, and the name is the one the
  array was set to, with whatever the stack held behind it.
\<close>

definition old_header :: "'n yaffs_sys \<Rightarrow> int \<Rightarrow> (u8 list \<times> u8 list \<times> 'n yaffs_sys) option" where
  "old_header s prev_chunk_id =
     (let buffer = temp_content (sdev s);
          old_name = take (YAFFS_MAX_NAME_LENGTH + 1)
            (silly_old_name @ [0] @ drop (length silly_old_name + 1) (temp_content (sdev s)))
      in if prev_chunk_id > 0 then
           do { (r, buf, t, s) \<leftarrow> rd_chunk s prev_chunk_id (Some buffer) (Some (stack_tags (sdev s)));
                buffer \<leftarrow> buf;
                if length buffer < OH_SIZE then None
                else if r = YAFFS_OK
                then Some (replicate OH_SIZE 0xff @ drop OH_SIZE buffer, oh_name (oh_of_bytes buffer), s)
                else Some (buffer, old_name, s) }
         else
           do { buffer \<leftarrow> buf_write buffer 0 (replicate (data_bytes_per_chunk (sdev s)) 0xff);
                if length buffer < OH_SIZE then None else Some (buffer, old_name, s) })"

definition oh_tags :: "yaffs_obj \<Rightarrow> yaffs_obj_hdr \<Rightarrow> int \<Rightarrow> yaffs_ext_tags" where
  "oh_tags x oh fsz =
     zero_tags\<lparr>chunk_id := 0, obj_id := o_obj_id x, serial_number := ucast (o_serial x),
       extra_available := 1, extra_parent_id := oh_parent_obj_id oh,
       extra_file_size := word_of_int fsz, extra_is_shrink := oh_is_shrink oh,
       extra_equiv_id := oh_equiv_id oh, extra_shadows := (if sint (oh_shadows_obj oh) > 0 then 1 else 0),
       extra_obj_type := variant_type x\<rparr>"

text \<open>The result, the result for an attribute change, and the state.\<close>

definition update_oh_with ::
    "'n gc_fn \<Rightarrow> 'n yaffs_sys \<Rightarrow> nat \<Rightarrow> u8 list option \<Rightarrow> bool \<Rightarrow> bool \<Rightarrow> u32 \<Rightarrow> yaffs_xattr_mod option \<Rightarrow>
     (int \<times> int \<times> 'n yaffs_sys) option" where
  "update_oh_with check_gc s a name force is_shrink shadows xmod =
     do { x \<leftarrow> objs s a;
          if o_fake x \<and> Some a \<noteq> root_dir s \<and> \<not> force \<and> xmod = None then Some (0, - ENOSPC, s)
          else
            do { s \<leftarrow> check_gc s;
                 s \<leftarrow> yaffs_check_obj_details_loaded s (Some a);
                 x \<leftarrow> objs s a;
                 let prev_chunk_id = o_hdr_chunk x;
                 (buffer, old_name, s) \<leftarrow> old_header s prev_chunk_id;
                 parent_id \<leftarrow> (case o_parent x of None \<Rightarrow> Some 0
                              | Some p \<Rightarrow> do { y \<leftarrow> objs s p; Some (o_obj_id y) });
                 let zero_name = replicate (YAFFS_MAX_NAME_LENGTH + 1) 0;
                 new_name \<leftarrow> (case name of
                     Some n \<Rightarrow> if cstr n \<noteq> [] then yaffs_load_oh_from_name zero_name n
                               else Some (if prev_chunk_id > 0 then old_name else zero_name)
                   | None \<Rightarrow> Some (if prev_chunk_id > 0 then old_name else zero_name));
                 (fsz, oh) \<leftarrow> oh_variant x (oh_of_obj x parent_id new_name shadows is_shrink (oh_of_bytes buffer));
                 let buffer = oh_to_bytes buffer oh;
                 (xresult, buffer, s) \<leftarrow> (case xmod of None \<Rightarrow> Some (- ENOSPC, buffer, s)
                    | Some m \<Rightarrow> yaffs_apply_xattrib_mod s a buffer m);
                 s \<leftarrow> upd_obj s a (\<lambda>x. x\<lparr>o_serial := o_serial x + 1\<rparr>);
                 x \<leftarrow> objs s a;
                 let new_tags = oh_tags x oh fsz;
                 let buffer = oh_to_bytes buffer (yaffs_do_endian_oh (swap_endian (sdev s)) (oh_of_bytes buffer));
                 (new_chunk_id, s) \<leftarrow> wr_new_chunk s buffer new_tags (prev_chunk_id > 0);
                 if new_chunk_id < 0 then Some (new_chunk_id, xresult, s)
                 else
                   do { s \<leftarrow> upd_obj s a (\<lambda>x. x\<lparr>o_hdr_chunk := new_chunk_id\<rparr>);
                        s \<leftarrow> (if prev_chunk_id > 0 then chunk_del s prev_chunk_id True else Some s);
                        s \<leftarrow> (if yaffs_obj_cache_dirty s a then Some s
                              else upd_obj s a (\<lambda>x. x\<lparr>o_dirty := False\<rparr>));
                        s \<leftarrow> (if is_shrink
                              then run_dev (\<lambda>d. upd_block_info d (new_chunk_id div chunks_per_block (param d))
                                             (\<lambda>bi. bi\<lparr>has_shrink_hdr := True\<rparr>)) s
                              else Some s);
                        Some (new_chunk_id, xresult, s) } } }"

section \<open>Names and ends of objects\<close>

text \<open>The new directory of None is the old one.\<close>

definition change_obj_name_with ::
    "'n gc_fn \<Rightarrow> 'n yaffs_sys \<Rightarrow> nat \<Rightarrow> nat option \<Rightarrow> u8 list \<Rightarrow> bool \<Rightarrow> u32 \<Rightarrow> (int \<times> 'n yaffs_sys) option" where
  "change_obj_name_with check_gc s a new_dir new_name force shadows =
     do { x \<leftarrow> objs s a;
          dir \<leftarrow> (case new_dir of None \<Rightarrow> o_parent x | Some d \<Rightarrow> Some d);
          let unlink_op = (Some dir = unlinked_dir s);
          let del_op = (Some dir = del_dir s);
          (existing_target, s) \<leftarrow> yaffs_find_by_name s dir (Some new_name);
          if \<not> (unlink_op \<or> del_op \<or> force \<or> sint shadows > 0 \<or> existing_target = None) then Some (YAFFS_FAIL, s)
          else
            do { x \<leftarrow> objs s a;
                 x \<leftarrow> yaffs_set_obj_name x (Some new_name);
                 s \<leftarrow> upd_obj s a (\<lambda>y. x\<lparr>o_dirty := True\<rparr>);
                 s \<leftarrow> yaffs_add_obj_to_dir s dir a;
                 s \<leftarrow> (if unlink_op then upd_obj s a (\<lambda>x. x\<lparr>o_unlinked := True\<rparr>) else Some s);
                 (r, xr, s) \<leftarrow> update_oh_with check_gc s a (Some new_name) False del_op shadows None;
                 Some (if r \<ge> 0 then YAFFS_OK else YAFFS_FAIL, s) } }"

definition generic_obj_del_with :: "'n gc_fn \<Rightarrow> 'n yaffs_sys \<Rightarrow> nat \<Rightarrow> (int \<times> 'n yaffs_sys) option" where
  "generic_obj_del_with check_gc s a =
     do { let s = yaffs_invalidate_file_cache s a;
          x \<leftarrow> objs s a;
          (r, s) \<leftarrow> (if is_yaffs2 (param (sdev s)) \<and> o_parent x \<noteq> del_dir s
                     then change_obj_name_with check_gc s a (del_dir s) name_deleted False 0
                     else Some (YAFFS_OK, s));
          s \<leftarrow> yaffs_remove_obj_from_dir s a;
          x \<leftarrow> objs s a;
          s \<leftarrow> chunk_del s (o_hdr_chunk x) True;
          s \<leftarrow> upd_obj s a (\<lambda>x. x\<lparr>o_hdr_chunk := 0\<rparr>);
          s \<leftarrow> yaffs_free_obj s a;
          Some (YAFFS_OK, s) }"

text \<open>Giving back the top of a file, which may be NULL.\<close>

definition free_top :: "'n yaffs_sys \<Rightarrow> nat \<Rightarrow> 'n yaffs_sys option" where
  "free_top s a =
     do { f \<leftarrow> get_file s a;
          let s = set_dev (case top f of
                     Some t \<Rightarrow> yaffs_free_tnode
                   | None \<Rightarrow> (\<lambda>d. d\<lparr>n_tnodes := n_tnodes d - 1, checkpoint_blocks_required := 0\<rparr>)) s;
          set_file s a (f\<lparr>top := None\<rparr>) }"

definition soft_del_file_with :: "'n gc_fn \<Rightarrow> 'n yaffs_sys \<Rightarrow> nat \<Rightarrow> 'n yaffs_sys option" where
  "soft_del_file_with check_gc s a =
     do { x \<leftarrow> objs s a;
          if \<not> o_deleted x \<or> \<not> is_file x \<or> o_soft_del x then Some s
          else if o_n_data_chunks x \<le> 0 then
            do { s \<leftarrow> free_top s a; (r, s) \<leftarrow> generic_obj_del_with check_gc s a; Some s }
          else
            do { f \<leftarrow> get_file s a;
                 s \<leftarrow> (case top f of None \<Rightarrow> Some s
                       | Some tn \<Rightarrow>
                           do { (all_done, tn, d) \<leftarrow> yaffs_soft_del_worker (top_level f) (sdev s) tn;
                                set_file (s\<lparr>sdev := d\<rparr>) a (f\<lparr>top := Some tn\<rparr>) });
                 upd_obj s a (\<lambda>x. x\<lparr>o_soft_del := True\<rparr>) } }"

end
