(* ===== verification/Yaffs_Gc.thy ===== *)
theory Yaffs_Gc
  imports Yaffs_Update_Oh Yaffs_Gc_Select
begin

text \<open>
  Garbage collection (core/yaffs_guts.c): the chunks in use of a block are written
  elsewhere until the block has none and is erased.  While it runs \<^verbatim>\<open>gc_disable\<close> is set,
  and the look for garbage of a header written meanwhile returns at once; \<open>no_gc\<close> is
  that look, None where it would not return at once.
\<close>

definition no_gc :: "'n gc_fn" where
  "no_gc s = (if gc_disable (sdev s) then Some s else None)"

section \<open>Collecting one chunk\<close>

text \<open>The chunk to write for a chunk in use: a header loses its shrink and shadow marks.\<close>

definition gc_refresh :: "'n yaffs_sys \<Rightarrow> yaffs_obj \<Rightarrow> u8 list \<Rightarrow> yaffs_ext_tags \<Rightarrow> (u8 list \<times> yaffs_ext_tags) option" where
  "gc_refresh s x buffer tags =
     (if chunk_id tags = 0 then
        if length buffer < OH_SIZE then None
        else
          let oh = (oh_of_bytes buffer)\<lparr>oh_is_shrink := 0, oh_shadows_obj := 0, oh_inband_shadowed_obj_id := 0\<rparr>;
              tags = tags\<lparr>extra_is_shrink := 0, extra_shadows := 0\<rparr>
          in case o_variant x of
               FileVar f \<Rightarrow>
                 let sz = word_of_int (stored_size f)
                 in Some (oh_to_bytes buffer (yaffs_oh_size_load (swap_endian (sdev s)) oh sz True),
                          tags\<lparr>extra_file_size := sz\<rparr>)
             | _ \<Rightarrow> Some (oh_to_bytes buffer oh, tags)
      else Some (buffer, tags))"

definition gc_soft_deleted :: "'n yaffs_sys \<Rightarrow> int \<Rightarrow> nat \<Rightarrow> u32 \<Rightarrow> 'n yaffs_sys option" where
  "gc_soft_deleted s block a oid =
     do { let s = set_dev (\<lambda>d. d\<lparr>n_free_chunks := n_free_chunks d - 1\<rparr>) s;
          s \<leftarrow> run_dev (\<lambda>d. upd_block_info d block (\<lambda>bi. bi\<lparr>soft_del_pages := s10 (soft_del_pages bi - 1)\<rparr>)) s;
          s \<leftarrow> upd_obj s a (\<lambda>x. x\<lparr>o_n_data_chunks := o_n_data_chunks x - 1\<rparr>);
          x \<leftarrow> objs s a;
          if o_n_data_chunks x \<le> 0 then
            if int (length (gc_cleanup_list s)) < chunks_per_block (param (sdev s))
            then Some (s\<lparr>gc_cleanup_list := gc_cleanup_list s @ [oid]\<rparr>) else None
          else Some s }"

definition yaffs_gc_process_chunk ::
    "'n yaffs_sys \<Rightarrow> int \<Rightarrow> int \<Rightarrow> u8 list \<Rightarrow> (int \<times> u8 list \<times> 'n yaffs_sys) option" where
  "yaffs_gc_process_chunk s block old_chunk buffer =
     do { (r, buf, t, s) \<leftarrow> rd_chunk s old_chunk (Some buffer) (Some zero_tags);
          buffer \<leftarrow> buf;
          tags \<leftarrow> t;
          o' \<leftarrow> yaffs_find_by_number s (obj_id tags);
          (ret_val, mark_flash, buffer, s) \<leftarrow>
            (case o' of
               None \<Rightarrow> Some (YAFFS_OK, True, buffer, s)
             | Some a \<Rightarrow>
                 do { x \<leftarrow> objs s a;
                      if o_deleted x \<and> o_soft_del x \<and> chunk_id tags \<noteq> 0 then
                        do { s \<leftarrow> gc_soft_deleted s block a (obj_id tags);
                             Some (YAFFS_OK, False, buffer, s) }
                      else
                        do { let tags = tags\<lparr>serial_number := serial_number tags + 1\<rparr>;
                             let s = set_dev (\<lambda>d. d\<lparr>n_gc_copies := n_gc_copies d + 1\<rparr>) s;
                             (buffer, tags) \<leftarrow> gc_refresh s x buffer tags;
                             (new_chunk, s) \<leftarrow> wr_new_chunk s buffer tags True;
                             if new_chunk < 0 then Some (YAFFS_FAIL, True, buffer, s)
                             else if chunk_id tags = 0 then
                               do { s \<leftarrow> upd_obj s a (\<lambda>x. x\<lparr>o_hdr_chunk := new_chunk,
                                                         o_serial := ucast (serial_number tags)\<rparr>);
                                    Some (YAFFS_OK, True, buffer, s) }
                             else
                               do { (r, s) \<leftarrow> yaffs_put_chunk_in_file s a (unat (chunk_id tags)) new_chunk 0;
                                    Some (YAFFS_OK, True, buffer, s) } } });
          s \<leftarrow> (if ret_val = YAFFS_OK then chunk_del s old_chunk mark_flash else Some s);
          Some (ret_val, buffer, s) }"

section \<open>Collecting a block\<close>

text \<open>The loop over the pages of the block from \<^verbatim>\<open>gc_chunk\<close> on; \<open>n\<close> pages are left.\<close>

fun gc_pages_loop ::
    "nat \<Rightarrow> 'n yaffs_sys \<Rightarrow> int \<Rightarrow> int \<Rightarrow> int \<Rightarrow> u8 list \<Rightarrow> (int \<times> 'n yaffs_sys) option" where
  "gc_pages_loop 0 s block old_chunk max_copies buffer = Some (YAFFS_OK, s)"
| "gc_pages_loop (Suc n) s block old_chunk max_copies buffer =
     do { bi \<leftarrow> yaffs_get_block_info (sdev s) block;
          if gc_chunk (sdev s) < chunks_per_block (param (sdev s)) \<and>
             block_state bi = YAFFS_BLOCK_STATE_COLLECTING \<and> max_copies > 0
          then
            do { used \<leftarrow> yaffs_check_chunk_bit (sdev s) block (gc_chunk (sdev s));
                 (ret_val, buffer, s) \<leftarrow> (if used then yaffs_gc_process_chunk s block old_chunk buffer
                                          else Some (YAFFS_OK, buffer, s));
                 let s = set_dev (\<lambda>d. d\<lparr>gc_chunk := gc_chunk d + 1\<rparr>) s;
                 if ret_val \<noteq> YAFFS_OK then Some (ret_val, s)
                 else gc_pages_loop n s block (old_chunk + 1) (if used then max_copies - 1 else max_copies) buffer }
          else Some (YAFFS_OK, s) }"

text \<open>The files whose last soft deleted chunk has gone.\<close>

fun gc_cleanup_loop :: "u32 list \<Rightarrow> 'n yaffs_sys \<Rightarrow> 'n yaffs_sys option" where
  "gc_cleanup_loop [] s = Some s"
| "gc_cleanup_loop (oid # ids) s =
     do { o' \<leftarrow> yaffs_find_by_number s oid;
          s \<leftarrow> (case o' of None \<Rightarrow> Some s
                | Some a \<Rightarrow>
                    do { s \<leftarrow> free_top s a;
                         (r, s) \<leftarrow> generic_obj_del_with no_gc s a;
                         Some (set_dev (\<lambda>d. d\<lparr>n_deleted_files := n_deleted_files d - 1\<rparr>) s) });
          gc_cleanup_loop ids s }"

definition yaffs_gc_block :: "'n yaffs_sys \<Rightarrow> int \<Rightarrow> bool \<Rightarrow> (int \<times> 'n yaffs_sys) option" where
  "yaffs_gc_block s block whole_block =
     do { bi \<leftarrow> yaffs_get_block_info (sdev s) block;
          let is_checkpt_block = (block_state bi = YAFFS_BLOCK_STATE_CHECKPOINT);
          s \<leftarrow> run_dev (\<lambda>d. upd_block_info d block (\<lambda>bi. bi\<lparr>has_shrink_hdr := False,
                  block_state := (if block_state bi = YAFFS_BLOCK_STATE_FULL
                                  then YAFFS_BLOCK_STATE_COLLECTING else block_state bi)\<rparr>)) s;
          let s = set_dev (\<lambda>d. d\<lparr>gc_disable := True\<rparr>) s;
          s \<leftarrow> run_dev (\<lambda>d. yaffs_summary_gc d block) s;
          some \<leftarrow> (if is_checkpt_block then Some False else yaffs_still_some_chunks (sdev s) block);
          (ret_val, s) \<leftarrow>
            (if is_checkpt_block \<or> \<not> some then
               do { s \<leftarrow> run_dev (\<lambda>d. yaffs_block_became_dirty (sdrv s) (stg s) d block) s; Some (YAFFS_OK, s) }
             else
               let cpb = chunks_per_block (param (sdev s))
               in gc_pages_loop (nat (cpb - gc_chunk (sdev s))) s block (block * cpb + gc_chunk (sdev s))
                    (if whole_block then cpb else 5) (temp_content (sdev s)));
          bi \<leftarrow> yaffs_get_block_info (sdev s) block;
          s \<leftarrow> (if block_state bi = YAFFS_BLOCK_STATE_COLLECTING
                then run_dev (\<lambda>d. upd_block_info d block (\<lambda>bi. bi\<lparr>block_state := YAFFS_BLOCK_STATE_FULL\<rparr>)) s
                else
                  do { s \<leftarrow> gc_cleanup_loop (gc_cleanup_list s) s;
                       Some (set_dev (\<lambda>d. d\<lparr>gc_block := 0, gc_chunk := 0\<rparr>) (s\<lparr>gc_cleanup_list := []\<rparr>)) });
          Some (ret_val, set_dev (\<lambda>d. d\<lparr>gc_disable := False\<rparr>) s) }"

section \<open>The look for garbage\<close>

text \<open>Division as in C, towards zero.\<close>

definition cdiv :: "int \<Rightarrow> int \<Rightarrow> int" where
  "cdiv a b = sgn a * sgn b * (\<bar>a\<bar> div \<bar>b\<bar>)"

text \<open>The decision on aggressive collection, or on none (None inside).\<close>

definition gc_urgency :: "'n yaffs_dev \<Rightarrow> bool \<Rightarrow> bool option \<times> 'n yaffs_dev" where
  "gc_urgency dev background =
     (let (adjust, dev) = yaffs_calc_checkpt_blocks_required dev;
          min_erased = n_reserved_blocks (param dev) + adjust + 1;
          erased_chunks = n_erased_blocks dev * chunks_per_block (param dev)
      in if n_erased_blocks dev < min_erased then (Some True, dev)
         else if \<not> background \<and> erased_chunks > cdiv (n_free_chunks dev) 4 then (None, dev)
         else
           let dev = (if gc_skip dev > 20 then dev\<lparr>gc_skip := 20\<rparr> else dev)
           in if erased_chunks < cdiv (n_free_chunks dev) 2 \<or> gc_skip dev < 1 \<or> background then (Some False, dev)
              else (None, dev\<lparr>gc_skip := gc_skip dev - 1\<rparr>))"

text \<open>One round of the loop: whether it was left by a break, the result so far and the state.\<close>

definition gc_round ::
    "'n yaffs_sys \<Rightarrow> bool \<Rightarrow> bool \<Rightarrow> int \<Rightarrow> (bool \<times> bool \<times> int \<times> 'n yaffs_sys) option" where
  "gc_round s background aggressive gc_ok =
     (let (u, d) = gc_urgency (sdev s) background; s = s\<lparr>sdev := d\<rparr>
      in case u of
           None \<Rightarrow> Some (True, aggressive, gc_ok, s)
         | Some aggressive \<Rightarrow>
             do { let s = set_dev (\<lambda>d. d\<lparr>gc_skip := 5\<rparr>) s;
                  let s = (if gc_block (sdev s) < 1 \<and> \<not> aggressive
                           then let (b, d) = yaffs2_find_refresh_block (sdev s)
                                in s\<lparr>sdev := d\<lparr>gc_block := b, gc_chunk := 0\<rparr>, gc_cleanup_list := []\<rparr>
                           else s);
                  s \<leftarrow> (if gc_block (sdev s) < 1
                        then do { (b, d) \<leftarrow> yaffs_find_gc_block (sdev s) aggressive background;
                                  Some (s\<lparr>sdev := d\<lparr>gc_block := b, gc_chunk := 0\<rparr>, gc_cleanup_list := []\<rparr>) }
                        else Some s);
                  (gc_ok, s) \<leftarrow>
                    (if gc_block (sdev s) > 0 then
                       do { let s = set_dev (\<lambda>d. d\<lparr>all_gcs := all_gcs d + 1\<rparr>) s;
                            let s = (if aggressive then s
                                     else set_dev (\<lambda>d. d\<lparr>passive_gc_count := passive_gc_count d + 1\<rparr>) s);
                            yaffs_gc_block s (gc_block (sdev s)) aggressive }
                     else Some (gc_ok, s));
                  Some (False, aggressive, gc_ok, s) })"

definition gc_again :: "'n yaffs_dev \<Rightarrow> bool" where
  "gc_again dev \<longleftrightarrow> n_erased_blocks dev < n_reserved_blocks (param dev) \<and> gc_block dev > 0"

definition yaffs_check_gc :: "'n yaffs_sys \<Rightarrow> bool \<Rightarrow> (int \<times> 'n yaffs_sys) option" where
  "yaffs_check_gc s background =
     (let (go, s) = (case gc_control s of None \<Rightarrow> (True, s)
                     | Some [] \<Rightarrow> (False, s)
                     | Some (c # cs) \<Rightarrow> (c AND 1 \<noteq> 0, s\<lparr>gc_control := Some cs\<rparr>))
      in if \<not> go then Some (YAFFS_OK, s)
         else if gc_disable (sdev s) then Some (YAFFS_OK, s)
         else
           do { (brk, aggressive, gc_ok, s) \<leftarrow> gc_round s background False YAFFS_OK;
                (aggressive, gc_ok, s) \<leftarrow>
                  (if \<not> brk \<and> gc_again (sdev s)
                   then do { (brk, aggressive, gc_ok, s) \<leftarrow> gc_round s background aggressive gc_ok;
                             Some (aggressive, gc_ok, s) }
                   else Some (aggressive, gc_ok, s));
                Some (if aggressive then gc_ok else YAFFS_OK, s) })"

definition yaffs_bg_gc :: "'n yaffs_sys \<Rightarrow> (bool \<times> 'n yaffs_sys) option" where
  "yaffs_bg_gc s =
     do { let erased_chunks = n_erased_blocks (sdev s) * chunks_per_block (param (sdev s));
          (r, s) \<leftarrow> yaffs_check_gc s True;
          Some (erased_chunks > cdiv (n_free_chunks (sdev s)) 2, s) }"

section \<open>The functions that look for garbage\<close>

definition fg_gc :: "'n gc_fn" where
  "fg_gc s = do { (r, s) \<leftarrow> yaffs_check_gc s False; Some s }"

definition yaffs_update_oh ::
    "'n yaffs_sys \<Rightarrow> nat \<Rightarrow> u8 list option \<Rightarrow> bool \<Rightarrow> bool \<Rightarrow> u32 \<Rightarrow> yaffs_xattr_mod option \<Rightarrow>
     (int \<times> int \<times> 'n yaffs_sys) option" where
  "yaffs_update_oh = update_oh_with fg_gc"

definition yaffs_change_obj_name ::
    "'n yaffs_sys \<Rightarrow> nat \<Rightarrow> nat option \<Rightarrow> u8 list \<Rightarrow> bool \<Rightarrow> u32 \<Rightarrow> (int \<times> 'n yaffs_sys) option" where
  "yaffs_change_obj_name = change_obj_name_with fg_gc"

definition yaffs_generic_obj_del :: "'n yaffs_sys \<Rightarrow> nat \<Rightarrow> (int \<times> 'n yaffs_sys) option" where
  "yaffs_generic_obj_del = generic_obj_del_with fg_gc"

definition yaffs_soft_del_file :: "'n yaffs_sys \<Rightarrow> nat \<Rightarrow> 'n yaffs_sys option" where
  "yaffs_soft_del_file = soft_del_file_with fg_gc"

section \<open>Extended attributes of objects\<close>

definition yaffs_do_xattrib_mod ::
    "'n yaffs_sys \<Rightarrow> nat \<Rightarrow> yaffs_xattr_mod \<Rightarrow> (int \<times> 'n yaffs_sys) option" where
  "yaffs_do_xattrib_mod s a xmod =
     do { (result, xresult, s) \<leftarrow> yaffs_update_oh s a None False False 0 (Some xmod);
          Some (if result > 0 then xresult else - ENOSPC, s) }"

definition yaffs_set_xattrib ::
    "'n yaffs_sys \<Rightarrow> nat \<Rightarrow> u8 list \<Rightarrow> u8 list \<Rightarrow> bool \<Rightarrow> bool \<Rightarrow> (int \<times> 'n yaffs_sys) option" where
  "yaffs_set_xattrib s a name value create rep =
     yaffs_do_xattrib_mod s a \<lparr>xm_set = True, xm_name = name, xm_data = value, xm_create = create, xm_replace = rep\<rparr>"

definition yaffs_remove_xattrib :: "'n yaffs_sys \<Rightarrow> nat \<Rightarrow> u8 list \<Rightarrow> (int \<times> 'n yaffs_sys) option" where
  "yaffs_remove_xattrib s a name =
     yaffs_do_xattrib_mod s a \<lparr>xm_set = False, xm_name = name, xm_data = [], xm_create = False, xm_replace = False\<rparr>"

text \<open>The value of a name, or the list of names for None, with the result.\<close>

definition yaffs_do_xattrib_fetch ::
    "'n yaffs_sys \<Rightarrow> nat \<Rightarrow> u8 list option \<Rightarrow> int \<Rightarrow> (int \<times> u8 list option \<times> 'n yaffs_sys) option" where
  "yaffs_do_xattrib_fetch s a name bsize =
     do { x \<leftarrow> objs s a;
          if o_hdr_chunk x < 1 then Some (- ENODATA, None, s)
          else if o_xattr_known x \<and> \<not> o_has_xattr x then Some (if name \<noteq> None then - ENODATA else 0, None, s)
          else
            do { (r, buf, t, s) \<leftarrow> rd_chunk s (o_hdr_chunk x) (Some (temp_content (sdev s)))
                   (Some (stack_tags (sdev s)));
                 buffer \<leftarrow> buf;
                 if r \<noteq> YAFFS_OK then Some (-2, None, s)
                 else
                   do { let swap = swap_endian (sdev s);
                        let x_size = int (data_bytes_per_chunk (sdev s)) - int OH_SIZE;
                        let xb = drop OH_SIZE buffer;
                        s \<leftarrow> (if o_xattr_known x then Some s
                              else do { has \<leftarrow> nval_hasvalues swap xb x_size;
                                        upd_obj s a (\<lambda>x. x\<lparr>o_has_xattr := has, o_xattr_known := True\<rparr>) });
                        case name of
                          Some n \<Rightarrow> do { (retval, v) \<leftarrow> nval_get swap xb x_size n bsize; Some (retval, v, s) }
                        | None \<Rightarrow> do { (retval, v) \<leftarrow> nval_list swap xb x_size bsize; Some (retval, Some v, s) } } } }"

definition yaffs_get_xattrib ::
    "'n yaffs_sys \<Rightarrow> nat \<Rightarrow> u8 list \<Rightarrow> int \<Rightarrow> (int \<times> u8 list option \<times> 'n yaffs_sys) option" where
  "yaffs_get_xattrib s a name bsize = yaffs_do_xattrib_fetch s a (Some name) bsize"

definition yaffs_list_xattrib ::
    "'n yaffs_sys \<Rightarrow> nat \<Rightarrow> int \<Rightarrow> (int \<times> u8 list option \<times> 'n yaffs_sys) option" where
  "yaffs_list_xattrib s a bsize = yaffs_do_xattrib_fetch s a None bsize"

end
