(* ===== verification/Yaffs_File.thy ===== *)
theory Yaffs_File
  imports Yaffs_Gc
begin

text \<open>
  Reading, writing and resizing files (core/yaffs_guts.c), through the short operation
  cache (the functions of core/yaffs_cache.c that write), and the holes of yaffs2
  (core/yaffs_yaffs2.c).

  File offsets and sizes are integers.  A loop whose end depends on the geometry of the
  device or on the flash is a partial function: None if it does not end.
\<close>

section \<open>Offsets\<close>

definition yaffs_addr_to_chunk :: "'n yaffs_dev \<Rightarrow> int \<Rightarrow> int \<times> u32" where
  "yaffs_addr_to_chunk dev addr =
     (let chunk = word_of_int (addr div 2 ^ chunk_shift dev) :: u32
      in if chunk_div dev = 1 then (sint chunk, word_of_int addr AND chunk_mask dev)
         else
           let chunk = chunk div chunk_div dev;
               chunk_base = sint chunk * int (data_bytes_per_chunk dev)
           in (sint chunk, word_of_int (addr - chunk_base)))"

section \<open>Chunks of data\<close>

definition yaffs_rd_data_obj ::
    "'n yaffs_sys \<Rightarrow> nat \<Rightarrow> nat \<Rightarrow> u8 list \<Rightarrow> (int \<times> u8 list \<times> 'n yaffs_sys) option" where
  "yaffs_rd_data_obj s a inode_chunk buffer =
     do { (nand_chunk, t, s) \<leftarrow> yaffs_find_chunk_in_file s a inode_chunk None;
          if nand_chunk \<ge> 0 then
            do { (r, buf, t, s) \<leftarrow> rd_chunk s nand_chunk (Some buffer) None;
                 buffer \<leftarrow> buf;
                 Some (r, buffer, s) }
          else
            do { buffer \<leftarrow> buf_write buffer 0 (replicate (data_bytes_per_chunk (sdev s)) 0);
                 Some (0, buffer, s) } }"

text \<open>
  The end of the write within the file is calculated in 32 bits.
\<close>

definition yaffs_wr_data_obj ::
    "'n yaffs_sys \<Rightarrow> nat \<Rightarrow> nat \<Rightarrow> u8 list \<Rightarrow> int \<Rightarrow> bool \<Rightarrow> (int \<times> 'n yaffs_sys) option" where
  "yaffs_wr_data_obj s a inode_chunk buffer nbytes use_reserve =
     do { s \<leftarrow> fg_gc s;
          (prev_chunk_id, prev_tags, s) \<leftarrow>
            yaffs_find_chunk_in_file s a inode_chunk (Some (stack_tags (sdev s)));
          (there, s) \<leftarrow> (if prev_chunk_id < 1 then yaffs_put_chunk_in_file s a inode_chunk 0 0
                         else Some (YAFFS_OK, s));
          if there = YAFFS_FAIL then Some (0, s)
          else
            do { x \<leftarrow> objs s a;
                 let new_tags = zero_tags\<lparr>chunk_id := word_of_nat inode_chunk, obj_id := o_obj_id x,
                       serial_number := (if prev_chunk_id > 0 then serial_number prev_tags + 1 else 1),
                       n_bytes := word_of_int nbytes\<rparr>;
                 s \<leftarrow> (if inode_chunk > 0 then
                         do { f \<leftarrow> get_file s a;
                              let endpos = ((int inode_chunk - 1) * int (data_bytes_per_chunk (sdev s)) + nbytes) mod 2 ^ 32;
                              if stored_size f < endpos then set_file s a (f\<lparr>stored_size := endpos\<rparr>) else Some s }
                       else Some s);
                 (new_chunk_id, s) \<leftarrow> wr_new_chunk s buffer new_tags use_reserve;
                 if new_chunk_id > 0 then
                   do { (r, s) \<leftarrow> yaffs_put_chunk_in_file s a inode_chunk new_chunk_id 0;
                        s \<leftarrow> (if prev_chunk_id > 0 then chunk_del s prev_chunk_id True else Some s);
                        Some (new_chunk_id, s) }
                 else Some (new_chunk_id, s) } }"

section \<open>The cache\<close>

definition yaffs_flush_single_cache :: "'n yaffs_sys \<Rightarrow> nat option \<Rightarrow> bool \<Rightarrow> 'n yaffs_sys option" where
  "yaffs_flush_single_cache s i discard =
     (case i of None \<Rightarrow> Some s
      | Some i \<Rightarrow>
          do { c \<leftarrow> get_cache s i;
               if c_locked c then Some s
               else
                 do { s \<leftarrow> (if c_dirty c then
                              do { a \<leftarrow> c_object c;
                                   (r, s) \<leftarrow> yaffs_wr_data_obj s a (c_chunk_id c) (c_data c) (c_n_bytes c) True;
                                   upd_cache s i (\<lambda>c. c\<lparr>c_dirty := False\<rparr>) }
                            else Some s);
                      if discard then upd_cache s i (\<lambda>c. c\<lparr>c_object := None\<rparr>) else Some s } })"

fun flush_file_loop :: "nat list \<Rightarrow> 'n yaffs_sys \<Rightarrow> nat \<Rightarrow> bool \<Rightarrow> 'n yaffs_sys option" where
  "flush_file_loop [] s a discard = Some s"
| "flush_file_loop (i # is) s a discard =
     do { c \<leftarrow> get_cache s i;
          s \<leftarrow> (if c_object c = Some a then yaffs_flush_single_cache s (Some i) discard else Some s);
          flush_file_loop is s a discard }"

definition yaffs_flush_file_cache :: "'n yaffs_sys \<Rightarrow> nat \<Rightarrow> bool \<Rightarrow> 'n yaffs_sys option" where
  "yaffs_flush_file_cache s a discard = flush_file_loop [0..<length (caches s)] s a discard"

partial_function (option) yaffs_flush_whole_cache :: "'n yaffs_sys \<Rightarrow> bool \<Rightarrow> 'n yaffs_sys option" where
  "yaffs_flush_whole_cache s discard =
     (case first_cache (\<lambda>c. c_object c \<noteq> None \<and> c_dirty c) (caches s) 0 of
        None \<Rightarrow> Some s
      | Some i \<Rightarrow>
          do { a \<leftarrow> c_object (caches s ! i);
               s \<leftarrow> yaffs_flush_file_cache s a discard;
               yaffs_flush_whole_cache s discard })"

definition yaffs_grab_chunk_cache :: "'n yaffs_sys \<Rightarrow> (nat option \<times> 'n yaffs_sys) option" where
  "yaffs_grab_chunk_cache s =
     (if caches s = [] then Some (None, s)
      else case yaffs_grab_chunk_worker s of
        Some i \<Rightarrow> Some (Some i, s)
      | None \<Rightarrow>
          do { let c = lru_loop (caches s) 0 (-1) None;
               s \<leftarrow> yaffs_flush_single_cache s c True;
               Some (c, s) })"

text \<open>The entry for a chunk that is not in the cache, loaded with the chunk.\<close>

definition load_cache :: "'n yaffs_sys \<Rightarrow> nat \<Rightarrow> nat \<Rightarrow> (nat \<times> 'n yaffs_sys) option" where
  "load_cache s a chunk =
     do { (c, s) \<leftarrow> yaffs_grab_chunk_cache s;
          i \<leftarrow> c;
          s \<leftarrow> upd_cache s i (\<lambda>c. c\<lparr>c_object := Some a, c_chunk_id := chunk, c_dirty := False, c_locked := False\<rparr>);
          c \<leftarrow> get_cache s i;
          (r, d, s) \<leftarrow> yaffs_rd_data_obj s a chunk (c_data c);
          s \<leftarrow> upd_cache s i (\<lambda>c. c\<lparr>c_data := d\<rparr>);
          Some (i, s) }"

section \<open>Reading a file\<close>

text \<open>One chunk, or part of it: the bytes for the caller, who gave \<open>buffer\<close>.\<close>

definition file_rd_piece ::
    "'n yaffs_sys \<Rightarrow> nat \<Rightarrow> nat \<Rightarrow> nat \<Rightarrow> nat \<Rightarrow> u8 list \<Rightarrow> (u8 list \<times> 'n yaffs_sys) option" where
  "file_rd_piece s a chunk start n_copy buffer =
     (let (cache, s) = yaffs_find_chunk_cache s a chunk
      in if cache \<noteq> None \<or> n_copy \<noteq> data_bytes_per_chunk (sdev s) \<or> inband_tags (param (sdev s)) then
           if caches s \<noteq> [] then
             do { (i, s) \<leftarrow> (case cache of Some i \<Rightarrow> Some (i, s)
                    | None \<Rightarrow> do { (i, s) \<leftarrow> load_cache s a chunk;
                                   s \<leftarrow> upd_cache s i (\<lambda>c. c\<lparr>c_n_bytes := 0\<rparr>);
                                   Some (i, s) });
                  s \<leftarrow> yaffs_use_cache s i False;
                  c \<leftarrow> get_cache s i;
                  piece \<leftarrow> buf_read (c_data c) start n_copy;
                  s \<leftarrow> upd_cache s i (\<lambda>c. c\<lparr>c_locked := False\<rparr>);
                  Some (piece, s) }
           else
             do { (r, local_buffer, s) \<leftarrow> yaffs_rd_data_obj s a chunk (temp_content (sdev s));
                  piece \<leftarrow> buf_read local_buffer start n_copy;
                  Some (piece, s) }
         else
           do { room \<leftarrow> buf_read buffer 0 n_copy;
                (r, piece, s) \<leftarrow> yaffs_rd_data_obj s a chunk room;
                Some (piece, s) })"

partial_function (option) file_rd_loop ::
    "'n yaffs_sys \<Rightarrow> nat \<Rightarrow> u8 list \<Rightarrow> int \<Rightarrow> int \<Rightarrow> u8 list \<Rightarrow> (u8 list \<times> 'n yaffs_sys) option" where
  "file_rd_loop s a buffer offset n out =
     (if n > 0 then
        do { let (chunk, start) = yaffs_addr_to_chunk (sdev s) offset;
             let chunk = chunk + 1;
             let d = int (data_bytes_per_chunk (sdev s));
             let n_copy = (if uint start + n < d then n else d - uint start);
             (piece, s) \<leftarrow> file_rd_piece s a (nat chunk) (unat start) (nat n_copy) buffer;
             file_rd_loop s a (drop (nat n_copy) buffer) (offset + n_copy) (n - n_copy) (out @ piece) }
      else Some (out @ buffer, s))"

text \<open>The number of bytes read and the buffer with them.\<close>

definition yaffs_file_rd ::
    "'n yaffs_sys \<Rightarrow> nat \<Rightarrow> u8 list \<Rightarrow> int \<Rightarrow> int \<Rightarrow> (int \<times> u8 list \<times> 'n yaffs_sys) option" where
  "yaffs_file_rd s a buffer offset nbytes =
     do { (out, s) \<leftarrow> file_rd_loop s a buffer offset nbytes []; Some (max 0 nbytes, out, s) }"

section \<open>Writing a file\<close>

text \<open>How many bytes to write back for a write of \<open>n\<close> bytes within a chunk.\<close>

definition writeback_size :: "'n yaffs_dev \<Rightarrow> yaffs_file_var \<Rightarrow> int \<Rightarrow> int \<Rightarrow> int \<Rightarrow> int" where
  "writeback_size dev f chunk start n =
     (let d = int (data_bytes_per_chunk dev);
          chunk_start = (chunk - 1) * d;
          n_bytes_read = (if chunk_start > file_size f then 0 else (file_size f - chunk_start) mod 2 ^ 32);
          n_bytes_read = (if n_bytes_read > d then d else n_bytes_read)
      in if n_bytes_read > start + n then n_bytes_read else start + n)"

text \<open>A part of a chunk through the cache: the result for the loop and the state.\<close>

definition wr_through_cache ::
    "'n yaffs_sys \<Rightarrow> nat \<Rightarrow> nat \<Rightarrow> nat \<Rightarrow> u8 list \<Rightarrow> int \<Rightarrow> bool \<Rightarrow> int \<Rightarrow> (int \<times> 'n yaffs_sys) option" where
  "wr_through_cache s a chunk start piece n_writeback write_through chunk_written =
     do { let (cache, s) = yaffs_find_chunk_cache s a chunk;
          (cache, s) \<leftarrow> (case cache of
             None \<Rightarrow>
               let (ok, d) = yaffs_check_alloc_available (sdev s) 1; s = s\<lparr>sdev := d\<rparr>
               in if ok then do { (i, s) \<leftarrow> load_cache s a chunk; Some (Some i, s) } else Some (None, s)
           | Some i \<Rightarrow>
               do { c \<leftarrow> get_cache s i;
                    if c_dirty c then Some (Some i, s)
                    else let (ok, d) = yaffs_check_alloc_available (sdev s) 1; s = s\<lparr>sdev := d\<rparr>
                         in Some (if ok then Some i else None, s) });
          case cache of
            None \<Rightarrow> Some (-1, s)
          | Some i \<Rightarrow>
              do { s \<leftarrow> yaffs_use_cache s i True;
                   c \<leftarrow> get_cache s i;
                   d \<leftarrow> buf_write (c_data c) start piece;
                   s \<leftarrow> upd_cache s i (\<lambda>c. c\<lparr>c_data := d, c_locked := False, c_n_bytes := n_writeback\<rparr>);
                   if write_through then
                     do { c \<leftarrow> get_cache s i;
                          b \<leftarrow> c_object c;
                          (w, s) \<leftarrow> yaffs_wr_data_obj s b (c_chunk_id c) (c_data c) (c_n_bytes c) True;
                          s \<leftarrow> upd_cache s i (\<lambda>c. c\<lparr>c_dirty := False\<rparr>);
                          Some (w, s) }
                   else Some (chunk_written, s) } }"

definition file_wr_piece ::
    "'n yaffs_sys \<Rightarrow> nat \<Rightarrow> nat \<Rightarrow> nat \<Rightarrow> u8 list \<Rightarrow> int \<Rightarrow> bool \<Rightarrow> int \<Rightarrow> (int \<times> 'n yaffs_sys) option" where
  "file_wr_piece s a chunk start piece n_writeback write_through chunk_written =
     (if length piece \<noteq> data_bytes_per_chunk (sdev s) \<or> \<not> cache_bypass_aligned (sparam s) \<or>
         inband_tags (param (sdev s))
      then
        if caches s \<noteq> [] then wr_through_cache s a chunk start piece n_writeback write_through chunk_written
        else
          do { (r, local_buffer, s) \<leftarrow> yaffs_rd_data_obj s a chunk (temp_content (sdev s));
               local_buffer \<leftarrow> buf_write local_buffer start piece;
               yaffs_wr_data_obj s a chunk local_buffer n_writeback False }
      else
        do { (w, s) \<leftarrow> yaffs_wr_data_obj s a chunk piece (int (data_bytes_per_chunk (sdev s))) False;
             s \<leftarrow> yaffs_invalidate_chunk_cache s a chunk;
             Some (w, s) })"

partial_function (option) file_wr_loop ::
    "'n yaffs_sys \<Rightarrow> nat \<Rightarrow> u8 list \<Rightarrow> int \<Rightarrow> int \<Rightarrow> int \<Rightarrow> int \<Rightarrow> bool \<Rightarrow> (int \<times> 'n yaffs_sys) option" where
  "file_wr_loop s a buffer offset n n_done chunk_written write_through =
     (if n > 0 \<and> chunk_written \<ge> 0 then
        do { let (chunk, start) = yaffs_addr_to_chunk (sdev s) offset;
             let chunk = chunk + 1;
             let d = int (data_bytes_per_chunk (sdev s));
             f \<leftarrow> get_file s a;
             let (n_copy, n_writeback) =
               (if uint start + n < d then (n, writeback_size (sdev s) f chunk (uint start) n)
                else (d - uint start, d));
             piece \<leftarrow> buf_read buffer 0 (nat n_copy);
             (chunk_written, s) \<leftarrow>
               file_wr_piece s a (nat chunk) (unat start) piece n_writeback write_through chunk_written;
             if chunk_written \<ge> 0
             then file_wr_loop s a (drop (nat n_copy) buffer) (offset + n_copy) (n - n_copy) (n_done + n_copy)
                    chunk_written write_through
             else file_wr_loop s a buffer offset n n_done chunk_written write_through }
      else Some (n_done, s))"

definition yaffs_do_file_wr ::
    "'n yaffs_sys \<Rightarrow> nat \<Rightarrow> u8 list \<Rightarrow> int \<Rightarrow> int \<Rightarrow> bool \<Rightarrow> (int \<times> 'n yaffs_sys) option" where
  "yaffs_do_file_wr s a buffer offset nbytes write_through =
     do { (n_done, s) \<leftarrow> file_wr_loop s a buffer offset nbytes 0 0 write_through;
          f \<leftarrow> get_file s a;
          s \<leftarrow> (if offset + n_done > file_size f then set_file s a (f\<lparr>file_size := offset + n_done\<rparr>) else Some s);
          s \<leftarrow> upd_obj s a (\<lambda>x. x\<lparr>o_dirty := True\<rparr>);
          Some (n_done, s) }"

section \<open>Resizing\<close>

text \<open>Chunks \<open>i\<close>, \<open>i - 1\<close>, and so on, \<open>n\<close> of them.\<close>

fun prune_chunks_loop :: "nat \<Rightarrow> 'n yaffs_sys \<Rightarrow> nat \<Rightarrow> int \<Rightarrow> 'n yaffs_sys option" where
  "prune_chunks_loop 0 s a i = Some s"
| "prune_chunks_loop (Suc n) s a i =
     do { (cid, t, s) \<leftarrow> yaffs_find_del_file_chunk s a (nat i) None;
          s \<leftarrow> (if cid < 1 then Some s
                else if cid < internal_start_block (sdev s) * chunks_per_block (param (sdev s)) \<or>
                        cid \<ge> (internal_end_block (sdev s) + 1) * chunks_per_block (param (sdev s))
                then Some s
                else
                  do { s \<leftarrow> upd_obj s a (\<lambda>x. x\<lparr>o_n_data_chunks := o_n_data_chunks x - 1\<rparr>);
                       chunk_del s cid True });
          prune_chunks_loop n s a (i - 1) }"

definition yaffs_prune_chunks :: "'n yaffs_sys \<Rightarrow> nat \<Rightarrow> int \<Rightarrow> 'n yaffs_sys option" where
  "yaffs_prune_chunks s a new_size =
     do { f \<leftarrow> get_file s a;
          let old_size = file_size f;
          let last_del = (if old_size > 0 then fst (yaffs_addr_to_chunk (sdev s) (old_size - 1)) else 0) + 1;
          let start_del = fst (yaffs_addr_to_chunk (sdev s) (new_size + int (data_bytes_per_chunk (sdev s)) - 1)) + 1;
          prune_chunks_loop (nat (last_del - start_del + 1)) s a last_del }"

definition yaffs_resize_file_down :: "'n yaffs_sys \<Rightarrow> nat \<Rightarrow> int \<Rightarrow> 'n yaffs_sys option" where
  "yaffs_resize_file_down s a new_size =
     do { let (new_full, new_partial) = yaffs_addr_to_chunk (sdev s) new_size;
          s \<leftarrow> yaffs_prune_chunks s a new_size;
          s \<leftarrow> (if new_partial \<noteq> 0 then
                  do { let last_chunk = nat (1 + new_full);
                       (r, local_buffer, s) \<leftarrow> yaffs_rd_data_obj s a last_chunk (temp_content (sdev s));
                       local_buffer \<leftarrow> buf_write local_buffer (unat new_partial)
                          (replicate (data_bytes_per_chunk (sdev s) - unat new_partial) 0);
                       (w, s) \<leftarrow> yaffs_wr_data_obj s a last_chunk local_buffer (uint new_partial) True;
                       Some s }
                else Some s);
          f \<leftarrow> get_file s a;
          (f, d) \<leftarrow> yaffs_prune_tree (sdev s) (f\<lparr>file_size := new_size, stored_size := new_size\<rparr>);
          set_file (s\<lparr>sdev := d\<rparr>) a f }"

definition YAFFS_SMALL_HOLE_THRESHOLD :: int where "YAFFS_SMALL_HOLE_THRESHOLD = 4"

partial_function (option) fill_hole_loop ::
    "'n yaffs_sys \<Rightarrow> nat \<Rightarrow> int \<Rightarrow> int \<Rightarrow> (bool \<times> 'n yaffs_sys) option" where
  "fill_hole_loop s a pos increase =
     (if increase > 0 then
        do { let this_write = min increase (int (data_bytes_per_chunk (sdev s)));
             (written, s) \<leftarrow> yaffs_do_file_wr s a (replicate (data_bytes_per_chunk (sdev s)) 0) pos this_write False;
             if written = this_write then fill_hole_loop s a (pos + this_write) (increase - this_write)
             else Some (False, s) }
      else Some (True, s))"

definition parent_keeps_header :: "'n yaffs_sys \<Rightarrow> nat \<Rightarrow> bool option" where
  "parent_keeps_header s a =
     do { x \<leftarrow> objs s a;
          case o_parent x of None \<Rightarrow> Some False
          | Some p \<Rightarrow> do { y \<leftarrow> objs s p;
                           Some (o_obj_id y \<noteq> YAFFS_OBJECTID_UNLINKED \<and> o_obj_id y \<noteq> YAFFS_OBJECTID_DELETED) } }"

definition yaffs2_handle_hole :: "'n yaffs_sys \<Rightarrow> nat \<Rightarrow> int \<Rightarrow> (int \<times> 'n yaffs_sys) option" where
  "yaffs2_handle_hole s a new_size =
     do { x \<leftarrow> objs s a;
          case file_variant x of
            None \<Rightarrow> Some (YAFFS_FAIL, s)
          | Some f \<Rightarrow>
              if \<not> is_yaffs2 (param (sdev s)) then Some (YAFFS_OK, s)
              else if new_size \<le> file_size f then Some (YAFFS_OK, s)
              else
                do { let old_file_size = file_size f;
                     let increase = new_size - old_file_size;
                     let (small_hole, s) =
                       (if increase < YAFFS_SMALL_HOLE_THRESHOLD * int (data_bytes_per_chunk (sdev s))
                        then let (ok, d) = yaffs_check_alloc_available (sdev s) (YAFFS_SMALL_HOLE_THRESHOLD + 1)
                             in (ok, s\<lparr>sdev := d\<rparr>)
                        else (False, s));
                     (small_increase_ok, s) \<leftarrow>
                       (if small_hole then
                          do { (ok, s) \<leftarrow> fill_hole_loop s a old_file_size increase;
                               s \<leftarrow> (if ok then Some s else yaffs_resize_file_down s a old_file_size);
                               Some (ok, s) }
                        else Some (False, s));
                     keep \<leftarrow> parent_keeps_header s a;
                     s \<leftarrow> (if \<not> small_increase_ok \<and> keep
                           then do { (r, xr, s) \<leftarrow> yaffs_update_oh s a None False True 0 None; Some s }
                           else Some s);
                     Some (YAFFS_OK, s) } }"

definition yaffs_wr_file ::
    "'n yaffs_sys \<Rightarrow> nat \<Rightarrow> u8 list \<Rightarrow> int \<Rightarrow> int \<Rightarrow> bool \<Rightarrow> (int \<times> 'n yaffs_sys) option" where
  "yaffs_wr_file s a buffer offset nbytes write_through =
     do { (r, s) \<leftarrow> yaffs2_handle_hole s a offset;
          yaffs_do_file_wr s a buffer offset nbytes write_through }"

definition yaffs_resize_file :: "'n yaffs_sys \<Rightarrow> nat \<Rightarrow> int \<Rightarrow> (int \<times> 'n yaffs_sys) option" where
  "yaffs_resize_file s a new_size =
     do { x0 \<leftarrow> objs s a;
          s \<leftarrow> yaffs_flush_file_cache s a True;
          let s = yaffs_invalidate_file_cache s a;
          s \<leftarrow> fg_gc s;
          case file_variant x0 of
            None \<Rightarrow> Some (YAFFS_FAIL, s)
          | Some f0 \<Rightarrow>
              if new_size = file_size f0 then Some (YAFFS_OK, s)
              else
                do { s \<leftarrow> (if new_size > file_size f0 then
                             do { (r, s) \<leftarrow> yaffs2_handle_hole s a new_size;
                                  f \<leftarrow> get_file s a;
                                  set_file s a (f\<lparr>file_size := new_size\<rparr>) }
                           else yaffs_resize_file_down s a new_size);
                     x \<leftarrow> objs s a;
                     keep \<leftarrow> parent_keeps_header s a;
                     s \<leftarrow> (if keep \<and> \<not> o_is_shadowed x
                           then do { (r, xr, s) \<leftarrow> yaffs_update_oh s a None False False 0 None; Some s }
                           else Some s);
                     Some (YAFFS_OK, s) } }"

definition yaffs_flush_file :: "'n yaffs_sys \<Rightarrow> nat \<Rightarrow> bool \<Rightarrow> bool \<Rightarrow> bool \<Rightarrow> (int \<times> 'n yaffs_sys) option" where
  "yaffs_flush_file s a update_time data_sync discard_cache =
     do { x \<leftarrow> objs s a;
          if \<not> o_dirty x then Some (YAFFS_OK, s)
          else
            do { s \<leftarrow> yaffs_flush_file_cache s a discard_cache;
                 if data_sync then Some (YAFFS_OK, s)
                 else
                   do { s \<leftarrow> (if update_time then yaffs_load_current_time s a False False else Some s);
                        (r, xr, s) \<leftarrow> yaffs_update_oh s a None False False 0 None;
                        Some (if r \<ge> 0 then YAFFS_OK else YAFFS_FAIL, s) } } }"

end
