(* ===== verification/Yaffs_Dir.thy ===== *)
theory Yaffs_Dir
  imports Yaffs_File
begin

text \<open>
  Creating, deleting and renaming objects, and the repairs at the end of a mount
  (core/yaffs_guts.c).

  A loop over a list with \<^verbatim>\<open>list_for_each_safe\<close> visits the members that the list had at
  its start, and fails here if one of them has been freed meanwhile.
\<close>

section \<open>Parents\<close>

text \<open>The entry of a directory in the list of dirty directories, which comes first.\<close>

definition set_on_dirty :: "'n yaffs_sys \<Rightarrow> nat \<Rightarrow> bool \<Rightarrow> 'n yaffs_sys option" where
  "set_on_dirty s a b =
     do { x \<leftarrow> objs s a;
          case o_variant x of
            DirVar cs d \<Rightarrow>
              upd_obj (s\<lparr>dirty_dirs := (if b then a # dirty_dirs s else remove1 a (dirty_dirs s))\<rparr>) a
                (\<lambda>x. x\<lparr>o_variant := DirVar cs b\<rparr>)
          | _ \<Rightarrow> None }"

definition yaffs_update_parent :: "'n yaffs_sys \<Rightarrow> nat option \<Rightarrow> 'n yaffs_sys option" where
  "yaffs_update_parent s o' =
     (case o' of None \<Rightarrow> Some s
      | Some a \<Rightarrow>
          do { s \<leftarrow> upd_obj s a (\<lambda>x. x\<lparr>o_dirty := True\<rparr>);
               s \<leftarrow> yaffs_load_current_time s a False True;
               if defered_dir_update (sparam s) then
                 do { x \<leftarrow> objs s a;
                      case o_variant x of
                        DirVar cs d \<Rightarrow> if d then Some s else set_on_dirty s a True
                      | _ \<Rightarrow> None }
               else do { (r, xr, s) \<leftarrow> yaffs_update_oh s a None False False 0 None; Some s } })"

partial_function (option) yaffs_update_dirty_dirs :: "'n yaffs_sys \<Rightarrow> 'n yaffs_sys option" where
  "yaffs_update_dirty_dirs s =
     (case dirty_dirs s of [] \<Rightarrow> Some s
      | a # as \<Rightarrow>
          do { s \<leftarrow> set_on_dirty s a False;
               x \<leftarrow> objs s a;
               s \<leftarrow> (if o_dirty x then do { (r, xr, s) \<leftarrow> yaffs_update_oh s a None False False 0 None; Some s }
                     else Some s);
               yaffs_update_dirty_dirs s })"

section \<open>Deleting\<close>

definition yaffs_unlink_file_if_needed :: "'n yaffs_sys \<Rightarrow> nat \<Rightarrow> (int \<times> 'n yaffs_sys) option" where
  "yaffs_unlink_file_if_needed s a =
     do { x \<leftarrow> objs s a;
          if \<not> o_my_inode x then
            do { (ret_val, s) \<leftarrow> yaffs_change_obj_name s a (del_dir s) name_deleted False 0;
                 s \<leftarrow> upd_obj s a (\<lambda>x. x\<lparr>o_deleted := True\<rparr>);
                 let s = set_dev (\<lambda>d. d\<lparr>n_deleted_files := n_deleted_files d + 1\<rparr>) s;
                 s \<leftarrow> (if disable_soft_del (sparam s) \<or> is_yaffs2 (param (sdev s))
                       then do { (r, s) \<leftarrow> yaffs_resize_file s a 0; Some s } else Some s);
                 s \<leftarrow> yaffs_soft_del_file s a;
                 Some (ret_val, s) }
          else yaffs_change_obj_name s a (unlinked_dir s) name_unlinked False 0 }"

definition yaffs_del_file :: "'n yaffs_sys \<Rightarrow> nat \<Rightarrow> (int \<times> 'n yaffs_sys) option" where
  "yaffs_del_file s a =
     do { s \<leftarrow> (if disable_soft_del (sparam s) \<or> is_yaffs2 (param (sdev s))
                then do { (r, s) \<leftarrow> yaffs_resize_file s a 0; Some s } else Some s);
          x \<leftarrow> objs s a;
          if o_n_data_chunks x > 0 then
            do { (ret_val, s) \<leftarrow> (if \<not> o_unlinked x then yaffs_unlink_file_if_needed s a else Some (YAFFS_OK, s));
                 x \<leftarrow> objs s a;
                 if ret_val = YAFFS_OK \<and> o_unlinked x \<and> \<not> o_deleted x then
                   do { s \<leftarrow> upd_obj s a (\<lambda>x. x\<lparr>o_deleted := True\<rparr>);
                        let s = set_dev (\<lambda>d. d\<lparr>n_deleted_files := n_deleted_files d + 1\<rparr>) s;
                        s \<leftarrow> yaffs_soft_del_file s a;
                        Some (YAFFS_OK, s) }
                 else Some (if o_deleted x then YAFFS_OK else YAFFS_FAIL, s) }
          else
            do { s \<leftarrow> free_top s a;
                 (r, s) \<leftarrow> yaffs_generic_obj_del s a;
                 Some (YAFFS_OK, s) } }"

definition yaffs_del_dir :: "'n yaffs_sys \<Rightarrow> nat \<Rightarrow> (int \<times> 'n yaffs_sys) option" where
  "yaffs_del_dir s a =
     do { ne \<leftarrow> yaffs_is_non_empty_dir s (Some a);
          if ne then Some (YAFFS_FAIL, s) else yaffs_generic_obj_del s a }"

definition yaffs_del_symlink :: "'n yaffs_sys \<Rightarrow> nat \<Rightarrow> (int \<times> 'n yaffs_sys) option" where
  "yaffs_del_symlink s a =
     do { s \<leftarrow> upd_obj s a (\<lambda>x. x\<lparr>o_variant := SymlinkVar None\<rparr>); yaffs_generic_obj_del s a }"

text \<open>\<^verbatim>\<open>list_del_init(&hl->hard_links)\<close> for a hard link: out of the list of its object.\<close>

definition del_hard_link :: "'n yaffs_sys \<Rightarrow> nat \<Rightarrow> 'n yaffs_sys option" where
  "del_hard_link s a =
     do { x \<leftarrow> objs s a;
          case o_variant x of
            HardlinkVar (Some e) i \<Rightarrow> upd_obj s e (\<lambda>y. y\<lparr>o_hard_links := remove1 a (o_hard_links y)\<rparr>)
          | _ \<Rightarrow> Some s }"

definition yaffs_del_link :: "'n yaffs_sys \<Rightarrow> nat \<Rightarrow> (int \<times> 'n yaffs_sys) option" where
  "yaffs_del_link s a = do { s \<leftarrow> del_hard_link s a; yaffs_generic_obj_del s a }"

definition yaffs_del_obj :: "'n yaffs_sys \<Rightarrow> nat \<Rightarrow> (int \<times> 'n yaffs_sys) option" where
  "yaffs_del_obj s a =
     do { x \<leftarrow> objs s a;
          case o_variant x of
            FileVar f \<Rightarrow> yaffs_del_file s a
          | DirVar cs d \<Rightarrow> do { s \<leftarrow> (if d then set_on_dirty s a False else Some s); yaffs_del_dir s a }
          | SymlinkVar al \<Rightarrow> yaffs_del_symlink s a
          | HardlinkVar e i \<Rightarrow> yaffs_del_link s a
          | SpecialVar \<Rightarrow> yaffs_generic_obj_del s a
          | UnknownVar \<Rightarrow> Some (0, s) }"

fun empty_dir_loop :: "nat list \<Rightarrow> 'n yaffs_sys \<Rightarrow> nat \<Rightarrow> 'n yaffs_sys option" where
  "empty_dir_loop [] s to_dir = Some s"
| "empty_dir_loop (a # as) s to_dir =
     do { s \<leftarrow> yaffs_add_obj_to_dir s to_dir a; empty_dir_loop as s to_dir }"

definition yaffs_empty_dir_to_dir :: "'n yaffs_sys \<Rightarrow> nat \<Rightarrow> nat \<Rightarrow> 'n yaffs_sys option" where
  "yaffs_empty_dir_to_dir s from_dir to_dir =
     do { x \<leftarrow> objs s from_dir;
          case o_variant x of DirVar cs d \<Rightarrow> empty_dir_loop cs s to_dir | _ \<Rightarrow> None }"

text \<open>The new variant is a zeroed one.\<close>

definition zero_variant :: "u32 \<Rightarrow> yaffs_obj_var" where
  "zero_variant ty =
     (if ty = YAFFS_OBJECT_TYPE_FILE
      then FileVar \<lparr>file_size = 0, stored_size = 0, shrink_size = 0, top_level = 0, top = None\<rparr>
      else if ty = YAFFS_OBJECT_TYPE_DIRECTORY then DirVar [] False
      else if ty = YAFFS_OBJECT_TYPE_SYMLINK then SymlinkVar None
      else if ty = YAFFS_OBJECT_TYPE_HARDLINK then HardlinkVar None 0
      else if ty = YAFFS_OBJECT_TYPE_SPECIAL then SpecialVar
      else UnknownVar)"

definition yaffs_retype_obj :: "'n yaffs_sys \<Rightarrow> nat \<Rightarrow> u32 \<Rightarrow> 'n yaffs_sys option" where
  "yaffs_retype_obj s a ty =
     do { x \<leftarrow> objs s a;
          s \<leftarrow> (case o_variant x of
                 FileVar f \<Rightarrow> do { (r, s) \<leftarrow> yaffs_resize_file s a 0; free_top s a }
               | DirVar cs d \<Rightarrow>
                   do { l \<leftarrow> lost_n_found s;
                        s \<leftarrow> yaffs_empty_dir_to_dir s a l;
                        if d then set_on_dirty s a False else Some s }
               | SymlinkVar al \<Rightarrow> Some s
               | HardlinkVar e i \<Rightarrow> del_hard_link s a
               | _ \<Rightarrow> Some s);
          upd_obj s a (\<lambda>x. x\<lparr>o_variant := zero_variant ty\<rparr>) }"

section \<open>Unlinking\<close>

text \<open>An object with hard links takes the name and place of the first of them.\<close>

definition unlink_linked :: "'n yaffs_sys \<Rightarrow> nat \<Rightarrow> nat \<Rightarrow> (int \<times> 'n yaffs_sys) option" where
  "unlink_linked s a hl =
     do { (n, name, s) \<leftarrow> yaffs_get_obj_name s hl (YAFFS_MAX_NAME_LENGTH + 1);
          h \<leftarrow> objs s hl;
          let par = o_parent h;
          s \<leftarrow> upd_obj s a (\<lambda>x. x\<lparr>o_hard_links := remove1 hl (o_hard_links x)\<rparr>);
          u \<leftarrow> unlinked_dir s;
          s \<leftarrow> yaffs_add_obj_to_dir s u hl;
          (ret_val, s) \<leftarrow> yaffs_change_obj_name s a par name False 0;
          if ret_val = YAFFS_OK then yaffs_generic_obj_del s hl else Some (ret_val, s) }"

definition yaffs_unlink_worker :: "'n yaffs_sys \<Rightarrow> nat option \<Rightarrow> (int \<times> 'n yaffs_sys) option" where
  "yaffs_unlink_worker s o' =
     (case o' of None \<Rightarrow> Some (YAFFS_FAIL, s)
      | Some a \<Rightarrow>
          do { x \<leftarrow> objs s a;
               let del_now = \<not> o_my_inode x;
               s \<leftarrow> yaffs_update_parent s (o_parent x);
               x \<leftarrow> objs s a;
               case o_variant x of
                 HardlinkVar e i \<Rightarrow> yaffs_del_link s a
               | v \<Rightarrow>
                   (case o_hard_links x of
                      hl # hls \<Rightarrow> unlink_linked s a hl
                    | [] \<Rightarrow>
                        if del_now then
                          case v of
                            FileVar f \<Rightarrow> yaffs_del_file s a
                          | DirVar cs d \<Rightarrow> do { s \<leftarrow> set_on_dirty s a False; yaffs_del_dir s a }
                          | SymlinkVar al \<Rightarrow> yaffs_del_symlink s a
                          | SpecialVar \<Rightarrow> yaffs_generic_obj_del s a
                          | _ \<Rightarrow> Some (YAFFS_FAIL, s)
                        else
                          do { ne \<leftarrow> yaffs_is_non_empty_dir s (Some a);
                               if ne then Some (YAFFS_FAIL, s)
                               else yaffs_change_obj_name s a (unlinked_dir s) name_unlinked False 0 }) })"

definition yaffs_unlink_obj :: "'n yaffs_sys \<Rightarrow> nat option \<Rightarrow> (int \<times> 'n yaffs_sys) option" where
  "yaffs_unlink_obj s o' =
     (case o' of None \<Rightarrow> Some (YAFFS_FAIL, s)
      | Some a \<Rightarrow>
          do { x \<leftarrow> objs s a;
               if o_unlink_allowed x then yaffs_unlink_worker s (Some a) else Some (YAFFS_FAIL, s) })"

definition yaffs_unlinker :: "'n yaffs_sys \<Rightarrow> nat \<Rightarrow> u8 list \<Rightarrow> (int \<times> 'n yaffs_sys) option" where
  "yaffs_unlinker s dir name =
     do { (o', s) \<leftarrow> yaffs_find_by_name s dir (Some name); yaffs_unlink_obj s o' }"

section \<open>Renaming\<close>

text \<open>
  An existing target is removed first: the object is renamed with the target shadowed,
  so that a crash in between does not leave two objects of the name.
\<close>

definition nuke_target :: "'n yaffs_sys \<Rightarrow> nat \<Rightarrow> nat \<Rightarrow> u8 list \<Rightarrow> nat \<Rightarrow> 'n yaffs_sys option" where
  "nuke_target s a new_dir new_name target =
     do { let s = set_dev (\<lambda>d. d\<lparr>gc_disable := True\<rparr>) s;
          t \<leftarrow> objs s target;
          (r, s) \<leftarrow> yaffs_change_obj_name s a (Some new_dir) new_name False (o_obj_id t);
          s \<leftarrow> upd_obj s target (\<lambda>x. x\<lparr>o_is_shadowed := True\<rparr>);
          (r, s) \<leftarrow> yaffs_unlink_obj s (Some target);
          Some (set_dev (\<lambda>d. d\<lparr>gc_disable := False\<rparr>) s) }"

definition yaffs_rename_obj ::
    "'n yaffs_sys \<Rightarrow> nat option \<Rightarrow> u8 list option \<Rightarrow> nat option \<Rightarrow> u8 list \<Rightarrow> (int \<times> 'n yaffs_sys) option" where
  "yaffs_rename_obj s old_dir old_name new_dir new_name =
     (case (old_dir, new_dir) of
        (Some od, Some nd) \<Rightarrow>
          do { ox \<leftarrow> objs s od;
               nx \<leftarrow> objs s nd;
               if \<not> is_dir ox \<or> \<not> is_dir nx then Some (YAFFS_FAIL, s)
               else if strnlen new_name (YAFFS_MAX_NAME_LENGTH + 1) > YAFFS_MAX_NAME_LENGTH then Some (YAFFS_FAIL, s)
               else
                 do { (o', old_dir, s) \<leftarrow> (case old_name of
                          Some n \<Rightarrow> do { (o', s) \<leftarrow> yaffs_find_by_name s od (Some n); Some (o', Some od, s) }
                        | None \<Rightarrow> Some (Some od, o_parent ox, s));
                      case o' of None \<Rightarrow> Some (YAFFS_FAIL, s)
                      | Some a \<Rightarrow>
                          do { x \<leftarrow> objs s a;
                               if \<not> o_rename_allowed x then Some (YAFFS_FAIL, s)
                               else
                                 do { (target, s) \<leftarrow> yaffs_find_by_name s nd (Some new_name);
                                      ne \<leftarrow> yaffs_is_non_empty_dir s target;
                                      if ne then Some (YAFFS_FAIL, s)
                                      else
                                        do { s \<leftarrow> (case target of
                                               Some t \<Rightarrow> if t \<noteq> a then nuke_target s a nd new_name t else Some s
                                             | None \<Rightarrow> Some s);
                                             (result, s) \<leftarrow> yaffs_change_obj_name s a (Some nd) new_name True 0;
                                             s \<leftarrow> yaffs_update_parent s old_dir;
                                             s \<leftarrow> (if Some nd \<noteq> old_dir then yaffs_update_parent s (Some nd)
                                                   else Some s);
                                             Some (result, s) } } } } }
      | _ \<Rightarrow> Some (YAFFS_FAIL, s))"

section \<open>Creating\<close>

definition yaffs_create_obj ::
    "'n yaffs_sys \<Rightarrow> u32 \<Rightarrow> nat \<Rightarrow> u8 list \<Rightarrow> u32 \<Rightarrow> u32 \<Rightarrow> u32 \<Rightarrow> nat option \<Rightarrow> u8 list option \<Rightarrow> u32 \<Rightarrow>
     (nat option \<times> 'n yaffs_sys) option" where
  "yaffs_create_obj s ty par name mode uid gid equiv_obj alias_str rdev =
     do { (there, s) \<leftarrow> yaffs_find_by_name s par (Some name);
          if there \<noteq> None then Some (None, s)
          else
            do { let (str, s) = (if ty = YAFFS_OBJECT_TYPE_SYMLINK then yaffs_clone_str s alias_str else (None, s));
                 if ty = YAFFS_OBJECT_TYPE_SYMLINK \<and> str = None then Some (None, s)
                 else
                   do { (i, s) \<leftarrow> yaffs_new_obj s None ty;
                        case i of None \<Rightarrow> Some (None, s)
                        | Some a \<Rightarrow>
                            do { s \<leftarrow> upd_obj s a (\<lambda>x. x\<lparr>o_hdr_chunk := 0, o_valid := True, o_yst_mode := mode\<rparr>);
                                 s \<leftarrow> yaffs_attribs_init s a gid uid rdev;
                                 s \<leftarrow> upd_obj s a (\<lambda>x. x\<lparr>o_n_data_chunks := 0\<rparr>);
                                 x \<leftarrow> objs s a;
                                 x \<leftarrow> yaffs_set_obj_name x (Some name);
                                 s \<leftarrow> upd_obj s a (\<lambda>y. x\<lparr>o_dirty := True\<rparr>);
                                 s \<leftarrow> yaffs_add_obj_to_dir s par a;
                                 s \<leftarrow> (if ty = YAFFS_OBJECT_TYPE_SYMLINK
                                       then upd_obj s a (\<lambda>x. x\<lparr>o_variant := SymlinkVar str\<rparr>)
                                       else if ty = YAFFS_OBJECT_TYPE_HARDLINK then
                                         do { e \<leftarrow> equiv_obj;
                                              y \<leftarrow> objs s e;
                                              s \<leftarrow> upd_obj s a (\<lambda>x. x\<lparr>o_variant := HardlinkVar (Some e) (o_obj_id y)\<rparr>);
                                              upd_obj s e (\<lambda>y. y\<lparr>o_hard_links := a # o_hard_links y\<rparr>) }
                                       else Some s);
                                 (r, xr, s) \<leftarrow> yaffs_update_oh s a (Some name) False False 0 None;
                                 if r < 0 then do { (d, s) \<leftarrow> yaffs_del_obj s a; Some (None, s) }
                                 else do { s \<leftarrow> yaffs_update_parent s (Some par); Some (Some a, s) } } } } }"

definition yaffs_create_file ::
    "'n yaffs_sys \<Rightarrow> nat \<Rightarrow> u8 list \<Rightarrow> u32 \<Rightarrow> u32 \<Rightarrow> u32 \<Rightarrow> (nat option \<times> 'n yaffs_sys) option" where
  "yaffs_create_file s par name mode uid gid =
     yaffs_create_obj s YAFFS_OBJECT_TYPE_FILE par name mode uid gid None None 0"

definition yaffs_create_dir ::
    "'n yaffs_sys \<Rightarrow> nat \<Rightarrow> u8 list \<Rightarrow> u32 \<Rightarrow> u32 \<Rightarrow> u32 \<Rightarrow> (nat option \<times> 'n yaffs_sys) option" where
  "yaffs_create_dir s par name mode uid gid =
     yaffs_create_obj s YAFFS_OBJECT_TYPE_DIRECTORY par name mode uid gid None None 0"

definition yaffs_create_special ::
    "'n yaffs_sys \<Rightarrow> nat \<Rightarrow> u8 list \<Rightarrow> u32 \<Rightarrow> u32 \<Rightarrow> u32 \<Rightarrow> u32 \<Rightarrow> (nat option \<times> 'n yaffs_sys) option" where
  "yaffs_create_special s par name mode uid gid rdev =
     yaffs_create_obj s YAFFS_OBJECT_TYPE_SPECIAL par name mode uid gid None None rdev"

definition yaffs_create_symlink ::
    "'n yaffs_sys \<Rightarrow> nat \<Rightarrow> u8 list \<Rightarrow> u32 \<Rightarrow> u32 \<Rightarrow> u32 \<Rightarrow> u8 list \<Rightarrow> (nat option \<times> 'n yaffs_sys) option" where
  "yaffs_create_symlink s par name mode uid gid al =
     yaffs_create_obj s YAFFS_OBJECT_TYPE_SYMLINK par name mode uid gid None (Some al) 0"

definition yaffs_link_obj ::
    "'n yaffs_sys \<Rightarrow> nat \<Rightarrow> u8 list \<Rightarrow> nat option \<Rightarrow> (nat option \<times> 'n yaffs_sys) option" where
  "yaffs_link_obj s par name equiv_obj =
     do { (e, s) \<leftarrow> yaffs_get_equivalent_obj s equiv_obj;
          (l, s) \<leftarrow> yaffs_create_obj s YAFFS_OBJECT_TYPE_HARDLINK par name 0 0 0 e None 0;
          Some (if l \<noteq> None then e else None, s) }"

section \<open>Repairs after a scan\<close>

definition yaffs_handle_shadowed_obj :: "'n yaffs_sys \<Rightarrow> u32 \<Rightarrow> bool \<Rightarrow> 'n yaffs_sys option" where
  "yaffs_handle_shadowed_obj s oid backward_scanning =
     do { there \<leftarrow> (if backward_scanning then yaffs_find_by_number s oid else Some None);
          if there \<noteq> None then Some s
          else
            do { (o', s) \<leftarrow> yaffs_find_or_create_by_number s oid YAFFS_OBJECT_TYPE_FILE;
                 case o' of None \<Rightarrow> Some s
                 | Some a \<Rightarrow>
                     do { s \<leftarrow> upd_obj s a (\<lambda>x. x\<lparr>o_is_shadowed := True\<rparr>);
                          u \<leftarrow> unlinked_dir s;
                          s \<leftarrow> yaffs_add_obj_to_dir s u a;
                          f \<leftarrow> get_file s a;
                          s \<leftarrow> set_file s a (f\<lparr>shrink_size := 0\<rparr>);
                          upd_obj s a (\<lambda>x. x\<lparr>o_valid := True\<rparr>) } } }"

text \<open>The hard links found by a scan, hooked up to their objects.\<close>

fun yaffs_link_fixup :: "nat list \<Rightarrow> 'n yaffs_sys \<Rightarrow> 'n yaffs_sys option" where
  "yaffs_link_fixup [] s = Some s"
| "yaffs_link_fixup (hl # hard_list) s =
     do { x \<leftarrow> objs s hl;
          s \<leftarrow> (case o_variant x of
                 HardlinkVar e i \<Rightarrow>
                   do { t \<leftarrow> yaffs_find_by_number s i;
                        s \<leftarrow> upd_obj s hl (\<lambda>x. x\<lparr>o_variant := HardlinkVar t i\<rparr>);
                        case t of None \<Rightarrow> Some s
                        | Some a \<Rightarrow> upd_obj s a (\<lambda>y. y\<lparr>o_hard_links := hl # o_hard_links y\<rparr>) }
               | _ \<Rightarrow> None);
          yaffs_link_fixup hard_list s }"

fun del_objs_loop :: "nat list \<Rightarrow> 'n yaffs_sys \<Rightarrow> 'n yaffs_sys option" where
  "del_objs_loop [] s = Some s"
| "del_objs_loop (a # as) s = do { (r, s) \<leftarrow> yaffs_del_obj s a; del_objs_loop as s }"

definition dir_children :: "'n yaffs_sys \<Rightarrow> nat option \<Rightarrow> nat list option" where
  "dir_children s o' =
     do { a \<leftarrow> o'; x \<leftarrow> objs s a; (case o_variant x of DirVar cs d \<Rightarrow> Some cs | _ \<Rightarrow> None) }"

definition yaffs_strip_deleted_objs :: "'n yaffs_sys \<Rightarrow> 'n yaffs_sys option" where
  "yaffs_strip_deleted_objs s =
     (if read_only (sdev s) then Some s
      else
        do { cs \<leftarrow> dir_children s (unlinked_dir s);
             s \<leftarrow> del_objs_loop cs s;
             cs \<leftarrow> dir_children s (del_dir s);
             del_objs_loop cs s })"

definition yaffs_has_null_parent :: "'n yaffs_sys \<Rightarrow> nat \<Rightarrow> bool" where
  "yaffs_has_null_parent s a \<longleftrightarrow> Some a = del_dir s \<or> Some a = unlinked_dir s \<or> Some a = root_dir s"

text \<open>Up from a directory, at most \<open>n\<close> steps, as far as the parents are directories.\<close>

fun climb :: "nat \<Rightarrow> 'n yaffs_sys \<Rightarrow> nat \<Rightarrow> nat option" where
  "climb 0 s p = Some p"
| "climb (Suc n) s p =
     (if Some p = root_dir s then Some p
      else do { x \<leftarrow> objs s p;
                case o_parent x of None \<Rightarrow> Some p
                | Some q \<Rightarrow> do { y \<leftarrow> objs s q; if is_dir y then climb n s q else Some p } })"

definition is_hanging :: "'n yaffs_sys \<Rightarrow> nat \<Rightarrow> bool option" where
  "is_hanging s a =
     do { x \<leftarrow> objs s a;
          if yaffs_has_null_parent s a then Some False
          else case o_parent x of
            None \<Rightarrow> Some True
          | Some p \<Rightarrow>
              do { y \<leftarrow> objs s p;
                   if \<not> is_dir y then Some True
                   else if yaffs_has_null_parent s p then Some False
                   else do { q \<leftarrow> climb 100 s p; Some (Some q \<noteq> root_dir s) } } }"

fun fix_hanging_loop :: "nat list \<Rightarrow> 'n yaffs_sys \<Rightarrow> 'n yaffs_sys option" where
  "fix_hanging_loop [] s = Some s"
| "fix_hanging_loop (a # as) s =
     do { h \<leftarrow> is_hanging s a;
          s \<leftarrow> (if h then do { l \<leftarrow> lost_n_found s; yaffs_add_obj_to_dir s l a } else Some s);
          fix_hanging_loop as s }"

definition yaffs_fix_hanging_objs :: "'n yaffs_sys \<Rightarrow> 'n yaffs_sys option" where
  "yaffs_fix_hanging_objs s =
     (if read_only (sdev s) then Some s else fix_hanging_loop (concat (obj_bucket s)) s)"

partial_function (option) yaffs_del_dir_contents :: "nat list \<Rightarrow> 'n yaffs_sys \<Rightarrow> 'n yaffs_sys option" where
  "yaffs_del_dir_contents cs s =
     (case cs of [] \<Rightarrow> Some s
      | a # as \<Rightarrow>
          do { x \<leftarrow> objs s a;
               s \<leftarrow> (case o_variant x of DirVar cs' d \<Rightarrow> yaffs_del_dir_contents cs' s | _ \<Rightarrow> Some s);
               (r, s) \<leftarrow> yaffs_unlink_obj s (Some a);
               yaffs_del_dir_contents as s })"

definition yaffs_empty_l_n_f :: "'n yaffs_sys \<Rightarrow> 'n yaffs_sys option" where
  "yaffs_empty_l_n_f s = do { cs \<leftarrow> dir_children s (lost_n_found s); yaffs_del_dir_contents cs s }"

definition yaffs_guts_cleanup :: "'n yaffs_sys \<Rightarrow> 'n yaffs_sys option" where
  "yaffs_guts_cleanup s =
     do { s \<leftarrow> yaffs_strip_deleted_objs s;
          s \<leftarrow> yaffs_fix_hanging_objs s;
          if empty_lost_n_found (sparam s) then yaffs_empty_l_n_f s else Some s }"

end
