(* ===== verification/Yaffs_Checkpt.thy ===== *)
theory Yaffs_Checkpt
  imports Yaffs_Nand
begin

text \<open>
  core/yaffs_checkptrw.c: the stream of bytes in which a checkpoint is kept.  Its chunks fill
  blocks that were erased; each chunk starts with a header of version, number and the
  checksums of what precedes, and the tags of a chunk name the block where the search for the next one starts.

  The functions of the driver and of the tag handler that \<^verbatim>\<open>yaffs2_checkpt_open\<close> looks for are always
  there in the model.  The two allocations are arguments of it: the content of the new
  buffer or None, and whether the list can be allocated.  The erasure is in Yaffs_Blocks.
\<close>

definition YAFFS_SEQUENCE_CHECKPOINT_DATA :: u32 where "YAFFS_SEQUENCE_CHECKPOINT_DATA = 0x21"
definition YAFFS_CHECKPOINT_VERSION :: u32 where "YAFFS_CHECKPOINT_VERSION = 8"

section \<open>The header of a chunk\<close>

record yaffs_checkpt_chunk_hdr =
  ch_version :: u32
  ch_seq :: u32
  ch_sum :: u32
  ch_xor :: u32

definition CHECKPT_HDR_SIZE :: nat where "CHECKPT_HDR_SIZE = 16"

definition ch_bytes :: "yaffs_checkpt_chunk_hdr \<Rightarrow> u8 list" where
  "ch_bytes h = u32_bytes (ch_version h) @ u32_bytes (ch_seq h) @ u32_bytes (ch_sum h) @ u32_bytes (ch_xor h)"

definition bytes_ch :: "u8 list \<Rightarrow> yaffs_checkpt_chunk_hdr" where
  "bytes_ch b = \<lparr>ch_version = u32_at b 0, ch_seq = u32_at b 4, ch_sum = u32_at b 8, ch_xor = u32_at b 12\<rparr>"

definition yaffs2_do_endian_hdr :: "bool \<Rightarrow> yaffs_checkpt_chunk_hdr \<Rightarrow> yaffs_checkpt_chunk_hdr" where
  "yaffs2_do_endian_hdr swap h =
     (if \<not> swap then h
      else h\<lparr>ch_version := swap_u32 (ch_version h), ch_seq := swap_u32 (ch_seq h),
             ch_sum := swap_u32 (ch_sum h), ch_xor := swap_u32 (ch_xor h)\<rparr>)"

definition yaffs2_checkpt_init_chunk_hdr :: "'n yaffs_dev \<Rightarrow> 'n yaffs_dev option" where
  "yaffs2_checkpt_init_chunk_hdr dev =
     (let hdr = \<lparr>ch_version = YAFFS_CHECKPOINT_VERSION, ch_seq = word_of_int (checkpt_page_seq dev),
                 ch_sum = checkpt_sum dev, ch_xor = checkpt_xor dev\<rparr>;
          dev = dev\<lparr>checkpt_byte_offs := int CHECKPT_HDR_SIZE\<rparr>;
          hdr = yaffs2_do_endian_hdr (swap_endian dev) hdr
      in do { b \<leftarrow> checkpt_buffer dev;
              b \<leftarrow> buf_write b 0 (ch_bytes hdr);
              Some (dev\<lparr>checkpt_buffer := Some b\<rparr>) })"

definition yaffs2_checkpt_check_chunk_hdr :: "'n yaffs_dev \<Rightarrow> (bool \<times> 'n yaffs_dev) option" where
  "yaffs2_checkpt_check_chunk_hdr dev =
     do { b \<leftarrow> checkpt_buffer dev;
          b \<leftarrow> buf_read b 0 CHECKPT_HDR_SIZE;
          let hdr = yaffs2_do_endian_hdr (swap_endian dev) (bytes_ch b);
          let dev = dev\<lparr>checkpt_byte_offs := int CHECKPT_HDR_SIZE\<rparr>;
          Some (ch_version hdr = YAFFS_CHECKPOINT_VERSION \<and> ch_seq hdr = word_of_int (checkpt_page_seq dev) \<and>
                ch_sum hdr = checkpt_sum dev \<and> ch_xor hdr = checkpt_xor dev, dev) }"

section \<open>The blocks of the stream\<close>

definition yaffs2_checkpt_space_ok :: "'n yaffs_dev \<Rightarrow> bool" where
  "yaffs2_checkpt_space_ok dev =
     (let blocks_avail = n_erased_blocks dev - n_reserved_blocks (param dev)
      in \<not> blocks_avail \<le> 0)"

text \<open>The loop variables are unsigned: none of the blocks is at or after a negative start.\<close>

definition blocks_from :: "'n yaffs_dev \<Rightarrow> int \<Rightarrow> nat" where
  "blocks_from dev i = (if i < 0 then 0 else nat (internal_end_block dev - i + 1))"

fun find_erased_loop :: "nat \<Rightarrow> int \<Rightarrow> 'n yaffs_dev \<Rightarrow> int option option" where
  "find_erased_loop 0 i dev = Some None"
| "find_erased_loop (Suc n) i dev =
     do { bi \<leftarrow> yaffs_get_block_info dev i;
          if block_state bi = YAFFS_BLOCK_STATE_EMPTY then Some (Some i)
          else find_erased_loop n (i + 1) dev }"

definition yaffs2_checkpt_find_erased_block :: "'n yaffs_dev \<Rightarrow> 'n yaffs_dev option" where
  "yaffs2_checkpt_find_erased_block dev =
     (let blocks_avail = n_erased_blocks dev - n_reserved_blocks (param dev)
      in do { found \<leftarrow> (if checkpt_next_block dev \<ge> 0 \<and> checkpt_next_block dev \<le> internal_end_block dev \<and>
                        blocks_avail > 0
                      then find_erased_loop (blocks_from dev (checkpt_next_block dev)) (checkpt_next_block dev) dev
                      else Some None);
              Some (case found of
                      Some i \<Rightarrow> dev\<lparr>checkpt_next_block := i + 1, checkpt_cur_block := i\<rparr>
                    | None \<Rightarrow> dev\<lparr>checkpt_next_block := -1, checkpt_cur_block := -1\<rparr>) })"

fun find_checkpt_loop ::
    "'n yaffs_tags_handler \<Rightarrow> nat \<Rightarrow> int \<Rightarrow> yaffs_ext_tags \<Rightarrow> 'n yaffs_dev \<Rightarrow> (bool \<times> 'n yaffs_dev) option" where
  "find_checkpt_loop tg 0 i tags dev = Some (False, dev)"
| "find_checkpt_loop tg (Suc n) i tags dev =
     do { let chunk = i * chunks_per_block (param dev);
          (r, d, t, fl) \<leftarrow> read_chunk_tags_fn tg (flash dev) (apply_chunk_offset dev chunk) None (Some tags);
          tags \<leftarrow> t;
          let dev = dev\<lparr>flash := fl\<rparr>;
          if seq_number tags \<noteq> YAFFS_SEQUENCE_CHECKPOINT_DATA then find_checkpt_loop tg n (i + 1) tags dev
          else
            do { (r, state, seq, fl) \<leftarrow> query_block_fn tg (flash dev) (apply_block_offset dev i);
                 let dev = dev\<lparr>flash := fl\<rparr>;
                 if state = YAFFS_BLOCK_STATE_DEAD then find_checkpt_loop tg n (i + 1) tags dev
                 else
                   do { l \<leftarrow> checkpt_block_list dev;
                        if 0 \<le> blocks_in_checkpt dev \<and> blocks_in_checkpt dev < int (length l)
                        then Some (True, dev\<lparr>checkpt_next_block := sint (obj_id tags), checkpt_cur_block := i,
                               checkpt_block_list := Some (l[nat (blocks_in_checkpt dev) := i]),
                               blocks_in_checkpt := blocks_in_checkpt dev + 1\<rparr>)
                        else None } } }"

definition yaffs2_checkpt_find_block :: "'n yaffs_tags_handler \<Rightarrow> 'n yaffs_dev \<Rightarrow> 'n yaffs_dev option" where
  "yaffs2_checkpt_find_block tg dev =
     do { (found, dev) \<leftarrow> (if blocks_in_checkpt dev < checkpt_max_blocks dev
                           then find_checkpt_loop tg (blocks_from dev (checkpt_next_block dev))
                                  (checkpt_next_block dev) (stack_tags dev) dev
                           else Some (False, dev));
          Some (if found then dev else dev\<lparr>checkpt_next_block := -1, checkpt_cur_block := -1\<rparr>) }"

section \<open>Opening and closing\<close>

definition yaffs2_checkpt_open ::
    "'n yaffs_driver \<Rightarrow> u8 list option \<Rightarrow> bool \<Rightarrow> 'n yaffs_dev \<Rightarrow> bool \<Rightarrow> (int \<times> 'n yaffs_dev) option" where
  "yaffs2_checkpt_open drv new_buffer list_ok dev writing =
     (let dev = dev\<lparr>checkpt_open_write := writing\<rparr>
      in if writing \<and> \<not> yaffs2_checkpt_space_ok dev then Some (0, dev)
         else
           let dev = (case checkpt_buffer dev of None \<Rightarrow> dev\<lparr>checkpt_buffer := new_buffer\<rparr> | Some b \<Rightarrow> dev)
           in case checkpt_buffer dev of
                None \<Rightarrow> Some (0, dev)
              | Some b \<Rightarrow>
                  let dev = dev\<lparr>checkpt_page_seq := 0, checkpt_byte_count := 0, checkpt_sum := 0, checkpt_xor := 0,
                                checkpt_cur_block := -1, checkpt_cur_chunk := -1,
                                checkpt_next_block := internal_start_block dev\<rparr>
                  in if writing then
                       do { b \<leftarrow> buf_write b 0 (replicate (data_bytes_per_chunk dev) 0);
                            dev \<leftarrow> yaffs2_checkpt_init_chunk_hdr (dev\<lparr>checkpt_buffer := Some b\<rparr>);
                            dev \<leftarrow> yaffs_checkpt_erase drv dev;
                            Some (1, dev) }
                     else
                       let dev = dev\<lparr>checkpt_byte_offs := int (data_bytes_per_chunk dev), blocks_in_checkpt := 0,
                                     checkpt_max_blocks := (internal_end_block dev - internal_start_block dev) div 16 + 2\<rparr>;
                           max_blocks = nat (checkpt_max_blocks dev);
                           block_list = (case checkpt_block_list dev of
                               Some l \<Rightarrow> Some l
                             | None \<Rightarrow> if list_ok then Some (replicate max_blocks 0) else None)
                       in case block_list of
                            None \<Rightarrow> Some (0, dev)
                          | Some l \<Rightarrow>
                              if length l < max_blocks then None
                              else Some (1, dev\<lparr>checkpt_block_list :=
                                       Some (replicate max_blocks (-1) @ drop max_blocks l)\<rparr>))"

definition yaffs2_get_checkpt_sum :: "'n yaffs_dev \<Rightarrow> u32" where
  "yaffs2_get_checkpt_sum dev = push_bit 8 (checkpt_sum dev) OR (checkpt_xor dev AND 0xff)"

text \<open>The tags are made on the stack; what the code does not set is what it finds there.\<close>

definition checkpt_tags :: "'n yaffs_dev \<Rightarrow> yaffs_ext_tags" where
  "checkpt_tags dev = (stack_tags dev)\<lparr>is_deleted := 0, obj_id := word_of_int (checkpt_next_block dev),
     chunk_id := word_of_int (checkpt_page_seq dev + 1), seq_number := YAFFS_SEQUENCE_CHECKPOINT_DATA,
     n_bytes := word_of_nat (data_bytes_per_chunk dev)\<rparr>"

definition yaffs2_checkpt_flush_buffer :: "'n yaffs_tags_handler \<Rightarrow> 'n yaffs_dev \<Rightarrow> (int \<times> 'n yaffs_dev) option" where
  "yaffs2_checkpt_flush_buffer tg dev =
     do { dev \<leftarrow> (if checkpt_cur_block dev < 0
                  then do { dev \<leftarrow> yaffs2_checkpt_find_erased_block dev; Some (dev\<lparr>checkpt_cur_chunk := 0\<rparr>) }
                  else Some dev);
          if checkpt_cur_block dev < 0 then Some (0, dev)
          else
            do { let tags = checkpt_tags dev;
                 dev \<leftarrow> (if checkpt_cur_chunk dev = 0
                         then do { dev \<leftarrow> upd_block_info dev (checkpt_cur_block dev)
                                            (\<lambda>bi. bi\<lparr>block_state := YAFFS_BLOCK_STATE_CHECKPOINT\<rparr>);
                                   Some (dev\<lparr>blocks_in_checkpt := blocks_in_checkpt dev + 1\<rparr>) }
                         else Some dev);
                 let chunk = checkpt_cur_block dev * chunks_per_block (param dev) + checkpt_cur_chunk dev;
                 let offset_chunk = apply_chunk_offset dev chunk;
                 let dev = dev\<lparr>n_page_writes := n_page_writes dev + 1\<rparr>;
                 (r, b, fl) \<leftarrow> write_chunk_tags_fn tg (flash dev) offset_chunk (checkpt_buffer dev) (Some tags);
                 b \<leftarrow> b;
                 let dev = dev\<lparr>flash := fl, checkpt_page_seq := checkpt_page_seq dev + 1,
                               checkpt_cur_chunk := checkpt_cur_chunk dev + 1\<rparr>;
                 let dev = (if checkpt_cur_chunk dev \<ge> chunks_per_block (param dev)
                            then dev\<lparr>checkpt_cur_chunk := 0, checkpt_cur_block := -1\<rparr> else dev);
                 b \<leftarrow> buf_write b 0 (replicate (data_bytes_per_chunk dev) 0);
                 dev \<leftarrow> yaffs2_checkpt_init_chunk_hdr (dev\<lparr>checkpt_buffer := Some b\<rparr>);
                 Some (1, dev) } }"

text \<open>The blocks that a reader went through are entered in the block table.\<close>

fun checkpt_close_loop :: "nat \<Rightarrow> nat \<Rightarrow> int list \<Rightarrow> 'n yaffs_dev \<Rightarrow> 'n yaffs_dev option" where
  "checkpt_close_loop 0 i l dev = Some dev"
| "checkpt_close_loop (Suc n) i l dev =
     (if length l \<le> i then None
      else
        let blk = l ! i
        in if blk < 0 then Some dev
           else if internal_start_block dev \<le> blk \<and> blk \<le> internal_end_block dev then
             do { bi \<leftarrow> yaffs_get_block_info dev blk;
                  dev \<leftarrow> (if block_state bi = YAFFS_BLOCK_STATE_EMPTY
                          then upd_block_info dev blk (\<lambda>bi. bi\<lparr>block_state := YAFFS_BLOCK_STATE_CHECKPOINT\<rparr>)
                          else Some dev);
                  checkpt_close_loop n (i + 1) l dev }
           else checkpt_close_loop n (i + 1) l dev)"

definition yaffs_checkpt_close :: "'n yaffs_tags_handler \<Rightarrow> 'n yaffs_dev \<Rightarrow> (int \<times> 'n yaffs_dev) option" where
  "yaffs_checkpt_close tg dev =
     do { dev \<leftarrow> (if checkpt_open_write dev then
                    if checkpt_byte_offs dev \<noteq> int CHECKPT_HDR_SIZE
                    then do { (r, dev) \<leftarrow> yaffs2_checkpt_flush_buffer tg dev; Some dev }
                    else Some dev
                  else
                    case checkpt_block_list dev of
                      None \<Rightarrow> Some dev
                    | Some l \<Rightarrow> checkpt_close_loop (nat (blocks_in_checkpt dev)) 0 l dev);
          let dev = dev\<lparr>n_free_chunks := n_free_chunks dev - blocks_in_checkpt dev * chunks_per_block (param dev),
                        n_erased_blocks := n_erased_blocks dev - blocks_in_checkpt dev\<rparr>;
          Some (if checkpt_buffer dev \<noteq> None then 1 else 0, dev) }"

definition yaffs2_checkpt_invalidate_stream :: "'n yaffs_driver \<Rightarrow> 'n yaffs_dev \<Rightarrow> 'n yaffs_dev option" where
  "yaffs2_checkpt_invalidate_stream drv dev = yaffs_checkpt_erase drv dev"

section \<open>Writing and reading\<close>

text \<open>Whether the place in the buffer is one of its data area; the buffer is changed or used up otherwise.\<close>

definition outside_buffer :: "'n yaffs_dev \<Rightarrow> bool" where
  "outside_buffer dev \<longleftrightarrow> checkpt_byte_offs dev < 0 \<or> checkpt_byte_offs dev \<ge> int (data_bytes_per_chunk dev)"

definition checkpt_put_byte :: "u8 \<Rightarrow> 'n yaffs_dev \<Rightarrow> 'n yaffs_dev option" where
  "checkpt_put_byte b dev =
     (case checkpt_buffer dev of
        None \<Rightarrow> None
      | Some buf \<Rightarrow>
          if checkpt_byte_offs dev < 0 \<or> int (length buf) \<le> checkpt_byte_offs dev then None
          else Some (dev\<lparr>checkpt_buffer := Some (buf[nat (checkpt_byte_offs dev) := b]),
                         checkpt_sum := checkpt_sum dev + ucast b, checkpt_xor := checkpt_xor dev XOR ucast b,
                         checkpt_byte_offs := checkpt_byte_offs dev + 1,
                         checkpt_byte_count := checkpt_byte_count dev + 1\<rparr>))"

fun checkpt_wr_loop :: "'n yaffs_tags_handler \<Rightarrow> u8 list \<Rightarrow> int \<Rightarrow> 'n yaffs_dev \<Rightarrow> (int \<times> 'n yaffs_dev) option" where
  "checkpt_wr_loop tg [] i dev = Some (i, dev)"
| "checkpt_wr_loop tg (b # bs) i dev =
     do { dev \<leftarrow> checkpt_put_byte b dev;
          (ok, dev) \<leftarrow> (if outside_buffer dev then yaffs2_checkpt_flush_buffer tg dev else Some (1, dev));
          if ok \<noteq> 0 then checkpt_wr_loop tg bs (i + 1) dev else Some (i + 1, dev) }"

definition yaffs2_checkpt_wr :: "'n yaffs_tags_handler \<Rightarrow> 'n yaffs_dev \<Rightarrow> u8 list \<Rightarrow> (int \<times> 'n yaffs_dev) option" where
  "yaffs2_checkpt_wr tg dev data =
     (if checkpt_buffer dev = None then Some (0, dev)
      else if \<not> checkpt_open_write dev then Some (-1, dev)
      else checkpt_wr_loop tg data 0 dev)"

text \<open>The next chunk is read when the buffer is used up; False where the code leaves the loop.\<close>

definition checkpt_refill ::
    "'n yaffs_tags_handler \<Rightarrow> yaffs_ext_tags \<Rightarrow> 'n yaffs_dev \<Rightarrow> (bool \<times> yaffs_ext_tags \<times> 'n yaffs_dev) option" where
  "checkpt_refill tg tags dev =
     do { dev \<leftarrow> (if checkpt_cur_block dev < 0
                  then do { dev \<leftarrow> yaffs2_checkpt_find_block tg dev; Some (dev\<lparr>checkpt_cur_chunk := 0\<rparr>) }
                  else Some dev);
          if checkpt_cur_block dev < 0 then Some (False, tags, dev)
          else
            do { let chunk = checkpt_cur_block dev * chunks_per_block (param dev) + checkpt_cur_chunk dev;
                 let offset_chunk = apply_chunk_offset dev chunk;
                 let dev = dev\<lparr>n_page_reads := n_page_reads dev + 1\<rparr>;
                 (r, b, t, fl) \<leftarrow> read_chunk_tags_fn tg (flash dev) offset_chunk (checkpt_buffer dev) (Some tags);
                 tags \<leftarrow> t;
                 let dev = dev\<lparr>flash := fl, checkpt_buffer := b\<rparr>;
                 if chunk_id tags \<noteq> word_of_int (checkpt_page_seq dev + 1) \<or>
                    ecc_result tags > YAFFS_ECC_RESULT_FIXED \<or>
                    seq_number tags \<noteq> YAFFS_SEQUENCE_CHECKPOINT_DATA
                 then Some (False, tags, dev)
                 else
                   do { (ok, dev) \<leftarrow> yaffs2_checkpt_check_chunk_hdr dev;
                        if \<not> ok then Some (False, tags, dev)
                        else
                          let dev = dev\<lparr>checkpt_page_seq := checkpt_page_seq dev + 1,
                                        checkpt_cur_chunk := checkpt_cur_chunk dev + 1\<rparr>;
                              dev = (if checkpt_cur_chunk dev \<ge> chunks_per_block (param dev)
                                     then dev\<lparr>checkpt_cur_block := -1\<rparr> else dev)
                          in Some (True, tags, dev) } } }"

definition checkpt_get_byte :: "'n yaffs_dev \<Rightarrow> (u8 \<times> 'n yaffs_dev) option" where
  "checkpt_get_byte dev =
     (case checkpt_buffer dev of
        None \<Rightarrow> None
      | Some buf \<Rightarrow>
          if checkpt_byte_offs dev < 0 \<or> int (length buf) \<le> checkpt_byte_offs dev then None
          else
            let b = buf ! nat (checkpt_byte_offs dev)
            in Some (b, dev\<lparr>checkpt_sum := checkpt_sum dev + ucast b, checkpt_xor := checkpt_xor dev XOR ucast b,
                            checkpt_byte_offs := checkpt_byte_offs dev + 1,
                            checkpt_byte_count := checkpt_byte_count dev + 1\<rparr>))"

text \<open>The bytes that were read, in place of their number and the part of the caller's area that was filled.\<close>

fun checkpt_rd_loop :: "'n yaffs_tags_handler \<Rightarrow> nat \<Rightarrow> yaffs_ext_tags \<Rightarrow> 'n yaffs_dev \<Rightarrow> (u8 list \<times> 'n yaffs_dev) option" where
  "checkpt_rd_loop tg 0 tags dev = Some ([], dev)"
| "checkpt_rd_loop tg (Suc n) tags dev =
     do { (ok, tags, dev) \<leftarrow> (if outside_buffer dev then checkpt_refill tg tags dev else Some (True, tags, dev));
          if \<not> ok then Some ([], dev)
          else do { (b, dev) \<leftarrow> checkpt_get_byte dev;
                    (bs, dev) \<leftarrow> checkpt_rd_loop tg n tags dev;
                    Some (b # bs, dev) } }"

definition yaffs2_checkpt_rd :: "'n yaffs_tags_handler \<Rightarrow> 'n yaffs_dev \<Rightarrow> nat \<Rightarrow> (int \<times> u8 list \<times> 'n yaffs_dev) option" where
  "yaffs2_checkpt_rd tg dev len =
     (if checkpt_buffer dev = None then Some (0, [], dev)
      else if checkpt_open_write dev then Some (-1, [], dev)
      else do { (bs, dev) \<leftarrow> checkpt_rd_loop tg len (stack_tags dev) dev;
                Some (int (length bs), bs, dev) })"

end
