(* ===== verification/Yaffs_Qsort.thy ===== *)
theory Yaffs_Qsort
  imports Yaffs_Prelude "HOL-Library.Multiset"
begin

text \<open>
  direct/optional_sort/qsort.c: the \<^verbatim>\<open>qsort\<close> that comes with the code, by which a scan
  orders the blocks.  An array is a list and a pointer into it an index; an exchange of
  \<open>es\<close> bytes exchanges two elements.  \<^verbatim>\<open>pc\<close> and \<^verbatim>\<open>pd\<close>, which the code keeps on an element, are
  one past it here, so that they do not go below 0.  The array has less than $2^{31}$ bytes
  (the code holds such differences in an \<^verbatim>\<open>int\<close>).
\<close>

section \<open>Exchanges\<close>

definition yswap :: "nat \<Rightarrow> nat \<Rightarrow> 'a list \<Rightarrow> 'a list" where
  "yswap i j xs = xs[i := xs ! j, j := xs ! i]"

definition vecswap :: "nat \<Rightarrow> nat \<Rightarrow> nat \<Rightarrow> 'a list \<Rightarrow> 'a list" where
  "vecswap i j r xs = fold (\<lambda>k. yswap (i + k) (j + k)) [0..<r] xs"

section \<open>Insertion sort\<close>

text \<open>The element at an index goes down as long as the one before it is greater.\<close>

fun sift :: "('a \<Rightarrow> 'a \<Rightarrow> int) \<Rightarrow> nat \<Rightarrow> 'a list \<Rightarrow> 'a list" where
  "sift cmp 0 xs = xs"
| "sift cmp (Suc l) xs =
     (if cmp (xs ! l) (xs ! Suc l) > 0 then sift cmp l (yswap (Suc l) l xs) else xs)"

definition insertion_sort :: "('a \<Rightarrow> 'a \<Rightarrow> int) \<Rightarrow> 'a list \<Rightarrow> 'a list" where
  "insertion_sort cmp xs = fold (sift cmp) [1..<length xs] xs"

section \<open>The pivot\<close>

definition med3 :: "('a \<Rightarrow> 'a \<Rightarrow> int) \<Rightarrow> 'a list \<Rightarrow> nat \<Rightarrow> nat \<Rightarrow> nat \<Rightarrow> nat" where
  "med3 cmp xs a b c =
     (if cmp (xs ! a) (xs ! b) < 0
      then (if cmp (xs ! b) (xs ! c) < 0 then b else if cmp (xs ! a) (xs ! c) < 0 then c else a)
      else (if cmp (xs ! b) (xs ! c) > 0 then b else if cmp (xs ! a) (xs ! c) < 0 then a else c))"

definition pivot_index :: "('a \<Rightarrow> 'a \<Rightarrow> int) \<Rightarrow> 'a list \<Rightarrow> nat" where
  "pivot_index cmp xs =
     (let n = length xs; pm = n div 2
      in if n > 7 then
           let (pl, pm, pn) =
             (if n > 40 then
                let d = n div 8
                in (med3 cmp xs 0 d (2 * d), med3 cmp xs (pm - d) pm (pm + d),
                    med3 cmp xs (n - 1 - 2 * d) (n - 1 - d) (n - 1))
              else (0, pm, n - 1))
           in med3 cmp xs pl pm pn
         else pm)"

section \<open>The partition\<close>

text \<open>
  The two inner loops and the outer one.  The elements equal to the pivot, which is at
  index 0, gather below \<open>pa\<close> and from \<open>pd\<close> on; \<open>sw\<close> is \<^verbatim>\<open>swap_cnt\<close>.
\<close>

function (sequential) part_up ::
    "('a \<Rightarrow> 'a \<Rightarrow> int) \<Rightarrow> 'a list \<Rightarrow> nat \<Rightarrow> nat \<Rightarrow> nat \<Rightarrow> bool \<Rightarrow> 'a list \<times> nat \<times> nat \<times> bool" where
  "part_up cmp xs pa pb pc sw =
     (if pb < pc \<and> cmp (xs ! pb) (xs ! 0) \<le> 0 then
        if cmp (xs ! pb) (xs ! 0) = 0 then part_up cmp (yswap pa pb xs) (pa + 1) (pb + 1) pc True
        else part_up cmp xs pa (pb + 1) pc sw
      else (xs, pa, pb, sw))"
  by pat_completeness auto
termination by (relation "measure (\<lambda>(cmp, xs, pa, pb, pc, sw). pc - pb)") auto

function (sequential) part_down ::
    "('a \<Rightarrow> 'a \<Rightarrow> int) \<Rightarrow> 'a list \<Rightarrow> nat \<Rightarrow> nat \<Rightarrow> nat \<Rightarrow> bool \<Rightarrow> 'a list \<times> nat \<times> nat \<times> bool" where
  "part_down cmp xs pb pc pd sw =
     (if pb < pc \<and> cmp (xs ! (pc - 1)) (xs ! 0) \<ge> 0 then
        if cmp (xs ! (pc - 1)) (xs ! 0) = 0
        then part_down cmp (yswap (pc - 1) (pd - 1) xs) pb (pc - 1) (pd - 1) True
        else part_down cmp xs pb (pc - 1) pd sw
      else (xs, pc, pd, sw))"
  by pat_completeness auto
termination by (relation "measure (\<lambda>(cmp, xs, pb, pc, pd, sw). pc - pb)") auto

declare part_up.simps [simp del] part_down.simps [simp del]

lemma part_up_bounds:
  "part_up cmp xs pa pb pc sw = (ys, pa', pb', sw') \<Longrightarrow>
     pb \<le> pb' \<and> pb' \<le> max pb pc \<and> pa \<le> pa' \<and> pa' - pa \<le> pb' - pb \<and> (pa \<le> pb \<longrightarrow> pa' \<le> pb') \<and> length ys = length xs"
proof (induction cmp xs pa pb pc sw arbitrary: ys pa' pb' sw' rule: part_up.induct)
  case (1 cmp xs pa pb pc sw)
  show ?case
    using 1 part_up.simps [of cmp xs pa pb pc sw]
    by (fastforce simp: yswap_def split: if_splits)
qed

lemma part_down_bounds:
  "part_down cmp xs pb pc pd sw = (ys, pc', pd', sw') \<Longrightarrow>
     pc' \<le> pc \<and> min pb pc \<le> pc' \<and> pd' \<le> pd \<and> (pc \<le> pd \<longrightarrow> pc' \<le> pd') \<and> length ys = length xs"
proof (induction cmp xs pb pc pd sw arbitrary: ys pc' pd' sw' rule: part_down.induct)
  case (1 cmp xs pb pc pd sw)
  let ?r = "cmp (xs ! (pc - 1)) (xs ! 0)"
  have e: "part_down cmp xs pb pc pd sw = (ys, pc', pd', sw')" by (rule 1)
  consider "pb < pc" "?r = 0" | "pb < pc" "?r > 0" | "\<not> (pb < pc \<and> ?r \<ge> 0)" by linarith
  then show ?case
  proof cases
    assume c: "pb < pc" "?r = 0"
    have "part_down cmp (yswap (pc - 1) (pd - 1) xs) pb (pc - 1) (pd - 1) True = (ys, pc', pd', sw')"
      using e c by (simp add: part_down.simps [of cmp xs])
    from "1.IH"(1) [OF _ c(2) this] c show ?thesis by (simp add: yswap_def; linarith)
  next
    assume c: "pb < pc" "?r > 0"
    have "part_down cmp xs pb (pc - 1) pd sw = (ys, pc', pd', sw')"
      using e c by (simp add: part_down.simps [of cmp xs])
    from "1.IH"(2) [OF _ _ this] c show ?thesis by (simp; linarith)
  next
    assume "\<not> (pb < pc \<and> ?r \<ge> 0)"
    then show ?thesis using e by (auto simp add: part_down.simps [of cmp xs])
  qed
qed

function (sequential) part_loop ::
    "('a \<Rightarrow> 'a \<Rightarrow> int) \<Rightarrow> 'a list \<Rightarrow> nat \<Rightarrow> nat \<Rightarrow> nat \<Rightarrow> nat \<Rightarrow> bool \<Rightarrow>
     'a list \<times> nat \<times> nat \<times> nat \<times> nat \<times> bool" where
  "part_loop cmp xs pa pb pc pd sw =
     (case part_up cmp xs pa pb pc sw of (xs, pa, pb, sw) \<Rightarrow>
        case part_down cmp xs pb pc pd sw of (xs, pc, pd, sw) \<Rightarrow>
          if pb \<ge> pc then (xs, pa, pb, pc, pd, sw)
          else part_loop cmp (yswap pb (pc - 1) xs) pa (pb + 1) (pc - 1) pd True)"
  by pat_completeness auto
termination
  by (relation "measure (\<lambda>(cmp, xs, pa, pb, pc, pd, sw). pc - pb)")
    (auto dest!: part_up_bounds part_down_bounds [OF sym] dest: sym)

declare part_loop.simps [simp del]

lemma part_loop_bounds:
  "part_loop cmp xs pa pb pc pd sw = (ys, pa', pb', pc', pd', sw') \<Longrightarrow> 1 \<le> pc \<Longrightarrow> 1 \<le> pb \<Longrightarrow>
     pa \<le> pa' \<and> pb' \<le> max pb pc \<and> 1 \<le> pc' \<and> pc' \<le> pc \<and> pd' \<le> pd \<and> (pc \<le> pd \<longrightarrow> pc' \<le> pd') \<and>
     (pb \<le> pc + 1 \<longrightarrow> pb' \<le> pc' + 1) \<and> (pa \<le> pb \<longrightarrow> pa' \<le> pb') \<and> length ys = length xs"
proof (induction cmp xs pa pb pc pd sw arbitrary: ys pa' pb' pc' pd' sw' rule: part_loop.induct)
  case (1 cmp xs pa pb pc pd sw)
  obtain x1 a1 b1 s1 where up: "part_up cmp xs pa pb pc sw = (x1, a1, b1, s1)" by (metis prod_cases4)
  obtain x2 c1 d1 s2 where down: "part_down cmp x1 b1 pc pd s1 = (x2, c1, d1, s2)" by (metis prod_cases4)
  note u = part_up_bounds [OF up] and d = part_down_bounds [OF down]
  show ?case
  proof (cases "b1 \<ge> c1")
    case True
    then show ?thesis
      using 1(2-4) u d by (auto simp: part_loop.simps [of cmp xs] up down)
  next
    case False
    have r: "part_loop cmp (yswap b1 (c1 - 1) x2) a1 (b1 + 1) (c1 - 1) d1 True = (ys, pa', pb', pc', pd', sw')"
      using 1(2) False by (simp add: part_loop.simps [of cmp xs] up down)
  have c: "1 \<le> c1 - 1" using False u 1(4) by linarith
    have "a1 \<le> pa' \<and> pb' \<le> max (b1 + 1) (c1 - 1) \<and> 1 \<le> pc' \<and> pc' \<le> c1 - 1 \<and> pd' \<le> d1 \<and>
        (c1 - 1 \<le> d1 \<longrightarrow> pc' \<le> pd') \<and> (b1 + 1 \<le> c1 - 1 + 1 \<longrightarrow> pb' \<le> pc' + 1) \<and> (a1 \<le> b1 + 1 \<longrightarrow> pa' \<le> pb') \<and>
        length ys = length (yswap b1 (c1 - 1) x2)"
      by (rule "1.IH" [OF up [symmetric] refl refl down [symmetric] refl refl False r c]) simp
    then show ?thesis using u d False by (auto simp: yswap_def)
  qed
qed

lemma length_yswap [simp]: "length (yswap i j xs) = length xs"
  by (simp add: yswap_def)

lemma length_vecswap [simp]: "length (vecswap i j r xs) = length xs"
proof -
  have "length (fold (\<lambda>k. yswap (i + k) (j + k)) ks xs) = length xs" for ks
    by (induction ks arbitrary: xs) auto
  then show ?thesis by (simp add: vecswap_def)
qed

section \<open>Quicksort\<close>

text \<open>
  The recursive call and the jump back to the start work on parts of the array that do
  not overlap: the first \<open>pb - pa\<close> and the last \<open>pd - pc\<close> elements.
\<close>

function qsort :: "('a \<Rightarrow> 'a \<Rightarrow> int) \<Rightarrow> 'a list \<Rightarrow> 'a list" where
  "qsort cmp xs =
     (let n = length xs in
      if n < 7 then insertion_sort cmp xs
      else
        case part_loop cmp (yswap 0 (pivot_index cmp xs) xs) 1 1 n n False of
          (ys, pa, pb, pc, pd, sw) \<Rightarrow>
            if \<not> sw then insertion_sort cmp ys
            else
              let r = min pa (pb - pa);
                  ys = vecswap 0 (pb - r) r ys;
                  r = min (pd - pc) (n - pd);
                  ys = vecswap pb (n - r) r ys;
                  l = pb - pa;
                  g = pd - pc
              in (if l > 1 then qsort cmp (take l ys) else take l ys) @
                 take (n - l - g) (drop l ys) @
                 (if g > 1 then qsort cmp (drop (n - g) ys) else drop (n - g) ys))"
  by pat_completeness auto
termination
  by (relation "measure (\<lambda>(cmp, xs). length xs)")
    (auto dest!: part_loop_bounds [OF sym] simp: min_less_iff_disj)

declare qsort.simps [simp del]

section \<open>The result is a permutation\<close>

lemma mset_yswap: "i < length xs \<Longrightarrow> j < length xs \<Longrightarrow> mset (yswap i j xs) = mset xs"
  by (simp add: yswap_def mset_swap)

lemma mset_vecswap: "i + r \<le> length xs \<Longrightarrow> j + r \<le> length xs \<Longrightarrow> mset (vecswap i j r xs) = mset xs"
proof (induction r)
  case 0
  then show ?case by (simp add: vecswap_def)
next
  case (Suc r)
  have "vecswap i j (Suc r) xs = yswap (i + r) (j + r) (vecswap i j r xs)"
    by (simp add: vecswap_def)
  then show ?case using Suc by (simp add: mset_yswap)
qed

lemma mset_sift: "l < length xs \<Longrightarrow> mset (sift cmp l xs) = mset xs"
  by (induction cmp l xs rule: sift.induct) (auto simp: mset_yswap)

lemma length_sift [simp]: "length (sift cmp l xs) = length xs"
  by (induction cmp l xs rule: sift.induct) auto

lemma mset_insertion_sort [simp]: "mset (insertion_sort cmp xs) = mset xs"
proof -
  have "\<forall>k \<in> set ks. k < length xs \<Longrightarrow> mset (fold (sift cmp) ks xs) = mset xs" for ks
    by (induction ks arbitrary: xs) (auto simp: mset_sift)
  then show ?thesis by (simp add: insertion_sort_def)
qed

lemma part_up_mset:
  "part_up cmp xs pa pb pc sw = (ys, pa', pb', sw') \<Longrightarrow> pa \<le> pb \<Longrightarrow> pc \<le> length xs \<Longrightarrow> mset ys = mset xs"
proof (induction cmp xs pa pb pc sw arbitrary: ys pa' pb' sw' rule: part_up.induct)
  case (1 cmp xs pa pb pc sw)
  show ?case
    using 1 part_up.simps [of cmp xs pa pb pc sw]
    by (fastforce simp: mset_yswap split: if_splits)
qed

lemma part_down_mset:
  "part_down cmp xs pb pc pd sw = (ys, pc', pd', sw') \<Longrightarrow> pc \<le> length xs \<Longrightarrow> pd \<le> length xs \<Longrightarrow>
     mset ys = mset xs"
proof (induction cmp xs pb pc pd sw arbitrary: ys pc' pd' sw' rule: part_down.induct)
  case (1 cmp xs pb pc pd sw)
  let ?r = "cmp (xs ! (pc - 1)) (xs ! 0)"
  have e: "part_down cmp xs pb pc pd sw = (ys, pc', pd', sw')" by (rule 1)
  consider "pb < pc" "?r = 0" | "pb < pc" "?r > 0" | "\<not> (pb < pc \<and> ?r \<ge> 0)" by linarith
  then show ?case
  proof cases
    assume c: "pb < pc" "?r = 0"
    have "part_down cmp (yswap (pc - 1) (pd - 1) xs) pb (pc - 1) (pd - 1) True = (ys, pc', pd', sw')"
      using e c by (simp add: part_down.simps [of cmp xs])
    from "1.IH"(1) [OF _ c(2) this] c have "mset ys = mset (yswap (pc - 1) (pd - 1) xs)"
      using 1(4,5) by simp
    then show ?thesis using c(1) 1(4,5) by (subst (asm) mset_yswap) auto
  next
    assume c: "pb < pc" "?r > 0"
    have "part_down cmp xs pb (pc - 1) pd sw = (ys, pc', pd', sw')"
      using e c by (simp add: part_down.simps [of cmp xs])
    from "1.IH"(2) [OF _ _ this] c show ?thesis using 1(4,5) by simp
  next
    assume "\<not> (pb < pc \<and> ?r \<ge> 0)"
    then show ?thesis using e by (auto simp add: part_down.simps [of cmp xs])
  qed
qed

lemma part_loop_mset:
  "part_loop cmp xs pa pb pc pd sw = (ys, pa', pb', pc', pd', sw') \<Longrightarrow> pa \<le> pb \<Longrightarrow>
     pc \<le> length xs \<Longrightarrow> pd \<le> length xs \<Longrightarrow> mset ys = mset xs"
proof (induction cmp xs pa pb pc pd sw arbitrary: ys pa' pb' pc' pd' sw' rule: part_loop.induct)
  case (1 cmp xs pa pb pc pd sw)
  obtain x1 a1 b1 s1 where up: "part_up cmp xs pa pb pc sw = (x1, a1, b1, s1)" by (metis prod_cases4)
  obtain x2 c1 d1 s2 where down: "part_down cmp x1 b1 pc pd s1 = (x2, c1, d1, s2)" by (metis prod_cases4)
  note u = part_up_bounds [OF up] and d = part_down_bounds [OF down]
  have m: "mset x2 = mset xs"
    using part_up_mset [OF up] part_down_mset [OF down] u 1(3-5) by simp
  show ?case
  proof (cases "b1 \<ge> c1")
    case True
    then show ?thesis
      using 1(2) m by (auto simp: part_loop.simps [of cmp xs] up down)
  next
    case False
    have r: "part_loop cmp (yswap b1 (c1 - 1) x2) a1 (b1 + 1) (c1 - 1) d1 True = (ys, pa', pb', pc', pd', sw')"
      using 1(2) False by (simp add: part_loop.simps [of cmp xs] up down)
    have "mset ys = mset (yswap b1 (c1 - 1) x2)"
      by (rule "1.IH" [OF up [symmetric] refl refl down [symmetric] refl refl False r])
         (use u d 1(3-5) in auto)
    moreover have "b1 < length x2" "c1 - 1 < length x2" using False u d 1(4) by auto
    ultimately show ?thesis using m by (simp add: mset_yswap)
  qed
qed

lemma pivot_index_less: "7 \<le> length xs \<Longrightarrow> pivot_index cmp xs < length xs"
proof -
  assume n: "7 \<le> length xs"
  have m: "a < length xs \<Longrightarrow> b < length xs \<Longrightarrow> c < length xs \<Longrightarrow> med3 cmp xs a b c < length xs" for a b c
    by (simp add: med3_def)
  have "length xs div 8 * 2 < length xs" "length xs div 2 + length xs div 8 < length xs" using n by linarith+
  then show ?thesis using n by (auto simp: pivot_index_def Let_def intro!: m)
qed

text \<open>What the sort does with a partition: the equal elements go to the middle, the others are sorted.\<close>

definition equals_in :: "nat \<Rightarrow> nat \<Rightarrow> nat \<Rightarrow> nat \<Rightarrow> 'a list \<Rightarrow> 'a list" where
  "equals_in pa pb pc pd ys =
     (let n = length ys; r = min pa (pb - pa); r' = min (pd - pc) (n - pd)
      in vecswap pb (n - r') r' (vecswap 0 (pb - r) r ys))"

lemma length_equals_in [simp]: "length (equals_in pa pb pc pd ys) = length ys"
  by (simp add: equals_in_def Let_def)

lemma qsort_step:
  assumes "7 \<le> length xs" "sw"
    and "part_loop cmp (yswap 0 (pivot_index cmp xs) xs) 1 1 (length xs) (length xs) False = (ys, pa, pb, pc, pd, sw)"
  shows "\<exists>zs l g. zs = equals_in pa pb pc pd ys \<and> l = pb - pa \<and> g = pd - pc \<and>
    qsort cmp xs = (if l > 1 then qsort cmp (take l zs) else take l zs) @ take (length xs - l - g) (drop l zs) @
      (if g > 1 then qsort cmp (drop (length xs - g) zs) else drop (length xs - g) zs)"
proof -
  have "length ys = length xs" using part_loop_bounds [OF assms(3)] assms(1) by simp
  then show ?thesis
    using assms(1,2) by (simp add: qsort.simps [of cmp xs] assms(3) [unfolded One_nat_def] equals_in_def Let_def)
qed

lemma qsort_insertion:
  assumes "7 \<le> length xs" "\<not> sw"
    and "part_loop cmp (yswap 0 (pivot_index cmp xs) xs) 1 1 (length xs) (length xs) False = (ys, pa, pb, pc, pd, sw)"
  shows "qsort cmp xs = insertion_sort cmp ys"
  using assms(1,2) by (simp add: qsort.simps [of cmp xs] assms(3) [unfolded One_nat_def])

lemma mset_equals_in:
  assumes "1 \<le> pa" "pa \<le> pb" "pb \<le> pc + 1" "pc \<le> pd" "pd \<le> length ys" "pb \<le> length ys"
  shows "mset (equals_in pa pb pc pd ys) = mset ys"
proof -
  have "min (pd - pc) (length ys - pd) + pb \<le> length ys" using assms by linarith
  then show ?thesis using assms by (simp add: equals_in_def Let_def mset_vecswap)
qed

lemma mset_qsort [simp]: "mset (qsort cmp xs) = mset xs"
proof (induction "length xs" arbitrary: xs rule: less_induct)
  case less
  show ?case
  proof (cases "length xs < 7")
    case True
    then show ?thesis by (simp add: qsort.simps [of cmp xs])
  next
    case n: False
    obtain ys pa pb pc pd sw where
      p: "part_loop cmp (yswap 0 (pivot_index cmp xs) xs) 1 1 (length xs) (length xs) False = (ys, pa, pb, pc, pd, sw)"
      by (metis prod_cases6)
    have b: "1 \<le> pa" "pb \<le> length xs" "1 \<le> pc" "pd \<le> length xs" "pc \<le> pd" "pb \<le> pc + 1" "pa \<le> pb" "length ys = length xs"
      using part_loop_bounds [OF p] n by auto
    have m: "mset ys = mset xs"
      using part_loop_mset [OF p] n pivot_index_less [of xs cmp] mset_yswap [of 0 xs "pivot_index cmp xs"] by fastforce
    show ?thesis
    proof (cases sw)
      case False
      then show ?thesis using qsort_insertion [OF _ _ p] n m by simp
    next
      case True
      obtain zs l g where z: "zs = equals_in pa pb pc pd ys" "l = pb - pa" "g = pd - pc"
        and q: "qsort cmp xs = (if l > 1 then qsort cmp (take l zs) else take l zs) @ take (length xs - l - g) (drop l zs) @
          (if g > 1 then qsort cmp (drop (length xs - g) zs) else drop (length xs - g) zs)"
        using qsort_step [OF _ True p] n by auto
      have lz: "length zs = length xs" and lg: "l + g \<le> length xs" "l < length xs" "g < length xs"
        using z b n by auto
      have "mset zs = mset xs" using z(1) b m by (simp add: mset_equals_in)
      moreover have "mset (qsort cmp xs) = mset (take l zs) + mset (take (length xs - l - g) (drop l zs)) + mset (drop (length xs - g) zs)"
        using q less lz lg by auto
      moreover have "zs = take l zs @ take (length xs - l - g) (drop l zs) @ drop (length xs - g) zs"
      proof -
        have "drop (length xs - l - g) (drop l zs) = drop (length xs - g) zs" using lg by simp
        then show ?thesis by (metis append_take_drop_id)
      qed
      ultimately show ?thesis by (metis mset_append add.assoc)
    qed
  qed
qed

section \<open>The result is sorted\<close>

lemma nth_yswap:
  "i < length xs \<Longrightarrow> j < length xs \<Longrightarrow>
     yswap i j xs ! k = (if k = j then xs ! i else if k = i then xs ! j else xs ! k)"
  by (auto simp: yswap_def nth_list_update)

lemma nth_vecswap:
  "i + r \<le> j \<Longrightarrow> j + r \<le> length xs \<Longrightarrow>
     vecswap i j r xs ! k = (if i \<le> k \<and> k < i + r then xs ! (k - i + j)
                             else if j \<le> k \<and> k < j + r then xs ! (k - j + i) else xs ! k)"
proof (induction r arbitrary: k)
  case 0
  then show ?case by (auto simp: vecswap_def)
next
  case (Suc r)
  have "vecswap i j (Suc r) xs = yswap (i + r) (j + r) (vecswap i j r xs)"
    by (simp add: vecswap_def)
  then show ?case using Suc by (auto simp: nth_yswap less_Suc_eq add.commute)
qed

text \<open>
  A comparison function that orders the elements of \<open>S\<close> by a key, which is what
  \<^verbatim>\<open>qsort\<close> asks of its caller.
\<close>

locale ordering_cmp =
  fixes cmp :: "'a \<Rightarrow> 'a \<Rightarrow> int" and key :: "'a \<Rightarrow> 'k::linorder" and S :: "'a set"
  assumes neg: "x \<in> S \<Longrightarrow> y \<in> S \<Longrightarrow> cmp x y < 0 \<longleftrightarrow> key x < key y"
    and pos: "x \<in> S \<Longrightarrow> y \<in> S \<Longrightarrow> cmp x y > 0 \<longleftrightarrow> key y < key x"
begin

lemma zero: "x \<in> S \<Longrightarrow> y \<in> S \<Longrightarrow> cmp x y = 0 \<longleftrightarrow> key x = key y"
  using neg [of x y] pos [of x y] by (metis linorder_less_linear less_irrefl)

text \<open>Sorted up to index \<open>m\<close> but for the element at \<open>l\<close>, which is not above those after it.\<close>

lemma sift_sorts:
  assumes "set xs \<subseteq> S" "l \<le> m" "m < length xs"
    and "\<And>i j. i < j \<Longrightarrow> j \<le> m \<Longrightarrow> i \<noteq> l \<Longrightarrow> j \<noteq> l \<Longrightarrow> key (xs ! i) \<le> key (xs ! j)"
    and "\<And>j. l < j \<Longrightarrow> j \<le> m \<Longrightarrow> key (xs ! l) \<le> key (xs ! j)"
    and "i < j" "j \<le> m"
  shows "key (sift cmp l xs ! i) \<le> key (sift cmp l xs ! j)"
  using assms
proof (induction l arbitrary: xs i j)
  case 0
  then show ?case by (cases i) auto
next
  case (Suc l)
  have S: "xs ! k \<in> S" if "k \<le> m" for k using Suc.prems(1,3) that by (meson le_less_trans nth_mem subsetD)
  show ?case
  proof (cases "cmp (xs ! l) (xs ! Suc l) > 0")
    case True
    have k: "key (xs ! Suc l) < key (xs ! l)" using pos True S Suc.prems(2) by simp
    let ?ys = "yswap (Suc l) l xs"
    have y: "?ys ! k = (if k = l then xs ! Suc l else if k = Suc l then xs ! l else xs ! k)" for k
      using Suc.prems(2,3) by (simp add: nth_yswap)
    have "key (sift cmp l ?ys ! i) \<le> key (sift cmp l ?ys ! j)"
    proof (rule Suc.IH)
      show "set ?ys \<subseteq> S" using Suc.prems(1-3) by (metis mset_yswap Suc_lessD le_less_trans set_mset_mset)
      show "key (?ys ! i) \<le> key (?ys ! j)" if "i < j" "j \<le> m" "i \<noteq> l" "j \<noteq> l" for i j
        using that Suc.prems(4) [of i j] Suc.prems(4) [of i l] Suc.prems(4) [of l j] k y Suc.prems(2)
        by (auto simp: not_less_eq)
      show "key (?ys ! l) \<le> key (?ys ! j)" if "l < j" "j \<le> m" for j
        using that k Suc.prems(5) [of j] y by (auto simp: less_Suc_eq not_less_eq)
    qed (use Suc.prems in \<open>auto simp: yswap_def\<close>)
    then show ?thesis using True by simp
  next
    case False
    have k: "key (xs ! l) \<le> key (xs ! Suc l)" using pos False S Suc.prems(2) by (simp add: not_less)
    have "key (xs ! i) \<le> key (xs ! j)"
    proof (cases "i = Suc l \<or> j = Suc l")
      case True
      then show ?thesis
        using Suc.prems(4) [of i l] Suc.prems(5) [of j] k Suc.prems(2,6,7)
        by (cases "i = l") (auto simp: less_Suc_eq)
    qed (use Suc.prems in auto)
    then show ?thesis using False by simp
  qed
qed

lemma insertion_sort_sorted:
  assumes "set xs \<subseteq> S"
  shows "sorted (map key (insertion_sort cmp xs))"
proof -
  have "m \<le> length xs \<Longrightarrow> length (fold (sift cmp) [1..<m] xs) = length xs \<and>
      set (fold (sift cmp) [1..<m] xs) \<subseteq> S \<and>
      (\<forall>i j. i < j \<longrightarrow> j < m \<longrightarrow> key (fold (sift cmp) [1..<m] xs ! i) \<le> key (fold (sift cmp) [1..<m] xs ! j))" for m
  proof (induction m)
    case 0
    then show ?case using assms by simp
  next
    case (Suc m)
    show ?case
    proof (cases m)
      case 0
      then show ?thesis using assms by simp
    next
      case (Suc m')
      let ?ys = "fold (sift cmp) [1..<m] xs"
      have IH: "length ?ys = length xs" "set ?ys \<subseteq> S" "\<And>i j. i < j \<Longrightarrow> j < m \<Longrightarrow> key (?ys ! i) \<le> key (?ys ! j)"
        using Suc.IH Suc.prems by auto
      have e: "fold (sift cmp) [1..<Suc m] xs = sift cmp m ?ys" using Suc by simp
      have "key (sift cmp m ?ys ! i) \<le> key (sift cmp m ?ys ! j)" if "i < j" "j < Suc m" for i j
        by (rule sift_sorts [of ?ys m m]) (use IH Suc.prems that in auto)
      moreover have "set (sift cmp m ?ys) = set ?ys"
        using mset_sift [of m ?ys cmp] Suc.prems IH(1) by (metis Suc_le_lessD set_mset_mset)
      ultimately show ?thesis using IH e by simp
    qed
  qed
  from this [of "length xs"] show ?thesis
    by (simp add: insertion_sort_def sorted_iff_nth_mono_less)
qed

text \<open>The state of the partition around a pivot with key \<open>p\<close>.\<close>

definition parts :: "'k \<Rightarrow> 'a list \<Rightarrow> nat \<Rightarrow> nat \<Rightarrow> nat \<Rightarrow> nat \<Rightarrow> bool" where
  "parts p xs pa pb pc pd \<longleftrightarrow> set xs \<subseteq> S \<and> 1 \<le> pa \<and> pa \<le> pb \<and> pb \<le> pc \<and> pc \<le> pd \<and> pd \<le> length xs \<and>
     (\<forall>i < pa. key (xs ! i) = p) \<and> (\<forall>i. pa \<le> i \<and> i < pb \<longrightarrow> key (xs ! i) < p) \<and>
     (\<forall>i. pc \<le> i \<and> i < pd \<longrightarrow> key (xs ! i) > p) \<and> (\<forall>i. pd \<le> i \<and> i < length xs \<longrightarrow> key (xs ! i) = p)"

lemma part_in: "parts p xs pa pb pc pd \<Longrightarrow> i < length xs \<Longrightarrow> xs ! i \<in> S"
  by (auto simp: parts_def)

lemma part_cmp:
  assumes "parts p xs pa pb pc pd" "i < length xs"
  shows "cmp (xs ! i) (xs ! 0) < 0 \<longleftrightarrow> key (xs ! i) < p"
    "cmp (xs ! i) (xs ! 0) > 0 \<longleftrightarrow> key (xs ! i) > p"
    "cmp (xs ! i) (xs ! 0) = 0 \<longleftrightarrow> key (xs ! i) = p"
proof -
  have "xs ! i \<in> S" "xs ! 0 \<in> S" using assms(2) part_in [OF assms(1)] by (auto intro: le_less_trans)
  moreover have "key (xs ! 0) = p" using assms by (auto simp: parts_def)
  ultimately show "cmp (xs ! i) (xs ! 0) < 0 \<longleftrightarrow> key (xs ! i) < p"
    "cmp (xs ! i) (xs ! 0) > 0 \<longleftrightarrow> key (xs ! i) > p"
    "cmp (xs ! i) (xs ! 0) = 0 \<longleftrightarrow> key (xs ! i) = p"
    using neg pos zero by auto
qed

lemma set_yswap: "i < length xs \<Longrightarrow> j < length xs \<Longrightarrow> set (yswap i j xs) = set xs"
  by (metis mset_yswap set_mset_mset)

lemma partsD:
  assumes "parts p xs pa pb pc pd"
  shows "set xs \<subseteq> S" "1 \<le> pa" "pa \<le> pb" "pb \<le> pc" "pc \<le> pd" "pd \<le> length xs"
    "i < pa \<Longrightarrow> key (xs ! i) = p" "pa \<le> i \<Longrightarrow> i < pb \<Longrightarrow> key (xs ! i) < p"
    "pc \<le> i \<Longrightarrow> i < pd \<Longrightarrow> key (xs ! i) > p" "pd \<le> i \<Longrightarrow> i < length xs \<Longrightarrow> key (xs ! i) = p"
  using assms by (simp_all add: parts_def)

lemma partsI:
  assumes "set xs \<subseteq> S" "1 \<le> pa" "pa \<le> pb" "pb \<le> pc" "pc \<le> pd" "pd \<le> length xs"
    and "\<And>i. i < pa \<Longrightarrow> key (xs ! i) = p" "\<And>i. pa \<le> i \<Longrightarrow> i < pb \<Longrightarrow> key (xs ! i) < p"
    and "\<And>i. pc \<le> i \<Longrightarrow> i < pd \<Longrightarrow> key (xs ! i) > p" "\<And>i. pd \<le> i \<Longrightarrow> i < length xs \<Longrightarrow> key (xs ! i) = p"
  shows "parts p xs pa pb pc pd"
  using assms by (simp add: parts_def)

lemma parts_up_equal:
  assumes "parts p xs pa pb pc pd" "pb < pc" "key (xs ! pb) = p"
  shows "parts p (yswap pa pb xs) (pa + 1) (pb + 1) pc pd"
proof -
  note p = partsD [OF assms(1)]
  have b: "pa < length xs" "pb < length xs" using p(3-6) assms(2) by auto
  note n = nth_yswap [OF b, unfolded One_nat_def]
  show ?thesis
  proof (rule partsI)
    show "key (yswap pa pb xs ! i) = p" if "i < pa + 1" for i
      using p(3) p(7) [of i] assms(3) that by (cases "i = pa") (auto simp: n)
    show "key (yswap pa pb xs ! i) < p" if "pa + 1 \<le> i" "i < pb + 1" for i
      using p(8) [of i] p(8) [of pa] that by (cases "i = pb") (auto simp: n)
    show "key (yswap pa pb xs ! i) > p" if "pc \<le> i" "i < pd" for i
      using p(9) [of i] p(3) assms(2) that by (auto simp: n)
    show "key (yswap pa pb xs ! i) = p" if "pd \<le> i" "i < length (yswap pa pb xs)" for i
      using p(10) [of i] p(3) p(5) assms(2) that by (auto simp: n)
  qed (use p assms(2) set_yswap [OF b] in auto)
qed

lemma parts_up_less:
  assumes "parts p xs pa pb pc pd" "pb < pc" "key (xs ! pb) < p"
  shows "parts p xs pa (pb + 1) pc pd"
proof -
  note p = partsD [OF assms(1)]
  show ?thesis
  proof (rule partsI)
    show "key (xs ! i) < p" if "pa \<le> i" "i < pb + 1" for i
      using p(8) [of i] assms(3) that by (cases "i = pb") auto
  qed (use p assms(2) in auto)
qed

lemma parts_down_equal:
  assumes "parts p xs pa pb pc pd" "pb < pc" "key (xs ! (pc - 1)) = p"
  shows "parts p (yswap (pc - 1) (pd - 1) xs) pa pb (pc - 1) (pd - 1)"
proof -
  note p = partsD [OF assms(1)]
  let ?ys = "yswap (pc - 1) (pd - 1) xs"
  have b: "pc - 1 < length xs" "pd - 1 < length xs" using p(3-6) assms(2) by auto
  note n = nth_yswap [OF b, unfolded One_nat_def]
  have lt: "pb \<le> pc - 1" "pc - 1 \<le> pd - 1" "pd - 1 < pd" "0 < pc" using p(5) assms(2) by auto
  show ?thesis
  proof (rule partsI)
    show "key (?ys ! i) = p" if "i < pa" for i
      using p(3) p(7) [of i] lt that by (auto simp: n)
    show "key (?ys ! i) < p" if "pa \<le> i" "i < pb" for i
      using p(8) [of i] lt that by (auto simp: n)
    show "key (?ys ! i) > p" if i: "pc - 1 \<le> i" "i < pd - 1" for i
    proof (cases "i = pc - 1")
      case True
      then have "pc \<le> pd - 1" using i by linarith
      then show ?thesis using True i p(9) [of "pd - 1"] lt by (simp add: n)
    next
      case False
      then show ?thesis using i p(9) [of i] lt by (auto simp: n)
    qed
    show "key (?ys ! i) = p" if i: "pd - 1 \<le> i" "i < length ?ys" for i
    proof (cases "i = pd - 1")
      case False
      then show ?thesis using i p(10) [of i] lt by (auto simp: n)
    qed (use assms(3) in \<open>simp add: n\<close>)
  qed (use p lt set_yswap [OF b] in auto)
qed

lemma parts_down_greater:
  assumes "parts p xs pa pb pc pd" "pb < pc" "key (xs ! (pc - 1)) > p"
  shows "parts p xs pa pb (pc - 1) pd"
proof -
  note p = partsD [OF assms(1)]
  show ?thesis
  proof (rule partsI)
    show "key (xs ! i) > p" if "pc - 1 \<le> i" "i < pd" for i
      using p(9) [of i] assms(3) that by (cases "i = pc - 1") auto
  qed (use p assms(2) in auto)
qed

lemma parts_exchange:
  assumes "parts p xs pa pb pc pd" "pb < pc" "key (xs ! pb) > p" "key (xs ! (pc - 1)) < p"
  shows "parts p (yswap pb (pc - 1) xs) pa (pb + 1) (pc - 1) pd"
proof -
  note p = partsD [OF assms(1)]
  let ?ys = "yswap pb (pc - 1) xs"
  have ne: "pb \<noteq> pc - 1" using assms(3,4) by auto
  have b: "pb < length xs" "pc - 1 < length xs" using p(5,6) assms(2) by auto
  note n = nth_yswap [OF b, unfolded One_nat_def]
  have lt: "pb < pc - 1" "pc - 1 < pc" using ne assms(2) by auto
  show ?thesis
  proof (rule partsI)
    show "key (?ys ! i) = p" if "i < pa" for i
      using p(3) p(7) [of i] lt that by (auto simp: n)
    show "key (?ys ! i) < p" if "pa \<le> i" "i < pb + 1" for i
      using p(8) [of i] assms(4) lt that by (cases "i = pb") (auto simp: n)
    show "key (?ys ! i) > p" if "pc - 1 \<le> i" "i < pd" for i
      using p(9) [of i] assms(3) lt that by (cases "i = pc - 1") (auto simp: n)
    show "key (?ys ! i) = p" if "pd \<le> i" "i < length ?ys" for i
      using p(5) p(10) [of i] lt that by (auto simp: n)
  qed (use p lt set_yswap [OF b] in auto)
qed

lemma part_up_parts:
  "part_up cmp xs pa pb pc sw = (ys, pa', pb', sw') \<Longrightarrow> parts p xs pa pb pc pd \<Longrightarrow>
     parts p ys pa' pb' pc pd \<and> (pb' = pc \<or> key (ys ! pb') > p)"
proof (induction k \<equiv> "pc - pb" arbitrary: xs pa pb sw)
  case 0
  then show ?case by (auto simp: part_up.simps [of cmp xs] parts_def)
next
  case (Suc k)
  have b: "pb < pc" "pb < length xs" using Suc.hyps(2) Suc.prems(2) by (auto simp: parts_def)
  note c = part_cmp [OF Suc.prems(2) b(2)]
  consider "key (xs ! pb) = p" | "key (xs ! pb) < p" | "key (xs ! pb) > p" by (rule linorder_cases)
  then show ?case
  proof cases
    case 1
    then have "part_up cmp (yswap pa pb xs) (pa + 1) (pb + 1) pc True = (ys, pa', pb', sw')"
      using Suc.prems(1) b c by (simp add: part_up.simps [of cmp xs])
    then show ?thesis
      using Suc.hyps(1) [OF _ _ parts_up_equal [OF Suc.prems(2) b(1) 1]] Suc.hyps(2) by simp
  next
    case 2
    then have "part_up cmp xs pa (pb + 1) pc sw = (ys, pa', pb', sw')"
      using Suc.prems(1) b c by (simp add: part_up.simps [of cmp xs])
    then show ?thesis
      using Suc.hyps(1) [OF _ _ parts_up_less [OF Suc.prems(2) b(1) 2]] Suc.hyps(2) by simp
  next
    case 3
    then show ?thesis using Suc.prems b c by (auto simp: part_up.simps [of cmp xs])
  qed
qed

lemma part_down_parts:
  "part_down cmp xs pb pc pd sw = (ys, pc', pd', sw') \<Longrightarrow> parts p xs pa pb pc pd \<Longrightarrow>
     parts p ys pa pb pc' pd' \<and> (pb = pc' \<or> key (ys ! (pc' - 1)) < p) \<and> (pb < pc' \<longrightarrow> ys ! pb = xs ! pb)"
proof (induction k \<equiv> "pc - pb" arbitrary: xs pc pd sw)
  case 0
  then show ?case by (auto simp: part_down.simps [of cmp xs] parts_def)
next
  case (Suc k)
  have b: "pb < pc" "pc - 1 < length xs" "pc \<le> pd" "pd \<le> length xs"
    using Suc.hyps(2) Suc.prems(2) by (auto simp: parts_def)
  note c = part_cmp [OF Suc.prems(2) b(2)]
  consider "key (xs ! (pc - 1)) = p" | "key (xs ! (pc - 1)) < p" | "key (xs ! (pc - 1)) > p" by (rule linorder_cases)
  then show ?case
  proof cases
    case 1
    then have r: "part_down cmp (yswap (pc - 1) (pd - 1) xs) pb (pc - 1) (pd - 1) True = (ys, pc', pd', sw')"
      using Suc.prems(1) b c by (simp add: part_down.simps [of cmp xs])
    have "pc' \<le> pc - 1" using part_down_bounds [OF r] by simp
    then have "pb < pc' \<Longrightarrow> yswap (pc - 1) (pd - 1) xs ! pb = xs ! pb"
      using b by (subst nth_yswap) auto
    then show ?thesis
      using Suc.hyps(1) [OF _ r parts_down_equal [OF Suc.prems(2) b(1) 1]] Suc.hyps(2) by simp
  next
    case 2
    then show ?thesis using Suc.prems b c by (auto simp: part_down.simps [of cmp xs])
  next
    case 3
    then have "part_down cmp xs pb (pc - 1) pd sw = (ys, pc', pd', sw')"
      using Suc.prems(1) b c by (simp add: part_down.simps [of cmp xs])
    then show ?thesis
      using Suc.hyps(1) [OF _ _ parts_down_greater [OF Suc.prems(2) b(1) 3]] Suc.hyps(2) by simp
  qed
qed

lemma part_loop_parts:
  "part_loop cmp xs pa pb pc pd sw = (ys, pa', pb', pc', pd', sw') \<Longrightarrow> parts p xs pa pb pc pd \<Longrightarrow>
     parts p ys pa' pb' pc' pd' \<and> pb' = pc'"
proof (induction "pc - pb" arbitrary: xs pa pb pc pd sw rule: less_induct)
  case less
  obtain x1 a1 b1 s1 where up: "part_up cmp xs pa pb pc sw = (x1, a1, b1, s1)" by (metis prod_cases4)
  obtain x2 c1 d1 s2 where down: "part_down cmp x1 b1 pc pd s1 = (x2, c1, d1, s2)" by (metis prod_cases4)
  have u: "parts p x1 a1 b1 pc pd" "b1 = pc \<or> key (x1 ! b1) > p"
    using part_up_parts [OF up less.prems(2)] by auto
  have d: "parts p x2 a1 b1 c1 d1" "b1 = c1 \<or> key (x2 ! (c1 - 1)) < p" "b1 < c1 \<Longrightarrow> x2 ! b1 = x1 ! b1"
    using part_down_parts [OF down u(1)] by auto
  show ?case
  proof (cases "b1 \<ge> c1")
    case True
    then show ?thesis
      using less.prems(1) d(1) by (auto simp: part_loop.simps [of cmp xs] up down parts_def)
  next
    case False
    have r: "part_loop cmp (yswap b1 (c1 - 1) x2) a1 (b1 + 1) (c1 - 1) d1 True = (ys, pa', pb', pc', pd', sw')"
      using less.prems(1) False by (simp add: part_loop.simps [of cmp xs] up down)
    have b: "c1 \<le> pc" "pb \<le> b1" using part_down_bounds [OF down] part_up_bounds [OF up] by auto
    then have "b1 \<noteq> pc" using False by simp
    then have "parts p (yswap b1 (c1 - 1) x2) a1 (b1 + 1) (c1 - 1) d1"
      using parts_exchange [OF d(1)] d(2,3) u(2) False by simp
    moreover have "c1 - 1 - (b1 + 1) < pc - pb" using b False by linarith
    ultimately show ?thesis using less.hyps [OF _ r] by blast
  qed
qed

text \<open>After the exchange of blocks: the smaller elements, the equal ones, the greater ones.\<close>

lemma equals_in_order:
  assumes "parts p ys pa b b pd" "i < length ys"
  shows "key (equals_in pa b b pd ys ! i) < p \<longleftrightarrow> i < b - pa"
    "key (equals_in pa b b pd ys ! i) > p \<longleftrightarrow> length ys - (pd - b) \<le> i"
proof -
  note p = partsD [OF assms(1)]
  define r where "r = min pa (b - pa)"
  define r' where "r' = min (pd - b) (length ys - pd)"
  define y1 where "y1 = vecswap 0 (b - r) r ys"
  have r: "r \<le> pa" "r \<le> b - pa" "r = pa \<or> r = b - pa" by (auto simp: r_def)
  have r': "r' \<le> pd - b" "r' \<le> length ys - pd" "r' = pd - b \<or> r' = length ys - pd" by (auto simp: r'_def)
  have n1: "y1 ! k = (if k < r then ys ! (k + (b - r)) else if b - r \<le> k \<and> k < b then ys ! (k - (b - r)) else ys ! k)" for k
    using p(3-6) r(1,2) by (simp add: y1_def nth_vecswap)
  have less: "key (y1 ! k) < p" if "k < b - pa" for k
    using p(8) [of "k + (b - r)"] p(8) [of k] r p(3) that by (auto simp: n1)
  have eq: "key (y1 ! k) = p" if "b - pa \<le> k" "k < b" for k
    using p(7) [of "k - (b - r)"] p(7) [of k] r p(3) that by (auto simp: n1)
  have rest: "y1 ! k = ys ! k" if "b \<le> k" for k using r p(3) that by (simp add: n1)
  have e: "equals_in pa b b pd ys = vecswap b (length ys - r') r' y1"
    by (simp add: equals_in_def Let_def y1_def r_def r'_def)
  have n2: "equals_in pa b b pd ys ! k =
      (if b \<le> k \<and> k < b + r' then y1 ! (k - b + (length ys - r'))
       else if length ys - r' \<le> k \<and> k < length ys then y1 ! (k - (length ys - r') + b) else y1 ! k)" for k
    using p(3-6) r' by (simp add: e nth_vecswap y1_def)
  have "(key (equals_in pa b b pd ys ! i) < p \<longleftrightarrow> i < b - pa) \<and>
    (key (equals_in pa b b pd ys ! i) > p \<longleftrightarrow> length ys - (pd - b) \<le> i)"
  proof -
    have lb: "b \<le> length ys - (pd - b)" "b \<le> pd" "pd \<le> length ys" using p(4-6) by auto
    consider "i < b - pa" | "b - pa \<le> i" "i < b" | "b \<le> i" "i < length ys - (pd - b)" | "length ys - (pd - b) \<le> i"
      by linarith
    then show ?thesis
    proof cases
      case 1
      then have "equals_in pa b b pd ys ! i = y1 ! i" using r' lb by (auto simp: n2)
      then show ?thesis using less [OF 1] 1 lb by auto
    next
      case 2
      then have "equals_in pa b b pd ys ! i = y1 ! i" using r' lb by (auto simp: n2)
      then show ?thesis using eq [OF 2] 2 lb by auto
    next
      case 3
      have "key (equals_in pa b b pd ys ! i) = p"
      proof (cases "i < b + r'")
        case True
        then have "pd \<le> i - b + (length ys - r')" "i - b + (length ys - r') < length ys" using 3 r' lb by linarith+
        then show ?thesis using True 3 lb p(10) by (simp add: n2 rest)
      next
        case False
        then have "r' = pd - b" using r' 3 lb by linarith
        then show ?thesis using False 3 lb p(10) [of i] by (auto simp: n2 rest)
      qed
      then show ?thesis using 3 by auto
    next
      case 4
      have nb: "\<not> i < b + r'" using 4 r' lb assms(2) by linarith
      have "key (equals_in pa b b pd ys ! i) > p"
      proof (cases "length ys - r' \<le> i")
        case True
        then have "b \<le> i - (length ys - r') + b" "i - (length ys - r') + b < pd" using 4 r' lb assms(2) by linarith+
        then show ?thesis using True nb assms(2) p(9) by (simp add: n2 rest)
      next
        case False
        then have "i < pd" using 4 r' lb by linarith
        then show ?thesis using False 4 nb lb p(9) [of i] by (auto simp: n2 rest)
      qed
      then show ?thesis using 4 lb by auto
    qed
  qed
  then show "key (equals_in pa b b pd ys ! i) < p \<longleftrightarrow> i < b - pa"
    "key (equals_in pa b b pd ys ! i) > p \<longleftrightarrow> length ys - (pd - b) \<le> i" by auto
qed

theorem qsort_sorted: "set xs \<subseteq> S \<Longrightarrow> sorted (map key (qsort cmp xs))"
proof (induction "length xs" arbitrary: xs rule: less_induct)
  case less
  show ?case
  proof (cases "length xs < 7")
    case True
    then show ?thesis using less.prems by (simp add: qsort.simps [of cmp xs] insertion_sort_sorted)
  next
    case n: False
    let ?x0 = "yswap 0 (pivot_index cmp xs) xs"
    obtain ys pa pb pc pd sw where
      pl: "part_loop cmp ?x0 1 1 (length xs) (length xs) False = (ys, pa, pb, pc, pd, sw)"
      by (metis prod_cases6)
    have x0: "set ?x0 = set xs"
      using n pivot_index_less [of xs cmp] by (intro set_yswap) auto
    have "parts (key (?x0 ! 0)) ?x0 1 1 (length xs) (length xs)"
      using less.prems n x0 by (auto simp: parts_def)
    from part_loop_parts [OF pl this] obtain p where p: "parts p ys pa pb pb pd" "pc = pb" by blast
    note pd = partsD [OF p(1)]
    have l: "length ys = length xs" using part_loop_bounds [OF pl] n by auto
    show ?thesis
    proof (cases sw)
      case False
      then show ?thesis using qsort_insertion [OF _ _ pl] n pd(1) by (simp add: insertion_sort_sorted)
    next
      case True
      obtain zs l g where z: "zs = equals_in pa pb pc pd ys" "l = pb - pa" "g = pd - pc"
        and q: "qsort cmp xs = (if l > 1 then qsort cmp (take l zs) else take l zs) @ take (length xs - l - g) (drop l zs) @
          (if g > 1 then qsort cmp (drop (length xs - g) zs) else drop (length xs - g) zs)"
        using qsort_step [OF _ True pl] n by auto
      have lz: "length zs = length xs" using z(1) l by simp
      have lg: "l + g \<le> length xs" "l < length xs" "g < length xs" using z(2,3) p(2) pd l n by auto
      have "mset zs = mset ys" using z(1) p(2) pd by (auto simp: mset_equals_in)
      then have S: "set zs \<subseteq> S" using pd(1) by (metis set_mset_mset)
      have o: "key (zs ! i) < p \<longleftrightarrow> i < l" "key (zs ! i) > p \<longleftrightarrow> length xs - g \<le> i" if "i < length xs" for i
        using equals_in_order [OF p(1), of i] that l z p(2) by auto
      have sorts: "sorted (map key (if length us > 1 then qsort cmp us else us)) \<and>
          set (if length us > 1 then qsort cmp us else us) = set us" if "set us \<subseteq> S" "length us < length xs" for us
        using less.hyps [OF that(2,1)] mset_eq_setD [OF mset_qsort [of cmp us]] sorted01 [of "map key us"] by auto
      have A: "sorted (map key (if l > 1 then qsort cmp (take l zs) else take l zs))"
        "set (if l > 1 then qsort cmp (take l zs) else take l zs) = set (take l zs)"
        using sorts [of "take l zs"] S lg lz set_take_subset [of l zs] by auto
      have C: "sorted (map key (if g > 1 then qsort cmp (drop (length xs - g) zs) else drop (length xs - g) zs))"
        "set (if g > 1 then qsort cmp (drop (length xs - g) zs) else drop (length xs - g) zs) = set (drop (length xs - g) zs)"
        using sorts [of "drop (length xs - g) zs"] S lg lz set_drop_subset [of "length xs - g" zs] by auto
      have ka: "key x < p" if "x \<in> set (take l zs)" for x
        using that o(1) lg lz by (auto simp: in_set_conv_nth)
      have kb: "key x = p" if "x \<in> set (take (length xs - l - g) (drop l zs))" for x
      proof -
        obtain k where "k < length xs - l - g" "x = zs ! (l + k)"
          using \<open>x \<in> set (take (length xs - l - g) (drop l zs))\<close> lg lz by (auto simp: in_set_conv_nth)
        then have "\<not> l + k < l" "\<not> length xs - g \<le> l + k" "l + k < length xs" using lg by linarith+
        then show ?thesis using o [of "l + k"] \<open>x = zs ! (l + k)\<close> by (simp add: not_less)
      qed
      have kc: "key x > p" if "x \<in> set (drop (length xs - g) zs)" for x
      proof -
        obtain k where "k < g" "x = zs ! (length xs - g + k)"
          using \<open>x \<in> set (drop (length xs - g) zs)\<close> lg lz by (auto simp: in_set_conv_nth)
        then show ?thesis using o(2) [of "length xs - g + k"] lg by simp
      qed
      have "map key (take (length xs - l - g) (drop l zs)) = map (\<lambda>_. p) (take (length xs - l - g) (drop l zs))"
        by (intro map_cong refl kb)
      then have B: "sorted (map key (take (length xs - l - g) (drop l zs)))" by (simp add: map_replicate_const)
      show ?thesis
        unfolding q map_append sorted_append set_append set_map A(2) C(2)
      proof (intro conjI ballI A(1) B C(1))
        fix x y
        assume "x \<in> key ` set (take l zs)"
          "y \<in> key ` set (take (length xs - l - g) (drop l zs)) \<union> key ` set (drop (length xs - g) zs)"
        then have "x < p" "p \<le> y" using ka kb kc less_imp_le by blast+
        then show "x \<le> y" by simp
      next
        fix x y
        assume "x \<in> key ` set (take (length xs - l - g) (drop l zs))" "y \<in> key ` set (drop (length xs - g) zs)"
        then have "x = p" "p < y" using kb kc by blast+
        then show "x \<le> y" by simp
      qed
    qed
  qed
qed

end

end
