(* ===== verification/Yaffs_Scan.thy ===== *)
theory Yaffs_Scan
  imports Yaffs_Dir Yaffs_Checkpt Yaffs_Qsort
begin

text \<open>
  core/yaffs_yaffs2.c: the backward scan, which rebuilds the block table, the objects and the
  trees of a yaffs2 device from its flash when there is no checkpoint.  The blocks are
  visited from the newest to the oldest and the chunks of a block from its last to its
  first, so that of two copies the one met first is the current one.

  The tags of a chunk are a variable of the stack, and the buffer of the headers is a
  temporary buffer that the scan of one chunk hands to the next.  An object type beyond
  \<^verbatim>\<open>YAFFS_OBJECT_TYPE_MAX\<close>, which only a damaged header holds, is outside the model (None).
  The counters \<^verbatim>\<open>tags_used\<close> and \<^verbatim>\<open>summary_used\<close> are not kept.
\<close>

definition YAFFS_LOWEST_SEQUENCE_NUMBER :: u32 where "YAFFS_LOWEST_SEQUENCE_NUMBER = 0x1000"
definition YAFFS_HIGHEST_SEQUENCE_NUMBER :: u32 where "YAFFS_HIGHEST_SEQUENCE_NUMBER = 0xefffff00"
definition YAFFS_MAX_OBJECT_ID :: u32 where "YAFFS_MAX_OBJECT_ID = 0x3ffff"

section \<open>The order of the blocks\<close>

record yaffs_block_index =
  bx_seq :: u32
  bx_block :: u32

text \<open>The fields are \<^verbatim>\<open>int\<close>s and so is the difference, which wraps around.\<close>

definition yaffs2_ybicmp :: "yaffs_block_index \<Rightarrow> yaffs_block_index \<Rightarrow> int" where
  "yaffs2_ybicmp a b =
     (if bx_seq a = bx_seq b then sint (bx_block a - bx_block b) else sint (bx_seq a - bx_seq b))"

section \<open>A chunk of data\<close>

definition known_type :: "u32 \<Rightarrow> bool" where
  "known_type ty \<longleftrightarrow> ty \<le> YAFFS_OBJECT_TYPE_SPECIAL"

text \<open>Tags from the summary of the block if there is one that has them, else from the chunk.\<close>

definition scan_tags ::
    "'n yaffs_sys \<Rightarrow> yaffs_block_info \<Rightarrow> int \<Rightarrow> int \<Rightarrow> bool \<Rightarrow> (yaffs_ext_tags \<times> 'n yaffs_sys) option" where
  "scan_tags s bi chunk page summary_available =
     do { tags \<leftarrow> (if summary_available
                   then do { (r, t) \<leftarrow> yaffs_summary_fetch (sdev s) (stack_tags (sdev s)) page;
                             Some (t\<lparr>seq_number := bi_seq_number bi\<rparr>) }
                   else Some (stack_tags (sdev s)));
          if \<not> summary_available \<or> obj_id tags = 0 then
            do { (r, b, t, s) \<leftarrow> rd_chunk s chunk None (Some tags); t \<leftarrow> t; Some (t, s) }
          else Some (tags, s) }"

text \<open>An unused chunk.\<close>

definition scan_unused :: "'n yaffs_dev \<Rightarrow> int \<Rightarrow> int \<Rightarrow> bool \<Rightarrow> 'n yaffs_dev option" where
  "scan_unused dev blk page found_chunks =
     do { bi \<leftarrow> yaffs_get_block_info dev blk;
          dev \<leftarrow>
            (if found_chunks then Some dev
             else if page = 0 then
               do { dev \<leftarrow> upd_block_info dev blk (\<lambda>bi. bi\<lparr>block_state := YAFFS_BLOCK_STATE_EMPTY\<rparr>);
                    Some (dev\<lparr>n_erased_blocks := n_erased_blocks dev + 1\<rparr>) }
             else if (block_state bi = YAFFS_BLOCK_STATE_NEEDS_SCAN \<or>
                      block_state bi = YAFFS_BLOCK_STATE_ALLOCATING) \<and> dev_seq_number dev = bi_seq_number bi then
               do { dev \<leftarrow> upd_block_info dev blk (\<lambda>bi. bi\<lparr>block_state := YAFFS_BLOCK_STATE_ALLOCATING\<rparr>);
                    Some (dev\<lparr>alloc_block := blk, alloc_page := page, alloc_block_finder := blk\<rparr>) }
             else Some dev);
          Some (dev\<lparr>n_free_chunks := n_free_chunks dev + 1\<rparr>) }"

definition bad_tags :: "'n yaffs_dev \<Rightarrow> yaffs_block_info \<Rightarrow> yaffs_ext_tags \<Rightarrow> bool" where
  "bad_tags dev bi tags \<longleftrightarrow>
     obj_id tags > YAFFS_MAX_OBJECT_ID \<or> chunk_id tags > word_of_nat YAFFS_MAX_CHUNK_ID \<or>
     obj_id tags = YAFFS_OBJECTID_SUMMARY \<or>
     (chunk_id tags > 0 \<and> n_bytes tags > word_of_nat (data_bytes_per_chunk dev)) \<or>
     seq_number tags \<noteq> bi_seq_number bi"

text \<open>The chunk is in use: its bit and the count of its block.\<close>

definition take_chunk :: "'n yaffs_dev \<Rightarrow> int \<Rightarrow> int \<Rightarrow> 'n yaffs_dev option" where
  "take_chunk dev blk page =
     do { dev \<leftarrow> yaffs_set_chunk_bit dev blk page;
          upd_block_info dev blk (\<lambda>bi. bi\<lparr>pages_in_use := s10 (pages_in_use bi + 1)\<rparr>) }"

text \<open>
  A chunk of file data.  Its place in the file is computed with 32 bits.
  The result is whether nothing ran out of memory.
\<close>

definition scan_data :: "'n yaffs_sys \<Rightarrow> int \<Rightarrow> yaffs_ext_tags \<Rightarrow> (bool \<times> 'n yaffs_sys) option" where
  "scan_data s chunk tags =
     do { let chunk_at = uint ((chunk_id tags - 1) * word_of_nat (data_bytes_per_chunk (sdev s)));
          (o', s) \<leftarrow> yaffs_find_or_create_by_number s (obj_id tags) YAFFS_OBJECT_TYPE_FILE;
          case o' of None \<Rightarrow> Some (False, s)
          | Some a \<Rightarrow>
              do { x \<leftarrow> objs s a;
                   if (case file_variant x of Some f \<Rightarrow> chunk_at < shrink_size f | None \<Rightarrow> False) then
                     do { (r, s) \<leftarrow> yaffs_put_chunk_in_file s a (unat (chunk_id tags)) chunk (-1);
                          let endpos = chunk_at + uint (n_bytes tags);
                          x \<leftarrow> objs s a;
                          f \<leftarrow> file_variant x;
                          s \<leftarrow> (if \<not> o_valid x \<and> stored_size f < endpos
                                then set_file s a (f\<lparr>stored_size := endpos, file_size := endpos\<rparr>) else Some s);
                          Some (r \<noteq> YAFFS_FAIL, s) }
                   else do { s \<leftarrow> chunk_del s chunk True; Some (True, s) } } }"

section \<open>A header\<close>

definition find_or_make :: "'n yaffs_sys \<Rightarrow> u32 \<Rightarrow> u32 \<Rightarrow> (nat option \<times> 'n yaffs_sys) option" where
  "find_or_make s number ty =
     (if known_type ty then yaffs_find_or_create_by_number s number ty else None)"

text \<open>A header read into the buffer, where it is put into the byte order of the processor.\<close>

definition read_header :: "'n yaffs_sys \<Rightarrow> int \<Rightarrow> u8 list \<Rightarrow> (yaffs_obj_hdr \<times> u8 list \<times> 'n yaffs_sys) option" where
  "read_header s chunk chunk_data =
     do { (r, b, t, s) \<leftarrow> rd_chunk s chunk (Some chunk_data) None;
          b \<leftarrow> b;
          if length b < OH_SIZE then None
          else
            let oh = yaffs_do_endian_oh (swap_endian (sdev s)) (oh_of_bytes b);
                oh = (if inband_tags (param (sdev s))
                      then oh\<lparr>oh_shadows_obj := oh_inband_shadowed_obj_id oh, oh_is_shrink := oh_inband_is_shrink oh\<rparr>
                      else oh)
            in Some (oh, oh_to_bytes b oh, s) }"

text \<open>The object of a header, and the header itself when its tags do not tell enough.\<close>

definition scan_header_obj ::
    "'n yaffs_sys \<Rightarrow> int \<Rightarrow> yaffs_ext_tags \<Rightarrow> u8 list \<Rightarrow>
     (nat option \<times> yaffs_obj_hdr option \<times> bool \<times> u8 list \<times> 'n yaffs_sys) option" where
  "scan_header_obj s chunk tags chunk_data =
     do { (o', s) \<leftarrow> (if extra_available tags \<noteq> 0 then find_or_make s (obj_id tags) (extra_obj_type tags)
                      else Some (None, s));
          let ok = (extra_available tags = 0 \<or> o' \<noteq> None);
          valid \<leftarrow> (case o' of None \<Rightarrow> Some False | Some a \<Rightarrow> do { x \<leftarrow> objs s a; Some (o_valid x) });
          if o' = None \<or> (\<not> valid \<and> disable_lazy_load (sparam s)) \<or> extra_shadows tags \<noteq> 0 \<or>
             (\<not> valid \<and> (obj_id tags = YAFFS_OBJECTID_ROOT \<or> obj_id tags = YAFFS_OBJECTID_LOSTNFOUND)) then
            do { (oh, chunk_data, s) \<leftarrow> read_header s chunk chunk_data;
                 (o', s) \<leftarrow> (if o' = None then find_or_make s (obj_id tags) (oh_type oh) else Some (o', s));
                 Some (o', Some oh, ok \<and> o' \<noteq> None, chunk_data, s) }
          else Some (o', None, ok, chunk_data, s) }"

text \<open>
  A header of an object that has been filled from a newer one: only the fact that the file
  was cut short is of interest.
\<close>

definition scan_old_header ::
    "'n yaffs_sys \<Rightarrow> int \<Rightarrow> int \<Rightarrow> nat \<Rightarrow> yaffs_ext_tags \<Rightarrow> yaffs_obj_hdr option \<Rightarrow> 'n yaffs_sys option" where
  "scan_old_header s blk chunk a tags oh =
     do { x \<leftarrow> objs s a;
          s \<leftarrow> (case file_variant x of
                 Some f \<Rightarrow>
                   if (case oh of Some h \<Rightarrow> oh_type h = YAFFS_OBJECT_TYPE_FILE | None \<Rightarrow> False) \<or>
                      (extra_available tags \<noteq> 0 \<and> extra_obj_type tags = YAFFS_OBJECT_TYPE_FILE) then
                     do { let this_size = (case oh of Some h \<Rightarrow> sint (yaffs_oh_to_size (swap_endian (sdev s)) h False)
                                           | None \<Rightarrow> sint (extra_file_size tags));
                          let parent_obj_id = (case oh of Some h \<Rightarrow> oh_parent_obj_id h | None \<Rightarrow> extra_parent_id tags);
                          let is_shrink = (case oh of Some h \<Rightarrow> oh_is_shrink h \<noteq> 0 | None \<Rightarrow> extra_is_shrink tags \<noteq> 0);
                          let gone = (parent_obj_id = YAFFS_OBJECTID_DELETED \<or> parent_obj_id = YAFFS_OBJECTID_UNLINKED);
                          let this_size = (if gone then 0 else this_size);
                          let is_shrink = (gone \<or> is_shrink);
                          s \<leftarrow> (if is_shrink \<and> shrink_size f > this_size
                                then set_file s a (f\<lparr>shrink_size := this_size\<rparr>) else Some s);
                          if is_shrink then run_dev (\<lambda>d. upd_block_info d blk (\<lambda>bi. bi\<lparr>has_shrink_hdr := True\<rparr>)) s
                          else Some s }
                   else Some s
               | None \<Rightarrow> Some s);
          chunk_del s chunk True }"

text \<open>The directory that a header names, or lost+found if the object is no directory or there is no memory.\<close>

definition scan_parent :: "'n yaffs_sys \<Rightarrow> nat option \<Rightarrow> (nat \<times> 'n yaffs_sys) option" where
  "scan_parent s parent =
     (case parent of
        None \<Rightarrow> do { l \<leftarrow> lost_n_found s; Some (l, s) }
      | Some p \<Rightarrow>
          do { y \<leftarrow> objs s p;
               case o_variant y of
                 UnknownVar \<Rightarrow> do { s \<leftarrow> upd_obj s p (\<lambda>y. y\<lparr>o_variant := DirVar [] False\<rparr>); Some (p, s) }
               | DirVar cs d \<Rightarrow> Some (p, s)
               | _ \<Rightarrow> do { l \<leftarrow> lost_n_found s; Some (l, s) } })"

text \<open>An element that is put into an intrusive list twice breaks the list: no value.\<close>

definition hard_list_add :: "nat \<Rightarrow> nat list \<Rightarrow> nat list option" where
  "hard_list_add a hard_list = (if a \<in> set hard_list then None else Some (a # hard_list))"

text \<open>The variant of an object, from the newest header there is of it.\<close>

definition scan_variant ::
    "'n yaffs_sys \<Rightarrow> nat \<Rightarrow> yaffs_obj_hdr option \<Rightarrow> int \<Rightarrow> u32 \<Rightarrow> bool \<Rightarrow> nat list \<Rightarrow>
     (bool \<times> nat list \<times> 'n yaffs_sys) option" where
  "scan_variant s a oh fsize equiv_id is_unlinked hard_list =
     do { x \<leftarrow> objs s a;
          case o_variant x of
            FileVar f \<Rightarrow>
              do { let f = (if stored_size f < fsize then f\<lparr>file_size := fsize, stored_size := fsize\<rparr> else f);
                   s \<leftarrow> set_file s a (if shrink_size f > fsize then f\<lparr>shrink_size := fsize\<rparr> else f);
                   Some (True, hard_list, s) }
          | HardlinkVar e i \<Rightarrow>
              if is_unlinked then Some (True, hard_list, s)
              else do { s \<leftarrow> upd_obj s a (\<lambda>x. x\<lparr>o_variant := HardlinkVar e equiv_id\<rparr>);
                        hard_list \<leftarrow> hard_list_add a hard_list;
                        Some (True, hard_list, s) }
          | SymlinkVar al \<Rightarrow>
              (case oh of None \<Rightarrow> Some (True, hard_list, s)
               | Some h \<Rightarrow>
                   do { let (str, s) = yaffs_clone_str s (Some (oh_alias h));
                        s \<leftarrow> upd_obj s a (\<lambda>x. x\<lparr>o_variant := SymlinkVar str\<rparr>);
                        Some (str \<noteq> None, hard_list, s) })
          | _ \<Rightarrow> Some (True, hard_list, s) }"

text \<open>The newest header of an object other than the root and lost+found.\<close>

definition scan_new_header ::
    "'n yaffs_sys \<Rightarrow> int \<Rightarrow> int \<Rightarrow> nat \<Rightarrow> yaffs_ext_tags \<Rightarrow> yaffs_obj_hdr option \<Rightarrow> nat list \<Rightarrow>
     (bool \<times> nat list \<times> 'n yaffs_sys) option" where
  "scan_new_header s blk chunk a tags oh hard_list =
     do { s \<leftarrow> upd_obj s a (\<lambda>x. x\<lparr>o_valid := True, o_hdr_chunk := chunk\<rparr>);
          (parent, fsize, is_shrink, equiv_id, s) \<leftarrow>
            (case oh of
               Some h \<Rightarrow>
                 do { s \<leftarrow> upd_obj s a (\<lambda>x. yaffs_load_attribs (x\<lparr>o_yst_mode := oh_yst_mode h\<rparr>) h);
                      s \<leftarrow> (if sint (oh_shadows_obj h) > 0 then yaffs_handle_shadowed_obj s (oh_shadows_obj h) True
                            else Some s);
                      x \<leftarrow> objs s a;
                      x \<leftarrow> yaffs_set_obj_name_from_oh x h;
                      s \<leftarrow> upd_obj s a (\<lambda>_. x);
                      (parent, s) \<leftarrow> yaffs_find_or_create_by_number s (oh_parent_obj_id h) YAFFS_OBJECT_TYPE_DIRECTORY;
                      Some (parent, sint (yaffs_oh_to_size (swap_endian (sdev s)) h False), oh_is_shrink h \<noteq> 0,
                            oh_equiv_id h, s) }
             | None \<Rightarrow>
                 do { (parent, s) \<leftarrow> yaffs_find_or_create_by_number s (extra_parent_id tags)
                                       YAFFS_OBJECT_TYPE_DIRECTORY;
                      s \<leftarrow> upd_obj s a (\<lambda>x. x\<lparr>o_lazy_loaded := True\<rparr>);
                      Some (parent, sint (extra_file_size tags), extra_is_shrink tags \<noteq> 0, extra_equiv_id tags, s) });
          s \<leftarrow> upd_obj s a (\<lambda>x. x\<lparr>o_dirty := False\<rparr>);
          (p, s) \<leftarrow> scan_parent s parent;
          s \<leftarrow> yaffs_add_obj_to_dir s p a;
          let is_unlinked = (Some p = del_dir s \<or> Some p = unlinked_dir s);
          s \<leftarrow> (if is_shrink then run_dev (\<lambda>d. upd_block_info d blk (\<lambda>bi. bi\<lparr>has_shrink_hdr := True\<rparr>)) s
                else Some s);
          (ok, hard_list, s) \<leftarrow> scan_variant s a oh fsize equiv_id is_unlinked hard_list;
          Some (ok \<and> parent \<noteq> None, hard_list, s) }"

definition scan_header ::
    "'n yaffs_sys \<Rightarrow> int \<Rightarrow> int \<Rightarrow> yaffs_ext_tags \<Rightarrow> u8 list \<Rightarrow> nat list \<Rightarrow>
     (bool \<times> u8 list \<times> nat list \<times> 'n yaffs_sys) option" where
  "scan_header s blk chunk tags chunk_data hard_list =
     do { (o', oh, ok, chunk_data, s) \<leftarrow> scan_header_obj s chunk tags chunk_data;
          case o' of None \<Rightarrow> Some (False, chunk_data, hard_list, s)
          | Some a \<Rightarrow>
              do { x \<leftarrow> objs s a;
                   if o_valid x then
                     do { s \<leftarrow> scan_old_header s blk chunk a tags oh;
                          Some (ok, chunk_data, hard_list, s) }
                   else
                     do { let ty = (case oh of Some h \<Rightarrow> oh_type h | None \<Rightarrow> extra_obj_type tags);
                          s \<leftarrow> (if variant_type x \<noteq> ty
                                then if known_type ty then yaffs_retype_obj s a ty else None else Some s);
                          if obj_id tags = YAFFS_OBJECTID_ROOT \<or> obj_id tags = YAFFS_OBJECTID_LOSTNFOUND then
                            do { s \<leftarrow> upd_obj s a (\<lambda>x. x\<lparr>o_valid := True\<rparr>);
                                 s \<leftarrow> (case oh of
                                        Some h \<Rightarrow> upd_obj s a (\<lambda>x. (yaffs_load_attribs (x\<lparr>o_yst_mode := oh_yst_mode h\<rparr>) h)
                                                    \<lparr>o_lazy_loaded := False\<rparr>)
                                      | None \<Rightarrow> upd_obj s a (\<lambda>x. x\<lparr>o_lazy_loaded := True\<rparr>));
                                 s \<leftarrow> upd_obj s a (\<lambda>x. x\<lparr>o_hdr_chunk := chunk\<rparr>);
                                 Some (ok, chunk_data, hard_list, s) }
                          else
                            do { (ok', hard_list, s) \<leftarrow> scan_new_header s blk chunk a tags oh hard_list;
                                 Some (ok \<and> ok', chunk_data, hard_list, s) } } } }"

section \<open>A chunk\<close>

definition yaffs2_scan_chunk ::
    "'n yaffs_sys \<Rightarrow> int \<Rightarrow> int \<Rightarrow> bool \<Rightarrow> u8 list \<Rightarrow> nat list \<Rightarrow> bool \<Rightarrow>
     (int \<times> bool \<times> u8 list \<times> nat list \<times> 'n yaffs_sys) option" where
  "yaffs2_scan_chunk s blk page found_chunks chunk_data hard_list summary_available =
     do { let chunk = blk * chunks_per_block (param (sdev s)) + page;
          bi \<leftarrow> yaffs_get_block_info (sdev s) blk;
          (tags, s) \<leftarrow> scan_tags s bi chunk page summary_available;
          bi \<leftarrow> yaffs_get_block_info (sdev s) blk;
          if chunk_used tags = 0 then
            do { s \<leftarrow> run_dev (\<lambda>d. scan_unused d blk page found_chunks) s;
                 Some (YAFFS_OK, found_chunks, chunk_data, hard_list, s) }
          else if ecc_result tags = YAFFS_ECC_RESULT_UNFIXED \<or> bad_tags (sdev s) bi tags then
            Some (YAFFS_OK, found_chunks, chunk_data, hard_list,
                  set_dev (\<lambda>d. d\<lparr>n_free_chunks := n_free_chunks d + 1\<rparr>) s)
          else
            do { s \<leftarrow> run_dev (\<lambda>d. take_chunk d blk page) s;
                 if chunk_id tags > 0 then
                   do { (ok, s) \<leftarrow> scan_data s chunk tags;
                        Some (if ok then YAFFS_OK else YAFFS_FAIL, True, chunk_data, hard_list, s) }
                 else
                   do { (ok, chunk_data, hard_list, s) \<leftarrow> scan_header s blk chunk tags chunk_data hard_list;
                        Some (if ok then YAFFS_OK else YAFFS_FAIL, True, chunk_data, hard_list, s) } } }"

section \<open>The device\<close>

text \<open>The state of each block from the driver; the index gets the blocks to be scanned.\<close>

fun scan_query_blocks ::
    "nat \<Rightarrow> 'n yaffs_tags_handler \<Rightarrow> 'n yaffs_dev \<Rightarrow> int \<Rightarrow> (yaffs_block_index list \<times> 'n yaffs_dev) option" where
  "scan_query_blocks 0 tg dev blk = Some ([], dev)"
| "scan_query_blocks (Suc n) tg dev blk =
     do { dev \<leftarrow> yaffs_clear_chunk_bits dev blk;
          dev \<leftarrow> upd_block_info dev blk (\<lambda>bi. bi\<lparr>pages_in_use := 0, soft_del_pages := 0\<rparr>);
          (r, state, seq, dev) \<leftarrow> yaffs_query_init_block_state tg dev blk;
          let state = (if seq = YAFFS_SEQUENCE_CHECKPOINT_DATA then YAFFS_BLOCK_STATE_CHECKPOINT
                       else if seq = YAFFS_SEQUENCE_BAD_BLOCK then YAFFS_BLOCK_STATE_DEAD else state);
          dev \<leftarrow> upd_block_info dev blk (\<lambda>bi. bi\<lparr>block_state := state, bi_seq_number := seq\<rparr>);
          let scan = (state = YAFFS_BLOCK_STATE_NEEDS_SCAN \<and> seq \<ge> YAFFS_LOWEST_SEQUENCE_NUMBER \<and>
                      seq < YAFFS_HIGHEST_SEQUENCE_NUMBER);
          let dev =
            (if state = YAFFS_BLOCK_STATE_CHECKPOINT then dev\<lparr>blocks_in_checkpt := blocks_in_checkpt dev + 1\<rparr>
             else if state = YAFFS_BLOCK_STATE_EMPTY
             then dev\<lparr>n_erased_blocks := n_erased_blocks dev + 1,
                      n_free_chunks := n_free_chunks dev + chunks_per_block (param dev)\<rparr>
             else if scan \<and> seq \<ge> dev_seq_number dev then dev\<lparr>dev_seq_number := seq\<rparr>
             else dev);
          (ix, dev) \<leftarrow> scan_query_blocks n tg dev (blk + 1);
          Some (if scan then \<lparr>bx_seq = seq, bx_block = word_of_int blk\<rparr> # ix else ix, dev) }"

text \<open>The summary of a block is read into \<^verbatim>\<open>dev->sum_tags\<close>, where there is one.\<close>

definition scan_summary :: "'n yaffs_sys \<Rightarrow> int \<Rightarrow> (bool \<times> 'n yaffs_sys) option" where
  "scan_summary s blk =
     do { let st = (case sum_tags (sdev s) of None \<Rightarrow> [] | Some st \<Rightarrow> st);
          (r, st, d) \<leftarrow> yaffs_summary_read (stg s) True (sdev s) st blk;
          Some (r \<noteq> YAFFS_FAIL, s\<lparr>sdev := (if sum_tags (sdev s) = None then d\<lparr>sum_tags := None\<rparr> else d)\<rparr>) }"

text \<open>The chunks of a block below \<open>c\<close>, from the last to the first, as long as the block is one to scan.\<close>

fun scan_chunks ::
    "nat \<Rightarrow> 'n yaffs_sys \<Rightarrow> int \<Rightarrow> bool \<Rightarrow> u8 list \<Rightarrow> nat list \<Rightarrow> bool \<Rightarrow>
     (bool \<times> u8 list \<times> nat list \<times> 'n yaffs_sys) option" where
  "scan_chunks 0 s blk found_chunks chunk_data hard_list summary_available = Some (True, chunk_data, hard_list, s)"
| "scan_chunks (Suc c) s blk found_chunks chunk_data hard_list summary_available =
     do { bi \<leftarrow> yaffs_get_block_info (sdev s) blk;
          if block_state bi = YAFFS_BLOCK_STATE_NEEDS_SCAN \<or> block_state bi = YAFFS_BLOCK_STATE_ALLOCATING then
            do { (r, found_chunks, chunk_data, hard_list, s) \<leftarrow>
                   yaffs2_scan_chunk s blk (int c) found_chunks chunk_data hard_list summary_available;
                 if r = YAFFS_FAIL then Some (False, chunk_data, hard_list, s)
                 else scan_chunks c s blk found_chunks chunk_data hard_list summary_available }
          else Some (True, chunk_data, hard_list, s) }"

definition scan_block ::
    "'n yaffs_sys \<Rightarrow> int \<Rightarrow> u8 list \<Rightarrow> nat list \<Rightarrow> (bool \<times> u8 list \<times> nat list \<times> 'n yaffs_sys) option" where
  "scan_block s blk chunk_data hard_list =
     do { (summary_available, s) \<leftarrow> scan_summary s blk;
          let n = nat (if summary_available then chunks_per_summary (sdev s) else chunks_per_block (param (sdev s)));
          (ok, chunk_data, hard_list, s) \<leftarrow> scan_chunks n s blk False chunk_data hard_list summary_available;
          s \<leftarrow> run_dev (\<lambda>d. upd_block_info d blk
                 (\<lambda>bi. if block_state bi = YAFFS_BLOCK_STATE_NEEDS_SCAN
                       then bi\<lparr>block_state := YAFFS_BLOCK_STATE_FULL\<rparr> else bi)) s;
          bi \<leftarrow> yaffs_get_block_info (sdev s) blk;
          s \<leftarrow> (if pages_in_use bi = 0 \<and> \<not> has_shrink_hdr bi \<and> block_state bi = YAFFS_BLOCK_STATE_FULL
                then run_dev (\<lambda>d. yaffs_block_became_dirty (sdrv s) (stg s) d blk) s else Some s);
          Some (ok, chunk_data, hard_list, s) }"

fun scan_blocks ::
    "yaffs_block_index list \<Rightarrow> 'n yaffs_sys \<Rightarrow> u8 list \<Rightarrow> nat list \<Rightarrow> (bool \<times> nat list \<times> 'n yaffs_sys) option" where
  "scan_blocks [] s chunk_data hard_list = Some (True, hard_list, s)"
| "scan_blocks (x # ix) s chunk_data hard_list =
     do { (ok, chunk_data, hard_list, s) \<leftarrow> scan_block s (sint (bx_block x)) chunk_data hard_list;
          if ok then scan_blocks ix s chunk_data hard_list else Some (False, hard_list, s) }"

definition yaffs2_scan_backwards :: "'n yaffs_sys \<Rightarrow> (int \<times> 'n yaffs_sys) option" where
  "yaffs2_scan_backwards s =
     do { let s = set_dev (\<lambda>d. d\<lparr>dev_seq_number := YAFFS_LOWEST_SEQUENCE_NUMBER\<rparr>) s;
          let (ok, d) = kmalloc (sdev s);
          let (ok, d) = (if ok then (ok, d) else kmalloc d);
          let s = s\<lparr>sdev := d\<rparr>;
          if \<not> ok then Some (YAFFS_FAIL, s)
          else
            do { let s = set_dev (\<lambda>d. d\<lparr>blocks_in_checkpt := 0\<rparr>) s;
                 (ix, d) \<leftarrow> scan_query_blocks (n_blocks (sdev s)) (stg s) (sdev s) (internal_start_block (sdev s));
                 let ix = qsort yaffs2_ybicmp ix;
                 (ok, hard_list, s) \<leftarrow> scan_blocks (rev ix) (s\<lparr>sdev := d\<rparr>) (temp_content d) [];
                 s \<leftarrow> run_dev yaffs_skip_rest_of_block s;
                 s \<leftarrow> yaffs_link_fixup hard_list s;
                 Some (if ok then YAFFS_OK else YAFFS_FAIL, s) } }"

end
