(* ===== verification/Yaffs_Scan1.thy ===== *)
theory Yaffs_Scan1
  imports Yaffs_Scan
begin

text \<open>
  core/yaffs_yaffs1.c: the scan of a yaffs1 device, block by block from the first.  There are
  no sequence numbers: of two copies of a chunk, the serial number in the tags tells which
  one is newer.  A header that shadows another object is remembered and the rename that
  it belongs to is completed at the end.
\<close>

section \<open>The states of the blocks\<close>

fun scan1_query_blocks ::
    "nat \<Rightarrow> 'n yaffs_tags_handler \<Rightarrow> 'n yaffs_dev \<Rightarrow> int \<Rightarrow> 'n yaffs_dev option" where
  "scan1_query_blocks 0 tg dev blk = Some dev"
| "scan1_query_blocks (Suc n) tg dev blk =
     do { dev \<leftarrow> yaffs_clear_chunk_bits dev blk;
          dev \<leftarrow> upd_block_info dev blk (\<lambda>bi. bi\<lparr>pages_in_use := 0, soft_del_pages := 0\<rparr>);
          (r, state, seq, dev) \<leftarrow> yaffs_query_init_block_state tg dev blk;
          let state = (if seq = YAFFS_SEQUENCE_BAD_BLOCK then YAFFS_BLOCK_STATE_DEAD else state);
          dev \<leftarrow> upd_block_info dev blk (\<lambda>bi. bi\<lparr>block_state := state, bi_seq_number := seq\<rparr>);
          let dev = (if state = YAFFS_BLOCK_STATE_EMPTY
                     then dev\<lparr>n_erased_blocks := n_erased_blocks dev + 1,
                              n_free_chunks := n_free_chunks dev + chunks_per_block (param dev)\<rparr>
                     else dev);
          scan1_query_blocks n tg dev (blk + 1) }"

section \<open>Chunks\<close>

text \<open>A chunk of file data; the end of the data is an \<^verbatim>\<open>unsigned int\<close>.\<close>

definition scan1_data :: "'n yaffs_sys \<Rightarrow> int \<Rightarrow> yaffs_ext_tags \<Rightarrow> (bool \<times> 'n yaffs_sys) option" where
  "scan1_data s chunk tags =
     do { (o', s) \<leftarrow> yaffs_find_or_create_by_number s (obj_id tags) YAFFS_OBJECT_TYPE_FILE;
          case o' of None \<Rightarrow> Some (False, s)
          | Some a \<Rightarrow>
              do { (r, s) \<leftarrow> yaffs_put_chunk_in_file s a (unat (chunk_id tags)) chunk 1;
                   let endpos = uint ((chunk_id tags - 1) * word_of_nat (data_bytes_per_chunk (sdev s)) + n_bytes tags);
                   x \<leftarrow> objs s a;
                   s \<leftarrow> (case file_variant x of
                          Some f \<Rightarrow>
                            if stored_size f < endpos then
                              set_file s a (if use_header_file_size (sparam s) then f\<lparr>stored_size := endpos\<rparr>
                                            else f\<lparr>stored_size := endpos, file_size := endpos\<rparr>)
                            else Some s
                        | None \<Rightarrow> Some s);
                   Some (r \<noteq> YAFFS_FAIL, s) } }"

text \<open>
  The object of a header.  One of another type is deleted first; the deletion takes a hard
  link out of the list of links still to be fixed.
\<close>

definition scan1_header_obj ::
    "'n yaffs_sys \<Rightarrow> u32 \<Rightarrow> u32 \<Rightarrow> nat list \<Rightarrow> (nat option \<times> nat list \<times> 'n yaffs_sys) option" where
  "scan1_header_obj s oid ty hard_list =
     do { o' \<leftarrow> yaffs_find_by_number s oid;
          (hard_list, s) \<leftarrow>
            (case o' of None \<Rightarrow> Some (hard_list, s)
             | Some a \<Rightarrow>
                 do { x \<leftarrow> objs s a;
                      if variant_type x \<noteq> ty then do { (r, s) \<leftarrow> yaffs_del_obj s a; Some (removeAll a hard_list, s) }
                      else Some (hard_list, s) });
          (o', s) \<leftarrow> find_or_make s oid ty;
          Some (o', hard_list, s) }"

text \<open>Which of two headers of an object stays.\<close>

definition scan1_settle :: "'n yaffs_sys \<Rightarrow> nat \<Rightarrow> int \<Rightarrow> yaffs_ext_tags \<Rightarrow> 'n yaffs_sys option" where
  "scan1_settle s a chunk tags =
     do { x \<leftarrow> objs s a;
          if \<not> o_valid x then Some s
          else if (ucast (o_serial x) + 1) AND 3 = serial_number tags then
            do { s \<leftarrow> chunk_del s (o_hdr_chunk x) True; upd_obj s a (\<lambda>x. x\<lparr>o_valid := False\<rparr>) }
          else chunk_del s chunk True }"

definition scan1_variant ::
    "'n yaffs_sys \<Rightarrow> nat \<Rightarrow> yaffs_obj_hdr \<Rightarrow> nat list \<Rightarrow> (bool \<times> nat list \<times> 'n yaffs_sys) option" where
  "scan1_variant s a oh hard_list =
     do { x \<leftarrow> objs s a;
          case o_variant x of
            FileVar f \<Rightarrow>
              do { s \<leftarrow> (if use_header_file_size (sparam s)
                         then set_file s a (f\<lparr>file_size := sint (yaffs_oh_to_size (swap_endian (sdev s)) oh False)\<rparr>)
                         else Some s);
                   Some (True, hard_list, s) }
          | HardlinkVar e i \<Rightarrow>
              do { s \<leftarrow> upd_obj s a (\<lambda>x. x\<lparr>o_variant := HardlinkVar e (oh_equiv_id oh)\<rparr>);
                   hard_list \<leftarrow> hard_list_add a hard_list;
                   Some (True, hard_list, s) }
          | SymlinkVar al \<Rightarrow>
              do { let (str, s) = yaffs_clone_str s (Some (oh_alias oh));
                   s \<leftarrow> upd_obj s a (\<lambda>x. x\<lparr>o_variant := SymlinkVar str\<rparr>);
                   Some (str \<noteq> None, hard_list, s) }
          | _ \<Rightarrow> Some (True, hard_list, s) }"

text \<open>
  The header that stays fills its object.  A type that is still another one after the
  deletion above would be a union read as what it is not: no value.
\<close>

definition scan1_fill ::
    "'n yaffs_sys \<Rightarrow> int \<Rightarrow> nat \<Rightarrow> yaffs_ext_tags \<Rightarrow> yaffs_obj_hdr \<Rightarrow> nat list \<Rightarrow>
     (bool \<times> nat list \<times> 'n yaffs_sys) option" where
  "scan1_fill s chunk a tags oh hard_list =
     do { x \<leftarrow> objs s a;
          if variant_type x \<noteq> oh_type oh then None
          else
            do { s \<leftarrow> upd_obj s a (\<lambda>x. (yaffs_load_attribs (x\<lparr>o_valid := True, o_yst_mode := oh_yst_mode oh\<rparr>) oh)
                         \<lparr>o_hdr_chunk := chunk, o_serial := ucast (serial_number tags)\<rparr>);
                 if obj_id tags = YAFFS_OBJECTID_ROOT \<or> obj_id tags = YAFFS_OBJECTID_LOSTNFOUND
                 then Some (True, hard_list, s)
                 else
                   do { x \<leftarrow> objs s a;
                        x \<leftarrow> yaffs_set_obj_name_from_oh x oh;
                        s \<leftarrow> upd_obj s a (\<lambda>_. x\<lparr>o_dirty := False\<rparr>);
                        (parent, s) \<leftarrow> yaffs_find_or_create_by_number s (oh_parent_obj_id oh)
                                         YAFFS_OBJECT_TYPE_DIRECTORY;
                        (p, s) \<leftarrow> scan_parent s parent;
                        s \<leftarrow> yaffs_add_obj_to_dir s p a;
                        (ok, hard_list, s) \<leftarrow> scan1_variant s a oh hard_list;
                        Some (ok \<and> parent \<noteq> None, hard_list, s) } } }"

text \<open>\<open>fixers\<close> are the pairs of an object and the one that it shadows.\<close>

definition scan1_header ::
    "'n yaffs_sys \<Rightarrow> int \<Rightarrow> yaffs_ext_tags \<Rightarrow> u8 list \<Rightarrow> nat list \<Rightarrow> (u32 \<times> u32) list \<Rightarrow>
     (bool \<times> u8 list \<times> nat list \<times> (u32 \<times> u32) list \<times> 'n yaffs_sys) option" where
  "scan1_header s chunk tags chunk_data hard_list fixers =
     do { (r, b, t, s) \<leftarrow> rd_chunk s chunk (Some chunk_data) None;
          chunk_data \<leftarrow> b;
          if length chunk_data < OH_SIZE then None
          else
            do { let oh = oh_of_bytes chunk_data;
                 (o', hard_list, s) \<leftarrow> scan1_header_obj s (obj_id tags) (oh_type oh) hard_list;
                 case o' of None \<Rightarrow> Some (False, chunk_data, hard_list, fixers, s)
                 | Some a \<Rightarrow>
                     do { let (ok, d) = (if sint (oh_shadows_obj oh) > 0 then kmalloc (sdev s) else (False, sdev s));
                          let s = s\<lparr>sdev := d\<rparr>;
                          let fixers = (if ok then (obj_id tags, oh_shadows_obj oh) # fixers else fixers);
                          s \<leftarrow> scan1_settle s a chunk tags;
                          x \<leftarrow> objs s a;
                          if o_valid x then Some (True, chunk_data, hard_list, fixers, s)
                          else
                            do { (ok, hard_list, s) \<leftarrow> scan1_fill s chunk a tags oh hard_list;
                                 Some (ok, chunk_data, hard_list, fixers, s) } } } }"

text \<open>
  The chunks of a block from \<open>c\<close> on, \<open>n\<close> of them, as long as its state, which is a local
  variable, is that it needs a scan.
\<close>

fun scan1_chunks ::
    "nat \<Rightarrow> 'n yaffs_sys \<Rightarrow> int \<Rightarrow> int \<Rightarrow> yaffs_block_state \<Rightarrow> u8 list \<Rightarrow> nat list \<Rightarrow> (u32 \<times> u32) list \<Rightarrow>
     (bool \<times> yaffs_block_state \<times> u8 list \<times> nat list \<times> (u32 \<times> u32) list \<times> 'n yaffs_sys) option" where
  "scan1_chunks 0 s blk c state chunk_data hard_list fixers = Some (True, state, chunk_data, hard_list, fixers, s)"
| "scan1_chunks (Suc n) s blk c state chunk_data hard_list fixers =
     (if state \<noteq> YAFFS_BLOCK_STATE_NEEDS_SCAN then Some (True, state, chunk_data, hard_list, fixers, s)
      else
        do { let chunk = blk * chunks_per_block (param (sdev s)) + c;
             (r, b, t, s) \<leftarrow> rd_chunk s chunk None (Some (stack_tags (sdev s)));
             tags \<leftarrow> t;
             (ok, state, chunk_data, hard_list, fixers, s) \<leftarrow>
               (if r \<noteq> YAFFS_OK then Some (True, state, chunk_data, hard_list, fixers, s)
                else if ecc_result tags = YAFFS_ECC_RESULT_UNFIXED \<or> is_deleted tags \<noteq> 0 then
                  Some (True, state, chunk_data, hard_list, fixers,
                        set_dev (\<lambda>d. d\<lparr>n_free_chunks := n_free_chunks d + 1\<rparr>) s)
                else if chunk_used tags = 0 then
                  let s = set_dev (\<lambda>d. d\<lparr>n_free_chunks := n_free_chunks d + (chunks_per_block (param d) - c)\<rparr>) s
                  in if c = 0
                     then Some (True, YAFFS_BLOCK_STATE_EMPTY, chunk_data, hard_list, fixers,
                                set_dev (\<lambda>d. d\<lparr>n_erased_blocks := n_erased_blocks d + 1\<rparr>) s)
                     else Some (True, YAFFS_BLOCK_STATE_ALLOCATING, chunk_data, hard_list, fixers,
                                set_dev (\<lambda>d. d\<lparr>alloc_block := blk, alloc_page := c, alloc_block_finder := blk\<rparr>) s)
                else
                  do { s \<leftarrow> run_dev (\<lambda>d. take_chunk d blk c) s;
                       if chunk_id tags > 0 then
                         do { (ok, s) \<leftarrow> scan1_data s chunk tags;
                              Some (ok, state, chunk_data, hard_list, fixers, s) }
                       else
                         do { (ok, chunk_data, hard_list, fixers, s) \<leftarrow>
                                scan1_header s chunk tags chunk_data hard_list fixers;
                              Some (ok, state, chunk_data, hard_list, fixers, s) } });
             if ok then scan1_chunks n s blk (c + 1) state chunk_data hard_list fixers
             else Some (False, state, chunk_data, hard_list, fixers, s) })"

section \<open>The device\<close>

text \<open>A block that was partly written is closed: allocation goes on in a new one.\<close>

definition scan1_end_block :: "'n yaffs_sys \<Rightarrow> int \<Rightarrow> yaffs_block_state \<Rightarrow> 'n yaffs_sys option" where
  "scan1_end_block s blk state =
     do { let s = (if state = YAFFS_BLOCK_STATE_ALLOCATING then set_dev (\<lambda>d. d\<lparr>alloc_block := -1\<rparr>) s else s);
          let state = (if state = YAFFS_BLOCK_STATE_NEEDS_SCAN \<or> state = YAFFS_BLOCK_STATE_ALLOCATING
                       then YAFFS_BLOCK_STATE_FULL else state);
          s \<leftarrow> run_dev (\<lambda>d. upd_block_info d blk (\<lambda>bi. bi\<lparr>block_state := state\<rparr>)) s;
          bi \<leftarrow> yaffs_get_block_info (sdev s) blk;
          if pages_in_use bi = 0 \<and> \<not> has_shrink_hdr bi \<and> block_state bi = YAFFS_BLOCK_STATE_FULL
          then run_dev (\<lambda>d. yaffs_block_became_dirty (sdrv s) (stg s) d blk) s else Some s }"

fun scan1_blocks ::
    "nat \<Rightarrow> 'n yaffs_sys \<Rightarrow> int \<Rightarrow> u8 list \<Rightarrow> nat list \<Rightarrow> (u32 \<times> u32) list \<Rightarrow>
     (bool \<times> nat list \<times> (u32 \<times> u32) list \<times> 'n yaffs_sys) option" where
  "scan1_blocks 0 s blk chunk_data hard_list fixers = Some (True, hard_list, fixers, s)"
| "scan1_blocks (Suc n) s blk chunk_data hard_list fixers =
     do { bi \<leftarrow> yaffs_get_block_info (sdev s) blk;
          (ok, state, chunk_data, hard_list, fixers, s) \<leftarrow>
            scan1_chunks (nat (chunks_per_block (param (sdev s)))) s blk 0 (block_state bi) chunk_data hard_list fixers;
          s \<leftarrow> scan1_end_block s blk state;
          if ok then scan1_blocks n s (blk + 1) chunk_data hard_list fixers
          else Some (False, hard_list, fixers, s) }"

text \<open>The rename that a power failure interrupted: the shadowed object goes, the header is written anew.\<close>

fun fix_shadows :: "(u32 \<times> u32) list \<Rightarrow> 'n yaffs_sys \<Rightarrow> 'n yaffs_sys option" where
  "fix_shadows [] s = Some s"
| "fix_shadows ((oid, shadowed) # fixers) s =
     do { o' \<leftarrow> yaffs_find_by_number s shadowed;
          s \<leftarrow> (case o' of None \<Rightarrow> Some s | Some a \<Rightarrow> do { (r, s) \<leftarrow> yaffs_del_obj s a; Some s });
          o' \<leftarrow> yaffs_find_by_number s oid;
          s \<leftarrow> (case o' of None \<Rightarrow> Some s
                | Some a \<Rightarrow> do { (r, xr, s) \<leftarrow> yaffs_update_oh s a None True False 0 None; Some s });
          fix_shadows fixers s }"

definition yaffs1_scan :: "'n yaffs_sys \<Rightarrow> (int \<times> 'n yaffs_sys) option" where
  "yaffs1_scan s =
     do { let s = set_dev (\<lambda>d. d\<lparr>dev_seq_number := YAFFS_LOWEST_SEQUENCE_NUMBER\<rparr>) s;
          s \<leftarrow> run_dev (\<lambda>d. scan1_query_blocks (n_blocks d) (stg s) d (internal_start_block d)) s;
          (ok, hard_list, fixers, s) \<leftarrow>
            scan1_blocks (n_blocks (sdev s)) s (internal_start_block (sdev s)) (temp_content (sdev s)) [] [];
          s \<leftarrow> yaffs_link_fixup hard_list s;
          s \<leftarrow> fix_shadows fixers s;
          Some (if ok then YAFFS_OK else YAFFS_FAIL, s) }"

end
