(* ===== verification/Yaffs_Checkpt_Recs.thy ===== *)
theory Yaffs_Checkpt_Recs
  imports Yaffs_Dir Yaffs_Checkpt
begin

text \<open>
  core/yaffs_yaffs2.c: what a checkpoint holds.  In the stream come a validity marker, the
  counters of the device, its block table and chunk bitmap, a record for each object
  (with its tnodes of level 0, if it is a file), a second marker and the checksum.

  A structure is the list of its bytes, little-endian, without padding.  A signed field is
  kept as its bits and read with \<open>sint\<close>.
\<close>

section \<open>Pieces of the stream\<close>

text \<open>Whether all bytes of a structure were written, or read.\<close>

definition checkpt_put :: "'n yaffs_tags_handler \<Rightarrow> 'n yaffs_dev \<Rightarrow> u8 list \<Rightarrow> (bool \<times> 'n yaffs_dev) option" where
  "checkpt_put tg dev b = do { (n, dev) \<leftarrow> yaffs2_checkpt_wr tg dev b; Some (n = int (length b), dev) }"

definition checkpt_get :: "'n yaffs_tags_handler \<Rightarrow> 'n yaffs_dev \<Rightarrow> nat \<Rightarrow> (bool \<times> u8 list \<times> 'n yaffs_dev) option" where
  "checkpt_get tg dev len = do { (n, b, dev) \<leftarrow> yaffs2_checkpt_rd tg dev len; Some (n = int len, b, dev) }"

definition swap_if :: "'n yaffs_dev \<Rightarrow> u32 \<Rightarrow> u32" where
  "swap_if dev w = yaffs_do_endian_u32 (swap_endian dev) w"

definition bytes_words :: "nat \<Rightarrow> u8 list \<Rightarrow> u32 list" where
  "bytes_words n b = map (\<lambda>i. u32_at b (4 * i)) [0..<n]"

definition words_bytes :: "u32 list \<Rightarrow> u8 list" where
  "words_bytes ws = concat (map u32_bytes ws)"

section \<open>Validity markers\<close>

definition YAFFS_MAGIC :: u32 where "YAFFS_MAGIC = 0x5941ff53"

record yaffs_checkpt_validity =
  cv_struct_type :: u32
  cv_magic :: u32
  cv_version :: u32
  cv_head :: u32

definition cv_bytes :: "yaffs_checkpt_validity \<Rightarrow> u8 list" where
  "cv_bytes v = words_bytes [cv_struct_type v, cv_magic v, cv_version v, cv_head v]"

definition bytes_cv :: "u8 list \<Rightarrow> yaffs_checkpt_validity" where
  "bytes_cv b = \<lparr>cv_struct_type = u32_at b 0, cv_magic = u32_at b 4, cv_version = u32_at b 8, cv_head = u32_at b 12\<rparr>"

definition yaffs2_do_endian_validity_marker :: "'n yaffs_dev \<Rightarrow> yaffs_checkpt_validity \<Rightarrow> yaffs_checkpt_validity" where
  "yaffs2_do_endian_validity_marker dev v =
     (if \<not> swap_endian dev then v
      else v\<lparr>cv_struct_type := swap_u32 (cv_struct_type v), cv_magic := swap_u32 (cv_magic v),
             cv_version := swap_u32 (cv_version v), cv_head := swap_u32 (cv_head v)\<rparr>)"

definition yaffs2_wr_checkpt_validity_marker ::
    "'n yaffs_tags_handler \<Rightarrow> 'n yaffs_dev \<Rightarrow> bool \<Rightarrow> (bool \<times> 'n yaffs_dev) option" where
  "yaffs2_wr_checkpt_validity_marker tg dev at_head =
     (let cp = \<lparr>cv_struct_type = 16, cv_magic = YAFFS_MAGIC, cv_version = YAFFS_CHECKPOINT_VERSION,
                cv_head = (if at_head then 1 else 0)\<rparr>
      in checkpt_put tg dev (cv_bytes (yaffs2_do_endian_validity_marker dev cp)))"

definition yaffs2_rd_checkpt_validity_marker ::
    "'n yaffs_tags_handler \<Rightarrow> 'n yaffs_dev \<Rightarrow> bool \<Rightarrow> (bool \<times> 'n yaffs_dev) option" where
  "yaffs2_rd_checkpt_validity_marker tg dev at_head =
     do { (ok, b, dev) \<leftarrow> checkpt_get tg dev 16;
          let cp = yaffs2_do_endian_validity_marker dev (bytes_cv b);
          Some (ok \<and> cv_struct_type cp = 16 \<and> cv_magic cp = YAFFS_MAGIC \<and>
                cv_version cp = YAFFS_CHECKPOINT_VERSION \<and> cv_head cp = (if at_head then 1 else 0), dev) }"

section \<open>The device\<close>

record yaffs_checkpt_dev =
  cd_struct_type :: u32
  cd_n_erased_blocks :: u32
  cd_alloc_block :: u32
  cd_alloc_page :: u32
  cd_n_free_chunks :: u32
  cd_n_deleted_files :: u32
  cd_n_unlinked_files :: u32
  cd_n_bg_deletions :: u32
  cd_seq_number :: u32

definition cd_bytes :: "yaffs_checkpt_dev \<Rightarrow> u8 list" where
  "cd_bytes c = words_bytes [cd_struct_type c, cd_n_erased_blocks c, cd_alloc_block c, cd_alloc_page c,
     cd_n_free_chunks c, cd_n_deleted_files c, cd_n_unlinked_files c, cd_n_bg_deletions c, cd_seq_number c]"

definition bytes_cd :: "u8 list \<Rightarrow> yaffs_checkpt_dev" where
  "bytes_cd b = \<lparr>cd_struct_type = u32_at b 0, cd_n_erased_blocks = u32_at b 4, cd_alloc_block = u32_at b 8,
     cd_alloc_page = u32_at b 12, cd_n_free_chunks = u32_at b 16, cd_n_deleted_files = u32_at b 20,
     cd_n_unlinked_files = u32_at b 24, cd_n_bg_deletions = u32_at b 28, cd_seq_number = u32_at b 32\<rparr>"

definition yaffs2_dev_to_checkpt_dev :: "'n yaffs_dev \<Rightarrow> yaffs_checkpt_dev" where
  "yaffs2_dev_to_checkpt_dev dev = \<lparr>cd_struct_type = 36, cd_n_erased_blocks = word_of_int (n_erased_blocks dev),
     cd_alloc_block = word_of_int (alloc_block dev), cd_alloc_page = word_of_int (alloc_page dev),
     cd_n_free_chunks = word_of_int (n_free_chunks dev), cd_n_deleted_files = word_of_int (n_deleted_files dev),
     cd_n_unlinked_files = word_of_int (n_unlinked_files dev), cd_n_bg_deletions = word_of_int (n_bg_deletions dev),
     cd_seq_number = dev_seq_number dev\<rparr>"

definition yaffs_checkpt_dev_to_dev :: "'n yaffs_dev \<Rightarrow> yaffs_checkpt_dev \<Rightarrow> 'n yaffs_dev" where
  "yaffs_checkpt_dev_to_dev dev cp =
     dev\<lparr>n_erased_blocks := sint (cd_n_erased_blocks cp), alloc_block := sint (cd_alloc_block cp),
         alloc_page := uint (cd_alloc_page cp), n_free_chunks := sint (cd_n_free_chunks cp),
         n_deleted_files := sint (cd_n_deleted_files cp), n_unlinked_files := sint (cd_n_unlinked_files cp),
         n_bg_deletions := sint (cd_n_bg_deletions cp), dev_seq_number := cd_seq_number cp\<rparr>"

definition yaffs2_do_endian_checkpt_dev :: "'n yaffs_dev \<Rightarrow> yaffs_checkpt_dev \<Rightarrow> yaffs_checkpt_dev" where
  "yaffs2_do_endian_checkpt_dev dev cp =
     (if \<not> swap_endian dev then cp
      else cp\<lparr>cd_struct_type := swap_u32 (cd_struct_type cp), cd_n_erased_blocks := swap_u32 (cd_n_erased_blocks cp),
              cd_alloc_block := swap_u32 (cd_alloc_block cp), cd_alloc_page := swap_u32 (cd_alloc_page cp),
              cd_n_free_chunks := swap_u32 (cd_n_free_chunks cp), cd_n_deleted_files := swap_u32 (cd_n_deleted_files cp),
              cd_n_unlinked_files := swap_u32 (cd_n_unlinked_files cp),
              cd_n_bg_deletions := swap_u32 (cd_n_bg_deletions cp)\<rparr>)"

section \<open>The block table\<close>

text \<open>
  The two words of a \<^verbatim>\<open>struct yaffs_block_info\<close>, its bit fields from bit 0 on.  A state
  outside the enum, which only a damaged checkpoint holds, is read as unknown.
\<close>

definition bi_word0 :: "yaffs_block_info \<Rightarrow> u32" where
  "bi_word0 bi =
     (word_of_int (soft_del_pages bi) AND 0x3ff) OR push_bit 10 (word_of_int (pages_in_use bi) AND 0x3ff) OR
     push_bit 20 (word_of_nat (block_state_code (block_state bi))) OR push_bit 24 (of_bool (needs_retiring bi)) OR
     push_bit 25 (of_bool (skip_erased_check bi)) OR push_bit 26 (of_bool (gc_prioritise bi)) OR
     push_bit 27 (ucast (chunk_error_strikes bi)) OR push_bit 30 (of_bool (has_summary bi)) OR
     push_bit 31 (of_bool (has_shrink_hdr bi))"

definition state_of_code :: "nat \<Rightarrow> yaffs_block_state" where
  "state_of_code n =
     (let l = [YAFFS_BLOCK_STATE_UNKNOWN, YAFFS_BLOCK_STATE_SCANNING, YAFFS_BLOCK_STATE_NEEDS_SCAN,
               YAFFS_BLOCK_STATE_EMPTY, YAFFS_BLOCK_STATE_ALLOCATING, YAFFS_BLOCK_STATE_FULL,
               YAFFS_BLOCK_STATE_DIRTY, YAFFS_BLOCK_STATE_CHECKPOINT, YAFFS_BLOCK_STATE_COLLECTING,
               YAFFS_BLOCK_STATE_DEAD]
      in if n < length l then l ! n else YAFFS_BLOCK_STATE_UNKNOWN)"

definition words_bi :: "u32 \<Rightarrow> u32 \<Rightarrow> yaffs_block_info" where
  "words_bi w s =
     \<lparr>soft_del_pages = sint (ucast w :: 10 word), pages_in_use = sint (ucast (drop_bit 10 w) :: 10 word),
      block_state = state_of_code (unat (drop_bit 20 w AND 15)), needs_retiring = bit w 24,
      skip_erased_check = bit w 25, gc_prioritise = bit w 26, chunk_error_strikes = ucast (drop_bit 27 w),
      has_summary = bit w 30, has_shrink_hdr = bit w 31, bi_seq_number = s\<rparr>"

definition bi_bytes :: "yaffs_block_info \<Rightarrow> u8 list" where
  "bi_bytes bi = words_bytes [bi_word0 bi, bi_seq_number bi]"

definition table_bytes :: "yaffs_block_info list \<Rightarrow> u8 list" where
  "table_bytes bis = concat (map bi_bytes bis)"

text \<open>The table in an area of bytes; \<open>f\<close> is what is done to each word first.\<close>

definition bytes_table :: "(u32 \<Rightarrow> u32) \<Rightarrow> nat \<Rightarrow> u8 list \<Rightarrow> yaffs_block_info list" where
  "bytes_table f n b = map (\<lambda>i. words_bi (f (u32_at b (8 * i))) (f (u32_at b (8 * i + 4)))) [0..<n]"

text \<open>
  The stream takes the block table from the table in use, a byte at a time: a block that
  the stream itself fills on the way is already a checkpoint block in what comes after.
\<close>

fun checkpt_wr_table_loop ::
    "'n yaffs_tags_handler \<Rightarrow> nat \<Rightarrow> nat \<Rightarrow> 'n yaffs_dev \<Rightarrow> (int \<times> 'n yaffs_dev) option" where
  "checkpt_wr_table_loop tg 0 i dev = Some (int i, dev)"
| "checkpt_wr_table_loop tg (Suc n) i dev =
     (if i div 8 \<ge> length (block_info dev) then None
      else
        do { dev \<leftarrow> checkpt_put_byte (bi_bytes (block_info dev ! (i div 8)) ! (i mod 8)) dev;
             (ok, dev) \<leftarrow> (if outside_buffer dev then yaffs2_checkpt_flush_buffer tg dev else Some (1, dev));
             if ok \<noteq> 0 then checkpt_wr_table_loop tg n (i + 1) dev else Some (int (i + 1), dev) })"

definition checkpt_wr_table :: "'n yaffs_tags_handler \<Rightarrow> 'n yaffs_dev \<Rightarrow> nat \<Rightarrow> (int \<times> 'n yaffs_dev) option" where
  "checkpt_wr_table tg dev n_bytes' =
     (if checkpt_buffer dev = None then Some (0, dev)
      else if \<not> checkpt_open_write dev then Some (-1, dev)
      else checkpt_wr_table_loop tg n_bytes' 0 dev)"

text \<open>With swapping, a block at a time and from a copy.\<close>

fun wr_swapped_blocks ::
    "'n yaffs_tags_handler \<Rightarrow> nat \<Rightarrow> nat \<Rightarrow> 'n yaffs_dev \<Rightarrow> (bool \<times> 'n yaffs_dev) option" where
  "wr_swapped_blocks tg 0 i dev = Some (True, dev)"
| "wr_swapped_blocks tg (Suc n) i dev =
     (if i \<ge> length (block_info dev) then None
      else
        let bi = block_info dev ! i
        in do { (ok, dev) \<leftarrow> checkpt_put tg dev (words_bytes [swap_u32 (bi_word0 bi), swap_u32 (bi_seq_number bi)]);
                if ok then wr_swapped_blocks tg n (i + 1) dev else Some (False, dev) })"

definition yaffs2_wr_checkpt_dev :: "'n yaffs_tags_handler \<Rightarrow> 'n yaffs_dev \<Rightarrow> (bool \<times> 'n yaffs_dev) option" where
  "yaffs2_wr_checkpt_dev tg dev =
     do { (ok, dev) \<leftarrow> checkpt_put tg dev (cd_bytes (yaffs2_do_endian_checkpt_dev dev (yaffs2_dev_to_checkpt_dev dev)));
          if \<not> ok then Some (False, dev)
          else
            do { (ok, dev) \<leftarrow> (if \<not> swap_endian dev
                   then do { (n, dev) \<leftarrow> checkpt_wr_table tg dev (n_blocks dev * 8);
                             Some (n = int (n_blocks dev * 8), dev) }
                   else wr_swapped_blocks tg (n_blocks dev) 0 dev);
                 if \<not> ok then Some (False, dev)
                 else
                   let len = n_blocks dev * chunk_bit_stride dev
                   in if length (chunk_bits dev) < len then None
                      else checkpt_put tg dev (take len (chunk_bits dev)) } }"

text \<open>What was read lies over what was in the table or the bitmap before.\<close>

definition yaffs2_rd_checkpt_dev :: "'n yaffs_tags_handler \<Rightarrow> 'n yaffs_dev \<Rightarrow> (bool \<times> 'n yaffs_dev) option" where
  "yaffs2_rd_checkpt_dev tg dev =
     do { (ok, b, dev) \<leftarrow> checkpt_get tg dev 36;
          if \<not> ok then Some (False, dev)
          else
            let cp = yaffs2_do_endian_checkpt_dev dev (bytes_cd b)
            in if cd_struct_type cp \<noteq> 36 then Some (False, dev)
               else
                 let dev = yaffs_checkpt_dev_to_dev dev cp;
                     n = n_blocks dev
                 in if length (block_info dev) < n then None
                    else
                      do { (ok, b, dev) \<leftarrow> checkpt_get tg dev (n * 8);
                           let old = table_bytes (take n (block_info dev));
                           let table = bytes_table (if ok then swap_if dev else id) n (b @ drop (length b) old);
                           let dev = dev\<lparr>block_info := table @ drop n (block_info dev)\<rparr>;
                           if \<not> ok then Some (False, dev)
                           else if length (chunk_bits dev) < n * chunk_bit_stride dev then None
                           else
                             do { (ok, b, dev) \<leftarrow> checkpt_get tg dev (n * chunk_bit_stride dev);
                                  Some (ok, dev\<lparr>chunk_bits := b @ drop (length b) (chunk_bits dev)\<rparr>) } } }"

section \<open>Objects\<close>

record yaffs_checkpt_obj =
  co_struct_type :: u32
  co_obj_id :: u32
  co_parent_id :: u32
  co_hdr_chunk :: u32
  co_bit_field :: u32
  co_n_data_chunks :: u32
  co_size_or_equiv_obj :: u64

definition co_bytes :: "yaffs_checkpt_obj \<Rightarrow> u8 list" where
  "co_bytes c = words_bytes [co_struct_type c, co_obj_id c, co_parent_id c, co_hdr_chunk c, co_bit_field c,
     co_n_data_chunks c, ucast (co_size_or_equiv_obj c), ucast (drop_bit 32 (co_size_or_equiv_obj c))]"

definition bytes_co :: "u8 list \<Rightarrow> yaffs_checkpt_obj" where
  "bytes_co b = \<lparr>co_struct_type = u32_at b 0, co_obj_id = u32_at b 4, co_parent_id = u32_at b 8,
     co_hdr_chunk = u32_at b 12, co_bit_field = u32_at b 16, co_n_data_chunks = u32_at b 20,
     co_size_or_equiv_obj = ucast (u32_at b 24) OR push_bit 32 (ucast (u32_at b 28))\<rparr>"

text \<open>The bits of a field, by its offset and width.\<close>

type_synonym bit_place = "nat \<times> nat"

definition CHECKPOINT_VARIANT_BITS :: bit_place where "CHECKPOINT_VARIANT_BITS = (0, 3)"
definition CHECKPOINT_DELETED_BITS :: bit_place where "CHECKPOINT_DELETED_BITS = (3, 1)"
definition CHECKPOINT_SOFT_DEL_BITS :: bit_place where "CHECKPOINT_SOFT_DEL_BITS = (4, 1)"
definition CHECKPOINT_UNLINKED_BITS :: bit_place where "CHECKPOINT_UNLINKED_BITS = (5, 1)"
definition CHECKPOINT_FAKE_BITS :: bit_place where "CHECKPOINT_FAKE_BITS = (6, 1)"
definition CHECKPOINT_RENAME_ALLOWED_BITS :: bit_place where "CHECKPOINT_RENAME_ALLOWED_BITS = (7, 1)"
definition CHECKPOINT_UNLINK_ALLOWED_BITS :: bit_place where "CHECKPOINT_UNLINK_ALLOWED_BITS = (8, 1)"
definition CHECKPOINT_SERIAL_BITS :: bit_place where "CHECKPOINT_SERIAL_BITS = (9, 8)"

lemmas checkpt_bit_places = CHECKPOINT_VARIANT_BITS_def CHECKPOINT_DELETED_BITS_def CHECKPOINT_SOFT_DEL_BITS_def
  CHECKPOINT_UNLINKED_BITS_def CHECKPOINT_FAKE_BITS_def CHECKPOINT_RENAME_ALLOWED_BITS_def
  CHECKPOINT_UNLINK_ALLOWED_BITS_def CHECKPOINT_SERIAL_BITS_def

definition yaffs2_checkpt_obj_bit_assign :: "bit_place \<Rightarrow> u32 \<Rightarrow> yaffs_checkpt_obj \<Rightarrow> yaffs_checkpt_obj" where
  "yaffs2_checkpt_obj_bit_assign place val cp =
     (let (bit_offset, bit_width) = place;
          and_mask = push_bit bit_offset (push_bit bit_width 1 - 1)
      in cp\<lparr>co_bit_field := (co_bit_field cp AND NOT and_mask) OR (push_bit bit_offset val AND and_mask)\<rparr>)"

definition yaffs2_checkpt_obj_bit_get :: "yaffs_checkpt_obj \<Rightarrow> bit_place \<Rightarrow> u32" where
  "yaffs2_checkpt_obj_bit_get cp place =
     (let (bit_offset, bit_width) = place; and_mask = push_bit bit_width 1 - 1
      in drop_bit bit_offset (co_bit_field cp) AND and_mask)"

text \<open>The record keeps what the code does not set: it is filled in place.\<close>

definition yaffs2_obj_checkpt_obj ::
    "'n yaffs_sys \<Rightarrow> yaffs_checkpt_obj \<Rightarrow> yaffs_obj \<Rightarrow> yaffs_checkpt_obj option" where
  "yaffs2_obj_checkpt_obj s cp obj =
     do { parent_id \<leftarrow> (case o_parent obj of None \<Rightarrow> Some 0 | Some p \<Rightarrow> do { x \<leftarrow> objs s p; Some (o_obj_id x) });
          let cp = cp\<lparr>co_obj_id := o_obj_id obj, co_parent_id := parent_id,
                      co_hdr_chunk := word_of_int (o_hdr_chunk obj)\<rparr>;
          let cp = yaffs2_checkpt_obj_bit_assign CHECKPOINT_VARIANT_BITS (variant_type obj) cp;
          let cp = yaffs2_checkpt_obj_bit_assign CHECKPOINT_DELETED_BITS (of_bool (o_deleted obj)) cp;
          let cp = yaffs2_checkpt_obj_bit_assign CHECKPOINT_SOFT_DEL_BITS (of_bool (o_soft_del obj)) cp;
          let cp = yaffs2_checkpt_obj_bit_assign CHECKPOINT_UNLINKED_BITS (of_bool (o_unlinked obj)) cp;
          let cp = yaffs2_checkpt_obj_bit_assign CHECKPOINT_FAKE_BITS (of_bool (o_fake obj)) cp;
          let cp = yaffs2_checkpt_obj_bit_assign CHECKPOINT_RENAME_ALLOWED_BITS (of_bool (o_rename_allowed obj)) cp;
          let cp = yaffs2_checkpt_obj_bit_assign CHECKPOINT_UNLINK_ALLOWED_BITS (of_bool (o_unlink_allowed obj)) cp;
          let cp = yaffs2_checkpt_obj_bit_assign CHECKPOINT_SERIAL_BITS (ucast (o_serial obj)) cp;
          let cp = cp\<lparr>co_n_data_chunks := word_of_int (o_n_data_chunks obj)\<rparr>;
          Some (case o_variant obj of
                  FileVar f \<Rightarrow> cp\<lparr>co_size_or_equiv_obj := word_of_int (file_size f)\<rparr>
                | HardlinkVar e i \<Rightarrow> cp\<lparr>co_size_or_equiv_obj := ucast i\<rparr>
                | _ \<Rightarrow> cp) }"

definition sized_variant :: "yaffs_obj_var \<Rightarrow> u64 \<Rightarrow> yaffs_obj_var" where
  "sized_variant v n =
     (case v of
        FileVar f \<Rightarrow> FileVar (f\<lparr>file_size := sint n, stored_size := sint n\<rparr>)
      | HardlinkVar e i \<Rightarrow> HardlinkVar e (ucast n)
      | _ \<Rightarrow> v)"

text \<open>The assignment of the type is of the one that the object has.\<close>

definition fill_checkpt_obj :: "yaffs_checkpt_obj \<Rightarrow> yaffs_obj \<Rightarrow> yaffs_obj" where
  "fill_checkpt_obj cp x =
     (let x = x\<lparr>o_deleted := yaffs2_checkpt_obj_bit_get cp CHECKPOINT_DELETED_BITS \<noteq> 0,
                o_soft_del := yaffs2_checkpt_obj_bit_get cp CHECKPOINT_SOFT_DEL_BITS \<noteq> 0,
                o_unlinked := yaffs2_checkpt_obj_bit_get cp CHECKPOINT_UNLINKED_BITS \<noteq> 0,
                o_fake := yaffs2_checkpt_obj_bit_get cp CHECKPOINT_FAKE_BITS \<noteq> 0,
                o_rename_allowed := yaffs2_checkpt_obj_bit_get cp CHECKPOINT_RENAME_ALLOWED_BITS \<noteq> 0,
                o_unlink_allowed := yaffs2_checkpt_obj_bit_get cp CHECKPOINT_UNLINK_ALLOWED_BITS \<noteq> 0,
                o_serial := ucast (yaffs2_checkpt_obj_bit_get cp CHECKPOINT_SERIAL_BITS),
                o_hdr_chunk := sint (co_hdr_chunk cp),
                o_n_data_chunks := sint (co_n_data_chunks cp),
                o_variant := sized_variant (o_variant x) (co_size_or_equiv_obj cp)\<rparr>
      in if o_hdr_chunk x > 0 then x\<lparr>o_lazy_loaded := True\<rparr> else x)"

definition yaffs2_checkpt_obj_to_obj ::
    "'n yaffs_sys \<Rightarrow> nat \<Rightarrow> yaffs_checkpt_obj \<Rightarrow> (bool \<times> 'n yaffs_sys) option" where
  "yaffs2_checkpt_obj_to_obj s a cp =
     do { x \<leftarrow> objs s a;
          if variant_type x \<noteq> yaffs2_checkpt_obj_bit_get cp CHECKPOINT_VARIANT_BITS then Some (False, s)
          else
            do { s \<leftarrow> upd_obj s a (\<lambda>x. x\<lparr>o_obj_id := co_obj_id cp\<rparr>);
                 (par, s) \<leftarrow> (if co_parent_id cp \<noteq> 0
                             then yaffs_find_or_create_by_number s (co_parent_id cp) YAFFS_OBJECT_TYPE_DIRECTORY
                             else Some (None, s));
                 case par of
                   None \<Rightarrow> do { s \<leftarrow> upd_obj s a (fill_checkpt_obj cp); Some (True, s) }
                 | Some p \<Rightarrow>
                     do { d \<leftarrow> objs s p;
                          if \<not> is_dir d then Some (False, s)
                          else do { s \<leftarrow> yaffs_add_obj_to_dir s p a;
                                    s \<leftarrow> upd_obj s a (fill_checkpt_obj cp);
                                    Some (True, s) } } } }"

section \<open>Tnodes\<close>

definition yaffs2_do_endian_tnode :: "'n yaffs_dev \<Rightarrow> u32 list \<Rightarrow> u32 list" where
  "yaffs2_do_endian_tnode dev mp =
     (if \<not> swap_endian dev then mp
      else map swap_u32 (take (nat (tnode_size dev) div 4) mp) @ drop (nat (tnode_size dev) div 4) mp)"

text \<open>
  The worker on a tnode of a level, and on the \<open>n\<close> slots of a tnode one level higher from slot \<open>i\<close>
  on.  \<open>chunk_offs\<close> is the place of the tnode among those of its level.
\<close>

function (sequential) yaffs2_checkpt_tnode_worker ::
      "'n yaffs_tags_handler \<Rightarrow> nat \<Rightarrow> yaffs_tnode option \<Rightarrow> nat \<Rightarrow> 'n yaffs_dev \<Rightarrow> (bool \<times> 'n yaffs_dev) option"
  and checkpt_slots ::
      "'n yaffs_tags_handler \<Rightarrow> nat \<Rightarrow> nat \<Rightarrow> nat \<Rightarrow> yaffs_tnode option list \<Rightarrow> nat \<Rightarrow> 'n yaffs_dev \<Rightarrow>
       (bool \<times> 'n yaffs_dev) option" where
  "yaffs2_checkpt_tnode_worker tg l None chunk_offs dev = Some (True, dev)"
| "yaffs2_checkpt_tnode_worker tg (Suc l) (Some (Tnode xs)) chunk_offs dev =
     checkpt_slots tg l YAFFS_NTNODES_INTERNAL 0 xs chunk_offs dev"
| "yaffs2_checkpt_tnode_worker tg 0 (Some (Tnode0 mp)) chunk_offs dev =
     (let base_offset = word_of_nat (chunk_offs * 2 ^ YAFFS_TNODES_LEVEL0_BITS)
      in do { (ok, dev) \<leftarrow> checkpt_put tg dev (u32_bytes (swap_if dev base_offset));
              if \<not> ok then Some (False, dev)
              else if 4 * length mp \<noteq> nat (tnode_size dev) then None
              else checkpt_put tg dev (words_bytes (yaffs2_do_endian_tnode dev mp)) })"
| "yaffs2_checkpt_tnode_worker tg l tn chunk_offs dev = None"
| "checkpt_slots tg l 0 i xs chunk_offs dev = Some (True, dev)"
| "checkpt_slots tg l (Suc n) i xs chunk_offs dev =
     (if i \<ge> length xs then None
      else case xs ! i of
        None \<Rightarrow> checkpt_slots tg l n (i + 1) xs chunk_offs dev
      | Some tn \<Rightarrow>
          do { (ok, dev) \<leftarrow> yaffs2_checkpt_tnode_worker tg l (Some tn)
                              (chunk_offs * 2 ^ YAFFS_TNODES_INTERNAL_BITS + i) dev;
               if ok then checkpt_slots tg l n (i + 1) xs chunk_offs dev else Some (False, dev) })"
  by pat_completeness auto
termination
  by (relation "measures [\<lambda>x. case x of Inl (g, l, t, c, d) \<Rightarrow> 2 * l | Inr (g, l, n, i, xs, c, d) \<Rightarrow> 2 * l + 1,
        \<lambda>x. case x of Inl y \<Rightarrow> 0 | Inr (g, l, n, i, xs, c, d) \<Rightarrow> n]") simp_all

definition yaffs2_wr_checkpt_tnodes :: "'n yaffs_tags_handler \<Rightarrow> 'n yaffs_dev \<Rightarrow> yaffs_obj \<Rightarrow> (bool \<times> 'n yaffs_dev) option" where
  "yaffs2_wr_checkpt_tnodes tg dev obj =
     (case o_variant obj of
        FileVar f \<Rightarrow>
          do { (ok, dev) \<leftarrow> yaffs2_checkpt_tnode_worker tg (top_level f) (top f) 0 dev;
               if ok then checkpt_put tg dev (u32_bytes (NOT 0)) else Some (False, dev) }
      | _ \<Rightarrow> Some (True, dev))"

text \<open>A tnode that was allocated and does not get into the tree is not freed.\<close>

partial_function (option) rd_tnodes_loop ::
    "'n yaffs_tags_handler \<Rightarrow> u32 \<Rightarrow> yaffs_file_var \<Rightarrow> 'n yaffs_dev \<Rightarrow> (bool \<times> yaffs_file_var \<times> 'n yaffs_dev) option" where
  "rd_tnodes_loop tg base_chunk fs dev =
     (if NOT base_chunk = 0 then Some (True, fs, dev)
      else
        case yaffs_get_tnode dev 0 of
          (Some (Tnode0 mp), dev) \<Rightarrow>
            do { (ok, b, dev) \<leftarrow> checkpt_get tg dev (nat (tnode_size dev));
                 let mp = bytes_words (length mp) (b @ drop (length b) (words_bytes mp));
                 let mp = yaffs2_do_endian_tnode dev mp;
                 if \<not> ok then Some (False, fs, dev)
                 else
                   do { (tn, fs, dev) \<leftarrow> yaffs_add_find_tnode_0 dev fs (unat base_chunk) (Some (Tnode0 mp));
                        if tn = None then Some (False, fs, dev)
                        else
                          do { (ok, b, dev) \<leftarrow> checkpt_get tg dev 4;
                               if \<not> ok then Some (False, fs, dev)
                               else rd_tnodes_loop tg (swap_if dev (u32_at b 0)) fs dev } } }
        | (tn, dev) \<Rightarrow> Some (False, fs, dev))"

definition yaffs2_rd_checkpt_tnodes :: "'n yaffs_sys \<Rightarrow> nat \<Rightarrow> (bool \<times> 'n yaffs_sys) option" where
  "yaffs2_rd_checkpt_tnodes s a =
     do { (ok, b, dev) \<leftarrow> checkpt_get (stg s) (sdev s) 4;
          if \<not> ok then Some (False, s\<lparr>sdev := dev\<rparr>)
          else
            do { fs \<leftarrow> get_file s a;
                 (ok, fs, dev) \<leftarrow> rd_tnodes_loop (stg s) (swap_if dev (u32_at b 0)) fs dev;
                 s \<leftarrow> set_file (s\<lparr>sdev := dev\<rparr>) a fs;
                 Some (ok, s) } }"

section \<open>All objects\<close>

definition yaffs2_do_endian_checkpt_obj :: "'n yaffs_dev \<Rightarrow> yaffs_checkpt_obj \<Rightarrow> yaffs_checkpt_obj" where
  "yaffs2_do_endian_checkpt_obj dev cp =
     (if \<not> swap_endian dev then cp
      else cp\<lparr>co_struct_type := swap_u32 (co_struct_type cp), co_obj_id := swap_u32 (co_obj_id cp),
              co_parent_id := swap_u32 (co_parent_id cp), co_hdr_chunk := swap_u32 (co_hdr_chunk cp),
              co_bit_field := swap_u32 (co_bit_field cp), co_n_data_chunks := swap_u32 (co_n_data_chunks cp),
              co_size_or_equiv_obj := swap_loff_t (co_size_or_equiv_obj cp)\<rparr>)"

text \<open>
  The loop over a bucket does not look at \<open>ok\<close>, so that the outcome is that of its last object;
  the loop over the buckets does.  One record serves for all objects.
\<close>

fun wr_bucket_loop ::
    "nat list \<Rightarrow> 'n yaffs_sys \<Rightarrow> bool \<Rightarrow> yaffs_checkpt_obj \<Rightarrow> (bool \<times> yaffs_checkpt_obj \<times> 'n yaffs_sys) option" where
  "wr_bucket_loop [] s ok cp = Some (ok, cp, s)"
| "wr_bucket_loop (a # as) s ok cp =
     do { x \<leftarrow> objs s a;
          if o_defered_free x then wr_bucket_loop as s ok cp
          else
            do { cp \<leftarrow> yaffs2_obj_checkpt_obj s cp x;
                 let cp = yaffs2_do_endian_checkpt_obj (sdev s) (cp\<lparr>co_struct_type := 32\<rparr>);
                 (ok, dev) \<leftarrow> checkpt_put (stg s) (sdev s) (co_bytes cp);
                 (ok, dev) \<leftarrow> (if ok \<and> is_file x then yaffs2_wr_checkpt_tnodes (stg s) dev x else Some (ok, dev));
                 wr_bucket_loop as (s\<lparr>sdev := dev\<rparr>) ok cp } }"

fun wr_buckets_loop ::
    "nat list list \<Rightarrow> 'n yaffs_sys \<Rightarrow> bool \<Rightarrow> yaffs_checkpt_obj \<Rightarrow> (bool \<times> 'n yaffs_sys) option" where
  "wr_buckets_loop [] s ok cp = Some (ok, s)"
| "wr_buckets_loop (b # bs) s ok cp =
     (if \<not> ok then Some (ok, s)
      else do { (ok, cp, s) \<leftarrow> wr_bucket_loop b s ok cp; wr_buckets_loop bs s ok cp })"

definition end_checkpt_obj :: yaffs_checkpt_obj where
  "end_checkpt_obj = \<lparr>co_struct_type = 32, co_obj_id = NOT 0, co_parent_id = NOT 0, co_hdr_chunk = NOT 0,
     co_bit_field = NOT 0, co_n_data_chunks = NOT 0, co_size_or_equiv_obj = NOT 0\<rparr>"

definition yaffs2_wr_checkpt_objs :: "'n yaffs_sys \<Rightarrow> yaffs_checkpt_obj \<Rightarrow> (bool \<times> 'n yaffs_sys) option" where
  "yaffs2_wr_checkpt_objs s stack_cp =
     do { (ok, s) \<leftarrow> wr_buckets_loop (obj_bucket s) s True stack_cp;
          if \<not> ok then Some (False, s)
          else do { (ok, dev) \<leftarrow> checkpt_put (stg s) (sdev s)
                                   (co_bytes (yaffs2_do_endian_checkpt_obj (sdev s) end_checkpt_obj));
                    Some (ok, s\<lparr>sdev := dev\<rparr>) } }"

text \<open>
  The loop ends with the record of the end, with a failure, or not at all.  An object that
  comes a second time as a hard link would be put on a list it is on already: None.
\<close>

partial_function (option) rd_objs_loop ::
    "'n yaffs_sys \<Rightarrow> nat list \<Rightarrow> (bool \<times> nat list \<times> 'n yaffs_sys) option" where
  "rd_objs_loop s hard_list =
     do { (ok, b, dev) \<leftarrow> checkpt_get (stg s) (sdev s) 32;
          let cp = yaffs2_do_endian_checkpt_obj dev (bytes_co b);
          let s = s\<lparr>sdev := dev\<rparr>;
          if \<not> ok \<or> co_struct_type cp \<noteq> 32 then Some (False, hard_list, s)
          else if co_obj_id cp = NOT 0 then Some (True, hard_list, s)
          else
            do { (o', s) \<leftarrow> yaffs_find_or_create_by_number s (co_obj_id cp)
                              (yaffs2_checkpt_obj_bit_get cp CHECKPOINT_VARIANT_BITS);
                 case o' of None \<Rightarrow> Some (False, hard_list, s)
                 | Some a \<Rightarrow>
                     do { (ok, s) \<leftarrow> yaffs2_checkpt_obj_to_obj s a cp;
                          if \<not> ok then Some (False, hard_list, s)
                          else
                            do { x \<leftarrow> objs s a;
                                 case o_variant x of
                                   FileVar f \<Rightarrow>
                                     do { (ok, s) \<leftarrow> yaffs2_rd_checkpt_tnodes s a;
                                          if ok then rd_objs_loop s hard_list else Some (False, hard_list, s) }
                                 | HardlinkVar e i \<Rightarrow>
                                     if a \<in> set hard_list then None else rd_objs_loop s (a # hard_list)
                                 | _ \<Rightarrow> rd_objs_loop s hard_list } } } }"

definition yaffs2_rd_checkpt_objs :: "'n yaffs_sys \<Rightarrow> (bool \<times> 'n yaffs_sys) option" where
  "yaffs2_rd_checkpt_objs s =
     do { (ok, hard_list, s) \<leftarrow> rd_objs_loop s [];
          if ok then do { s \<leftarrow> yaffs_link_fixup hard_list s; Some (True, s) } else Some (False, s) }"

section \<open>The checkpoint\<close>

definition yaffs2_wr_checkpt_sum :: "'n yaffs_tags_handler \<Rightarrow> 'n yaffs_dev \<Rightarrow> (bool \<times> 'n yaffs_dev) option" where
  "yaffs2_wr_checkpt_sum tg dev = checkpt_put tg dev (u32_bytes (swap_if dev (yaffs2_get_checkpt_sum dev)))"

definition yaffs2_rd_checkpt_sum :: "'n yaffs_tags_handler \<Rightarrow> 'n yaffs_dev \<Rightarrow> (bool \<times> 'n yaffs_dev) option" where
  "yaffs2_rd_checkpt_sum tg dev =
     (let checkpt_sum0 = yaffs2_get_checkpt_sum dev
      in do { (ok, b, dev) \<leftarrow> checkpt_get tg dev 4;
              Some (ok \<and> checkpt_sum0 = swap_if dev (u32_at b 0), dev) })"

text \<open>\<open>new_buffer\<close> and \<open>list_ok\<close> are the allocations of \<^verbatim>\<open>yaffs2_checkpt_open\<close>, \<open>stack_cp\<close> the record on the stack.\<close>

definition when_ok ::
    "bool \<Rightarrow> ('n yaffs_dev \<Rightarrow> (bool \<times> 'n yaffs_dev) option) \<Rightarrow> 'n yaffs_sys \<Rightarrow> (bool \<times> 'n yaffs_sys) option" where
  "when_ok ok f s =
     (if ok then do { (ok, dev) \<leftarrow> f (sdev s); Some (ok, s\<lparr>sdev := dev\<rparr>) } else Some (False, s))"

definition open_for :: "u8 list option \<Rightarrow> bool \<Rightarrow> bool \<Rightarrow> 'n yaffs_driver \<Rightarrow> 'n yaffs_dev \<Rightarrow> (bool \<times> 'n yaffs_dev) option" where
  "open_for new_buffer list_ok writing drv dev =
     do { (r, dev) \<leftarrow> yaffs2_checkpt_open drv new_buffer list_ok dev writing; Some (r \<noteq> 0, dev) }"

definition close_checkpt :: "bool \<Rightarrow> 'n yaffs_sys \<Rightarrow> (bool \<times> 'n yaffs_sys) option" where
  "close_checkpt ok s =
     do { (r, dev) \<leftarrow> yaffs_checkpt_close (stg s) (sdev s);
          let ok = (ok \<and> r \<noteq> 0);
          Some (ok, s\<lparr>sdev := dev\<lparr>is_checkpointed := ok\<rparr>\<rparr>) }"

definition yaffs2_wr_checkpt_data ::
    "u8 list option \<Rightarrow> yaffs_checkpt_obj \<Rightarrow> 'n yaffs_sys \<Rightarrow> (bool \<times> 'n yaffs_sys) option" where
  "yaffs2_wr_checkpt_data new_buffer stack_cp s =
     do { let ok = yaffs2_checkpt_required (sdev s);
          (ok, s) \<leftarrow> when_ok ok (open_for new_buffer True True (sdrv s)) s;
          (ok, s) \<leftarrow> when_ok ok (\<lambda>d. yaffs2_wr_checkpt_validity_marker (stg s) d True) s;
          (ok, s) \<leftarrow> when_ok ok (yaffs2_wr_checkpt_dev (stg s)) s;
          (ok, s) \<leftarrow> (if ok then yaffs2_wr_checkpt_objs s stack_cp else Some (False, s));
          (ok, s) \<leftarrow> when_ok ok (\<lambda>d. yaffs2_wr_checkpt_validity_marker (stg s) d False) s;
          (ok, s) \<leftarrow> when_ok ok (yaffs2_wr_checkpt_sum (stg s)) s;
          close_checkpt ok s }"

definition yaffs2_rd_checkpt_data :: "u8 list option \<Rightarrow> bool \<Rightarrow> 'n yaffs_sys \<Rightarrow> (bool \<times> 'n yaffs_sys) option" where
  "yaffs2_rd_checkpt_data new_buffer list_ok s =
     do { let ok = (is_yaffs2 (param (sdev s)) \<and> \<not> skip_checkpt_rd (param (sdev s)));
          (ok, s) \<leftarrow> when_ok ok (open_for new_buffer list_ok False (sdrv s)) s;
          (ok, s) \<leftarrow> when_ok ok (\<lambda>d. yaffs2_rd_checkpt_validity_marker (stg s) d True) s;
          (ok, s) \<leftarrow> when_ok ok (yaffs2_rd_checkpt_dev (stg s)) s;
          (ok, s) \<leftarrow> (if ok then yaffs2_rd_checkpt_objs s else Some (False, s));
          (ok, s) \<leftarrow> when_ok ok (\<lambda>d. yaffs2_rd_checkpt_validity_marker (stg s) d False) s;
          (ok, s) \<leftarrow> when_ok ok (yaffs2_rd_checkpt_sum (stg s)) s;
          close_checkpt ok s }"

definition yaffs_checkpoint_save ::
    "u8 list option \<Rightarrow> yaffs_checkpt_obj \<Rightarrow> 'n yaffs_sys \<Rightarrow> (bool \<times> 'n yaffs_sys) option" where
  "yaffs_checkpoint_save new_buffer stack_cp s =
     do { s \<leftarrow> (if \<not> is_checkpointed (sdev s)
                then do { s \<leftarrow> run_dev (yaffs2_checkpt_invalidate (sdrv s)) s;
                          (r, s) \<leftarrow> yaffs2_wr_checkpt_data new_buffer stack_cp s; Some s }
                else Some s);
          Some (is_checkpointed (sdev s), s) }"

definition yaffs2_checkpt_restore :: "u8 list option \<Rightarrow> bool \<Rightarrow> 'n yaffs_sys \<Rightarrow> (bool \<times> 'n yaffs_sys) option" where
  "yaffs2_checkpt_restore new_buffer list_ok s = yaffs2_rd_checkpt_data new_buffer list_ok s"

end
