(* ===== verification/Yaffs_Checkpt_Stream.thy ===== *)
theory Yaffs_Checkpt_Stream
  imports Yaffs_Checkpt Yaffs_Block_Inv Yaffs_TagsMarshall
begin

text \<open>
  What is written to a checkpoint stream is what a later mount reads from it.  \<open>stream_page\<close>
  says what the \<open>k\<close>-th chunk of the stream of the bytes \<open>ds\<close> holds; \<open>writing\<close> and
  \<open>reading\<close> are the invariants of the two loops over bytes.
\<close>

section \<open>Headers and checksums\<close>

definition byte_xor :: "u8 list \<Rightarrow> u32" where
  "byte_xor bs = fold (\<lambda>b s. s XOR ucast b) bs 0"

lemma byte_sum_snoc [simp]: "byte_sum (bs @ [b]) = byte_sum bs + ucast b"
  by (simp add: byte_sum_def)

lemma byte_xor_snoc [simp]: "byte_xor (bs @ [b]) = byte_xor bs XOR ucast b"
  by (simp add: byte_xor_def)

lemma byte_sum_Nil [simp]: "byte_sum [] = 0" and byte_xor_Nil [simp]: "byte_xor [] = 0"
  by (simp_all add: byte_sum_def byte_xor_def)

lemma bytes_ch_bytes [simp]: "bytes_ch (ch_bytes h) = h"
  by (simp add: bytes_ch_def ch_bytes_def u32_at_def u32_bytes_def nth_append)

lemma length_ch_bytes [simp]: "length (ch_bytes h) = CHECKPT_HDR_SIZE"
  by (simp add: ch_bytes_def CHECKPT_HDR_SIZE_def)

lemma do_endian_hdr_twice [simp]: "yaffs2_do_endian_hdr swap (yaffs2_do_endian_hdr swap h) = h"
  by (simp add: yaffs2_do_endian_hdr_def)

definition stream_hdr :: "bool \<Rightarrow> nat \<Rightarrow> u8 list \<Rightarrow> u8 list" where
  "stream_hdr swap k ds = ch_bytes (yaffs2_do_endian_hdr swap
     \<lparr>ch_version = YAFFS_CHECKPOINT_VERSION, ch_seq = word_of_nat k, ch_sum = byte_sum ds, ch_xor = byte_xor ds\<rparr>)"

lemma length_stream_hdr [simp]: "length (stream_hdr swap k ds) = CHECKPT_HDR_SIZE"
  by (simp add: stream_hdr_def)

lemma init_chunk_hdr_stream:
  assumes "checkpt_buffer dev = Some b" and "CHECKPT_HDR_SIZE \<le> length b"
    and "checkpt_page_seq dev = int k" and "checkpt_sum dev = byte_sum ds" and "checkpt_xor dev = byte_xor ds"
  shows "yaffs2_checkpt_init_chunk_hdr dev = Some (dev\<lparr>checkpt_byte_offs := int CHECKPT_HDR_SIZE,
     checkpt_buffer := Some (stream_hdr (swap_endian dev) k ds @ drop CHECKPT_HDR_SIZE b)\<rparr>)"
  using assms by (simp add: yaffs2_checkpt_init_chunk_hdr_def stream_hdr_def buf_write_def Let_def)

lemma check_chunk_hdr_stream:
  assumes "checkpt_buffer dev = Some b" and "take CHECKPT_HDR_SIZE b = stream_hdr (swap_endian dev) k ds"
    and "checkpt_page_seq dev = int k" and "checkpt_sum dev = byte_sum ds" and "checkpt_xor dev = byte_xor ds"
  shows "yaffs2_checkpt_check_chunk_hdr dev = Some (True, dev\<lparr>checkpt_byte_offs := int CHECKPT_HDR_SIZE\<rparr>)"
proof -
  have "CHECKPT_HDR_SIZE \<le> length b"
    using arg_cong [OF assms(2), of length] by simp
  then show ?thesis
    using assms by (simp add: yaffs2_checkpt_check_chunk_hdr_def buf_read_def stream_hdr_def Let_def)
qed

section \<open>The chunks of the stream\<close>

text \<open>
  The stream fills the blocks of the list \<open>E\<close>, the empty ones in ascending order.  \<open>stream_next\<close> is
  where the search for the block of chunk \<open>k\<close> starts when one has to be found, and
  \<open>stream_used\<close> the number of blocks that \<open>k\<close> chunks touch.
\<close>

definition empties :: "'n yaffs_dev \<Rightarrow> int list" where
  "empties dev = filter (\<lambda>b. block_state (bi_of dev b) = YAFFS_BLOCK_STATE_EMPTY)
     [internal_start_block dev..internal_end_block dev]"

definition stream_chunk :: "int \<Rightarrow> int \<Rightarrow> int list \<Rightarrow> nat \<Rightarrow> int" where
  "stream_chunk off cpb E k = E ! (k div nat cpb) * cpb + int (k mod nat cpb) - off"

definition stream_used :: "int \<Rightarrow> nat \<Rightarrow> nat" where
  "stream_used cpb k = (if k mod nat cpb = 0 then k div nat cpb else k div nat cpb + 1)"

definition stream_pos :: "int \<Rightarrow> int list \<Rightarrow> nat \<Rightarrow> 'n yaffs_dev \<Rightarrow> bool" where
  "stream_pos cpb E k dev \<longleftrightarrow>
     (if k mod nat cpb = 0
      then checkpt_cur_block dev = -1 \<and>
           checkpt_next_block dev = (if k = 0 then internal_start_block dev else E ! (k div nat cpb - 1) + 1)
      else checkpt_cur_block dev = E ! (k div nat cpb) \<and> checkpt_cur_chunk dev = int (k mod nat cpb) \<and>
           checkpt_next_block dev = E ! (k div nat cpb) + 1)"

definition stream_page ::
    "('n \<Rightarrow> int \<Rightarrow> u8 list \<times> yaffs_ext_tags) \<Rightarrow> bool \<Rightarrow> nat \<Rightarrow> int \<Rightarrow> int \<Rightarrow> int list \<Rightarrow> 'n \<Rightarrow> u8 list \<Rightarrow> nat \<Rightarrow> bool" where
  "stream_page content swap D off cpb E fl ds k \<longleftrightarrow>
     (let p = D - CHECKPT_HDR_SIZE; (d, t) = content fl (stream_chunk off cpb E k) in
      (\<exists>rest. take D d = stream_hdr swap k (take (k * p) ds) @ take p (drop (k * p) ds) @ rest) \<and>
      chunk_id t = word_of_nat (Suc k) \<and> seq_number t = YAFFS_SEQUENCE_CHECKPOINT_DATA \<and>
      ecc_result t \<le> YAFFS_ECC_RESULT_NO_ERROR \<and> obj_id t = word_of_int (E ! (k div nat cpb) + 1))"

definition stream_geom :: "nat \<Rightarrow> nat \<Rightarrow> int \<Rightarrow> 'n yaffs_dev \<Rightarrow> bool" where
  "stream_geom D tb cpb dev \<longleftrightarrow> data_bytes_per_chunk dev = D \<and> CHECKPT_HDR_SIZE < D \<and> D \<le> tb \<and>
     chunks_per_block (param dev) = cpb \<and> 0 < cpb \<and> chunk_offset dev = block_offset dev * cpb \<and>
     table_wf dev \<and> 0 \<le> internal_start_block dev \<and> (internal_end_block dev + 1) * cpb < 2 ^ 31"

lemma stream_used_Suc: "0 < cpb \<Longrightarrow> stream_used cpb (Suc k) = Suc (k div nat cpb)"
  by (auto simp: stream_used_def div_Suc mod_Suc)

lemma stream_used_0 [simp]: "stream_used cpb 0 = 0"
  by (simp add: stream_used_def)

lemma stream_pos_Suc:
  assumes "0 < cpb"
  shows "stream_pos cpb E (Suc k) dev \<longleftrightarrow> checkpt_next_block dev = E ! (k div nat cpb) + 1 \<and>
    (if Suc (k mod nat cpb) = nat cpb then checkpt_cur_block dev = -1
     else checkpt_cur_block dev = E ! (k div nat cpb) \<and> checkpt_cur_chunk dev = int (Suc (k mod nat cpb)))"
  using assms by (auto simp: stream_pos_def mod_Suc div_Suc)

lemma empties_sorted: "sorted_wrt (<) (empties dev)"
  unfolding empties_def by (rule sorted_wrt_filter) simp

lemma empties_iff:
  "b \<in> set (empties dev) \<longleftrightarrow> blk_valid dev b \<and> block_state (bi_of dev b) = YAFFS_BLOCK_STATE_EMPTY"
  by (auto simp: empties_def blk_valid_def)

text \<open>Between two neighbours in the list there is no member of it.\<close>

lemma between_not_member:
  assumes E: "sorted_wrt (<) E" and j: "j < length E" and b: "b < E ! j" and n: "0 < j \<Longrightarrow> E ! (j - 1) < (b :: int)"
  shows "b \<notin> set E"
proof
  assume "b \<in> set E"
  then obtain m where m: "m < length E" "b = E ! m" by (auto simp: in_set_conv_nth)
  have "m < j"
  proof (rule ccontr)
    assume "\<not> m < j"
    then show False using b m sorted_wrt_nth_less [OF E, of j m] by (cases "m = j") auto
  qed
  then have le: "m \<le> j - 1" "0 < j" "j - 1 < length E" using j by auto
  then have "E ! m \<le> E ! (j - 1)"
    using sorted_wrt_nth_less [OF E, of m "j - 1"] by (cases "m = j - 1") auto
  then show False using n le(2) m(2) by simp
qed

lemma take_member_less:
  assumes E: "sorted_wrt (<) E" and j: "j < length E" and m: "n \<le> j"
  shows "(E ! j :: int) \<notin> set (take n E)"
proof
  assume "E ! j \<in> set (take n E)"
  then obtain i where "i < n" "E ! i = E ! j" using j m by (auto simp: in_set_conv_nth)
  then show False using sorted_wrt_nth_less [OF E, of i j] j m by auto
qed

lemma stream_page_append:
  assumes "Suc k * (D - CHECKPT_HDR_SIZE) \<le> length ds"
  shows "stream_page content swap D off cpb E fl (ds @ xs) k = stream_page content swap D off cpb E fl ds k"
  using assms by (simp add: stream_page_def)

section \<open>Finding the blocks\<close>

lemma find_erased_finds:
  assumes "table_wf dev" and "\<And>b. i \<le> b \<Longrightarrow> b \<le> e \<Longrightarrow> blk_valid dev b"
    and "\<And>b. i \<le> b \<Longrightarrow> b < e \<Longrightarrow> block_state (bi_of dev b) \<noteq> YAFFS_BLOCK_STATE_EMPTY"
    and "block_state (bi_of dev e) = YAFFS_BLOCK_STATE_EMPTY" and "i \<le> e" and "e < i + int n"
  shows "find_erased_loop n i dev = Some (Some e)"
  using assms(2-6)
proof (induction n arbitrary: i)
  case (Suc n)
  have g: "yaffs_get_block_info dev i = Some (bi_of dev i)"
    using Suc.prems(1) [of i] Suc.prems(4) by (simp add: get_block_info_valid [OF assms(1)])
  show ?case
  proof (cases "i = e")
    case True
    then show ?thesis using g Suc.prems(3) by simp
  next
    case False
    then have "block_state (bi_of dev i) \<noteq> YAFFS_BLOCK_STATE_EMPTY" using Suc.prems(2,4) by simp
    moreover have "find_erased_loop n (i + 1) dev = Some (Some e)"
      using Suc.prems False by (intro Suc.IH) auto
    ultimately show ?thesis using g by simp
  qed
qed simp

text \<open>The same for the search on the flash; a read leaves what the flash holds as it is.\<close>

context stream_store
begin

abbreviation "same_content n n' \<equiv> content n' = content n \<and> usable n' = usable n"

lemma find_checkpt_finds:
  assumes cpb: "chunks_per_block (param dev) = cpb" and off: "chunk_offset dev = block_offset dev * cpb"
    and list: "checkpt_block_list dev = Some l" "0 \<le> blocks_in_checkpt dev" "blocks_in_checkpt dev < int (length l)"
    and before: "\<And>b. i \<le> b \<Longrightarrow> b < e \<Longrightarrow> usable (flash dev) (b * cpb - chunk_offset dev) \<and>
       seq_number (snd (content (flash dev) (b * cpb - chunk_offset dev))) \<noteq> YAFFS_SEQUENCE_CHECKPOINT_DATA"
    and here: "usable (flash dev) (e * cpb - chunk_offset dev)"
       "seq_number (snd (content (flash dev) (e * cpb - chunk_offset dev))) = YAFFS_SEQUENCE_CHECKPOINT_DATA"
    and n: "i \<le> e" "e < i + int n"
  shows "\<exists>fl. find_checkpt_loop tg n i tags dev = Some (True, dev\<lparr>flash := fl,
      checkpt_next_block := sint (obj_id (snd (content (flash dev) (e * cpb - chunk_offset dev)))),
      checkpt_cur_block := e, checkpt_block_list := Some (l[nat (blocks_in_checkpt dev) := e]),
      blocks_in_checkpt := blocks_in_checkpt dev + 1\<rparr>) \<and> same_content (flash dev) fl"
  using assms
proof (induction n arbitrary: i tags dev)
  case (Suc n)
  have u: "usable (flash dev) (i * cpb - chunk_offset dev)"
    using Suc.prems(6) [of i] Suc.prems(7,9) by (cases "i = e") auto
  obtain fl1 where r: "read_chunk_tags_fn tg (flash dev) (i * cpb - chunk_offset dev) None (Some tags) =
      Some (YAFFS_OK, None, Some (snd (content (flash dev) (i * cpb - chunk_offset dev))), fl1)"
      "content fl1 = content (flash dev)" "usable fl1 = usable (flash dev)"
    using read_tags [OF u] by blast
  have off: "apply_chunk_offset dev (i * chunks_per_block (param dev)) = i * cpb - chunk_offset dev"
    by (simp add: apply_chunk_offset_def Suc.prems(1))
  show ?case
  proof (cases "i = e")
    case True
    have bo: "(i - block_offset dev) * cpb = i * cpb - chunk_offset dev"
      by (simp add: Suc.prems(2) left_diff_distrib)
    have "usable fl1 ((i - block_offset dev) * cpb)" using u r(3) bo by simp
    then obtain x st sq fl2 where q: "query_block_fn tg fl1 (i - block_offset dev) = Some (x, st, sq, fl2)"
        "st \<noteq> YAFFS_BLOCK_STATE_DEAD" "content fl2 = content fl1" "usable fl2 = usable fl1"
      using query_usable by blast
    show ?thesis
      using True Suc.prems(3-5,8) r q off
      by (intro exI [of _ fl2]) (simp add: apply_block_offset_def)
  next
    case False
    then have s: "seq_number (snd (content (flash dev) (i * cpb - chunk_offset dev))) \<noteq> YAFFS_SEQUENCE_CHECKPOINT_DATA"
      and lt: "i + 1 \<le> e" using Suc.prems(6) [of i] Suc.prems(9) by auto
    have "\<exists>fl. find_checkpt_loop tg n (i + 1) (snd (content (flash dev) (i * cpb - chunk_offset dev))) (dev\<lparr>flash := fl1\<rparr>) =
        Some (True, dev\<lparr>flash := fl1\<rparr>\<lparr>flash := fl,
          checkpt_next_block := sint (obj_id (snd (content (flash (dev\<lparr>flash := fl1\<rparr>)) (e * cpb - chunk_offset (dev\<lparr>flash := fl1\<rparr>))))),
          checkpt_cur_block := e, checkpt_block_list := Some (l[nat (blocks_in_checkpt (dev\<lparr>flash := fl1\<rparr>)) := e]),
          blocks_in_checkpt := blocks_in_checkpt (dev\<lparr>flash := fl1\<rparr>) + 1\<rparr>) \<and> same_content (flash (dev\<lparr>flash := fl1\<rparr>)) fl"
      using Suc.prems r(2,3) lt False by (intro Suc.IH) auto
    then show ?thesis using r off s by auto
  qed
qed simp

end

section \<open>Writing\<close>

text \<open>
  \<open>k\<close> chunks of the stream of \<open>ds\<close> are on the flash; the device began as \<open>dev0\<close>.  Blocks that the
  stream has not reached are as they were.
\<close>

definition stream_written ::
    "('n \<Rightarrow> int \<Rightarrow> u8 list \<times> yaffs_ext_tags) \<Rightarrow> ('n \<Rightarrow> int \<Rightarrow> bool) \<Rightarrow> nat \<Rightarrow> nat \<Rightarrow> int \<Rightarrow>
     'n yaffs_dev \<Rightarrow> 'n yaffs_dev \<Rightarrow> u8 list \<Rightarrow> nat \<Rightarrow> bool" where
  "stream_written content usable D tb cpb dev0 dev ds k \<longleftrightarrow>
     stream_geom D tb cpb dev \<and> internal_start_block dev = internal_start_block dev0 \<and>
     internal_end_block dev = internal_end_block dev0 \<and> chunk_offset dev = chunk_offset dev0 \<and>
     swap_endian dev = swap_endian dev0 \<and>
     n_erased_blocks dev > n_reserved_blocks (param dev) \<and> checkpt_open_write dev \<and>
     checkpt_page_seq dev = int k \<and> stream_pos cpb (empties dev0) k dev \<and>
     blocks_in_checkpt dev = int (stream_used cpb k) \<and>
     (\<forall>b. blk_valid dev0 b \<longrightarrow> block_state (bi_of dev b) =
        (if b \<in> set (take (stream_used cpb k) (empties dev0)) then YAFFS_BLOCK_STATE_CHECKPOINT
         else block_state (bi_of dev0 b))) \<and>
     usable (flash dev) = usable (flash dev0) \<and>
     (\<forall>j < k. stream_page content (swap_endian dev0) D (chunk_offset dev0) cpb (empties dev0) (flash dev) ds j) \<and>
     (\<forall>b. b \<notin> set (take (stream_used cpb k) (empties dev0)) \<longrightarrow> usable (flash dev0) (b * cpb - chunk_offset dev0) \<longrightarrow>
        content (flash dev) (b * cpb - chunk_offset dev0) = content (flash dev0) (b * cpb - chunk_offset dev0))"

text \<open>The buffer: the header of chunk \<open>k\<close> and the bytes after the \<open>k\<close> chunks.\<close>

definition stream_buffer :: "nat \<Rightarrow> nat \<Rightarrow> 'n yaffs_dev \<Rightarrow> u8 list \<Rightarrow> nat \<Rightarrow> bool" where
  "stream_buffer D tb dev ds k \<longleftrightarrow> (let p = D - CHECKPT_HDR_SIZE in
     k * p \<le> length ds \<and> length ds \<le> Suc k * p \<and>
     checkpt_byte_offs dev = int (CHECKPT_HDR_SIZE + (length ds - k * p)) \<and>
     checkpt_sum dev = byte_sum ds \<and> checkpt_xor dev = byte_xor ds \<and>
     (\<exists>rest. checkpt_buffer dev = Some (stream_hdr (swap_endian dev) k (take (k * p) ds) @ drop (k * p) ds @ rest) \<and>
        CHECKPT_HDR_SIZE + (length ds - k * p) + length rest = tb))"

lemma put_byte_at:
  assumes "checkpt_buffer dev = Some (h @ a @ y # rest)" and "checkpt_byte_offs dev = int (length h + length a)"
  shows "checkpt_put_byte x dev = Some (dev\<lparr>checkpt_buffer := Some (h @ (a @ [x]) @ rest),
     checkpt_sum := checkpt_sum dev + ucast x, checkpt_xor := checkpt_xor dev XOR ucast x,
     checkpt_byte_offs := checkpt_byte_offs dev + 1, checkpt_byte_count := checkpt_byte_count dev + 1\<rparr>)"
proof -
  have "(h @ a @ y # rest)[length h + length a := x] = h @ (a @ [x]) @ rest"
    by (simp add: list_update_append)
  then show ?thesis using assms by (simp add: checkpt_put_byte_def nat_int_add del: append_assoc)
qed

lemma put_byte_stream:
  assumes g: "stream_geom D tb cpb dev" and b: "stream_buffer D tb dev ds k"
    and n: "length ds < Suc k * (D - CHECKPT_HDR_SIZE)"
  shows "\<exists>dev'. checkpt_put_byte x dev = Some dev' \<and> stream_buffer D tb dev' (ds @ [x]) k \<and>
    (\<exists>buf o1 o2 o3 o4. dev' = dev\<lparr>checkpt_buffer := buf, checkpt_sum := o1, checkpt_xor := o2, checkpt_byte_offs := o3,
       checkpt_byte_count := o4\<rparr>)"
proof -
  define p where "p = D - CHECKPT_HDR_SIZE"
  define h where "h = stream_hdr (swap_endian dev) k (take (k * p) ds)"
  define a where "a = drop (k * p) ds"
  obtain rest where r: "checkpt_buffer dev = Some (h @ a @ rest)"
      "CHECKPT_HDR_SIZE + (length ds - k * p) + length rest = tb" "k * p \<le> length ds"
      "checkpt_byte_offs dev = int (CHECKPT_HDR_SIZE + (length ds - k * p))"
      "checkpt_sum dev = byte_sum ds" "checkpt_xor dev = byte_xor ds"
    using b by (auto simp: stream_buffer_def Let_def p_def h_def a_def)
  have la: "length a = length ds - k * p" "length h = CHECKPT_HDR_SIZE" by (simp_all add: a_def h_def)
  have "CHECKPT_HDR_SIZE + (length ds - k * p) < tb" using n g r(3) by (auto simp: stream_geom_def p_def)
  then obtain y rest' where rest: "rest = y # rest'" using r(2) by (cases rest) auto
  have o: "checkpt_byte_offs dev = int (length h + length a)" using r(4) la by simp
  let ?dev = "dev\<lparr>checkpt_buffer := Some (h @ (a @ [x]) @ rest'), checkpt_sum := checkpt_sum dev + ucast x,
     checkpt_xor := checkpt_xor dev XOR ucast x, checkpt_byte_offs := checkpt_byte_offs dev + 1,
     checkpt_byte_count := checkpt_byte_count dev + 1\<rparr>"
  have put: "checkpt_put_byte x dev = Some ?dev"
    using put_byte_at [OF r(1) [unfolded rest] o] .
  have d: "drop (k * p) (ds @ [x]) = a @ [x]" "take (k * p) (ds @ [x]) = take (k * p) ds"
    using r(3) by (simp_all add: a_def)
  have "stream_buffer D tb ?dev (ds @ [x]) k"
    unfolding stream_buffer_def Let_def p_def [symmetric] d
    using r(2-6) n rest by (auto simp: h_def p_def)
  then show ?thesis using put by blast
qed

text \<open>Where the chunks are.\<close>

lemma chunk_split:
  fixes b :: int
  assumes "b * cpb + r = b' * cpb + r'" and "0 \<le> r" "r < cpb" "0 \<le> r'" "r' < cpb"
  shows "b = b' \<and> r = r'"
proof -
  have "(b * cpb + r) div cpb = b" "(b' * cpb + r') div cpb = b'" using assms(2-5) by auto
  then have "b = b'" using assms(1) by simp
  then show ?thesis using assms(1) by simp
qed

lemma stream_chunk_inj:
  assumes E: "sorted_wrt (<) E" and cpb: "0 < cpb" and k: "k < nat cpb * length E" "j < nat cpb * length E"
    and eq: "stream_chunk off cpb E k = stream_chunk off cpb E j"
  shows "k = j"
proof -
  have d: "k div nat cpb < length E" "j div nat cpb < length E"
    using k by (simp_all add: less_mult_imp_div_less mult.commute)
  have m: "int (k mod nat cpb) < cpb" "int (j mod nat cpb) < cpb"
    using cpb by (simp_all add: zmod_int)
  have s: "E ! (k div nat cpb) = E ! (j div nat cpb)" "int (k mod nat cpb) = int (j mod nat cpb)"
    using chunk_split [OF _ _ m(1) _ m(2)] eq by (auto simp: stream_chunk_def)
  have "k div nat cpb = j div nat cpb"
  proof (rule ccontr)
    assume "k div nat cpb \<noteq> j div nat cpb"
    then show False using d s(1) sorted_wrt_nth_less [OF E] by (metis less_irrefl nat_neq_iff)
  qed
  then show ?thesis using s(2) by (metis div_mult_mod_eq of_nat_eq_iff)
qed

text \<open>The first part of a flush: the place for chunk \<open>k\<close>.\<close>

definition stream_place :: "int \<Rightarrow> 'n yaffs_dev \<Rightarrow> 'n yaffs_dev \<Rightarrow> 'n yaffs_dev \<Rightarrow> nat \<Rightarrow> bool" where
  "stream_place cpb dev0 dev dev' k \<longleftrightarrow>
     (\<exists>bs. dev' = dev\<lparr>block_info := bs, checkpt_cur_block := empties dev0 ! (k div nat cpb),
        checkpt_cur_chunk := int (k mod nat cpb), checkpt_next_block := empties dev0 ! (k div nat cpb) + 1,
        blocks_in_checkpt := int (Suc (k div nat cpb))\<rparr>) \<and> table_wf dev' \<and>
     (\<forall>b. blk_valid dev0 b \<longrightarrow> block_state (bi_of dev' b) =
        (if b \<in> set (take (Suc (k div nat cpb)) (empties dev0)) then YAFFS_BLOCK_STATE_CHECKPOINT
         else block_state (bi_of dev0 b)))"

lemma next_not_after:
  assumes "j < length (empties dev)"
  shows "(if j = 0 then internal_start_block dev else empties dev ! (j - 1) + 1) \<le> empties dev ! j"
    "blk_valid dev (empties dev ! j)"
proof -
  show v: "blk_valid dev (empties dev ! j)" using assms empties_iff [of "empties dev ! j" dev] by simp
  show "(if j = 0 then internal_start_block dev else empties dev ! (j - 1) + 1) \<le> empties dev ! j"
    using v sorted_wrt_nth_less [OF empties_sorted [of dev], of "j - 1" j] assms by (auto simp: blk_valid_def)
qed

lemma find_erased_stream:
  assumes w: "stream_written content usable D tb cpb dev0 dev ds k" and k: "k < nat cpb * length (empties dev0)"
    and m: "k mod nat cpb = 0"
  shows "yaffs2_checkpt_find_erased_block dev = Some (dev\<lparr>
    checkpt_next_block := empties dev0 ! (k div nat cpb) + 1, checkpt_cur_block := empties dev0 ! (k div nat cpb)\<rparr>)"
proof -
  let ?E = "empties dev0"
  let ?j = "k div nat cpb"
  let ?e = "?E ! ?j"
  have j: "?j < length ?E" using k by (simp add: less_mult_imp_div_less mult.commute)
  have g: "stream_geom D tb cpb dev" and r: "internal_start_block dev = internal_start_block dev0"
      "internal_end_block dev = internal_end_block dev0"
    and av: "n_erased_blocks dev > n_reserved_blocks (param dev)" and pos: "stream_pos cpb ?E k dev"
    and st: "\<And>b. blk_valid dev0 b \<Longrightarrow> block_state (bi_of dev b) =
       (if b \<in> set (take (stream_used cpb k) ?E) then YAFFS_BLOCK_STATE_CHECKPOINT else block_state (bi_of dev0 b))"
    using w by (auto simp: stream_written_def)
  have u: "stream_used cpb k = ?j" using m by (simp add: stream_used_def)
  have v: "blk_valid dev b = blk_valid dev0 b" for b using r by (simp add: blk_valid_def)
  have kj: "k = 0 \<longleftrightarrow> ?j = 0" using m g by (auto simp: stream_geom_def)
  have nx: "checkpt_next_block dev = (if ?j = 0 then internal_start_block dev0 else ?E ! (?j - 1) + 1)"
    using pos m kj r by (simp add: stream_pos_def)
  note na = next_not_after [OF j]
  have le: "checkpt_next_block dev \<le> ?e" using na(1) nx by simp
  have pre: "?E ! (?j - 1) < b" if "checkpt_next_block dev \<le> b" "0 < ?j" for b
    using that nx by simp
  have ge: "internal_start_block dev0 \<le> checkpt_next_block dev"
    using nx next_not_after(2) [of "?j - 1" dev0] less_imp_diff_less [OF j, of 1] by (auto simp: blk_valid_def)
  have "find_erased_loop (blocks_from dev (checkpt_next_block dev)) (checkpt_next_block dev) dev = Some (Some ?e)"
  proof (rule find_erased_finds)
    show "table_wf dev" using g by (simp add: stream_geom_def)
    show vb: "blk_valid dev b" if "checkpt_next_block dev \<le> b" "b \<le> ?e" for b
      using that na(2) ge r by (auto simp: blk_valid_def)
    show "block_state (bi_of dev b) \<noteq> YAFFS_BLOCK_STATE_EMPTY" if "checkpt_next_block dev \<le> b" "b < ?e" for b
    proof -
      have "b \<notin> set ?E"
        using between_not_member [OF empties_sorted j that(2)] pre [OF that(1)] by blast
      moreover have "blk_valid dev0 b" using vb [of b] that v by simp
      ultimately show ?thesis using st [of b] empties_iff [of b dev0] by auto
    qed
    show "block_state (bi_of dev ?e) = YAFFS_BLOCK_STATE_EMPTY"
      using st [OF na(2)] take_member_less [OF empties_sorted j, of ?j] u empties_iff [of ?e dev0] j by simp
    show "checkpt_next_block dev \<le> ?e" by (rule le)
    show "?e < checkpt_next_block dev + int (blocks_from dev (checkpt_next_block dev))"
      using na(2) ge g r le by (auto simp: blocks_from_def blk_valid_def stream_geom_def)
  qed
  moreover have "0 \<le> checkpt_next_block dev" "checkpt_next_block dev \<le> internal_end_block dev"
    using ge g r le na(2) by (auto simp: blk_valid_def stream_geom_def)
  ultimately show ?thesis using av by (simp add: yaffs2_checkpt_find_erased_block_def)
qed

lemma flush_place:
  assumes w: "stream_written content usable D tb cpb dev0 dev ds k" and k: "k < nat cpb * length (empties dev0)"
  shows "\<exists>dev1 dev2. (if checkpt_cur_block dev < 0
       then do { dev \<leftarrow> yaffs2_checkpt_find_erased_block dev; Some (dev\<lparr>checkpt_cur_chunk := 0\<rparr>) }
       else Some dev) = Some dev1 \<and> \<not> checkpt_cur_block dev1 < 0 \<and>
     (if checkpt_cur_chunk dev1 = 0
      then do { dev \<leftarrow> upd_block_info dev1 (checkpt_cur_block dev1) (\<lambda>bi. bi\<lparr>block_state := YAFFS_BLOCK_STATE_CHECKPOINT\<rparr>);
                Some (dev\<lparr>blocks_in_checkpt := blocks_in_checkpt dev + 1\<rparr>) }
      else Some dev1) = Some dev2 \<and> checkpt_tags dev1 = checkpt_tags dev2 \<and> stream_place cpb dev0 dev dev2 k"
proof -
  let ?E = "empties dev0"
  let ?j = "k div nat cpb"
  let ?e = "?E ! ?j"
  have j: "?j < length ?E" using k by (simp add: less_mult_imp_div_less mult.commute)
  note na = next_not_after [OF j]
  have g: "stream_geom D tb cpb dev" and r: "internal_start_block dev = internal_start_block dev0"
      "internal_end_block dev = internal_end_block dev0"
    and pos: "stream_pos cpb ?E k dev" and bc: "blocks_in_checkpt dev = int (stream_used cpb k)"
    and st: "\<And>b. blk_valid dev0 b \<Longrightarrow> block_state (bi_of dev b) =
       (if b \<in> set (take (stream_used cpb k) ?E) then YAFFS_BLOCK_STATE_CHECKPOINT else block_state (bi_of dev0 b))"
    using w by (auto simp: stream_written_def)
  have e0: "\<not> ?e < 0" using na(2) g r by (auto simp: blk_valid_def stream_geom_def)
  have v: "blk_valid dev b = blk_valid dev0 b" for b using r by (simp add: blk_valid_def)
  show ?thesis
  proof (cases "k mod nat cpb = 0")
    case False
    then have d: "checkpt_cur_block dev = ?e" "checkpt_cur_chunk dev = int (k mod nat cpb)"
        "checkpt_next_block dev = ?e + 1" "stream_used cpb k = Suc ?j"
      using pos by (auto simp: stream_pos_def stream_used_def)
    have "stream_place cpb dev0 dev dev k"
      unfolding stream_place_def
    proof (intro conjI exI [of _ "block_info dev"])
      show "table_wf dev" using g by (simp add: stream_geom_def)
      show "dev = dev\<lparr>block_info := block_info dev, checkpt_cur_block := ?e, checkpt_cur_chunk := int (k mod nat cpb),
          checkpt_next_block := ?e + 1, blocks_in_checkpt := int (Suc ?j)\<rparr>"
        using d bc by (intro yaffs_dev.equality) simp_all
    qed (use st d(4) in simp)
    then show ?thesis using False d(1,2) e0 by (intro exI [of _ dev]) simp
  next
    case True
    let ?d1 = "dev\<lparr>checkpt_next_block := ?e + 1, checkpt_cur_block := ?e, checkpt_cur_chunk := 0\<rparr>"
    let ?d2 = "put_bi ?d1 ?e ((bi_of ?d1 ?e)\<lparr>block_state := YAFFS_BLOCK_STATE_CHECKPOINT\<rparr>)
       \<lparr>blocks_in_checkpt := blocks_in_checkpt dev + 1\<rparr>"
    have u: "stream_used cpb k = ?j" using True by (simp add: stream_used_def)
    have t: "table_wf ?d1" "blk_valid ?d1 ?e"
      using g na(2) v [of ?e] by (simp_all add: stream_geom_def table_wf_def n_blocks_def blk_valid_def)
    have up: "upd_block_info ?d1 ?e (\<lambda>bi. bi\<lparr>block_state := YAFFS_BLOCK_STATE_CHECKPOINT\<rparr>) =
        Some (put_bi ?d1 ?e ((bi_of ?d1 ?e)\<lparr>block_state := YAFFS_BLOCK_STATE_CHECKPOINT\<rparr>))"
      by (rule upd_block_info_valid [OF t])
    have neg: "checkpt_cur_block dev < 0" using pos True by (simp add: stream_pos_def)
    have bi: "bi_of ?d2 b = (if b = ?e then (bi_of ?d1 ?e)\<lparr>block_state := YAFFS_BLOCK_STATE_CHECKPOINT\<rparr> else bi_of dev b)"
      if "blk_valid dev0 b" for b
    proof -
      have "blk_valid ?d1 b" using that v by (simp add: blk_valid_def)
      then show ?thesis using bi_of_put [OF t, of b] by (simp add: bi_of_def bi_index_def)
    qed
    have "stream_place cpb dev0 dev ?d2 k"
      unfolding stream_place_def
    proof (intro conjI exI [of _ "block_info ?d2"] allI impI)
      show "?d2 = dev\<lparr>block_info := block_info ?d2, checkpt_cur_block := ?e, checkpt_cur_chunk := int (k mod nat cpb),
          checkpt_next_block := ?e + 1, blocks_in_checkpt := int (Suc ?j)\<rparr>"
        using True bc u by (simp add: put_bi_def)
      show "table_wf ?d2" using t(1) by (simp add: table_wf_def put_bi_def n_blocks_def)
      show "block_state (bi_of ?d2 b) = (if b \<in> set (take (Suc ?j) ?E) then YAFFS_BLOCK_STATE_CHECKPOINT
          else block_state (bi_of dev0 b))" if "blk_valid dev0 b" for b
        using bi [OF that] st [OF that] u j by (auto simp: take_Suc_conv_app_nth)
    qed
    moreover have "checkpt_tags ?d1 = checkpt_tags ?d2" by (simp add: checkpt_tags_def put_bi_def)
    ultimately show ?thesis
      using neg find_erased_stream [OF w k True] up e0
      by (intro exI [of _ ?d1] exI [of _ ?d2]) (simp add: put_bi_def)
  qed
qed

lemma stream_tags_fit:
  assumes g: "stream_geom D tb cpb dev" and k: "k < nat cpb * length (empties dev0)"
    and r: "internal_end_block dev = internal_end_block dev0" "internal_start_block dev = internal_start_block dev0"
    and s: "checkpt_page_seq dev = int k"
  shows "tags2_fits (checkpt_tags dev)" "chunk_id (checkpt_tags dev) = word_of_nat (Suc k)"
    "chunk_id (checkpt_tags dev) \<noteq> 0" "int (Suc k) < 2 ^ 31"
proof -
  have "length (empties dev0) \<le> nat (internal_end_block dev + 1)"
    unfolding empties_def using g r by (intro order_trans [OF length_filter_le]) (auto simp: stream_geom_def intro!: nat_mono)
  then have "nat cpb * length (empties dev0) \<le> nat cpb * nat (internal_end_block dev + 1)" by simp
  also have "\<dots> = nat ((internal_end_block dev + 1) * cpb)"
    using g by (simp add: stream_geom_def nat_mult_distrib mult.commute)
  also have "\<dots> < 2 ^ 31" using g by (auto simp: stream_geom_def nat_less_iff)
  finally have lt: "Suc k < 2 ^ 31" using k by simp
  then show "int (Suc k) < 2 ^ 31" by simp
  show c: "chunk_id (checkpt_tags dev) = word_of_nat (Suc k)" by (simp add: checkpt_tags_def s)
  have u: "unat (word_of_nat (Suc k) :: u32) = Suc k" using lt by (simp add: unat_of_nat del: of_nat_Suc)
  show z: "chunk_id (checkpt_tags dev) \<noteq> 0" unfolding c using u by (metis nat.distinct(1) unat_0)
  have "chunk_id (checkpt_tags dev) < 0x80000000"
    unfolding c word_less_nat_alt u using lt by simp
  then show "tags2_fits (checkpt_tags dev)"
    using z by (simp add: tags2_fits_def yaffs_check_tags_extra_packable_def checkpt_tags_def
        YAFFS_SEQUENCE_CHECKPOINT_DATA_def)
qed

context stream_store
begin

lemma flush_stream:
  assumes w: "stream_written content usable data_bytes chunk_bytes cpb dev0 dev ds k"
    and b: "stream_buffer data_bytes chunk_bytes dev ds k"
    and k: "k < nat cpb * length (empties dev0)"
    and u: "\<And>b i. b \<in> set (empties dev0) \<Longrightarrow> 0 \<le> i \<Longrightarrow> i < cpb \<Longrightarrow> usable (flash dev0) (b * cpb + i - chunk_offset dev0)"
  shows "\<exists>dev' rest. yaffs2_checkpt_flush_buffer tg dev = Some (1, dev') \<and>
    stream_written content usable data_bytes chunk_bytes cpb dev0 dev' ds (Suc k) \<and>
    checkpt_byte_offs dev' = int CHECKPT_HDR_SIZE \<and> checkpt_sum dev' = byte_sum ds \<and> checkpt_xor dev' = byte_xor ds \<and>
    checkpt_buffer dev' = Some (stream_hdr (swap_endian dev0) (Suc k) ds @ rest) \<and>
    CHECKPT_HDR_SIZE + length rest = chunk_bytes"
proof -
  let ?E = "empties dev0"
  let ?j = "k div nat cpb"
  let ?p = "data_bytes - CHECKPT_HDR_SIZE"
  have j: "?j < length ?E" using k by (simp add: less_mult_imp_div_less mult.commute)
  have g: "stream_geom data_bytes chunk_bytes cpb dev" using w by (simp add: stream_written_def)
  have cpb: "0 < cpb" "chunks_per_block (param dev) = cpb" "data_bytes_per_chunk dev = data_bytes"
    using g by (auto simp: stream_geom_def)
  have f: "internal_start_block dev = internal_start_block dev0" "internal_end_block dev = internal_end_block dev0"
      "chunk_offset dev = chunk_offset dev0" "swap_endian dev = swap_endian dev0"
      "checkpt_page_seq dev = int k" "usable (flash dev) = usable (flash dev0)" "checkpt_open_write dev"
      "n_erased_blocks dev > n_reserved_blocks (param dev)"
    using w by (auto simp: stream_written_def)
  obtain dev1 dev2 where p: "(if checkpt_cur_block dev < 0
       then do { dev \<leftarrow> yaffs2_checkpt_find_erased_block dev; Some (dev\<lparr>checkpt_cur_chunk := 0\<rparr>) }
       else Some dev) = Some dev1" "\<not> checkpt_cur_block dev1 < 0"
     "(if checkpt_cur_chunk dev1 = 0
      then do { dev \<leftarrow> upd_block_info dev1 (checkpt_cur_block dev1) (\<lambda>bi. bi\<lparr>block_state := YAFFS_BLOCK_STATE_CHECKPOINT\<rparr>);
                Some (dev\<lparr>blocks_in_checkpt := blocks_in_checkpt dev + 1\<rparr>) }
      else Some dev1) = Some dev2" "checkpt_tags dev1 = checkpt_tags dev2" and pl: "stream_place cpb dev0 dev dev2 k"
    using flush_place [OF w k] by blast
  obtain bs where d2: "dev2 = dev\<lparr>block_info := bs, checkpt_cur_block := ?E ! ?j, checkpt_cur_chunk := int (k mod nat cpb),
        checkpt_next_block := ?E ! ?j + 1, blocks_in_checkpt := int (Suc ?j)\<rparr>" and tw: "table_wf dev2"
    using pl by (auto simp: stream_place_def)
  let ?c = "stream_chunk (chunk_offset dev0) cpb ?E k"
  have mod: "int (k mod nat cpb) < cpb" using cpb by (simp add: zmod_int)
  have uc: "usable (flash dev0) ?c"
    using u [of "?E ! ?j" "int (k mod nat cpb)"] j mod by (simp add: stream_chunk_def)
  have oc: "apply_chunk_offset dev2 (checkpt_cur_block dev2 * chunks_per_block (param dev2) + checkpt_cur_chunk dev2) = ?c"
    by (simp add: d2 apply_chunk_offset_def stream_chunk_def cpb f)
  have g2: "stream_geom data_bytes chunk_bytes cpb dev2" using g tw by (simp add: d2 stream_geom_def)
  have fit: "tags2_fits (checkpt_tags dev2)" "chunk_id (checkpt_tags dev2) = word_of_nat (Suc k)"
      "chunk_id (checkpt_tags dev2) \<noteq> 0"
    using stream_tags_fit [OF g2 k] f by (simp_all add: d2)
  obtain rest where buf: "checkpt_buffer dev = Some (stream_hdr (swap_endian dev) k (take (k * ?p) ds) @ drop (k * ?p) ds @ rest)"
      "CHECKPT_HDR_SIZE + (length ds - k * ?p) + length rest = chunk_bytes"
    and len: "k * ?p \<le> length ds" "length ds \<le> Suc k * ?p"
    and sums: "checkpt_sum dev = byte_sum ds" "checkpt_xor dev = byte_xor ds"
    using b by (auto simp: stream_buffer_def Let_def)
  let ?buf = "stream_hdr (swap_endian dev) k (take (k * ?p) ds) @ drop (k * ?p) ds @ rest"
  have lb: "length ?buf = chunk_bytes" using buf(2) by simp
  obtain d fl r where wr: "write_chunk_tags_fn tg (flash dev) ?c (Some ?buf) (Some (checkpt_tags dev2)) = Some (YAFFS_OK, Some d, fl)"
      "length d = chunk_bytes" "take data_bytes (fst (content fl ?c)) = take data_bytes ?buf"
      "snd (content fl ?c) = (tags2_stored (checkpt_tags dev2))\<lparr>ecc_result := r\<rparr>" "r \<le> YAFFS_ECC_RESULT_NO_ERROR"
      "\<And>c'. c' \<noteq> ?c \<Longrightarrow> usable (flash dev) c' \<Longrightarrow> content fl c' = content (flash dev) c'" "usable fl = usable (flash dev)"
    using write_chunk [OF _ lb fit(1), of "flash dev" ?c] uc f(6) by auto
  let ?full = "int (k mod nat cpb) + 1 \<ge> cpb"
  let ?b0 = "replicate data_bytes 0 @ drop data_bytes d"
  let ?rest = "drop CHECKPT_HDR_SIZE ?b0"
  let ?d3 = "dev\<lparr>block_info := bs, checkpt_next_block := ?E ! ?j + 1, blocks_in_checkpt := int (Suc ?j),
     n_page_writes := n_page_writes dev + 1, flash := fl, checkpt_page_seq := int k + 1,
     checkpt_cur_chunk := (if ?full then 0 else int (k mod nat cpb) + 1),
     checkpt_cur_block := (if ?full then -1 else ?E ! ?j), checkpt_buffer := Some ?b0\<rparr>"
  let ?d4 = "?d3\<lparr>checkpt_byte_offs := int CHECKPT_HDR_SIZE,
     checkpt_buffer := Some (stream_hdr (swap_endian dev0) (Suc k) ds @ ?rest)\<rparr>"
  have db: "CHECKPT_HDR_SIZE < data_bytes" "data_bytes \<le> chunk_bytes" using g by (auto simp: stream_geom_def)
  have ini: "yaffs2_checkpt_init_chunk_hdr ?d3 = Some ?d4"
    using init_chunk_hdr_stream [of ?d3 ?b0 "Suc k" ds] db wr(2) sums f(4) by simp
  have bw: "buf_write d 0 (replicate data_bytes 0) = Some ?b0"
    using wr(2) db by (simp add: buf_write_def)
  have f2: "flash dev2 = flash dev" "checkpt_buffer dev2 = Some ?buf"
      "checkpt_page_seq dev2 = int k" "checkpt_cur_chunk dev2 = int (k mod nat cpb)"
      "chunks_per_block (param dev2) = cpb" "data_bytes_per_chunk dev2 = data_bytes"
    using buf(1) cpb f(5) by (simp_all add: d2)
  have fl: "yaffs2_checkpt_flush_buffer tg dev = Some (1, ?d4)"
  proof (cases ?full)
    case True
    then show ?thesis
      unfolding yaffs2_checkpt_flush_buffer_def p(1) bind.bind_lunit if_not_P [OF p(2)] Let_def p(3,4) oc
      using wr(1) bw ini by (simp add: d2 buf(1) cpb f)
  next
    case False
    have e: "dev\<lparr>block_info := bs, checkpt_cur_block := ?E ! ?j, checkpt_next_block := ?E ! ?j + 1,
        blocks_in_checkpt := int (Suc ?j), n_page_writes := n_page_writes dev + 1, flash := fl,
        checkpt_page_seq := int k + 1, checkpt_cur_chunk := int (k mod nat cpb) + 1, checkpt_buffer := Some ?b0\<rparr> = ?d3"
      using False by simp
    then show ?thesis
      unfolding yaffs2_checkpt_flush_buffer_def p(1) bind.bind_lunit if_not_P [OF p(2)] Let_def p(3,4) oc
      using False wr(1) bw ini [folded e] by (simp add: d2 buf(1) cpb f)
  qed
  define d4 where "d4 = ?d4"
  have full: "?full \<longleftrightarrow> Suc (k mod nat cpb) = nat cpb" using mod by auto
  have bi4: "bi_of d4 = bi_of dev2" "table_wf d4 = table_wf dev2"
    by (simp_all add: d4_def d2 bi_of_def bi_index_def fun_eq_iff table_wf_def n_blocks_def)
  have f4: "stream_geom data_bytes chunk_bytes cpb d4" "internal_start_block d4 = internal_start_block dev0"
      "internal_end_block d4 = internal_end_block dev0" "chunk_offset d4 = chunk_offset dev0"
      "swap_endian d4 = swap_endian dev0" "n_erased_blocks d4 > n_reserved_blocks (param d4)" "checkpt_open_write d4"
      "checkpt_page_seq d4 = int (Suc k)" "blocks_in_checkpt d4 = int (Suc ?j)" "flash d4 = fl"
      "checkpt_byte_offs d4 = int CHECKPT_HDR_SIZE" "checkpt_sum d4 = byte_sum ds" "checkpt_xor d4 = byte_xor ds"
      "checkpt_buffer d4 = Some (stream_hdr (swap_endian dev0) (Suc k) ds @ ?rest)"
    using g tw bi4(2) f sums by (simp_all add: d4_def stream_geom_def)
  have pos: "stream_pos cpb ?E (Suc k) d4"
    unfolding stream_pos_Suc [OF cpb(1)] full [symmetric] by (simp add: d4_def)
  have uj: "usable (flash dev0) (stream_chunk (chunk_offset dev0) cpb ?E i)" if "i < nat cpb * length ?E" for i
  proof -
    have "i div nat cpb < length ?E" using that by (simp add: less_mult_imp_div_less mult.commute)
    moreover have "int (i mod nat cpb) < cpb" using cpb by (simp add: zmod_int)
    ultimately show ?thesis
      using u [of "?E ! (i div nat cpb)" "int (i mod nat cpb)"] by (simp add: stream_chunk_def)
  qed
  have old: "stream_page content (swap_endian dev0) data_bytes (chunk_offset dev0) cpb ?E fl ds i" if "i < k" for i
  proof -
    have "stream_chunk (chunk_offset dev0) cpb ?E i \<noteq> ?c"
      using stream_chunk_inj [OF empties_sorted cpb(1) _ k, of i "chunk_offset dev0"] that k by auto
    then have "content fl (stream_chunk (chunk_offset dev0) cpb ?E i) =
        content (flash dev) (stream_chunk (chunk_offset dev0) cpb ?E i)"
      using wr(6) uj [of i] that k f(6) by simp
    moreover have "stream_page content (swap_endian dev0) data_bytes (chunk_offset dev0) cpb ?E (flash dev) ds i"
      using w that by (simp add: stream_written_def)
    ultimately show ?thesis by (simp add: stream_page_def)
  qed
  have new: "stream_page content (swap_endian dev0) data_bytes (chunk_offset dev0) cpb ?E fl ds k"
  proof -
    have t: "take data_bytes ?buf = stream_hdr (swap_endian dev0) k (take (k * ?p) ds) @ take ?p (drop (k * ?p) ds) @
        take (?p - (length ds - k * ?p)) rest"
      using len f(4) db by (simp add: min_def)
    have "snd (content fl ?c) = (tags2_stored (checkpt_tags dev2))\<lparr>ecc_result := r\<rparr>" by (rule wr(4))
    then have tg: "chunk_id (snd (content fl ?c)) = word_of_nat (Suc k)"
        "seq_number (snd (content fl ?c)) = YAFFS_SEQUENCE_CHECKPOINT_DATA"
        "ecc_result (snd (content fl ?c)) = r" "obj_id (snd (content fl ?c)) = word_of_int (?E ! ?j + 1)"
      using fit(2,3) by (simp_all add: tags2_stored_def Let_def yaffs_check_tags_extra_packable_def)
        (simp_all add: checkpt_tags_def d2)
    show ?thesis
      unfolding stream_page_def Let_def using t wr(3,5) tg by (auto split: prod.split)
  qed
  have far: "content fl (b * cpb - chunk_offset dev0) = content (flash dev0) (b * cpb - chunk_offset dev0)"
    if "b \<notin> set (take (Suc ?j) ?E)" "usable (flash dev0) (b * cpb - chunk_offset dev0)" for b
  proof -
    have e: "?E ! ?j \<in> set (take (Suc ?j) ?E)" using j by (simp add: take_Suc_conv_app_nth)
    have "b * cpb - chunk_offset dev0 \<noteq> ?c"
    proof
      assume "b * cpb - chunk_offset dev0 = ?c"
      then have "b = ?E ! ?j" using chunk_split [of b cpb 0 "?E ! ?j" "int (k mod nat cpb)"] cpb(1) mod
        by (simp add: stream_chunk_def)
      then show False using e that(1) by simp
    qed
    then have "content fl (b * cpb - chunk_offset dev0) = content (flash dev) (b * cpb - chunk_offset dev0)"
      using wr(6) that(2) f(6) by simp
    moreover have "b \<notin> set (take (stream_used cpb k) ?E)"
      using that(1) set_take_subset_set_take [of "stream_used cpb k" "Suc ?j" ?E] by (auto simp: stream_used_def)
    ultimately show ?thesis using w that(2) by (simp add: stream_written_def)
  qed
  have "stream_written content usable data_bytes chunk_bytes cpb dev0 d4 ds (Suc k)"
    unfolding stream_written_def stream_used_Suc [OF cpb(1)]
    using f4 pos old new far pl bi4 wr(7) f(6) by (auto simp: stream_place_def less_Suc_eq)
  then show ?thesis
    using fl f4 wr(2) db unfolding d4_def [symmetric]
    by (intro exI [of _ d4] exI [of _ ?rest]) auto
qed

lemma stream_written_byte:
  assumes w: "stream_written content usable data_bytes chunk_bytes cpb dev0 dev ds k"
    and l: "k * (data_bytes - CHECKPT_HDR_SIZE) \<le> length ds"
  shows "stream_written content usable data_bytes chunk_bytes cpb dev0 (dev\<lparr>checkpt_buffer := buf, checkpt_sum := o1,
     checkpt_xor := o2, checkpt_byte_offs := o3, checkpt_byte_count := o4\<rparr>) (ds @ xs) k"
proof -
  have "stream_page content (swap_endian dev0) data_bytes (chunk_offset dev0) cpb (empties dev0) (flash dev) (ds @ xs) j"
    if "j < k" for j
  proof -
    have "Suc j * (data_bytes - CHECKPT_HDR_SIZE) \<le> k * (data_bytes - CHECKPT_HDR_SIZE)"
      using that by (intro mult_le_mono1) simp
    then have "Suc j * (data_bytes - CHECKPT_HDR_SIZE) \<le> length ds" using l by (rule order_trans)
    then show ?thesis using w that by (simp add: stream_page_append stream_written_def)
  qed
  then have pg: "\<forall>j < k. stream_page content (swap_endian dev0) data_bytes (chunk_offset dev0) cpb (empties dev0)
      (flash dev) (ds @ xs) j" by blast
  let ?d = "dev\<lparr>checkpt_buffer := buf, checkpt_sum := o1, checkpt_xor := o2, checkpt_byte_offs := o3,
     checkpt_byte_count := o4\<rparr>"
  have fr: "stream_geom data_bytes chunk_bytes cpb ?d = stream_geom data_bytes chunk_bytes cpb dev"
      "stream_pos cpb (empties dev0) k ?d = stream_pos cpb (empties dev0) k dev" "bi_of ?d = bi_of dev"
    by (simp_all add: stream_geom_def stream_pos_def bi_of_def bi_index_def table_wf_def n_blocks_def fun_eq_iff)
  show ?thesis
    using w pg unfolding stream_written_def fr by simp
qed

lemma buffer_end:
  assumes "(q :: nat) \<le> l" and "l < p + q" and "D = h + p"
  shows "(int (h + (Suc l - q)) < 0 \<or> int (h + (Suc l - q)) \<ge> int D) \<longleftrightarrow> Suc l = p + q"
  using assms by auto

text \<open>One byte, and the chunk it may fill.\<close>

lemma wr_byte_stream:
  assumes w: "stream_written content usable data_bytes chunk_bytes cpb dev0 dev ds k"
    and b: "stream_buffer data_bytes chunk_bytes dev ds k"
    and l: "length ds < Suc k * (data_bytes - CHECKPT_HDR_SIZE)"
    and n: "length ds < (data_bytes - CHECKPT_HDR_SIZE) * (nat cpb * length (empties dev0))"
    and u: "\<And>b i. b \<in> set (empties dev0) \<Longrightarrow> 0 \<le> i \<Longrightarrow> i < cpb \<Longrightarrow> usable (flash dev0) (b * cpb + i - chunk_offset dev0)"
  shows "\<exists>dev1 dev2 k'. checkpt_put_byte x dev = Some dev1 \<and>
    (if outside_buffer dev1 then yaffs2_checkpt_flush_buffer tg dev1 else Some (1, dev1)) = Some (1, dev2) \<and>
    stream_written content usable data_bytes chunk_bytes cpb dev0 dev2 (ds @ [x]) k' \<and>
    stream_buffer data_bytes chunk_bytes dev2 (ds @ [x]) k' \<and>
    length (ds @ [x]) < Suc k' * (data_bytes - CHECKPT_HDR_SIZE)"
proof -
  let ?p = "data_bytes - CHECKPT_HDR_SIZE"
  have g: "stream_geom data_bytes chunk_bytes cpb dev" using w by (simp add: stream_written_def)
  have p: "0 < ?p" using g by (simp add: stream_geom_def)
  have len: "k * ?p \<le> length ds" using b by (simp add: stream_buffer_def Let_def)
  obtain dev1 buf o1 o2 o3 o4 where put: "checkpt_put_byte x dev = Some dev1"
      and b1: "stream_buffer data_bytes chunk_bytes dev1 (ds @ [x]) k"
      and d1: "dev1 = dev\<lparr>checkpt_buffer := buf, checkpt_sum := o1, checkpt_xor := o2, checkpt_byte_offs := o3,
          checkpt_byte_count := o4\<rparr>"
    using put_byte_stream [OF g b l, of x] by blast
  have w1: "stream_written content usable data_bytes chunk_bytes cpb dev0 dev1 (ds @ [x]) k"
    unfolding d1 by (rule stream_written_byte [OF w len])
  have offs: "checkpt_byte_offs dev1 = int (CHECKPT_HDR_SIZE + (length (ds @ [x]) - k * ?p))"
    using b1 by (simp add: stream_buffer_def Let_def)
  have D: "data_bytes_per_chunk dev1 = data_bytes" "CHECKPT_HDR_SIZE < data_bytes"
    using g by (auto simp: d1 stream_geom_def)
  have out: "outside_buffer dev1 \<longleftrightarrow> length (ds @ [x]) = Suc k * ?p"
    unfolding outside_buffer_def offs D(1)
    using buffer_end [OF len, of ?p data_bytes CHECKPT_HDR_SIZE] D(2) l by simp
  show ?thesis
  proof (cases "length (ds @ [x]) = Suc k * ?p")
    case True
    have "Suc k * ?p \<le> ?p * (nat cpb * length (empties dev0))" using n True by simp
    then have k: "k < nat cpb * length (empties dev0)" using p by (simp add: mult.commute [of _ ?p] del: mult_Suc mult_Suc_right)
    obtain dev2 rest where fl: "yaffs2_checkpt_flush_buffer tg dev1 = Some (1, dev2)"
      and w2: "stream_written content usable data_bytes chunk_bytes cpb dev0 dev2 (ds @ [x]) (Suc k)"
      and f2: "checkpt_byte_offs dev2 = int CHECKPT_HDR_SIZE" "checkpt_sum dev2 = byte_sum (ds @ [x])"
        "checkpt_xor dev2 = byte_xor (ds @ [x])"
        "checkpt_buffer dev2 = Some (stream_hdr (swap_endian dev0) (Suc k) (ds @ [x]) @ rest)"
        "CHECKPT_HDR_SIZE + length rest = chunk_bytes"
      using flush_stream [OF w1 b1 k u] by blast
    have s2: "swap_endian dev2 = swap_endian dev0" using w2 by (simp add: stream_written_def)
    have b2: "stream_buffer data_bytes chunk_bytes dev2 (ds @ [x]) (Suc k)"
      using f2 s2 True by (simp add: stream_buffer_def Let_def)
    have "length (ds @ [x]) < Suc (Suc k) * ?p" using True p by simp
    then show ?thesis using put out True fl w2 b2
      by (intro exI [of _ dev1] exI [of _ dev2] exI [of _ "Suc k"]) simp
  next
    case False
    then show ?thesis using put out w1 b1 l
      by (intro exI [of _ dev1] exI [of _ dev1] exI [of _ k]) simp
  qed
qed

lemma wr_loop_stream:
  assumes "stream_written content usable data_bytes chunk_bytes cpb dev0 dev ds k"
    and "stream_buffer data_bytes chunk_bytes dev ds k"
    and "length ds < Suc k * (data_bytes - CHECKPT_HDR_SIZE)"
    and "length ds + length xs \<le> (data_bytes - CHECKPT_HDR_SIZE) * (nat cpb * length (empties dev0))"
    and u: "\<And>b i. b \<in> set (empties dev0) \<Longrightarrow> 0 \<le> i \<Longrightarrow> i < cpb \<Longrightarrow> usable (flash dev0) (b * cpb + i - chunk_offset dev0)"
  shows "\<exists>dev' k'. checkpt_wr_loop tg xs i dev = Some (i + int (length xs), dev') \<and>
    stream_written content usable data_bytes chunk_bytes cpb dev0 dev' (ds @ xs) k' \<and>
    stream_buffer data_bytes chunk_bytes dev' (ds @ xs) k' \<and>
    length (ds @ xs) < Suc k' * (data_bytes - CHECKPT_HDR_SIZE)"
  using assms(1-4)
proof (induction xs arbitrary: dev ds k i)
  case Nil
  then show ?case by auto
next
  case (Cons x xs)
  have "length ds < (data_bytes - CHECKPT_HDR_SIZE) * (nat cpb * length (empties dev0))" using Cons.prems(4) by simp
  then obtain dev1 dev2 k2 where s: "checkpt_put_byte x dev = Some dev1"
      "(if outside_buffer dev1 then yaffs2_checkpt_flush_buffer tg dev1 else Some (1, dev1)) = Some (1, dev2)"
    and w2: "stream_written content usable data_bytes chunk_bytes cpb dev0 dev2 (ds @ [x]) k2"
      "stream_buffer data_bytes chunk_bytes dev2 (ds @ [x]) k2"
      "length (ds @ [x]) < Suc k2 * (data_bytes - CHECKPT_HDR_SIZE)"
    using wr_byte_stream [OF Cons.prems(1-3) _ u, of x] by blast
  obtain dev' k' where "checkpt_wr_loop tg xs (i + 1) dev2 = Some (i + 1 + int (length xs), dev')"
      "stream_written content usable data_bytes chunk_bytes cpb dev0 dev' ((ds @ [x]) @ xs) k'"
      "stream_buffer data_bytes chunk_bytes dev' ((ds @ [x]) @ xs) k'"
      "length ((ds @ [x]) @ xs) < Suc k' * (data_bytes - CHECKPT_HDR_SIZE)"
    using Cons.IH [OF w2, of "i + 1"] Cons.prems(4) by auto
  then show ?case using s by (intro exI [of _ dev'] exI [of _ k']) simp
qed

end

end
