(* ===== verification/Yaffs_Checkpt_Read.thy ===== *)
theory Yaffs_Checkpt_Read
  imports Yaffs_Checkpt_Stream
begin

text \<open>
  The round trip of a checkpoint stream: opening, writing and closing, then, on any device that
  sees the same flash in the same geometry, opening and reading.
\<close>

section \<open>Opening and closing for writing\<close>

lemma checkpt_erase_loop_none:
  assumes "table_wf dev" and "\<And>b. i \<le> b \<Longrightarrow> b < i + int n \<Longrightarrow> blk_valid dev b \<and>
    block_state (bi_of dev b) \<noteq> YAFFS_BLOCK_STATE_CHECKPOINT"
  shows "checkpt_erase_loop drv n i dev = Some dev"
  using assms(2)
proof (induction n arbitrary: i)
  case (Suc n)
  have "blk_valid dev i \<and> block_state (bi_of dev i) \<noteq> YAFFS_BLOCK_STATE_CHECKPOINT" using Suc.prems [of i] by simp
  then have "checkpt_erase_block drv dev i = Some dev"
    by (simp add: checkpt_erase_block_def get_block_info_valid [OF assms(1)])
  moreover have "checkpt_erase_loop drv n (i + 1) dev = Some dev"
    using Suc.prems by (intro Suc.IH) auto
  ultimately show ?case by simp
qed simp

lemma checkpt_erase_none:
  assumes "table_wf dev" and "\<And>b. blk_valid dev b \<Longrightarrow> block_state (bi_of dev b) \<noteq> YAFFS_BLOCK_STATE_CHECKPOINT"
  shows "yaffs_checkpt_erase drv dev = Some (dev\<lparr>blocks_in_checkpt := 0\<rparr>)"
proof -
  have "checkpt_erase_loop drv (n_blocks dev) (internal_start_block dev) dev = Some dev"
    using assms(2) by (intro checkpt_erase_loop_none [OF assms(1)]) (auto simp: blk_valid_def n_blocks_def split: if_splits)
  then show ?thesis by (simp add: yaffs_checkpt_erase_def)
qed

text \<open>What a device needs for a stream to be written to it.\<close>

definition stream_ready ::
    "('n \<Rightarrow> int \<Rightarrow> u8 list \<times> yaffs_ext_tags) \<Rightarrow> ('n \<Rightarrow> int \<Rightarrow> bool) \<Rightarrow> nat \<Rightarrow> nat \<Rightarrow> int \<Rightarrow> 'n yaffs_dev \<Rightarrow> bool" where
  "stream_ready content usable D tb cpb dev \<longleftrightarrow>
     stream_geom D tb cpb dev \<and> n_erased_blocks dev > n_reserved_blocks (param dev) \<and>
     (\<forall>b. blk_valid dev b \<longrightarrow> block_state (bi_of dev b) \<noteq> YAFFS_BLOCK_STATE_CHECKPOINT \<and>
        usable (flash dev) (b * cpb - chunk_offset dev) \<and>
        seq_number (snd (content (flash dev) (b * cpb - chunk_offset dev))) \<noteq> YAFFS_SEQUENCE_CHECKPOINT_DATA) \<and>
     (\<forall>b \<in> set (empties dev). \<forall>i. 0 \<le> i \<longrightarrow> i < cpb \<longrightarrow> usable (flash dev) (b * cpb + i - chunk_offset dev))"

lemma open_write_stream:
  assumes r: "stream_ready content usable D tb cpb dev"
    and b: "case checkpt_buffer dev of None \<Rightarrow> new_buffer = Some b | Some b' \<Rightarrow> b' = b" and l: "length b = tb"
  shows "\<exists>dev'. yaffs2_checkpt_open drv new_buffer list_ok dev True = Some (1, dev') \<and>
    stream_written content usable D tb cpb dev dev' [] 0 \<and> stream_buffer D tb dev' [] 0"
proof -
  have g: "stream_geom D tb cpb dev" and av: "n_erased_blocks dev > n_reserved_blocks (param dev)"
    and st: "\<And>b. blk_valid dev b \<Longrightarrow> block_state (bi_of dev b) \<noteq> YAFFS_BLOCK_STATE_CHECKPOINT"
    using r by (auto simp: stream_ready_def)
  have D: "CHECKPT_HDR_SIZE < D" "D \<le> tb" "data_bytes_per_chunk dev = D" using g by (auto simp: stream_geom_def)
  let ?b = "replicate D 0 @ drop D b"
  let ?d = "dev\<lparr>checkpt_open_write := True, checkpt_page_seq := 0, checkpt_byte_count := 0, checkpt_sum := 0, checkpt_xor := 0,
     checkpt_cur_block := -1, checkpt_cur_chunk := -1, checkpt_next_block := internal_start_block dev,
     checkpt_buffer := Some ?b\<rparr>"
  let ?d1 = "?d\<lparr>checkpt_byte_offs := int CHECKPT_HDR_SIZE,
     checkpt_buffer := Some (stream_hdr (swap_endian dev) 0 [] @ drop CHECKPT_HDR_SIZE ?b)\<rparr>"
  let ?d2 = "?d1\<lparr>blocks_in_checkpt := 0\<rparr>"
  have i: "yaffs2_checkpt_init_chunk_hdr ?d = Some ?d1"
    using init_chunk_hdr_stream [of ?d ?b 0 "[]"] D l by simp
  have bi: "bi_of ?d1 = bi_of dev" "blk_valid ?d1 = blk_valid dev" "table_wf ?d1 = table_wf dev" "bi_of ?d2 = bi_of dev"
      "table_wf ?d2 = table_wf dev"
    by (simp_all add: bi_of_def bi_index_def blk_valid_def table_wf_def n_blocks_def fun_eq_iff)
  have e: "yaffs_checkpt_erase drv ?d1 = Some ?d2"
    using checkpt_erase_none [of ?d1] bi st g by (simp add: stream_geom_def)
  have w: "buf_write b 0 (replicate D 0) = Some ?b" using D l by (simp add: buf_write_def)
  have o: "yaffs2_checkpt_open drv new_buffer list_ok dev True = Some (1, ?d2)"
    using b w i e av D
    by (cases "checkpt_buffer dev") (simp_all add: yaffs2_checkpt_open_def yaffs2_checkpt_space_ok_def Let_def)
  have "stream_written content usable D tb cpb dev ?d2 [] 0"
    unfolding stream_written_def using g av bi by (simp add: stream_geom_def stream_pos_def)
  moreover have "stream_buffer D tb ?d2 [] 0"
    using D l by (simp add: stream_buffer_def)
  ultimately show ?thesis using o by blast
qed

definition stream_pages :: "nat \<Rightarrow> nat \<Rightarrow> nat" where
  "stream_pages p n = (n + p - 1) div p"

lemma stream_pages_iff:
  assumes "0 < p"
  shows "k < stream_pages p n \<longleftrightarrow> k * p < n"
proof -
  have "k < stream_pages p n \<longleftrightarrow> Suc k * p \<le> n + p - 1"
    unfolding stream_pages_def Suc_le_eq [symmetric] by (rule less_eq_div_iff_mult_less_eq [OF assms])
  then show ?thesis using assms by auto
qed

lemma stream_pages_eq: "0 < p \<Longrightarrow> k * p < n \<Longrightarrow> n \<le> Suc k * p \<Longrightarrow> stream_pages p n = Suc k"
  using stream_pages_iff [of p k n] stream_pages_iff [of p "Suc k" n] by simp

lemma stream_used_step: "stream_used cpb k \<le> k div nat cpb + 1" "k div nat cpb \<le> stream_used cpb k"
  by (auto simp: stream_used_def)

lemma stream_used_mono:
  assumes "0 < cpb" and "j \<le> k"
  shows "stream_used cpb j \<le> stream_used cpb k"
  using assms(2) by (rule lift_Suc_mono_le [rotated]) (use stream_used_step in \<open>auto simp: stream_used_Suc [OF assms(1)]\<close>)

text \<open>What the flash holds once the stream is closed.\<close>

definition stream_stored ::
    "('n \<Rightarrow> int \<Rightarrow> u8 list \<times> yaffs_ext_tags) \<Rightarrow> ('n \<Rightarrow> int \<Rightarrow> bool) \<Rightarrow> nat \<Rightarrow> int \<Rightarrow> bool \<Rightarrow> int \<Rightarrow> int \<Rightarrow> int \<Rightarrow> int list \<Rightarrow>
     'n \<Rightarrow> u8 list \<Rightarrow> bool" where
  "stream_stored content usable D cpb swap off lo hi E fl ds \<longleftrightarrow>
     (let p = D - CHECKPT_HDR_SIZE; pages = stream_pages p (length ds) in
     sorted_wrt (<) E \<and> (\<forall>b \<in> set E. lo \<le> b \<and> b \<le> hi \<and> (\<forall>i. 0 \<le> i \<longrightarrow> i < cpb \<longrightarrow> usable fl (b * cpb + i - off))) \<and>
     pages \<le> nat cpb * length E \<and>
     (\<forall>k < pages. stream_page content swap D off cpb E fl ds k) \<and>
     (\<forall>b. lo \<le> b \<longrightarrow> b \<le> hi \<longrightarrow> usable fl (b * cpb - off) \<and>
        (b \<notin> set (take (stream_used cpb pages) E) \<longrightarrow>
          seq_number (snd (content fl (b * cpb - off))) \<noteq> YAFFS_SEQUENCE_CHECKPOINT_DATA)))"

context stream_store
begin

lemma close_write_stream:
  assumes r: "stream_ready content usable data_bytes chunk_bytes cpb dev0"
    and w: "stream_written content usable data_bytes chunk_bytes cpb dev0 dev ds k"
    and b: "stream_buffer data_bytes chunk_bytes dev ds k"
    and l: "length ds < Suc k * (data_bytes - CHECKPT_HDR_SIZE)"
    and n: "length ds \<le> (data_bytes - CHECKPT_HDR_SIZE) * (nat cpb * length (empties dev0))"
  shows "\<exists>dev'. yaffs_checkpt_close tg dev = Some (1, dev') \<and>
    checkpt_sum dev' = byte_sum ds \<and> checkpt_xor dev' = byte_xor ds \<and>
    (\<forall>b. blk_valid dev0 b \<longrightarrow> block_state (bi_of dev' b) =
        (if b \<in> set (take (stream_used cpb (stream_pages (data_bytes - CHECKPT_HDR_SIZE) (length ds))) (empties dev0))
         then YAFFS_BLOCK_STATE_CHECKPOINT else block_state (bi_of dev0 b))) \<and>
    stream_stored content usable data_bytes cpb (swap_endian dev0) (chunk_offset dev0)
      (internal_start_block dev0) (internal_end_block dev0) (empties dev0) (flash dev') ds"
proof -
  let ?p = "data_bytes - CHECKPT_HDR_SIZE"
  let ?E = "empties dev0"
  let ?K = "stream_pages ?p (length ds)"
  have g: "stream_geom data_bytes chunk_bytes cpb dev" and wr: "checkpt_open_write dev"
    using w by (auto simp: stream_written_def)
  have cpb: "0 < cpb" and p: "0 < ?p" using g by (auto simp: stream_geom_def)
  have u: "usable (flash dev0) (b * cpb + i - chunk_offset dev0)" if "b \<in> set ?E" "0 \<le> i" "i < cpb" for b i
    using r that by (auto simp: stream_ready_def)
  have len: "k * ?p \<le> length ds" and offs: "checkpt_byte_offs dev = int (CHECKPT_HDR_SIZE + (length ds - k * ?p))"
    and sums: "checkpt_sum dev = byte_sum ds" "checkpt_xor dev = byte_xor ds"
    and some: "checkpt_buffer dev \<noteq> None"
    using b by (auto simp: stream_buffer_def Let_def)
  have pages: "?K \<le> nat cpb * length ?E"
  proof (rule ccontr)
    assume "\<not> ?K \<le> nat cpb * length ?E"
    then have "nat cpb * length ?E * ?p < length ds" by (simp add: not_le stream_pages_iff [OF p])
    then show False using n by (simp add: mult.commute)
  qed
  let ?done = "\<lambda>d. d\<lparr>n_free_chunks := n_free_chunks d - blocks_in_checkpt d * chunks_per_block (param d),
     n_erased_blocks := n_erased_blocks d - blocks_in_checkpt d\<rparr>"
  obtain d where c: "yaffs_checkpt_close tg dev = Some (1, ?done d)"
    and wd: "stream_written content usable data_bytes chunk_bytes cpb dev0 d ds ?K"
    and sd: "checkpt_sum d = byte_sum ds" "checkpt_xor d = byte_xor ds"
  proof (cases "length ds = k * ?p")
    case True
    have "\<not> i < ?K" if "k \<le> i" for i
    proof -
      have "k * ?p \<le> i * ?p" using that by simp
      then show ?thesis unfolding stream_pages_iff [OF p] True by linarith
    qed
    moreover have "i < ?K" if "i < k" for i
      using that p True by (simp add: stream_pages_iff [OF p])
    ultimately have "?K = k" by (meson linorder_not_le nat_neq_iff order_refl)
    moreover have "yaffs_checkpt_close tg dev = Some (1, ?done dev)"
      using True offs wr some by (simp add: yaffs_checkpt_close_def)
    ultimately show ?thesis using that w sums by blast
  next
    case False
    then have lt: "k * ?p < length ds" using len by simp
    then have K: "?K = Suc k" using stream_pages_eq [OF p] l by simp
    obtain d rest where f: "yaffs2_checkpt_flush_buffer tg dev = Some (1, d)"
      and wd: "stream_written content usable data_bytes chunk_bytes cpb dev0 d ds (Suc k)"
      and sd: "checkpt_sum d = byte_sum ds" "checkpt_xor d = byte_xor ds"
        "checkpt_buffer d = Some (stream_hdr (swap_endian dev0) (Suc k) ds @ rest)"
      using flush_stream [OF w b _ u] pages K by auto
    have "checkpt_byte_offs dev \<noteq> int CHECKPT_HDR_SIZE"
      unfolding offs of_nat_eq_iff using lt by simp
    then have "yaffs_checkpt_close tg dev = Some (1, ?done d)"
      using f wr sd(3) by (simp add: yaffs_checkpt_close_def)
    then show ?thesis using that wd sd K by simp
  qed
  have us: "usable (flash d) = usable (flash dev0)" using wd by (simp add: stream_written_def)
  have bi: "bi_of (?done d) = bi_of d" by (simp add: bi_of_def bi_index_def fun_eq_iff)
  have "stream_stored content usable data_bytes cpb (swap_endian dev0) (chunk_offset dev0)
      (internal_start_block dev0) (internal_end_block dev0) ?E (flash d) ds"
    unfolding stream_stored_def Let_def us
  proof (intro conjI ballI allI impI)
    show "sorted_wrt (<) ?E" by (rule empties_sorted)
    show "?K \<le> nat cpb * length ?E" by (rule pages)
    show "internal_start_block dev0 \<le> b" "b \<le> internal_end_block dev0" if "b \<in> set ?E" for b
      using that empties_iff [of b dev0] by (auto simp: blk_valid_def)
    show "usable (flash dev0) (b * cpb + i - chunk_offset dev0)" if "b \<in> set ?E" "0 \<le> i" "i < cpb" for b i
      using u that .
    show "stream_page content (swap_endian dev0) data_bytes (chunk_offset dev0) cpb ?E (flash d) ds i" if "i < ?K" for i
      using wd that by (simp add: stream_written_def)
    fix b assume b: "internal_start_block dev0 \<le> b" "b \<le> internal_end_block dev0"
    then show ub: "usable (flash dev0) (b * cpb - chunk_offset dev0)"
      using r by (simp add: stream_ready_def blk_valid_def)
    show "seq_number (snd (content (flash d) (b * cpb - chunk_offset dev0))) \<noteq> YAFFS_SEQUENCE_CHECKPOINT_DATA"
      if "b \<notin> set (take (stream_used cpb ?K) ?E)"
      using wd that ub r b by (simp add: stream_written_def stream_ready_def blk_valid_def)
  qed
  then show ?thesis
    using c sd wd bi by (intro exI [of _ "?done d"]) (simp add: stream_written_def)
qed

end

section \<open>Reading\<close>

lemma sint_word_of_int: "0 \<le> x \<Longrightarrow> x < 2 ^ 31 \<Longrightarrow> sint (word_of_int x :: u32) = x"
  by transfer (simp add: signed_take_bit_int_eq_self)

definition stream_reading ::
    "('n \<Rightarrow> int \<Rightarrow> u8 list \<times> yaffs_ext_tags) \<Rightarrow> ('n \<Rightarrow> int \<Rightarrow> bool) \<Rightarrow> nat \<Rightarrow> nat \<Rightarrow> int \<Rightarrow>
     'n \<Rightarrow> int list \<Rightarrow> 'n yaffs_dev \<Rightarrow> u8 list \<Rightarrow> nat \<Rightarrow> nat \<Rightarrow> bool" where
  "stream_reading content usable D tb cpb fl E dev ds i k \<longleftrightarrow>
     (let p = D - CHECKPT_HDR_SIZE in
     stream_geom D tb cpb dev \<and> \<not> checkpt_open_write dev \<and> checkpt_page_seq dev = int k \<and>
     i \<le> length ds \<and> i \<le> k * p \<and> k * p \<le> i + p \<and>
     checkpt_byte_offs dev = int (D - (k * p - i)) \<and>
     checkpt_sum dev = byte_sum (take i ds) \<and> checkpt_xor dev = byte_xor (take i ds) \<and>
     content (flash dev) = content fl \<and> usable (flash dev) = usable fl \<and>
     stream_pos cpb E k dev \<and> blocks_in_checkpt dev = int (stream_used cpb k) \<and>
     checkpt_max_blocks dev = (internal_end_block dev - internal_start_block dev) div 16 + 2 \<and>
     (\<exists>l. checkpt_block_list dev = Some l \<and> checkpt_max_blocks dev \<le> int (length l)) \<and>
     (\<exists>b. checkpt_buffer dev = Some b \<and> length b = tb \<and>
        (0 < k \<longrightarrow> (\<exists>h rest. length h = CHECKPT_HDR_SIZE \<and>
           take D b = h @ take p (drop ((k - 1) * p) ds) @ rest))))"

definition same_geometry :: "'n yaffs_dev \<Rightarrow> 'n yaffs_dev \<Rightarrow> bool" where
  "same_geometry d d' \<longleftrightarrow> data_bytes_per_chunk d' = data_bytes_per_chunk d \<and>
     chunks_per_block (param d') = chunks_per_block (param d) \<and> chunk_offset d' = chunk_offset d \<and>
     block_offset d' = block_offset d \<and> internal_start_block d' = internal_start_block d \<and>
     internal_end_block d' = internal_end_block d \<and> swap_endian d' = swap_endian d"

lemma same_geometry_stream:
  "stream_geom D tb cpb dev \<Longrightarrow> same_geometry dev dev' \<Longrightarrow> table_wf dev' \<Longrightarrow> stream_geom D tb cpb dev'"
  by (auto simp: stream_geom_def same_geometry_def)

context stream_store
begin

text \<open>The first byte of a chunk that is not read yet: the chunk is found and passes the tests.\<close>

lemma refill_stream:
  assumes s: "stream_stored content usable data_bytes cpb (swap_endian dev) (chunk_offset dev) (internal_start_block dev)
      (internal_end_block dev) E fl ds"
    and m: "int (stream_used cpb (stream_pages (data_bytes - CHECKPT_HDR_SIZE) (length ds))) \<le>
      (internal_end_block dev - internal_start_block dev) div 16 + 2"
    and r: "stream_reading content usable data_bytes chunk_bytes cpb fl E dev ds i k"
    and i: "i = k * (data_bytes - CHECKPT_HDR_SIZE)" "i < length ds"
  shows "\<exists>tags' dev'. checkpt_refill tg tags dev = Some (True, tags', dev') \<and>
    stream_reading content usable data_bytes chunk_bytes cpb fl E dev' ds i (Suc k) \<and> same_geometry dev dev' \<and>
    checkpt_byte_offs dev' = int CHECKPT_HDR_SIZE"
proof -
  let ?p = "data_bytes - CHECKPT_HDR_SIZE"
  let ?K = "stream_pages ?p (length ds)"
  let ?j = "k div nat cpb"
  let ?e = "E ! ?j"
  let ?off = "chunk_offset dev"
  have g: "stream_geom data_bytes chunk_bytes cpb dev" using r by (simp add: stream_reading_def Let_def)
  have cpb: "0 < cpb" "chunks_per_block (param dev) = cpb" and D: "CHECKPT_HDR_SIZE < data_bytes" "data_bytes \<le> chunk_bytes"
    and p: "0 < ?p" and start: "0 \<le> internal_start_block dev"
    and hi: "(internal_end_block dev + 1) * cpb < 2 ^ 31" and bo: "chunk_offset dev = block_offset dev * cpb"
    using g by (auto simp: stream_geom_def)
  have kK: "k < ?K" using i by (simp add: stream_pages_iff [OF p])
  have st: "sorted_wrt (<) E" "?K \<le> nat cpb * length E"
    and E: "\<And>b. b \<in> set E \<Longrightarrow> internal_start_block dev \<le> b \<and> b \<le> internal_end_block dev"
      "\<And>b i. b \<in> set E \<Longrightarrow> 0 \<le> i \<Longrightarrow> i < cpb \<Longrightarrow> usable fl (b * cpb + i - ?off)"
    and pg: "stream_page content (swap_endian dev) data_bytes ?off cpb E fl ds k"
    and oth: "\<And>b. internal_start_block dev \<le> b \<Longrightarrow> b \<le> internal_end_block dev \<Longrightarrow> usable fl (b * cpb - ?off)"
      "\<And>b. internal_start_block dev \<le> b \<Longrightarrow> b \<le> internal_end_block dev \<Longrightarrow> b \<notin> set (take (stream_used cpb ?K) E) \<Longrightarrow>
        seq_number (snd (content fl (b * cpb - ?off))) \<noteq> YAFFS_SEQUENCE_CHECKPOINT_DATA"
    using s kK by (auto simp: stream_stored_def Let_def)
  have k: "k < nat cpb * length E" using kK st(2) by simp
  have j: "?j < length E" using k by (simp add: less_mult_imp_div_less mult.commute)
  have eE: "?e \<in> set E" using j by simp
  have e: "internal_start_block dev \<le> ?e" "?e \<le> internal_end_block dev" using E(1) [OF eE] by auto
  have fl: "content (flash dev) = content fl" "usable (flash dev) = usable fl" "checkpt_page_seq dev = int k"
      "checkpt_sum dev = byte_sum (take i ds)" "checkpt_xor dev = byte_xor (take i ds)"
    and pos: "stream_pos cpb E k dev" and bc: "blocks_in_checkpt dev = int (stream_used cpb k)"
    and mx: "checkpt_max_blocks dev = (internal_end_block dev - internal_start_block dev) div 16 + 2"
    using r by (auto simp: stream_reading_def Let_def)
  obtain l buf where l: "checkpt_block_list dev = Some l" "checkpt_max_blocks dev \<le> int (length l)"
    and buf: "checkpt_buffer dev = Some buf" "length buf = chunk_bytes"
    using r by (auto simp: stream_reading_def Let_def)
  text \<open>The place.\<close>
  obtain fl1 l1 dev1 where place: "(if checkpt_cur_block dev < 0
       then do { dev \<leftarrow> yaffs2_checkpt_find_block tg dev; Some (dev\<lparr>checkpt_cur_chunk := 0\<rparr>) }
       else Some dev) = Some dev1"
    and d1: "dev1 = dev\<lparr>flash := fl1, checkpt_cur_block := ?e, checkpt_cur_chunk := int (k mod nat cpb),
      checkpt_next_block := ?e + 1, checkpt_block_list := Some l1, blocks_in_checkpt := int (Suc ?j)\<rparr>"
    and l1: "length l1 = length l" and fl1: "content fl1 = content fl" "usable fl1 = usable fl"
  proof (cases "k mod nat cpb = 0")
    case False
    then have d: "checkpt_cur_block dev = ?e" "checkpt_cur_chunk dev = int (k mod nat cpb)"
        "checkpt_next_block dev = ?e + 1" "stream_used cpb k = Suc ?j"
      using pos by (auto simp: stream_pos_def stream_used_def)
    have "dev = dev\<lparr>flash := flash dev, checkpt_cur_block := ?e, checkpt_cur_chunk := int (k mod nat cpb),
        checkpt_next_block := ?e + 1, checkpt_block_list := Some l, blocks_in_checkpt := int (Suc ?j)\<rparr>"
      using d bc l(1) by (intro yaffs_dev.equality) simp_all
    then show ?thesis using that [of dev l "flash dev"] d(1) e(1) start fl(1,2) by simp
  next
    case True
    have u: "stream_used cpb k = ?j" using True by (simp add: stream_used_def)
    have kj: "k = 0 \<longleftrightarrow> ?j = 0" using True cpb by auto
    have nx: "checkpt_next_block dev = (if ?j = 0 then internal_start_block dev else E ! (?j - 1) + 1)"
        "checkpt_cur_block dev = -1"
      using pos True kj by (simp_all add: stream_pos_def)
    have ge: "internal_start_block dev \<le> checkpt_next_block dev"
      using nx(1) E(1) [of "E ! (?j - 1)"] less_imp_diff_less [OF j, of 1] by auto
    have le: "checkpt_next_block dev \<le> ?e"
      using nx(1) e(1) sorted_wrt_nth_less [OF st(1), of "?j - 1" ?j] j by auto
    have "Suc ?j \<le> stream_used cpb ?K"
      using stream_used_mono [OF cpb(1), of "Suc k" ?K] kK by (simp add: stream_used_Suc [OF cpb(1)])
    then have room: "blocks_in_checkpt dev < checkpt_max_blocks dev" using bc u m mx by simp
    have c: "stream_chunk ?off cpb E k = ?e * cpb - ?off" using True by (simp add: stream_chunk_def)
    have here: "seq_number (snd (content fl (?e * cpb - ?off))) = YAFFS_SEQUENCE_CHECKPOINT_DATA"
        "obj_id (snd (content fl (?e * cpb - ?off))) = word_of_int (?e + 1)"
      using pg by (simp_all add: stream_page_def Let_def c split: prod.splits)
    have "?e + 1 \<le> (internal_end_block dev + 1) * cpb"
      using e(2) cpb(1) start e(1) by (intro order_trans [OF _ mult_left_mono [of 1 cpb]]) auto
    then have si: "sint (word_of_int (?e + 1) :: u32) = ?e + 1"
      using e(1) start hi by (intro sint_word_of_int) auto
    have notin: "b \<notin> set (take (stream_used cpb ?K) E)" if "checkpt_next_block dev \<le> b" "b < ?e" for b
    proof -
      have "b \<notin> set E"
      proof (rule between_not_member [OF st(1) j that(2)])
        show "E ! (?j - 1) < b" if "0 < ?j" using nx(1) that \<open>checkpt_next_block dev \<le> b\<close> by simp
      qed
      then show ?thesis by (meson in_set_takeD)
    qed
    obtain fl1 where f: "find_checkpt_loop tg (blocks_from dev (checkpt_next_block dev)) (checkpt_next_block dev)
          (stack_tags dev) dev = Some (True, dev\<lparr>flash := fl1,
        checkpt_next_block := sint (obj_id (snd (content (flash dev) (?e * cpb - ?off)))),
        checkpt_cur_block := ?e, checkpt_block_list := Some (l[nat (blocks_in_checkpt dev) := ?e]),
        blocks_in_checkpt := blocks_in_checkpt dev + 1\<rparr>)"
      "content fl1 = content (flash dev) \<and> usable fl1 = usable (flash dev)"
    proof -
      have "\<exists>fl. find_checkpt_loop tg (blocks_from dev (checkpt_next_block dev)) (checkpt_next_block dev)
          (stack_tags dev) dev = Some (True, dev\<lparr>flash := fl,
        checkpt_next_block := sint (obj_id (snd (content (flash dev) (?e * cpb - ?off)))),
        checkpt_cur_block := ?e, checkpt_block_list := Some (l[nat (blocks_in_checkpt dev) := ?e]),
        blocks_in_checkpt := blocks_in_checkpt dev + 1\<rparr>) \<and> content fl = content (flash dev) \<and> usable fl = usable (flash dev)"
      proof (rule find_checkpt_finds [OF cpb(2) bo l(1)])
        show "0 \<le> blocks_in_checkpt dev" "blocks_in_checkpt dev < int (length l)" using bc room l(2) by auto
        show "usable (flash dev) (b * cpb - ?off) \<and>
            seq_number (snd (content (flash dev) (b * cpb - ?off))) \<noteq> YAFFS_SEQUENCE_CHECKPOINT_DATA"
          if "checkpt_next_block dev \<le> b" "b < ?e" for b
          using oth [of b] notin [OF that] that ge e fl(1,2) by auto
        show "usable (flash dev) (?e * cpb - ?off)" using oth(1) [of ?e] e fl(2) by simp
        show "seq_number (snd (content (flash dev) (?e * cpb - ?off))) = YAFFS_SEQUENCE_CHECKPOINT_DATA"
          using here fl(1) by simp
        show "checkpt_next_block dev \<le> ?e" by (rule le)
        show "?e < checkpt_next_block dev + int (blocks_from dev (checkpt_next_block dev))"
          using e(2) ge start le by (auto simp: blocks_from_def)
      qed
      then show ?thesis using that by blast
    qed
    let ?l = "l[nat (blocks_in_checkpt dev) := ?e]"
    let ?dev1 = "dev\<lparr>flash := fl1, checkpt_cur_block := ?e, checkpt_cur_chunk := int (k mod nat cpb),
      checkpt_next_block := ?e + 1, checkpt_block_list := Some ?l, blocks_in_checkpt := int (Suc ?j)\<rparr>"
    have "(if checkpt_cur_block dev < 0
       then do { dev \<leftarrow> yaffs2_checkpt_find_block tg dev; Some (dev\<lparr>checkpt_cur_chunk := 0\<rparr>) }
       else Some dev) = Some ?dev1"
      using nx(2) room f(1) True bc u here(2) si fl(1) by (simp add: yaffs2_checkpt_find_block_def)
    then show ?thesis using that [of ?dev1 ?l fl1] f(2) fl(1,2) by simp
  qed
  let ?c = "stream_chunk ?off cpb E k"
  have mod: "int (k mod nat cpb) < cpb" using cpb(1) by (simp add: zmod_int)
  have uc: "usable fl1 ?c" using E(2) [OF eE, of "int (k mod nat cpb)"] mod fl1(2) by (simp add: stream_chunk_def)
  have oc: "apply_chunk_offset dev1 (checkpt_cur_block dev1 * chunks_per_block (param dev1) + checkpt_cur_chunk dev1) = ?c"
    by (simp add: d1 apply_chunk_offset_def stream_chunk_def cpb)
  obtain d t where dt: "content fl ?c = (d, t)" by (cases "content fl ?c")
  then have ld: "length d = chunk_bytes" using content_length [OF uc] fl1(1) by simp
  obtain rest where hd: "take data_bytes d = stream_hdr (swap_endian dev) k (take (k * ?p) ds) @ take ?p (drop (k * ?p) ds) @ rest"
    and t: "chunk_id t = word_of_nat (Suc k)" "seq_number t = YAFFS_SEQUENCE_CHECKPOINT_DATA"
      "ecc_result t \<le> YAFFS_ECC_RESULT_NO_ERROR"
    using pg by (auto simp: stream_page_def Let_def dt)
  obtain fl2 where rd: "read_chunk_tags_fn tg fl1 ?c (Some buf) (Some tags) = Some (YAFFS_OK, Some d, Some t, fl2)"
      "content fl2 = content fl1" "usable fl2 = usable fl1"
    using read_chunk [OF uc buf(2), of tags] dt fl1(1) by auto
  have h: "take CHECKPT_HDR_SIZE d = stream_hdr (swap_endian dev) k (take (k * ?p) ds)"
    using arg_cong [OF hd, of "take CHECKPT_HDR_SIZE"] D by (simp add: min_def)
  let ?full = "int (k mod nat cpb) + 1 \<ge> cpb"
  let ?d2 = "dev1\<lparr>n_page_reads := n_page_reads dev1 + 1, flash := fl2, checkpt_buffer := Some d\<rparr>"
  let ?d3 = "?d2\<lparr>checkpt_byte_offs := int CHECKPT_HDR_SIZE, checkpt_page_seq := int k + 1,
     checkpt_cur_chunk := int (k mod nat cpb) + 1,
     checkpt_cur_block := (if ?full then -1 else ?e)\<rparr>"
  have chk: "yaffs2_checkpt_check_chunk_hdr ?d2 = Some (True, ?d2\<lparr>checkpt_byte_offs := int CHECKPT_HDR_SIZE\<rparr>)"
    using fl(3-5) i(1) h by (intro check_chunk_hdr_stream [where k = k and ds = "take i ds" and b = d]) (simp_all add: d1)
  have ecc: "\<not> ecc_result t > YAFFS_ECC_RESULT_FIXED" using t(3) by (auto simp: ecc_result_order)
  have "checkpt_refill tg tags dev = Some (True, t, ?d3)"
  proof -
    have nn: "\<not> checkpt_cur_block dev1 < 0" using e(1) start by (simp add: d1)
    have f1: "flash dev1 = fl1" "checkpt_buffer dev1 = Some buf" "checkpt_page_seq dev1 = int k"
        "chunks_per_block (param dev1) = cpb" "checkpt_cur_chunk dev1 = int (k mod nat cpb)" "checkpt_cur_block dev1 = ?e"
      using buf(1) fl(3) cpb(2) by (simp_all add: d1)
    have s3: "(if ?full then ?d2\<lparr>checkpt_byte_offs := int CHECKPT_HDR_SIZE, checkpt_page_seq := int k + 1,
        checkpt_cur_chunk := int (k mod nat cpb) + 1, checkpt_cur_block := -1\<rparr>
      else ?d2\<lparr>checkpt_byte_offs := int CHECKPT_HDR_SIZE, checkpt_page_seq := int k + 1,
        checkpt_cur_chunk := int (k mod nat cpb) + 1\<rparr>) = ?d3"
      using f1(6) by (auto intro!: yaffs_dev.equality)
    show ?thesis
      unfolding checkpt_refill_def place bind.bind_lunit if_not_P [OF nn] Let_def oc s3 [symmetric]
      using rd(1) t(1,2) ecc chk by (simp add: f1)
  qed
  moreover have "stream_reading content usable data_bytes chunk_bytes cpb fl E ?d3 ds i (Suc k)"
  proof -
    have full: "?full \<longleftrightarrow> Suc (k mod nat cpb) = nat cpb" using mod by auto
    have "stream_pos cpb E (Suc k) ?d3"
      unfolding stream_pos_Suc [OF cpb(1)] full [symmetric] by (simp add: d1)
    moreover have "stream_geom data_bytes chunk_bytes cpb ?d3"
      using g by (simp add: stream_geom_def d1 table_wf_def n_blocks_def)
    moreover have "\<exists>h rest. length h = CHECKPT_HDR_SIZE \<and> take data_bytes d = h @ take ?p (drop (k * ?p) ds) @ rest"
      using hd by (intro exI [of _ "stream_hdr (swap_endian dev) k (take (k * ?p) ds)"] exI [of _ rest]) simp
    moreover have "\<not> checkpt_open_write dev" using r by (simp add: stream_reading_def Let_def)
    moreover have "checkpt_max_blocks dev \<le> int (length l1)" using l(2) l1 by simp
    moreover have "data_bytes - (Suc k * ?p - i) = CHECKPT_HDR_SIZE" "i \<le> Suc k * ?p" "Suc k * ?p < i + ?p + 1"
      using i D by simp_all
    moreover have "i < length ds" by (rule i(2))
    ultimately show ?thesis
      unfolding stream_reading_def Let_def stream_used_Suc [OF cpb(1)]
      using fl mx rd(2,3) fl1 ld by (simp add: d1 del: mult_Suc)
  qed
  moreover have "same_geometry dev ?d3" by (simp add: same_geometry_def d1)
  ultimately show ?thesis by (intro exI [of _ t] exI [of _ ?d3]) simp
qed

lemma byte_sum_take_Suc: "i < length ds \<Longrightarrow> byte_sum (take (Suc i) ds) = byte_sum (take i ds) + ucast (ds ! i)"
  "i < length ds \<Longrightarrow> byte_xor (take (Suc i) ds) = byte_xor (take i ds) XOR ucast (ds ! i)"
  by (simp_all add: take_Suc_conv_app_nth)

lemma nth_middle: "j < length a \<Longrightarrow> (h @ a @ r) ! (length h + j) = a ! j"
  by (simp add: nth_append)

lemma buffer_used_up:
  assumes "i \<le> (q :: nat)" and "q \<le> i + p" and "D = h + p"
  shows "(int (D - (q - i)) < 0 \<or> int (D - (q - i)) \<ge> int D) \<longleftrightarrow> i = q"
  using assms by auto

lemma diff_next: "(i :: nat) < q \<Longrightarrow> q - i \<le> d \<Longrightarrow> d - (q - Suc i) = Suc (d - (q - i))"
  by auto

lemma get_byte_at:
  assumes "checkpt_buffer dev = Some b" and "checkpt_byte_offs dev = int q" and "q < length b"
  shows "checkpt_get_byte dev = Some (b ! q, dev\<lparr>checkpt_sum := checkpt_sum dev + ucast (b ! q),
    checkpt_xor := checkpt_xor dev XOR ucast (b ! q), checkpt_byte_offs := checkpt_byte_offs dev + 1,
    checkpt_byte_count := checkpt_byte_count dev + 1\<rparr>)"
  using assms by (simp add: checkpt_get_byte_def Let_def)

lemma get_byte_stream:
  assumes r: "stream_reading content usable data_bytes chunk_bytes cpb fl E dev ds i k"
    and i: "i < k * (data_bytes - CHECKPT_HDR_SIZE)" "i < length ds"
  shows "\<exists>dev'. checkpt_get_byte dev = Some (ds ! i, dev') \<and>
    stream_reading content usable data_bytes chunk_bytes cpb fl E dev' ds (Suc i) k \<and> same_geometry dev dev'"
proof -
  let ?p = "data_bytes - CHECKPT_HDR_SIZE"
  have g: "stream_geom data_bytes chunk_bytes cpb dev" and o: "checkpt_byte_offs dev = int (data_bytes - (k * ?p - i))"
    and le: "k * ?p \<le> i + ?p"
    and s: "checkpt_sum dev = byte_sum (take i ds)" "checkpt_xor dev = byte_xor (take i ds)"
    using r by (auto simp: stream_reading_def Let_def)
  have k: "0 < k" using i(1) by (cases k) auto
  obtain b h rest where b: "checkpt_buffer dev = Some b" "length b = chunk_bytes"
    and hd: "length h = CHECKPT_HDR_SIZE" "take data_bytes b = h @ take ?p (drop ((k - 1) * ?p) ds) @ rest"
    using r k by (auto simp: stream_reading_def Let_def)
  have D: "CHECKPT_HDR_SIZE < data_bytes" "data_bytes \<le> chunk_bytes" using g by (auto simp: stream_geom_def)
  have km: "k * ?p = (k - 1) * ?p + ?p" using k by (cases k) auto
  let ?j = "i - (k - 1) * ?p"
  have j: "(k - 1) * ?p \<le> i" "?j < ?p" "data_bytes - (k * ?p - i) = CHECKPT_HDR_SIZE + ?j" "i = (k - 1) * ?p + ?j"
    using i(1) le km D(1) by linarith+
  have nm: "(h @ take ?p (drop ((k - 1) * ?p) ds) @ rest) ! (length h + ?j) = take ?p (drop ((k - 1) * ?p) ds) ! ?j"
    by (rule nth_middle) (use j(2) diff_less_mono [OF i(2) j(1)] in simp)
  have "b ! (CHECKPT_HDR_SIZE + ?j) = take data_bytes b ! (CHECKPT_HDR_SIZE + ?j)" using j(2) by simp
  also have "\<dots> = take ?p (drop ((k - 1) * ?p) ds) ! ?j"
    unfolding hd(2) using nm unfolding hd(1) .
  also have "\<dots> = ds ! i" using j i(2) by simp
  finally have nth: "b ! (CHECKPT_HDR_SIZE + ?j) = ds ! i" .
  let ?dev = "dev\<lparr>checkpt_sum := checkpt_sum dev + ucast (ds ! i), checkpt_xor := checkpt_xor dev XOR ucast (ds ! i),
     checkpt_byte_offs := checkpt_byte_offs dev + 1, checkpt_byte_count := checkpt_byte_count dev + 1\<rparr>"
  have on: "checkpt_byte_offs dev = int (CHECKPT_HDR_SIZE + ?j)" using o j(3) by simp
  have lt: "CHECKPT_HDR_SIZE + ?j < chunk_bytes" using j(2) D by simp
  have "checkpt_get_byte dev = Some (ds ! i, ?dev)"
    by (rule get_byte_at [OF b(1) on, unfolded nth]) (use lt b(2) in simp)
  moreover have "stream_reading content usable data_bytes chunk_bytes cpb fl E ?dev ds (Suc i) k"
  proof -
    have "data_bytes - (k * ?p - Suc i) = Suc (data_bytes - (k * ?p - i))"
      by (rule diff_next [OF i(1)]) (use le in linarith)
    then have "checkpt_byte_offs dev + 1 = int (data_bytes - (k * ?p - Suc i))" unfolding o by linarith
    moreover have "stream_geom data_bytes chunk_bytes cpb ?dev" "stream_pos cpb E k ?dev = stream_pos cpb E k dev"
      using g by (simp_all add: stream_geom_def table_wf_def n_blocks_def stream_pos_def)
    moreover have "Suc i \<le> length ds" "Suc i \<le> k * ?p" "k * ?p \<le> Suc i + ?p" using i le by simp_all
    moreover have "checkpt_sum ?dev = byte_sum (take (Suc i) ds)" "checkpt_xor ?dev = byte_xor (take (Suc i) ds)"
      "checkpt_byte_offs ?dev = checkpt_byte_offs dev + 1"
      using s byte_sum_take_Suc [OF i(2)] by simp_all
    moreover have "checkpt_open_write ?dev = checkpt_open_write dev" "checkpt_page_seq ?dev = checkpt_page_seq dev"
      "flash ?dev = flash dev" "blocks_in_checkpt ?dev = blocks_in_checkpt dev"
      "checkpt_max_blocks ?dev = checkpt_max_blocks dev" "internal_end_block ?dev = internal_end_block dev"
      "internal_start_block ?dev = internal_start_block dev" "checkpt_block_list ?dev = checkpt_block_list dev"
      "checkpt_buffer ?dev = checkpt_buffer dev"
      by simp_all
    ultimately show ?thesis
      using r unfolding stream_reading_def Let_def by metis
  qed
  moreover have "same_geometry dev ?dev" by (simp add: same_geometry_def)
  ultimately show ?thesis by blast
qed

lemma rd_loop_stream:
  assumes "stream_stored content usable data_bytes cpb (swap_endian dev) (chunk_offset dev) (internal_start_block dev)
      (internal_end_block dev) E fl ds"
    and "int (stream_used cpb (stream_pages (data_bytes - CHECKPT_HDR_SIZE) (length ds))) \<le>
      (internal_end_block dev - internal_start_block dev) div 16 + 2"
    and "stream_reading content usable data_bytes chunk_bytes cpb fl E dev ds i k"
    and "i + n \<le> length ds"
  shows "\<exists>dev' k'. checkpt_rd_loop tg n tags dev = Some (take n (drop i ds), dev') \<and>
    stream_reading content usable data_bytes chunk_bytes cpb fl E dev' ds (i + n) k' \<and> same_geometry dev dev'"
  using assms
proof (induction n arbitrary: dev i k tags)
  case 0
  then show ?case by (auto simp: same_geometry_def)
next
  case (Suc n)
  let ?p = "data_bytes - CHECKPT_HDR_SIZE"
  have i: "i < length ds" using Suc.prems(4) by simp
  note sg = same_geometry_def
  have o: "checkpt_byte_offs dev = int (data_bytes - (k * ?p - i))" "i \<le> k * ?p" "k * ?p \<le> i + ?p"
      "data_bytes_per_chunk dev = data_bytes" "CHECKPT_HDR_SIZE < data_bytes"
    using Suc.prems(3) by (auto simp: stream_reading_def Let_def stream_geom_def)
  have out: "outside_buffer dev \<longleftrightarrow> i = k * ?p"
    unfolding outside_buffer_def o(1,4)
    using buffer_used_up [OF o(2,3), of data_bytes CHECKPT_HDR_SIZE] o(5) by simp
  obtain tags1 dev1 k1 where f: "(if outside_buffer dev then checkpt_refill tg tags dev else Some (True, tags, dev)) =
        Some (True, tags1, dev1)"
    and r1: "stream_reading content usable data_bytes chunk_bytes cpb fl E dev1 ds i k1" "same_geometry dev dev1"
    and i1: "i < k1 * ?p"
  proof (cases "i = k * ?p")
    case True
    have "i < Suc k * ?p" using True o(5) by simp
    then show ?thesis
      using refill_stream [OF Suc.prems(1-3) True i, of tags] that out True by auto
  next
    case False
    then show ?thesis using that [of tags dev k] out Suc.prems(3) o(2) by (simp add: sg)
  qed
  obtain dev2 where g: "checkpt_get_byte dev1 = Some (ds ! i, dev2)"
    and r2: "stream_reading content usable data_bytes chunk_bytes cpb fl E dev2 ds (Suc i) k1" "same_geometry dev1 dev2"
    using get_byte_stream [OF r1(1) i1 i] by blast
  have geo: "swap_endian dev2 = swap_endian dev" "chunk_offset dev2 = chunk_offset dev"
      "internal_start_block dev2 = internal_start_block dev" "internal_end_block dev2 = internal_end_block dev"
    using r1(2) r2(2) by (simp_all add: sg)
  obtain dev3 k3 where l: "checkpt_rd_loop tg n tags1 dev2 = Some (take n (drop (Suc i) ds), dev3)"
    and r3: "stream_reading content usable data_bytes chunk_bytes cpb fl E dev3 ds (Suc i + n) k3" "same_geometry dev2 dev3"
    using Suc.IH [of dev2 "Suc i" k1 tags1] Suc.prems(1,2,4) r2(1) by (auto simp: geo)
  have "checkpt_rd_loop tg (Suc n) tags dev = Some (ds ! i # take n (drop (Suc i) ds), dev3)"
    unfolding checkpt_rd_loop.simps f using g l by simp
  moreover have "ds ! i # take n (drop (Suc i) ds) = take (Suc n) (drop i ds)"
    using Cons_nth_drop_Suc [OF i] by (metis take_Suc_Cons)
  moreover have "same_geometry dev dev3" using r1(2) r2(2) r3(2) by (simp add: sg)
  ultimately show ?case using r3(1) by (intro exI [of _ dev3] exI [of _ k3]) simp
qed

lemma open_read_stream:
  assumes g: "stream_geom data_bytes chunk_bytes cpb dev"
    and b: "case checkpt_buffer dev of None \<Rightarrow> new_buffer = Some b | Some b' \<Rightarrow> b' = b" and l: "length b = chunk_bytes"
    and list: "case checkpt_block_list dev of None \<Rightarrow> list_ok
      | Some l \<Rightarrow> (internal_end_block dev - internal_start_block dev) div 16 + 2 \<le> int (length l)"
    and ne: "internal_start_block dev \<le> internal_end_block dev"
  shows "\<exists>dev'. yaffs2_checkpt_open drv new_buffer list_ok dev False = Some (1, dev') \<and>
    stream_reading content usable data_bytes chunk_bytes cpb (flash dev) E dev' ds 0 0 \<and> same_geometry dev dev'"
proof -
  let ?max = "(internal_end_block dev - internal_start_block dev) div 16 + 2"
  have m: "0 \<le> ?max" using ne by (simp add: pos_imp_zdiv_nonneg_iff add_nonneg_nonneg)
  obtain l0 where l0: "(case checkpt_block_list dev of Some l \<Rightarrow> Some l
      | None \<Rightarrow> if list_ok then Some (replicate (nat ?max) 0) else None) = Some l0" "nat ?max \<le> length l0"
    using list by (cases "checkpt_block_list dev") auto
  let ?l = "replicate (nat ?max) (-1) @ drop (nat ?max) l0"
  let ?dev = "dev\<lparr>checkpt_open_write := False, checkpt_buffer := Some b, checkpt_page_seq := 0, checkpt_byte_count := 0,
     checkpt_sum := 0, checkpt_xor := 0, checkpt_cur_block := -1, checkpt_cur_chunk := -1,
     checkpt_next_block := internal_start_block dev, checkpt_byte_offs := int (data_bytes_per_chunk dev),
     blocks_in_checkpt := 0, checkpt_max_blocks := ?max, checkpt_block_list := Some ?l\<rparr>"
  have "yaffs2_checkpt_open drv new_buffer list_ok dev False = Some (1, ?dev)"
    using b l0 by (cases "checkpt_buffer dev"; cases "checkpt_block_list dev"; cases list_ok)
      (simp_all add: yaffs2_checkpt_open_def Let_def)
  moreover have "stream_reading content usable data_bytes chunk_bytes cpb (flash dev) E ?dev ds 0 0"
    using g l m l0(2) by (auto simp: stream_reading_def stream_geom_def stream_pos_def table_wf_def n_blocks_def)
  moreover have "same_geometry dev ?dev" by (simp add: same_geometry_def)
  ultimately show ?thesis by blast
qed

text \<open>The round trip for any handler that keeps the contract.\<close>

theorem stream_round_trip:
  assumes r: "stream_ready content usable data_bytes chunk_bytes cpb dev"
    and n: "length ds \<le> (data_bytes - CHECKPT_HDR_SIZE) * (nat cpb * length (empties dev))"
    and m: "int (stream_used cpb (stream_pages (data_bytes - CHECKPT_HDR_SIZE) (length ds))) \<le>
      (internal_end_block dev - internal_start_block dev) div 16 + 2"
    and b: "case checkpt_buffer dev of None \<Rightarrow> new_buffer = Some b | Some b' \<Rightarrow> b' = b" "length b = chunk_bytes"
    and ne: "internal_start_block dev \<le> internal_end_block dev"
  shows "\<exists>dev1 dev2 dev3. yaffs2_checkpt_open drv new_buffer list_ok dev True = Some (1, dev1) \<and>
     yaffs2_checkpt_wr tg dev1 ds = Some (int (length ds), dev2) \<and> yaffs_checkpt_close tg dev2 = Some (1, dev3) \<and>
     (\<forall>b. blk_valid dev b \<longrightarrow> block_state (bi_of dev3 b) =
        (if b \<in> set (take (stream_used cpb (stream_pages (data_bytes - CHECKPT_HDR_SIZE) (length ds))) (empties dev))
         then YAFFS_BLOCK_STATE_CHECKPOINT else block_state (bi_of dev b))) \<and>
     (\<forall>dev4 b' drv'. same_geometry dev dev4 \<and> table_wf dev4 \<and> flash dev4 = flash dev3 \<and>
        checkpt_buffer dev4 = None \<and> checkpt_block_list dev4 = None \<and> length b' = chunk_bytes \<longrightarrow>
        (\<exists>dev5 dev6. yaffs2_checkpt_open drv' (Some b') True dev4 False = Some (1, dev5) \<and>
          yaffs2_checkpt_rd tg dev5 (length ds) = Some (int (length ds), ds, dev6) \<and>
          yaffs2_get_checkpt_sum dev6 = yaffs2_get_checkpt_sum dev3))"
proof -
  let ?p = "data_bytes - CHECKPT_HDR_SIZE"
  let ?E = "empties dev"
  have g: "stream_geom data_bytes chunk_bytes cpb dev" using r by (simp add: stream_ready_def)
  have p: "0 < ?p" using g by (simp add: stream_geom_def)
  have u: "usable (flash dev) (b * cpb + i - chunk_offset dev)" if "b \<in> set ?E" "0 \<le> i" "i < cpb" for b i
    using r that by (auto simp: stream_ready_def)
  obtain dev1 where o: "yaffs2_checkpt_open drv new_buffer list_ok dev True = Some (1, dev1)"
    and w1: "stream_written content usable data_bytes chunk_bytes cpb dev dev1 [] 0"
    and b1: "stream_buffer data_bytes chunk_bytes dev1 [] 0"
    using open_write_stream [OF r b] by blast
  obtain dev2 k where l: "checkpt_wr_loop tg ds 0 dev1 = Some (int (length ds), dev2)"
    and w2: "stream_written content usable data_bytes chunk_bytes cpb dev dev2 ds k"
    and b2: "stream_buffer data_bytes chunk_bytes dev2 ds k" and k: "length ds < Suc k * ?p"
    using wr_loop_stream [OF w1 b1 _ _ u, of ds 0] p n by auto
  have wr: "yaffs2_checkpt_wr tg dev1 ds = Some (int (length ds), dev2)"
    using l w1 b1 by (auto simp: yaffs2_checkpt_wr_def stream_written_def stream_buffer_def)
  obtain dev3 where c: "yaffs_checkpt_close tg dev2 = Some (1, dev3)"
    and s3: "checkpt_sum dev3 = byte_sum ds" "checkpt_xor dev3 = byte_xor ds"
    and bs: "\<forall>b. blk_valid dev b \<longrightarrow> block_state (bi_of dev3 b) =
        (if b \<in> set (take (stream_used cpb (stream_pages ?p (length ds))) ?E)
         then YAFFS_BLOCK_STATE_CHECKPOINT else block_state (bi_of dev b))"
    and st: "stream_stored content usable data_bytes cpb (swap_endian dev) (chunk_offset dev)
      (internal_start_block dev) (internal_end_block dev) ?E (flash dev3) ds"
    using close_write_stream [OF r w2 b2 k n] by blast
  have rd: "\<exists>dev5 dev6. yaffs2_checkpt_open drv' (Some b') True dev4 False = Some (1, dev5) \<and>
          yaffs2_checkpt_rd tg dev5 (length ds) = Some (int (length ds), ds, dev6) \<and>
          yaffs2_get_checkpt_sum dev6 = yaffs2_get_checkpt_sum dev3"
    if geo: "same_geometry dev dev4" "table_wf dev4" and fl: "flash dev4 = flash dev3"
      and none: "checkpt_buffer dev4 = None" "checkpt_block_list dev4 = None" and b': "length b' = chunk_bytes" for dev4 b' drv'
  proof -
    have same: "swap_endian dev4 = swap_endian dev" "chunk_offset dev4 = chunk_offset dev"
        "internal_start_block dev4 = internal_start_block dev" "internal_end_block dev4 = internal_end_block dev"
      using geo(1) by (simp_all add: same_geometry_def)
    obtain dev5 where o5: "yaffs2_checkpt_open drv' (Some b') True dev4 False = Some (1, dev5)"
      and r5: "stream_reading content usable data_bytes chunk_bytes cpb (flash dev4) ?E dev5 ds 0 0"
      and g5: "same_geometry dev4 dev5"
      using open_read_stream [OF same_geometry_stream [OF g geo], of "Some b'" b' True drv' ?E ds] none b' ne same by auto
    have s5: "stream_stored content usable data_bytes cpb (swap_endian dev5) (chunk_offset dev5)
        (internal_start_block dev5) (internal_end_block dev5) ?E (flash dev4) ds"
      "int (stream_used cpb (stream_pages ?p (length ds))) \<le> (internal_end_block dev5 - internal_start_block dev5) div 16 + 2"
      using st m same g5 fl by (simp_all add: same_geometry_def)
    obtain dev6 k6 where l6: "checkpt_rd_loop tg (length ds) (stack_tags dev5) dev5 = Some (ds, dev6)"
      and r6: "stream_reading content usable data_bytes chunk_bytes cpb (flash dev4) ?E dev6 ds (length ds) k6"
      using rd_loop_stream [OF s5 r5, of "length ds" "stack_tags dev5"] by auto
    have "yaffs2_checkpt_rd tg dev5 (length ds) = Some (int (length ds), ds, dev6)"
      using l6 r5 by (auto simp: yaffs2_checkpt_rd_def stream_reading_def Let_def)
    moreover have "yaffs2_get_checkpt_sum dev6 = yaffs2_get_checkpt_sum dev3"
      using r6 s3 by (simp add: yaffs2_get_checkpt_sum_def stream_reading_def Let_def)
    ultimately show ?thesis using o5 by blast
  qed
  show ?thesis using o wr c bs rd by blast
qed

end

section \<open>On the RAM simulator\<close>

text \<open>The device is ready to take a checkpoint on the blocks that are empty.\<close>

definition ram_stream_ready :: "bool \<Rightarrow> bool \<Rightarrow> sim_data marshall yaffs_dev \<Rightarrow> bool" where
  "ram_stream_ready nte sw dev \<longleftrightarrow> internal_start_block dev \<le> internal_end_block dev \<and>
     checkpt_buffer dev = None \<and>
     stream_ready (marshall_content (yramsim_param nte sw) ram_content) (marshall_usable (yramsim_param nte sw) ram_good)
       DATA_SIZE DATA_SIZE (int PAGES_PER_BLOCK) dev"

text \<open>The number of blocks that the stream of \<open>n\<close> bytes fills.\<close>

definition ram_stream_blocks :: "nat \<Rightarrow> nat" where
  "ram_stream_blocks n = stream_used (int PAGES_PER_BLOCK) (stream_pages (DATA_SIZE - CHECKPT_HDR_SIZE) n)"

text \<open>
  C8: the round trip of a checkpoint stream on the RAM simulator, with or without tags ECC and in
  either byte order.  A device with no checkpoint on the flash and room in its empty blocks opens the stream, writes
  the bytes \<open>ds\<close> and closes it: all of them are taken, and the blocks used, the first of the
  empty ones, are marked as checkpoint blocks and no others.  Any device of the same geometry that later sees this flash, in
  whatever state its other fields are, opens the stream, reads back exactly \<open>ds\<close> and has the same checksum.  The reader gives
  up after \<open>n div 16 + 2\<close> blocks, so the stream must not fill more of them.
\<close>

theorem checkpt_stream_round_trip:
  assumes "ram_stream_ready nte sw dev"
    and "length ds \<le> (DATA_SIZE - CHECKPT_HDR_SIZE) * (PAGES_PER_BLOCK * length (empties dev))"
    and "int (ram_stream_blocks (length ds)) \<le> (internal_end_block dev - internal_start_block dev) div 16 + 2"
    and "length b = DATA_SIZE"
  shows "\<exists>dev1 dev2 dev3. yaffs2_checkpt_open drv (Some b) list_ok dev True = Some (1, dev1) \<and>
     yaffs2_checkpt_wr (yaffs_tags_marshall_install yramsim_driver (yramsim_param nte sw)) dev1 ds
       = Some (int (length ds), dev2) \<and>
     yaffs_checkpt_close (yaffs_tags_marshall_install yramsim_driver (yramsim_param nte sw)) dev2 = Some (1, dev3) \<and>
     (\<forall>b. blk_valid dev b \<longrightarrow> block_state (bi_of dev3 b) =
        (if b \<in> set (take (ram_stream_blocks (length ds)) (empties dev)) then YAFFS_BLOCK_STATE_CHECKPOINT
         else block_state (bi_of dev b))) \<and>
     (\<forall>dev4 b' drv'. same_geometry dev dev4 \<and> table_wf dev4 \<and> flash dev4 = flash dev3 \<and>
        checkpt_buffer dev4 = None \<and> checkpt_block_list dev4 = None \<and> length b' = DATA_SIZE \<longrightarrow>
        (\<exists>dev5 dev6. yaffs2_checkpt_open drv' (Some b') True dev4 False = Some (1, dev5) \<and>
          yaffs2_checkpt_rd (yaffs_tags_marshall_install yramsim_driver (yramsim_param nte sw)) dev5 (length ds)
            = Some (int (length ds), ds, dev6) \<and>
          yaffs2_get_checkpt_sum dev6 = yaffs2_get_checkpt_sum dev3))"
proof -
  have p: "mp_data_bytes_per_chunk (yramsim_param nte sw) = DATA_SIZE" by (simp add: yramsim_param_def)
  have r: "stream_ready (marshall_content (yramsim_param nte sw) ram_content) (marshall_usable (yramsim_param nte sw) ram_good)
       DATA_SIZE DATA_SIZE (int PAGES_PER_BLOCK) dev"
    and ne: "internal_start_block dev \<le> internal_end_block dev" "checkpt_buffer dev = None"
    using assms(1) by (simp_all add: ram_stream_ready_def)
  have g: "stream_geom DATA_SIZE DATA_SIZE (int PAGES_PER_BLOCK) dev" using r by (simp add: stream_ready_def)
  note rt = ram_stream.stream.stream_round_trip [where no_tags_ecc = nte and swap_endian = sw, unfolded p, OF r]
  have bl: "int (stream_used (int PAGES_PER_BLOCK) (stream_pages (DATA_SIZE - CHECKPT_HDR_SIZE) (length ds)))
      \<le> (internal_end_block dev - internal_start_block dev) div 16 + 2"
    using assms(3) by (simp add: ram_stream_blocks_def)
  have buf: "case checkpt_buffer dev of None \<Rightarrow> Some b = Some b | Some b' \<Rightarrow> b' = b" using ne(2) by simp
  show ?thesis
    unfolding ram_stream_blocks_def
    by (rule rt [OF _ bl buf assms(4) ne(1)]) (use assms(2) in simp)
qed

definition sample_stream_dev :: "sim_data marshall yaffs_dev" where
  "sample_stream_dev = (zero_dev (zero_param\<lparr>chunks_per_block := 64, is_yaffs2 := True\<rparr>)
     (sample_marshall\<lparr>m_drv := yramsim_alloc_sim_data 4\<rparr>))
     \<lparr>data_bytes_per_chunk := DATA_SIZE, internal_start_block := 1, internal_end_block := 3, n_erased_blocks := 2,
      block_info := [zero_block_info\<lparr>block_state := YAFFS_BLOCK_STATE_FULL\<rparr>,
        zero_block_info\<lparr>block_state := YAFFS_BLOCK_STATE_EMPTY\<rparr>, zero_block_info\<lparr>block_state := YAFFS_BLOCK_STATE_EMPTY\<rparr>]\<rparr>"

lemma sample_stream_empties: "empties sample_stream_dev = [2, 3]"
  by (simp add: empties_def sample_stream_dev_def bi_of_def bi_index_def zero_dev_def upto.simps)

lemma sample_stream_ready: "ram_stream_ready True False sample_stream_dev"
proof -
  have g: "ram_good (yramsim_alloc_sim_data 4) c" if "0 \<le> c" "c < 256" for c
    using that by (auto simp: yramsim_alloc_sim_data_def ram_good_def ram_chunk_ok_def
      erased_ram_block_def PAGES_PER_BLOCK_def)
  have pg: "ram_content (yramsim_alloc_sim_data 4) c = (replicate DATA_SIZE 0xff, replicate SPARE_SIZE 0xff)"
    if "0 \<le> c" "c < 256" for c
    using that by (auto simp: yramsim_alloc_sim_data_def ram_content_def ram_page_def erased_ram_block_def
      PAGES_PER_BLOCK_def PAGE_SIZE_def)
  have sq: "seq_number (oob_tags (yramsim_param True False) e (replicate SPARE_SIZE 0xff)) = 0" for e
    unfolding oob_tags_old [of _ e] by code_simp
  have fl: "m_drv (flash sample_stream_dev) = yramsim_alloc_sim_data 4"
      "length (m_spare_buffer (flash sample_stream_dev)) = 100" "length (m_temp_buffer (flash sample_stream_dev)) = DATA_SIZE"
    by (simp_all add: sample_stream_dev_def sample_marshall_def zero_dev_def)
  have us: "marshall_usable (yramsim_param True False) ram_good (flash sample_stream_dev) c" if "0 \<le> c" "c < 256" for c
    using g [OF that] fl by (simp add: marshall_usable_def yramsim_param_def)
  have dv: "internal_start_block sample_stream_dev = 1" "internal_end_block sample_stream_dev = 3"
      "chunk_offset sample_stream_dev = 0" "block_offset sample_stream_dev = 0"
      "checkpt_buffer sample_stream_dev = None" "n_erased_blocks sample_stream_dev = 2"
      "chunks_per_block (param sample_stream_dev) = 64" "n_reserved_blocks (param sample_stream_dev) = 0"
      "data_bytes_per_chunk sample_stream_dev = DATA_SIZE"
    by (simp_all add: sample_stream_dev_def zero_dev_def zero_param_def)
  have tw: "table_wf sample_stream_dev"
    by (simp add: table_wf_def n_blocks_def sample_stream_dev_def zero_dev_def)
  have st: "block_state (bi_of sample_stream_dev b) \<noteq> YAFFS_BLOCK_STATE_CHECKPOINT" if "b \<in> {1, 2, 3}" for b
    using that by (auto simp: bi_of_def bi_index_def sample_stream_dev_def zero_dev_def)
  have v: "b \<in> {1, 2, 3}" if "blk_valid sample_stream_dev b" for b
    using that by (auto simp: blk_valid_def dv)
  have se: "seq_number (snd (marshall_content (yramsim_param True False) ram_content (flash sample_stream_dev) c)) = 0"
    if "0 \<le> c" "c < 256" for c
    using pg [OF that] sq by (simp add: marshall_content_def fl yramsim_param_def)
  have "stream_ready (marshall_content (yramsim_param True False) ram_content)
      (marshall_usable (yramsim_param True False) ram_good) DATA_SIZE DATA_SIZE 64 sample_stream_dev"
    unfolding stream_ready_def sample_stream_empties dv
    using tw st v us se
    by (auto simp: stream_geom_def dv DATA_SIZE_def CHECKPT_HDR_SIZE_def YAFFS_SEQUENCE_CHECKPOINT_DATA_def dest!: v)
  then show ?thesis using dv by (simp add: ram_stream_ready_def PAGES_PER_BLOCK_def)
qed

text \<open>The simulator as the driver of a device whose handler is the marshalling one.\<close>

definition sample_marshall_driver :: "sim_data marshall yaffs_driver" where
  "sample_marshall_driver =
     \<lparr>drv_write_chunk_fn = (\<lambda>m c d n b. let (r, s) = yramsim_wr_chunk (m_drv m) c d n b in (r, m\<lparr>m_drv := s\<rparr>)),
      drv_read_chunk_fn = (\<lambda>m c d n b k. let (r, d, b, e, s) = yramsim_rd_chunk (m_drv m) c d n b k in (r, d, b, e, m\<lparr>m_drv := s\<rparr>)),
      drv_erase_fn = (\<lambda>m b. let (r, s) = yramsim_erase (m_drv m) b in (r, m\<lparr>m_drv := s\<rparr>)),
      drv_mark_bad_fn = (\<lambda>m b. let (r, s) = yramsim_mark_block_bad (m_drv m) b in (r, m\<lparr>m_drv := s\<rparr>)),
      drv_check_bad_fn = (\<lambda>m b. let (r, s) = yramsim_check_block_bad (m_drv m) b in (r, m\<lparr>m_drv := s\<rparr>)),
      drv_initialise_fn = None, drv_deinitialise_fn = None\<rparr>"

theorem checkpt_stream_round_trip_witness:
  "\<exists>dev1 dev2 dev3 dev5 dev6. yaffs2_checkpt_open sample_marshall_driver (Some (replicate DATA_SIZE 9)) True sample_stream_dev True
       = Some (1, dev1) \<and>
     yaffs2_checkpt_wr (yaffs_tags_marshall_install yramsim_driver (yramsim_param True False)) dev1 (replicate 5000 7)
       = Some (5000, dev2) \<and>
     yaffs_checkpt_close (yaffs_tags_marshall_install yramsim_driver (yramsim_param True False)) dev2 = Some (1, dev3) \<and>
     yaffs2_checkpt_open sample_marshall_driver (Some (replicate DATA_SIZE 0)) True (sample_stream_dev\<lparr>flash := flash dev3\<rparr>) False
       = Some (1, dev5) \<and>
     yaffs2_checkpt_rd (yaffs_tags_marshall_install yramsim_driver (yramsim_param True False)) dev5 5000
       = Some (5000, replicate 5000 7, dev6)"
proof -
  have bl: "ram_stream_blocks 5000 = 1" by code_simp
  let ?tg = "yaffs_tags_marshall_install yramsim_driver (yramsim_param True False)"
  have d: "internal_end_block sample_stream_dev = 3" "internal_start_block sample_stream_dev = 1"
      "checkpt_buffer sample_stream_dev = None" "checkpt_block_list sample_stream_dev = None"
      "table_wf sample_stream_dev"
    by (simp_all add: sample_stream_dev_def zero_dev_def table_wf_def n_blocks_def)
  obtain dev1 dev2 dev3 where w: "yaffs2_checkpt_open sample_marshall_driver (Some (replicate DATA_SIZE 9)) True sample_stream_dev True = Some (1, dev1)"
      "yaffs2_checkpt_wr ?tg dev1 (replicate 5000 7) = Some (5000, dev2)" "yaffs_checkpt_close ?tg dev2 = Some (1, dev3)"
    and r: "\<forall>dev4 b' drv'. same_geometry sample_stream_dev dev4 \<and> table_wf dev4 \<and> flash dev4 = flash dev3 \<and>
        checkpt_buffer dev4 = None \<and> checkpt_block_list dev4 = None \<and> length b' = DATA_SIZE \<longrightarrow>
        (\<exists>dev5 dev6. yaffs2_checkpt_open drv' (Some b') True dev4 False = Some (1, dev5) \<and>
          yaffs2_checkpt_rd ?tg dev5 5000 = Some (5000, replicate 5000 7, dev6) \<and>
          yaffs2_get_checkpt_sum dev6 = yaffs2_get_checkpt_sum dev3)"
    using checkpt_stream_round_trip [OF sample_stream_ready, of "replicate 5000 7" "replicate DATA_SIZE 9" sample_marshall_driver True]
    by (auto simp: d bl sample_stream_empties ram_consts CHECKPT_HDR_SIZE_def)
  let ?dev4 = "sample_stream_dev\<lparr>flash := flash dev3\<rparr>"
  have "same_geometry sample_stream_dev ?dev4" "table_wf ?dev4"
    using d(5) by (simp_all add: same_geometry_def table_wf_def n_blocks_def)
  then obtain dev5 dev6 where "yaffs2_checkpt_open sample_marshall_driver (Some (replicate DATA_SIZE 0)) True ?dev4 False = Some (1, dev5)"
      "yaffs2_checkpt_rd ?tg dev5 5000 = Some (5000, replicate 5000 7, dev6)"
    using r [rule_format, of ?dev4 "replicate DATA_SIZE 0" sample_marshall_driver] d(3,4) by auto
  then show ?thesis using w by blast
qed


end
