(* ===== verification/Yaffs_Checkpt_Objs.thy ===== *)
theory Yaffs_Checkpt_Objs
  imports Yaffs_Checkpt_Recs Yaffs_Checkpt_Read Yaffs_Obj_Props
begin

text \<open>
  The structures of a checkpoint and their bytes, and the object records: what is written of
  an object is what it gets when the record is read.
\<close>

section \<open>Words and bits\<close>

lemma u32_at_append:
  "u32_at (u32_bytes w @ bs) 0 = w"
  "u32_at (u32_bytes w @ bs) (4 + i) = u32_at bs i"
  by (simp_all add: u32_at_def u32_bytes_def nth_append ac_simps)

lemma length_words_bytes [simp]: "length (words_bytes ws) = 4 * length ws"
  by (induction ws) (simp_all add: words_bytes_def)

lemma u32_at_words_append: "i < length ws \<Longrightarrow> u32_at (words_bytes ws @ bs) (4 * i) = ws ! i"
proof (induction ws arbitrary: i)
  case (Cons w ws)
  then show ?case by (cases i) (simp_all add: words_bytes_def u32_at_append)
qed simp

lemma u32_at_words: "i mod 4 = 0 \<Longrightarrow> i div 4 < length ws \<Longrightarrow> u32_at (words_bytes ws) i = ws ! (i div 4)"
  using u32_at_words_append [of "i div 4" ws "[]"] by (metis append_Nil2 dvd_eq_mod_eq_0 dvd_mult_div_cancel)

lemma bit_assigned:
  assumes "n < 32"
  shows "bit (co_bit_field (yaffs2_checkpt_obj_bit_assign (i, w) v cp)) n =
    (if i \<le> n \<and> n < i + w then bit v (n - i) else bit (co_bit_field cp) n)"
  using assms unfolding yaffs2_checkpt_obj_bit_assign_def
  by (auto simp: bit_simps push_bit_of_1 Let_def simp flip: mask_eq_decr_exp)

lemma bit_got:
  "n < 32 \<Longrightarrow> bit (yaffs2_checkpt_obj_bit_get cp (i, w)) n = (n < w \<and> bit (co_bit_field cp) (i + n))"
  unfolding yaffs2_checkpt_obj_bit_get_def
  by (auto simp: bit_simps push_bit_of_1 add.commute [of i] simp flip: mask_eq_decr_exp)

lemma get_assigned:
  assumes "i + w \<le> 32"
  shows "yaffs2_checkpt_obj_bit_get (yaffs2_checkpt_obj_bit_assign (i, w) v cp) (i, w) = take_bit w v"
  using assms by (auto intro!: bit_word_eqI simp: bit_got bit_assigned bit_simps)

lemma get_other_assigned:
  assumes "j + u \<le> 32" and "j + u \<le> i \<or> i + w \<le> j"
  shows "yaffs2_checkpt_obj_bit_get (yaffs2_checkpt_obj_bit_assign (i, w) v cp) (j, u) = yaffs2_checkpt_obj_bit_get cp (j, u)"
  using assms by (auto intro!: bit_word_eqI simp: bit_got bit_assigned bit_simps)

lemma co_assign [simp]:
  "co_struct_type (yaffs2_checkpt_obj_bit_assign p v cp) = co_struct_type cp"
  "co_obj_id (yaffs2_checkpt_obj_bit_assign p v cp) = co_obj_id cp"
  "co_parent_id (yaffs2_checkpt_obj_bit_assign p v cp) = co_parent_id cp"
  "co_hdr_chunk (yaffs2_checkpt_obj_bit_assign p v cp) = co_hdr_chunk cp"
  "co_n_data_chunks (yaffs2_checkpt_obj_bit_assign p v cp) = co_n_data_chunks cp"
  "co_size_or_equiv_obj (yaffs2_checkpt_obj_bit_assign p v cp) = co_size_or_equiv_obj cp"
  by (cases p; simp add: yaffs2_checkpt_obj_bit_assign_def Let_def)+

lemma get_other_fields [simp]:
  "yaffs2_checkpt_obj_bit_get (cp\<lparr>co_struct_type := a\<rparr>) p = yaffs2_checkpt_obj_bit_get cp p"
  "yaffs2_checkpt_obj_bit_get (cp\<lparr>co_n_data_chunks := b\<rparr>) p = yaffs2_checkpt_obj_bit_get cp p"
  "yaffs2_checkpt_obj_bit_get (cp\<lparr>co_size_or_equiv_obj := n\<rparr>) p = yaffs2_checkpt_obj_bit_get cp p"
  by (simp_all add: yaffs2_checkpt_obj_bit_get_def)

section \<open>Structures and their bytes\<close>

lemma u64_parts: "ucast (ucast n :: u32) OR push_bit 32 (ucast (ucast (drop_bit 32 n) :: u32)) = (n :: u64)"
  by (rule bit_word_eqI) (auto simp: bit_simps)

lemma bytes_co_bytes [simp]: "bytes_co (co_bytes c) = c"
  by (simp add: bytes_co_def co_bytes_def u32_at_words u64_parts)

lemma bytes_cd_bytes [simp]: "bytes_cd (cd_bytes c) = c"
  by (simp add: bytes_cd_def cd_bytes_def u32_at_words)

lemma bytes_cv_bytes [simp]: "bytes_cv (cv_bytes c) = c"
  by (simp add: bytes_cv_def cv_bytes_def u32_at_words)

lemma length_structs [simp]: "length (co_bytes c) = 32" "length (cd_bytes d) = 36" "length (cv_bytes v) = 16"
  by (simp_all add: co_bytes_def cd_bytes_def cv_bytes_def)

lemma do_endian_twice [simp]:
  "yaffs2_do_endian_checkpt_obj dev (yaffs2_do_endian_checkpt_obj dev' cp) = cp" if "swap_endian dev' = swap_endian dev"
  using that by (simp add: yaffs2_do_endian_checkpt_obj_def)

lemma do_endian_dev_twice [simp]:
  "yaffs2_do_endian_checkpt_dev dev (yaffs2_do_endian_checkpt_dev dev' cd) = cd" if "swap_endian dev' = swap_endian dev"
  using that by (simp add: yaffs2_do_endian_checkpt_dev_def)

lemma do_endian_marker_twice [simp]:
  "yaffs2_do_endian_validity_marker dev (yaffs2_do_endian_validity_marker dev' v) = v" if "swap_endian dev' = swap_endian dev"
  using that by (simp add: yaffs2_do_endian_validity_marker_def)

section \<open>Objects\<close>

text \<open>What a record keeps of an object.\<close>

definition same_record :: "yaffs_obj \<Rightarrow> yaffs_obj \<Rightarrow> bool" where
  "same_record x y \<longleftrightarrow> variant_type y = variant_type x \<and> o_deleted y = o_deleted x \<and> o_soft_del y = o_soft_del x \<and>
     o_unlinked y = o_unlinked x \<and> o_fake y = o_fake x \<and> o_rename_allowed y = o_rename_allowed x \<and>
     o_unlink_allowed y = o_unlink_allowed x \<and> o_serial y = o_serial x \<and> o_hdr_chunk y = o_hdr_chunk x \<and>
     o_n_data_chunks y = o_n_data_chunks x \<and>
     (case o_variant x of
        FileVar f \<Rightarrow> \<exists>g. o_variant y = FileVar g \<and> file_size g = file_size f \<and> stored_size g = file_size f
      | HardlinkVar e i \<Rightarrow> \<exists>e'. o_variant y = HardlinkVar e' i
      | _ \<Rightarrow> True)"

definition record_fits :: "yaffs_obj \<Rightarrow> bool" where
  "record_fits x \<longleftrightarrow> - (2 ^ 31) \<le> o_hdr_chunk x \<and> o_hdr_chunk x < 2 ^ 31 \<and>
     - (2 ^ 31) \<le> o_n_data_chunks x \<and> o_n_data_chunks x < 2 ^ 31 \<and>
     (case o_variant x of FileVar f \<Rightarrow> 0 \<le> file_size f \<and> file_size f < 2 ^ 63 | _ \<Rightarrow> True)"

lemma sint_of_int_32: "- (2 ^ 31) \<le> i \<Longrightarrow> i < 2 ^ 31 \<Longrightarrow> sint (word_of_int i :: u32) = i"
  by transfer (simp add: signed_take_bit_int_eq_self)

lemma sint_of_int_64: "0 \<le> i \<Longrightarrow> i < 2 ^ 63 \<Longrightarrow> sint (word_of_int i :: u64) = i"
  by transfer (simp add: signed_take_bit_int_eq_self)

lemma var_type_3: "take_bit 3 (variant_type x) = variant_type x"
  by (cases "o_variant x") (simp_all add: variant_type_def)

lemma take_bit_ucast_8: "take_bit 8 (ucast c :: u32) = ucast (c :: u8)"
  using bit_imp_le_length [of c] by (auto intro!: bit_word_eqI simp: bit_simps)

lemma obj_record_bits:
  assumes "yaffs2_obj_checkpt_obj s cp x = Some cp'"
  shows "yaffs2_checkpt_obj_bit_get cp' CHECKPOINT_VARIANT_BITS = variant_type x"
    "yaffs2_checkpt_obj_bit_get cp' CHECKPOINT_DELETED_BITS = of_bool (o_deleted x)"
    "yaffs2_checkpt_obj_bit_get cp' CHECKPOINT_SOFT_DEL_BITS = of_bool (o_soft_del x)"
    "yaffs2_checkpt_obj_bit_get cp' CHECKPOINT_UNLINKED_BITS = of_bool (o_unlinked x)"
    "yaffs2_checkpt_obj_bit_get cp' CHECKPOINT_FAKE_BITS = of_bool (o_fake x)"
    "yaffs2_checkpt_obj_bit_get cp' CHECKPOINT_RENAME_ALLOWED_BITS = of_bool (o_rename_allowed x)"
    "yaffs2_checkpt_obj_bit_get cp' CHECKPOINT_UNLINK_ALLOWED_BITS = of_bool (o_unlink_allowed x)"
    "yaffs2_checkpt_obj_bit_get cp' CHECKPOINT_SERIAL_BITS = ucast (o_serial x)"
proof -
  have t: "take_bit (Suc 0) (of_bool b :: u32) = of_bool b" "take_bit 8 (ucast c :: u32) = ucast (c :: u8)" for b c
    by (cases b) (simp_all add: take_bit_ucast_8)
  obtain pid where "(case o_parent x of None \<Rightarrow> Some 0 | Some p \<Rightarrow> do { x \<leftarrow> objs s p; Some (o_obj_id x) }) = Some pid"
    using assms unfolding yaffs2_obj_checkpt_obj_def bind_eq_Some_conv by blast
  then have c: "\<And>p. yaffs2_checkpt_obj_bit_get cp' p = yaffs2_checkpt_obj_bit_get
      (yaffs2_checkpt_obj_bit_assign CHECKPOINT_SERIAL_BITS (ucast (o_serial x))
      (yaffs2_checkpt_obj_bit_assign CHECKPOINT_UNLINK_ALLOWED_BITS (of_bool (o_unlink_allowed x))
      (yaffs2_checkpt_obj_bit_assign CHECKPOINT_RENAME_ALLOWED_BITS (of_bool (o_rename_allowed x))
      (yaffs2_checkpt_obj_bit_assign CHECKPOINT_FAKE_BITS (of_bool (o_fake x))
      (yaffs2_checkpt_obj_bit_assign CHECKPOINT_UNLINKED_BITS (of_bool (o_unlinked x))
      (yaffs2_checkpt_obj_bit_assign CHECKPOINT_SOFT_DEL_BITS (of_bool (o_soft_del x))
      (yaffs2_checkpt_obj_bit_assign CHECKPOINT_DELETED_BITS (of_bool (o_deleted x))
      (yaffs2_checkpt_obj_bit_assign CHECKPOINT_VARIANT_BITS (variant_type x) (cp\<lparr>co_obj_id := o_obj_id x, co_parent_id := pid,
         co_hdr_chunk := word_of_int (o_hdr_chunk x)\<rparr>))))))))) p" for p
    using assms unfolding yaffs2_obj_checkpt_obj_def Let_def by (cases "o_variant x") auto
  show "yaffs2_checkpt_obj_bit_get cp' CHECKPOINT_VARIANT_BITS = variant_type x"
    "yaffs2_checkpt_obj_bit_get cp' CHECKPOINT_DELETED_BITS = of_bool (o_deleted x)"
    "yaffs2_checkpt_obj_bit_get cp' CHECKPOINT_SOFT_DEL_BITS = of_bool (o_soft_del x)"
    "yaffs2_checkpt_obj_bit_get cp' CHECKPOINT_UNLINKED_BITS = of_bool (o_unlinked x)"
    "yaffs2_checkpt_obj_bit_get cp' CHECKPOINT_FAKE_BITS = of_bool (o_fake x)"
    "yaffs2_checkpt_obj_bit_get cp' CHECKPOINT_RENAME_ALLOWED_BITS = of_bool (o_rename_allowed x)"
    "yaffs2_checkpt_obj_bit_get cp' CHECKPOINT_UNLINK_ALLOWED_BITS = of_bool (o_unlink_allowed x)"
    "yaffs2_checkpt_obj_bit_get cp' CHECKPOINT_SERIAL_BITS = ucast (o_serial x)"
    unfolding c checkpt_bit_places by (simp_all only: get_assigned get_other_assigned var_type_3 t, simp_all add: get_assigned get_other_assigned var_type_3 t)
qed

lemma obj_record_fields:
  assumes "yaffs2_obj_checkpt_obj s cp x = Some cp'"
  shows "co_obj_id cp' = o_obj_id x" "co_hdr_chunk cp' = word_of_int (o_hdr_chunk x)"
    "co_n_data_chunks cp' = word_of_int (o_n_data_chunks x)"
    "(case o_parent x of None \<Rightarrow> co_parent_id cp' = 0 | Some p \<Rightarrow> \<exists>d. objs s p = Some d \<and> co_parent_id cp' = o_obj_id d)"
    "\<And>f. o_variant x = FileVar f \<Longrightarrow> co_size_or_equiv_obj cp' = word_of_int (file_size f)"
    "\<And>e i. o_variant x = HardlinkVar e i \<Longrightarrow> co_size_or_equiv_obj cp' = ucast i"
  using assms unfolding yaffs2_obj_checkpt_obj_def
  by (cases "o_variant x"; force split: option.splits Option.bind_splits simp: Let_def)+

lemma fill_same_record:
  assumes r: "yaffs2_obj_checkpt_obj s cp x = Some cp'" and f: "record_fits x" and t: "variant_type y = variant_type x"
  shows "same_record x (fill_checkpt_obj cp' y)"
proof -
  note b = obj_record_bits [OF r] and d = obj_record_fields [OF r]
  have c: "ucast (ucast (o_serial x) :: u32) = o_serial x" "ucast (ucast (i :: u32) :: u64) = i" for i
    by (auto intro!: bit_word_eqI simp: bit_simps)
  have v: "var_type (sized_variant v n) = var_type v" for v n by (cases v) (simp_all add: sized_variant_def)
  have w: "case o_variant x of
        FileVar f \<Rightarrow> \<exists>g. sized_variant (o_variant y) (co_size_or_equiv_obj cp') = FileVar g \<and> file_size g = file_size f \<and> stored_size g = file_size f
      | HardlinkVar e i \<Rightarrow> \<exists>e'. sized_variant (o_variant y) (co_size_or_equiv_obj cp') = HardlinkVar e' i
      | _ \<Rightarrow> True"
    using t f d(5,6) by (cases "o_variant x"; cases "o_variant y")
      (simp_all add: variant_type_def sized_variant_def record_fits_def sint_of_int_64 c)
  show ?thesis using f t w
    unfolding same_record_def fill_checkpt_obj_def variant_type_def
    by (simp add: b d c v record_fits_def sint_of_int_32 Let_def split: yaffs_obj_var.splits)
qed

section \<open>A record read into the object table\<close>

lemma link_child_type:
  assumes "link_child s p a = Some s'" and "objs s b = Some y"
  shows "\<exists>z. objs s' b = Some z \<and> variant_type z = variant_type y"
  using assms unfolding link_child_def upd_obj_def
  by (auto simp: variant_type_def split: option.splits yaffs_obj_var.splits Option.bind_splits if_splits)

lemma remove_child_type:
  assumes "yaffs_remove_obj_from_dir s a = Some s'" and "objs s b = Some y"
  shows "\<exists>z. objs s' b = Some z \<and> variant_type z = variant_type y"
  using assms unfolding yaffs_remove_obj_from_dir_def Let_def del_sibling_def upd_obj_def
  by (auto simp: variant_type_def split: option.splits yaffs_obj_var.splits Option.bind_splits if_splits)

lemma add_to_dir_type:
  assumes r: "yaffs_add_obj_to_dir s p a = Some s'" and y: "objs s b = Some y"
  shows "\<exists>z. objs s' b = Some z \<and> variant_type z = variant_type y"
proof -
  obtain s1 where s1: "yaffs_remove_obj_from_dir s a = Some s1"
    using r by (auto simp: yaffs_add_obj_to_dir_def bind_eq_Some_conv)
  obtain s2 where s2: "link_child s1 p a = Some s2"
    using r s1 by (auto simp: yaffs_add_obj_to_dir_def bind_eq_Some_conv)
  obtain y1 where y1: "objs s1 b = Some y1" "variant_type y1 = variant_type y"
    using remove_child_type [OF s1 y] by blast
  obtain y2 where y2: "objs s2 b = Some y2" "variant_type y2 = variant_type y"
    using link_child_type [OF s2 y1(1)] y1(2) by auto
  show ?thesis using r s1 s2 y2
    by (auto simp: yaffs_add_obj_to_dir_def upd_obj_def set_dev_def variant_type_def split: if_splits option.splits)
qed

lemma set_same_id: "objs s a = Some y \<Longrightarrow> o_obj_id y = n \<Longrightarrow> upd_obj s a (\<lambda>x. x\<lparr>o_obj_id := n\<rparr>) = Some s"
  by (auto simp: upd_obj_def fun_upd_idem)

lemma fill_ids [simp]: "o_obj_id (fill_checkpt_obj cp y) = o_obj_id y" "o_parent (fill_checkpt_obj cp y) = o_parent y"
  by (simp_all add: fill_checkpt_obj_def Let_def)

text \<open>
  C24: an object record that is written and read again gives its object back.  Whatever the record
  held before, and in either byte order, \<^verbatim>\<open>yaffs2_checkpt_obj_to_obj\<close> finds in the bytes of
  \<^verbatim>\<open>yaffs2_obj_checkpt_obj\<close> the flags, the serial number, the header chunk, the number of chunks
  and the size or the linked object, and makes the object the first child of its directory.
\<close>

theorem checkpt_obj_round_trip:
  assumes w: "yaffs2_obj_checkpt_obj s cp x = Some cp'" and f: "record_fits x" and e: "swap_endian d = swap_endian (sdev t)"
    and ok: "dirs_ok (objs t)" and y: "objs t a = Some y" "variant_type y = variant_type x" "o_obj_id y = o_obj_id x"
    and q: "o_parent x = Some q" "objs s q = Some xq" "sint (o_obj_id xq) > 0"
    and p: "yaffs_find_by_number t (o_obj_id xq) = Some (Some p)" "kids (objs t) p = Some cs"
  shows "\<exists>t' z. yaffs2_checkpt_obj_to_obj t a
       (yaffs2_do_endian_checkpt_obj (sdev t) (bytes_co (co_bytes (yaffs2_do_endian_checkpt_obj d cp')))) = Some (True, t') \<and>
     objs t' a = Some z \<and> same_record x z \<and> o_obj_id z = o_obj_id x \<and> o_parent z = Some p \<and>
     (p \<noteq> a \<longrightarrow> kids (objs t') p = Some (a # remove1 a cs))"
proof -
  note b = obj_record_bits [OF w] and fields = obj_record_fields [OF w]
  obtain xp where xp: "objs t p = Some xp" "is_dir xp"
    using p(2) by (auto simp: kids_def kids1_def is_dir_def split: option.splits yaffs_obj_var.splits)
  obtain t1 where t1: "yaffs_add_obj_to_dir t p a = Some t1" "par (objs t1) = (par (objs t))(a \<mapsto> p)"
    "kids (objs t1) p = Some (a # remove1 a cs)" "same_ids (objs t) (objs t1)"
    using add_to_dir_ok [OF ok y(1) p(2)] by blast
  obtain z where z: "objs t1 a = Some z" "variant_type z = variant_type x"
    using add_to_dir_type [OF t1(1) y(1)] y(2) by auto
  have zp: "o_parent z = Some p" using t1(2) z(1) par_heap [of "objs t1" a z] by simp
  have zi: "o_obj_id z = o_obj_id x"
    using t1(4) y(1,3) z(1) unfolding same_ids_def by (drule_tac x = a in spec) simp
  have i: "upd_obj t a (\<lambda>x. x\<lparr>o_obj_id := co_obj_id cp'\<rparr>) = Some t"
    by (rule set_same_id [OF y(1)]) (simp add: y(3) fields(1))
  have pid: "co_parent_id cp' = o_obj_id xq" using fields(4) q by simp
  have nz: "o_obj_id xq \<noteq> 0" using q(3) by auto
  have u: "upd_obj t1 a (fill_checkpt_obj cp') = Some (t1\<lparr>objs := (objs t1)(a := Some (fill_checkpt_obj cp' z))\<rparr>)"
    by (simp add: upd_obj_def z(1))
  have "yaffs2_checkpt_obj_to_obj t a cp' = Some (True, t1\<lparr>objs := (objs t1)(a := Some (fill_checkpt_obj cp' z))\<rparr>)"
    using y(1,2) i t1(1) xp nz q(3) p(1) u
    by (simp add: yaffs2_checkpt_obj_to_obj_def b(1) pid yaffs_find_or_create_by_number_def)
  then show ?thesis using fill_same_record [OF w f z(2)] zp zi t1(3) e
    by (intro exI [of _ "t1\<lparr>objs := (objs t1)(a := Some (fill_checkpt_obj cp' z))\<rparr>"] exI [of _ "fill_checkpt_obj cp' z"]) simp
qed

definition record_file :: yaffs_obj where
  "record_file = zero_obj\<lparr>o_obj_id := 300, o_parent := Some 0, o_rename_allowed := True, o_unlink_allowed := True,
     o_serial := 7, o_hdr_chunk := 40, o_n_data_chunks := 3,
     o_variant := FileVar \<lparr>file_size = 5000, stored_size = 5000, shrink_size = 0, top_level = 0, top = None\<rparr>\<rparr>"

definition record_sys :: "yaffs_obj \<Rightarrow> unit yaffs_sys" where
  "record_sys x = empty_sys\<lparr>objs := [0 \<mapsto> zero_obj\<lparr>o_obj_id := 1, o_hashed := True, o_variant := DirVar [1] False\<rparr>, 1 \<mapsto> x],
     obj_bucket := (replicate YAFFS_NOBJECT_BUCKETS [])[1 := [0]]\<rparr>"

lemma record_sys_dirs: "o_parent x = Some 0 \<Longrightarrow> kids1 x = None \<Longrightarrow> dirs_ok (objs (record_sys x))"
  by (auto simp: dirs_ok_def record_sys_def kids_def par_def kids1_def zero_obj_def split: if_splits yaffs_obj_var.splits)

lemma record_sys_root: "yaffs_find_by_number (record_sys x) 1 = Some (Some 0)"
proof -
  have h: "yaffs_hash_fn 1 = 1" by (simp add: yaffs_hash_fn_def)
  show ?thesis by (simp add: yaffs_find_by_number_def h record_sys_def YAFFS_NOBJECT_BUCKETS_def zero_obj_def)
qed

theorem checkpt_obj_round_trip_witness:
  "\<exists>cp' t' z. yaffs2_obj_checkpt_obj (record_sys record_file) end_checkpt_obj record_file = Some cp' \<and>
     yaffs2_checkpt_obj_to_obj (record_sys (record_file\<lparr>o_serial := 0, o_hdr_chunk := 0\<rparr>)) 1 (bytes_co (co_bytes cp')) = Some (True, t') \<and>
     objs t' 1 = Some z \<and> same_record record_file z \<and> o_obj_id z = 300 \<and> o_parent z = Some 0 \<and>
     kids (objs t') 0 = Some [1]"
proof -
  let ?t = "record_sys (record_file\<lparr>o_serial := 0, o_hdr_chunk := 0\<rparr>)"
  obtain cp' where cp': "yaffs2_obj_checkpt_obj (record_sys record_file) end_checkpt_obj record_file = Some cp'"
    by (simp add: yaffs2_obj_checkpt_obj_def Let_def record_sys_def record_file_def)
  have e: "swap_endian (sdev ?t) = False" by (simp add: record_sys_def empty_sys_def tnode_table_def sample_table_def sample_dev_def zero_dev_def)
  have dirs: "dirs_ok (objs ?t)" by (rule record_sys_dirs) (simp_all add: record_file_def kids1_def)
  have fit: "record_fits record_file" by (simp add: record_fits_def record_file_def zero_obj_def)
  have y: "objs ?t 1 = Some (record_file\<lparr>o_serial := 0, o_hdr_chunk := 0\<rparr>)" by (simp add: record_sys_def)
  have t: "variant_type (record_file\<lparr>o_serial := 0, o_hdr_chunk := 0\<rparr>) = variant_type record_file"
    "o_obj_id (record_file\<lparr>o_serial := 0, o_hdr_chunk := 0\<rparr>) = o_obj_id record_file"
    by (simp_all add: variant_type_def)
  have q: "o_parent record_file = Some 0" "o_obj_id record_file = 300" by (simp_all add: record_file_def)
  have root: "objs (record_sys record_file) 0 = Some (zero_obj\<lparr>o_obj_id := 1, o_hashed := True, o_variant := DirVar [1] False\<rparr>)"
    by (simp add: record_sys_def)
  have p: "yaffs_find_by_number ?t (o_obj_id (zero_obj\<lparr>o_obj_id := 1, o_hashed := True, o_variant := DirVar [1] False\<rparr>)) = Some (Some 0)"
    using record_sys_root by simp
  have k: "kids (objs ?t) 0 = Some [1]" by (simp add: record_sys_def kids_def kids1_def)
  from checkpt_obj_round_trip [OF cp' fit _ dirs y t q(1) root _ p k, of "sdev ?t"]
  show ?thesis using cp' q(2) by (auto simp: yaffs2_do_endian_checkpt_obj_def e)
qed

end
