(* ===== verification/Yaffs_Checkpt_Dev.thy ===== *)
theory Yaffs_Checkpt_Dev
  imports Yaffs_Checkpt_Objs
begin

text \<open>
  The device section of a checkpoint: the counters, the block table and the chunk bitmap, on
  the stream that is written and on the stream that is read.
\<close>

section \<open>What the writer leaves alone\<close>

definition plain_bi :: "yaffs_block_info \<Rightarrow> yaffs_block_info" where
  "plain_bi b = b\<lparr>block_state := YAFFS_BLOCK_STATE_UNKNOWN\<rparr>"

definition saved_kept :: "'n yaffs_dev \<Rightarrow> 'n yaffs_dev \<Rightarrow> bool" where
  "saved_kept d d' \<longleftrightarrow> yaffs2_dev_to_checkpt_dev d' = yaffs2_dev_to_checkpt_dev d \<and>
     chunk_bits d' = chunk_bits d \<and> chunk_bit_stride d' = chunk_bit_stride d \<and>
     internal_start_block d' = internal_start_block d \<and> internal_end_block d' = internal_end_block d \<and>
     swap_endian d' = swap_endian d \<and> map plain_bi (block_info d') = map plain_bi (block_info d)"

lemma saved_kept_refl [simp]: "saved_kept d d"
  by (simp add: saved_kept_def)

lemma saved_kept_trans: "saved_kept d d1 \<Longrightarrow> saved_kept d1 d2 \<Longrightarrow> saved_kept d d2"
  by (simp add: saved_kept_def)

lemma saved_kept_blocks: "saved_kept d d' \<Longrightarrow> n_blocks d' = n_blocks d" "saved_kept d d' \<Longrightarrow> length (block_info d') = length (block_info d)"
  unfolding saved_kept_def n_blocks_def by (simp, metis length_map)

lemma find_erased_kept: "yaffs2_checkpt_find_erased_block d = Some d' \<Longrightarrow> saved_kept d d'"
  unfolding yaffs2_checkpt_find_erased_block_def Let_def
  by (auto simp: bind_eq_Some_conv saved_kept_def yaffs2_dev_to_checkpt_dev_def split: option.splits)

lemma upd_state_kept: "upd_block_info d b (\<lambda>bi. bi\<lparr>block_state := st\<rparr>) = Some d' \<Longrightarrow> saved_kept d d'"
  unfolding upd_block_info_def yaffs_get_block_info_def
  by (auto simp: bind_eq_Some_conv saved_kept_def yaffs2_dev_to_checkpt_dev_def map_update plain_bi_def
      list_update_same_conv split: if_splits)

lemma init_hdr_kept: "yaffs2_checkpt_init_chunk_hdr d = Some d' \<Longrightarrow> saved_kept d d'"
  unfolding yaffs2_checkpt_init_chunk_hdr_def Let_def
  by (auto simp: bind_eq_Some_conv saved_kept_def yaffs2_dev_to_checkpt_dev_def)

lemma put_byte_kept: "checkpt_put_byte b d = Some d' \<Longrightarrow> saved_kept d d'"
  unfolding checkpt_put_byte_def
  by (auto simp: saved_kept_def yaffs2_dev_to_checkpt_dev_def split: option.splits if_splits)

lemma stream_fields_kept [simp]:
  "saved_kept d (d'\<lparr>checkpt_cur_chunk := a\<rparr>) = saved_kept d d'"
  "saved_kept d (d'\<lparr>checkpt_cur_block := a\<rparr>) = saved_kept d d'"
  "saved_kept d (d'\<lparr>blocks_in_checkpt := a\<rparr>) = saved_kept d d'"
  "saved_kept d (d'\<lparr>n_page_writes := c\<rparr>) = saved_kept d d'"
  "saved_kept d (d'\<lparr>flash := f\<rparr>) = saved_kept d d'"
  "saved_kept d (d'\<lparr>checkpt_page_seq := a\<rparr>) = saved_kept d d'"
  "saved_kept d (d'\<lparr>checkpt_buffer := u\<rparr>) = saved_kept d d'"
  "saved_kept (d\<lparr>checkpt_cur_chunk := a\<rparr>) d' = saved_kept d d'"
  "saved_kept (d\<lparr>checkpt_cur_block := a\<rparr>) d' = saved_kept d d'"
  "saved_kept (d\<lparr>blocks_in_checkpt := a\<rparr>) d' = saved_kept d d'"
  "saved_kept (d\<lparr>n_page_writes := c\<rparr>) d' = saved_kept d d'"
  "saved_kept (d\<lparr>flash := f\<rparr>) d' = saved_kept d d'"
  "saved_kept (d\<lparr>checkpt_page_seq := a\<rparr>) d' = saved_kept d d'"
  "saved_kept (d\<lparr>checkpt_buffer := u\<rparr>) d' = saved_kept d d'"
  by (simp_all add: saved_kept_def yaffs2_dev_to_checkpt_dev_def)

lemma flush_kept:
  assumes "yaffs2_checkpt_flush_buffer tg d = Some (r, d')"
  shows "saved_kept d d'"
proof -
  have place: "saved_kept d d1" if "(if checkpt_cur_block d < 0
      then do { dev \<leftarrow> yaffs2_checkpt_find_erased_block d; Some (dev\<lparr>checkpt_cur_chunk := 0\<rparr>) } else Some d) = Some d1" for d1
    using that by (auto simp: bind_eq_Some_conv dest: find_erased_kept split: if_splits)
  have mark: "saved_kept d d2" if "saved_kept d d1" "(if checkpt_cur_chunk d1 = 0
      then do { dev \<leftarrow> upd_block_info d1 (checkpt_cur_block d1) (\<lambda>bi. bi\<lparr>block_state := YAFFS_BLOCK_STATE_CHECKPOINT\<rparr>);
                Some (dev\<lparr>blocks_in_checkpt := blocks_in_checkpt dev + 1\<rparr>) } else Some d1) = Some d2" for d1 d2
    using that by (auto simp: bind_eq_Some_conv dest!: upd_state_kept elim: saved_kept_trans split: if_splits)
  show ?thesis
    using assms unfolding yaffs2_checkpt_flush_buffer_def bind_eq_Some_conv
    apply (elim exE conjE)
    apply (drule place)
    apply (split if_split_asm)
     apply simp
    apply (simp only: Let_def bind_eq_Some_conv)
    apply (elim exE conjE)
    apply (drule (1) mark)
    apply (auto simp: bind_eq_Some_conv Let_def split: if_splits dest!: init_hdr_kept elim!: saved_kept_trans)
    done
qed

lemma wr_loop_kept: "checkpt_wr_loop tg bs i d = Some (n, d') \<Longrightarrow> saved_kept d d'"
proof (induction bs arbitrary: i d)
  case (Cons b bs)
  then show ?case
    by (fastforce simp: bind_eq_Some_conv dest!: put_byte_kept flush_kept split: if_splits intro: saved_kept_trans)
qed simp


section \<open>A block and its bytes\<close>

lemma bit_state_code:
  "bit (word_of_nat (block_state_code st) :: u32) n \<Longrightarrow> n < 4"
proof -
  assume b: "bit (word_of_nat (block_state_code st) :: u32) n"
  have "word_of_nat (block_state_code st) = take_bit 4 (word_of_nat (block_state_code st) :: u32)"
    by (cases st) simp_all
  then show "n < 4" using b by (metis bit_take_bit_iff)
qed

lemma bit_of_bool_u32: "bit (of_bool b :: u32) n \<longleftrightarrow> b \<and> n = 0"
  by (auto simp: bit_simps)

lemma bit_strikes: "bit (ucast (k :: 3 word) :: u32) n \<longleftrightarrow> n < 3 \<and> bit k n"
  using bit_imp_le_length [of k n] by (auto simp: bit_simps)

lemma bit_word0:
  assumes "n < 32"
  shows "bit (bi_word0 b) n \<longleftrightarrow>
    (if n < 10 then bit (word_of_int (soft_del_pages b) :: u32) n
     else if n < 20 then bit (word_of_int (pages_in_use b) :: u32) (n - 10)
     else if n < 24 then bit (word_of_nat (block_state_code (block_state b)) :: u32) (n - 20)
     else if n = 24 then needs_retiring b else if n = 25 then skip_erased_check b
     else if n = 26 then gc_prioritise b else if n < 30 then bit (chunk_error_strikes b) (n - 27)
     else if n = 30 then has_summary b else has_shrink_hdr b)"
proof -
  have m: "(0x3ff :: u32) = mask 10" by (simp add: mask_numeral)
  have s: "bit (push_bit 20 (word_of_nat (block_state_code (block_state b)) :: u32)) n \<Longrightarrow> n < 24"
    using bit_state_code [of "block_state b" "n - 20"] by (auto simp: bit_simps)
  show ?thesis
    using assms s unfolding bi_word0_def m
    by (simp add: bit_or_iff bit_and_iff bit_push_bit_iff bit_mask_iff bit_of_bool_u32 bit_strikes) auto
qed

definition bi_fits :: "yaffs_block_info \<Rightarrow> bool" where
  "bi_fits b \<longleftrightarrow> -512 \<le> soft_del_pages b \<and> soft_del_pages b < 512 \<and> -512 \<le> pages_in_use b \<and> pages_in_use b < 512"

lemma sint_ten: "-512 \<le> i \<Longrightarrow> i < 512 \<Longrightarrow> sint (word_of_int i :: 10 word) = i"
  by transfer (simp add: signed_take_bit_int_eq_self)

lemma words_bi_word0:
  assumes "bi_fits b"
  shows "words_bi (bi_word0 b) (bi_seq_number b) = b"
proof -
  let ?w = "bi_word0 b"
  have so: "(ucast ?w :: 10 word) = word_of_int (soft_del_pages b)"
    by (rule bit_word_eqI) (auto simp: bit_word0 bit_simps)
  have pa: "(ucast (drop_bit 10 ?w) :: 10 word) = word_of_int (pages_in_use b)"
    by (rule bit_word_eqI) (auto simp: bit_word0 bit_simps)
  have m: "(15 :: u32) = mask 4" by (simp add: mask_numeral)
  have "drop_bit 20 ?w AND 15 = word_of_nat (block_state_code (block_state b))"
  proof (rule bit_word_eqI)
    fix n assume "n < LENGTH(32)"
    show "bit (drop_bit 20 ?w AND 15) n = bit (word_of_nat (block_state_code (block_state b)) :: u32) n"
      unfolding m using bit_state_code [of "block_state b" n]
      by (cases "n < 4") (auto simp: bit_word0 bit_and_iff bit_drop_bit_eq bit_mask_iff)
  qed
  then have st: "state_of_code (unat (drop_bit 20 ?w AND 15)) = block_state b"
    by (cases "block_state b") (simp_all add: state_of_code_def)
  have k: "ucast (drop_bit 27 ?w) = chunk_error_strikes b"
    by (rule bit_word_eqI) (auto simp: bit_word0 bit_simps)
  show ?thesis using assms
    by (simp add: words_bi_def so pa st k bit_word0 sint_ten bi_fits_def)
qed

lemma bi_bytes_state:
  assumes "k < 8" and "k \<noteq> 2"
  shows "bi_bytes (b\<lparr>block_state := st\<rparr>) ! k = bi_bytes b ! k"
proof -
  have w: "bit (bi_word0 (b\<lparr>block_state := st\<rparr>)) n = bit (bi_word0 b) n" if "n < 16 \<or> 24 \<le> n" "n < 32" for n
    using that by (auto simp: bit_word0)
  have "ucast (bi_word0 (b\<lparr>block_state := st\<rparr>)) = (ucast (bi_word0 b) :: u8)"
    "ucast (drop_bit 8 (bi_word0 (b\<lparr>block_state := st\<rparr>))) = (ucast (drop_bit 8 (bi_word0 b)) :: u8)"
    "ucast (drop_bit 24 (bi_word0 (b\<lparr>block_state := st\<rparr>))) = (ucast (drop_bit 24 (bi_word0 b)) :: u8)"
    by (rule bit_word_eqI; auto simp: bit_simps w)+
  then show ?thesis using assms
    by (auto simp: bi_bytes_def words_bytes_def u32_bytes_def nth_append less_Suc_eq numeral_eq_Suc)
qed
section \<open>The bytes of a table\<close>

definition table_words :: "(u32 \<Rightarrow> u32) \<Rightarrow> yaffs_block_info list \<Rightarrow> u32 list" where
  "table_words g bis = concat (map (\<lambda>b. [g (bi_word0 b), g (bi_seq_number b)]) bis)"

lemma table_words_simps [simp]: "table_words g [] = []"
  "table_words g (b # bs) = g (bi_word0 b) # g (bi_seq_number b) # table_words g bs"
  "table_words g (bs @ cs) = table_words g bs @ table_words g cs"
  by (simp_all add: table_words_def)

lemma length_table_words [simp]: "length (table_words g bis) = 2 * length bis"
  by (induction bis) simp_all

lemma words_bytes_simps [simp]: "words_bytes [] = []" "words_bytes (ws @ vs) = words_bytes ws @ words_bytes vs"
  by (simp_all add: words_bytes_def)

lemma table_bytes_words: "table_bytes bis = words_bytes (table_words id bis)"
  by (induction bis) (simp_all add: table_bytes_def bi_bytes_def words_bytes_def)

lemma length_bi_bytes [simp]: "length (bi_bytes b) = 8"
  by (simp add: bi_bytes_def)

lemma nth_table_bytes: "j < 8 * length bis \<Longrightarrow> table_bytes bis ! j = bi_bytes (bis ! (j div 8)) ! (j mod 8)"
proof (induction bis arbitrary: j)
  case (Cons b bis)
  show ?case
  proof (cases "j < 8")
    case True
    then show ?thesis by (simp add: table_bytes_def nth_append)
  next
    case False
    then have "j div 8 = Suc ((j - 8) div 8)" "j mod 8 = (j - 8) mod 8" by (simp_all add: le_div_geq le_mod_geq)
    then show ?thesis using Cons False by (simp add: table_bytes_def nth_append)
  qed
qed simp

lemma nth_table_words: "i < length bis \<Longrightarrow> table_words g bis ! (2 * i) = g (bi_word0 (bis ! i))"
  "i < length bis \<Longrightarrow> table_words g bis ! (2 * i + 1) = g (bi_seq_number (bis ! i))"
  by (induction bis arbitrary: i; (simp; case_tac i; simp))+

lemma bytes_table_words:
  assumes "\<And>w. g (g w) = w" and "\<And>b. b \<in> set bis \<Longrightarrow> bi_fits b"
  shows "bytes_table g (length bis) (words_bytes (table_words g bis) @ rest) = bis"
proof (rule nth_equalityI)
  fix i assume "i < length (bytes_table g (length bis) (words_bytes (table_words g bis) @ rest))"
  then have i: "i < length bis" by (simp add: bytes_table_def)
  have e: "u32_at (words_bytes (table_words g bis) @ rest) (8 * i) = g (bi_word0 (bis ! i))"
    "u32_at (words_bytes (table_words g bis) @ rest) (8 * i + 4) = g (bi_seq_number (bis ! i))"
    using u32_at_words_append [of "2 * i" "table_words g bis" rest] u32_at_words_append [of "2 * i + 1" "table_words g bis" rest]
      i nth_table_words [OF i, of g] by (simp_all add: add.commute [of 4])
  show "bytes_table g (length bis) (words_bytes (table_words g bis) @ rest) ! i = bis ! i"
    using i e assms words_bi_word0 [of "bis ! i"] by (simp add: bytes_table_def)
qed (simp add: bytes_table_def)

section \<open>Writing\<close>

definition state_seen :: "'n yaffs_dev \<Rightarrow> nat \<Rightarrow> yaffs_block_state \<Rightarrow> bool" where
  "state_seen dev0 j st \<longleftrightarrow> st = block_state (block_info dev0 ! j) \<or>
     (block_state (block_info dev0 ! j) = YAFFS_BLOCK_STATE_EMPTY \<and> st = YAFFS_BLOCK_STATE_CHECKPOINT)"

lemma plain_bi_eq: "plain_bi b = plain_bi c \<Longrightarrow> b = c\<lparr>block_state := block_state b\<rparr>"
  by (cases b; cases c) (simp add: plain_bi_def)

lemma later_byte:
  assumes "i mod 8 = (2 :: nat)" and "(i + 1 + j) div 8 = i div 8"
  shows "(i + 1 + j) mod 8 \<noteq> 2"
proof
  assume a: "(i + 1 + j) mod 8 = 2"
  have "i + 1 + j = 8 * ((i + 1 + j) div 8) + (i + 1 + j) mod 8" by (rule mult_div_mod_eq [symmetric])
  also have "\<dots> = 8 * (i div 8) + i mod 8" by (simp only: a assms)
  also have "\<dots> = i" by (rule mult_div_mod_eq)
  finally show False by simp
qed

lemma byte_of_block: "i + Suc n \<le> 8 * b \<Longrightarrow> i div 8 < (b :: nat)"
  by (simp add: div_less_iff_less_mult)

lemma state_now:
  assumes w: "stream_written content usable D tb cpb dev0 dev ds k" and kept: "saved_kept dev0 dev"
    and t: "table_wf dev0" and j: "j < n_blocks dev0"
  shows "block_info dev ! j = (block_info dev0 ! j)\<lparr>block_state := block_state (block_info dev ! j)\<rparr>"
    "state_seen dev0 j (block_state (block_info dev ! j))"
proof -
  have l: "length (block_info dev0) = n_blocks dev0" using t by (simp add: table_wf_def)
  have l2: "length (block_info dev) = n_blocks dev0" using saved_kept_blocks(2) [OF kept] l by simp
  have "map plain_bi (block_info dev) ! j = map plain_bi (block_info dev0) ! j" using kept by (simp add: saved_kept_def)
  then have "plain_bi (block_info dev ! j) = plain_bi (block_info dev0 ! j)" using j l l2 by simp
  then show "block_info dev ! j = (block_info dev0 ! j)\<lparr>block_state := block_state (block_info dev ! j)\<rparr>"
    by (rule plain_bi_eq)
  let ?b = "internal_start_block dev0 + int j"
  have v: "blk_valid dev0 ?b" using j by (auto simp: blk_valid_def n_blocks_def)
  have i: "bi_of dev0 ?b = block_info dev0 ! j" "bi_of dev ?b = block_info dev ! j"
    using w by (simp_all add: bi_of_def bi_index_def stream_written_def)
  have "block_state (bi_of dev ?b) = (if ?b \<in> set (take (stream_used cpb k) (empties dev0))
      then YAFFS_BLOCK_STATE_CHECKPOINT else block_state (bi_of dev0 ?b))"
    using w v by (simp add: stream_written_def)
  moreover have "?b \<in> set (take n (empties dev0)) \<Longrightarrow> block_state (bi_of dev0 ?b) = YAFFS_BLOCK_STATE_EMPTY" for n
    using in_set_takeD [of ?b n "empties dev0"] by (simp add: empties_iff)
  ultimately show "state_seen dev0 j (block_state (block_info dev ! j))" unfolding state_seen_def i by auto
qed

context stream_store
begin

lemma put_stream:
  assumes w: "stream_written content usable data_bytes chunk_bytes cpb dev0 dev ds k"
    and b: "stream_buffer data_bytes chunk_bytes dev ds k"
    and l: "length ds < Suc k * (data_bytes - CHECKPT_HDR_SIZE)"
    and n: "length ds + length xs \<le> (data_bytes - CHECKPT_HDR_SIZE) * (nat cpb * length (empties dev0))"
    and u: "\<And>b i. b \<in> set (empties dev0) \<Longrightarrow> 0 \<le> i \<Longrightarrow> i < cpb \<Longrightarrow> usable (flash dev0) (b * cpb + i - chunk_offset dev0)"
  shows "\<exists>dev' k'. checkpt_put tg dev xs = Some (True, dev') \<and>
    stream_written content usable data_bytes chunk_bytes cpb dev0 dev' (ds @ xs) k' \<and>
    stream_buffer data_bytes chunk_bytes dev' (ds @ xs) k' \<and>
    length (ds @ xs) < Suc k' * (data_bytes - CHECKPT_HDR_SIZE) \<and> saved_kept dev dev'"
proof -
  obtain dev' k' where r: "checkpt_wr_loop tg xs 0 dev = Some (int (length xs), dev')"
    "stream_written content usable data_bytes chunk_bytes cpb dev0 dev' (ds @ xs) k'"
    "stream_buffer data_bytes chunk_bytes dev' (ds @ xs) k'"
    "length (ds @ xs) < Suc k' * (data_bytes - CHECKPT_HDR_SIZE)"
    using wr_loop_stream [OF w b l n u, of 0] by auto
  obtain buf where "checkpt_open_write dev" "checkpt_buffer dev = Some buf"
    using w b by (auto simp: stream_written_def stream_buffer_def Let_def)
  then have "checkpt_put tg dev xs = Some (True, dev')"
    using r(1) by (simp add: checkpt_put_def yaffs2_checkpt_wr_def)
  then show ?thesis using r wr_loop_kept [OF r(1)] by blast
qed

lemma wr_table_stream:
  assumes "stream_written content usable data_bytes chunk_bytes cpb dev0 dev ds k"
    and "stream_buffer data_bytes chunk_bytes dev ds k"
    and "length ds < Suc k * (data_bytes - CHECKPT_HDR_SIZE)"
    and "length ds + n \<le> (data_bytes - CHECKPT_HDR_SIZE) * (nat cpb * length (empties dev0))"
    and "saved_kept dev0 dev" and "i + n \<le> 8 * n_blocks dev0"
    and u: "\<And>b i. b \<in> set (empties dev0) \<Longrightarrow> 0 \<le> i \<Longrightarrow> i < cpb \<Longrightarrow> usable (flash dev0) (b * cpb + i - chunk_offset dev0)"
    and t: "table_wf dev0"
  shows "\<exists>dev' k' f xs. checkpt_wr_table_loop tg n i dev = Some (int (i + n), dev') \<and>
    stream_written content usable data_bytes chunk_bytes cpb dev0 dev' (ds @ xs) k' \<and>
    stream_buffer data_bytes chunk_bytes dev' (ds @ xs) k' \<and>
    length (ds @ xs) < Suc k' * (data_bytes - CHECKPT_HDR_SIZE) \<and> saved_kept dev0 dev' \<and> length xs = n \<and>
    (\<forall>j < n. xs ! j = bi_bytes ((block_info dev0 ! ((i + j) div 8))\<lparr>block_state := f ((i + j) div 8)\<rparr>) ! ((i + j) mod 8)) \<and>
    (\<forall>j < n_blocks dev0. state_seen dev0 j (f j))"
  using assms(1-6)
proof (induction n arbitrary: dev ds k i)
  case 0
  have "\<forall>j < n_blocks dev0. state_seen dev0 j (block_state (block_info dev0 ! j))" by (simp add: state_seen_def)
  then show ?case using 0 by (intro exI [of _ dev] exI [of _ k] exI [of _ "\<lambda>j. block_state (block_info dev0 ! j)"] exI [of _ "[]"]) simp
next
  case (Suc n)
  let ?q = "i div 8"
  have q: "?q < n_blocks dev0" by (rule byte_of_block [OF Suc.prems(6)])
  have lb: "?q < length (block_info dev)" using q t saved_kept_blocks(2) [OF Suc.prems(5)] by (simp add: table_wf_def)
  note now = state_now [OF Suc.prems(1,5) t q]
  let ?x = "bi_bytes (block_info dev ! ?q) ! (i mod 8)"
  have "length ds < (data_bytes - CHECKPT_HDR_SIZE) * (nat cpb * length (empties dev0))" using Suc.prems(4) by simp
  then obtain dev1 dev2 k2 where s: "checkpt_put_byte ?x dev = Some dev1"
      "(if outside_buffer dev1 then yaffs2_checkpt_flush_buffer tg dev1 else Some (1, dev1)) = Some (1, dev2)"
    and w2: "stream_written content usable data_bytes chunk_bytes cpb dev0 dev2 (ds @ [?x]) k2"
      "stream_buffer data_bytes chunk_bytes dev2 (ds @ [?x]) k2"
      "length (ds @ [?x]) < Suc k2 * (data_bytes - CHECKPT_HDR_SIZE)"
    using wr_byte_stream [OF Suc.prems(1-3) _ u, of ?x] by blast
  have kept2: "saved_kept dev0 dev2"
    using saved_kept_trans [OF Suc.prems(5) put_byte_kept [OF s(1)]] s(2) flush_kept [of tg dev1]
    by (auto split: if_splits intro: saved_kept_trans)
  have len2: "length (ds @ [?x]) + n \<le> (data_bytes - CHECKPT_HDR_SIZE) * (nat cpb * length (empties dev0))"
    "i + 1 + n \<le> 8 * n_blocks dev0" using Suc.prems(4,6) by simp_all
  obtain dev' k' f xs where r: "checkpt_wr_table_loop tg n (i + 1) dev2 = Some (int (i + 1 + n), dev')"
    "stream_written content usable data_bytes chunk_bytes cpb dev0 dev' ((ds @ [?x]) @ xs) k'"
    "stream_buffer data_bytes chunk_bytes dev' ((ds @ [?x]) @ xs) k'"
    "length ((ds @ [?x]) @ xs) < Suc k' * (data_bytes - CHECKPT_HDR_SIZE)" "saved_kept dev0 dev'" "length xs = n"
    "\<And>j. j < n \<Longrightarrow> xs ! j = bi_bytes ((block_info dev0 ! ((i + 1 + j) div 8))\<lparr>block_state := f ((i + 1 + j) div 8)\<rparr>) ! ((i + 1 + j) mod 8)"
    "\<And>j. j < n_blocks dev0 \<Longrightarrow> state_seen dev0 j (f j)"
    using Suc.IH [OF w2 len2(1) kept2 len2(2)] by blast
  define f' where "f' = (if i mod 8 = 2 then f(?q := block_state (block_info dev ! ?q)) else f)"
  have seen: "state_seen dev0 j (f' j)" if "j < n_blocks dev0" for j
    using r(8) [OF that] now(2) by (simp add: f'_def)
  have x: "?x = bi_bytes ((block_info dev0 ! ?q)\<lparr>block_state := f' ?q\<rparr>) ! (i mod 8)"
  proof (cases "i mod 8 = 2")
    case True
    then show ?thesis using now(1) by (simp add: f'_def)
  next
    case False
    have m: "i mod 8 < 8" by simp
    have "?x = bi_bytes ((block_info dev0 ! ?q)\<lparr>block_state := block_state (block_info dev ! ?q)\<rparr>) ! (i mod 8)"
      using now(1) by simp
    then show ?thesis by (simp only: bi_bytes_state [OF m False])
  qed
  have later: "xs ! j = bi_bytes ((block_info dev0 ! ((i + 1 + j) div 8))\<lparr>block_state := f' ((i + 1 + j) div 8)\<rparr>) ! ((i + 1 + j) mod 8)"
    if "j < n" for j
  proof (cases "i mod 8 = 2 \<and> (i + 1 + j) div 8 = ?q")
    case True
    then have "(i + 1 + j) mod 8 \<noteq> 2" using later_byte by blast
    then show ?thesis using r(7) [OF that] bi_bytes_state [of "(i + 1 + j) mod 8"] by simp
  next
    case False
    then have "f' ((i + 1 + j) div 8) = f ((i + 1 + j) div 8)" by (auto simp: f'_def)
    then show ?thesis using r(7) [OF that] by simp
  qed
  have "(?x # xs) ! j = bi_bytes ((block_info dev0 ! ((i + j) div 8))\<lparr>block_state := f' ((i + j) div 8)\<rparr>) ! ((i + j) mod 8)"
    if "j < Suc n" for j
  proof (cases j)
    case 0
    show ?thesis unfolding 0 using x by (simp only: nth_Cons_0 add_0_right)
  next
    case (Suc m)
    then show ?thesis using that later [of m] by (simp only: nth_Cons_Suc Suc_less_eq add_Suc_right add_Suc plus_1_eq_Suc add_0_right add.assoc [symmetric] One_nat_def)
  qed
  moreover have "checkpt_wr_table_loop tg (Suc n) i dev = Some (int (i + Suc n), dev')" using lb s r(1) by simp
  ultimately show ?case using r(2-6) seen
    by (intro exI [of _ dev'] exI [of _ k'] exI [of _ f'] exI [of _ "?x # xs"]) simp
qed


lemma wr_swapped_stream:
  assumes "stream_written content usable data_bytes chunk_bytes cpb dev0 dev ds k"
    and "stream_buffer data_bytes chunk_bytes dev ds k"
    and "length ds < Suc k * (data_bytes - CHECKPT_HDR_SIZE)"
    and "length ds + 8 * n \<le> (data_bytes - CHECKPT_HDR_SIZE) * (nat cpb * length (empties dev0))"
    and "saved_kept dev0 dev" and "i + n \<le> n_blocks dev0"
    and u: "\<And>b i. b \<in> set (empties dev0) \<Longrightarrow> 0 \<le> i \<Longrightarrow> i < cpb \<Longrightarrow> usable (flash dev0) (b * cpb + i - chunk_offset dev0)"
    and t: "table_wf dev0"
  shows "\<exists>dev' k' f xs. wr_swapped_blocks tg n i dev = Some (True, dev') \<and>
    xs = words_bytes (table_words swap_u32 (map (\<lambda>j. (block_info dev0 ! j)\<lparr>block_state := f j\<rparr>) [i..<i + n])) \<and>
    stream_written content usable data_bytes chunk_bytes cpb dev0 dev' (ds @ xs) k' \<and>
    stream_buffer data_bytes chunk_bytes dev' (ds @ xs) k' \<and>
    length (ds @ xs) < Suc k' * (data_bytes - CHECKPT_HDR_SIZE) \<and> saved_kept dev0 dev' \<and>
    (\<forall>j < n_blocks dev0. state_seen dev0 j (f j))"
  using assms(1-6)
proof (induction n arbitrary: dev ds k i)
  case 0
  have "\<forall>j < n_blocks dev0. state_seen dev0 j (block_state (block_info dev0 ! j))" by (simp add: state_seen_def)
  then show ?case using 0 by (intro exI [of _ dev] exI [of _ k] exI [of _ "\<lambda>j. block_state (block_info dev0 ! j)"] exI [of _ "[]"]) simp
next
  case (Suc n)
  have q: "i < n_blocks dev0" using Suc.prems(6) by simp
  have lb: "i < length (block_info dev)" using q t saved_kept_blocks(2) [OF Suc.prems(5)] by (simp add: table_wf_def)
  note now = state_now [OF Suc.prems(1,5) t q]
  let ?bi = "block_info dev ! i"
  let ?x = "words_bytes [swap_u32 (bi_word0 ?bi), swap_u32 (bi_seq_number ?bi)]"
  have n: "length ds + length ?x \<le> (data_bytes - CHECKPT_HDR_SIZE) * (nat cpb * length (empties dev0))"
    using Suc.prems(4) by simp
  obtain dev2 k2 where s: "checkpt_put tg dev ?x = Some (True, dev2)" "saved_kept dev dev2"
    and w2: "stream_written content usable data_bytes chunk_bytes cpb dev0 dev2 (ds @ ?x) k2"
      "stream_buffer data_bytes chunk_bytes dev2 (ds @ ?x) k2"
      "length (ds @ ?x) < Suc k2 * (data_bytes - CHECKPT_HDR_SIZE)"
    using put_stream [OF Suc.prems(1-3) n u] by blast
  have len2: "length (ds @ ?x) + 8 * n \<le> (data_bytes - CHECKPT_HDR_SIZE) * (nat cpb * length (empties dev0))"
    "i + 1 + n \<le> n_blocks dev0" using Suc.prems(4,6) by simp_all
  obtain dev' k' f xs where r: "wr_swapped_blocks tg n (i + 1) dev2 = Some (True, dev')"
    "xs = words_bytes (table_words swap_u32 (map (\<lambda>j. (block_info dev0 ! j)\<lparr>block_state := f j\<rparr>) [i + 1..<i + 1 + n]))"
    "stream_written content usable data_bytes chunk_bytes cpb dev0 dev' ((ds @ ?x) @ xs) k'"
    "stream_buffer data_bytes chunk_bytes dev' ((ds @ ?x) @ xs) k'"
    "length ((ds @ ?x) @ xs) < Suc k' * (data_bytes - CHECKPT_HDR_SIZE)" "saved_kept dev0 dev'"
    "\<And>j. j < n_blocks dev0 \<Longrightarrow> state_seen dev0 j (f j)"
    using Suc.IH [OF w2 len2(1) saved_kept_trans [OF Suc.prems(5) s(2)] len2(2)] by blast
  define f' where "f' = f(i := block_state ?bi)"
  have cons: "[i..<i + Suc n] = i # [i + 1..<i + 1 + n]" by (simp add: upt_conv_Cons del: upt_Suc)
  have "map (\<lambda>j. (block_info dev0 ! j)\<lparr>block_state := f' j\<rparr>) [i..<i + Suc n] =
      ?bi # map (\<lambda>j. (block_info dev0 ! j)\<lparr>block_state := f j\<rparr>) [i + 1..<i + 1 + n]"
    unfolding cons list.map using now(1) by (auto simp: f'_def)
  then have x: "?x @ xs = words_bytes (table_words swap_u32 (map (\<lambda>j. (block_info dev0 ! j)\<lparr>block_state := f' j\<rparr>) [i..<i + Suc n]))"
    using r(2) by (simp add: words_bytes_def)
  have "wr_swapped_blocks tg (Suc n) i dev = Some (True, dev')" using lb s r(1) by (simp add: Let_def)
  moreover have "\<forall>j < n_blocks dev0. state_seen dev0 j (f' j)" using r(7) now(2) by (simp add: f'_def)
  ultimately show ?case using r(3-6) x
    by (intro exI [of _ dev'] exI [of _ k'] exI [of _ f'] exI [of _ "?x @ xs"] conjI) simp_all
qed

end

text \<open>The part of the stream for the device; a block that was empty may be one of the stream in it.\<close>

definition table_seen :: "'n yaffs_dev \<Rightarrow> yaffs_block_info list \<Rightarrow> bool" where
  "table_seen dev0 bis \<longleftrightarrow> length bis = n_blocks dev0 \<and>
     (\<forall>j < n_blocks dev0. \<exists>st. state_seen dev0 j st \<and> bis ! j = (block_info dev0 ! j)\<lparr>block_state := st\<rparr>)"

definition dev_image :: "'n yaffs_dev \<Rightarrow> yaffs_block_info list \<Rightarrow> u8 list" where
  "dev_image dev0 bis = cd_bytes (yaffs2_do_endian_checkpt_dev dev0 (yaffs2_dev_to_checkpt_dev dev0)) @
     words_bytes (table_words (swap_if dev0) bis) @ take (n_blocks dev0 * chunk_bit_stride dev0) (chunk_bits dev0)"

lemma table_seen_map:
  "(\<forall>j < n_blocks dev0. state_seen dev0 j (f j)) \<Longrightarrow>
   table_seen dev0 (map (\<lambda>j. (block_info dev0 ! j)\<lparr>block_state := f j\<rparr>) [0..<n_blocks dev0])"
  by (auto simp: table_seen_def)

lemma endian_dev_cong: "swap_endian d = swap_endian d' \<Longrightarrow> yaffs2_do_endian_checkpt_dev d cd = yaffs2_do_endian_checkpt_dev d' cd"
  by (simp add: yaffs2_do_endian_checkpt_dev_def)

context stream_store
begin

lemma wr_blocks_stream:
  assumes w: "stream_written content usable data_bytes chunk_bytes cpb dev0 dev ds k"
    and b: "stream_buffer data_bytes chunk_bytes dev ds k"
    and l: "length ds < Suc k * (data_bytes - CHECKPT_HDR_SIZE)"
    and n: "length ds + 8 * n_blocks dev0 \<le> (data_bytes - CHECKPT_HDR_SIZE) * (nat cpb * length (empties dev0))"
    and kept: "saved_kept dev0 dev"
    and u: "\<And>b i. b \<in> set (empties dev0) \<Longrightarrow> 0 \<le> i \<Longrightarrow> i < cpb \<Longrightarrow> usable (flash dev0) (b * cpb + i - chunk_offset dev0)"
    and t: "table_wf dev0"
  shows "\<exists>dev' k' bis. (if \<not> swap_endian dev
       then do { (n, dev) \<leftarrow> checkpt_wr_table tg dev (n_blocks dev * 8); Some (n = int (n_blocks dev * 8), dev) }
       else wr_swapped_blocks tg (n_blocks dev) 0 dev) = Some (True, dev') \<and> table_seen dev0 bis \<and>
    stream_written content usable data_bytes chunk_bytes cpb dev0 dev' (ds @ words_bytes (table_words (swap_if dev0) bis)) k' \<and>
    stream_buffer data_bytes chunk_bytes dev' (ds @ words_bytes (table_words (swap_if dev0) bis)) k' \<and>
    length (ds @ words_bytes (table_words (swap_if dev0) bis)) < Suc k' * (data_bytes - CHECKPT_HDR_SIZE) \<and> saved_kept dev0 dev'"
proof -
  have nb: "n_blocks dev = n_blocks dev0" and sw: "swap_endian dev = swap_endian dev0"
    using saved_kept_blocks(1) [OF kept] kept by (simp_all add: saved_kept_def)
  show ?thesis
  proof (cases "swap_endian dev0")
    case False
    obtain dev' k' f xs where r: "checkpt_wr_table_loop tg (8 * n_blocks dev0) 0 dev = Some (int (0 + 8 * n_blocks dev0), dev')"
      "stream_written content usable data_bytes chunk_bytes cpb dev0 dev' (ds @ xs) k'"
      "stream_buffer data_bytes chunk_bytes dev' (ds @ xs) k'"
      "length (ds @ xs) < Suc k' * (data_bytes - CHECKPT_HDR_SIZE)" "saved_kept dev0 dev'" "length xs = 8 * n_blocks dev0"
      "\<And>j. j < 8 * n_blocks dev0 \<Longrightarrow> xs ! j = bi_bytes ((block_info dev0 ! ((0 + j) div 8))\<lparr>block_state := f ((0 + j) div 8)\<rparr>) ! ((0 + j) mod 8)"
      "\<forall>j < n_blocks dev0. state_seen dev0 j (f j)"
      using wr_table_stream [OF w b l n kept _ u t, of 0] by auto
    let ?bis = "map (\<lambda>j. (block_info dev0 ! j)\<lparr>block_state := f j\<rparr>) [0..<n_blocks dev0]"
    have "xs = table_bytes ?bis"
    proof (rule nth_equalityI)
      show "length xs = length (table_bytes ?bis)" using r(6) by (simp add: table_bytes_words)
      fix j assume "j < length xs"
      then have j: "j < 8 * n_blocks dev0" using r(6) by simp
      then have "j div 8 < n_blocks dev0" by (simp add: div_less_iff_less_mult)
      then show "xs ! j = table_bytes ?bis ! j" using r(7) [OF j] j by (simp add: nth_table_bytes)
    qed
    moreover have "swap_if dev0 = id" using False by (simp add: fun_eq_iff swap_if_def yaffs_do_endian_u32_def)
    ultimately have xs: "xs = words_bytes (table_words (swap_if dev0) ?bis)" by (simp add: table_bytes_words)
    obtain buf where o: "checkpt_open_write dev" "checkpt_buffer dev = Some buf"
      using w b by (auto simp: stream_written_def stream_buffer_def Let_def)
    have "checkpt_wr_table tg dev (n_blocks dev0 * 8) = Some (int (n_blocks dev0 * 8), dev')"
      using r(1) o by (simp add: checkpt_wr_table_def mult.commute)
    then show ?thesis using r(2-5) xs table_seen_map [OF r(8)] nb saved_kept_blocks(1) [OF r(5)] sw False
      by (intro exI [of _ dev'] exI [of _ k'] exI [of _ ?bis]) simp
  next
    case True
    have z: "0 + n_blocks dev0 \<le> n_blocks dev0" by simp
    obtain dev' k' f where r: "wr_swapped_blocks tg (n_blocks dev0) 0 dev = Some (True, dev')"
      "stream_written content usable data_bytes chunk_bytes cpb dev0 dev'
        (ds @ words_bytes (table_words swap_u32 (map (\<lambda>j. (block_info dev0 ! j)\<lparr>block_state := f j\<rparr>) [0..<0 + n_blocks dev0]))) k'"
      "stream_buffer data_bytes chunk_bytes dev'
        (ds @ words_bytes (table_words swap_u32 (map (\<lambda>j. (block_info dev0 ! j)\<lparr>block_state := f j\<rparr>) [0..<0 + n_blocks dev0]))) k'"
      "length (ds @ words_bytes (table_words swap_u32 (map (\<lambda>j. (block_info dev0 ! j)\<lparr>block_state := f j\<rparr>) [0..<0 + n_blocks dev0])))
        < Suc k' * (data_bytes - CHECKPT_HDR_SIZE)" "saved_kept dev0 dev'"
      "\<forall>j < n_blocks dev0. state_seen dev0 j (f j)"
      using wr_swapped_stream [OF w b l n kept z u t] by blast
    have "swap_if dev0 = swap_u32" using True by (simp add: fun_eq_iff swap_if_def yaffs_do_endian_u32_def)
    then show ?thesis using r(1-5) table_seen_map [OF r(6)] nb sw True
      by (intro exI [of _ dev'] exI [of _ k']
          exI [of _ "map (\<lambda>j. (block_info dev0 ! j)\<lparr>block_state := f j\<rparr>) [0..<n_blocks dev0]"]) simp
  qed
qed

lemma wr_dev_stream:
  assumes w: "stream_written content usable data_bytes chunk_bytes cpb dev0 dev ds k"
    and b: "stream_buffer data_bytes chunk_bytes dev ds k"
    and l: "length ds < Suc k * (data_bytes - CHECKPT_HDR_SIZE)"
    and n: "length ds + 36 + 8 * n_blocks dev0 + n_blocks dev0 * chunk_bit_stride dev0 \<le>
      (data_bytes - CHECKPT_HDR_SIZE) * (nat cpb * length (empties dev0))"
    and kept: "saved_kept dev0 dev" and bits: "n_blocks dev0 * chunk_bit_stride dev0 \<le> length (chunk_bits dev0)"
    and u: "\<And>b i. b \<in> set (empties dev0) \<Longrightarrow> 0 \<le> i \<Longrightarrow> i < cpb \<Longrightarrow> usable (flash dev0) (b * cpb + i - chunk_offset dev0)"
    and t: "table_wf dev0"
  shows "\<exists>dev' k' bis. yaffs2_wr_checkpt_dev tg dev = Some (True, dev') \<and> table_seen dev0 bis \<and>
    stream_written content usable data_bytes chunk_bytes cpb dev0 dev' (ds @ dev_image dev0 bis) k' \<and>
    stream_buffer data_bytes chunk_bytes dev' (ds @ dev_image dev0 bis) k' \<and>
    length (ds @ dev_image dev0 bis) < Suc k' * (data_bytes - CHECKPT_HDR_SIZE) \<and> saved_kept dev0 dev'"
proof -
  let ?cap = "(data_bytes - CHECKPT_HDR_SIZE) * (nat cpb * length (empties dev0))"
  let ?cd = "cd_bytes (yaffs2_do_endian_checkpt_dev dev0 (yaffs2_dev_to_checkpt_dev dev0))"
  let ?bits = "take (n_blocks dev0 * chunk_bit_stride dev0) (chunk_bits dev0)"
  have same: "yaffs2_do_endian_checkpt_dev dev (yaffs2_dev_to_checkpt_dev dev) =
      yaffs2_do_endian_checkpt_dev dev0 (yaffs2_dev_to_checkpt_dev dev0)"
    using kept endian_dev_cong [of dev dev0] by (simp add: saved_kept_def)
  have n1: "length ds + length ?cd \<le> ?cap" using n by simp
  obtain dev1 k1 where r1: "checkpt_put tg dev ?cd = Some (True, dev1)"
    "stream_written content usable data_bytes chunk_bytes cpb dev0 dev1 (ds @ ?cd) k1"
    "stream_buffer data_bytes chunk_bytes dev1 (ds @ ?cd) k1"
    "length (ds @ ?cd) < Suc k1 * (data_bytes - CHECKPT_HDR_SIZE)" "saved_kept dev dev1"
    using put_stream [OF w b l n1 u] by blast
  have kept1: "saved_kept dev0 dev1" by (rule saved_kept_trans [OF kept r1(5)])
  have n2: "length (ds @ ?cd) + 8 * n_blocks dev0 \<le> ?cap" using n by simp
  obtain dev2 k2 bis where r2: "(if \<not> swap_endian dev1
       then do { (n, dev) \<leftarrow> checkpt_wr_table tg dev1 (n_blocks dev1 * 8); Some (n = int (n_blocks dev * 8), dev) }
       else wr_swapped_blocks tg (n_blocks dev1) 0 dev1) = Some (True, dev2)" "table_seen dev0 bis"
    "stream_written content usable data_bytes chunk_bytes cpb dev0 dev2 ((ds @ ?cd) @ words_bytes (table_words (swap_if dev0) bis)) k2"
    "stream_buffer data_bytes chunk_bytes dev2 ((ds @ ?cd) @ words_bytes (table_words (swap_if dev0) bis)) k2"
    "length ((ds @ ?cd) @ words_bytes (table_words (swap_if dev0) bis)) < Suc k2 * (data_bytes - CHECKPT_HDR_SIZE)"
    "saved_kept dev0 dev2"
    using wr_blocks_stream [OF r1(2-4) n2 kept1 u t] by blast
  have lb: "length bis = n_blocks dev0" using r2(2) by (simp add: table_seen_def)
  have n3: "length ((ds @ ?cd) @ words_bytes (table_words (swap_if dev0) bis)) + length ?bits \<le> ?cap"
    using n lb bits by simp
  obtain dev3 k3 where r3: "checkpt_put tg dev2 ?bits = Some (True, dev3)"
    "stream_written content usable data_bytes chunk_bytes cpb dev0 dev3 (((ds @ ?cd) @ words_bytes (table_words (swap_if dev0) bis)) @ ?bits) k3"
    "stream_buffer data_bytes chunk_bytes dev3 (((ds @ ?cd) @ words_bytes (table_words (swap_if dev0) bis)) @ ?bits) k3"
    "length (((ds @ ?cd) @ words_bytes (table_words (swap_if dev0) bis)) @ ?bits) < Suc k3 * (data_bytes - CHECKPT_HDR_SIZE)"
    "saved_kept dev2 dev3"
    using put_stream [OF r2(3-5) n3 u] by blast
  have k2: "n_blocks dev2 = n_blocks dev0" "chunk_bit_stride dev2 = chunk_bit_stride dev0" "chunk_bits dev2 = chunk_bits dev0"
    using saved_kept_blocks(1) [OF r2(6)] r2(6) by (simp_all add: saved_kept_def)
  have "yaffs2_wr_checkpt_dev tg dev = Some (True, dev3)"
    unfolding yaffs2_wr_checkpt_dev_def same r1(1) using r2(1) r3(1) bits by (simp add: k2 Let_def)
  then show ?thesis using r2(2) r3(2-4) saved_kept_trans [OF r2(6) r3(5)]
    by (intro exI [of _ dev3] exI [of _ k3] exI [of _ bis]) (simp add: dev_image_def)
qed

end

section \<open>Reading\<close>

definition counters :: "'n yaffs_dev \<Rightarrow> int \<times> int \<times> int \<times> int \<times> int \<times> int \<times> int \<times> u32" where
  "counters d = (n_erased_blocks d, alloc_block d, alloc_page d, n_free_chunks d, n_deleted_files d,
     n_unlinked_files d, n_bg_deletions d, dev_seq_number d)"

definition counters_fit :: "'n yaffs_dev \<Rightarrow> bool" where
  "counters_fit d \<longleftrightarrow> 0 \<le> alloc_page d \<and> alloc_page d < 2 ^ 32 \<and>
     (\<forall>i \<in> {n_erased_blocks d, alloc_block d, n_free_chunks d, n_deleted_files d, n_unlinked_files d, n_bg_deletions d}.
        - (2 ^ 31) \<le> i \<and> i < 2 ^ 31)"

lemma counters_back:
  assumes "counters_fit d"
  shows "counters (yaffs_checkpt_dev_to_dev d' (yaffs2_dev_to_checkpt_dev d)) = counters d"
proof -
  have p: "uint (word_of_int i :: u32) = i" if "0 \<le> i" "i < 2 ^ 32" for i
    using that by (simp add: uint_word_of_int)
  show ?thesis using assms
    by (simp add: counters_def counters_fit_def yaffs_checkpt_dev_to_dev_def yaffs2_dev_to_checkpt_dev_def sint_of_int_32 p)
qed

definition reader_kept :: "'n yaffs_dev \<Rightarrow> 'n yaffs_dev \<Rightarrow> bool" where
  "reader_kept d d' \<longleftrightarrow> block_info d' = block_info d \<and> chunk_bits d' = chunk_bits d \<and>
     chunk_bit_stride d' = chunk_bit_stride d \<and> counters d' = counters d"

lemma reader_kept_refl [simp]: "reader_kept d d"
  by (simp add: reader_kept_def)

lemma reader_kept_trans: "reader_kept d d1 \<Longrightarrow> reader_kept d1 d2 \<Longrightarrow> reader_kept d d2"
  by (simp add: reader_kept_def)

lemma reader_kept_fields [simp]:
  "reader_kept d (d'\<lparr>flash := f\<rparr>) = reader_kept d d'"
  "reader_kept (d\<lparr>flash := f\<rparr>) d' = reader_kept d d'"
  "reader_kept d (d'\<lparr>checkpt_cur_chunk := a\<rparr>) = reader_kept d d'"
  "reader_kept (d\<lparr>checkpt_cur_chunk := a\<rparr>) d' = reader_kept d d'"
  "reader_kept d (d'\<lparr>checkpt_cur_block := a\<rparr>) = reader_kept d d'"
  "reader_kept (d\<lparr>checkpt_cur_block := a\<rparr>) d' = reader_kept d d'"
  "reader_kept d (d'\<lparr>checkpt_next_block := a\<rparr>) = reader_kept d d'"
  "reader_kept d (d'\<lparr>checkpt_page_seq := a\<rparr>) = reader_kept d d'"
  "reader_kept d (d'\<lparr>checkpt_buffer := u\<rparr>) = reader_kept d d'"
  "reader_kept (d\<lparr>checkpt_buffer := u\<rparr>) d' = reader_kept d d'"
  "reader_kept d (d'\<lparr>n_page_reads := c\<rparr>) = reader_kept d d'"
  "reader_kept (d\<lparr>n_page_reads := c\<rparr>) d' = reader_kept d d'"
  "reader_kept d (d'\<lparr>checkpt_byte_offs := a\<rparr>) = reader_kept d d'"
  "reader_kept d (d'\<lparr>checkpt_block_list := l\<rparr>) = reader_kept d d'"
  "reader_kept d (d'\<lparr>blocks_in_checkpt := a\<rparr>) = reader_kept d d'"
  by (simp_all add: reader_kept_def counters_def)

lemma find_checkpt_kept: "find_checkpt_loop tg n i tags d = Some (r, d') \<Longrightarrow> reader_kept d d'"
proof (induction n arbitrary: i tags d)
  case (Suc n)
  obtain a b t fl where rd: "read_chunk_tags_fn tg (flash d) (apply_chunk_offset d (i * chunks_per_block (param d))) None (Some tags)
      = Some (a, b, Some t, fl)" using Suc.prems by (auto simp: bind_eq_Some_conv Let_def)
  consider "find_checkpt_loop tg n (i + 1) t (d\<lparr>flash := fl\<rparr>) = Some (r, d')"
    | fl' where "find_checkpt_loop tg n (i + 1) t (d\<lparr>flash := fl'\<rparr>) = Some (r, d')"
    | fl' l where "d' = d\<lparr>flash := fl', checkpt_next_block := sint (obj_id t), checkpt_cur_block := i,
        checkpt_block_list := l, blocks_in_checkpt := blocks_in_checkpt d + 1\<rparr>"
    using Suc.prems rd by (auto simp: bind_eq_Some_conv Let_def split: if_splits)
  then show ?case
  proof cases
    case 1
    from Suc.IH [OF this] show ?thesis by simp
  next
    case 2
    from Suc.IH [OF this] show ?thesis by simp
  next
    case 3
    then show ?thesis by (simp add: reader_kept_def counters_def)
  qed
qed simp

lemma find_block_kept:
  assumes "yaffs2_checkpt_find_block tg d = Some d'"
  shows "reader_kept d d'"
proof -
  obtain found d1 where f: "(if blocks_in_checkpt d < checkpt_max_blocks d
      then find_checkpt_loop tg (blocks_from d (checkpt_next_block d)) (checkpt_next_block d) (stack_tags d) d
      else Some (False, d)) = Some (found, d1)" "d' = (if found then d1 else d1\<lparr>checkpt_next_block := -1, checkpt_cur_block := -1\<rparr>)"
    using assms unfolding yaffs2_checkpt_find_block_def bind_eq_Some_conv by auto
  have "reader_kept d d1" using f(1) find_checkpt_kept by (cases "blocks_in_checkpt d < checkpt_max_blocks d") auto
  then show ?thesis using f(2) by simp
qed

lemma check_hdr_kept: "yaffs2_checkpt_check_chunk_hdr d = Some (ok, d') \<Longrightarrow> reader_kept d d'"
  unfolding yaffs2_checkpt_check_chunk_hdr_def by (auto simp: bind_eq_Some_conv Let_def)

lemma refill_kept:
  assumes "checkpt_refill tg tags d = Some (ok, tags', d')"
  shows "reader_kept d d'"
proof -
  obtain d1 where d1: "(if checkpt_cur_block d < 0
      then do { dev \<leftarrow> yaffs2_checkpt_find_block tg d; Some (dev\<lparr>checkpt_cur_chunk := 0\<rparr>) } else Some d) = Some d1"
    using assms unfolding checkpt_refill_def by (auto simp: bind_eq_Some_conv)
  have k1: "reader_kept d d1" using d1 by (auto simp: bind_eq_Some_conv dest: find_block_kept split: if_splits)
  show ?thesis
  proof (cases "checkpt_cur_block d1 < 0")
    case True
    then show ?thesis using assms d1 k1 unfolding checkpt_refill_def by (simp add: Let_def)
  next
    case False
    obtain r b t fl where rd: "read_chunk_tags_fn tg (flash d1)
        (apply_chunk_offset d1 (checkpt_cur_block d1 * chunks_per_block (param d1) + checkpt_cur_chunk d1))
        (checkpt_buffer d1) (Some tags) = Some (r, b, Some t, fl)"
      using assms d1 False unfolding checkpt_refill_def by (auto simp: bind_eq_Some_conv Let_def)
    let ?d2 = "d1\<lparr>n_page_reads := n_page_reads d1 + 1, flash := fl, checkpt_buffer := b\<rparr>"
    have k2: "reader_kept d ?d2" using k1 by simp
    consider "d' = ?d2" | d3 where "yaffs2_checkpt_check_chunk_hdr ?d2 = Some (False, d3)" "d' = d3"
      | d3 where "yaffs2_checkpt_check_chunk_hdr ?d2 = Some (True, d3)" "reader_kept d3 d'"
      using assms d1 False rd unfolding checkpt_refill_def
      by (auto simp: bind_eq_Some_conv Let_def reader_kept_def counters_def split: if_splits)
    then show ?thesis using k2 check_hdr_kept reader_kept_trans by cases blast+
  qed
qed

lemma get_byte_kept: "checkpt_get_byte d = Some (b, d') \<Longrightarrow> reader_kept d d'"
  unfolding checkpt_get_byte_def
  by (auto simp: reader_kept_def counters_def Let_def split: option.splits if_splits)

lemma rd_loop_kept: "checkpt_rd_loop tg n tags d = Some (bs, d') \<Longrightarrow> reader_kept d d'"
proof (induction n arbitrary: tags d bs)
  case (Suc n)
  obtain ok tags1 d1 where f: "(if outside_buffer d then checkpt_refill tg tags d else Some (True, tags, d)) = Some (ok, tags1, d1)"
    using Suc.prems by (auto simp: bind_eq_Some_conv split: if_splits)
  have k: "reader_kept d d1" using f by (auto split: if_splits dest: refill_kept)
  show ?case
  proof (cases ok)
    case False
    then show ?thesis using Suc.prems f k by simp
  next
    case True
    then obtain b d2 bs' where "checkpt_get_byte d1 = Some (b, d2)" "checkpt_rd_loop tg n tags1 d2 = Some (bs', d')"
      using Suc.prems f by (auto simp: bind_eq_Some_conv)
    then show ?thesis using k get_byte_kept Suc.IH reader_kept_trans by blast
  qed
qed simp

text \<open>The fields that the reader of the device sets are not those of the stream.\<close>

lemma stream_dev_fields:
  "stream_pos cpb E k (yaffs_checkpt_dev_to_dev dev cp) = stream_pos cpb E k dev"
  "stream_pos cpb E k (dev\<lparr>block_info := bis\<rparr>) = stream_pos cpb E k dev"
  "stream_pos cpb E k (dev\<lparr>chunk_bits := bits\<rparr>) = stream_pos cpb E k dev"
  "stream_geom D tb cpb (yaffs_checkpt_dev_to_dev dev cp) = stream_geom D tb cpb dev"
  "stream_geom D tb cpb (dev\<lparr>chunk_bits := bits\<rparr>) = stream_geom D tb cpb dev"
  "stream_geom D tb cpb dev \<Longrightarrow> length bis = n_blocks dev \<Longrightarrow> stream_geom D tb cpb (dev\<lparr>block_info := bis\<rparr>)"
  by (simp_all add: stream_pos_def stream_geom_def table_wf_def n_blocks_def yaffs_checkpt_dev_to_dev_def)

lemma stream_reading_dev:
  assumes "stream_reading content usable D tb cpb fl E dev ds i k"
  shows "stream_reading content usable D tb cpb fl E (yaffs_checkpt_dev_to_dev dev cp) ds i k"
    "length bis = n_blocks dev \<Longrightarrow> stream_reading content usable D tb cpb fl E (dev\<lparr>block_info := bis\<rparr>) ds i k"
    "stream_reading content usable D tb cpb fl E (dev\<lparr>chunk_bits := bits\<rparr>) ds i k"
  using assms stream_dev_fields(6) [of D tb cpb dev bis] unfolding stream_reading_def Let_def stream_dev_fields(1-5)
  by (auto simp: yaffs_checkpt_dev_to_dev_def)

lemma same_geometry_dev [simp]:
  "same_geometry dev (yaffs_checkpt_dev_to_dev dev' cp) = same_geometry dev dev'"
  "same_geometry dev (dev'\<lparr>block_info := bis\<rparr>) = same_geometry dev dev'"
  "same_geometry dev (dev'\<lparr>chunk_bits := bits\<rparr>) = same_geometry dev dev'"
  by (simp_all add: same_geometry_def yaffs_checkpt_dev_to_dev_def)

lemma same_geometry_trans: "same_geometry d d1 \<Longrightarrow> same_geometry d1 d2 \<Longrightarrow> same_geometry d d2"
  by (simp add: same_geometry_def)

lemma same_geometry_blocks: "same_geometry d d' \<Longrightarrow> n_blocks d' = n_blocks d \<and> swap_endian d' = swap_endian d"
  by (simp add: same_geometry_def n_blocks_def)

text \<open>What the reader needs to find on the flash, for a device of its geometry.\<close>

definition stream_readable ::
    "('n \<Rightarrow> int \<Rightarrow> u8 list \<times> yaffs_ext_tags) \<Rightarrow> ('n \<Rightarrow> int \<Rightarrow> bool) \<Rightarrow> nat \<Rightarrow> int \<Rightarrow> int list \<Rightarrow> 'n \<Rightarrow> u8 list \<Rightarrow>
     'n yaffs_dev \<Rightarrow> bool" where
  "stream_readable content usable D cpb E fl ds dev \<longleftrightarrow>
     stream_stored content usable D cpb (swap_endian dev) (chunk_offset dev) (internal_start_block dev)
       (internal_end_block dev) E fl ds \<and>
     int (stream_used cpb (stream_pages (D - CHECKPT_HDR_SIZE) (length ds))) \<le>
       (internal_end_block dev - internal_start_block dev) div 16 + 2"

lemma stream_readable_geometry:
  "same_geometry dev dev' \<Longrightarrow> stream_readable content usable D cpb E fl ds dev' = stream_readable content usable D cpb E fl ds dev"
  by (simp add: stream_readable_def same_geometry_def)

context stream_store
begin

lemma get_stream:
  assumes s: "stream_readable content usable data_bytes cpb E fl ds dev"
    and r: "stream_reading content usable data_bytes chunk_bytes cpb fl E dev ds i k"
    and d: "drop i ds = xs @ rest" and n: "n = length xs"
  shows "\<exists>dev' k'. checkpt_get tg dev n = Some (True, xs, dev') \<and> drop (i + n) ds = rest \<and>
    stream_reading content usable data_bytes chunk_bytes cpb fl E dev' ds (i + n) k' \<and> same_geometry dev dev' \<and>
    reader_kept dev dev' \<and> stream_readable content usable data_bytes cpb E fl ds dev'"
proof -
  have l: "i + n \<le> length ds"
  proof -
    have "i \<le> length ds" using r by (simp add: stream_reading_def Let_def)
    moreover have "length (drop i ds) = n + length rest" unfolding d n by simp
    ultimately show ?thesis by simp
  qed
  obtain dev' k' where g: "checkpt_rd_loop tg n (stack_tags dev) dev = Some (take n (drop i ds), dev')"
    "stream_reading content usable data_bytes chunk_bytes cpb fl E dev' ds (i + n) k'" "same_geometry dev dev'"
    using rd_loop_stream [OF _ _ r l, of "stack_tags dev"] s by (auto simp: stream_readable_def)
  have x: "take n (drop i ds) = xs" unfolding d n by simp
  have "drop (i + n) ds = drop n (drop i ds)" by (simp add: add.commute)
  then have rest: "drop (i + n) ds = rest" unfolding d n by simp
  obtain buf where "checkpt_buffer dev = Some buf" "\<not> checkpt_open_write dev"
    using r by (auto simp: stream_reading_def Let_def)
  then have "checkpt_get tg dev n = Some (True, xs, dev')"
    using g(1) x n by (simp add: checkpt_get_def yaffs2_checkpt_rd_def)
  then show ?thesis using g(2,3) rest rd_loop_kept [OF g(1)] s stream_readable_geometry [OF g(3)] by blast
qed

lemma rd_dev_stream:
  assumes s: "stream_readable content usable data_bytes cpb E fl ds dev"
    and r: "stream_reading content usable data_bytes chunk_bytes cpb fl E dev ds i k"
    and d: "drop i ds = dev_image dev0 bis @ rest"
    and geo: "n_blocks dev = n_blocks dev0" "swap_endian dev = swap_endian dev0"
      "chunk_bit_stride dev = chunk_bit_stride dev0"
    and bits: "length (chunk_bits dev) = n_blocks dev * chunk_bit_stride dev"
      "n_blocks dev0 * chunk_bit_stride dev0 \<le> length (chunk_bits dev0)"
    and bis: "length bis = n_blocks dev" "\<And>b. b \<in> set bis \<Longrightarrow> bi_fits b" and fit: "counters_fit dev0"
  shows "\<exists>dev' k'. yaffs2_rd_checkpt_dev tg dev = Some (True, dev') \<and> block_info dev' = bis \<and>
    chunk_bits dev' = take (n_blocks dev0 * chunk_bit_stride dev0) (chunk_bits dev0) \<and> counters dev' = counters dev0 \<and>
    stream_reading content usable data_bytes chunk_bytes cpb fl E dev' ds (i + length (dev_image dev0 bis)) k' \<and>
    drop (i + length (dev_image dev0 bis)) ds = rest \<and> same_geometry dev dev'"
proof -
  let ?cd = "cd_bytes (yaffs2_do_endian_checkpt_dev dev0 (yaffs2_dev_to_checkpt_dev dev0))"
  let ?tb = "words_bytes (table_words (swap_if dev0) bis)"
  let ?bits = "take (n_blocks dev0 * chunk_bit_stride dev0) (chunk_bits dev0)"
  have d1: "drop i ds = ?cd @ (?tb @ ?bits @ rest)" using d by (simp add: dev_image_def)
  have c36: "36 = length ?cd" by simp
  obtain dev1 k1 where g1: "checkpt_get tg dev 36 = Some (True, ?cd, dev1)" "drop (i + 36) ds = ?tb @ ?bits @ rest"
    "stream_reading content usable data_bytes chunk_bytes cpb fl E dev1 ds (i + 36) k1" "same_geometry dev dev1"
    "reader_kept dev dev1" "stream_readable content usable data_bytes cpb E fl ds dev1"
    using get_stream [OF s r d1 c36] by blast
  have n1: "n_blocks dev1 = n_blocks dev0" "swap_endian dev1 = swap_endian dev0"
    using same_geometry_blocks [OF g1(4)] geo by simp_all
  let ?dev1 = "yaffs_checkpt_dev_to_dev dev1 (yaffs2_dev_to_checkpt_dev dev0)"
  have r1: "stream_reading content usable data_bytes chunk_bytes cpb fl E ?dev1 ds (i + 36) k1"
    by (rule stream_reading_dev(1) [OF g1(3)])
  have c1: "counters ?dev1 = counters dev0" by (rule counters_back [OF fit])
  have s1: "stream_readable content usable data_bytes cpb E fl ds ?dev1"
    using g1(6) stream_readable_geometry [of dev1 ?dev1] by (simp add: same_geometry_def yaffs_checkpt_dev_to_dev_def)
  have f1: "n_blocks ?dev1 = n_blocks dev0" "swap_endian ?dev1 = swap_endian dev0" "block_info ?dev1 = block_info dev"
      "chunk_bits ?dev1 = chunk_bits dev" "chunk_bit_stride ?dev1 = chunk_bit_stride dev0"
    using n1 g1(5) geo by (simp_all add: yaffs_checkpt_dev_to_dev_def n_blocks_def reader_kept_def)
  have l8: "n_blocks dev0 * 8 = length ?tb" using bis(1) geo(1) by simp
  obtain dev2 k2 where g2: "checkpt_get tg ?dev1 (n_blocks dev0 * 8) = Some (True, ?tb, dev2)"
    "drop (i + 36 + n_blocks dev0 * 8) ds = ?bits @ rest"
    "stream_reading content usable data_bytes chunk_bytes cpb fl E dev2 ds (i + 36 + n_blocks dev0 * 8) k2"
    "same_geometry ?dev1 dev2" "reader_kept ?dev1 dev2" "stream_readable content usable data_bytes cpb E fl ds dev2"
    using get_stream [OF s1 r1 g1(2) l8] by blast
  have tw: "length (block_info dev) = n_blocks dev" using r by (auto simp: stream_reading_def Let_def stream_geom_def table_wf_def)
  have n2: "n_blocks dev2 = n_blocks dev0" "swap_endian dev2 = swap_endian dev0"
    using same_geometry_blocks [OF g2(4)] f1 by simp_all
  have sw: "swap_if dev2 = swap_if dev0" by (simp add: fun_eq_iff swap_if_def n2)
  have inv: "swap_if dev0 (swap_if dev0 w) = w" for w by (simp add: swap_if_def)
  have table: "bytes_table (swap_if dev2) (n_blocks dev0) (?tb @ x) = bis" for x
    using bytes_table_words [of "swap_if dev0" bis x, OF inv bis(2)] bis(1) geo(1) sw by simp
  let ?dev2 = "dev2\<lparr>block_info := bis\<rparr>"
  have k2: "block_info dev2 = block_info dev" "chunk_bits dev2 = chunk_bits dev" "chunk_bit_stride dev2 = chunk_bit_stride dev0"
      "counters dev2 = counters dev0"
    using g2(5) f1 c1 by (simp_all add: reader_kept_def)
  have r2: "stream_reading content usable data_bytes chunk_bytes cpb fl E ?dev2 ds (i + 36 + n_blocks dev0 * 8) k2"
    by (rule stream_reading_dev(2) [OF g2(3)]) (simp add: n2 bis(1) geo(1))
  have s2: "stream_readable content usable data_bytes cpb E fl ds ?dev2"
    using g2(6) stream_readable_geometry [of dev2 ?dev2] by (simp add: same_geometry_def)
  have lb: "n_blocks dev0 * chunk_bit_stride dev0 = length ?bits" using bits(2) by simp
  obtain dev3 k3 where g3: "checkpt_get tg ?dev2 (n_blocks dev0 * chunk_bit_stride dev0) = Some (True, ?bits, dev3)"
    "drop (i + 36 + n_blocks dev0 * 8 + n_blocks dev0 * chunk_bit_stride dev0) ds = rest"
    "stream_reading content usable data_bytes chunk_bytes cpb fl E dev3 ds
       (i + 36 + n_blocks dev0 * 8 + n_blocks dev0 * chunk_bit_stride dev0) k3"
    "same_geometry ?dev2 dev3" "reader_kept ?dev2 dev3"
    using get_stream [OF s2 r2 g2(2) lb] by blast
  let ?dev3 = "dev3\<lparr>chunk_bits := ?bits\<rparr>"
  have k3: "chunk_bits dev3 = chunk_bits dev" "block_info dev3 = bis" "counters dev3 = counters dev0"
    using g3(5) k2 by (simp_all add: reader_kept_def counters_def)
  have cd: "bytes_cd ?cd = yaffs2_do_endian_checkpt_dev dev0 (yaffs2_dev_to_checkpt_dev dev0)"
    "yaffs2_do_endian_checkpt_dev dev1 (yaffs2_do_endian_checkpt_dev dev0 (yaffs2_dev_to_checkpt_dev dev0)) = yaffs2_dev_to_checkpt_dev dev0"
    using n1 by simp_all
  have st: "cd_struct_type (yaffs2_dev_to_checkpt_dev dev0) = 36" by (simp add: yaffs2_dev_to_checkpt_dev_def)
  have lens: "n_blocks dev0 * chunk_bit_stride dev0 = length (chunk_bits dev)" "n_blocks dev0 = length (block_info dev)"
    using bits(1) geo tw by simp_all
  have table': "bytes_table (swap_if dev2) (length (block_info dev)) (?tb @ x) = bis" for x
    using table lens(2) by simp
  have enough: "length (chunk_bits dev) \<le> length (chunk_bits dev0)" using bits geo by simp
  have "yaffs2_rd_checkpt_dev tg dev = Some (True, ?dev3)"
    using g1(1) g2(1) g3(1) lens table' enough
    by (simp add: yaffs2_rd_checkpt_dev_def cd st Let_def f1 k2 k3)
  moreover have "length (dev_image dev0 bis) = 36 + n_blocks dev0 * 8 + n_blocks dev0 * chunk_bit_stride dev0"
    using bis(1) geo(1) lb by (simp add: dev_image_def)
  moreover have "same_geometry dev ?dev3"
    using g1(4) g2(4) g3(4) by (simp add: same_geometry_def yaffs_checkpt_dev_to_dev_def)
  ultimately show ?thesis using g3(2) k3 stream_reading_dev(3) [OF g3(3)]
    by (intro exI [of _ ?dev3] exI [of _ k3]) (simp add: counters_def add.assoc)
qed

end

section \<open>The device section, written and read\<close>

definition dev_restored :: "'n yaffs_dev \<Rightarrow> 'n yaffs_dev \<Rightarrow> bool" where
  "dev_restored dev d \<longleftrightarrow> counters d = counters dev \<and>
     chunk_bits d = take (n_blocks dev * chunk_bit_stride dev) (chunk_bits dev) \<and>
     length (block_info d) = n_blocks dev \<and>
     (\<forall>j < n_blocks dev. block_info d ! j = block_info dev ! j \<or>
        (block_state (block_info dev ! j) = YAFFS_BLOCK_STATE_EMPTY \<and>
         block_info d ! j = (block_info dev ! j)\<lparr>block_state := YAFFS_BLOCK_STATE_CHECKPOINT\<rparr>))"

lemma table_seen_restored:
  assumes "table_seen dev bis" and "block_info d = bis" and "counters d = counters dev"
    and "chunk_bits d = take (n_blocks dev * chunk_bit_stride dev) (chunk_bits dev)"
  shows "dev_restored dev d"
  using assms unfolding dev_restored_def table_seen_def state_seen_def by fastforce

lemma table_seen_fits:
  assumes "table_seen dev bis" and "table_wf dev" and "\<forall>b \<in> set (block_info dev). bi_fits b" and "b \<in> set bis"
  shows "bi_fits b"
proof -
  obtain j where j: "j < n_blocks dev" "bis ! j = b"
    using assms(1,4) by (auto simp: table_seen_def in_set_conv_nth)
  obtain st where "b = (block_info dev ! j)\<lparr>block_state := st\<rparr>" using assms(1) j by (auto simp: table_seen_def)
  moreover have "bi_fits (block_info dev ! j)" using assms(2,3) j(1) by (simp add: table_wf_def)
  ultimately show ?thesis by (simp add: bi_fits_def)
qed

lemma open_kept:
  assumes r: "stream_ready content usable D tb cpb dev"
    and b: "checkpt_buffer dev = None" and o: "yaffs2_checkpt_open drv (Some b) list_ok dev True = Some (1, dev')"
  shows "saved_kept dev dev'"
proof -
  have e: "saved_kept d d'" if "yaffs_checkpt_erase drv d = Some d'" "block_info d = block_info dev"
    "internal_start_block d = internal_start_block dev" "internal_end_block d = internal_end_block dev" for d d'
  proof -
    have "yaffs_checkpt_erase drv d = Some (d\<lparr>blocks_in_checkpt := 0\<rparr>)"
    proof (rule checkpt_erase_none)
      show "table_wf d" using r that by (simp add: stream_ready_def stream_geom_def table_wf_def n_blocks_def)
      fix b assume "blk_valid d b"
      then show "block_state (bi_of d b) \<noteq> YAFFS_BLOCK_STATE_CHECKPOINT"
        using r that by (simp add: stream_ready_def blk_valid_def bi_of_def bi_index_def)
    qed
    then show ?thesis using that(1) by (simp add: saved_kept_def yaffs2_dev_to_checkpt_dev_def)
  qed
  have i: "block_info d' = block_info d \<and> internal_start_block d' = internal_start_block d \<and>
      internal_end_block d' = internal_end_block d" if "yaffs2_checkpt_init_chunk_hdr d = Some d'" for d d'
    using that unfolding yaffs2_checkpt_init_chunk_hdr_def Let_def by (auto simp: bind_eq_Some_conv)
  have sp: "yaffs2_checkpt_space_ok (dev\<lparr>checkpt_open_write := True\<rparr>)"
  proof (rule ccontr)
    assume "\<not> ?thesis"
    then show False using o by (simp add: yaffs2_checkpt_open_def Let_def)
  qed
  obtain b2 d2 where d2: "yaffs2_checkpt_init_chunk_hdr (dev\<lparr>checkpt_open_write := True, checkpt_page_seq := 0,
        checkpt_byte_count := 0, checkpt_sum := 0, checkpt_xor := 0, checkpt_cur_block := -1, checkpt_cur_chunk := -1,
        checkpt_next_block := internal_start_block dev, checkpt_buffer := Some b2\<rparr>) = Some d2"
      "yaffs_checkpt_erase drv d2 = Some dev'"
    using o sp b unfolding yaffs2_checkpt_open_def Let_def by (auto simp: bind_eq_Some_conv)
  have "saved_kept d2 dev'" using e [OF d2(2)] i [OF d2(1)] by simp
  moreover have "saved_kept dev d2" using init_hdr_kept [OF d2(1)] by (simp add: saved_kept_def yaffs2_dev_to_checkpt_dev_def)
  ultimately show ?thesis by (rule saved_kept_trans [rotated])
qed

context stream_store
begin

theorem dev_round_trip:
  assumes r: "stream_ready content usable data_bytes chunk_bytes cpb dev" "checkpt_buffer dev = None"
    and n: "16 + 36 + 8 * n_blocks dev + n_blocks dev * chunk_bit_stride dev \<le>
      (data_bytes - CHECKPT_HDR_SIZE) * (nat cpb * length (empties dev))"
    and m: "int (stream_used cpb (stream_pages (data_bytes - CHECKPT_HDR_SIZE)
        (16 + 36 + 8 * n_blocks dev + n_blocks dev * chunk_bit_stride dev))) \<le>
      (internal_end_block dev - internal_start_block dev) div 16 + 2"
    and b: "length b = chunk_bytes" and ne: "internal_start_block dev \<le> internal_end_block dev"
    and bits: "n_blocks dev * chunk_bit_stride dev \<le> length (chunk_bits dev)"
    and fit: "counters_fit dev" "\<forall>b \<in> set (block_info dev). bi_fits b"
  shows "\<exists>dev1 dev2 dev3 dev4. yaffs2_checkpt_open drv (Some b) list_ok dev True = Some (1, dev1) \<and>
     yaffs2_wr_checkpt_validity_marker tg dev1 True = Some (True, dev2) \<and>
     yaffs2_wr_checkpt_dev tg dev2 = Some (True, dev3) \<and> yaffs_checkpt_close tg dev3 = Some (1, dev4) \<and>
     (\<forall>dev5 b' drv'. same_geometry dev dev5 \<and> table_wf dev5 \<and> chunk_bit_stride dev5 = chunk_bit_stride dev \<and>
        length (chunk_bits dev5) = n_blocks dev * chunk_bit_stride dev \<and> flash dev5 = flash dev4 \<and>
        checkpt_buffer dev5 = None \<and> checkpt_block_list dev5 = None \<and> length b' = chunk_bytes \<longrightarrow>
        (\<exists>dev6 dev7 dev8. yaffs2_checkpt_open drv' (Some b') True dev5 False = Some (1, dev6) \<and>
          yaffs2_rd_checkpt_validity_marker tg dev6 True = Some (True, dev7) \<and>
          yaffs2_rd_checkpt_dev tg dev7 = Some (True, dev8) \<and> dev_restored dev dev8))"
proof -
  let ?p = "data_bytes - CHECKPT_HDR_SIZE"
  let ?E = "empties dev"
  let ?len = "16 + 36 + 8 * n_blocks dev + n_blocks dev * chunk_bit_stride dev"
  have g: "stream_geom data_bytes chunk_bytes cpb dev" using r(1) by (simp add: stream_ready_def)
  have t: "table_wf dev" and p: "0 < ?p" using g by (simp_all add: stream_geom_def)
  have u: "usable (flash dev) (b * cpb + i - chunk_offset dev)" if "b \<in> set ?E" "0 \<le> i" "i < cpb" for b i
    using r(1) that by (auto simp: stream_ready_def)
  have buf: "case checkpt_buffer dev of None \<Rightarrow> Some b = Some b | Some b' \<Rightarrow> b' = b" using r(2) by simp
  obtain dev1 where o: "yaffs2_checkpt_open drv (Some b) list_ok dev True = Some (1, dev1)"
    and w1: "stream_written content usable data_bytes chunk_bytes cpb dev dev1 [] 0"
    and b1: "stream_buffer data_bytes chunk_bytes dev1 [] 0"
    using open_write_stream [OF r(1) buf b] by blast
  have k1: "saved_kept dev dev1" by (rule open_kept [OF r o])
  define mk where "mk = \<lparr>cv_struct_type = 16, cv_magic = YAFFS_MAGIC, cv_version = YAFFS_CHECKPOINT_VERSION, cv_head = 1\<rparr>"
  let ?mk = "cv_bytes (yaffs2_do_endian_validity_marker dev mk)"
  have sw1: "swap_endian dev1 = swap_endian dev" using k1 by (simp add: saved_kept_def)
  have mk1: "yaffs2_do_endian_validity_marker dev1 mk = yaffs2_do_endian_validity_marker dev mk"
    by (simp add: yaffs2_do_endian_validity_marker_def sw1)
  have l1: "length [] < Suc 0 * ?p" "length [] + length ?mk \<le> ?p * (nat cpb * length ?E)" using p n by simp_all
  obtain dev2 k2 where p2: "checkpt_put tg dev1 ?mk = Some (True, dev2)"
    and w2: "stream_written content usable data_bytes chunk_bytes cpb dev dev2 ([] @ ?mk) k2"
    and b2: "stream_buffer data_bytes chunk_bytes dev2 ([] @ ?mk) k2" and l2: "length ([] @ ?mk) < Suc k2 * ?p"
    and k2: "saved_kept dev1 dev2"
    using put_stream [OF w1 b1 l1 u] by blast
  have m2: "yaffs2_wr_checkpt_validity_marker tg dev1 True = Some (True, dev2)"
    using p2 by (simp add: yaffs2_wr_checkpt_validity_marker_def Let_def mk_def [symmetric] mk1)
  have n2: "length ([] @ ?mk) + 36 + 8 * n_blocks dev + n_blocks dev * chunk_bit_stride dev \<le> ?p * (nat cpb * length ?E)"
    using n by simp
  obtain dev3 k3 bis where d3: "yaffs2_wr_checkpt_dev tg dev2 = Some (True, dev3)" "table_seen dev bis"
    and w3: "stream_written content usable data_bytes chunk_bytes cpb dev dev3 (([] @ ?mk) @ dev_image dev bis) k3"
    and b3: "stream_buffer data_bytes chunk_bytes dev3 (([] @ ?mk) @ dev_image dev bis) k3"
    and l3: "length (([] @ ?mk) @ dev_image dev bis) < Suc k3 * ?p"
    using wr_dev_stream [OF w2 b2 l2 n2 saved_kept_trans [OF k1 k2] bits u t] by blast
  have lb: "length bis = n_blocks dev" using d3(2) by (simp add: table_seen_def)
  let ?ds = "?mk @ dev_image dev bis"
  have len: "length ?ds = ?len" using lb bits by (simp add: dev_image_def)
  have w3': "stream_written content usable data_bytes chunk_bytes cpb dev dev3 ?ds k3"
    "stream_buffer data_bytes chunk_bytes dev3 ?ds k3" "length ?ds < Suc k3 * ?p"
    using w3 b3 l3 by simp_all
  have n3: "length ?ds \<le> ?p * (nat cpb * length ?E)" using n len by simp
  obtain dev4 where c: "yaffs_checkpt_close tg dev3 = Some (1, dev4)"
    and st: "stream_stored content usable data_bytes cpb (swap_endian dev) (chunk_offset dev)
      (internal_start_block dev) (internal_end_block dev) ?E (flash dev4) ?ds"
    using close_write_stream [OF r(1) w3' n3] by blast
  have rd: "\<exists>dev6 dev7 dev8. yaffs2_checkpt_open drv' (Some b') True dev5 False = Some (1, dev6) \<and>
          yaffs2_rd_checkpt_validity_marker tg dev6 True = Some (True, dev7) \<and>
          yaffs2_rd_checkpt_dev tg dev7 = Some (True, dev8) \<and> dev_restored dev dev8"
    if geo: "same_geometry dev dev5" "table_wf dev5" and cb: "chunk_bit_stride dev5 = chunk_bit_stride dev"
      "length (chunk_bits dev5) = n_blocks dev * chunk_bit_stride dev" and fl: "flash dev5 = flash dev4"
      and none: "checkpt_buffer dev5 = None" "checkpt_block_list dev5 = None" and b': "length b' = chunk_bytes" for dev5 b' drv'
  proof -
    have same: "internal_start_block dev5 = internal_start_block dev" "internal_end_block dev5 = internal_end_block dev"
      using geo(1) by (simp_all add: same_geometry_def)
    obtain dev6 where o6: "yaffs2_checkpt_open drv' (Some b') True dev5 False = Some (1, dev6)"
      and r6: "stream_reading content usable data_bytes chunk_bytes cpb (flash dev5) ?E dev6 ?ds 0 0"
      and g6: "same_geometry dev5 dev6"
      using open_read_stream [OF same_geometry_stream [OF g geo], of "Some b'" b' True drv' ?E ?ds] none b' ne same by auto
    have gg: "same_geometry dev dev6" by (rule same_geometry_trans [OF geo(1) g6])
    have k6: "chunk_bits dev6 = chunk_bits dev5" "chunk_bit_stride dev6 = chunk_bit_stride dev5"
      using o6 none by (auto simp: yaffs2_checkpt_open_def Let_def)
    have "stream_readable content usable data_bytes cpb ?E (flash dev5) ?ds dev"
      using st m len fl unfolding stream_readable_def len by simp
    then have s6: "stream_readable content usable data_bytes cpb ?E (flash dev5) ?ds dev6"
      using stream_readable_geometry [OF gg] by blast
    have d6: "drop 0 ?ds = ?mk @ (dev_image dev bis @ [])" and c16: "16 = length ?mk" by simp_all
    obtain dev7 k7 where g7: "checkpt_get tg dev6 16 = Some (True, ?mk, dev7)" "drop (0 + 16) ?ds = dev_image dev bis @ []"
      and r7: "stream_reading content usable data_bytes chunk_bytes cpb (flash dev5) ?E dev7 ?ds (0 + 16) k7"
      and g67: "same_geometry dev6 dev7" and k67: "reader_kept dev6 dev7"
      and s7: "stream_readable content usable data_bytes cpb ?E (flash dev5) ?ds dev7"
      using get_stream [OF s6 r6 d6 c16] by blast
    have n7: "n_blocks dev7 = n_blocks dev" "swap_endian dev7 = swap_endian dev"
      using same_geometry_blocks [OF same_geometry_trans [OF gg g67]] by simp_all
    have mk7: "yaffs2_do_endian_validity_marker dev7 (yaffs2_do_endian_validity_marker dev mk) = mk" using n7(2) by simp
    have m7: "yaffs2_rd_checkpt_validity_marker tg dev6 True = Some (True, dev7)"
      using g7(1) by (simp add: yaffs2_rd_checkpt_validity_marker_def Let_def mk7) (simp add: mk_def)
    have cb7: "chunk_bit_stride dev7 = chunk_bit_stride dev" "length (chunk_bits dev7) = n_blocks dev7 * chunk_bit_stride dev7"
      using k67 k6 cb n7 by (simp_all add: reader_kept_def)
    have fits: "bi_fits b" if "b \<in> set bis" for b by (rule table_seen_fits [OF d3(2) t fit(2) that])
    obtain dev8 where "yaffs2_rd_checkpt_dev tg dev7 = Some (True, dev8)" "block_info dev8 = bis"
      "chunk_bits dev8 = take (n_blocks dev * chunk_bit_stride dev) (chunk_bits dev)" "counters dev8 = counters dev"
      using rd_dev_stream [OF s7 r7 g7(2) n7 cb7(1) cb7(2) bits _ fits fit(1)] lb n7(1) by metis
    then show ?thesis using o6 m7 table_seen_restored [OF d3(2)] by blast
  qed
  show ?thesis using o m2 d3(1) c rd by blast
qed

end
text \<open>
  C7: the device section of a checkpoint on the RAM simulator, in either byte order.  A device
  writes a marker, its counters, its block table and its chunk bitmap into a new
  checkpoint; any device of the same geometry that finds this flash reads the marker as
  valid and gets back the counters, the bitmap and every block.  Only a block that was
  empty may come back as a checkpoint block, when the stream took it before its entry
  was written.
\<close>

theorem checkpt_dev_round_trip:
  assumes "ram_stream_ready nte sw dev" and "length b = DATA_SIZE"
    and "16 + 36 + 8 * n_blocks dev + n_blocks dev * chunk_bit_stride dev \<le>
      (DATA_SIZE - CHECKPT_HDR_SIZE) * (PAGES_PER_BLOCK * length (empties dev))"
    and "int (ram_stream_blocks (16 + 36 + 8 * n_blocks dev + n_blocks dev * chunk_bit_stride dev)) \<le>
      (internal_end_block dev - internal_start_block dev) div 16 + 2"
    and "n_blocks dev * chunk_bit_stride dev \<le> length (chunk_bits dev)"
    and "counters_fit dev" and "\<forall>b \<in> set (block_info dev). bi_fits b"
  shows "\<exists>dev1 dev2 dev3 dev4. yaffs2_checkpt_open drv (Some b) list_ok dev True = Some (1, dev1) \<and>
     yaffs2_wr_checkpt_validity_marker (yaffs_tags_marshall_install yramsim_driver (yramsim_param nte sw)) dev1 True = Some (True, dev2) \<and>
     yaffs2_wr_checkpt_dev (yaffs_tags_marshall_install yramsim_driver (yramsim_param nte sw)) dev2 = Some (True, dev3) \<and>
     yaffs_checkpt_close (yaffs_tags_marshall_install yramsim_driver (yramsim_param nte sw)) dev3 = Some (1, dev4) \<and>
     (\<forall>dev5 b' drv'. same_geometry dev dev5 \<and> table_wf dev5 \<and> chunk_bit_stride dev5 = chunk_bit_stride dev \<and>
        length (chunk_bits dev5) = n_blocks dev * chunk_bit_stride dev \<and> flash dev5 = flash dev4 \<and>
        checkpt_buffer dev5 = None \<and> checkpt_block_list dev5 = None \<and> length b' = DATA_SIZE \<longrightarrow>
        (\<exists>dev6 dev7 dev8. yaffs2_checkpt_open drv' (Some b') True dev5 False = Some (1, dev6) \<and>
          yaffs2_rd_checkpt_validity_marker (yaffs_tags_marshall_install yramsim_driver (yramsim_param nte sw)) dev6 True = Some (True, dev7) \<and>
          yaffs2_rd_checkpt_dev (yaffs_tags_marshall_install yramsim_driver (yramsim_param nte sw)) dev7 = Some (True, dev8) \<and>
          dev_restored dev dev8))"
proof -
  have p: "mp_data_bytes_per_chunk (yramsim_param nte sw) = DATA_SIZE" by (simp add: yramsim_param_def)
  have r: "stream_ready (marshall_content (yramsim_param nte sw) ram_content) (marshall_usable (yramsim_param nte sw) ram_good)
       DATA_SIZE DATA_SIZE (int PAGES_PER_BLOCK) dev"
    and ne: "internal_start_block dev \<le> internal_end_block dev" "checkpt_buffer dev = None"
    using assms(1) by (simp_all add: ram_stream_ready_def)
  note rt = ram_stream.stream.dev_round_trip [where no_tags_ecc = nte and swap_endian = sw, unfolded p, OF r ne(2)]
  have n: "16 + 36 + 8 * n_blocks dev + n_blocks dev * chunk_bit_stride dev \<le>
      (DATA_SIZE - CHECKPT_HDR_SIZE) * (nat (int PAGES_PER_BLOCK) * length (empties dev))" using assms(3) by simp
  have bl: "int (stream_used (int PAGES_PER_BLOCK) (stream_pages (DATA_SIZE - CHECKPT_HDR_SIZE)
        (16 + 36 + 8 * n_blocks dev + n_blocks dev * chunk_bit_stride dev)))
      \<le> (internal_end_block dev - internal_start_block dev) div 16 + 2"
    using assms(4) by (simp add: ram_stream_blocks_def)
  show ?thesis by (rule rt [OF n bl assms(2) ne(1) assms(5-7)])
qed

definition table_stream_dev :: "sim_data marshall yaffs_dev" where
  "table_stream_dev = sample_stream_dev\<lparr>chunk_bit_stride := 8, chunk_bits := replicate 24 5, alloc_block := 1,
     alloc_page := 17, n_free_chunks := 300, dev_seq_number := 0x1234\<rparr>"

theorem checkpt_dev_round_trip_witness:
  "\<exists>dev1 dev2 dev3 dev4 dev6 dev7 dev8. yaffs2_checkpt_open sample_marshall_driver (Some (replicate DATA_SIZE 9)) True
       table_stream_dev True = Some (1, dev1) \<and>
     yaffs2_wr_checkpt_validity_marker (yaffs_tags_marshall_install yramsim_driver (yramsim_param True False)) dev1 True = Some (True, dev2) \<and>
     yaffs2_wr_checkpt_dev (yaffs_tags_marshall_install yramsim_driver (yramsim_param True False)) dev2 = Some (True, dev3) \<and>
     yaffs_checkpt_close (yaffs_tags_marshall_install yramsim_driver (yramsim_param True False)) dev3 = Some (1, dev4) \<and>
     yaffs2_checkpt_open sample_marshall_driver (Some (replicate DATA_SIZE 0)) True
       (table_stream_dev\<lparr>chunk_bits := replicate 24 0, alloc_page := 0, n_free_chunks := 0, flash := flash dev4\<rparr>) False = Some (1, dev6) \<and>
     yaffs2_rd_checkpt_validity_marker (yaffs_tags_marshall_install yramsim_driver (yramsim_param True False)) dev6 True = Some (True, dev7) \<and>
     yaffs2_rd_checkpt_dev (yaffs_tags_marshall_install yramsim_driver (yramsim_param True False)) dev7 = Some (True, dev8) \<and>
     alloc_page dev8 = 17 \<and> n_free_chunks dev8 = 300 \<and> chunk_bits dev8 = replicate 24 5"
proof -
  let ?tg = "yaffs_tags_marshall_install yramsim_driver (yramsim_param True False)"
  have nb: "n_blocks table_stream_dev = 3" "chunk_bit_stride table_stream_dev = 8"
      "chunk_bits table_stream_dev = replicate 24 5" "internal_end_block table_stream_dev = 3"
      "internal_start_block table_stream_dev = 1"
    by (simp_all add: n_blocks_def table_stream_dev_def sample_stream_dev_def)
  have em: "empties table_stream_dev = [2, 3]"
    using sample_stream_empties by (simp add: empties_def table_stream_dev_def bi_of_def bi_index_def)
  have r: "ram_stream_ready True False table_stream_dev"
  proof -
    have same: "data_bytes_per_chunk table_stream_dev = data_bytes_per_chunk sample_stream_dev"
      "chunk_offset table_stream_dev = chunk_offset sample_stream_dev" "block_offset table_stream_dev = block_offset sample_stream_dev"
      "internal_start_block table_stream_dev = internal_start_block sample_stream_dev"
      "internal_end_block table_stream_dev = internal_end_block sample_stream_dev" "block_info table_stream_dev = block_info sample_stream_dev"
      "flash table_stream_dev = flash sample_stream_dev" "param table_stream_dev = param sample_stream_dev"
      "n_erased_blocks table_stream_dev = n_erased_blocks sample_stream_dev"
      "checkpt_buffer table_stream_dev = checkpt_buffer sample_stream_dev"
      by (simp_all add: table_stream_dev_def)
    have bs: "bi_of table_stream_dev b = bi_of sample_stream_dev b" "blk_valid table_stream_dev b = blk_valid sample_stream_dev b" for b
      using same by (simp_all add: bi_of_def bi_index_def blk_valid_def)
    have tw: "table_wf table_stream_dev = table_wf sample_stream_dev"
      using same by (simp add: table_wf_def n_blocks_def)
    show ?thesis
      using sample_stream_ready
      unfolding ram_stream_ready_def stream_ready_def stream_geom_def em sample_stream_empties same bs tw .
  qed
  have sz: "DATA_SIZE = 2048" "PAGES_PER_BLOCK = 64" "CHECKPT_HDR_SIZE = 16"
    by (simp_all add: DATA_SIZE_def PAGES_PER_BLOCK_def CHECKPT_HDR_SIZE_def)
  have bl: "int (ram_stream_blocks (16 + 36 + 8 * 3 + 3 * 8)) \<le> (3 - 1) div 16 + 2"
    by (simp add: ram_stream_blocks_def stream_pages_def stream_used_def sz)
  have fit: "counters_fit table_stream_dev"
    by (simp add: counters_fit_def table_stream_dev_def sample_stream_dev_def zero_dev_def)
  have bf: "\<forall>b \<in> set (block_info table_stream_dev). bi_fits b"
    by (simp add: table_stream_dev_def sample_stream_dev_def bi_fits_def zero_block_info_def)
  have geo: "same_geometry table_stream_dev (table_stream_dev\<lparr>chunk_bits := replicate 24 0, alloc_page := 0, n_free_chunks := 0, flash := f\<rparr>)"
    "table_wf (table_stream_dev\<lparr>chunk_bits := replicate 24 0, alloc_page := 0, n_free_chunks := 0, flash := f\<rparr>)" for f
    by (simp_all add: same_geometry_def table_wf_def n_blocks_def table_stream_dev_def sample_stream_dev_def)
  have none: "checkpt_buffer table_stream_dev = None" "checkpt_block_list table_stream_dev = None"
    "alloc_page table_stream_dev = 17" "n_free_chunks table_stream_dev = 300"
    by (simp_all add: table_stream_dev_def sample_stream_dev_def zero_dev_def)
  have cap: "16 + 36 + 8 * n_blocks table_stream_dev + n_blocks table_stream_dev * chunk_bit_stride table_stream_dev \<le>
      (DATA_SIZE - CHECKPT_HDR_SIZE) * (PAGES_PER_BLOCK * length (empties table_stream_dev))"
    "n_blocks table_stream_dev * chunk_bit_stride table_stream_dev \<le> length (chunk_bits table_stream_dev)"
    by (simp_all add: nb em sz)
  have bl': "int (ram_stream_blocks (16 + 36 + 8 * n_blocks table_stream_dev + n_blocks table_stream_dev * chunk_bit_stride table_stream_dev))
      \<le> (internal_end_block table_stream_dev - internal_start_block table_stream_dev) div 16 + 2"
    using bl by (simp add: nb)
  have lb: "length (replicate DATA_SIZE (9 :: u8)) = DATA_SIZE" by simp
  obtain dev1 dev2 dev3 dev4 where w: "yaffs2_checkpt_open sample_marshall_driver (Some (replicate DATA_SIZE 9)) True table_stream_dev True = Some (1, dev1)"
    "yaffs2_wr_checkpt_validity_marker ?tg dev1 True = Some (True, dev2)"
    "yaffs2_wr_checkpt_dev ?tg dev2 = Some (True, dev3)" "yaffs_checkpt_close ?tg dev3 = Some (1, dev4)"
    and rd: "\<And>dev5 b' drv'. same_geometry table_stream_dev dev5 \<and> table_wf dev5 \<and> chunk_bit_stride dev5 = chunk_bit_stride table_stream_dev \<and>
        length (chunk_bits dev5) = n_blocks table_stream_dev * chunk_bit_stride table_stream_dev \<and> flash dev5 = flash dev4 \<and>
        checkpt_buffer dev5 = None \<and> checkpt_block_list dev5 = None \<and> length b' = DATA_SIZE \<Longrightarrow>
        \<exists>dev6 dev7 dev8. yaffs2_checkpt_open drv' (Some b') True dev5 False = Some (1, dev6) \<and>
          yaffs2_rd_checkpt_validity_marker ?tg dev6 True = Some (True, dev7) \<and>
          yaffs2_rd_checkpt_dev ?tg dev7 = Some (True, dev8) \<and> dev_restored table_stream_dev dev8"
    using checkpt_dev_round_trip [OF r lb cap(1) bl' cap(2) fit bf, of sample_marshall_driver True] by blast
  let ?dev5 = "table_stream_dev\<lparr>chunk_bits := replicate 24 0, alloc_page := 0, n_free_chunks := 0, flash := flash dev4\<rparr>"
  obtain dev6 dev7 dev8 where "yaffs2_checkpt_open sample_marshall_driver (Some (replicate DATA_SIZE 0)) True ?dev5 False = Some (1, dev6)"
      "yaffs2_rd_checkpt_validity_marker ?tg dev6 True = Some (True, dev7)"
      "yaffs2_rd_checkpt_dev ?tg dev7 = Some (True, dev8)" "dev_restored table_stream_dev dev8"
    using rd [of ?dev5 "replicate DATA_SIZE 0" sample_marshall_driver] geo none nb by auto
  then show ?thesis using w none nb by (auto simp: dev_restored_def counters_def)
qed

section \<open>A checkpoint that is not opened\<close>

text \<open>
  \<^verbatim>\<open>yaffs2_wr_checkpt_data\<close> closes the stream also when it could not be opened.  With no space for a
  checkpoint, the stream is already open for writing for \<^verbatim>\<open>yaffs_checkpt_close\<close>; its position is
  that of the last read, and the old buffer is written into the chunk there, whatever
  that block holds by now.
\<close>

lemma failed_checkpoint_writes:
  assumes "yaffs2_checkpt_required (sdev s)" and "n_erased_blocks (sdev s) \<le> n_reserved_blocks (param (sdev s))"
    and "checkpt_byte_offs (sdev s) \<noteq> int CHECKPT_HDR_SIZE" and "0 \<le> checkpt_cur_block (sdev s)" "0 < checkpt_cur_chunk (sdev s)"
    and "write_chunk_tags_fn (stg s) (flash (sdev s)) (apply_chunk_offset (sdev s)
        (checkpt_cur_block (sdev s) * chunks_per_block (param (sdev s)) + checkpt_cur_chunk (sdev s)))
        (checkpt_buffer (sdev s)) (Some (checkpt_tags (sdev s))) = Some (r, Some b, fl)"
    and "data_bytes_per_chunk (sdev s) \<le> length b" and "CHECKPT_HDR_SIZE \<le> length b"
  shows "\<exists>s'. yaffs2_wr_checkpt_data new_buffer stack_cp s = Some (False, s') \<and> flash (sdev s') = fl"
proof -
  let ?d = "(sdev s)\<lparr>checkpt_open_write := True\<rparr>"
  have t: "checkpt_tags (?d\<lparr>n_page_writes := x\<rparr>) = checkpt_tags (sdev s)" "checkpt_tags ?d = checkpt_tags (sdev s)" for x
    by (simp_all add: checkpt_tags_def)
  have o: "open_for new_buffer True True (sdrv s) (sdev s) = Some (False, ?d)"
    using assms(2) by (simp add: open_for_def yaffs2_checkpt_open_def yaffs2_checkpt_space_ok_def Let_def)
  have i: "\<exists>d'. yaffs2_checkpt_init_chunk_hdr d = Some d' \<and> flash d' = fl" if "checkpt_buffer d = Some c" "flash d = fl" "CHECKPT_HDR_SIZE \<le> length c" for d c
    using that by (simp add: yaffs2_checkpt_init_chunk_hdr_def Let_def buf_write_def)
  obtain d' where f: "yaffs2_checkpt_flush_buffer (stg s) ?d = Some (1, d')" "flash d' = fl"
  proof -
    obtain c where c: "buf_write b 0 (replicate (data_bytes_per_chunk (sdev s)) 0) = Some c" "CHECKPT_HDR_SIZE \<le> length c"
      using assms(7,8) by (simp add: buf_write_def)
    have ex: "\<exists>d'. yaffs2_checkpt_flush_buffer (stg s) ?d = Some (1, d') \<and> flash d' = fl"
      using assms(4-6) c(1) t i [OF _ _ c(2)]
      by (cases "checkpt_cur_chunk (sdev s) + 1 \<ge> chunks_per_block (param (sdev s))")
        (auto simp: yaffs2_checkpt_flush_buffer_def Let_def apply_chunk_offset_def bind_eq_Some_conv)
    then show ?thesis using that by blast
  qed
  have w: "checkpt_open_write ?d" "checkpt_byte_offs ?d \<noteq> int CHECKPT_HDR_SIZE" using assms(3) by simp_all
  then obtain r' d'' where "yaffs_checkpt_close (stg s) ?d = Some (r', d'')" "flash d'' = fl"
    using f by (simp add: yaffs_checkpt_close_def Let_def)
  then show ?thesis
    using assms(1) o by (simp add: yaffs2_wr_checkpt_data_def when_ok_def close_checkpt_def Let_def)
qed


end
