(* ===== verification/Yaffs_Mount.thy ===== *)
theory Yaffs_Mount
  imports Yaffs_Scan1 Yaffs_Checkpt_Dev Yaffs_Cache
begin

text \<open>
  core/yaffs_guts.c: the start and the end of a mount.  The low-level start checks the
  geometry and opens the flash, \<^verbatim>\<open>yaffs_guts_initialise\<close> computes the numbers of the device,
  builds its tables and fills them from a checkpoint or by a scan.

  The functions of the driver and of the tag handler are all there
  (\<^verbatim>\<open>yaffs_check_dev_fns\<close> has nothing to refuse), and the verification of the tables, which
  only reports, is left out.
\<close>

section \<open>Shifts\<close>

function calc_shifts_ceiling_loop :: "nat \<Rightarrow> nat \<Rightarrow> nat \<Rightarrow> nat \<times> nat" where
  "calc_shifts_ceiling_loop x extra_bits shifts =
     (if x > 1 then calc_shifts_ceiling_loop (x div 2) (if odd x then extra_bits + 1 else extra_bits) (shifts + 1)
      else (extra_bits, shifts))"
  by pat_completeness auto
termination by (relation "measure (\<lambda>(x, e, s). x)") auto

definition calc_shifts_ceiling :: "nat \<Rightarrow> nat" where
  "calc_shifts_ceiling x =
     (let (extra_bits, shifts) = calc_shifts_ceiling_loop x 0 0 in if extra_bits \<noteq> 0 then shifts + 1 else shifts)"

function calc_shifts_loop :: "nat \<Rightarrow> nat \<Rightarrow> nat" where
  "calc_shifts_loop x shifts =
     (if x \<noteq> 0 \<and> even x then calc_shifts_loop (x div 2) (shifts + 1) else shifts)"
  by pat_completeness auto
termination by (relation "measure (\<lambda>(x, s). x)") auto

declare calc_shifts_ceiling_loop.simps [simp del] calc_shifts_loop.simps [simp del]

definition calc_shifts :: "nat \<Rightarrow> nat" where
  "calc_shifts x = (if x = 0 then 0 else calc_shifts_loop x 0)"

section \<open>The low-level start\<close>

text \<open>
  What the environment decides: the processor, the size of a pointer, the new buffers and
  whether the allocations that are not those of tnodes and objects succeed.
\<close>

record mount_env =
  me_little_cpu :: bool
  me_pointer_size :: int
  me_tmp_ok :: bool
  me_cache_oks :: "bool list"
  me_cleanup_ok :: bool
  me_blocks_ok :: "bool \<times> bool"
  me_summary_ok :: bool
  me_checkpt_buffer :: "u8 list option"
  me_checkpt_list_ok :: bool
  me_blocks_again_ok :: "bool \<times> bool"

definition ll_offsets :: "'n yaffs_dev \<Rightarrow> 'n yaffs_dev" where
  "ll_offsets dev =
     (let p = param dev;
          dev = dev\<lparr>internal_start_block := start_block p, internal_end_block := end_block p,
                    block_offset := 0, chunk_offset := 0, n_free_chunks := 0, gc_block := 0\<rparr>
      in if start_block p = 0 then
           dev\<lparr>internal_start_block := start_block p + 1, internal_end_block := end_block p + 1,
               block_offset := 1, chunk_offset := chunks_per_block p\<rparr>
         else dev)"

definition geometry_problem :: "'n yaffs_dev \<Rightarrow> bool" where
  "geometry_problem dev \<longleftrightarrow>
     (let p = param dev in
      (\<not> inband_tags p \<and> is_yaffs2 p \<and> total_bytes_per_chunk p < 1024) \<or>
      (\<not> is_yaffs2 p \<and> total_bytes_per_chunk p < 512) \<or>
      (inband_tags p \<and> \<not> is_yaffs2 p) \<or>
      chunks_per_block p < 2 \<or> n_reserved_blocks p < 2 \<or>
      internal_start_block dev \<le> 0 \<or> internal_end_block dev \<le> 0 \<or>
      internal_end_block dev \<le> internal_start_block dev + n_reserved_blocks p + 2)"

definition yaffs_guts_ll_init :: "mount_env \<Rightarrow> 'n yaffs_sys \<Rightarrow> int \<times> 'n yaffs_sys" where
  "yaffs_guts_ll_init me s =
     (if ll_init s then (YAFFS_OK, s)
      else
        let dev = ll_offsets (sdev s); p = param dev in
        if geometry_problem dev then (YAFFS_FAIL, s\<lparr>sdev := dev\<rparr>)
        else
          let bytes = int (total_bytes_per_chunk p) - (if inband_tags p then 16 else 0);
              dev = dev\<lparr>data_bytes_per_chunk := nat (bytes mod 2 ^ 32)\<rparr>
          in if \<not> me_tmp_ok me then (YAFFS_FAIL, s\<lparr>sdev := dev\<rparr>)
             else
               let (r, dev) = yaffs_init_nand (sdrv s) dev
               in if r \<noteq> YAFFS_OK then (YAFFS_FAIL, s\<lparr>sdev := dev\<rparr>)
                  else (YAFFS_OK, s\<lparr>sdev := dev, ll_init := True\<rparr>))"

section \<open>Formatting\<close>

fun format_blocks ::
    "nat \<Rightarrow> 'n yaffs_driver \<Rightarrow> 'n yaffs_tags_handler \<Rightarrow> 'n yaffs_dev \<Rightarrow> int \<Rightarrow> 'n yaffs_dev option" where
  "format_blocks 0 drv tg dev i = Some dev"
| "format_blocks (Suc n) drv tg dev i =
     do { (r, state, seq, dev) \<leftarrow> yaffs_query_init_block_state tg dev i;
          let dev = (if state \<noteq> YAFFS_BLOCK_STATE_DEAD then snd (yaffs_erase_block drv dev i) else dev);
          format_blocks n drv tg dev (i + 1) }"

definition yaffs_guts_format_dev :: "mount_env \<Rightarrow> 'n yaffs_sys \<Rightarrow> (int \<times> 'n yaffs_sys) option" where
  "yaffs_guts_format_dev me s =
     do { let (r, s) = yaffs_guts_ll_init me s;
          if r \<noteq> YAFFS_OK \<or> is_mounted s then Some (YAFFS_FAIL, s)
          else
            do { s \<leftarrow> run_dev (\<lambda>d. format_blocks (n_blocks d) (sdrv s) (stg s) d (internal_start_block d)) s;
                 Some (YAFFS_OK, s) } }"

section \<open>The numbers of the device\<close>

text \<open>
  The size of a chunk as an odd number times a power of two, and the width of the entries
  of a tnode of level 0.  A width of 32 bits would make the code shift an \<^verbatim>\<open>int\<close> by its
  width, which is undefined (None).  \<^verbatim>\<open>chunk_grp_size\<close> has 16 bits.
\<close>

definition chunk_numbers :: "'n yaffs_dev \<Rightarrow> 'n yaffs_dev" where
  "chunk_numbers dev =
     (let x = data_bytes_per_chunk dev; n = calc_shifts x
      in dev\<lparr>chunk_shift := n, chunk_div := word_of_nat (x div 2 ^ n), chunk_mask := mask n\<rparr>)"

definition tnode_numbers :: "bool \<Rightarrow> int \<Rightarrow> 'n yaffs_dev \<Rightarrow> 'n yaffs_dev option" where
  "tnode_numbers wide_disabled pointer_size dev =
     (let x = nat (chunks_per_block (param dev) * (internal_end_block dev + 1) mod 2 ^ 32);
          bits = calc_shifts_ceiling x;
          bits = (if \<not> wide_disabled \<and> odd bits then bits + 1 else bits);
          width = (if \<not> wide_disabled then max 16 bits else 16);
          grp = (if bits \<le> width then 0 else bits - width)
      in if width \<ge> 32 then None
         else Some (dev\<lparr>tnode_width := width, tnode_mask := mask width, chunk_grp_bits := grp,
                        tnode_size := max (int (width * YAFFS_NTNODES_LEVEL0 div 8))
                                          (int YAFFS_NTNODES_INTERNAL * pointer_size),
                        chunk_grp_size := 2 ^ grp mod 2 ^ 16\<rparr>))"

definition reset_counters :: "'n yaffs_dev \<Rightarrow> 'n yaffs_dev" where
  "reset_counters dev =
     dev\<lparr>all_gcs := 0, passive_gc_count := 0, oldest_dirty_gc_count := 0, bg_gcs := 0, gc_block_finder := 0,
         n_deleted_files := 0, n_bg_deletions := 0, n_unlinked_files := 0, n_erase_failures := 0,
         n_erased_blocks := 0, gc_disable := False, has_pending_prioritised_gc := True,
         oldest_dirty_seq := 0, oldest_dirty_block := 0\<rparr>"

section \<open>The end of a mount\<close>

definition yaffs_deinitialise :: "'n yaffs_sys \<Rightarrow> 'n yaffs_sys" where
  "yaffs_deinitialise s =
     (if is_mounted s then
        let s = yaffs_deinit_tnodes_and_objs (set_dev yaffs_deinit_blocks s);
            s = yaffs_cache_deinit (set_dev yaffs_summary_deinit s);
            s = set_dev (\<lambda>d. d\<lparr>checkpt_buffer := None, checkpt_block_list := None\<rparr>) s;
            s = s\<lparr>gc_cleanup_list := [], ll_init := False, is_mounted := False\<rparr>
        in set_dev (\<lambda>d. snd (yaffs_deinit_nand (sdrv s) d)) s
      else s)"

section \<open>The start of a mount\<close>

text \<open>The tables and the initial directories; \<open>failed\<close> is \<^verbatim>\<open>init_failed\<close>.\<close>

definition build_tables :: "bool \<times> bool \<Rightarrow> bool \<Rightarrow> 'n yaffs_sys \<Rightarrow> (bool \<times> 'n yaffs_sys) option" where
  "build_tables oks failed s =
     do { let (r, d) = (if failed then (YAFFS_OK, sdev s) else yaffs_init_blocks (fst oks) (snd oks) (sdev s));
          let failed = (failed \<or> r = YAFFS_FAIL);
          let s = yaffs_init_tnodes_and_objs (s\<lparr>sdev := d\<rparr>);
          if failed then Some (True, s)
          else do { (r, s) \<leftarrow> yaffs_create_initial_dir s; Some (r = YAFFS_FAIL, s) } }"

text \<open>After a failed attempt to restore a checkpoint, all tables are built again for the scan.\<close>

definition scan_instead :: "mount_env \<Rightarrow> 'n yaffs_sys \<Rightarrow> (bool \<times> 'n yaffs_sys) option" where
  "scan_instead me s =
     do { let s = yaffs_deinit_tnodes_and_objs (set_dev yaffs_deinit_blocks s);
          let s = set_dev (\<lambda>d. d\<lparr>n_erased_blocks := 0, n_free_chunks := 0, alloc_block := -1, alloc_page := -1,
                                 n_deleted_files := 0, n_unlinked_files := 0, n_bg_deletions := 0\<rparr>) s;
          (failed, s) \<leftarrow> build_tables (me_blocks_again_ok me) False s;
          if failed then Some (True, s)
          else do { (r, s) \<leftarrow> yaffs2_scan_backwards s; Some (r = YAFFS_FAIL, s) } }"

definition fill_tables :: "mount_env \<Rightarrow> 'n yaffs_sys \<Rightarrow> (bool \<times> 'n yaffs_sys) option" where
  "fill_tables me s =
     do { (failed, s) \<leftarrow>
            (if is_yaffs2 (param (sdev s)) then
               do { (restored, s) \<leftarrow> yaffs2_checkpt_restore (me_checkpt_buffer me) (me_checkpt_list_ok me) s;
                    if restored then do { s \<leftarrow> yaffs_check_obj_details_loaded s (root_dir s); Some (False, s) }
                    else scan_instead me s }
             else do { (r, s) \<leftarrow> yaffs1_scan s; Some (r = YAFFS_FAIL, s) });
          s \<leftarrow> yaffs_guts_cleanup s;
          Some (failed, s) }"

text \<open>The allocations, the tables and their contents: whether one of them failed.\<close>

definition start_tables :: "mount_env \<Rightarrow> 'n yaffs_sys \<Rightarrow> (bool \<times> 'n yaffs_sys) option" where
  "start_tables me s =
     do { let s = set_dev reset_counters s;
          let s = set_dev (\<lambda>d. d\<lparr>swap_endian := yaffs_endian_config (me_little_cpu me) (stored_endian (sparam s))\<rparr>) s;
          let (r, s) = yaffs_cache_init (s\<lparr>dirty_dirs := [], gc_cleanup_list := []\<rparr>) (me_cache_oks me);
          let failed = (r < 0);
          let s = s\<lparr>cache_hits := 0\<rparr>;
          let failed = (failed \<or> \<not> me_cleanup_ok me);
          let s = (if is_yaffs2 (param (sdev s)) then s\<lparr>sparam := (sparam s)\<lparr>use_header_file_size := True\<rparr>\<rparr> else s);
          (failed, s) \<leftarrow> build_tables (me_blocks_ok me) failed s;
          let (r, d) = (if \<not> failed \<and> is_yaffs2 (param (sdev s)) \<and> \<not> disable_summary (param (sdev s))
                        then yaffs_summary_init (me_summary_ok me) (sdev s) else (YAFFS_OK, sdev s));
          let s = s\<lparr>sdev := d\<rparr>;
          if failed \<or> r = YAFFS_FAIL then Some (True, s) else fill_tables me s }"

definition yaffs_guts_initialise :: "mount_env \<Rightarrow> 'n yaffs_sys \<Rightarrow> (int \<times> 'n yaffs_sys) option" where
  "yaffs_guts_initialise me s =
     do { let (r, s) = yaffs_guts_ll_init me s;
          if r \<noteq> YAFFS_OK \<or> is_mounted s then Some (YAFFS_FAIL, s)
          else
            do { let s = s\<lparr>is_mounted := True\<rparr>;
                 d \<leftarrow> tnode_numbers (wide_tnodes_disabled (sparam s)) (me_pointer_size me) (chunk_numbers (sdev s));
                 let s = s\<lparr>sdev := d\<rparr>;
                 if chunks_per_block (param d) < int (chunk_grp_size d) then Some (YAFFS_FAIL, s)
                 else
                   do { (failed, s) \<leftarrow> start_tables me s;
                        if failed then Some (YAFFS_FAIL, yaffs_deinitialise s)
                        else
                          do { let s = set_dev (\<lambda>d. d\<lparr>n_page_reads := 0, n_page_writes := 0, n_erasures := 0,
                                         n_gc_copies := 0, n_retried_writes := 0, n_retired_blocks := 0\<rparr>) s;
                               s \<leftarrow> (if \<not> is_checkpointed (sdev s) \<and> blocks_in_checkpt (sdev s) > 0
                                     then run_dev (yaffs2_checkpt_invalidate (sdrv s)) s else Some s);
                               Some (YAFFS_OK, s) } } } }"

end
