(* ===== verification/Yaffs_Mount_Props.thy ===== *)
theory Yaffs_Mount_Props
  imports Yaffs_Mount Yaffs_File_Props
begin

text \<open>
  The numbers that a mount computes for the geometry of the device, and what the
  division of offsets and the tnodes make of them.
\<close>

section \<open>Shifts\<close>

lemma calc_shifts_loop_odd:
  "x \<noteq> 0 \<Longrightarrow> \<exists>k. calc_shifts_loop x n = n + k \<and> 2 ^ k dvd x \<and> odd (x div 2 ^ k)"
proof (induction x n rule: calc_shifts_loop.induct)
  case (1 x n)
  show ?case
  proof (cases "even x")
    case True
    then have "x div 2 \<noteq> 0" using 1(2) by auto
    then obtain k where k: "calc_shifts_loop (x div 2) (n + 1) = n + 1 + k" "2 ^ k dvd x div 2" "odd (x div 2 div 2 ^ k)"
      using 1 True by blast
    then have "2 ^ Suc k dvd x" "odd (x div 2 ^ Suc k)"
      using True by (auto simp: div_mult2_eq elim!: evenE)
    then show ?thesis using k(1) True 1(2) by (intro exI [of _ "Suc k"]) (simp add: calc_shifts_loop.simps [of x])
  qed (simp add: calc_shifts_loop.simps [of x] exI [of _ 0])
qed

lemma calc_shifts_odd: "x \<noteq> 0 \<Longrightarrow> 2 ^ calc_shifts x dvd x \<and> odd (x div 2 ^ calc_shifts x)"
  using calc_shifts_loop_odd [of x 0] by (auto simp: calc_shifts_def)

lemma calc_shifts_ceiling_loop_le:
  "x \<noteq> 0 \<Longrightarrow> calc_shifts_ceiling_loop x e n = (e', n') \<Longrightarrow>
     \<exists>k. n' = n + k \<and> 2 ^ k \<le> x \<and> x < 2 ^ Suc k \<and> e \<le> e' \<and> (e' = e \<longleftrightarrow> x = 2 ^ k)"
proof (induction x e n arbitrary: e' n' rule: calc_shifts_ceiling_loop.induct)
  case (1 x e n)
  show ?case
  proof (cases "x > 1")
    case True
    let ?e = "if odd x then e + 1 else e"
    have h: "x div 2 \<noteq> 0" using True by simp
    then obtain k where k: "n' = n + 1 + k" "2 ^ k \<le> x div 2" "x div 2 < 2 ^ Suc k" "?e \<le> e'"
        "e' = ?e \<longleftrightarrow> x div 2 = 2 ^ k"
      using 1(1) [OF True h, of e' n'] 1(3) True by (auto simp: calc_shifts_ceiling_loop.simps [of x])
    have "e' = e \<longleftrightarrow> x = 2 ^ Suc k"
    proof (cases "odd x")
      case True
      then show ?thesis using k(4) by auto
    next
      case False
      then show ?thesis using k(5) by (auto elim!: evenE)
    qed
    moreover have "2 ^ Suc k \<le> x" "x < 2 ^ Suc (Suc k)" using k(2,3) by auto
    ultimately show ?thesis using k(1,4) by (intro exI [of _ "Suc k"]) (auto split: if_splits)
  next
    case False
    then have "x = 1" using 1(2) by simp
    then show ?thesis using 1(3) by (simp add: calc_shifts_ceiling_loop.simps)
  qed
qed

lemma calc_shifts_ceiling_le: "x \<le> 2 ^ calc_shifts_ceiling x"
proof (cases "x = 0")
  case False
  obtain e n where l: "calc_shifts_ceiling_loop x 0 0 = (e, n)" by (cases "calc_shifts_ceiling_loop x 0 0")
  then show ?thesis using calc_shifts_ceiling_loop_le [OF False l] by (auto simp: calc_shifts_ceiling_def)
qed simp

text \<open>
  C21: with the numbers that a mount computes from the size of a chunk, \<^verbatim>\<open>yaffs_addr_to_chunk\<close>
  divides an offset by the size of the data of a chunk, whatever that size is, as long as
  the offset in units of the power of two in that size fits in 31 bits.
\<close>

theorem addr_to_chunk_divides:
  assumes "0 < data_bytes_per_chunk dev" "data_bytes_per_chunk dev < 2 ^ 32"
    and "0 \<le> addr" "addr div 2 ^ calc_shifts (data_bytes_per_chunk dev) < 2 ^ 31"
  shows "yaffs_addr_to_chunk (chunk_numbers dev) addr =
    (addr div int (data_bytes_per_chunk dev), word_of_int (addr mod int (data_bytes_per_chunk dev)))"
proof -
  let ?n = "data_bytes_per_chunk dev"
  let ?k = "calc_shifts ?n"
  let ?q = "addr div 2 ^ ?k" and ?m = "?n div 2 ^ ?k"
  have n: "?n = ?m * 2 ^ ?k" and odd: "odd ?m" using calc_shifts_odd [of ?n] assms(1) by auto
  have in_: "int ?n = 2 ^ ?k * int ?m" by (subst n) simp
  have small: "sint (word_of_int i :: u32) = i" if "0 \<le> i" "i < 2 ^ 31" for i
    using that by transfer (simp add: signed_take_bit_int_eq_self)
  have q0: "0 \<le> ?q" using assms(3) by (simp add: pos_imp_zdiv_nonneg_iff)
  moreover have "uint (word_of_int i :: u32) = i" if "0 \<le> i" "i < 2 ^ 31" for i
    using that by (simp add: unsigned_of_int take_bit_int_eq_self)
  ultimately have q: "0 \<le> ?q" "uint (word_of_int ?q :: u32) = ?q" using assms(4) by blast+
  have dv: "addr div int ?n = ?q div int ?m" by (subst in_) (simp add: zdiv_zmult2_eq)
  show ?thesis
  proof (cases "?m = 1")
    case True
    then have p: "int ?n = 2 ^ ?k" using in_ by simp
    have "word_of_int addr AND mask ?k = (word_of_int (addr mod int ?n) :: u32)"
      unfolding p by (rule bit_word_eqI) (auto simp: bit_simps take_bit_eq_mod [symmetric])
    then show ?thesis using True dv small [of ?q] q assms(4)
      by (simp add: yaffs_addr_to_chunk_def chunk_numbers_def Let_def)
  next
    case False
    have m: "?m < 2 ^ 32" "0 < ?m"
      using le_less_trans [OF div_le_dividend assms(2)] odd_pos [OF odd] by blast+
    then have um: "uint (word_of_nat ?m :: u32) = int ?m" by (simp add: unsigned_of_nat take_bit_nat_eq_self)
    have not1: "(word_of_nat ?m :: u32) \<noteq> 1" using um False by (metis of_nat_1_eq_iff uint_1)
    have quot: "word_of_int ?q div (word_of_nat ?m :: u32) = word_of_int (?q div int ?m)"
      by (simp add: word_div_def q um)
    have "?q div int ?m \<le> ?q" using zdiv_mono2 [OF q(1), of 1 "int ?m"] m by simp
    then have s: "sint (word_of_int (?q div int ?m) :: u32) = ?q div int ?m"
      using q(1) m assms(4) by (intro small) (simp_all add: div_int_pos_iff)
    have "(word_of_int (addr mod int ?n) :: u32) = word_of_int (addr - addr div int ?n * int ?n)"
      by (simp only: minus_div_mult_eq_mod)
    then show ?thesis using not1 quot s dv
      by (simp add: yaffs_addr_to_chunk_def chunk_numbers_def Let_def)
  qed
qed

theorem addr_to_chunk_divides_witness:
  "yaffs_addr_to_chunk (chunk_numbers (sample_dev\<lparr>data_bytes_per_chunk := 2032\<rparr>)) 1000000 = (492, 256)"
proof -
  have "calc_shifts 2032 = 4" by (simp add: calc_shifts_def calc_shifts_loop.simps)
  then show ?thesis
    using addr_to_chunk_divides [of "sample_dev\<lparr>data_bytes_per_chunk := 2032\<rparr>" 1000000] by simp
qed

section \<open>Tnodes\<close>

lemma mask_less: "uint (w :: u32) < 2 ^ n \<Longrightarrow> w AND mask n = w"
  by (rule word_uint_eqI) (simp add: unsigned_take_bit_eq take_bit_int_eq_self flip: take_bit_eq_mask)

text \<open>
  C19: when a mount gives the device the numbers of its tnodes, the groups of a tnode of level 0
  fill the tnode exactly as the look-ups expect (\<open>tnode_geom\<close>), and an entry is wide
  enough for the group of every chunk of the device: no chunk number loses bits when it is stored,
  and what is read back is the start of the group that the chunk is in.
\<close>

theorem tnode_numbers_fit:
  assumes "tnode_numbers wide_disabled pointer_size dev = Some d"
    and "uint c < chunks_per_block (param dev) * (internal_end_block dev + 1)"
    and "chunks_per_block (param dev) * (internal_end_block dev + 1) < 2 ^ 32"
  shows "tnode_geom d \<and> 16 \<le> tnode_width d \<and> even (tnode_width d) \<and>
    group_of d c = push_bit (chunk_grp_bits d) (drop_bit (chunk_grp_bits d) c)"
proof -
  let ?x = "nat (chunks_per_block (param dev) * (internal_end_block dev + 1))"
  define bits where "bits = (if \<not> wide_disabled \<and> odd (calc_shifts_ceiling ?x) then calc_shifts_ceiling ?x + 1
      else calc_shifts_ceiling ?x)"
  define width where "width = (if \<not> wide_disabled then max 16 bits else 16)"
  define grp where "grp = (if bits \<le> width then 0 else bits - width)"
  have x: "chunks_per_block (param dev) * (internal_end_block dev + 1) mod 2 ^ 32 =
      chunks_per_block (param dev) * (internal_end_block dev + 1)"
    by (rule mod_pos_pos_trivial) (use assms(2,3) uint_ge_0 [of c] in linarith)+
  let ?d = "dev\<lparr>tnode_width := width, tnode_mask := mask width, chunk_grp_bits := grp,
      tnode_size := max (int (width * YAFFS_NTNODES_LEVEL0 div 8)) (int YAFFS_NTNODES_INTERNAL * pointer_size),
      chunk_grp_size := 2 ^ grp mod 2 ^ 16\<rparr>"
  have "tnode_numbers wide_disabled pointer_size dev = (if width \<ge> 32 then None else Some ?d)"
    unfolding tnode_numbers_def Let_def x bits_def width_def grp_def by (rule refl)
  then have "\<not> width \<ge> 32" "d = ?d" using assms(1) by (metis option.distinct(1), metis option.distinct(1) option.inject)
  then have d: "width < 32" "tnode_width d = width" "tnode_mask d = mask width" "chunk_grp_bits d = grp"
      "tnode_size d = max (int (width * YAFFS_NTNODES_LEVEL0 div 8)) (int YAFFS_NTNODES_INTERNAL * pointer_size)"
    by simp_all
  have w: "16 \<le> width" "even width" by (auto simp: width_def bits_def max_def)
  have "uint c < 2 ^ bits"
  proof -
    have "uint c < int ?x" using assms(2) uint_ge_0 [of c] by linarith
    also have "int ?x \<le> int (2 ^ calc_shifts_ceiling ?x)" using calc_shifts_ceiling_le by (simp only: of_nat_le_iff)
    also have "\<dots> \<le> int (2 ^ bits)" unfolding of_nat_le_iff by (rule power_increasing) (simp_all add: bits_def)
    finally show ?thesis by simp
  qed
  also have "(2::int) ^ bits \<le> 2 ^ (grp + width)" by (rule power_increasing) (simp_all add: grp_def)
  finally have "uint c < 2 ^ grp * 2 ^ width" by (simp add: power_add)
  moreover have "uint (drop_bit grp c) = uint c div 2 ^ grp"
    by (simp only: unsigned_drop_bit_eq) (use uint_lt2p [of c] in \<open>simp add: drop_bit_eq_div take_bit_int_eq_self\<close>)
  moreover have "a div k < b" if "a < k * b" "0 < k" for a b k :: int
    using that by (metis div_mult_self1_is_m linorder_not_le zdiv_mono1 mult.commute mult_div_mod_eq order_le_less_trans
        pos_mod_sign mult_le_cancel_left_pos add_increasing2 order_refl)
  ultimately have "uint (drop_bit grp c) < 2 ^ width" by simp
  then have "group_of d c = push_bit grp (drop_bit grp c)" using d by (simp add: group_of_def mask_less)
  moreover have "tnode_geom d"
    using d w by (simp add: tnode_geom_def bit_mask_iff tnode_consts) (auto elim!: evenE)
  ultimately show ?thesis using d w by simp
qed

theorem tnode_numbers_fit_witness:
  "\<exists>d. tnode_numbers True 8 (sample_dev\<lparr>param := zero_param\<lparr>chunks_per_block := 64\<rparr>, internal_end_block := 4095\<rparr>) = Some d \<and>
     tnode_geom d \<and> group_of d 200003 = 200000"
proof -
  let ?dev = "sample_dev\<lparr>param := zero_param\<lparr>chunks_per_block := 64\<rparr>, internal_end_block := 4095\<rparr>"
  have b: "calc_shifts_ceiling 262144 = 18"
    by (simp add: calc_shifts_ceiling_def calc_shifts_ceiling_loop.simps)
  obtain d where d: "tnode_numbers True 8 ?dev = Some d" "chunk_grp_bits d = 2"
    by (simp add: tnode_numbers_def Let_def b)
  moreover have "push_bit 2 (drop_bit 2 200003) = (200000 :: u32)" by code_simp
  ultimately show ?thesis using tnode_numbers_fit [OF d(1), of 200003] by simp
qed

end
