(* ===== verification/Yaffs_Scan_Props.thy ===== *)
theory Yaffs_Scan_Props
  imports Yaffs_Scan Yaffs_File_Props
begin

text \<open>
  The order in which the backward scan visits the blocks, and what it does with a chunk
  of data.
\<close>

section \<open>The order of the blocks\<close>

definition index_key :: "yaffs_block_index \<Rightarrow> int" where
  "index_key x = uint (bx_seq x) * 4294967296 + uint (bx_block x)"

lemma sint_diff_small:
  fixes a b :: u32
  assumes "a < 0x80000000" "b < 0x80000000"
  shows "sint (a - b) = uint a - uint b"
proof -
  have b: "uint a < 2 ^ 31" "uint b < 2 ^ 31" "0 \<le> uint a" "0 \<le> uint b"
    using assms by (simp_all add: word_less_def)
  have "word_of_int (uint a - uint b) = a - b" by simp
  moreover have "- (2 ^ 31) \<le> k \<Longrightarrow> k < 2 ^ 31 \<Longrightarrow> sint (word_of_int k :: u32) = k" for k
    by transfer (simp add: signed_take_bit_int_eq_self)
  moreover have "- (2 ^ 31) \<le> uint a - uint b" "uint a - uint b < 2 ^ 31" using b by linarith+
  ultimately show ?thesis by metis
qed

lemma index_key_less: "index_key x < index_key y \<longleftrightarrow>
    uint (bx_seq x) < uint (bx_seq y) \<or> (bx_seq x = bx_seq y \<and> uint (bx_block x) < uint (bx_block y))"
proof -
  have "0 \<le> uint w" "uint w < 4294967296" for w :: u32 using uint_lt2p [of w] by simp_all
  note b = this [of "bx_block x"] this [of "bx_block y"]
  consider "uint (bx_seq x) < uint (bx_seq y)" | "bx_seq x = bx_seq y" | "uint (bx_seq y) < uint (bx_seq x)"
    by (metis linorder_less_linear word_uint_eq_iff)
  then show ?thesis
  proof cases
    case 1
    then have "index_key x < index_key y" using b unfolding index_key_def by linarith
    then show ?thesis using 1 by simp
  next
    case 2
    then show ?thesis by (simp add: index_key_def)
  next
    case 3
    then have "\<not> index_key x < index_key y" using b unfolding index_key_def by linarith
    then show ?thesis using 3 by auto
  qed
qed

interpretation yb: ordering_cmp yaffs2_ybicmp index_key "{x. bx_seq x < 0x80000000 \<and> bx_block x < 0x80000000}"
  by unfold_locales (auto simp: yaffs2_ybicmp_def sint_diff_small index_key_less)

text \<open>
  C20: as long as block and sequence numbers are below $2^{31}$, the scan visits every block
  of the index once, a block with a higher sequence number before one with a lower one, and of
  two blocks with the same number the later one first.
\<close>

theorem scan_order:
  assumes "\<forall>x \<in> set ix. bx_seq x < 0x80000000 \<and> bx_block x < 0x80000000"
  shows "mset (rev (qsort yaffs2_ybicmp ix)) = mset ix \<and>
    sorted_wrt (\<lambda>x y. bx_seq x > bx_seq y \<or> (bx_seq x = bx_seq y \<and> bx_block x \<ge> bx_block y))
      (rev (qsort yaffs2_ybicmp ix))"
proof
  show "mset (rev (qsort yaffs2_ybicmp ix)) = mset ix" by simp
  have "sorted (map index_key (qsort yaffs2_ybicmp ix))" using assms by (intro yb.qsort_sorted) auto
  then have "sorted_wrt (\<lambda>x y. index_key y \<le> index_key x) (rev (qsort yaffs2_ybicmp ix))"
    by (simp add: sorted_wrt_rev sorted_map)
  then show "sorted_wrt (\<lambda>x y. bx_seq x > bx_seq y \<or> (bx_seq x = bx_seq y \<and> bx_block x \<ge> bx_block y))
      (rev (qsort yaffs2_ybicmp ix))"
  proof (rule sorted_wrt_mono_rel [rotated])
    fix x y
    assume "index_key y \<le> index_key x"
    then have "\<not> index_key x < index_key y" by simp
    then show "bx_seq x > bx_seq y \<or> (bx_seq x = bx_seq y \<and> bx_block x \<ge> bx_block y)"
      unfolding index_key_less word_less_def word_le_def by (metis linorder_less_linear not_le word_uint_eq_iff)
  qed
qed

theorem scan_order_witness:
  "sorted_wrt (\<lambda>x y. bx_seq x > bx_seq y \<or> (bx_seq x = bx_seq y \<and> bx_block x \<ge> bx_block y))
     (rev (qsort yaffs2_ybicmp (map (\<lambda>b. \<lparr>bx_seq = 0x1000 + (b * 7) mod 16, bx_block = b\<rparr>) [1, 2, 3, 4, 5, 6, 7, 8, 9])))"
  using scan_order [of "map (\<lambda>b. \<lparr>bx_seq = 0x1000 + (b * 7) mod 16, bx_block = b\<rparr>) [1, 2, 3, 4, 5, 6, 7, 8, 9]"] by simp

text \<open>Above that the difference wraps around, and an old block can count as the newest one.\<close>

lemma scan_order_wraps:
  "qsort yaffs2_ybicmp [\<lparr>bx_seq = 0x1000, bx_block = 1\<rparr>, \<lparr>bx_seq = 0x80001001, bx_block = 2\<rparr>] =
     [\<lparr>bx_seq = 0x80001001, bx_block = 2\<rparr>, \<lparr>bx_seq = 0x1000, bx_block = 1\<rparr>]"
  by (simp add: qsort.simps insertion_sort_def yaffs2_ybicmp_def yswap_def upt_conv_Cons)

section \<open>Two copies of a chunk\<close>

lemma get_tnode_core: "core (snd (yaffs_get_tnode dev l)) = core dev"
  by (simp add: yaffs_get_tnode_def yaffs_alloc_raw_tnode_def yaffs_create_tnodes_def kmalloc_def core_def Let_def
      split: list.split)

lemma free_tnode_core: "core (yaffs_free_tnode dev) = core dev"
  by (simp add: yaffs_free_tnode_def yaffs_free_raw_tnode_def core_def Let_def)

lemma tree_taller_core: "tree_taller n dev fs = (ok, dev', fs') \<Longrightarrow> core dev' = core dev"
proof (induction n dev fs rule: tree_taller.induct)
  case (2 n dev fs)
  obtain r d where g: "yaffs_get_tnode dev (top_level fs + 1) = (r, d)" by (cases "yaffs_get_tnode dev (top_level fs + 1)")
  have c: "core d = core dev" using get_tnode_core [of dev "top_level fs + 1"] g by simp
  show ?case
    using 2 g c by (auto split: option.splits yaffs_tnode.splits)
qed simp

lemma add_down_core: "add_down dev l tn cid passed = Some (r, tn', dev') \<Longrightarrow> core dev' = core dev"
proof (induction dev l tn cid passed arbitrary: r tn' dev' rule: add_down.induct)
  case (3 dev l xs cid passed)
  let ?x = "tnode_slot (Suc l) cid"
  obtain c d where cd: "(if l > 0 \<and> xs ! ?x = None then yaffs_get_tnode dev l
      else if l = 0 then
        case passed of Some p \<Rightarrow> (Some p, if xs ! ?x \<noteq> None then yaffs_free_tnode dev else dev)
        | None \<Rightarrow> if xs ! ?x = None then yaffs_get_tnode dev 0 else (xs ! ?x, dev)
      else (xs ! ?x, dev)) = (c, d)" by (metis surj_pair)
  have core: "core d = core dev"
    using cd get_tnode_core [of dev l] get_tnode_core [of dev 0] free_tnode_core [of dev]
    by (auto split: if_splits option.splits)
  show ?case
  proof (cases c)
    case None
    then show ?thesis using 3(2) cd core by (auto simp: Let_def split: if_splits)
  next
    case (Some t)
    have len: "\<not> ?x \<ge> length xs" using 3(2) by (auto simp: Let_def)
    obtain t' where "add_down d l t cid passed = Some (r, t', dev')"
      using 3(2) Some cd len by (auto simp: Let_def bind_eq_Some_conv)
    then show ?thesis using 3(1) [OF refl len] cd Some core by metis
  qed
qed auto

lemma add_find_tnode_0_core: "yaffs_add_find_tnode_0 dev fs cid None = Some (r, fs', dev') \<Longrightarrow> core dev' = core dev"
  by (auto simp: yaffs_add_find_tnode_0_def Let_def bind_eq_Some_conv
      dest!: tree_taller_core add_down_core split: if_splits option.splits prod.splits)

text \<open>The deletion of a chunk in a block that is being scanned.\<close>

lemma update_oldest_fields:
  "\<exists>q n. yaffs2_update_oldest_dirty_seq dev blk bi = dev\<lparr>oldest_dirty_seq := q, oldest_dirty_block := n\<rparr>"
proof -
  have "dev = dev\<lparr>oldest_dirty_seq := oldest_dirty_seq dev, oldest_dirty_block := oldest_dirty_block dev\<rparr>" by simp
  then show ?thesis unfolding yaffs2_update_oldest_dirty_seq_def by metis
qed

lemma free_count_funs:
  fixes dev k
  defines "g \<equiv> dev\<lparr>n_free_chunks := k\<rparr>"
  shows "bits_wf g = bits_wf dev" "table_wf g = table_wf dev" "page_valid g = page_valid dev" "bi_of g = bi_of dev"
    "used_pages g = used_pages dev" "blk_valid g = blk_valid dev"
  by (auto simp: g_def fun_eq_iff bits_wf_def table_wf_def page_valid_def bi_of_def bi_index_def used_pages_def
      blk_valid_def n_blocks_def chunk_in_use_def row_bit_def)

lemma chunk_del_in_scan:
  assumes wf: "bits_wf dev" "table_wf dev" "is_yaffs2 (param dev)" "0 < blk" and v: "page_valid dev blk p"
    and st: "block_state (bi_of dev blk) \<in> {YAFFS_BLOCK_STATE_NEEDS_SCAN, YAFFS_BLOCK_STATE_ALLOCATING}"
  shows "\<exists>e. yaffs_chunk_del drv tg dev (blk * chunks_per_block (param dev) + p) mark = Some e \<and>
    tnodes_moved 0 dev e \<and> n_free_chunks e = n_free_chunks dev + 1 \<and>
    (\<forall>b. blk_valid dev b \<longrightarrow> used_pages e b = (if b = blk then used_pages dev b - {p} else used_pages dev b))"
proof -
  let ?cpb = "chunks_per_block (param dev)"
  have b: "blk_valid dev blk" "0 \<le> p" "p < ?cpb" using v by (simp_all add: page_valid_def)
  have pos: "\<not> blk * ?cpb + p \<le> 0" using b(2,3) wf(4) by (simp add: add_pos_nonneg not_le)
  have dm: "(blk * ?cpb + p) div ?cpb = blk" "(blk * ?cpb + p) mod ?cpb = p" using b(2,3) by simp_all
  define d1 where "d1 = dev\<lparr>n_deletions := n_deletions dev + 1\<rparr>"
  obtain q n where f: "yaffs2_update_oldest_dirty_seq d1 blk (bi_of dev blk) = d1\<lparr>oldest_dirty_seq := q, oldest_dirty_block := n\<rparr>"
    using update_oldest_fields by blast
  define d2 where "d2 = d1\<lparr>oldest_dirty_seq := q, oldest_dirty_block := n, n_unmarked_deletions := n_unmarked_deletions d1 + 1\<rparr>"
  define g where "g = d2\<lparr>n_free_chunks := n_free_chunks dev + 1\<rparr>"
  have c1: "core d1 = core dev" and c2: "core d2 = core dev" by (simp_all add: d1_def d2_def core_def)
  note k1 = core_funs [OF c1] and k2 = core_funs [OF c2]
  note kg = free_count_funs [where dev = d2 and k = "n_free_chunks dev + 1", folded g_def]
  have pg: "param d1 = param dev" "param d2 = param dev" "n_free_chunks d2 = n_free_chunks dev" "tnodes_moved 0 dev g"
    by (simp_all add: d1_def d2_def g_def tnodes_moved_def)
  have chk: "yaffs_check_chunk_bit d1 blk p = Some (chunk_in_use d1 blk p)"
    using chunk_bit_ops(3) [of d1 blk p] k1 wf(1) v by simp
  have gi: "yaffs_get_block_info d1 blk = Some (bi_of dev blk)" "yaffs_get_block_info d2 blk = Some (bi_of dev blk)"
    using get_block_info_valid [of d1 blk] get_block_info_valid [of d2 blk] k1 k2 wf(2) b(1) by simp_all
  have wg: "bits_wf g" "page_valid g blk p" "table_wf g" using kg k2 wf v by simp_all
  obtain c where c: "yaffs_clear_chunk_bit g blk p = Some c" and ce: "\<exists>bits. c = g\<lparr>chunk_bits := bits\<rparr>"
    using chunk_bit_ops(2) [OF wg(1,2)] unfolding bits_put_def by blast
  have uc: "used_pages c b' = (if b' = blk then used_pages dev b' - {p} else used_pages dev b')" if "blk_valid dev b'" for b'
    using used_pages_clear [OF wg(1,2) c, of b'] kg k2 that by simp
  have cw: "table_wf c" "bi_of c = bi_of g" "blk_valid c = blk_valid g"
    using ce wg(3) by (auto simp: table_wf_def n_blocks_def bi_of_def bi_index_def blk_valid_def fun_eq_iff)
  have cb: "blk_valid c blk" "bi_of c blk = bi_of dev blk" using cw(2,3) kg k2 b(1) by simp_all
  define e where "e = put_bi c blk ((bi_of dev blk)\<lparr>pages_in_use := s10 (pages_in_use (bi_of dev blk) - 1)\<rparr>)"
  have up: "upd_block_info c blk (\<lambda>bi. bi\<lparr>pages_in_use := s10 (pages_in_use bi - 1)\<rparr>) = Some e"
    using upd_block_info_valid [OF cw(1) cb(1)] cb(2) by (simp add: e_def)
  have ge: "\<exists>bi. yaffs_get_block_info e blk = Some bi \<and> block_state bi = block_state (bi_of dev blk)"
  proof -
    have "table_wf e" "blk_valid e blk" "bi_of e blk = (bi_of dev blk)\<lparr>pages_in_use := s10 (pages_in_use (bi_of dev blk) - 1)\<rparr>"
      using cw(1) cb by (simp_all add: e_def table_wf_def n_blocks_def) (simp_all add: put_bi_def)
    then show ?thesis by (simp add: get_block_info_valid)
  qed
  have ue: "used_pages e = used_pages c"
    by (simp add: e_def fun_eq_iff used_pages_def chunk_in_use_def row_bit_def)
  have fe: "n_free_chunks e = n_free_chunks dev + 1" using ce by (auto simp: e_def g_def)
  have te: "tnodes_moved 0 dev e" using ce pg(4) by (auto simp: e_def tnodes_moved_def put_bi_def)
  have stg: "block_state (bi_of dev blk) = YAFFS_BLOCK_STATE_ALLOCATING \<or>
      block_state (bi_of dev blk) = YAFFS_BLOCK_STATE_NEEDS_SCAN" using st by auto
  have "yaffs_chunk_del drv tg dev (blk * ?cpb + p) mark = Some e"
    using pos stg ge gi chk c up wf(3) unfolding yaffs_chunk_del_def Let_def d1_def [symmetric] pg(1) dm
    by (auto simp: f d2_def [symmetric] pg g_def [symmetric])
  then show ?thesis using te fe ue uc by simp
qed

definition scan_outcome :: "int \<Rightarrow> int \<Rightarrow> nat \<Rightarrow> bool \<Rightarrow> bool \<Rightarrow> 'n yaffs_dev \<Rightarrow> yaffs_file_var \<Rightarrow> 'n yaffs_dev \<Rightarrow>
    yaffs_file_var \<Rightarrow> bool" where
  "scan_outcome blk p c r current dev f dev' f' \<longleftrightarrow>
     file_tree_ok dev' f' \<and>
     chunk_base dev' f' =
       (if r \<and> current
        then (chunk_base dev f)(c := group_of dev (word_of_int (blk * chunks_per_block (param dev) + p)))
        else chunk_base dev f) \<and>
     n_free_chunks dev' = n_free_chunks dev + (if r \<and> \<not> current then 1 else 0) \<and>
     (\<forall>b. blk_valid dev b \<longrightarrow> used_pages dev' b =
        (if r \<and> \<not> current \<and> b = blk then used_pages dev b - {p} else used_pages dev b))"

lemma scan_outcome_sizes:
  "top g = top f' \<Longrightarrow> top_level g = top_level f' \<Longrightarrow>
     scan_outcome blk p c r current dev f dev' g = scan_outcome blk p c r current dev f dev' f'"
  by (simp add: scan_outcome_def file_tree_ok_def chunk_base_def yaffs_find_tnode_0_def fun_eq_iff)

definition scanning_page :: "'n yaffs_dev \<Rightarrow> int \<Rightarrow> int \<Rightarrow> bool" where
  "scanning_page dev blk p \<longleftrightarrow> bits_wf dev \<and> table_wf dev \<and> is_yaffs2 (param dev) \<and> 0 < blk \<and> page_valid dev blk p \<and>
     block_state (bi_of dev blk) \<in> {YAFFS_BLOCK_STATE_NEEDS_SCAN, YAFFS_BLOCK_STATE_ALLOCATING}"

text \<open>The chunk goes, from a device \<open>d\<close> that differs from the one at the start in its tnodes at most.\<close>

lemma scan_old_copy:
  assumes pg: "scanning_page (sdev s) blk p" and core: "core d = core (sdev s)" and t: "tnodes_moved k (sdev s) d"
    and f: "file_tree_ok d g" "chunk_base d g = chunk_base (sdev s) f"
  shows "\<exists>e. chunk_del (s\<lparr>sdev := d, objs := os\<rparr>) (blk * chunks_per_block (param (sdev s)) + p) True =
      Some (s\<lparr>sdev := e, objs := os\<rparr>) \<and> scan_outcome blk p c True False (sdev s) f e g"
proof -
  note k = core_funs [OF core]
  have p: "param d = param (sdev s)" "n_free_chunks d = n_free_chunks (sdev s)" using core by (simp_all add: core_def)
  obtain e where e: "yaffs_chunk_del (sdrv s) (stg s) d (blk * chunks_per_block (param (sdev s)) + p) True = Some e"
      "tnodes_moved 0 d e" "n_free_chunks e = n_free_chunks (sdev s) + 1"
      "\<forall>b. blk_valid (sdev s) b \<longrightarrow> used_pages e b = (if b = blk then used_pages (sdev s) b - {p} else used_pages (sdev s) b)"
    using chunk_del_in_scan [of d blk p "sdrv s" "stg s" True] pg k p by (auto simp: scanning_page_def)
  have "chunk_base e g = chunk_base (sdev s) f" "file_tree_ok e g"
    using f chunk_base_geom [OF e(2)] file_tree_ok_geom [OF e(2)] by auto
  then show ?thesis using e
    by (intro exI [of _ e]) (simp add: chunk_del_def run_dev_def scan_outcome_def)
qed

lemma scan_put:
  assumes x: "objs s a = Some x" "o_variant x = FileVar f"
    and ok: "file_tree_ok (sdev s) f" "tnode_geom (sdev s)"
    and pg: "scanning_page (sdev s) blk p" and nand: "nand = blk * chunks_per_block (param (sdev s)) + p"
  shows "\<exists>r f' n dev'. yaffs_put_chunk_in_file s a c nand (-1) =
       Some (r, s\<lparr>sdev := dev', objs := (objs s)(a \<mapsto> x\<lparr>o_n_data_chunks := n, o_variant := FileVar f'\<rparr>)\<rparr>) \<and>
     scan_outcome blk p c (r \<noteq> YAFFS_FAIL) (chunk_base (sdev s) f c = 0) (sdev s) f dev' f'"
proof -
  have nz: "nand \<noteq> 0"
  proof -
    have "0 < blk * chunks_per_block (param (sdev s))" "0 \<le> p"
      using pg by (simp_all add: scanning_page_def page_valid_def)
    then show ?thesis using nand by simp
  qed
  obtain r f1 dev1 where a: "yaffs_add_find_tnode_0 (sdev s) f c None = Some (r, f1, dev1)" "file_tree_ok dev1 f1"
    "tnodes_moved (int (file_tnodes f1) - int (file_tnodes f)) (sdev s) dev1"
    "\<And>d. chunk_base dev1 f1 d = chunk_base (sdev s) f d" "r \<noteq> None \<longrightarrow> yaffs_find_tnode_0 f1 c = Some r"
    using add_find_tnode_0_ok [OF ok, of c] by blast
  note core = add_find_tnode_0_core [OF a(1)]
  have base: "chunk_base dev1 f1 = chunk_base (sdev s) f" using a(4) by (intro ext)
  have set1: "set_file (s\<lparr>sdev := dev1\<rparr>) a f1 = Some (s\<lparr>sdev := dev1, objs := (objs s)(a \<mapsto> x\<lparr>o_variant := FileVar f1\<rparr>)\<rparr>)"
    using x by (simp add: set_file_def upd_obj_def file_variant_def)
  have ff: "file_variant x = Some f" using x(2) by (simp add: file_variant_def)
  have same: "n_free_chunks dev1 = n_free_chunks (sdev s)" "used_pages dev1 = used_pages (sdev s)" "param dev1 = param (sdev s)"
    using core core_funs(5) [OF core] by (simp_all add: core_def)
  show ?thesis
  proof (cases r)
    case None
    have "yaffs_put_chunk_in_file s a c nand (-1) =
        Some (YAFFS_FAIL, s\<lparr>sdev := dev1, objs := (objs s)(a \<mapsto> x\<lparr>o_variant := FileVar f1\<rparr>)\<rparr>)"
      using x(1) ff a(1) set1 None by (simp add: yaffs_put_chunk_in_file_def)
    then show ?thesis using a(2) base same
      by (intro exI [of _ YAFFS_FAIL] exI [of _ f1] exI [of _ "o_n_data_chunks x"] exI [of _ dev1])
        (simp add: scan_outcome_def)
  next
    case (Some t)
    then have f: "yaffs_find_tnode_0 f1 c = Some (Some t)" using a(5) by simp
    then obtain mp where mp: "t = Tnode0 mp" "map_wf dev1 mp" using find_tnode_0_ok [OF a(2), of c] by auto
    have g1: "tnode_geom dev1" using ok(2) tnode_geom_moved [OF a(3)] by simp
    have b: "yaffs_get_group_base dev1 mp c = Some (chunk_base (sdev s) f c)"
      unfolding a(4) [of c, symmetric] using get_entry [OF g1 mp(2), of c] f mp(1)
      by (simp add: chunk_base_def tnode_base_def)
    show ?thesis
    proof (cases "chunk_base (sdev s) f c = 0")
      case True
      obtain mp' where l: "yaffs_load_tnode_0 dev1 mp c (word_of_int nand) = Some mp'"
        "file_tree_ok dev1 (put_tnode_0 f1 c (Tnode0 mp'))"
        "\<forall>d. chunk_base dev1 (put_tnode_0 f1 c (Tnode0 mp')) d =
           (if d = c then group_of dev1 (word_of_int nand) else chunk_base dev1 f1 d)"
        using load_chunk_base [OF a(2) g1 f [unfolded mp(1)], of "word_of_int nand"] by blast
      let ?f = "put_tnode_0 f1 c (Tnode0 mp')"
      have new: "chunk_base dev1 ?f = (chunk_base (sdev s) f)(c := group_of (sdev s) (word_of_int nand))"
        using l(3) base group_of_moved [OF a(3)] by (auto simp: fun_eq_iff)
      have "yaffs_put_chunk_in_file s a c nand (-1) =
          Some (YAFFS_OK, s\<lparr>sdev := dev1, objs := (objs s)(a \<mapsto> x\<lparr>o_n_data_chunks := o_n_data_chunks x + 1, o_variant := FileVar ?f\<rparr>)\<rparr>)"
        using x(1) ff a(1) set1 Some nz b l(1) mp(1) True
        by (simp add: yaffs_put_chunk_in_file_def) (simp add: set_file_def upd_obj_def file_variant_def)
      then show ?thesis using l(2) new same nand True
        by (intro exI [of _ YAFFS_OK] exI [of _ ?f] exI [of _ "o_n_data_chunks x + 1"] exI [of _ dev1])
          (simp add: scan_outcome_def)
    next
      case False
      obtain e where e: "chunk_del (s\<lparr>sdev := dev1, objs := (objs s)(a \<mapsto> x\<lparr>o_variant := FileVar f1\<rparr>)\<rparr>) nand True =
          Some (s\<lparr>sdev := e, objs := (objs s)(a \<mapsto> x\<lparr>o_variant := FileVar f1\<rparr>)\<rparr>)"
        "scan_outcome blk p c True False (sdev s) f e f1"
        using scan_old_copy [OF pg core a(3,2) base] nand by blast
      have "uint (chunk_base (sdev s) f c) \<noteq> 0" using False by (simp add: uint_0_iff)
      then have pos: "0 < uint (chunk_base (sdev s) f c)" using uint_ge_0 [of "chunk_base (sdev s) f c"] by linarith
      have "yaffs_put_chunk_in_file s a c nand (-1) =
          Some (YAFFS_OK, s\<lparr>sdev := e, objs := (objs s)(a \<mapsto> x\<lparr>o_variant := FileVar f1\<rparr>)\<rparr>)"
        using x(1) ff a(1) set1 Some nz b mp(1) pos e(1) by (simp add: yaffs_put_chunk_in_file_def settle_duplicate_def)
      then show ?thesis using e(2) False
        by (intro exI [of _ YAFFS_OK] exI [of _ f1] exI [of _ "o_n_data_chunks x"] exI [of _ e]) simp
    qed
  qed
qed

text \<open>
  C6: what the scan makes of a chunk of data of a file that it knows already.  The newest copy
  of a chunk is scanned first, so the chunk enters the map of the file exactly when the map has
  none there and the chunk lies before the point at which a newer header has cut the file;
  otherwise it is a stale copy, and its page is released and counted as free.  The rest of
  the map is untouched.  (The result is false only when there was no memory for a tnode, and
  then nothing has changed.)
\<close>

theorem scan_data_newest_wins:
  assumes n: "sint (obj_id tags) > 0" and found: "yaffs_find_by_number s (obj_id tags) = Some (Some a)"
    and x: "objs s a = Some x" "o_variant x = FileVar f"
    and ok: "file_tree_ok (sdev s) f" "tnode_geom (sdev s)" and pg: "scanning_page (sdev s) blk p"
  shows "\<exists>r s' x' f'. scan_data s (blk * chunks_per_block (param (sdev s)) + p) tags = Some (r, s') \<and>
     objs s' a = Some x' \<and> o_variant x' = FileVar f' \<and>
     scan_outcome blk p (unat (chunk_id tags)) r
       (uint ((chunk_id tags - 1) * word_of_nat (data_bytes_per_chunk (sdev s))) < shrink_size f \<and>
        chunk_base (sdev s) f (unat (chunk_id tags)) = 0) (sdev s) f (sdev s') f'"
proof -
  let ?nand = "blk * chunks_per_block (param (sdev s)) + p" and ?c = "unat (chunk_id tags)"
  let ?at = "uint ((chunk_id tags - 1) * word_of_nat (data_bytes_per_chunk (sdev s)))"
  have fc: "yaffs_find_or_create_by_number s (obj_id tags) YAFFS_OBJECT_TYPE_FILE = Some (Some a, s)"
    using n found by (simp add: yaffs_find_or_create_by_number_def)
  have fv: "file_variant x = Some f" using x(2) by (simp add: file_variant_def)
  show ?thesis
  proof (cases "?at < shrink_size f")
    case True
    obtain r f' m dev' where put: "yaffs_put_chunk_in_file s a ?c ?nand (-1) =
        Some (r, s\<lparr>sdev := dev', objs := (objs s)(a \<mapsto> x\<lparr>o_n_data_chunks := m, o_variant := FileVar f'\<rparr>)\<rparr>)"
      "scan_outcome blk p ?c (r \<noteq> YAFFS_FAIL) (chunk_base (sdev s) f ?c = 0) (sdev s) f dev' f'"
      using scan_put [OF x ok pg refl] by blast
    define x' where "x' = x\<lparr>o_n_data_chunks := m, o_variant := FileVar f'\<rparr>"
    define s' where "s' = s\<lparr>sdev := dev', objs := (objs s)(a \<mapsto> x')\<rparr>"
    have x': "objs s' a = Some x'" "file_variant x' = Some f'" "o_valid x' = o_valid x" "o_variant x' = FileVar f'"
      "sdev s' = dev'"
      by (simp_all add: x'_def s'_def file_variant_def)
    obtain e g where e: "(if \<not> o_valid x' \<and> stored_size f' < ?at + uint (n_bytes tags)
        then set_file s' a (f'\<lparr>stored_size := ?at + uint (n_bytes tags), file_size := ?at + uint (n_bytes tags)\<rparr>)
        else Some s') = Some e" "\<exists>x'. objs e a = Some x' \<and> o_variant x' = FileVar g" "sdev e = dev'"
        "top g = top f'" "top_level g = top_level f'"
    proof (cases "\<not> o_valid x' \<and> stored_size f' < ?at + uint (n_bytes tags)")
      case True
      let ?g = "f'\<lparr>stored_size := ?at + uint (n_bytes tags), file_size := ?at + uint (n_bytes tags)\<rparr>"
      show ?thesis
        by (rule that [of "s'\<lparr>objs := (objs s')(a \<mapsto> x'\<lparr>o_variant := FileVar ?g\<rparr>)\<rparr>" ?g])
          (use True x' in \<open>simp_all add: set_file_def upd_obj_def\<close>)
    qed (use that [of s' f'] x' in auto)
    have "scan_data s ?nand tags = Some (r \<noteq> YAFFS_FAIL, e)"
      using True put(1)[folded x'_def, folded s'_def] fc x(1) fv x'(1-3) e(1) unfolding scan_data_def
      by (simp add: Let_def split: if_splits)
    moreover have "scan_outcome blk p ?c (r \<noteq> YAFFS_FAIL) (chunk_base (sdev s) f ?c = 0) (sdev s) f (sdev e) g"
      using put(2) e(3) by (simp add: scan_outcome_sizes [OF e(4,5)])
    ultimately show ?thesis using True e(2) by auto
  next
    case False
    obtain e where e: "chunk_del s ?nand True = Some (s\<lparr>sdev := e\<rparr>)" "scan_outcome blk p ?c True False (sdev s) f e f"
      using scan_old_copy [OF pg refl tnodes_moved_refl ok(1) refl, of "objs s"] by auto
    have "scan_data s ?nand tags = Some (True, s\<lparr>sdev := e\<rparr>)"
      using False fc x(1) fv e(1) unfolding scan_data_def by (simp add: Let_def)
    then show ?thesis using False e(2) x by auto
  qed
qed

text \<open>A chunk of the small file, on a block that is being scanned: the map has no entry for it.\<close>

definition scan_sys :: "unit yaffs_sys" where
  "scan_sys = small_sys\<lparr>sdev := tnode_table\<lparr>param := (param tnode_table)\<lparr>is_yaffs2 := True\<rparr>,
       block_info := [zero_block_info, zero_block_info\<lparr>block_state := YAFFS_BLOCK_STATE_NEEDS_SCAN, pages_in_use := 3\<rparr>]\<rparr>,
     objs := (objs small_sys)(1 \<mapsto> (the (small_heap 1))\<lparr>o_variant := FileVar (sample_file\<lparr>shrink_size := 0x7fffffff\<rparr>)\<rparr>),
     obj_bucket := (replicate YAFFS_NOBJECT_BUCKETS [])[yaffs_hash_fn 300 := [1]]\<rparr>"

definition scan_tags_300 :: yaffs_ext_tags where
  "scan_tags_300 = zero_tags\<lparr>chunk_used := 1, obj_id := 300, chunk_id := 3, n_bytes := 100\<rparr>"


lemma scan_sys_file:
  "objs scan_sys 1 = Some ((the (small_heap 1))\<lparr>o_variant := FileVar (sample_file\<lparr>shrink_size := 0x7fffffff\<rparr>)\<rparr>)"
  "yaffs_find_by_number scan_sys 300 = Some (Some 1)"
proof -
  show "objs scan_sys 1 = Some ((the (small_heap 1))\<lparr>o_variant := FileVar (sample_file\<lparr>shrink_size := 0x7fffffff\<rparr>)\<rparr>)"
    by (simp add: scan_sys_def)
  have h: "yaffs_hash_fn 300 = 44" by code_simp
  have "obj_bucket scan_sys = (replicate YAFFS_NOBJECT_BUCKETS [])[yaffs_hash_fn 300 := [1]]" by (simp add: scan_sys_def)
  moreover have "the (small_heap 1) = zero_obj\<lparr>o_obj_id := 300, o_parent := Some 0, o_variant := FileVar sample_file\<rparr>"
    by (simp add: small_heap_def sample_file_def)
  ultimately show "yaffs_find_by_number scan_sys 300 = Some (Some 1)"
    using h by (simp add: yaffs_find_by_number_def YAFFS_NOBJECT_BUCKETS_def) (simp add: scan_sys_def zero_obj_def)
qed

lemma scan_sys_dev: "sdev scan_sys = tnode_table\<lparr>param := (param tnode_table)\<lparr>is_yaffs2 := True\<rparr>,
     block_info := [zero_block_info, zero_block_info\<lparr>block_state := YAFFS_BLOCK_STATE_NEEDS_SCAN, pages_in_use := 3\<rparr>]\<rparr>"
  by (simp add: scan_sys_def)

lemma scan_sys_page: "scanning_page (sdev scan_sys) 2 5"
proof -
  have "bits_wf tnode_table" using sample_dev_wf
    by (simp add: tnode_table_def sample_table_def bits_wf_def blk_valid_def row_bit_def)
  then have "bits_wf (sdev scan_sys)" by (simp add: scan_sys_dev bits_wf_def blk_valid_def row_bit_def)
  then show ?thesis
    unfolding scanning_page_def scan_sys_dev
    by (simp add: page_valid_def blk_valid_def table_wf_def n_blocks_def bi_of_def bi_index_def)
      (simp add: tnode_table_def sample_table_def sample_dev_def zero_dev_def zero_param_def)
qed

theorem scan_data_newest_wins_witness:
  "\<exists>r s' x' f'. scan_data scan_sys 29 scan_tags_300 = Some (r, s') \<and>
     objs s' 1 = Some x' \<and> o_variant x' = FileVar f' \<and>
     scan_outcome 2 5 3 r True (sdev scan_sys) (sample_file\<lparr>shrink_size := 0x7fffffff\<rparr>) (sdev s') f'"
proof -
  let ?f = "sample_file\<lparr>shrink_size := 0x7fffffff\<rparr>"
  have tags: "obj_id scan_tags_300 = 300" "chunk_id scan_tags_300 = 3" by (simp_all add: scan_tags_300_def)
  have moved: "tnodes_moved 0 tnode_table (sdev scan_sys)"
    by (simp add: scan_sys_dev tnodes_moved_def)
  have "file_tree_ok (sdev scan_sys) sample_file" using sample_file_ok file_tree_ok_geom [OF moved] by simp
  then have ok: "file_tree_ok (sdev scan_sys) ?f" "tnode_geom (sdev scan_sys)"
    using sample_geom tnode_geom_moved [OF moved] by (simp_all add: file_tree_ok_def)
  have p: "chunks_per_block (param (sdev scan_sys)) = 12" "data_bytes_per_chunk (sdev scan_sys) = 512"
    by (simp_all add: scan_sys_dev) (simp_all add: tnode_table_def sample_table_def sample_dev_def zero_dev_def zero_param_def)
  have base: "chunk_base (sdev scan_sys) ?f 3 = 0"
  proof -
    have "required_depth 0 = 0" by code_simp
    then have "yaffs_find_tnode_0 ?f 3 = Some (Some (new_tnode tnode_table 0))"
      by (simp add: yaffs_find_tnode_0_def sample_file_def tnode_consts)
    then show ?thesis using new_tnode_0_base [OF sample_geom, of 3] tnode_base_geom [OF moved, of 3]
      by (simp add: chunk_base_def)
  qed
  show ?thesis
    using scan_data_newest_wins [of scan_tags_300 scan_sys 1, OF _ _ scan_sys_file(1) _ ok scan_sys_page]
      scan_sys_file(2) tags p base by simp
qed

end
