(* ===== verification/Yaffs_Search_Props.thy ===== *)
theory Yaffs_Search_Props
  imports Yaffs_Obj_Props
begin

text \<open>
  Searches of directories while objects come and go (\<^verbatim>\<open>yaffsfs_RemoveObjectCallback\<close> and
  \<^verbatim>\<open>yaffsfs_DirAdvance\<close> of direct/yaffsfs.c): what a search will still return.
\<close>

definition to_come :: "obj_heap \<Rightarrow> dir_search \<Rightarrow> nat list" where
  "to_come h d =
     (case (ds_next d, kids h (ds_dir d)) of
        (Some a, Some cs) \<Rightarrow> dropWhile (\<lambda>b. b \<noteq> a) cs
      | _ \<Rightarrow> [])"

text \<open>The object that a search returns next is an entry of its directory.\<close>

definition search_ok :: "obj_heap \<Rightarrow> dir_search \<Rightarrow> bool" where
  "search_ok h d \<longleftrightarrow> (\<forall>a. ds_next d = Some a \<longrightarrow> (\<exists>cs. kids h (ds_dir d) = Some cs \<and> a \<in> set cs))"

definition searches_ok :: "'n yaffs_sys \<Rightarrow> bool" where
  "searches_ok s \<longleftrightarrow> list_all (search_ok (objs s)) (searches s)"

lemma next_sibling_split: "a \<notin> set ys \<Longrightarrow> next_sibling (ys @ a # zs) a = (case zs of [] \<Rightarrow> None | c # cs \<Rightarrow> Some c)"
  by (induction ys) auto

lemma drop_to_split: "b \<notin> set ys \<Longrightarrow> dropWhile (\<lambda>c. c \<noteq> b) (ys @ b # zs) = b # zs"
  by (induction ys) auto

lemma advance_dir: "kids h (ds_dir d) = Some cs \<Longrightarrow>
    yaffsfs_DirAdvance h d = d\<lparr>ds_next := (case ds_next d of None \<Rightarrow> None | Some a \<Rightarrow> next_sibling cs a)\<rparr>"
  by (auto simp: yaffsfs_DirAdvance_def kids_def kids1_dir split: option.splits yaffs_obj_var.splits)

text \<open>One step of a search returns the first of what is to come.\<close>

lemma advance_step:
  assumes "dirs_ok h" and "search_ok h d" and "ds_next d = Some a"
  shows "to_come h d = a # to_come h (yaffsfs_DirAdvance h d) \<and> search_ok h (yaffsfs_DirAdvance h d)"
proof -
  obtain cs where cs: "kids h (ds_dir d) = Some cs" "a \<in> set cs" using assms(2,3) by (auto simp: search_ok_def)
  have "distinct cs" using dirs_okD(2) [OF assms(1) cs(1)] .
  moreover obtain ys zs where z: "cs = ys @ a # zs" using split_list [OF cs(2)] by blast
  ultimately have nin: "a \<notin> set ys" by simp
  have n: "next_sibling cs a = (case zs of [] \<Rightarrow> None | c # cs \<Rightarrow> Some c)" unfolding z by (rule next_sibling_split [OF nin])
  have t: "to_come h d = a # zs" using cs(1) assms(3) drop_to_split [OF nin] by (simp add: to_come_def z)
  show ?thesis
  proof (cases zs)
    case Nil
    then show ?thesis using t n cs(1) assms(3) by (simp add: advance_dir [OF cs(1)] to_come_def search_ok_def)
  next
    case (Cons c zs')
    have "c \<notin> set (ys @ [a])" using \<open>distinct cs\<close> z Cons by auto
    then have "dropWhile (\<lambda>b. b \<noteq> c) ((ys @ [a]) @ c # zs') = c # zs'" by (rule drop_to_split)
    then show ?thesis using t n cs(1) assms(3) Cons z by (simp add: advance_dir [OF cs(1)] to_come_def search_ok_def)
  qed
qed

text \<open>A search and the removal of an object from all lists of entries.\<close>

lemma search_after_removal:
  assumes ok: "dirs_ok h" "search_ok h d" and k: "\<And>p. kids k p = map_option (remove1 a) (kids h p)"
  defines "e \<equiv> (if ds_next d = Some a then yaffsfs_DirAdvance h d else d)"
  shows "to_come k e = remove1 a (to_come h d) \<and> search_ok k e \<and> ds_dir e = ds_dir d \<and> ds_next e \<noteq> Some a"
proof (cases "ds_next d")
  case None
  then show ?thesis by (simp add: e_def to_come_def search_ok_def)
next
  case (Some b)
  obtain cs where cs: "kids h (ds_dir d) = Some cs" "b \<in> set cs" using ok(2) Some by (auto simp: search_ok_def)
  have dist: "distinct cs" using dirs_okD(2) [OF ok(1) cs(1)] .
  have kd: "kids k (ds_dir d) = Some (remove1 a cs)" using k cs(1) by simp
  obtain ys zs where z: "cs = ys @ b # zs" using split_list [OF cs(2)] by blast
  have nin: "b \<notin> set ys" "b \<notin> set zs" "distinct ys" "distinct zs" "set ys \<inter> set zs = {}" using dist z by auto
  have t: "to_come h d = b # zs" using cs(1) Some drop_to_split [OF nin(1)] by (simp add: to_come_def z)
  show ?thesis
  proof (cases "b = a")
    case True
    have n: "next_sibling cs a = (case zs of [] \<Rightarrow> None | c # cs \<Rightarrow> Some c)"
      unfolding z True by (rule next_sibling_split) (use nin True in simp)
    have e: "e = d\<lparr>ds_next := (case zs of [] \<Rightarrow> None | c # cs \<Rightarrow> Some c)\<rparr>"
      using Some True n by (simp add: e_def advance_dir [OF cs(1)])
    have r: "remove1 a cs = ys @ zs" using nin True by (simp add: z remove1_append)
    show ?thesis
    proof (cases zs)
      case Nil
      then show ?thesis using e t True by (simp add: to_come_def search_ok_def)
    next
      case (Cons c zs')
      have "c \<notin> set ys" "c \<noteq> a" using nin Cons True by auto
      then show ?thesis using e t True kd r Cons drop_to_split [of c ys zs']
        by (auto simp: to_come_def search_ok_def)
    qed
  next
    case False
    then have e: "e = d" using Some by (simp add: e_def)
    have in': "b \<in> set (remove1 a cs)" using cs(2) False by (simp add: in_set_remove1)
    have "dropWhile (\<lambda>c. c \<noteq> b) (remove1 a cs) = remove1 a (b # zs)"
    proof (cases "a \<in> set ys")
      case True
      then have "a \<notin> set zs" using nin by auto
      then have "remove1 a (b # zs) = b # zs" "remove1 a cs = remove1 a ys @ b # zs"
        using False True by (simp_all add: z remove1_append remove1_idem)
      moreover have "b \<notin> set (remove1 a ys)" using nin(1) notin_set_remove1 by fast
      ultimately show ?thesis using drop_to_split by simp
    next
      case False': False
      then have "remove1 a cs = ys @ b # remove1 a zs" using False by (simp add: z remove1_append)
      then show ?thesis using drop_to_split [OF nin(1)] False by simp
    qed
    then show ?thesis using e t kd in' Some False by (simp add: to_come_def search_ok_def)
  qed
qed

lemma search_front:
  assumes "search_ok k e" and "ds_next e \<noteq> Some a" and "\<And>q. kids k' q = (if q = p then map_option ((#) a) (kids k q) else kids k q)"
  shows "to_come k' e = to_come k e \<and> search_ok k' e"
  using assms by (auto simp: to_come_def search_ok_def split: option.splits)

text \<open>
  C11: open searches of directories survive changes of the tree.  When an object leaves its
  directory or moves to another one (or to the front of the same), every open search will
  return just what it would have returned before, without that object, in the same order; and the
  object that a search returns next is an entry of the directory again, so no search is left
  with an object that is gone.
\<close>

theorem searches_skip_moved:
  assumes ok: "dirs_ok (objs s)" "searches_ok s" and a: "objs s a = Some x"
    and r: "yaffs_remove_obj_from_dir s a = Some s' \<or>
      (\<exists>p cs. kids (objs s) p = Some cs \<and> yaffs_add_obj_to_dir s p a = Some s')"
  shows "searches_ok s' \<and> map (to_come (objs s')) (searches s') = map (\<lambda>d. remove1 a (to_come (objs s) d)) (searches s)"
proof -
  define cb where "cb d = (if ds_next d = Some a then yaffsfs_DirAdvance (objs s) d else d)" for d
  have cbm: "yaffsfs_RemoveObjectCallback (objs s) a (searches s) = map cb (searches s)"
    by (simp add: yaffsfs_RemoveObjectCallback_def cb_def)
  have each: "search_ok (objs s) d" if "d \<in> set (searches s)" for d
    using ok(2) that by (simp add: searches_ok_def list_all_iff)
  have fin: ?thesis if "searches s' = map cb (searches s)"
    "\<And>d. d \<in> set (searches s) \<Longrightarrow> to_come (objs s') (cb d) = remove1 a (to_come (objs s) d) \<and> search_ok (objs s') (cb d)"
    using that by (auto simp: searches_ok_def list_all_iff)
  obtain h where h: "yaffs_remove_obj_from_dir s a =
      Some (s\<lparr>searches := yaffsfs_RemoveObjectCallback (objs s) a (searches s), objs := h\<rparr>)"
    "\<And>p. kids h p = map_option (remove1 a) (kids (objs s) p)"
    using remove_from_dir_ok [OF ok(1) a] by blast
  have rem: "to_come h (cb d) = remove1 a (to_come (objs s) d) \<and> search_ok h (cb d) \<and> ds_next (cb d) \<noteq> Some a"
    if "d \<in> set (searches s)" for d
    using search_after_removal [OF ok(1) each [OF that] h(2)] by (simp add: cb_def)
  show ?thesis using r
  proof
    assume "yaffs_remove_obj_from_dir s a = Some s'"
    then have "s' = s\<lparr>searches := yaffsfs_RemoveObjectCallback (objs s) a (searches s), objs := h\<rparr>" using h(1) by simp
    then show ?thesis using rem by (intro fin) (simp_all add: cbm)
  next
    assume "\<exists>p cs. kids (objs s) p = Some cs \<and> yaffs_add_obj_to_dir s p a = Some s'"
    then obtain p cs where p: "kids (objs s) p = Some cs" "yaffs_add_obj_to_dir s p a = Some s'" by blast
    note m = add_to_dir_ok [OF ok(1) a p(1), unfolded p(2) option.inject]
    have s1: "kids (objs s') p = Some (a # remove1 a cs)"
      "\<And>q. q \<noteq> p \<Longrightarrow> kids (objs s') q = map_option (remove1 a) (kids (objs s) q)" using m by blast+
    have "\<exists>h d. s' = s\<lparr>searches := yaffsfs_RemoveObjectCallback (objs s) a (searches s), objs := h, sdev := d\<rparr>" using m by blast
    then have s2: "searches s' = map cb (searches s)" using cbm by auto
    have k: "kids (objs s') q = (if q = p then map_option ((#) a) (kids h q) else kids h q)" for q
      using s1 h(2) p(1) by simp
    have "to_come (objs s') (cb d) = remove1 a (to_come (objs s) d) \<and> search_ok (objs s') (cb d)"
      if d: "d \<in> set (searches s)" for d
      using rem [OF d] search_front [of h "cb d" a "objs s'" p] k by simp
    then show ?thesis using s2 by (intro fin)
  qed
qed

theorem searches_skip_moved_witness:
  "let s = small_sys\<lparr>searches := [\<lparr>ds_slot = 0, ds_dir = 0, ds_next = Some 1\<rparr>]\<rparr>
   in \<exists>s'. yaffs_add_obj_to_dir s 2 1 = Some s' \<and> searches_ok s' \<and> map (to_come (objs s')) (searches s') = [[]]"
proof -
  let ?s = "small_sys\<lparr>searches := [\<lparr>ds_slot = 0, ds_dir = 0, ds_next = Some 1\<rparr>]\<rparr>"
  have o': "objs ?s = small_heap" by (simp add: small_objs)
  have d: "dirs_ok (objs ?s)" using small_sys_ok by (simp add: o' tree_state_ok_def small_objs)
  have q: "searches_ok ?s" by (simp add: searches_ok_def search_ok_def small_objs small_heap_links)
  have x: "objs ?s 1 = Some (the (small_heap 1))" by (simp add: small_objs) (simp add: small_heap_def)
  have k: "kids (objs ?s) 2 = Some []" by (simp add: small_objs small_heap_links)
  obtain s' where s': "yaffs_add_obj_to_dir ?s 2 1 = Some s'" using add_to_dir_ok [OF d x k] by blast
  have "searches_ok s' \<and> map (to_come (objs s')) (searches s') = map (\<lambda>d. remove1 1 (to_come (objs ?s) d)) (searches ?s)"
    by (rule searches_skip_moved [OF d q x]) (use k s' in blast)
  then show ?thesis using s' by (simp add: to_come_def small_objs small_heap_links)
qed

end
