(* ===== verification/Yaffs_Fs.thy ===== *)
theory Yaffs_Fs
  imports Yaffs_Mount
begin

text \<open>
  direct/yaffsfs.c, the direct interface: its devices, its tables of inodes, file
  descriptors, handles and directory searches, and the functions that manage them.

  The functions run one after the other (the lock is held throughout; nothing runs where
  the code lets go of it between two pieces of a long read or write).  An object is a device
  and an address there.  A pointer into a table is an index, \<^verbatim>\<open>NULL\<close> is None.
\<close>

section \<open>State\<close>

definition YAFFSFS_N_HANDLES :: nat where "YAFFSFS_N_HANDLES = 100"
definition YAFFSFS_N_DSC :: nat where "YAFFSFS_N_DSC = 20"
definition YAFFS_NAME_MAX :: nat where "YAFFS_NAME_MAX = 256"

abbreviation (input) ENOENT :: int where "ENOENT \<equiv> 2"
abbreviation (input) EBADF :: int where "EBADF \<equiv> 9"
abbreviation (input) ENOMEM :: int where "ENOMEM \<equiv> 12"
abbreviation (input) EACCES :: int where "EACCES \<equiv> 13"
abbreviation (input) EFAULT :: int where "EFAULT \<equiv> 14"
abbreviation (input) EBUSY :: int where "EBUSY \<equiv> 16"
abbreviation (input) EXDEV :: int where "EXDEV \<equiv> 18"
abbreviation (input) ENODEV :: int where "ENODEV \<equiv> 19"
abbreviation (input) ENOTDIR :: int where "ENOTDIR \<equiv> 20"
abbreviation (input) EISDIR :: int where "EISDIR \<equiv> 21"
abbreviation (input) EINVAL :: int where "EINVAL \<equiv> 22"
abbreviation (input) ENFILE :: int where "ENFILE \<equiv> 23"
abbreviation (input) EROFS :: int where "EROFS \<equiv> 30"
abbreviation (input) ENAMETOOLONG :: int where "ENAMETOOLONG \<equiv> 36"
abbreviation (input) ENOTEMPTY :: int where "ENOTEMPTY \<equiv> 39"
abbreviation (input) ELOOP :: int where "ELOOP \<equiv> 40"

type_synonym obj_ref = "nat \<times> nat"

record 'n fs_dev =
  dev_name :: "u8 list option"
  max_objects :: int
  dev_sys :: "'n yaffs_sys"

record yaffsfs_Inode =
  in_count :: int
  in_obj :: "obj_ref option"

text \<open>The union \<open>v\<close> of a file descriptor, by what was stored there last.\<close>

datatype fd_union = Position int | DirPtr "nat option"

record yaffsfs_FileDes =
  fd_isDir :: bool
  fd_reading :: bool
  fd_writing :: bool
  fd_append :: bool
  fd_shareRead :: bool
  fd_shareWrite :: bool
  fd_inodeId :: int
  fd_handleCount :: int
  fd_v :: fd_union

record yaffsfs_Handle =
  h_fdId :: int
  h_useCount :: int

text \<open>
  A directory search context.  While it is in use, the next object it returns is kept with
  the open searches of the device of its directory, under its index.
\<close>

record yaffsfs_Dsc =
  dsc_inUse :: bool
  dsc_name :: "u8 list"
  dsc_dirObj :: "obj_ref option"
  dsc_offset :: int

text \<open>
  \<open>fs_devs\<close> are the device structures there are, \<open>fs_devlist\<close> is \<^verbatim>\<open>yaffsfs_deviceList\<close>,
  \<open>fs_kmallocs\<close> the answers of the allocator, \<open>fs_stack\<close> the number of calls that following
  symbolic links may nest.  \<open>fs_iterator\<close> is \<^verbatim>\<open>dev_iterator\<close>: \<^verbatim>\<open>NULL\<close>, the head of the list or a device.
\<close>

record 'n yaffsfs =
  fs_devs :: "nat \<Rightarrow> 'n fs_dev option"
  fs_devlist :: "nat list"
  fs_inodes :: "yaffsfs_Inode list"
  fs_fds :: "yaffsfs_FileDes list"
  fs_handles :: "yaffsfs_Handle list"
  fs_dscs :: "yaffsfs_Dsc list"
  fs_ready :: bool
  fs_error :: int
  fs_kmallocs :: "bool list"
  fs_stack :: nat
  fs_iterator :: "nat option option"

definition zero_fd :: yaffsfs_FileDes where
  "zero_fd = \<lparr>fd_isDir = False, fd_reading = False, fd_writing = False, fd_append = False, fd_shareRead = False,
     fd_shareWrite = False, fd_inodeId = 0, fd_handleCount = 0, fd_v = Position 0\<rparr>"

definition zero_dsc :: yaffsfs_Dsc where
  "zero_dsc = \<lparr>dsc_inUse = False, dsc_name = replicate (YAFFS_NAME_MAX + 1) 0, dsc_dirObj = None, dsc_offset = 0\<rparr>"

definition yaffsfs_SetError :: "int \<Rightarrow> 'n yaffsfs \<Rightarrow> 'n yaffsfs" where
  "yaffsfs_SetError e fs = fs\<lparr>fs_error := e\<rparr>"

definition fs_fail :: "int \<Rightarrow> 'n yaffsfs \<Rightarrow> (int \<times> 'n yaffsfs) option" where
  "fs_fail e fs = Some (-1, yaffsfs_SetError (- e) fs)"

definition fs_kmalloc :: "'n yaffsfs \<Rightarrow> bool \<times> 'n yaffsfs" where
  "fs_kmalloc fs = (case fs_kmallocs fs of [] \<Rightarrow> (False, fs) | b # bs \<Rightarrow> (b, fs\<lparr>fs_kmallocs := bs\<rparr>))"

definition yaffsfs_InitHandles :: "'n yaffsfs \<Rightarrow> 'n yaffsfs" where
  "yaffsfs_InitHandles fs =
     (if fs_ready fs then fs
      else fs\<lparr>fs_ready := True,
              fs_inodes := replicate YAFFSFS_N_HANDLES \<lparr>in_count = 0, in_obj = None\<rparr>,
              fs_fds := replicate YAFFSFS_N_HANDLES (zero_fd\<lparr>fd_inodeId := -1\<rparr>),
              fs_handles := replicate YAFFSFS_N_HANDLES \<lparr>h_fdId = -1, h_useCount = 0\<rparr>,
              fs_dscs := replicate YAFFSFS_N_DSC zero_dsc\<rparr>)"

section \<open>Devices and objects\<close>

definition sys_of :: "'n yaffsfs \<Rightarrow> nat \<Rightarrow> 'n yaffs_sys option" where
  "sys_of fs d = map_option dev_sys (fs_devs fs d)"

definition put_sys :: "'n yaffsfs \<Rightarrow> nat \<Rightarrow> 'n yaffs_sys \<Rightarrow> 'n yaffsfs" where
  "put_sys fs d s = fs\<lparr>fs_devs := (fs_devs fs)(d := map_option (\<lambda>x. x\<lparr>dev_sys := s\<rparr>) (fs_devs fs d))\<rparr>"

text \<open>An operation of the file system proper on a device.\<close>

definition on_sys :: "'n yaffsfs \<Rightarrow> nat \<Rightarrow> ('n yaffs_sys \<Rightarrow> ('a \<times> 'n yaffs_sys) option) \<Rightarrow> ('a \<times> 'n yaffsfs) option" where
  "on_sys fs d f = do { s \<leftarrow> sys_of fs d; (r, s) \<leftarrow> f s; Some (r, put_sys fs d s) }"

definition in_sys :: "'n yaffsfs \<Rightarrow> nat \<Rightarrow> ('n yaffs_sys \<Rightarrow> 'n yaffs_sys option) \<Rightarrow> 'n yaffsfs option" where
  "in_sys fs d f = do { s \<leftarrow> sys_of fs d; s \<leftarrow> f s; Some (put_sys fs d s) }"

definition fs_obj :: "'n yaffsfs \<Rightarrow> obj_ref \<Rightarrow> yaffs_obj option" where
  "fs_obj fs o' = do { s \<leftarrow> sys_of fs (fst o'); objs s (snd o') }"

definition dev_read_only :: "'n yaffsfs \<Rightarrow> nat \<Rightarrow> bool option" where
  "dev_read_only fs d = do { s \<leftarrow> sys_of fs d; Some (read_only (sdev s)) }"

definition parent_of :: "'n yaffsfs \<Rightarrow> obj_ref \<Rightarrow> obj_ref option option" where
  "parent_of fs o' = do { x \<leftarrow> fs_obj fs o'; Some (map_option (Pair (fst o')) (o_parent x)) }"

definition equivalent_obj :: "'n yaffsfs \<Rightarrow> obj_ref option \<Rightarrow> (obj_ref option \<times> 'n yaffsfs) option" where
  "equivalent_obj fs o' =
     (case o' of None \<Rightarrow> Some (None, fs)
      | Some (d, a) \<Rightarrow> do { (e, fs) \<leftarrow> on_sys fs d (\<lambda>s. yaffs_get_equivalent_obj s (Some a));
                           Some (map_option (Pair d) e, fs) })"

text \<open>\<^verbatim>\<open>ROOT_DIR(dev)\<close>.\<close>

definition ROOT_DIR :: "'n yaffsfs \<Rightarrow> nat option \<Rightarrow> obj_ref option option" where
  "ROOT_DIR fs dev =
     (case dev of None \<Rightarrow> Some None
      | Some d \<Rightarrow> do { s \<leftarrow> sys_of fs d;
                      Some (if is_mounted s then map_option (Pair d) (root_dir s) else None) })"

section \<open>Handles\<close>

definition yaffsfs_HandleToPointer :: "'n yaffsfs \<Rightarrow> int \<Rightarrow> nat option" where
  "yaffsfs_HandleToPointer fs h = (if 0 \<le> h \<and> h < int (length (fs_handles fs)) then Some (nat h) else None)"

definition yaffsfs_HandleToFileDes :: "'n yaffsfs \<Rightarrow> int \<Rightarrow> nat option" where
  "yaffsfs_HandleToFileDes fs handle =
     do { h \<leftarrow> yaffsfs_HandleToPointer fs handle;
          let x = fs_handles fs ! h;
          if h_useCount x > 0 \<and> 0 \<le> h_fdId x \<and> h_fdId x < int (length (fs_fds fs)) then Some (nat (h_fdId x)) else None }"

definition yaffsfs_HandleToInode :: "'n yaffsfs \<Rightarrow> int \<Rightarrow> nat option" where
  "yaffsfs_HandleToInode fs handle =
     do { f \<leftarrow> yaffsfs_HandleToFileDes fs handle;
          let x = fs_fds fs ! f;
          if fd_handleCount x > 0 \<and> 0 \<le> fd_inodeId x \<and> fd_inodeId x < int (length (fs_inodes fs))
          then Some (nat (fd_inodeId x)) else None }"

definition yaffsfs_HandleToObject :: "'n yaffsfs \<Rightarrow> int \<Rightarrow> obj_ref option" where
  "yaffsfs_HandleToObject fs handle =
     do { i \<leftarrow> yaffsfs_HandleToInode fs handle; in_obj (fs_inodes fs ! i) }"

text \<open>The index of the first entry that satisfies \<open>p\<close>, or -1.\<close>

fun first_index :: "('a \<Rightarrow> bool) \<Rightarrow> 'a list \<Rightarrow> int \<Rightarrow> int" where
  "first_index p [] i = -1"
| "first_index p (x # xs) i = (if p x then i else first_index p xs (i + 1))"

definition upd_inode :: "'n yaffsfs \<Rightarrow> int \<Rightarrow> (yaffsfs_Inode \<Rightarrow> yaffsfs_Inode) \<Rightarrow> 'n yaffsfs option" where
  "upd_inode fs i f =
     (if 0 \<le> i \<and> i < int (length (fs_inodes fs))
      then Some (fs\<lparr>fs_inodes := (fs_inodes fs)[nat i := f (fs_inodes fs ! nat i)]\<rparr>) else None)"

definition upd_fd :: "'n yaffsfs \<Rightarrow> nat \<Rightarrow> (yaffsfs_FileDes \<Rightarrow> yaffsfs_FileDes) \<Rightarrow> 'n yaffsfs" where
  "upd_fd fs i f = fs\<lparr>fs_fds := (fs_fds fs)[i := f (fs_fds fs ! i)]\<rparr>"

definition upd_handle :: "'n yaffsfs \<Rightarrow> nat \<Rightarrow> (yaffsfs_Handle \<Rightarrow> yaffsfs_Handle) \<Rightarrow> 'n yaffsfs" where
  "upd_handle fs i f = fs\<lparr>fs_handles := (fs_handles fs)[i := f (fs_handles fs ! i)]\<rparr>"

definition yaffsfs_FindInodeIdForObject :: "'n yaffsfs \<Rightarrow> obj_ref option \<Rightarrow> (int \<times> 'n yaffsfs) option" where
  "yaffsfs_FindInodeIdForObject fs o' =
     do { (o', fs) \<leftarrow> equivalent_obj fs o';
          Some (first_index (\<lambda>i. in_obj i = o') (fs_inodes fs) 0, fs) }"

definition yaffsfs_GetInodeIdForObject :: "'n yaffsfs \<Rightarrow> obj_ref option \<Rightarrow> (int \<times> 'n yaffsfs) option" where
  "yaffsfs_GetInodeIdForObject fs o' =
     do { (o', fs) \<leftarrow> equivalent_obj fs o';
          (r, fs) \<leftarrow> yaffsfs_FindInodeIdForObject fs o';
          let r = (if r < 0 then first_index (\<lambda>i. in_obj i = None) (fs_inodes fs) 0 else r);
          if r \<ge> 0 then
            do { fs \<leftarrow> upd_inode fs r (\<lambda>i. i\<lparr>in_count := (if in_obj i = None then 0 else in_count i) + 1, in_obj := o'\<rparr>);
                 Some (r, fs) }
          else Some (r, fs) }"

definition yaffsfs_CountHandles :: "'n yaffsfs \<Rightarrow> obj_ref option \<Rightarrow> (int \<times> 'n yaffsfs) option" where
  "yaffsfs_CountHandles fs o' =
     do { (i, fs) \<leftarrow> yaffsfs_FindInodeIdForObject fs o';
          Some (if i \<ge> 0 then in_count (fs_inodes fs ! nat i) else 0, fs) }"

definition yaffsfs_ReleaseInode :: "'n yaffsfs \<Rightarrow> int \<Rightarrow> 'n yaffsfs option" where
  "yaffsfs_ReleaseInode fs i =
     do { (d, a) \<leftarrow> in_obj (fs_inodes fs ! nat i);
          fs \<leftarrow> in_sys fs d (\<lambda>s. upd_obj s a (\<lambda>x. x\<lparr>o_my_inode := False\<rparr>));
          fs \<leftarrow> upd_inode fs i (\<lambda>x. x\<lparr>in_obj := None\<rparr>);
          x \<leftarrow> fs_obj fs (d, a);
          if o_unlinked x then do { (r, fs) \<leftarrow> on_sys fs d (\<lambda>s. yaffs_del_obj s a); Some fs } else Some fs }"

definition yaffsfs_PutInode :: "'n yaffsfs \<Rightarrow> int \<Rightarrow> 'n yaffsfs option" where
  "yaffsfs_PutInode fs i =
     (if 0 \<le> i \<and> i < int (length (fs_inodes fs)) then
        do { fs \<leftarrow> upd_inode fs i (\<lambda>x. x\<lparr>in_count := in_count x - 1\<rparr>);
             if in_count (fs_inodes fs ! nat i) \<le> 0 then
               do { fs \<leftarrow> yaffsfs_ReleaseInode fs i; upd_inode fs i (\<lambda>x. x\<lparr>in_count := 0\<rparr>) }
             else Some fs }
      else Some fs)"

definition yaffsfs_NewHandle :: "'n yaffsfs \<Rightarrow> int \<times> 'n yaffsfs" where
  "yaffsfs_NewHandle fs =
     (let i = first_index (\<lambda>h. h_useCount h < 1) (fs_handles fs) 0
      in (i, if i < 0 then fs else upd_handle fs (nat i) (\<lambda>h. \<lparr>h_fdId = -1, h_useCount = 1\<rparr>)))"

definition yaffsfs_NewHandleAndFileDes :: "'n yaffsfs \<Rightarrow> int \<times> 'n yaffsfs" where
  "yaffsfs_NewHandleAndFileDes fs =
     (let (handle, fs) = yaffsfs_NewHandle fs
      in if handle < 0 then (-1, fs)
         else
           let i = first_index (\<lambda>f. fd_handleCount f < 1) (fs_fds fs) 0
           in if i < 0 then (-1, upd_handle fs (nat handle) (\<lambda>h. h\<lparr>h_useCount := 0\<rparr>))
              else (handle, upd_handle (upd_fd fs (nat i) (\<lambda>f. zero_fd\<lparr>fd_inodeId := -1, fd_handleCount := 1\<rparr>))
                              (nat handle) (\<lambda>h. h\<lparr>h_fdId := i\<rparr>)))"

definition yaffsfs_GetHandle :: "'n yaffsfs \<Rightarrow> int \<Rightarrow> int \<times> 'n yaffsfs" where
  "yaffsfs_GetHandle fs handle =
     (case yaffsfs_HandleToPointer fs handle of
        Some h \<Rightarrow> if h_useCount (fs_handles fs ! h) > 0
                  then (0, upd_handle fs h (\<lambda>x. x\<lparr>h_useCount := h_useCount x + 1\<rparr>)) else (-1, fs)
      | None \<Rightarrow> (-1, fs))"

text \<open>
  The end of a directory search.  The context leaves the list without a look whether it was
  in use: twice breaks the list (None).
\<close>

definition yaffsfs_closedir_no_lock :: "'n yaffsfs \<Rightarrow> nat option \<Rightarrow> (int \<times> 'n yaffsfs) option" where
  "yaffsfs_closedir_no_lock fs dirp =
     (case dirp of None \<Rightarrow> fs_fail EFAULT fs
      | Some k \<Rightarrow>
          if k \<ge> length (fs_dscs fs) \<or> \<not> dsc_inUse (fs_dscs fs ! k) then None
          else
            do { (d, a) \<leftarrow> dsc_dirObj (fs_dscs fs ! k);
                 let fs = fs\<lparr>fs_dscs := (fs_dscs fs)[k := (fs_dscs fs ! k)\<lparr>dsc_inUse := False\<rparr>]\<rparr>;
                 fs \<leftarrow> in_sys fs d (\<lambda>s. Some (s\<lparr>searches := filter (\<lambda>x. ds_slot x \<noteq> k) (searches s)\<rparr>));
                 Some (0, fs) })"

text \<open>The union as a pointer, and as a position: a pointer other than \<^verbatim>\<open>NULL\<close> is no known number.\<close>

definition dir_of :: "fd_union \<Rightarrow> nat option option" where
  "dir_of v = (case v of DirPtr p \<Rightarrow> Some p | Position p \<Rightarrow> if p = 0 then Some None else None)"

definition position_of :: "fd_union \<Rightarrow> int option" where
  "position_of v = (case v of Position p \<Rightarrow> Some p | DirPtr None \<Rightarrow> Some 0 | DirPtr (Some k) \<Rightarrow> None)"

definition yaffsfs_PutFileDes :: "'n yaffsfs \<Rightarrow> int \<Rightarrow> 'n yaffsfs option" where
  "yaffsfs_PutFileDes fs fdId =
     (if 0 \<le> fdId \<and> fdId < int (length (fs_fds fs)) then
        do { let k = nat fdId;
             let fs = upd_fd fs k (\<lambda>f. f\<lparr>fd_handleCount := fd_handleCount f - 1\<rparr>);
             if fd_handleCount (fs_fds fs ! k) < 1 then
               do { fs \<leftarrow> (if fd_isDir (fs_fds fs ! k) then
                             do { p \<leftarrow> dir_of (fd_v (fs_fds fs ! k));
                                  (r, fs) \<leftarrow> yaffsfs_closedir_no_lock fs p;
                                  Some (upd_fd fs k (\<lambda>f. f\<lparr>fd_v := DirPtr None\<rparr>)) }
                           else Some fs);
                    if fd_inodeId (fs_fds fs ! k) \<ge> 0 then
                      do { fs \<leftarrow> yaffsfs_PutInode fs (fd_inodeId (fs_fds fs ! k));
                           Some (upd_fd fs k (\<lambda>f. f\<lparr>fd_inodeId := -1\<rparr>)) }
                    else Some fs }
             else Some fs }
      else Some fs)"

definition yaffsfs_PutHandle :: "'n yaffsfs \<Rightarrow> int \<Rightarrow> 'n yaffsfs option" where
  "yaffsfs_PutHandle fs handle =
     (case yaffsfs_HandleToPointer fs handle of
        None \<Rightarrow> Some fs
      | Some h \<Rightarrow>
          if h_useCount (fs_handles fs ! h) > 0 then
            do { let fs = upd_handle fs h (\<lambda>x. x\<lparr>h_useCount := h_useCount x - 1\<rparr>);
                 if h_useCount (fs_handles fs ! h) < 1 then
                   do { fs \<leftarrow> yaffsfs_PutFileDes fs (h_fdId (fs_handles fs ! h));
                        Some (upd_handle fs h (\<lambda>x. x\<lparr>h_fdId := -1\<rparr>)) }
                 else Some fs }
          else Some fs)"

text \<open>
  The handles of a device that is taken away by force.  Every handle is closed, whatever its
  device; of the file descriptors only those of the device.
\<close>

fun break_handles_loop :: "nat list \<Rightarrow> 'n yaffsfs \<Rightarrow> nat \<Rightarrow> 'n yaffsfs option" where
  "break_handles_loop [] fs dev = Some fs"
| "break_handles_loop (i # is) fs dev =
     do { let fd = yaffsfs_HandleToFileDes fs (int i);
          let o' = yaffsfs_HandleToObject fs (int i);
          let fs = (if h_useCount (fs_handles fs ! i) > 0
                    then upd_handle fs i (\<lambda>h. h\<lparr>h_useCount := 0, h_fdId := 0\<rparr>) else fs);
          fs \<leftarrow> (case (fd, o') of
                  (Some k, Some (d, a)) \<Rightarrow>
                    if fd_handleCount (fs_fds fs ! k) > 0 \<and> d = dev then
                      do { let fs = upd_fd fs k (\<lambda>f. f\<lparr>fd_handleCount := 0\<rparr>);
                           fs \<leftarrow> yaffsfs_PutInode fs (fd_inodeId (fs_fds fs ! k));
                           Some (upd_fd fs k (\<lambda>f. f\<lparr>fd_inodeId := -1\<rparr>)) }
                    else Some fs
                | _ \<Rightarrow> Some fs);
          break_handles_loop is fs dev }"

definition yaffsfs_BreakDeviceHandles :: "'n yaffsfs \<Rightarrow> nat \<Rightarrow> 'n yaffsfs option" where
  "yaffsfs_BreakDeviceHandles fs dev = break_handles_loop [0..<length (fs_handles fs)] fs dev"

definition yaffsfs_IsDevBusy :: "'n yaffsfs \<Rightarrow> nat \<Rightarrow> bool" where
  "yaffsfs_IsDevBusy fs dev =
     list_ex (\<lambda>i. case yaffsfs_HandleToObject fs (int i) of Some (d, a) \<Rightarrow> d = dev | None \<Rightarrow> False)
       [0..<length (fs_handles fs)]"

definition yaffs_dup :: "'n yaffsfs \<Rightarrow> int \<Rightarrow> int \<times> 'n yaffsfs" where
  "yaffs_dup fs handle =
     (case yaffsfs_HandleToFileDes fs handle of
        None \<Rightarrow> (-1, yaffsfs_SetError (- EBADF) fs)
      | Some fd \<Rightarrow>
          let (n, fs) = yaffsfs_NewHandle fs
          in if n < 0 then (-1, yaffsfs_SetError (- ENOMEM) fs)
             else (n, upd_fd (upd_handle fs (nat n) (\<lambda>h. h\<lparr>h_fdId := h_fdId (fs_handles fs ! nat handle)\<rparr>)) fd
                        (\<lambda>f. f\<lparr>fd_handleCount := fd_handleCount f + 1\<rparr>)))"

definition yaffsfs_TooManyObjects :: "'n yaffsfs \<Rightarrow> nat \<Rightarrow> bool option" where
  "yaffsfs_TooManyObjects fs d =
     do { dv \<leftarrow> fs_devs fs d;
          let dev = sdev (dev_sys dv);
          Some (max_objects dv \<noteq> 0 \<and> n_obj dev - n_deleted_files dev > max_objects dv) }"

end
