(* ===== verification/Yaffs_Fs_Path.thy ===== *)
theory Yaffs_Fs_Path
  imports Yaffs_Fs
begin

text \<open>
  direct/yaffsfs.c: paths.  A path is the characters of the string, without the final 0; a
  pointer into it is the rest of the path.  \<open>path = None\<close> is a \<^verbatim>\<open>NULL\<close> pointer, the only one that
  \<^verbatim>\<open>yaffsfs_CheckMemRegion\<close> of the OS glue is taken to refuse.
\<close>

section \<open>Characters and lengths\<close>

definition yaffsfs_Match :: "u8 \<Rightarrow> u8 \<Rightarrow> bool" where
  "yaffsfs_Match a b \<longleftrightarrow> a = b"

definition yaffsfs_IsPathDivider :: "u8 \<Rightarrow> bool" where
  "yaffsfs_IsPathDivider ch \<longleftrightarrow> ch = 47"

abbreviation skip_dividers :: "u8 list \<Rightarrow> u8 list" where
  "skip_dividers p \<equiv> dropWhile yaffsfs_IsPathDivider p"

definition yaffsfs_CheckNameLength :: "'n yaffsfs \<Rightarrow> u8 list \<Rightarrow> int \<times> 'n yaffsfs" where
  "yaffsfs_CheckNameLength fs name =
     (let n = strnlen name (YAFFS_MAX_NAME_LENGTH + 1)
      in if n = 0 then (-1, yaffsfs_SetError (- ENOENT) fs)
         else if n > YAFFS_MAX_NAME_LENGTH then (-1, yaffsfs_SetError (- ENAMETOOLONG) fs)
         else (0, fs))"

text \<open>
  A copy of a path without the dividers at its end, if it has some; -1 without memory.
  The length is looked up in a part of the path only, and the copy of a longer path
  runs over the end of the new memory.
\<close>

definition yaffsfs_alt_dir_path :: "'n yaffsfs \<Rightarrow> u8 list \<Rightarrow> (int \<times> u8 list option \<times> 'n yaffsfs) option" where
  "yaffsfs_alt_dir_path fs path =
     (let n = strnlen path ((YAFFS_MAX_NAME_LENGTH + 1) * 3 + 1)
      in if n > 0 \<and> yaffsfs_IsPathDivider (path ! (n - 1)) then
           let (ok, fs) = fs_kmalloc fs
           in if \<not> ok then Some (-1, None, fs)
              else do { alt \<leftarrow> strcpy (replicate (n + 1) 0) path;
                        Some (0, Some (rev (skip_dividers (rev (cstr alt)))), fs) }
         else Some (0, None, fs))"

fun check_path_loop :: "u8 list \<Rightarrow> nat \<Rightarrow> nat \<Rightarrow> u8 list" where
  "check_path_loop [] n divs = []"
| "check_path_loop (c # path) n divs =
     (if n < YAFFS_MAX_NAME_LENGTH \<and> divs < 100 then
        if yaffsfs_IsPathDivider c then check_path_loop path 0 (divs + 1) else check_path_loop path (n + 1) divs
      else c # path)"

definition yaffsfs_CheckPath :: "u8 list \<Rightarrow> int" where
  "yaffsfs_CheckPath path = (if check_path_loop path 0 0 \<noteq> [] then -1 else 0)"

section \<open>Devices\<close>

text \<open>The text up to a divider or the end, and whether it was the same.\<close>

fun match_text :: "u8 list \<Rightarrow> u8 list \<Rightarrow> nat \<Rightarrow> bool \<times> u8 list \<times> u8 list \<times> nat" where
  "match_text (a # p) (b # l) n =
     (if \<not> yaffsfs_IsPathDivider a \<and> \<not> yaffsfs_IsPathDivider b then
        if yaffsfs_Match a b then match_text p l (n + 1) else (False, a # p, b # l, n)
      else (True, a # p, b # l, n))"
| "match_text p l n = (True, p, l, n)"

definition in_text :: "u8 list \<Rightarrow> bool" where
  "in_text p \<longleftrightarrow> p \<noteq> [] \<and> \<not> yaffsfs_IsPathDivider (hd p)"

lemma match_text_shorter: "match_text p l n = (m, p', l', n') \<Longrightarrow> length p' \<le> length p \<and> length l' \<le> length l"
  by (induction p l n rule: match_text.induct) (auto split: if_splits)

text \<open>The name of a device against a path, both without dividers at the front.\<close>

function match_name :: "u8 list \<Rightarrow> u8 list \<Rightarrow> nat \<Rightarrow> bool \<times> u8 list \<times> u8 list \<times> nat" where
  "match_name p left n =
     (if p = [] \<or> left = [] then (True, p, left, n)
      else
        let (m, p', left', n) = match_text p left n
        in if in_text p' \<or> in_text left' then (False, p', left', n)
           else if length (skip_dividers p') < length p then match_name (skip_dividers p') (skip_dividers left') n
           else (m, p', left', n))"
  by pat_completeness auto
termination by (relation "measure (\<lambda>(p, l, n). length p)") auto

declare match_name.simps [simp del]

definition match_device :: "u8 list \<Rightarrow> u8 list \<Rightarrow> (nat \<times> u8 list) option" where
  "match_device name path =
     (let (m, p, left, n) = match_name (skip_dividers name) (skip_dividers path) 0
      in if m \<and> skip_dividers p = [] then Some (n, skip_dividers left) else None)"

text \<open>The device with the longest name that matches, and the rest of the path.\<close>

fun find_device_loop ::
    "'n yaffsfs \<Rightarrow> nat list \<Rightarrow> u8 list \<Rightarrow> int \<Rightarrow> (nat \<times> u8 list) option \<Rightarrow> (nat \<times> u8 list) option option" where
  "find_device_loop fs [] path longest best = Some best"
| "find_device_loop fs (d # ds) path longest best =
     do { dv \<leftarrow> fs_devs fs d;
          case dev_name dv of None \<Rightarrow> find_device_loop fs ds path longest best
          | Some name \<Rightarrow>
              (case match_device name path of
                 Some (n, rest) \<Rightarrow>
                   if int n > longest then find_device_loop fs ds path (int n) (Some (d, rest))
                   else find_device_loop fs ds path longest best
               | None \<Rightarrow> find_device_loop fs ds path longest best) }"

definition yaffsfs_FindDevice :: "'n yaffsfs \<Rightarrow> u8 list \<Rightarrow> (nat \<times> u8 list) option option" where
  "yaffsfs_FindDevice fs path = find_device_loop fs (fs_devlist fs) path (-1) None"

definition yaffsfs_FindMountPoint :: "'n yaffsfs \<Rightarrow> u8 list \<Rightarrow> nat option option" where
  "yaffsfs_FindMountPoint fs path =
     do { r \<leftarrow> yaffsfs_FindDevice fs path;
          Some (case r of Some (d, rest) \<Rightarrow> if rest \<noteq> [] then None else Some d | None \<Rightarrow> None) }"

definition yaffsfs_FindRoot :: "'n yaffsfs \<Rightarrow> u8 list \<Rightarrow> (obj_ref option \<times> u8 list) option" where
  "yaffsfs_FindRoot fs path =
     do { r \<leftarrow> yaffsfs_FindDevice fs path;
          case r of None \<Rightarrow> Some (None, [])
          | Some (d, rest) \<Rightarrow> do { root \<leftarrow> ROOT_DIR fs (Some d); Some (root, rest) } }"

section \<open>Objects\<close>

definition YAFFSFS_MAX_SYMLINK_DEREFERENCES :: nat where "YAFFSFS_MAX_SYMLINK_DEREFERENCES = 5"

definition look_up :: "'n yaffsfs \<Rightarrow> obj_ref \<Rightarrow> u8 list \<Rightarrow> (obj_ref option \<times> 'n yaffsfs) option" where
  "look_up fs dir name =
     do { (o', fs) \<leftarrow> on_sys fs (fst dir) (\<lambda>s. yaffs_find_by_name s (snd dir) (Some name));
          Some (map_option (Pair (fst dir)) o', fs) }"

text \<open>
  The search for the object of a path.  \<open>follow\<close> is \<^verbatim>\<open>yaffsfs_FollowLink\<close>, which these functions call
  for the links within the path.  The results are the object, the directory (with the name looked
  up in it) and the flags \<^verbatim>\<open>notDir\<close> and \<^verbatim>\<open>loop\<close>.
\<close>

type_synonym 'n follow_fn = "'n yaffsfs \<Rightarrow> obj_ref option \<Rightarrow> nat \<Rightarrow> (obj_ref option \<times> bool \<times> 'n yaffsfs) option"

lemma next_component_shorter:
  assumes "dropWhile (\<lambda>c. \<not> yaffsfs_IsPathDivider c) (skip_dividers p) \<noteq> []"
  shows "length (dropWhile (\<lambda>c. \<not> yaffsfs_IsPathDivider c) (skip_dividers p)) < length p"
proof -
  obtain c q where q: "skip_dividers p = c # q" "\<not> yaffsfs_IsPathDivider c"
    using assms hd_dropWhile [of yaffsfs_IsPathDivider p] by (cases "skip_dividers p") auto
  have "length (dropWhile (\<lambda>c. \<not> yaffsfs_IsPathDivider c) q) \<le> length q" by (rule length_dropWhile_le)
  moreover have "length (skip_dividers p) \<le> length p" by (rule length_dropWhile_le)
  ultimately show ?thesis using q by simp
qed

function walk_path ::
    "'n follow_fn \<Rightarrow> 'n yaffsfs \<Rightarrow> obj_ref option \<Rightarrow> u8 list \<Rightarrow> nat \<Rightarrow> bool \<Rightarrow>
     ((obj_ref \<times> u8 list) option \<times> bool \<times> bool \<times> 'n yaffsfs) option" where
  "walk_path follow fs dir path depth lp =
     (case dir of None \<Rightarrow> Some (None, False, lp, fs)
      | Some d \<Rightarrow>
          let name = skip_dividers path;
              rest = dropWhile (\<lambda>c. \<not> yaffsfs_IsPathDivider c) name;
              str = take YAFFS_MAX_NAME_LENGTH (takeWhile (\<lambda>c. \<not> yaffsfs_IsPathDivider c) name)
          in if rest = [] then Some (Some (d, name), False, lp, fs)
             else if str = [46] then walk_path follow fs dir rest depth lp
             else if str = [46, 46] then do { up \<leftarrow> parent_of fs d; walk_path follow fs up rest depth lp }
             else
               do { (o', fs) \<leftarrow> look_up fs d str;
                    (o', lp', fs) \<leftarrow> follow fs o' depth;
                    case o' of None \<Rightarrow> Some (None, False, lp \<or> lp', fs)
                    | Some r \<Rightarrow>
                        do { x \<leftarrow> fs_obj fs r;
                             if is_dir x then walk_path follow fs (Some r) rest depth (lp \<or> lp')
                             else Some (None, True, lp \<or> lp', fs) } })"
  by pat_completeness auto
termination by (relation "measure (\<lambda>(f, fs, dir, path, depth, lp). length path)") (auto intro: next_component_shorter)

declare walk_path.simps [simp del]

definition find_directory_with ::
    "'n follow_fn \<Rightarrow> 'n yaffsfs \<Rightarrow> obj_ref option \<Rightarrow> u8 list \<Rightarrow> nat \<Rightarrow>
     ((obj_ref \<times> u8 list) option \<times> bool \<times> bool \<times> 'n yaffsfs) option" where
  "find_directory_with follow fs startDir path depth =
     (if depth > YAFFSFS_MAX_SYMLINK_DEREFERENCES then Some (None, False, True, fs)
      else
        do { (dir, rest) \<leftarrow> (if startDir \<noteq> None then Some (startDir, path) else yaffsfs_FindRoot fs path);
             walk_path follow fs dir rest depth False })"

definition find_object_with ::
    "'n follow_fn \<Rightarrow> 'n yaffsfs \<Rightarrow> obj_ref option \<Rightarrow> u8 list \<Rightarrow> nat \<Rightarrow> bool \<Rightarrow>
     (obj_ref option \<times> obj_ref option \<times> bool \<times> bool \<times> 'n yaffsfs) option" where
  "find_object_with follow fs relDir path depth getEquiv =
     do { (r, nd, lp, fs) \<leftarrow> find_directory_with follow fs relDir path depth;
          (o', fs) \<leftarrow>
            (case r of None \<Rightarrow> Some (None, fs)
             | Some (dir, name) \<Rightarrow>
                 if name = [46, 46] then do { up \<leftarrow> parent_of fs dir; Some (up, fs) }
                 else if name = [46] then Some (Some dir, fs)
                 else if name \<noteq> [] then look_up fs dir name
                 else Some (Some dir, fs));
          (o', fs) \<leftarrow> (if getEquiv then equivalent_obj fs o' else Some (o', fs));
          Some (o', map_option fst r, nd, lp, fs) }"

text \<open>
  The loop of \<^verbatim>\<open>yaffsfs_FollowLink\<close>, in at most \<open>n\<close> rounds.  The depth counts the rounds, and with
  a depth above the limit there is no object any more, so that nine rounds are enough.
\<close>

fun follow_rounds ::
    "nat \<Rightarrow> 'n follow_fn \<Rightarrow> 'n yaffsfs \<Rightarrow> obj_ref option \<Rightarrow> nat \<Rightarrow> bool \<Rightarrow> (obj_ref option \<times> bool \<times> 'n yaffsfs) option" where
  "follow_rounds 0 follow fs o' depth lp = None"
| "follow_rounds (Suc n) follow fs o' depth lp =
     (case o' of None \<Rightarrow> Some (None, lp, fs)
      | Some r \<Rightarrow>
          do { x \<leftarrow> fs_obj fs r;
               case o_variant x of
                 SymlinkVar al \<Rightarrow>
                   do { al \<leftarrow> al;
                        up \<leftarrow> (if al \<noteq> [] \<and> yaffsfs_IsPathDivider (hd al) then Some None else parent_of fs r);
                        (o', dir, nd, lp', fs) \<leftarrow> find_object_with follow fs up al depth True;
                        follow_rounds n follow fs o' (depth + 1) (lp \<or> lp') }
               | _ \<Rightarrow> Some (o', lp, fs) })"

text \<open>
  Calls nested at most as deep as the stack is (None beyond).  The depth handed on does not
  count them.
\<close>

fun yaffsfs_FollowLink :: "nat \<Rightarrow> 'n follow_fn" where
  "yaffsfs_FollowLink 0 fs o' depth = None"
| "yaffsfs_FollowLink (Suc stack) fs o' depth =
     do { (o', fs) \<leftarrow> equivalent_obj fs o';
          follow_rounds 9 (yaffsfs_FollowLink stack) fs o' depth False }"

definition yaffsfs_FindDirectory ::
    "'n yaffsfs \<Rightarrow> obj_ref option \<Rightarrow> u8 list \<Rightarrow> ((obj_ref \<times> u8 list) option \<times> bool \<times> bool \<times> 'n yaffsfs) option" where
  "yaffsfs_FindDirectory fs relDir path = find_directory_with (yaffsfs_FollowLink (fs_stack fs)) fs relDir path 0"

definition yaffsfs_FindObject ::
    "'n yaffsfs \<Rightarrow> obj_ref option \<Rightarrow> u8 list \<Rightarrow> bool \<Rightarrow>
     (obj_ref option \<times> obj_ref option \<times> bool \<times> bool \<times> 'n yaffsfs) option" where
  "yaffsfs_FindObject fs relDir path getEquiv =
     find_object_with (yaffsfs_FollowLink (fs_stack fs)) fs relDir path 0 getEquiv"

definition follow_link :: "'n yaffsfs \<Rightarrow> obj_ref option \<Rightarrow> (obj_ref option \<times> bool \<times> 'n yaffsfs) option" where
  "follow_link fs o' = yaffsfs_FollowLink (fs_stack fs) fs o' 0"

end
