(* ===== verification/Yaffs_Fs_Dirs.thy ===== *)
theory Yaffs_Fs_Dirs
  imports Yaffs_Fs_Path
begin

text \<open>
  direct/yaffsfs.c: searches of directories, and the opening and closing of files and
  directories.
\<close>

type_synonym 'n fs_result = "(int \<times> 'n yaffsfs) option"

section \<open>Common checks\<close>

definition path_problem :: "u8 list option \<Rightarrow> int option" where
  "path_problem path =
     (case path of None \<Rightarrow> Some EFAULT
      | Some p \<Rightarrow> if yaffsfs_CheckPath p < 0 then Some ENAMETOOLONG else None)"

definition path_checked :: "'n yaffsfs \<Rightarrow> u8 list option \<Rightarrow> (u8 list \<Rightarrow> 'n fs_result) \<Rightarrow> 'n fs_result" where
  "path_checked fs path f =
     (case path_problem path of Some e \<Rightarrow> fs_fail e fs | None \<Rightarrow> f (the path))"

text \<open>The object of a path, with a link at its end followed or not, or the error.\<close>

definition find_existing ::
    "'n yaffsfs \<Rightarrow> obj_ref option \<Rightarrow> u8 list \<Rightarrow> bool \<Rightarrow> ((int + obj_ref) \<times> 'n yaffsfs) option" where
  "find_existing fs reldir path follow =
     do { (o', dir, notDir, lp, fs) \<leftarrow> yaffsfs_FindObject fs reldir path True;
          (o', lp', fs) \<leftarrow> (if follow then follow_link fs o' else Some (o', False, fs));
          Some (if dir = None \<and> notDir then Inl ENOTDIR
                else if lp \<or> lp' then Inl ELOOP
                else case (dir, o') of (Some d, Some r) \<Rightarrow> Inr r | _ \<Rightarrow> Inl ENOENT, fs) }"

definition on_existing ::
    "'n yaffsfs \<Rightarrow> obj_ref option \<Rightarrow> u8 list option \<Rightarrow> bool \<Rightarrow> ('n yaffsfs \<Rightarrow> obj_ref \<Rightarrow> 'n fs_result) \<Rightarrow> 'n fs_result" where
  "on_existing fs reldir path follow f =
     path_checked fs path (\<lambda>p.
       do { (r, fs) \<leftarrow> find_existing fs reldir p follow;
            case r of Inl e \<Rightarrow> fs_fail e fs | Inr o' \<Rightarrow> f fs o' })"

definition on_root :: "'n yaffsfs \<Rightarrow> nat option \<Rightarrow> (obj_ref option \<Rightarrow> 'n fs_result) \<Rightarrow> 'n fs_result" where
  "on_root fs dev f = do { r \<leftarrow> ROOT_DIR fs dev; f r }"

section \<open>Searches of directories\<close>

record yaffs_dirent =
  d_ino :: u32
  d_off :: int
  d_name :: "u8 list"

text \<open>The offset is a bit field of 20 bits with a sign.\<close>

definition next_offset :: "int \<Rightarrow> int" where
  "next_offset off = (off + 1 + 2 ^ 19) mod 2 ^ 20 - 2 ^ 19"

definition first_child :: "yaffs_obj \<Rightarrow> nat option" where
  "first_child x = (case o_variant x of DirVar (c # cs) dl \<Rightarrow> Some c | _ \<Rightarrow> None)"

text \<open>The search back to the first entry, if the object is still a directory.\<close>

definition yaffsfs_SetDirRewound :: "'n yaffsfs \<Rightarrow> nat \<Rightarrow> 'n yaffsfs option" where
  "yaffsfs_SetDirRewound fs k =
     (case dsc_dirObj (fs_dscs fs ! k) of None \<Rightarrow> Some fs
      | Some (d, a) \<Rightarrow>
          do { x \<leftarrow> fs_obj fs (d, a);
               if is_dir x then
                 do { let fs = fs\<lparr>fs_dscs := (fs_dscs fs)[k := (fs_dscs fs ! k)\<lparr>dsc_offset := 0\<rparr>]\<rparr>;
                      in_sys fs d (\<lambda>s. Some (s\<lparr>searches :=
                        map (\<lambda>y. if ds_slot y = k then y\<lparr>ds_next := first_child x\<rparr> else y) (searches s)\<rparr>)) }
               else Some fs })"

definition yaffsfs_opendir_reldir_no_lock ::
    "'n yaffsfs \<Rightarrow> obj_ref option \<Rightarrow> u8 list option \<Rightarrow> (nat option \<times> 'n yaffsfs) option" where
  "yaffsfs_opendir_reldir_no_lock fs reldir dirname =
     (case path_problem dirname of Some e \<Rightarrow> Some (None, yaffsfs_SetError (- e) fs)
      | None \<Rightarrow>
          do { (o', dir, notDir, lp, fs) \<leftarrow> yaffsfs_FindObject fs reldir (the dirname) True;
               (o', lp', fs) \<leftarrow> follow_link fs o';
               if o' = None \<and> notDir then Some (None, yaffsfs_SetError (- ENOTDIR) fs)
               else if lp \<or> lp' then Some (None, yaffsfs_SetError (- ELOOP) fs)
               else case o' of None \<Rightarrow> Some (None, yaffsfs_SetError (- ENOENT) fs)
               | Some (d, a) \<Rightarrow>
                   do { x \<leftarrow> fs_obj fs (d, a);
                        if \<not> is_dir x then Some (None, yaffsfs_SetError (- ENOTDIR) fs)
                        else
                          do { let i = first_index (\<lambda>c. \<not> dsc_inUse c) (fs_dscs fs) 0;
                               if i < 0 then Some (None, fs)
                               else
                                 do { name \<leftarrow> strncpy (dsc_name zero_dsc) (the dirname) YAFFS_NAME_MAX;
                                      let fs = fs\<lparr>fs_dscs := (fs_dscs fs)[nat i :=
                                        zero_dsc\<lparr>dsc_inUse := True, dsc_dirObj := Some (d, a), dsc_name := name\<rparr>]\<rparr>;
                                      fs \<leftarrow> in_sys fs d (\<lambda>s. Some (s\<lparr>searches :=
                                        \<lparr>ds_slot = nat i, ds_dir = a, ds_next = None\<rparr> # searches s\<rparr>));
                                      fs \<leftarrow> yaffsfs_SetDirRewound fs (nat i);
                                      Some (Some (nat i), fs) } } } })"

definition yaffs_opendir_reldir where
  "yaffs_opendir_reldir fs reldir dirname = yaffsfs_opendir_reldir_no_lock fs reldir dirname"

definition yaffs_opendir_reldev where
  "yaffs_opendir_reldev fs dev dirname = do { r \<leftarrow> ROOT_DIR fs dev; yaffs_opendir_reldir fs r dirname }"

definition yaffs_opendir where
  "yaffs_opendir fs dirname = yaffs_opendir_reldir fs None dirname"

text \<open>The search of a context that is in use.\<close>

definition search_of :: "'n yaffsfs \<Rightarrow> nat \<Rightarrow> (nat \<times> dir_search) option" where
  "search_of fs k =
     do { (d, a) \<leftarrow> dsc_dirObj (fs_dscs fs ! k);
          s \<leftarrow> sys_of fs d;
          x \<leftarrow> find (\<lambda>x. ds_slot x = k) (searches s);
          Some (d, x) }"

definition yaffsfs_readdir_no_lock :: "'n yaffsfs \<Rightarrow> nat option \<Rightarrow> (yaffs_dirent option \<times> 'n yaffsfs) option" where
  "yaffsfs_readdir_no_lock fs dirp =
     (case dirp of None \<Rightarrow> Some (None, yaffsfs_SetError (- EBADF) fs)
      | Some k \<Rightarrow>
          if k \<ge> length (fs_dscs fs) then None
          else if \<not> dsc_inUse (fs_dscs fs ! k) then Some (None, yaffsfs_SetError (- EBADF) fs)
          else
            do { let fs = yaffsfs_SetError 0 fs;
                 (d, sr) \<leftarrow> search_of fs k;
                 case ds_next sr of None \<Rightarrow> Some (None, fs)
                 | Some a \<Rightarrow>
                     do { (e, fs) \<leftarrow> equivalent_obj fs (Some (d, a));
                          e \<leftarrow> e;
                          x \<leftarrow> fs_obj fs e;
                          let off = dsc_offset (fs_dscs fs ! k);
                          let fs = fs\<lparr>fs_dscs := (fs_dscs fs)[k := (fs_dscs fs ! k)\<lparr>dsc_offset := next_offset off\<rparr>]\<rparr>;
                          ((n, name), fs) \<leftarrow> on_sys fs d (\<lambda>s. do { (n, name, s) \<leftarrow> yaffs_get_obj_name s a YAFFS_NAME_MAX;
                                                                  Some ((n, name), s) });
                          let name = (if cstr name = [] then [122, 122] else cstr name);
                          y \<leftarrow> fs_obj fs (d, ds_dir sr);
                          fs \<leftarrow> in_sys fs d (\<lambda>s. Some (s\<lparr>searches :=
                                  map (\<lambda>z. if ds_slot z = k then yaffsfs_DirAdvance (objs s) z else z) (searches s)\<rparr>));
                          Some (Some \<lparr>d_ino = o_obj_id x, d_off = off, d_name = name\<rparr>, fs) } })"

definition yaffs_readdir where "yaffs_readdir fs dirp = yaffsfs_readdir_no_lock fs dirp"

definition yaffsfs_rewinddir_no_lock :: "'n yaffsfs \<Rightarrow> nat option \<Rightarrow> 'n yaffsfs option" where
  "yaffsfs_rewinddir_no_lock fs dirp =
     (case dirp of None \<Rightarrow> Some fs
      | Some k \<Rightarrow> if k \<ge> length (fs_dscs fs) then None else yaffsfs_SetDirRewound fs k)"

definition yaffs_rewinddir where "yaffs_rewinddir fs dirp = yaffsfs_rewinddir_no_lock fs dirp"

definition yaffs_readdir_fd :: "'n yaffsfs \<Rightarrow> int \<Rightarrow> (yaffs_dirent option \<times> 'n yaffsfs) option" where
  "yaffs_readdir_fd fs fd =
     (case yaffsfs_HandleToFileDes fs fd of None \<Rightarrow> Some (None, fs)
      | Some f \<Rightarrow>
          if fd_isDir (fs_fds fs ! f) then
            do { p \<leftarrow> dir_of (fd_v (fs_fds fs ! f));
                 if p = None then Some (None, fs) else yaffsfs_readdir_no_lock fs p }
          else Some (None, fs))"

definition yaffs_rewinddir_fd :: "'n yaffsfs \<Rightarrow> int \<Rightarrow> 'n yaffsfs option" where
  "yaffs_rewinddir_fd fs fd =
     (case yaffsfs_HandleToFileDes fs fd of None \<Rightarrow> Some fs
      | Some f \<Rightarrow>
          if fd_isDir (fs_fds fs ! f) then do { p \<leftarrow> dir_of (fd_v (fs_fds fs ! f)); yaffsfs_rewinddir_no_lock fs p }
          else Some fs)"

definition yaffs_closedir where "yaffs_closedir fs dirp = yaffsfs_closedir_no_lock fs dirp"

section \<open>Opening\<close>

definition O_WRONLY :: u32 where "O_WRONLY = 1"
definition O_RDWR :: u32 where "O_RDWR = 2"
definition O_CREAT :: u32 where "O_CREAT = 0x40"
definition O_EXCL :: u32 where "O_EXCL = 0x80"
definition O_TRUNC :: u32 where "O_TRUNC = 0x200"
definition O_APPEND :: u32 where "O_APPEND = 0x400"
definition S_IRUSR :: u32 where "S_IRUSR = 0x100"
definition S_IWUSR :: u32 where "S_IWUSR = 0x80"
definition S_IXUSR :: u32 where "S_IXUSR = 0x40"
definition YAFFS_SHARE_READ :: u32 where "YAFFS_SHARE_READ = 1"
definition YAFFS_SHARE_WRITE :: u32 where "YAFFS_SHARE_WRITE = 2"

abbreviation has_flag :: "u32 \<Rightarrow> u32 \<Rightarrow> bool" where "has_flag v f \<equiv> v AND f \<noteq> 0"

text \<open>\<^verbatim>\<open>O_EXCL\<close> means nothing without \<^verbatim>\<open>O_CREAT\<close>, \<^verbatim>\<open>O_TRUNC\<close> nothing with both of them.\<close>

definition sane_flags :: "u32 \<Rightarrow> u32" where
  "sane_flags oflag =
     (let oflag = (if has_flag oflag O_CREAT then oflag else oflag AND NOT O_EXCL)
      in if has_flag oflag O_CREAT \<and> has_flag oflag O_EXCL then oflag AND NOT O_TRUNC else oflag)"

text \<open>Whether the other open descriptors of an object stand in the way.\<close>

definition sharing_conflict :: "'n yaffsfs \<Rightarrow> obj_ref \<Rightarrow> bool \<Rightarrow> bool \<Rightarrow> bool \<Rightarrow> bool \<Rightarrow> bool" where
  "sharing_conflict fs r shareRead shareWrite readRequested writeRequested \<longleftrightarrow>
     (let others = filter (\<lambda>f. fd_handleCount f > 0 \<and> fd_inodeId f \<ge> 0 \<and>
                              in_obj (fs_inodes fs ! nat (fd_inodeId f)) = Some r) (fs_fds fs)
      in (\<not> list_all fd_shareRead others \<and> readRequested) \<or> (\<not> shareRead \<and> list_ex fd_reading others) \<or>
         (\<not> list_all fd_shareWrite others \<and> writeRequested) \<or> (\<not> shareWrite \<and> list_ex fd_writing others))"

text \<open>An object that exists: whether it is refused, and the search of a directory.\<close>

definition open_existing ::
    "'n yaffsfs \<Rightarrow> obj_ref option \<Rightarrow> u8 list \<Rightarrow> obj_ref \<Rightarrow> u32 \<Rightarrow> bool \<Rightarrow> bool \<Rightarrow> bool \<Rightarrow> bool \<Rightarrow> bool \<Rightarrow>
     (bool \<times> nat option \<times> 'n yaffsfs) option" where
  "open_existing fs reldir path r oflag isd readRequested writeRequested shareRead shareWrite =
     do { (dsc, fs) \<leftarrow> (if isd then yaffsfs_opendir_reldir_no_lock fs reldir (Some path) else Some (None, fs));
          x \<leftarrow> fs_obj fs r;
          ro \<leftarrow> dev_read_only fs (fst r);
          let refused = ((readRequested \<and> \<not> has_flag (o_yst_mode x) S_IRUSR) \<or>
                         (writeRequested \<and> \<not> has_flag (o_yst_mode x) S_IWUSR));
          Some (if isd \<and> dsc = None then (True, None, yaffsfs_SetError (- ENFILE) fs)
                else if has_flag oflag O_EXCL \<and> has_flag oflag O_CREAT then (True, dsc, yaffsfs_SetError (- EEXIST) fs)
                else if writeRequested \<and> ro then (True, dsc, yaffsfs_SetError (- EROFS) fs)
                else if refused then (True, dsc, yaffsfs_SetError (- EACCES) fs)
                else if sharing_conflict fs r shareRead shareWrite readRequested writeRequested
                then (True, dsc, yaffsfs_SetError (- EBUSY) fs)
                else (False, dsc, fs)) }"

text \<open>An object that does not exist: the new one, or the error.\<close>

definition open_missing ::
    "'n yaffsfs \<Rightarrow> obj_ref option \<Rightarrow> u8 list \<Rightarrow> u32 \<Rightarrow> u32 \<Rightarrow> bool \<Rightarrow> (obj_ref option \<times> 'n yaffsfs) option" where
  "open_missing fs reldir path oflag mode lp =
     do { (r, notDir, lp', fs) \<leftarrow> yaffsfs_FindDirectory fs reldir path;
          if r = None \<and> notDir then Some (None, yaffsfs_SetError (- ENOTDIR) fs)
          else if lp \<or> lp' then Some (None, yaffsfs_SetError (- ELOOP) fs)
          else case r of None \<Rightarrow> Some (None, yaffsfs_SetError (- ENOENT) fs)
          | Some ((d, a), name) \<Rightarrow>
              if \<not> has_flag oflag O_CREAT then Some (None, yaffsfs_SetError (- ENOENT) fs)
              else
                do { ro \<leftarrow> dev_read_only fs d;
                     many \<leftarrow> yaffsfs_TooManyObjects fs d;
                     if ro then Some (None, yaffsfs_SetError (- EROFS) fs)
                     else if many then Some (None, yaffsfs_SetError (- ENFILE) fs)
                     else
                       do { (o', fs) \<leftarrow> on_sys fs d (\<lambda>s. yaffs_create_file s a name mode 0 0);
                            Some (map_option (Pair d) o', if o' = None then yaffsfs_SetError (- ENOSPC) fs else fs) } } }"

text \<open>The descriptor of an object that is open now.\<close>

definition open_done ::
    "'n yaffsfs \<Rightarrow> int \<Rightarrow> obj_ref \<Rightarrow> u32 \<Rightarrow> bool \<Rightarrow> bool \<Rightarrow> bool \<Rightarrow> bool \<Rightarrow> bool \<Rightarrow> nat option \<Rightarrow> 'n yaffsfs option" where
  "open_done fs handle r oflag isd readRequested writeRequested shareRead shareWrite dsc =
     do { (i, fs) \<leftarrow> yaffsfs_GetInodeIdForObject fs (Some r);
          f \<leftarrow> yaffsfs_HandleToFileDes fs handle;
          if i < 0 then None
          else
            do { let fs = upd_fd fs f (\<lambda>x. x\<lparr>fd_inodeId := i, fd_reading := readRequested, fd_writing := writeRequested,
                   fd_append := has_flag oflag O_APPEND, fd_shareRead := shareRead, fd_shareWrite := shareWrite,
                   fd_isDir := isd, fd_v := (if isd then DirPtr dsc else Position 0)\<rparr>);
                 fs \<leftarrow> in_sys fs (fst r) (\<lambda>s. upd_obj s (snd r) (\<lambda>x. x\<lparr>o_my_inode := True\<rparr>));
                 if \<not> isd \<and> has_flag oflag O_TRUNC \<and> writeRequested
                 then do { (k, fs) \<leftarrow> on_sys fs (fst r) (\<lambda>s. yaffs_resize_file s (snd r) 0); Some fs }
                 else Some fs } }"

definition yaffs_open_sharing_reldir ::
    "'n yaffsfs \<Rightarrow> obj_ref option \<Rightarrow> u8 list option \<Rightarrow> u32 \<Rightarrow> u32 \<Rightarrow> u32 \<Rightarrow> 'n fs_result" where
  "yaffs_open_sharing_reldir fs reldir path oflag mode sharing =
     path_checked fs path (\<lambda>p.
       do { let rwflags = oflag AND (O_RDWR OR O_WRONLY);
            let shareRead = has_flag sharing YAFFS_SHARE_READ;
            let shareWrite = has_flag sharing YAFFS_SHARE_WRITE;
            let oflag = sane_flags oflag;
            let readRequested = (rwflags = O_RDWR \<or> rwflags = 0);
            let writeRequested = (rwflags = O_RDWR \<or> rwflags = O_WRONLY);
            let (handle, fs) = yaffsfs_NewHandleAndFileDes fs;
            if handle < 0 then fs_fail ENFILE fs
            else
              do { (o', dir, nd, lp, fs) \<leftarrow> yaffsfs_FindObject fs reldir p True;
                   (o', lp, fs) \<leftarrow> follow_link fs o';
                   x \<leftarrow> (case o' of None \<Rightarrow> Some None | Some r \<Rightarrow> map_option Some (fs_obj fs r));
                   let there = (case x of None \<Rightarrow> False | Some x \<Rightarrow> is_file x \<or> is_dir x);
                   let isd = (there \<and> (case x of None \<Rightarrow> False | Some x \<Rightarrow> is_dir x));
                   let readRequested = (isd \<or> readRequested);
                   let writeRequested = (\<not> isd \<and> writeRequested);
                   (o', denied, dsc, fs) \<leftarrow>
                     (if there then
                        do { r \<leftarrow> o';
                             (denied, dsc, fs) \<leftarrow>
                               open_existing fs reldir p r oflag isd readRequested writeRequested shareRead shareWrite;
                             Some (o', denied, dsc, fs) }
                      else
                        do { (o', fs) \<leftarrow> open_missing fs reldir p oflag mode lp;
                             Some (o', False, None, fs) });
                   case o' of
                     Some r \<Rightarrow>
                       if denied then
                         do { fs \<leftarrow> (if dsc \<noteq> None then do { (c, fs) \<leftarrow> yaffsfs_closedir_no_lock fs dsc; Some fs }
                                     else Some fs);
                              fs \<leftarrow> yaffsfs_PutHandle fs handle;
                              Some (-1, fs) }
                       else
                         do { fs \<leftarrow> open_done fs handle r oflag isd readRequested writeRequested shareRead shareWrite dsc;
                              Some (handle, fs) }
                   | None \<Rightarrow> do { fs \<leftarrow> yaffsfs_PutHandle fs handle; Some (-1, fs) } } })"

definition yaffs_open_sharing_reldev where
  "yaffs_open_sharing_reldev fs dev path oflag mode sharing =
     on_root fs dev (\<lambda>r. yaffs_open_sharing_reldir fs r path oflag mode sharing)"

definition yaffs_open_sharing where
  "yaffs_open_sharing fs path oflag mode sharing = yaffs_open_sharing_reldir fs None path oflag mode sharing"

definition yaffs_open_reldir where
  "yaffs_open_reldir fs reldir path oflag mode =
     yaffs_open_sharing_reldir fs reldir path oflag mode (YAFFS_SHARE_READ OR YAFFS_SHARE_WRITE)"

definition yaffs_open_reldev where
  "yaffs_open_reldev fs dev path oflag mode =
     on_root fs dev (\<lambda>r. yaffs_open_sharing_reldir fs r path oflag mode (YAFFS_SHARE_READ OR YAFFS_SHARE_WRITE))"

definition yaffs_open where
  "yaffs_open fs path oflag mode = yaffs_open_reldir fs None path oflag mode"

section \<open>Flushing and closing\<close>

definition yaffs_Dofsync :: "'n yaffsfs \<Rightarrow> int \<Rightarrow> bool \<Rightarrow> 'n fs_result" where
  "yaffs_Dofsync fs handle datasync =
     (case yaffsfs_HandleToObject fs handle of None \<Rightarrow> fs_fail EBADF fs
      | Some (d, a) \<Rightarrow>
          do { ro \<leftarrow> dev_read_only fs d;
               if ro then fs_fail EROFS fs
               else do { (r, fs) \<leftarrow> on_sys fs d (\<lambda>s. yaffs_flush_file s a True datasync False); Some (0, fs) } })"

definition yaffs_fsync where "yaffs_fsync fs handle = yaffs_Dofsync fs handle False"
definition yaffs_flush where "yaffs_flush fs handle = yaffs_fsync fs handle"
definition yaffs_fdatasync where "yaffs_fdatasync fs handle = yaffs_Dofsync fs handle True"

definition yaffs_close :: "'n yaffsfs \<Rightarrow> int \<Rightarrow> 'n fs_result" where
  "yaffs_close fs handle =
     (case (yaffsfs_HandleToFileDes fs handle, yaffsfs_HandleToObject fs handle) of
        (Some f, Some (d, a)) \<Rightarrow>
          do { fs \<leftarrow> (if \<not> fd_isDir (fs_fds fs ! f)
                      then do { (r, fs) \<leftarrow> on_sys fs d (\<lambda>s. yaffs_flush_file s a True False True); Some fs } else Some fs);
               fs \<leftarrow> yaffsfs_PutHandle fs handle;
               Some (0, fs) }
      | _ \<Rightarrow> fs_fail EBADF fs)"

end
