(* ===== verification/Yaffs_Fs_Ops.thy ===== *)
theory Yaffs_Fs_Ops
  imports Yaffs_Fs_Dirs
begin

text \<open>
  direct/yaffsfs.c: reading and writing through handles, and the operations on paths.
\<close>

definition YAFFS_MAX_RW_SIZE :: int where "YAFFS_MAX_RW_SIZE = 0x70000000"
definition YAFFS_MAX_FILE_SIZE :: int where "YAFFS_MAX_FILE_SIZE = 0x7ffffffff"
definition YAFFSFS_RW_SIZE :: int where "YAFFSFS_RW_SIZE = 8192"

section \<open>Reading and writing\<close>

text \<open>The next piece: up to the next multiple of \<^verbatim>\<open>YAFFSFS_RW_SIZE\<close>.\<close>

definition rw_piece :: "int \<Rightarrow> nat \<Rightarrow> nat" where
  "rw_piece pos nbyte = min (nat (YAFFSFS_RW_SIZE - pos mod YAFFSFS_RW_SIZE)) nbyte"

lemma rw_piece_bounds: "0 < nbyte \<Longrightarrow> 0 < rw_piece pos nbyte" "rw_piece pos nbyte \<le> nbyte"
proof -
  have "pos mod YAFFSFS_RW_SIZE < YAFFSFS_RW_SIZE" by (simp add: YAFFSFS_RW_SIZE_def)
  then show "0 < nbyte \<Longrightarrow> 0 < rw_piece pos nbyte" by (simp add: rw_piece_def)
qed (simp add: rw_piece_def)

text \<open>
  \<open>buf\<close> is the rest of the buffer, \<open>out\<close> what has been filled of it.  The object is looked up
  for each piece.
\<close>

function do_read_loop ::
    "'n yaffsfs \<Rightarrow> int \<Rightarrow> u8 list \<Rightarrow> int \<Rightarrow> nat \<Rightarrow> int \<Rightarrow> u8 list \<Rightarrow> (int \<times> u8 list \<times> 'n yaffsfs) option" where
  "do_read_loop fs handle buf pos nbyte totalRead out =
     (if nbyte = 0 then Some (totalRead, out @ buf, fs)
      else
        let n = rw_piece pos nbyte
        in do { (nRead, buf, fs) \<leftarrow>
                  (case yaffsfs_HandleToObject fs handle of
                     None \<Rightarrow> Some (0, buf, fs)
                   | Some (d, a) \<Rightarrow>
                       do { ((r, buf), fs) \<leftarrow> on_sys fs d (\<lambda>s. do { (r, b, s) \<leftarrow> yaffs_file_rd s a buf pos (int n);
                                                                 Some ((r, b), s) });
                            Some (r, buf, fs) });
                if nRead = int n then
                  do_read_loop fs handle (drop n buf) (pos + int n) (nbyte - n) (totalRead + int n) (out @ take n buf)
                else Some (totalRead + max 0 nRead, out @ buf, fs) })"
  by pat_completeness auto
termination
  by (relation "measure (\<lambda>(fs, h, buf, pos, nbyte, t, out). nbyte)") (auto simp: rw_piece_bounds)

declare do_read_loop.simps [simp del]

text \<open>The number of bytes, and the buffer with them; the position moves for \<^verbatim>\<open>yaffs_read\<close> only.\<close>

definition yaffsfs_do_read ::
    "'n yaffsfs \<Rightarrow> int \<Rightarrow> u8 list option \<Rightarrow> nat \<Rightarrow> int option \<Rightarrow> (int \<times> u8 list option \<times> 'n yaffsfs) option" where
  "yaffsfs_do_read fs handle vbuf nbyte offset =
     (case vbuf of None \<Rightarrow> Some (-1, None, yaffsfs_SetError (- EFAULT) fs)
      | Some buf \<Rightarrow>
          (case (yaffsfs_HandleToFileDes fs handle, yaffsfs_HandleToObject fs handle) of
             (Some f, Some (d, a)) \<Rightarrow>
               if \<not> fd_reading (fs_fds fs ! f) \<or> int nbyte > YAFFS_MAX_RW_SIZE
               then Some (-1, vbuf, yaffsfs_SetError (- EINVAL) fs)
               else
                 do { pos \<leftarrow> (case offset of Some off \<Rightarrow> Some off | None \<Rightarrow> position_of (fd_v (fs_fds fs ! f)));
                      (len, fs) \<leftarrow> on_sys fs d (\<lambda>s. yaffs_get_obj_length s a);
                      let nbyte = min nbyte (if len > pos then nat (len - pos) else 0);
                      let (r, fs) = yaffsfs_GetHandle fs handle;
                      (totalRead, out, fs) \<leftarrow>
                        (if pos < 0 \<or> pos > YAFFS_MAX_FILE_SIZE \<or> int nbyte > YAFFS_MAX_RW_SIZE \<or>
                            pos + int nbyte > YAFFS_MAX_FILE_SIZE
                         then Some (-1, buf, fs)
                         else do_read_loop fs handle buf pos nbyte 0 []);
                      fs \<leftarrow> yaffsfs_PutHandle fs handle;
                      let fs = (if offset \<noteq> None then fs
                                else if totalRead \<ge> 0 then upd_fd fs f (\<lambda>x. x\<lparr>fd_v := Position (pos + totalRead)\<rparr>)
                                else yaffsfs_SetError (- EINVAL) fs);
                      Some (if totalRead \<ge> 0 then totalRead else -1, Some out, fs) }
           | _ \<Rightarrow> Some (-1, vbuf, yaffsfs_SetError (- EBADF) fs)))"

definition yaffs_read where "yaffs_read fs handle buf nbyte = yaffsfs_do_read fs handle buf nbyte None"
definition yaffs_pread where "yaffs_pread fs handle buf nbyte offset = yaffsfs_do_read fs handle buf nbyte (Some offset)"

function do_write_loop ::
    "'n yaffsfs \<Rightarrow> int \<Rightarrow> u8 list \<Rightarrow> int \<Rightarrow> nat \<Rightarrow> int \<Rightarrow> 'n fs_result" where
  "do_write_loop fs handle buf pos nbyte totalWritten =
     (if nbyte = 0 then Some (totalWritten, fs)
      else
        let n = rw_piece pos nbyte
        in do { (nWritten, fs) \<leftarrow>
                  (case yaffsfs_HandleToObject fs handle of
                     None \<Rightarrow> Some (0, fs)
                   | Some (d, a) \<Rightarrow>
                       do { ro \<leftarrow> dev_read_only fs d;
                            if ro then Some (0, fs) else on_sys fs d (\<lambda>s. yaffs_wr_file s a buf pos (int n) False) });
                if nWritten = int n then
                  do_write_loop fs handle (drop n buf) (pos + int n) (nbyte - n) (totalWritten + int n)
                else
                  let totalWritten = totalWritten + max 0 nWritten
                  in if nWritten < 1 \<and> totalWritten < 1 then fs_fail ENOSPC fs else Some (totalWritten, fs) })"
  by pat_completeness auto
termination
  by (relation "measure (\<lambda>(fs, h, buf, pos, nbyte, t). nbyte)") (auto simp: rw_piece_bounds)

declare do_write_loop.simps [simp del]

definition yaffsfs_do_write :: "'n yaffsfs \<Rightarrow> int \<Rightarrow> u8 list option \<Rightarrow> nat \<Rightarrow> int option \<Rightarrow> 'n fs_result" where
  "yaffsfs_do_write fs handle vbuf nbyte offset =
     (case vbuf of None \<Rightarrow> fs_fail EFAULT fs
      | Some buf \<Rightarrow>
          (case (yaffsfs_HandleToFileDes fs handle, yaffsfs_HandleToObject fs handle) of
             (Some f, Some (d, a)) \<Rightarrow>
               if \<not> fd_writing (fs_fds fs ! f) then fs_fail EINVAL fs
               else
                 do { ro \<leftarrow> dev_read_only fs d;
                      if ro then fs_fail EROFS fs
                      else
                        do { (pos, fs) \<leftarrow>
                               (if fd_append (fs_fds fs ! f) then on_sys fs d (\<lambda>s. yaffs_get_obj_length s a)
                                else case offset of Some off \<Rightarrow> Some (off, fs)
                                | None \<Rightarrow> do { p \<leftarrow> position_of (fd_v (fs_fds fs ! f)); Some (p, fs) });
                             let (r, fs) = yaffsfs_GetHandle fs handle;
                             (totalWritten, fs) \<leftarrow>
                               (if pos < 0 \<or> pos > YAFFS_MAX_FILE_SIZE \<or> int nbyte > YAFFS_MAX_RW_SIZE \<or>
                                   pos + int nbyte > YAFFS_MAX_FILE_SIZE
                                then Some (-1, fs)
                                else do_write_loop fs handle buf pos nbyte 0);
                             fs \<leftarrow> yaffsfs_PutHandle fs handle;
                             let fs = (if offset \<noteq> None then fs
                                       else if totalWritten > 0
                                       then upd_fd fs f (\<lambda>x. x\<lparr>fd_v := Position (pos + totalWritten)\<rparr>)
                                       else yaffsfs_SetError (- EINVAL) fs);
                             Some (if totalWritten \<ge> 0 then totalWritten else -1, fs) } }
           | _ \<Rightarrow> fs_fail EBADF fs))"

definition yaffs_write where "yaffs_write fs fd buf nbyte = yaffsfs_do_write fs fd buf nbyte None"
definition yaffs_pwrite where "yaffs_pwrite fs fd buf nbyte offset = yaffsfs_do_write fs fd buf nbyte (Some offset)"

definition yaffs_truncate_reldir :: "'n yaffsfs \<Rightarrow> obj_ref option \<Rightarrow> u8 list option \<Rightarrow> int \<Rightarrow> 'n fs_result" where
  "yaffs_truncate_reldir fs reldir path new_size =
     on_existing fs reldir path True (\<lambda>fs (d, a).
       do { ro \<leftarrow> dev_read_only fs d;
            x \<leftarrow> fs_obj fs (d, a);
            if ro then fs_fail EROFS fs
            else if \<not> is_file x then fs_fail EISDIR fs
            else if new_size < 0 \<or> new_size > YAFFS_MAX_FILE_SIZE then fs_fail EINVAL fs
            else do { (result, fs) \<leftarrow> on_sys fs d (\<lambda>s. yaffs_resize_file s a new_size);
                      Some (if result \<noteq> 0 then 0 else -1, fs) } })"

definition yaffs_truncate_reldev where
  "yaffs_truncate_reldev fs dev path new_size = on_root fs dev (\<lambda>r. yaffs_truncate_reldir fs r path new_size)"
definition yaffs_truncate where "yaffs_truncate fs path new_size = yaffs_truncate_reldir fs None path new_size"

definition yaffs_ftruncate :: "'n yaffsfs \<Rightarrow> int \<Rightarrow> int \<Rightarrow> 'n fs_result" where
  "yaffs_ftruncate fs handle new_size =
     (case (yaffsfs_HandleToFileDes fs handle, yaffsfs_HandleToObject fs handle) of
        (Some f, Some (d, a)) \<Rightarrow>
          do { ro \<leftarrow> dev_read_only fs d;
               if \<not> fd_writing (fs_fds fs ! f) then fs_fail EINVAL fs
               else if ro then fs_fail EROFS fs
               else if new_size < 0 \<or> new_size > YAFFS_MAX_FILE_SIZE then fs_fail EINVAL fs
               else do { (result, fs) \<leftarrow> on_sys fs d (\<lambda>s. yaffs_resize_file s a new_size);
                         Some (if result \<noteq> 0 then 0 else -1, fs) } }
      | _ \<Rightarrow> fs_fail EBADF fs)"

text \<open>
  The new position, or -1.  It is stored in the union of the descriptor of a directory, too,
  where it takes the place of the search.
\<close>

definition yaffs_lseek :: "'n yaffsfs \<Rightarrow> int \<Rightarrow> int \<Rightarrow> nat \<Rightarrow> 'n fs_result" where
  "yaffs_lseek fs handle offset whence =
     (case (yaffsfs_HandleToFileDes fs handle, yaffsfs_HandleToObject fs handle) of
        (Some f, Some (d, a)) \<Rightarrow>
          if offset > YAFFS_MAX_FILE_SIZE then fs_fail EINVAL fs
          else
            do { (pos, fs) \<leftarrow>
                   (if whence = 0 then Some (if offset \<ge> 0 then offset else -1, fs)
                    else if whence = 1 then
                      do { p \<leftarrow> position_of (fd_v (fs_fds fs ! f));
                           Some (if p + offset \<ge> 0 then p + offset else -1, fs) }
                    else if whence = 2 then
                      do { (fSize, fs) \<leftarrow> on_sys fs d (\<lambda>s. yaffs_get_obj_length s a);
                           Some (if fSize \<ge> 0 \<and> fSize + offset \<ge> 0 then fSize + offset else -1, fs) }
                    else Some (-1, fs));
                 if pos \<ge> 0 \<and> pos \<le> YAFFS_MAX_FILE_SIZE
                 then Some (pos, upd_fd fs f (\<lambda>x. x\<lparr>fd_v := Position pos\<rparr>))
                 else fs_fail EINVAL fs }
      | _ \<Rightarrow> fs_fail EBADF fs)"

section \<open>Unlinking\<close>

definition yaffsfs_DoUnlink_reldir :: "'n yaffsfs \<Rightarrow> obj_ref option \<Rightarrow> u8 list option \<Rightarrow> bool \<Rightarrow> 'n fs_result" where
  "yaffsfs_DoUnlink_reldir fs reldir path isDirectory =
     path_checked fs path (\<lambda>p.
       do { (o', dd, nd, l, fs) \<leftarrow> yaffsfs_FindObject fs reldir p False;
            (r, notDir, lp, fs) \<leftarrow> yaffsfs_FindDirectory fs reldir p;
            if r = None \<and> notDir then fs_fail ENOTDIR fs
            else if lp then fs_fail ELOOP fs
            else case r of None \<Rightarrow> fs_fail ENOENT fs
            | Some (dir, name) \<Rightarrow>
                if name = [46] then fs_fail EINVAL fs
                else case o' of None \<Rightarrow> fs_fail ENOENT fs
                | Some (d, a) \<Rightarrow>
                    do { ro \<leftarrow> dev_read_only fs d;
                         x \<leftarrow> fs_obj fs (d, a);
                         root \<leftarrow> map_option root_dir (sys_of fs d);
                         if ro then fs_fail EROFS fs
                         else if \<not> isDirectory \<and> is_dir x then fs_fail EISDIR fs
                         else if isDirectory \<and> \<not> is_dir x then fs_fail ENOTDIR fs
                         else if isDirectory \<and> Some a = root then fs_fail EBUSY fs
                         else
                           do { (result, fs) \<leftarrow> on_sys fs (fst dir) (\<lambda>s. yaffs_unlinker s (snd dir) name);
                                Some (if result = YAFFS_FAIL then -1 else 0,
                                      if result = YAFFS_FAIL \<and> isDirectory then yaffsfs_SetError (- ENOTEMPTY) fs
                                      else fs) } } })"

definition yaffs_unlink_reldir where "yaffs_unlink_reldir fs reldir path = yaffsfs_DoUnlink_reldir fs reldir path False"
definition yaffs_unlink_reldev where
  "yaffs_unlink_reldev fs dev path = on_root fs dev (\<lambda>r. yaffsfs_DoUnlink_reldir fs r path False)"
definition yaffs_unlink where "yaffs_unlink fs path = yaffs_unlink_reldir fs None path"

definition yaffs_funlink :: "'n yaffsfs \<Rightarrow> int \<Rightarrow> 'n fs_result" where
  "yaffs_funlink fs fd =
     (case yaffsfs_HandleToObject fs fd of None \<Rightarrow> fs_fail EBADF fs
      | Some (d, a) \<Rightarrow>
          do { s \<leftarrow> sys_of fs d;
               full \<leftarrow> yaffs_is_non_empty_dir s (Some a);
               if read_only (sdev s) then fs_fail EROFS fs
               else if full then fs_fail ENOTEMPTY fs
               else if Some a = root_dir s then fs_fail EBUSY fs
               else do { (r, fs) \<leftarrow> on_sys fs d (\<lambda>s. yaffs_unlink_obj s (Some a));
                         Some (if r = YAFFS_OK then 0 else -1, fs) } })"

text \<open>The flags of a descriptor.\<close>

definition yaffs_fgetfl :: "'n yaffsfs \<Rightarrow> int \<Rightarrow> int \<times> u32 option \<times> 'n yaffsfs" where
  "yaffs_fgetfl fs fd =
     (case yaffsfs_HandleToFileDes fs fd of None \<Rightarrow> (-1, None, yaffsfs_SetError (- EINVAL) fs)
      | Some f \<Rightarrow>
          let x = fs_fds fs ! f
          in (0, Some (if fd_reading x \<and> fd_writing x then O_RDWR else if fd_writing x then O_WRONLY else 0), fs))"

section \<open>Renaming\<close>

text \<open>Whether \<open>o'\<close> is \<open>r\<close> or above it; the way up may not end.\<close>

partial_function (option) is_above :: "'n yaffsfs \<Rightarrow> obj_ref \<Rightarrow> obj_ref option \<Rightarrow> bool option" where
  "is_above fs o' r =
     (case r of None \<Rightarrow> Some False
      | Some p \<Rightarrow> if p = o' then Some True else do { up \<leftarrow> parent_of fs p; is_above fs o' up })"

definition rename_problem ::
    "'n yaffsfs \<Rightarrow> (obj_ref \<times> u8 list option) option \<Rightarrow> obj_ref option \<Rightarrow> obj_ref option \<Rightarrow> obj_ref option \<Rightarrow>
     int option option" where
  "rename_problem fs old newdir o' newobj =
     (case (old, newdir, o') of
        (Some (olddir, oldname), Some nd, Some (d, a)) \<Rightarrow>
          if oldname = Some [46] then Some (Some EINVAL)
          else
            do { ro \<leftarrow> dev_read_only fs d;
                 x \<leftarrow> fs_obj fs (d, a);
                 y \<leftarrow> (case newobj of None \<Rightarrow> Some None | Some r \<Rightarrow> map_option Some (fs_obj fs r));
                 if ro then Some (Some EROFS)
                 else if (case y of None \<Rightarrow> False | Some y \<Rightarrow> \<not> is_dir x \<and> is_dir y) then Some (Some EISDIR)
                 else if (case y of None \<Rightarrow> False | Some y \<Rightarrow> is_dir x \<and> \<not> is_dir y) then Some (Some ENOTDIR)
                 else if (case y of None \<Rightarrow> False | Some y \<Rightarrow> first_child y \<noteq> None) then Some (Some ENOTEMPTY)
                 else if fst olddir \<noteq> fst nd then Some (Some EXDEV)
                 else if is_dir x then
                   do { above \<leftarrow> is_above fs (d, a) (Some nd); Some (if above then Some EINVAL else None) }
                 else Some None }
      | (Some (olddir, Some n), _, _) \<Rightarrow> Some (Some (if n = [46] then EINVAL else ENOENT))
      | _ \<Rightarrow> Some (Some ENOENT))"

definition yaffs_rename_reldir :: "'n yaffsfs \<Rightarrow> obj_ref option \<Rightarrow> u8 list option \<Rightarrow> u8 list option \<Rightarrow> 'n fs_result" where
  "yaffs_rename_reldir fs reldir oldPath newPath =
     (if oldPath = None \<or> newPath = None then fs_fail EFAULT fs
      else if yaffsfs_CheckPath (the oldPath) < 0 \<or> yaffsfs_CheckPath (the newPath) < 0 then fs_fail ENAMETOOLONG fs
      else
        do { (r, alt, fs) \<leftarrow> yaffsfs_alt_dir_path fs (the newPath);
             if r < 0 then fs_fail ENOMEM fs
             else
               do { let newPath = (case alt of None \<Rightarrow> the newPath | Some q \<Rightarrow> q);
                    (old, notOldDir, oldLoop, fs) \<leftarrow> yaffsfs_FindDirectory fs reldir (the oldPath);
                    (new, notNewDir, newLoop, fs) \<leftarrow> yaffsfs_FindDirectory fs reldir newPath;
                    (o', d1, n1, l1, fs) \<leftarrow> yaffsfs_FindObject fs reldir (the oldPath) False;
                    (newobj, d2, n2, l2, fs) \<leftarrow> yaffsfs_FindObject fs reldir newPath False;
                    let old = map_option (\<lambda>(d, n). (d, if Some d = o' then None else Some n)) old;
                    if (old = None \<and> notOldDir) \<or> (new = None \<and> notNewDir) then fs_fail ENOTDIR fs
                    else if oldLoop \<or> newLoop then fs_fail ELOOP fs
                    else
                      do { problem \<leftarrow> rename_problem fs old (map_option fst new) o' newobj;
                           case problem of Some e \<Rightarrow> fs_fail e fs
                           | None \<Rightarrow>
                               do { (olddir, oldname) \<leftarrow> old;
                                    (newdir, newname) \<leftarrow> new;
                                    (result, fs) \<leftarrow> on_sys fs (fst olddir)
                                      (\<lambda>s. yaffs_rename_obj s (Some (snd olddir)) oldname (Some (snd newdir)) newname);
                                    Some (if result = YAFFS_FAIL then -1 else 0, fs) } } } })"

definition yaffs_rename_reldev where
  "yaffs_rename_reldev fs dev oldPath newPath = on_root fs dev (\<lambda>r. yaffs_rename_reldir fs r oldPath newPath)"
definition yaffs_rename where "yaffs_rename fs oldPath newPath = yaffs_rename_reldir fs None oldPath newPath"

end
