(* ===== verification/Yaffs_Fs_Names.thy ===== *)
theory Yaffs_Fs_Names
  imports Yaffs_Fs_Ops
begin

text \<open>
  direct/yaffsfs.c: the attributes of objects, and new directories and links.  Buffers and names
  of attributes are there (not \<^verbatim>\<open>NULL\<close>).
\<close>

section \<open>Status\<close>

record yaffs_stat =
  st_ino :: u32
  st_mode :: u32
  st_nlink :: int
  st_rdev :: u32
  st_size :: int
  st_blksize :: int
  st_blocks :: int
  st_atime :: u64
  st_mtime :: u64
  st_ctime :: u64

definition S_IFMT :: u32 where "S_IFMT = 0xf000"
definition S_IFLNK :: u32 where "S_IFLNK = 0xa000"
definition S_IFREG :: u32 where "S_IFREG = 0x8000"

definition type_bits :: "yaffs_obj \<Rightarrow> u32" where
  "type_bits x = (case o_variant x of DirVar c d \<Rightarrow> S_IFDIR | SymlinkVar al \<Rightarrow> S_IFLNK | FileVar f \<Rightarrow> S_IFREG | _ \<Rightarrow> 0)"

definition yaffsfs_DoStat :: "'n yaffsfs \<Rightarrow> obj_ref option \<Rightarrow> (int \<times> yaffs_stat option \<times> 'n yaffsfs) option" where
  "yaffsfs_DoStat fs o' =
     do { (o', fs) \<leftarrow> equivalent_obj fs o';
          case o' of None \<Rightarrow> Some (-1, None, fs)
          | Some (d, a) \<Rightarrow>
              do { x \<leftarrow> fs_obj fs (d, a);
                   s \<leftarrow> sys_of fs d;
                   links \<leftarrow> yaffs_get_obj_link_count s a;
                   (len, fs) \<leftarrow> on_sys fs d (\<lambda>s. yaffs_get_obj_length s a);
                   let blk = int (data_bytes_per_chunk (sdev s));
                   if blk = 0 then None
                   else
                     Some (0, Some \<lparr>st_ino = o_obj_id x, st_mode = (o_yst_mode x AND NOT S_IFMT) OR type_bits x,
                            st_nlink = links, st_rdev = o_yst_rdev x, st_size = len, st_blksize = blk,
                            st_blocks = (len + blk - 1) div blk, st_atime = o_yst_atime x, st_mtime = o_yst_mtime x,
                            st_ctime = o_yst_ctime x\<rparr>, fs) } }"

text \<open>
  The functions that give something back besides the result; \<open>none\<close> is given back with an error.
\<close>

definition get_existing ::
    "'n yaffsfs \<Rightarrow> obj_ref option \<Rightarrow> u8 list option \<Rightarrow> bool \<Rightarrow> 'a \<Rightarrow>
     ('n yaffsfs \<Rightarrow> obj_ref \<Rightarrow> (int \<times> 'a \<times> 'n yaffsfs) option) \<Rightarrow> (int \<times> 'a \<times> 'n yaffsfs) option" where
  "get_existing fs reldir path follow none f =
     (case path_problem path of Some e \<Rightarrow> Some (-1, none, yaffsfs_SetError (- e) fs)
      | None \<Rightarrow>
          do { (r, fs) \<leftarrow> find_existing fs reldir (the path) follow;
               case r of Inl e \<Rightarrow> Some (-1, none, yaffsfs_SetError (- e) fs) | Inr o' \<Rightarrow> f fs o' })"

definition on_handle ::
    "'n yaffsfs \<Rightarrow> int \<Rightarrow> ('n yaffsfs \<Rightarrow> obj_ref \<Rightarrow> 'n fs_result) \<Rightarrow> 'n fs_result" where
  "on_handle fs fd f = (case yaffsfs_HandleToObject fs fd of None \<Rightarrow> fs_fail EBADF fs | Some o' \<Rightarrow> f fs o')"

definition get_handle ::
    "'n yaffsfs \<Rightarrow> int \<Rightarrow> 'a \<Rightarrow> ('n yaffsfs \<Rightarrow> obj_ref \<Rightarrow> (int \<times> 'a \<times> 'n yaffsfs) option) \<Rightarrow>
     (int \<times> 'a \<times> 'n yaffsfs) option" where
  "get_handle fs fd none f =
     (case yaffsfs_HandleToObject fs fd of None \<Rightarrow> Some (-1, none, yaffsfs_SetError (- EBADF) fs) | Some o' \<Rightarrow> f fs o')"

definition get_root :: "'n yaffsfs \<Rightarrow> nat option \<Rightarrow> (obj_ref option \<Rightarrow> (int \<times> 'a \<times> 'n yaffsfs) option) \<Rightarrow>
     (int \<times> 'a \<times> 'n yaffsfs) option" where
  "get_root fs dev f = do { r \<leftarrow> ROOT_DIR fs dev; f r }"

definition yaffsfs_DoStatOrLStat_reldir ::
    "'n yaffsfs \<Rightarrow> obj_ref option \<Rightarrow> u8 list option \<Rightarrow> bool \<Rightarrow> (int \<times> yaffs_stat option \<times> 'n yaffsfs) option" where
  "yaffsfs_DoStatOrLStat_reldir fs reldir path doLStat =
     get_existing fs reldir path (\<not> doLStat) None (\<lambda>fs r. yaffsfs_DoStat fs (Some r))"

definition yaffs_stat_reldir where "yaffs_stat_reldir fs reldir path = yaffsfs_DoStatOrLStat_reldir fs reldir path False"
definition yaffs_lstat_reldir where "yaffs_lstat_reldir fs reldir path = yaffsfs_DoStatOrLStat_reldir fs reldir path True"
definition yaffs_stat_reldev where
  "yaffs_stat_reldev fs dev path = get_root fs dev (\<lambda>r. yaffsfs_DoStatOrLStat_reldir fs r path False)"
definition yaffs_lstat_reldev where
  "yaffs_lstat_reldev fs dev path = get_root fs dev (\<lambda>r. yaffsfs_DoStatOrLStat_reldir fs r path True)"
definition yaffs_stat_path where "yaffs_stat_path fs path = yaffs_stat_reldir fs None path"
definition yaffs_lstat where "yaffs_lstat fs path = yaffs_lstat_reldir fs None path"

definition yaffs_fstat :: "'n yaffsfs \<Rightarrow> int \<Rightarrow> (int \<times> yaffs_stat option \<times> 'n yaffsfs) option" where
  "yaffs_fstat fs fd = get_handle fs fd None (\<lambda>fs r. yaffsfs_DoStat fs (Some r))"

section \<open>Times\<close>

text \<open>The times of access and modification, or the current time without a buffer.\<close>

definition yaffsfs_DoUtime :: "'n yaffsfs \<Rightarrow> obj_ref option \<Rightarrow> (u64 \<times> u64) option \<Rightarrow> 'n fs_result" where
  "yaffsfs_DoUtime fs o' buf =
     do { (o', fs) \<leftarrow> equivalent_obj fs o';
          case o' of None \<Rightarrow> Some (-1, fs)
          | Some (d, a) \<Rightarrow>
              do { ro \<leftarrow> dev_read_only fs d;
                   if ro then fs_fail EROFS fs
                   else
                     do { (result, fs) \<leftarrow> on_sys fs d (\<lambda>s.
                            do { let ((actime, modtime), s) =
                                   (case buf of Some b \<Rightarrow> (b, s) | None \<Rightarrow> let (t, s) = current_time s in ((t, t), s));
                                 s \<leftarrow> upd_obj s a (\<lambda>x. x\<lparr>o_yst_atime := actime, o_yst_mtime := modtime, o_dirty := True\<rparr>);
                                 yaffs_flush_file s a False False False });
                          Some (if result = YAFFS_OK then 0 else -1, fs) } } }"

definition yaffs_utime_reldir :: "'n yaffsfs \<Rightarrow> obj_ref option \<Rightarrow> u8 list option \<Rightarrow> (u64 \<times> u64) option \<Rightarrow> 'n fs_result" where
  "yaffs_utime_reldir fs reldir path buf =
     on_existing fs reldir path False (\<lambda>fs r. yaffsfs_DoUtime fs (Some r) buf)"
definition yaffs_utime_reldev where
  "yaffs_utime_reldev fs dev path buf = on_root fs dev (\<lambda>r. yaffs_utime_reldir fs r path buf)"
definition yaffs_utime where "yaffs_utime fs path buf = yaffs_utime_reldir fs None path buf"
definition yaffs_futime :: "'n yaffsfs \<Rightarrow> int \<Rightarrow> (u64 \<times> u64) option \<Rightarrow> 'n fs_result" where
  "yaffs_futime fs fd buf = on_handle fs fd (\<lambda>fs r. yaffsfs_DoUtime fs (Some r) buf)"

section \<open>Extended attributes\<close>

text \<open>A negative result is an error number.\<close>

definition xattr_result :: "int \<Rightarrow> 'n yaffsfs \<Rightarrow> int \<times> 'n yaffsfs" where
  "xattr_result r fs = (if r < 0 then (-1, yaffsfs_SetError r fs) else (r, fs))"

definition set_xattr_of :: "u8 list \<Rightarrow> u8 list \<Rightarrow> u32 \<Rightarrow> 'n yaffsfs \<Rightarrow> obj_ref \<Rightarrow> 'n fs_result" where
  "set_xattr_of name data flags fs r =
     do { (v, fs) \<leftarrow> on_sys fs (fst r) (\<lambda>s. yaffs_set_xattrib s (snd r) name data (has_flag flags 1) (has_flag flags 2));
          Some (xattr_result v fs) }"

definition remove_xattr_of :: "u8 list \<Rightarrow> 'n yaffsfs \<Rightarrow> obj_ref \<Rightarrow> 'n fs_result" where
  "remove_xattr_of name fs r =
     do { (v, fs) \<leftarrow> on_sys fs (fst r) (\<lambda>s. yaffs_remove_xattrib s (snd r) name);
          Some (xattr_result v fs) }"

definition fetch_xattr_of ::
    "('n yaffs_sys \<Rightarrow> nat \<Rightarrow> (int \<times> u8 list option \<times> 'n yaffs_sys) option) \<Rightarrow> 'n yaffsfs \<Rightarrow> obj_ref \<Rightarrow>
     (int \<times> u8 list option \<times> 'n yaffsfs) option" where
  "fetch_xattr_of f fs r =
     do { ((v, data), fs) \<leftarrow> on_sys fs (fst r) (\<lambda>s. do { (v, data, s) \<leftarrow> f s (snd r); Some ((v, data), s) });
          let (v, fs) = xattr_result v fs;
          Some (v, data, fs) }"

definition yaffs_do_setxattr_reldir ::
    "'n yaffsfs \<Rightarrow> obj_ref option \<Rightarrow> u8 list option \<Rightarrow> u8 list \<Rightarrow> u8 list \<Rightarrow> u32 \<Rightarrow> bool \<Rightarrow> 'n fs_result" where
  "yaffs_do_setxattr_reldir fs reldir path name data flags follow =
     on_existing fs reldir path follow (set_xattr_of name data flags)"

definition yaffs_setxattr_reldir where
  "yaffs_setxattr_reldir fs reldir path name data flags = yaffs_do_setxattr_reldir fs reldir path name data flags True"
definition yaffs_setxattr_reldev where
  "yaffs_setxattr_reldev fs dev path name data flags =
     on_root fs dev (\<lambda>r. yaffs_setxattr_reldir fs r path name data flags)"
definition yaffs_setxattr where
  "yaffs_setxattr fs path name data flags = yaffs_setxattr_reldir fs None path name data flags"
definition yaffs_lsetxattr_reldir where
  "yaffs_lsetxattr_reldir fs reldir path name data flags = yaffs_do_setxattr_reldir fs reldir path name data flags False"
definition yaffs_lsetxattr_reldev where
  "yaffs_lsetxattr_reldev fs dev path name data flags =
     on_root fs dev (\<lambda>r. yaffs_lsetxattr_reldir fs r path name data flags)"
definition yaffs_lsetxattr where
  "yaffs_lsetxattr fs path name data flags = yaffs_lsetxattr_reldir fs None path name data flags"
definition yaffs_fsetxattr :: "'n yaffsfs \<Rightarrow> int \<Rightarrow> u8 list \<Rightarrow> u8 list \<Rightarrow> u32 \<Rightarrow> 'n fs_result" where
  "yaffs_fsetxattr fs fd name data flags = on_handle fs fd (set_xattr_of name data flags)"

definition yaffs_do_getxattr_reldir ::
    "'n yaffsfs \<Rightarrow> obj_ref option \<Rightarrow> u8 list option \<Rightarrow> u8 list \<Rightarrow> int \<Rightarrow> bool \<Rightarrow>
     (int \<times> u8 list option \<times> 'n yaffsfs) option" where
  "yaffs_do_getxattr_reldir fs reldir path name bsize follow =
     get_existing fs reldir path follow None (fetch_xattr_of (\<lambda>s a. yaffs_get_xattrib s a name bsize))"

definition yaffs_getxattr_reldir where
  "yaffs_getxattr_reldir fs reldir path name bsize = yaffs_do_getxattr_reldir fs reldir path name bsize True"
definition yaffs_getxattr_reldev where
  "yaffs_getxattr_reldev fs dev path name bsize = get_root fs dev (\<lambda>r. yaffs_getxattr_reldir fs r path name bsize)"
definition yaffs_getxattr where
  "yaffs_getxattr fs path name bsize = yaffs_getxattr_reldir fs None path name bsize"
definition yaffs_lgetxattr_reldir where
  "yaffs_lgetxattr_reldir fs reldir path name bsize = yaffs_do_getxattr_reldir fs reldir path name bsize False"
definition yaffs_lgetxattr_reldev where
  "yaffs_lgetxattr_reldev fs dev path name bsize = get_root fs dev (\<lambda>r. yaffs_lgetxattr_reldir fs r path name bsize)"
definition yaffs_lgetxattr where
  "yaffs_lgetxattr fs path name bsize = yaffs_lgetxattr_reldir fs None path name bsize"
definition yaffs_fgetxattr :: "'n yaffsfs \<Rightarrow> int \<Rightarrow> u8 list \<Rightarrow> int \<Rightarrow> (int \<times> u8 list option \<times> 'n yaffsfs) option" where
  "yaffs_fgetxattr fs fd name bsize =
     get_handle fs fd None (fetch_xattr_of (\<lambda>s a. yaffs_get_xattrib s a name bsize))"

definition yaffs_do_listxattr_reldir ::
    "'n yaffsfs \<Rightarrow> obj_ref option \<Rightarrow> u8 list option \<Rightarrow> int \<Rightarrow> bool \<Rightarrow> (int \<times> u8 list option \<times> 'n yaffsfs) option" where
  "yaffs_do_listxattr_reldir fs reldir path bsize follow =
     get_existing fs reldir path follow None (fetch_xattr_of (\<lambda>s a. yaffs_list_xattrib s a bsize))"

definition yaffs_listxattr_reldir where
  "yaffs_listxattr_reldir fs reldir path bsize = yaffs_do_listxattr_reldir fs reldir path bsize True"
definition yaffs_listxattr_reldev where
  "yaffs_listxattr_reldev fs dev path bsize = get_root fs dev (\<lambda>r. yaffs_listxattr_reldir fs r path bsize)"
definition yaffs_listxattr where "yaffs_listxattr fs path bsize = yaffs_listxattr_reldir fs None path bsize"
definition yaffs_llistxattr_reldir where
  "yaffs_llistxattr_reldir fs reldir path bsize = yaffs_do_listxattr_reldir fs reldir path bsize False"
definition yaffs_llistxattr_reldev where
  "yaffs_llistxattr_reldev fs dev path bsize = get_root fs dev (\<lambda>r. yaffs_llistxattr_reldir fs r path bsize)"
definition yaffs_llistxattr where "yaffs_llistxattr fs path bsize = yaffs_llistxattr_reldir fs None path bsize"
definition yaffs_flistxattr :: "'n yaffsfs \<Rightarrow> int \<Rightarrow> int \<Rightarrow> (int \<times> u8 list option \<times> 'n yaffsfs) option" where
  "yaffs_flistxattr fs fd bsize = get_handle fs fd None (fetch_xattr_of (\<lambda>s a. yaffs_list_xattrib s a bsize))"

definition yaffs_do_removexattr_reldir ::
    "'n yaffsfs \<Rightarrow> obj_ref option \<Rightarrow> u8 list option \<Rightarrow> u8 list \<Rightarrow> bool \<Rightarrow> 'n fs_result" where
  "yaffs_do_removexattr_reldir fs reldir path name follow =
     on_existing fs reldir path follow (remove_xattr_of name)"

definition yaffs_removexattr_reldir where
  "yaffs_removexattr_reldir fs reldir path name = yaffs_do_removexattr_reldir fs reldir path name True"
definition yaffs_removexattr_reldev where
  "yaffs_removexattr_reldev fs dev path name = on_root fs dev (\<lambda>r. yaffs_removexattr_reldir fs r path name)"
definition yaffs_removexattr where
  "yaffs_removexattr fs path name = yaffs_removexattr_reldir fs None path name"
definition yaffs_lremovexattr_reldir where
  "yaffs_lremovexattr_reldir fs reldir path name = yaffs_do_removexattr_reldir fs reldir path name False"
definition yaffs_lremovexattr_reldev where
  "yaffs_lremovexattr_reldev fs dev path name = on_root fs dev (\<lambda>r. yaffs_lremovexattr_reldir fs r path name)"
definition yaffs_lremovexattr where
  "yaffs_lremovexattr fs path name = yaffs_lremovexattr_reldir fs None path name"
definition yaffs_fremovexattr :: "'n yaffsfs \<Rightarrow> int \<Rightarrow> u8 list \<Rightarrow> 'n fs_result" where
  "yaffs_fremovexattr fs fd name = on_handle fs fd (remove_xattr_of name)"

section \<open>Permissions\<close>

definition yaffsfs_DoChMod :: "'n yaffsfs \<Rightarrow> obj_ref option \<Rightarrow> u32 \<Rightarrow> 'n fs_result" where
  "yaffsfs_DoChMod fs o' mode =
     do { (o', fs) \<leftarrow> equivalent_obj fs o';
          case o' of None \<Rightarrow> Some (-1, fs)
          | Some (d, a) \<Rightarrow>
              do { (result, fs) \<leftarrow> on_sys fs d (\<lambda>s.
                     do { s \<leftarrow> upd_obj s a (\<lambda>x. x\<lparr>o_yst_mode := mode, o_dirty := True\<rparr>);
                          yaffs_flush_file s a False False False });
                   Some (if result = YAFFS_OK then 0 else -1, fs) } }"

definition R_OK :: u32 where "R_OK = 4"
definition W_OK :: u32 where "W_OK = 2"
definition X_OK :: u32 where "X_OK = 1"

definition yaffs_access_reldir :: "'n yaffsfs \<Rightarrow> obj_ref option \<Rightarrow> u8 list option \<Rightarrow> u32 \<Rightarrow> 'n fs_result" where
  "yaffs_access_reldir fs reldir path amode =
     path_checked fs path (\<lambda>p.
       if has_flag amode (NOT (R_OK OR W_OK OR X_OK)) then fs_fail EINVAL fs
       else on_existing fs reldir path True (\<lambda>fs r.
         do { ro \<leftarrow> dev_read_only fs (fst r);
              x \<leftarrow> fs_obj fs r;
              if has_flag amode W_OK \<and> ro then fs_fail EROFS fs
              else if (has_flag amode R_OK \<and> \<not> has_flag (o_yst_mode x) S_IRUSR) \<or>
                      (has_flag amode W_OK \<and> \<not> has_flag (o_yst_mode x) S_IWUSR) \<or>
                      (has_flag amode X_OK \<and> \<not> has_flag (o_yst_mode x) S_IXUSR)
              then fs_fail EACCES fs
              else Some (0, fs) }))"
definition yaffs_access_reldev where
  "yaffs_access_reldev fs dev path amode = on_root fs dev (\<lambda>r. yaffs_access_reldir fs r path amode)"
definition yaffs_access where "yaffs_access fs path amode = yaffs_access_reldir fs None path amode"

definition yaffs_chmod_reldir :: "'n yaffsfs \<Rightarrow> obj_ref option \<Rightarrow> u8 list option \<Rightarrow> u32 \<Rightarrow> 'n fs_result" where
  "yaffs_chmod_reldir fs reldir path mode =
     path_checked fs path (\<lambda>p.
       if has_flag mode (NOT 0x1ff) then fs_fail EINVAL fs
       else on_existing fs reldir path True (\<lambda>fs r.
         do { ro \<leftarrow> dev_read_only fs (fst r);
              if ro then fs_fail EROFS fs else yaffsfs_DoChMod fs (Some r) mode }))"
definition yaffs_chmod_reldev where
  "yaffs_chmod_reldev fs dev path mode = on_root fs dev (\<lambda>r. yaffs_chmod_reldir fs r path mode)"
definition yaffs_chmod where "yaffs_chmod fs path mode = yaffs_chmod_reldir fs None path mode"

definition yaffs_fchmod :: "'n yaffsfs \<Rightarrow> int \<Rightarrow> u32 \<Rightarrow> 'n fs_result" where
  "yaffs_fchmod fs fd mode =
     (if has_flag mode (NOT 0x1ff) then fs_fail EINVAL fs
      else on_handle fs fd (\<lambda>fs r.
        do { ro \<leftarrow> dev_read_only fs (fst r);
             if ro then fs_fail EROFS fs else yaffsfs_DoChMod fs (Some r) mode }))"

section \<open>Directories\<close>

definition yaffs_mkdir_reldir :: "'n yaffsfs \<Rightarrow> obj_ref option \<Rightarrow> u8 list option \<Rightarrow> u32 \<Rightarrow> 'n fs_result" where
  "yaffs_mkdir_reldir fs reldir path mode =
     path_checked fs path (\<lambda>p.
       do { (r, alt, fs) \<leftarrow> yaffsfs_alt_dir_path fs p;
            if r < 0 then fs_fail ENOMEM fs
            else
              do { let p = (case alt of None \<Rightarrow> p | Some q \<Rightarrow> q);
                   (parent, notDir, lp, fs) \<leftarrow> yaffsfs_FindDirectory fs reldir p;
                   if parent = None \<and> notDir then fs_fail ENOTDIR fs
                   else if lp then fs_fail ELOOP fs
                   else case parent of None \<Rightarrow> fs_fail ENOENT fs
                   | Some ((d, a), name) \<Rightarrow>
                       do { many \<leftarrow> yaffsfs_TooManyObjects fs d;
                            ro \<leftarrow> dev_read_only fs d;
                            if many then fs_fail ENFILE fs
                            else if name = [] then fs_fail EEXIST fs
                            else if ro then fs_fail EROFS fs
                            else
                              do { (dir, fs) \<leftarrow> on_sys fs d (\<lambda>s. yaffs_create_dir s a name mode 0 0);
                                   if dir \<noteq> None then Some (0, fs)
                                   else
                                     do { (there, fs) \<leftarrow> look_up fs (d, a) name;
                                          fs_fail (if there \<noteq> None then EEXIST else ENOSPC) fs } } } } })"
definition yaffs_mkdir_reldev where
  "yaffs_mkdir_reldev fs dev path mode = on_root fs dev (\<lambda>r. yaffs_mkdir_reldir fs r path mode)"
definition yaffs_mkdir where "yaffs_mkdir fs path mode = yaffs_mkdir_reldir fs None path mode"

definition yaffs_rmdir_reldir :: "'n yaffsfs \<Rightarrow> obj_ref option \<Rightarrow> u8 list option \<Rightarrow> 'n fs_result" where
  "yaffs_rmdir_reldir fs reldir path =
     path_checked fs path (\<lambda>p.
       do { (r, alt, fs) \<leftarrow> yaffsfs_alt_dir_path fs p;
            if r < 0 then fs_fail ENOMEM fs
            else yaffsfs_DoUnlink_reldir fs reldir (Some (case alt of None \<Rightarrow> p | Some q \<Rightarrow> q)) True })"
definition yaffs_rmdir_reldev where
  "yaffs_rmdir_reldev fs dev path = on_root fs dev (\<lambda>r. yaffs_rmdir_reldir fs r path)"
definition yaffs_rmdir where "yaffs_rmdir fs path = yaffs_rmdir_reldir fs None path"

section \<open>Links\<close>

definition yaffs_symlink_reldir :: "'n yaffsfs \<Rightarrow> obj_ref option \<Rightarrow> u8 list option \<Rightarrow> u8 list option \<Rightarrow> 'n fs_result" where
  "yaffs_symlink_reldir fs reldir oldpath newpath =
     (if oldpath = None \<or> newpath = None then fs_fail EFAULT fs
      else if yaffsfs_CheckPath (the newpath) < 0 \<or> yaffsfs_CheckPath (the oldpath) < 0 then fs_fail ENAMETOOLONG fs
      else
        do { (parent, notDir, lp, fs) \<leftarrow> yaffsfs_FindDirectory fs reldir (the newpath);
             if parent = None \<and> notDir then fs_fail ENOTDIR fs
             else if lp then fs_fail ELOOP fs
             else case parent of None \<Rightarrow> fs_fail ENOENT fs
             | Some ((d, a), name) \<Rightarrow>
                 if name = [] then fs_fail ENOENT fs
                 else
                   do { many \<leftarrow> yaffsfs_TooManyObjects fs d;
                        ro \<leftarrow> dev_read_only fs d;
                        if many then fs_fail ENFILE fs
                        else if ro then fs_fail EROFS fs
                        else
                          do { (o', fs) \<leftarrow> on_sys fs d (\<lambda>s. yaffs_create_symlink s a name 0 0 0 (the oldpath));
                               if o' \<noteq> None then Some (0, fs)
                               else
                                 do { (there, dir, nd, l, fs) \<leftarrow> yaffsfs_FindObject fs reldir (the newpath) False;
                                      fs_fail (if there \<noteq> None then EEXIST else ENOSPC) fs } } } })"
definition yaffs_symlink where "yaffs_symlink fs oldpath newpath = yaffs_symlink_reldir fs None oldpath newpath"

text \<open>The buffer with the alias; a size of 0 is taken for a very large one by the copy.\<close>

definition yaffs_readlink_reldir ::
    "'n yaffsfs \<Rightarrow> obj_ref option \<Rightarrow> u8 list option \<Rightarrow> u8 list \<Rightarrow> (int \<times> u8 list \<times> 'n yaffsfs) option" where
  "yaffs_readlink_reldir fs reldir path buf =
     (case path of None \<Rightarrow> Some (-1, buf, yaffsfs_SetError (- EFAULT) fs)
      | Some p \<Rightarrow>
          do { (r, fs) \<leftarrow> find_existing fs reldir p False;
               case r of Inl e \<Rightarrow> Some (-1, buf, yaffsfs_SetError (- e) fs)
               | Inr o' \<Rightarrow>
                   do { x \<leftarrow> fs_obj fs o';
                        case o_variant x of
                          SymlinkVar al \<Rightarrow>
                            do { al \<leftarrow> al;
                                 if buf = [] then None
                                 else do { b \<leftarrow> strncpy (replicate (length buf) 0) al (length buf - 1); Some (0, b, fs) } }
                        | _ \<Rightarrow> Some (-1, buf, yaffsfs_SetError (- EINVAL) fs) } })"
definition yaffs_readlink where "yaffs_readlink fs path buf = yaffs_readlink_reldir fs None path buf"

definition yaffs_link_reldir :: "'n yaffsfs \<Rightarrow> obj_ref option \<Rightarrow> u8 list option \<Rightarrow> u8 list option \<Rightarrow> 'n fs_result" where
  "yaffs_link_reldir fs reldir oldpath linkpath =
     (if oldpath = None \<or> linkpath = None then fs_fail EFAULT fs
      else if yaffsfs_CheckPath (the linkpath) < 0 \<or> yaffsfs_CheckPath (the oldpath) < 0 then fs_fail ENAMETOOLONG fs
      else
        do { (o', obj_dir, notDirObj, objLoop, fs) \<leftarrow> yaffsfs_FindObject fs reldir (the oldpath) True;
             (lnk, ld, n1, l1, fs) \<leftarrow> yaffsfs_FindObject fs reldir (the linkpath) False;
             (lnk_dir, notDirLnk, lnkLoop, fs) \<leftarrow> yaffsfs_FindDirectory fs reldir (the linkpath);
             if (obj_dir = None \<and> notDirObj) \<or> (lnk_dir = None \<and> notDirLnk) then fs_fail ENOTDIR fs
             else if objLoop \<or> lnkLoop then fs_fail ELOOP fs
             else case (obj_dir, lnk_dir, o') of
               (Some od, Some ((ld, la), newname), Some (d, a)) \<Rightarrow>
                 do { ro \<leftarrow> dev_read_only fs d;
                      many \<leftarrow> yaffsfs_TooManyObjects fs d;
                      if ro then fs_fail EROFS fs
                      else if many then fs_fail ENFILE fs
                      else if lnk \<noteq> None then fs_fail EEXIST fs
                      else if ld \<noteq> d then fs_fail EXDEV fs
                      else
                        do { let (r, fs) = yaffsfs_CheckNameLength fs newname;
                             if r \<noteq> 0 then Some (r, fs)
                             else
                               do { (l, fs) \<leftarrow> on_sys fs d (\<lambda>s. yaffs_link_obj s la newname (Some a));
                                    if l \<noteq> None then Some (0, fs) else fs_fail ENOSPC fs } } }
             | _ \<Rightarrow> fs_fail ENOENT fs })"
definition yaffs_link where "yaffs_link fs oldpath linkpath = yaffs_link_reldir fs None oldpath linkpath"

definition yaffs_mknod_reldir :: "'n yaffsfs \<Rightarrow> obj_ref option \<Rightarrow> u8 list option \<Rightarrow> u32 \<Rightarrow> u32 \<Rightarrow> 'n fs_result" where
  "yaffs_mknod_reldir fs reldir pathname mode dev_val = fs_fail EINVAL fs"
definition yaffs_mknod_reldev where
  "yaffs_mknod_reldev fs dev pathname mode dev_val = on_root fs dev (\<lambda>r. yaffs_mknod_reldir fs r pathname mode dev_val)"
definition yaffs_mknod where "yaffs_mknod fs pathname mode dev_val = yaffs_mknod_reldir fs None pathname mode dev_val"

section \<open>Handles of an object\<close>

definition yaffs_n_handles_reldir :: "'n yaffsfs \<Rightarrow> obj_ref option \<Rightarrow> u8 list option \<Rightarrow> 'n fs_result" where
  "yaffs_n_handles_reldir fs reldir path =
     path_checked fs path (\<lambda>p.
       do { (o', dir, nd, lp, fs) \<leftarrow> yaffsfs_FindObject fs reldir p True;
            if o' = None then Some (-1, fs) else yaffsfs_CountHandles fs o' })"
definition yaffs_n_handles where "yaffs_n_handles fs path = yaffs_n_handles_reldir fs None path"

definition yaffs_get_obj_from_fd where "yaffs_get_obj_from_fd fs handle = yaffsfs_HandleToObject fs handle"
definition yaffs_get_error :: "'n yaffsfs \<Rightarrow> int" where "yaffs_get_error fs = fs_error fs"
definition yaffs_set_error :: "'n yaffsfs \<Rightarrow> int \<Rightarrow> int \<times> 'n yaffsfs" where
  "yaffs_set_error fs e = (0, yaffsfs_SetError e fs)"

end
