(* ===== verification/Yaffs_Fs_Devs.thy ===== *)
theory Yaffs_Fs_Devs
  imports Yaffs_Fs_Names
begin

text \<open>
  direct/yaffsfs.c: mounting and the other operations on a whole device, which is given as such
  or by a path, and the list of devices.
\<close>

section \<open>The device of a call\<close>

definition device_at :: "('n yaffsfs \<Rightarrow> u8 list \<Rightarrow> nat option option) \<Rightarrow> 'n yaffsfs \<Rightarrow> nat option \<Rightarrow> u8 list option \<Rightarrow>
    (int + nat option) option" where
  "device_at look fs dev path =
     (case dev of Some d \<Rightarrow> Some (Inr (Some d))
      | None \<Rightarrow>
          (case path_problem path of Some e \<Rightarrow> Some (Inl e)
           | None \<Rightarrow> map_option Inr (look fs (the path))))"

text \<open>The device at a mount point, and the device that a path is on.\<close>

definition on_mount_point ::
    "'n yaffsfs \<Rightarrow> nat option \<Rightarrow> u8 list option \<Rightarrow> ('n yaffsfs \<Rightarrow> nat \<Rightarrow> 'n fs_result) \<Rightarrow> 'n fs_result" where
  "on_mount_point fs dev path f =
     do { r \<leftarrow> device_at yaffsfs_FindMountPoint fs dev path;
          case r of Inl e \<Rightarrow> fs_fail e fs
          | Inr None \<Rightarrow> fs_fail ENODEV fs
          | Inr (Some d) \<Rightarrow> f fs d }"

definition device_of_path :: "'n yaffsfs \<Rightarrow> u8 list \<Rightarrow> nat option option" where
  "device_of_path fs path = map_option (map_option fst) (yaffsfs_FindDevice fs path)"

definition on_device ::
    "'n yaffsfs \<Rightarrow> nat option \<Rightarrow> u8 list option \<Rightarrow> int \<Rightarrow> ('n yaffsfs \<Rightarrow> nat \<Rightarrow> 'n fs_result) \<Rightarrow> 'n fs_result" where
  "on_device fs dev path none_err f =
     do { r \<leftarrow> device_at device_of_path fs dev path;
          case r of Inl e \<Rightarrow> fs_fail e fs
          | Inr None \<Rightarrow> fs_fail none_err fs
          | Inr (Some d) \<Rightarrow> f fs d }"

definition yaffs_getdev :: "'n yaffsfs \<Rightarrow> u8 list \<Rightarrow> nat option option" where
  "yaffs_getdev fs path = device_of_path fs path"

section \<open>Mounting\<close>

definition set_read_only :: "bool \<Rightarrow> 'n yaffs_sys \<Rightarrow> 'n yaffs_sys" where
  "set_read_only ro = set_dev (\<lambda>d. d\<lparr>read_only := ro\<rparr>)"

definition set_skip_checkpt :: "bool \<Rightarrow> 'n yaffs_sys \<Rightarrow> 'n yaffs_sys" where
  "set_skip_checkpt b = set_dev (\<lambda>d. d\<lparr>param := (param d)\<lparr>skip_checkpt_rd := b\<rparr>\<rparr>)"

definition mount_sys :: "mount_env \<Rightarrow> bool \<Rightarrow> bool \<Rightarrow> 'n yaffs_sys \<Rightarrow> (int \<times> 'n yaffs_sys) option" where
  "mount_sys me ro skip_checkpt s =
     do { let s = set_read_only ro s;
          if skip_checkpt then
            do { let skip = skip_checkpt_rd (param (sdev s));
                 (r, s) \<leftarrow> yaffs_guts_initialise me (set_skip_checkpt True s);
                 Some (r, set_skip_checkpt skip s) }
          else yaffs_guts_initialise me s }"

definition yaffs_mount_common ::
    "mount_env \<Rightarrow> 'n yaffsfs \<Rightarrow> nat option \<Rightarrow> u8 list option \<Rightarrow> bool \<Rightarrow> bool \<Rightarrow> 'n fs_result" where
  "yaffs_mount_common me fs dev path ro skip_checkpt =
     (case (if dev = None then path_problem path else None) of Some e \<Rightarrow> fs_fail e fs
      | None \<Rightarrow>
          on_mount_point (yaffsfs_InitHandles fs) dev path (\<lambda>fs d.
            do { s \<leftarrow> sys_of fs d;
                 if is_mounted s then fs_fail EBUSY fs
                 else
                   do { (result, fs) \<leftarrow> on_sys fs d (mount_sys me ro skip_checkpt);
                        if result = YAFFS_FAIL then fs_fail ENOMEM fs else Some (0, fs) } }))"

definition yaffs_mount3_reldev where
  "yaffs_mount3_reldev me fs dev ro skip_checkpt = yaffs_mount_common me fs dev None ro skip_checkpt"
definition yaffs_mount3 where
  "yaffs_mount3 me fs path ro skip_checkpt = yaffs_mount_common me fs None path ro skip_checkpt"
definition yaffs_mount2_reldev where "yaffs_mount2_reldev me fs dev ro = yaffs_mount_common me fs dev None ro False"
definition yaffs_mount2 where "yaffs_mount2 me fs path ro = yaffs_mount_common me fs None path ro False"
definition yaffs_mount_reldev where "yaffs_mount_reldev me fs dev = yaffs_mount_common me fs dev None False False"
definition yaffs_mount where "yaffs_mount me fs path = yaffs_mount_common me fs None path False False"

section \<open>Flushing\<close>

text \<open>
  \<open>save\<close> is \<^verbatim>\<open>yaffs_checkpoint_save\<close> with the buffer that it gets and the record on its stack.
\<close>

type_synonym 'n save_fn = "'n yaffs_sys \<Rightarrow> (bool \<times> 'n yaffs_sys) option"

definition flush_and_save :: "'n save_fn \<Rightarrow> bool \<Rightarrow> 'n yaffs_sys \<Rightarrow> 'n yaffs_sys option" where
  "flush_and_save save do_checkpt s =
     do { s \<leftarrow> yaffs_flush_whole_cache s False;
          if do_checkpt then do { (r, s) \<leftarrow> save s; Some s } else Some s }"

definition yaffs_sync_common :: "'n save_fn \<Rightarrow> 'n yaffsfs \<Rightarrow> nat option \<Rightarrow> u8 list option \<Rightarrow> bool \<Rightarrow> 'n fs_result" where
  "yaffs_sync_common save fs dev path do_checkpt =
     on_device fs dev path ENODEV (\<lambda>fs d.
       do { s \<leftarrow> sys_of fs d;
            if \<not> is_mounted s then fs_fail EINVAL fs
            else if read_only (sdev s) then fs_fail EROFS fs
            else do { fs \<leftarrow> in_sys fs d (flush_and_save save do_checkpt); Some (0, fs) } })"

definition yaffs_sync_files_reldev where "yaffs_sync_files_reldev save fs dev = yaffs_sync_common save fs dev None False"
definition yaffs_sync_files where "yaffs_sync_files save fs path = yaffs_sync_common save fs None path False"
definition yaffs_sync_reldev where "yaffs_sync_reldev save fs dev = yaffs_sync_common save fs dev None True"
definition yaffs_sync where "yaffs_sync save fs path = yaffs_sync_common save fs None path True"

definition yaffsfs_bg_gc_common :: "'n yaffsfs \<Rightarrow> nat option \<Rightarrow> u8 list option \<Rightarrow> nat \<Rightarrow> 'n fs_result" where
  "yaffsfs_bg_gc_common fs dev path urgency =
     on_device fs dev path ENODEV (\<lambda>fs d.
       do { s \<leftarrow> sys_of fs d;
            if \<not> is_mounted s then fs_fail EINVAL fs
            else do { (r, fs) \<leftarrow> on_sys fs d yaffs_bg_gc; Some (if r then 1 else 0, fs) } })"

definition yaffs_do_background_gc where "yaffs_do_background_gc fs path urgency = yaffsfs_bg_gc_common fs None path urgency"
definition yaffs_do_background_gc_reldev where
  "yaffs_do_background_gc_reldev fs dev urgency = yaffsfs_bg_gc_common fs dev None urgency"

section \<open>Remounting and unmounting\<close>

text \<open>The path is checked even when the device is given.\<close>

definition yaffs_remount_common ::
    "'n save_fn \<Rightarrow> 'n yaffsfs \<Rightarrow> nat option \<Rightarrow> u8 list option \<Rightarrow> bool \<Rightarrow> bool \<Rightarrow> 'n fs_result" where
  "yaffs_remount_common save fs dev path force ro =
     path_checked fs path (\<lambda>p.
       on_mount_point fs dev path (\<lambda>fs d.
         do { s \<leftarrow> sys_of fs d;
              if \<not> is_mounted s then fs_fail EINVAL fs
              else
                do { fs \<leftarrow> in_sys fs d (flush_and_save save False);
                     if \<not> force \<and> yaffsfs_IsDevBusy fs d then fs_fail EBUSY fs
                     else
                       do { fs \<leftarrow> (if ro then do { (r, fs) \<leftarrow> on_sys fs d save; Some fs } else Some fs);
                            was_read_only \<leftarrow> dev_read_only fs d;
                            fs \<leftarrow> in_sys fs d (\<lambda>s. Some (set_read_only ro s));
                            fs \<leftarrow> (if was_read_only \<and> \<not> ro then in_sys fs d yaffs_guts_cleanup else Some fs);
                            Some (0, fs) } } }))"

definition yaffs_remount_reldev where
  "yaffs_remount_reldev save fs dev force ro = yaffs_remount_common save fs dev None force ro"
definition yaffs_remount where
  "yaffs_remount save fs path force ro = yaffs_remount_common save fs None path force ro"

text \<open>The end of a mount, if no handle is open or they may be broken.\<close>

definition unmount_device :: "'n save_fn \<Rightarrow> 'n yaffsfs \<Rightarrow> nat \<Rightarrow> bool \<Rightarrow> (bool \<times> 'n yaffsfs) option" where
  "unmount_device save fs d force =
     do { fs \<leftarrow> in_sys fs d (flush_and_save save True);
          let inUse = yaffsfs_IsDevBusy fs d;
          if \<not> inUse \<or> force then
            do { fs \<leftarrow> (if inUse then yaffsfs_BreakDeviceHandles fs d else Some fs);
                 fs \<leftarrow> in_sys fs d (\<lambda>s. Some (yaffs_deinitialise s));
                 Some (True, fs) }
          else Some (False, fs) }"

definition yaffs_unmount2_common ::
    "'n save_fn \<Rightarrow> 'n yaffsfs \<Rightarrow> nat option \<Rightarrow> u8 list option \<Rightarrow> bool \<Rightarrow> 'n fs_result" where
  "yaffs_unmount2_common save fs dev path force =
     on_mount_point fs dev path (\<lambda>fs d.
       do { s \<leftarrow> sys_of fs d;
            if \<not> is_mounted s then fs_fail EINVAL fs
            else
              do { (gone, fs) \<leftarrow> unmount_device save fs d force;
                   if gone then Some (0, fs) else fs_fail EBUSY fs } })"

definition yaffs_unmount2_reldev where
  "yaffs_unmount2_reldev save fs dev force = yaffs_unmount2_common save fs dev None force"
definition yaffs_unmount2 where "yaffs_unmount2 save fs path force = yaffs_unmount2_common save fs None path force"
definition yaffs_unmount_reldev where "yaffs_unmount_reldev save fs dev = yaffs_unmount2_reldev save fs dev False"
definition yaffs_unmount where "yaffs_unmount save fs path = yaffs_unmount2 save fs path False"

definition yaffs_format_common ::
    "mount_env \<Rightarrow> 'n save_fn \<Rightarrow> 'n yaffsfs \<Rightarrow> nat option \<Rightarrow> u8 list option \<Rightarrow> bool \<Rightarrow> bool \<Rightarrow> bool \<Rightarrow> 'n fs_result" where
  "yaffs_format_common me save fs dev path unmount_flag force_unmount_flag remount_flag =
     on_mount_point fs dev path (\<lambda>fs d.
       do { s \<leftarrow> sys_of fs d;
            let was_mounted = is_mounted s;
            fs \<leftarrow> (if was_mounted \<and> unmount_flag
                   then do { (gone, fs) \<leftarrow> unmount_device save fs d force_unmount_flag; Some fs } else Some fs);
            s \<leftarrow> sys_of fs d;
            if is_mounted s then fs_fail EBUSY fs
            else
              do { (r, fs) \<leftarrow> on_sys fs d (yaffs_guts_format_dev me);
                   if was_mounted \<and> remount_flag then
                     do { (result, fs) \<leftarrow> on_sys fs d (yaffs_guts_initialise me);
                          if result = YAFFS_FAIL then fs_fail ENOMEM fs else Some (0, fs) }
                   else Some (0, fs) } })"

definition yaffs_format_reldev where
  "yaffs_format_reldev me save fs dev unmount_flag force_unmount_flag remount_flag =
     yaffs_format_common me save fs dev None unmount_flag force_unmount_flag remount_flag"
definition yaffs_format where
  "yaffs_format me save fs path unmount_flag force_unmount_flag remount_flag =
     yaffs_format_common me save fs None path unmount_flag force_unmount_flag remount_flag"

section \<open>Space\<close>

definition if_mounted :: "'n yaffsfs \<Rightarrow> nat \<Rightarrow> ('n yaffs_sys \<Rightarrow> (int \<times> 'n yaffs_sys) option) \<Rightarrow> 'n fs_result" where
  "if_mounted fs d f =
     do { s \<leftarrow> sys_of fs d; if is_mounted s then on_sys fs d f else fs_fail EINVAL fs }"

definition free_space :: "'n yaffs_sys \<Rightarrow> (int \<times> 'n yaffs_sys) option" where
  "free_space s =
     (let (n, d) = yaffs_get_n_free_chunks (sdev s) (yaffs_count_dirty_caches s)
      in Some (n * int (data_bytes_per_chunk d), s\<lparr>sdev := d\<rparr>))"

definition total_space :: "'n yaffs_sys \<Rightarrow> (int \<times> 'n yaffs_sys) option" where
  "total_space s =
     (let p = param (sdev s)
      in Some ((end_block p - start_block p + 1 - n_reserved_blocks p) * chunks_per_block p *
               int (data_bytes_per_chunk (sdev s)), s))"

definition yaffs_freespace_common :: "'n yaffsfs \<Rightarrow> nat option \<Rightarrow> u8 list option \<Rightarrow> 'n fs_result" where
  "yaffs_freespace_common fs dev path = on_device fs dev path EINVAL (\<lambda>fs d. if_mounted fs d free_space)"
definition yaffs_freespace_reldev where "yaffs_freespace_reldev fs dev = yaffs_freespace_common fs dev None"
definition yaffs_freespace where "yaffs_freespace fs path = yaffs_freespace_common fs None path"

definition yaffs_totalspace_common :: "'n yaffsfs \<Rightarrow> nat option \<Rightarrow> u8 list option \<Rightarrow> 'n fs_result" where
  "yaffs_totalspace_common fs dev path = on_device fs dev path EINVAL (\<lambda>fs d. if_mounted fs d total_space)"
definition yaffs_totalspace_reldev where "yaffs_totalspace_reldev fs dev = yaffs_totalspace_common fs dev None"
definition yaffs_totalspace where "yaffs_totalspace fs path = yaffs_totalspace_common fs None path"

text \<open>\<open>n_hardlinks\<close> is a field that the code never changes.\<close>

definition yaffs_inodecount_common :: "int \<Rightarrow> 'n yaffsfs \<Rightarrow> nat option \<Rightarrow> u8 list option \<Rightarrow> 'n fs_result" where
  "yaffs_inodecount_common n_hardlinks fs dev path =
     on_device fs dev path EINVAL (\<lambda>fs d.
       do { s \<leftarrow> sys_of fs d;
            if is_mounted s \<and> n_obj (sdev s) > n_hardlinks then Some (n_obj (sdev s) - n_hardlinks, fs)
            else fs_fail EINVAL fs })"
definition yaffs_inodecount_reldev where
  "yaffs_inodecount_reldev n_hardlinks fs dev = yaffs_inodecount_common n_hardlinks fs dev None"
definition yaffs_inodecount where
  "yaffs_inodecount n_hardlinks fs path = yaffs_inodecount_common n_hardlinks fs None path"

section \<open>The list of devices\<close>

definition yaffs_add_device :: "'n yaffsfs \<Rightarrow> nat \<Rightarrow> 'n yaffsfs option" where
  "yaffs_add_device fs d =
     (if d \<in> set (fs_devlist fs) then Some fs
      else do { fs \<leftarrow> in_sys fs d (\<lambda>s. Some (s\<lparr>is_mounted := False\<rparr>));
                Some (fs\<lparr>fs_devlist := d # fs_devlist fs\<rparr>) })"

definition yaffs_remove_device :: "'n yaffsfs \<Rightarrow> nat \<Rightarrow> 'n yaffsfs" where
  "yaffs_remove_device fs d = fs\<lparr>fs_devlist := remove1 d (fs_devlist fs)\<rparr>"

definition yaffs_dev_rewind :: "'n yaffsfs \<Rightarrow> 'n yaffsfs" where
  "yaffs_dev_rewind fs = fs\<lparr>fs_iterator := Some (case fs_devlist fs of [] \<Rightarrow> None | d # ds \<Rightarrow> Some d)\<rparr>"

text \<open>A device that has been removed points to itself.\<close>

definition yaffs_next_dev :: "'n yaffsfs \<Rightarrow> nat option \<times> 'n yaffsfs" where
  "yaffs_next_dev fs =
     (case fs_iterator fs of
        Some (Some d) \<Rightarrow>
          (Some d, fs\<lparr>fs_iterator := Some (if d \<in> set (fs_devlist fs) then next_sibling (fs_devlist fs) d else Some d)\<rparr>)
      | _ \<Rightarrow> (None, fs))"

end
