(* ===== verification/Yaffs_Fs_Tables.thy ===== *)
theory Yaffs_Fs_Tables
  imports Yaffs_Fs_Devs
begin

text \<open>
  The tables of handles, file descriptors and inodes of direct/yaffsfs.c: the use counts that
  the code keeps by hand are the numbers of the entries that refer to an entry.
\<close>

section \<open>The invariant\<close>

definition uses :: "yaffsfs_Handle list \<Rightarrow> nat \<Rightarrow> nat" where
  "uses hs k = length (filter (\<lambda>h. h_useCount h > 0 \<and> h_fdId h = int k) hs)"

definition opens :: "yaffsfs_FileDes list \<Rightarrow> nat \<Rightarrow> nat" where
  "opens fds i = length (filter (\<lambda>f. fd_inodeId f = int i) fds)"

definition handle_table_ok :: "yaffsfs_Handle list \<Rightarrow> yaffsfs_FileDes list \<Rightarrow> bool" where
  "handle_table_ok hs fds \<longleftrightarrow>
     (\<forall>h \<in> set hs. h_useCount h > 0 \<longrightarrow> 0 \<le> h_fdId h \<and> h_fdId h < int (length fds)) \<and>
     (\<forall>k < length fds. fd_handleCount (fds ! k) = int (uses hs k))"

definition fd_table_ok :: "yaffsfs_FileDes list \<Rightarrow> yaffsfs_Inode list \<Rightarrow> bool" where
  "fd_table_ok fds ins \<longleftrightarrow>
     (\<forall>f \<in> set fds. -1 \<le> fd_inodeId f \<and> fd_inodeId f < int (length ins) \<and> (fd_handleCount f = 0 \<longrightarrow> fd_inodeId f = -1)) \<and>
     (\<forall>i < length ins. in_count (ins ! i) = int (opens fds i) \<and> (in_obj (ins ! i) \<noteq> None \<longleftrightarrow> opens fds i > 0))"

definition tables_ok :: "'n yaffsfs \<Rightarrow> bool" where
  "tables_ok fs \<longleftrightarrow> handle_table_ok (fs_handles fs) (fs_fds fs) \<and> fd_table_ok (fs_fds fs) (fs_inodes fs)"

section \<open>Counting entries\<close>

lemma count_list_set:
  "i < length xs \<Longrightarrow> int (length (filter P (xs[i := y]))) =
     int (length (filter P xs)) - (if P (xs ! i) then 1 else 0) + (if P y then 1 else 0)"
proof (induction xs arbitrary: i)
  case (Cons x xs)
  show ?case
  proof (cases i)
    case (Suc j)
    then show ?thesis using Cons.IH [of j] Cons.prems by (cases "P (xs ! j)"; cases "P y") simp_all
  qed simp
qed simp

lemma uses_update: "i < length hs \<Longrightarrow> int (uses (hs[i := h]) k) =
    int (uses hs k) - (if h_useCount (hs ! i) > 0 \<and> h_fdId (hs ! i) = int k then 1 else 0) +
    (if h_useCount h > 0 \<and> h_fdId h = int k then 1 else 0)"
  unfolding uses_def by (rule count_list_set)

lemma opens_update: "i < length fds \<Longrightarrow> int (opens (fds[i := f]) k) =
    int (opens fds k) - (if fd_inodeId (fds ! i) = int k then 1 else 0) + (if fd_inodeId f = int k then 1 else 0)"
  unfolding opens_def by (rule count_list_set)

lemma uses_pos: "i < length hs \<Longrightarrow> h_useCount (hs ! i) > 0 \<Longrightarrow> h_fdId (hs ! i) = int k \<Longrightarrow> uses hs k > 0"
  unfolding uses_def by (simp add: length_greater_0_conv filter_empty_conv) (metis nth_mem)

lemma opens_pos: "i < length fds \<Longrightarrow> fd_inodeId (fds ! i) = int k \<Longrightarrow> opens fds k > 0"
  unfolding opens_def by (simp add: length_greater_0_conv filter_empty_conv) (metis nth_mem)

lemma first_index_bound: "r = first_index p xs i \<Longrightarrow> 0 \<le> i \<Longrightarrow>
    r = -1 \<or> (i \<le> r \<and> r < i + int (length xs) \<and> p (xs ! nat (r - i)))"
proof (induction xs arbitrary: i)
  case (Cons x xs)
  show ?case
  proof (cases "p x")
    case False
    then have "r = first_index p xs (i + 1)" using Cons.prems(1) by simp
    from Cons.IH [OF this] Cons.prems(2) have "r = -1 \<or> (i + 1 \<le> r \<and> r < i + 1 + int (length xs) \<and> p (xs ! nat (r - (i + 1))))" by simp
    moreover have "nat (r - i) = Suc (nat (r - (i + 1)))" if "i + 1 \<le> r" using that by linarith
    ultimately show ?thesis by auto
  qed (use Cons.prems in simp)
qed simp

lemma first_index_found:
  assumes "0 \<le> first_index p xs 0"
  shows "nat (first_index p xs 0) < length xs \<and> p (xs ! nat (first_index p xs 0))"
  using first_index_bound [OF refl, of 0 p xs] assms by auto

section \<open>Changes of one entry\<close>

text \<open>An entry of the handle table that changes within its uses.\<close>

lemma handle_table_upd:
  assumes "handle_table_ok hs fds" "i < length hs" "(h_useCount h > 0) = (h_useCount (hs ! i) > 0)"
    "h_useCount h > 0 \<Longrightarrow> h_fdId h = h_fdId (hs ! i)"
  shows "handle_table_ok (hs[i := h]) fds"
proof -
  have "int (uses (hs[i := h]) k) = int (uses hs k)" for k using assms(2-4) by (auto simp: uses_update)
  moreover have "\<forall>h' \<in> set (hs[i := h]). h_useCount h' > 0 \<longrightarrow> 0 \<le> h_fdId h' \<and> h_fdId h' < int (length fds)"
    using assms set_update_subset_insert [of hs i h] nth_mem [OF assms(2)] unfolding handle_table_ok_def by fastforce
  ultimately show ?thesis using assms(1) by (simp add: handle_table_ok_def)
qed

text \<open>A handle that refers to a descriptor now, or does so no more.\<close>

lemma handle_table_link:
  assumes ok: "handle_table_ok hs fds" and i: "i < length hs" "\<not> h_useCount (hs ! i) > 0"
    and h: "h_useCount h > 0" "h_fdId h = int k" and k: "k < length fds" "fd_handleCount f = fd_handleCount (fds ! k) + 1"
  shows "handle_table_ok (hs[i := h]) (fds[k := f])"
proof -
  have "int (uses (hs[i := h]) j) = int (uses hs j) + (if j = k then 1 else 0)" for j using i h by (simp add: uses_update)
  moreover have "\<forall>h' \<in> set (hs[i := h]). h_useCount h' > 0 \<longrightarrow> 0 \<le> h_fdId h' \<and> h_fdId h' < int (length fds)"
    using ok set_update_subset_insert [of hs i h] h k(1) unfolding handle_table_ok_def by fastforce
  ultimately show ?thesis using ok k by (simp add: handle_table_ok_def nth_list_update)
qed

lemma handle_table_unlink:
  assumes ok: "handle_table_ok hs fds" and i: "i < length hs" "h_useCount (hs ! i) > 0" "h_fdId (hs ! i) = int k"
    and h: "\<not> h_useCount h > 0" and k: "k < length fds" "fd_handleCount f = fd_handleCount (fds ! k) - 1"
  shows "handle_table_ok (hs[i := h]) (fds[k := f])"
proof -
  have "int (uses (hs[i := h]) j) = int (uses hs j) - (if j = k then 1 else 0)" for j using i h by (simp add: uses_update)
  moreover have "\<forall>h' \<in> set (hs[i := h]). h_useCount h' > 0 \<longrightarrow> 0 \<le> h_fdId h' \<and> h_fdId h' < int (length fds)"
    using ok set_update_subset_insert [of hs i h] h unfolding handle_table_ok_def by fastforce
  ultimately show ?thesis using ok k by (simp add: handle_table_ok_def nth_list_update)
qed

lemma handle_table_fds:
  assumes "handle_table_ok hs fds" "fd_handleCount f = fd_handleCount (fds ! k)"
  shows "handle_table_ok hs (fds[k := f])"
  using assms by (cases "k < length fds") (auto simp: handle_table_ok_def nth_list_update)

lemma fd_table_upd:
  assumes "fd_table_ok fds ins" "fd_inodeId f = fd_inodeId (fds ! k)" "fd_handleCount f = 0 \<Longrightarrow> fd_inodeId f = -1"
  shows "fd_table_ok (fds[k := f]) ins"
proof (cases "k < length fds")
  case True
  have "opens (fds[k := f]) i = opens fds i" for i using opens_update [OF True, of f i] assms(2) by simp
  moreover have "\<forall>f' \<in> set (fds[k := f]). -1 \<le> fd_inodeId f' \<and> fd_inodeId f' < int (length ins) \<and> (fd_handleCount f' = 0 \<longrightarrow> fd_inodeId f' = -1)"
    using assms nth_mem [OF True] set_update_subset_insert [of fds k f] unfolding fd_table_ok_def by fastforce
  ultimately show ?thesis using assms(1) by (simp add: fd_table_ok_def)
qed (use assms in \<open>simp add: list_update_beyond\<close>)

section \<open>Operations that leave the tables alone\<close>

definition tabs :: "'n yaffsfs \<Rightarrow> yaffsfs_Handle list \<times> yaffsfs_FileDes list \<times> yaffsfs_Inode list" where
  "tabs fs = (fs_handles fs, fs_fds fs, fs_inodes fs)"

lemma tables_ok_tabs: "tabs fs' = tabs fs \<Longrightarrow> tables_ok fs' = tables_ok fs"
  by (simp add: tabs_def tables_ok_def)

named_theorems same_tabs

lemma put_sys_tabs [same_tabs]: "tabs (put_sys fs d s) = tabs fs"
  by (simp add: tabs_def put_sys_def)

lemma set_error_tabs [same_tabs]: "tabs (yaffsfs_SetError e fs) = tabs fs"
  by (simp add: tabs_def yaffsfs_SetError_def)

lemma fail_tabs: "fs_fail e fs = Some (r, fs') \<Longrightarrow> tabs fs' = tabs fs"
  by (auto simp: fs_fail_def same_tabs)

lemma on_sys_tabs: "on_sys fs d f = Some (r, fs') \<Longrightarrow> tabs fs' = tabs fs"
  by (auto simp: on_sys_def same_tabs split: Option.bind_splits)

lemma in_sys_tabs: "in_sys fs d f = Some fs' \<Longrightarrow> tabs fs' = tabs fs"
  by (auto simp: in_sys_def same_tabs split: Option.bind_splits)

lemma equivalent_tabs: "equivalent_obj fs r = Some (r', fs') \<Longrightarrow> tabs fs' = tabs fs"
  by (auto simp: equivalent_obj_def dest!: on_sys_tabs split: Option.bind_splits option.splits prod.splits)

lemma look_up_tabs: "look_up fs d n = Some (r, fs') \<Longrightarrow> tabs fs' = tabs fs"
  by (auto simp: look_up_def dest!: on_sys_tabs split: Option.bind_splits)

text \<open>The search for a path, whatever follows the links.\<close>

definition keeps_tabs :: "'n follow_fn \<Rightarrow> bool" where
  "keeps_tabs f \<longleftrightarrow> (\<forall>fs r n r' l fs'. f fs r n = Some (r', l, fs') \<longrightarrow> tabs fs' = tabs fs)"

lemma walk_tabs: "walk_path f fs dir p n l = Some (r, nd, l', fs') \<Longrightarrow> keeps_tabs f \<Longrightarrow> tabs fs' = tabs fs"
proof (induction f fs dir p n l arbitrary: r nd l' fs' rule: walk_path.induct)
  case (1 f fs dir p n l)
  note IH1 = "1.IH"(1) and IH2 = "1.IH"(2) and IH3 = "1.IH"(3)
  note w = "1.prems"(1) [unfolded walk_path.simps [of f fs dir p n l]] and k = "1.prems"(2)
  define rest where "rest = dropWhile (\<lambda>c. \<not> yaffsfs_IsPathDivider c) (skip_dividers p)"
  define str where "str = take YAFFS_MAX_NAME_LENGTH (takeWhile (\<lambda>c. \<not> yaffsfs_IsPathDivider c) (skip_dividers p))"
  show ?case
  proof (cases dir)
    case None
    then show ?thesis using w by simp
  next
    case (Some d)
    note w = w [unfolded Some option.case Let_def, folded rest_def str_def]
    consider (last) "rest = []" | (here) "rest \<noteq> []" "str = [46]" | (up) "rest \<noteq> []" "str \<noteq> [46]" "str = [46, 46]"
      | (down) "rest \<noteq> []" "str \<noteq> [46]" "str \<noteq> [46, 46]" by blast
    then show ?thesis
    proof cases
      case last
      then show ?thesis using w by simp
    next
      case here
      then have "walk_path f fs dir rest n l = Some (r, nd, l', fs')" using w Some by simp
      then show ?thesis using IH1 [OF Some refl rest_def str_def] here k by blast
    next
      case up
      then obtain u where u: "parent_of fs d = Some u" "walk_path f fs u rest n l = Some (r, nd, l', fs')"
        using w by (auto split: Option.bind_splits)
      then show ?thesis using IH2 [OF Some refl rest_def str_def] up k by blast
    next
      case down
      obtain o1 fs1 where l1: "look_up fs d str = Some (o1, fs1)" using w down by (auto split: Option.bind_splits)
      obtain o2 lp fs2 where f2: "f fs1 o1 n = Some (o2, lp, fs2)" using w down l1 by (auto split: Option.bind_splits)
      have t: "tabs fs2 = tabs fs" using look_up_tabs [OF l1] f2 k unfolding keeps_tabs_def by metis
      show ?thesis
      proof (cases o2)
        case None
        then show ?thesis using w down l1 f2 t by simp
      next
        case s2: (Some q)
        obtain x where x: "fs_obj fs2 q = Some x" using w down l1 f2 s2 by (auto split: Option.bind_splits)
        show ?thesis
        proof (cases "is_dir x")
          case True
          then have "walk_path f fs2 (Some q) rest n (l \<or> lp) = Some (r, nd, l', fs')" using w down l1 f2 s2 x by simp
          then show ?thesis using IH3 [OF Some refl rest_def str_def down l1 refl f2 refl refl s2 x True] k t by simp
        qed (use w down l1 f2 s2 x t in simp)
      qed
    qed
  qed
qed

lemma find_directory_tabs:
  "find_directory_with f fs dir p n = Some (r, nd, l, fs') \<Longrightarrow> keeps_tabs f \<Longrightarrow> tabs fs' = tabs fs"
  by (auto simp: find_directory_with_def dest: walk_tabs split: if_splits Option.bind_splits)

lemma find_object_tabs:
  assumes "find_object_with f fs dir p n e = Some (r, d, nd, l, fs')" "keeps_tabs f"
  shows "tabs fs' = tabs fs"
proof -
  obtain r1 nd1 l1 fs1 where 1: "find_directory_with f fs dir p n = Some (r1, nd1, l1, fs1)"
    using assms(1) by (auto simp: find_object_with_def split: Option.bind_splits)
  obtain o2 fs2 where 2: "(case r1 of None \<Rightarrow> Some (None, fs1)
             | Some (dir, name) \<Rightarrow>
                 if name = [46, 46] then do { up \<leftarrow> parent_of fs1 dir; Some (up, fs1) }
                 else if name = [46] then Some (Some dir, fs1)
                 else if name \<noteq> [] then look_up fs1 dir name
                 else Some (Some dir, fs1)) = Some (o2, fs2)"
    and 3: "(if e then equivalent_obj fs2 o2 else Some (o2, fs2)) = Some (r, fs')"
    using assms(1) 1 unfolding find_object_with_def by (auto split: Option.bind_splits)
  have "tabs fs2 = tabs fs1" using 2 by (auto dest: look_up_tabs split: option.splits if_splits Option.bind_splits prod.splits)
  moreover have "tabs fs' = tabs fs2" using 3 by (auto dest: equivalent_tabs split: if_splits)
  ultimately show ?thesis using find_directory_tabs [OF 1 assms(2)] by simp
qed

lemma follow_rounds_tabs:
  assumes k: "keeps_tabs f"
  shows "follow_rounds m f fs r n l = Some (r', l', fs') \<Longrightarrow> tabs fs' = tabs fs"
proof (induction m arbitrary: fs r n l)
  case (Suc m)
  show ?case
  proof (cases r)
    case (Some q)
    obtain x where x: "fs_obj fs q = Some x" using Suc.prems Some by (auto split: Option.bind_splits)
    show ?thesis
    proof (cases "o_variant x")
      case (SymlinkVar al)
      then obtain a up o1 d nd l1 fs1 where "find_object_with f fs up a n True = Some (o1, d, nd, l1, fs1)"
        and "follow_rounds m f fs1 o1 (n + 1) (l \<or> l1) = Some (r', l', fs')"
        using Suc.prems Some x by (auto split: Option.bind_splits)
      then show ?thesis using Suc.IH find_object_tabs [OF _ k] by metis
    qed (use Suc.prems Some x in auto)
  qed (use Suc.prems in simp)
qed simp

lemma follow_keeps_tabs: "keeps_tabs (yaffsfs_FollowLink n)"
proof (induction n)
  case (Suc n)
  show ?case unfolding keeps_tabs_def yaffsfs_FollowLink.simps
    using follow_rounds_tabs [OF Suc] by (fastforce dest: equivalent_tabs split: Option.bind_splits)
qed (simp add: keeps_tabs_def)

lemma FindDirectory_tabs: "yaffsfs_FindDirectory fs dir p = Some (r, nd, l, fs') \<Longrightarrow> tabs fs' = tabs fs"
  unfolding yaffsfs_FindDirectory_def using find_directory_tabs follow_keeps_tabs by blast

lemma FindObject_tabs: "yaffsfs_FindObject fs dir p e = Some (r, d, nd, l, fs') \<Longrightarrow> tabs fs' = tabs fs"
  unfolding yaffsfs_FindObject_def using find_object_tabs follow_keeps_tabs by blast

lemma follow_link_tabs: "follow_link fs r = Some (r', l, fs') \<Longrightarrow> tabs fs' = tabs fs"
  unfolding follow_link_def using follow_keeps_tabs unfolding keeps_tabs_def by blast

lemma dscs_tabs [same_tabs]: "tabs (fs\<lparr>fs_dscs := x\<rparr>) = tabs fs"
  by (simp add: tabs_def)

lemma rewound_tabs: "yaffsfs_SetDirRewound fs k = Some fs' \<Longrightarrow> tabs fs' = tabs fs"
  by (auto simp: yaffsfs_SetDirRewound_def Let_def same_tabs dest!: in_sys_tabs
      split: option.splits Option.bind_splits if_splits prod.splits)

lemma closedir_tabs: "yaffsfs_closedir_no_lock fs p = Some (r, fs') \<Longrightarrow> tabs fs' = tabs fs"
  by (auto simp: yaffsfs_closedir_no_lock_def Let_def same_tabs dest!: in_sys_tabs fail_tabs
      split: option.splits Option.bind_splits if_splits prod.splits)

lemma opendir_tabs:
  assumes "yaffsfs_opendir_reldir_no_lock fs dir p = Some (r, fs')"
  shows "tabs fs' = tabs fs"
proof (cases "path_problem p")
  case None
  obtain o1 d nd l fs1 where 1: "yaffsfs_FindObject fs dir (the p) True = Some (o1, d, nd, l, fs1)"
    using assms None by (auto simp: yaffsfs_opendir_reldir_no_lock_def split: Option.bind_splits)
  obtain o2 l2 fs2 where 2: "follow_link fs1 o1 = Some (o2, l2, fs2)"
    using assms None 1 by (auto simp: yaffsfs_opendir_reldir_no_lock_def split: Option.bind_splits)
  have "tabs fs' = tabs fs2"
    using assms None 1 2 by (auto simp: yaffsfs_opendir_reldir_no_lock_def Let_def same_tabs dest!: in_sys_tabs rewound_tabs
        split: Option.bind_splits option.splits if_splits prod.splits)
  then show ?thesis using FindObject_tabs [OF 1] follow_link_tabs [OF 2] by simp
qed (use assms in \<open>auto simp: yaffsfs_opendir_reldir_no_lock_def same_tabs\<close>)

section \<open>Releasing\<close>

definition put_count :: "yaffsfs_Inode \<Rightarrow> yaffsfs_Inode" where
  "put_count x = (if in_count x - 1 \<le> 0 then \<lparr>in_count = 0, in_obj = None\<rparr> else x\<lparr>in_count := in_count x - 1\<rparr>)"

lemma put_inode_tabs:
  assumes "yaffsfs_PutInode fs (int i) = Some fs'" "i < length (fs_inodes fs)"
  shows "tabs fs' = (fs_handles fs, fs_fds fs, (fs_inodes fs)[i := put_count (fs_inodes fs ! i)])"
proof (cases "in_count (fs_inodes fs ! i) - 1 \<le> 0")
  case True
  let ?x = "fs_inodes fs ! i"
  define fs1 where "fs1 = fs\<lparr>fs_inodes := (fs_inodes fs)[i := ?x\<lparr>in_count := in_count ?x - 1\<rparr>]\<rparr>"
  obtain fs2 where 2: "yaffsfs_ReleaseInode fs1 (int i) = Some fs2" "upd_inode fs2 (int i) (\<lambda>x. x\<lparr>in_count := 0\<rparr>) = Some fs'"
    using assms True by (auto simp: yaffsfs_PutInode_def upd_inode_def fs1_def split: Option.bind_splits)
  obtain d a fs3 where 3: "in_sys fs1 d (\<lambda>s. upd_obj s a (\<lambda>x. x\<lparr>o_my_inode := False\<rparr>)) = Some fs3"
    and 4: "tabs fs2 = tabs (fs3\<lparr>fs_inodes := (fs_inodes fs3)[i := (fs_inodes fs3 ! i)\<lparr>in_obj := None\<rparr>]\<rparr>)"
    using 2(1) by (auto simp: yaffsfs_ReleaseInode_def upd_inode_def tabs_def dest!: on_sys_tabs split: Option.bind_splits if_splits)
  have "tabs fs3 = tabs fs1" using 3 by (rule in_sys_tabs)
  then have t2: "tabs fs2 = (fs_handles fs, fs_fds fs, (fs_inodes fs)[i := ?x\<lparr>in_count := in_count ?x - 1, in_obj := None\<rparr>])"
    using 4 assms(2) by (simp add: tabs_def fs1_def)
  then have "tabs fs' = (fs_handles fs, fs_fds fs, (fs_inodes fs)[i := ?x\<lparr>in_count := 0, in_obj := None\<rparr>])"
    using 2(2) assms(2) by (cases ?x) (auto simp: tabs_def upd_inode_def split: if_splits)
  moreover have "?x\<lparr>in_count := 0, in_obj := None\<rparr> = \<lparr>in_count = 0, in_obj = None\<rparr>" by (cases ?x) simp
  ultimately show ?thesis using True by (simp add: put_count_def)
next
  case False
  then show ?thesis using assms by (auto simp: yaffsfs_PutInode_def upd_inode_def tabs_def put_count_def)
qed

lemma fd_table_close:
  assumes ok: "fd_table_ok fds ins" and k: "k < length fds" and i: "fd_inodeId (fds ! k) = int i" and f: "fd_inodeId f = -1"
  shows "fd_table_ok (fds[k := f]) (ins[i := put_count (ins ! i)])"
proof -
  have il: "i < length ins" using ok i nth_mem [OF k] unfolding fd_table_ok_def by force
  have o1: "int (opens (fds[k := f]) j) = int (opens fds j) - (if j = i then 1 else 0)" for j
    using opens_update [OF k, of f j] i f by auto
  have c: "in_count (ins ! i) = int (opens fds i)" "in_obj (ins ! i) \<noteq> None \<longleftrightarrow> opens fds i > 0"
    using ok il unfolding fd_table_ok_def by blast+
  have "in_count (ins[i := put_count (ins ! i)] ! j) = int (opens (fds[k := f]) j) \<and>
      (in_obj (ins[i := put_count (ins ! i)] ! j) \<noteq> None \<longleftrightarrow> opens (fds[k := f]) j > 0)" if j: "j < length ins" for j
  proof (cases "j = i")
    case True
    have "opens fds i > 0" using opens_pos [OF k i] .
    then show ?thesis using o1 [of i] c True il by (auto simp: put_count_def)
  next
    case False
    then have "opens (fds[k := f]) j = opens fds j" using o1 [of j] by simp
    then show ?thesis using ok j False unfolding fd_table_ok_def by simp
  qed
  moreover have "\<forall>f' \<in> set (fds[k := f]). -1 \<le> fd_inodeId f' \<and> fd_inodeId f' < int (length ins) \<and> (fd_handleCount f' = 0 \<longrightarrow> fd_inodeId f' = -1)"
    using ok f set_update_subset_insert [of fds k f] unfolding fd_table_ok_def by fastforce
  ultimately show ?thesis by (simp add: fd_table_ok_def)
qed

text \<open>A descriptor that one handle less refers to.\<close>

lemma put_fd_tabs:
  assumes p: "yaffsfs_PutFileDes fs (int k) = Some fs'" and k: "k < length (fs_fds fs)"
    and ok: "fd_table_ok (fs_fds fs) (fs_inodes fs)"
  shows "\<exists>f. fs_fds fs' = (fs_fds fs)[k := f] \<and> fd_handleCount f = fd_handleCount (fs_fds fs ! k) - 1 \<and>
     fs_handles fs' = fs_handles fs \<and> fd_table_ok (fs_fds fs') (fs_inodes fs')"
proof -
  let ?f = "(fs_fds fs ! k)\<lparr>fd_handleCount := fd_handleCount (fs_fds fs ! k) - 1\<rparr>"
  define fs1 where "fs1 = fs\<lparr>fs_fds := (fs_fds fs)[k := ?f]\<rparr>"
  have t1: "fs_fds fs1 ! k = ?f" "fs_fds fs1 = (fs_fds fs)[k := ?f]" "fs_handles fs1 = fs_handles fs" "fs_inodes fs1 = fs_inodes fs"
    using k by (simp_all add: fs1_def)
  note p1 = p [unfolded yaffsfs_PutFileDes_def upd_fd_def nat_int Let_def, folded fs1_def]
  show ?thesis
  proof (cases "fd_handleCount ?f < 1")
    case False
    then have "fs' = fs1" using p1 k t1 by (simp split: if_splits)
    moreover have "fd_table_ok (fs_fds fs1) (fs_inodes fs1)"
      unfolding t1 by (rule fd_table_upd [OF ok]) (use False in simp_all)
    ultimately show ?thesis using t1 by auto
  next
    case True
    define g where "g fs k = fs\<lparr>fs_fds := (fs_fds fs)[k := (fs_fds fs ! k)\<lparr>fd_v := DirPtr None\<rparr>]\<rparr>" for fs :: "'a yaffsfs" and k
    obtain fs2 where 2: "(if fd_isDir ?f then
                             do { p \<leftarrow> dir_of (fd_v ?f);
                                  (r, fs) \<leftarrow> yaffsfs_closedir_no_lock fs1 p;
                                  Some (g fs k) }
                           else Some fs1) = Some fs2"
      and 3: "(if fd_inodeId (fs_fds fs2 ! k) \<ge> 0 then
                      do { fs \<leftarrow> yaffsfs_PutInode fs2 (fd_inodeId (fs_fds fs2 ! k));
                           Some (fs\<lparr>fs_fds := (fs_fds fs)[k := (fs_fds fs ! k)\<lparr>fd_inodeId := -1\<rparr>]\<rparr>) }
                    else Some fs2) = Some fs'"
      using p1 k t1 True by (auto simp: g_def split: Option.bind_splits if_splits)
    obtain f2 where f2: "fs_fds fs2 = (fs_fds fs)[k := f2]" "fs_handles fs2 = fs_handles fs" "fs_inodes fs2 = fs_inodes fs"
      "fd_handleCount f2 = fd_handleCount ?f" "fd_inodeId f2 = fd_inodeId (fs_fds fs ! k)"
    proof (cases "fd_isDir ?f")
      case False
      then show ?thesis using that [of ?f] 2 t1 by simp
    next
      case isd: True
      obtain p r fs3 where "yaffsfs_closedir_no_lock fs1 p = Some (r, fs3)" "fs2 = g fs3 k"
        using 2 isd by (auto split: Option.bind_splits)
      then show ?thesis using that [of "?f\<lparr>fd_v := DirPtr None\<rparr>"] closedir_tabs [of fs1 p r fs3] t1
        by (simp add: g_def tabs_def)
    qed
    have at: "fs_fds fs2 ! k = f2" using f2(1) k by simp
    show ?thesis
    proof (cases "fd_inodeId f2 \<ge> 0")
      case False
      then have "fs' = fs2" using 3 at by simp
      moreover have "fd_table_ok (fs_fds fs2) (fs_inodes fs2)"
        unfolding f2(1,3) by (rule fd_table_upd [OF ok f2(5)]) (use False nth_mem [OF k] ok f2(5) in \<open>force simp: fd_table_ok_def\<close>)
      ultimately show ?thesis using f2 by auto
    next
      case pos: True
      then obtain i where i: "fd_inodeId f2 = int i" using nonneg_int_cases by blast
      obtain fs4 where 4: "yaffsfs_PutInode fs2 (int i) = Some fs4"
        "fs' = fs4\<lparr>fs_fds := (fs_fds fs4)[k := (fs_fds fs4 ! k)\<lparr>fd_inodeId := -1\<rparr>]\<rparr>"
        using 3 at pos i by (auto split: Option.bind_splits)
      have il: "i < length (fs_inodes fs)" using ok i f2(5) nth_mem [OF k] unfolding fd_table_ok_def by force
      have t4: "tabs fs4 = (fs_handles fs, (fs_fds fs)[k := f2], (fs_inodes fs)[i := put_count (fs_inodes fs ! i)])"
        using put_inode_tabs [OF 4(1)] il f2 by simp
      have "fs_fds fs' = (fs_fds fs)[k := f2\<lparr>fd_inodeId := -1\<rparr>]" "fs_handles fs' = fs_handles fs"
        "fs_inodes fs' = (fs_inodes fs)[i := put_count (fs_inodes fs ! i)]"
        using t4 4(2) k by (simp_all add: tabs_def)
      moreover have "fd_table_ok ((fs_fds fs)[k := f2\<lparr>fd_inodeId := -1\<rparr>]) ((fs_inodes fs)[i := put_count (fs_inodes fs ! i)])"
        by (rule fd_table_close [OF ok k]) (use i f2(5) in simp_all)
      ultimately show ?thesis using f2(4) by auto
    qed
  qed
qed

lemma put_handle_ok:
  assumes p: "yaffsfs_PutHandle fs h = Some fs'" and ok: "tables_ok fs"
  shows "tables_ok fs'"
proof -
  have okh: "handle_table_ok (fs_handles fs) (fs_fds fs)" and okf: "fd_table_ok (fs_fds fs) (fs_inodes fs)"
    using ok by (simp_all add: tables_ok_def)
  show ?thesis
  proof (cases "yaffsfs_HandleToPointer fs h")
    case None
    then show ?thesis using p ok by (simp add: yaffsfs_PutHandle_def)
  next
    case (Some i)
    have i: "i < length (fs_handles fs)" using Some by (auto simp: yaffsfs_HandleToPointer_def split: if_splits)
    let ?h = "fs_handles fs ! i"
    let ?g = "?h\<lparr>h_useCount := h_useCount ?h - 1\<rparr>"
    define fs1 where "fs1 = fs\<lparr>fs_handles := (fs_handles fs)[i := ?g]\<rparr>"
    note p1 = p [unfolded yaffsfs_PutHandle_def Some option.case upd_handle_def Let_def, folded fs1_def]
    have at: "fs_handles fs1 ! i = ?g" using i by (simp add: fs1_def)
    consider (closed) "\<not> h_useCount ?h > 0" | (more) "h_useCount ?h > 1" | (last) "h_useCount ?h = 1" by linarith
    then show ?thesis
    proof cases
      case closed
      then show ?thesis using p1 ok by simp
    next
      case more
      then have "fs' = fs1" using p1 at by (simp split: if_splits)
      moreover have "handle_table_ok ((fs_handles fs)[i := ?g]) (fs_fds fs)"
        by (rule handle_table_upd [OF okh i]) (use more in simp_all)
      ultimately show ?thesis using okf by (simp add: tables_ok_def fs1_def)
    next
      case last
      obtain k where k: "h_fdId ?h = int k" "k < length (fs_fds fs)"
        using okh nth_mem [OF i] last unfolding handle_table_ok_def by (metis zero_less_one nonneg_int_cases of_nat_less_iff)
      obtain fs2 where 2: "yaffsfs_PutFileDes fs1 (int k) = Some fs2"
        "fs' = fs2\<lparr>fs_handles := (fs_handles fs2)[i := (fs_handles fs2 ! i)\<lparr>h_fdId := -1\<rparr>]\<rparr>"
        using p1 at last k by (auto split: Option.bind_splits if_splits)
      obtain f where f: "fs_fds fs2 = (fs_fds fs)[k := f]" "fd_handleCount f = fd_handleCount (fs_fds fs ! k) - 1"
        "fs_handles fs2 = (fs_handles fs)[i := ?g]" "fd_table_ok (fs_fds fs2) (fs_inodes fs2)"
        using put_fd_tabs [OF 2(1)] k okf by (auto simp: fs1_def)
      have "handle_table_ok ((fs_handles fs)[i := ?g\<lparr>h_fdId := -1\<rparr>]) ((fs_fds fs)[k := f])"
        by (rule handle_table_unlink [OF okh i]) (use last k f in simp_all)
      then show ?thesis using 2(2) f i by (simp add: tables_ok_def)
    qed
  qed
qed

section \<open>Getting\<close>

lemma init_handles_ok: "\<not> fs_ready fs \<Longrightarrow> tables_ok (yaffsfs_InitHandles fs)"
  by (auto simp: yaffsfs_InitHandles_def tables_ok_def handle_table_ok_def fd_table_ok_def uses_def opens_def zero_fd_def
      filter_empty_conv)

lemma get_handle_ok: "yaffsfs_GetHandle fs h = (r, fs') \<Longrightarrow> tables_ok fs \<Longrightarrow> tables_ok fs'"
  by (auto simp: yaffsfs_GetHandle_def upd_handle_def tables_ok_def yaffsfs_HandleToPointer_def
      intro!: handle_table_upd split: option.splits if_splits)

lemma to_fd: "yaffsfs_HandleToFileDes fs h = Some f \<Longrightarrow>
    \<exists>i < length (fs_handles fs). h = int i \<and> h_useCount (fs_handles fs ! i) > 0 \<and> h_fdId (fs_handles fs ! i) = int f \<and> f < length (fs_fds fs)"
  by (intro exI [of _ "nat h"])
    (auto simp: yaffsfs_HandleToFileDes_def yaffsfs_HandleToPointer_def Let_def split: Option.bind_splits if_splits)

text \<open>A new handle for the descriptor \<open>k\<close>.\<close>

lemma new_handle_link:
  assumes n: "yaffsfs_NewHandle fs = (i, fs1)" "0 \<le> i" and ok: "tables_ok fs" and k: "k < length (fs_fds fs)"
    and f: "fd_handleCount f = fd_handleCount (fs_fds fs ! k) + 1" "fd_inodeId f = fd_inodeId (fs_fds fs ! k)"
    and g: "h_useCount g = 1" "h_fdId g = int k" and h: "0 < fd_handleCount f"
  shows "nat i < length (fs_handles fs) \<and> fs_fds fs1 = fs_fds fs \<and> fs_inodes fs1 = fs_inodes fs \<and>
     length (fs_handles fs1) = length (fs_handles fs) \<and>
     handle_table_ok ((fs_handles fs1)[nat i := g]) ((fs_fds fs)[k := f]) \<and> fd_table_ok ((fs_fds fs)[k := f]) (fs_inodes fs)"
proof -
  have okh: "handle_table_ok (fs_handles fs) (fs_fds fs)" and okf: "fd_table_ok (fs_fds fs) (fs_inodes fs)"
    using ok by (simp_all add: tables_ok_def)
  have i: "i = first_index (\<lambda>h. h_useCount h < 1) (fs_handles fs) 0"
    and fs1: "fs1 = upd_handle fs (nat i) (\<lambda>h. \<lparr>h_fdId = -1, h_useCount = 1\<rparr>)"
    using n by (auto simp: yaffsfs_NewHandle_def Let_def split: if_splits)
  have il: "nat i < length (fs_handles fs)" "h_useCount (fs_handles fs ! nat i) < 1"
    using first_index_found n(2) i by blast+
  have "handle_table_ok ((fs_handles fs)[nat i := g]) ((fs_fds fs)[k := f])"
    by (rule handle_table_link [OF okh il(1)]) (use il g k f in simp_all)
  moreover have "fd_table_ok ((fs_fds fs)[k := f]) (fs_inodes fs)"
    by (rule fd_table_upd [OF okf]) (use f h in simp_all)
  ultimately show ?thesis using il fs1 by (simp add: upd_handle_def)
qed

lemma dup_ok:
  assumes d: "yaffs_dup fs h = (r, fs')" and ok: "tables_ok fs"
  shows "tables_ok fs'"
proof (cases "yaffsfs_HandleToFileDes fs h")
  case None
  then show ?thesis using d ok by (auto simp: yaffs_dup_def tables_ok_tabs [OF set_error_tabs])
next
  case (Some k)
  obtain i where i: "i < length (fs_handles fs)" "h = int i" "h_useCount (fs_handles fs ! i) > 0"
    "h_fdId (fs_handles fs ! i) = int k" "k < length (fs_fds fs)" using to_fd [OF Some] by blast
  obtain n fs1 where n: "yaffsfs_NewHandle fs = (n, fs1)" by (cases "yaffsfs_NewHandle fs")
  show ?thesis
  proof (cases "n < 0")
    case True
    then have "fs1 = fs" using n by (auto simp: yaffsfs_NewHandle_def Let_def split: if_splits)
    then show ?thesis using d ok Some n True by (simp add: yaffs_dup_def tables_ok_tabs [OF set_error_tabs] flip: set_error_tabs)
      (metis set_error_tabs tables_ok_tabs)
  next
    case False
    let ?f = "(fs_fds fs ! k)\<lparr>fd_handleCount := fd_handleCount (fs_fds fs ! k) + 1\<rparr>"
    let ?g = "\<lparr>h_fdId = int k, h_useCount = 1\<rparr>"
    have c: "0 \<le> fd_handleCount (fs_fds fs ! k)" using ok i(5) by (simp add: tables_ok_def handle_table_ok_def)
    have fs1: "fs1 = upd_handle fs (nat n) (\<lambda>h. \<lparr>h_fdId = -1, h_useCount = 1\<rparr>)" "nat n < length (fs_handles fs)"
      "h_useCount (fs_handles fs ! nat n) < 1"
      using n False first_index_found [of "\<lambda>h. h_useCount h < 1" "fs_handles fs"]
      by (auto simp: yaffsfs_NewHandle_def Let_def split: if_splits)
    have "nat n \<noteq> i" using fs1(3) i(3) by auto
    then have "h_fdId (fs_handles fs1 ! i) = int k" using i fs1 by (simp add: upd_handle_def)
    moreover have "fs_handles fs1 ! nat n = \<lparr>h_fdId = -1, h_useCount = 1\<rparr>" using fs1 by (simp add: upd_handle_def)
    ultimately have e: "fs' = upd_fd (upd_handle fs1 (nat n) (\<lambda>h. ?g)) k (\<lambda>f. f\<lparr>fd_handleCount := fd_handleCount f + 1\<rparr>)"
      using d Some n False i(2) by (auto simp: yaffs_dup_def upd_handle_def)
    have "handle_table_ok ((fs_handles fs1)[nat n := ?g]) ((fs_fds fs)[k := ?f]) \<and> fd_table_ok ((fs_fds fs)[k := ?f]) (fs_inodes fs)"
      using new_handle_link [OF n _ ok i(5), of ?f ?g] False c by auto
    moreover have "fs_fds fs1 = fs_fds fs" "fs_inodes fs1 = fs_inodes fs" using fs1 by (simp_all add: upd_handle_def)
    ultimately show ?thesis by (simp add: e tables_ok_def upd_fd_def upd_handle_def)
  qed
qed

text \<open>A new handle with a new descriptor, which has no inode yet.\<close>

lemma new_fd_ok:
  assumes n: "yaffsfs_NewHandleAndFileDes fs = (h, fs')" and ok: "tables_ok fs"
  shows "tables_ok fs' \<and> (0 \<le> h \<longrightarrow> (\<exists>k. yaffsfs_HandleToFileDes fs' h = Some k \<and> fd_inodeId (fs_fds fs' ! k) = -1))"
proof -
  have okh: "handle_table_ok (fs_handles fs) (fs_fds fs)" and okf: "fd_table_ok (fs_fds fs) (fs_inodes fs)"
    using ok by (simp_all add: tables_ok_def)
  obtain i fs1 where n1: "yaffsfs_NewHandle fs = (i, fs1)" by (cases "yaffsfs_NewHandle fs")
  show ?thesis
  proof (cases "i < 0")
    case True
    then show ?thesis using n n1 ok by (auto simp: yaffsfs_NewHandleAndFileDes_def yaffsfs_NewHandle_def Let_def split: if_splits)
  next
    case False
    have fs1: "fs1 = upd_handle fs (nat i) (\<lambda>h. \<lparr>h_fdId = -1, h_useCount = 1\<rparr>)" "nat i < length (fs_handles fs)"
      "h_useCount (fs_handles fs ! nat i) < 1"
      using n1 False first_index_found [of "\<lambda>h. h_useCount h < 1" "fs_handles fs"]
      by (auto simp: yaffsfs_NewHandle_def Let_def split: if_splits)
    define j where "j = first_index (\<lambda>f. fd_handleCount f < 1) (fs_fds fs) 0"
    have same: "fs_fds fs1 = fs_fds fs" "fs_inodes fs1 = fs_inodes fs" using fs1 by (simp_all add: upd_handle_def)
    show ?thesis
    proof (cases "j < 0")
      case True
      have e: "h = -1" "fs' = upd_handle fs1 (nat i) (\<lambda>h. h\<lparr>h_useCount := 0\<rparr>)"
        using n n1 False True same by (auto simp: yaffsfs_NewHandleAndFileDes_def Let_def j_def)
      have "handle_table_ok ((fs_handles fs)[nat i := \<lparr>h_fdId = -1, h_useCount = 0\<rparr>]) (fs_fds fs)"
        by (rule handle_table_upd [OF okh fs1(2)]) (use fs1(3) in simp_all)
      then show ?thesis using e fs1 okf same by (simp add: tables_ok_def upd_handle_def)
    next
      case jp: False
      then have jl: "nat j < length (fs_fds fs)" "fd_handleCount (fs_fds fs ! nat j) < 1"
        using first_index_found [of "\<lambda>f. fd_handleCount f < 1" "fs_fds fs"] by (simp_all add: j_def)
      have c: "fd_handleCount (fs_fds fs ! nat j) = 0" using okh jl unfolding handle_table_ok_def by force
      have ni: "fd_inodeId (fs_fds fs ! nat j) = -1" using okf c nth_mem [OF jl(1)] unfolding fd_table_ok_def by blast
      let ?f = "zero_fd\<lparr>fd_inodeId := -1, fd_handleCount := 1\<rparr>" and ?g = "\<lparr>h_fdId = j, h_useCount = 1\<rparr>"
      have e: "h = i" "fs' = upd_handle (upd_fd fs1 (nat j) (\<lambda>f. ?f)) (nat i) (\<lambda>h. h\<lparr>h_fdId := j\<rparr>)"
        using n n1 False jp same by (auto simp: yaffsfs_NewHandleAndFileDes_def Let_def j_def)
      have t: "fs_handles fs' = (fs_handles fs)[nat i := ?g]" "fs_fds fs' = (fs_fds fs)[nat j := ?f]" "fs_inodes fs' = fs_inodes fs"
        using e(2) fs1 same by (simp_all add: upd_fd_def upd_handle_def)
      have "handle_table_ok ((fs_handles fs1)[nat i := ?g]) ((fs_fds fs)[nat j := ?f]) \<and> fd_table_ok ((fs_fds fs)[nat j := ?f]) (fs_inodes fs)"
        using new_handle_link [OF n1 _ ok jl(1), of ?f ?g] False c ni jp by auto
      moreover have "(fs_handles fs1)[nat i := ?g] = (fs_handles fs)[nat i := ?g]" using fs1 by (simp add: upd_handle_def)
      ultimately have "tables_ok fs'" using t by (simp add: tables_ok_def)
      moreover have "yaffsfs_HandleToFileDes fs' h = Some (nat j)"
        using t e(1) False jp fs1(2) jl(1) by (simp add: yaffsfs_HandleToFileDes_def yaffsfs_HandleToPointer_def nat_less_iff)
      ultimately show ?thesis using t jl(1) by auto
    qed
  qed
qed

lemma fd_table_open:
  assumes ok: "fd_table_ok fds ins" and k: "k < length fds" "fd_inodeId (fds ! k) = -1" and i: "i < length ins"
    and f: "fd_inodeId f = int i" "fd_handleCount f \<noteq> 0" and x: "in_count x = in_count (ins ! i) + 1" "in_obj x \<noteq> None"
  shows "fd_table_ok (fds[k := f]) (ins[i := x])"
proof -
  have o1: "int (opens (fds[k := f]) j) = int (opens fds j) + (if j = i then 1 else 0)" for j
    using opens_update [OF k(1), of f j] k(2) f(1) by auto
  have "in_count (ins[i := x] ! j) = int (opens (fds[k := f]) j) \<and>
      (in_obj (ins[i := x] ! j) \<noteq> None \<longleftrightarrow> opens (fds[k := f]) j > 0)" if j: "j < length ins" for j
  proof (cases "j = i")
    case True
    have "in_count (ins ! i) = int (opens fds i)" using ok i unfolding fd_table_ok_def by blast
    then show ?thesis using o1 [of i] x True i by auto
  next
    case False
    then have "opens (fds[k := f]) j = opens fds j" using o1 [of j] by simp
    then show ?thesis using ok j False unfolding fd_table_ok_def by simp
  qed
  moreover have "\<forall>f' \<in> set (fds[k := f]). -1 \<le> fd_inodeId f' \<and> fd_inodeId f' < int (length ins) \<and> (fd_handleCount f' = 0 \<longrightarrow> fd_inodeId f' = -1)"
    using ok f i set_update_subset_insert [of fds k f] unfolding fd_table_ok_def by fastforce
  ultimately show ?thesis by (simp add: fd_table_ok_def)
qed

text \<open>The inode for an object: its own if there is one, else one that is free.\<close>

lemma get_inode_tabs:
  assumes g: "yaffsfs_GetInodeIdForObject fs r = Some (j, fs')" and j: "0 \<le> j" and ok: "fd_table_ok fds (fs_inodes fs)"
  shows "\<exists>i x. j = int i \<and> i < length (fs_inodes fs) \<and> in_count x = in_count (fs_inodes fs ! i) + 1 \<and>
     tabs fs' = (fs_handles fs, fs_fds fs, (fs_inodes fs)[i := x])"
proof -
  obtain q fs1 where 1: "equivalent_obj fs r = Some (q, fs1)"
    using g by (auto simp: yaffsfs_GetInodeIdForObject_def split: Option.bind_splits)
  obtain q2 fs2 where 2: "equivalent_obj fs1 q = Some (q2, fs2)"
    using g 1 by (auto simp: yaffsfs_GetInodeIdForObject_def yaffsfs_FindInodeIdForObject_def split: Option.bind_splits)
  have t: "tabs fs2 = tabs fs" using equivalent_tabs [OF 1] equivalent_tabs [OF 2] by simp
  define n where "n = first_index (\<lambda>i. in_obj i = q2) (fs_inodes fs2) 0"
  define m where "m = (if n < 0 then first_index (\<lambda>i. in_obj i = None) (fs_inodes fs2) 0 else n)"
  have f: "yaffsfs_FindInodeIdForObject fs1 q = Some (n, fs2)" using 2 by (simp add: yaffsfs_FindInodeIdForObject_def n_def)
  have up: "m = j" "upd_inode fs2 j (\<lambda>i. i\<lparr>in_count := (if in_obj i = None then 0 else in_count i) + 1, in_obj := q\<rparr>) = Some fs'"
    using g 1 f j by (auto simp: yaffsfs_GetInodeIdForObject_def m_def Let_def split: Option.bind_splits if_splits)
  obtain i where i: "j = int i" using j nonneg_int_cases by blast
  have il: "i < length (fs_inodes fs2)" using up(2) i by (simp add: upd_inode_def split: if_splits)
  let ?o = "fs_inodes fs ! i"
  have "in_count ?o = int (opens fds i) \<and> (in_obj ?o \<noteq> None \<longleftrightarrow> opens fds i > 0)"
    using ok il t by (simp add: fd_table_ok_def tabs_def)
  then have c: "(if in_obj ?o = None then 0 else in_count ?o) = in_count ?o" by auto
  let ?x = "?o\<lparr>in_count := in_count ?o + 1, in_obj := q\<rparr>"
  have "tabs fs' = (fs_handles fs, fs_fds fs, (fs_inodes fs)[i := ?x])"
    using up(2) i il t c by (simp add: upd_inode_def tabs_def split: if_splits) auto
  then show ?thesis using i il t by (intro exI [of _ i] exI [of _ ?x]) (simp add: tabs_def)
qed

lemma open_done_ok:
  assumes d: "open_done fs h r oflag isd rr wr sr sw dsc = Some fs'" and ok: "tables_ok fs"
    and k: "yaffsfs_HandleToFileDes fs h = Some k" "fd_inodeId (fs_fds fs ! k) = -1"
    and obj: "yaffsfs_HandleToObject fs' h \<noteq> None"
  shows "tables_ok fs'"
proof -
  have okh: "handle_table_ok (fs_handles fs) (fs_fds fs)" and okf: "fd_table_ok (fs_fds fs) (fs_inodes fs)"
    using ok by (simp_all add: tables_ok_def)
  obtain n where n: "n < length (fs_handles fs)" "h = int n" "h_useCount (fs_handles fs ! n) > 0"
    "h_fdId (fs_handles fs ! n) = int k" "k < length (fs_fds fs)" using to_fd [OF k(1)] by blast
  obtain j fs1 where 1: "yaffsfs_GetInodeIdForObject fs (Some r) = Some (j, fs1)"
    using d by (auto simp: open_done_def split: Option.bind_splits)
  have j: "0 \<le> j" using d 1 by (auto simp: open_done_def split: Option.bind_splits if_splits)
  obtain i x where x: "j = int i" "i < length (fs_inodes fs)" "in_count x = in_count (fs_inodes fs ! i) + 1"
    "tabs fs1 = (fs_handles fs, fs_fds fs, (fs_inodes fs)[i := x])" using get_inode_tabs [OF 1 j okf] by blast
  have k1: "yaffsfs_HandleToFileDes fs1 h = Some k"
    using k(1) x(4) by (simp add: yaffsfs_HandleToFileDes_def yaffsfs_HandleToPointer_def tabs_def)
  let ?f = "(fs_fds fs ! k)\<lparr>fd_inodeId := j, fd_reading := rr, fd_writing := wr, fd_append := has_flag oflag O_APPEND,
    fd_shareRead := sr, fd_shareWrite := sw, fd_isDir := isd, fd_v := (if isd then DirPtr dsc else Position 0)\<rparr>"
  define fs2 where "fs2 = fs1\<lparr>fs_fds := (fs_fds fs1)[k := ?f]\<rparr>"
  have "tabs fs' = tabs fs2"
    using d 1 k1 j x(4) by (auto simp: open_done_def Let_def upd_fd_def fs2_def tabs_def [of fs1] dest!: in_sys_tabs on_sys_tabs
        split: Option.bind_splits if_splits)
  then have t: "tabs fs' = (fs_handles fs, (fs_fds fs)[k := ?f], (fs_inodes fs)[i := x])"
    using x(4) by (simp add: tabs_def fs2_def)
  have "yaffsfs_HandleToObject fs' h = None" if "in_obj x = None"
    using t n x(1,2) j that by (auto simp: yaffsfs_HandleToObject_def yaffsfs_HandleToInode_def yaffsfs_HandleToFileDes_def
        yaffsfs_HandleToPointer_def tabs_def Let_def split: Option.bind_splits)
  then have xo: "in_obj x \<noteq> None" using obj by blast
  have "uses (fs_handles fs) k > 0" using uses_pos [OF n(1,3,4)] .
  then have "fd_handleCount ?f \<noteq> 0" using okh n(5) by (simp add: handle_table_ok_def)
  then have "fd_table_ok ((fs_fds fs)[k := ?f]) ((fs_inodes fs)[i := x])"
    by (intro fd_table_open [OF okf n(5) k(2) x(2)]) (use x(1,3) xo in simp_all)
  moreover have "handle_table_ok (fs_handles fs) ((fs_fds fs)[k := ?f])" by (rule handle_table_fds [OF okh]) simp
  ultimately show ?thesis using t by (simp add: tables_ok_def tabs_def)
qed

end
