(* ===== verification/Yaffs_Fs_Steps.thy ===== *)
theory Yaffs_Fs_Steps
  imports Yaffs_Fs_Tables
begin

text \<open>
  The calls of the direct interface as steps of its state, and what they keep of the tables of
  handles, file descriptors and inodes.
\<close>

section \<open>Calls that leave the tables alone\<close>

lemma on_root_tabs:
  "on_root fs dev f = Some (v, fs') \<Longrightarrow> (\<And>r. f r = Some (v, fs') \<Longrightarrow> tabs fs' = tabs fs) \<Longrightarrow> tabs fs' = tabs fs"
  by (auto simp: on_root_def split: Option.bind_splits)

lemma checked_tabs:
  "path_checked fs path f = Some (v, fs') \<Longrightarrow> (\<And>p. f p = Some (v, fs') \<Longrightarrow> tabs fs' = tabs fs) \<Longrightarrow> tabs fs' = tabs fs"
  by (auto simp: path_checked_def dest: fail_tabs split: option.splits)

lemma find_existing_tabs: "find_existing fs dir p b = Some (r, fs') \<Longrightarrow> tabs fs' = tabs fs"
  by (auto simp: find_existing_def dest!: FindObject_tabs follow_link_tabs split: Option.bind_splits if_splits)

lemma on_existing_tabs:
  assumes "on_existing fs dir path b f = Some (v, fs')" "\<And>fs1 r. f fs1 r = Some (v, fs') \<Longrightarrow> tabs fs' = tabs fs1"
  shows "tabs fs' = tabs fs"
  using assms(1) unfolding on_existing_def
  by (rule checked_tabs) (auto dest!: find_existing_tabs fail_tabs assms(2) split: Option.bind_splits sum.splits)

lemma on_mount_point_tabs:
  assumes "on_mount_point fs dev path f = Some (v, fs')" "\<And>d. f fs d = Some (v, fs') \<Longrightarrow> tabs fs' = tabs fs"
  shows "tabs fs' = tabs fs"
  using assms by (auto simp: on_mount_point_def dest: fail_tabs split: Option.bind_splits sum.splits option.splits)

lemma on_device_tabs:
  assumes "on_device fs dev path e f = Some (v, fs')" "\<And>d. f fs d = Some (v, fs') \<Longrightarrow> tabs fs' = tabs fs"
  shows "tabs fs' = tabs fs"
  using assms by (auto simp: on_device_def dest: fail_tabs split: Option.bind_splits sum.splits option.splits)

lemma truncate_tabs: "yaffs_truncate_reldir fs dir path n = Some (v, fs') \<Longrightarrow> tabs fs' = tabs fs"
  unfolding yaffs_truncate_reldir_def
  by (erule on_existing_tabs) (auto dest: fail_tabs on_sys_tabs split: Option.bind_splits if_splits)

lemma ftruncate_tabs: "yaffs_ftruncate fs h n = Some (v, fs') \<Longrightarrow> tabs fs' = tabs fs"
  by (auto simp: yaffs_ftruncate_def dest: fail_tabs on_sys_tabs split: Option.bind_splits if_splits option.splits)

lemma fsync_tabs: "yaffs_Dofsync fs h b = Some (v, fs') \<Longrightarrow> tabs fs' = tabs fs"
  by (auto simp: yaffs_Dofsync_def dest: fail_tabs on_sys_tabs split: Option.bind_splits if_splits option.splits)

lemma funlink_tabs: "yaffs_funlink fs h = Some (v, fs') \<Longrightarrow> tabs fs' = tabs fs"
  by (auto simp: yaffs_funlink_def dest: fail_tabs on_sys_tabs split: Option.bind_splits if_splits option.splits)

lemma alt_path_tabs: "yaffsfs_alt_dir_path fs p = Some (r, a, fs') \<Longrightarrow> tabs fs' = tabs fs"
  by (auto simp: yaffsfs_alt_dir_path_def fs_kmalloc_def tabs_def Let_def split: Option.bind_splits if_splits prod.splits list.splits)

lemma unlink_tabs: "yaffsfs_DoUnlink_reldir fs dir path b = Some (v, fs') \<Longrightarrow> tabs fs' = tabs fs"
  unfolding yaffsfs_DoUnlink_reldir_def
  by (erule checked_tabs) (auto simp: same_tabs dest!: FindObject_tabs FindDirectory_tabs fail_tabs on_sys_tabs
      split: Option.bind_splits if_splits option.splits)

lemma rename_tabs: "yaffs_rename_reldir fs dir p q = Some (v, fs') \<Longrightarrow> tabs fs' = tabs fs"
  by (auto simp: yaffs_rename_reldir_def Let_def dest!: alt_path_tabs FindObject_tabs FindDirectory_tabs fail_tabs on_sys_tabs
      split: Option.bind_splits if_splits option.splits)

lemma mkdir_tabs: "yaffs_mkdir_reldir fs dir path m = Some (v, fs') \<Longrightarrow> tabs fs' = tabs fs"
  unfolding yaffs_mkdir_reldir_def
  by (erule checked_tabs) (auto simp: Let_def dest!: alt_path_tabs look_up_tabs FindDirectory_tabs fail_tabs on_sys_tabs
      split: Option.bind_splits if_splits option.splits)

lemma rmdir_tabs: "yaffs_rmdir_reldir fs dir path = Some (v, fs') \<Longrightarrow> tabs fs' = tabs fs"
  unfolding yaffs_rmdir_reldir_def
  by (erule checked_tabs) (auto simp: Let_def dest!: alt_path_tabs unlink_tabs fail_tabs
      split: Option.bind_splits if_splits option.splits)

lemma symlink_tabs: "yaffs_symlink_reldir fs dir p q = Some (v, fs') \<Longrightarrow> tabs fs' = tabs fs"
  by (auto simp: yaffs_symlink_reldir_def dest!: FindObject_tabs FindDirectory_tabs fail_tabs on_sys_tabs
      split: Option.bind_splits if_splits option.splits)

lemma link_tabs: "yaffs_link_reldir fs dir p q = Some (v, fs') \<Longrightarrow> tabs fs' = tabs fs"
  by (auto simp: yaffs_link_reldir_def yaffsfs_CheckNameLength_def Let_def same_tabs
      dest!: FindObject_tabs FindDirectory_tabs fail_tabs on_sys_tabs
      split: Option.bind_splits if_splits option.splits)

lemma readdir_tabs: "yaffsfs_readdir_no_lock fs p = Some (e, fs') \<Longrightarrow> tabs fs' = tabs fs"
  by (auto simp: yaffsfs_readdir_no_lock_def Let_def same_tabs dest!: equivalent_tabs on_sys_tabs in_sys_tabs
      split: Option.bind_splits if_splits option.splits)

lemma stat_tabs: "yaffsfs_DoStatOrLStat_reldir fs dir path b = Some (v, st, fs') \<Longrightarrow> tabs fs' = tabs fs"
  by (auto simp: yaffsfs_DoStatOrLStat_reldir_def get_existing_def yaffsfs_DoStat_def Let_def same_tabs
      dest!: find_existing_tabs equivalent_tabs on_sys_tabs
      split: Option.bind_splits if_splits option.splits sum.splits)

lemma sync_tabs: "yaffs_sync_common save fs dev path b = Some (v, fs') \<Longrightarrow> tabs fs' = tabs fs"
  unfolding yaffs_sync_common_def
  by (erule on_device_tabs) (auto dest: fail_tabs in_sys_tabs split: Option.bind_splits if_splits)

lemma unmount_device_tabs: "unmount_device save fs d False = Some (gone, fs') \<Longrightarrow> tabs fs' = tabs fs"
  by (auto simp: unmount_device_def Let_def dest!: in_sys_tabs split: Option.bind_splits if_splits)

lemma unmount_tabs: "yaffs_unmount2_common save fs dev path False = Some (v, fs') \<Longrightarrow> tabs fs' = tabs fs"
  unfolding yaffs_unmount2_common_def
  by (erule on_mount_point_tabs) (auto dest!: fail_tabs unmount_device_tabs split: Option.bind_splits if_splits)

lemma format_tabs: "yaffs_format_common me save fs dev path u False m = Some (v, fs') \<Longrightarrow> tabs fs' = tabs fs"
  unfolding yaffs_format_common_def Let_def
  by (erule on_mount_point_tabs)
    (auto dest!: fail_tabs unmount_device_tabs on_sys_tabs split: Option.bind_split_asm if_split_asm)

text \<open>The calls on the attributes of objects.\<close>

lemma get_existing_tabs:
  assumes "get_existing fs dir path b none f = Some (v, x, fs')"
    "\<And>fs1 r. f fs1 r = Some (v, x, fs') \<Longrightarrow> tabs fs' = tabs fs1"
  shows "tabs fs' = tabs fs"
  using assms by (auto simp: get_existing_def same_tabs dest!: find_existing_tabs split: Option.bind_splits option.splits sum.splits)

lemma on_handle_tabs:
  "on_handle fs h f = Some (v, fs') \<Longrightarrow> (\<And>r. f fs r = Some (v, fs') \<Longrightarrow> tabs fs' = tabs fs) \<Longrightarrow> tabs fs' = tabs fs"
  by (auto simp: on_handle_def dest: fail_tabs split: option.splits)

lemma get_handle_tabs:
  "get_handle fs h none f = Some (v, x, fs') \<Longrightarrow> (\<And>r. f fs r = Some (v, x, fs') \<Longrightarrow> tabs fs' = tabs fs) \<Longrightarrow> tabs fs' = tabs fs"
  by (auto simp: get_handle_def same_tabs split: option.splits)

lemma do_stat_tabs: "yaffsfs_DoStat fs r = Some (v, st, fs') \<Longrightarrow> tabs fs' = tabs fs"
  by (auto simp: yaffsfs_DoStat_def Let_def dest!: equivalent_tabs on_sys_tabs split: Option.bind_splits if_splits option.splits)

lemma do_utime_tabs: "yaffsfs_DoUtime fs r buf = Some (v, fs') \<Longrightarrow> tabs fs' = tabs fs"
  unfolding yaffsfs_DoUtime_def
  by (auto dest!: equivalent_tabs on_sys_tabs fail_tabs split: Option.bind_split_asm if_split_asm option.split_asm prod.split_asm)

lemma do_chmod_tabs: "yaffsfs_DoChMod fs r mode = Some (v, fs') \<Longrightarrow> tabs fs' = tabs fs"
  unfolding yaffsfs_DoChMod_def
  by (auto dest!: equivalent_tabs on_sys_tabs split: Option.bind_split_asm option.split_asm prod.split_asm)

lemma xattr_result_tabs [same_tabs]: "tabs (snd (xattr_result v fs)) = tabs fs"
  by (simp add: xattr_result_def same_tabs)

lemma set_xattr_tabs: "set_xattr_of name data flags fs r = Some (v, fs') \<Longrightarrow> tabs fs' = tabs fs"
  by (auto simp: set_xattr_of_def xattr_result_def same_tabs dest!: on_sys_tabs split: Option.bind_splits if_splits)

lemma remove_xattr_tabs: "remove_xattr_of name fs r = Some (v, fs') \<Longrightarrow> tabs fs' = tabs fs"
  by (auto simp: remove_xattr_of_def xattr_result_def same_tabs dest!: on_sys_tabs split: Option.bind_splits if_splits)

lemma fetch_xattr_tabs: "fetch_xattr_of f fs r = Some (v, data, fs') \<Longrightarrow> tabs fs' = tabs fs"
  unfolding fetch_xattr_of_def
  by (auto simp: xattr_result_def same_tabs Let_def dest!: on_sys_tabs split: Option.bind_split_asm if_split_asm prod.split_asm)

lemma path_attr_tabs:
  "yaffs_utime_reldir fs dir path buf = Some (v, fs') \<Longrightarrow> tabs fs' = tabs fs"
  "yaffs_do_setxattr_reldir fs dir path name data flags b = Some (v, fs') \<Longrightarrow> tabs fs' = tabs fs"
  "yaffs_do_removexattr_reldir fs dir path name b = Some (v, fs') \<Longrightarrow> tabs fs' = tabs fs"
  unfolding yaffs_utime_reldir_def yaffs_do_setxattr_reldir_def yaffs_do_removexattr_reldir_def
  by (erule on_existing_tabs, erule do_utime_tabs set_xattr_tabs remove_xattr_tabs)+

lemma path_fetch_tabs:
  "yaffs_do_getxattr_reldir fs dir path name n b = Some (v, x, fs') \<Longrightarrow> tabs fs' = tabs fs"
  "yaffs_do_listxattr_reldir fs dir path n b = Some (v, x, fs') \<Longrightarrow> tabs fs' = tabs fs"
  unfolding yaffs_do_getxattr_reldir_def yaffs_do_listxattr_reldir_def
  by (erule get_existing_tabs, erule fetch_xattr_tabs)+

lemma handle_attr_tabs:
  "yaffs_futime fs h buf = Some (v, fs') \<Longrightarrow> tabs fs' = tabs fs"
  "yaffs_fsetxattr fs h name data flags = Some (v, fs') \<Longrightarrow> tabs fs' = tabs fs"
  "yaffs_fremovexattr fs h name = Some (v, fs') \<Longrightarrow> tabs fs' = tabs fs"
  unfolding yaffs_futime_def yaffs_fsetxattr_def yaffs_fremovexattr_def
  by (erule on_handle_tabs, erule do_utime_tabs set_xattr_tabs remove_xattr_tabs)+

lemma handle_fetch_tabs:
  "yaffs_fstat fs h = Some (v, st, fs') \<Longrightarrow> tabs fs' = tabs fs"
  "yaffs_fgetxattr fs h name n = Some (v, x, fs') \<Longrightarrow> tabs fs' = tabs fs"
  "yaffs_flistxattr fs h n = Some (v, x, fs') \<Longrightarrow> tabs fs' = tabs fs"
  unfolding yaffs_fstat_def yaffs_fgetxattr_def yaffs_flistxattr_def
  by (erule get_handle_tabs, erule do_stat_tabs fetch_xattr_tabs)+

lemma access_tabs: "yaffs_access_reldir fs dir path m = Some (v, fs') \<Longrightarrow> tabs fs' = tabs fs"
  unfolding yaffs_access_reldir_def
  by (erule checked_tabs)
    (auto dest: fail_tabs elim!: on_existing_tabs split: if_split_asm Option.bind_split_asm)

lemma chmod_tabs:
  "yaffs_chmod_reldir fs dir path m = Some (v, fs') \<Longrightarrow> tabs fs' = tabs fs"
  unfolding yaffs_chmod_reldir_def
  by (erule checked_tabs)
    (auto dest: fail_tabs do_chmod_tabs elim!: on_existing_tabs split: if_split_asm Option.bind_split_asm)

lemma fchmod_tabs: "yaffs_fchmod fs h m = Some (v, fs') \<Longrightarrow> tabs fs' = tabs fs"
  unfolding yaffs_fchmod_def
  by (auto dest: fail_tabs do_chmod_tabs elim!: on_handle_tabs split: if_split_asm Option.bind_split_asm)

lemma readlink_tabs: "yaffs_readlink_reldir fs dir path buf = Some (v, b, fs') \<Longrightarrow> tabs fs' = tabs fs"
  unfolding yaffs_readlink_reldir_def
  by (auto simp: same_tabs dest!: find_existing_tabs
      split: option.split_asm Option.bind_split_asm sum.split_asm yaffs_obj_var.split_asm if_split_asm)

lemma n_handles_tabs: "yaffs_n_handles_reldir fs dir path = Some (v, fs') \<Longrightarrow> tabs fs' = tabs fs"
  unfolding yaffs_n_handles_reldir_def
  by (erule checked_tabs) (auto simp: yaffsfs_CountHandles_def yaffsfs_FindInodeIdForObject_def
      dest!: FindObject_tabs equivalent_tabs split: Option.bind_split_asm if_split_asm)

text \<open>The calls on open directories and on descriptors.\<close>

lemma rewinddir_tabs: "yaffsfs_rewinddir_no_lock fs p = Some fs' \<Longrightarrow> tabs fs' = tabs fs"
  by (auto simp: yaffsfs_rewinddir_no_lock_def dest: rewound_tabs split: option.splits if_splits)

lemma fd_dir_tabs:
  "yaffs_readdir_fd fs h = Some (e, fs') \<Longrightarrow> tabs fs' = tabs fs"
  "yaffs_rewinddir_fd fs h = Some fs' \<Longrightarrow> tabs fs' = tabs fs"
  by (auto simp: yaffs_readdir_fd_def yaffs_rewinddir_fd_def dest: readdir_tabs rewinddir_tabs
      split: option.splits if_splits Option.bind_splits)

lemma fgetfl_tabs: "yaffs_fgetfl fs h = (v, x, fs') \<Longrightarrow> tabs fs' = tabs fs"
  by (auto simp: yaffs_fgetfl_def Let_def same_tabs split: option.splits)

text \<open>The calls on devices.\<close>

lemma bg_gc_tabs: "yaffsfs_bg_gc_common fs dev path u = Some (v, fs') \<Longrightarrow> tabs fs' = tabs fs"
  unfolding yaffsfs_bg_gc_common_def
  by (erule on_device_tabs) (auto dest: fail_tabs on_sys_tabs split: Option.bind_splits if_splits)

lemma remount_tabs: "yaffs_remount_common save fs dev path force ro = Some (v, fs') \<Longrightarrow> tabs fs' = tabs fs"
  unfolding yaffs_remount_common_def
  by (erule checked_tabs, erule on_mount_point_tabs)
    (auto dest!: fail_tabs in_sys_tabs on_sys_tabs split: Option.bind_split_asm if_split_asm)

lemma space_tabs:
  "yaffs_freespace_common fs dev path = Some (v, fs') \<Longrightarrow> tabs fs' = tabs fs"
  "yaffs_totalspace_common fs dev path = Some (v, fs') \<Longrightarrow> tabs fs' = tabs fs"
  "yaffs_inodecount_common n fs dev path = Some (v, fs') \<Longrightarrow> tabs fs' = tabs fs"
  unfolding yaffs_freespace_common_def yaffs_totalspace_common_def yaffs_inodecount_common_def
  by (erule on_device_tabs, auto simp: if_mounted_def dest: fail_tabs on_sys_tabs split: Option.bind_splits if_splits)+

lemma device_list_tabs:
  "yaffs_add_device fs d = Some fs' \<Longrightarrow> tabs fs' = tabs fs"
  "tabs (yaffs_remove_device fs d) = tabs fs" "tabs (yaffs_dev_rewind fs) = tabs fs"
  "yaffs_next_dev fs = (n, fs') \<Longrightarrow> tabs fs' = tabs fs"
  by (auto simp: yaffs_add_device_def yaffs_remove_device_def yaffs_dev_rewind_def yaffs_next_dev_def
      tabs_def in_sys_def put_sys_def split: if_splits Option.bind_splits option.splits)


section \<open>Calls that change the tables\<close>

lemma set_position_ok: "tables_ok fs \<Longrightarrow> tables_ok (upd_fd fs f (\<lambda>x. x\<lparr>fd_v := p\<rparr>))"
proof (cases "f < length (fs_fds fs)")
  case True
  assume ok: "tables_ok fs"
  have "fd_handleCount (fs_fds fs ! f) = 0 \<longrightarrow> fd_inodeId (fs_fds fs ! f) = -1"
    using ok nth_mem [OF True] unfolding tables_ok_def fd_table_ok_def by blast
  then show ?thesis using ok by (auto simp: tables_ok_def upd_fd_def intro!: handle_table_fds fd_table_upd)
qed (simp add: upd_fd_def list_update_beyond tables_ok_def)

lemma set_error_ok: "tables_ok (yaffsfs_SetError e fs) = tables_ok fs"
  by (rule tables_ok_tabs) (rule set_error_tabs)

lemma read_loop_tabs: "do_read_loop fs h buf pos n t out = Some (r, b, fs') \<Longrightarrow> tabs fs' = tabs fs"
proof (induction fs h buf pos n t out rule: do_read_loop.induct)
  case (1 fs h buf pos n t out)
  show ?case
  proof (cases "n = 0")
    case True
    then show ?thesis using "1.prems" by (simp add: do_read_loop.simps [of fs])
  next
    case False
    let ?k = "rw_piece pos n"
    obtain m b1 fs1 where m: "(case yaffsfs_HandleToObject fs h of
                     None \<Rightarrow> Some (0, buf, fs)
                   | Some (d, a) \<Rightarrow>
                       do { ((r, buf), fs) \<leftarrow> on_sys fs d (\<lambda>s. do { (r, b, s) \<leftarrow> yaffs_file_rd s a buf pos (int ?k);
                                                                 Some ((r, b), s) });
                            Some (r, buf, fs) }) = Some (m, b1, fs1)"
      and rest: "(if m = int ?k then
                  do_read_loop fs1 h (drop ?k b1) (pos + int ?k) (n - ?k) (t + int ?k) (out @ take ?k b1)
                else Some (t + max 0 m, out @ b1, fs1)) = Some (r, b, fs')"
      using "1.prems" False unfolding do_read_loop.simps [of fs h buf pos n] Let_def by (auto split: Option.bind_splits)
    have "tabs fs1 = tabs fs" using m by (auto dest: on_sys_tabs split: option.splits Option.bind_splits)
    moreover have "tabs fs' = tabs fs1"
      using "1.IH" [OF False refl m refl refl] rest by (auto split: if_splits)
    ultimately show ?thesis by simp
  qed
qed

lemma write_loop_tabs: "do_write_loop fs h buf pos n t = Some (r, fs') \<Longrightarrow> tabs fs' = tabs fs"
proof (induction fs h buf pos n t rule: do_write_loop.induct)
  case (1 fs h buf pos n t)
  show ?case
  proof (cases "n = 0")
    case True
    then show ?thesis using "1.prems" by (simp add: do_write_loop.simps [of fs])
  next
    case False
    let ?k = "rw_piece pos n"
    obtain m fs1 where m: "(case yaffsfs_HandleToObject fs h of
                     None \<Rightarrow> Some (0, fs)
                   | Some (d, a) \<Rightarrow>
                       do { ro \<leftarrow> dev_read_only fs d;
                            if ro then Some (0, fs) else on_sys fs d (\<lambda>s. yaffs_wr_file s a buf pos (int ?k) False) }) = Some (m, fs1)"
      and rest: "(if m = int ?k then
                  do_write_loop fs1 h (drop ?k buf) (pos + int ?k) (n - ?k) (t + int ?k)
                else
                  let t' = t + max 0 m
                  in if m < 1 \<and> t' < 1 then fs_fail ENOSPC fs1 else Some (t', fs1)) = Some (r, fs')"
      using "1.prems" False unfolding do_write_loop.simps [of fs h buf pos n] Let_def by (auto split: Option.bind_splits)
    have "tabs fs1 = tabs fs" using m by (auto dest: on_sys_tabs split: option.splits Option.bind_splits if_splits)
    moreover have "tabs fs' = tabs fs1"
      using "1.IH" [OF False refl m refl] rest by (auto dest: fail_tabs simp: Let_def split: if_splits)
    ultimately show ?thesis by simp
  qed
qed

lemma read_ok:
  assumes r: "yaffsfs_do_read fs h vbuf n off = Some (r, out, fs')" and ok: "tables_ok fs"
  shows "tables_ok fs'"
proof (cases "\<exists>buf f d a. vbuf = Some buf \<and> yaffsfs_HandleToFileDes fs h = Some f \<and> yaffsfs_HandleToObject fs h = Some (d, a) \<and>
    \<not> (\<not> fd_reading (fs_fds fs ! f) \<or> int n > YAFFS_MAX_RW_SIZE)")
  case False
  then have "tabs fs' = tabs fs" using r
    by (auto simp: yaffsfs_do_read_def same_tabs split: option.splits if_splits)
  then show ?thesis using ok tables_ok_tabs by blast
next
  case True
  then obtain buf f d a where h: "vbuf = Some buf" "yaffsfs_HandleToFileDes fs h = Some f" "yaffsfs_HandleToObject fs h = Some (d, a)"
    "\<not> (\<not> fd_reading (fs_fds fs ! f) \<or> int n > YAFFS_MAX_RW_SIZE)" by blast
  note r1 = r [unfolded yaffsfs_do_read_def h(1-3) option.case prod.case if_not_P [OF h(4)]]
  obtain pos len fs1 where 1: "on_sys fs d (\<lambda>s. yaffs_get_obj_length s a) = Some (len, fs1)"
    "(case off of Some off \<Rightarrow> Some off | None \<Rightarrow> position_of (fd_v (fs_fds fs ! f))) = Some pos"
    using r1 by (fastforce split: Option.bind_splits)
  obtain g fs2 where 2: "yaffsfs_GetHandle fs1 h = (g, fs2)" by (cases "yaffsfs_GetHandle fs1 h")
  obtain c t o1 fs3 fs4 where 3: "(if c then Some (-1, buf, fs2) else do_read_loop fs2 h buf pos (min n (if len > pos then nat (len - pos) else 0)) 0 []) =
      Some (t, o1, fs3)" "yaffsfs_PutHandle fs3 h = Some fs4"
    and 4: "fs' = (if off \<noteq> None then fs4 else if t \<ge> 0 then upd_fd fs4 f (\<lambda>x. x\<lparr>fd_v := Position (pos + t)\<rparr>)
                   else yaffsfs_SetError (- EINVAL) fs4)"
    using r1 1 2 by (auto simp: Let_def split: Option.bind_splits)
  have "tables_ok fs1" using ok on_sys_tabs [OF 1(1)] tables_ok_tabs by blast
  then have "tables_ok fs2" using get_handle_ok [OF 2] by blast
  moreover have "tabs fs3 = tabs fs2" using 3(1) by (auto dest: read_loop_tabs split: if_splits)
  ultimately have "tables_ok fs4" using put_handle_ok [OF 3(2)] tables_ok_tabs by blast
  then show ?thesis using 4 set_position_ok by (auto simp: set_error_ok)
qed

lemma write_ok:
  assumes r: "yaffsfs_do_write fs h vbuf n off = Some (r, fs')" and ok: "tables_ok fs"
  shows "tables_ok fs'"
proof (cases "\<exists>buf f d a. vbuf = Some buf \<and> yaffsfs_HandleToFileDes fs h = Some f \<and> yaffsfs_HandleToObject fs h = Some (d, a) \<and>
    fd_writing (fs_fds fs ! f) \<and> dev_read_only fs d = Some False")
  case False
  then have "tabs fs' = tabs fs" using r
    by (auto simp: yaffsfs_do_write_def dest: fail_tabs split: option.splits if_splits Option.bind_splits)
  then show ?thesis using ok tables_ok_tabs by blast
next
  case True
  then obtain buf f d a where h: "vbuf = Some buf" "yaffsfs_HandleToFileDes fs h = Some f" "yaffsfs_HandleToObject fs h = Some (d, a)"
    "\<not> \<not> fd_writing (fs_fds fs ! f)" "dev_read_only fs d = Some False" by blast
  note r1 = r [unfolded yaffsfs_do_write_def h(1-3) option.case prod.case if_not_P [OF h(4)] h(5) Option.bind.bind_lunit if_False]
  obtain pos fs1 where 1: "(if fd_append (fs_fds fs ! f) then on_sys fs d (\<lambda>s. yaffs_get_obj_length s a)
                                else case off of Some off \<Rightarrow> Some (off, fs)
                                | None \<Rightarrow> do { p \<leftarrow> position_of (fd_v (fs_fds fs ! f)); Some (p, fs) }) = Some (pos, fs1)"
    using r1 by (fastforce split: Option.bind_splits)
  obtain g fs2 where 2: "yaffsfs_GetHandle fs1 h = (g, fs2)" by (cases "yaffsfs_GetHandle fs1 h")
  obtain c t fs3 fs4 where 3: "(if c then Some (-1, fs2) else do_write_loop fs2 h buf pos n 0) = Some (t, fs3)" "yaffsfs_PutHandle fs3 h = Some fs4"
    and 4: "fs' = (if off \<noteq> None then fs4 else if t > 0 then upd_fd fs4 f (\<lambda>x. x\<lparr>fd_v := Position (pos + t)\<rparr>)
                   else yaffsfs_SetError (- EINVAL) fs4)"
    using r1 1 2 by (auto simp: Let_def split: Option.bind_splits)
  have "tabs fs1 = tabs fs" using 1 by (auto dest: on_sys_tabs split: if_splits option.splits Option.bind_splits)
  then have "tables_ok fs2" using get_handle_ok [OF 2] ok tables_ok_tabs by blast
  moreover have "tabs fs3 = tabs fs2" using 3(1) by (auto dest: write_loop_tabs split: if_splits)
  ultimately have "tables_ok fs4" using put_handle_ok [OF 3(2)] tables_ok_tabs by blast
  then show ?thesis using 4 set_position_ok by (auto simp: set_error_ok)
qed

lemma lseek_ok:
  assumes r: "yaffs_lseek fs h off w = Some (r, fs')" and ok: "tables_ok fs"
  shows "tables_ok fs'"
proof -
  have "\<exists>fs1. tabs fs1 = tabs fs \<and> (tabs fs' = tabs fs1 \<or> (\<exists>f p. fs' = upd_fd fs1 f (\<lambda>x. x\<lparr>fd_v := p\<rparr>)))"
  proof (cases "\<exists>f d a. yaffsfs_HandleToFileDes fs h = Some f \<and> yaffsfs_HandleToObject fs h = Some (d, a) \<and> \<not> off > YAFFS_MAX_FILE_SIZE")
    case False
    then have "tabs fs' = tabs fs" using r by (auto simp: yaffs_lseek_def dest: fail_tabs split: option.splits if_splits)
    then show ?thesis by blast
  next
    case True
    then obtain f d a where h: "yaffsfs_HandleToFileDes fs h = Some f" "yaffsfs_HandleToObject fs h = Some (d, a)"
      "\<not> off > YAFFS_MAX_FILE_SIZE" by blast
    note r1 = r [unfolded yaffs_lseek_def h(1-2) option.case prod.case if_not_P [OF h(3)]]
    obtain pos fs1 where 1: "(if w = 0 then Some (if off \<ge> 0 then off else -1, fs)
                    else if w = 1 then
                      do { p \<leftarrow> position_of (fd_v (fs_fds fs ! f));
                           Some (if p + off \<ge> 0 then p + off else -1, fs) }
                    else if w = 2 then
                      do { (fSize, fs) \<leftarrow> on_sys fs d (\<lambda>s. yaffs_get_obj_length s a);
                           Some (if fSize \<ge> 0 \<and> fSize + off \<ge> 0 then fSize + off else -1, fs) }
                    else Some (-1, fs)) = Some (pos, fs1)"
      and 2: "(if pos \<ge> 0 \<and> pos \<le> YAFFS_MAX_FILE_SIZE
                 then Some (pos, upd_fd fs1 f (\<lambda>x. x\<lparr>fd_v := Position pos\<rparr>))
                 else fs_fail EINVAL fs1) = Some (r, fs')"
      using r1 by (fastforce split: Option.bind_splits)
    have "tabs fs1 = tabs fs" using 1 by (auto dest: on_sys_tabs split: if_splits option.splits Option.bind_splits)
    then show ?thesis using 2 by (auto dest: fail_tabs split: if_splits)
  qed
  then show ?thesis using ok set_position_ok tables_ok_tabs by metis
qed

lemma close_ok:
  assumes r: "yaffs_close fs h = Some (r, fs')" and ok: "tables_ok fs"
  shows "tables_ok fs'"
proof (cases "\<exists>f d a. yaffsfs_HandleToFileDes fs h = Some f \<and> yaffsfs_HandleToObject fs h = Some (d, a)")
  case False
  then have "tabs fs' = tabs fs" using r by (auto simp: yaffs_close_def dest: fail_tabs split: option.splits)
  then show ?thesis using ok tables_ok_tabs by blast
next
  case True
  then obtain f d a where h: "yaffsfs_HandleToFileDes fs h = Some f" "yaffsfs_HandleToObject fs h = Some (d, a)" by blast
  obtain fs1 where 1: "tabs fs1 = tabs fs" "yaffsfs_PutHandle fs1 h = Some fs'"
    using r unfolding yaffs_close_def h option.case prod.case
    by (auto dest!: on_sys_tabs split: Option.bind_splits if_splits)
  then show ?thesis using put_handle_ok ok tables_ok_tabs by blast
qed

lemma mount_ok:
  assumes r: "yaffs_mount_common me fs dev path ro sk = Some (r, fs')" and ok: "tables_ok fs"
  shows "tables_ok fs'"
proof -
  have i: "tables_ok (yaffsfs_InitHandles fs)"
    using ok init_handles_ok [of fs] by (cases "fs_ready fs") (simp_all add: yaffsfs_InitHandles_def)
  have "tabs fs' = tabs fs \<or> tabs fs' = tabs (yaffsfs_InitHandles fs)"
  proof (cases "if dev = None then path_problem path else None")
    case None
    then have "on_mount_point (yaffsfs_InitHandles fs) dev path (\<lambda>fs d.
            do { s \<leftarrow> sys_of fs d;
                 if is_mounted s then fs_fail EBUSY fs
                 else
                   do { (result, fs) \<leftarrow> on_sys fs d (mount_sys me ro sk);
                        if result = YAFFS_FAIL then fs_fail ENOMEM fs else Some (0, fs) } }) = Some (r, fs')"
      using r by (simp add: yaffs_mount_common_def)
    then have "tabs fs' = tabs (yaffsfs_InitHandles fs)"
      by (rule on_mount_point_tabs) (auto dest!: fail_tabs on_sys_tabs split: Option.bind_splits if_splits)
    then show ?thesis by blast
  next
    case (Some e)
    then show ?thesis using r by (auto simp: yaffs_mount_common_def dest: fail_tabs)
  qed
  then show ?thesis using ok i tables_ok_tabs by blast
qed

lemma open_existing_tabs: "open_existing fs dir p r oflag isd rr wr sr sw = Some (den, dsc, fs') \<Longrightarrow> tabs fs' = tabs fs"
  by (auto simp: open_existing_def Let_def same_tabs dest!: opendir_tabs split: Option.bind_splits if_splits)

lemma open_missing_tabs: "open_missing fs dir p oflag mode l = Some (r, fs') \<Longrightarrow> tabs fs' = tabs fs"
  by (auto simp: open_missing_def same_tabs dest!: FindDirectory_tabs on_sys_tabs
      split: Option.bind_splits if_splits option.splits)

lemma fd_of_tabs: "tabs fs' = tabs fs \<Longrightarrow> yaffsfs_HandleToFileDes fs' h = yaffsfs_HandleToFileDes fs h \<and> fs_fds fs' = fs_fds fs"
  by (simp add: tabs_def yaffsfs_HandleToFileDes_def yaffsfs_HandleToPointer_def)

lemma open_ok:
  assumes r: "yaffs_open_sharing_reldir fs dir path oflag mode sharing = Some (v, fs')" and ok: "tables_ok fs"
    and obj: "0 \<le> v \<Longrightarrow> yaffsfs_HandleToObject fs' v \<noteq> None"
  shows "tables_ok fs'"
proof (cases "path_problem path")
  case (Some e)
  then show ?thesis using r ok tables_ok_tabs fail_tabs by (auto simp: yaffs_open_sharing_reldir_def path_checked_def) blast
next
  case None
  define rw where "rw = oflag AND (O_RDWR OR O_WRONLY)"
  define rd where "rd = (rw = O_RDWR \<or> rw = 0)"
  define wr where "wr = (rw = O_RDWR \<or> rw = O_WRONLY)"
  note r1 = r [unfolded yaffs_open_sharing_reldir_def path_checked_def None option.case Let_def, folded rw_def, folded rd_def wr_def]
  obtain h fs1 where n: "yaffsfs_NewHandleAndFileDes fs = (h, fs1)" by (cases "yaffsfs_NewHandleAndFileDes fs")
  note r2 = r1 [unfolded n prod.case]
  note new = new_fd_ok [OF n ok]
  show ?thesis
  proof (cases "h < 0")
    case True
    then have "fs_fail ENFILE fs1 = Some (v, fs')" using r2 by simp
    then show ?thesis using new tables_ok_tabs [OF fail_tabs] by blast
  next
    case False
    obtain k where k: "yaffsfs_HandleToFileDes fs1 h = Some k" "fd_inodeId (fs_fds fs1 ! k) = -1" using new False by auto
    note r3 = r2 [unfolded if_not_P [OF False]]
    obtain o1 d1 nd1 l1 fs2 o2 l2 fs3 where 2: "yaffsfs_FindObject fs1 dir (the path) True = Some (o1, d1, nd1, l1, fs2)"
      "follow_link fs2 o1 = Some (o2, l2, fs3)"
      using r3 by (auto split: Option.bind_splits)
    have t3: "tabs fs3 = tabs fs1" using FindObject_tabs [OF 2(1)] follow_link_tabs [OF 2(2)] by simp
    obtain x where x: "(case o2 of None \<Rightarrow> Some None | Some r \<Rightarrow> map_option Some (fs_obj fs3 r)) = Some x"
      using r3 [unfolded 2 prod.case Option.bind.bind_lunit]
      by (cases "(case o2 of None \<Rightarrow> Some None | Some r \<Rightarrow> map_option Some (fs_obj fs3 r))") (simp only: Option.bind.bind_lzero option.distinct, blast)
    note r4 = r3 [unfolded 2 prod.case Option.bind.bind_lunit x]
    obtain there isd rr ww o3 den dsc fs4 where 3: "(if there then
                        do { r \<leftarrow> o2;
                             (denied, dsc, fs) \<leftarrow>
                               open_existing fs3 dir (the path) r (sane_flags oflag) isd rr ww
                                 (has_flag sharing YAFFS_SHARE_READ) (has_flag sharing YAFFS_SHARE_WRITE);
                             Some (o2, denied, dsc, fs) }
                      else
                        do { (o', fs) \<leftarrow> open_missing fs3 dir (the path) (sane_flags oflag) mode l2;
                             Some (o', False, None, fs) }) = Some (o3, den, dsc, fs4)"
      and 4: "(case o3 of
                     Some r \<Rightarrow>
                       if den then
                         do { fs \<leftarrow> (if dsc \<noteq> None then do { (c, fs) \<leftarrow> yaffsfs_closedir_no_lock fs4 dsc; Some fs }
                                     else Some fs4);
                              fs \<leftarrow> yaffsfs_PutHandle fs h;
                              Some (-1, fs) }
                       else
                         do { fs \<leftarrow> open_done fs4 h r (sane_flags oflag) isd rr ww
                                (has_flag sharing YAFFS_SHARE_READ) (has_flag sharing YAFFS_SHARE_WRITE) dsc;
                              Some (h, fs) }
                   | None \<Rightarrow> do { fs \<leftarrow> yaffsfs_PutHandle fs4 h; Some (-1, fs) }) = Some (v, fs')"
      using r4 [unfolded Option.bind_eq_Some_conv split_paired_Ex prod.case] by blast
    have t4: "tabs fs4 = tabs fs1"
      using 3 t3 by (auto dest!: open_existing_tabs open_missing_tabs split: if_splits Option.bind_splits)
    then have ok4: "tables_ok fs4" using new tables_ok_tabs by blast
    show ?thesis
    proof (cases o3)
      case None
      then show ?thesis using 4 put_handle_ok ok4 by (auto split: Option.bind_splits)
    next
      case (Some q)
      show ?thesis
      proof (cases den)
        case True
        then obtain fs5 where "tabs fs5 = tabs fs4" "yaffsfs_PutHandle fs5 h = Some fs'"
          using 4 Some by (auto dest!: closedir_tabs split: Option.bind_splits if_splits)
        then show ?thesis using put_handle_ok ok4 tables_ok_tabs by blast
      next
        case False': False
        have e: "open_done fs4 h q (sane_flags oflag) isd rr ww (has_flag sharing YAFFS_SHARE_READ)
            (has_flag sharing YAFFS_SHARE_WRITE) dsc = Some fs'" "v = h"
          using 4 Some False' by (auto split: Option.bind_splits)
        show ?thesis by (rule open_done_ok [OF e(1) ok4, of k]) (use k fd_of_tabs [OF t4] obj e(2) False in auto)
      qed
    qed
  qed
qed

section \<open>Steps\<close>

text \<open>
  The calls of the interface: each path function stands for its variants, which start at the
  root of a device or at the device that the path names.  Two calls are missing, the forced
  end of a mount and the forced format: they break the handles of all devices.  And an open
  counts as a step only if a handle that it returns has its object, that is, if what
  was opened is not a hard link whose object is missing.
\<close>

inductive fs_step :: "'n yaffsfs \<Rightarrow> 'n yaffsfs \<Rightarrow> bool" where
  step_mount: "yaffs_mount_common me fs dev path ro sk = Some (v, fs') \<Longrightarrow> fs_step fs fs'"
| step_open: "yaffs_open_sharing_reldir fs dir path oflag mode sharing = Some (v, fs') \<Longrightarrow>
    (0 \<le> v \<longrightarrow> yaffsfs_HandleToObject fs' v \<noteq> None) \<Longrightarrow> fs_step fs fs'"
| step_dup: "yaffs_dup fs h = (v, fs') \<Longrightarrow> fs_step fs fs'"
| step_close: "yaffs_close fs h = Some (v, fs') \<Longrightarrow> fs_step fs fs'"
| step_read: "yaffsfs_do_read fs h vbuf n off = Some (v, out, fs') \<Longrightarrow> fs_step fs fs'"
| step_write: "yaffsfs_do_write fs h vbuf n off = Some (v, fs') \<Longrightarrow> fs_step fs fs'"
| step_lseek: "yaffs_lseek fs h pos whence = Some (v, fs') \<Longrightarrow> fs_step fs fs'"
| step_truncate: "yaffs_truncate_reldir fs dir path m = Some (v, fs') \<Longrightarrow> fs_step fs fs'"
| step_ftruncate: "yaffs_ftruncate fs h m = Some (v, fs') \<Longrightarrow> fs_step fs fs'"
| step_fsync: "yaffs_Dofsync fs h b = Some (v, fs') \<Longrightarrow> fs_step fs fs'"
| step_unlink: "yaffs_unlink_reldir fs dir path = Some (v, fs') \<Longrightarrow> fs_step fs fs'"
| step_funlink: "yaffs_funlink fs h = Some (v, fs') \<Longrightarrow> fs_step fs fs'"
| step_rename: "yaffs_rename_reldir fs dir path path' = Some (v, fs') \<Longrightarrow> fs_step fs fs'"
| step_mkdir: "yaffs_mkdir_reldir fs dir path mode = Some (v, fs') \<Longrightarrow> fs_step fs fs'"
| step_rmdir: "yaffs_rmdir_reldir fs dir path = Some (v, fs') \<Longrightarrow> fs_step fs fs'"
| step_symlink: "yaffs_symlink_reldir fs dir path path' = Some (v, fs') \<Longrightarrow> fs_step fs fs'"
| step_link: "yaffs_link_reldir fs dir path path' = Some (v, fs') \<Longrightarrow> fs_step fs fs'"
| step_stat: "yaffsfs_DoStatOrLStat_reldir fs dir path b = Some (v, st, fs') \<Longrightarrow> fs_step fs fs'"
| step_opendir: "yaffsfs_opendir_reldir_no_lock fs dir path = Some (dp, fs') \<Longrightarrow> fs_step fs fs'"
| step_readdir: "yaffsfs_readdir_no_lock fs dp = Some (e, fs') \<Longrightarrow> fs_step fs fs'"
| step_closedir: "yaffsfs_closedir_no_lock fs dp = Some (v, fs') \<Longrightarrow> fs_step fs fs'"
| step_sync: "yaffs_sync_common save fs dev path b = Some (v, fs') \<Longrightarrow> fs_step fs fs'"
| step_unmount: "yaffs_unmount2_common save fs dev path False = Some (v, fs') \<Longrightarrow> fs_step fs fs'"
| step_format: "yaffs_format_common me save fs dev path u False m = Some (v, fs') \<Longrightarrow> fs_step fs fs'"
| step_remount: "yaffs_remount_common save fs dev path force ro = Some (v, fs') \<Longrightarrow> fs_step fs fs'"
| step_bg_gc: "yaffsfs_bg_gc_common fs dev path urgency = Some (v, fs') \<Longrightarrow> fs_step fs fs'"
| step_freespace: "yaffs_freespace_common fs dev path = Some (v, fs') \<Longrightarrow> fs_step fs fs'"
| step_totalspace: "yaffs_totalspace_common fs dev path = Some (v, fs') \<Longrightarrow> fs_step fs fs'"
| step_inodecount: "yaffs_inodecount_common n fs dev path = Some (v, fs') \<Longrightarrow> fs_step fs fs'"
| step_add_device: "yaffs_add_device fs d = Some fs' \<Longrightarrow> fs_step fs fs'"
| step_remove_device: "fs' = yaffs_remove_device fs d \<Longrightarrow> fs_step fs fs'"
| step_dev_rewind: "fs' = yaffs_dev_rewind fs \<Longrightarrow> fs_step fs fs'"
| step_next_dev: "yaffs_next_dev fs = (next_d, fs') \<Longrightarrow> fs_step fs fs'"
| step_fstat: "yaffs_fstat fs h = Some (v, st, fs') \<Longrightarrow> fs_step fs fs'"
| step_utime: "yaffs_utime_reldir fs dir path tm = Some (v, fs') \<Longrightarrow> fs_step fs fs'"
| step_futime: "yaffs_futime fs h tm = Some (v, fs') \<Longrightarrow> fs_step fs fs'"
| step_setxattr: "yaffs_do_setxattr_reldir fs dir path name data flags b = Some (v, fs') \<Longrightarrow> fs_step fs fs'"
| step_fsetxattr: "yaffs_fsetxattr fs h name data flags = Some (v, fs') \<Longrightarrow> fs_step fs fs'"
| step_getxattr: "yaffs_do_getxattr_reldir fs dir path name n b = Some (v, x, fs') \<Longrightarrow> fs_step fs fs'"
| step_fgetxattr: "yaffs_fgetxattr fs h name n = Some (v, x, fs') \<Longrightarrow> fs_step fs fs'"
| step_listxattr: "yaffs_do_listxattr_reldir fs dir path n b = Some (v, x, fs') \<Longrightarrow> fs_step fs fs'"
| step_flistxattr: "yaffs_flistxattr fs h n = Some (v, x, fs') \<Longrightarrow> fs_step fs fs'"
| step_removexattr: "yaffs_do_removexattr_reldir fs dir path name b = Some (v, fs') \<Longrightarrow> fs_step fs fs'"
| step_fremovexattr: "yaffs_fremovexattr fs h name = Some (v, fs') \<Longrightarrow> fs_step fs fs'"
| step_access: "yaffs_access_reldir fs dir path amode = Some (v, fs') \<Longrightarrow> fs_step fs fs'"
| step_chmod: "yaffs_chmod_reldir fs dir path mode = Some (v, fs') \<Longrightarrow> fs_step fs fs'"
| step_fchmod: "yaffs_fchmod fs h mode = Some (v, fs') \<Longrightarrow> fs_step fs fs'"
| step_readlink: "yaffs_readlink_reldir fs dir path buf = Some (v, x, fs') \<Longrightarrow> fs_step fs fs'"
| step_mknod: "yaffs_mknod_reldir fs dir path mode rdev = Some (v, fs') \<Longrightarrow> fs_step fs fs'"
| step_n_handles: "yaffs_n_handles_reldir fs dir path = Some (v, fs') \<Longrightarrow> fs_step fs fs'"
| step_fgetfl: "yaffs_fgetfl fs h = (v, x, fs') \<Longrightarrow> fs_step fs fs'"
| step_rewinddir: "yaffsfs_rewinddir_no_lock fs dp = Some fs' \<Longrightarrow> fs_step fs fs'"
| step_readdir_fd: "yaffs_readdir_fd fs h = Some (e, fs') \<Longrightarrow> fs_step fs fs'"
| step_rewinddir_fd: "yaffs_rewinddir_fd fs h = Some fs' \<Longrightarrow> fs_step fs fs'"
| step_set_error: "yaffs_set_error fs e = (v, fs') \<Longrightarrow> fs_step fs fs'"

inductive_cases fs_stepE: "fs_step fs fs'"

text \<open>Most steps leave the tables alone; the others keep the counts.\<close>

lemmas quiet_tabs =
  truncate_tabs ftruncate_tabs fsync_tabs unlink_tabs funlink_tabs rename_tabs mkdir_tabs rmdir_tabs symlink_tabs
  link_tabs stat_tabs opendir_tabs readdir_tabs closedir_tabs sync_tabs unmount_tabs format_tabs remount_tabs
  bg_gc_tabs space_tabs device_list_tabs path_attr_tabs path_fetch_tabs handle_attr_tabs handle_fetch_tabs
  access_tabs chmod_tabs fchmod_tabs readlink_tabs n_handles_tabs fgetfl_tabs rewinddir_tabs fd_dir_tabs fail_tabs

lemma quiet_step: "tabs fs' = tabs fs \<Longrightarrow> tables_ok fs \<longrightarrow> tables_ok fs'"
  using tables_ok_tabs by blast

lemma fs_step_ok: "fs_step fs fs' \<Longrightarrow> tables_ok fs \<longrightarrow> tables_ok fs'"
proof (induction rule: fs_step.induct)
  case (step_mount me fs dev path ro sk v fs')
  then show ?case using mount_ok by blast
next
  case (step_open fs dir path oflag mode sharing v fs')
  then show ?case using open_ok by blast
next
  case (step_dup fs h v fs')
  then show ?case using dup_ok by blast
next
  case (step_close fs h v fs')
  then show ?case using close_ok by blast
next
  case (step_read fs h vbuf n off v out fs')
  then show ?case using read_ok by blast
next
  case (step_write fs h vbuf n off v fs')
  then show ?case using write_ok by blast
next
  case (step_lseek fs h pos whence v fs')
  then show ?case using lseek_ok by blast
next
  case (step_unlink fs dir path v fs')
  then show ?case by (intro quiet_step) (unfold yaffs_unlink_reldir_def, erule unlink_tabs)
next
  case (step_mknod fs dir path mode rdev v fs')
  then show ?case by (intro quiet_step) (unfold yaffs_mknod_reldir_def, erule fail_tabs)
next
  case (step_set_error fs e v fs')
  then show ?case by (auto simp: yaffs_set_error_def set_error_ok)
qed (rule quiet_step, (erule quiet_tabs | simp add: device_list_tabs))+

end
