(* ===== verification/Yaffs_Fs_Names_Props.thy ===== *)
theory Yaffs_Fs_Names_Props
  imports Yaffs_Fs_Path Yaffs_Obj_Props "HOL-Library.Sublist"
begin

text \<open>
  What the comparisons of paths in direct/yaffsfs.c mean: a path is the list of its components.
\<close>

section \<open>Components\<close>

abbreviation in_name :: "u8 \<Rightarrow> bool" where "in_name c \<equiv> \<not> yaffsfs_IsPathDivider c"

function comps :: "u8 list \<Rightarrow> u8 list list" where
  "comps p =
     (if skip_dividers p = [] then []
      else takeWhile in_name (skip_dividers p) # comps (dropWhile in_name (skip_dividers p)))"
  by pat_completeness auto
termination
proof (relation "measure length")
  fix p :: "u8 list"
  assume "skip_dividers p \<noteq> []"
  then obtain c q where q: "skip_dividers p = c # q" "\<not> yaffsfs_IsPathDivider c"
    using hd_dropWhile [of yaffsfs_IsPathDivider p] by (cases "skip_dividers p") auto
  have "length (dropWhile in_name q) \<le> length q" "length (skip_dividers p) \<le> length p" by (rule length_dropWhile_le)+
  then show "(dropWhile in_name (skip_dividers p), p) \<in> measure length" using q by simp
qed simp

declare comps.simps [simp del]

lemma skip_idem [simp]: "skip_dividers (skip_dividers p) = skip_dividers p"
  by (rule dropWhile_idem)

lemma comps_skip [simp]: "comps (skip_dividers p) = comps p"
  by (subst (1 2) comps.simps) simp

lemma comps_Nil [simp]: "comps [] = []"
  by (simp add: comps.simps [of "[]"])

lemma comps_empty: "comps p = [] \<longleftrightarrow> skip_dividers p = []"
  by (subst comps.simps) simp

lemma comps_text: "p = skip_dividers p \<Longrightarrow> p \<noteq> [] \<Longrightarrow> comps p = takeWhile in_name p # comps (dropWhile in_name p)"
  using comps.simps [of p] by simp

section \<open>The comparison with the name of a device\<close>

lemma no_text: "takeWhile P xs = [] \<longleftrightarrow> xs = [] \<or> \<not> P (hd xs)" "xs = [] \<or> \<not> P (hd xs) \<Longrightarrow> dropWhile P xs = xs"
  by (cases xs; simp)+

lemma match_text_spec:
  "match_text p l n = (m, p', l', n') \<Longrightarrow>
     (takeWhile in_name p = takeWhile in_name l \<longrightarrow>
        m \<and> p' = dropWhile in_name p \<and> l' = dropWhile in_name l \<and> n' = n + length (takeWhile in_name p)) \<and>
     (takeWhile in_name p \<noteq> takeWhile in_name l \<longrightarrow> in_text p' \<or> in_text l')"
  by (induction p l n rule: match_text.induct)
    (auto simp: in_text_def yaffsfs_Match_def no_text eq_commute [of "[]"] split: if_splits)

lemma not_in_text: "\<not> in_text (dropWhile in_name p)"
  using hd_dropWhile [of in_name p] by (auto simp: in_text_def)

lemma match_name_spec:
  "match_name p left n = (m, p', left', n') \<Longrightarrow> p = skip_dividers p \<Longrightarrow> left = skip_dividers left \<Longrightarrow>
     (m \<and> skip_dividers p' = [] \<longleftrightarrow> prefix (comps p) (comps left)) \<and>
     (prefix (comps p) (comps left) \<longrightarrow> n' = n + length (concat (comps p)) \<and> comps left = comps p @ comps left')"
proof (induction p left n arbitrary: m p' left' n' rule: match_name.induct)
  case (1 p left n)
  show ?case
  proof (cases "p = [] \<or> left = []")
    case True
    then show ?thesis using "1.prems" comps_empty [of p] by (auto simp: match_name.simps [of p left])
  next
    case False
    obtain m1 p1 l1 n1 where t: "match_text p left n = (m1, p1, l1, n1)" by (cases "match_text p left n")
    have cp: "comps p = takeWhile in_name p # comps (dropWhile in_name p)" using comps_text "1.prems"(2) False by simp
    have cl: "comps left = takeWhile in_name left # comps (dropWhile in_name left)" using comps_text "1.prems"(3) False by simp
    note ms = match_text_spec [OF t]
    show ?thesis
    proof (cases "takeWhile in_name p = takeWhile in_name left")
      case False': False
      then have "match_name p left n = (False, p1, l1, n1)" using ms t False by (simp add: match_name.simps [of p left])
      then show ?thesis using "1.prems"(1) False' cp cl by simp
    next
      case True
      have m1: "m1" "p1 = dropWhile in_name p" "l1 = dropWhile in_name left" "n1 = n + length (takeWhile in_name p)"
        using ms True by blast+
      have nt: "\<not> (in_text p1 \<or> in_text l1)" using m1 not_in_text by simp
      have "in_name (hd p)" using hd_dropWhile [of yaffsfs_IsPathDivider p] "1.prems"(2) False by metis
      then have "length p1 < length p" using m1(2) False by (cases p) (auto simp: le_imp_less_Suc length_dropWhile_le)
      then have sh: "length (skip_dividers p1) < length p"
        using length_dropWhile_le [of yaffsfs_IsPathDivider p1] by linarith
      have "match_name (skip_dividers p1) (skip_dividers l1) n1 = (m, p', left', n')"
        using "1.prems"(1) False t nt sh by (simp add: match_name.simps [of p left])
      from "1.IH" [OF False t [symmetric] refl refl refl nt sh this]
      show ?thesis using True cp cl m1 by auto
    qed
  qed
qed

lemma match_device_spec:
  "case match_device name path of
     None \<Rightarrow> \<not> prefix (comps name) (comps path)
   | Some (n, rest) \<Rightarrow> n = length (concat (comps name)) \<and> comps path = comps name @ comps rest \<and> rest = skip_dividers rest"
proof -
  obtain m p l n where r: "match_name (skip_dividers name) (skip_dividers path) 0 = (m, p, l, n)"
    by (cases "match_name (skip_dividers name) (skip_dividers path) 0")
  from match_name_spec [OF r] show ?thesis by (auto simp: match_device_def r)
qed

section \<open>The device of a path\<close>

text \<open>The devices of the list whose name is the front of the path, by whole components.\<close>

definition names_path :: "'n yaffsfs \<Rightarrow> nat \<Rightarrow> u8 list \<Rightarrow> u8 list \<Rightarrow> bool" where
  "names_path fs d name path \<longleftrightarrow>
     (\<exists>dv. fs_devs fs d = Some dv \<and> dev_name dv = Some name) \<and> prefix (comps name) (comps path)"

definition best_device :: "'n yaffsfs \<Rightarrow> nat set \<Rightarrow> u8 list \<Rightarrow> (nat \<times> u8 list) option \<Rightarrow> bool" where
  "best_device fs ds path r \<longleftrightarrow>
     (case r of
        None \<Rightarrow> \<forall>d \<in> ds. \<forall>name. \<not> names_path fs d name path
      | Some (d, rest) \<Rightarrow> d \<in> ds \<and> rest = skip_dividers rest \<and>
          (\<exists>name. names_path fs d name path \<and> comps path = comps name @ comps rest \<and>
             (\<forall>e \<in> ds. \<forall>other. names_path fs e other path \<longrightarrow> prefix (comps other) (comps name))))"

lemma prefix_by_chars:
  assumes "prefix xs zs" "prefix ys zs" "length (concat xs) \<le> length (concat ys)" "[] \<notin> set zs"
  shows "prefix xs ys"
proof (rule ccontr)
  assume n: "\<not> prefix xs ys"
  then obtain us where us: "xs = ys @ us" "us \<noteq> []"
    using prefix_same_cases [OF assms(1,2)] by (auto simp: prefix_def)
  then have "length (concat us) = 0" using assms(3) by simp
  then have "set us \<subseteq> {[]}" by (auto simp: concat_eq_Nil_conv)
  then have "[] \<in> set zs" using us assms(1) by (cases us) (auto simp: prefix_def)
  then show False using assms(4) by simp
qed

lemma comps_not_empty: "[] \<notin> set (comps p)"
proof (induction p rule: comps.induct)
  case (1 p)
  show ?case
  proof (cases "skip_dividers p = []")
    case True
    then show ?thesis using comps_empty [of p] by simp
  next
    case False
    have "takeWhile in_name (skip_dividers p) \<noteq> []" using hd_dropWhile [OF False] False by (simp only: no_text) simp
    then show ?thesis using 1 [OF False] False comps.simps [of p] by (metis set_ConsD)
  qed
qed

lemma find_device_loop_best:
  assumes "find_device_loop fs ds path longest best = Some r"
    and "\<forall>e \<in> done. \<exists>dv. fs_devs fs e = Some dv"
    and "case best of
           None \<Rightarrow> longest = -1 \<and> (\<forall>d \<in> done. \<forall>name. \<not> names_path fs d name path)
         | Some (d, rest) \<Rightarrow> d \<in> done \<and> rest = skip_dividers rest \<and>
             (\<exists>name. names_path fs d name path \<and> comps path = comps name @ comps rest \<and> longest = int (length (concat (comps name))) \<and>
             (\<forall>e \<in> done. \<forall>other. names_path fs e other path \<longrightarrow> int (length (concat (comps other))) \<le> longest))"
  shows "best_device fs (done \<union> set ds) path r"
  using assms
proof (induction fs ds path longest best arbitrary: "done" rule: find_device_loop.induct)
  case (1 fs path longest best)
  show ?case
  proof (cases best)
    case (Some b)
    obtain d rest where b: "b = (d, rest)" by (cases b)
    obtain name where "d \<in> done" "rest = skip_dividers rest" "names_path fs d name path" "comps path = comps name @ comps rest"
      "\<forall>e \<in> done. \<forall>other. names_path fs e other path \<longrightarrow> length (concat (comps other)) \<le> length (concat (comps name))"
      using "1.prems"(3) Some b by auto
    moreover have "prefix (comps other) (comps name)" if "names_path fs e other path" "length (concat (comps other)) \<le> length (concat (comps name))" for e other
      using that \<open>names_path fs d name path\<close> comps_not_empty [of path] unfolding names_path_def by (blast intro: prefix_by_chars)
    moreover have "r = Some (d, rest)" using "1.prems"(1) Some b by simp
    ultimately show ?thesis unfolding best_device_def by (simp del: append_same_eq) blast
  qed (use "1.prems" in \<open>simp add: best_device_def\<close>)
next
  case (2 fs d ds path longest best)
  obtain dv where dv: "fs_devs fs d = Some dv" using "2.prems"(1) by (auto split: Option.bind_splits)
  have dn: "\<forall>e \<in> insert d done. \<exists>dv. fs_devs fs e = Some dv" using dv "2.prems"(2) by blast
  have np: "names_path fs d name path \<longleftrightarrow> dev_name dv = Some name \<and> prefix (comps name) (comps path)" for name
    using dv by (auto simp: names_path_def)
  have swap: "insert d done \<union> set ds = done \<union> set (d # ds)" by simp
  show ?case
  proof (cases "dev_name dv")
    case None
    then have "find_device_loop fs ds path longest best = Some r" using "2.prems"(1) dv by simp
    moreover have "\<not> names_path fs d name path" for name using np None by simp
    ultimately show ?thesis
      using "2.IH"(1) [OF dv None, of "insert d done"] dn "2.prems"(3) unfolding swap [symmetric] by (cases best) fastforce+
  next
    case (Some nm)
    note spec = match_device_spec [of nm path]
    show ?thesis
    proof (cases "match_device nm path")
      case None
      then have "find_device_loop fs ds path longest best = Some r" using "2.prems"(1) dv Some by simp
      moreover have "\<not> names_path fs d name path" for name using np Some None spec by auto
      ultimately show ?thesis
        using "2.IH"(2) [OF dv Some None, of "insert d done"] dn "2.prems"(3) unfolding swap [symmetric] by (cases best) fastforce+
    next
      case m: (Some mr)
      obtain n rest where mr: "mr = (n, rest)" by (cases mr)
      have sp: "n = length (concat (comps nm))" "comps path = comps nm @ comps rest" "rest = skip_dividers rest"
        using spec m mr by auto
      show ?thesis
      proof (cases "int n > longest")
        case True
        then have "find_device_loop fs ds path (int n) (Some (d, rest)) = Some r" using "2.prems"(1) dv Some m mr by simp
        moreover have "length (concat (comps other)) \<le> n" if "e \<in> done" "names_path fs e other path" for e other
          using "2.prems"(3) that True by (cases best) force+
        ultimately show ?thesis
          using "2.IH"(3) [OF dv Some m [unfolded mr] refl True, of "insert d done"] dn sp np Some unfolding swap [symmetric] by fastforce
      next
        case False
        then have "find_device_loop fs ds path longest best = Some r" using "2.prems"(1) dv Some m mr by simp
        moreover have "case best of
           None \<Rightarrow> longest = -1 \<and> (\<forall>d \<in> insert d done. \<forall>name. \<not> names_path fs d name path)
         | Some (d1, rest) \<Rightarrow> d1 \<in> insert d done \<and> rest = skip_dividers rest \<and>
             (\<exists>name. names_path fs d1 name path \<and> comps path = comps name @ comps rest \<and> longest = int (length (concat (comps name))) \<and>
             (\<forall>e \<in> insert d done. \<forall>other. names_path fs e other path \<longrightarrow> int (length (concat (comps other))) \<le> longest))"
          using "2.prems"(3) False sp(1) np Some by (cases best) auto
        ultimately show ?thesis
          using "2.IH"(4) [OF dv Some m [unfolded mr] refl False, of "insert d done"] dn unfolding swap [symmetric] by blast
      qed
    qed
  qed
qed

lemma find_device_loop_ends: "\<forall>d \<in> set ds. fs_devs fs d \<noteq> None \<Longrightarrow> \<exists>r. find_device_loop fs ds path longest best = Some r"
  by (induction fs ds path longest best rule: find_device_loop.induct) (auto split: option.splits)

text \<open>
  C12: \<^verbatim>\<open>yaffsfs_FindDevice\<close> returns with a device whenever the name of some device in the list is
  the front of the path, and then with the one whose name has the most components; what it
  leaves of the path are the components after the name.  Names match by whole components,
  however many dividers stand between them.
\<close>

theorem find_device_longest:
  assumes "\<forall>d \<in> set (fs_devlist fs). fs_devs fs d \<noteq> None"
  shows "\<exists>r. yaffsfs_FindDevice fs path = Some r \<and> best_device fs (set (fs_devlist fs)) path r"
proof -
  obtain r where r: "find_device_loop fs (fs_devlist fs) path (-1) None = Some r" using find_device_loop_ends [OF assms] by blast
  have "best_device fs ({} \<union> set (fs_devlist fs)) path r" by (rule find_device_loop_best [OF r]) simp_all
  then show ?thesis using r by (simp add: yaffsfs_FindDevice_def)
qed

text \<open>Two devices, with one file at the root, mounted at \<^verbatim>\<open>/\<close> and at \<^verbatim>\<open>/a\<close>.\<close>

definition fs_start :: "unit yaffsfs" where
  "fs_start =
     (let s = small_sys\<lparr>objs := small_heap(0 \<mapsto> zero_obj\<lparr>o_variant := DirVar [1] False, o_yst_mode := 0x1ff\<rparr>)\<rparr>
      in \<lparr>fs_devs = [0 \<mapsto> \<lparr>dev_name = Some [47], max_objects = 0, dev_sys = s\<rparr>,
                    1 \<mapsto> \<lparr>dev_name = Some [47, 97], max_objects = 0, dev_sys = s\<rparr>],
          fs_devlist = [0, 1], fs_inodes = [], fs_fds = [], fs_handles = [], fs_dscs = [], fs_ready = False,
          fs_error = 0, fs_kmallocs = [], fs_stack = 9, fs_iterator = None\<rparr>)"

theorem find_device_longest_witness:
  "yaffsfs_FindDevice fs_start [47, 97, 47, 98] = Some (Some (1, [98])) \<and>
   best_device fs_start {0, 1} [47, 97, 47, 98] (Some (1, [98]))"
proof -
  have "yaffsfs_FindDevice fs_start [47, 97, 47, 98] = Some (Some (1, [98]))" by code_simp
  moreover have "\<forall>d \<in> set (fs_devlist fs_start). fs_devs fs_start d \<noteq> None" "set (fs_devlist fs_start) = {0, 1}"
    by (auto simp: fs_start_def Let_def)
  ultimately show ?thesis using find_device_longest [of fs_start "[47, 97, 47, 98]"] by auto
qed

section \<open>The lengths of the components\<close>

text \<open>The length of the component at the end of \<open>p\<close>, and the number of dividers.\<close>

definition run :: "u8 list \<Rightarrow> nat" where "run p = length (takeWhile in_name (rev p))"
definition dividers :: "u8 list \<Rightarrow> nat" where "dividers p = length (filter yaffsfs_IsPathDivider p)"

lemma check_path_loop_spec:
  "check_path_loop p (run pre) (dividers pre) = [] \<longleftrightarrow>
     (\<forall>i < length p. run (pre @ take i p) < YAFFS_MAX_NAME_LENGTH \<and> dividers (pre @ take i p) < 100)"
proof (induction p arbitrary: pre)
  case (Cons c p)
  have s: "(\<forall>i < length (c # p). P i) \<longleftrightarrow> P 0 \<and> (\<forall>i < length p. P (Suc i))" for P
    using All_less_Suc2 by simp
  have r: "run (pre @ [c]) = (if yaffsfs_IsPathDivider c then 0 else run pre + 1)"
    "dividers (pre @ [c]) = (if yaffsfs_IsPathDivider c then dividers pre + 1 else dividers pre)"
    by (simp_all add: run_def dividers_def)
  show ?case unfolding s using Cons [of "pre @ [c]"] r by (auto simp del: One_nat_def)
qed simp

text \<open>
  C33: a path passes \<^verbatim>\<open>yaffsfs_CheckPath\<close> just if before every character of it there are less than
  100 dividers, and less than 255 characters since the last of them; so every component has at most
  255 characters, and only the last one may have as many.
\<close>

theorem check_path_limits:
  "yaffsfs_CheckPath p = (if \<forall>i < length p. run (take i p) < 255 \<and> dividers (take i p) < 100 then 0 else -1)"
  using check_path_loop_spec [of p "[]"] by (simp add: yaffsfs_CheckPath_def run_def dividers_def YAFFS_MAX_NAME_LENGTH_def)

text \<open>A name of 255 characters passes, but not with a divider after it.\<close>

lemma run_replicate: "run (replicate n 97) = n" "dividers (replicate n 97) = 0"
  by (simp_all add: run_def dividers_def takeWhile_eq_all_conv yaffsfs_IsPathDivider_def)

theorem check_path_limits_witness:
  "yaffsfs_CheckPath (replicate 255 97) = 0 \<and> yaffsfs_CheckPath (replicate 255 97 @ [47]) = -1"
proof -
  obtain n :: nat where n: "n = 255" by simp
  have "yaffsfs_CheckPath (replicate n 97) = 0"
    unfolding check_path_limits using n by (simp add: run_replicate min_def)
  moreover have "\<not> (\<forall>i < Suc n. run (take i (replicate n 97 @ [47])) < 255 \<and> dividers (take i (replicate n 97 @ [47])) < 100)"
    using run_replicate(1) [of n] n by (intro notI, drule_tac spec [of _ n]) simp
  then have "yaffsfs_CheckPath (replicate n 97 @ [47]) = -1"
    unfolding check_path_limits by (simp only: length_append length_replicate list.size add_0 add_Suc_right if_False One_nat_def add_0_right)
  ultimately show ?thesis unfolding n by simp
qed

end
