(* ===== verification/Yaffs_Fs_Props.thy ===== *)
theory Yaffs_Fs_Props
  imports Yaffs_Fs_Steps Yaffs_Fs_Names_Props
begin

text \<open>
  What the direct interface does as a whole: the counts of its tables, the errors of writing,
  handles that are broken, and links that lead back to themselves.
\<close>

section \<open>The tables\<close>

text \<open>
  C5: from the first mount on, through any sequence of the calls of the interface that \<open>fs_step\<close>
  lists, the use counts are exact: a file descriptor counts the handles that refer to it, an inode
  the open descriptors that refer to it, and an inode is free just when no descriptor does; so an
  object stays in its inode as long as any handle can reach it.  The list has every call that
  changes the state but the forced end of a mount and the forced format, which close handles
  without these counts, and an open only if the handle that it returns has an object
  (what was opened is not a hard link whose object is missing).
\<close>

theorem handle_counts_kept:
  assumes "\<not> fs_ready fs" and "fs_step\<^sup>*\<^sup>* (yaffsfs_InitHandles fs) fs'"
  shows "tables_ok fs' \<and>
     (\<forall>h i. yaffsfs_HandleToInode fs' h = Some i \<longrightarrow> in_obj (fs_inodes fs' ! i) \<noteq> None \<and> in_count (fs_inodes fs' ! i) > 0)"
proof -
  have ok: "tables_ok fs'" using assms(2)
    by (induction rule: rtranclp_induct) (simp_all add: init_handles_ok [OF assms(1)] fs_step_ok)
  have "in_obj (fs_inodes fs' ! i) \<noteq> None \<and> in_count (fs_inodes fs' ! i) > 0" if h: "yaffsfs_HandleToInode fs' h = Some i" for h i
  proof -
    obtain f where f: "f < length (fs_fds fs')" "fd_inodeId (fs_fds fs' ! f) = int i" "i < length (fs_inodes fs')"
      using h by (auto simp: yaffsfs_HandleToInode_def Let_def dest!: to_fd split: Option.bind_splits if_splits)
    show ?thesis using opens_pos [OF f(1,2)] ok f(3) unfolding tables_ok_def fd_table_ok_def by force
  qed
  then show ?thesis using ok by blast
qed

theorem handle_counts_kept_witness:
  "\<exists>fs'. yaffs_open_sharing_reldir (yaffsfs_InitHandles fs_start) None (Some [47]) 0 0 3 = Some (0, fs') \<and>
     yaffsfs_HandleToObject fs' 0 = Some (0, 0) \<and> tables_ok fs'"
proof -
  let ?fs = "yaffsfs_InitHandles fs_start"
  have "map_option (\<lambda>(v, fs). (v, yaffsfs_HandleToObject fs 0))
      (yaffs_open_sharing_reldir ?fs None (Some [47]) 0 0 3) = Some (0, Some (0, 0))" by code_simp
  then obtain fs' where o': "yaffs_open_sharing_reldir ?fs None (Some [47]) 0 0 3 = Some (0, fs')"
    "yaffsfs_HandleToObject fs' 0 = Some (0, 0)" by auto
  have n: "\<not> fs_ready fs_start" by (simp add: fs_start_def Let_def)
  have "fs_step ?fs fs'" by (rule step_open [OF o'(1)]) (simp add: o'(2))
  then have "fs_step\<^sup>*\<^sup>* ?fs fs'" by (rule r_into_rtranclp)
  then show ?thesis using handle_counts_kept [OF n] o' by blast
qed

section \<open>Errors of writing\<close>

text \<open>
  C26: when \<^verbatim>\<open>yaffs_write\<close> writes nothing, the error is always \<^verbatim>\<open>EFAULT\<close>, \<^verbatim>\<open>EBADF\<close>, \<^verbatim>\<open>EROFS\<close> or \<^verbatim>\<open>EINVAL\<close>:
  the \<^verbatim>\<open>ENOSPC\<close> that the loop sets when there is no space is overwritten before the call returns.
\<close>

theorem write_never_enospc:
  assumes r: "yaffs_write fs h vbuf n = Some (r, fs')" and none: "r \<le> 0"
  shows "fs_error fs' \<in> {- EFAULT, - EBADF, - EROFS, - EINVAL}"
proof (cases "\<exists>buf f d a. vbuf = Some buf \<and> yaffsfs_HandleToFileDes fs h = Some f \<and> yaffsfs_HandleToObject fs h = Some (d, a) \<and>
    fd_writing (fs_fds fs ! f) \<and> dev_read_only fs d = Some False")
  case False
  then show ?thesis using r
    by (auto simp: yaffs_write_def yaffsfs_do_write_def fs_fail_def yaffsfs_SetError_def
        split: option.splits if_splits Option.bind_splits)
next
  case True
  then obtain buf f d a where h: "vbuf = Some buf" "yaffsfs_HandleToFileDes fs h = Some f" "yaffsfs_HandleToObject fs h = Some (d, a)"
    "\<not> \<not> fd_writing (fs_fds fs ! f)" "dev_read_only fs d = Some False" by blast
  note r1 = r [unfolded yaffs_write_def yaffsfs_do_write_def h(1-3) option.case prod.case if_not_P [OF h(4)] h(5)
      Option.bind.bind_lunit if_False]
  obtain t fs4 pos where 4: "fs' = (if t > 0 then upd_fd fs4 f (\<lambda>x. x\<lparr>fd_v := Position (pos + t)\<rparr>) else yaffsfs_SetError (- EINVAL) fs4)"
    "r = (if t \<ge> 0 then t else -1)"
    using r1 by (auto simp: Let_def split: Option.bind_splits prod.splits)
  then show ?thesis using none by (auto simp: yaffsfs_SetError_def split: if_splits)
qed

theorem write_never_enospc_witness:
  "\<exists>fs'. yaffs_write (yaffsfs_InitHandles fs_start) 5 (Some [1]) 1 = Some (-1, fs') \<and>
     fs_error fs' \<in> {- EFAULT, - EBADF, - EROFS, - EINVAL}"
proof -
  have "map_option fst (yaffs_write (yaffsfs_InitHandles fs_start) 5 (Some [1]) 1) = Some (-1)" by code_simp
  then obtain fs' where w: "yaffs_write (yaffsfs_InitHandles fs_start) 5 (Some [1]) 1 = Some (-1, fs')" by auto
  from write_never_enospc [OF w] w show ?thesis by simp
qed

section \<open>Broken handles\<close>

lemma put_inode_handles:
  assumes "yaffsfs_PutInode fs i = Some fs'"
  shows "fs_handles fs' = fs_handles fs"
proof (cases "0 \<le> i \<and> i < int (length (fs_inodes fs))")
  case True
  then have "yaffsfs_PutInode fs (int (nat i)) = Some fs'" "nat i < length (fs_inodes fs)" using assms by auto
  from put_inode_tabs [OF this] show ?thesis by (simp add: tabs_def)
qed (use assms in \<open>auto simp: yaffsfs_PutInode_def\<close>)

lemma break_loop_closes:
  "break_handles_loop is fs dev = Some fs' \<Longrightarrow> \<forall>i \<in> set is. i < length (fs_handles fs) \<Longrightarrow>
     length (fs_handles fs') = length (fs_handles fs) \<and>
     (\<forall>i < length (fs_handles fs). i \<in> set is \<or> h_useCount (fs_handles fs ! i) \<le> 0 \<longrightarrow> h_useCount (fs_handles fs' ! i) \<le> 0)"
proof (induction "is" arbitrary: fs)
  case (Cons i "is")
  define fs1 where "fs1 = (if h_useCount (fs_handles fs ! i) > 0
                    then upd_handle fs i (\<lambda>h. h\<lparr>h_useCount := 0, h_fdId := 0\<rparr>) else fs)"
  obtain fs2 where 2: "(case (yaffsfs_HandleToFileDes fs (int i), yaffsfs_HandleToObject fs (int i)) of
                  (Some k, Some (d, a)) \<Rightarrow>
                    if fd_handleCount (fs_fds fs1 ! k) > 0 \<and> d = dev then
                      do { let fs = upd_fd fs1 k (\<lambda>f. f\<lparr>fd_handleCount := 0\<rparr>);
                           fs \<leftarrow> yaffsfs_PutInode fs (fd_inodeId (fs_fds fs ! k));
                           Some (upd_fd fs k (\<lambda>f. f\<lparr>fd_inodeId := -1\<rparr>)) }
                    else Some fs1
                | _ \<Rightarrow> Some fs1) = Some fs2" "break_handles_loop is fs2 dev = Some fs'"
    using Cons.prems(1) [unfolded break_handles_loop.simps Let_def, folded fs1_def, unfolded Option.bind_eq_Some_conv]
    unfolding Let_def by blast
  have "fs_handles fs2 = fs_handles fs1"
    using 2(1) by (auto simp: upd_fd_def Let_def dest!: put_inode_handles split: option.splits if_splits Option.bind_splits prod.splits)
  then have h2: "length (fs_handles fs2) = length (fs_handles fs)"
    "\<And>j. j < length (fs_handles fs) \<Longrightarrow> j = i \<or> h_useCount (fs_handles fs ! j) \<le> 0 \<Longrightarrow> h_useCount (fs_handles fs2 ! j) \<le> 0"
    using Cons.prems(2) by (auto simp: fs1_def upd_handle_def nth_list_update split: if_splits)
  have "length (fs_handles fs') = length (fs_handles fs2) \<and>
     (\<forall>i < length (fs_handles fs2). i \<in> set is \<or> h_useCount (fs_handles fs2 ! i) \<le> 0 \<longrightarrow> h_useCount (fs_handles fs' ! i) \<le> 0)"
    using Cons.IH [OF 2(2)] Cons.prems(2) h2(1) by simp
  then show ?case using h2 by auto
qed simp

text \<open>
  C34: when a device is taken away by force, \<^verbatim>\<open>yaffsfs_BreakDeviceHandles\<close> closes every handle there is,
  those of other devices too.
\<close>

theorem break_closes_all:
  assumes "yaffsfs_BreakDeviceHandles fs dev = Some fs'"
  shows "yaffsfs_HandleToFileDes fs' h = None"
proof -
  have "\<forall>i < length (fs_handles fs'). h_useCount (fs_handles fs' ! i) \<le> 0"
    using break_loop_closes [OF assms [unfolded yaffsfs_BreakDeviceHandles_def]] by auto
  then show ?thesis using to_fd [of fs' h] by (cases "yaffsfs_HandleToFileDes fs' h") (auto simp: linorder_not_less [symmetric])
qed

theorem break_closes_all_witness:
  "\<exists>(fs :: unit yaffsfs) fs'. yaffsfs_HandleToObject fs 0 = Some (0, 0) \<and> yaffsfs_BreakDeviceHandles fs 1 = Some fs' \<and>
     yaffsfs_HandleToFileDes fs' 0 = None"
proof -
  let ?open = "yaffs_open_sharing_reldir (yaffsfs_InitHandles fs_start) None (Some [47]) 0 0 3"
  have "(case ?open of None \<Rightarrow> False | Some (v, fs) \<Rightarrow>
       yaffsfs_HandleToObject fs 0 = Some (0, 0) \<and> yaffsfs_BreakDeviceHandles fs 1 \<noteq> None)" by code_simp
  then obtain v fs fs' where "?open = Some (v, fs)" "yaffsfs_HandleToObject fs 0 = Some (0, 0)"
    and b: "yaffsfs_BreakDeviceHandles fs 1 = Some fs'" by (auto split: option.splits)
  then show ?thesis using break_closes_all [OF b] by blast
qed

section \<open>Links that lead to themselves\<close>

text \<open>
  C22: a symbolic link whose alias goes through the link itself (\<^verbatim>\<open>a -> a/b\<close>) is followed without
  end: however many calls of \<^verbatim>\<open>yaffsfs_FollowLink\<close> may nest, they are not enough.  The depth that is meant
  to stop this is handed on unchanged to the nested calls.
\<close>

theorem follow_link_unbounded:
  assumes x: "fs_obj fs r = Some x" "o_variant x = SymlinkVar (Some (name @ 47 # rest))"
    and e: "equivalent_obj fs (Some r) = Some (Some r, fs)" and p: "parent_of fs r = Some (Some up)"
    and l: "look_up fs up name = Some (Some r, fs)"
    and name: "name \<noteq> []" "47 \<notin> set name" "length name \<le> 255" "name \<noteq> [46]" "name \<noteq> [46, 46]"
    and d: "depth \<le> YAFFSFS_MAX_SYMLINK_DEREFERENCES"
  shows "yaffsfs_FollowLink stack fs (Some r) depth = None"
proof (induction stack)
  case (Suc stack)
  let ?f = "yaffsfs_FollowLink stack"
  have nd: "\<forall>c \<in> set name. in_name c" using name(2) by (auto simp: yaffsfs_IsPathDivider_def)
  have div: "yaffsfs_IsPathDivider 47" by (simp add: yaffsfs_IsPathDivider_def)
  have h: "\<not> yaffsfs_IsPathDivider (hd name)" using nd name(1) by simp
  have sk: "skip_dividers (name @ 47 # rest) = name @ 47 # rest" using h name(1) by (cases name) simp_all
  have dw: "dropWhile in_name (name @ 47 # rest) = 47 # rest" and tw: "takeWhile in_name (name @ 47 # rest) = name"
    using nd div by (simp_all add: dropWhile_append2 takeWhile_append2)
  have "walk_path ?f fs (Some up) (name @ 47 # rest) depth False = None"
    using name l Suc by (subst walk_path.simps) (simp add: sk dw tw div Let_def YAFFS_MAX_NAME_LENGTH_def)
  then have "find_object_with ?f fs (Some up) (name @ 47 # rest) depth True = None"
    using d by (simp add: find_object_with_def find_directory_with_def)
  then have "follow_rounds 9 ?f fs (Some r) depth False = None"
    using x p h name(1) by (simp add: eval_nat_numeral)
  then show ?case using e by simp
qed simp

text \<open>A directory with the link \<^verbatim>\<open>a\<close> to \<^verbatim>\<open>a/\<close>.\<close>

definition loop_heap :: obj_heap where
  "loop_heap = [0 \<mapsto> zero_obj\<lparr>o_variant := DirVar [1] False\<rparr>,
     1 \<mapsto> zero_obj\<lparr>o_obj_id := 300, o_parent := Some 0, o_short_name := [97, 0], o_variant := SymlinkVar (Some [97, 47])\<rparr>]"

definition loop_fs :: "unit yaffsfs" where
  "loop_fs = fs_start\<lparr>fs_devs := [0 \<mapsto> \<lparr>dev_name = Some [47], max_objects = 0,
     dev_sys = small_sys\<lparr>objs := loop_heap\<rparr>\<rparr>]\<rparr>"

lemma loop_objs:
  "sys_of loop_fs 0 = Some (small_sys\<lparr>objs := loop_heap\<rparr>)" "fs_obj loop_fs (0, a) = loop_heap a"
  by (simp_all add: loop_fs_def sys_of_def fs_obj_def)

lemma on_sys_same:
  assumes "sys_of fs d = Some s" "f s = Some (r, s)"
  shows "on_sys fs d f = Some (r, fs)"
proof -
  obtain dv where dv: "fs_devs fs d = Some dv" "dev_sys dv = s" using assms(1) by (auto simp: sys_of_def)
  then have "put_sys fs d s = fs" by (cases dv) (simp add: put_sys_def fun_upd_idem)
  then show ?thesis using assms by (simp add: on_sys_def)
qed

lemma name_same_state:
  "yaffs_check_obj_details_loaded s (Some a) = Some s \<Longrightarrow> objs s a = Some x \<Longrightarrow> o_obj_id x \<noteq> 2 \<Longrightarrow> cstr (o_short_name x) \<noteq> [] \<Longrightarrow>
     yaffs_get_obj_name s a n = map_option (\<lambda>(k, b, s'). (k, b, s)) (yaffs_get_obj_name s a n)"
  by (auto simp: yaffs_get_obj_name_def split: Option.bind_splits)

theorem follow_link_unbounded_witness:
  "fs_obj loop_fs (0, 1) = loop_heap 1 \<and> yaffsfs_FollowLink 1000 loop_fs (Some (0, 1)) 0 = None"
proof -
  let ?s = "small_sys\<lparr>objs := loop_heap\<rparr>"
  let ?x = "zero_obj\<lparr>o_obj_id := 300, o_parent := Some 0, o_short_name := [97, 0], o_variant := SymlinkVar (Some [97, 47])\<rparr>"
  have x: "objs ?s 1 = Some ?x" by (simp add: loop_heap_def)
  have c: "yaffs_check_obj_details_loaded ?s (Some 1) = Some ?s"
    using x by (simp add: yaffs_check_obj_details_loaded_def zero_obj_def)
  have "map_option (\<lambda>(k, b, s). str_same [97] b YAFFS_MAX_NAME_LENGTH) (yaffs_get_obj_name ?s 1 (YAFFS_MAX_NAME_LENGTH + 1)) = Some True"
    by code_simp
  then obtain k b where kb: "yaffs_get_obj_name ?s 1 (YAFFS_MAX_NAME_LENGTH + 1) = Some (k, b, ?s)" "str_same [97] b YAFFS_MAX_NAME_LENGTH"
    using name_same_state [OF c x, of "YAFFS_MAX_NAME_LENGTH + 1"] by (auto simp: cstr_def)
  have "objs ?s 0 = Some (zero_obj\<lparr>o_variant := DirVar [1] False\<rparr>)" by (simp add: loop_heap_def)
  then have f: "yaffs_find_by_name ?s 0 (Some [97]) = Some (Some 1, ?s)"
    using kb c x by (simp add: yaffs_find_by_name_def zero_obj_def)
  have "yaffsfs_FollowLink 1000 loop_fs (Some (0, 1)) 0 = None"
  proof (rule follow_link_unbounded [where name = "[97]" and rest = "[]"])
    show "fs_obj loop_fs (0, 1) = Some ?x" using loop_objs(2) x by simp
    show "equivalent_obj loop_fs (Some (0, 1)) = Some (Some (0, 1), loop_fs)"
      using x by (simp add: equivalent_obj_def on_sys_same [OF loop_objs(1)] yaffs_get_equivalent_obj_def zero_obj_def)
    show "parent_of loop_fs (0, 1) = Some (Some (0, 0))" using loop_objs(2) x by (simp add: parent_of_def zero_obj_def)
    show "look_up loop_fs (0, 0) [97] = Some (Some (0, 1), loop_fs)"
      using f by (simp add: look_up_def on_sys_same [OF loop_objs(1)])
  qed simp_all
  then show ?thesis by (simp add: loop_objs(2))
qed

end
