(* ===== verification/Spec2Isabelle.thy ===== *)
theory Spec2Isabelle
  imports Yaffs_TagsCompat Yaffs_Write_Props Yaffs_NameVal_Spec Yaffs_Soft_Del Yaffs_Gc_Choice Yaffs_Temp
    Yaffs_Mount_Props Yaffs_Scan_Props Yaffs_Search_Props Yaffs_Fs_Props
begin

text \<open>
  A model of the core of Yaffs, a log-structured file system for raw flash, as its direct
  (embedded) build compiles it, with its correctness properties.

  \<^bold>\<open>The program.\<close>  Flash is read and written in chunks and erased in blocks of chunks.  A
  driver moves raw bytes; a tag handler stores the tags of a chunk (object, chunk number,
  sequence number) beside its data.  Above them a table tells the state of each block and
  a bitmap the chunks in use; a new chunk always goes to the block being filled, and
  blocks with few live chunks are emptied by garbage collection.  Objects (files,
  directories, links) live in memory: a hash table by object id, a tree of directories,
  and for each file a tree of tnodes from chunk numbers to chunks of flash.  Their headers
  are chunks, too.  A small cache collects short writes, and a header has room for
  extended attributes.

  \<^bold>\<open>The theories\<close>, from the bottom up, with the sources they model.
  \<^item> Yaffs_Prelude, Yaffs_Types, Yaffs_Dev: shared lemmas, the tags, the block information,
    and \<^verbatim>\<open>struct yaffs_dev\<close> of guts.h as a record over the state of any flash.
  \<^item> Yaffs_Endian (endian.c), Yaffs_Ecc (ecc.c), Yaffs_PackedTags (packedtags1.c,
    packedtags2.c): byte order, ECC, packed tags.  Yaffs_Ecc_Correct has the proofs on ECC.
  \<^item> Yaffs_Flash, Yaffs_TagsMarshall (tagsmarshall.c), Yaffs_RamSim (yramsim.c): the
    interface of drivers and tag handlers as records of functions, the yaffs2 handler, and
    a driver on simulated memory.
  \<^item> Yaffs_Bitmap (bitmap.c), Yaffs_Blocks and Yaffs_Nand (parts of guts.c, nand.c,
    yaffs2.c, checkptrw.c), Yaffs_Write (guts.c, summary.c): the block table, allocation,
    erasure and retirement of blocks, chunk deletion, summaries, and the write loop.
    Yaffs_Block_Inv, Yaffs_Alloc, Yaffs_Dirty_Inv, Yaffs_Summary_Inv, Yaffs_Keeps,
    Yaffs_Page_Step, Yaffs_Write_Inv and Yaffs_Ram_Total carry the invariant \<open>dev_inv\<close>
    (counts, states and bits agree, in blocks of at most 511 chunks) through them; the locale
    \<open>flash_total\<close> says what a flash promises (it returns, keeps the size of its buffers and
    answers a write with \<^verbatim>\<open>YAFFS_OK\<close> or \<^verbatim>\<open>YAFFS_FAIL\<close>) and is interpreted on the RAM simulator
    under the yaffs2 handler.
  \<^item> Yaffs_Tnode (guts.c, allocator.c): the trees of files.  Yaffs_Tnode_Bits shows what the
    packed entries of a tnode hold, Yaffs_Tnode_Tree and Yaffs_Tnode_Map that look-up,
    insertion and pruning act on the map of a file, and Yaffs_File_Map states that as the
    locale \<open>chunk_map\<close>, interpreted on the code.
  \<^item> Yaffs_Obj, Yaffs_Names, Yaffs_Obj_Table, Yaffs_Obj_Info (guts.c, allocator.c,
    attribs.c): objects, names, times, headers as bytes, the hash table, directories.
    Yaffs_Obj_Inv, Yaffs_Dirs_Inv and Yaffs_New_Obj carry \<open>tree_state_ok\<close>: the hash table holds
    exactly the hashed objects, parents and children agree.
  \<^item> Yaffs_File_Chunks, Yaffs_Cache (cache.c), Yaffs_NameVal (nameval.c), Yaffs_Update_Oh,
    Yaffs_Gc_Select, Yaffs_Gc, Yaffs_File and Yaffs_Dir (guts.c, yaffs2.c): the chunks of
    files, the cache, extended attributes, object headers, garbage collection, reading and
    writing, and the operations on directories.  Yaffs_NameVal_Spec proves the attribute
    area a finite map (locale \<open>attr_map\<close>) as far as the moves of \<^verbatim>\<open>nval_del\<close> are defined,
    Yaffs_Gc_Choice has what the choice of a block can give and the candidate it keeps.
  \<^item> Yaffs_TagsCompat (tagscompat.c, packedtags1.c): the tags of yaffs1 in the spare area,
    with their own error correction.
  \<^item> Yaffs_Checkpt (checkptrw.c) writes and reads a stream of bytes in the blocks of the
    checkpoint; Yaffs_Checkpt_Stream and Yaffs_Checkpt_Read prove that what was written is
    read back.  Yaffs_Checkpt_Recs, Yaffs_Checkpt_Objs and Yaffs_Checkpt_Dev (yaffs2.c) are the
    records in it: the device, the objects, the tnodes, and saving and restoring all of them.
  \<^item> Yaffs_Qsort (qsort.c): the sort of an array, with the locale \<open>ordering_cmp\<close> for what it
    asks of a comparison; it is interpreted on the comparison of block sequence numbers.
  \<^item> Yaffs_Scan (yaffs2.c) and Yaffs_Scan1 (yaffs1.c) rebuild the objects and the files from the
    flash when there is no checkpoint; Yaffs_Mount (guts.c) starts and stops a device.
    Yaffs_Scan_Props and Yaffs_Mount_Props have their properties.
  \<^item> Yaffs_Temp (guts.c): the pool of temporary buffers, on its own.
  \<^item> Yaffs_Fs, Yaffs_Fs_Path, Yaffs_Fs_Dirs, Yaffs_Fs_Ops, Yaffs_Fs_Names and Yaffs_Fs_Devs
    (direct/yaffsfs.c): the interface programs call.  Handles, file descriptors and inodes;
    paths and links; opening, reading and writing of directories; of files; names,
    attributes and times; mounting and the space of a device.  Yaffs_Fs_Tables states what
    the tables keep (\<open>tables_ok\<close>: each count is the number of those that refer to the
    entry); Yaffs_Fs_Steps makes the calls the steps of a relation \<open>fs_step\<close>, all but the forced
    unmount and format, and shows that every step keeps it.  Yaffs_Fs_Names_Props reads paths as lists of components.
  \<^item> Yaffs_Write_Props, Yaffs_Obj_Props, Yaffs_File_Props, Yaffs_Soft_Del, Yaffs_Search_Props,
    Yaffs_Fs_Names_Props and Yaffs_Fs_Props state most of the properties with their
    witnesses; the others stand beside the lemmas they follow from.

  \<^bold>\<open>Conventions.\<close>  A step the C code cannot take without undefined behaviour or an endless
  loop (an index out of an array, a NULL or a freed object used, \<^verbatim>\<open>memcpy\<close> between regions that
  overlap, a loop without end) is None; all errors the code reports are values.  Unsigned
  fields that are compared and stored are words, other counters are integers; the page counts
  of a block, signed fields of ten bits, wrap at their width (\<open>s10\<close>), and a comparison that
  depends on the width is written out (\<open>pages_used\<close>, \<open>live_pages_below\<close>).  The header of
  an object is read and written in the buffer of a page through a cast, and
  \<open>oh_of_bytes\<close> and \<open>oh_to_bytes\<close> are the layout of that structure in memory.  An object
  pointer is an address in the map \<open>objs\<close>; freed addresses are not used again.  An intrusive
  list is the list of its members; a member of a list of siblings is in the list of its
  parent.  Allocations succeed or fail as the list \<open>kmallocs\<close> says, and memory that is read
  without having been set is a field of the state (\<open>temp_content\<close>, \<open>stack_tags\<close>), so that
  no theorem can depend on what it holds.  The clock is a list of the times to come.
  \<^verbatim>\<open>BUG()\<close> only prints, as in the direct build.

  \<^bold>\<open>Bounds.\<close>  Loops over blocks, chunks and slots recurse on the numbers the code counts.
  The write loop and the search for an object id are partial functions: that they return
  is part of the properties, with or without a limit of write attempts and for buckets of
  less than 999999 objects.  \<open>yaffs_update_oh\<close> may collect garbage, which updates headers again; the
  code cuts this recursion by \<^verbatim>\<open>gc_disable\<close>, and the model by passing the collector as an
  argument to the body (\<open>update_oh_with\<close>): inside a collection the argument is \<open>no_gc\<close>,
  which is None unless collection is disabled.

  The sort of qsort.c recurses on the length of its parts.  Links are followed by a chain
  of nested calls; their depth is bounded by the field \<open>fs_stack\<close>, the size of the stack,
  and a chain deeper than that is None (there are links for which no stack is enough); one
  call makes at most nine rounds, since no object is found any more once its counter has
  passed \<^verbatim>\<open>YAFFSFS_MAX_SYMLINK_DEREFERENCES\<close>.  Handles and their counts are integers: there
  are at most 100 of each, and the counts of references are bit fields wide enough for them.

  \<^bold>\<open>Not modelled.\<close>  The run-time verification of verify.c and all tracing only print, as does
  \<^verbatim>\<open>yaffs_dump_dev\<close>.  The callback \<^verbatim>\<open>sb_dirty_fn\<close> is not installed; \<^verbatim>\<open>remove_obj_fn\<close> is the one of
  the direct interface.  In the theories other than Yaffs_Temp a temporary buffer is a value.
  The lock of yaffsfs.c makes a call atomic, and calls are steps here; that the lock is let
  go between the pieces of a long read or write is not modelled.  The variants for Unicode
  names and for names without case are not compiled in the direct build.  The glue for
  Linux, RTEMS and U-Boot is written against interfaces that are not in the repository; the
  image makers, the other flash emulators and the tests are tools around the core.
\<close>

end
